(* ===== verification/Prelude.thy ===== *)
theory Prelude
  imports Complex_Main "HOL-Library.Product_Lexorder"
begin

text \<open>
  What the components share: Go's clock and duration arithmetic, the string functions of the
  standard library that the code calls, and the generic lemmas on lists and on sorting.

  Times are nanoseconds counted from Go's zero time, so \<open>time.Time{}\<close> is 0 and \<open>IsZero\<close>
  is a comparison with 0. Durations are nanoseconds. A float64 is an exact rational number: the
  rounding of the last bit, the infinities and NaN are outside the model.
\<close>

section \<open>Hint collections\<close>

named_theorems frame_simps \<open>fields an operation leaves alone\<close>
named_theorems guard_simps \<open>boolean guards of the code, unfolded\<close>
named_theorems inv_intros \<open>operations that keep an invariant\<close>

section \<open>Clock and durations\<close>

type_synonym time = int
type_synonym duration = int
type_synonym float64 = rat

abbreviation second :: duration where "second \<equiv> 1000000000"
abbreviation minute :: duration where "minute \<equiv> 60000000000"
abbreviation hour :: duration where "hour \<equiv> 3600000000000"
abbreviation millisecond :: duration where "millisecond \<equiv> 1000000"

text \<open>\<open>time.Time.IsZero\<close>.\<close>

definition is_zero :: "time \<Rightarrow> bool" where
  "is_zero t \<longleftrightarrow> t = 0"

text \<open>
  \<open>t.Sub(u)\<close> saturates at the ends of the int64 range, which matters when one of the two is the
  zero time.
\<close>

definition go_sub :: "time \<Rightarrow> time \<Rightarrow> duration" where
  "go_sub t u = max (- (2 ^ 63)) (min (2 ^ 63 - 1) (t - u))"

lemma go_sub_exact [simp]:
  "\<bar>t - u\<bar> < 2 ^ 63 \<Longrightarrow> go_sub t u = t - u"
  by (auto simp: go_sub_def)

lemma go_sub_self [simp]: "go_sub t t = 0"
  by (simp add: go_sub_def)

lemma go_sub_less_iff: "- (2 ^ 63) < d \<Longrightarrow> d \<le> 2 ^ 63 - 1 \<Longrightarrow> go_sub t u < d \<longleftrightarrow> t - u < d"
  by (auto simp: go_sub_def)

lemma go_sub_le_iff: "- (2 ^ 63) \<le> d \<Longrightarrow> d < 2 ^ 63 - 1 \<Longrightarrow> go_sub t u \<le> d \<longleftrightarrow> t - u \<le> d"
  by (auto simp: go_sub_def)

text \<open>\<open>time.Time.UnixNano\<close>: nanoseconds since 1970, from nanoseconds since year 1.\<close>

definition unix_nano :: "time \<Rightarrow> int" where
  "unix_nano t = t - 62135596800 * second"

section \<open>Integer division of Go\<close>

text \<open>Go truncates towards zero.\<close>

definition go_div :: "int \<Rightarrow> int \<Rightarrow> int" where
  "go_div a b = sgn a * sgn b * (\<bar>a\<bar> div \<bar>b\<bar>)"

lemma go_div_nonneg: "0 \<le> a \<Longrightarrow> 0 < b \<Longrightarrow> go_div a b = a div b"
  by (cases "a = 0") (auto simp: go_div_def)

section \<open>Strings\<close>

text \<open>
  A Go string is its bytes. \<open>strings.TrimSpace\<close> drops Unicode white space at both ends:
  \<open>space_len\<close> is the number of bytes of the white-space rune at the head of a string (0 if there
  is none), \<open>space_len_rev\<close> the same for the end of a string that is given reversed.
\<close>

definition ascii_space :: "char \<Rightarrow> bool" where
  "ascii_space c \<longleftrightarrow> c \<in> set [CHR 0x09, CHR 0x0A, CHR 0x0B, CHR 0x0C, CHR 0x0D, CHR 0x20]"

definition wide_space :: "char \<Rightarrow> char \<Rightarrow> char \<Rightarrow> bool" where
  "wide_space a b c \<longleftrightarrow>
     (a = CHR 0xE1 \<and> b = CHR 0x9A \<and> c = CHR 0x80) \<or>
     (a = CHR 0xE2 \<and> b = CHR 0x80 \<and>
       c \<in> set [CHR 0x80, CHR 0x81, CHR 0x82, CHR 0x83, CHR 0x84, CHR 0x85, CHR 0x86, CHR 0x87,
                CHR 0x88, CHR 0x89, CHR 0x8A, CHR 0xA8, CHR 0xA9, CHR 0xAF]) \<or>
     (a = CHR 0xE2 \<and> b = CHR 0x81 \<and> c = CHR 0x9F) \<or>
     (a = CHR 0xE3 \<and> b = CHR 0x80 \<and> c = CHR 0x80)"

definition latin_space :: "char \<Rightarrow> char \<Rightarrow> bool" where
  "latin_space a b \<longleftrightarrow> a = CHR 0xC2 \<and> (b = CHR 0x85 \<or> b = CHR 0xA0)"

fun trim_left :: "string \<Rightarrow> string" where
  "trim_left [] = []"
| "trim_left [a] = (if ascii_space a then [] else [a])"
| "trim_left [a, b] =
     (if ascii_space a then trim_left [b] else if latin_space a b then [] else [a, b])"
| "trim_left (a # b # c # s) =
     (if ascii_space a then trim_left (b # c # s)
      else if latin_space a b then trim_left (c # s)
      else if wide_space a b c then trim_left s
      else a # b # c # s)"

fun trim_right_rev :: "string \<Rightarrow> string" where
  "trim_right_rev [] = []"
| "trim_right_rev [a] = (if ascii_space a then [] else [a])"
| "trim_right_rev [a, b] =
     (if ascii_space a then trim_right_rev [b] else if latin_space b a then [] else [a, b])"
| "trim_right_rev (a # b # c # s) =
     (if ascii_space a then trim_right_rev (b # c # s)
      else if latin_space b a then trim_right_rev (c # s)
      else if wide_space c b a then trim_right_rev s
      else a # b # c # s)"

definition trim_space :: "string \<Rightarrow> string" where
  "trim_space s = rev (trim_right_rev (rev (trim_left s)))"

text \<open>
  \<open>strings.ToLower\<close> on the ASCII letters. No other rune maps to a letter of the words the code
  compares the result with (plus, pro, team, free).
\<close>

definition lower_char :: "char \<Rightarrow> char" where
  "lower_char c =
     (let n = (of_char c :: nat)
      in if 65 \<le> n \<and> n \<le> 90 then char_of (n + 32) else c)"

definition to_lower :: "string \<Rightarrow> string" where
  "to_lower s = map lower_char s"

text \<open>\<open>strings.EqualFold\<close> against a word in lower-case ASCII letters without k and s.\<close>

definition equal_fold :: "string \<Rightarrow> string \<Rightarrow> bool" where
  "equal_fold s w \<longleftrightarrow> to_lower s = to_lower w"

text \<open>\<open>strings.Contains\<close> and \<open>strings.HasPrefix\<close>.\<close>

fun has_prefix :: "string \<Rightarrow> string \<Rightarrow> bool" where
  "has_prefix s [] = True"
| "has_prefix [] (p # ps) = False"
| "has_prefix (c # cs) (p # ps) = (c = p \<and> has_prefix cs ps)"

fun contains :: "string \<Rightarrow> string \<Rightarrow> bool" where
  "contains [] w = (w = [])"
| "contains (c # cs) w = (has_prefix (c # cs) w \<or> contains cs w)"

lemma has_prefix_iff: "has_prefix s p \<longleftrightarrow> (\<exists>t. s = p @ t)"
  by (induction s p rule: has_prefix.induct) auto

lemma contains_iff: "contains s w \<longleftrightarrow> (\<exists>u v. s = u @ w @ v)"
proof (induction s)
  case Nil
  then show ?case by auto
next
  case (Cons c cs)
  have "(\<exists>u v. c # cs = u @ w @ v) \<longleftrightarrow> (\<exists>v. c # cs = w @ v) \<or> (\<exists>u v. cs = u @ w @ v)"
    (is "?l \<longleftrightarrow> ?r")
  proof
    assume ?l
    then obtain u v where "c # cs = u @ w @ v" by blast
    then show ?r by (cases u) auto
  next
    assume ?r
    then show ?l by (metis append_Cons append_Nil)
  qed
  with Cons.IH show ?case by (simp add: has_prefix_iff)
qed

section \<open>Lists\<close>

text \<open>The slice idiom \<open>append(xs[:i], xs[i+1:]...)\<close>.\<close>

definition remove_nth :: "nat \<Rightarrow> 'a list \<Rightarrow> 'a list" where
  "remove_nth i xs = take i xs @ drop (Suc i) xs"

lemma length_remove_nth [simp]:
  "i < length xs \<Longrightarrow> length (remove_nth i xs) = length xs - 1"
  by (simp add: remove_nth_def)

lemma map_remove_nth: "map f (remove_nth i xs) = remove_nth i (map f xs)"
  by (simp add: remove_nth_def take_map drop_map)

lemma set_remove_nth_subset: "set (remove_nth i xs) \<subseteq> set xs"
  by (auto simp: remove_nth_def dest: in_set_takeD in_set_dropD)

lemma distinct_remove_nth [simp]: "distinct xs \<Longrightarrow> distinct (remove_nth i xs)"
  by (simp add: remove_nth_def set_take_disj_set_drop_if_distinct)

lemma set_remove_nth_distinct:
  assumes "distinct xs" "i < length xs"
  shows "set (remove_nth i xs) = set xs - {xs ! i}"
proof -
  have "xs = take i xs @ xs ! i # drop (Suc i) xs"
    using assms(2) by (simp add: id_take_nth_drop)
  moreover from this assms(1) have "xs ! i \<notin> set (take i xs) \<union> set (drop (Suc i) xs)"
    by (metis UnE distinct_append distinct.simps(2) disjoint_iff list.set_intros(1))
  ultimately show ?thesis
    by (metis Diff_insert_absorb Un_insert_right list.simps(15) remove_nth_def set_append)
qed

lemma sorted_remove_nth [simp]:
  assumes "sorted xs"
  shows "sorted (remove_nth i xs)"
proof -
  have "sorted (take i xs @ drop i xs)" using assms by simp
  moreover have "set (drop (Suc i) xs) \<subseteq> set (drop i xs)"
    by (simp add: set_drop_subset_set_drop)
  ultimately show ?thesis
    unfolding remove_nth_def sorted_append using assms by (auto simp: sorted_wrt_drop)
qed

lemma filter_remove_eq:
  "distinct (map f xs) \<Longrightarrow> i < length xs \<Longrightarrow>
   remove_nth i xs = filter (\<lambda>x. f x \<noteq> f (xs ! i)) xs"
proof (induction xs arbitrary: i)
  case Nil
  then show ?case by simp
next
  case (Cons x xs)
  show ?case
  proof (cases i)
    case 0
    with Cons.prems have "filter (\<lambda>y. f y \<noteq> f x) xs = xs"
      by (fastforce simp: filter_id_conv image_iff)
    with 0 show ?thesis by (simp add: remove_nth_def)
  next
    case (Suc j)
    with Cons.prems have "f x \<noteq> f (xs ! j)" by auto
    with Suc Cons show ?thesis by (auto simp: remove_nth_def)
  qed
qed

text \<open>Counting the elements that satisfy a predicate.\<close>

lemma length_filter_le_mono:
  "(\<And>y. y \<in> set xs \<Longrightarrow> Q y \<Longrightarrow> P y) \<Longrightarrow> length (filter Q xs) \<le> length (filter P xs)"
  by (induction xs) (auto simp: le_SucI)

lemma length_filter_less:
  assumes "\<And>y. y \<in> set xs \<Longrightarrow> Q y \<Longrightarrow> P y" "x \<in> set xs" "P x" "\<not> Q x"
  shows "length (filter Q xs) < length (filter P xs)"
  using assms
proof (induction xs)
  case Nil
  then show ?case by simp
next
  case (Cons y ys)
  have le: "length (filter Q ys) \<le> length (filter P ys)"
    using Cons.prems(1) by (simp add: length_filter_le_mono)
  show ?case
  proof (cases "x \<in> set ys")
    case True
    with Cons have "length (filter Q ys) < length (filter P ys)" by simp
    with Cons.prems(1) [of y] show ?thesis by auto
  next
    case False
    with Cons.prems le show ?thesis by auto
  qed
qed

text \<open>Rotating the indices of a range is a permutation.\<close>

lemma mod_add_inj_le:
  fixes i j n s :: nat
  assumes "(s + i) mod n = (s + j) mod n" "i \<le> j" "j < n"
  shows "i = j"
proof -
  have "n dvd j - i" using mod_eq_dvd_iff_nat [of "s + i" "s + j" n] assms by simp
  with assms show ?thesis by (auto dest: dvd_imp_le)
qed

lemma mod_add_inj:
  fixes i j n s :: nat
  assumes "(s + i) mod n = (s + j) mod n" "i < n" "j < n"
  shows "i = j"
  using assms mod_add_inj_le [of s i n j] mod_add_inj_le [of s j n i] by (cases "i \<le> j") auto

end
