(* ===== verification/Account.thy ===== *)
theory Account
  imports Prelude
begin

text \<open>
  The account of the pool: \<open>auth/store.go\<close> (type \<open>Account\<close> and its methods) and the predicates of
  \<open>auth/premium_rate_limit.go\<close>. An operation that holds the account's lock is one function on the
  record; \<open>now\<close> is the clock it reads. Atomic counters and flags are fields like the others.
\<close>

section \<open>Data\<close>

datatype AccountStatus = StatusReady | StatusCooldown | StatusError

text \<open>The tier is a string in the code; \<open>TierUnset\<close> is the empty string of a fresh account.\<close>

datatype AccountHealthTier =
  TierUnset | HealthTierHealthy | HealthTierWarm | HealthTierRisky | HealthTierBanned

record account =
  DBID :: int
  RefreshToken :: string
  AccessToken :: string
  ExpiresAt :: time
  AccountID :: string
  Email :: string
  PlanType :: string
  ProxyURL :: string
  Status :: AccountStatus
  CooldownUtil :: time
  CooldownReason :: string
  ErrorMsg :: string
  UsagePercent7d :: float64
  UsagePercent7dValid :: bool
  Reset7dAt :: time
  UsagePercent5h :: float64
  UsagePercent5hValid :: bool
  Reset5hAt :: time
  UsageUpdatedAt :: time
  usageProbeInFlight :: bool
  recoveryProbeInFlight :: bool
  HealthTier :: AccountHealthTier
  SchedulerScore :: float64
  DispatchScore :: float64
  ScoreBiasEffective :: int
  BaseConcurrencyEffective :: int
  DynamicConcurrencyLimit :: int
  LatencyEWMA :: float64
  SuccessStreak :: int
  FailureStreak :: int
  LastSuccessAt :: time
  LastFailureAt :: time
  LastUnauthorizedAt :: time
  LastRateLimitedAt :: time
  LastTimeoutAt :: time
  LastServerErrorAt :: time
  LastRecoveryProbeAt :: time
  RecentResults :: "nat list"
  RecentResultsIdx :: nat
  RecentResultsCnt :: nat
  ActiveRequests :: int
  TotalRequests :: int
  LastUsedAt :: int
  Disabled :: int
  AddedAt :: int
  Locked :: int
  ScoreBiasOverride :: "int option"
  BaseConcurrencyOverride :: "int option"

text \<open>Go's zero value of the struct.\<close>

definition zero_account :: account where
  "zero_account = \<lparr>
     DBID = 0, RefreshToken = '''', AccessToken = '''', ExpiresAt = 0, AccountID = '''',
     Email = '''', PlanType = '''', ProxyURL = '''', Status = StatusReady, CooldownUtil = 0,
     CooldownReason = '''', ErrorMsg = '''', UsagePercent7d = 0, UsagePercent7dValid = False,
     Reset7dAt = 0, UsagePercent5h = 0, UsagePercent5hValid = False, Reset5hAt = 0,
     UsageUpdatedAt = 0, usageProbeInFlight = False, recoveryProbeInFlight = False,
     HealthTier = TierUnset, SchedulerScore = 0, DispatchScore = 0, ScoreBiasEffective = 0,
     BaseConcurrencyEffective = 0, DynamicConcurrencyLimit = 0, LatencyEWMA = 0,
     SuccessStreak = 0, FailureStreak = 0, LastSuccessAt = 0, LastFailureAt = 0,
     LastUnauthorizedAt = 0, LastRateLimitedAt = 0, LastTimeoutAt = 0, LastServerErrorAt = 0,
     LastRecoveryProbeAt = 0, RecentResults = replicate 20 0, RecentResultsIdx = 0,
     RecentResultsCnt = 0, ActiveRequests = 0, TotalRequests = 0, LastUsedAt = 0, Disabled = 0,
     AddedAt = 0, Locked = 0, ScoreBiasOverride = None, BaseConcurrencyOverride = None\<rparr>"

abbreviation premium5hUrgencyWindow :: duration where
  "premium5hUrgencyWindow \<equiv> 14400000000000"
abbreviation premium5hUrgencyMaxBonus :: float64 where "premium5hUrgencyMaxBonus \<equiv> 25"
abbreviation premium5hUrgencyMinRemainingPct :: float64 where
  "premium5hUrgencyMinRemainingPct \<equiv> 5"
abbreviation premium5hUrgencyFullRemainingPct :: float64 where
  "premium5hUrgencyFullRemainingPct \<equiv> 50"
abbreviation freeUsageRateLimitThresholdPct :: float64 where
  "freeUsageRateLimitThresholdPct \<equiv> 90"
abbreviation FreeUsageHardLimitPct :: float64 where "FreeUsageHardLimitPct \<equiv> 110"
abbreviation premium5hFallbackWindow :: duration where
  "premium5hFallbackWindow \<equiv> 18000000000000"
abbreviation day :: duration where "day \<equiv> 86400000000000"

section \<open>Small helpers\<close>

definition clampInt :: "int \<Rightarrow> int \<Rightarrow> int \<Rightarrow> int" where
  "clampInt value minValue maxValue =
     (if value < minValue then minValue
      else if value > maxValue then maxValue
      else value)"

definition concurrencyLimitForTier :: "int \<Rightarrow> AccountHealthTier \<Rightarrow> int" where
  "concurrencyLimitForTier baseLimit tier =
     (let baseLimit = (if baseLimit \<le> 0 then 1 else baseLimit) in
      case tier of
        HealthTierHealthy \<Rightarrow> baseLimit
      | HealthTierWarm \<Rightarrow> (let half = go_div baseLimit 2 in if half < 1 then 1 else half)
      | HealthTierRisky \<Rightarrow> 1
      | HealthTierBanned \<Rightarrow> 0
      | TierUnset \<Rightarrow> (if baseLimit \<ge> 2 then 2 else 1))"

definition defaultScoreBiasForPlan :: "string \<Rightarrow> int" where
  "defaultScoreBiasForPlan planType =
     (let p = to_lower (trim_space planType) in
      if p = ''team'' then 100
      else if p = ''pro'' \<or> p = ''plus'' then 50
      else 0)"

fun tierPriority :: "AccountHealthTier \<Rightarrow> int" where
  "tierPriority HealthTierHealthy = 3"
| "tierPriority HealthTierWarm = 2"
| "tierPriority HealthTierRisky = 1"
| "tierPriority _ = 0"

definition healthTierLocked :: "account \<Rightarrow> AccountHealthTier" where
  "healthTierLocked a =
     (if HealthTier a \<noteq> TierUnset then HealthTier a
      else if AccessToken a \<noteq> '''' then HealthTierHealthy
      else HealthTierWarm)"

definition recordLatencyLocked :: "account \<Rightarrow> duration \<Rightarrow> account" where
  "recordLatencyLocked a latency =
     (if latency \<le> 0 then a
      else let latencyMs = (of_int (go_div latency millisecond) :: float64) in
        if latencyMs \<le> 0 then a
        else if LatencyEWMA a = 0 then a\<lparr>LatencyEWMA := latencyMs\<rparr>
        else a\<lparr>LatencyEWMA := LatencyEWMA a * (8 / 10) + latencyMs * (2 / 10)\<rparr>)"

definition recordResultLocked :: "account \<Rightarrow> bool \<Rightarrow> account" where
  "recordResultLocked a success =
     (let a = a\<lparr>RecentResults := (RecentResults a)[RecentResultsIdx a := (if success then 1 else 0)]\<rparr>;
          a = a\<lparr>RecentResultsIdx := (RecentResultsIdx a + 1) mod length (RecentResults a)\<rparr>
      in if RecentResultsCnt a < length (RecentResults a)
         then a\<lparr>RecentResultsCnt := RecentResultsCnt a + 1\<rparr> else a)"

definition recentSuccessRateLocked :: "account \<Rightarrow> float64" where
  "recentSuccessRateLocked a =
     (if RecentResultsCnt a = 0 then 1
      else of_nat (sum_list (take (RecentResultsCnt a) (RecentResults a)))
             / of_nat (RecentResultsCnt a))"

definition linearDecay :: "float64 \<Rightarrow> duration \<Rightarrow> duration \<Rightarrow> float64" where
  "linearDecay base elapsed window =
     (if elapsed \<ge> window \<or> window \<le> 0 then 0
      else base * (1 - of_int elapsed / of_int window))"

section \<open>Plan and usage predicates\<close>

definition normalizePlanType :: "string \<Rightarrow> string" where
  "normalizePlanType plan = to_lower (trim_space plan)"

definition isPremium5hPlan :: "string \<Rightarrow> bool" where
  "isPremium5hPlan plan \<longleftrightarrow> normalizePlanType plan \<in> set [''plus'', ''pro'', ''team'']"

definition premium5hRateLimitedLocked :: "account \<Rightarrow> time \<Rightarrow> bool" where
  "premium5hRateLimitedLocked a now =
     (if \<not> isPremium5hPlan (PlanType a) then False
      else if \<not> UsagePercent5hValid a \<or> UsagePercent5h a < 100 then False
      else if is_zero (Reset5hAt a) then False
      else Reset5hAt a > now)"

definition premium5hRateLimitWindowLocked :: "account \<Rightarrow> time \<Rightarrow> bool \<times> time" where
  "premium5hRateLimitWindowLocked a now =
     (if \<not> premium5hRateLimitedLocked a now then (False, 0) else (True, Reset5hAt a))"

definition premium5hCooldownSuppressedLocked :: "account \<Rightarrow> time \<Rightarrow> bool" where
  "premium5hCooldownSuppressedLocked a now =
     (if Status a \<noteq> StatusCooldown \<or> CooldownReason a \<noteq> ''rate_limited'' then False
      else fst (premium5hRateLimitWindowLocked a now))"

definition usageExhaustedLocked :: "account \<Rightarrow> bool" where
  "usageExhaustedLocked a \<longleftrightarrow>
     UsagePercent7dValid a \<and> equal_fold (PlanType a) ''free'' \<and>
     UsagePercent7d a \<ge> FreeUsageHardLimitPct"

definition freeUsageRateLimitedLocked :: "account \<Rightarrow> bool" where
  "freeUsageRateLimitedLocked a =
     (if \<not> UsagePercent7dValid a then False
      else if \<not> equal_fold (PlanType a) ''free'' then False
      else UsagePercent7d a \<ge> freeUsageRateLimitThresholdPct \<and>
           UsagePercent7d a < FreeUsageHardLimitPct)"

section \<open>Scheduling score\<close>

record SchedulerBreakdown =
  UnauthorizedPenalty :: float64
  RateLimitPenalty :: float64
  TimeoutPenalty :: float64
  ServerPenalty :: float64
  FailurePenalty :: float64
  SuccessBonus :: float64
  ProvenBonus :: float64
  UsagePenalty7d :: float64
  UsageUrgencyBonus5h :: float64
  LatencyPenalty :: float64
  SuccessRatePenalty :: float64

text \<open>The four clock-driven penalties share one shape: nothing for the zero time.\<close>

definition decay_since :: "time \<Rightarrow> time \<Rightarrow> float64 \<Rightarrow> duration \<Rightarrow> float64" where
  "decay_since now stamp base window =
     (if \<not> is_zero stamp then linearDecay base (go_sub now stamp) window else 0)"

definition usage_penalty_7d :: "account \<Rightarrow> float64" where
  "usage_penalty_7d a =
     (if UsagePercent7dValid a \<and> equal_fold (PlanType a) ''free'' then
        if UsagePercent7d a \<ge> FreeUsageHardLimitPct then 50
        else if UsagePercent7d a \<ge> 100 then 40
        else if UsagePercent7d a \<ge> 95 then 30
        else if UsagePercent7d a \<ge> freeUsageRateLimitThresholdPct then 25
        else if UsagePercent7d a \<ge> 85 then 18
        else if UsagePercent7d a \<ge> 70 then 8
        else 0
      else 0)"

definition latency_penalty :: "account \<Rightarrow> float64" where
  "latency_penalty a =
     (if LatencyEWMA a \<ge> 20000 then 15
      else if LatencyEWMA a \<ge> 10000 then 8
      else if LatencyEWMA a \<ge> 5000 then 4
      else 0)"

definition success_rate_penalty :: "account \<Rightarrow> float64" where
  "success_rate_penalty a =
     (if RecentResultsCnt a \<ge> 5 then
        let rate = recentSuccessRateLocked a in
        if rate < 1 / 2 then 15 else if rate < 3 / 4 then 8 else 0
      else 0)"

definition schedulerBreakdownLocked :: "account \<Rightarrow> time \<Rightarrow> SchedulerBreakdown" where
  "schedulerBreakdownLocked a now =
     (let premium5hLimited = premium5hRateLimitedLocked a now in
      \<lparr>UnauthorizedPenalty = decay_since now (LastUnauthorizedAt a) 50 day,
       RateLimitPenalty = decay_since now (LastRateLimitedAt a) 22 hour,
       TimeoutPenalty = decay_since now (LastTimeoutAt a) 18 (15 * minute),
       ServerPenalty = decay_since now (LastServerErrorAt a) 12 (15 * minute),
       FailurePenalty = of_int (clampInt (FailureStreak a * 6) 0 24),
       SuccessBonus =
         (if \<not> premium5hLimited then of_int (clampInt (SuccessStreak a * 2) 0 12) else 0),
       ProvenBonus = (if \<not> premium5hLimited \<and> TotalRequests a > 10 then 20 else 0),
       UsagePenalty7d = usage_penalty_7d a,
       UsageUrgencyBonus5h = 0,
       LatencyPenalty = latency_penalty a,
       SuccessRatePenalty = success_rate_penalty a\<rparr>)"

definition premium5hUsageUrgencyBonusLocked :: "account \<Rightarrow> time \<Rightarrow> float64" where
  "premium5hUsageUrgencyBonusLocked a now =
     (if \<not> isPremium5hPlan (PlanType a) then 0
      else if \<not> UsagePercent5hValid a \<or> is_zero (Reset5hAt a) then 0
      else if UsagePercent5h a \<ge> 100 \<or> premium5hRateLimitedLocked a now then 0
      else if AccessToken a = '''' \<or> Status a = StatusError \<or> HealthTier a = HealthTierBanned then 0
      else if Status a = StatusCooldown \<and> now < CooldownUtil a then 0
      else if usageExhaustedLocked a then 0
      else
        let timeRemaining = go_sub (Reset5hAt a) now in
        if timeRemaining \<le> 0 \<or> timeRemaining > premium5hUrgencyWindow then 0
        else
          let quotaRemaining = 100 - UsagePercent5h a in
          if quotaRemaining \<le> premium5hUrgencyMinRemainingPct then 0
          else
            let timeFactor = 1 - of_int timeRemaining / of_int premium5hUrgencyWindow;
                quotaFactor = quotaRemaining / premium5hUrgencyFullRemainingPct;
                quotaFactor = (if quotaFactor > 1 then 1 else quotaFactor);
                quotaFactor = (if quotaFactor < 0 then 0 else quotaFactor)
            in premium5hUrgencyMaxBonus * timeFactor * quotaFactor)"

definition effectiveBaseConcurrencyLocked :: "account \<Rightarrow> int \<Rightarrow> int" where
  "effectiveBaseConcurrencyLocked a storeBaseLimit =
     (case BaseConcurrencyOverride a of
        Some n \<Rightarrow> if n > 0 then n else if storeBaseLimit \<le> 0 then 1 else storeBaseLimit
      | None \<Rightarrow> if storeBaseLimit \<le> 0 then 1 else storeBaseLimit)"

definition dispatchBonusEligibleLocked :: "account \<Rightarrow> time \<Rightarrow> AccountHealthTier \<Rightarrow> bool" where
  "dispatchBonusEligibleLocked a now tier =
     (if tier \<noteq> HealthTierHealthy \<and> tier \<noteq> HealthTierWarm then False
      else if Status a = StatusError then False
      else if Status a = StatusCooldown \<and> now < CooldownUtil a then False
      else if healthTierLocked a = HealthTierBanned then False
      else if usageExhaustedLocked a then False
      else if AccessToken a = '''' then False
      else True)"

definition effectiveScoreBiasLocked :: "account \<Rightarrow> time \<Rightarrow> AccountHealthTier \<Rightarrow> int" where
  "effectiveScoreBiasLocked a now tier =
     (if \<not> dispatchBonusEligibleLocked a now tier then 0
      else case ScoreBiasOverride a of
        Some b \<Rightarrow> b
      | None \<Rightarrow> defaultScoreBiasForPlan (PlanType a))"

definition breakdown_score :: "SchedulerBreakdown \<Rightarrow> float64" where
  "breakdown_score b =
     100 - UnauthorizedPenalty b - RateLimitPenalty b - TimeoutPenalty b - ServerPenalty b
         - FailurePenalty b - UsagePenalty7d b - LatencyPenalty b - SuccessRatePenalty b
         + SuccessBonus b + ProvenBonus b"

text \<open>The tier that \<open>recomputeSchedulerLocked\<close> derives from the score and the signals.\<close>

definition recomputed_tier :: "account \<Rightarrow> time \<Rightarrow> float64 \<Rightarrow> AccountHealthTier" where
  "recomputed_tier a now score =
     (let tier = (if score < 60 then HealthTierRisky
                  else if score < 85 then HealthTierWarm
                  else HealthTierHealthy);
          tier = (if LastFailureAt a > LastSuccessAt a \<and> \<not> is_zero (LastFailureAt a)
                     \<and> tier = HealthTierHealthy
                  then HealthTierWarm else tier);
          tier = (if \<not> is_zero (LastUnauthorizedAt a) \<and> go_sub now (LastUnauthorizedAt a) < day
                     \<and> tier = HealthTierHealthy
                  then HealthTierWarm else tier);
          tier = (if UsagePercent7dValid a \<and> equal_fold (PlanType a) ''free'' then
                    if UsagePercent7d a \<ge> freeUsageRateLimitThresholdPct then HealthTierRisky
                    else if UsagePercent7d a \<ge> 85 \<and> tier = HealthTierHealthy then HealthTierWarm
                    else tier
                  else tier);
          tier = (if HealthTier a = HealthTierBanned then HealthTierBanned else tier)
      in if premium5hRateLimitedLocked a now \<and> tier \<noteq> HealthTierBanned
         then HealthTierRisky else tier)"

definition recomputeSchedulerLocked :: "account \<Rightarrow> int \<Rightarrow> time \<Rightarrow> account" where
  "recomputeSchedulerLocked a baseLimit now =
     (let breakdown = schedulerBreakdownLocked a now;
          score = breakdown_score breakdown;
          tier = recomputed_tier a now score;
          baseConcurrencyEffective = effectiveBaseConcurrencyLocked a baseLimit;
          scoreBiasEffective = effectiveScoreBiasLocked a now tier;
          urgency = (if dispatchBonusEligibleLocked a now tier
                     then premium5hUsageUrgencyBonusLocked a now else 0);
          dispatchScore = score + of_int scoreBiasEffective + urgency;
          limit = concurrencyLimitForTier baseConcurrencyEffective tier
      in a\<lparr>HealthTier := tier,
           SchedulerScore := score,
           DispatchScore := dispatchScore,
           ScoreBiasEffective := scoreBiasEffective,
           BaseConcurrencyEffective := baseConcurrencyEffective,
           DynamicConcurrencyLimit :=
             (if premium5hRateLimitedLocked a now \<and> limit > 1 then 1 else limit)\<rparr>)"

definition schedulerSnapshot ::
  "account \<Rightarrow> int \<Rightarrow> time \<Rightarrow> account \<times> AccountHealthTier \<times> float64 \<times> float64 \<times> int" where
  "schedulerSnapshot a baseLimit now =
     (let a = recomputeSchedulerLocked a baseLimit now
      in (a, HealthTier a, SchedulerScore a, DispatchScore a, DynamicConcurrencyLimit a))"

section \<open>Availability and status\<close>

definition IsAvailable :: "account \<Rightarrow> time \<Rightarrow> bool" where
  "IsAvailable a now =
     (if Disabled a \<noteq> 0 then False
      else if Status a = StatusError then False
      else if healthTierLocked a = HealthTierBanned then False
      else if usageExhaustedLocked a then False
      else if premium5hRateLimitedLocked a now then False
      else if Status a = StatusCooldown \<and> now < CooldownUtil a then False
      else if Status a = StatusCooldown \<and> \<not> now < CooldownUtil a then AccessToken a \<noteq> ''''
      else AccessToken a \<noteq> '''')"

definition NeedsRefresh :: "account \<Rightarrow> time \<Rightarrow> bool" where
  "NeedsRefresh a now \<longleftrightarrow> go_sub (ExpiresAt a) now < 5 * minute"

definition HasActiveCooldown :: "account \<Rightarrow> time \<Rightarrow> bool" where
  "HasActiveCooldown a now \<longleftrightarrow> Status a = StatusCooldown \<and> now < CooldownUtil a"

definition IsBanned :: "account \<Rightarrow> bool" where
  "IsBanned a \<longleftrightarrow> healthTierLocked a = HealthTierBanned"

text \<open>The cooldown branch of \<open>RuntimeStatus\<close>, which the code writes twice.\<close>

definition cooldown_status :: "account \<Rightarrow> string" where
  "cooldown_status a =
     (if CooldownReason a = ''rate_limited'' then ''usage_exhausted''
      else if CooldownReason a \<noteq> '''' then CooldownReason a
      else ''cooldown'')"

definition RuntimeStatus :: "account \<Rightarrow> time \<Rightarrow> string" where
  "RuntimeStatus a now =
     (if healthTierLocked a = HealthTierBanned then ''unauthorized''
      else if usageExhaustedLocked a then ''usage_exhausted''
      else if premium5hRateLimitedLocked a now then ''usage_exhausted''
      else if Status a = StatusCooldown \<and> now < CooldownUtil a then cooldown_status a
      else if freeUsageRateLimitedLocked a then ''rate_limited''
      else case Status a of
        StatusError \<Rightarrow> ''error''
      | StatusCooldown \<Rightarrow> (if now < CooldownUtil a then cooldown_status a else ''active'')
      | StatusReady \<Rightarrow> (if AccessToken a \<noteq> '''' then ''active'' else ''error''))"

section \<open>Cooldown\<close>

definition SetCooldownUntil :: "account \<Rightarrow> time \<Rightarrow> string \<Rightarrow> account" where
  "SetCooldownUntil a until reason =
     (let a = a\<lparr>Status := StatusCooldown, CooldownUtil := until, CooldownReason := reason\<rparr> in
      if reason = ''unauthorized'' then a\<lparr>HealthTier := HealthTierBanned\<rparr>
      else if reason = ''rate_limited'' then
        if healthTierLocked a = HealthTierHealthy then a\<lparr>HealthTier := HealthTierWarm\<rparr>
        else a\<lparr>HealthTier := HealthTierRisky\<rparr>
      else if HealthTier a = TierUnset then a\<lparr>HealthTier := HealthTierWarm\<rparr>
      else a)"

definition SetCooldownWithReason :: "account \<Rightarrow> time \<Rightarrow> duration \<Rightarrow> string \<Rightarrow> account" where
  "SetCooldownWithReason a now duration reason = SetCooldownUntil a (now + duration) reason"

section \<open>Usage snapshots\<close>

definition SetUsageSnapshot :: "account \<Rightarrow> float64 \<Rightarrow> time \<Rightarrow> account" where
  "SetUsageSnapshot a pct updatedAt =
     a\<lparr>UsagePercent7d := pct, UsagePercent7dValid := True, UsageUpdatedAt := updatedAt\<rparr>"

definition SetUsageSnapshot5h :: "account \<Rightarrow> float64 \<Rightarrow> time \<Rightarrow> account" where
  "SetUsageSnapshot5h a pct resetAt =
     a\<lparr>UsagePercent5h := pct, UsagePercent5hValid := True, Reset5hAt := resetAt\<rparr>"

definition ClearUsageCache :: "account \<Rightarrow> account" where
  "ClearUsageCache a =
     a\<lparr>UsagePercent7d := 0, UsagePercent7dValid := False, Reset7dAt := 0,
       UsagePercent5h := 0, UsagePercent5hValid := False, Reset5hAt := 0, UsageUpdatedAt := 0\<rparr>"

section \<open>Probes\<close>

definition NeedsUsageProbe :: "account \<Rightarrow> duration \<Rightarrow> time \<Rightarrow> bool" where
  "NeedsUsageProbe a maxAge now =
     (if usageProbeInFlight a \<or> AccessToken a = '''' \<or> Status a = StatusError then False
      else if Status a = StatusCooldown \<and> CooldownReason a = ''unauthorized'' then False
      else if premium5hRateLimitedLocked a now then False
      else if Status a = StatusCooldown \<and> CooldownReason a = ''rate_limited'' then False
      else if \<not> UsagePercent7dValid a \<or> is_zero (UsageUpdatedAt a) then True
      else go_sub now (UsageUpdatedAt a) > maxAge)"

definition TryBeginUsageProbe :: "account \<Rightarrow> bool \<times> account" where
  "TryBeginUsageProbe a =
     (if usageProbeInFlight a then (False, a) else (True, a\<lparr>usageProbeInFlight := True\<rparr>))"

definition FinishUsageProbe :: "account \<Rightarrow> account" where
  "FinishUsageProbe a = a\<lparr>usageProbeInFlight := False\<rparr>"

definition NeedsRecoveryProbe :: "account \<Rightarrow> duration \<Rightarrow> time \<Rightarrow> bool" where
  "NeedsRecoveryProbe a minInterval now =
     (if recoveryProbeInFlight a \<or> healthTierLocked a \<noteq> HealthTierBanned then False
      else if RefreshToken a = '''' then False
      else if Status a = StatusCooldown \<and> now < CooldownUtil a then False
      else if \<not> is_zero (LastRecoveryProbeAt a)
           \<and> go_sub now (LastRecoveryProbeAt a) < minInterval then False
      else True)"

definition TryBeginRecoveryProbe :: "account \<Rightarrow> time \<Rightarrow> bool \<times> account" where
  "TryBeginRecoveryProbe a now =
     (if recoveryProbeInFlight a then (False, a)
      else (True, a\<lparr>recoveryProbeInFlight := True, LastRecoveryProbeAt := now\<rparr>))"

definition FinishRecoveryProbe :: "account \<Rightarrow> account" where
  "FinishRecoveryProbe a = a\<lparr>recoveryProbeInFlight := False\<rparr>"

section \<open>The store's reports, under the account's lock\<close>

text \<open>
  The sections of \<open>MarkCooldown\<close>, \<open>ClearCooldown\<close>, \<open>ReportRequestSuccess\<close>,
  \<open>ReportRequestFailure\<close> and \<open>MarkPremium5hRateLimited\<close> that run under \<open>acc.mu\<close>. The store's
  part (scheduler, database) is in the theory of the store.
\<close>

definition mark_cooldown_locked ::
  "account \<Rightarrow> int \<Rightarrow> time \<Rightarrow> duration \<Rightarrow> string \<Rightarrow> account \<times> duration" where
  "mark_cooldown_locked a baseLimit now duration reason =
     (let (a, duration) =
        (if reason = ''unauthorized'' then
           (a\<lparr>LastUnauthorizedAt := now, LastFailureAt := now,
              FailureStreak := FailureStreak a + 1, SuccessStreak := 0,
              HealthTier := HealthTierBanned\<rparr>,
            if \<not> is_zero (LastUnauthorizedAt a) \<and> go_sub now (LastUnauthorizedAt a) < day
            then day else 6 * hour)
         else if reason = ''rate_limited'' then
           (a\<lparr>LastRateLimitedAt := now, LastFailureAt := now,
              FailureStreak := FailureStreak a + 1, SuccessStreak := 0,
              HealthTier := (if healthTierLocked a = HealthTierHealthy
                             then HealthTierWarm else HealthTierRisky)\<rparr>, duration)
         else if reason = ''deactivated_workspace'' then
           (a\<lparr>LastUnauthorizedAt := now, LastFailureAt := now,
              FailureStreak := FailureStreak a + 1, SuccessStreak := 0,
              HealthTier := HealthTierBanned\<rparr>, duration)
         else (a, duration))
      in (recomputeSchedulerLocked a baseLimit now, duration))"

definition clear_cooldown_locked :: "account \<Rightarrow> int \<Rightarrow> time \<Rightarrow> account" where
  "clear_cooldown_locked a baseLimit now =
     (let a = a\<lparr>Disabled := 0\<rparr>;
          wasCooling = (Status a = StatusCooldown);
          premium5hLimited = premium5hRateLimitedLocked a now;
          a = (if Status a = StatusCooldown then a\<lparr>Status := StatusReady\<rparr> else a);
          a = a\<lparr>CooldownUtil := 0, CooldownReason := ''''\<rparr>;
          a = (if wasCooling \<and> \<not> premium5hLimited then a\<lparr>HealthTier := HealthTierWarm\<rparr> else a)
      in recomputeSchedulerLocked a baseLimit now)"

definition report_success_locked :: "account \<Rightarrow> int \<Rightarrow> time \<Rightarrow> duration \<Rightarrow> account" where
  "report_success_locked a baseLimit now latency =
     (let a = recordLatencyLocked a latency;
          a = recordResultLocked a True;
          a = a\<lparr>LastSuccessAt := now, SuccessStreak := clampInt (SuccessStreak a + 1) 0 20,
                FailureStreak := 0\<rparr>;
          a = (if HealthTier a = TierUnset then a\<lparr>HealthTier := HealthTierHealthy\<rparr> else a)
      in recomputeSchedulerLocked a baseLimit now)"

definition demoted :: "AccountHealthTier \<Rightarrow> AccountHealthTier" where
  "demoted tier = (if tier = HealthTierHealthy then HealthTierWarm else HealthTierRisky)"

definition report_failure_locked ::
  "account \<Rightarrow> int \<Rightarrow> time \<Rightarrow> string \<Rightarrow> duration \<Rightarrow> account" where
  "report_failure_locked a baseLimit now kind latency =
     (let a = recordLatencyLocked a latency;
          a = recordResultLocked a False;
          a = a\<lparr>LastFailureAt := now, FailureStreak := clampInt (FailureStreak a + 1) 0 20,
                SuccessStreak := 0\<rparr>;
          a = (if kind = ''unauthorized'' then
                 a\<lparr>LastUnauthorizedAt := now, HealthTier := HealthTierBanned\<rparr>
               else if kind = ''timeout'' then
                 a\<lparr>LastTimeoutAt := now, HealthTier := demoted (HealthTier a)\<rparr>
               else if kind = ''server'' then
                 a\<lparr>LastServerErrorAt := now, HealthTier := demoted (HealthTier a)\<rparr>
               else if kind = ''transport'' then a\<lparr>HealthTier := demoted (HealthTier a)\<rparr>
               else if kind = ''client'' \<and> HealthTier a = HealthTierHealthy then
                 a\<lparr>HealthTier := HealthTierWarm\<rparr>
               else a)
      in recomputeSchedulerLocked a baseLimit now)"

definition mark_premium5h_locked :: "account \<Rightarrow> int \<Rightarrow> time \<Rightarrow> time \<Rightarrow> account" where
  "mark_premium5h_locked a baseLimit now resetAt =
     (let a = a\<lparr>UsagePercent5h := 100, UsagePercent5hValid := True, Reset5hAt := resetAt,
                UsageUpdatedAt := now, LastRateLimitedAt := now\<rparr>;
          a = (if Status a = StatusCooldown \<and> CooldownReason a = ''rate_limited''
               then a\<lparr>Status := StatusReady, CooldownUtil := 0, CooldownReason := ''''\<rparr> else a);
          a = (if HealthTier a \<noteq> HealthTierBanned then a\<lparr>HealthTier := HealthTierRisky\<rparr> else a)
      in recomputeSchedulerLocked a baseLimit now)"

section \<open>Recomputing the scheduling state\<close>

lemma recompute_frame [simp, frame_simps]:
  "DBID (recomputeSchedulerLocked a b n) = DBID a"
  "RefreshToken (recomputeSchedulerLocked a b n) = RefreshToken a"
  "AccessToken (recomputeSchedulerLocked a b n) = AccessToken a"
  "ExpiresAt (recomputeSchedulerLocked a b n) = ExpiresAt a"
  "Email (recomputeSchedulerLocked a b n) = Email a"
  "PlanType (recomputeSchedulerLocked a b n) = PlanType a"
  "ProxyURL (recomputeSchedulerLocked a b n) = ProxyURL a"
  "Status (recomputeSchedulerLocked a b n) = Status a"
  "CooldownUtil (recomputeSchedulerLocked a b n) = CooldownUtil a"
  "CooldownReason (recomputeSchedulerLocked a b n) = CooldownReason a"
  "UsagePercent7d (recomputeSchedulerLocked a b n) = UsagePercent7d a"
  "UsagePercent7dValid (recomputeSchedulerLocked a b n) = UsagePercent7dValid a"
  "UsagePercent5h (recomputeSchedulerLocked a b n) = UsagePercent5h a"
  "UsagePercent5hValid (recomputeSchedulerLocked a b n) = UsagePercent5hValid a"
  "Reset5hAt (recomputeSchedulerLocked a b n) = Reset5hAt a"
  "usageProbeInFlight (recomputeSchedulerLocked a b n) = usageProbeInFlight a"
  "recoveryProbeInFlight (recomputeSchedulerLocked a b n) = recoveryProbeInFlight a"
  "LastSuccessAt (recomputeSchedulerLocked a b n) = LastSuccessAt a"
  "LastFailureAt (recomputeSchedulerLocked a b n) = LastFailureAt a"
  "LastUnauthorizedAt (recomputeSchedulerLocked a b n) = LastUnauthorizedAt a"
  "LastRateLimitedAt (recomputeSchedulerLocked a b n) = LastRateLimitedAt a"
  "LastTimeoutAt (recomputeSchedulerLocked a b n) = LastTimeoutAt a"
  "LastServerErrorAt (recomputeSchedulerLocked a b n) = LastServerErrorAt a"
  "LatencyEWMA (recomputeSchedulerLocked a b n) = LatencyEWMA a"
  "SuccessStreak (recomputeSchedulerLocked a b n) = SuccessStreak a"
  "FailureStreak (recomputeSchedulerLocked a b n) = FailureStreak a"
  "RecentResults (recomputeSchedulerLocked a b n) = RecentResults a"
  "RecentResultsIdx (recomputeSchedulerLocked a b n) = RecentResultsIdx a"
  "RecentResultsCnt (recomputeSchedulerLocked a b n) = RecentResultsCnt a"
  "ActiveRequests (recomputeSchedulerLocked a b n) = ActiveRequests a"
  "TotalRequests (recomputeSchedulerLocked a b n) = TotalRequests a"
  "LastUsedAt (recomputeSchedulerLocked a b n) = LastUsedAt a"
  "Disabled (recomputeSchedulerLocked a b n) = Disabled a"
  "AddedAt (recomputeSchedulerLocked a b n) = AddedAt a"
  "Locked (recomputeSchedulerLocked a b n) = Locked a"
  "ScoreBiasOverride (recomputeSchedulerLocked a b n) = ScoreBiasOverride a"
  "BaseConcurrencyOverride (recomputeSchedulerLocked a b n) = BaseConcurrencyOverride a"
  by (simp_all add: recomputeSchedulerLocked_def Let_def)

lemma recomputed_tier_banned_iff [simp]:
  "recomputed_tier a n s = HealthTierBanned \<longleftrightarrow> HealthTier a = HealthTierBanned"
  by (simp add: recomputed_tier_def Let_def)

lemma recomputed_tier_set [simp]: "recomputed_tier a n s \<noteq> TierUnset"
  by (simp add: recomputed_tier_def Let_def)

lemma recompute_HealthTier:
  "HealthTier (recomputeSchedulerLocked a b n) =
     recomputed_tier a n (breakdown_score (schedulerBreakdownLocked a n))"
  by (simp add: recomputeSchedulerLocked_def Let_def)

lemma recompute_banned_iff [simp]:
  "HealthTier (recomputeSchedulerLocked a b n) = HealthTierBanned
     \<longleftrightarrow> HealthTier a = HealthTierBanned"
  by (simp add: recompute_HealthTier)

lemma recompute_tier_set [simp]: "HealthTier (recomputeSchedulerLocked a b n) \<noteq> TierUnset"
  by (simp add: recompute_HealthTier)

lemma healthTierLocked_banned_iff [simp]:
  "healthTierLocked a = HealthTierBanned \<longleftrightarrow> HealthTier a = HealthTierBanned"
  by (auto simp: healthTierLocked_def)

text \<open>
  Every guard the score reads depends on the tier only through "is it banned", so the whole
  recomputation does.
\<close>

lemma premium_limited_cong:
  "PlanType a' = PlanType a \<Longrightarrow> UsagePercent5hValid a' = UsagePercent5hValid a \<Longrightarrow>
   UsagePercent5h a' = UsagePercent5h a \<Longrightarrow> Reset5hAt a' = Reset5hAt a \<Longrightarrow>
   premium5hRateLimitedLocked a' n = premium5hRateLimitedLocked a n"
  by (simp add: premium5hRateLimitedLocked_def)

lemma recompute_premium_limited [simp]:
  "premium5hRateLimitedLocked (recomputeSchedulerLocked a b n) m = premium5hRateLimitedLocked a m"
  by (rule premium_limited_cong) simp_all

lemma recompute_usage_exhausted [simp]:
  "usageExhaustedLocked (recomputeSchedulerLocked a b n) = usageExhaustedLocked a"
  by (simp add: usageExhaustedLocked_def)

lemma recompute_suppressed [simp]:
  "premium5hCooldownSuppressedLocked (recomputeSchedulerLocked a b n) m
     = premium5hCooldownSuppressedLocked a m"
  by (simp add: premium5hCooldownSuppressedLocked_def premium5hRateLimitWindowLocked_def)

text \<open>A copy of an account that differs in the fields the recomputation writes.\<close>

definition same_signals :: "account \<Rightarrow> account \<Rightarrow> bool" where
  "same_signals a a' \<longleftrightarrow>
     a'\<lparr>HealthTier := TierUnset, SchedulerScore := 0, DispatchScore := 0, ScoreBiasEffective := 0,
       BaseConcurrencyEffective := 0, DynamicConcurrencyLimit := 0\<rparr>
     = a\<lparr>HealthTier := TierUnset, SchedulerScore := 0, DispatchScore := 0, ScoreBiasEffective := 0,
       BaseConcurrencyEffective := 0, DynamicConcurrencyLimit := 0\<rparr>"

lemma same_signalsE:
  assumes "same_signals a a'"
  obtains t s d e c l where
    "a' = a\<lparr>HealthTier := t, SchedulerScore := s, DispatchScore := d, ScoreBiasEffective := e,
            BaseConcurrencyEffective := c, DynamicConcurrencyLimit := l\<rparr>"
proof
  show "a' = a\<lparr>HealthTier := HealthTier a', SchedulerScore := SchedulerScore a',
      DispatchScore := DispatchScore a', ScoreBiasEffective := ScoreBiasEffective a',
      BaseConcurrencyEffective := BaseConcurrencyEffective a',
      DynamicConcurrencyLimit := DynamicConcurrencyLimit a'\<rparr>"
    using assms by (cases a; cases a') (simp add: same_signals_def)
qed

lemma same_signals_recompute [simp]: "same_signals a (recomputeSchedulerLocked a b n)"
  by (simp add: same_signals_def recomputeSchedulerLocked_def Let_def)

lemma same_signals_tier [simp]: "same_signals a (a\<lparr>HealthTier := t\<rparr>)"
  by (simp add: same_signals_def)

lemma recompute_cong:
  assumes "same_signals a a'"
    and ban: "HealthTier a' = HealthTierBanned \<longleftrightarrow> HealthTier a = HealthTierBanned"
  shows "recomputeSchedulerLocked a' b n = recomputeSchedulerLocked a b n"
proof -
  obtain t s d e c l where a': "a' = a\<lparr>HealthTier := t, SchedulerScore := s,
      DispatchScore := d, ScoreBiasEffective := e, BaseConcurrencyEffective := c,
      DynamicConcurrencyLimit := l\<rparr>"
    using assms(1) by (rule same_signalsE)
  let ?a = "a\<lparr>HealthTier := t, SchedulerScore := s, DispatchScore := d,
      ScoreBiasEffective := e, BaseConcurrencyEffective := c, DynamicConcurrencyLimit := l\<rparr>"
  have lim: "premium5hRateLimitedLocked ?a n = premium5hRateLimitedLocked a n"
    by (rule premium_limited_cong) simp_all
  have exh: "usageExhaustedLocked ?a = usageExhaustedLocked a"
    by (simp add: usageExhaustedLocked_def)
  have pen: "usage_penalty_7d ?a = usage_penalty_7d a" "latency_penalty ?a = latency_penalty a"
    "success_rate_penalty ?a = success_rate_penalty a"
    by (simp_all add: usage_penalty_7d_def latency_penalty_def
        success_rate_penalty_def recentSuccessRateLocked_def cong: if_cong)
  have bd: "schedulerBreakdownLocked ?a n = schedulerBreakdownLocked a n"
    unfolding schedulerBreakdownLocked_def lim pen Let_def by simp
  have tier: "recomputed_tier ?a n x = recomputed_tier a n x" for x
    using ban unfolding recomputed_tier_def lim a' Let_def by simp
  have ht: "healthTierLocked ?a = HealthTierBanned \<longleftrightarrow> healthTierLocked a = HealthTierBanned"
    using ban by (simp add: a')
  have elig: "dispatchBonusEligibleLocked ?a n x = dispatchBonusEligibleLocked a n x" for x
    using ht by (simp add: dispatchBonusEligibleLocked_def exh)
  have urg: "premium5hUsageUrgencyBonusLocked ?a n = premium5hUsageUrgencyBonusLocked a n"
    using ban unfolding premium5hUsageUrgencyBonusLocked_def lim exh a' by (simp add: Let_def)
  have bias: "effectiveScoreBiasLocked ?a n x = effectiveScoreBiasLocked a n x" for x
    unfolding effectiveScoreBiasLocked_def elig by (simp split: option.split)
  have base: "effectiveBaseConcurrencyLocked ?a b = effectiveBaseConcurrencyLocked a b"
    unfolding effectiveBaseConcurrencyLocked_def by (simp split: option.split)
  show ?thesis
    unfolding a' recomputeSchedulerLocked_def Let_def bd tier elig urg lim bias base by simp
qed

lemma recompute_idem [simp]:
  "recomputeSchedulerLocked (recomputeSchedulerLocked a b n) b n = recomputeSchedulerLocked a b n"
  by (rule recompute_cong) simp_all

lemma recompute_tier_irrelevant:
  "t \<noteq> HealthTierBanned \<Longrightarrow> HealthTier a \<noteq> HealthTierBanned \<Longrightarrow>
   recomputeSchedulerLocked (a\<lparr>HealthTier := t\<rparr>) b n = recomputeSchedulerLocked a b n"
  by (rule recompute_cong) simp_all

end
