(* ===== verification/AccountLaws.thy ===== *)
theory AccountLaws
  imports Account
begin

text \<open>
  What holds of an account: bounds of the score and of the concurrency limit, the sliding window
  of results, the runtime status against availability, and the effect of reports on the tier.
\<close>

section \<open>Decay\<close>

lemma linearDecay_antimono:
  assumes "0 \<le> base" "e \<le> e'"
  shows "linearDecay base e' w \<le> linearDecay base e w"
proof (cases "w \<le> 0 \<or> w \<le> e'")
  case True
  show ?thesis
  proof (cases "w \<le> 0 \<or> w \<le> e")
    case True
    with \<open>w \<le> 0 \<or> w \<le> e'\<close> assms(2) show ?thesis by (auto simp: linearDecay_def)
  next
    case False
    then have "(of_int e :: float64) / of_int w \<le> 1" by simp
    with assms(1) have "0 \<le> base * (1 - of_int e / of_int w)" by simp
    with True False show ?thesis by (auto simp: linearDecay_def)
  qed
next
  case False
  with assms(2) have "(of_int e :: float64) / of_int w \<le> of_int e' / of_int w"
    by (simp add: divide_right_mono)
  with assms(1) have "base * (1 - of_int e' / of_int w) \<le> base * (1 - of_int e / of_int w)"
    by (intro mult_left_mono) auto
  with False assms(2) show ?thesis by (auto simp: linearDecay_def)
qed

lemma linearDecay_at_0: "0 < w \<Longrightarrow> linearDecay base 0 w = base"
  by (simp add: linearDecay_def)

lemma linearDecay_nonneg: "0 \<le> base \<Longrightarrow> 0 \<le> linearDecay base e w"
  using linearDecay_antimono [of base e "max e w" w] by (auto simp: linearDecay_def)

lemma linearDecay_le: "0 \<le> base \<Longrightarrow> 0 \<le> e \<Longrightarrow> linearDecay base e w \<le> base"
  using linearDecay_antimono [of base 0 e w] linearDecay_at_0 [of w base]
  by (cases "0 < w") (auto simp: linearDecay_def)

lemma go_sub_nonneg: "u \<le> t \<Longrightarrow> 0 \<le> go_sub t u"
  by (simp add: go_sub_def)

lemma decay_since_bounds:
  assumes "0 \<le> base" "stamp \<le> now"
  shows "0 \<le> decay_since now stamp base w" "decay_since now stamp base w \<le> base"
  using assms linearDecay_nonneg linearDecay_le go_sub_nonneg by (auto simp: decay_since_def)

section \<open>Score and limit\<close>

text \<open>The stamps an account carries were taken from a clock that does not run ahead.\<close>

definition stamps_past :: "account \<Rightarrow> time \<Rightarrow> bool" where
  "stamps_past a now \<longleftrightarrow>
     LastUnauthorizedAt a \<le> now \<and> LastRateLimitedAt a \<le> now \<and>
     LastTimeoutAt a \<le> now \<and> LastServerErrorAt a \<le> now"

lemma clampInt_bounds: "lo \<le> hi \<Longrightarrow> lo \<le> clampInt v lo hi \<and> clampInt v lo hi \<le> hi"
  by (auto simp: clampInt_def)

lemma penalties_bounds:
  "0 \<le> usage_penalty_7d a \<and> usage_penalty_7d a \<le> 50"
  "0 \<le> latency_penalty a \<and> latency_penalty a \<le> 15"
  "0 \<le> success_rate_penalty a \<and> success_rate_penalty a \<le> 15"
  by (simp_all add: usage_penalty_7d_def latency_penalty_def success_rate_penalty_def Let_def)

lemma streak_terms_bounds:
  "0 \<le> (of_int (clampInt (s * 6) 0 24) :: float64) \<and> of_int (clampInt (s * 6) 0 24) \<le> (24 :: float64)"
  "0 \<le> (of_int (clampInt (s * 2) 0 12) :: float64) \<and> of_int (clampInt (s * 2) 0 12) \<le> (12 :: float64)"
  by (auto simp: clampInt_def)

lemma breakdown_score_bounds:
  assumes "stamps_past a now"
  shows "-106 \<le> breakdown_score (schedulerBreakdownLocked a now)"
    and "breakdown_score (schedulerBreakdownLocked a now) \<le> 132"
proof -
  note d = decay_since_bounds [of 50 "LastUnauthorizedAt a" now day]
    decay_since_bounds [of 22 "LastRateLimitedAt a" now hour]
    decay_since_bounds [of 18 "LastTimeoutAt a" now "15 * minute"]
    decay_since_bounds [of 12 "LastServerErrorAt a" now "15 * minute"]
  note p = penalties_bounds [of a] streak_terms_bounds [of "FailureStreak a"]
    streak_terms_bounds [of "SuccessStreak a"]
  let ?b = "schedulerBreakdownLocked a now"
  have sb: "0 \<le> SuccessBonus ?b" "SuccessBonus ?b \<le> 12" "0 \<le> ProvenBonus ?b" "ProvenBonus ?b \<le> 20"
    using p(7) by (auto simp: schedulerBreakdownLocked_def Let_def)
  have pb: "0 \<le> UnauthorizedPenalty ?b" "UnauthorizedPenalty ?b \<le> 50"
    "0 \<le> RateLimitPenalty ?b" "RateLimitPenalty ?b \<le> 22"
    "0 \<le> TimeoutPenalty ?b" "TimeoutPenalty ?b \<le> 18"
    "0 \<le> ServerPenalty ?b" "ServerPenalty ?b \<le> 12"
    "0 \<le> FailurePenalty ?b" "FailurePenalty ?b \<le> 24"
    "0 \<le> UsagePenalty7d ?b" "UsagePenalty7d ?b \<le> 50"
    "0 \<le> LatencyPenalty ?b" "LatencyPenalty ?b \<le> 15"
    "0 \<le> SuccessRatePenalty ?b" "SuccessRatePenalty ?b \<le> 15"
    using assms d p by (simp_all add: schedulerBreakdownLocked_def Let_def stamps_past_def)
  show "-106 \<le> breakdown_score ?b" "breakdown_score ?b \<le> 132"
    unfolding breakdown_score_def using sb pb by linarith+
qed

lemma recompute_SchedulerScore:
  "SchedulerScore (recomputeSchedulerLocked a b n) = breakdown_score (schedulerBreakdownLocked a n)"
  by (simp add: recomputeSchedulerLocked_def Let_def)

lemma recompute_limit:
  "DynamicConcurrencyLimit (recomputeSchedulerLocked a b n) =
     (let l = concurrencyLimitForTier (effectiveBaseConcurrencyLocked a b)
                (HealthTier (recomputeSchedulerLocked a b n))
      in if premium5hRateLimitedLocked a n \<and> l > 1 then 1 else l)"
  by (simp add: recomputeSchedulerLocked_def Let_def)

lemma effective_base_pos [simp]: "0 < effectiveBaseConcurrencyLocked a b"
  by (simp add: effectiveBaseConcurrencyLocked_def split: option.split)

lemma limit_for_tier_simps [simp]:
  "0 < b \<Longrightarrow> concurrencyLimitForTier b HealthTierHealthy = b"
  "0 < b \<Longrightarrow> concurrencyLimitForTier b HealthTierWarm = max 1 (b div 2)"
  "concurrencyLimitForTier b HealthTierRisky = 1"
  "concurrencyLimitForTier b HealthTierBanned = 0"
  by (simp_all add: concurrencyLimitForTier_def Let_def go_div_nonneg max_def)

lemma limit_for_tier_bounds:
  assumes "0 < b" "t \<noteq> TierUnset"
  shows "0 \<le> concurrencyLimitForTier b t \<and> concurrencyLimitForTier b t \<le> b \<and>
    (concurrencyLimitForTier b t = 0 \<longleftrightarrow> t = HealthTierBanned)"
  using assms by (cases t) auto

lemma recompute_premium_tier:
  "premium5hRateLimitedLocked a n \<Longrightarrow> HealthTier a \<noteq> HealthTierBanned \<Longrightarrow>
   HealthTier (recomputeSchedulerLocked a b n) = HealthTierRisky"
  by (simp add: recompute_HealthTier recomputed_tier_def Let_def)

lemma recompute_limit_bounds:
  shows "0 \<le> DynamicConcurrencyLimit (recomputeSchedulerLocked a b n)"
    and "DynamicConcurrencyLimit (recomputeSchedulerLocked a b n) \<le> effectiveBaseConcurrencyLocked a b"
    and "DynamicConcurrencyLimit (recomputeSchedulerLocked a b n) = 0
           \<longleftrightarrow> HealthTier a = HealthTierBanned"
    and "HealthTier (recomputeSchedulerLocked a b n) = HealthTierRisky \<Longrightarrow>
         DynamicConcurrencyLimit (recomputeSchedulerLocked a b n) = 1"
    and "premium5hRateLimitedLocked a n \<Longrightarrow>
         DynamicConcurrencyLimit (recomputeSchedulerLocked a b n) \<le> 1"
proof -
  note l = limit_for_tier_bounds [OF effective_base_pos [of a b]
      recompute_tier_set [of a b n]]
  show "0 \<le> DynamicConcurrencyLimit (recomputeSchedulerLocked a b n)"
    "DynamicConcurrencyLimit (recomputeSchedulerLocked a b n) \<le> effectiveBaseConcurrencyLocked a b"
    "DynamicConcurrencyLimit (recomputeSchedulerLocked a b n) = 0
       \<longleftrightarrow> HealthTier a = HealthTierBanned"
    using l effective_base_pos [of a b] by (auto simp: recompute_limit Let_def)
  show "HealthTier (recomputeSchedulerLocked a b n) = HealthTierRisky \<Longrightarrow>
         DynamicConcurrencyLimit (recomputeSchedulerLocked a b n) = 1"
    by (simp add: recompute_limit Let_def concurrencyLimitForTier_def)
  show "premium5hRateLimitedLocked a n \<Longrightarrow>
         DynamicConcurrencyLimit (recomputeSchedulerLocked a b n) \<le> 1"
    by (simp add: recompute_limit Let_def)
qed

section \<open>The sliding window of results\<close>

definition ring_inv :: "account \<Rightarrow> bool" where
  "ring_inv a \<longleftrightarrow> length (RecentResults a) = 20 \<and> RecentResultsIdx a < 20 \<and>
     RecentResultsCnt a \<le> 20 \<and>
     (RecentResultsCnt a < 20 \<longrightarrow> RecentResultsIdx a = RecentResultsCnt a)"

text \<open>What the ring buffer stores, oldest result first.\<close>

definition window :: "account \<Rightarrow> nat list" where
  "window a =
     (if RecentResultsCnt a < 20 then take (RecentResultsCnt a) (RecentResults a)
      else drop (RecentResultsIdx a) (RecentResults a) @ take (RecentResultsIdx a) (RecentResults a))"

definition last_results :: "nat \<Rightarrow> 'a list \<Rightarrow> 'a list" where
  "last_results n xs = drop (length xs - n) xs"

lemma last_results_absorb: "last_results n (last_results n xs @ ys) = last_results n (xs @ ys)"
  by (cases "length xs \<le> n") (auto simp: last_results_def add.commute)

lemma last_results_map: "last_results n (map f xs) = map f (last_results n xs)"
  by (simp add: last_results_def drop_map)

lemma ring_inv_zero: "ring_inv zero_account"
  by (simp add: ring_inv_def zero_account_def)

lemma ring_inv_record [inv_intros]: "ring_inv a \<Longrightarrow> ring_inv (recordResultLocked a s)"
  by (auto simp: ring_inv_def recordResultLocked_def Let_def)

lemma window_record_partial:
  assumes "ring_inv a" "RecentResultsCnt a < 20"
  shows "window (recordResultLocked a s) = window a @ [if s then 1 else 0]"
proof -
  let ?v = "if s then 1 else 0 :: nat" and ?c = "RecentResultsCnt a" and ?r = "RecentResults a"
  from assms have i: "RecentResultsIdx a = ?c" and l: "length ?r = 20"
    by (auto simp: ring_inv_def)
  have t: "take (Suc ?c) (?r[?c := ?v]) = take ?c ?r @ [?v]"
    using assms(2) l by (simp add: take_Suc_conv_app_nth)
  show ?thesis
  proof (cases "?c = 19")
    case True
    with t l i have "?r[19 := ?v] = take 19 ?r @ [?v]" by simp
    with True i l show ?thesis by (simp add: window_def recordResultLocked_def Let_def)
  next
    case False
    with assms(2) have "Suc ?c < 20" by simp
    with t i l show ?thesis by (simp add: window_def recordResultLocked_def Let_def)
  qed
qed

lemma window_record_full:
  assumes "ring_inv a" "RecentResultsCnt a = 20"
  shows "window (recordResultLocked a s) = tl (window a) @ [if s then 1 else 0]"
proof -
  let ?v = "if s then 1 else 0 :: nat" and ?i = "RecentResultsIdx a" and ?r = "RecentResults a"
  from assms have i: "?i < 20" and l: "length ?r = 20" by (auto simp: ring_inv_def)
  have "drop ?i ?r = ?r ! ?i # drop (Suc ?i) ?r"
    using i l by (simp add: Cons_nth_drop_Suc)
  then have old: "tl (window a) = drop (Suc ?i) ?r @ take ?i ?r"
    using assms(2) by (simp add: window_def)
  have t: "take (Suc ?i) (?r[?i := ?v]) = take ?i ?r @ [?v]"
    using i l by (simp add: take_Suc_conv_app_nth)
  show ?thesis
  proof (cases "?i = 19")
    case True
    with t l have "?r[19 := ?v] = take 19 ?r @ [?v]" by simp
    with True assms(2) l old show ?thesis by (simp add: window_def recordResultLocked_def Let_def)
  next
    case False
    with i have "Suc ?i < 20" by simp
    with t l old assms(2) show ?thesis
      by (simp add: window_def recordResultLocked_def Let_def drop_update_cancel)
  qed
qed

lemma length_window: "ring_inv a \<Longrightarrow> length (window a) = RecentResultsCnt a"
  by (auto simp: ring_inv_def window_def)

lemma window_record:
  assumes "ring_inv a"
  shows "window (recordResultLocked a s) = last_results 20 (window a @ [if s then 1 else 0])"
proof (cases "RecentResultsCnt a < 20")
  case True
  with assms show ?thesis
    by (simp add: window_record_partial last_results_def length_window)
next
  case False
  with assms have c: "RecentResultsCnt a = 20" by (simp add: ring_inv_def)
  with assms have "length (window a) = 20" by (simp add: length_window)
  then have "last_results 20 (window a @ [v]) = tl (window a) @ [v]" for v
    by (simp add: last_results_def drop_Suc)
  with assms c show ?thesis by (simp add: window_record_full)
qed

lemma window_records:
  "ring_inv a \<Longrightarrow> window (foldl recordResultLocked a bs) =
     last_results 20 (window a @ map (\<lambda>s. if s then 1 else 0) bs)"
proof (induction bs arbitrary: a)
  case Nil
  then show ?case by (auto simp: last_results_def length_window ring_inv_def)
next
  case (Cons s bs)
  then show ?case
    by (simp add: ring_inv_record window_record last_results_absorb)
qed

lemma recentSuccessRate_window:
  assumes "ring_inv a"
  shows "recentSuccessRateLocked a =
    (if window a = [] then 1 else of_nat (sum_list (window a)) / of_nat (length (window a)))"
proof -
  have "sum_list (take (RecentResultsCnt a) (RecentResults a)) = sum_list (window a)"
  proof (cases "RecentResultsCnt a < 20")
    case True
    then show ?thesis by (simp add: window_def)
  next
    case False
    with assms have "take (RecentResultsCnt a) (RecentResults a) = RecentResults a"
      by (simp add: ring_inv_def)
    moreover have "sum_list (RecentResults a) =
        sum_list (take (RecentResultsIdx a) (RecentResults a))
        + sum_list (drop (RecentResultsIdx a) (RecentResults a))"
      by (metis append_take_drop_id sum_list_append)
    ultimately show ?thesis using False by (simp add: window_def)
  qed
  moreover have "window a = [] \<longleftrightarrow> RecentResultsCnt a = 0"
    using length_window [OF assms] by auto
  ultimately show ?thesis
    by (simp add: recentSuccessRateLocked_def length_window [OF assms])
qed

lemma sum_list_successes: "sum_list (map (\<lambda>s. if s then 1 else 0) bs) = length (filter id bs)"
  by (induction bs) auto

section \<open>Availability against the runtime status\<close>

lemma IsAvailable_iff:
  "IsAvailable a now \<longleftrightarrow>
     Disabled a = 0 \<and> Status a \<noteq> StatusError \<and> HealthTier a \<noteq> HealthTierBanned \<and>
     \<not> usageExhaustedLocked a \<and> \<not> premium5hRateLimitedLocked a now \<and>
     \<not> HasActiveCooldown a now \<and> AccessToken a \<noteq> ''''"
  by (auto simp: IsAvailable_def HasActiveCooldown_def)

lemma free_soft_limit_iff:
  "freeUsageRateLimitedLocked a \<longleftrightarrow>
     UsagePercent7dValid a \<and> equal_fold (PlanType a) ''free'' \<and>
     90 \<le> UsagePercent7d a \<and> UsagePercent7d a < 110"
  by (auto simp: freeUsageRateLimitedLocked_def)

lemma RuntimeStatus_available:
  assumes "IsAvailable a now"
  shows "RuntimeStatus a now =
    (if freeUsageRateLimitedLocked a then ''rate_limited'' else ''active'')"
  using assms
  by (cases "Status a") (auto simp: IsAvailable_iff RuntimeStatus_def HasActiveCooldown_def)

section \<open>Reports and the tier\<close>

lemma record_frame [simp, frame_simps]:
  "HealthTier (recordResultLocked a s) = HealthTier a"
  "HealthTier (recordLatencyLocked a l) = HealthTier a"
  "ActiveRequests (recordResultLocked a s) = ActiveRequests a"
  "ActiveRequests (recordLatencyLocked a l) = ActiveRequests a"
  "DBID (recordResultLocked a s) = DBID a"
  "DBID (recordLatencyLocked a l) = DBID a"
  "TotalRequests (recordResultLocked a s) = TotalRequests a"
  "TotalRequests (recordLatencyLocked a l) = TotalRequests a"
  by (simp_all add: recordResultLocked_def recordLatencyLocked_def Let_def)

lemma demoted_not_banned [simp]: "demoted t \<noteq> HealthTierBanned"
  by (simp add: demoted_def)

text \<open>The account just before \<open>ReportRequestFailure\<close> looks at the kind of failure.\<close>

definition failure_noted :: "account \<Rightarrow> time \<Rightarrow> duration \<Rightarrow> account" where
  "failure_noted a now latency =
     (recordResultLocked (recordLatencyLocked a latency) False)
       \<lparr>LastFailureAt := now,
        FailureStreak := clampInt (FailureStreak (recordResultLocked (recordLatencyLocked a latency) False) + 1) 0 20,
        SuccessStreak := 0\<rparr>"

lemma report_failure_kinds:
  "report_failure_locked a b now kind latency =
     (let a = failure_noted a now latency in
      recomputeSchedulerLocked
        (if kind = ''unauthorized'' then a\<lparr>LastUnauthorizedAt := now, HealthTier := HealthTierBanned\<rparr>
         else if kind = ''timeout'' then a\<lparr>LastTimeoutAt := now, HealthTier := demoted (HealthTier a)\<rparr>
         else if kind = ''server'' then a\<lparr>LastServerErrorAt := now, HealthTier := demoted (HealthTier a)\<rparr>
         else if kind = ''transport'' then a\<lparr>HealthTier := demoted (HealthTier a)\<rparr>
         else if kind = ''client'' \<and> HealthTier a = HealthTierHealthy then a\<lparr>HealthTier := HealthTierWarm\<rparr>
         else a) b now)"
  unfolding report_failure_locked_def failure_noted_def Let_def by (rule refl)

lemma failure_noted_tier [simp]: "HealthTier (failure_noted a now l) = HealthTier a"
  by (simp add: failure_noted_def)

section \<open>Free and premium plans exclude each other\<close>

lemma lower_char_cases: "lower_char c = d \<Longrightarrow> c = d \<or> c = char_of ((of_char d :: nat) - 32)"
  by (auto simp: lower_char_def Let_def split: if_splits)

lemma upper_of_free:
  "(char_of ((of_char CHR ''f'' :: nat) - 32) :: char) = CHR ''F''"
  "(char_of ((of_char CHR ''r'' :: nat) - 32) :: char) = CHR ''R''"
  "(char_of ((of_char CHR ''e'' :: nat) - 32) :: char) = CHR ''E''"
  by code_simp+

lemma lower_free_cases:
  assumes "to_lower p = ''free''"
  shows "p \<in> set [''free'', ''freE'', ''frEe'', ''frEE'', ''fRee'', ''fReE'', ''fREe'', ''fREE'',
    ''Free'', ''FreE'', ''FrEe'', ''FrEE'', ''FRee'', ''FReE'', ''FREe'', ''FREE'']"
proof -
  from assms obtain a b c d where p: "p = [a, b, c, d]"
    and l: "lower_char a = CHR ''f''" "lower_char b = CHR ''r''"
      "lower_char c = CHR ''e''" "lower_char d = CHR ''e''"
    by (auto simp: to_lower_def map_eq_Cons_conv)
  have "a = CHR ''f'' \<or> a = CHR ''F''" "b = CHR ''r'' \<or> b = CHR ''R''"
    "c = CHR ''e'' \<or> c = CHR ''E''" "d = CHR ''e'' \<or> d = CHR ''E''"
    using lower_char_cases [OF l(1)] lower_char_cases [OF l(2)]
      lower_char_cases [OF l(3)] lower_char_cases [OF l(4)]
    unfolding upper_of_free by simp_all
  then show ?thesis unfolding p by (elim disjE) simp_all
qed

lemma free_not_premium:
  assumes "equal_fold p ''free''"
  shows "\<not> isPremium5hPlan p"
proof -
  have "to_lower ''free'' = ''free''"
    by (simp add: to_lower_def lower_char_def Let_def)
  with assms have "p \<in> set [''free'', ''freE'', ''frEe'', ''frEE'', ''fRee'', ''fReE'', ''fREe'',
    ''fREE'', ''Free'', ''FreE'', ''FrEe'', ''FrEE'', ''FRee'', ''FReE'', ''FREe'', ''FREE'']"
    unfolding equal_fold_def by (simp only: lower_free_cases)
  moreover have "\<forall>p \<in> set [''free'', ''freE'', ''frEe'', ''frEE'', ''fRee'', ''fReE'', ''fREe'',
    ''fREE'', ''Free'', ''FreE'', ''FrEe'', ''FrEE'', ''FRee'', ''FReE'', ''FREe'', ''FREE''].
    \<not> isPremium5hPlan p"
    by code_simp
  ultimately show ?thesis by blast
qed

section \<open>Properties\<close>

text \<open>
  After any sequence of recorded outcomes, the success rate that the penalty reads is the
  share of successes among the last 20 of them (all of them when there are fewer, 1 when there is
  none): the ring buffer of \<open>recordResultLocked\<close> and \<open>recentSuccessRateLocked\<close> computes the
  sliding window.
\<close>

theorem success_rate_is_sliding_window:
  "recentSuccessRateLocked (foldl recordResultLocked zero_account bs) =
     (if bs = [] then 1
      else of_nat (length (filter id (last_results 20 bs))) / of_nat (length (last_results 20 bs)))"
proof -
  let ?enc = "\<lambda>s. if s then 1 else 0 :: nat" and ?a = "foldl recordResultLocked zero_account bs"
  have inv: "ring_inv ?a"
    by (induction bs rule: rev_induct) (auto simp: ring_inv_zero ring_inv_record)
  have "window zero_account = []" by (simp add: window_def zero_account_def)
  then have w: "window ?a = map ?enc (last_results 20 bs)"
    using window_records [OF ring_inv_zero] by (simp add: last_results_map)
  then have "window ?a = [] \<longleftrightarrow> bs = []" by (cases bs) (auto simp: last_results_def)
  with inv w show ?thesis by (simp add: recentSuccessRate_window sum_list_successes)
qed

text \<open>
  When no stamp of the account lies in the future, the scheduling score that
  \<open>recomputeSchedulerLocked\<close> stores is between -106 and 132.
\<close>

theorem scheduler_score_bounds:
  assumes "stamps_past a now"
  shows "-106 \<le> SchedulerScore (recomputeSchedulerLocked a base now) \<and>
         SchedulerScore (recomputeSchedulerLocked a base now) \<le> 132"
  using breakdown_score_bounds [OF assms] by (simp add: recompute_SchedulerScore)

theorem scheduler_score_bounds_witness:
  "-106 \<le> SchedulerScore (recomputeSchedulerLocked (zero_account\<lparr>LastTimeoutAt := 5\<rparr>) 2 10)"
  using scheduler_score_bounds [of "zero_account\<lparr>LastTimeoutAt := 5\<rparr>" 10 2]
  by (simp add: stamps_past_def zero_account_def)

text \<open>
  The concurrency limit after a recomputation lies between 0 and the account's base
  concurrency; it is 0 exactly for a banned account, 1 for a risky one, and at most 1 while the
  account's premium 5h window is exhausted.
\<close>

theorem dynamic_limit_by_tier:
  fixes a base now
  defines "a' \<equiv> recomputeSchedulerLocked a base now"
  shows "0 \<le> DynamicConcurrencyLimit a'
    \<and> DynamicConcurrencyLimit a' \<le> effectiveBaseConcurrencyLocked a base
    \<and> (DynamicConcurrencyLimit a' = 0 \<longleftrightarrow> HealthTier a' = HealthTierBanned)
    \<and> (HealthTier a' = HealthTierRisky \<longrightarrow> DynamicConcurrencyLimit a' = 1)
    \<and> (premium5hRateLimitedLocked a now \<longrightarrow> DynamicConcurrencyLimit a' \<le> 1)"
  unfolding a'_def using recompute_limit_bounds [where a = a and b = base and n = now] by simp

theorem dynamic_limit_by_tier_witness:
  "DynamicConcurrencyLimit (recomputeSchedulerLocked
     (zero_account\<lparr>PlanType := ''plus'', UsagePercent5h := 100, UsagePercent5hValid := True,
        Reset5hAt := 20\<rparr>) 4 10) = 1"
proof -
  let ?a = "zero_account\<lparr>PlanType := ''plus'', UsagePercent5h := 100, UsagePercent5hValid := True,
        Reset5hAt := 20\<rparr>"
  have "isPremium5hPlan ''plus''" by code_simp
  then have "premium5hRateLimitedLocked ?a 10"
    by (simp add: premium5hRateLimitedLocked_def is_zero_def)
  moreover from this have "HealthTier (recomputeSchedulerLocked ?a 4 10) = HealthTierRisky"
    by (rule recompute_premium_tier) (simp add: zero_account_def)
  ultimately show ?thesis using dynamic_limit_by_tier [of ?a 4 10] by simp
qed

text \<open>
  Which reported failures leave an account banned: a failure of kind unauthorized always
  does; on an account that is banned already, a failure of kind timeout, server or transport
  lifts the ban, and any other kind keeps it.
\<close>

theorem failure_report_ban:
  "HealthTier (report_failure_locked a base now kind latency) = HealthTierBanned \<longleftrightarrow>
     kind = ''unauthorized'' \<or>
     (HealthTier a = HealthTierBanned \<and>
      kind \<notin> {''timeout'', ''server'', ''transport''})"
  by (auto simp: report_failure_kinds Let_def)

text \<open>
  On an account that is not banned, the demotion that \<open>ReportRequestFailure\<close> applies for the
  kinds transport and client has no effect: the recomputation that follows overwrites the tier, so
  the account ends in the same state as for a kind the code does not know.
\<close>

theorem failure_demotion_overwritten:
  assumes "HealthTier a \<noteq> HealthTierBanned"
  shows "report_failure_locked a base now ''transport'' latency
           = report_failure_locked a base now ''other'' latency
       \<and> report_failure_locked a base now ''client'' latency
           = report_failure_locked a base now ''other'' latency"
  using assms by (simp add: report_failure_kinds Let_def recompute_tier_irrelevant)

theorem failure_demotion_overwritten_witness:
  "report_failure_locked (zero_account\<lparr>HealthTier := HealthTierHealthy\<rparr>) 4 10 ''transport'' 0
     = report_failure_locked (zero_account\<lparr>HealthTier := HealthTierHealthy\<rparr>) 4 10 ''other'' 0"
  using failure_demotion_overwritten [of "zero_account\<lparr>HealthTier := HealthTierHealthy\<rparr>" 4 10 0]
  by simp

text \<open>
  An account that \<open>IsAvailable\<close> accepts is shown as rate_limited when its free plan is in the
  soft-limit band and as active otherwise; conversely an account shown as rate_limited by that
  band is available exactly when it is enabled, has a token and is not in error.
\<close>

theorem runtime_status_of_available:
  "(IsAvailable a now \<longrightarrow>
      RuntimeStatus a now = (if freeUsageRateLimitedLocked a then ''rate_limited'' else ''active''))
   \<and> (freeUsageRateLimitedLocked a \<and> HealthTier a \<noteq> HealthTierBanned \<and> \<not> HasActiveCooldown a now \<longrightarrow>
      RuntimeStatus a now = ''rate_limited'' \<and>
      (IsAvailable a now \<longleftrightarrow> Disabled a = 0 \<and> Status a \<noteq> StatusError \<and> AccessToken a \<noteq> ''''))"
proof (intro conjI impI, goal_cases)
  case 1
  then show ?case by (rule RuntimeStatus_available)
next
  case 2
  then have "\<not> premium5hRateLimitedLocked a now" "\<not> usageExhaustedLocked a"
    using free_not_premium
    by (auto simp: free_soft_limit_iff premium5hRateLimitedLocked_def usageExhaustedLocked_def)
  with 2 show ?case by (auto simp: RuntimeStatus_def HasActiveCooldown_def)
next
  case 3
  then have "\<not> premium5hRateLimitedLocked a now" "\<not> usageExhaustedLocked a"
    using free_not_premium
    by (auto simp: free_soft_limit_iff premium5hRateLimitedLocked_def usageExhaustedLocked_def)
  with 3 show ?case by (auto simp: IsAvailable_iff)
qed

text \<open>The instance shows an account in error that is displayed as rate_limited.\<close>

theorem runtime_status_of_available_witness:
  "RuntimeStatus (zero_account\<lparr>Status := StatusError, PlanType := ''Free'', AccessToken := ''t'',
      UsagePercent7d := 95, UsagePercent7dValid := True\<rparr>) 10 = ''rate_limited''
   \<and> \<not> IsAvailable (zero_account\<lparr>Status := StatusError, PlanType := ''Free'', AccessToken := ''t'',
      UsagePercent7d := 95, UsagePercent7dValid := True\<rparr>) 10"
proof -
  let ?a = "zero_account\<lparr>Status := StatusError, PlanType := ''Free'', AccessToken := ''t'',
      UsagePercent7d := 95, UsagePercent7dValid := True\<rparr>"
  have "equal_fold ''Free'' ''free''" by code_simp
  then have "freeUsageRateLimitedLocked ?a" by (simp add: free_soft_limit_iff)
  then show ?thesis
    using runtime_status_of_available [of ?a 10]
    by (simp add: HasActiveCooldown_def zero_account_def)
qed

end
