(* ===== verification/FastScheduler.thy ===== *)
theory FastScheduler
  imports AccountLaws
begin

text \<open>
  \<open>auth/fast_scheduler.go\<close>: the in-memory scheduler of the request path. Accounts are shared by
  pointer between the store and the scheduler, so they live in a heap of addresses; an entry holds
  an address. The arrays indexed by the position of a tier in \<open>fastSchedulerTierOrder\<close> are
  functions of the tier, and the 64-bit round-robin cursors are natural numbers (they would need
  \<open>2 ^ 63\<close> scans to wrap). Every operation runs under the scheduler's mutex, so it is one step.
\<close>

section \<open>Data\<close>

type_synonym addr = nat
type_synonym heap = "addr \<Rightarrow> account"

definition fastSchedulerTierOrder :: "AccountHealthTier list" where
  "fastSchedulerTierOrder = [HealthTierHealthy, HealthTierWarm, HealthTierRisky]"

record fastSchedulerEntry =
  e_acc :: addr
  e_dbID :: int
  e_dispatchScore :: float64
  e_proven :: bool

record FastScheduler =
  fs_baseLimit :: int
  fs_buckets :: "AccountHealthTier \<Rightarrow> fastSchedulerEntry list"
  fs_positions :: "int \<Rightarrow> (AccountHealthTier \<times> nat) option"
  fs_cursors :: "AccountHealthTier \<Rightarrow> nat"
  fs_provenBounds :: "AccountHealthTier \<Rightarrow> nat"
  fs_provenCurs :: "AccountHealthTier \<Rightarrow> nat"

definition NewFastScheduler :: "int \<Rightarrow> FastScheduler" where
  "NewFastScheduler n =
     \<lparr>fs_baseLimit = (if n \<le> 0 then 1 else n), fs_buckets = (\<lambda>_. []),
      fs_positions = (\<lambda>_. None), fs_cursors = (\<lambda>_. 0), fs_provenBounds = (\<lambda>_. 0),
      fs_provenCurs = (\<lambda>_. 0)\<rparr>"

section \<open>The snapshot of an account\<close>

record snapshot =
  sn_tier :: AccountHealthTier
  sn_score :: float64
  sn_limit :: int
  sn_proven :: bool
  sn_available :: bool

text \<open>
  \<open>fastSchedulerSnapshot\<close> recomputes premium accounts in place and then reads the cached values,
  with fallbacks for a score or a limit that was never computed (\<open>snapshot_values\<close>).
\<close>

definition snapshot_values :: "account \<Rightarrow> int \<Rightarrow> time \<Rightarrow> snapshot" where
  "snapshot_values a base now =
     (let tier = healthTierLocked a;
          score = DispatchScore a;
          limit = DynamicConcurrencyLimit a;
          isProven = TotalRequests a > 10;
          score = (if score = 0 \<and> SchedulerScore a \<noteq> 0 then SchedulerScore a else score);
          score = (if score = 0 \<and> tier \<noteq> HealthTierBanned \<and> AccessToken a \<noteq> ''''
                      \<and> Status a \<noteq> StatusError
                   then 100 + of_int (effectiveScoreBiasLocked a now tier) else score);
          limit = (if limit \<le> 0 then
                     concurrencyLimitForTier
                       (if BaseConcurrencyEffective a \<le> 0
                        then effectiveBaseConcurrencyLocked a base
                        else BaseConcurrencyEffective a) tier
                   else limit);
          available = (Status a \<noteq> StatusError \<and> tier \<noteq> HealthTierBanned \<and> AccessToken a \<noteq> '''');
          available = (if Status a = StatusCooldown \<and> now < CooldownUtil a
                          \<and> \<not> premium5hCooldownSuppressedLocked a now then False else available);
          available = (if usageExhaustedLocked a then False else available)
      in \<lparr>sn_tier = tier, sn_score = score, sn_limit = limit, sn_proven = isProven,
          sn_available = available\<rparr>)"

definition fastSchedulerSnapshot :: "account \<Rightarrow> int \<Rightarrow> time \<Rightarrow> account \<times> snapshot" where
  "fastSchedulerSnapshot a base now =
     (let a = (if isPremium5hPlan (PlanType a) \<and> UsagePercent5hValid a
               then recomputeSchedulerLocked a base now else a)
      in (a, snapshot_values a base now))"

text \<open>One successful compare-and-swap of \<open>tryAcquireAccount\<close>; the retry loop is modelled below.\<close>

definition tryAcquireAccount :: "account \<Rightarrow> int \<Rightarrow> time \<Rightarrow> bool \<times> account" where
  "tryAcquireAccount a limit now =
     (if limit \<le> 0 then (False, a)
      else if ActiveRequests a \<ge> limit then (False, a)
      else (True, a\<lparr>ActiveRequests := ActiveRequests a + 1,
                    TotalRequests := TotalRequests a + 1,
                    LastUsedAt := unix_nano now\<rparr>))"

section \<open>Buckets and positions\<close>

text \<open>The comparison of \<open>sort.SliceStable\<close>: proven first, then score descending, then id.\<close>

definition entry_key :: "fastSchedulerEntry \<Rightarrow> bool \<times> float64 \<times> int" where
  "entry_key e = (\<not> e_proven e, - e_dispatchScore e, e_dbID e)"

definition sort_entries :: "fastSchedulerEntry list \<Rightarrow> fastSchedulerEntry list" where
  "sort_entries es = sort_key entry_key es"

fun countProvenEntries :: "fastSchedulerEntry list \<Rightarrow> nat" where
  "countProvenEntries [] = 0"
| "countProvenEntries (e # es) = (if \<not> e_proven e then 0 else Suc (countProvenEntries es))"

fun rebuild_positions ::
  "AccountHealthTier \<Rightarrow> nat \<Rightarrow> fastSchedulerEntry list
     \<Rightarrow> (int \<Rightarrow> (AccountHealthTier \<times> nat) option)
     \<Rightarrow> (int \<Rightarrow> (AccountHealthTier \<times> nat) option)" where
  "rebuild_positions tier idx [] pos = pos"
| "rebuild_positions tier idx (e # es) pos =
     rebuild_positions tier (Suc idx) es (pos(e_dbID e \<mapsto> (tier, idx)))"

definition rebuildPositionsLocked :: "FastScheduler \<Rightarrow> AccountHealthTier \<Rightarrow> FastScheduler" where
  "rebuildPositionsLocked fs tier =
     fs\<lparr>fs_positions := rebuild_positions tier 0 (fs_buckets fs tier) (fs_positions fs)\<rparr>"

definition make_entry :: "addr \<Rightarrow> account \<Rightarrow> snapshot \<Rightarrow> fastSchedulerEntry" where
  "make_entry ad a sn =
     \<lparr>e_acc = ad, e_dbID = DBID a, e_dispatchScore = sn_score sn, e_proven = sn_proven sn\<rparr>"

definition schedulable_tier :: "AccountHealthTier \<Rightarrow> bool" where
  "schedulable_tier tier \<longleftrightarrow>
     tier = HealthTierHealthy \<or> tier = HealthTierWarm \<or> tier = HealthTierRisky"

definition insertLocked :: "heap \<Rightarrow> FastScheduler \<Rightarrow> addr \<Rightarrow> time \<Rightarrow> heap \<times> FastScheduler" where
  "insertLocked h fs ad now =
     (if DBID (h ad) = 0 then (h, fs)
      else
        let (a, sn) = fastSchedulerSnapshot (h ad) (fs_baseLimit fs) now;
            h = h(ad := a)
        in if \<not> sn_available sn \<or> sn_limit sn \<le> 0 then (h, fs)
           else if \<not> schedulable_tier (sn_tier sn) then (h, fs)
           else
             let tier = sn_tier sn;
                 entries = sort_entries (fs_buckets fs tier @ [make_entry ad a sn]);
                 fs = fs\<lparr>fs_buckets := (fs_buckets fs)(tier := entries)\<rparr>;
                 fs = rebuildPositionsLocked fs tier
             in (h, fs\<lparr>fs_provenBounds :=
                         (fs_provenBounds fs)(tier := countProvenEntries entries)\<rparr>))"

definition removeLocked :: "FastScheduler \<Rightarrow> int \<Rightarrow> FastScheduler" where
  "removeLocked fs dbid =
     (case fs_positions fs dbid of
        None \<Rightarrow> fs
      | Some (tier, idx) \<Rightarrow>
          (if idx \<ge> length (fs_buckets fs tier)
           then fs\<lparr>fs_positions := (fs_positions fs)(dbid := None)\<rparr>
           else
             let entries = remove_nth idx (fs_buckets fs tier);
                 fs = fs\<lparr>fs_buckets := (fs_buckets fs)(tier := entries),
                         fs_positions := (fs_positions fs)(dbid := None)\<rparr>;
                 fs = rebuildPositionsLocked fs tier
             in fs\<lparr>fs_provenBounds :=
                     (fs_provenBounds fs)(tier := countProvenEntries entries)\<rparr>))"

section \<open>Operations\<close>

text \<open>The loop of \<open>Rebuild\<close> that fills the buckets.\<close>

fun fill_buckets ::
  "int \<Rightarrow> time \<Rightarrow> heap \<Rightarrow> (AccountHealthTier \<Rightarrow> fastSchedulerEntry list) \<Rightarrow> addr list
     \<Rightarrow> heap \<times> (AccountHealthTier \<Rightarrow> fastSchedulerEntry list)" where
  "fill_buckets base now h bs [] = (h, bs)"
| "fill_buckets base now h bs (ad # ads) =
     (if DBID (h ad) = 0 then fill_buckets base now h bs ads
      else
        let (a, sn) = fastSchedulerSnapshot (h ad) base now;
            h = h(ad := a)
        in if \<not> sn_available sn \<or> sn_limit sn \<le> 0 then fill_buckets base now h bs ads
           else if \<not> schedulable_tier (sn_tier sn) then fill_buckets base now h bs ads
           else fill_buckets base now h
                  (bs(sn_tier sn := bs (sn_tier sn) @ [make_entry ad a sn])) ads)"

definition finish_bucket :: "FastScheduler \<Rightarrow> AccountHealthTier \<Rightarrow> FastScheduler" where
  "finish_bucket fs tier =
     (let entries = fs_buckets fs tier in
      if entries = [] then fs\<lparr>fs_provenBounds := (fs_provenBounds fs)(tier := 0)\<rparr>
      else
        let entries = sort_entries entries;
            fs = fs\<lparr>fs_buckets := (fs_buckets fs)(tier := entries)\<rparr>;
            fs = rebuildPositionsLocked fs tier
        in fs\<lparr>fs_provenBounds := (fs_provenBounds fs)(tier := countProvenEntries entries)\<rparr>)"

definition Rebuild :: "heap \<Rightarrow> FastScheduler \<Rightarrow> addr list \<Rightarrow> time \<Rightarrow> heap \<times> FastScheduler" where
  "Rebuild h fs accounts now =
     (let fs = fs\<lparr>fs_buckets := (\<lambda>_. []), fs_positions := (\<lambda>_. None)\<rparr>;
          (h, bs) = fill_buckets (fs_baseLimit fs) now h (fs_buckets fs) accounts
      in (h, foldl finish_bucket (fs\<lparr>fs_buckets := bs\<rparr>) fastSchedulerTierOrder))"

definition Update :: "heap \<Rightarrow> FastScheduler \<Rightarrow> addr \<Rightarrow> time \<Rightarrow> heap \<times> FastScheduler" where
  "Update h fs ad now = insertLocked h (removeLocked fs (DBID (h ad))) ad now"

definition Remove :: "FastScheduler \<Rightarrow> int \<Rightarrow> FastScheduler" where
  "Remove fs dbid = (if dbid = 0 then fs else removeLocked fs dbid)"

definition SetBaseLimit :: "FastScheduler \<Rightarrow> int \<Rightarrow> FastScheduler" where
  "SetBaseLimit fs n = fs\<lparr>fs_baseLimit := (if n \<le> 0 then 1 else n)\<rparr>"

definition Release :: "heap \<Rightarrow> addr \<Rightarrow> heap" where
  "Release h ad = h(ad := (h ad)\<lparr>ActiveRequests := ActiveRequests (h ad) - 1\<rparr>)"

definition BucketSizes :: "FastScheduler \<Rightarrow> AccountHealthTier \<Rightarrow> nat option" where
  "BucketSizes fs tier =
     (if schedulable_tier tier then Some (length (fs_buckets fs tier)) else None)"

section \<open>Acquiring\<close>

datatype scan_result = Acquired addr | Stale | Exhausted

text \<open>
  The loop of \<open>scanRangeLocked\<close> over the entries in the order it visits them. The first entry
  whose cached values are out of date ends the scan: it is taken out and put back.
\<close>

fun scan_entries ::
  "heap \<Rightarrow> FastScheduler \<Rightarrow> AccountHealthTier \<Rightarrow> int \<Rightarrow> time \<Rightarrow> int set
     \<Rightarrow> fastSchedulerEntry list \<Rightarrow> heap \<times> FastScheduler \<times> scan_result" where
  "scan_entries h fs expectedTier base now exclude [] = (h, fs, Exhausted)"
| "scan_entries h fs expectedTier base now exclude (entry # entries) =
     (if e_dbID entry \<in> exclude
      then scan_entries h fs expectedTier base now exclude entries
      else
        let (a, sn) = fastSchedulerSnapshot (h (e_acc entry)) base now;
            h = h(e_acc entry := a)
        in if sn_tier sn \<noteq> expectedTier \<or> sn_proven sn \<noteq> e_proven entry
              \<or> \<bar>sn_score sn - e_dispatchScore entry\<bar> \<ge> 1
           then
             let fs = removeLocked fs (e_dbID entry);
                 (h, fs) = (if sn_available sn \<and> sn_limit sn > 0
                            then insertLocked h fs (e_acc entry) now else (h, fs))
             in (h, fs, Stale)
           else if \<not> sn_available sn \<or> sn_limit sn \<le> 0
           then scan_entries h fs expectedTier base now exclude entries
           else
             let (ok, a) = tryAcquireAccount a (sn_limit sn) now
             in if \<not> ok then scan_entries h fs expectedTier base now exclude entries
                else (h(e_acc entry := a), fs, Acquired (e_acc entry)))"

definition rotation :: "nat \<Rightarrow> nat \<Rightarrow> 'a list \<Rightarrow> 'a list" where
  "rotation n start xs = map (\<lambda>offset. xs ! ((start + offset) mod n)) [0..<n]"

text \<open>Both callers scan a prefix of the bucket; \<open>inProven\<close> says whose cursor is used.\<close>

definition scanRangeLocked ::
  "heap \<Rightarrow> FastScheduler \<Rightarrow> AccountHealthTier \<Rightarrow> nat \<Rightarrow> bool \<Rightarrow> int \<Rightarrow> time \<Rightarrow> int set
     \<Rightarrow> heap \<times> FastScheduler \<times> scan_result" where
  "scanRangeLocked h fs expectedTier rangeLen inProven base now exclude =
     (let bucket = fs_buckets fs expectedTier in
      if rangeLen = 0 then (h, fs, Exhausted)
      else
        let start = (if inProven then fs_provenCurs fs expectedTier
                     else fs_cursors fs expectedTier) mod rangeLen;
            fs = (if inProven
                  then fs\<lparr>fs_provenCurs := (fs_provenCurs fs)(expectedTier := Suc (fs_provenCurs fs expectedTier))\<rparr>
                  else fs\<lparr>fs_cursors := (fs_cursors fs)(expectedTier := Suc (fs_cursors fs expectedTier))\<rparr>)
        in scan_entries h fs expectedTier base now exclude (rotation rangeLen start bucket))"

text \<open>One pass of the outer loop of \<open>AcquireExcluding\<close> over the tiers that are left.\<close>

fun scan_tiers ::
  "heap \<Rightarrow> FastScheduler \<Rightarrow> int \<Rightarrow> time \<Rightarrow> int set \<Rightarrow> AccountHealthTier list
     \<Rightarrow> heap \<times> FastScheduler \<times> scan_result" where
  "scan_tiers h fs base now exclude [] = (h, fs, Exhausted)"
| "scan_tiers h fs base now exclude (tier # tiers) =
     (if fs_buckets fs tier = [] then scan_tiers h fs base now exclude tiers
      else
        let (h, fs, r) =
              (if fs_provenBounds fs tier > 0
               then scanRangeLocked h fs tier (fs_provenBounds fs tier) True base now exclude
               else (h, fs, Exhausted))
        in if r \<noteq> Exhausted then (h, fs, r)
           else
             let (h, fs, r) =
                   scanRangeLocked h fs tier (length (fs_buckets fs tier)) False base now exclude
             in if r \<noteq> Exhausted then (h, fs, r)
                else scan_tiers h fs base now exclude tiers)"

text \<open>The outer loop restarts after every stale entry; \<open>None\<close> is a loop that never ends.\<close>

partial_function (option) AcquireExcluding ::
  "heap \<Rightarrow> FastScheduler \<Rightarrow> int set \<Rightarrow> time \<Rightarrow> (heap \<times> FastScheduler \<times> addr option) option" where
  "AcquireExcluding h fs exclude now =
     (let (h, fs, r) = scan_tiers h fs (fs_baseLimit fs) now exclude fastSchedulerTierOrder
      in if r = Stale then AcquireExcluding h fs exclude now
         else Some (h, fs, case r of Acquired ad \<Rightarrow> Some ad | _ \<Rightarrow> None))"

declare AcquireExcluding.simps [code]

end
