(* ===== verification/FastSchedulerLaws.thy ===== *)
theory FastSchedulerLaws
  imports FastScheduler "HOL-Library.Multiset"
begin

text \<open>
  The invariant of the fast scheduler (sorted buckets, exact position index, exact bound of the
  proven prefix) and its preservation by every operation; termination of \<open>AcquireExcluding\<close>;
  what an acquired account, and what the answer nil, guarantee.
\<close>

section \<open>Snapshots\<close>

abbreviation snap :: "account \<Rightarrow> int \<Rightarrow> time \<Rightarrow> snapshot" where
  "snap a base now \<equiv> snd (fastSchedulerSnapshot a base now)"

abbreviation snapped :: "account \<Rightarrow> int \<Rightarrow> time \<Rightarrow> account" where
  "snapped a base now \<equiv> fst (fastSchedulerSnapshot a base now)"

lemma snapped_eq:
  "snapped a base now =
     (if isPremium5hPlan (PlanType a) \<and> UsagePercent5hValid a
      then recomputeSchedulerLocked a base now else a)"
  by (simp add: fastSchedulerSnapshot_def Let_def)

lemma snapped_frame [simp]:
  "DBID (snapped a base now) = DBID a"
  "ActiveRequests (snapped a base now) = ActiveRequests a"
  "TotalRequests (snapped a base now) = TotalRequests a"
  "LastUsedAt (snapped a base now) = LastUsedAt a"
  "AccessToken (snapped a base now) = AccessToken a"
  "Status (snapped a base now) = Status a"
  "PlanType (snapped a base now) = PlanType a"
  by (simp_all add: snapped_eq)

lemma snap_eq: "snap a base now = snapshot_values (snapped a base now) base now"
  by (simp add: fastSchedulerSnapshot_def Let_def)

lemma snapped_idem [simp]: "snapped (snapped a base now) base now = snapped a base now"
  by (simp add: snapped_eq)

lemma snapshot_idem [simp]:
  "fastSchedulerSnapshot (snapped a base now) base now = fastSchedulerSnapshot a base now"
  by (rule prod_eqI) (simp_all add: snap_eq)

lemma snap_tier: "sn_tier (snap a base now) = healthTierLocked (snapped a base now)"
  by (simp add: snap_eq snapshot_values_def Let_def)

lemma snap_proven: "sn_proven (snap a base now) \<longleftrightarrow> TotalRequests a > 10"
  by (simp add: snap_eq snapshot_values_def Let_def)

lemma healthTierLocked_set [simp]: "healthTierLocked a \<noteq> TierUnset"
  by (simp add: healthTierLocked_def)

lemma snap_available_not_banned:
  "sn_available (snap a base now) \<Longrightarrow> sn_tier (snap a base now) \<noteq> HealthTierBanned"
  by (auto simp: snap_eq snapshot_values_def Let_def split: if_splits)

lemma schedulable_iff:
  "schedulable_tier t \<longleftrightarrow> t \<noteq> TierUnset \<and> t \<noteq> HealthTierBanned"
  by (cases t) (auto simp: schedulable_tier_def)

lemma snap_available_schedulable:
  "sn_available (snap a base now) \<Longrightarrow> schedulable_tier (sn_tier (snap a base now))"
  using snap_available_not_banned by (auto simp: schedulable_iff snap_tier)

lemma tier_order_set: "t \<in> set fastSchedulerTierOrder \<longleftrightarrow> schedulable_tier t"
  by (auto simp: fastSchedulerTierOrder_def schedulable_tier_def)

section \<open>Sorting and the proven prefix\<close>

lemma sort_entries_simps [simp]:
  "mset (sort_entries es) = mset es"
  "set (sort_entries es) = set es"
  "length (sort_entries es) = length es"
  "sorted (map entry_key (sort_entries es))"
  "distinct (map e_dbID (sort_entries es)) \<longleftrightarrow> distinct (map e_dbID es)"
proof -
  show "mset (sort_entries es) = mset es" "set (sort_entries es) = set es"
    "length (sort_entries es) = length es" "sorted (map entry_key (sort_entries es))"
    by (simp_all add: sort_entries_def)
  have "mset (map e_dbID (sort_entries es)) = mset (map e_dbID es)"
    by (simp add: sort_entries_def)
  then show "distinct (map e_dbID (sort_entries es)) \<longleftrightarrow> distinct (map e_dbID es)"
    by (metis mset_eq_imp_distinct_iff)
qed

lemma countProvenEntries_le: "countProvenEntries es \<le> length es"
  by (induction es) auto

lemma countProvenEntries_takeWhile: "countProvenEntries es = length (takeWhile e_proven es)"
  by (induction es) auto

text \<open>In a sorted bucket the proven prefix holds exactly the proven entries.\<close>

lemma sorted_proven_prefix:
  assumes "sorted (map entry_key es)" "i < length es"
  shows "e_proven (es ! i) \<longleftrightarrow> i < countProvenEntries es"
proof
  assume "i < countProvenEntries es"
  then show "e_proven (es ! i)"
    by (metis countProvenEntries_takeWhile nth_mem set_takeWhileD takeWhile_nth)
next
  assume p: "e_proven (es ! i)"
  show "i < countProvenEntries es"
  proof (rule ccontr)
    let ?n = "countProvenEntries es"
    assume "\<not> i < ?n"
    then have n: "?n \<le> i" "?n < length es" using assms(2) by auto
    then have "\<not> e_proven (es ! ?n)"
      by (simp add: countProvenEntries_takeWhile nth_length_takeWhile)
    moreover have "entry_key (es ! ?n) \<le> entry_key (es ! i)"
      using sorted_nth_mono [OF assms(1), of ?n i] n assms(2) by simp
    ultimately show False using p by (simp add: entry_key_def less_eq_prod_def)
  qed
qed

section \<open>The position index\<close>

lemma rebuild_positions_other:
  "k \<notin> e_dbID ` set es \<Longrightarrow> rebuild_positions t i es pos k = pos k"
  by (induction es arbitrary: i pos) auto

lemma rebuild_positions_nth:
  "distinct (map e_dbID es) \<Longrightarrow> j < length es \<Longrightarrow>
   rebuild_positions t i es pos (e_dbID (es ! j)) = Some (t, i + j)"
proof (induction es arbitrary: i j pos)
  case Nil
  then show ?case by simp
next
  case (Cons e es)
  show ?case
  proof (cases j)
    case 0
    with Cons.prems show ?thesis by (simp add: rebuild_positions_other)
  next
    case (Suc k)
    with Cons.prems Cons.IH [of k "Suc i"] show ?thesis by simp
  qed
qed

text \<open>The step shared by insertion, removal and rebuild: a tier gets a new bucket.\<close>

definition set_bucket :: "FastScheduler \<Rightarrow> AccountHealthTier \<Rightarrow> fastSchedulerEntry list \<Rightarrow> FastScheduler" where
  "set_bucket fs tier es =
     fs\<lparr>fs_buckets := (fs_buckets fs)(tier := es),
        fs_positions := rebuild_positions tier 0 es (fs_positions fs),
        fs_provenBounds := (fs_provenBounds fs)(tier := countProvenEntries es)\<rparr>"

lemma set_bucket_simps [simp]:
  "fs_buckets (set_bucket fs t es) = (fs_buckets fs)(t := es)"
  "fs_baseLimit (set_bucket fs t es) = fs_baseLimit fs"
  "fs_provenBounds (set_bucket fs t es) = (fs_provenBounds fs)(t := countProvenEntries es)"
  "fs_cursors (set_bucket fs t es) = fs_cursors fs"
  by (simp_all add: set_bucket_def)

definition ids_of :: "FastScheduler \<Rightarrow> AccountHealthTier \<Rightarrow> int set" where
  "ids_of fs t = e_dbID ` set (fs_buckets fs t)"

definition pos_ok :: "AccountHealthTier set \<Rightarrow> FastScheduler \<Rightarrow> bool" where
  "pos_ok T fs \<longleftrightarrow> (\<forall>k t i. fs_positions fs k = Some (t, i) \<longleftrightarrow>
     t \<in> T \<and> i < length (fs_buckets fs t) \<and> e_dbID (fs_buckets fs t ! i) = k)"

lemma pos_ok_set_bucket:
  assumes d: "distinct (map e_dbID es)"
    and disj: "\<And>t'. t' \<in> T \<Longrightarrow> t' \<noteq> t \<Longrightarrow> ids_of fs t' \<inter> e_dbID ` set es = {}"
    and old: "\<And>k t' i. k \<notin> e_dbID ` set es \<Longrightarrow>
      fs_positions fs k = Some (t', i) \<longleftrightarrow>
      t' \<in> T \<and> t' \<noteq> t \<and> i < length (fs_buckets fs t') \<and> e_dbID (fs_buckets fs t' ! i) = k"
  shows "pos_ok (insert t T) (set_bucket fs t es)"
  unfolding pos_ok_def
proof (intro allI)
  fix k t' i
  show "fs_positions (set_bucket fs t es) k = Some (t', i) \<longleftrightarrow>
    t' \<in> insert t T \<and> i < length (fs_buckets (set_bucket fs t es) t') \<and>
    e_dbID (fs_buckets (set_bucket fs t es) t' ! i) = k"
  proof (cases "k \<in> e_dbID ` set es")
    case True
    then obtain j where j: "j < length es" "k = e_dbID (es ! j)"
      by (auto simp: in_set_conv_nth)
    then have pos: "fs_positions (set_bucket fs t es) k = Some (t, j)"
      using rebuild_positions_nth [OF d] by (simp add: set_bucket_def)
    have "t' \<noteq> t \<Longrightarrow> t' \<in> T \<Longrightarrow> i < length (fs_buckets fs t') \<Longrightarrow>
      e_dbID (fs_buckets fs t' ! i) \<noteq> k"
      using disj [of t'] True by (force simp: ids_of_def)
    moreover have "i < length es \<Longrightarrow> e_dbID (es ! i) = k \<longleftrightarrow> i = j"
      using d j by (metis distinct_conv_nth length_map nth_map)
    ultimately show ?thesis using pos j by auto
  next
    case False
    then have "fs_positions (set_bucket fs t es) k = fs_positions fs k"
      by (simp add: set_bucket_def rebuild_positions_other)
    moreover have "i < length es \<Longrightarrow> e_dbID (es ! i) \<noteq> k" using False by auto
    ultimately show ?thesis using old [OF False] by auto
  qed
qed

section \<open>The invariant\<close>

definition fs_inv :: "heap \<Rightarrow> FastScheduler \<Rightarrow> bool" where
  "fs_inv h fs \<longleftrightarrow>
     (\<forall>t. \<not> schedulable_tier t \<longrightarrow> fs_buckets fs t = []) \<and>
     (\<forall>t. sorted (map entry_key (fs_buckets fs t))) \<and>
     (\<forall>t. distinct (map e_dbID (fs_buckets fs t))) \<and>
     (\<forall>t t'. t \<noteq> t' \<longrightarrow> ids_of fs t \<inter> ids_of fs t' = {}) \<and>
     pos_ok UNIV fs \<and>
     (\<forall>t. schedulable_tier t \<longrightarrow> fs_provenBounds fs t = countProvenEntries (fs_buckets fs t)) \<and>
     (\<forall>t. \<forall>e \<in> set (fs_buckets fs t). e_dbID e \<noteq> 0 \<and> DBID (h (e_acc e)) = e_dbID e)"

lemma fs_invD:
  assumes "fs_inv h fs"
  shows "\<not> schedulable_tier t \<Longrightarrow> fs_buckets fs t = []"
    and "sorted (map entry_key (fs_buckets fs t))"
    and "distinct (map e_dbID (fs_buckets fs t))"
    and "t \<noteq> t' \<Longrightarrow> ids_of fs t \<inter> ids_of fs t' = {}"
    and "pos_ok UNIV fs"
    and "schedulable_tier t \<Longrightarrow> fs_provenBounds fs t = countProvenEntries (fs_buckets fs t)"
    and "e \<in> set (fs_buckets fs t) \<Longrightarrow> e_dbID e \<noteq> 0"
    and "e \<in> set (fs_buckets fs t) \<Longrightarrow> DBID (h (e_acc e)) = e_dbID e"
  using assms unfolding fs_inv_def by blast+

lemma fs_inv_heap:
  "fs_inv h fs \<Longrightarrow> (\<And>ad. DBID (h' ad) = DBID (h ad)) \<Longrightarrow> fs_inv h' fs"
  unfolding fs_inv_def by simp

lemma fs_inv_cursors [simp]:
  "fs_inv h (fs\<lparr>fs_cursors := c\<rparr>) = fs_inv h fs"
  "fs_inv h (fs\<lparr>fs_provenCurs := c\<rparr>) = fs_inv h fs"
  "fs_inv h (fs\<lparr>fs_baseLimit := n\<rparr>) = fs_inv h fs"
  by (simp_all add: fs_inv_def pos_ok_def ids_of_def)

lemma fs_inv_new [simp]: "fs_inv h (NewFastScheduler n)"
  by (simp add: fs_inv_def NewFastScheduler_def pos_ok_def ids_of_def schedulable_tier_def)

lemma fs_inv_set_bucket:
  assumes inv: "fs_inv h fs" and t: "schedulable_tier t"
    and s: "sorted (map entry_key es)" and d: "distinct (map e_dbID es)"
    and disj: "\<And>t'. t' \<noteq> t \<Longrightarrow> ids_of fs t' \<inter> e_dbID ` set es = {}"
    and pos: "\<And>k t' i. k \<notin> e_dbID ` set es \<Longrightarrow>
      pos k = Some (t', i) \<longleftrightarrow>
      t' \<noteq> t \<and> i < length (fs_buckets fs t') \<and> e_dbID (fs_buckets fs t' ! i) = k"
    and heap: "\<And>e. e \<in> set es \<Longrightarrow> e_dbID e \<noteq> 0 \<and> DBID (h (e_acc e)) = e_dbID e"
  shows "fs_inv h (set_bucket (fs\<lparr>fs_positions := pos\<rparr>) t es)"
proof -
  let ?fs = "set_bucket (fs\<lparr>fs_positions := pos\<rparr>) t es"
  have ids: "ids_of ?fs u = (if u = t then e_dbID ` set es else ids_of fs u)" for u
    by (simp add: ids_of_def)
  have "pos_ok (insert t UNIV) ?fs"
    by (rule pos_ok_set_bucket [OF d]) (use disj pos in \<open>auto simp: ids_of_def\<close>)
  then have p: "pos_ok UNIV ?fs" by simp
  show ?thesis
    unfolding fs_inv_def
  proof (intro conjI allI impI ballI p)
    fix u v :: AccountHealthTier and e
    show "\<not> schedulable_tier u \<Longrightarrow> fs_buckets ?fs u = []"
      using t fs_invD(1) [OF inv] by auto
    show "sorted (map entry_key (fs_buckets ?fs u))" using s fs_invD(2) [OF inv] by simp
    show "distinct (map e_dbID (fs_buckets ?fs u))" using d fs_invD(3) [OF inv] by simp
    show "u \<noteq> v \<Longrightarrow> ids_of ?fs u \<inter> ids_of ?fs v = {}"
      using disj [of u] disj [of v] fs_invD(4) [OF inv, of u v] by (auto simp: ids)
    show "schedulable_tier u \<Longrightarrow> fs_provenBounds ?fs u = countProvenEntries (fs_buckets ?fs u)"
      using fs_invD(6) [OF inv] by simp
    show "e \<in> set (fs_buckets ?fs u) \<Longrightarrow> e_dbID e \<noteq> 0"
      using heap fs_invD(7) [OF inv] by (auto split: if_splits)
    show "e \<in> set (fs_buckets ?fs u) \<Longrightarrow> DBID (h (e_acc e)) = e_dbID e"
      using heap fs_invD(8) [OF inv] by (auto split: if_splits)
  qed
qed

section \<open>Removal, insertion, rebuild\<close>

lemma pos_ok_lookup:
  assumes "pos_ok UNIV fs" "distinct (map e_dbID (fs_buckets fs t))" "e \<in> set (fs_buckets fs t)"
  shows "\<exists>i. fs_positions fs (e_dbID e) = Some (t, i)"
  using assms by (auto simp: pos_ok_def in_set_conv_nth)

lemma removeLocked_set_bucket:
  assumes "fs_positions fs k = Some (t, i)" "i < length (fs_buckets fs t)"
  shows "removeLocked fs k =
    set_bucket (fs\<lparr>fs_positions := (fs_positions fs)(k := None)\<rparr>) t (remove_nth i (fs_buckets fs t))"
  using assms by (simp add: removeLocked_def set_bucket_def rebuildPositionsLocked_def Let_def)

lemma removeLocked_buckets:
  assumes inv: "fs_inv h fs"
  shows "fs_buckets (removeLocked fs k) t = filter (\<lambda>e. e_dbID e \<noteq> k) (fs_buckets fs t)"
proof (cases "fs_positions fs k")
  case None
  then have "\<forall>e \<in> set (fs_buckets fs t). e_dbID e \<noteq> k"
    using pos_ok_lookup [OF fs_invD(5) [OF inv] fs_invD(3) [OF inv]] by fastforce
  with None show ?thesis by (simp add: removeLocked_def filter_id_conv [THEN iffD2])
next
  case (Some p)
  obtain u i where p: "p = (u, i)" by (cases p)
  with Some fs_invD(5) [OF inv] have i: "i < length (fs_buckets fs u)" "e_dbID (fs_buckets fs u ! i) = k"
    by (auto simp: pos_ok_def)
  have rem: "remove_nth i (fs_buckets fs u) = filter (\<lambda>e. e_dbID e \<noteq> k) (fs_buckets fs u)"
    using filter_remove_eq [OF fs_invD(3) [OF inv] i(1)] i(2) by simp
  have "t \<noteq> u \<Longrightarrow> \<forall>e \<in> set (fs_buckets fs t). e_dbID e \<noteq> k"
    using fs_invD(4) [OF inv, of t u] i by (force simp: ids_of_def)
  then have "t \<noteq> u \<Longrightarrow> filter (\<lambda>e. e_dbID e \<noteq> k) (fs_buckets fs t) = fs_buckets fs t"
    by (simp add: filter_id_conv [THEN iffD2])
  with Some p i rem show ?thesis by (auto simp: removeLocked_set_bucket)
qed

lemma removeLocked_frame [simp]:
  "fs_baseLimit (removeLocked fs k) = fs_baseLimit fs"
  by (simp add: removeLocked_def rebuildPositionsLocked_def Let_def split: option.split)

lemma fs_inv_remove [inv_intros]:
  assumes inv: "fs_inv h fs"
  shows "fs_inv h (removeLocked fs k)"
proof (cases "fs_positions fs k")
  case None
  with inv show ?thesis by (simp add: removeLocked_def)
next
  case (Some p)
  obtain t i where p: "p = (t, i)" by (cases p)
  note pos = fs_invD(5) [OF inv, unfolded pos_ok_def, rule_format]
  from Some p pos have i: "i < length (fs_buckets fs t)" "e_dbID (fs_buckets fs t ! i) = k"
    by auto
  let ?es = "remove_nth i (fs_buckets fs t)"
  have ids: "e_dbID ` set ?es = ids_of fs t - {k}"
  proof -
    have "set (remove_nth i (map e_dbID (fs_buckets fs t))) = set (map e_dbID (fs_buckets fs t)) - {k}"
      using set_remove_nth_distinct [OF fs_invD(3) [OF inv]] i by simp
    then show ?thesis by (simp add: map_remove_nth [symmetric] ids_of_def)
  qed
  have t: "schedulable_tier t"
  proof (rule ccontr)
    assume "\<not> schedulable_tier t"
    then have "fs_buckets fs t = []" by (rule fs_invD(1) [OF inv])
    with i show False by simp
  qed
  show ?thesis
    unfolding removeLocked_set_bucket [OF Some [unfolded p] i(1)]
  proof (rule fs_inv_set_bucket [OF inv t])
    show "sorted (map entry_key ?es)"
      using fs_invD(2) [OF inv] by (simp add: map_remove_nth)
    show "distinct (map e_dbID ?es)"
      using fs_invD(3) [OF inv] by (simp add: map_remove_nth)
    show "ids_of fs t' \<inter> e_dbID ` set ?es = {}" if "t' \<noteq> t" for t'
      using fs_invD(4) [OF inv that] ids by blast
    show "((fs_positions fs)(k := None)) x = Some (t', j) \<longleftrightarrow>
        t' \<noteq> t \<and> j < length (fs_buckets fs t') \<and> e_dbID (fs_buckets fs t' ! j) = x"
      if "x \<notin> e_dbID ` set ?es" for x t' j
    proof (cases "x = k")
      case True
      have "t' \<noteq> t \<Longrightarrow> j < length (fs_buckets fs t') \<Longrightarrow> e_dbID (fs_buckets fs t' ! j) \<noteq> k"
        using fs_invD(4) [OF inv, of t' t] i by (force simp: ids_of_def)
      with True show ?thesis by auto
    next
      case False
      with that ids have "x \<notin> ids_of fs t" by auto
      then have "j < length (fs_buckets fs t) \<Longrightarrow> e_dbID (fs_buckets fs t ! j) \<noteq> x"
        by (auto simp: ids_of_def)
      with False pos [of x t' j] show ?thesis by auto
    qed
    show "e_dbID e \<noteq> 0 \<and> DBID (h (e_acc e)) = e_dbID e" if "e \<in> set ?es" for e
      using that set_remove_nth_subset fs_invD(7,8) [OF inv] by fast
  qed
qed

lemma fs_inv_Remove [inv_intros]: "fs_inv h fs \<Longrightarrow> fs_inv h (Remove fs k)"
  by (simp add: Remove_def fs_inv_remove)

text \<open>When \<open>insertLocked\<close> places an account, and what it then does.\<close>

definition placeable :: "account \<Rightarrow> int \<Rightarrow> time \<Rightarrow> bool" where
  "placeable a base now \<longleftrightarrow>
     DBID a \<noteq> 0 \<and> sn_available (snap a base now) \<and> sn_limit (snap a base now) > 0"

abbreviation entry_of :: "heap \<Rightarrow> addr \<Rightarrow> int \<Rightarrow> time \<Rightarrow> fastSchedulerEntry" where
  "entry_of h ad base now \<equiv> make_entry ad (snapped (h ad) base now) (snap (h ad) base now)"

lemma insertLocked_heap:
  "fst (insertLocked h fs ad now) =
     (if DBID (h ad) = 0 then h else h(ad := snapped (h ad) (fs_baseLimit fs) now))"
  by (simp add: insertLocked_def Let_def split: prod.split)

lemma insertLocked_fs:
  "snd (insertLocked h fs ad now) =
     (if placeable (h ad) (fs_baseLimit fs) now
      then set_bucket fs (sn_tier (snap (h ad) (fs_baseLimit fs) now))
             (sort_entries (fs_buckets fs (sn_tier (snap (h ad) (fs_baseLimit fs) now))
                @ [entry_of h ad (fs_baseLimit fs) now]))
      else fs)"
  using snap_available_schedulable [of "h ad" "fs_baseLimit fs" now]
  by (auto simp: insertLocked_def placeable_def set_bucket_def rebuildPositionsLocked_def Let_def
      split: prod.splits)

lemma insertLocked_ids [simp]: "DBID (fst (insertLocked h fs ad now) x) = DBID (h x)"
  by (simp add: insertLocked_heap)

lemma insertLocked_base [simp]: "fs_baseLimit (snd (insertLocked h fs ad now)) = fs_baseLimit fs"
  by (simp add: insertLocked_fs)

lemma fs_inv_insert [inv_intros]:
  assumes inv: "fs_inv h fs" and new: "\<And>t. DBID (h ad) \<notin> ids_of fs t"
  shows "fs_inv (fst (insertLocked h fs ad now)) (snd (insertLocked h fs ad now))"
proof (cases "placeable (h ad) (fs_baseLimit fs) now")
  case False
  then have "snd (insertLocked h fs ad now) = fs" by (simp add: insertLocked_fs)
  with fs_inv_heap [OF inv, of "fst (insertLocked h fs ad now)"] show ?thesis by simp
next
  case True
  define t where "t = sn_tier (snap (h ad) (fs_baseLimit fs) now)"
  define e where "e = entry_of h ad (fs_baseLimit fs) now"
  have st: "schedulable_tier t"
    using True snap_available_schedulable by (simp add: t_def placeable_def)
  have e: "e_dbID e = DBID (h ad)" "e_acc e = ad" "DBID (h ad) \<noteq> 0"
    using True by (simp_all add: e_def make_entry_def placeable_def)
  note pos = fs_invD(5) [OF inv, unfolded pos_ok_def, rule_format]
  have "fs_inv h (set_bucket (fs\<lparr>fs_positions := fs_positions fs\<rparr>) t
      (sort_entries (fs_buckets fs t @ [e])))"
  proof (rule fs_inv_set_bucket [OF inv st])
    show "distinct (map e_dbID (sort_entries (fs_buckets fs t @ [e])))"
      using fs_invD(3) [OF inv, of t] new [of t] by (simp add: e ids_of_def)
    show "ids_of fs u \<inter> e_dbID ` set (sort_entries (fs_buckets fs t @ [e])) = {}" if "u \<noteq> t" for u
      using fs_invD(4) [OF inv that] new [of u] by (auto simp: e ids_of_def)
    show "fs_positions fs k = Some (u, i) \<longleftrightarrow>
        u \<noteq> t \<and> i < length (fs_buckets fs u) \<and> e_dbID (fs_buckets fs u ! i) = k"
      if "k \<notin> e_dbID ` set (sort_entries (fs_buckets fs t @ [e]))" for k u i
      using that pos [of k u i] by auto
    show "e_dbID x \<noteq> 0 \<and> DBID (h (e_acc x)) = e_dbID x"
      if "x \<in> set (sort_entries (fs_buckets fs t @ [e]))" for x
      using that e fs_invD(7,8) [OF inv] by auto
  qed simp
  then have "fs_inv h (snd (insertLocked h fs ad now))"
    using True by (simp add: insertLocked_fs t_def e_def)
  then show ?thesis by (rule fs_inv_heap) simp
qed

lemma removed_id: "fs_inv h fs \<Longrightarrow> k \<notin> ids_of (removeLocked fs k) t"
  by (auto simp: ids_of_def removeLocked_buckets)

lemma fs_inv_Update [inv_intros]:
  assumes "fs_inv h fs"
  shows "fs_inv (fst (Update h fs ad now)) (snd (Update h fs ad now))"
  unfolding Update_def
  by (rule fs_inv_insert [OF fs_inv_remove [OF assms] removed_id [OF assms]])

text \<open>Heaps that differ by snapshots only.\<close>

definition touched :: "int \<Rightarrow> time \<Rightarrow> heap \<Rightarrow> heap \<Rightarrow> bool" where
  "touched base now h h' \<longleftrightarrow> (\<forall>ad. h' ad = h ad \<or> h' ad = snapped (h ad) base now)"

lemma touched_refl [simp]: "touched base now h h"
  by (simp add: touched_def)

lemma touched_upd [simp]: "touched base now h (h(ad := snapped (h ad) base now))"
  by (simp add: touched_def)

lemma touched_trans: "touched base now h h' \<Longrightarrow> touched base now h' h'' \<Longrightarrow> touched base now h h''"
  unfolding touched_def by (metis snapped_idem)

lemma touched_snap:
  assumes "touched base now h h'"
  shows "fastSchedulerSnapshot (h' ad) base now = fastSchedulerSnapshot (h ad) base now"
proof -
  have "h' ad = h ad \<or> h' ad = snapped (h ad) base now" using assms by (simp add: touched_def)
  then show ?thesis by (elim disjE) simp_all
qed

lemma touched_frame:
  assumes "touched base now h h'"
  shows "DBID (h' ad) = DBID (h ad)" "ActiveRequests (h' ad) = ActiveRequests (h ad)"
    "TotalRequests (h' ad) = TotalRequests (h ad)"
proof -
  have "h' ad = h ad \<or> h' ad = snapped (h ad) base now" using assms by (simp add: touched_def)
  then show "DBID (h' ad) = DBID (h ad)" "ActiveRequests (h' ad) = ActiveRequests (h ad)"
    "TotalRequests (h' ad) = TotalRequests (h ad)"
    by (elim disjE; simp)+
qed

definition bs_ok :: "heap \<Rightarrow> (AccountHealthTier \<Rightarrow> fastSchedulerEntry list) \<Rightarrow> bool" where
  "bs_ok h bs \<longleftrightarrow>
     (\<forall>t. \<not> schedulable_tier t \<longrightarrow> bs t = []) \<and>
     (\<forall>t. distinct (map e_dbID (bs t))) \<and>
     (\<forall>t t'. t \<noteq> t' \<longrightarrow> e_dbID ` set (bs t) \<inter> e_dbID ` set (bs t') = {}) \<and>
     (\<forall>t. \<forall>e \<in> set (bs t). e_dbID e \<noteq> 0 \<and> DBID (h (e_acc e)) = e_dbID e)"

lemma bs_ok_heap: "bs_ok h bs \<Longrightarrow> (\<And>ad. DBID (h' ad) = DBID (h ad)) \<Longrightarrow> bs_ok h' bs"
  unfolding bs_ok_def by simp

lemma bs_ok_add:
  assumes ok: "bs_ok h bs" and t: "schedulable_tier t"
    and e: "e_dbID e \<noteq> 0" "DBID (h (e_acc e)) = e_dbID e"
    and new: "\<And>u. e_dbID e \<notin> e_dbID ` set (bs u)"
  shows "bs_ok h (bs(t := bs t @ [e]))"
  unfolding bs_ok_def
proof (intro conjI allI impI)
  fix u v
  show "\<not> schedulable_tier u \<Longrightarrow> (bs(t := bs t @ [e])) u = []"
    using ok t by (auto simp: bs_ok_def)
  show "distinct (map e_dbID ((bs(t := bs t @ [e])) u))"
    using ok new by (auto simp: bs_ok_def)
  show "u \<noteq> v \<Longrightarrow> e_dbID ` set ((bs(t := bs t @ [e])) u) \<inter> e_dbID ` set ((bs(t := bs t @ [e])) v) = {}"
    using ok new [of u] new [of v] by (auto simp: bs_ok_def image_iff)
  show "\<forall>x \<in> set ((bs(t := bs t @ [e])) u). e_dbID x \<noteq> 0 \<and> DBID (h (e_acc x)) = e_dbID x"
    using ok e by (auto simp: bs_ok_def)
qed

lemma fill_buckets_step:
  "fill_buckets base now h bs (ad # ads) =
     fill_buckets base now
       (if DBID (h ad) = 0 then h else h(ad := snapped (h ad) base now))
       (if placeable (h ad) base now
        then bs(sn_tier (snap (h ad) base now) := bs (sn_tier (snap (h ad) base now))
               @ [entry_of h ad base now])
        else bs) ads"
  using snap_available_schedulable [of "h ad" base now]
  by (auto simp: placeable_def Let_def split: prod.splits)

lemma fill_buckets_touched: "touched base now h (fst (fill_buckets base now h bs ads))"
proof (induction ads arbitrary: h bs)
  case Nil
  then show ?case by simp
next
  case (Cons ad ads)
  have "touched base now h (if DBID (h ad) = 0 then h else h(ad := snapped (h ad) base now))"
    by simp
  with Cons.IH show ?case unfolding fill_buckets_step by (blast intro: touched_trans)
qed

lemma fill_buckets_ok:
  "bs_ok h bs \<Longrightarrow> distinct (map (\<lambda>ad. DBID (h ad)) ads) \<Longrightarrow>
   (\<And>t e. e \<in> set (bs t) \<Longrightarrow> e_dbID e \<notin> (\<lambda>ad. DBID (h ad)) ` set ads) \<Longrightarrow>
   bs_ok (fst (fill_buckets base now h bs ads)) (snd (fill_buckets base now h bs ads))"
proof (induction ads arbitrary: h bs)
  case Nil
  then show ?case by simp
next
  case (Cons ad ads)
  define h1 where "h1 = (if DBID (h ad) = 0 then h else h(ad := snapped (h ad) base now))"
  define e where "e = entry_of h ad base now"
  define bs1 where "bs1 = (if placeable (h ad) base now
    then bs(sn_tier (snap (h ad) base now) := bs (sn_tier (snap (h ad) base now)) @ [e]) else bs)"
  have ids: "DBID (h1 x) = DBID (h x)" for x by (simp add: h1_def)
  have e: "e_dbID e = DBID (h ad)" "e_acc e = ad" by (simp_all add: e_def make_entry_def)
  have "bs_ok h bs1"
  proof (cases "placeable (h ad) base now")
    case True
    have new: "e_dbID e \<notin> e_dbID ` set (bs u)" for u using Cons.prems(3) [of _ u] e by fastforce
    have "bs_ok h (bs(sn_tier (snap (h ad) base now) := bs (sn_tier (snap (h ad) base now)) @ [e]))"
      using True e snap_available_schedulable
      by (intro bs_ok_add [OF Cons.prems(1) _ _ _ new]) (simp_all add: placeable_def)
    with True show ?thesis by (simp add: bs1_def)
  next
    case False
    with Cons.prems(1) show ?thesis by (simp add: bs1_def)
  qed
  then have ok: "bs_ok h1 bs1" by (rule bs_ok_heap) (simp add: ids)
  have "e_dbID x \<notin> (\<lambda>ad. DBID (h1 ad)) ` set ads" if x: "x \<in> set (bs1 t)" for x t
  proof (cases "x \<in> set (bs t)")
    case True
    then show ?thesis using Cons.prems(3) [of x t] by (simp add: ids)
  next
    case False
    with x have "x = e" by (simp add: bs1_def split: if_splits)
    then show ?thesis using Cons.prems(2) e by (simp add: ids)
  qed
  with ok Cons.prems(2) have "bs_ok (fst (fill_buckets base now h1 bs1 ads))
      (snd (fill_buckets base now h1 bs1 ads))"
    by (intro Cons.IH) (simp_all add: ids)
  then show ?case unfolding fill_buckets_step by (simp only: h1_def bs1_def e_def)
qed

lemma fill_buckets_mono: "set (bs t) \<subseteq> set (snd (fill_buckets base now h bs ads) t)"
proof (induction ads arbitrary: h bs)
  case Nil
  then show ?case by simp
next
  case (Cons ad ads)
  show ?case unfolding fill_buckets_step by (rule subset_trans [OF _ Cons.IH]) auto
qed

lemma fill_buckets_covers:
  "ad \<in> set ads \<Longrightarrow> placeable (h ad) base now \<Longrightarrow>
   \<exists>t. \<exists>e \<in> set (snd (fill_buckets base now h bs ads) t). e_acc e = ad \<and> e_dbID e = DBID (h ad)"
proof (induction ads arbitrary: h bs)
  case Nil
  then show ?case by simp
next
  case (Cons x ads)
  show ?case
  proof (cases "ad = x")
    case True
    let ?t = "sn_tier (snap (h x) base now)"
    let ?bs = "bs(?t := bs ?t @ [entry_of h x base now])"
    have "entry_of h x base now \<in> set (?bs ?t)" by simp
    then have "entry_of h x base now \<in> set (snd (fill_buckets base now h bs (x # ads)) ?t)"
      unfolding fill_buckets_step using True Cons.prems(2) fill_buckets_mono [of ?bs ?t] by auto
    with True show ?thesis by (force simp: make_entry_def)
  next
    case False
    let ?h = "if DBID (h x) = 0 then h else h(x := snapped (h x) base now)"
    let ?bs = "if placeable (h x) base now
      then bs(sn_tier (snap (h x) base now) := bs (sn_tier (snap (h x) base now))
             @ [entry_of h x base now]) else bs"
    have eq: "?h ad = h ad" using False by simp
    have "ad \<in> set ads" "placeable (?h ad) base now"
      using False Cons.prems by simp_all
    from Cons.IH [of ?h ?bs, OF this] show ?thesis unfolding fill_buckets_step eq .
  qed
qed

lemma sort_entries_Nil [simp]: "sort_entries [] = []"
  by (simp add: sort_entries_def)

lemma finish_bucket_set: "finish_bucket fs t = set_bucket fs t (sort_entries (fs_buckets fs t))"
  by (simp add: finish_bucket_def set_bucket_def rebuildPositionsLocked_def Let_def
      fun_upd_idem)

lemma finish_bucket_pos:
  assumes ok: "bs_ok h (fs_buckets fs)" and p: "pos_ok T fs" and t: "t \<notin> T"
  shows "bs_ok h (fs_buckets (finish_bucket fs t))" "pos_ok (insert t T) (finish_bucket fs t)"
proof -
  show "bs_ok h (fs_buckets (finish_bucket fs t))"
    using ok unfolding bs_ok_def finish_bucket_set by (auto split: if_splits)
  show "pos_ok (insert t T) (finish_bucket fs t)"
    unfolding finish_bucket_set
  proof (rule pos_ok_set_bucket)
    show "distinct (map e_dbID (sort_entries (fs_buckets fs t)))" using ok by (simp add: bs_ok_def)
    show "ids_of fs t' \<inter> e_dbID ` set (sort_entries (fs_buckets fs t)) = {}" if "t' \<noteq> t" for t'
      using ok that by (simp add: bs_ok_def ids_of_def)
    show "fs_positions fs k = Some (t', i) \<longleftrightarrow>
      t' \<in> T \<and> t' \<noteq> t \<and> i < length (fs_buckets fs t') \<and> e_dbID (fs_buckets fs t' ! i) = k"
      for k t' i using p t by (auto simp: pos_ok_def)
  qed
qed

lemma finish_all:
  assumes ok: "bs_ok h (fs_buckets fs)" and none: "fs_positions fs = (\<lambda>_. None)"
  defines "fs' \<equiv> foldl finish_bucket fs fastSchedulerTierOrder"
  shows "fs_inv h fs'" "set (fs_buckets fs' t) = set (fs_buckets fs t)"
    "fs_baseLimit fs' = fs_baseLimit fs"
proof -
  let ?f1 = "finish_bucket fs HealthTierHealthy"
  let ?f2 = "finish_bucket ?f1 HealthTierWarm"
  have fs': "fs' = finish_bucket ?f2 HealthTierRisky"
    by (simp add: fs'_def fastSchedulerTierOrder_def)
  have "pos_ok {} fs" using none by (simp add: pos_ok_def)
  note 1 = finish_bucket_pos [OF ok this, of HealthTierHealthy, simplified]
  note 2 = finish_bucket_pos [OF 1, of HealthTierWarm, simplified]
  note 3 = finish_bucket_pos [OF 2, of HealthTierRisky, simplified, folded fs']
  have empty: "\<not> schedulable_tier u \<Longrightarrow> fs_buckets fs' u = []" for u
    using 3(1) by (simp add: bs_ok_def)
  have pos: "pos_ok UNIV fs'"
    unfolding pos_ok_def
  proof (intro allI)
    fix k u i
    have "u \<notin> {HealthTierRisky, HealthTierWarm, HealthTierHealthy} \<Longrightarrow> fs_buckets fs' u = []"
      by (rule empty) (auto simp: schedulable_tier_def)
    then show "fs_positions fs' k = Some (u, i) \<longleftrightarrow>
        u \<in> UNIV \<and> i < length (fs_buckets fs' u) \<and> e_dbID (fs_buckets fs' u ! i) = k"
      using 3(2) unfolding pos_ok_def by (cases u) auto
  qed
  have bk: "fs_buckets fs' = (fs_buckets fs)
      (HealthTierHealthy := sort_entries (fs_buckets fs HealthTierHealthy),
       HealthTierWarm := sort_entries (fs_buckets fs HealthTierWarm),
       HealthTierRisky := sort_entries (fs_buckets fs HealthTierRisky))"
    by (simp add: fs' finish_bucket_set)
  have s: "sorted (map entry_key (fs_buckets fs' u))" for u
  proof (cases "schedulable_tier u")
    case True
    then show ?thesis by (auto simp: bk schedulable_tier_def)
  next
    case False
    then show ?thesis by (simp add: empty)
  qed
  have pb: "schedulable_tier u \<Longrightarrow> fs_provenBounds fs' u = countProvenEntries (fs_buckets fs' u)" for u
    by (auto simp: fs' finish_bucket_set schedulable_tier_def)
  show "fs_inv h fs'"
    using 3(1) pos s pb unfolding fs_inv_def bs_ok_def ids_of_def by blast
  show "set (fs_buckets fs' t) = set (fs_buckets fs t)" by (simp add: bk)
  show "fs_baseLimit fs' = fs_baseLimit fs" by (simp add: fs' finish_bucket_set)
qed

lemma Rebuild_eq:
  "Rebuild h fs ads now =
     (fst (fill_buckets (fs_baseLimit fs) now h (\<lambda>_. []) ads),
      foldl finish_bucket
        (fs\<lparr>fs_positions := (\<lambda>_. None),
            fs_buckets := snd (fill_buckets (fs_baseLimit fs) now h (\<lambda>_. []) ads)\<rparr>)
        fastSchedulerTierOrder)"
  by (simp add: Rebuild_def Let_def split: prod.split)

lemma fs_inv_Rebuild [inv_intros]:
  assumes "distinct (map (\<lambda>ad. DBID (h ad)) ads)"
  shows "fs_inv (fst (Rebuild h fs ads now)) (snd (Rebuild h fs ads now))"
proof -
  have "bs_ok h (\<lambda>_. [])" by (simp add: bs_ok_def)
  then have "bs_ok (fst (fill_buckets (fs_baseLimit fs) now h (\<lambda>_. []) ads))
      (snd (fill_buckets (fs_baseLimit fs) now h (\<lambda>_. []) ads))"
    using assms by (rule fill_buckets_ok) simp
  then show ?thesis unfolding Rebuild_eq by (auto intro!: finish_all(1))
qed

lemma Rebuild_base [simp]: "fs_baseLimit (snd (Rebuild h fs ads now)) = fs_baseLimit fs"
  by (simp add: Rebuild_eq fastSchedulerTierOrder_def finish_bucket_set)

lemma Rebuild_touched: "touched (fs_baseLimit fs) now h (fst (Rebuild h fs ads now))"
  by (simp add: Rebuild_eq fill_buckets_touched)

lemma Rebuild_covers:
  assumes "distinct (map (\<lambda>ad. DBID (h ad)) ads)" "ad \<in> set ads"
    and "placeable (h ad) (fs_baseLimit fs) now"
  shows "\<exists>t. \<exists>e \<in> set (fs_buckets (snd (Rebuild h fs ads now)) t). e_acc e = ad"
proof -
  let ?bs = "snd (fill_buckets (fs_baseLimit fs) now h (\<lambda>_. []) ads)"
  let ?h = "fst (fill_buckets (fs_baseLimit fs) now h (\<lambda>_. []) ads)"
  have "bs_ok h (\<lambda>_. [])" by (simp add: bs_ok_def)
  then have ok: "bs_ok ?h ?bs" using assms(1) by (rule fill_buckets_ok) simp
  obtain t e where "e \<in> set (?bs t)" "e_acc e = ad"
    using fill_buckets_covers [of ad ads h "fs_baseLimit fs" now "\<lambda>_. []"] assms(2,3) by blast
  with ok finish_all(2) [of ?h "fs\<lparr>fs_positions := (\<lambda>_. None), fs_buckets := ?bs\<rparr>" t]
  show ?thesis unfolding Rebuild_eq by auto
qed

end
