(* ===== verification/AcquireLaws.thy ===== *)
theory AcquireLaws
  imports FastSchedulerLaws
begin

text \<open>
  \<open>AcquireExcluding\<close> of the fast scheduler: what one pass over the buckets does, why the loop that
  restarts after every stale entry ends, what an acquired account guarantees and what the answer
  nil means.
\<close>

section \<open>Verdicts on an entry\<close>

text \<open>The cached values of an entry still agree with a snapshot of its account.\<close>

definition fresh :: "heap \<Rightarrow> int \<Rightarrow> time \<Rightarrow> AccountHealthTier \<Rightarrow> fastSchedulerEntry \<Rightarrow> bool" where
  "fresh h base now t e \<longleftrightarrow>
     (let sn = snap (h (e_acc e)) base now
      in sn_tier sn = t \<and> sn_proven sn = e_proven e \<and> \<bar>sn_score sn - e_dispatchScore e\<bar> < 1)"

definition can_take :: "heap \<Rightarrow> int \<Rightarrow> time \<Rightarrow> fastSchedulerEntry \<Rightarrow> bool" where
  "can_take h base now e \<longleftrightarrow>
     (let sn = snap (h (e_acc e)) base now
      in sn_available sn \<and> sn_limit sn > 0 \<and> ActiveRequests (h (e_acc e)) < sn_limit sn)"

definition skipped ::
  "heap \<Rightarrow> int \<Rightarrow> time \<Rightarrow> int set \<Rightarrow> AccountHealthTier \<Rightarrow> fastSchedulerEntry \<Rightarrow> bool" where
  "skipped h base now ex t e \<longleftrightarrow> e_dbID e \<in> ex \<or> (fresh h base now t e \<and> \<not> can_take h base now e)"

definition taken :: "account \<Rightarrow> int \<Rightarrow> time \<Rightarrow> account" where
  "taken a base now = snd (tryAcquireAccount (snapped a base now) (sn_limit (snap a base now)) now)"

definition restock ::
  "heap \<Rightarrow> FastScheduler \<Rightarrow> fastSchedulerEntry \<Rightarrow> time \<Rightarrow> heap \<times> FastScheduler" where
  "restock h fs e now =
     (let sn = snap (h (e_acc e)) (fs_baseLimit fs) now;
          fs = removeLocked fs (e_dbID e)
      in if sn_available sn \<and> sn_limit sn > 0 then insertLocked h fs (e_acc e) now else (h, fs))"

lemma touched_verdicts:
  assumes "touched base now h h'"
  shows "fresh h' base now t e = fresh h base now t e"
    and "can_take h' base now e = can_take h base now e"
    and "skipped h' base now ex t e = skipped h base now ex t e"
    and "taken (h' ad) base now = taken (h ad) base now"
    and "snap (h' ad) base now = snap (h ad) base now"
    and "snapped (h' ad) base now = snapped (h ad) base now"
  using touched_snap [OF assms] touched_frame [OF assms]
  by (simp_all add: fresh_def can_take_def skipped_def taken_def)

lemma not_skipped_take:
  "\<not> skipped h base now ex t e \<Longrightarrow> fresh h base now t e \<Longrightarrow> can_take h base now e"
  by (simp add: skipped_def)

section \<open>One scan of a range\<close>

lemma scan_entries_Cons:
  "scan_entries h fs t base now ex (e # es) =
     (if e_dbID e \<in> ex then scan_entries h fs t base now ex es
      else if \<not> fresh h base now t e
      then (let hf = (let fs = removeLocked fs (e_dbID e);
                          h = h(e_acc e := snapped (h (e_acc e)) base now);
                          sn = snap (h (e_acc e)) base now
                      in if sn_available sn \<and> sn_limit sn > 0
                         then insertLocked h fs (e_acc e) now else (h, fs))
            in (fst hf, snd hf, Stale))
      else if can_take h base now e
      then (h(e_acc e := taken (h (e_acc e)) base now), fs, Acquired (e_acc e))
      else scan_entries (h(e_acc e := snapped (h (e_acc e)) base now)) fs t base now ex es)"
proof -
  obtain a sn where s: "fastSchedulerSnapshot (h (e_acc e)) base now = (a, sn)" by force
  have act: "ActiveRequests a = ActiveRequests (h (e_acc e))"
    using snapped_frame(2) [of "h (e_acc e)" base now] s by simp
  have idem: "fastSchedulerSnapshot a base now = (a, sn)"
    using snapshot_idem [of "h (e_acc e)" base now] s by simp
  show ?thesis
    by (simp add: s act idem fresh_def can_take_def taken_def tryAcquireAccount_def Let_def
        not_le not_less split: prod.split)
qed

lemma scan_entries_spec:
  "base = fs_baseLimit fs \<Longrightarrow>
   \<exists>h1. touched base now h h1 \<and>
     scan_entries h fs t base now ex es =
       (case dropWhile (skipped h base now ex t) es of
          [] \<Rightarrow> (h1, fs, Exhausted)
        | e # _ \<Rightarrow>
            if fresh h base now t e
            then (h1(e_acc e := taken (h (e_acc e)) base now), fs, Acquired (e_acc e))
            else (fst (restock h1 fs e now), snd (restock h1 fs e now), Stale))"
proof (induction es arbitrary: h)
  case Nil
  show ?case by (rule exI [of _ h]) simp
next
  case (Cons e es)
  let ?h1 = "h(e_acc e := snapped (h (e_acc e)) base now)"
  consider "e_dbID e \<in> ex" | "e_dbID e \<notin> ex" "\<not> fresh h base now t e"
    | "e_dbID e \<notin> ex" "fresh h base now t e" "can_take h base now e"
    | "e_dbID e \<notin> ex" "fresh h base now t e" "\<not> can_take h base now e" by blast
  then show ?case
  proof cases
    case 1
    with Cons.IH [OF Cons.prems, of h] show ?thesis
      by (simp add: scan_entries_Cons skipped_def del: scan_entries.simps)
  next
    case 2
    have t1: "touched base now h ?h1" by simp
    show ?thesis
      by (intro exI [of _ ?h1] conjI, rule t1)
         (use 2 Cons.prems in \<open>simp add: scan_entries_Cons skipped_def restock_def Let_def
            del: scan_entries.simps\<close>)
  next
    case 3
    then show ?thesis
      by (intro exI [of _ h]) (simp add: scan_entries_Cons skipped_def del: scan_entries.simps)
  next
    case 4
    have t1: "touched base now h ?h1" by simp
    obtain h1 where h1: "touched base now ?h1 h1"
      "scan_entries ?h1 fs t base now ex es =
         (case dropWhile (skipped ?h1 base now ex t) es of
            [] \<Rightarrow> (h1, fs, Exhausted)
          | e # _ \<Rightarrow>
              if fresh ?h1 base now t e
              then (h1(e_acc e := taken (?h1 (e_acc e)) base now), fs, Acquired (e_acc e))
              else (fst (restock h1 fs e now), snd (restock h1 fs e now), Stale))"
      using Cons.IH [OF Cons.prems] by blast
    have "scan_entries h fs t base now ex (e # es) = scan_entries ?h1 fs t base now ex es"
      using 4 by (simp add: scan_entries_Cons del: scan_entries.simps)
    moreover have "skipped h base now ex t e" using 4 by (simp add: skipped_def)
    ultimately show ?thesis
      using h1 touched_trans [OF t1 h1(1)] unfolding touched_verdicts [OF t1]
      by (intro exI [of _ h1]) (simp del: scan_entries.simps)
  qed
qed

lemma rotation_set:
  assumes "n \<le> length xs" "0 < n"
  shows "set (rotation n start xs) = set (take n xs)"
proof -
  have "(\<lambda>i. (start + i) mod n) ` {0..<n} = {0..<n}"
  proof (rule card_subset_eq)
    show "(\<lambda>i. (start + i) mod n) ` {0..<n} \<subseteq> {0..<n}" using assms(2) by auto
    have "inj_on (\<lambda>i. (start + i) mod n) {0..<n}"
      by (rule inj_onI) (auto dest: mod_add_inj)
    then show "card ((\<lambda>i. (start + i) mod n) ` {0..<n}) = card {0..<n}" by (rule card_image)
  qed simp
  moreover have "set (rotation n start xs) = (!) xs ` ((\<lambda>i. (start + i) mod n) ` {0..<n})"
    by (simp add: rotation_def image_image)
  ultimately show ?thesis using assms(1) nth_image [of n xs] by (simp add: atLeast0LessThan)
qed

text \<open>Schedulers that differ in their cursors only.\<close>

definition same_sched :: "FastScheduler \<Rightarrow> FastScheduler \<Rightarrow> bool" where
  "same_sched fs fs' \<longleftrightarrow>
     fs_baseLimit fs' = fs_baseLimit fs \<and> fs_buckets fs' = fs_buckets fs \<and>
     fs_positions fs' = fs_positions fs \<and> fs_provenBounds fs' = fs_provenBounds fs"

lemma same_sched_refl [simp]: "same_sched fs fs"
  by (simp add: same_sched_def)

lemma same_sched_trans: "same_sched fs fs' \<Longrightarrow> same_sched fs' fs'' \<Longrightarrow> same_sched fs fs''"
  by (simp add: same_sched_def)

lemma same_sched_fields:
  assumes "same_sched fs fs'"
  shows "fs_baseLimit fs' = fs_baseLimit fs" "fs_buckets fs' = fs_buckets fs"
    "fs_provenBounds fs' = fs_provenBounds fs" "fs_inv h fs' = fs_inv h fs"
  using assms by (simp_all add: same_sched_def fs_inv_def pos_ok_def ids_of_def)

lemma same_sched_cursors [simp]:
  "same_sched fs (fs\<lparr>fs_cursors := c\<rparr>)" "same_sched fs (fs\<lparr>fs_provenCurs := c\<rparr>)"
  by (simp_all add: same_sched_def)

text \<open>
  What a pass over some entries may return, relative to the heap it started from; \<open>seen\<close> are the
  entries it has visited when it finds nothing, and \<open>E\<close> those it may stop at.
\<close>

definition pass_ok ::
  "heap \<Rightarrow> FastScheduler \<Rightarrow> time \<Rightarrow> int set \<Rightarrow> (AccountHealthTier \<times> fastSchedulerEntry) set
     \<Rightarrow> (AccountHealthTier \<Rightarrow> fastSchedulerEntry \<Rightarrow> bool)
     \<Rightarrow> heap \<times> FastScheduler \<times> scan_result \<Rightarrow> bool" where
  "pass_ok h fs now ex E good out \<longleftrightarrow>
     (\<exists>h1 fs1. touched (fs_baseLimit fs) now h h1 \<and> same_sched fs fs1 \<and>
        (case out of (h', fs', Exhausted) \<Rightarrow>
             h' = h1 \<and> fs' = fs1 \<and> (\<forall>(t, e) \<in> E. skipped h (fs_baseLimit fs) now ex t e)
         | (h', fs', Acquired ad) \<Rightarrow>
             fs' = fs1 \<and>
             (\<exists>(t, e) \<in> E. ad = e_acc e \<and> fresh h (fs_baseLimit fs) now t e \<and>
                e_dbID e \<notin> ex \<and> can_take h (fs_baseLimit fs) now e \<and> good t e \<and>
                h' = h1(ad := taken (h ad) (fs_baseLimit fs) now))
         | (h', fs', Stale) \<Rightarrow>
             (\<exists>(t, e) \<in> E. \<not> fresh h (fs_baseLimit fs) now t e \<and>
                h' = fst (restock h1 fs1 e now) \<and> fs' = snd (restock h1 fs1 e now))))"

lemma pass_ok_Exhausted:
  assumes "touched (fs_baseLimit fs) now h h1" "same_sched fs fs1"
    and "\<And>t e. (t, e) \<in> E \<Longrightarrow> skipped h (fs_baseLimit fs) now ex t e"
  shows "pass_ok h fs now ex E good (h1, fs1, Exhausted)"
  unfolding pass_ok_def by (intro exI [of _ h1] exI [of _ fs1]) (use assms in auto)

lemma pass_ok_Acquired:
  assumes "touched (fs_baseLimit fs) now h h1" "same_sched fs fs1" "(t, e) \<in> E"
    and "fresh h (fs_baseLimit fs) now t e" "\<not> skipped h (fs_baseLimit fs) now ex t e" "good t e"
  shows "pass_ok h fs now ex E good
    (h1(e_acc e := taken (h (e_acc e)) (fs_baseLimit fs) now), fs1, Acquired (e_acc e))"
  unfolding pass_ok_def
  by (intro exI [of _ h1] exI [of _ fs1])
     (use assms in \<open>auto simp: skipped_def intro!: bexI [of _ "(t, e)"]\<close>)

lemma pass_ok_Stale:
  assumes "touched (fs_baseLimit fs) now h h1" "same_sched fs fs1" "(t, e) \<in> E"
    and "\<not> fresh h (fs_baseLimit fs) now t e"
  shows "pass_ok h fs now ex E good (fst (restock h1 fs1 e now), snd (restock h1 fs1 e now), Stale)"
  unfolding pass_ok_def
  by (intro exI [of _ h1] exI [of _ fs1]) (use assms in \<open>auto intro!: bexI [of _ "(t, e)"]\<close>)

lemma scanRange_ok:
  assumes n: "n \<le> length (fs_buckets fs t)"
  shows "pass_ok h fs now ex (Pair t ` set (take n (fs_buckets fs t))) (\<lambda>_ _. True)
    (scanRangeLocked h fs t n pr (fs_baseLimit fs) now ex)"
proof (cases "n = 0")
  case True
  then have "scanRangeLocked h fs t n pr (fs_baseLimit fs) now ex = (h, fs, Exhausted)"
    by (simp add: scanRangeLocked_def)
  with True show ?thesis
    unfolding pass_ok_def by (intro exI [of _ h] exI [of _ fs]) simp
next
  case False
  define start where "start = (if pr then fs_provenCurs fs t else fs_cursors fs t) mod n"
  define fs1 where "fs1 = (if pr
    then fs\<lparr>fs_provenCurs := (fs_provenCurs fs)(t := Suc (fs_provenCurs fs t))\<rparr>
    else fs\<lparr>fs_cursors := (fs_cursors fs)(t := Suc (fs_cursors fs t))\<rparr>)"
  define es where "es = rotation n start (fs_buckets fs t)"
  have out: "scanRangeLocked h fs t n pr (fs_baseLimit fs) now ex =
      scan_entries h fs1 t (fs_baseLimit fs) now ex es"
    using False by (simp add: scanRangeLocked_def Let_def start_def fs1_def es_def)
  have s1: "same_sched fs fs1" by (simp add: fs1_def)
  have set: "set es = set (take n (fs_buckets fs t))"
    using rotation_set [OF n] False by (simp add: es_def)
  obtain h1 where h1: "touched (fs_baseLimit fs) now h h1"
    "scan_entries h fs1 t (fs_baseLimit fs) now ex es =
       (case dropWhile (skipped h (fs_baseLimit fs) now ex t) es of
          [] \<Rightarrow> (h1, fs1, Exhausted)
        | e # _ \<Rightarrow>
            if fresh h (fs_baseLimit fs) now t e
            then (h1(e_acc e := taken (h (e_acc e)) (fs_baseLimit fs) now), fs1, Acquired (e_acc e))
            else (fst (restock h1 fs1 e now), snd (restock h1 fs1 e now), Stale))"
    using scan_entries_spec [OF same_sched_fields(1) [OF s1, symmetric], of now h t ex es] by blast
  show ?thesis
  proof (cases "dropWhile (skipped h (fs_baseLimit fs) now ex t) es")
    case Nil
    then have "\<forall>e \<in> set es. skipped h (fs_baseLimit fs) now ex t e" by (simp add: dropWhile_eq_Nil_conv)
    with set have sk: "\<And>t' e. (t', e) \<in> Pair t ` set (take n (fs_buckets fs t)) \<Longrightarrow>
        skipped h (fs_baseLimit fs) now ex t' e" by auto
    show ?thesis
      unfolding out h1(2) Nil list.case by (rule pass_ok_Exhausted [OF h1(1) s1 sk])
  next
    case (Cons e es')
    have "e \<in> set es" using Cons by (metis list.set_intros(1) set_dropWhileD)
    then have e: "(t, e) \<in> Pair t ` set (take n (fs_buckets fs t))" using set by simp
    have ns: "\<not> skipped h (fs_baseLimit fs) now ex t e"
      using Cons by (metis dropWhile_eq_Cons_conv)
    show ?thesis
    proof (cases "fresh h (fs_baseLimit fs) now t e")
      case True
      show ?thesis
        unfolding out h1(2) Cons list.case if_P [OF True]
        by (rule pass_ok_Acquired [OF h1(1) s1 e True ns TrueI])
    next
      case False
      show ?thesis
        unfolding out h1(2) Cons list.case if_not_P [OF False]
        by (rule pass_ok_Stale [OF h1(1) s1 e False])
    qed
  qed
qed

lemma pass_ok_step:
  assumes t: "touched (fs_baseLimit fs) now h h1" and s: "same_sched fs fs1"
    and p: "pass_ok h1 fs1 now ex E good out" and sub: "E \<subseteq> E'"
    and rest: "\<And>t e. snd (snd out) = Exhausted \<Longrightarrow> (t, e) \<in> E' - E \<Longrightarrow>
      skipped h (fs_baseLimit fs) now ex t e"
    and good: "\<And>t e. (t, e) \<in> E \<Longrightarrow> good t e \<Longrightarrow> good' t e"
  shows "pass_ok h fs now ex E' good' out"
proof -
  obtain h' fs' r where out: "out = (h', fs', r)" by (cases out)
  note b = same_sched_fields(1) [OF s]
  note v = touched_verdicts [OF t]
  obtain h2 fs2 where h2: "touched (fs_baseLimit fs) now h1 h2" "same_sched fs1 fs2"
    and c: "case r of Exhausted \<Rightarrow>
             h' = h2 \<and> fs' = fs2 \<and> (\<forall>(t, e) \<in> E. skipped h (fs_baseLimit fs) now ex t e)
         | Acquired ad \<Rightarrow>
             fs' = fs2 \<and>
             (\<exists>(t, e) \<in> E. ad = e_acc e \<and> fresh h (fs_baseLimit fs) now t e \<and>
                e_dbID e \<notin> ex \<and> can_take h (fs_baseLimit fs) now e \<and> good t e \<and>
                h' = h2(ad := taken (h ad) (fs_baseLimit fs) now))
         | Stale \<Rightarrow>
             (\<exists>(t, e) \<in> E. \<not> fresh h (fs_baseLimit fs) now t e \<and>
                h' = fst (restock h2 fs2 e now) \<and> fs' = snd (restock h2 fs2 e now))"
    using p unfolding pass_ok_def out b v by auto
  have t2: "touched (fs_baseLimit fs) now h h2" using touched_trans [OF t h2(1)] .
  have s2: "same_sched fs fs2" using same_sched_trans [OF s h2(2)] .
  show ?thesis
  proof (cases r)
    case (Acquired ad)
    with c obtain t e where e: "(t, e) \<in> E" "ad = e_acc e" "fresh h (fs_baseLimit fs) now t e"
      "e_dbID e \<notin> ex" "can_take h (fs_baseLimit fs) now e" "good t e" "fs' = fs2"
      "h' = h2(ad := taken (h ad) (fs_baseLimit fs) now)" by auto
    have ns: "\<not> skipped h (fs_baseLimit fs) now ex t e" using e by (simp add: skipped_def)
    have "(t, e) \<in> E'" using e(1) sub by blast
    from pass_ok_Acquired [where good = good', OF t2 s2 this e(3) ns good [OF e(1,6)]] e
    show ?thesis unfolding out Acquired by simp
  next
    case Stale
    with c obtain t e where e: "(t, e) \<in> E" "\<not> fresh h (fs_baseLimit fs) now t e"
      "h' = fst (restock h2 fs2 e now)" "fs' = snd (restock h2 fs2 e now)" by auto
    have "(t, e) \<in> E'" using e(1) sub by blast
    from pass_ok_Stale [OF t2 s2 this e(2)] show ?thesis unfolding out Stale e(3,4) .
  next
    case Exhausted
    with c have e: "h' = h2" "fs' = fs2" "\<And>t e. (t, e) \<in> E \<Longrightarrow> skipped h (fs_baseLimit fs) now ex t e"
      by auto
    show ?thesis
      unfolding out Exhausted e(1,2)
      by (rule pass_ok_Exhausted [OF t2 s2]) (use e(3) rest Exhausted out in auto)
  qed
qed

lemma pass_ok_ExhaustedD:
  assumes "pass_ok h fs now ex E good (h', fs', Exhausted)"
  shows "touched (fs_baseLimit fs) now h h'" "same_sched fs fs'"
    "(t, e) \<in> E \<Longrightarrow> skipped h (fs_baseLimit fs) now ex t e"
  using assms unfolding pass_ok_def by auto

definition entries_of :: "FastScheduler \<Rightarrow> AccountHealthTier set \<Rightarrow> (AccountHealthTier \<times> fastSchedulerEntry) set" where
  "entries_of fs T = {(t, e). t \<in> T \<and> e \<in> set (fs_buckets fs t)}"

text \<open>Every entry that ranks before the one acquired was skipped.\<close>

definition preferred ::
  "heap \<Rightarrow> FastScheduler \<Rightarrow> time \<Rightarrow> int set \<Rightarrow> AccountHealthTier list
     \<Rightarrow> AccountHealthTier \<Rightarrow> fastSchedulerEntry \<Rightarrow> bool" where
  "preferred h fs now ex tiers t e \<longleftrightarrow>
     (\<forall>t' \<in> set (takeWhile (\<lambda>u. u \<noteq> t) tiers). \<forall>e' \<in> set (fs_buckets fs t').
        skipped h (fs_baseLimit fs) now ex t' e') \<and>
     (\<not> e_proven e \<longrightarrow> (\<forall>e' \<in> set (fs_buckets fs t). e_proven e' \<longrightarrow>
        skipped h (fs_baseLimit fs) now ex t e'))"

lemma proven_range:
  assumes "sorted (map entry_key es)"
  shows "set (take (countProvenEntries es) es) = {e \<in> set es. e_proven e}"
proof -
  have eq: "take (countProvenEntries es) es = takeWhile e_proven es"
    by (simp add: countProvenEntries_takeWhile takeWhile_eq_take [symmetric])
  have "e \<in> set (takeWhile e_proven es)" if e: "e \<in> set es" "e_proven e" for e
  proof -
    obtain i where "i < length es" "es ! i = e" using e(1) by (auto simp: in_set_conv_nth)
    with sorted_proven_prefix [OF assms, of i] e(2) show ?thesis
      unfolding eq [symmetric] by (force simp: in_set_conv_nth)
  qed
  then show ?thesis unfolding eq by (auto dest: set_takeWhileD)
qed

lemma scan_tiers_ok:
  assumes "\<And>t. t \<in> set tiers \<Longrightarrow> fs_provenBounds fs t = countProvenEntries (fs_buckets fs t)"
    and "\<And>t. sorted (map entry_key (fs_buckets fs t))"
    and "distinct tiers"
  shows "pass_ok h fs now ex (entries_of fs (set tiers)) (preferred h fs now ex tiers)
    (scan_tiers h fs (fs_baseLimit fs) now ex tiers)"
  using assms
proof (induction tiers arbitrary: h fs)
  case Nil
  show ?case
    unfolding scan_tiers.simps by (rule pass_ok_Exhausted) (simp_all add: entries_of_def)
next
  case (Cons t tiers)
  let ?b = "fs_baseLimit fs" and ?es = "fs_buckets fs t" and ?pb = "fs_provenBounds fs t"
  let ?E = "entries_of fs (set (t # tiers))" and ?pref = "preferred h fs now ex (t # tiers)"
  obtain h1 fs1 r1 where o1: "(if ?pb > 0 then scanRangeLocked h fs t ?pb True ?b now ex
      else (h, fs, Exhausted)) = (h1, fs1, r1)" by (metis prod_cases3)
  obtain h2 fs2 r2 where o2:
    "scanRangeLocked h1 fs1 t (length (fs_buckets fs1 t)) False ?b now ex = (h2, fs2, r2)"
    by (metis prod_cases3)
  have pb: "?pb = countProvenEntries ?es" using Cons.prems(1) by simp
  have pr: "set (take ?pb ?es) = {e \<in> set ?es. e_proven e}"
    unfolding pb by (rule proven_range [OF Cons.prems(2)])
  have p1: "pass_ok h fs now ex (Pair t ` {e \<in> set ?es. e_proven e}) (\<lambda>_ _. True) (h1, fs1, r1)"
  proof (cases "?pb > 0")
    case True
    with scanRange_ok [of ?pb fs t h now ex True] o1 countProvenEntries_le [of ?es] pb pr
    show ?thesis by simp
  next
    case False
    with o1 have "(h1, fs1, r1) = (h, fs, Exhausted)" by simp
    then show ?thesis using pr False by (auto intro!: pass_ok_Exhausted)
  qed
  have subE: "Pair t ` {e \<in> set ?es. e_proven e} \<subseteq> ?E" "Pair t ` set ?es \<subseteq> ?E"
    "entries_of fs (set tiers) \<subseteq> ?E" by (auto simp: entries_of_def)
  show ?case
  proof (cases "?es = []")
    case True
    then have E: "?E = entries_of fs (set tiers)" by (auto simp: entries_of_def)
    have "preferred h fs now ex tiers u e \<Longrightarrow> ?pref u e" for u e
      using True by (auto simp: preferred_def)
    with Cons True E show ?thesis
      using pass_ok_step [OF touched_refl same_sched_refl, of h fs now ex ?E
          "preferred h fs now ex tiers" "scan_tiers h fs ?b now ex tiers" ?E ?pref] by simp
  next
    case ne: False
    show ?thesis
    proof (cases "r1 = Exhausted")
      case False
      then have out: "scan_tiers h fs ?b now ex (t # tiers) = (h1, fs1, r1)"
        using ne o1 by simp
      show ?thesis
        unfolding out
        by (rule pass_ok_step [OF touched_refl same_sched_refl p1 subE(1)])
           (use False in \<open>auto simp: preferred_def\<close>)
    next
      case r1: True
      note d1 = pass_ok_ExhaustedD [OF p1 [unfolded r1]]
      note b1 = same_sched_fields [OF d1(2)]
      have p2: "pass_ok h1 fs1 now ex (Pair t ` set ?es) (\<lambda>_ _. True) (h2, fs2, r2)"
        using scanRange_ok [OF order_refl, where fs = fs1 and t = t and h = h1 and now = now
            and ex = ex and pr = False] o2 b1 by simp
      have p2': "pass_ok h fs now ex (Pair t ` set ?es) ?pref (h2, fs2, r2)"
        by (rule pass_ok_step [OF d1(1,2) p2 subset_refl]) (use d1(3) in \<open>auto simp: preferred_def\<close>)
      show ?thesis
      proof (cases "r2 = Exhausted")
        case False
        then have out: "scan_tiers h fs ?b now ex (t # tiers) = (h2, fs2, r2)"
          using ne o1 o2 r1 by simp
        show ?thesis
          unfolding out
          by (rule pass_ok_step [OF touched_refl same_sched_refl p2' subE(2)]) (use False in auto)
      next
        case r2: True
        note d2 = pass_ok_ExhaustedD [OF p2' [unfolded r2]]
        note b2 = same_sched_fields [OF d2(2)]
        note v = touched_verdicts [OF d2(1)]
        have out: "scan_tiers h fs ?b now ex (t # tiers) = scan_tiers h2 fs2 ?b now ex tiers"
          using ne o1 o2 r1 r2 by simp
        have "pass_ok h2 fs2 now ex (entries_of fs2 (set tiers)) (preferred h2 fs2 now ex tiers)
            (scan_tiers h2 fs2 (fs_baseLimit fs2) now ex tiers)"
          by (rule Cons.IH) (use Cons.prems b2 in auto)
        then have p3: "pass_ok h2 fs2 now ex (entries_of fs (set tiers)) (preferred h2 fs2 now ex tiers)
            (scan_tiers h2 fs2 ?b now ex tiers)" by (simp add: entries_of_def b2)
        show ?thesis
          unfolding out
        proof (rule pass_ok_step [OF d2(1,2) p3 subE(3)])
          show "(u, e) \<in> ?E - entries_of fs (set tiers) \<Longrightarrow> skipped h ?b now ex u e" for u e
            using d2(3) [of u e] by (auto simp: entries_of_def)
          show "?pref u e" if "(u, e) \<in> entries_of fs (set tiers)" "preferred h2 fs2 now ex tiers u e"
            for u e
          proof -
            have "u \<noteq> t" using that(1) Cons.prems(3) by (auto simp: entries_of_def)
            moreover have "\<forall>e' \<in> set ?es. skipped h ?b now ex t e'" using d2(3) by auto
            ultimately show ?thesis
              using that(2) unfolding preferred_def b2 v by simp
          qed
        qed
      qed
    qed
  qed
qed

section \<open>Stale entries are used up\<close>

definition stale_count :: "heap \<Rightarrow> FastScheduler \<Rightarrow> time \<Rightarrow> nat" where
  "stale_count h fs now =
     (\<Sum>t \<in> set fastSchedulerTierOrder.
        length (filter (\<lambda>e. \<not> fresh h (fs_baseLimit fs) now t e) (fs_buckets fs t)))"

lemma length_filter_sort_entries [simp]:
  "length (filter P (sort_entries es)) = length (filter P es)"
  by (metis mset_filter size_mset sort_entries_simps(1))

lemma stale_count_cong:
  "touched (fs_baseLimit fs) now h h1 \<Longrightarrow> same_sched fs fs1 \<Longrightarrow>
   stale_count h1 fs1 now = stale_count h fs now"
  by (simp add: stale_count_def same_sched_fields touched_verdicts)

lemma restock_heap: "touched (fs_baseLimit fs) now h (fst (restock h fs e now))"
  by (simp add: restock_def Let_def insertLocked_heap)

lemma restock_fs:
  assumes "fs_inv h fs" "e \<in> set (fs_buckets fs t)"
  shows "snd (restock h fs e now) = snd (insertLocked h (removeLocked fs (e_dbID e)) (e_acc e) now)"
  using fs_invD(7,8) [OF assms] by (simp add: restock_def Let_def insertLocked_fs placeable_def)

lemma restock_base [simp]: "fs_baseLimit (snd (restock h fs e now)) = fs_baseLimit fs"
  by (simp add: restock_def Let_def)

lemma fs_inv_restock:
  assumes inv: "fs_inv h fs" and e: "e \<in> set (fs_buckets fs t)"
  shows "fs_inv (fst (restock h fs e now)) (snd (restock h fs e now))"
proof -
  have "DBID (h (e_acc e)) = e_dbID e" by (rule fs_invD(8) [OF inv e])
  then have "fs_inv (fst (insertLocked h (removeLocked fs (e_dbID e)) (e_acc e) now))
      (snd (insertLocked h (removeLocked fs (e_dbID e)) (e_acc e) now))"
    using fs_inv_insert [OF fs_inv_remove [OF inv], of "e_acc e" "e_dbID e" now]
      removed_id [OF inv] by simp
  then have "fs_inv (fst (restock h fs e now))
      (snd (insertLocked h (removeLocked fs (e_dbID e)) (e_acc e) now))"
    by (rule fs_inv_heap) (simp add: touched_frame [OF restock_heap])
  then show ?thesis unfolding restock_fs [OF inv e] .
qed

text \<open>The entry that replaces a stale one agrees with its account, so one stale entry is gone.\<close>

lemma restock_filter_le:
  assumes inv: "fs_inv h fs" and e: "e \<in> set (fs_buckets fs t)"
  shows "length (filter (\<lambda>e. \<not> fresh h (fs_baseLimit fs) now u e)
             (fs_buckets (snd (restock h fs e now)) u))
         = length (filter (\<lambda>e. \<not> fresh h (fs_baseLimit fs) now u e)
             (filter (\<lambda>x. e_dbID x \<noteq> e_dbID e) (fs_buckets fs u)))"
proof -
  have "fresh h (fs_baseLimit fs) now (sn_tier (snap (h a) (fs_baseLimit fs) now))
      (entry_of h a (fs_baseLimit fs) now)" for a
    by (simp add: fresh_def make_entry_def Let_def)
  then show ?thesis
    unfolding restock_fs [OF inv e] insertLocked_fs
    by (simp add: removeLocked_buckets [OF inv])
qed

lemma restock_decreases:
  assumes inv: "fs_inv h fs" and e: "e \<in> set (fs_buckets fs t)"
    and stale: "\<not> fresh h (fs_baseLimit fs) now t e"
  shows "stale_count (fst (restock h fs e now)) (snd (restock h fs e now)) now < stale_count h fs now"
proof -
  let ?st = "\<lambda>u e. \<not> fresh h (fs_baseLimit fs) now u e"
  let ?new = "\<lambda>u. length (filter (?st u) (fs_buckets (snd (restock h fs e now)) u))"
  let ?old = "\<lambda>u. length (filter (?st u) (fs_buckets fs u))"
  have t: "t \<in> set fastSchedulerTierOrder"
    using fs_invD(1) [OF inv, of t] e by (cases "schedulable_tier t") (auto simp: tier_order_set)
  have le: "?new u \<le> ?old u" for u
    unfolding restock_filter_le [OF inv e] filter_filter by (rule length_filter_le_mono) simp
  have less: "?new t < ?old t"
    unfolding restock_filter_le [OF inv e] filter_filter
    by (rule length_filter_less [OF _ e]) (use stale in auto)
  have "sum ?new (set fastSchedulerTierOrder) < sum ?old (set fastSchedulerTierOrder)"
    by (rule sum_strict_mono_ex1) (use le less t in auto)
  then show ?thesis
    by (simp add: stale_count_def touched_verdicts(1) [OF restock_heap])
qed

section \<open>The whole operation\<close>

abbreviation pass :: "heap \<Rightarrow> FastScheduler \<Rightarrow> int set \<Rightarrow> time \<Rightarrow> heap \<times> FastScheduler \<times> scan_result" where
  "pass h fs ex now \<equiv> scan_tiers h fs (fs_baseLimit fs) now ex fastSchedulerTierOrder"

lemma pass_spec:
  assumes "fs_inv h fs"
  shows "pass_ok h fs now ex (entries_of fs (set fastSchedulerTierOrder))
    (preferred h fs now ex fastSchedulerTierOrder) (pass h fs ex now)"
proof (rule scan_tiers_ok)
  show "fs_provenBounds fs t = countProvenEntries (fs_buckets fs t)"
    if "t \<in> set fastSchedulerTierOrder" for t
    using that fs_invD(6) [OF assms] by (simp add: tier_order_set)
  show "sorted (map entry_key (fs_buckets fs t))" for t by (rule fs_invD(2) [OF assms])
  show "distinct fastSchedulerTierOrder" by (simp add: fastSchedulerTierOrder_def)
qed

text \<open>A stale pass leaves a scheduler with the invariant and fewer stale entries.\<close>

lemma stale_pass:
  assumes inv: "fs_inv h fs" and p: "pass h fs ex now = (h', fs', Stale)"
  shows "fs_inv h' fs'" "stale_count h' fs' now < stale_count h fs now"
    "touched (fs_baseLimit fs) now h h'" "fs_baseLimit fs' = fs_baseLimit fs"
proof -
  obtain h1 fs1 t e where o: "touched (fs_baseLimit fs) now h h1" "same_sched fs fs1"
    "(t, e) \<in> entries_of fs (set fastSchedulerTierOrder)" "\<not> fresh h (fs_baseLimit fs) now t e"
    "h' = fst (restock h1 fs1 e now)" "fs' = snd (restock h1 fs1 e now)"
    using pass_spec [OF inv, of now ex] unfolding p pass_ok_def by auto
  note b = same_sched_fields [OF o(2)]
  have inv1: "fs_inv h1 fs1"
    using fs_inv_heap [OF inv, of h1] touched_frame(1) [OF o(1)] b(4) by blast
  have e: "e \<in> set (fs_buckets fs1 t)" using o(3) b by (simp add: entries_of_def)
  have st: "\<not> fresh h1 (fs_baseLimit fs1) now t e" using o(4) by (simp add: b touched_verdicts [OF o(1)])
  show "fs_inv h' fs'" unfolding o by (rule fs_inv_restock [OF inv1 e])
  show "stale_count h' fs' now < stale_count h fs now"
    using restock_decreases [OF inv1 e st] unfolding o stale_count_cong [OF o(1,2)] .
  show "touched (fs_baseLimit fs) now h h'"
    using touched_trans [OF o(1)] restock_heap [of fs1 now h1 e] by (simp add: o b)
  show "fs_baseLimit fs' = fs_baseLimit fs" by (simp add: o b)
qed

text \<open>Accounts keep their entry as long as they can be placed.\<close>

definition has_entry :: "FastScheduler \<Rightarrow> addr \<Rightarrow> bool" where
  "has_entry fs ad \<longleftrightarrow> (\<exists>t. \<exists>e \<in> set (fs_buckets fs t). e_acc e = ad)"

lemma restock_has_entry:
  assumes inv: "fs_inv h fs" and e: "e \<in> set (fs_buckets fs t)"
  shows "has_entry fs ad \<Longrightarrow> placeable (h ad) (fs_baseLimit fs) now \<Longrightarrow>
           has_entry (snd (restock h fs e now)) ad"
    and "has_entry (snd (restock h fs e now)) ad \<Longrightarrow> has_entry fs ad"
proof -
  assume "has_entry fs ad" and p: "placeable (h ad) (fs_baseLimit fs) now"
  then obtain u x where x: "x \<in> set (fs_buckets fs u)" "e_acc x = ad" by (auto simp: has_entry_def)
  show "has_entry (snd (restock h fs e now)) ad"
  proof (cases "e_acc e = ad")
    case True
    with p have "entry_of h ad (fs_baseLimit fs) now
        \<in> set (fs_buckets (snd (restock h fs e now)) (sn_tier (snap (h ad) (fs_baseLimit fs) now)))"
      unfolding restock_fs [OF inv e] insertLocked_fs by simp
    then show ?thesis unfolding has_entry_def by (metis make_entry_def fastSchedulerEntry.select_convs(1))
  next
    case False
    then have "e_dbID x \<noteq> e_dbID e"
      using x e fs_invD(3) [OF inv, of t] fs_invD(4) [OF inv, of t u]
      by (cases "t = u") (force simp: distinct_map inj_on_def, auto simp: ids_of_def)
    with x have "x \<in> set (fs_buckets (snd (restock h fs e now)) u)"
      unfolding restock_fs [OF inv e] insertLocked_fs by (auto simp: removeLocked_buckets [OF inv])
    with x(2) show ?thesis by (auto simp: has_entry_def)
  qed
next
  assume "has_entry (snd (restock h fs e now)) ad"
  then show "has_entry fs ad"
    using e unfolding restock_fs [OF inv e] insertLocked_fs has_entry_def
    by (auto simp: removeLocked_buckets [OF inv] make_entry_def split: if_splits)
qed

lemma stale_pass_entries:
  assumes inv: "fs_inv h fs" and p: "pass h fs ex now = (h', fs', Stale)"
  shows "has_entry fs ad \<Longrightarrow> placeable (h ad) (fs_baseLimit fs) now \<Longrightarrow> has_entry fs' ad"
    and "has_entry fs' ad \<Longrightarrow> has_entry fs ad"
proof -
  obtain h1 fs1 t e where o: "touched (fs_baseLimit fs) now h h1" "same_sched fs fs1"
    "(t, e) \<in> entries_of fs (set fastSchedulerTierOrder)"
    "fs' = snd (restock h1 fs1 e now)"
    using pass_spec [OF inv, of now ex] unfolding p pass_ok_def by auto
  note b = same_sched_fields [OF o(2)]
  have inv1: "fs_inv h1 fs1"
    using fs_inv_heap [OF inv, of h1] touched_frame(1) [OF o(1)] b(4) by blast
  have e: "e \<in> set (fs_buckets fs1 t)" using o(3) b by (simp add: entries_of_def)
  have he: "has_entry fs1 ad = has_entry fs ad" by (simp add: has_entry_def b)
  have pl: "placeable (h1 ad) (fs_baseLimit fs1) now = placeable (h ad) (fs_baseLimit fs) now"
    by (simp add: placeable_def b touched_verdicts [OF o(1)] touched_frame [OF o(1)])
  show "has_entry fs ad \<Longrightarrow> placeable (h ad) (fs_baseLimit fs) now \<Longrightarrow> has_entry fs' ad"
    using restock_has_entry(1) [OF inv1 e] he pl by (simp add: o(4))
  show "has_entry fs' ad \<Longrightarrow> has_entry fs ad"
    using restock_has_entry(2) [OF inv1 e] he by (simp add: o(4))
qed

text \<open>The loop runs stale passes until one pass ends with an account or with nothing.\<close>

lemma acquire_last_pass:
  assumes "fs_inv h fs"
  obtains h1 fs1 h2 fs2 r where
    "touched (fs_baseLimit fs) now h h1" "fs_inv h1 fs1" "fs_baseLimit fs1 = fs_baseLimit fs"
    "\<And>ad. has_entry fs ad \<Longrightarrow> placeable (h ad) (fs_baseLimit fs) now \<Longrightarrow> has_entry fs1 ad"
    "\<And>ad. has_entry fs1 ad \<Longrightarrow> has_entry fs ad"
    "pass h1 fs1 ex now = (h2, fs2, r)" "r \<noteq> Stale"
    "AcquireExcluding h fs ex now
       = Some (h2, fs2, case r of Acquired ad \<Rightarrow> Some ad | _ \<Rightarrow> None)"
  using assms
proof (induction "stale_count h fs now" arbitrary: h fs thesis rule: less_induct)
  case less
  obtain h2 fs2 r where p: "pass h fs ex now = (h2, fs2, r)" by (metis prod_cases3)
  show ?case
  proof (cases "r = Stale")
    case False
    then have "AcquireExcluding h fs ex now
        = Some (h2, fs2, case r of Acquired ad \<Rightarrow> Some ad | _ \<Rightarrow> None)"
      by (subst AcquireExcluding.simps) (simp add: p)
    with False p less.prems show thesis by (intro less.prems(1) [of h fs]) simp_all
  next
    case True
    note p' = p [unfolded True]
    note st = stale_pass [OF less.prems(2) p']
    note en = stale_pass_entries [OF less.prems(2) p']
    have step: "AcquireExcluding h fs ex now = AcquireExcluding h2 fs2 ex now"
      by (subst AcquireExcluding.simps) (simp add: p')
    have pl: "placeable (h2 ad) (fs_baseLimit fs2) now = placeable (h ad) (fs_baseLimit fs) now" for ad
      by (simp add: placeable_def st(4) touched_verdicts [OF st(3)] touched_frame [OF st(3)])
    obtain h3 fs3 h4 fs4 r' where
      q: "touched (fs_baseLimit fs2) now h2 h3" "fs_inv h3 fs3" "fs_baseLimit fs3 = fs_baseLimit fs2"
        "\<And>ad. has_entry fs2 ad \<Longrightarrow> placeable (h2 ad) (fs_baseLimit fs2) now \<Longrightarrow> has_entry fs3 ad"
        "\<And>ad. has_entry fs3 ad \<Longrightarrow> has_entry fs2 ad"
        "pass h3 fs3 ex now = (h4, fs4, r')" "r' \<noteq> Stale"
        "AcquireExcluding h2 fs2 ex now
           = Some (h4, fs4, case r' of Acquired ad \<Rightarrow> Some ad | _ \<Rightarrow> None)"
      using less.hyps [OF st(2) _ st(1)] by metis
    show thesis
    proof (rule less.prems(1) [of h3 fs3 h4 fs4 r'])
      show "touched (fs_baseLimit fs) now h h3"
        using touched_trans [OF st(3)] q(1) st(4) by simp
      show "fs_baseLimit fs3 = fs_baseLimit fs" using q(3) st(4) by simp
      show "has_entry fs ad \<Longrightarrow> placeable (h ad) (fs_baseLimit fs) now \<Longrightarrow> has_entry fs3 ad" for ad
        using q(4) en(1) pl by blast
      show "has_entry fs3 ad \<Longrightarrow> has_entry fs ad" for ad using q(5) en(2) by blast
      show "AcquireExcluding h fs ex now
          = Some (h4, fs4, case r' of Acquired ad \<Rightarrow> Some ad | _ \<Rightarrow> None)"
        using step q(8) by simp
    qed (rule q)+
  qed
qed

section \<open>Guarantees\<close>

lemma acquire_SomeD:
  assumes inv: "fs_inv h fs" and acq: "AcquireExcluding h fs ex now = Some (h', fs', Some ad)"
  obtains h1 t e where "touched (fs_baseLimit fs) now h h1" "fs_inv h fs'"
    "fs_baseLimit fs' = fs_baseLimit fs"
    "t \<in> set fastSchedulerTierOrder" "e \<in> set (fs_buckets fs' t)" "e_acc e = ad" "e_dbID e \<notin> ex"
    "fresh h (fs_baseLimit fs) now t e" "can_take h (fs_baseLimit fs) now e"
    "preferred h fs' now ex fastSchedulerTierOrder t e"
    "h' = h1(ad := taken (h ad) (fs_baseLimit fs) now)"
proof -
  obtain h1 fs1 h2 fs2 r where
    o: "touched (fs_baseLimit fs) now h h1" "fs_inv h1 fs1" "fs_baseLimit fs1 = fs_baseLimit fs"
      "pass h1 fs1 ex now = (h2, fs2, r)" "r \<noteq> Stale"
      "AcquireExcluding h fs ex now
         = Some (h2, fs2, case r of Acquired ad \<Rightarrow> Some ad | _ \<Rightarrow> None)"
    using acquire_last_pass [OF inv] by metis
  then have r: "r = Acquired ad" "h2 = h'" "fs2 = fs'" using acq by (cases r; simp)+
  note v = touched_verdicts [OF o(1)]
  obtain h3 t e where q: "touched (fs_baseLimit fs) now h1 h3" "same_sched fs1 fs'"
    "(t, e) \<in> entries_of fs1 (set fastSchedulerTierOrder)" "ad = e_acc e"
    "fresh h (fs_baseLimit fs) now t e" "e_dbID e \<notin> ex" "can_take h (fs_baseLimit fs) now e"
    "preferred h1 fs1 now ex fastSchedulerTierOrder t e"
    "h' = h3(ad := taken (h ad) (fs_baseLimit fs) now)"
    using pass_spec [OF o(2), of now ex, unfolded o(4)] unfolding pass_ok_def r o(3) v by auto
  note b = same_sched_fields [OF q(2)]
  show thesis
  proof (rule that [of h3 t e])
    show "touched (fs_baseLimit fs) now h h3" using touched_trans [OF o(1) q(1)] .
    show "fs_inv h fs'"
      using fs_inv_heap [OF o(2), of h] touched_frame(1) [OF o(1)] b(4) by simp
    show "preferred h fs' now ex fastSchedulerTierOrder t e"
      using q(8) unfolding preferred_def o(3) b v .
  qed (use q b o(3) in \<open>auto simp: entries_of_def\<close>)
qed

lemma taken_counts:
  assumes "can_take h base now e" "e_acc e = ad"
  shows "ActiveRequests (taken (h ad) base now) = ActiveRequests (h ad) + 1"
    "TotalRequests (taken (h ad) base now) = TotalRequests (h ad) + 1"
    "LastUsedAt (taken (h ad) base now) = unix_nano now"
    "DBID (taken (h ad) base now) = DBID (h ad)"
  using assms by (simp_all add: taken_def tryAcquireAccount_def can_take_def Let_def)

text \<open>A pool of three accounts, one of them proven, for the concrete instances.\<close>

definition demo_heap :: heap where
  "demo_heap = (\<lambda>ad. zero_account\<lparr>DBID := int ad, AccessToken := ''t'',
     HealthTier := (if ad = 1 then HealthTierWarm else HealthTierHealthy),
     DispatchScore := 100 + of_nat ad, DynamicConcurrencyLimit := 2,
     TotalRequests := (if ad = 3 then 20 else 0)\<rparr>)"

definition demo_fs :: FastScheduler where
  "demo_fs = snd (Rebuild demo_heap (NewFastScheduler 2) [1, 2, 3] 100)"

lemma demo_inv: "(\<And>ad. DBID (h ad) = int ad) \<Longrightarrow> fs_inv h demo_fs"
  unfolding demo_fs_def
  by (rule fs_inv_heap [OF fs_inv_Rebuild])
     (simp_all add: touched_frame [OF Rebuild_touched] demo_heap_def)

lemma demo_ids [simp]: "DBID (demo_heap ad) = int ad"
  by (simp add: demo_heap_def)

lemma demo_base [simp]: "fs_baseLimit demo_fs = 2"
  by (simp add: demo_fs_def NewFastScheduler_def)

lemma acquire_result:
  assumes "map_option (snd \<circ> snd) (AcquireExcluding h fs ex now) = Some r"
  obtains h' fs' where "AcquireExcluding h fs ex now = Some (h', fs', r)"
  using assms by auto

lemma acquire_returns:
  assumes "fs_inv h fs"
  obtains h' fs' r where "AcquireExcluding h fs ex now = Some (h', fs', r)"
  using acquire_last_pass [OF assms] by metis

lemma acquire_effect:
  assumes "fs_inv h fs" "AcquireExcluding h fs ex now = Some (h', fs', Some ad)"
  shows "DBID (h ad) \<notin> ex \<and> sn_available (snap (h ad) (fs_baseLimit fs) now) \<and>
    ActiveRequests (h' ad) = ActiveRequests (h ad) + 1 \<and>
    ActiveRequests (h' ad) \<le> sn_limit (snap (h ad) (fs_baseLimit fs) now) \<and>
    TotalRequests (h' ad) = TotalRequests (h ad) + 1 \<and> LastUsedAt (h' ad) = unix_nano now \<and>
    (\<forall>x. x \<noteq> ad \<longrightarrow> ActiveRequests (h' x) = ActiveRequests (h x) \<and>
       TotalRequests (h' x) = TotalRequests (h x)) \<and>
    fs_inv h' fs'"
proof -
  obtain h1 t e where o: "touched (fs_baseLimit fs) now h h1" "fs_inv h fs'"
    "e \<in> set (fs_buckets fs' t)" "e_acc e = ad" "e_dbID e \<notin> ex"
    "can_take h (fs_baseLimit fs) now e"
    "h' = h1(ad := taken (h ad) (fs_baseLimit fs) now)"
    using acquire_SomeD [OF assms] by metis
  have n: "e_dbID e = DBID (h ad)" using fs_invD(8) [OF o(2,3)] o(4) by simp
  have c: "sn_available (snap (h ad) (fs_baseLimit fs) now)"
    "ActiveRequests (h ad) < sn_limit (snap (h ad) (fs_baseLimit fs) now)"
    using o(4,6) by (simp_all add: can_take_def Let_def)
  have inv: "fs_inv h' fs'"
    by (rule fs_inv_heap [OF o(2)]) (simp add: o(7) taken_counts(4) [OF o(6,4)] touched_frame [OF o(1)])
  show ?thesis
    using inv n c o(5) by (simp add: o(7) taken_counts [OF o(6,4)] touched_frame [OF o(1)])
qed

text \<open>
  C4. \<open>AcquireExcluding\<close> always returns. The loop without a bound (\<open>for\<close>) restarts after every
  stale entry; each restart uses up a stale entry, so on a scheduler that satisfies the invariant
  it ends, whatever the accounts look like by then.
\<close>

theorem acquire_terminates:
  assumes "fs_inv h fs"
  shows "\<exists>h' fs' r. AcquireExcluding h fs ex now = Some (h', fs', r)"
  using acquire_returns [OF assms] by metis

lemma acquire_terminates_witness:
  "\<exists>h' fs' r. AcquireExcluding demo_heap demo_fs {2} 100 = Some (h', fs', r)"
  by (rule acquire_terminates [OF demo_inv]) simp





text \<open>
  C6. The answer nil is only given when nothing is left: every account with an entry in the
  scheduler is excluded, unavailable, or at its current concurrency limit.
\<close>

theorem acquire_nil_means_none_left:
  assumes "fs_inv h fs" "AcquireExcluding h fs ex now = Some (h', fs', None)"
    and "has_entry fs ad"
  shows "DBID (h ad) \<in> ex \<or> \<not> sn_available (snap (h ad) (fs_baseLimit fs) now) \<or>
    ActiveRequests (h ad) \<ge> sn_limit (snap (h ad) (fs_baseLimit fs) now) \<or>
    sn_limit (snap (h ad) (fs_baseLimit fs) now) \<le> 0"
proof (rule ccontr)
  assume neg: "\<not> ?thesis"
  obtain h1 fs1 h2 fs2 r where
    o: "touched (fs_baseLimit fs) now h h1" "fs_inv h1 fs1" "fs_baseLimit fs1 = fs_baseLimit fs"
      "has_entry fs ad \<Longrightarrow> placeable (h ad) (fs_baseLimit fs) now \<Longrightarrow> has_entry fs1 ad"
      "pass h1 fs1 ex now = (h2, fs2, r)" "r \<noteq> Stale"
      "AcquireExcluding h fs ex now
         = Some (h2, fs2, case r of Acquired ad \<Rightarrow> Some ad | _ \<Rightarrow> None)"
    using acquire_last_pass [OF assms(1), of now ex] by metis
  then have r: "r = Exhausted" using assms(2) by (cases r) simp_all
  note v = touched_verdicts [OF o(1)]
  have "DBID (h ad) \<noteq> 0"
    using assms(3) fs_invD(7,8) [OF assms(1)] unfolding has_entry_def by metis
  then have "has_entry fs1 ad" using o(4) assms(3) neg by (auto simp: placeable_def)
  then obtain t e where e: "e \<in> set (fs_buckets fs1 t)" "e_acc e = ad" by (auto simp: has_entry_def)
  have "t \<in> set fastSchedulerTierOrder"
    using fs_invD(1) [OF o(2), of t] e by (cases "schedulable_tier t") (auto simp: tier_order_set)
  then have "skipped h1 (fs_baseLimit fs) now ex t e"
    using pass_ok_ExhaustedD(3) [OF pass_spec [OF o(2), of now ex, unfolded o(5) r], of t e] e o(3)
    by (simp add: entries_of_def)
  moreover have "e_dbID e = DBID (h ad)"
    using fs_invD(8) [OF o(2) e(1)] e(2) touched_frame(1) [OF o(1)] by simp
  ultimately show False
    using neg e(2) by (auto simp: v skipped_def can_take_def Let_def touched_frame [OF o(1)])
qed

lemma acquire_nil_means_none_left_witness:
  "\<exists>h' fs'. AcquireExcluding (demo_heap(3 := (demo_heap 3)\<lparr>ActiveRequests := 2\<rparr>)) demo_fs {1, 2} 100
       = Some (h', fs', None) \<and>
     (sn_available (snap (demo_heap 3) 2 100) \<longrightarrow> sn_limit (snap (demo_heap 3) 2 100) \<le> 2)"
proof -
  let ?h = "demo_heap(3 := (demo_heap 3)\<lparr>ActiveRequests := 2\<rparr>)"
  have inv: "fs_inv ?h demo_fs" by (rule demo_inv) simp
  have "map_option (snd \<circ> snd) (AcquireExcluding ?h demo_fs {1, 2} 100) = Some None" by code_simp
  then obtain h' fs' where a: "AcquireExcluding ?h demo_fs {1, 2} 100 = Some (h', fs', None)"
    by (rule acquire_result)
  have "e_acc (hd (fs_buckets demo_fs HealthTierHealthy)) = 3"
    "fs_buckets demo_fs HealthTierHealthy \<noteq> []" by code_simp+
  then have en: "has_entry demo_fs 3" unfolding has_entry_def by (metis list.set_sel(1))
  have s: "snap (?h 3) 2 100 = snap (demo_heap 3) 2 100" by code_simp
  from acquire_nil_means_none_left [OF inv a en] s have
    "sn_available (snap (demo_heap 3) 2 100) \<longrightarrow> sn_limit (snap (demo_heap 3) 2 100) \<le> 2"
    by auto
  with a show ?thesis by blast
qed

end
