(* ===== verification/SchedulerSteps.thy ===== *)
theory SchedulerSteps
  imports AcquireLaws
begin

text \<open>
  The scheduler as a state machine: any sequence of its operations, with any change of the accounts
  in between that keeps their ids. Below the granularity of an operation, the counter of an
  account as a race of requests: the compare-and-swap loop of \<open>tryAcquireAccount\<close> and the separate
  load and add of the store's slow path.
\<close>

section \<open>Sequences of operations\<close>

inductive fs_step :: "heap \<times> FastScheduler \<Rightarrow> heap \<times> FastScheduler \<Rightarrow> bool" where
  rebuild: "distinct (map (\<lambda>ad. DBID (h ad)) ads) \<Longrightarrow> fs_step (h, fs) (Rebuild h fs ads now)"
| update: "fs_step (h, fs) (Update h fs ad now)"
| remove: "fs_step (h, fs) (h, Remove fs dbid)"
| base_limit: "fs_step (h, fs) (h, SetBaseLimit fs n)"
| acquire: "AcquireExcluding h fs ex now = Some (h', fs', r) \<Longrightarrow> fs_step (h, fs) (h', fs')"
| release: "fs_step (h, fs) (Release h ad, fs)"
| accounts: "(\<And>ad. DBID (h' ad) = DBID (h ad)) \<Longrightarrow> fs_step (h, fs) (h', fs)"

inductive fs_reachable :: "heap \<times> FastScheduler \<Rightarrow> bool" where
  init: "fs_reachable (h, NewFastScheduler n)"
| step: "fs_reachable c \<Longrightarrow> fs_step c c' \<Longrightarrow> fs_reachable c'"

inductive_cases fs_stepE: "fs_step (h, fs) c"

lemma Release_ids [simp]: "DBID (Release h ad x) = DBID (h x)"
  by (simp add: Release_def)

lemma acquire_inv:
  assumes "fs_inv h fs" "AcquireExcluding h fs ex now = Some (h', fs', r)"
  shows "fs_inv h' fs'"
proof (cases r)
  case (Some ad)
  with acquire_effect [OF assms(1)] assms(2) show ?thesis by simp
next
  case None
  obtain h1 fs1 h2 fs2 q where
    o: "touched (fs_baseLimit fs) now h h1" "fs_inv h1 fs1"
      "pass h1 fs1 ex now = (h2, fs2, q)" "q \<noteq> Stale"
      "AcquireExcluding h fs ex now
         = Some (h2, fs2, case q of Acquired ad \<Rightarrow> Some ad | _ \<Rightarrow> None)"
    using acquire_last_pass [OF assms(1)] by metis
  with None assms(2) have q: "q = Exhausted" "h2 = h'" "fs2 = fs'" by (cases q; simp)+
  note d = pass_ok_ExhaustedD [OF pass_spec [OF o(2), of now ex, unfolded o(3) q]]
  show ?thesis
    using fs_inv_heap [OF o(2), of h'] touched_frame(1) [OF d(1)] same_sched_fields(4) [OF d(2)]
    by blast
qed

lemma fs_step_inv: "fs_step c c' \<Longrightarrow> fs_inv (fst c) (snd c) \<Longrightarrow> fs_inv (fst c') (snd c')"
proof (induction rule: fs_step.induct)
  case (acquire h fs ex now h' fs' r)
  then show ?case using acquire_inv by simp
next
  case (release h fs ad)
  then show ?case using fs_inv_heap [of h fs "Release h ad"] by simp
next
  case (accounts h' h fs)
  then show ?case using fs_inv_heap [of h fs h'] by simp
qed (simp_all add: inv_intros SetBaseLimit_def)

text \<open>
  C8. Every state the scheduler can reach from a new one, by any sequence of rebuilds, updates,
  removals, acquisitions, releases and outside changes of the accounts, satisfies its invariant:
  the buckets are sorted (proven first, then by score), no account is listed twice, the position
  index and the proven bounds are exact. So in every reachable state a request for an account
  returns.
\<close>

theorem reachable_scheduler_ok:
  assumes "fs_reachable (h, fs)"
  shows "fs_inv h fs \<and> (\<forall>ex now. AcquireExcluding h fs ex now \<noteq> None)"
proof -
  have "fs_inv (fst c) (snd c)" if "fs_reachable c" for c
    using that by induction (simp_all add: fs_step_inv)
  then have "fs_inv h fs" using assms by fastforce
  then show ?thesis using acquire_returns [OF \<open>fs_inv h fs\<close>] by (metis option.distinct(1))
qed

lemma reachable_scheduler_ok_witness:
  "AcquireExcluding (fst (Rebuild demo_heap (NewFastScheduler 2) [1, 2, 3] 100)) demo_fs {} 500 \<noteq> None"
proof -
  have "fs_step (demo_heap, NewFastScheduler 2) (Rebuild demo_heap (NewFastScheduler 2) [1, 2, 3] 100)"
    by (rule fs_step.rebuild) simp
  then have "fs_reachable (Rebuild demo_heap (NewFastScheduler 2) [1, 2, 3] 100)"
    using fs_reachable.intros by blast
  then have "fs_reachable (fst (Rebuild demo_heap (NewFastScheduler 2) [1, 2, 3] 100), demo_fs)"
    by (simp add: demo_fs_def)
  from reachable_scheduler_ok [OF this] show ?thesis by blast
qed

section \<open>The race for the slots of one account\<close>

text \<open>
  A request is idle, has loaded the counter, or holds a slot. On the fast path a loaded value
  below the limit is swapped in only if the counter still has it; otherwise the loop loads again.
\<close>

datatype request = Idle | Loaded int | Holding

type_synonym slots = "int \<times> (nat \<Rightarrow> request)"

inductive cas_step :: "int \<Rightarrow> slots \<Rightarrow> slots \<Rightarrow> bool" for limit :: int where
  cas_load: "rq i = Idle \<Longrightarrow> cas_step limit (n, rq) (n, rq(i := Loaded n))"
| cas_full: "rq i = Loaded c \<Longrightarrow> c \<ge> limit \<Longrightarrow> cas_step limit (n, rq) (n, rq(i := Idle))"
| cas_ok: "rq i = Loaded c \<Longrightarrow> c < limit \<Longrightarrow> n = c \<Longrightarrow>
    cas_step limit (n, rq) (n + 1, rq(i := Holding))"
| cas_retry: "rq i = Loaded c \<Longrightarrow> c < limit \<Longrightarrow> n \<noteq> c \<Longrightarrow>
    cas_step limit (n, rq) (n, rq(i := Idle))"
| cas_release: "rq i = Holding \<Longrightarrow> cas_step limit (n, rq) (n - 1, rq(i := Idle))"

text \<open>On the slow path the add follows the check unconditionally; readers share the store's lock.\<close>

inductive slow_step :: "int \<Rightarrow> slots \<Rightarrow> slots \<Rightarrow> bool" for limit :: int where
  slow_load: "rq i = Idle \<Longrightarrow> slow_step limit (n, rq) (n, rq(i := Loaded n))"
| slow_full: "rq i = Loaded c \<Longrightarrow> c \<ge> limit \<Longrightarrow> slow_step limit (n, rq) (n, rq(i := Idle))"
| slow_add: "rq i = Loaded c \<Longrightarrow> c < limit \<Longrightarrow> slow_step limit (n, rq) (n + 1, rq(i := Holding))"
| slow_release: "rq i = Holding \<Longrightarrow> slow_step limit (n, rq) (n - 1, rq(i := Idle))"

definition no_requests :: slots where
  "no_requests = (0, \<lambda>_. Idle)"

inductive_cases cas_stepE: "cas_step limit (n, rq) c"

definition slots_inv :: "int \<Rightarrow> slots \<Rightarrow> bool" where
  "slots_inv limit c \<longleftrightarrow>
     finite {i. snd c i = Holding} \<and> fst c = int (card {i. snd c i = Holding}) \<and> fst c \<le> max 0 limit"

lemma holding_add:
  "rq i \<noteq> Holding \<Longrightarrow> {j. (rq(i := Holding)) j = Holding} = insert i {j. rq j = Holding}"
  by auto

lemma holding_other:
  "rq i \<noteq> Holding \<Longrightarrow> r \<noteq> Holding \<Longrightarrow> {j. (rq(i := r)) j = Holding} = {j. rq j = Holding}"
  by auto

lemma holding_del: "{j. (rq(i := Idle)) j = Holding} = {j. rq j = Holding} - {i}"
  by auto

lemma cas_step_inv: "cas_step limit c c' \<Longrightarrow> slots_inv limit c \<Longrightarrow> slots_inv limit c'"
proof (induction rule: cas_step.induct)
  case (cas_release rq i n)
  then have "i \<in> {j. rq j = Holding}" "finite {j. rq j = Holding}" by (simp_all add: slots_inv_def)
  then have "card {j. rq j = Holding} > 0" by (auto simp: card_gt_0_iff)
  with cas_release show ?case
    by (simp only: slots_inv_def fst_conv snd_conv holding_del) (simp add: card_Diff_singleton)
next
  case (cas_ok rq i c n)
  then have i: "rq i \<noteq> Holding" by simp
  define S where "S = {j. rq j = Holding}"
  have "finite S" "n = int (card S)" "i \<notin> S"
    using cas_ok i by (simp_all add: slots_inv_def S_def)
  moreover have "{j. (rq(i := Holding)) j = Holding} = insert i S"
    unfolding S_def using i by (rule holding_add)
  ultimately show ?case using cas_ok(2,3) by (simp add: slots_inv_def del: fun_upd_apply)
qed (simp_all only: slots_inv_def fst_conv snd_conv, simp_all add: holding_other del: fun_upd_apply)

lemma cas_reach_inv: "(cas_step limit)\<^sup>*\<^sup>* c c' \<Longrightarrow> slots_inv limit c \<Longrightarrow> slots_inv limit c'"
  by (induction rule: rtranclp_induct) (auto intro: cas_step_inv)



lemma slow_loads: "(slow_step limit)\<^sup>*\<^sup>* no_requests (0, \<lambda>i. if i < m then Loaded 0 else Idle)"
proof (induction m)
  case 0
  show ?case by (simp add: no_requests_def)
next
  case (Suc m)
  let ?rq = "\<lambda>i. if i < m then Loaded 0 else Idle"
  have "slow_step limit (0, ?rq) (0, ?rq(m := Loaded 0))" by (rule slow_load) simp
  moreover have "?rq(m := Loaded 0) = (\<lambda>i. if i < Suc m then Loaded 0 else Idle)"
    by (auto simp: less_Suc_eq)
  ultimately show ?case using Suc by (simp only: rtranclp.rtrancl_into_rtrancl)
qed

lemma slow_adds:
  assumes "0 < limit"
  shows "k \<le> m \<Longrightarrow> (slow_step limit)\<^sup>*\<^sup>* no_requests
    (int k, \<lambda>i. if i < k then Holding else if i < m then Loaded 0 else Idle)"
proof (induction k)
  case 0
  then show ?case using slow_loads by simp
next
  case (Suc k)
  let ?rq = "\<lambda>i. if i < k then Holding else if i < m then Loaded 0 else Idle"
  have "slow_step limit (int k, ?rq) (int k + 1, ?rq(k := Holding))"
    by (rule slow_add [of _ _ 0]) (use Suc.prems assms in auto)
  moreover have "?rq(k := Holding) = (\<lambda>i. if i < Suc k then Holding else if i < m then Loaded 0 else Idle)"
    by (auto simp: less_Suc_eq)
  moreover have "int k + 1 = int (Suc k)" by simp
  ultimately have "slow_step limit (int k, ?rq)
      (int (Suc k), \<lambda>i. if i < Suc k then Holding else if i < m then Loaded 0 else Idle)"
    by (simp only:)
  moreover have "(slow_step limit)\<^sup>*\<^sup>* no_requests (int k, ?rq)" using Suc by simp
  ultimately show ?case by (rule rtranclp.rtrancl_into_rtrancl [rotated])
qed

text \<open>
  The slow path (fast scheduler switched off) does not bound the concurrency of an account:
  for every positive limit and every \<open>m\<close> some interleaving of \<open>m\<close> requests hands the account to
  all of them, because each checks the counter before any of them adds to it.
\<close>

theorem slow_path_exceeds_limit:
  assumes "0 < limit"
  shows "\<exists>rq. (slow_step limit)\<^sup>*\<^sup>* no_requests (int m, rq) \<and> card {i. rq i = Holding} = m"
proof -
  have "{i. i < m} = {0..<m}" by auto
  then show ?thesis
    using slow_adds [OF assms, of m m]
    by (intro exI [of _ "\<lambda>i. if i < m then Holding else if i < m then Loaded 0 else Idle"])
       (auto simp: if_distrib cong: if_cong)
qed

lemma slow_path_exceeds_limit_witness:
  "\<exists>rq. (slow_step 2)\<^sup>*\<^sup>* no_requests (5, rq) \<and> card {i. rq i = Holding} = 5"
  using slow_path_exceeds_limit [of 2 5] by simp

end
