(* ===== verification/MemoryCache.thy ===== *)
theory MemoryCache
  imports Prelude
begin

text \<open>
  \<open>cache/memory.go\<close>: the in-process token cache and its refresh locks. Every operation takes the
  cache's mutex, so it is one step; \<open>now\<close> is the clock during the step. The polling loop of
  \<open>WaitForRefreshComplete\<close> sleeps between its steps; what other goroutines do to the cache in the
  meantime is the argument \<open>others\<close>. The interface \<open>cache.TokenCache\<close> is the locale
  \<open>token_cache\<close>, with the laws the refresh of an account relies on.
\<close>

section \<open>State and operations\<close>

record memoryTokenEntry =
  me_token :: string
  me_expiresAt :: time

record MemoryTokenCache =
  mc_tokens :: "int \<Rightarrow> memoryTokenEntry option"
  mc_locks :: "int \<Rightarrow> time option"
  mc_poolSize :: int

definition NewMemory :: "int \<Rightarrow> MemoryTokenCache" where
  "NewMemory poolSize =
     \<lparr>mc_tokens = (\<lambda>_. None), mc_locks = (\<lambda>_. None),
      mc_poolSize = (if poolSize \<le> 0 then 1 else poolSize)\<rparr>"

definition entry_expired :: "memoryTokenEntry \<Rightarrow> time \<Rightarrow> bool" where
  "entry_expired entry now \<longleftrightarrow> \<not> is_zero (me_expiresAt entry) \<and> now > me_expiresAt entry"

text \<open>One tick of \<open>cleanupLoop\<close>.\<close>

definition cleanup :: "MemoryTokenCache \<Rightarrow> time \<Rightarrow> MemoryTokenCache" where
  "cleanup tc now =
     tc\<lparr>mc_tokens := (\<lambda>id. case mc_tokens tc id of
          Some entry \<Rightarrow> if entry_expired entry now then None else Some entry | None \<Rightarrow> None),
        mc_locks := (\<lambda>id. case mc_locks tc id of
          Some until \<Rightarrow> if now > until then None else Some until | None \<Rightarrow> None)\<rparr>"

definition SetPoolSize :: "MemoryTokenCache \<Rightarrow> int \<Rightarrow> MemoryTokenCache" where
  "SetPoolSize tc n = tc\<lparr>mc_poolSize := (if n \<le> 0 then 1 else n)\<rparr>"

definition GetAccessToken :: "MemoryTokenCache \<Rightarrow> int \<Rightarrow> time \<Rightarrow> MemoryTokenCache \<times> string" where
  "GetAccessToken tc accountID now =
     (case mc_tokens tc accountID of
        None \<Rightarrow> (tc, '''')
      | Some entry \<Rightarrow>
          if entry_expired entry now
          then (tc\<lparr>mc_tokens := (mc_tokens tc)(accountID := None)\<rparr>, '''')
          else (tc, me_token entry))"

definition SetAccessToken ::
  "MemoryTokenCache \<Rightarrow> int \<Rightarrow> string \<Rightarrow> duration \<Rightarrow> time \<Rightarrow> MemoryTokenCache" where
  "SetAccessToken tc accountID token ttl now =
     (let expiresAt = (if ttl > 0 then now + ttl else if ttl < 0 then now + ttl else 0)
      in tc\<lparr>mc_tokens := (mc_tokens tc)(accountID \<mapsto>
              \<lparr>me_token = token, me_expiresAt = expiresAt\<rparr>)\<rparr>)"

definition DeleteAccessToken :: "MemoryTokenCache \<Rightarrow> int \<Rightarrow> MemoryTokenCache" where
  "DeleteAccessToken tc accountID = tc\<lparr>mc_tokens := (mc_tokens tc)(accountID := None)\<rparr>"

definition AcquireRefreshLock ::
  "MemoryTokenCache \<Rightarrow> int \<Rightarrow> duration \<Rightarrow> time \<Rightarrow> MemoryTokenCache \<times> bool" where
  "AcquireRefreshLock tc accountID ttl now =
     (let ttl = (if ttl \<le> 0 then 30 * second else ttl);
          free = tc\<lparr>mc_locks := (mc_locks tc)(accountID \<mapsto> now + ttl)\<rparr>
      in case mc_locks tc accountID of
           Some until \<Rightarrow> if now < until then (tc, False) else (free, True)
         | None \<Rightarrow> (free, True))"

definition ReleaseRefreshLock :: "MemoryTokenCache \<Rightarrow> int \<Rightarrow> MemoryTokenCache" where
  "ReleaseRefreshLock tc accountID = tc\<lparr>mc_locks := (mc_locks tc)(accountID := None)\<rparr>"

text \<open>The critical section of one round of the polling loop.\<close>

definition poll_once ::
  "MemoryTokenCache \<Rightarrow> int \<Rightarrow> time \<Rightarrow> MemoryTokenCache \<times> string option" where
  "poll_once tc accountID now =
     (let tc = (case mc_locks tc accountID of
                  Some until \<Rightarrow> if now > until then ReleaseRefreshLock tc accountID else tc
                | None \<Rightarrow> tc);
          tc = (case mc_tokens tc accountID of
                  Some entry \<Rightarrow> if entry_expired entry now then DeleteAccessToken tc accountID else tc
                | None \<Rightarrow> tc)
      in (tc, case (mc_locks tc accountID, mc_tokens tc accountID) of
                (None, Some entry) \<Rightarrow> if me_token entry \<noteq> '''' then Some (me_token entry) else None
              | _ \<Rightarrow> None))"

text \<open>
  \<open>WaitForRefreshComplete\<close>: \<open>cancelled\<close> says whether the context is done by a given time. The
  result is the token, or nothing when the context ends or the deadline passes.
\<close>

function wait_loop ::
  "(time \<Rightarrow> MemoryTokenCache \<Rightarrow> MemoryTokenCache) \<Rightarrow> (time \<Rightarrow> bool) \<Rightarrow> MemoryTokenCache \<Rightarrow> int
     \<Rightarrow> time \<Rightarrow> time \<Rightarrow> MemoryTokenCache \<times> string option" where
  "wait_loop others cancelled tc accountID deadline now =
     (if \<not> now < deadline then (tc, None)
      else
        let (tc, token) = poll_once tc accountID now
        in case token of
             Some t \<Rightarrow> (tc, Some t)
           | None \<Rightarrow>
               let now = now + 200 * millisecond;
                   tc = others now tc
               in if cancelled now then (tc, None)
                  else wait_loop others cancelled tc accountID deadline now)"
  by pat_completeness auto
termination
  by (relation "measure (\<lambda>(others, cancelled, tc, accountID, deadline, now). nat (deadline - now))")
     auto

declare wait_loop.simps [simp del]

definition WaitForRefreshComplete ::
  "(time \<Rightarrow> MemoryTokenCache \<Rightarrow> MemoryTokenCache) \<Rightarrow> (time \<Rightarrow> bool) \<Rightarrow> MemoryTokenCache \<Rightarrow> int
     \<Rightarrow> duration \<Rightarrow> time \<Rightarrow> MemoryTokenCache \<times> string option" where
  "WaitForRefreshComplete others cancelled tc accountID timeout now =
     wait_loop others cancelled tc accountID
       (now + (if timeout \<le> 0 then 30 * second else timeout)) now"

section \<open>The interface\<close>

locale token_cache =
  fixes get :: "'c \<Rightarrow> int \<Rightarrow> time \<Rightarrow> 'c \<times> string"
    and put :: "'c \<Rightarrow> int \<Rightarrow> string \<Rightarrow> duration \<Rightarrow> time \<Rightarrow> 'c"
    and del :: "'c \<Rightarrow> int \<Rightarrow> 'c"
    and lock :: "'c \<Rightarrow> int \<Rightarrow> duration \<Rightarrow> time \<Rightarrow> 'c \<times> bool"
    and unlock :: "'c \<Rightarrow> int \<Rightarrow> 'c"
  assumes get_put: "0 < ttl \<Longrightarrow> m \<le> n + ttl \<Longrightarrow> snd (get (put c i t ttl n) i m) = t"
    and get_put_other: "i \<noteq> j \<Longrightarrow> snd (get (put c i t ttl n) j m) = snd (get c j m)"
    and get_get: "n \<le> m \<Longrightarrow> snd (get (fst (get c i n)) j m) = snd (get c j m)"
    and get_del: "snd (get (del c i) j m) = (if i = j then '''' else snd (get c j m))"
    and lock_excl: "0 < ttl \<Longrightarrow> snd (lock c i ttl n) \<Longrightarrow> m < n + ttl \<Longrightarrow>
          \<not> snd (lock (fst (lock c i ttl n)) i ttl' m)"
    and lock_refused: "\<not> snd (lock c i ttl n) \<Longrightarrow> fst (lock c i ttl n) = c"
    and lock_free: "snd (lock (unlock c i) i ttl n)"
    and get_lock: "snd (get (fst (lock c i ttl n)) j m) = snd (get c j m)"
    and get_unlock: "snd (get (unlock c i) j m) = snd (get c j m)"
begin

text \<open>Several refreshers ask for the lock one after the other; the answers, in order.\<close>

fun lock_all :: "'c \<Rightarrow> int \<Rightarrow> duration \<Rightarrow> time list \<Rightarrow> bool list" where
  "lock_all c i ttl [] = []"
| "lock_all c i ttl (n # ns) = snd (lock c i ttl n) # lock_all (fst (lock c i ttl n)) i ttl ns"

lemma lock_held:
  "0 < ttl \<Longrightarrow> snd (lock c i ttl n) \<Longrightarrow> \<forall>m \<in> set ms. m < n + ttl \<Longrightarrow>
   lock_all (fst (lock c i ttl n)) i ttl ms = map (\<lambda>_. False) ms"
proof (induction ms)
  case Nil
  then show ?case by simp
next
  case (Cons m ms)
  then have "\<not> snd (lock (fst (lock c i ttl n)) i ttl m)" using lock_excl by simp
  with Cons show ?case using lock_refused by simp
qed

lemma one_refresher:
  assumes "0 < ttl" "\<forall>m \<in> set ms. \<forall>n \<in> set ms. m < n + ttl"
  shows "length (filter (\<lambda>b. b) (lock_all c i ttl ms)) \<le> 1"
  using assms(2)
proof (induction ms)
  case Nil
  then show ?case by simp
next
  case (Cons m ms)
  show ?case
  proof (cases "snd (lock c i ttl m)")
    case True
    with Cons.prems assms(1) have "lock_all (fst (lock c i ttl m)) i ttl ms = map (\<lambda>_. False) ms"
      by (intro lock_held) auto
    with True show ?thesis by simp
  next
    case False
    with Cons show ?thesis using lock_refused by simp
  qed
qed

text \<open>A token that a refresher stores before it unlocks is what the others read.\<close>

lemma published_token:
  "0 < ttl \<Longrightarrow> m \<le> n + ttl \<Longrightarrow> snd (get (unlock (put c i t ttl n) i) i m) = t"
  by (simp add: get_unlock get_put)

end

lemma entry_expired_mono: "entry_expired e n \<Longrightarrow> n \<le> m \<Longrightarrow> entry_expired e m"
  by (auto simp: entry_expired_def)

interpretation mem: token_cache GetAccessToken SetAccessToken DeleteAccessToken AcquireRefreshLock
  ReleaseRefreshLock
proof
  fix c :: MemoryTokenCache and i j n m ttl ttl' t
  show "0 < ttl \<Longrightarrow> m \<le> n + ttl \<Longrightarrow>
      snd (GetAccessToken (SetAccessToken c i t ttl n) i m) = t"
    by (simp add: GetAccessToken_def SetAccessToken_def entry_expired_def)
  show "n \<le> m \<Longrightarrow> snd (GetAccessToken (fst (GetAccessToken c i n)) j m) = snd (GetAccessToken c j m)"
    using entry_expired_mono by (auto simp: GetAccessToken_def split: option.split)
qed (auto simp: GetAccessToken_def SetAccessToken_def DeleteAccessToken_def AcquireRefreshLock_def
    ReleaseRefreshLock_def Let_def split: option.split if_splits)

section \<open>Guarantees\<close>

text \<open>The answers to a series of requests for the refresh lock of one account.\<close>

fun lock_attempts :: "MemoryTokenCache \<Rightarrow> int \<Rightarrow> duration \<Rightarrow> time list \<Rightarrow> bool list" where
  "lock_attempts tc accountID ttl [] = []"
| "lock_attempts tc accountID ttl (now # clocks) =
     (let (tc, acquired) = AcquireRefreshLock tc accountID ttl now
      in acquired # lock_attempts tc accountID ttl clocks)"

lemma lock_attempts_eq: "lock_attempts tc i ttl ms = mem.lock_all tc i ttl ms"
  by (induction ms arbitrary: tc) (simp_all add: case_prod_beta)

text \<open>
  Of all refreshers that ask for the lock of an account within its lifetime, and that nobody
  releases, at most one gets it, whatever the state of the cache.
\<close>

theorem refresh_lock_single_holder:
  assumes "0 < ttl" "\<forall>m \<in> set clocks. \<forall>n \<in> set clocks. m < n + ttl"
  shows "length (filter (\<lambda>acquired. acquired) (lock_attempts tc accountID ttl clocks)) \<le> 1"
  unfolding lock_attempts_eq by (rule mem.one_refresher [OF assms])

lemma refresh_lock_single_holder_witness:
  "length (filter (\<lambda>acquired. acquired)
     (lock_attempts (NewMemory 1) 7 (30 * second) [100, 200, 300])) \<le> 1 \<and>
   lock_attempts (NewMemory 1) 7 (30 * second) [100, 200, 300] = [True, False, False]"
  using refresh_lock_single_holder [of "30 * second" "[100, 200, 300]" "NewMemory 1" 7]
  by (simp add: AcquireRefreshLock_def NewMemory_def)

text \<open>
  A refresher that outlives its lock breaks the exclusion. Its deferred release removes the
  lock whoever holds it by then, so a third refresher gets in while the second is still at work.
\<close>

theorem stale_release_frees_foreign_lock:
  assumes "0 < ttl" "now + ttl \<le> later" "AcquireRefreshLock tc accountID ttl now = (tc1, True)"
  shows "\<exists>tc2. AcquireRefreshLock tc1 accountID ttl later = (tc2, True) \<and>
    \<not> snd (AcquireRefreshLock tc2 accountID ttl later) \<and>
    snd (AcquireRefreshLock (ReleaseRefreshLock tc2 accountID) accountID ttl later)"
proof -
  have "mc_locks tc1 accountID = Some (now + ttl)"
    using assms(1,3) by (auto simp: AcquireRefreshLock_def Let_def split: option.splits if_splits)
  then have 1: "snd (AcquireRefreshLock tc1 accountID ttl later)"
    using assms(2) by (simp add: AcquireRefreshLock_def Let_def)
  moreover have "\<not> snd (AcquireRefreshLock (fst (AcquireRefreshLock tc1 accountID ttl later))
      accountID ttl later)"
    by (rule mem.lock_excl [OF assms(1) 1]) (use assms(1) in simp)
  ultimately show ?thesis
    using mem.lock_free by (intro exI [of _ "fst (AcquireRefreshLock tc1 accountID ttl later)"])
      (auto intro: prod_eqI)
qed

lemma stale_release_frees_foreign_lock_witness:
  "\<exists>tc1 tc2. AcquireRefreshLock (NewMemory 1) 7 (30 * second) 100 = (tc1, True) \<and>
     AcquireRefreshLock tc1 7 (30 * second) (31 * second) = (tc2, True) \<and>
     snd (AcquireRefreshLock (ReleaseRefreshLock tc2 7) 7 (30 * second) (31 * second))"
proof -
  have a: "AcquireRefreshLock (NewMemory 1) 7 (30 * second) 100
      = (fst (AcquireRefreshLock (NewMemory 1) 7 (30 * second) 100), True)"
    by (rule prod_eqI) (simp_all add: AcquireRefreshLock_def NewMemory_def)
  show ?thesis using stale_release_frees_foreign_lock [OF _ _ a, of "31 * second"] a by auto
qed

text \<open>
  The lifetime of a cached token: with a positive TTL it is served up to and including its
  expiry and never after it, with a negative TTL never, and with TTL 0 for ever. The background
  clean-up changes no answer.
\<close>

theorem token_lifetime:
  assumes "now + ttl \<noteq> 0" "now \<le> later"
  shows "snd (GetAccessToken (SetAccessToken tc i token ttl now) i later) =
           (if ttl = 0 \<or> later \<le> now + ttl then token else '''') \<and>
    snd (GetAccessToken (cleanup tc now) i later) = snd (GetAccessToken tc i later) \<and>
    snd (AcquireRefreshLock (cleanup tc now) i lockTTL later)
      = snd (AcquireRefreshLock tc i lockTTL later)"
proof (intro conjI)
  show "snd (GetAccessToken (SetAccessToken tc i token ttl now) i later) =
      (if ttl = 0 \<or> later \<le> now + ttl then token else '''')"
    using assms by (auto simp: GetAccessToken_def SetAccessToken_def entry_expired_def is_zero_def Let_def)
  show "snd (GetAccessToken (cleanup tc now) i later) = snd (GetAccessToken tc i later)"
    using assms(2) by (auto simp: GetAccessToken_def cleanup_def entry_expired_def split: option.split)
  show "snd (AcquireRefreshLock (cleanup tc now) i lockTTL later)
      = snd (AcquireRefreshLock tc i lockTTL later)"
    using assms(2) by (auto simp: AcquireRefreshLock_def cleanup_def Let_def split: option.split)
qed

lemma token_lifetime_witness:
  "snd (GetAccessToken (SetAccessToken (NewMemory 1) 7 ''at'' 50 100) 7 150) = ''at'' \<and>
   snd (GetAccessToken (SetAccessToken (NewMemory 1) 7 ''at'' 50 100) 7 151) = ''''"
  using token_lifetime [of 100 50 150 "NewMemory 1" 7 "''at''"]
    token_lifetime [of 100 50 151 "NewMemory 1" 7 "''at''"] by simp

text \<open>The last poll of a wait that ends with a token.\<close>

lemma poll_once_token:
  "poll_once tc i now = (tc', Some t) \<Longrightarrow>
   mc_locks tc' i = None \<and> t \<noteq> '''' \<and>
   (\<exists>e. mc_tokens tc' i = Some e \<and> me_token e = t \<and> \<not> entry_expired e now)"
  by (auto simp: poll_once_def ReleaseRefreshLock_def DeleteAccessToken_def Let_def
      split: option.splits if_splits)

lemma wait_loop_token:
  "wait_loop others cancelled tc i deadline now = (tc', Some t) \<Longrightarrow>
   \<exists>p. now \<le> p \<and> p < deadline \<and> mc_locks tc' i = None \<and> t \<noteq> '''' \<and>
     (\<exists>e. mc_tokens tc' i = Some e \<and> me_token e = t \<and> \<not> entry_expired e p)"
proof (induction others cancelled tc i deadline now rule: wait_loop.induct)
  case (1 others cancelled tc i deadline now)
  obtain tc1 r where p: "poll_once tc i now = (tc1, r)" by force
  show ?case
  proof (cases "now < deadline")
    case False
    with 1(2) show ?thesis by (simp add: wait_loop.simps)
  next
    case True
    show ?thesis
    proof (cases r)
      case (Some u)
      with 1(2) True p have "tc1 = tc'" "u = t" by (simp_all add: wait_loop.simps)
      with poll_once_token p Some True show ?thesis by blast
    next
      case None
      let ?now = "now + 200 * millisecond"
      have "wait_loop others cancelled tc i deadline now =
          (if cancelled ?now then (others ?now tc1, None)
           else wait_loop others cancelled (others ?now tc1) i deadline ?now)"
        using True p None by (subst wait_loop.simps) (simp add: Let_def)
      with 1(2) have nc: "\<not> cancelled ?now"
        and rec: "wait_loop others cancelled (others ?now tc1) i deadline ?now = (tc', Some t)"
        by (auto split: if_splits)
      obtain q where "?now \<le> q" "q < deadline" "mc_locks tc' i = None" "t \<noteq> ''''"
          "\<exists>e. mc_tokens tc' i = Some e \<and> me_token e = t \<and> \<not> entry_expired e q"
        using 1(1) [of "(tc1, r)" tc1 r, OF _ _ _ None _ _ nc rec] True p by auto
      then show ?thesis by (intro exI [of _ q]) auto
    qed
  qed
qed

text \<open>
  Waiting for another refresher ends by the deadline and only ever returns a token that is in
  the cache, not empty and not expired, at a moment when nobody holds the refresh lock.
\<close>

theorem wait_returns_published_token:
  assumes "0 < timeout"
    and "WaitForRefreshComplete others cancelled tc accountID timeout now = (tc', Some token)"
  shows "\<exists>p. now \<le> p \<and> p < now + timeout \<and> mc_locks tc' accountID = None \<and> token \<noteq> '''' \<and>
    snd (GetAccessToken tc' accountID p) = token"
proof -
  have "wait_loop others cancelled tc accountID (now + timeout) now = (tc', Some token)"
    using assms by (simp add: WaitForRefreshComplete_def)
  from wait_loop_token [OF this] show ?thesis by (auto simp: GetAccessToken_def)
qed

text \<open>A refresher that needs 500 ms: it publishes the token and releases the lock.\<close>

definition demo_refresher :: "time \<Rightarrow> MemoryTokenCache \<Rightarrow> MemoryTokenCache" where
  "demo_refresher t tc =
     (if t > 500 * millisecond
      then ReleaseRefreshLock (SetAccessToken tc 7 ''at'' minute t) 7 else tc)"

lemma wait_returns_published_token_witness:
  "\<exists>tc' p. p < 30 * second \<and> snd (GetAccessToken tc' 7 p) = ''at'' \<and>
     WaitForRefreshComplete demo_refresher (\<lambda>_. False)
       (fst (AcquireRefreshLock (NewMemory 1) 7 (30 * second) 0)) 7 (30 * second) 0
     = (tc', Some ''at'')"
proof -
  let ?w = "WaitForRefreshComplete demo_refresher (\<lambda>_. False)
    (fst (AcquireRefreshLock (NewMemory 1) 7 (30 * second) 0)) 7 (30 * second) 0"
  have "snd ?w = Some ''at''" by code_simp
  then have w: "?w = (fst ?w, Some ''at'')" by (simp add: prod_eq_iff)
  obtain p where "p < 30 * second" "snd (GetAccessToken (fst ?w) 7 p) = ''at''"
    using wait_returns_published_token [OF _ w] by auto
  with w show ?thesis by blast
qed

end
