(* ===== verification/Store.thy ===== *)
theory Store
  imports FastScheduler MemoryCache "HOL-Library.Word"
begin

text \<open>
  \<open>auth/store.go\<close>: the account pool. The accounts live in the heap shared with the fast
  scheduler; the store holds their addresses, an index by database id, and the session bindings.
  The database is an outside service: the calls the code makes to it are recorded in order
  (\<open>dbLog\<close>), and where the code looks at the outcome, the outcome is an argument. One clock
  reading \<open>now\<close> stands for the readings of one operation. Starting a goroutine, logging and the
  wake-up channel are not modelled.
\<close>

section \<open>State\<close>

record sessionAffinity =
  sa_accountID :: int
  sa_proxyURL :: string
  sa_expiresAt :: time

text \<open>A time among the credentials is written in RFC 3339; the text is left out.\<close>

datatype cred_value = CredText string | CredTime time

datatype db_call =
    DbSetCooldown int string time
  | DbClearCooldown int
  | DbSetAccountLocked int bool
  | DbSoftDeleteAccount int
  | DbBatchSoftDeleteAccounts "int list"
  | DbInsertAccountEvent int string string
  | DbBatchInsertAccountEvents "int list" string string
  | DbUpdateUsageSnapshot int float64 time
  | DbUpdateUsageSnapshotFull int float64 time float64 time time
  | DbUpdateUsageSnapshot5h int float64 time time
  | DbUpdateCredentials int "(string \<times> cred_value) list"
  | DbSetError int string

record Store =
  st_heap :: heap
  accounts :: "addr list"
  accountIndex :: "int \<Rightarrow> addr option"
  globalProxy :: string
  maxConcurrency :: int
  maxRetries :: int
  dbPresent :: bool
  dbLog :: "db_call list"
  tokenCache :: MemoryTokenCache
  autoCleanUnauthorized :: bool
  autoCleanRateLimited :: bool
  autoCleanFullUsage :: bool
  autoCleanError :: bool
  autoCleanExpired :: bool
  freeGPT55Enabled :: bool
  preferPaidEnabled :: bool
  backgroundRefreshInterval :: duration
  usageProbeMaxAge :: duration
  recoveryProbeInterval :: duration
  proxyPool :: "string list"
  proxyPoolEnabled :: bool
  proxyRoundRobin :: "64 word"
  fastScheduler :: "FastScheduler option"
  fastSchedulerEnabled :: bool
  sessionBindings :: "string \<Rightarrow> sessionAffinity option"
  refreshSchedulerSet :: bool
  cancelledTasks :: "int list"

abbreviation sessionAffinityTTL :: duration where "sessionAffinityTTL \<equiv> 1800000000000"

abbreviation defaultBackgroundRefreshInterval :: duration where
  "defaultBackgroundRefreshInterval \<equiv> 120000000000"
abbreviation defaultUsageProbeMaxAge :: duration where
  "defaultUsageProbeMaxAge \<equiv> 600000000000"
abbreviation defaultRecoveryProbeInterval :: duration where
  "defaultRecoveryProbeInterval \<equiv> 1800000000000"

section \<open>Start\<close>

text \<open>
  \<open>env\<close> is the environment of the process, \<open>proxies\<close> the enabled proxies of the database if they
  can be read. Settings that no modelled operation reads (test model, aliases, mappings) are left
  out.
\<close>

definition truthyEnv :: "string \<Rightarrow> bool" where
  "truthyEnv v \<longleftrightarrow>
     to_lower (trim_space v) \<in> set [''1'', ''true'', ''yes'', ''on'', ''enable'', ''enabled'']"

fun first_env :: "(string \<Rightarrow> string) \<Rightarrow> string list \<Rightarrow> bool option" where
  "first_env env [] = None"
| "first_env env (key # keys) =
     (let v = trim_space (env key) in if v = '''' then first_env env keys else Some (truthyEnv v))"

definition fastSchedulerFromEnv :: "(string \<Rightarrow> string) \<Rightarrow> bool option" where
  "fastSchedulerFromEnv env = first_env env [''FAST_SCHEDULER_ENABLED'', ''CODEX_FAST_SCHEDULER'']"

record SystemSettings =
  set_MaxConcurrency :: int
  set_BackgroundRefreshIntervalMinutes :: int
  set_UsageProbeMaxAgeMinutes :: int
  set_RecoveryProbeIntervalMinutes :: int
  set_ProxyURL :: string
  set_ProxyPoolEnabled :: bool
  set_MaxRetries :: int
  set_AutoCleanUnauthorized :: bool
  set_AutoCleanRateLimited :: bool
  set_AutoCleanFullUsage :: bool
  set_AutoCleanError :: bool
  set_AutoCleanExpired :: bool
  set_FreeGPT55Enabled :: bool
  set_PreferPaidEnabled :: bool

definition default_settings :: SystemSettings where
  "default_settings =
     \<lparr>set_MaxConcurrency = 2, set_BackgroundRefreshIntervalMinutes = 2,
      set_UsageProbeMaxAgeMinutes = 10, set_RecoveryProbeIntervalMinutes = 30,
      set_ProxyURL = '''', set_ProxyPoolEnabled = False, set_MaxRetries = 0,
      set_AutoCleanUnauthorized = False, set_AutoCleanRateLimited = False,
      set_AutoCleanFullUsage = False, set_AutoCleanError = False, set_AutoCleanExpired = False,
      set_FreeGPT55Enabled = False, set_PreferPaidEnabled = False\<rparr>"

definition or_default :: "duration \<Rightarrow> duration \<Rightarrow> duration" where
  "or_default d fallback = (if d \<le> 0 then fallback else d)"

definition NewStore ::
  "(string \<Rightarrow> string) \<Rightarrow> string list option \<Rightarrow> bool \<Rightarrow> MemoryTokenCache \<Rightarrow> SystemSettings option
     \<Rightarrow> heap \<Rightarrow> Store" where
  "NewStore env proxies db tc settings h =
     (let st = (case settings of None \<Rightarrow> default_settings | Some st \<Rightarrow> st);
          fastEnabled = (case fastSchedulerFromEnv env of None \<Rightarrow> True | Some v \<Rightarrow> v)
      in \<lparr>st_heap = h, accounts = [], accountIndex = (\<lambda>_. None), globalProxy = set_ProxyURL st,
          maxConcurrency = set_MaxConcurrency st,
          maxRetries = (if set_MaxRetries st \<le> 0 then 2 else set_MaxRetries st),
          dbPresent = db, dbLog = [], tokenCache = tc,
          autoCleanUnauthorized = set_AutoCleanUnauthorized st,
          autoCleanRateLimited = set_AutoCleanRateLimited st,
          autoCleanFullUsage = set_AutoCleanFullUsage st,
          autoCleanError = set_AutoCleanError st,
          autoCleanExpired = set_AutoCleanExpired st,
          freeGPT55Enabled = set_FreeGPT55Enabled st,
          preferPaidEnabled = set_PreferPaidEnabled st,
          backgroundRefreshInterval =
            or_default (set_BackgroundRefreshIntervalMinutes st * minute) defaultBackgroundRefreshInterval,
          usageProbeMaxAge =
            or_default (set_UsageProbeMaxAgeMinutes st * minute) defaultUsageProbeMaxAge,
          recoveryProbeInterval =
            or_default (set_RecoveryProbeIntervalMinutes st * minute) defaultRecoveryProbeInterval,
          proxyPool = (if set_ProxyPoolEnabled st then (case proxies of None \<Rightarrow> [] | Some ps \<Rightarrow> ps) else []),
          proxyPoolEnabled = set_ProxyPoolEnabled st,
          proxyRoundRobin = 0,
          fastScheduler =
            (if fastEnabled then Some (NewFastScheduler (set_MaxConcurrency st)) else None),
          fastSchedulerEnabled = fastEnabled,
          sessionBindings = (\<lambda>_. None), refreshSchedulerSet = False, cancelledTasks = []\<rparr>)"

definition log_db :: "db_call \<Rightarrow> Store \<Rightarrow> Store" where
  "log_db c s = (if dbPresent s then s\<lparr>dbLog := dbLog s @ [c]\<rparr> else s)"

definition set_account :: "addr \<Rightarrow> account \<Rightarrow> Store \<Rightarrow> Store" where
  "set_account ad a s = s\<lparr>st_heap := (st_heap s)(ad := a)\<rparr>"

section \<open>Keeping the fast scheduler up to date\<close>

definition getFastScheduler :: "Store \<Rightarrow> FastScheduler option" where
  "getFastScheduler s = (if \<not> fastSchedulerEnabled s then None else fastScheduler s)"

definition BuildFastScheduler :: "Store \<Rightarrow> time \<Rightarrow> heap \<times> FastScheduler" where
  "BuildFastScheduler s now =
     Rebuild (st_heap s) (NewFastScheduler (maxConcurrency s)) (accounts s) now"

definition rebuildFastScheduler :: "Store \<Rightarrow> time \<Rightarrow> Store" where
  "rebuildFastScheduler s now =
     (if \<not> fastSchedulerEnabled s then s
      else let (h, fs) = BuildFastScheduler s now
           in s\<lparr>st_heap := h, fastScheduler := Some fs\<rparr>)"

definition recomputeAllAccountSchedulerState :: "Store \<Rightarrow> time \<Rightarrow> Store" where
  "recomputeAllAccountSchedulerState s now =
     s\<lparr>st_heap := foldl (\<lambda>h ad. h(ad := recomputeSchedulerLocked (h ad) (maxConcurrency s) now))
                     (st_heap s) (accounts s)\<rparr>"

definition fastSchedulerUpdate :: "addr \<Rightarrow> time \<Rightarrow> Store \<Rightarrow> Store" where
  "fastSchedulerUpdate ad now s =
     (case getFastScheduler s of
        None \<Rightarrow> s
      | Some fs \<Rightarrow> let (h, fs) = Update (st_heap s) fs ad now
                  in s\<lparr>st_heap := h, fastScheduler := Some fs\<rparr>)"

definition fastSchedulerRemove :: "int \<Rightarrow> Store \<Rightarrow> Store" where
  "fastSchedulerRemove dbID s =
     (if dbID = 0 then s
      else case getFastScheduler s of
        None \<Rightarrow> s
      | Some fs \<Rightarrow> s\<lparr>fastScheduler := Some (Remove fs dbID)\<rparr>)"

definition SetFastSchedulerEnabled :: "Store \<Rightarrow> bool \<Rightarrow> time \<Rightarrow> Store" where
  "SetFastSchedulerEnabled s enabled now =
     (let s = s\<lparr>fastSchedulerEnabled := enabled\<rparr>
      in if enabled then rebuildFastScheduler (recomputeAllAccountSchedulerState s now) now
         else s\<lparr>fastScheduler := None\<rparr>)"

definition SetMaxConcurrency :: "Store \<Rightarrow> int \<Rightarrow> time \<Rightarrow> Store" where
  "SetMaxConcurrency s n now =
     rebuildFastScheduler (recomputeAllAccountSchedulerState (s\<lparr>maxConcurrency := n\<rparr>) now) now"

definition SetMaxRetries :: "Store \<Rightarrow> int \<Rightarrow> Store" where
  "SetMaxRetries s n = s\<lparr>maxRetries := (if n < 0 then 0 else n)\<rparr>"

section \<open>Proxies\<close>

definition NextProxy :: "Store \<Rightarrow> Store \<times> string" where
  "NextProxy s =
     (if \<not> proxyPoolEnabled s \<or> proxyPool s = [] then (s, globalProxy s)
      else
        let idx = proxyRoundRobin s + 1
        in (s\<lparr>proxyRoundRobin := idx\<rparr>,
            proxyPool s ! unat (idx mod of_nat (length (proxyPool s)))))"

definition stickyProxyIndex :: "int \<Rightarrow> nat \<Rightarrow> nat" where
  "stickyProxyIndex accountID poolSize =
     (if poolSize \<le> 1 then 0
      else if accountID \<le> 0 then 0
      else nat ((accountID - 1) mod int poolSize))"

fun first_proxy :: "string list \<Rightarrow> string option" where
  "first_proxy [] = None"
| "first_proxy (p # ps) = (if trim_space p \<noteq> '''' then Some (trim_space p) else first_proxy ps)"

definition resolveFallbackProxyForAccount :: "Store \<Rightarrow> int \<Rightarrow> string" where
  "resolveFallbackProxyForAccount s accountID =
     (let n = length (proxyPool s);
          start = stickyProxyIndex accountID n;
          candidates = (if proxyPoolEnabled s \<and> n > 0
                        then map (\<lambda>i. proxyPool s ! ((start + i) mod n)) [0..<n] else [])
      in case first_proxy candidates of
           Some proxy \<Rightarrow> proxy
         | None \<Rightarrow> trim_space (globalProxy s))"

definition ResolveProxyForAccount :: "Store \<Rightarrow> addr option \<Rightarrow> string" where
  "ResolveProxyForAccount s acc =
     (case acc of
        None \<Rightarrow> resolveFallbackProxyForAccount s 0
      | Some ad \<Rightarrow>
          let proxy = trim_space (ProxyURL (st_heap s ad))
          in if proxy \<noteq> '''' then proxy
             else resolveFallbackProxyForAccount s (DBID (st_heap s ad)))"

section \<open>Choosing an account\<close>

definition max_float64 :: float64 where
  "max_float64 = (2 - 1 / 2 ^ 52) * 2 ^ 1023"

text \<open>The candidate the slow path has seen so far; \<open>coin\<close> are the outcomes of \<open>fastRandN(2) == 0\<close>.\<close>

record pick =
  pk_best :: "addr option"
  pk_priority :: int
  pk_score :: float64
  pk_load :: int

definition no_pick :: pick where
  "no_pick = \<lparr>pk_best = None, pk_priority = -1, pk_score = - max_float64, pk_load = 2 ^ 63 - 1\<rparr>"

definition better :: "pick \<Rightarrow> int \<Rightarrow> float64 \<Rightarrow> int \<Rightarrow> bool \<Rightarrow> bool" where
  "better p priority dispatchScore load coin \<longleftrightarrow>
     priority > pk_priority p \<or>
     (priority = pk_priority p \<and>
       (dispatchScore > pk_score p \<or>
        (dispatchScore = pk_score p \<and> load < pk_load p) \<or>
        (dispatchScore = pk_score p \<and> load = pk_load p \<and> coin)))"

fun slow_scan ::
  "int \<Rightarrow> time \<Rightarrow> int set \<Rightarrow> heap \<Rightarrow> pick \<Rightarrow> (addr \<times> bool) list \<Rightarrow> heap \<times> pick" where
  "slow_scan maxConc now exclude h p [] = (h, p)"
| "slow_scan maxConc now exclude h p ((ad, coin) # ads) =
     (if DBID (h ad) \<in> exclude then slow_scan maxConc now exclude h p ads
      else if \<not> IsAvailable (h ad) now then slow_scan maxConc now exclude h p ads
      else
        let load = ActiveRequests (h ad);
            (a, tier, _, dispatchScore, limit) = schedulerSnapshot (h ad) maxConc now;
            h = h(ad := a)
        in if limit \<le> 0 \<or> load \<ge> limit then slow_scan maxConc now exclude h p ads
           else if better p (tierPriority tier) dispatchScore load coin
           then slow_scan maxConc now exclude h
                  \<lparr>pk_best = Some ad, pk_priority = tierPriority tier,
                   pk_score = dispatchScore, pk_load = load\<rparr> ads
           else slow_scan maxConc now exclude h p ads)"

definition slow_take :: "account \<Rightarrow> time \<Rightarrow> account" where
  "slow_take a now =
     a\<lparr>ActiveRequests := ActiveRequests a + 1, TotalRequests := TotalRequests a + 1,
       LastUsedAt := unix_nano now\<rparr>"

text \<open>
  \<open>NextExcluding\<close>. The slow path runs here without other requests in between; their race for
  the counter is a step relation of its own. \<open>None\<close> is a fast scheduler that never returns.
\<close>

definition NextExcluding ::
  "(nat \<Rightarrow> bool) \<Rightarrow> Store \<Rightarrow> int set \<Rightarrow> time \<Rightarrow> (Store \<times> addr option) option" where
  "NextExcluding coin s exclude now =
     (case getFastScheduler s of
        Some fs \<Rightarrow>
          (case AcquireExcluding (st_heap s) fs exclude now of
             None \<Rightarrow> None
           | Some (h, fs, r) \<Rightarrow> Some (s\<lparr>st_heap := h, fastScheduler := Some fs\<rparr>, r))
      | None \<Rightarrow>
          let (h, p) = slow_scan (maxConcurrency s) now exclude (st_heap s) no_pick
                         (zip (accounts s) (map coin [0..<length (accounts s)]))
          in Some (case pk_best p of
                     None \<Rightarrow> (s\<lparr>st_heap := h\<rparr>, None)
                   | Some ad \<Rightarrow> (s\<lparr>st_heap := h(ad := slow_take (h ad) now)\<rparr>, Some ad)))"

definition FindByID :: "Store \<Rightarrow> int \<Rightarrow> addr option" where
  "FindByID s dbID = accountIndex s dbID"

text \<open>
  \<open>Release\<close> decrements in both branches (\<open>FastScheduler.Release\<close> is the same atomic add).
\<close>

definition ReleaseAccount :: "Store \<Rightarrow> addr \<Rightarrow> Store" where
  "ReleaseAccount s ad =
     (case getFastScheduler s of
        Some fs \<Rightarrow> s\<lparr>st_heap := Release (st_heap s) ad\<rparr>
      | None \<Rightarrow> set_account ad ((st_heap s ad)\<lparr>ActiveRequests := ActiveRequests (st_heap s ad) - 1\<rparr>) s)"

section \<open>Session affinity\<close>

definition bindSessionAffinity :: "Store \<Rightarrow> string \<Rightarrow> addr \<Rightarrow> string \<Rightarrow> time \<Rightarrow> Store" where
  "bindSessionAffinity s key ad proxyURL now =
     (let key = trim_space key
      in if key = '''' then s
         else s\<lparr>sessionBindings := (sessionBindings s)(key \<mapsto>
                  \<lparr>sa_accountID = DBID (st_heap s ad), sa_proxyURL = trim_space proxyURL,
                   sa_expiresAt = now + sessionAffinityTTL\<rparr>)\<rparr>)"

definition UnbindSessionAffinity :: "Store \<Rightarrow> string \<Rightarrow> int \<Rightarrow> Store" where
  "UnbindSessionAffinity s key accountID =
     (if accountID = 0 then s
      else
        let key = trim_space key
        in if key = '''' then s
           else case sessionBindings s key of
             Some binding \<Rightarrow>
               if sa_accountID binding = accountID
               then s\<lparr>sessionBindings := (sessionBindings s)(key := None)\<rparr> else s
           | None \<Rightarrow> s)"

definition takeByIDExcluding ::
  "Store \<Rightarrow> int \<Rightarrow> int set \<Rightarrow> time \<Rightarrow> Store \<times> addr option" where
  "takeByIDExcluding s dbID exclude now =
     (if dbID = 0 \<or> dbID \<in> exclude then (s, None)
      else case accountIndex s dbID of
        None \<Rightarrow> (s, None)
      | Some ad \<Rightarrow>
          if \<not> IsAvailable (st_heap s ad) now then (s, None)
          else
            let (a, sn) = fastSchedulerSnapshot (st_heap s ad) (maxConcurrency s) now;
                s = set_account ad a s
            in if \<not> sn_available sn \<or> sn_limit sn \<le> 0 then (s, None)
               else
                 let (ok, a) = tryAcquireAccount a (sn_limit sn) now
                 in if \<not> ok then (s, None) else (set_account ad a s, Some ad))"

definition NextForSession ::
  "(nat \<Rightarrow> bool) \<Rightarrow> Store \<Rightarrow> string \<Rightarrow> int set \<Rightarrow> time \<Rightarrow> (Store \<times> addr option \<times> string) option" where
  "NextForSession coin s key exclude now =
     (let key = trim_space key;
          fallback = (\<lambda>s. map_option (\<lambda>(s, r). (s, r, '''')) (NextExcluding coin s exclude now))
      in if key = '''' then fallback s
         else case sessionBindings s key of
           None \<Rightarrow> fallback s
         | Some binding \<Rightarrow>
             if \<not> sa_expiresAt binding > now
             then fallback (s\<lparr>sessionBindings := (sessionBindings s)(key := None)\<rparr>)
             else
               let (s, r) = takeByIDExcluding s (sa_accountID binding) exclude now
               in case r of
                    Some ad \<Rightarrow> Some (s, Some ad, sa_proxyURL binding)
                  | None \<Rightarrow> fallback s)"

text \<open>
  \<open>WaitForSessionAvailable\<close>: \<open>others\<close> is what the rest of the program does to the store while the
  loop sleeps, \<open>cancelled\<close> says whether the request's context is done. A wake-up at the deadline
  or later is the deadline. \<open>None\<close> is a choice of an account that never returns.
\<close>

definition next_backoff :: "duration \<Rightarrow> duration" where
  "next_backoff backoff = (if backoff < 500 * millisecond then backoff * 2 else backoff)"

function wait_session ::
  "(time \<Rightarrow> Store \<Rightarrow> Store) \<Rightarrow> (time \<Rightarrow> bool) \<Rightarrow> (nat \<Rightarrow> bool) \<Rightarrow> string \<Rightarrow> int set \<Rightarrow> time
     \<Rightarrow> Store \<Rightarrow> time \<Rightarrow> duration \<Rightarrow> (Store \<times> addr option \<times> string) option" where
  "wait_session others cancelled coin key exclude deadline s now backoff =
     (if cancelled now \<or> now \<ge> deadline \<or> backoff \<le> 0 then Some (s, None, '''')
      else
        case NextForSession coin s key exclude now of
          None \<Rightarrow> None
        | Some (s, Some ad, proxyURL) \<Rightarrow> Some (s, Some ad, proxyURL)
        | Some (s, None, _) \<Rightarrow>
            wait_session others cancelled coin key exclude deadline
              (others (now + backoff) s) (now + backoff) (next_backoff backoff))"
  by pat_completeness auto
termination
  by (relation "measure (\<lambda>(others, cancelled, coin, key, exclude, deadline, s, now, backoff).
        nat (deadline - now))") auto

declare wait_session.simps [simp del]

definition WaitForSessionAvailable ::
  "(time \<Rightarrow> Store \<Rightarrow> Store) \<Rightarrow> (time \<Rightarrow> bool) \<Rightarrow> (nat \<Rightarrow> bool) \<Rightarrow> Store \<Rightarrow> string \<Rightarrow> duration
     \<Rightarrow> int set \<Rightarrow> time \<Rightarrow> (Store \<times> addr option \<times> string) option" where
  "WaitForSessionAvailable others cancelled coin s key timeout exclude now =
     wait_session others cancelled coin key exclude (now + timeout) s now (50 * millisecond)"

section \<open>Adding and removing accounts\<close>

definition AddAccount :: "Store \<Rightarrow> addr \<Rightarrow> time \<Rightarrow> Store" where
  "AddAccount s ad now =
     (let a = st_heap s ad;
          a = (if AddedAt a = 0 then a\<lparr>AddedAt := unix_nano now\<rparr> else a);
          a = recomputeSchedulerLocked a (maxConcurrency s) now;
          s = set_account ad a s;
          s = s\<lparr>accounts := accounts s @ [ad],
                accountIndex := (accountIndex s)(DBID a \<mapsto> ad)\<rparr>
      in fastSchedulerUpdate ad now s)"

definition cancel_task :: "int \<Rightarrow> Store \<Rightarrow> Store" where
  "cancel_task dbID s =
     (if refreshSchedulerSet s then s\<lparr>cancelledTasks := cancelledTasks s @ [dbID]\<rparr> else s)"

fun find_account :: "heap \<Rightarrow> int \<Rightarrow> nat \<Rightarrow> addr list \<Rightarrow> nat option" where
  "find_account h dbID i [] = None"
| "find_account h dbID i (ad # ads) =
     (if DBID (h ad) = dbID then Some i else find_account h dbID (Suc i) ads)"

definition RemoveAccount :: "Store \<Rightarrow> int \<Rightarrow> Store" where
  "RemoveAccount s dbID =
     (case find_account (st_heap s) dbID 0 (accounts s) of
        None \<Rightarrow> s
      | Some i \<Rightarrow>
          let s = s\<lparr>accounts := remove_nth i (accounts s),
                    accountIndex := (accountIndex s)(dbID := None)\<rparr>;
              s = fastSchedulerRemove dbID s
          in cancel_task dbID s)"

text \<open>The loop of \<open>RemoveAccounts\<close>: one pass that keeps the accounts not in the set.\<close>

fun remove_pass :: "int set \<Rightarrow> Store \<Rightarrow> addr list \<Rightarrow> Store \<times> addr list" where
  "remove_pass removeSet s [] = (s, [])"
| "remove_pass removeSet s (ad # ads) =
     (let dbID = DBID (st_heap s ad)
      in if dbID \<in> removeSet
         then let s = s\<lparr>accountIndex := (accountIndex s)(dbID := None)\<rparr>;
                  s = fastSchedulerRemove dbID s;
                  s = cancel_task dbID s
              in remove_pass removeSet s ads
         else let (s, kept) = remove_pass removeSet s ads in (s, ad # kept))"

definition RemoveAccounts :: "Store \<Rightarrow> int list \<Rightarrow> Store" where
  "RemoveAccounts s dbIDs =
     (if dbIDs = [] then s
      else let (s, kept) = remove_pass (set dbIDs) s (accounts s) in s\<lparr>accounts := kept\<rparr>)"

definition AccountCount :: "Store \<Rightarrow> nat" where
  "AccountCount s = length (accounts s)"

definition AvailableCount :: "Store \<Rightarrow> time \<Rightarrow> nat" where
  "AvailableCount s now = length (filter (\<lambda>ad. IsAvailable (st_heap s ad) now) (accounts s))"

section \<open>Sets of accounts by plan\<close>

definition plan_set :: "string list \<Rightarrow> string set" where
  "plan_set plans = set (filter (\<lambda>p. p \<noteq> '''') (map normalizePlanType plans))"

definition AccountIDsExcludingPlans :: "Store \<Rightarrow> string list \<Rightarrow> int set" where
  "AccountIDsExcludingPlans s keepPlans =
     set (map (\<lambda>ad. DBID (st_heap s ad))
       (filter (\<lambda>ad. normalizePlanType (PlanType (st_heap s ad)) \<notin> plan_set keepPlans) (accounts s)))"

text \<open>The nil map excludes nothing, like the empty set.\<close>

definition AccountIDsByPlan :: "Store \<Rightarrow> string list \<Rightarrow> int set" where
  "AccountIDsByPlan s planTypes =
     (if planTypes = [] \<or> plan_set planTypes = {} then {}
      else set (map (\<lambda>ad. DBID (st_heap s ad))
        (filter (\<lambda>ad. normalizePlanType (PlanType (st_heap s ad)) \<in> plan_set planTypes) (accounts s))))"

end
