(* ===== verification/StoreOps.thy ===== *)
theory StoreOps
  imports Store
begin

text \<open>
  \<open>auth/store.go\<close>, \<open>auth/premium_rate_limit.go\<close> and \<open>auth/token.go\<close>: what the store does with the
  outcome of a request, the clean-up sweeps, the recovery probe and the refresh of a token. The
  outcome of a database call, of a probe and of a request to the token endpoint is an argument.
\<close>

section \<open>Intervals\<close>

definition SetBackgroundRefreshInterval :: "Store \<Rightarrow> duration \<Rightarrow> Store" where
  "SetBackgroundRefreshInterval s d =
     s\<lparr>backgroundRefreshInterval := or_default d defaultBackgroundRefreshInterval\<rparr>"

definition GetBackgroundRefreshInterval :: "Store \<Rightarrow> duration" where
  "GetBackgroundRefreshInterval s =
     (if backgroundRefreshInterval s \<le> 0 then defaultBackgroundRefreshInterval
      else backgroundRefreshInterval s)"

definition SetUsageProbeMaxAge :: "Store \<Rightarrow> duration \<Rightarrow> Store" where
  "SetUsageProbeMaxAge s d = s\<lparr>usageProbeMaxAge := or_default d defaultUsageProbeMaxAge\<rparr>"

definition GetUsageProbeMaxAge :: "Store \<Rightarrow> duration" where
  "GetUsageProbeMaxAge s =
     (if usageProbeMaxAge s \<le> 0 then defaultUsageProbeMaxAge else usageProbeMaxAge s)"

definition SetRecoveryProbeInterval :: "Store \<Rightarrow> duration \<Rightarrow> Store" where
  "SetRecoveryProbeInterval s d =
     s\<lparr>recoveryProbeInterval := or_default d defaultRecoveryProbeInterval\<rparr>"

definition GetRecoveryProbeInterval :: "Store \<Rightarrow> duration" where
  "GetRecoveryProbeInterval s =
     (if recoveryProbeInterval s \<le> 0 then defaultRecoveryProbeInterval else recoveryProbeInterval s)"

section \<open>Outcomes of requests\<close>

definition ApplyAccountSchedulerOverrides ::
  "Store \<Rightarrow> int \<Rightarrow> int option \<Rightarrow> int option \<Rightarrow> time \<Rightarrow> Store \<times> bool" where
  "ApplyAccountSchedulerOverrides s dbID scoreBias baseConcurrency now =
     (case FindByID s dbID of
        None \<Rightarrow> (s, False)
      | Some ad \<Rightarrow>
          let a = (st_heap s ad)\<lparr>ScoreBiasOverride := scoreBias,
                                 BaseConcurrencyOverride := baseConcurrency\<rparr>;
              s = set_account ad (recomputeSchedulerLocked a (maxConcurrency s) now) s
          in (fastSchedulerUpdate ad now s, True))"

definition MarkCooldown :: "Store \<Rightarrow> addr \<Rightarrow> duration \<Rightarrow> string \<Rightarrow> time \<Rightarrow> Store" where
  "MarkCooldown s ad duration reason now =
     (let (a, duration) = mark_cooldown_locked (st_heap s ad) (maxConcurrency s) now duration reason;
          until = now + duration;
          s = set_account ad (SetCooldownUntil a until reason) s;
          s = fastSchedulerUpdate ad now s;
          unlockedFromBan = (reason \<in> set [''unauthorized'', ''deactivated_workspace'']
                             \<and> Locked (st_heap s ad) = 1);
          s = (if unlockedFromBan then set_account ad ((st_heap s ad)\<lparr>Locked := 0\<rparr>) s else s);
          s = log_db (DbSetCooldown (DBID (st_heap s ad)) reason until) s
      in if unlockedFromBan then log_db (DbSetAccountLocked (DBID (st_heap s ad)) False) s else s)"

definition ClearCooldown :: "Store \<Rightarrow> addr \<Rightarrow> time \<Rightarrow> Store" where
  "ClearCooldown s ad now =
     (let s = set_account ad (clear_cooldown_locked (st_heap s ad) (maxConcurrency s) now) s;
          s = fastSchedulerUpdate ad now s
      in log_db (DbClearCooldown (DBID (st_heap s ad))) s)"

definition ReportRequestSuccess :: "Store \<Rightarrow> addr \<Rightarrow> duration \<Rightarrow> time \<Rightarrow> Store" where
  "ReportRequestSuccess s ad latency now =
     fastSchedulerUpdate ad now
       (set_account ad (report_success_locked (st_heap s ad) (maxConcurrency s) now latency) s)"

definition ReportRequestFailure :: "Store \<Rightarrow> addr \<Rightarrow> string \<Rightarrow> duration \<Rightarrow> time \<Rightarrow> Store" where
  "ReportRequestFailure s ad kind latency now =
     fastSchedulerUpdate ad now
       (set_account ad (report_failure_locked (st_heap s ad) (maxConcurrency s) now kind latency) s)"

definition PersistUsageSnapshot :: "Store \<Rightarrow> addr \<Rightarrow> float64 \<Rightarrow> time \<Rightarrow> Store" where
  "PersistUsageSnapshot s ad pct7d now =
     (let s = set_account ad (SetUsageSnapshot (st_heap s ad) pct7d now) s;
          s = fastSchedulerUpdate ad now s;
          a = st_heap s ad
      in if UsagePercent5hValid a
         then log_db (DbUpdateUsageSnapshotFull (DBID a) pct7d (Reset7dAt a) (UsagePercent5h a)
                (Reset5hAt a) now) s
         else log_db (DbUpdateUsageSnapshot (DBID a) pct7d now) s)"

definition PersistUsageSnapshot5hOnly :: "Store \<Rightarrow> addr \<Rightarrow> time \<Rightarrow> Store" where
  "PersistUsageSnapshot5hOnly s ad now =
     (if \<not> UsagePercent5hValid (st_heap s ad) then s
      else
        let pct5h = UsagePercent5h (st_heap s ad);
            reset5hAt = Reset5hAt (st_heap s ad);
            s = set_account ad ((st_heap s ad)\<lparr>UsageUpdatedAt := now\<rparr>) s;
            s = fastSchedulerUpdate ad now s
        in log_db (DbUpdateUsageSnapshot5h (DBID (st_heap s ad)) pct5h reset5hAt now) s)"

definition InferPremiumPlanFromHeaders :: "Store \<Rightarrow> addr \<Rightarrow> Store \<times> bool" where
  "InferPremiumPlanFromHeaders s ad =
     (if PlanType (st_heap s ad) \<noteq> '''' then (s, False)
      else
        let s = set_account ad ((st_heap s ad)\<lparr>PlanType := ''plus''\<rparr>) s
        in (log_db (DbUpdateCredentials (DBID (st_heap s ad)) [(''plan_type'', CredText ''plus'')]) s,
            True))"

definition SyncAccountPlanType :: "Store \<Rightarrow> addr \<Rightarrow> string \<Rightarrow> time \<Rightarrow> Store \<times> bool" where
  "SyncAccountPlanType s ad planType now =
     (let planType = normalizePlanType planType
      in if planType = '''' then (s, False)
         else if PlanType (st_heap s ad) = planType then (s, False)
         else
           let a = (st_heap s ad)\<lparr>PlanType := planType\<rparr>;
               s = set_account ad (recomputeSchedulerLocked a (maxConcurrency s) now) s;
               s = fastSchedulerUpdate ad now s
           in (log_db (DbUpdateCredentials (DBID (st_heap s ad)) [(''plan_type'', CredText planType)]) s,
               True))"

definition MarkPremium5hRateLimited :: "Store \<Rightarrow> addr \<Rightarrow> time \<Rightarrow> time \<Rightarrow> Store" where
  "MarkPremium5hRateLimited s ad resetAt now =
     (let resetAt = (if is_zero resetAt \<or> \<not> resetAt > now then now + premium5hFallbackWindow else resetAt);
          s = set_account ad (mark_premium5h_locked (st_heap s ad) (maxConcurrency s) now resetAt) s;
          s = fastSchedulerUpdate ad now s;
          s = log_db (DbClearCooldown (DBID (st_heap s ad))) s
      in log_db (DbUpdateUsageSnapshot5h (DBID (st_heap s ad)) 100 resetAt now) s)"

section \<open>Clean-up sweeps\<close>

text \<open>
  Every sweep works on a copy of the account list. \<open>deleted\<close> says for which account the database
  deletes the row without an error; without a database there is no such call.
\<close>

definition delete_account :: "(int \<Rightarrow> bool) \<Rightarrow> string \<Rightarrow> addr \<Rightarrow> Store \<times> nat \<Rightarrow> Store \<times> nat" where
  "delete_account deleted note ad out =
     (let (s, cleaned) = out;
          dbID = DBID (st_heap s ad);
          s = log_db (DbSoftDeleteAccount dbID) s
      in if dbPresent s \<and> \<not> deleted dbID then (s, cleaned)
         else (log_db (DbInsertAccountEvent dbID ''deleted'' note) (RemoveAccount s dbID), Suc cleaned))"

definition skip_by_status :: "string \<Rightarrow> time \<Rightarrow> account \<Rightarrow> bool" where
  "skip_by_status targetStatus now a \<longleftrightarrow>
     RuntimeStatus a now \<noteq> targetStatus \<or>
     (targetStatus = ''rate_limited'' \<and> premium5hRateLimitedLocked a now) \<or>
     (targetStatus \<noteq> ''unauthorized'' \<and> Locked a = 1)"

definition CleanByRuntimeStatus :: "(int \<Rightarrow> bool) \<Rightarrow> Store \<Rightarrow> string \<Rightarrow> time \<Rightarrow> Store \<times> nat" where
  "CleanByRuntimeStatus deleted s targetStatus now =
     foldl (\<lambda>out ad. if skip_by_status targetStatus now (st_heap (fst out) ad) then out
                     else delete_account deleted ''auto_clean'' ad out) (s, 0) (accounts s)"

definition runAutoCleanupSweep :: "(int \<Rightarrow> bool) \<Rightarrow> Store \<Rightarrow> time \<Rightarrow> Store \<times> nat \<times> nat \<times> nat" where
  "runAutoCleanupSweep deleted s now =
     (let (s, n1) = (if autoCleanUnauthorized s
                     then CleanByRuntimeStatus deleted s ''unauthorized'' now else (s, 0));
          (s, n2) = (if autoCleanRateLimited s
                     then CleanByRuntimeStatus deleted s ''rate_limited'' now else (s, 0));
          (s, n3) = (if autoCleanError s
                     then CleanByRuntimeStatus deleted s ''error'' now else (s, 0))
      in (s, n1, n2, n3))"

definition skip_full_usage :: "account \<Rightarrow> bool" where
  "skip_full_usage a \<longleftrightarrow>
     Locked a = 1 \<or> ActiveRequests a > 0 \<or>
     \<not> UsagePercent7dValid a \<or> UsagePercent7d a < FreeUsageHardLimitPct"

definition CleanFullUsageAccounts :: "(int \<Rightarrow> bool) \<Rightarrow> Store \<Rightarrow> Store \<times> nat" where
  "CleanFullUsageAccounts deleted s =
     foldl (\<lambda>out ad. if skip_full_usage (st_heap (fst out) ad) then out
                     else delete_account deleted ''clean_full_usage'' ad out) (s, 0) (accounts s)"

definition skip_expired :: "int \<Rightarrow> account \<Rightarrow> bool" where
  "skip_expired cutoff a \<longleftrightarrow>
     Locked a = 1 \<or> AddedAt a = 0 \<or> AddedAt a > cutoff \<or> ActiveRequests a > 0 \<or> TotalRequests a > 10"

fun cleanExpiredFallback :: "(int \<Rightarrow> bool) \<Rightarrow> Store \<Rightarrow> int list \<Rightarrow> Store \<times> nat" where
  "cleanExpiredFallback deleted s [] = (s, 0)"
| "cleanExpiredFallback deleted s (dbID # ids) =
     (let s = log_db (DbSoftDeleteAccount dbID) s
      in if \<not> deleted dbID then cleanExpiredFallback deleted s ids
         else
           let s = log_db (DbInsertAccountEvent dbID ''deleted'' ''clean_expired'') (RemoveAccount s dbID);
               (s, n) = cleanExpiredFallback deleted s ids
           in (s, Suc n))"

definition CleanExpiredAccounts ::
  "bool \<Rightarrow> (int \<Rightarrow> bool) \<Rightarrow> Store \<Rightarrow> duration \<Rightarrow> time \<Rightarrow> Store \<times> nat" where
  "CleanExpiredAccounts batchDeleted deleted s maxAge now =
     (let cutoff = unix_nano (now - maxAge);
          expiredIDs = map (\<lambda>ad. DBID (st_heap s ad))
            (filter (\<lambda>ad. \<not> skip_expired cutoff (st_heap s ad)) (accounts s))
      in if expiredIDs = [] then (s, 0)
         else
           let s = log_db (DbBatchSoftDeleteAccounts expiredIDs) s
           in if dbPresent s \<and> \<not> batchDeleted then cleanExpiredFallback deleted s expiredIDs
              else (log_db (DbBatchInsertAccountEvents expiredIDs ''deleted'' ''clean_expired'')
                      (RemoveAccounts s expiredIDs), length expiredIDs))"

end
