(* ===== verification/StoreLaws.thy ===== *)
theory StoreLaws
  imports SchedulerSteps StoreOps
begin

text \<open>
  The invariant of the store (index, account list and fast scheduler agree) and its preservation;
  the contract of "acquire an account" as the locale \<open>acquirer\<close>, met by \<open>NextExcluding\<close> and by
  \<open>NextForSession\<close>; session affinity; what the clean-up sweeps may and may not delete.
\<close>

section \<open>Frames\<close>

lemma log_db_frame [simp, frame_simps]:
  "st_heap (log_db c s) = st_heap s"
  "accounts (log_db c s) = accounts s"
  "accountIndex (log_db c s) = accountIndex s"
  "fastScheduler (log_db c s) = fastScheduler s"
  "fastSchedulerEnabled (log_db c s) = fastSchedulerEnabled s"
  "maxConcurrency (log_db c s) = maxConcurrency s"
  "sessionBindings (log_db c s) = sessionBindings s"
  "tokenCache (log_db c s) = tokenCache s"
  "dbPresent (log_db c s) = dbPresent s"
  by (simp_all add: log_db_def)

lemma set_account_frame [simp, frame_simps]:
  "st_heap (set_account ad a s) = (st_heap s)(ad := a)"
  "accounts (set_account ad a s) = accounts s"
  "accountIndex (set_account ad a s) = accountIndex s"
  "fastScheduler (set_account ad a s) = fastScheduler s"
  "fastSchedulerEnabled (set_account ad a s) = fastSchedulerEnabled s"
  "maxConcurrency (set_account ad a s) = maxConcurrency s"
  "sessionBindings (set_account ad a s) = sessionBindings s"
  "tokenCache (set_account ad a s) = tokenCache s"
  "dbPresent (set_account ad a s) = dbPresent s"
  by (simp_all add: set_account_def)

lemma fastSchedulerUpdate_frame [simp, frame_simps]:
  "accounts (fastSchedulerUpdate ad n s) = accounts s"
  "accountIndex (fastSchedulerUpdate ad n s) = accountIndex s"
  "fastSchedulerEnabled (fastSchedulerUpdate ad n s) = fastSchedulerEnabled s"
  "maxConcurrency (fastSchedulerUpdate ad n s) = maxConcurrency s"
  "sessionBindings (fastSchedulerUpdate ad n s) = sessionBindings s"
  "dbPresent (fastSchedulerUpdate ad n s) = dbPresent s"
  by (simp_all add: fastSchedulerUpdate_def Let_def split: option.split prod.split)

lemma Update_heap:
  "fst (Update h fs ad now) = (if DBID (h ad) = 0 then h else h(ad := snapped (h ad) (fs_baseLimit fs) now))"
  by (simp add: Update_def insertLocked_heap)

lemma fastSchedulerUpdate_heap:
  "st_heap (fastSchedulerUpdate ad n s) =
     (case getFastScheduler s of None \<Rightarrow> st_heap s
      | Some fs \<Rightarrow> if DBID (st_heap s ad) = 0 then st_heap s
                  else (st_heap s)(ad := snapped (st_heap s ad) (fs_baseLimit fs) n))"
  by (simp add: fastSchedulerUpdate_def Update_heap [symmetric] split: option.split prod.split)

lemma fastSchedulerUpdate_account [simp]:
  "DBID (st_heap (fastSchedulerUpdate ad n s) x) = DBID (st_heap s x)"
  "ActiveRequests (st_heap (fastSchedulerUpdate ad n s) x) = ActiveRequests (st_heap s x)"
  "Status (st_heap (fastSchedulerUpdate ad n s) x) = Status (st_heap s x)"
  "PlanType (st_heap (fastSchedulerUpdate ad n s) x) = PlanType (st_heap s x)"
  "AccessToken (st_heap (fastSchedulerUpdate ad n s) x) = AccessToken (st_heap s x)"
  by (auto simp: fastSchedulerUpdate_heap split: option.split)

section \<open>The invariant\<close>

definition store_inv :: "Store \<Rightarrow> bool" where
  "store_inv s \<longleftrightarrow>
     distinct (map (\<lambda>ad. DBID (st_heap s ad)) (accounts s)) \<and>
     (\<forall>k ad. accountIndex s k = Some ad \<longleftrightarrow> ad \<in> set (accounts s) \<and> DBID (st_heap s ad) = k) \<and>
     (\<forall>fs. getFastScheduler s = Some fs \<longrightarrow>
        fs_inv (st_heap s) fs \<and> (\<forall>ad. has_entry fs ad \<longrightarrow> ad \<in> set (accounts s)))"

lemma store_invD:
  assumes "store_inv s"
  shows "distinct (map (\<lambda>ad. DBID (st_heap s ad)) (accounts s))"
    and "accountIndex s k = Some ad \<longleftrightarrow> ad \<in> set (accounts s) \<and> DBID (st_heap s ad) = k"
    and "getFastScheduler s = Some fs \<Longrightarrow> fs_inv (st_heap s) fs"
    and "getFastScheduler s = Some fs \<Longrightarrow> has_entry fs ad \<Longrightarrow> ad \<in> set (accounts s)"
  using assms unfolding store_inv_def by blast+

text \<open>Most operations change accounts, but neither their ids, nor the list, nor the scheduler.\<close>

lemma store_inv_heap:
  assumes "store_inv s" "\<And>ad. DBID (st_heap s' ad) = DBID (st_heap s ad)"
    "accounts s' = accounts s" "accountIndex s' = accountIndex s"
    "getFastScheduler s' = getFastScheduler s"
  shows "store_inv s'"
  using assms fs_inv_heap [of "st_heap s" _ "st_heap s'"] unfolding store_inv_def by simp

lemma getFastScheduler_frame [simp, frame_simps]:
  "getFastScheduler (set_account ad a s) = getFastScheduler s"
  "getFastScheduler (log_db c s) = getFastScheduler s"
  "getFastScheduler (cancel_task k s) = getFastScheduler s"
  by (simp_all add: getFastScheduler_def cancel_task_def)

lemma store_inv_set_account [inv_intros]:
  "store_inv s \<Longrightarrow> DBID a = DBID (st_heap s ad) \<Longrightarrow> store_inv (set_account ad a s)"
  by (erule store_inv_heap) auto

lemma store_inv_log_db [simp]: "store_inv (log_db c s) = store_inv s"
  by (simp add: store_inv_def)

lemma Update_has_entry:
  assumes "fs_inv h fs" "has_entry (snd (Update h fs ad now)) x"
  shows "has_entry fs x \<or> x = ad"
  using assms(2) unfolding Update_def insertLocked_fs has_entry_def
  by (auto simp: removeLocked_buckets [OF assms(1)] make_entry_def split: if_splits)

lemma store_inv_update [inv_intros]:
  assumes inv: "store_inv s" and ad: "ad \<in> set (accounts s)"
  shows "store_inv (fastSchedulerUpdate ad now s)"
proof (cases "getFastScheduler s")
  case None
  with inv show ?thesis by (simp add: fastSchedulerUpdate_def)
next
  case (Some fs)
  let ?u = "Update (st_heap s) fs ad now"
  have s': "fastSchedulerUpdate ad now s = s\<lparr>st_heap := fst ?u, fastScheduler := Some (snd ?u)\<rparr>"
    using Some by (simp add: fastSchedulerUpdate_def split: prod.split)
  have en: "fastSchedulerEnabled s" using Some by (simp add: getFastScheduler_def split: if_splits)
  have ids: "DBID (fst ?u x) = DBID (st_heap s x)" for x by (simp add: Update_heap)
  have "fs_inv (fst ?u) (snd ?u)" by (rule fs_inv_Update [OF store_invD(3) [OF inv Some]])
  moreover have "has_entry (snd ?u) x \<Longrightarrow> x \<in> set (accounts s)" for x
    using Update_has_entry [OF store_invD(3) [OF inv Some]] store_invD(4) [OF inv Some] ad by blast
  ultimately show ?thesis
    using inv en unfolding s' store_inv_def by (simp add: ids getFastScheduler_def)
qed

lemma find_account_Some:
  "find_account h k i ads = Some j \<Longrightarrow>
   i \<le> j \<and> j - i < length ads \<and> DBID (h (ads ! (j - i))) = k"
  by (induction ads arbitrary: i)
     (fastforce simp: nth_Cons' Suc_diff_Suc split: if_splits)+

lemma find_account_None: "find_account h k i ads = None \<longleftrightarrow> (\<forall>ad \<in> set ads. DBID (h ad) \<noteq> k)"
  by (induction ads arbitrary: i) auto

lemma cancel_task_frame [simp]:
  "st_heap (cancel_task k s) = st_heap s" "accounts (cancel_task k s) = accounts s"
  "accountIndex (cancel_task k s) = accountIndex s"
  "fastScheduler (cancel_task k s) = fastScheduler s"
  "fastSchedulerEnabled (cancel_task k s) = fastSchedulerEnabled s"
  "dbPresent (cancel_task k s) = dbPresent s"
  by (simp_all add: cancel_task_def)

lemma fastSchedulerRemove_frame [simp]:
  "st_heap (fastSchedulerRemove k s) = st_heap s" "accounts (fastSchedulerRemove k s) = accounts s"
  "accountIndex (fastSchedulerRemove k s) = accountIndex s"
  "fastSchedulerEnabled (fastSchedulerRemove k s) = fastSchedulerEnabled s"
  "dbPresent (fastSchedulerRemove k s) = dbPresent s"
  by (simp_all add: fastSchedulerRemove_def split: option.split)

lemma getFastScheduler_remove:
  "getFastScheduler (fastSchedulerRemove k s) =
     (if k = 0 then getFastScheduler s else map_option (\<lambda>fs. Remove fs k) (getFastScheduler s))"
  by (simp add: fastSchedulerRemove_def getFastScheduler_def split: option.split)

lemma Remove_has_entry:
  assumes "fs_inv h fs"
  shows "has_entry (Remove fs k) x \<longleftrightarrow> has_entry fs x \<and> DBID (h x) \<noteq> k"
proof (cases "k = 0")
  case True
  have "has_entry fs x \<Longrightarrow> DBID (h x) \<noteq> 0"
    using fs_invD(7,8) [OF assms] unfolding has_entry_def by metis
  with True show ?thesis by (auto simp: Remove_def)
next
  case False
  have "e \<in> set (fs_buckets fs t) \<Longrightarrow> DBID (h (e_acc e)) = e_dbID e" for e t
    by (rule fs_invD(8) [OF assms])
  with False show ?thesis
    unfolding has_entry_def Remove_def by (simp add: removeLocked_buckets [OF assms]) metis
qed

text \<open>Removing an account: the list, the index and the scheduler all forget it.\<close>

lemma RemoveAccount_accounts:
  assumes "store_inv s"
  shows "set (accounts (RemoveAccount s k)) = {ad \<in> set (accounts s). DBID (st_heap s ad) \<noteq> k}"
    and "distinct (map (\<lambda>ad. DBID (st_heap s ad)) (accounts (RemoveAccount s k)))"
    and "st_heap (RemoveAccount s k) = st_heap s"
proof -
  let ?ids = "\<lambda>ad. DBID (st_heap s ad)"
  have "accounts (RemoveAccount s k) = filter (\<lambda>ad. ?ids ad \<noteq> k) (accounts s)"
  proof (cases "find_account (st_heap s) k 0 (accounts s)")
    case None
    then have "RemoveAccount s k = s" by (simp add: RemoveAccount_def)
    moreover have "\<forall>ad \<in> set (accounts s). ?ids ad \<noteq> k"
      using None find_account_None by blast
    ultimately show ?thesis by (simp add: filter_id_conv [THEN iffD2])
  next
    case (Some i)
    from find_account_Some [OF this] have i: "i < length (accounts s)" "?ids (accounts s ! i) = k"
      by simp_all
    from filter_remove_eq [OF store_invD(1) [OF assms] i(1)] i(2) Some show ?thesis
      by (simp add: RemoveAccount_def Let_def)
  qed
  then show "set (accounts (RemoveAccount s k)) = {ad \<in> set (accounts s). ?ids ad \<noteq> k}"
    and "distinct (map ?ids (accounts (RemoveAccount s k)))"
    using store_invD(1) [OF assms] by (auto simp: distinct_map_filter)
  show "st_heap (RemoveAccount s k) = st_heap s"
    by (simp add: RemoveAccount_def Let_def split: option.split)
qed

lemma RemoveAccount_eq:
  "RemoveAccount s k =
     (if \<forall>ad \<in> set (accounts s). DBID (st_heap s ad) \<noteq> k then s
      else cancel_task k (fastSchedulerRemove k
        (s\<lparr>accounts := accounts (RemoveAccount s k), accountIndex := (accountIndex s)(k := None)\<rparr>)))"
proof (cases "find_account (st_heap s) k 0 (accounts s)")
  case None
  then have "RemoveAccount s k = s" by (simp add: RemoveAccount_def)
  moreover have "\<forall>ad \<in> set (accounts s). DBID (st_heap s ad) \<noteq> k"
    using None find_account_None by blast
  ultimately show ?thesis by simp
next
  case (Some i)
  then have F: "\<not> (\<forall>ad \<in> set (accounts s). DBID (st_heap s ad) \<noteq> k)"
    using find_account_None by (metis option.distinct(1))
  show ?thesis unfolding if_not_P [OF F] using Some by (simp add: RemoveAccount_def Let_def)
qed

lemma getFastScheduler_upd [simp]:
  "getFastScheduler (s\<lparr>accounts := a, accountIndex := i\<rparr>) = getFastScheduler s"
  "getFastScheduler (s\<lparr>accounts := a\<rparr>) = getFastScheduler s"
  "getFastScheduler (s\<lparr>sessionBindings := b\<rparr>) = getFastScheduler s"
  "getFastScheduler (s\<lparr>tokenCache := t\<rparr>) = getFastScheduler s"
  by (simp_all add: getFastScheduler_def)

lemma store_inv_RemoveAccount [inv_intros]:
  assumes inv: "store_inv s"
  shows "store_inv (RemoveAccount s k)"
proof (cases "\<forall>ad \<in> set (accounts s). DBID (st_heap s ad) \<noteq> k")
  case True
  then have "RemoveAccount s k = s" by (subst RemoveAccount_eq) simp
  with inv show ?thesis by simp
next
  case False
  note acc = RemoveAccount_accounts [OF inv, of k]
  let ?acc = "accounts (RemoveAccount s k)"
  have eq: "RemoveAccount s k = cancel_task k (fastSchedulerRemove k
      (s\<lparr>accounts := ?acc, accountIndex := (accountIndex s)(k := None)\<rparr>))"
    by (subst RemoveAccount_eq) (simp only: False if_False)
  have idx: "accountIndex (RemoveAccount s k) = (accountIndex s)(k := None)"
    by (subst eq) simp
  have gfs: "getFastScheduler (RemoveAccount s k) = map_option (\<lambda>fs. Remove fs k) (getFastScheduler s)"
    by (subst eq) (simp add: getFastScheduler_remove Remove_def option.map_ident)
  have he: "has_entry fs ad \<Longrightarrow> DBID (st_heap s ad) \<noteq> 0" if "getFastScheduler s = Some fs" for fs ad
    using fs_invD(7,8) [OF store_invD(3) [OF inv that]] unfolding has_entry_def by metis
  have fs: "fs_inv (st_heap s) fs' \<and> (\<forall>ad. has_entry fs' ad \<longrightarrow> ad \<in> set ?acc)"
    if got: "getFastScheduler (RemoveAccount s k) = Some fs'" for fs'
  proof -
    obtain fs where fs: "getFastScheduler s = Some fs" "fs' = Remove fs k"
      using got by (auto simp: gfs)
    note finv = store_invD(3) [OF inv fs(1)]
    show ?thesis
      using fs_inv_Remove [OF finv] Remove_has_entry [OF finv] store_invD(4) [OF inv fs(1)]
      unfolding fs(2) acc(1) by blast
  qed
  show ?thesis
    unfolding store_inv_def acc(3) idx
    using acc(2) fs store_invD(2) [OF inv] by (auto simp: acc(1))
qed

lemma RemoveAccount_forgets:
  assumes "store_inv s"
  shows "accountIndex (RemoveAccount s k) k = None"
  using store_invD(2) [OF store_inv_RemoveAccount [OF assms], of k k] RemoveAccount_accounts [OF assms, of k]
    store_invD(2) [OF store_inv_RemoveAccount [OF assms], of k]
  by (metis (mono_tags, lifting) mem_Collect_eq not_Some_eq)

lemma store_inv_AddAccount [inv_intros]:
  assumes inv: "store_inv s" and new: "\<And>x. x \<in> set (accounts s) \<Longrightarrow> DBID (st_heap s x) \<noteq> DBID (st_heap s ad)"
  shows "store_inv (AddAccount s ad now)"
proof -
  define a where "a = recomputeSchedulerLocked (if AddedAt (st_heap s ad) = 0
    then (st_heap s ad)\<lparr>AddedAt := unix_nano now\<rparr> else st_heap s ad) (maxConcurrency s) now"
  define s1 where "s1 = (set_account ad a s)\<lparr>accounts := accounts s @ [ad],
    accountIndex := (accountIndex s)(DBID a \<mapsto> ad)\<rparr>"
  have s': "AddAccount s ad now = fastSchedulerUpdate ad now s1"
    by (simp add: AddAccount_def Let_def a_def s1_def)
  have ida: "DBID a = DBID (st_heap s ad)" by (simp add: a_def)
  have ids: "DBID (st_heap s1 x) = DBID (st_heap s x)" for x by (simp add: s1_def ida)
  have gfs: "getFastScheduler s1 = getFastScheduler s" by (simp add: s1_def)
  have "store_inv s1"
    unfolding store_inv_def gfs ids
  proof (intro conjI allI impI)
    show "distinct (map (\<lambda>ad. DBID (st_heap s ad)) (accounts s1))"
      using store_invD(1) [OF inv] new new [THEN not_sym] by (auto simp: s1_def)
    show "accountIndex s1 k = Some x \<longleftrightarrow> x \<in> set (accounts s1) \<and> DBID (st_heap s x) = k" for k x
      using store_invD(2) [OF inv, of k x] new [of x] by (auto simp: s1_def ida)
    show "fs_inv (st_heap s1) fs" if "getFastScheduler s = Some fs" for fs
      by (rule fs_inv_heap [OF store_invD(3) [OF inv that]]) (simp add: ids)
    show "x \<in> set (accounts s1)" if "getFastScheduler s = Some fs" "has_entry fs x" for fs x
      using store_invD(4) [OF inv that] by (simp add: s1_def)
  qed
  then show ?thesis unfolding s' by (rule store_inv_update) (simp add: s1_def)
qed

section \<open>Acquiring\<close>

text \<open>The contract between whoever hands out accounts and the loops that ask for them.\<close>

locale acquirer =
  fixes heap_of :: "'s \<Rightarrow> heap" and ok :: "'s \<Rightarrow> bool"
    and acquire :: "'s \<Rightarrow> int set \<Rightarrow> time \<Rightarrow> ('s \<times> addr option) option"
  assumes returns: "ok s \<Longrightarrow> \<exists>s' r. acquire s ex now = Some (s', r)"
    and not_excluded: "ok s \<Longrightarrow> acquire s ex now = Some (s', Some ad) \<Longrightarrow> DBID (heap_of s ad) \<notin> ex"
    and counters: "ok s \<Longrightarrow> acquire s ex now = Some (s', r) \<Longrightarrow>
      ActiveRequests (heap_of s' x) = ActiveRequests (heap_of s x) + (if r = Some x then 1 else 0)"
    and ids: "ok s \<Longrightarrow> acquire s ex now = Some (s', r) \<Longrightarrow> DBID (heap_of s' x) = DBID (heap_of s x)"
    and kept: "ok s \<Longrightarrow> acquire s ex now = Some (s', r) \<Longrightarrow> ok s'"
begin

text \<open>A request that fails on every account it gets, and excludes each before the next attempt.\<close>

fun attempts :: "'s \<Rightarrow> int set \<Rightarrow> time list \<Rightarrow> 's \<times> addr list" where
  "attempts s ex [] = (s, [])"
| "attempts s ex (now # later) =
     (case acquire s ex now of
        Some (s', Some ad) \<Rightarrow>
          (let (s'', ads) = attempts s' (insert (DBID (heap_of s ad)) ex) later in (s'', ad # ads))
      | Some (s', None) \<Rightarrow> (s', [])
      | None \<Rightarrow> (s, []))"

lemma attempts_spec:
  "ok s \<Longrightarrow>
   ok (fst (attempts s ex clocks)) \<and> length (snd (attempts s ex clocks)) \<le> length clocks \<and>
   distinct (map (\<lambda>ad. DBID (heap_of s ad)) (snd (attempts s ex clocks))) \<and>
   (\<forall>ad \<in> set (snd (attempts s ex clocks)). DBID (heap_of s ad) \<notin> ex) \<and>
   (\<forall>x. ActiveRequests (heap_of (fst (attempts s ex clocks)) x) =
      ActiveRequests (heap_of s x) + (if x \<in> set (snd (attempts s ex clocks)) then 1 else 0))"
proof (induction clocks arbitrary: s ex)
  case Nil
  then show ?case by simp
next
  case (Cons now later)
  obtain s' r where a: "acquire s ex now = Some (s', r)" using returns [OF Cons.prems] by blast
  note k = kept [OF Cons.prems a] and i = ids [OF Cons.prems a] and c = counters [OF Cons.prems a]
  show ?case
  proof (cases r)
    case None
    with a k c show ?thesis by simp
  next
    case (Some ad)
    let ?ex = "insert (DBID (heap_of s ad)) ex"
    obtain s'' ads where at: "attempts s' ?ex later = (s'', ads)" by force
    have out: "attempts s ex (now # later) = (s'', ad # ads)" using a Some at by simp
    have "ok s''" "length ads \<le> length later" "distinct (map (\<lambda>ad. DBID (heap_of s ad)) ads)"
      "\<forall>x \<in> set ads. DBID (heap_of s x) \<notin> ?ex"
      "\<And>x. ActiveRequests (heap_of s'' x) = ActiveRequests (heap_of s' x) + (if x \<in> set ads then 1 else 0)"
      using Cons.IH [OF k, of ?ex] unfolding at i by auto
    with not_excluded [OF Cons.prems] a Some c show ?thesis unfolding out by auto
  qed
qed

end

section \<open>The slow path\<close>

lemma tierPriority_nonneg: "0 \<le> tierPriority t"
  by (cases t) simp_all

lemma IsAvailable_recompute [simp]:
  "IsAvailable (recomputeSchedulerLocked a b n) now = IsAvailable a now"
  by (simp add: IsAvailable_def)

text \<open>A candidate of the slow path and the key it is ranked by.\<close>

definition candidate :: "int \<Rightarrow> time \<Rightarrow> int set \<Rightarrow> account \<Rightarrow> bool" where
  "candidate maxConc now ex a \<longleftrightarrow>
     DBID a \<notin> ex \<and> IsAvailable a now \<and>
     DynamicConcurrencyLimit (recomputeSchedulerLocked a maxConc now) > 0 \<and>
     ActiveRequests a < DynamicConcurrencyLimit (recomputeSchedulerLocked a maxConc now)"

definition rank :: "int \<Rightarrow> time \<Rightarrow> account \<Rightarrow> int \<times> float64 \<times> int" where
  "rank maxConc now a =
     (tierPriority (HealthTier (recomputeSchedulerLocked a maxConc now)),
      DispatchScore (recomputeSchedulerLocked a maxConc now), - ActiveRequests a)"

definition pick_rank :: "pick \<Rightarrow> int \<times> float64 \<times> int" where
  "pick_rank p = (pk_priority p, pk_score p, - pk_load p)"

lemma better_rank:
  "better p pr sc ld c \<Longrightarrow> pick_rank p \<le> (pr, sc, - ld)"
  "\<not> better p pr sc ld c \<Longrightarrow> (pr, sc, - ld) \<le> pick_rank p"
  by (auto simp: better_def pick_rank_def less_eq_prod_def)

lemma slow_scan_Cons:
  "slow_scan maxConc now ex h p ((ad, coin) # ads) =
     (if \<not> (DBID (h ad) \<notin> ex \<and> IsAvailable (h ad) now) then slow_scan maxConc now ex h p ads
      else
        let a = recomputeSchedulerLocked (h ad) maxConc now;
            q = \<lparr>pk_best = Some ad, pk_priority = tierPriority (HealthTier a),
                 pk_score = DispatchScore a, pk_load = ActiveRequests (h ad)\<rparr>
        in slow_scan maxConc now ex (h(ad := a))
             (if candidate maxConc now ex (h ad)
                 \<and> better p (pk_priority q) (pk_score q) (pk_load q) coin then q else p) ads)"
  by (simp add: schedulerSnapshot_def candidate_def Let_def)

definition recomputed :: "int \<Rightarrow> time \<Rightarrow> heap \<Rightarrow> heap \<Rightarrow> bool" where
  "recomputed maxConc now h h' \<longleftrightarrow>
     (\<forall>ad. h' ad = h ad \<or> h' ad = recomputeSchedulerLocked (h ad) maxConc now)"

lemma recomputed_cong:
  assumes "recomputed maxConc now h h'"
  shows "candidate maxConc now ex (h' ad) = candidate maxConc now ex (h ad)"
    "rank maxConc now (h' ad) = rank maxConc now (h ad)"
    "DBID (h' ad) = DBID (h ad)" "ActiveRequests (h' ad) = ActiveRequests (h ad)"
    "TotalRequests (h' ad) = TotalRequests (h ad)"
proof -
  have "h' ad = h ad \<or> h' ad = recomputeSchedulerLocked (h ad) maxConc now"
    using assms by (simp add: recomputed_def)
  then show "candidate maxConc now ex (h' ad) = candidate maxConc now ex (h ad)"
    "rank maxConc now (h' ad) = rank maxConc now (h ad)"
    "DBID (h' ad) = DBID (h ad)" "ActiveRequests (h' ad) = ActiveRequests (h ad)"
    "TotalRequests (h' ad) = TotalRequests (h ad)"
    by (elim disjE; simp add: candidate_def rank_def)+
qed

lemma recomputed_trans:
  "recomputed m n h h' \<Longrightarrow> recomputed m n h' h'' \<Longrightarrow> recomputed m n h h''"
  unfolding recomputed_def by (metis recompute_idem)

lemma slow_scan_spec:
  assumes "slow_scan maxConc now ex h p xs = (h', p')"
  shows "recomputed maxConc now h h' \<and> pick_rank p \<le> pick_rank p' \<and>
    (\<forall>ad \<in> fst ` set xs. candidate maxConc now ex (h ad) \<longrightarrow> rank maxConc now (h ad) \<le> pick_rank p') \<and>
    (p' = p \<or> (\<exists>ad \<in> fst ` set xs. candidate maxConc now ex (h ad) \<and> pk_best p' = Some ad \<and>
       pick_rank p' = rank maxConc now (h ad)))"
  using assms
proof (induction xs arbitrary: h p)
  case Nil
  then show ?case by (simp add: recomputed_def)
next
  case (Cons x xs)
  obtain ad coin where x: "x = (ad, coin)" by force
  show ?case
  proof (cases "DBID (h ad) \<notin> ex \<and> IsAvailable (h ad) now")
    case False
    then have "slow_scan maxConc now ex h p xs = (h', p')"
      using Cons.prems x by (simp add: slow_scan_Cons del: slow_scan.simps)
    from Cons.IH [OF this] False show ?thesis by (auto simp: x candidate_def)
  next
    case True
    let ?a = "recomputeSchedulerLocked (h ad) maxConc now"
    let ?q = "\<lparr>pk_best = Some ad, pk_priority = tierPriority (HealthTier ?a),
      pk_score = DispatchScore ?a, pk_load = ActiveRequests (h ad)\<rparr>"
    let ?take = "candidate maxConc now ex (h ad) \<and> better p (pk_priority ?q) (pk_score ?q) (pk_load ?q) coin"
    define p1 where "p1 = (if ?take then ?q else p)"
    have "slow_scan maxConc now ex (h(ad := ?a)) p1 xs = (h', p')"
      using Cons.prems True by (simp add: x slow_scan_Cons p1_def Let_def del: slow_scan.simps)
    note IH = Cons.IH [OF this]
    have r1: "recomputed maxConc now h (h(ad := ?a))" by (simp add: recomputed_def)
    note c = recomputed_cong [OF r1]
    have q: "pick_rank ?q = rank maxConc now (h ad)" by (simp add: pick_rank_def rank_def)
    have pq: "pick_rank p \<le> pick_rank p1"
      using better_rank(1) [of p "pk_priority ?q" "pk_score ?q" "pk_load ?q" coin]
      by (auto simp: p1_def pick_rank_def)
    have cq: "rank maxConc now (h ad) \<le> pick_rank p1" if "candidate maxConc now ex (h ad)"
    proof (cases "better p (pk_priority ?q) (pk_score ?q) (pk_load ?q) coin")
      case True
      with that have "p1 = ?q" by (simp add: p1_def)
      then show ?thesis unfolding q [symmetric] by simp
    next
      case False
      then have "p1 = p" by (simp add: p1_def)
      then show ?thesis using better_rank(2) [OF False] by (simp only: rank_def pick.select_convs)
    qed
    have p1: "p1 = p \<or> (candidate maxConc now ex (h ad) \<and> pk_best p1 = Some ad \<and> pick_rank p1 = rank maxConc now (h ad))"
      using q by (simp add: p1_def)
    have "recomputed maxConc now h h'" using IH recomputed_trans [OF r1] by blast
    with IH pq cq p1 show ?thesis
      unfolding c x by (auto intro: order_trans)
  qed
qed

section \<open>The contract holds\<close>

lemma NextExcluding_fast:
  "getFastScheduler s = Some fs \<Longrightarrow> AcquireExcluding (st_heap s) fs ex now = Some (h, fs', r) \<Longrightarrow>
   NextExcluding coin s ex now = Some (s\<lparr>st_heap := h, fastScheduler := Some fs'\<rparr>, r)"
  by (simp add: NextExcluding_def)

text \<open>The whole effect of \<open>NextExcluding\<close> on a store with the invariant.\<close>

lemma acquire_None_spec:
  assumes inv: "fs_inv h fs" and a: "AcquireExcluding h fs ex now = Some (h', fs', None)"
  shows "touched (fs_baseLimit fs) now h h' \<and> (\<forall>x. has_entry fs' x \<longrightarrow> has_entry fs x)"
proof -
  obtain h1 fs1 h2 fs2 q where
    o: "touched (fs_baseLimit fs) now h h1" "fs_inv h1 fs1" "fs_baseLimit fs1 = fs_baseLimit fs"
      "\<And>ad. has_entry fs1 ad \<Longrightarrow> has_entry fs ad" "pass h1 fs1 ex now = (h2, fs2, q)" "q \<noteq> Stale"
      "AcquireExcluding h fs ex now
         = Some (h2, fs2, case q of Acquired ad \<Rightarrow> Some ad | _ \<Rightarrow> None)"
    using acquire_last_pass [OF inv, where now = now and ex = ex] by metis
  then have q: "q = Exhausted" "h2 = h'" "fs2 = fs'" using a by (cases q; simp)+
  note d = pass_ok_ExhaustedD [OF pass_spec [OF o(2), of now ex, unfolded o(5) q]]
  have "has_entry fs' x \<longleftrightarrow> has_entry fs1 x" for x
    using same_sched_fields(2) [OF d(2)] by (simp add: has_entry_def)
  with o(4) touched_trans [OF o(1)] d(1) o(3) show ?thesis by simp
qed

lemma acquire_Some_entries:
  assumes inv: "fs_inv h fs" and a: "AcquireExcluding h fs ex now = Some (h', fs', Some ad)"
  shows "(\<forall>x. has_entry fs' x \<longrightarrow> has_entry fs x) \<and> has_entry fs' ad \<and>
    (\<forall>x. DBID (h' x) = DBID (h x))"
proof -
  obtain h1 fs1 h2 fs2 q where
    o: "touched (fs_baseLimit fs) now h h1" "fs_inv h1 fs1"
      "\<And>ad. has_entry fs1 ad \<Longrightarrow> has_entry fs ad" "pass h1 fs1 ex now = (h2, fs2, q)" "q \<noteq> Stale"
      "AcquireExcluding h fs ex now
         = Some (h2, fs2, case q of Acquired ad \<Rightarrow> Some ad | _ \<Rightarrow> None)"
    using acquire_last_pass [OF inv, where now = now and ex = ex] by metis
  then have q: "q = Acquired ad" "h2 = h'" "fs2 = fs'" using a by (cases q; simp)+
  have "same_sched fs1 fs'"
    using pass_spec [OF o(2), of now ex, unfolded o(4) q] unfolding pass_ok_def by auto
  then have "has_entry fs' x \<longleftrightarrow> has_entry fs1 x" for x
    by (simp add: has_entry_def same_sched_fields)
  moreover obtain h3 t e where "touched (fs_baseLimit fs) now h h3" "e \<in> set (fs_buckets fs' t)"
    "e_acc e = ad" "can_take h (fs_baseLimit fs) now e" "h' = h3(ad := taken (h ad) (fs_baseLimit fs) now)"
    using acquire_SomeD [OF inv a] by metis
  moreover from calculation have "has_entry fs' ad" unfolding has_entry_def by blast
  ultimately show ?thesis using o(3) by (auto simp: taken_counts touched_frame)
qed

lemma NextExcluding_spec:
  assumes inv: "store_inv s"
  shows "\<exists>s' r. NextExcluding coin s ex now = Some (s', r) \<and> store_inv s' \<and>
    (\<forall>x. DBID (st_heap s' x) = DBID (st_heap s x) \<and>
       ActiveRequests (st_heap s' x) = ActiveRequests (st_heap s x) + (if r = Some x then 1 else 0)) \<and>
    accounts s' = accounts s \<and> accountIndex s' = accountIndex s \<and>
    (\<forall>ad. r = Some ad \<longrightarrow> DBID (st_heap s ad) \<notin> ex \<and> ad \<in> set (accounts s))"
proof (cases "getFastScheduler s")
  case (Some fs)
  note finv = store_invD(3) [OF inv Some]
  obtain h' fs' r where a: "AcquireExcluding (st_heap s) fs ex now = Some (h', fs', r)"
    by (rule acquire_returns [OF finv])
  let ?s = "s\<lparr>st_heap := h', fastScheduler := Some fs'\<rparr>"
  have en: "fastSchedulerEnabled s" using Some by (simp add: getFastScheduler_def split: if_splits)
  have ids: "\<forall>x. DBID (h' x) = DBID (st_heap s x)"
    and act: "\<forall>x. ActiveRequests (h' x) = ActiveRequests (st_heap s x) + (if r = Some x then 1 else 0)"
    and ent: "\<forall>x. has_entry fs' x \<longrightarrow> has_entry fs x"
    and good: "\<forall>ad. r = Some ad \<longrightarrow> DBID (st_heap s ad) \<notin> ex \<and> has_entry fs ad"
    using a acquire_None_spec [OF finv, of ex now h' fs'] acquire_effect [OF finv, of ex now h' fs']
      acquire_Some_entries [OF finv, of ex now h' fs'] touched_frame
    by (cases r; auto)+
  have "store_inv ?s"
    using inv en acquire_inv [OF finv a] ids ent store_invD(4) [OF inv Some]
    unfolding store_inv_def by (simp add: getFastScheduler_def)
  then show ?thesis
    using NextExcluding_fast [OF Some a] ids act good store_invD(4) [OF inv Some] by auto
next
  case None
  let ?xs = "zip (accounts s) (map coin [0..<length (accounts s)])"
  obtain h p where sc: "slow_scan (maxConcurrency s) now ex (st_heap s) no_pick ?xs = (h, p)" by force
  have fst: "fst ` set ?xs = set (accounts s)" by (simp add: set_map [symmetric] del: set_map)
  note sp = slow_scan_spec [OF sc, unfolded fst]
  note c = recomputed_cong [OF sp [THEN conjunct1]]
  have gfs: "getFastScheduler (s\<lparr>st_heap := k\<rparr>) = None" for k
    using None by (auto simp: getFastScheduler_def split: if_splits)
  show ?thesis
  proof (cases "pk_best p")
    case b: None
    have "NextExcluding coin s ex now = Some (s\<lparr>st_heap := h\<rparr>, None)"
      using None sc b by (simp add: NextExcluding_def)
    moreover have "store_inv (s\<lparr>st_heap := h\<rparr>)" by (rule store_inv_heap [OF inv]) (simp_all add: c None gfs)
    ultimately show ?thesis by (simp add: c)
  next
    case (Some best)
    let ?s = "s\<lparr>st_heap := h(best := slow_take (h best) now)\<rparr>"
    have "NextExcluding coin s ex now = Some (?s, Some best)"
      using None sc Some by (simp add: NextExcluding_def)
    moreover have "store_inv ?s"
      by (rule store_inv_heap [OF inv]) (simp_all add: c None gfs slow_take_def)
    moreover have "p \<noteq> no_pick" using Some by (auto simp: no_pick_def)
    then have "best \<in> set (accounts s)" "DBID (st_heap s best) \<notin> ex"
      using sp Some by (auto simp: candidate_def)
    ultimately show ?thesis by (simp add: c slow_take_def)
  qed
qed

interpretation pool: acquirer st_heap store_inv "NextExcluding coin" for coin
proof
  fix s s' r ex now x ad
  assume inv: "store_inv s"
  note sp = NextExcluding_spec [OF inv, of coin ex now]
  show "\<exists>s' r. NextExcluding coin s ex now = Some (s', r)" using sp by blast
  show "NextExcluding coin s ex now = Some (s', Some ad) \<Longrightarrow> DBID (st_heap s ad) \<notin> ex" using sp by auto
  show "NextExcluding coin s ex now = Some (s', r) \<Longrightarrow>
      ActiveRequests (st_heap s' x) = ActiveRequests (st_heap s x) + (if r = Some x then 1 else 0)"
    using sp by auto
  show "NextExcluding coin s ex now = Some (s', r) \<Longrightarrow> DBID (st_heap s' x) = DBID (st_heap s x)"
    using sp by auto
  show "NextExcluding coin s ex now = Some (s', r) \<Longrightarrow> store_inv s'" using sp by auto
qed

section \<open>Session affinity\<close>

lemma store_inv_bindings [simp]: "store_inv (s\<lparr>sessionBindings := b\<rparr>) = store_inv s"
  by (simp add: store_inv_def)


text \<open>The three outcomes of \<open>takeByIDExcluding\<close>: nothing, a snapshot, an acquired account.\<close>

lemma takeByID_cases:
  obtains "takeByIDExcluding s k ex now = (s, None)"
  | ad where "takeByIDExcluding s k ex now =
        (set_account ad (snapped (st_heap s ad) (maxConcurrency s) now) s, None)"
  | ad where "takeByIDExcluding s k ex now =
        (set_account ad (taken (st_heap s ad) (maxConcurrency s) now)
           (set_account ad (snapped (st_heap s ad) (maxConcurrency s) now) s), Some ad)"
      "accountIndex s k = Some ad" "k \<notin> ex" "k \<noteq> 0"
      "ActiveRequests (st_heap s ad) < sn_limit (snap (st_heap s ad) (maxConcurrency s) now)"
      "sn_limit (snap (st_heap s ad) (maxConcurrency s) now) > 0" "IsAvailable (st_heap s ad) now"
proof (cases "k = 0 \<or> k \<in> ex \<or> accountIndex s k = None")
  case True
  then have "takeByIDExcluding s k ex now = (s, None)"
    by (auto simp: takeByIDExcluding_def split: option.split)
  then show thesis by (rule that(1))
next
  case False
  then obtain ad where ad: "accountIndex s k = Some ad" "k \<noteq> 0" "k \<notin> ex" by auto
  let ?a = "snapped (st_heap s ad) (maxConcurrency s) now"
  let ?sn = "snap (st_heap s ad) (maxConcurrency s) now"
  have eq: "takeByIDExcluding s k ex now =
      (if \<not> IsAvailable (st_heap s ad) now then (s, None)
       else if \<not> sn_available ?sn \<or> sn_limit ?sn \<le> 0 \<or> sn_limit ?sn \<le> ActiveRequests (st_heap s ad)
       then (set_account ad ?a s, None)
       else (set_account ad (taken (st_heap s ad) (maxConcurrency s) now) (set_account ad ?a s), Some ad))"
  proof -
    obtain a sn where sp: "fastSchedulerSnapshot (st_heap s ad) (maxConcurrency s) now = (a, sn)"
      by force
    have "ActiveRequests a = ActiveRequests (st_heap s ad)"
      using snapped_frame(2) [of "st_heap s ad" "maxConcurrency s" now] sp by simp
    with ad sp show ?thesis
      by (simp add: takeByIDExcluding_def tryAcquireAccount_def taken_def Let_def not_le)
  qed
  consider "\<not> IsAvailable (st_heap s ad) now"
    | "IsAvailable (st_heap s ad) now"
      "\<not> sn_available ?sn \<or> sn_limit ?sn \<le> 0 \<or> sn_limit ?sn \<le> ActiveRequests (st_heap s ad)"
    | "IsAvailable (st_heap s ad) now"
      "\<not> (\<not> sn_available ?sn \<or> sn_limit ?sn \<le> 0 \<or> sn_limit ?sn \<le> ActiveRequests (st_heap s ad))"
    by blast
  then show thesis
  proof cases
    case 1
    show thesis by (rule that(1)) (simp only: eq if_P [OF 1])
  next
    case 2
    show thesis by (rule that(2) [of ad]) (simp only: eq 2 not_True_eq_False if_False if_True)
  next
    case 3
    then have "ActiveRequests (st_heap s ad) < sn_limit ?sn" "0 < sn_limit ?sn" by auto
    then show thesis
      by (intro that(3) [of ad] ad 3) (simp only: eq 3 not_True_eq_False if_False)
  qed
qed

lemma taken_frame [simp]: "DBID (taken a b n) = DBID a"
  by (simp add: taken_def tryAcquireAccount_def)

lemma takeByID_spec:
  assumes inv: "store_inv s" and t: "takeByIDExcluding s k ex now = (s', r)"
  shows "store_inv s' \<and>
    (\<forall>x. DBID (st_heap s' x) = DBID (st_heap s x) \<and>
       ActiveRequests (st_heap s' x) = ActiveRequests (st_heap s x) + (if r = Some x then 1 else 0)) \<and>
    accounts s' = accounts s \<and> accountIndex s' = accountIndex s \<and> sessionBindings s' = sessionBindings s \<and>
    (\<forall>ad. r = Some ad \<longrightarrow> DBID (st_heap s ad) \<notin> ex \<and> ad \<in> set (accounts s))"
proof (rule takeByID_cases [of s k ex now])
  assume "takeByIDExcluding s k ex now = (s, None)"
  with inv t show ?thesis by simp
next
  fix ad
  assume "takeByIDExcluding s k ex now =
    (set_account ad (snapped (st_heap s ad) (maxConcurrency s) now) s, None)"
  with inv t show ?thesis by (auto intro: store_inv_set_account)
next
  fix ad
  let ?a = "taken (st_heap s ad) (maxConcurrency s) now"
  assume e: "takeByIDExcluding s k ex now =
      (set_account ad ?a (set_account ad (snapped (st_heap s ad) (maxConcurrency s) now) s), Some ad)"
    and i: "accountIndex s k = Some ad" "k \<notin> ex"
    and l: "ActiveRequests (st_heap s ad) < sn_limit (snap (st_heap s ad) (maxConcurrency s) now)"
      "sn_limit (snap (st_heap s ad) (maxConcurrency s) now) > 0"
  have "ActiveRequests ?a = ActiveRequests (st_heap s ad) + 1"
    using l by (simp add: taken_def tryAcquireAccount_def)
  moreover have "ad \<in> set (accounts s) \<and> DBID (st_heap s ad) = k"
    using store_invD(2) [OF inv] i by blast
  ultimately show ?thesis
    using e t inv i by (auto intro!: store_inv_set_account)
qed

lemma NextForSession_eqs:
  "trim_space key = '''' \<or> sessionBindings s (trim_space key) = None \<Longrightarrow>
   NextForSession coin s key ex now =
     map_option (\<lambda>(s, r). (s, r, '''')) (NextExcluding coin s ex now)"
  "trim_space key \<noteq> '''' \<Longrightarrow> sessionBindings s (trim_space key) = Some b \<Longrightarrow> \<not> sa_expiresAt b > now \<Longrightarrow>
   NextForSession coin s key ex now =
     map_option (\<lambda>(s, r). (s, r, '''')) (NextExcluding coin
       (s\<lparr>sessionBindings := (sessionBindings s)(trim_space key := None)\<rparr>) ex now)"
  "trim_space key \<noteq> '''' \<Longrightarrow> sessionBindings s (trim_space key) = Some b \<Longrightarrow> sa_expiresAt b > now \<Longrightarrow>
   takeByIDExcluding s (sa_accountID b) ex now = (s1, Some ad) \<Longrightarrow>
   NextForSession coin s key ex now = Some (s1, Some ad, sa_proxyURL b)"
  "trim_space key \<noteq> '''' \<Longrightarrow> sessionBindings s (trim_space key) = Some b \<Longrightarrow> sa_expiresAt b > now \<Longrightarrow>
   takeByIDExcluding s (sa_accountID b) ex now = (s1, None) \<Longrightarrow>
   NextForSession coin s key ex now =
     map_option (\<lambda>(s, r). (s, r, '''')) (NextExcluding coin s1 ex now)"
  by (auto simp: NextForSession_def Let_def)

lemma NextForSession_spec:
  assumes inv: "store_inv s"
  shows "\<exists>s' r p. NextForSession coin s key ex now = Some (s', r, p) \<and> store_inv s' \<and>
    (\<forall>x. DBID (st_heap s' x) = DBID (st_heap s x) \<and>
       ActiveRequests (st_heap s' x) = ActiveRequests (st_heap s x) + (if r = Some x then 1 else 0)) \<and>
    accounts s' = accounts s \<and> accountIndex s' = accountIndex s \<and>
    (\<forall>ad. r = Some ad \<longrightarrow> DBID (st_heap s ad) \<notin> ex \<and> ad \<in> set (accounts s))"
proof (cases "trim_space key = '''' \<or> sessionBindings s (trim_space key) = None")
  case True
  show ?thesis
    unfolding NextForSession_eqs(1) [OF True]
    using NextExcluding_spec [OF inv, of coin ex now] by fastforce
next
  case False
  then obtain b where b: "trim_space key \<noteq> ''''" "sessionBindings s (trim_space key) = Some b" by auto
  show ?thesis
  proof (cases "sa_expiresAt b > now")
    case False
    let ?s = "s\<lparr>sessionBindings := (sessionBindings s)(trim_space key := None)\<rparr>"
    have "store_inv ?s" using inv by simp
    from NextExcluding_spec [OF this, of coin ex now] show ?thesis
      unfolding NextForSession_eqs(2) [OF b False] by fastforce
  next
    case True
    obtain s1 r1 where t: "takeByIDExcluding s (sa_accountID b) ex now = (s1, r1)" by force
    note sp = takeByID_spec [OF inv t]
    show ?thesis
    proof (cases r1)
      case None
      from sp None have "store_inv s1" by simp
      from NextExcluding_spec [OF this, of coin ex now] sp None show ?thesis
        unfolding NextForSession_eqs(4) [OF b True t [unfolded None]] by fastforce
    next
      case (Some ad)
      with sp show ?thesis
        unfolding NextForSession_eqs(3) [OF b True t [unfolded Some]] by fastforce
    qed
  qed
qed

interpretation session: acquirer st_heap store_inv
  "\<lambda>s ex now. map_option (\<lambda>(s, r, p). (s, r)) (NextForSession coin s key ex now)" for coin key
proof
  fix s s' r ex now x ad
  assume inv: "store_inv s"
  let ?get = "map_option (\<lambda>(s, r, p). (s, r)) (NextForSession coin s key ex now)"
  note sp = NextForSession_spec [OF inv, of coin key ex now]
  show "\<exists>s' r. ?get = Some (s', r)" using sp by auto
  show "?get = Some (s', Some ad) \<Longrightarrow> DBID (st_heap s ad) \<notin> ex" using sp by auto
  show "?get = Some (s', r) \<Longrightarrow>
      ActiveRequests (st_heap s' x) = ActiveRequests (st_heap s x) + (if r = Some x then 1 else 0)"
    using sp by auto
  show "?get = Some (s', r) \<Longrightarrow> DBID (st_heap s' x) = DBID (st_heap s x)" using sp by auto
  show "?get = Some (s', r) \<Longrightarrow> store_inv s'" using sp by auto
qed

section \<open>A store to run the operations on\<close>

definition demo_env :: "bool \<Rightarrow> string \<Rightarrow> string" where
  "demo_env fast key = (if key = ''FAST_SCHEDULER_ENABLED'' \<and> \<not> fast then ''off'' else '''')"

definition demo_store :: "bool \<Rightarrow> Store" where
  "demo_store fast =
     AddAccount (AddAccount (AddAccount (NewStore (demo_env fast) None True (NewMemory 1) None demo_heap)
       1 100) 2 100) 3 100"

lemma store_inv_NewStore [simp]: "store_inv (NewStore env ps db tc st h)"
proof -
  have "\<not> has_entry (NewFastScheduler n) ad" for n ad
    by (simp add: has_entry_def NewFastScheduler_def)
  then show ?thesis
    by (auto simp: store_inv_def NewStore_def getFastScheduler_def Let_def split: option.splits)
qed

lemma AddAccount_accounts [simp]:
  "accounts (AddAccount s ad now) = accounts s @ [ad]"
  by (simp add: AddAccount_def Let_def)

lemma AddAccount_ids [simp]: "DBID (st_heap (AddAccount s ad now) x) = DBID (st_heap s x)"
  by (simp add: AddAccount_def Let_def)

lemma NewStore_simps [simp]:
  "st_heap (NewStore env ps db tc st h) = h" "accounts (NewStore env ps db tc st h) = []"
  by (simp_all add: NewStore_def Let_def)

lemma demo_store_simps [simp]:
  "accounts (demo_store fast) = [1, 2, 3]" "DBID (st_heap (demo_store fast) x) = int x"
  by (simp_all add: demo_store_def)

lemma demo_store_inv [simp]: "store_inv (demo_store fast)"
  unfolding demo_store_def by (intro store_inv_AddAccount store_inv_NewStore) auto

section \<open>Every operation keeps the invariant\<close>

lemma fill_buckets_subset:
  "e \<in> set (snd (fill_buckets base now h bs ads) t) \<Longrightarrow> e \<in> set (bs t) \<or> e_acc e \<in> set ads"
proof (induction ads arbitrary: h bs)
  case Nil
  then show ?case by simp
next
  case (Cons ad ads)
  from Cons.IH [OF Cons.prems [unfolded fill_buckets_step]] show ?case
    by (auto simp: make_entry_def split: if_splits)
qed

lemma finish_all_set:
  "set (fs_buckets (foldl finish_bucket fs fastSchedulerTierOrder) t) = set (fs_buckets fs t)"
  by (simp add: fastSchedulerTierOrder_def finish_bucket_set)

lemma Rebuild_has_entry:
  assumes "has_entry (snd (Rebuild h fs ads now)) ad"
  shows "ad \<in> set ads"
  using assms fill_buckets_subset [of _ "fs_baseLimit fs" now h "\<lambda>_. []" ads]
  by (auto simp: has_entry_def Rebuild_eq finish_all_set)

lemma store_inv_rebuild [inv_intros]:
  assumes inv: "store_inv s"
  shows "store_inv (rebuildFastScheduler s now)"
proof (cases "fastSchedulerEnabled s")
  case False
  with inv show ?thesis by (simp add: rebuildFastScheduler_def)
next
  case True
  let ?r = "BuildFastScheduler s now"
  have s': "rebuildFastScheduler s now = s\<lparr>st_heap := fst ?r, fastScheduler := Some (snd ?r)\<rparr>"
    using True by (simp add: rebuildFastScheduler_def split: prod.split)
  have ids: "DBID (fst ?r x) = DBID (st_heap s x)" for x
    unfolding BuildFastScheduler_def by (simp add: touched_frame [OF Rebuild_touched])
  have "fs_inv (fst ?r) (snd ?r)"
    unfolding BuildFastScheduler_def by (rule fs_inv_Rebuild [OF store_invD(1) [OF inv]])
  moreover have "has_entry (snd ?r) x \<Longrightarrow> x \<in> set (accounts s)" for x
    unfolding BuildFastScheduler_def by (rule Rebuild_has_entry)
  ultimately show ?thesis
    using inv True unfolding s' store_inv_def by (simp add: ids getFastScheduler_def)
qed

lemma foldl_recompute:
  "\<exists>f. \<forall>x. foldl (\<lambda>h ad. h(ad := recomputeSchedulerLocked (h ad) b n)) h ads x = f x (h x) \<and>
     DBID (f x (h x)) = DBID (h x)"
proof (induction ads arbitrary: h)
  case Nil
  show ?case by (rule exI [of _ "\<lambda>_ a. a"]) simp
next
  case (Cons ad ads)
  let ?h = "h(ad := recomputeSchedulerLocked (h ad) b n)"
  obtain f where f: "foldl (\<lambda>h ad. h(ad := recomputeSchedulerLocked (h ad) b n)) ?h ads x = f x (?h x)"
    "DBID (f x (?h x)) = DBID (?h x)" for x using Cons.IH [of ?h] by blast
  show ?case
    by (rule exI [of _ "\<lambda>x a. f x (?h x)"]) (use f in \<open>simp add: fun_upd_def\<close>)
qed

lemma recomputeAll_ids [simp]:
  "DBID (st_heap (recomputeAllAccountSchedulerState s now) x) = DBID (st_heap s x)"
  using foldl_recompute [of "maxConcurrency s" now "st_heap s" "accounts s"]
  by (auto simp: recomputeAllAccountSchedulerState_def)

lemma store_inv_recomputeAll [inv_intros]:
  assumes "store_inv s"
  shows "store_inv (recomputeAllAccountSchedulerState s now)"
  by (rule store_inv_heap [OF assms])
     (simp_all, simp_all add: recomputeAllAccountSchedulerState_def getFastScheduler_def)

lemma store_inv_flags [simp]: "store_inv (s\<lparr>maxConcurrency := n\<rparr>) = store_inv s"
  by (simp add: store_inv_def getFastScheduler_def)

lemma store_inv_SetMaxConcurrency [inv_intros]: "store_inv s \<Longrightarrow> store_inv (SetMaxConcurrency s n now)"
  unfolding SetMaxConcurrency_def by (intro inv_intros) simp

lemma store_inv_SetFastSchedulerEnabled [inv_intros]:
  assumes inv: "store_inv s" and off: "\<not> fastSchedulerEnabled s \<Longrightarrow> fastScheduler s = None"
  shows "store_inv (SetFastSchedulerEnabled s enabled now)"
proof (cases enabled)
  case True
  have "store_inv (s\<lparr>fastSchedulerEnabled := True\<rparr>)"
    using inv off by (cases "fastSchedulerEnabled s") (simp_all add: store_inv_def getFastScheduler_def)
  with True show ?thesis unfolding SetFastSchedulerEnabled_def Let_def by (simp add: inv_intros)
next
  case False
  with inv show ?thesis by (simp add: SetFastSchedulerEnabled_def store_inv_def getFastScheduler_def)
qed

lemma SetCooldownUntil_id [simp]: "DBID (SetCooldownUntil a u r) = DBID a"
  by (simp add: SetCooldownUntil_def Let_def)

lemma mark_cooldown_id [simp]: "DBID (fst (mark_cooldown_locked a b n d r)) = DBID a"
  by (simp add: mark_cooldown_locked_def Let_def)

lemma report_ids [simp]:
  "DBID (report_success_locked a b n l) = DBID a"
  "DBID (clear_cooldown_locked a b n) = DBID a"
  "DBID (mark_premium5h_locked a b n t) = DBID a"
  by (simp_all add: report_success_locked_def clear_cooldown_locked_def mark_premium5h_locked_def
      recordLatencyLocked_def recordResultLocked_def Let_def)

lemma report_failure_id [simp]: "DBID (report_failure_locked a b n k l) = DBID a"
  by (simp add: report_failure_locked_def recordLatencyLocked_def recordResultLocked_def Let_def)

lemma usage_ids [simp]: "DBID (SetUsageSnapshot a p t) = DBID a"
  by (simp add: SetUsageSnapshot_def)

lemma store_inv_publish [inv_intros]:
  assumes "store_inv s" "ad \<in> set (accounts s)" "DBID a = DBID (st_heap s ad)"
  shows "store_inv (fastSchedulerUpdate ad now (set_account ad a s))"
  by (rule store_inv_update) (use assms in \<open>simp_all add: store_inv_set_account\<close>)

lemma store_inv_reports [inv_intros]:
  assumes "store_inv s" "ad \<in> set (accounts s)"
  shows "store_inv (ReportRequestSuccess s ad latency now)"
    and "store_inv (ReportRequestFailure s ad kind latency now)"
    and "store_inv (ClearCooldown s ad now)"
    and "store_inv (MarkPremium5hRateLimited s ad resetAt now)"
    and "store_inv (PersistUsageSnapshot s ad pct now)"
    and "store_inv (PersistUsageSnapshot5hOnly s ad now)"
    and "store_inv (fst (SyncAccountPlanType s ad plan now))"
  using assms
  by (simp_all add: ReportRequestSuccess_def ReportRequestFailure_def ClearCooldown_def
      MarkPremium5hRateLimited_def PersistUsageSnapshot_def PersistUsageSnapshot5hOnly_def
      SyncAccountPlanType_def Let_def store_inv_publish)

lemma store_inv_MarkCooldown [inv_intros]:
  assumes "store_inv s" "ad \<in> set (accounts s)"
  shows "store_inv (MarkCooldown s ad d reason now)"
proof -
  define a where "a = fst (mark_cooldown_locked (st_heap s ad) (maxConcurrency s) now d reason)"
  define u where "u = now + snd (mark_cooldown_locked (st_heap s ad) (maxConcurrency s) now d reason)"
  define s1 where "s1 = fastSchedulerUpdate ad now (set_account ad (SetCooldownUntil a u reason) s)"
  have "store_inv s1" unfolding s1_def by (rule store_inv_publish) (use assms in \<open>simp_all add: a_def\<close>)
  moreover from this have "store_inv (set_account ad ((st_heap s1 ad)\<lparr>Locked := 0\<rparr>) s1)"
    by (rule store_inv_set_account) simp
  ultimately show ?thesis
    unfolding MarkCooldown_def case_prod_beta Let_def a_def [symmetric] u_def [symmetric] s1_def [symmetric]
    by simp
qed

end
