(* ===== verification/StoreProps.thy ===== *)
theory StoreProps
  imports StoreLaws
begin

text \<open>
  The properties of the account pool: the choice of an account, session affinity, waiting, removal
  and the clean-up sweeps.
\<close>

section \<open>Choice\<close>

text \<open>
  C13. The slow path hands out a best account: among the accounts that are not excluded,
  available and below their limit it picks one with the highest tier, among those the highest
  dispatch score, among those the fewest active requests (ties by a coin). It answers nil only if
  there is no such account. The fast path ranks by tier and request count first and takes the
  scores in round-robin order, so this order holds for the slow path only.
\<close>

theorem slow_path_picks_best:
  assumes "getFastScheduler s = None"
  shows "\<exists>s' r. NextExcluding coin s ex now = Some (s', r) \<and>
    (case r of
       None \<Rightarrow> \<forall>ad \<in> set (accounts s). \<not> candidate (maxConcurrency s) now ex (st_heap s ad)
     | Some best \<Rightarrow> best \<in> set (accounts s) \<and> candidate (maxConcurrency s) now ex (st_heap s best) \<and>
         (\<forall>ad \<in> set (accounts s). candidate (maxConcurrency s) now ex (st_heap s ad) \<longrightarrow>
            rank (maxConcurrency s) now (st_heap s ad) \<le> rank (maxConcurrency s) now (st_heap s best)))"
proof -
  let ?xs = "zip (accounts s) (map coin [0..<length (accounts s)])"
  obtain h p where sc: "slow_scan (maxConcurrency s) now ex (st_heap s) no_pick ?xs = (h, p)" by force
  have fst: "fst ` set ?xs = set (accounts s)"
    by (simp add: set_map [symmetric] del: set_map)
  note sp = slow_scan_spec [OF sc, unfolded fst]
  have least: "\<not> rank (maxConcurrency s) now a \<le> pick_rank no_pick" for a
    using tierPriority_nonneg [of "HealthTier (recomputeSchedulerLocked a (maxConcurrency s) now)"]
    by (simp add: rank_def pick_rank_def no_pick_def less_eq_prod_def)
  show ?thesis
  proof (cases "pk_best p")
    case None
    with sp have "p = no_pick" by auto
    with sp least None show ?thesis
      using assms sc by (fastforce simp: NextExcluding_def)
  next
    case (Some best)
    then have "p \<noteq> no_pick" by (auto simp: no_pick_def)
    with sp Some show ?thesis using assms sc by (auto simp: NextExcluding_def)
  qed
qed

lemma slow_path_picks_best_witness:
  "\<exists>s' best. NextExcluding (\<lambda>_. False) (demo_store False) {3} 100 = Some (s', Some best) \<and>
     rank 2 100 (st_heap (demo_store False) 2) \<le> rank 2 100 (st_heap (demo_store False) best)"
proof -
  have off: "getFastScheduler (demo_store False) = None" by code_simp
  have c: "candidate 2 100 {3} (st_heap (demo_store False) 2)" by code_simp
  have m: "maxConcurrency (demo_store False) = 2" by code_simp
  from slow_path_picks_best [OF off, of "\<lambda>_. False" "{3}" 100, unfolded m] c
  show ?thesis by (fastforce split: option.splits)
qed

section \<open>Session affinity\<close>

lemma bind_simps [simp]:
  "st_heap (bindSessionAffinity s key ad proxyURL now) = st_heap s"
  "accountIndex (bindSessionAffinity s key ad proxyURL now) = accountIndex s"
  "maxConcurrency (bindSessionAffinity s key ad proxyURL now) = maxConcurrency s"
  "trim_space key \<noteq> '''' \<Longrightarrow>
   sessionBindings (bindSessionAffinity s key ad proxyURL now) (trim_space key) =
     Some \<lparr>sa_accountID = DBID (st_heap s ad), sa_proxyURL = trim_space proxyURL,
           sa_expiresAt = now + sessionAffinityTTL\<rparr>"
  by (simp_all add: bindSessionAffinity_def Let_def)

text \<open>
  C14. A session sticks to its account and proxy. Within 30 minutes of the binding the session gets
  the bound account again, with the bound proxy, as long as that account is available, below its
  limit and not excluded by the request, whatever better account the scheduler has; and it takes
  one slot of it.
\<close>

theorem session_sticks:
  assumes "trim_space key \<noteq> ''''" "later < now + sessionAffinityTTL"
    and "accountIndex s (DBID (st_heap s ad)) = Some ad" "DBID (st_heap s ad) \<noteq> 0"
    and "DBID (st_heap s ad) \<notin> ex" "IsAvailable (st_heap s ad) later"
    and "sn_available (snap (st_heap s ad) (maxConcurrency s) later)"
    and "0 \<le> ActiveRequests (st_heap s ad)"
    and "ActiveRequests (st_heap s ad) < sn_limit (snap (st_heap s ad) (maxConcurrency s) later)"
  shows "\<exists>s'. NextForSession coin (bindSessionAffinity s key ad proxyURL now) key ex later
      = Some (s', Some ad, trim_space proxyURL) \<and>
    ActiveRequests (st_heap s' ad) = ActiveRequests (st_heap s ad) + 1"
proof -
  let ?s = "bindSessionAffinity s key ad proxyURL now"
  obtain a sn where sp: "fastSchedulerSnapshot (st_heap s ad) (maxConcurrency s) later = (a, sn)" by force
  have act: "ActiveRequests a = ActiveRequests (st_heap s ad)"
    using snapped_frame(2) [of "st_heap s ad" "maxConcurrency s" later] sp by simp
  have "takeByIDExcluding ?s (DBID (st_heap s ad)) ex later =
      (set_account ad (taken (st_heap s ad) (maxConcurrency s) later) (set_account ad a ?s), Some ad)"
    using assms sp act by (simp add: takeByIDExcluding_def tryAcquireAccount_def taken_def Let_def)
  moreover have "ActiveRequests (taken (st_heap s ad) (maxConcurrency s) later)
      = ActiveRequests (st_heap s ad) + 1"
    using assms(8,9) sp act by (simp add: taken_def tryAcquireAccount_def)
  ultimately show ?thesis
    using NextForSession_eqs(3) [where s = ?s and key = key and ex = ex and now = later] assms(1,2)
    by simp
qed

lemma session_sticks_witness:
  "\<exists>s'. NextForSession (\<lambda>_. False) (bindSessionAffinity (demo_store True) '' k '' 1 ''p'' 100) '' k '' {} 200
      = Some (s', Some 1, trim_space ''p'') \<and>
    ActiveRequests (st_heap s' 1) = ActiveRequests (st_heap (demo_store True) 1) + 1"
proof (rule session_sticks)
  show "trim_space '' k '' \<noteq> ''''" by code_simp
  show "accountIndex (demo_store True) (DBID (st_heap (demo_store True) 1)) = Some 1" by code_simp
  show "IsAvailable (st_heap (demo_store True) 1) 200" by code_simp
  show "sn_available (snap (st_heap (demo_store True) 1) (maxConcurrency (demo_store True)) 200)"
    by code_simp
  show "0 \<le> ActiveRequests (st_heap (demo_store True) 1)" by code_simp
  show "ActiveRequests (st_heap (demo_store True) 1)
    < sn_limit (snap (st_heap (demo_store True) 1) (maxConcurrency (demo_store True)) 200)"
    by code_simp
qed simp_all

lemma NextExcluding_bindings:
  "NextExcluding coin s ex now = Some (s', r) \<Longrightarrow> sessionBindings s' = sessionBindings s"
  by (auto simp: NextExcluding_def split: option.splits prod.splits)

text \<open>
  A binding does not outlive its 30 minutes: the next request of the session is served as an
  unbound one (no sticky proxy), and the stale binding is gone.
\<close>

theorem session_expires:
  assumes "trim_space key \<noteq> ''''" "now + sessionAffinityTTL \<le> later"
    and "NextForSession coin (bindSessionAffinity s key ad proxyURL now) key ex later = Some (s', r, p)"
  shows "p = '''' \<and> sessionBindings s' (trim_space key) = None"
proof -
  let ?s = "bindSessionAffinity s key ad proxyURL now"
  let ?b = "\<lparr>sa_accountID = DBID (st_heap s ad), sa_proxyURL = trim_space proxyURL,
      sa_expiresAt = now + sessionAffinityTTL\<rparr>"
  have "NextForSession coin ?s key ex later = map_option (\<lambda>(s, r). (s, r, ''''))
      (NextExcluding coin (?s\<lparr>sessionBindings := (sessionBindings ?s)(trim_space key := None)\<rparr>) ex later)"
    by (rule NextForSession_eqs(2) [where b = ?b]) (use assms(1,2) in simp_all)
  with assms(3) show ?thesis by (auto dest: NextExcluding_bindings)
qed

lemma session_expires_witness:
  "\<exists>s' r. NextForSession (\<lambda>_. False) (bindSessionAffinity (demo_store True) ''k'' 1 ''p'' 100) ''k'' {}
      (hour) = Some (s', r, '''') \<and> sessionBindings s' (trim_space ''k'') = None"
proof -
  let ?s = "bindSessionAffinity (demo_store True) ''k'' 1 ''p'' 100"
  have inv: "store_inv ?s" by (simp add: bindSessionAffinity_def Let_def)
  obtain s' r p where n: "NextForSession (\<lambda>_. False) ?s ''k'' {} hour = Some (s', r, p)"
    using NextForSession_spec [OF inv, of "\<lambda>_. False" "''k''" "{}" hour] by blast
  have k: "trim_space ''k'' \<noteq> ''''" by code_simp
  from session_expires [OF k _ n] n show ?thesis by auto
qed

section \<open>Waiting\<close>

text \<open>
  The pauses between the attempts of a waiting request double from 50 ms, but the comparison
  with 500 ms comes before the doubling: they settle at 800 ms, not at the 500 ms that the comment
  of \<open>WaitForSessionAvailable\<close> promises.
\<close>

theorem wait_backoff_settles_at_800ms:
  "(next_backoff ^^ n) (50 * millisecond) = 50 * millisecond * 2 ^ min n 4"
proof (induction n)
  case 0
  show ?case by simp
next
  case (Suc n)
  have "n = 0 \<or> n = 1 \<or> n = 2 \<or> n = 3 \<or> n \<ge> 4" by arith
  with Suc show ?case by (auto simp: next_backoff_def min_def)
qed

section \<open>Removal\<close>

text \<open>
  An account that was removed is not handed out any more, neither to a bound session nor by
  the scheduler, whichever scheduler is in use.
\<close>

theorem removed_account_not_chosen:
  assumes "store_inv s"
    and "NextForSession coin (RemoveAccount s k) key ex now = Some (s', Some ad, p)"
  shows "DBID (st_heap s ad) \<noteq> k"
proof -
  have "ad \<in> set (accounts (RemoveAccount s k))"
    using NextForSession_spec [OF store_inv_RemoveAccount [OF assms(1)], of coin k key ex now] assms(2)
    by auto
  then show ?thesis by (simp add: RemoveAccount_accounts [OF assms(1)])
qed

lemma removed_account_not_chosen_witness:
  "\<exists>s' ad p. NextForSession (\<lambda>_. False) (RemoveAccount (demo_store True) 3) ''k'' {} 100
      = Some (s', Some ad, p) \<and> DBID (st_heap (demo_store True) ad) \<noteq> 3"
proof -
  let ?out = "NextForSession (\<lambda>_. False) (RemoveAccount (demo_store True) 3) ''k'' {} 100"
  have "map_option (fst \<circ> snd) ?out = Some (Some 1)" by code_simp
  then obtain s' p where n: "?out = Some (s', Some 1, p)" by auto
  from removed_account_not_chosen [OF demo_store_inv n] n show ?thesis by blast
qed

lemma insert_places:
  assumes "placeable (h ad) (fs_baseLimit fs) now"
  shows "has_entry (snd (insertLocked h fs ad now)) ad"
  unfolding insertLocked_fs has_entry_def if_P [OF assms]
  by (rule exI [of _ "sn_tier (snap (h ad) (fs_baseLimit fs) now)"]) (simp add: make_entry_def)

lemma update_places:
  assumes "getFastScheduler s = Some fs" "placeable (st_heap s ad) (fs_baseLimit fs) now"
  shows "\<exists>fs'. getFastScheduler (fastSchedulerUpdate ad now s) = Some fs' \<and> has_entry fs' ad"
proof -
  have "has_entry (snd (Update (st_heap s) fs ad now)) ad"
    unfolding Update_def by (rule insert_places) (use assms(2) in simp)
  then show ?thesis
    using assms(1) by (auto simp: fastSchedulerUpdate_def getFastScheduler_def split: prod.split if_splits)
qed

text \<open>
  A removed account comes back. When a request that is still running on it reports its
  outcome, the report updates the fast scheduler without asking the pool, and an account that can
  be scheduled gets an entry again although it is no longer in the pool; it is then handed out
  until the next rebuild.
\<close>

theorem removed_account_resurrected:
  assumes "store_inv s" "getFastScheduler s = Some fs" "ad \<in> set (accounts s)"
    and "placeable (report_success_locked (st_heap s ad) (maxConcurrency s) now latency)
           (fs_baseLimit fs) now"
  shows "ad \<notin> set (accounts (ReportRequestSuccess (RemoveAccount s (DBID (st_heap s ad))) ad latency now)) \<and>
    (\<exists>fs'. getFastScheduler (ReportRequestSuccess (RemoveAccount s (DBID (st_heap s ad))) ad latency now)
        = Some fs' \<and> has_entry fs' ad)"
proof -
  let ?k = "DBID (st_heap s ad)"
  let ?s = "RemoveAccount s ?k"
  have eq: "?s = cancel_task ?k (fastSchedulerRemove ?k
      (s\<lparr>accounts := accounts ?s, accountIndex := (accountIndex s)(?k := None)\<rparr>))"
    using assms(3) by (subst RemoveAccount_eq) auto
  have fs: "getFastScheduler ?s = Some (Remove fs ?k)"
    by (subst eq) (simp add: getFastScheduler_remove assms(2) Remove_def)
  have m: "maxConcurrency ?s = maxConcurrency s"
    by (subst eq) (simp add: cancel_task_def fastSchedulerRemove_def split: option.split)
  have b: "fs_baseLimit (Remove fs ?k) = fs_baseLimit fs" by (simp add: Remove_def)
  have h: "st_heap ?s = st_heap s" by (rule RemoveAccount_accounts(3) [OF assms(1)])
  let ?a = "report_success_locked (st_heap ?s ad) (maxConcurrency ?s) now latency"
  have "\<exists>fs'. getFastScheduler (fastSchedulerUpdate ad now (set_account ad ?a ?s)) = Some fs' \<and> has_entry fs' ad"
    by (rule update_places [where fs = "Remove fs ?k"])
       (use fs assms(4) in \<open>simp_all add: b h m\<close>)
  moreover have "ad \<notin> set (accounts ?s)" by (simp add: RemoveAccount_accounts [OF assms(1)])
  ultimately show ?thesis by (simp add: ReportRequestSuccess_def)
qed

lemma removed_account_resurrected_witness:
  "3 \<notin> set (accounts (ReportRequestSuccess (RemoveAccount (demo_store True) 3) 3 second 100)) \<and>
   map_option snd (NextExcluding (\<lambda>_. False)
     (ReportRequestSuccess (RemoveAccount (demo_store True) 3) 3 second 100) {} 200) = Some (Some 3)"
proof -
  let ?s = "demo_store True"
  have "case getFastScheduler ?s of None \<Rightarrow> False | Some _ \<Rightarrow> True" by code_simp
  then have fs: "getFastScheduler ?s = Some (the (getFastScheduler ?s))" by (auto split: option.splits)
  have p: "placeable (report_success_locked (st_heap ?s 3) (maxConcurrency ?s) 100 second)
      (fs_baseLimit (the (getFastScheduler ?s))) 100" by code_simp
  have n: "map_option snd (NextExcluding (\<lambda>_. False)
     (ReportRequestSuccess (RemoveAccount ?s 3) 3 second 100) {} 200) = Some (Some 3)" by code_simp
  from removed_account_resurrected [OF demo_store_inv fs _ p] n show ?thesis by simp
qed

section \<open>Sweeps\<close>

definition gone :: "(int \<Rightarrow> bool) \<Rightarrow> bool \<Rightarrow> heap \<Rightarrow> (account \<Rightarrow> bool) \<Rightarrow> addr \<Rightarrow> bool" where
  "gone deleted db h skip ad \<longleftrightarrow> \<not> skip (h ad) \<and> (db \<longrightarrow> deleted (DBID (h ad)))"

lemma RemoveAccount_frame [simp]: "dbPresent (RemoveAccount s k) = dbPresent s"
  by (simp add: RemoveAccount_def Let_def split: option.split)

lemma delete_account_spec:
  assumes inv: "store_inv s" and ad: "ad \<in> set (accounts s)"
    and out: "delete_account deleted note ad (s, n) = (s', n')"
  shows "store_inv s' \<and> st_heap s' = st_heap s \<and> dbPresent s' = dbPresent s \<and>
    (if dbPresent s \<and> \<not> deleted (DBID (st_heap s ad))
     then set (accounts s') = set (accounts s) \<and> n' = n
     else set (accounts s') = set (accounts s) - {ad} \<and> n' = Suc n)"
proof -
  let ?k = "DBID (st_heap s ad)" and ?s = "log_db (DbSoftDeleteAccount (DBID (st_heap s ad))) s"
  have i: "store_inv ?s" using inv by simp
  have "x = ad" if "x \<in> set (accounts s)" "DBID (st_heap s x) = ?k" for x
    using store_invD(1) [OF inv] that ad by (simp add: distinct_map inj_on_def)
  then have "set (accounts (RemoveAccount ?s ?k)) = set (accounts s) - {ad}"
    unfolding RemoveAccount_accounts(1) [OF i] by auto
  note rem = this store_inv_RemoveAccount [OF i, of ?k] RemoveAccount_accounts(3) [OF i, of ?k]
  have eq: "delete_account deleted note ad (s, n) =
      (if dbPresent s \<and> \<not> deleted ?k then (?s, n)
       else (log_db (DbInsertAccountEvent ?k ''deleted'' note) (RemoveAccount ?s ?k), Suc n))"
    by (simp add: delete_account_def Let_def)
  show ?thesis
  proof (cases "dbPresent s \<and> \<not> deleted ?k")
    case True
    with out have "s' = ?s" "n' = n" by (simp_all add: eq)
    with True inv show ?thesis by simp
  next
    case False
    with out have "s' = log_db (DbInsertAccountEvent ?k ''deleted'' note) (RemoveAccount ?s ?k)" "n' = Suc n"
      by (simp_all only: eq if_False prod.inject)
    with rem show ?thesis unfolding if_not_P [OF False] by simp
  qed
qed

lemma sweep_spec:
  assumes "store_inv s" "distinct ads" "set ads \<subseteq> set (accounts s)"
    and "foldl (\<lambda>out ad. if skip (st_heap (fst out) ad) then out
           else delete_account deleted note ad out) (s, n) ads = (s', n')"
  shows "store_inv s' \<and> st_heap s' = st_heap s \<and>
    set (accounts s') = set (accounts s) - {ad \<in> set ads. gone deleted (dbPresent s) (st_heap s) skip ad} \<and>
    n' = n + length (filter (gone deleted (dbPresent s) (st_heap s) skip) ads)"
  using assms
proof (induction ads arbitrary: s n)
  case Nil
  then show ?case by simp
next
  case (Cons ad ads)
  let ?g = "gone deleted (dbPresent s) (st_heap s) skip"
  show ?case
  proof (cases "skip (st_heap s ad)")
    case True
    with Cons.prems Cons.IH [of s n] show ?thesis by (auto simp: gone_def)
  next
    case False
    obtain s1 n1 where d: "delete_account deleted note ad (s, n) = (s1, n1)" by force
    have ad: "ad \<in> set (accounts s)" using Cons.prems(3) by simp
    note sp = delete_account_spec [OF Cons.prems(1) ad d]
    have sub: "set ads \<subseteq> set (accounts s1)"
      using sp Cons.prems(2,3) by (auto split: if_splits)
    have IH: "store_inv s' \<and> st_heap s' = st_heap s1 \<and>
        set (accounts s') = set (accounts s1) - {ad \<in> set ads. gone deleted (dbPresent s1) (st_heap s1) skip ad} \<and>
        n' = n1 + length (filter (gone deleted (dbPresent s1) (st_heap s1) skip) ads)"
      by (rule Cons.IH) (use sp sub Cons.prems(2,4) False d in auto)
    show ?thesis
    proof (cases "?g ad")
      case True
      with sp False have "set (accounts s1) = set (accounts s) - {ad}" "n1 = Suc n"
        by (auto simp: gone_def)
      with IH sp True show ?thesis by auto
    next
      case ng: False
      with sp False have "set (accounts s1) = set (accounts s)" "n1 = n"
        by (auto simp: gone_def)
      with IH sp ng show ?thesis by auto
    qed
  qed
qed

lemma store_accounts_distinct: "store_inv s \<Longrightarrow> distinct (accounts s)"
  using store_invD(1) by (auto simp: distinct_map)

text \<open>
  The sweep by status removes exactly the accounts that are in the given status, not
  protected (a locked account goes only when it is banned), and whose row the database deletes; it
  keeps every other account and reports how many it removed.
\<close>

theorem clean_by_status_exact:
  assumes "store_inv s" "CleanByRuntimeStatus deleted s status now = (s', n)"
  shows "store_inv s' \<and> n = card (set (accounts s)) - card (set (accounts s')) \<and>
    (\<forall>ad. ad \<in> set (accounts s') \<longleftrightarrow> ad \<in> set (accounts s) \<and>
       (RuntimeStatus (st_heap s ad) now \<noteq> status \<or>
        (status = ''rate_limited'' \<and> premium5hRateLimitedLocked (st_heap s ad) now) \<or>
        (status \<noteq> ''unauthorized'' \<and> Locked (st_heap s ad) = 1) \<or>
        (dbPresent s \<and> \<not> deleted (DBID (st_heap s ad)))))"
proof -
  let ?g = "gone deleted (dbPresent s) (st_heap s) (skip_by_status status now)"
  note d = store_accounts_distinct [OF assms(1)]
  have sp: "store_inv s' \<and> st_heap s' = st_heap s \<and>
      set (accounts s') = set (accounts s) - {ad \<in> set (accounts s). ?g ad} \<and>
      n = 0 + length (filter ?g (accounts s))"
    by (rule sweep_spec [OF assms(1) d subset_refl]) (use assms(2) in \<open>simp add: CleanByRuntimeStatus_def\<close>)
  then have "n = card {ad \<in> set (accounts s). ?g ad}"
    using d by (simp add: distinct_card [symmetric] distinct_filter)
  also have "\<dots> = card (set (accounts s)) - card (set (accounts s'))"
    using sp by (subst card_Diff_subset [symmetric]) (auto intro: arg_cong [where f = card])
  finally show ?thesis using sp by (auto simp: gone_def skip_by_status_def)
qed

lemma clean_by_status_exact_witness:
  "1 \<notin> set (accounts (fst (CleanByRuntimeStatus (\<lambda>_. True)
     (MarkCooldown (demo_store True) 1 minute ''unauthorized'' 100) ''unauthorized'' 200))) \<and>
   2 \<in> set (accounts (fst (CleanByRuntimeStatus (\<lambda>_. True)
     (MarkCooldown (demo_store True) 1 minute ''unauthorized'' 100) ''unauthorized'' 200)))"
proof -
  let ?s = "MarkCooldown (demo_store True) 1 minute ''unauthorized'' 100"
  let ?out = "CleanByRuntimeStatus (\<lambda>_. True) ?s ''unauthorized'' 200"
  have inv: "store_inv ?s" by (rule store_inv_MarkCooldown) simp_all
  have out: "?out = (fst ?out, snd ?out)" by simp
  have "RuntimeStatus (st_heap ?s 1) 200 = ''unauthorized''"
    "RuntimeStatus (st_heap ?s 2) 200 = ''active''" "1 \<in> set (accounts ?s)" "2 \<in> set (accounts ?s)"
    by code_simp+
  with clean_by_status_exact [OF inv out] show ?thesis by simp
qed

text \<open>
  The sweep for used-up accounts never removes an account that is locked, busy, of unknown
  usage or below 110 percent of its weekly quota.
\<close>

theorem clean_full_usage_exact:
  assumes "store_inv s" "CleanFullUsageAccounts deleted s = (s', n)"
  shows "store_inv s' \<and>
    (\<forall>ad. ad \<in> set (accounts s') \<longleftrightarrow> ad \<in> set (accounts s) \<and>
       (Locked (st_heap s ad) = 1 \<or> ActiveRequests (st_heap s ad) > 0 \<or>
        \<not> UsagePercent7dValid (st_heap s ad) \<or> UsagePercent7d (st_heap s ad) < 110 \<or>
        (dbPresent s \<and> \<not> deleted (DBID (st_heap s ad)))))"
proof -
  let ?g = "gone deleted (dbPresent s) (st_heap s) skip_full_usage"
  have sp: "store_inv s' \<and> st_heap s' = st_heap s \<and>
      set (accounts s') = set (accounts s) - {ad \<in> set (accounts s). ?g ad} \<and>
      n = 0 + length (filter ?g (accounts s))"
    by (rule sweep_spec [OF assms(1) store_accounts_distinct [OF assms(1)] subset_refl])
       (use assms(2) in \<open>simp add: CleanFullUsageAccounts_def\<close>)
  then show ?thesis by (auto simp: gone_def skip_full_usage_def)
qed

lemma clean_full_usage_exact_witness:
  "set (accounts (fst (CleanFullUsageAccounts (\<lambda>_. True) (demo_store True)))) = {1, 2, 3}"
proof -
  let ?out = "CleanFullUsageAccounts (\<lambda>_. True) (demo_store True)"
  have out: "?out = (fst ?out, snd ?out)" by simp
  have "\<not> UsagePercent7dValid (st_heap (demo_store True) 1)"
    "\<not> UsagePercent7dValid (st_heap (demo_store True) 2)"
    "\<not> UsagePercent7dValid (st_heap (demo_store True) 3)" by code_simp+
  with clean_full_usage_exact [OF demo_store_inv out] show ?thesis by auto
qed

section \<open>Removing many accounts at once\<close>

lemma remove_pass_spec:
  assumes "remove_pass S s ads = (s', kept)"
    and "\<And>fs. getFastScheduler s = Some fs \<Longrightarrow> fs_inv (st_heap s) fs"
  shows "st_heap s' = st_heap s \<and> accounts s' = accounts s \<and>
    kept = filter (\<lambda>ad. DBID (st_heap s ad) \<notin> S) ads \<and>
    (\<forall>k. accountIndex s' k =
       (if k \<in> S \<and> k \<in> (\<lambda>ad. DBID (st_heap s ad)) ` set ads then None else accountIndex s k)) \<and>
    (\<forall>fs'. getFastScheduler s' = Some fs' \<longrightarrow>
       fs_inv (st_heap s) fs' \<and>
       (\<exists>fs. getFastScheduler s = Some fs \<and>
          (\<forall>x. has_entry fs' x \<longrightarrow> has_entry fs x \<and>
             \<not> (DBID (st_heap s x) \<in> S \<and> DBID (st_heap s x) \<in> (\<lambda>ad. DBID (st_heap s ad)) ` set ads))))"
  using assms
proof (induction ads arbitrary: s kept)
  case Nil
  then show ?case by auto
next
  case (Cons ad ads)
  let ?k = "DBID (st_heap s ad)"
  show ?case
  proof (cases "?k \<in> S")
    case False
    then obtain kept1 where k: "remove_pass S s ads = (s', kept1)" "kept = ad # kept1"
      using Cons.prems(1) by (auto simp: Let_def split: prod.splits)
    from Cons.IH [OF k(1) Cons.prems(2)] k(2) False show ?thesis by auto
  next
    case True
    define s1 where "s1 = cancel_task ?k (fastSchedulerRemove ?k
      (s\<lparr>accountIndex := (accountIndex s)(?k := None)\<rparr>))"
    have h1: "st_heap s1 = st_heap s" "accounts s1 = accounts s"
      "accountIndex s1 = (accountIndex s)(?k := None)" by (simp_all add: s1_def)
    have r: "remove_pass S s1 ads = (s', kept)"
      using Cons.prems(1) True by (simp add: Let_def s1_def)
    have gfs: "getFastScheduler s1 = map_option (\<lambda>fs. Remove fs ?k) (getFastScheduler s)"
      by (simp add: s1_def getFastScheduler_remove Remove_def option.map_ident)
         (simp add: getFastScheduler_def)
    have inv1: "fs_inv (st_heap s1) fs" if "getFastScheduler s1 = Some fs" for fs
      using that Cons.prems(2) by (auto simp: gfs h1 intro: fs_inv_Remove)
    have ent: "has_entry fs1 x \<longrightarrow> (\<exists>fs. getFastScheduler s = Some fs \<and> has_entry fs x \<and> DBID (st_heap s x) \<noteq> ?k)"
      if "getFastScheduler s1 = Some fs1" for fs1 x
      using that Cons.prems(2) Remove_has_entry by (auto simp: gfs)
    note IH = Cons.IH [OF r inv1, unfolded h1]
    have sch: "fs_inv (st_heap s) fs' \<and> (\<exists>fs. getFastScheduler s = Some fs \<and>
          (\<forall>x. has_entry fs' x \<longrightarrow> has_entry fs x \<and>
             \<not> (DBID (st_heap s x) \<in> S \<and> DBID (st_heap s x) \<in> (\<lambda>ad. DBID (st_heap s ad)) ` set (ad # ads))))"
      if got: "getFastScheduler s' = Some fs'" for fs'
    proof -
      from IH got obtain fs1 where f: "fs_inv (st_heap s) fs'" "getFastScheduler s1 = Some fs1"
        "\<And>x. has_entry fs' x \<Longrightarrow> has_entry fs1 x \<and>
          \<not> (DBID (st_heap s x) \<in> S \<and> DBID (st_heap s x) \<in> (\<lambda>ad. DBID (st_heap s ad)) ` set ads)"
        by blast
      obtain fs where g: "getFastScheduler s = Some fs" using f(2) by (auto simp: gfs)
      have "has_entry fs1 x \<Longrightarrow> has_entry fs x \<and> DBID (st_heap s x) \<noteq> ?k" for x
        using ent [OF f(2), of x] g by auto
      with f g show ?thesis by fastforce
    qed
    from IH True sch show ?thesis by auto
  qed
qed

lemma store_inv_RemoveAccounts [inv_intros]:
  assumes inv: "store_inv s"
  shows "store_inv (RemoveAccounts s ids)"
    and "set (accounts (RemoveAccounts s ids)) = {ad \<in> set (accounts s). DBID (st_heap s ad) \<notin> set ids}"
proof -
  obtain s1 kept where r: "remove_pass (set ids) s (accounts s) = (s1, kept)" by force
  note sp = remove_pass_spec [OF r store_invD(3) [OF inv]]
  let ?s = "s1\<lparr>accounts := kept\<rparr>"
  have idx: "(\<lambda>k. accountIndex s1 k) = (\<lambda>k. if k \<in> set ids then None else accountIndex s k)"
    using sp store_invD(2) [OF inv] by (auto simp: fun_eq_iff image_iff) (metis not_Some_eq)
  have kept: "kept = filter (\<lambda>ad. DBID (st_heap s ad) \<notin> set ids) (accounts s)" using sp by simp
  have "store_inv ?s"
    unfolding store_inv_def
  proof (intro conjI allI impI)
    show "distinct (map (\<lambda>ad. DBID (st_heap ?s ad)) (accounts ?s))"
      using store_invD(1) [OF inv] sp by (simp add: kept distinct_map_filter)
    show "accountIndex ?s k = Some ad \<longleftrightarrow> ad \<in> set (accounts ?s) \<and> DBID (st_heap ?s ad) = k" for k ad
      using sp fun_cong [OF idx, of k] store_invD(2) [OF inv, of k ad] by (auto simp: kept)
    show "fs_inv (st_heap ?s) fs" if "getFastScheduler ?s = Some fs" for fs
      using that sp by simp
    show "ad \<in> set (accounts ?s)" if "getFastScheduler ?s = Some fs" "has_entry fs ad" for fs ad
      using that sp store_invD(4) [OF inv] by (auto simp: kept)
  qed
  then show "store_inv (RemoveAccounts s ids)"
    using inv r by (simp add: RemoveAccounts_def)
  show "set (accounts (RemoveAccounts s ids)) = {ad \<in> set (accounts s). DBID (st_heap s ad) \<notin> set ids}"
    using r by (auto simp: RemoveAccounts_def kept)
qed

lemma clean_expired_effect:
  assumes "store_inv s" "CleanExpiredAccounts True deleted s maxAge now = (s', n)"
  shows "store_inv s' \<and>
    (\<forall>ad. ad \<in> set (accounts s') \<longleftrightarrow> ad \<in> set (accounts s) \<and>
       (Locked (st_heap s ad) = 1 \<or> AddedAt (st_heap s ad) = 0 \<or>
        AddedAt (st_heap s ad) > unix_nano (now - maxAge) \<or>
        ActiveRequests (st_heap s ad) > 0 \<or> TotalRequests (st_heap s ad) > 10))"
proof -
  let ?skip = "\<lambda>ad. skip_expired (unix_nano (now - maxAge)) (st_heap s ad)"
  define ids where "ids = map (\<lambda>ad. DBID (st_heap s ad)) (filter (\<lambda>ad. \<not> ?skip ad) (accounts s))"
  have mem: "DBID (st_heap s ad) \<in> set ids \<longleftrightarrow> \<not> ?skip ad" if "ad \<in> set (accounts s)" for ad
    using that store_invD(1) [OF assms(1)] by (auto simp: ids_def distinct_map inj_on_def)
  let ?s = "log_db (DbBatchSoftDeleteAccounts ids) s"
  have eq: "CleanExpiredAccounts True deleted s maxAge now =
      (if ids = [] then (s, 0)
       else (log_db (DbBatchInsertAccountEvents ids ''deleted'' ''clean_expired'') (RemoveAccounts ?s ids),
             length ids))"
    unfolding CleanExpiredAccounts_def ids_def Let_def by simp
  have i: "store_inv ?s" using assms(1) by simp
  have "store_inv s' \<and> set (accounts s') = {ad \<in> set (accounts s). DBID (st_heap s ad) \<notin> set ids}"
  proof (cases "ids = []")
    case True
    with assms(2) have "s' = s" by (simp add: eq)
    with assms(1) True show ?thesis by simp
  next
    case False
    with assms(2) have "s' = log_db (DbBatchInsertAccountEvents ids ''deleted'' ''clean_expired'')
        (RemoveAccounts ?s ids)" by (simp add: eq)
    with store_inv_RemoveAccounts [OF i, of ids] show ?thesis by simp
  qed
  with mem show ?thesis by (auto simp: skip_expired_def)
qed

text \<open>
  The sweep for expired accounts (the batch delete succeeds) removes exactly the accounts that
  joined before the cut-off and are neither locked, nor busy, nor proven by more than 10 requests.
\<close>

theorem clean_expired_exact:
  assumes "store_inv s" "CleanExpiredAccounts True deleted s maxAge now = (s', n)"
  shows "store_inv s' \<and>
    (\<forall>ad. ad \<in> set (accounts s') \<longleftrightarrow> ad \<in> set (accounts s) \<and>
       (Locked (st_heap s ad) = 1 \<or> AddedAt (st_heap s ad) = 0 \<or>
        AddedAt (st_heap s ad) > unix_nano (now - maxAge) \<or>
        ActiveRequests (st_heap s ad) > 0 \<or> TotalRequests (st_heap s ad) > 10))"
  by (rule clean_expired_effect [OF assms])

lemma clean_expired_exact_witness:
  "set (accounts (fst (CleanExpiredAccounts True (\<lambda>_. True) (demo_store True) (30 * minute) hour)))
     = {3}"
proof -
  let ?out = "CleanExpiredAccounts True (\<lambda>_. True) (demo_store True) (30 * minute) hour"
  have out: "?out = (fst ?out, snd ?out)" by simp
  have a: "\<not> skip_expired (unix_nano (hour - 30 * minute)) (st_heap (demo_store True) 1)"
    "\<not> skip_expired (unix_nano (hour - 30 * minute)) (st_heap (demo_store True) 2)"
    "TotalRequests (st_heap (demo_store True) 3) > 10" by code_simp+
  note ex = clean_expired_exact [OF demo_store_inv out, THEN conjunct2, rule_format]
  have "1 \<notin> set (accounts (fst ?out))" using ex [of 1] a(1) unfolding skip_expired_def by blast
  moreover have "2 \<notin> set (accounts (fst ?out))" using ex [of 2] a(2) unfolding skip_expired_def by blast
  moreover have "3 \<in> set (accounts (fst ?out))" using ex [of 3] a(3) by simp
  moreover have "x \<in> set (accounts (fst ?out)) \<Longrightarrow> x \<in> {1, 2, 3}" for x
    using ex [of x] by simp
  ultimately show ?thesis by blast
qed

section \<open>All histories\<close>

text \<open>
  Any sequence of operations on the pool. A report about an account comes while it is in the pool,
  a new account has a new id: these are what the invariant needs of the callers.
\<close>

inductive store_step :: "Store \<Rightarrow> Store \<Rightarrow> bool" where
  add: "(\<And>x. x \<in> set (accounts s) \<Longrightarrow> DBID (st_heap s x) \<noteq> DBID (st_heap s ad)) \<Longrightarrow>
    store_step s (AddAccount s ad now)"
| drop: "store_step s (RemoveAccount s k)"
| drop_many: "store_step s (RemoveAccounts s ks)"
| success: "ad \<in> set (accounts s) \<Longrightarrow> store_step s (ReportRequestSuccess s ad latency now)"
| failure: "ad \<in> set (accounts s) \<Longrightarrow> store_step s (ReportRequestFailure s ad kind latency now)"
| cooldown: "ad \<in> set (accounts s) \<Longrightarrow> store_step s (MarkCooldown s ad d reason now)"
| uncool: "ad \<in> set (accounts s) \<Longrightarrow> store_step s (ClearCooldown s ad now)"
| limited: "ad \<in> set (accounts s) \<Longrightarrow> store_step s (MarkPremium5hRateLimited s ad resetAt now)"
| usage: "ad \<in> set (accounts s) \<Longrightarrow> store_step s (PersistUsageSnapshot s ad pct now)"
| usage5h: "ad \<in> set (accounts s) \<Longrightarrow> store_step s (PersistUsageSnapshot5hOnly s ad now)"
| plan: "ad \<in> set (accounts s) \<Longrightarrow> store_step s (fst (SyncAccountPlanType s ad p now))"
| max_conc: "store_step s (SetMaxConcurrency s n now)"
| next_account: "NextForSession coin s key ex now = Some (s', r, p) \<Longrightarrow> store_step s s'"
| bind: "store_step s (bindSessionAffinity s key ad proxyURL now)"
| clean: "CleanByRuntimeStatus deleted s status now = (s', m) \<Longrightarrow> store_step s s'"
| clean_full: "CleanFullUsageAccounts deleted s = (s', m) \<Longrightarrow> store_step s s'"
| clean_expired: "CleanExpiredAccounts True deleted s maxAge now = (s', m) \<Longrightarrow> store_step s s'"

lemma store_inv_bind [inv_intros]: "store_inv s \<Longrightarrow> store_inv (bindSessionAffinity s key ad proxyURL now)"
  by (simp add: bindSessionAffinity_def Let_def)

lemma clean_inv:
  "store_inv s \<Longrightarrow> CleanByRuntimeStatus deleted s status now = (s', m) \<Longrightarrow> store_inv s'"
  "store_inv s \<Longrightarrow> CleanFullUsageAccounts deleted s = (s', m) \<Longrightarrow> store_inv s'"
  using sweep_spec [OF _ store_accounts_distinct subset_refl, of s]
  by (auto simp: CleanByRuntimeStatus_def CleanFullUsageAccounts_def)


lemma store_step_inv: "store_step s s' \<Longrightarrow> store_inv s \<Longrightarrow> store_inv s'"
proof (induction rule: store_step.induct)
  case (next_account coin s key ex now s' r p)
  then show ?case using NextForSession_spec [of s coin key ex now] by auto
next
  case (clean_expired deleted s maxAge now s' m)
  then show ?case using clean_expired_effect by blast
qed (auto intro: inv_intros clean_inv)



end
