(* ===== verification/Refresh.thy ===== *)
theory Refresh
  imports StoreOps
begin

text \<open>
  \<open>auth/store.go\<close> and \<open>auth/token.go\<close>: refreshing the access token of an account, and the probes.
  The answers of the token endpoint, of rt-manager and of a probe are arguments; what other
  goroutines do while a call is under way is the argument \<open>during\<close>, and \<open>later\<close> is the clock when
  the call is back. These paths need a database. The goroutines of a batch run one after the
  other here.
\<close>

section \<open>The token endpoint\<close>

record TokenData =
  td_AccessToken :: string
  td_RefreshToken :: string
  td_IDToken :: string
  td_ExpiresAt :: time

record AccountInfo =
  info_Email :: string
  info_ChatGPTAccountID :: string
  info_PlanType :: string

datatype refresh_result = Refreshed TokenData AccountInfo | RefreshError string

abbreviation MaxRetries :: nat where "MaxRetries \<equiv> 3"

definition isNonRetryable :: "string \<Rightarrow> bool" where
  "isNonRetryable err \<longleftrightarrow>
     (\<exists>needle \<in> set [''invalid_grant'', ''invalid_client'', ''unauthorized_client'', ''access_denied''].
        contains (to_lower err) needle)"

text \<open>The bytes of the message that wraps the last error.\<close>

definition retry_prefix :: string where
  "retry_prefix = map char_of
     [229 :: nat, 136, 183, 230, 150, 176, 229, 164, 177, 232, 180, 165, 239, 188, 136, 233, 135, 141,
      232, 175, 149, 32, 51, 32, 230, 172, 161, 239, 188, 137, 58, 32]"

text \<open>\<open>ctxErr i\<close> is the error of the context when it is done in the pause before attempt \<open>i\<close>.\<close>

fun refresh_attempts ::
  "(nat \<Rightarrow> refresh_result) \<Rightarrow> (nat \<Rightarrow> string option) \<Rightarrow> string \<Rightarrow> nat list \<Rightarrow> refresh_result" where
  "refresh_attempts request ctxErr lastErr [] = RefreshError (retry_prefix @ lastErr)"
| "refresh_attempts request ctxErr lastErr (attempt # attempts) =
     (case (if attempt > 0 then ctxErr attempt else None) of
        Some e \<Rightarrow> RefreshError e
      | None \<Rightarrow>
          (case request attempt of
             Refreshed td info \<Rightarrow> Refreshed td info
           | RefreshError e \<Rightarrow>
               if isNonRetryable e then RefreshError e
               else refresh_attempts request ctxErr e attempts))"

definition RefreshWithRetry ::
  "(nat \<Rightarrow> refresh_result) \<Rightarrow> (nat \<Rightarrow> string option) \<Rightarrow> refresh_result" where
  "RefreshWithRetry request ctxErr = refresh_attempts request ctxErr '''' [0..<MaxRetries]"

text \<open>The pause before an attempt.\<close>

definition retry_pause :: "nat \<Rightarrow> duration" where
  "retry_pause attempt = (if attempt > 0 then 2 ^ (attempt - 1) * second else 0)"

section \<open>Refreshing an account\<close>

text \<open>What both refresh paths read of the account before they start.\<close>

record refresh_view =
  rv_dbID :: int
  rv_activeCooldown :: bool
  rv_expiredCooldown :: bool
  rv_cooldownUntil :: time
  rv_cooldownReason :: string

definition view_account :: "account \<Rightarrow> time \<Rightarrow> refresh_view" where
  "view_account a now =
     \<lparr>rv_dbID = DBID a,
      rv_activeCooldown = (Status a = StatusCooldown \<and> now < CooldownUtil a
        \<and> \<not> premium5hCooldownSuppressedLocked a now),
      rv_expiredCooldown = (Status a = StatusCooldown \<and> \<not> now < CooldownUtil a),
      rv_cooldownUntil = CooldownUtil a, rv_cooldownReason = CooldownReason a\<rparr>"

definition restore_cooldown :: "refresh_view \<Rightarrow> account \<Rightarrow> account" where
  "restore_cooldown v a =
     (if rv_activeCooldown v
      then a\<lparr>Status := StatusCooldown, CooldownUtil := rv_cooldownUntil v,
             CooldownReason := rv_cooldownReason v\<rparr>
      else a\<lparr>Status := StatusReady, CooldownUtil := 0, CooldownReason := ''''\<rparr>)"

text \<open>The account is written, its scheduling state recomputed, the scheduler told.\<close>

definition publish_account :: "addr \<Rightarrow> refresh_view \<Rightarrow> time \<Rightarrow> account \<Rightarrow> Store \<Rightarrow> Store" where
  "publish_account ad v now a s =
     fastSchedulerUpdate ad now
       (set_account ad (recomputeSchedulerLocked (restore_cooldown v a) (maxConcurrency s) now) s)"

definition clear_if_expired :: "refresh_view \<Rightarrow> Store \<Rightarrow> Store" where
  "clear_if_expired v s =
     (if rv_expiredCooldown v then log_db (DbClearCooldown (rv_dbID v)) s else s)"

definition merge_info :: "AccountInfo \<Rightarrow> account \<Rightarrow> account" where
  "merge_info info a =
     a\<lparr>AccountID := (if info_ChatGPTAccountID info \<noteq> '''' then info_ChatGPTAccountID info else AccountID a),
       Email := (if info_Email info \<noteq> '''' then info_Email info else Email a),
       PlanType := (if info_PlanType info \<noteq> '''' then info_PlanType info else PlanType a)\<rparr>"

definition info_credentials :: "AccountInfo \<Rightarrow> (string \<times> cred_value) list" where
  "info_credentials info =
     (if info_ChatGPTAccountID info \<noteq> '''' then [(''account_id'', CredText (info_ChatGPTAccountID info))] else [])
     @ (if info_Email info \<noteq> '''' then [(''email'', CredText (info_Email info))] else [])
     @ (if info_PlanType info \<noteq> '''' then [(''plan_type'', CredText (info_PlanType info))] else [])"

definition refresh_failed :: "addr \<Rightarrow> int \<Rightarrow> string \<Rightarrow> time \<Rightarrow> Store \<Rightarrow> Store" where
  "refresh_failed ad dbID err now s =
     (if isNonRetryable err then
        let s = set_account ad ((st_heap s ad)\<lparr>Status := StatusError, ErrorMsg := err\<rparr>) s;
            s = fastSchedulerUpdate ad now s
        in log_db (DbSetError dbID err) s
      else s)"

definition cache_token :: "int \<Rightarrow> string \<Rightarrow> time \<Rightarrow> time \<Rightarrow> Store \<Rightarrow> Store" where
  "cache_token dbID token expiresAt now s =
     (let ttl = go_sub expiresAt now - 5 * minute
      in if ttl > 0 then s\<lparr>tokenCache := SetAccessToken (tokenCache s) dbID token ttl now\<rparr> else s)"

text \<open>Steps 4 to 6 of \<open>refreshAccount\<close>, and the automatic lock of paid accounts.\<close>

definition auto_lock :: "addr \<Rightarrow> AccountInfo \<Rightarrow> Store \<Rightarrow> Store" where
  "auto_lock ad info s =
     (let a = st_heap s ad; plan = to_lower (info_PlanType info)
      in if Locked a = 0 \<and> \<not> IsBanned a \<and> plan \<noteq> ''free'' \<and> plan \<noteq> ''''
         then log_db (DbSetAccountLocked (DBID a) True) (set_account ad (a\<lparr>Locked := 1\<rparr>) s)
         else s)"

definition refresh_done :: "addr \<Rightarrow> refresh_view \<Rightarrow> TokenData \<Rightarrow> AccountInfo \<Rightarrow> time \<Rightarrow> Store \<Rightarrow> Store" where
  "refresh_done ad v td info now s =
     (let a = (st_heap s ad)\<lparr>AccessToken := td_AccessToken td, RefreshToken := td_RefreshToken td,
                             ExpiresAt := td_ExpiresAt td, ErrorMsg := ''''\<rparr>;
          s = publish_account ad v now (merge_info info a) s;
          s = cache_token (rv_dbID v) (td_AccessToken td) (td_ExpiresAt td) now s;
          s = log_db (DbUpdateCredentials (rv_dbID v)
                ([(''refresh_token'', CredText (td_RefreshToken td)),
                  (''access_token'', CredText (td_AccessToken td)),
                  (''id_token'', CredText (td_IDToken td)),
                  (''expires_at'', CredTime (td_ExpiresAt td))] @ info_credentials info)) s
      in clear_if_expired v (auto_lock ad info s))"

definition refresh_upstream ::
  "addr \<Rightarrow> refresh_view \<Rightarrow> refresh_result \<Rightarrow> time \<Rightarrow> Store \<Rightarrow> Store \<times> string option" where
  "refresh_upstream ad v upstream now s =
     (case upstream of
        RefreshError e \<Rightarrow> (refresh_failed ad (rv_dbID v) e now s, Some e)
      | Refreshed td info \<Rightarrow> (refresh_done ad v td info now s, None))"

definition use_cached :: "addr \<Rightarrow> refresh_view \<Rightarrow> string \<Rightarrow> time \<Rightarrow> Store \<Rightarrow> Store" where
  "use_cached ad v token now s =
     (let a = (st_heap s ad)\<lparr>AccessToken := token\<rparr>;
          a = (if is_zero (ExpiresAt a) \<or> go_sub (ExpiresAt a) now < 5 * minute
               then a\<lparr>ExpiresAt := now + 30 * minute\<rparr> else a)
      in clear_if_expired v (publish_account ad v now a s))"

definition use_waited :: "addr \<Rightarrow> refresh_view \<Rightarrow> string \<Rightarrow> time \<Rightarrow> Store \<Rightarrow> Store" where
  "use_waited ad v token now s =
     (let a = (st_heap s ad)\<lparr>AccessToken := token, ExpiresAt := now + 55 * minute\<rparr>
      in clear_if_expired v (publish_account ad v now a s))"

definition release_lock :: "int \<Rightarrow> Store \<Rightarrow> Store" where
  "release_lock dbID s = s\<lparr>tokenCache := ReleaseRefreshLock (tokenCache s) dbID\<rparr>"

definition refreshAccount ::
  "(time \<Rightarrow> MemoryTokenCache \<Rightarrow> MemoryTokenCache) \<Rightarrow> (time \<Rightarrow> bool) \<Rightarrow> (Store \<Rightarrow> Store)
     \<Rightarrow> refresh_result \<Rightarrow> Store \<Rightarrow> addr \<Rightarrow> time \<Rightarrow> time \<Rightarrow> Store \<times> string option" where
  "refreshAccount others cancelled during upstream s ad now later =
     (let v = view_account (st_heap s ad) now;
          (tc, cachedToken) = GetAccessToken (tokenCache s) (rv_dbID v) now;
          s = s\<lparr>tokenCache := tc\<rparr>
      in if cachedToken \<noteq> '''' then (use_cached ad v cachedToken now s, None)
         else
           let (tc, acquired) = AcquireRefreshLock (tokenCache s) (rv_dbID v) (30 * second) now;
               s = s\<lparr>tokenCache := tc\<rparr>
           in if \<not> acquired then
                let (tc, token) = WaitForRefreshComplete others cancelled (tokenCache s) (rv_dbID v)
                                    (30 * second) now;
                    s = during (s\<lparr>tokenCache := tc\<rparr>)
                in case token of
                     Some t \<Rightarrow> (use_waited ad v t later s, None)
                   | None \<Rightarrow> refresh_upstream ad v upstream later s
              else
                let (s, err) = refresh_upstream ad v upstream later (during s)
                in (release_lock (rv_dbID v) s, err))"

section \<open>Accounts without a refresh token\<close>

record RTManagerConfig =
  rtm_URL :: string
  rtm_Password :: string
  rtm_Enabled :: bool

record RTManagerAccount =
  rtm_ID :: string
  rtm_Email :: string
  rtm_RT :: string
  rtm_AT :: string

record RTManager =
  rtm_cfg :: RTManagerConfig
  rtm_bearerToken :: string
  rtm_bearerExpiresAt :: time
  rtm_indexByEmail :: "(string \<Rightarrow> RTManagerAccount option) option"
  rtm_indexFetched :: time

definition SetRTManagerConfig :: "RTManager \<Rightarrow> RTManagerConfig \<Rightarrow> RTManager" where
  "SetRTManagerConfig r cfg =
     (let prev = rtm_cfg r; r = r\<lparr>rtm_cfg := cfg\<rparr>
      in if rtm_URL cfg \<noteq> rtm_URL prev \<or> rtm_Password cfg \<noteq> rtm_Password prev
         then r\<lparr>rtm_bearerToken := '''', rtm_bearerExpiresAt := 0,
                rtm_indexByEmail := None, rtm_indexFetched := 0\<rparr>
         else r)"

definition RTManagerEnabled :: "RTManager \<Rightarrow> bool" where
  "RTManagerEnabled r \<longleftrightarrow>
     rtm_Enabled (rtm_cfg r) \<and> trim_space (rtm_URL (rtm_cfg r)) \<noteq> '''' \<and>
     trim_space (rtm_Password (rtm_cfg r)) \<noteq> ''''"

text \<open>\<open>fetched\<close> is the account list that \<open>GET /api/accounts\<close> returns, if it succeeds.\<close>

definition index_fresh :: "RTManager \<Rightarrow> time \<Rightarrow> bool" where
  "index_fresh r now \<longleftrightarrow> rtm_indexByEmail r \<noteq> None \<and> go_sub now (rtm_indexFetched r) < 5 * minute"

definition build_index :: "RTManagerAccount list \<Rightarrow> string \<Rightarrow> RTManagerAccount option" where
  "build_index accs =
     foldl (\<lambda>idx a. let key = to_lower (trim_space (rtm_Email a))
                    in if key = '''' then idx else idx(key \<mapsto> a)) (\<lambda>_. None) accs"

definition ensureIndex :: "RTManagerAccount list option \<Rightarrow> RTManager \<Rightarrow> time \<Rightarrow> RTManager option" where
  "ensureIndex fetched r now =
     (if index_fresh r now then Some r
      else if trim_space (rtm_URL (rtm_cfg r)) = '''' then None
      else case fetched of
        None \<Rightarrow> None
      | Some accs \<Rightarrow> Some (r\<lparr>rtm_indexByEmail := Some (build_index accs), rtm_indexFetched := now\<rparr>))"

definition Lookup ::
  "RTManagerAccount list option \<Rightarrow> RTManager \<Rightarrow> string \<Rightarrow> time \<Rightarrow> RTManager \<times> RTManagerAccount option" where
  "Lookup fetched r email now =
     (let email = to_lower (trim_space email)
      in if email = '''' then (r, None)
         else case ensureIndex fetched r now of
           None \<Rightarrow> (r, None)
         | Some r \<Rightarrow> (r, case rtm_indexByEmail r of None \<Rightarrow> None | Some idx \<Rightarrow> idx email))"

text \<open>The index entry that \<open>UpdateAccount\<close> rewrites after a successful PUT; \<open>email\<close> is that of the
  account with this id in the index.\<close>

definition sync_index :: "RTManager \<Rightarrow> string \<Rightarrow> string \<Rightarrow> TokenData \<Rightarrow> RTManager" where
  "sync_index r accID email td =
     (case rtm_indexByEmail r of
        None \<Rightarrow> r
      | Some idx \<Rightarrow>
          if email = '''' then r
          else case idx (to_lower (trim_space email)) of
            None \<Rightarrow> r
          | Some existing \<Rightarrow>
              if rtm_ID existing = accID
              then r\<lparr>rtm_indexByEmail := Some (idx(to_lower (trim_space email) \<mapsto>
                     existing\<lparr>rtm_RT := td_RefreshToken td, rtm_AT := td_AccessToken td\<rparr>))\<rparr>
              else r)"

text \<open>\<open>putOk\<close> says whether the write-back to rt-manager succeeds; its failure is only logged.\<close>

definition refreshAccountViaRTManager ::
  "RTManagerAccount list option \<Rightarrow> (string \<Rightarrow> refresh_result) \<Rightarrow> bool \<Rightarrow> (Store \<Rightarrow> Store)
     \<Rightarrow> RTManager \<Rightarrow> Store \<Rightarrow> addr \<Rightarrow> time \<Rightarrow> time \<Rightarrow> RTManager \<times> Store \<times> bool" where
  "refreshAccountViaRTManager fetched request putOk during r s ad now later =
     (if \<not> RTManagerEnabled r then (r, s, False)
      else
        let v = view_account (st_heap s ad) now;
            email = Email (st_heap s ad)
        in if trim_space email = '''' then (r, s, False)
           else
             let (r, found) = Lookup fetched r email now
             in case found of
                  None \<Rightarrow> (r, s, False)
                | Some rtmAcc \<Rightarrow>
                    if trim_space (rtm_RT rtmAcc) = '''' then (r, s, False)
                    else
                      (case request (rtm_RT rtmAcc) of
                         RefreshError e \<Rightarrow> (r, refresh_failed ad (rv_dbID v) e later (during s), False)
                       | Refreshed td info \<Rightarrow>
                           let r = (if putOk \<and> trim_space (rtm_ID rtmAcc) \<noteq> ''''
                                    then sync_index r (rtm_ID rtmAcc) (rtm_Email rtmAcc) td else r);
                               s = during s;
                               a = (st_heap s ad)\<lparr>AccessToken := td_AccessToken td,
                                     ExpiresAt := td_ExpiresAt td, ErrorMsg := ''''\<rparr>;
                               s = publish_account ad v later (merge_info info a) s;
                               s = cache_token (rv_dbID v) (td_AccessToken td) (td_ExpiresAt td) later s;
                               s = log_db (DbUpdateCredentials (rv_dbID v)
                                     ([(''access_token'', CredText (td_AccessToken td)),
                                       (''id_token'', CredText (td_IDToken td)),
                                       (''expires_at'', CredTime (td_ExpiresAt td))]
                                      @ info_credentials info)) s
                           in (r, clear_if_expired v s, True)))"

text \<open>Which refresh \<open>parallelRefreshAll\<close> starts for an account.\<close>

datatype refresh_kind = NoRefresh | ViaRTManager | ViaOAuth

definition refresh_kind_for :: "bool \<Rightarrow> account \<Rightarrow> time \<Rightarrow> refresh_kind" where
  "refresh_kind_for rtmEnabled a now =
     (if Status a = StatusError then NoRefresh
      else if IsBanned a then NoRefresh
      else if \<not> NeedsRefresh a now then NoRefresh
      else if RefreshToken a = '''' then (if rtmEnabled then ViaRTManager else NoRefresh)
      else ViaOAuth)"

section \<open>Probes\<close>

definition probe_usage_one :: "(Store \<Rightarrow> Store) \<Rightarrow> Store \<Rightarrow> addr \<Rightarrow> time \<Rightarrow> Store" where
  "probe_usage_one probe s ad now =
     (if \<not> NeedsUsageProbe (st_heap s ad) (GetUsageProbeMaxAge s) now then s
      else
        let (ok, a) = TryBeginUsageProbe (st_heap s ad)
        in if \<not> ok then s
           else
             let s = probe (set_account ad a s)
             in set_account ad (FinishUsageProbe (st_heap s ad)) s)"

definition recovered_locked :: "account \<Rightarrow> int \<Rightarrow> time \<Rightarrow> account" where
  "recovered_locked a baseLimit now =
     (let a = a\<lparr>Disabled := 0\<rparr>
      in if HealthTier a = HealthTierBanned then
           let a = a\<lparr>HealthTier := HealthTierWarm, SchedulerScore := 80, FailureStreak := 0,
                     SuccessStreak := 1, LastSuccessAt := now\<rparr>;
               a = (if Status a = StatusCooldown
                    then a\<lparr>Status := StatusReady, CooldownUtil := 0, CooldownReason := ''''\<rparr> else a)
           in recomputeSchedulerLocked a baseLimit now
         else a)"

definition recovery_probe_one ::
  "(Store \<Rightarrow> Store) \<Rightarrow> (Store \<Rightarrow> Store \<times> bool) \<Rightarrow> Store \<Rightarrow> addr \<Rightarrow> time \<Rightarrow> time \<Rightarrow> Store" where
  "recovery_probe_one refresh probe s ad now later =
     (if \<not> NeedsRecoveryProbe (st_heap s ad) (GetRecoveryProbeInterval s) now then s
      else
        let (ok, a) = TryBeginRecoveryProbe (st_heap s ad) now
        in if \<not> ok then s
           else
             let s = set_account ad a s;
                 s = (if NeedsRefresh (st_heap s ad) now then refresh s else s);
                 (s, success) = probe s;
                 s = (if \<not> success \<or> usageExhaustedLocked (st_heap s ad) then s
                      else log_db (DbClearCooldown (DBID (st_heap s ad)))
                             (set_account ad
                                (recovered_locked (st_heap s ad) (maxConcurrency s) later) s))
             in set_account ad (FinishRecoveryProbe (st_heap s ad)) s)"

end
