(* ===== verification/RefreshLaws.thy ===== *)
theory RefreshLaws
  imports StoreLaws Refresh
begin

text \<open>
  The properties of the token refresh: its retries, its lock and cache, what it does to a cooldown,
  and the recovery probe.
\<close>

section \<open>Frames\<close>

lemma fastSchedulerUpdate_cooldown [simp]:
  "CooldownUtil (st_heap (fastSchedulerUpdate ad n s) x) = CooldownUtil (st_heap s x)"
  "CooldownReason (st_heap (fastSchedulerUpdate ad n s) x) = CooldownReason (st_heap s x)"
  "tokenCache (fastSchedulerUpdate ad n s) = tokenCache s"
  by (auto simp: fastSchedulerUpdate_heap snapped_eq split: option.split)
     (simp add: fastSchedulerUpdate_def split: option.split prod.split)

lemma restore_cooldown_simps [simp]:
  "Status (restore_cooldown v a) = (if rv_activeCooldown v then StatusCooldown else StatusReady)"
  "CooldownUtil (restore_cooldown v a) = (if rv_activeCooldown v then rv_cooldownUntil v else 0)"
  "CooldownReason (restore_cooldown v a) = (if rv_activeCooldown v then rv_cooldownReason v else '''')"
  "AccessToken (restore_cooldown v a) = AccessToken a"
  "DBID (restore_cooldown v a) = DBID a"
  by (simp_all add: restore_cooldown_def)

lemma publish_account_simps [simp]:
  "Status (st_heap (publish_account ad v now a s) ad) =
     (if rv_activeCooldown v then StatusCooldown else StatusReady)"
  "CooldownUtil (st_heap (publish_account ad v now a s) ad) =
     (if rv_activeCooldown v then rv_cooldownUntil v else 0)"
  "CooldownReason (st_heap (publish_account ad v now a s) ad) =
     (if rv_activeCooldown v then rv_cooldownReason v else '''')"
  "AccessToken (st_heap (publish_account ad v now a s) ad) = AccessToken a"
  "DBID (st_heap (publish_account ad v now a s) ad) = DBID a"
  "tokenCache (publish_account ad v now a s) = tokenCache s"
  by (simp_all add: publish_account_def)

lemma merge_info_simps [simp]:
  "AccessToken (merge_info i a) = AccessToken a" "DBID (merge_info i a) = DBID a"
  by (simp_all add: merge_info_def)

lemma clear_if_expired_frame [simp]:
  "st_heap (clear_if_expired v s) = st_heap s" "tokenCache (clear_if_expired v s) = tokenCache s"
  by (simp_all add: clear_if_expired_def)

lemma cache_token_heap [simp]: "st_heap (cache_token k t e n s) = st_heap s"
  by (simp add: cache_token_def Let_def)

lemma auto_lock_frame [simp]:
  "Status (st_heap (auto_lock ad i s) x) = Status (st_heap s x)"
  "CooldownUtil (st_heap (auto_lock ad i s) x) = CooldownUtil (st_heap s x)"
  "CooldownReason (st_heap (auto_lock ad i s) x) = CooldownReason (st_heap s x)"
  "AccessToken (st_heap (auto_lock ad i s) x) = AccessToken (st_heap s x)"
  "DBID (st_heap (auto_lock ad i s) x) = DBID (st_heap s x)"
  "tokenCache (auto_lock ad i s) = tokenCache s"
  by (simp_all add: auto_lock_def Let_def)

lemma release_lock_heap [simp]: "st_heap (release_lock k s) = st_heap s"
  by (simp add: release_lock_def)

lemma refresh_done_simps [simp]:
  "Status (st_heap (refresh_done ad v td info now s) ad) =
     (if rv_activeCooldown v then StatusCooldown else StatusReady)"
  "CooldownUtil (st_heap (refresh_done ad v td info now s) ad) =
     (if rv_activeCooldown v then rv_cooldownUntil v else 0)"
  "CooldownReason (st_heap (refresh_done ad v td info now s) ad) =
     (if rv_activeCooldown v then rv_cooldownReason v else '''')"
  "AccessToken (st_heap (refresh_done ad v td info now s) ad) = td_AccessToken td"
  "DBID (st_heap (refresh_done ad v td info now s) ad) = DBID (st_heap s ad)"
  "tokenCache (refresh_done ad v td info now s) =
     (if go_sub (td_ExpiresAt td) now - 5 * minute > 0
      then SetAccessToken (tokenCache s) (rv_dbID v) (td_AccessToken td)
             (go_sub (td_ExpiresAt td) now - 5 * minute) now
      else tokenCache s)"
  by (simp_all add: refresh_done_def Let_def cache_token_def)

text \<open>The path of a refresher that misses the cache and gets the lock.\<close>

lemma refresh_leader:
  assumes "snd (GetAccessToken (tokenCache s) (DBID (st_heap s ad)) now) = ''''"
    and "snd (AcquireRefreshLock (tokenCache s) (DBID (st_heap s ad)) (30 * second) now)"
  obtains tc where
    "refreshAccount others cancelled during upstream s ad now later =
       (release_lock (DBID (st_heap s ad))
          (fst (refresh_upstream ad (view_account (st_heap s ad) now) upstream later
             (during (s\<lparr>tokenCache := tc\<rparr>)))),
        snd (refresh_upstream ad (view_account (st_heap s ad) now) upstream later
             (during (s\<lparr>tokenCache := tc\<rparr>))))"
proof -
  let ?k = "DBID (st_heap s ad)"
  have rv_id: "rv_dbID (view_account a n) = DBID a" for a n by (simp add: view_account_def)
  obtain tc1 where g: "GetAccessToken (tokenCache s) ?k now = (tc1, '''')"
    using assms(1) by (metis prod.collapse)
  have lk: "mc_locks tc1 = mc_locks (tokenCache s)"
    using g by (auto simp: GetAccessToken_def split: option.splits if_splits)
  then have "snd (AcquireRefreshLock tc1 ?k (30 * second) now)"
    using assms(2) by (auto simp: AcquireRefreshLock_def Let_def split: option.splits if_splits)
  then obtain tc where l: "AcquireRefreshLock tc1 ?k (30 * second) now = (tc, True)"
    by (metis prod.collapse)
  show thesis
    by (rule that [of tc])
       (simp add: refreshAccount_def Let_def rv_id g l [simplified] case_prod_beta)
qed

lemma refresh_leader_done:
  assumes "snd (GetAccessToken (tokenCache s) (DBID (st_heap s ad)) now) = ''''"
    and "snd (AcquireRefreshLock (tokenCache s) (DBID (st_heap s ad)) (30 * second) now)"
    and "refreshAccount others cancelled during (Refreshed td info) s ad now later = (s', err)"
  obtains tc where "err = None" "s' = release_lock (DBID (st_heap s ad))
      (refresh_done ad (view_account (st_heap s ad) now) td info later (during (s\<lparr>tokenCache := tc\<rparr>)))"
proof -
  obtain tc where "refreshAccount others cancelled during (Refreshed td info) s ad now later =
      (release_lock (DBID (st_heap s ad))
         (refresh_done ad (view_account (st_heap s ad) now) td info later (during (s\<lparr>tokenCache := tc\<rparr>))),
       None)"
    using refresh_leader [OF assms(1,2), of others cancelled during "Refreshed td info" later]
    unfolding refresh_upstream_def refresh_result.case fst_conv snd_conv by blast
  with assms(3) show thesis by (intro that [of tc]) simp_all
qed

section \<open>Retries\<close>

lemma refresh_attempts_Refreshed:
  "refresh_attempts request ctxErr e is = Refreshed td info \<Longrightarrow>
   \<exists>k < length is. request (is ! k) = Refreshed td info \<and>
     (\<forall>j < k. \<exists>err. request (is ! j) = RefreshError err \<and> \<not> isNonRetryable err)"
proof (induction "is" arbitrary: e)
  case Nil
  then show ?case by simp
next
  case (Cons i "is")
  show ?case
  proof (cases "request i")
    case (Refreshed td' info')
    with Cons.prems show ?thesis by (intro exI [of _ 0]) (auto split: option.splits)
  next
    case (RefreshError err)
    with Cons.prems have n: "\<not> isNonRetryable err"
      and r: "refresh_attempts request ctxErr err is = Refreshed td info"
      by (auto split: option.splits if_splits)
    obtain k where k: "k < length is" "request (is ! k) = Refreshed td info"
      "\<forall>j < k. \<exists>err. request (is ! j) = RefreshError err \<and> \<not> isNonRetryable err"
      using Cons.IH [OF r] by blast
    show ?thesis
      by (rule exI [of _ "Suc k"]) (use k n RefreshError in \<open>auto simp: less_Suc_eq_0_disj\<close>)
  qed
qed

text \<open>
  C22. A refresh with retries returns tokens only from one of at most three requests, after
  failures that are all worth a retry: after an error such as invalid_grant there is no further
  request, so a revoked refresh token is never sent twice.
\<close>

theorem refresh_retries_bounded:
  assumes "RefreshWithRetry request ctxErr = Refreshed td info"
  shows "\<exists>k < 3. request k = Refreshed td info \<and>
    (\<forall>j < k. \<exists>err. request j = RefreshError err \<and> \<not> isNonRetryable err)"
proof -
  obtain k where k: "k < length [0..<MaxRetries]" "request ([0..<MaxRetries] ! k) = Refreshed td info"
    "\<forall>j < k. \<exists>err. request ([0..<MaxRetries] ! j) = RefreshError err \<and> \<not> isNonRetryable err"
    using refresh_attempts_Refreshed [OF assms [unfolded RefreshWithRetry_def]] by blast
  show ?thesis by (rule exI [of _ k]) (use k in \<open>auto simp del: upt_Suc\<close>)
qed

definition demo_td :: TokenData where
  "demo_td = \<lparr>td_AccessToken = ''at'', td_RefreshToken = ''rt'', td_IDToken = ''id'',
     td_ExpiresAt = hour\<rparr>"

definition demo_info :: AccountInfo where
  "demo_info = \<lparr>info_Email = ''e'', info_ChatGPTAccountID = '''', info_PlanType = ''plus''\<rparr>"

lemma refresh_retries_bounded_witness:
  "\<exists>k < 3. (\<lambda>i. if i = 1 then Refreshed demo_td demo_info else RefreshError ''timeout'') (k :: nat)
     = Refreshed demo_td demo_info"
proof -
  have "RefreshWithRetry (\<lambda>i. if i = 1 then Refreshed demo_td demo_info else RefreshError ''timeout'')
      (\<lambda>_. None) = Refreshed demo_td demo_info" by code_simp
  from refresh_retries_bounded [OF this] show ?thesis by blast
qed

section \<open>Cooldown\<close>

text \<open>
  A cooldown that is running when a refresh starts survives it, with its end and its reason
  (unless the premium 5-hour window replaces it), whatever happens while the request is under way.
\<close>

theorem refresh_keeps_running_cooldown:
  assumes "Status (st_heap s ad) = StatusCooldown" "now < CooldownUtil (st_heap s ad)"
    and "\<not> premium5hCooldownSuppressedLocked (st_heap s ad) now"
    and "snd (GetAccessToken (tokenCache s) (DBID (st_heap s ad)) now) = ''''"
    and "snd (AcquireRefreshLock (tokenCache s) (DBID (st_heap s ad)) (30 * second) now)"
    and "refreshAccount others cancelled during (Refreshed td info) s ad now later = (s', err)"
  shows "err = None \<and> Status (st_heap s' ad) = StatusCooldown \<and>
    CooldownUtil (st_heap s' ad) = CooldownUtil (st_heap s ad) \<and>
    CooldownReason (st_heap s' ad) = CooldownReason (st_heap s ad) \<and>
    AccessToken (st_heap s' ad) = td_AccessToken td"
proof -
  have "rv_activeCooldown (view_account (st_heap s ad) now)"
    using assms(1-3) by (simp add: view_account_def)
  moreover have "rv_cooldownUntil (view_account (st_heap s ad) now) = CooldownUtil (st_heap s ad)"
    "rv_cooldownReason (view_account (st_heap s ad) now) = CooldownReason (st_heap s ad)"
    by (simp_all add: view_account_def)
  moreover obtain tc where "err = None" "s' = release_lock (DBID (st_heap s ad))
      (refresh_done ad (view_account (st_heap s ad) now) td info later (during (s\<lparr>tokenCache := tc\<rparr>)))"
    using refresh_leader_done [OF assms(4-6)] .
  ultimately show ?thesis by simp
qed

lemma refresh_keeps_running_cooldown_witness:
  "Status (st_heap (fst (refreshAccount (\<lambda>_ tc. tc) (\<lambda>_. False) (\<lambda>s. s) (Refreshed demo_td demo_info)
     (MarkCooldown (demo_store True) 1 hour ''rate_limited'' 100) 1 200 300)) 1) = StatusCooldown"
proof -
  let ?s = "MarkCooldown (demo_store True) 1 hour ''rate_limited'' 100"
  let ?out = "refreshAccount (\<lambda>_ tc. tc) (\<lambda>_. False) (\<lambda>s. s) (Refreshed demo_td demo_info) ?s 1 200 300"
  have "Status (st_heap ?s 1) = StatusCooldown" "200 < CooldownUtil (st_heap ?s 1)"
    "\<not> premium5hCooldownSuppressedLocked (st_heap ?s 1) 200"
    "snd (GetAccessToken (tokenCache ?s) (DBID (st_heap ?s 1)) 200) = ''''"
    "snd (AcquireRefreshLock (tokenCache ?s) (DBID (st_heap ?s 1)) (30 * second) 200)"
    by code_simp+
  from refresh_keeps_running_cooldown [OF this, of _ _ _ demo_td demo_info 300 "fst ?out" "snd ?out"]
  show ?thesis by simp
qed

text \<open>
  A cooldown that starts while a refresh is under way is lost. The refresh writes back the
  state it saw before its request, so whatever the account went through in the meantime (a rate
  limit, a 401), it ends up ready, without a cooldown.
\<close>

theorem refresh_drops_concurrent_cooldown:
  assumes "Status (st_heap s ad) \<noteq> StatusCooldown"
    and "snd (GetAccessToken (tokenCache s) (DBID (st_heap s ad)) now) = ''''"
    and "snd (AcquireRefreshLock (tokenCache s) (DBID (st_heap s ad)) (30 * second) now)"
    and "refreshAccount others cancelled during (Refreshed td info) s ad now later = (s', err)"
  shows "Status (st_heap s' ad) = StatusReady \<and> CooldownUtil (st_heap s' ad) = 0 \<and>
    CooldownReason (st_heap s' ad) = ''''"
proof -
  have "\<not> rv_activeCooldown (view_account (st_heap s ad) now)"
    using assms(1) by (simp add: view_account_def)
  moreover obtain tc where "s' = release_lock (DBID (st_heap s ad))
      (refresh_done ad (view_account (st_heap s ad) now) td info later (during (s\<lparr>tokenCache := tc\<rparr>)))"
    using refresh_leader_done [OF assms(2-4)] .
  ultimately show ?thesis by simp
qed

lemma refresh_drops_concurrent_cooldown_witness:
  "Status (st_heap (fst (refreshAccount (\<lambda>_ tc. tc) (\<lambda>_. False)
     (\<lambda>s. MarkCooldown s 1 hour ''rate_limited'' 250) (Refreshed demo_td demo_info)
     (demo_store True) 1 200 300)) 1) = StatusReady \<and>
   Status (st_heap (MarkCooldown (demo_store True) 1 hour ''rate_limited'' 250) 1) = StatusCooldown"
proof -
  let ?s = "demo_store True"
  let ?out = "refreshAccount (\<lambda>_ tc. tc) (\<lambda>_. False) (\<lambda>s. MarkCooldown s 1 hour ''rate_limited'' 250)
    (Refreshed demo_td demo_info) ?s 1 200 300"
  have "Status (st_heap ?s 1) \<noteq> StatusCooldown"
    "snd (GetAccessToken (tokenCache ?s) (DBID (st_heap ?s 1)) 200) = ''''"
    "snd (AcquireRefreshLock (tokenCache ?s) (DBID (st_heap ?s 1)) (30 * second) 200)" by code_simp+
  from refresh_drops_concurrent_cooldown [OF this, of _ _ _ demo_td demo_info 300 "fst ?out" "snd ?out"]
  have "Status (st_heap (fst ?out) 1) = StatusReady" by simp
  moreover have "Status (st_heap (MarkCooldown ?s 1 hour ''rate_limited'' 250) 1) = StatusCooldown"
    by code_simp
  ultimately show ?thesis by blast
qed

section \<open>Publication\<close>

text \<open>
  After a successful refresh the new token is in the cache until five minutes before it
  expires and the refresh lock is free again; within that time a second refresh of the account
  takes the cached token, whatever the token endpoint would answer.
\<close>

theorem refreshed_token_is_shared:
  assumes "snd (GetAccessToken (tokenCache s) (DBID (st_heap s ad)) now) = ''''"
    and "snd (AcquireRefreshLock (tokenCache s) (DBID (st_heap s ad)) (30 * second) now)"
    and "refreshAccount others cancelled during (Refreshed td info) s ad now later = (s', err)"
    and "td_AccessToken td \<noteq> ''''" "\<And>s x. DBID (st_heap (during s) x) = DBID (st_heap s x)"
    and "5 * minute < td_ExpiresAt td - later" "\<bar>td_ExpiresAt td - later\<bar> < 2 ^ 63"
    and "m \<le> td_ExpiresAt td - 5 * minute"
  shows "snd (GetAccessToken (tokenCache s') (DBID (st_heap s ad)) m) = td_AccessToken td \<and>
    snd (AcquireRefreshLock (tokenCache s') (DBID (st_heap s ad)) (30 * second) m) \<and>
    AccessToken (st_heap (fst (refreshAccount others' cancelled' during' answer s' ad m m')) ad)
      = td_AccessToken td"
proof -
  let ?k = "DBID (st_heap s ad)"
  let ?ttl = "td_ExpiresAt td - later - 5 * minute"
  have v: "rv_dbID (view_account (st_heap s ad) now) = ?k" by (simp add: view_account_def)
  obtain tc0 where s'0: "s' = release_lock ?k
      (refresh_done ad (view_account (st_heap s ad) now) td info later (during (s\<lparr>tokenCache := tc0\<rparr>)))"
    using refresh_leader_done [OF assms(1-3)] .
  define s1 where "s1 = during (s\<lparr>tokenCache := tc0\<rparr>)"
  note s' = s'0 [folded s1_def]
  have "DBID (st_heap s1 ad) = ?k" by (simp add: s1_def assms(5))
  then have k': "DBID (st_heap s' ad) = ?k" by (simp add: s')
  have tc: "tokenCache s' =
      ReleaseRefreshLock (SetAccessToken (tokenCache s1) ?k (td_AccessToken td) ?ttl later) ?k"
    using assms(6,7) by (simp add: s' release_lock_def v go_sub_exact)
  have g: "snd (GetAccessToken (tokenCache s') ?k m) = td_AccessToken td"
    unfolding tc by (rule mem.published_token) (use assms(6,8) in simp_all)
  have l: "snd (AcquireRefreshLock (tokenCache s') ?k (30 * second) m)"
    unfolding tc by (rule mem.lock_free)
  obtain tc1 where gg: "GetAccessToken (tokenCache s') ?k m = (tc1, td_AccessToken td)"
    using g by (metis prod.collapse)
  have v': "rv_dbID (view_account (st_heap s' ad) m) = ?k" by (simp add: view_account_def k')
  have "refreshAccount others' cancelled' during' answer s' ad m m' =
      (use_cached ad (view_account (st_heap s' ad) m) (td_AccessToken td) m (s'\<lparr>tokenCache := tc1\<rparr>), None)"
    using assms(4) by (simp add: refreshAccount_def Let_def v' gg)
  then have "AccessToken (st_heap (fst (refreshAccount others' cancelled' during' answer s' ad m m')) ad)
      = td_AccessToken td" by (simp add: use_cached_def Let_def)
  with g l show ?thesis by blast
qed

lemma refreshed_token_is_shared_witness:
  "AccessToken (st_heap (fst (refreshAccount (\<lambda>_ tc. tc) (\<lambda>_. False) (\<lambda>s. s) (RefreshError ''down'')
     (fst (refreshAccount (\<lambda>_ tc. tc) (\<lambda>_. False) (\<lambda>s. s) (Refreshed demo_td demo_info)
        (demo_store True) 1 200 300)) 1 minute minute)) 1) = ''at''"
proof -
  let ?s = "demo_store True"
  let ?out = "refreshAccount (\<lambda>_ tc. tc) (\<lambda>_. False) (\<lambda>s. s) (Refreshed demo_td demo_info) ?s 1 200 300"
  have 1: "snd (GetAccessToken (tokenCache ?s) (DBID (st_heap ?s 1)) 200) = ''''"
    "snd (AcquireRefreshLock (tokenCache ?s) (DBID (st_heap ?s 1)) (30 * second) 200)"
    "td_AccessToken demo_td \<noteq> ''''" by code_simp+
  have 2: "?out = (fst ?out, snd ?out)" by simp
  from refreshed_token_is_shared [OF 1(1,2) 2 1(3), of minute "\<lambda>_ tc. tc" "\<lambda>_. False" "\<lambda>s. s"
      "RefreshError ''down''" minute]
  show ?thesis by (simp add: demo_td_def)
qed

section \<open>Recovery\<close>

lemma recovered_not_banned: "\<not> IsBanned (recovered_locked a b n)"
  by (simp add: recovered_locked_def IsBanned_def Let_def)

text \<open>
  A recovery probe that succeeds lifts the ban of an account with quota left, but nobody tells
  the fast scheduler: the scheduler is what it was before the probe, so an account that had no
  entry stays out of rotation until another event or the next rebuild.
\<close>

theorem recovery_lifts_ban_unscheduled:
  assumes "NeedsRecoveryProbe (st_heap s ad) (GetRecoveryProbeInterval s) now"
    and "\<not> NeedsRefresh (st_heap s ad) now" "\<not> usageExhaustedLocked (st_heap s ad)"
  shows "\<not> IsBanned (st_heap (recovery_probe_one refresh (\<lambda>s. (s, True)) s ad now later) ad) \<and>
    getFastScheduler (recovery_probe_one refresh (\<lambda>s. (s, True)) s ad now later) = getFastScheduler s"
proof -
  let ?a = "(st_heap s ad)\<lparr>recoveryProbeInFlight := True, LastRecoveryProbeAt := now\<rparr>"
  have t: "TryBeginRecoveryProbe (st_heap s ad) now = (True, ?a)"
    using assms(1) by (simp add: NeedsRecoveryProbe_def TryBeginRecoveryProbe_def split: if_splits)
  have e: "\<not> usageExhaustedLocked ?a" "\<not> NeedsRefresh ?a now"
    using assms(2,3) by (simp_all add: usageExhaustedLocked_def NeedsRefresh_def)
  have b: "IsBanned (FinishRecoveryProbe x) = IsBanned x" for x
    by (simp add: FinishRecoveryProbe_def IsBanned_def)
  show ?thesis
    using assms(1) by (simp add: recovery_probe_one_def t e b recovered_not_banned Let_def)
qed

definition banned_store :: Store where
  "banned_store = set_account 1 ((st_heap (demo_store True) 1)\<lparr>HealthTier := HealthTierBanned,
     RefreshToken := ''rt'', ExpiresAt := hour\<rparr>) (demo_store True)"

lemma recovery_lifts_ban_unscheduled_witness:
  "IsBanned (st_heap banned_store 1) \<and>
   \<not> IsBanned (st_heap (recovery_probe_one (\<lambda>s. s) (\<lambda>s. (s, True)) banned_store 1 100 200) 1)"
proof -
  have a: "NeedsRecoveryProbe (st_heap banned_store 1) (GetRecoveryProbeInterval banned_store) 100"
    "\<not> NeedsRefresh (st_heap banned_store 1) 100" "\<not> usageExhaustedLocked (st_heap banned_store 1)"
    by code_simp+
  moreover have "IsBanned (st_heap banned_store 1)" by code_simp
  ultimately show ?thesis using recovery_lifts_ban_unscheduled [OF a, of "\<lambda>s. s" 200] by blast
qed

end
