(* ===== verification/Upstream.thy ===== *)
theory Upstream
  imports StoreOps
begin

text \<open>
  \<open>proxy/handler.go\<close>: what the proxy reads out of an upstream response (usage windows in the
  headers, error bodies) and what it does to the account: cooldowns after 401, 402 and 429, usage
  snapshots, the early premium 5-hour limit. A JSON body is known through the third-party package
  gjson only: \<open>ub_str\<close> and \<open>ub_int\<close> are \<open>gjson.GetBytes(body, path).String()\<close> and \<open>.Int()\<close>.
\<close>

section \<open>Responses\<close>

record upstream_body =
  ub_raw :: string
  ub_str :: "string \<Rightarrow> string"
  ub_int :: "string \<Rightarrow> int"

record response =
  rs_StatusCode :: int
  rs_header :: "string \<Rightarrow> string"
  rs_body :: upstream_body

datatype codexRateLimitWindow =
  codexRateLimitWindowUnknown | codexRateLimitWindowShort | codexRateLimitWindow5h | codexRateLimitWindow7d

record codex429Decision =
  cd_Premium5h :: bool
  cd_ResetAt :: time
  cd_Cooldown :: duration

record usageLimitDetails =
  ul_message :: string
  ul_planType :: string
  ul_resetsAt :: int
  ul_resetsInSeconds :: int

record CodexUsageSyncResult =
  us_UsagePct7d :: float64
  us_HasUsage7d :: bool
  us_UsagePct5h :: float64
  us_Reset5hAt :: time
  us_HasUsage5h :: bool
  us_Used5hHeaders :: bool
  us_Persisted5hOnly :: bool
  us_Premium5hRateLimited :: bool

abbreviation week :: duration where "week \<equiv> 604800000000000"

text \<open>The product of two int64 values wraps around.\<close>

definition wrap64 :: "int \<Rightarrow> int" where
  "wrap64 n = (n + 2 ^ 63) mod 2 ^ 64 - 2 ^ 63"

definition seconds_of :: "int \<Rightarrow> duration" where
  "seconds_of secs = wrap64 (secs * second)"

text \<open>\<open>time.Unix(secs, 0)\<close> on the scale of the model, nanoseconds since year 1.\<close>

definition time_unix :: "int \<Rightarrow> time" where
  "time_unix secs = (secs + 62135596800) * second"

text \<open>
  Conversion of a float64 to an int64: it truncates towards zero; a value out of range becomes the
  least int64, as on amd64.
\<close>

definition float_to_int64 :: "float64 \<Rightarrow> int" where
  "float_to_int64 x =
     (let n = (if x < 0 then - \<lfloor>- x\<rfloor> else \<lfloor>x\<rfloor>)
      in if - (2 ^ 63) \<le> n \<and> n < 2 ^ 63 then n else - (2 ^ 63))"

section \<open>Numbers in headers\<close>

text \<open>
  \<open>parseFloat\<close> scans with \<open>fmt.Sscanf(s, "%f", &v)\<close> and keeps 0 when that fails: leading blanks are
  skipped, then the longest token of sign, digits, point, digits and exponent is read and converted
  (\<open>p\<close> is a binary exponent, \<open>P\<close> is read but fails to convert).
  Hexadecimal mantissas, digit separators, infinities and NaN are not modelled; they do not occur in
  a percentage.
\<close>

definition is_digit :: "char \<Rightarrow> bool" where
  "is_digit c \<longleftrightarrow> c \<in> set ''0123456789''"

definition digits_value :: "string \<Rightarrow> int" where
  "digits_value ds = foldl (\<lambda>n c. 10 * n + int (of_char c - 48)) 0 ds"

definition read_sign :: "string \<Rightarrow> int \<times> string" where
  "read_sign s = (case s of c # cs \<Rightarrow> if c = CHR ''-'' then (- 1, cs) else if c = CHR ''+'' then (1, cs) else (1, s)
                  | [] \<Rightarrow> (1, s))"

definition power_of :: "float64 \<Rightarrow> int \<Rightarrow> float64" where
  "power_of b e = (if e < 0 then 1 / b ^ nat (- e) else b ^ nat e)"

definition parseFloat :: "string \<Rightarrow> float64" where
  "parseFloat s =
     (let s = dropWhile (\<lambda>c. c \<in> set [CHR 0x09, CHR 0x0B, CHR 0x0C, CHR 0x0D, CHR 0x20]) s;
          (sg, s) = read_sign s;
          whole = takeWhile is_digit s;
          s = dropWhile is_digit s;
          (frac, s) = (case s of c # cs \<Rightarrow> if c = CHR ''.'' then (takeWhile is_digit cs, dropWhile is_digit cs)
                                     else ([], s)
                       | [] \<Rightarrow> ([], s));
          mant = of_int (sg * digits_value (whole @ frac)) * power_of 10 (- int (length frac))
      in if whole @ frac = [] then 0
         else case s of
           c # cs \<Rightarrow>
             if c = CHR ''e'' \<or> c = CHR ''E'' \<or> c = CHR ''p'' \<or> c = CHR ''P'' then
               (let (esg, cs) = read_sign cs; es = takeWhile is_digit cs
                in if es = [] \<or> c = CHR ''P'' then 0
                   else mant * power_of (if c = CHR ''p'' then 2 else 10) (esg * digits_value es))
             else mant
         | [] \<Rightarrow> mant)"

section \<open>Usage windows\<close>

definition codexWindowType :: "float64 \<Rightarrow> codexRateLimitWindow" where
  "codexWindowType windowMinutes =
     (if windowMinutes \<ge> 1440 then codexRateLimitWindow7d
      else if windowMinutes \<ge> 60 then codexRateLimitWindow5h
      else if windowMinutes > 0 then codexRateLimitWindowShort
      else codexRateLimitWindowUnknown)"

record codexWindowUsage =
  cw_usedPct :: float64
  cw_resetSec :: float64
  cw_windowMin :: float64
  cw_valid :: bool

definition no_window :: codexWindowUsage where
  "no_window = \<lparr>cw_usedPct = 0, cw_resetSec = 0, cw_windowMin = 0, cw_valid = False\<rparr>"

definition parseCodexWindowUsage :: "string \<Rightarrow> string \<Rightarrow> string \<Rightarrow> codexWindowUsage" where
  "parseCodexWindowUsage usedStr windowStr resetStr =
     (if usedStr = '''' then no_window
      else \<lparr>cw_usedPct = parseFloat usedStr, cw_resetSec = parseFloat resetStr,
            cw_windowMin = parseFloat windowStr, cw_valid = True\<rparr>)"

text \<open>The two groups of headers.\<close>

definition primary_window :: "response \<Rightarrow> codexWindowUsage" where
  "primary_window resp = parseCodexWindowUsage
     (rs_header resp ''x-codex-primary-used-percent'')
     (rs_header resp ''x-codex-primary-window-minutes'')
     (rs_header resp ''x-codex-primary-reset-after-seconds'')"

definition secondary_window :: "response \<Rightarrow> codexWindowUsage" where
  "secondary_window resp = parseCodexWindowUsage
     (rs_header resp ''x-codex-secondary-used-percent'')
     (rs_header resp ''x-codex-secondary-window-minutes'')
     (rs_header resp ''x-codex-secondary-reset-after-seconds'')"

definition exhausted_windows :: "response \<Rightarrow> codexWindowUsage list" where
  "exhausted_windows resp =
     filter (\<lambda>w. cw_valid w \<and> cw_usedPct w \<ge> 100) [primary_window resp, secondary_window resp]"

definition classifyCodex429Window :: "response option \<Rightarrow> time \<Rightarrow> codexRateLimitWindow \<times> time \<times> bool" where
  "classifyCodex429Window resp now =
     (case resp of
        None \<Rightarrow> (codexRateLimitWindowUnknown, 0, False)
      | Some resp \<Rightarrow>
          case exhausted_windows resp of
            [] \<Rightarrow> (codexRateLimitWindowUnknown, 0, False)
          | first # rest \<Rightarrow>
              let chosen = foldl (\<lambda>chosen candidate.
                    if cw_windowMin candidate > cw_windowMin chosen then candidate else chosen) first rest;
                  resetAt = (if cw_resetSec chosen > 0
                             then now + seconds_of (float_to_int64 (cw_resetSec chosen)) else 0)
              in (codexWindowType (cw_windowMin chosen), resetAt, \<not> is_zero resetAt))"

definition responseHasCodex5hHeaders :: "response option \<Rightarrow> bool" where
  "responseHasCodex5hHeaders resp =
     (case resp of
        None \<Rightarrow> False
      | Some resp \<Rightarrow>
          (let primary = primary_window resp; secondary = secondary_window resp
           in (cw_valid primary \<and> codexWindowType (cw_windowMin primary) = codexRateLimitWindow5h) \<or>
              (cw_valid secondary \<and> codexWindowType (cw_windowMin secondary) = codexRateLimitWindow5h)))"

text \<open>Which window is taken for the 5-hour and which for the weekly one.\<close>

definition normalize_windows :: "codexWindowUsage \<Rightarrow> codexWindowUsage \<Rightarrow> codexWindowUsage \<times> codexWindowUsage" where
  "normalize_windows primary secondary =
     (let small = (\<lambda>w. cw_windowMin w \<le> 360 \<and> cw_windowMin w > 0)
      in if cw_valid primary \<and> cw_valid secondary then
           (if cw_windowMin primary \<ge> cw_windowMin secondary then (secondary, primary)
            else (primary, secondary))
         else if cw_valid primary then (if small primary then (primary, no_window) else (no_window, primary))
         else if cw_valid secondary then (if small secondary then (secondary, no_window) else (no_window, secondary))
         else (no_window, no_window))"

definition parseCodexUsageHeaders :: "response \<Rightarrow> account \<Rightarrow> time \<Rightarrow> account \<times> (float64 \<times> bool)" where
  "parseCodexUsageHeaders resp a now =
     (let (w5h, w7d) = normalize_windows (primary_window resp) (secondary_window resp);
          a = (if cw_valid w5h
               then SetUsageSnapshot5h a (cw_usedPct w5h)
                      (now + seconds_of (float_to_int64 (cw_resetSec w5h)))
               else a)
      in if cw_valid w7d
         then (SetUsageSnapshot
                 (a\<lparr>Reset7dAt := now + seconds_of (float_to_int64 (cw_resetSec w7d))\<rparr>)
                 (cw_usedPct w7d) now, cw_usedPct w7d, True)
         else (a, 0, False))"

definition GetUsageSnapshot5h :: "account \<Rightarrow> float64 \<times> time \<times> bool" where
  "GetUsageSnapshot5h a =
     (if \<not> UsagePercent5hValid a then (0, 0, False) else (UsagePercent5h a, Reset5hAt a, True))"

definition SyncCodexUsageState ::
  "Store \<Rightarrow> addr \<Rightarrow> response option \<Rightarrow> time \<Rightarrow> Store \<times> CodexUsageSyncResult" where
  "SyncCodexUsageState s ad resp now =
     (case resp of
        None \<Rightarrow> (s, \<lparr>us_UsagePct7d = 0, us_HasUsage7d = False, us_UsagePct5h = 0, us_Reset5hAt = 0,
                    us_HasUsage5h = False, us_Used5hHeaders = False, us_Persisted5hOnly = False,
                    us_Premium5hRateLimited = False\<rparr>)
      | Some rs \<Rightarrow>
          let used5h = responseHasCodex5hHeaders resp;
              (a, pct7d, has7d) = parseCodexUsageHeaders rs (st_heap s ad) now;
              s = set_account ad a s;
              s = (if used5h then fst (InferPremiumPlanFromHeaders s ad) else s);
              s = (if has7d then PersistUsageSnapshot s ad pct7d now
                   else if used5h then PersistUsageSnapshot5hOnly s ad now else s);
              (pct5h, reset5hAt, has5h) = GetUsageSnapshot5h (st_heap s ad);
              limited = (used5h \<and> isPremium5hPlan (PlanType (st_heap s ad)) \<and> has5h \<and> pct5h \<ge> 100);
              s = (if limited then MarkPremium5hRateLimited s ad reset5hAt now else s)
          in (s, \<lparr>us_UsagePct7d = pct7d, us_HasUsage7d = has7d, us_UsagePct5h = pct5h,
                  us_Reset5hAt = reset5hAt, us_HasUsage5h = has5h, us_Used5hHeaders = used5h,
                  us_Persisted5hOnly = (\<not> has7d \<and> used5h), us_Premium5hRateLimited = limited\<rparr>))"


section \<open>Error bodies\<close>

definition parseRetryAfter :: "upstream_body \<Rightarrow> time \<Rightarrow> duration" where
  "parseRetryAfter body now =
     (if ub_raw body = '''' then 2 * minute
      else
        let resetsAt = ub_int body ''error.resets_at'';
            secs = ub_int body ''error.resets_in_seconds''
        in if resetsAt > 0 \<and> time_unix resetsAt > now \<and> go_sub (time_unix resetsAt) now > 0
           then go_sub (time_unix resetsAt) now
           else if secs > 0 then seconds_of secs
           else 2 * minute)"

text \<open>
  \<open>strings.EqualFold\<close> also folds the Kelvin sign and the long s, which \<open>fold_letters\<close> rewrites
  first.
\<close>

fun fold_letters :: "string \<Rightarrow> string" where
  "fold_letters (a # b # c # s) =
     (if a = CHR 0xE2 \<and> b = CHR 0x84 \<and> c = CHR 0xAA then CHR ''k'' # fold_letters s
      else if a = CHR 0xC5 \<and> b = CHR 0xBF then CHR ''s'' # fold_letters (c # s)
      else a # fold_letters (b # c # s))"
| "fold_letters [a, b] = (if a = CHR 0xC5 \<and> b = CHR 0xBF then [CHR ''s''] else [a, b])"
| "fold_letters s = s"

definition isDeactivatedWorkspace :: "upstream_body \<Rightarrow> bool" where
  "isDeactivatedWorkspace body \<longleftrightarrow>
     ub_raw body \<noteq> '''' \<and>
     (equal_fold (fold_letters (trim_space (ub_str body ''detail.code''))) ''deactivated_workspace'' \<or>
      equal_fold (fold_letters (trim_space (ub_str body ''error.code''))) ''deactivated_workspace'')"

definition isMissingScopeUnauthorized :: "upstream_body \<Rightarrow> bool" where
  "isMissingScopeUnauthorized body \<longleftrightarrow>
     (if ub_raw body = '''' then False
      else
        let code = to_lower (trim_space (ub_str body ''error.code''))
        in if code \<noteq> ''missing_scope'' then False
           else
             let msg = to_lower (ub_str body ''error.message'')
             in contains msg ''api.responses.write'' \<or> contains msg ''scope'')"

definition parseRetryAfterResetAt :: "upstream_body \<Rightarrow> time \<Rightarrow> time option" where
  "parseRetryAfterResetAt body now =
     (if ub_raw body = '''' then None
      else
        let resetsAt = ub_int body ''error.resets_at'';
            secs = ub_int body ''error.resets_in_seconds''
        in if resetsAt > 0 \<and> time_unix resetsAt > now then Some (time_unix resetsAt)
           else if secs > 0 then Some (now + seconds_of secs)
           else None)"

definition parseUsageLimitDetails :: "upstream_body \<Rightarrow> usageLimitDetails option" where
  "parseUsageLimitDetails body =
     (if ub_raw body = '''' then None
      else if ub_str body ''error.type'' \<noteq> ''usage_limit_reached'' then None
      else Some \<lparr>ul_message = ub_str body ''error.message'',
                 ul_planType = ub_str body ''error.plan_type'',
                 ul_resetsAt = ub_int body ''error.resets_at'',
                 ul_resetsInSeconds = ub_int body ''error.resets_in_seconds''\<rparr>)"

definition isRetryableStatus :: "int \<Rightarrow> bool" where
  "isRetryableStatus code \<longleftrightarrow> code = 429 \<or> code = 503 \<or> code = 401 \<or> code = 500"

definition isUpstreamToolNotSupported :: "int \<Rightarrow> upstream_body \<Rightarrow> bool" where
  "isUpstreamToolNotSupported statusCode errBody \<longleftrightarrow>
     statusCode = 400 \<and> contains (ub_raw errBody) ''Tool choice'' \<and>
     contains (ub_raw errBody) (''not found in '' @ [CHR 0x27] @ ''tools'' @ [CHR 0x27] @ '' parameter'')"

section \<open>Cooldowns\<close>

definition windowMinutesToCooldown :: "float64 \<Rightarrow> duration" where
  "windowMinutesToCooldown windowMinutes =
     (if windowMinutes \<ge> 1440 then week else if windowMinutes \<ge> 60 then 5 * hour else 30 * minute)"

definition detectTeamCooldownWindow :: "response option \<Rightarrow> duration" where
  "detectTeamCooldownWindow resp =
     (case resp of
        None \<Rightarrow> 5 * hour
      | Some resp \<Rightarrow>
          let primaryUsed = parseFloat (rs_header resp ''x-codex-primary-used-percent'');
              primaryWindowMin = parseFloat (rs_header resp ''x-codex-primary-window-minutes'');
              secondaryUsed = parseFloat (rs_header resp ''x-codex-secondary-used-percent'');
              secondaryWindowMin = parseFloat (rs_header resp ''x-codex-secondary-window-minutes'')
          in if primaryUsed \<ge> 100 \<and> secondaryUsed \<ge> 100
             then windowMinutesToCooldown (max primaryWindowMin secondaryWindowMin)
             else if primaryUsed \<ge> 100 then windowMinutesToCooldown primaryWindowMin
             else if secondaryUsed \<ge> 100 then windowMinutesToCooldown secondaryWindowMin
             else 5 * hour)"

definition compute429Cooldown :: "account \<Rightarrow> upstream_body \<Rightarrow> response option \<Rightarrow> time \<Rightarrow> duration" where
  "compute429Cooldown a body resp now =
     (let resetDuration = parseRetryAfter body now
      in if resetDuration > 2 * minute then (if resetDuration > week then week else resetDuration)
         else
           let planType = to_lower (PlanType a)
           in if planType = ''free'' then
                (let reset = Reset7dAt a; d = go_sub reset now
                 in if \<not> is_zero reset \<and> d > 0 \<and> d \<le> week then d else week)
              else if planType \<in> set [''team'', ''teamplus'', ''pro'', ''plus'', ''enterprise'']
              then detectTeamCooldownWindow resp
              else 5 * hour)"

definition classify429RateLimit ::
  "account \<Rightarrow> upstream_body \<Rightarrow> response option \<Rightarrow> time \<Rightarrow> codex429Decision" where
  "classify429RateLimit a body resp now =
     (let plain = \<lparr>cd_Premium5h = False, cd_ResetAt = 0, cd_Cooldown = compute429Cooldown a body resp now\<rparr>;
          premium = (\<lambda>resetAt. \<lparr>cd_Premium5h = True, cd_ResetAt = resetAt, cd_Cooldown = go_sub resetAt now\<rparr>)
      in if \<not> isPremium5hPlan (PlanType a) then plain
         else
           let (windowType, resetAt, hasWindowReset) = classifyCodex429Window resp now;
               exactReset = parseRetryAfterResetAt body now
           in case windowType of
                codexRateLimitWindow5h \<Rightarrow>
                  premium (case exactReset of
                             Some exactResetAt \<Rightarrow> exactResetAt
                           | None \<Rightarrow> if \<not> hasWindowReset then now + 5 * hour else resetAt)
              | codexRateLimitWindow7d \<Rightarrow> plain
              | codexRateLimitWindowShort \<Rightarrow> plain
              | codexRateLimitWindowUnknown \<Rightarrow>
                  (case exactReset of
                     Some exactResetAt \<Rightarrow> premium exactResetAt
                   | None \<Rightarrow> premium (now + 5 * hour)))"

definition Apply429Cooldown ::
  "Store \<Rightarrow> addr \<Rightarrow> upstream_body \<Rightarrow> response option \<Rightarrow> time \<Rightarrow> Store \<times> codex429Decision" where
  "Apply429Cooldown s ad body resp now =
     (let decision = classify429RateLimit (st_heap s ad) body resp now;
          s = (case parseUsageLimitDetails body of
                 Some details \<Rightarrow> if ul_planType details \<noteq> ''''
                                then fst (SyncAccountPlanType s ad (ul_planType details) now) else s
               | None \<Rightarrow> s)
      in if cd_Premium5h decision then (MarkPremium5hRateLimited s ad (cd_ResetAt decision) now, decision)
         else (MarkCooldown s ad (cd_Cooldown decision) ''rate_limited'' now, decision))"

text \<open>An account that is taken out of the pool at once; the handler shares the store's database.\<close>

definition drop_account :: "Store \<Rightarrow> addr \<Rightarrow> string \<Rightarrow> Store" where
  "drop_account s ad note =
     (let dbID = DBID (st_heap s ad);
          s = log_db (DbSetError dbID ''deleted'') s;
          s = log_db (DbInsertAccountEvent dbID ''deleted'' note) s
      in RemoveAccount s dbID)"

definition set_disabled :: "addr \<Rightarrow> int \<Rightarrow> Store \<Rightarrow> Store" where
  "set_disabled ad v s = set_account ad ((st_heap s ad)\<lparr>Disabled := v\<rparr>) s"

definition applyCooldown ::
  "Store \<Rightarrow> addr \<Rightarrow> int \<Rightarrow> upstream_body \<Rightarrow> response option \<Rightarrow> time \<Rightarrow> Store" where
  "applyCooldown s ad statusCode body resp now =
     (if statusCode = 429 then fst (Apply429Cooldown s ad body resp now)
      else if statusCode = 401 then
        (let s = set_disabled ad 1 s
         in if isMissingScopeUnauthorized body then set_disabled ad 0 s
            else if autoCleanUnauthorized s then drop_account s ad ''auto_clean_401''
            else MarkCooldown s ad (5 * minute) ''unauthorized'' now)
      else if statusCode = 402 then
        (if \<not> isDeactivatedWorkspace body then s
         else
           let s = set_disabled ad 1 s
           in if autoCleanUnauthorized s then drop_account s ad ''auto_clean_deactivated_workspace''
              else MarkCooldown s ad week ''deactivated_workspace'' now)
      else s)"

end
