(* ===== verification/UpstreamLaws.thy ===== *)
theory UpstreamLaws
  imports AccountLaws StoreLaws Upstream
begin

text \<open>
  What an upstream error does to the account: the length of a cooldown after 429, the end of an
  account after 401, the limited state of a premium account whose 5-hour window is used up.
\<close>

section \<open>Lengths of cooldowns\<close>

lemma windowMinutesToCooldown_bounds [simp]:
  "30 * minute \<le> windowMinutesToCooldown m" "windowMinutesToCooldown m \<le> week"
  by (simp_all add: windowMinutesToCooldown_def)

lemma detect_bounds:
  "30 * minute \<le> detectTeamCooldownWindow resp \<and> detectTeamCooldownWindow resp \<le> week"
  using windowMinutesToCooldown_bounds [simplified]
  by (simp add: detectTeamCooldownWindow_def Let_def split: option.split)

lemma wrap64_small: "- (2 ^ 63) \<le> n \<Longrightarrow> n < 2 ^ 63 \<Longrightarrow> wrap64 n = n"
  by (simp add: wrap64_def)


text \<open>
  A retry hint of at most two minutes is lost: the upstream says that the account may be used
  again in a minute, and the account gets the cooldown of a 429 that says nothing (five hours without
  headers and with an unknown plan, a week for a free account without a known reset).
\<close>

theorem short_retry_hint_ignored:
  assumes "ub_int body ''error.resets_at'' \<le> 0"
    and "0 < ub_int body ''error.resets_in_seconds''" "ub_int body ''error.resets_in_seconds'' \<le> 120"
  shows "compute429Cooldown a body resp now = compute429Cooldown a (body\<lparr>ub_raw := ''''\<rparr>) resp now \<and>
    (PlanType a = '''' \<longrightarrow> compute429Cooldown a body resp now = 5 * hour)"
proof -
  have "seconds_of (ub_int body ''error.resets_in_seconds'') \<le> 2 * minute"
    unfolding seconds_of_def by (subst wrap64_small) (use assms in auto)
  then show ?thesis
    using assms(1,2) by (simp add: compute429Cooldown_def parseRetryAfter_def to_lower_def Let_def)
qed

section \<open>A rejected account\<close>

lemma fastSchedulerUpdate_other [simp]:
  "Disabled (st_heap (fastSchedulerUpdate ad n s) x) = Disabled (st_heap s x)"
  "CooldownUtil (st_heap (fastSchedulerUpdate ad n s) x) = CooldownUtil (st_heap s x)"
  "CooldownReason (st_heap (fastSchedulerUpdate ad n s) x) = CooldownReason (st_heap s x)"
  "HealthTier (st_heap (fastSchedulerUpdate ad n s) x) = HealthTierBanned
     \<longleftrightarrow> HealthTier (st_heap s x) = HealthTierBanned"
  by (auto simp: fastSchedulerUpdate_heap snapped_eq split: option.split)

lemma snap_banned: "HealthTier a = HealthTierBanned \<Longrightarrow> \<not> sn_available (snap a b n)"
  using snap_available_not_banned [of a b n] by (auto simp: snap_tier snapped_eq split: if_splits)

lemma MarkCooldown_unauthorized:
  assumes "a = st_heap (MarkCooldown s ad d ''unauthorized'' now) ad"
  shows "HealthTier a = HealthTierBanned" "Disabled a = Disabled (st_heap s ad)"
    "Status a = StatusCooldown" "now + 6 * hour \<le> CooldownUtil a" "CooldownUtil a \<le> now + day"
  unfolding assms
  by (simp_all add: MarkCooldown_def SetCooldownUntil_def mark_cooldown_locked_def Let_def case_prod_beta)

text \<open>
  C15. An account that the upstream rejects (401, unless the body complains about a missing scope)
  is out: with automatic cleaning it leaves the pool; without, it is banned with a cooldown of 6 to
  24 hours and neither way of choosing an account takes it, at any time, until something lifts the
  ban.
\<close>

theorem rejected_account_is_out:
  assumes "store_inv s" and "ad \<in> set (accounts s)" and "\<not> isMissingScopeUnauthorized body"
    and "s' = applyCooldown s ad 401 body resp now"
  shows "if autoCleanUnauthorized s then ad \<notin> set (accounts s')
    else HealthTier (st_heap s' ad) = HealthTierBanned \<and>
      now + 6 * hour \<le> CooldownUtil (st_heap s' ad) \<and> CooldownUtil (st_heap s' ad) \<le> now + day \<and>
      (\<forall>t b. \<not> IsAvailable (st_heap s' ad) t \<and> \<not> sn_available (snap (st_heap s' ad) b t))"
proof (cases "autoCleanUnauthorized s")
  case True
  let ?s = "log_db (DbInsertAccountEvent (DBID (st_heap s ad)) ''deleted'' ''auto_clean_401'')
    (log_db (DbSetError (DBID (st_heap s ad)) ''deleted'') (set_disabled ad 1 s))"
  have "s' = RemoveAccount ?s (DBID (st_heap s ad))"
    using True assms(3,4)
    by (simp add: applyCooldown_def drop_account_def set_disabled_def Let_def set_account_def)
  moreover have "store_inv ?s" using assms(1) by (simp add: set_disabled_def store_inv_set_account)
  ultimately show ?thesis
    using True RemoveAccount_accounts(1) [of ?s "DBID (st_heap s ad)"] by (simp add: set_disabled_def)
next
  case False
  then have s': "s' = MarkCooldown (set_disabled ad 1 s) ad (5 * minute) ''unauthorized'' now"
    using assms(3,4) by (simp add: applyCooldown_def set_disabled_def Let_def set_account_def)
  note m = MarkCooldown_unauthorized [where s = "set_disabled ad 1 s" and ad = ad and d = "5 * minute" and now = now, OF refl,
    folded s']
  have "\<not> IsAvailable (st_heap s' ad) t" for t by (simp add: IsAvailable_def m(1))
  with m snap_banned [OF m(1)] False show ?thesis by simp
qed


text \<open>
  A premium account that hits its 5-hour limit without any hint of when it ends stays in
  rotation at one request at a time: for five hours its limit is 1 and it counts as limited, its
  cooldown for a rate limit is lifted, and it is never banned by this.
\<close>

theorem premium_429_throttles:
  assumes "isPremium5hPlan (PlanType (st_heap s ad))" and "HealthTier (st_heap s ad) \<noteq> HealthTierBanned"
    and "ub_raw body = ''''" and "0 < now"
    and "(s', decision) = Apply429Cooldown s ad body None now"
  shows "cd_Premium5h decision \<and> cd_ResetAt decision = now + 5 * hour \<and>
    HealthTier (st_heap s' ad) = HealthTierRisky \<and> DynamicConcurrencyLimit (st_heap s' ad) = 1 \<and>
    (\<forall>t. premium5hRateLimitedLocked (st_heap s' ad) t \<longleftrightarrow> t < now + 5 * hour)"
proof -
  have d: "decision = \<lparr>cd_Premium5h = True, cd_ResetAt = now + 5 * hour, cd_Cooldown = go_sub (now + 5 * hour) now\<rparr>"
    "s' = MarkPremium5hRateLimited s ad (now + 5 * hour) now"
    using assms(1,3,5)
    by (simp_all add: Apply429Cooldown_def classify429RateLimit_def classifyCodex429Window_def
        parseRetryAfterResetAt_def parseUsageLimitDetails_def Let_def)
  let ?a = "mark_premium5h_locked (st_heap s ad) (maxConcurrency s) now (now + 5 * hour)"
  have lim: "premium5hRateLimitedLocked ?a t \<longleftrightarrow> t < now + 5 * hour" for t
    using assms(1,4) by (simp add: mark_premium5h_locked_def premium5hRateLimitedLocked_def is_zero_def Let_def)
  have banned: "HealthTier ?a \<noteq> HealthTierBanned"
    using assms(2) by (simp add: mark_premium5h_locked_def Let_def)
  have limited: "premium5hRateLimitedLocked ?a now" using lim by simp
  have risky: "HealthTier (recomputeSchedulerLocked ?a b now) = HealthTierRisky \<and>
      DynamicConcurrencyLimit (recomputeSchedulerLocked ?a b now) = 1" for b
    using recompute_premium_tier [OF limited banned] recompute_limit_bounds(4) by simp
  have re: "recomputeSchedulerLocked ?a (maxConcurrency s) now = ?a"
    by (simp add: mark_premium5h_locked_def Let_def)
  have "st_heap s' ad = ?a \<or> (\<exists>b. st_heap s' ad = recomputeSchedulerLocked ?a b now)"
    using assms(4)
    by (auto simp: d(2) MarkPremium5hRateLimited_def fastSchedulerUpdate_heap snapped_eq is_zero_def Let_def
        split: option.split)
  then obtain b where "st_heap s' ad = recomputeSchedulerLocked ?a b now" using re by metis
  with d(1) risky lim show ?thesis by simp
qed

text \<open>Witnesses: a pool of three accounts, one of them on a plus plan.\<close>

definition demo_body :: "int \<Rightarrow> upstream_body" where
  "demo_body secs = \<lparr>ub_raw = ''{}'', ub_str = (\<lambda>_. ''''),
     ub_int = (\<lambda>path. if path = ''error.resets_in_seconds'' then secs else 0)\<rparr>"

definition plus_store :: Store where
  "plus_store = set_account 1 ((st_heap (demo_store True) 1)\<lparr>PlanType := ''plus''\<rparr>) (demo_store True)"

theorem short_retry_hint_ignored_witness:
  "compute429Cooldown zero_account (demo_body 60) None 0 = 5 * hour"
  using short_retry_hint_ignored [of "demo_body 60" zero_account None 0]
  by (simp add: demo_body_def zero_account_def)

theorem rejected_account_is_out_witness:
  "\<not> autoCleanUnauthorized (demo_store True) \<and>
   \<not> IsAvailable (st_heap (applyCooldown (demo_store True) 1 401 (demo_body 0) None 200) 1) 1000"
proof -
  have "\<not> autoCleanUnauthorized (demo_store True)" "\<not> isMissingScopeUnauthorized (demo_body 0)"
    by code_simp+
  with rejected_account_is_out [of "demo_store True" 1 "demo_body 0" _ None 200, OF _ _ _ refl]
  show ?thesis by simp
qed

theorem premium_429_throttles_witness:
  "\<exists>s' decision. (s', decision) = Apply429Cooldown plus_store 1 (demo_body 0\<lparr>ub_raw := ''''\<rparr>) None 200 \<and>
     DynamicConcurrencyLimit (st_heap s' 1) = 1"
proof -
  have "isPremium5hPlan (PlanType (st_heap plus_store 1))"
    "HealthTier (st_heap plus_store 1) \<noteq> HealthTierBanned" by code_simp+
  with premium_429_throttles [of plus_store 1 "demo_body 0\<lparr>ub_raw := ''''\<rparr>" 200]
  show ?thesis by (metis (no_types, lifting) prod.collapse upstream_body.select_convs(1)
      upstream_body.surjective upstream_body.update_convs(1) zero_less_numeral)
qed

end
