(* ===== verification/Dispatch.thy ===== *)
theory Dispatch
  imports Upstream
begin

text \<open>
  \<open>proxy/handler.go\<close> and \<open>proxy/capacity_retry.go\<close>: which accounts a request may use, in which
  order, and the retry loop of \<open>Responses\<close> around the exchange with the upstream. The exchange
  itself, the clock and what the rest of the program does to the pool in the meantime are
  arguments; writing to the client is left out, except for what the loop reads back of it.
\<close>

section \<open>Models and plans\<close>

definition IsPremiumOnlyModel :: "string \<Rightarrow> bool" where
  "IsPremiumOnlyModel model \<longleftrightarrow> to_lower (trim_space model) \<in> set [''gpt-5.5'']"

definition IsEffectivePremiumOnly :: "bool option \<Rightarrow> string \<Rightarrow> bool" where
  "IsEffectivePremiumOnly freeGPT55 model =
     (let m = to_lower (trim_space model)
      in if m \<notin> set [''gpt-5.5''] then False
         else if m = ''gpt-5.5'' \<and> freeGPT55 = Some True then False
         else True)"

text \<open>
  \<open>toolChoice\<close> and \<open>tools\<close> are what gjson finds under \<open>tool_choice.type\<close> and, if \<open>tools\<close> is an
  array, under \<open>type\<close> of its elements.
\<close>

definition bodyRequiresPaidAccount :: "string \<Rightarrow> string \<Rightarrow> string list option \<Rightarrow> bool" where
  "bodyRequiresPaidAccount rawBody toolChoice tools =
     (if rawBody = '''' then False
      else if toolChoice = ''image_generation'' then True
      else case tools of None \<Rightarrow> False | Some ts \<Rightarrow> ''image_generation'' \<in> set ts)"

text \<open>\<open>virtualInjects\<close>: a virtual model is hit and injects the image tool.\<close>

definition planDispatch ::
  "Store \<Rightarrow> string \<Rightarrow> bool \<Rightarrow> bool \<Rightarrow> int set \<Rightarrow> int set \<times> string" where
  "planDispatch s model bodyPaid virtualInjects exclude =
     (let needPaid = IsEffectivePremiumOnly (Some (freeGPT55Enabled s)) model \<or> bodyPaid;
          needPaid = needPaid \<or> virtualInjects
      in if needPaid then (exclude \<union> AccountIDsByPlan s [''free''], '''')
         else if preferPaidEnabled s then (exclude, ''plus,pro,team'')
         else (exclude, ''free''))"

record ModelPlanPolicy =
  mp_Plan :: string
  mp_AllowedPlans :: "string list"
  mp_PreferPlan :: string

text \<open>The switches are \<open>None\<close> when the caller passes no gating.\<close>

definition PolicyForModelWithGating :: "bool option \<Rightarrow> bool option \<Rightarrow> string \<Rightarrow> ModelPlanPolicy" where
  "PolicyForModelWithGating freeGPT55 preferPaid model =
     (if IsEffectivePremiumOnly freeGPT55 model
      then \<lparr>mp_Plan = ''premium_only'', mp_AllowedPlans = [''plus'', ''pro'', ''team''], mp_PreferPlan = ''''\<rparr>
      else if preferPaid = Some True
      then \<lparr>mp_Plan = ''prefer_paid'', mp_AllowedPlans = [''plus'', ''pro'', ''team'', ''free''],
            mp_PreferPlan = ''plus,pro,team''\<rparr>
      else \<lparr>mp_Plan = ''prefer_free'', mp_AllowedPlans = [''free'', ''plus'', ''pro'', ''team''],
            mp_PreferPlan = ''free''\<rparr>)"

text \<open>\<open>strings.Split\<close> at a comma.\<close>

fun split_comma :: "string \<Rightarrow> string list" where
  "split_comma [] = [[]]"
| "split_comma (c # cs) =
     (if c = CHR '','' then [] # split_comma cs
      else case split_comma cs of [] \<Rightarrow> [[c]] | w # ws \<Rightarrow> (c # w) # ws)"

fun prefer_parts :: "string list \<Rightarrow> string list \<Rightarrow> string list" where
  "prefer_parts seen [] = []"
| "prefer_parts seen (p # ps) =
     (let p = to_lower (trim_space p)
      in if p = '''' \<or> p \<in> set seen then prefer_parts seen ps
         else p # prefer_parts (p # seen) ps)"

definition splitPreferPlans :: "string \<Rightarrow> string list" where
  "splitPreferPlans preferPlan =
     (let s = trim_space preferPlan in if s = '''' then [] else prefer_parts [] (split_comma s))"

definition nextAccountForSessionWithPreference ::
  "(nat \<Rightarrow> bool) \<Rightarrow> Store \<Rightarrow> string \<Rightarrow> int set \<Rightarrow> string \<Rightarrow> time
     \<Rightarrow> (Store \<times> addr option \<times> string) option" where
  "nextAccountForSessionWithPreference coin s sessionID exclude preferPlan now =
     (let preferPlans = splitPreferPlans preferPlan;
          nonPref = (if preferPlans \<noteq> [] then AccountIDsExcludingPlans s preferPlans else {});
          ordinary = (\<lambda>s. NextForSession coin s sessionID exclude now)
      in if nonPref = {} then ordinary s
         else case NextForSession coin s sessionID (exclude \<union> nonPref) now of
           None \<Rightarrow> None
         | Some (s, Some ad, sticky) \<Rightarrow> Some (s, Some ad, sticky)
         | Some (s, None, _) \<Rightarrow> ordinary s)"

section \<open>Outcomes\<close>

definition classifyTransportFailure :: "string option \<Rightarrow> string" where
  "classifyTransportFailure err =
     (case err of
        None \<Rightarrow> ''''
      | Some msg \<Rightarrow>
          if contains (to_lower msg) ''timeout'' \<or> contains (to_lower msg) ''deadline exceeded''
          then ''timeout'' else ''transport'')"

definition classifyHTTPFailure :: "int \<Rightarrow> string" where
  "classifyHTTPFailure statusCode =
     (if statusCode = 401 then ''unauthorized''
      else if statusCode = 429 then ''''
      else if statusCode \<ge> 500 then ''server''
      else if statusCode \<ge> 400 then ''client''
      else '''')"

definition capacityErrorMarkers :: "string list" where
  "capacityErrorMarkers =
     [''at capacity'', ''try a different mode'', ''try a different model'', ''currently overloaded'',
      ''servers are currently'', ''try again later'', ''an error occurred while processing your request'']"

definition isCapacityError :: "string \<Rightarrow> bool" where
  "isCapacityError errMsg \<longleftrightarrow>
     errMsg \<noteq> '''' \<and> (\<exists>m \<in> set capacityErrorMarkers. contains (to_lower errMsg) m)"

text \<open>The text of the failure message is for the log only and is left out.\<close>

record streamOutcome =
  so_logStatusCode :: int
  so_failureKind :: string
  so_penalize :: bool

definition classifyStreamOutcome :: "string option \<Rightarrow> string option \<Rightarrow> string option \<Rightarrow> bool \<Rightarrow> streamOutcome" where
  "classifyStreamOutcome ctxErr readErr writeErr gotTerminal =
     (if gotTerminal then \<lparr>so_logStatusCode = 200, so_failureKind = '''', so_penalize = False\<rparr>
      else if ctxErr \<noteq> None \<or> writeErr \<noteq> None
      then \<lparr>so_logStatusCode = 499, so_failureKind = '''', so_penalize = False\<rparr>
      else if readErr \<noteq> None
      then \<lparr>so_logStatusCode = 598,
            so_failureKind = (let kind = classifyTransportFailure readErr
                              in if kind = '''' then ''transport'' else kind),
            so_penalize = True\<rparr>
      else \<lparr>so_logStatusCode = 598, so_failureKind = ''transport'', so_penalize = True\<rparr>)"

definition shouldTransparentRetryStream ::
  "streamOutcome \<Rightarrow> int \<Rightarrow> int \<Rightarrow> bool \<Rightarrow> string option \<Rightarrow> string option \<Rightarrow> bool" where
  "shouldTransparentRetryStream outcome attempt max_retries wroteAnyBody ctxErr writeErr =
     (if attempt \<ge> max_retries then False
      else if \<not> so_penalize outcome then False
      else if wroteAnyBody \<or> ctxErr \<noteq> None \<or> writeErr \<noteq> None then False
      else True)"

section \<open>The stream of an attempt\<close>

text \<open>
  The events of the upstream that the loop looks at: \<open>Failed\<close> carries \<open>error.message\<close>, any other
  type of event is \<open>Other\<close>. \<open>writeErrs\<close> says for each event whether writing it to the client fails.
\<close>

datatype sse_event = Completed | Failed string | Other

record stream_state =
  ss_gotTerminal :: bool
  ss_wroteAnyBody :: bool
  ss_capacityErrMsg :: string
  ss_writeErr :: "string option"

definition fresh_stream :: stream_state where
  "fresh_stream = \<lparr>ss_gotTerminal = False, ss_wroteAnyBody = False, ss_capacityErrMsg = '''',
                   ss_writeErr = None\<rparr>"

text \<open>One event of a stream; the flag says whether reading goes on.\<close>

definition stream_event :: "stream_state \<Rightarrow> sse_event \<Rightarrow> string option \<Rightarrow> stream_state \<times> bool" where
  "stream_event st ev writeErr =
     (let swallowed = (case ev of Failed msg \<Rightarrow> \<not> ss_wroteAnyBody st \<and> isCapacityError msg | _ \<Rightarrow> False)
      in if swallowed
         then (st\<lparr>ss_capacityErrMsg := (case ev of Failed msg \<Rightarrow> msg | _ \<Rightarrow> ''''), ss_gotTerminal := True\<rparr>, False)
         else
           let st = (if ev = Other then st else st\<lparr>ss_gotTerminal := True\<rparr>);
               st = (if ss_writeErr st \<noteq> None then st
                     else case writeErr of
                       Some e \<Rightarrow> st\<lparr>ss_writeErr := Some e\<rparr>
                     | None \<Rightarrow> st\<lparr>ss_wroteAnyBody := True\<rparr>)
           in (st, ev = Other))"

fun read_stream :: "stream_state \<Rightarrow> (sse_event \<times> string option) list \<Rightarrow> stream_state" where
  "read_stream st [] = st"
| "read_stream st ((ev, writeErr) # evs) =
     (let (st, more) = stream_event st ev writeErr in if more then read_stream st evs else st)"

text \<open>A client that asks for no stream: the events are collected, nothing is written.\<close>

fun collect_stream :: "stream_state \<Rightarrow> sse_event list \<Rightarrow> stream_state" where
  "collect_stream st [] = st"
| "collect_stream st (Completed # evs) = st\<lparr>ss_gotTerminal := True\<rparr>"
| "collect_stream st (Failed msg # evs) =
     (let st = (if isCapacityError msg then st\<lparr>ss_capacityErrMsg := msg\<rparr> else st)
      in st\<lparr>ss_gotTerminal := True\<rparr>)"
| "collect_stream st (Other # evs) = collect_stream st evs"

definition run_stream :: "bool \<Rightarrow> (sse_event \<times> string option) list \<Rightarrow> stream_state" where
  "run_stream isStream evs =
     (if isStream then read_stream fresh_stream evs else collect_stream fresh_stream (map fst evs))"


section \<open>One attempt\<close>

text \<open>
  What the upstream answers: no response at all (the message and \<open>IsRetryableError\<close> of the error), a
  status other than 200, or a stream (the response, its events, the error of reading it and the error
  of the client's context when it ends).
\<close>

datatype exchange =
    NoResponse string bool
  | BadStatus response
  | Streamed response "(sse_event \<times> string option) list" "string option" "string option"

text \<open>What the loop remembers of the attempts before, and what it answers in the end.\<close>

record failures =
  fl_lastErr :: bool
  fl_lastStatusCode :: int
  fl_lastBody :: string

datatype reply =
    Served int
  | Unavailable
  | UpstreamError int
  | StructuredError
  | BadGateway
  | NoAnswer

datatype verdict = Finish reply | TryAgain bool failures

definition latency_of :: "time \<Rightarrow> time \<Rightarrow> duration" where
  "latency_of start now = go_div (go_sub now start) millisecond * millisecond"

definition after_no_response ::
  "Store \<Rightarrow> addr \<Rightarrow> string \<Rightarrow> string \<Rightarrow> bool \<Rightarrow> failures \<Rightarrow> time \<Rightarrow> time \<Rightarrow> Store \<times> verdict" where
  "after_no_response s ad sessionID msg retryable fl start now =
     (let kind = classifyTransportFailure (Some msg);
          s = (if kind \<noteq> '''' then ReportRequestFailure s ad kind (latency_of start now) now else s);
          s = ReleaseAccount s ad;
          s = UnbindSessionAffinity s sessionID (DBID (st_heap s ad))
      in (s, if \<not> retryable \<and> kind = '''' then Finish StructuredError
             else TryAgain True (fl\<lparr>fl_lastErr := True\<rparr>)))"

definition after_bad_status ::
  "Store \<Rightarrow> addr \<Rightarrow> string \<Rightarrow> response \<Rightarrow> int \<Rightarrow> int \<Rightarrow> failures \<Rightarrow> time \<Rightarrow> time \<Rightarrow> Store \<times> verdict" where
  "after_bad_status s ad sessionID resp attempt max_retries fl start now =
     (let code = rs_StatusCode resp;
          body = rs_body resp;
          kind = classifyHTTPFailure code;
          s = (if kind \<noteq> '''' then ReportRequestFailure s ad kind (latency_of start now) now else s);
          s = fst (SyncCodexUsageState s ad (Some resp) now);
          s = ReleaseAccount s ad;
          s = UnbindSessionAffinity s sessionID (DBID (st_heap s ad));
          s = applyCooldown s ad code body (Some resp) now
      in (s, if (isRetryableStatus code \<or> isUpstreamToolNotSupported code body \<or> isDeactivatedWorkspace body)
                \<and> attempt < max_retries
             then TryAgain True (fl\<lparr>fl_lastStatusCode := code, fl_lastBody := ub_raw body\<rparr>)
             else Finish (UpstreamError code)))"

definition after_stream ::
  "bool \<Rightarrow> Store \<Rightarrow> addr \<Rightarrow> string \<Rightarrow> string \<Rightarrow> response \<Rightarrow> stream_state \<Rightarrow> string option \<Rightarrow> string option
     \<Rightarrow> int \<Rightarrow> int \<Rightarrow> failures \<Rightarrow> time \<Rightarrow> time \<Rightarrow> Store \<times> verdict" where
  "after_stream isStream s ad sessionID proxyURL resp st readErr ctxErr attempt max_retries fl start now =
     (if ss_capacityErrMsg st \<noteq> '''' \<and> \<not> ss_wroteAnyBody st
      then (ReleaseAccount s ad, TryAgain True (fl\<lparr>fl_lastErr := True\<rparr>))
      else
        let outcome = classifyStreamOutcome ctxErr readErr (ss_writeErr st) (ss_gotTerminal st)
        in if shouldTransparentRetryStream outcome attempt max_retries (ss_wroteAnyBody st) ctxErr (ss_writeErr st)
           then
             let s = fst (SyncCodexUsageState s ad (Some resp) now);
                 s = ReportRequestFailure s ad (so_failureKind outcome) (latency_of start now) now
             in (ReleaseAccount s ad, TryAgain False (fl\<lparr>fl_lastErr := True\<rparr>))
           else
             let s = bindSessionAffinity s sessionID ad proxyURL now;
                 s = fst (SyncCodexUsageState s ad (Some resp) now);
                 s = (if so_penalize outcome
                      then ReportRequestFailure s ad (so_failureKind outcome) (latency_of start now) now
                      else if so_logStatusCode outcome = 200
                      then ReportRequestSuccess s ad (latency_of start now) now
                      else s)
             in (ReleaseAccount s ad, Finish (Served (so_logStatusCode outcome))))"

definition after_exchange ::
  "bool \<Rightarrow> Store \<Rightarrow> addr \<Rightarrow> string \<Rightarrow> string \<Rightarrow> exchange \<Rightarrow> int \<Rightarrow> int \<Rightarrow> failures \<Rightarrow> time \<Rightarrow> time
     \<Rightarrow> Store \<times> verdict" where
  "after_exchange isStream s ad sessionID proxyURL ex attempt max_retries fl start now =
     (case ex of
        NoResponse msg retryable \<Rightarrow> after_no_response s ad sessionID msg retryable fl start now
      | BadStatus resp \<Rightarrow> after_bad_status s ad sessionID resp attempt max_retries fl start now
      | Streamed resp evs readErr ctxErr \<Rightarrow>
          after_stream isStream s ad sessionID proxyURL resp (run_stream isStream evs) readErr ctxErr
            attempt max_retries fl start now)"

section \<open>The retry loop\<close>

text \<open>
  The surroundings of an attempt: the clock when it picks an account, when the exchange starts and
  when it ends, the coin of the slow path, the exchange, and what the rest of the program does to the
  pool while the request waits for an account and during the exchange.
\<close>

record attempt_env =
  ae_pick :: time
  ae_start :: time
  ae_end :: time
  ae_coin :: "nat \<Rightarrow> bool"
  ae_cancelled :: "time \<Rightarrow> bool"
  ae_waiting :: "time \<Rightarrow> Store \<Rightarrow> Store"
  ae_during :: "Store \<Rightarrow> Store"
  ae_exchange :: "addr \<Rightarrow> string \<Rightarrow> exchange"

definition pick_account ::
  "attempt_env \<Rightarrow> Store \<Rightarrow> string \<Rightarrow> int set \<Rightarrow> string \<Rightarrow> (Store \<times> addr option \<times> string) option" where
  "pick_account e s sessionID exclude preferPlan =
     (case nextAccountForSessionWithPreference (ae_coin e) s sessionID exclude preferPlan (ae_pick e) of
        None \<Rightarrow> None
      | Some (s, Some ad, sticky) \<Rightarrow> Some (s, Some ad, sticky)
      | Some (s, None, _) \<Rightarrow>
          WaitForSessionAvailable (ae_waiting e) (ae_cancelled e) (ae_coin e) s sessionID (30 * second)
            exclude (ae_pick e))"

definition no_account_reply :: "failures \<Rightarrow> reply" where
  "no_account_reply fl =
     (if fl_lastStatusCode fl = 429 \<and> fl_lastBody fl \<noteq> '''' then UpstreamError 429 else Unavailable)"

definition gave_up_reply :: "failures \<Rightarrow> reply" where
  "gave_up_reply fl =
     (if fl_lastErr fl then BadGateway
      else if fl_lastStatusCode fl \<noteq> 0 then UpstreamError (fl_lastStatusCode fl) else NoAnswer)"

text \<open>
  The loop over the attempts. Besides the store and the reply it returns the accounts it tried, each
  with the flag whether it was excluded from the attempts after. \<open>None\<close> is a choice of an account
  that never returns.
\<close>

fun request_loop ::
  "(int \<Rightarrow> attempt_env) \<Rightarrow> bool \<Rightarrow> string \<Rightarrow> string \<Rightarrow> int \<Rightarrow> int list \<Rightarrow> failures \<Rightarrow> int set \<Rightarrow> Store
     \<Rightarrow> (Store \<times> (addr \<times> bool) list \<times> reply) option" where
  "request_loop env isStream sessionID preferPlan max_retries [] fl exclude s =
     Some (s, [], gave_up_reply fl)"
| "request_loop env isStream sessionID preferPlan max_retries (attempt # attempts) fl exclude s =
     (let e = env attempt
      in case pick_account e s sessionID exclude preferPlan of
           None \<Rightarrow> None
         | Some (s, None, _) \<Rightarrow> Some (s, [], no_account_reply fl)
         | Some (s, Some ad, sticky) \<Rightarrow>
             let (s, proxyURL) = (if sticky = '''' then NextProxy s else (s, sticky));
                 s = ae_during e s;
                 (s, v) = after_exchange isStream s ad sessionID proxyURL (ae_exchange e ad proxyURL)
                            attempt max_retries fl (ae_start e) (ae_end e)
             in case v of
                  Finish r \<Rightarrow> Some (s, [(ad, True)], r)
                | TryAgain excluded fl \<Rightarrow>
                    map_option (\<lambda>(s, tried, r). (s, (ad, excluded) # tried, r))
                      (request_loop env isStream sessionID preferPlan max_retries attempts fl
                        (if excluded then insert (DBID (st_heap s ad)) exclude else exclude) s))"

definition handle_request ::
  "(int \<Rightarrow> attempt_env) \<Rightarrow> bool \<Rightarrow> string \<Rightarrow> string \<Rightarrow> bool \<Rightarrow> bool \<Rightarrow> Store
     \<Rightarrow> (Store \<times> (addr \<times> bool) list \<times> reply) option" where
  "handle_request env isStream sessionID model bodyPaid virtualInjects s =
     (let (exclude, preferPlan) = planDispatch s model bodyPaid virtualInjects {}
      in request_loop env isStream sessionID preferPlan (maxRetries s) [0..maxRetries s]
           \<lparr>fl_lastErr = False, fl_lastStatusCode = 0, fl_lastBody = ''''\<rparr> exclude s)"

end
