(* ===== verification/DispatchLaws.thy ===== *)
theory DispatchLaws
  imports StoreLaws Dispatch
begin

text \<open>
  What the operations of a request do to the pool: which keep every slot, which take or give back
  one, and that all of them keep the pool coherent.
\<close>

section \<open>Slots\<close>

text \<open>
  From \<open>s\<close> to \<open>s'\<close> no account joins the pool, ids stay, the slots in use of \<open>ad\<close> change by \<open>d\<close> and
  those of every other account stay, and a coherent pool stays coherent.
\<close>

definition moves :: "addr \<Rightarrow> int \<Rightarrow> Store \<Rightarrow> Store \<Rightarrow> bool" where
  "moves ad d s s' \<longleftrightarrow>
     set (accounts s') \<subseteq> set (accounts s) \<and>
     (\<forall>x. DBID (st_heap s' x) = DBID (st_heap s x)) \<and>
     (\<forall>x. ActiveRequests (st_heap s' x) = ActiveRequests (st_heap s x) + (if x = ad then d else 0)) \<and>
     (store_inv s \<longrightarrow> store_inv s')"

abbreviation calm :: "Store \<Rightarrow> Store \<Rightarrow> bool" where
  "calm \<equiv> moves 0 0"

lemma movesD:
  assumes "moves ad d s s'"
  shows "set (accounts s') \<subseteq> set (accounts s)" "DBID (st_heap s' x) = DBID (st_heap s x)"
    "ActiveRequests (st_heap s' x) = ActiveRequests (st_heap s x) + (if x = ad then d else 0)"
    "store_inv s \<Longrightarrow> store_inv s'"
  using assms unfolding moves_def by auto

lemma calm_moves: "calm s s' = moves ad 0 s s'"
  by (simp add: moves_def)

lemma calm_refl [simp, intro]: "calm s s"
  by (simp add: moves_def)

lemma moves_trans: "moves ad d s s' \<Longrightarrow> moves ad e s' s'' \<Longrightarrow> moves ad (d + e) s s''"
  unfolding moves_def by (auto split: if_splits)

lemma calm_trans: "calm s s' \<Longrightarrow> calm s' s'' \<Longrightarrow> calm s s''"
  using moves_trans [where d = 0 and e = 0 and ad = 0] by simp

lemma calm_then: "calm s s' \<Longrightarrow> moves ad d s' s'' \<Longrightarrow> moves ad d s s''"
  using moves_trans [where d = 0 and e = d] calm_moves by (metis add_0)

lemma then_calm: "moves ad d s s' \<Longrightarrow> calm s' s'' \<Longrightarrow> moves ad d s s''"
  using moves_trans [where d = d and e = 0] calm_moves by (metis add.right_neutral)

section \<open>Operations that keep every slot\<close>

lemma locked_active [simp]:
  "ActiveRequests (report_success_locked a b n l) = ActiveRequests a"
  "ActiveRequests (report_failure_locked a b n k l) = ActiveRequests a"
  "ActiveRequests (mark_premium5h_locked a b n t) = ActiveRequests a"
  "ActiveRequests (fst (mark_cooldown_locked a b n d r)) = ActiveRequests a"
  "ActiveRequests (SetCooldownUntil a u r) = ActiveRequests a"
  "ActiveRequests (SetUsageSnapshot a p t) = ActiveRequests a"
  "ActiveRequests (SetUsageSnapshot5h a p t) = ActiveRequests a"
  by (simp_all add: report_success_locked_def report_failure_locked_def mark_premium5h_locked_def
      mark_cooldown_locked_def SetCooldownUntil_def SetUsageSnapshot_def SetUsageSnapshot5h_def
      recordLatencyLocked_def recordResultLocked_def Let_def)

lemma SetUsageSnapshot5h_id [simp]: "DBID (SetUsageSnapshot5h a p t) = DBID a"
  by (simp add: SetUsageSnapshot5h_def)

lemma parse_headers_frame [simp]:
  "DBID (fst (parseCodexUsageHeaders r a n)) = DBID a"
  "ActiveRequests (fst (parseCodexUsageHeaders r a n)) = ActiveRequests a"
  by (simp_all add: parseCodexUsageHeaders_def Let_def split: prod.split)

lemma calm_set_account [intro]:
  assumes "DBID a = DBID (st_heap s ad)" "ActiveRequests a = ActiveRequests (st_heap s ad)"
  shows "calm s (set_account ad a s)"
  using assms by (auto simp: moves_def intro: store_inv_set_account)

lemma calm_log_db [simp]: "calm s (log_db c s)"
  by (simp add: moves_def)

lemma calm_publish [intro]:
  assumes "ad \<in> set (accounts s)" "DBID a = DBID (st_heap s ad)"
    "ActiveRequests a = ActiveRequests (st_heap s ad)"
  shows "calm s (fastSchedulerUpdate ad now (set_account ad a s))"
  using assms by (auto simp: moves_def intro: store_inv_publish)

lemma calm_logged: "calm s (log_db c s') = calm s s'"
  by (simp add: moves_def)

lemma accounts_ops [simp]:
  "accounts (ReportRequestSuccess s ad l n) = accounts s"
  "accounts (ReportRequestFailure s ad k l n) = accounts s"
  "accounts (MarkPremium5hRateLimited s ad t n) = accounts s"
  "accounts (PersistUsageSnapshot s ad p n) = accounts s"
  "accounts (PersistUsageSnapshot5hOnly s ad n) = accounts s"
  "accounts (fst (InferPremiumPlanFromHeaders s ad)) = accounts s"
  "accounts (fst (SyncAccountPlanType s ad plan n)) = accounts s"
  "accounts (MarkCooldown s ad d r n) = accounts s"
  "accounts (ReleaseAccount s ad) = accounts s"
  "accounts (UnbindSessionAffinity s key dbID) = accounts s"
  "accounts (bindSessionAffinity s key ad proxy n) = accounts s"
  "accounts (set_disabled ad v s) = accounts s"
  by (simp_all add: ReportRequestSuccess_def ReportRequestFailure_def MarkPremium5hRateLimited_def
      PersistUsageSnapshot_def PersistUsageSnapshot5hOnly_def InferPremiumPlanFromHeaders_def
      SyncAccountPlanType_def MarkCooldown_def ReleaseAccount_def UnbindSessionAffinity_def
      bindSessionAffinity_def set_disabled_def Release_def Let_def case_prod_beta split: option.split)

lemma calm_reports [intro]:
  assumes "ad \<in> set (accounts s)"
  shows "calm s (ReportRequestSuccess s ad l n)"
    and "calm s (ReportRequestFailure s ad k l n)"
    and "calm s (MarkPremium5hRateLimited s ad t n)"
    and "calm s (PersistUsageSnapshot s ad p n)"
    and "calm s (PersistUsageSnapshot5hOnly s ad n)"
    and "calm s (fst (SyncAccountPlanType s ad plan n))"
  using assms
  by (simp_all add: ReportRequestSuccess_def ReportRequestFailure_def MarkPremium5hRateLimited_def
      PersistUsageSnapshot_def PersistUsageSnapshot5hOnly_def SyncAccountPlanType_def Let_def
      calm_logged calm_publish)

lemma calm_infer [intro]: "calm s (fst (InferPremiumPlanFromHeaders s ad))"
  by (simp add: InferPremiumPlanFromHeaders_def Let_def calm_logged) (rule impI, rule calm_set_account; simp)

lemma calm_bindings [intro]:
  "calm s (UnbindSessionAffinity s key dbID)"
  "calm s (bindSessionAffinity s key ad p n)"
  by (simp_all add: moves_def UnbindSessionAffinity_def bindSessionAffinity_def Let_def split: option.split)

lemma calm_disabled [intro]: "calm s (set_disabled ad v s)"
  unfolding set_disabled_def by (rule calm_set_account) simp_all

lemma calm_MarkCooldown [intro]:
  assumes "ad \<in> set (accounts s)"
  shows "calm s (MarkCooldown s ad d r n)"
proof -
  have "ActiveRequests (st_heap (MarkCooldown s ad d r n) x) = ActiveRequests (st_heap s x)"
    "DBID (st_heap (MarkCooldown s ad d r n) x) = DBID (st_heap s x)" for x
    by (simp_all add: MarkCooldown_def Let_def case_prod_beta)
  then show ?thesis using store_inv_MarkCooldown [OF _ assms] by (simp add: moves_def)
qed

lemma calm_NextProxy [intro]: "calm s (fst (NextProxy s))"
  by (simp add: moves_def NextProxy_def Let_def store_inv_def getFastScheduler_def)

lemma calm_RemoveAccount [intro]: "calm s (RemoveAccount s k)"
proof -
  have "set (accounts (RemoveAccount s k)) \<subseteq> set (accounts s)"
    by (auto simp: RemoveAccount_def Let_def remove_nth_def split: option.splits
        dest: in_set_takeD in_set_dropD)
  moreover have "st_heap (RemoveAccount s k) = st_heap s"
    by (simp add: RemoveAccount_def Let_def split: option.split)
  ultimately show ?thesis using store_inv_RemoveAccount by (simp add: moves_def)
qed

lemma moves_Release: "moves ad (- 1) s (ReleaseAccount s ad)"
proof -
  let ?a = "(st_heap s ad)\<lparr>ActiveRequests := ActiveRequests (st_heap s ad) - 1\<rparr>"
  have "ReleaseAccount s ad = set_account ad ?a s"
    by (simp add: ReleaseAccount_def Release_def set_account_def split: option.split)
  then show ?thesis by (auto simp: moves_def intro: store_inv_set_account)
qed


lemma SyncCodexUsageState_accounts [simp]:
  "accounts (fst (SyncCodexUsageState s ad resp n)) = accounts s"
  by (simp add: SyncCodexUsageState_def Let_def case_prod_beta split: option.split)

lemma calm_Sync [intro]:
  assumes "ad \<in> set (accounts s)"
  shows "calm s (fst (SyncCodexUsageState s ad resp n))"
proof (cases resp)
  case None
  then show ?thesis by (simp add: SyncCodexUsageState_def)
next
  case (Some rs)
  define a where "a = fst (parseCodexUsageHeaders rs (st_heap s ad) n)"
  define s1 where "s1 = set_account ad a s"
  define s2 where "s2 = (if responseHasCodex5hHeaders resp then fst (InferPremiumPlanFromHeaders s1 ad) else s1)"
  define pct where "pct = snd (parseCodexUsageHeaders rs (st_heap s ad) n)"
  define s3 where "s3 = (if snd pct then PersistUsageSnapshot s2 ad (fst pct) n
     else if responseHasCodex5hHeaders resp then PersistUsageSnapshot5hOnly s2 ad n else s2)"
  have acc: "accounts s2 = accounts s" "accounts s3 = accounts s"
    by (simp_all add: s1_def s2_def s3_def)
  have "calm s s1" unfolding s1_def a_def by (rule calm_set_account) simp_all
  moreover have "calm s1 s2" unfolding s2_def by auto
  moreover have "calm s2 s3" unfolding s3_def using assms acc by auto
  ultimately have c: "calm s s3" by (metis calm_trans)
  have "fst (SyncCodexUsageState s ad resp n) = s3 \<or>
    (\<exists>t. fst (SyncCodexUsageState s ad resp n) = MarkPremium5hRateLimited s3 ad t n)"
    unfolding SyncCodexUsageState_def Some a_def s1_def s2_def s3_def pct_def Let_def case_prod_beta
    by auto
  with c show ?thesis using assms acc calm_reports(3) calm_trans by metis
qed

lemma calm_drop [intro]: "calm s (drop_account s ad note)"
  unfolding drop_account_def Let_def
  by (rule calm_trans [OF calm_trans [OF calm_log_db calm_log_db] calm_RemoveAccount])

lemma calm_Apply429 [intro]:
  assumes "ad \<in> set (accounts s)"
  shows "calm s (fst (Apply429Cooldown s ad body resp n))"
proof -
  define s1 where "s1 = (case parseUsageLimitDetails body of
      Some details \<Rightarrow> if ul_planType details \<noteq> '''' then fst (SyncAccountPlanType s ad (ul_planType details) n) else s
    | None \<Rightarrow> s)"
  have s1: "calm s s1" "accounts s1 = accounts s"
    using assms by (auto simp: s1_def split: option.split)
  have "calm s1 (fst (Apply429Cooldown s ad body resp n))"
    unfolding Apply429Cooldown_def Let_def s1_def [symmetric] using assms s1(2) by auto
  with s1(1) show ?thesis by (rule calm_trans)
qed

lemma calm_applyCooldown [intro]:
  assumes "ad \<in> set (accounts s)"
  shows "calm s (applyCooldown s ad code body resp n)"
proof -
  have d: "calm s (set_disabled ad 1 s)" "accounts (set_disabled ad 1 s) = accounts s" by auto
  have "calm (set_disabled ad 1 s) (set_disabled ad 0 (set_disabled ad 1 s))"
    "calm (set_disabled ad 1 s) (drop_account (set_disabled ad 1 s) ad why)"
    "calm (set_disabled ad 1 s) (MarkCooldown (set_disabled ad 1 s) ad t r n)" for why t r
    using assms d(2) by auto
  note l = calm_trans [OF d(1) this(1)] calm_trans [OF d(1) this(2)] calm_trans [OF d(1) this(3)]
  show ?thesis unfolding applyCooldown_def Let_def using assms l by auto
qed

section \<open>The end of an attempt\<close>

text \<open>Whatever the upstream answers, the attempt gives back exactly the slot it had.\<close>

lemma after_no_response_spec:
  assumes "ad \<in> set (accounts s)" "after_no_response s ad key msg retryable fl t n = (s', v)"
  shows "moves ad (- 1) s s'"
proof -
  define s1 where "s1 = ReportRequestFailure s ad (classifyTransportFailure (Some msg)) (latency_of t n) n"
  have k: "classifyTransportFailure (Some msg) \<noteq> ''''" by (simp add: classifyTransportFailure_def)
  have "s' = UnbindSessionAffinity (ReleaseAccount s1 ad) key (DBID (st_heap (ReleaseAccount s1 ad) ad))"
    using assms(2) k by (simp add: after_no_response_def Let_def s1_def)
  moreover have "calm s s1" unfolding s1_def using assms(1) by blast
  ultimately show ?thesis using calm_then then_calm moves_Release calm_bindings(1) by metis
qed

lemma after_bad_status_spec:
  assumes "ad \<in> set (accounts s)" "after_bad_status s ad key resp i m fl t n = (s', v)"
  shows "moves ad (- 1) s s'"
proof -
  define s1 where "s1 = (if classifyHTTPFailure (rs_StatusCode resp) \<noteq> ''''
    then ReportRequestFailure s ad (classifyHTTPFailure (rs_StatusCode resp)) (latency_of t n) n else s)"
  define s2 where "s2 = fst (SyncCodexUsageState s1 ad (Some resp) n)"
  define s3 where "s3 = UnbindSessionAffinity (ReleaseAccount s2 ad) key (DBID (st_heap (ReleaseAccount s2 ad) ad))"
  have acc: "accounts s1 = accounts s" "accounts s2 = accounts s" "accounts s3 = accounts s"
    by (simp_all add: s1_def s2_def s3_def)
  have "s' = applyCooldown s3 ad (rs_StatusCode resp) (rs_body resp) (Some resp) n"
    using assms(2) unfolding after_bad_status_def Let_def s1_def [symmetric] s2_def [symmetric] s3_def by simp
  then have "calm s3 s'" using assms(1) acc by auto
  moreover have "calm s s1" using assms(1) by (auto simp: s1_def)
  moreover have "calm s1 s2" using assms(1) acc by (auto simp: s2_def)
  moreover have "moves ad (- 1) s2 s3" unfolding s3_def by (rule then_calm [OF moves_Release]) blast
  ultimately show ?thesis using calm_then then_calm by metis
qed

lemma after_stream_spec:
  assumes "ad \<in> set (accounts s)"
    "after_stream b s ad key p resp st rerr cerr i m fl t n = (s', v)"
  shows "moves ad (- 1) s s'"
proof -
  let ?o = "classifyStreamOutcome cerr rerr (ss_writeErr st) (ss_gotTerminal st)"
  let ?fail = "\<lambda>s. ReportRequestFailure s ad (so_failureKind ?o) (latency_of t n) n"
  let ?sync = "\<lambda>s. fst (SyncCodexUsageState s ad (Some resp) n)"
  let ?bound = "?sync (bindSessionAffinity s key ad p n)"
  have mem: "ad \<in> set (accounts (?sync s))" "ad \<in> set (accounts ?bound)"
    "ad \<in> set (accounts (bindSessionAffinity s key ad p n))" using assms(1) by simp_all
  have c: "calm s (?fail (?sync s))" "calm s ?bound"
    using calm_trans [OF calm_Sync calm_reports(2)] calm_trans [OF calm_bindings(2) calm_Sync] assms(1) mem
    by blast+
  then have "calm s (?fail ?bound)" "calm s (ReportRequestSuccess ?bound ad (latency_of t n) n)"
    using calm_reports(1,2) [OF mem(2)] calm_trans by blast+
  moreover have "s' \<in> (\<lambda>s. ReleaseAccount s ad) ` {s, ?fail (?sync s), ?bound, ?fail ?bound,
      ReportRequestSuccess ?bound ad (latency_of t n) n}"
    using assms(2) by (auto simp: after_stream_def Let_def split: if_splits)
  ultimately show ?thesis using c calm_then moves_Release calm_refl by blast
qed

lemma after_exchange_spec:
  assumes "ad \<in> set (accounts s)" "after_exchange b s ad key p ex i m fl t n = (s', v)"
  shows "moves ad (- 1) s s'"
  using assms(2) after_no_response_spec [OF assms(1)] after_bad_status_spec [OF assms(1)]
    after_stream_spec [OF assms(1)]
  unfolding after_exchange_def by (cases ex) auto


section \<open>Picking an account\<close>

text \<open>
  A pick either leaves every slot alone, or takes one of an account that is not excluded and in the
  pool.
\<close>

definition picks :: "int set \<Rightarrow> Store \<Rightarrow> Store \<Rightarrow> addr option \<Rightarrow> bool" where
  "picks ex s s' r \<longleftrightarrow>
     store_inv s' \<and>
     (case r of
        None \<Rightarrow> calm s s'
      | Some ad \<Rightarrow> moves ad 1 s s' \<and> DBID (st_heap s ad) \<notin> ex \<and> ad \<in> set (accounts s'))"

lemma calm_picks: "calm s s1 \<Longrightarrow> picks ex s1 s' r \<Longrightarrow> picks ex s s' r"
  unfolding picks_def using calm_trans [of s s1 s'] calm_then [of s s1 _ 1 s'] movesD(2) [of 0 0 s s1]
  by (auto split: option.splits)

lemma picks_mono: "picks ex s s' r \<Longrightarrow> ex' \<subseteq> ex \<Longrightarrow> picks ex' s s' r"
  unfolding picks_def by (cases r) auto

lemma NextForSession_picks:
  assumes "store_inv s"
  obtains s' r p where "NextForSession coin s key ex now = Some (s', r, p)" "picks ex s s' r"
proof -
  obtain s' r p where n: "NextForSession coin s key ex now = Some (s', r, p)" and i: "store_inv s'"
    and x: "\<And>x. DBID (st_heap s' x) = DBID (st_heap s x)"
      "\<And>x. ActiveRequests (st_heap s' x) = ActiveRequests (st_heap s x) + (if r = Some x then 1 else 0)"
    and a: "accounts s' = accounts s"
    and r: "\<And>ad. r = Some ad \<Longrightarrow> DBID (st_heap s ad) \<notin> ex \<and> ad \<in> set (accounts s)"
    using NextForSession_spec [OF assms, of coin key ex now] by blast
  show thesis
  proof (rule that [OF n])
    show "picks ex s s' r"
      using i x a r by (cases r) (auto simp: picks_def moves_def)
  qed
qed

lemma next_preferred_picks:
  assumes "store_inv s"
  obtains s' r p where
    "nextAccountForSessionWithPreference coin s key ex plan now = Some (s', r, p)" "picks ex s s' r"
proof -
  define np where "np = (if splitPreferPlans plan \<noteq> [] then AccountIDsExcludingPlans s (splitPreferPlans plan) else {})"
  have eq: "nextAccountForSessionWithPreference coin s key ex plan now =
    (if np = {} then NextForSession coin s key ex now
     else case NextForSession coin s key (ex \<union> np) now of
       None \<Rightarrow> None | Some (s, Some ad, p) \<Rightarrow> Some (s, Some ad, p)
     | Some (s, None, _) \<Rightarrow> NextForSession coin s key ex now)"
    unfolding nextAccountForSessionWithPreference_def Let_def np_def ..
  show thesis
  proof (cases "np = {}")
    case True
    obtain s' r p where "NextForSession coin s key ex now = Some (s', r, p)" "picks ex s s' r"
      by (rule NextForSession_picks [OF assms])
    with True show thesis by (intro that [of s' r p]) (simp_all add: eq)
  next
    case False
    obtain s1 r1 p1 where n: "NextForSession coin s key (ex \<union> np) now = Some (s1, r1, p1)"
      and p: "picks (ex \<union> np) s s1 r1" by (rule NextForSession_picks [OF assms])
    show thesis
    proof (cases r1)
      case (Some ad)
      with n p False show thesis
        by (intro that [of s1 r1 p1]) (auto simp: eq intro: picks_mono)
    next
      case None
      with p have i: "store_inv s1" and c: "calm s s1" by (auto simp: picks_def)
      obtain s' r p' where "NextForSession coin s1 key ex now = Some (s', r, p')" "picks ex s1 s' r"
        by (rule NextForSession_picks [OF i])
      with n None False calm_picks [OF c] show thesis
        by (intro that [of s' r p']) (simp_all add: eq)
    qed
  qed
qed

lemma wait_session_picks:
  assumes calm: "\<And>t s. calm s (others t s)"
  shows "store_inv s \<Longrightarrow>
    \<exists>s' r p. wait_session others cancelled coin key ex deadline s now backoff = Some (s', r, p) \<and>
      picks ex s s' r"
proof (induction "nat (deadline - now)" arbitrary: s now backoff rule: less_induct)
  case less
  show ?case
  proof (cases "cancelled now \<or> now \<ge> deadline \<or> backoff \<le> 0")
    case True
    with less(2) show ?thesis by (simp add: wait_session.simps picks_def)
  next
    case False
    obtain s1 r1 p1 where n: "NextForSession coin s key ex now = Some (s1, r1, p1)"
      and p: "picks ex s s1 r1" by (rule NextForSession_picks [OF less(2)])
    show ?thesis
    proof (cases r1)
      case (Some ad)
      with False n p show ?thesis by (simp add: wait_session.simps)
    next
      case None
      let ?s = "others (now + backoff) s1"
      from None p have i: "store_inv s1" and c1: "calm s s1" by (auto simp: picks_def)
      have i': "store_inv ?s" and c: "calm s ?s"
        using movesD(4) [OF calm i] calm_trans [OF c1 calm] by blast+
      have "nat (deadline - (now + backoff)) < nat (deadline - now)" using False by auto
      from less(1) [OF this i', of "next_backoff backoff"] calm_picks [OF c] False n None
      show ?thesis by (subst wait_session.simps) auto
    qed
  qed
qed

definition calm_env :: "attempt_env \<Rightarrow> bool" where
  "calm_env e \<longleftrightarrow>
     (\<forall>t s. calm s (ae_waiting e t s)) \<and>
     (\<forall>s. calm s (ae_during e s) \<and> accounts (ae_during e s) = accounts s)"

lemma pick_account_picks:
  assumes "calm_env e" "store_inv s"
  obtains s' r p where "pick_account e s key ex plan = Some (s', r, p)" "picks ex s s' r"
proof -
  obtain s1 r1 p1 where n:
      "nextAccountForSessionWithPreference (ae_coin e) s key ex plan (ae_pick e) = Some (s1, r1, p1)"
    and p: "picks ex s s1 r1" by (rule next_preferred_picks [OF assms(2)])
  show thesis
  proof (cases r1)
    case (Some ad)
    with n p show thesis by (intro that [of s1 r1 p1]) (simp_all add: pick_account_def)
  next
    case None
    with p have i: "store_inv s1" and c: "calm s s1" by (auto simp: picks_def)
    have w: "\<And>t s. calm s (ae_waiting e t s)" using assms(1) by (simp add: calm_env_def)
    from wait_session_picks [where others = "ae_waiting e", OF w i] obtain s' r p' where
      "WaitForSessionAvailable (ae_waiting e) (ae_cancelled e) (ae_coin e) s1 key (30 * second) ex (ae_pick e)
        = Some (s', r, p')" "picks ex s1 s' r"
      unfolding WaitForSessionAvailable_def by blast
    with n None calm_picks [OF c] show thesis
      by (intro that [of s' r p']) (simp_all add: pick_account_def)
  qed
qed


section \<open>The loop\<close>

text \<open>An attempt takes a slot and gives it back.\<close>

lemma attempt_spec:
  assumes env: "calm_env e" and inv: "store_inv s" and p: "picks ex s s1 (Some ad)"
    and a: "after_exchange b (ae_during e (if sticky = '''' then fst (NextProxy s1) else s1)) ad key proxy x i m fl t n
              = (s', v)"
  shows "calm s s'" "DBID (st_heap s ad) \<notin> ex" "ad \<in> set (accounts s)"
proof -
  let ?s2 = "if sticky = '''' then fst (NextProxy s1) else s1"
  have m: "moves ad 1 s s1" "DBID (st_heap s ad) \<notin> ex" "ad \<in> set (accounts s1)"
    using p by (auto simp: picks_def)
  have 2: "calm s1 ?s2" "accounts ?s2 = accounts s1"
    using calm_NextProxy by auto (auto simp: NextProxy_def Let_def)
  have d: "calm ?s2 (ae_during e ?s2)" "accounts (ae_during e ?s2) = accounts ?s2"
    using env by (auto simp: calm_env_def)
  have "moves ad (- 1) (ae_during e ?s2) s'"
    by (rule after_exchange_spec [OF _ a]) (use m 2 d in auto)
  then have "moves ad (1 + - 1) s s'"
    using moves_trans then_calm [OF then_calm [OF m(1) 2(1)] d(1)] by blast
  then show "calm s s'" using calm_moves [of s s' ad] by simp
  show "DBID (st_heap s ad) \<notin> ex" "ad \<in> set (accounts s)"
    using m movesD(1) [OF m(1)] by auto
qed

definition no_reuse :: "heap \<Rightarrow> (addr \<times> bool) list \<Rightarrow> bool" where
  "no_reuse h tried \<longleftrightarrow> sorted_wrt (\<lambda>(a, excluded) (b, _). excluded \<longrightarrow> DBID (h b) \<noteq> DBID (h a)) tried"

text \<open>The loop on an attempt that gets an account.\<close>

definition loop_store :: "attempt_env \<Rightarrow> Store \<Rightarrow> string \<Rightarrow> Store" where
  "loop_store e s sticky = ae_during e (if sticky = '''' then fst (NextProxy s) else s)"

definition loop_proxy :: "Store \<Rightarrow> string \<Rightarrow> string" where
  "loop_proxy s sticky = (if sticky = '''' then snd (NextProxy s) else sticky)"

lemma loop_step:
  assumes "pick_account (env i) s key ex plan = Some (s1, Some ad, sticky)"
    and "after_exchange b (loop_store (env i) s1 sticky) ad key (loop_proxy s1 sticky)
      (ae_exchange (env i) ad (loop_proxy s1 sticky)) i m fl (ae_start (env i)) (ae_end (env i)) = (s3, v)"
  shows "request_loop env b key plan m (i # attempts) fl ex s =
    (case v of Finish r \<Rightarrow> Some (s3, [(ad, True)], r)
     | TryAgain excluded fl \<Rightarrow> map_option (\<lambda>(s, tried, r). (s, (ad, excluded) # tried, r))
         (request_loop env b key plan m attempts fl
           (if excluded then insert (DBID (st_heap s3 ad)) ex else ex) s3))"
  using assms by (simp add: Let_def loop_store_def loop_proxy_def split: prod.split) auto

lemma request_loop_spec:
  assumes "\<And>i. calm_env (env i)"
  shows "store_inv s \<Longrightarrow>
    \<exists>s' tried r. request_loop env b key plan m attempts fl ex s = Some (s', tried, r) \<and>
      calm s s' \<and> store_inv s' \<and> length tried \<le> length attempts \<and> no_reuse (st_heap s) tried \<and>
      (\<forall>(ad, _) \<in> set tried. DBID (st_heap s ad) \<notin> ex \<and> ad \<in> set (accounts s))"
proof (induction attempts arbitrary: s fl ex)
  case Nil
  then show ?case by (simp add: no_reuse_def)
next
  case (Cons i attempts)
  obtain s1 r1 sticky where pk: "pick_account (env i) s key ex plan = Some (s1, r1, sticky)"
    and p: "picks ex s s1 r1" by (rule pick_account_picks [OF assms Cons.prems])
  show ?case
  proof (cases r1)
    case None
    with p have "calm s s1" "store_inv s1" by (auto simp: picks_def)
    with pk None show ?thesis by (simp add: no_reuse_def)
  next
    case (Some ad)
    obtain s3 v where ax: "after_exchange b (loop_store (env i) s1 sticky) ad key (loop_proxy s1 sticky)
        (ae_exchange (env i) ad (loop_proxy s1 sticky)) i m fl (ae_start (env i)) (ae_end (env i)) = (s3, v)"
      by force
    note step = loop_step [where env = env and i = i, OF pk [unfolded Some] ax]
    note sp = attempt_spec [OF assms Cons.prems p [unfolded Some] ax [unfolded loop_store_def]]
    have ids: "DBID (st_heap s3 x) = DBID (st_heap s x)" for x using movesD(2) [OF sp(1)] .
    have i3: "store_inv s3" using movesD(4) [OF sp(1) Cons.prems] .
    show ?thesis
    proof (cases v)
      case (Finish r)
      with step sp i3 show ?thesis by (simp add: no_reuse_def)
    next
      case (TryAgain excluded fl')
      let ?ex = "if excluded then insert (DBID (st_heap s3 ad)) ex else ex"
      from Cons.IH [OF i3, of fl' ?ex] obtain s' tried r where
        l: "request_loop env b key plan m attempts fl' ?ex s3 = Some (s', tried, r)"
        and c: "calm s3 s'" "store_inv s'" "length tried \<le> length attempts" "no_reuse (st_heap s3) tried"
        and t: "\<forall>(x, _) \<in> set tried. DBID (st_heap s3 x) \<notin> ?ex \<and> x \<in> set (accounts s3)" by blast
      have "no_reuse (st_heap s) ((ad, excluded) # tried)"
        using c(4) t unfolding no_reuse_def ids by (auto split: if_splits)
      moreover have "\<forall>(x, _) \<in> set ((ad, excluded) # tried). DBID (st_heap s x) \<notin> ex \<and> x \<in> set (accounts s)"
        using t sp(2,3) movesD(1) [OF sp(1)] unfolding ids by (auto split: if_splits)
      moreover have "calm s s'" using calm_trans [OF sp(1) c(1)] .
      ultimately show ?thesis using step TryAgain l c(2,3) by simp
    qed
  qed
qed


section \<open>What reaches the client\<close>

lemma run_stream_wrote:
  "\<not> isStream \<Longrightarrow> \<not> ss_wroteAnyBody (run_stream isStream evs)"
proof -
  have "ss_wroteAnyBody (collect_stream st evs) = ss_wroteAnyBody st" for st evs
    by (induction st evs rule: collect_stream.induct) (simp_all add: Let_def)
  then show "\<not> isStream \<Longrightarrow> ?thesis" by (simp add: run_stream_def fresh_stream_def)
qed

text \<open>Whether the loop knows of a failure; every attempt that is followed by another one is one.\<close>

definition failed_before :: "failures \<Rightarrow> bool" where
  "failed_before fl \<longleftrightarrow> fl_lastErr fl \<or> fl_lastStatusCode fl \<noteq> 0"

lemma try_again_failed:
  assumes "after_exchange b s ad key p x i m fl t n = (s', TryAgain e fl')"
    "\<And>resp. x = BadStatus resp \<Longrightarrow> rs_StatusCode resp \<noteq> 0"
  shows "failed_before fl'"
  using assms
  by (cases x)
     (auto simp: after_exchange_def after_no_response_def after_bad_status_def after_stream_def
        failed_before_def Let_def split: if_splits)

lemma last_attempt_answers:
  assumes "\<And>i ad p resp. ae_exchange (env i) ad p = BadStatus resp \<Longrightarrow> rs_StatusCode resp \<noteq> 0"
  shows "request_loop env b key plan m attempts fl ex s = Some (s', tried, r) \<Longrightarrow>
    attempts \<noteq> [] \<or> failed_before fl \<Longrightarrow> r \<noteq> NoAnswer"
proof (induction attempts arbitrary: s fl ex tried)
  case Nil
  then show ?case by (auto simp: gave_up_reply_def failed_before_def split: if_splits)
next
  case (Cons i attempts)
  obtain s1 r1 sticky where pk: "pick_account (env i) s key ex plan = Some (s1, r1, sticky)"
    using Cons.prems(1) by (cases "pick_account (env i) s key ex plan") (simp_all, metis prod_cases3)
  show ?case
  proof (cases r1)
    case None
    with pk Cons.prems(1) show ?thesis by (auto simp: no_account_reply_def split: if_splits)
  next
    case (Some ad)
    obtain s3 v where ax: "after_exchange b (loop_store (env i) s1 sticky) ad key (loop_proxy s1 sticky)
        (ae_exchange (env i) ad (loop_proxy s1 sticky)) i m fl (ae_start (env i)) (ae_end (env i)) = (s3, v)"
      by force
    note step = loop_step [where env = env and i = i, OF pk [unfolded Some] ax]
    show ?thesis
    proof (cases v)
      case (TryAgain excluded fl')
      have "failed_before fl'" by (rule try_again_failed [OF ax [unfolded TryAgain]]) (rule assms)
      with Cons.IH TryAgain step Cons.prems(1) show ?thesis by fastforce
    next
      case (Finish r')
      have "r' \<noteq> NoAnswer"
        using ax Finish
        by (cases "ae_exchange (env i) ad (loop_proxy s1 sticky)")
           (auto simp: after_exchange_def after_no_response_def after_bad_status_def after_stream_def
              Let_def split: if_splits)
      with step Finish Cons.prems(1) show ?thesis by simp
    qed
  qed
qed

section \<open>Properties\<close>




text \<open>
  The client always gets an answer: the loop ends with a reply, with an error for the client, or
  with the last error of the upstream, but never without writing anything.
\<close>

theorem every_request_is_answered:
  assumes "\<And>i ad p resp. ae_exchange (env i) ad p = BadStatus resp \<Longrightarrow> rs_StatusCode resp \<noteq> 0"
    and "0 \<le> maxRetries s"
    and "handle_request env isStream sessionID model bodyPaid virtualInjects s = Some (s', tried, r)"
  shows "r \<noteq> NoAnswer"
proof -
  obtain ex plan where p: "planDispatch s model bodyPaid virtualInjects {} = (ex, plan)" by force
  show ?thesis
    by (rule last_attempt_answers [where attempts = "[0..maxRetries s]", OF assms(1)])
       (use assms(2,3) in \<open>auto simp: handle_request_def p\<close>)
qed


section \<open>Witnesses\<close>

text \<open>
  A pool with one free account (the second), whose other accounts time out or answer: account 3 does
  not respond, account 1 streams a full answer.
\<close>

definition demo_response :: "int \<Rightarrow> response" where
  "demo_response code =
     \<lparr>rs_StatusCode = code, rs_header = (\<lambda>_. ''''),
      rs_body = \<lparr>ub_raw = '''', ub_str = (\<lambda>_. ''''), ub_int = (\<lambda>_. 0)\<rparr>\<rparr>"

definition demo_attempt :: "int \<Rightarrow> attempt_env" where
  "demo_attempt i =
     \<lparr>ae_pick = 200 + i, ae_start = 200 + i, ae_end = 200 + i, ae_coin = (\<lambda>_. False),
      ae_cancelled = (\<lambda>_. False), ae_waiting = (\<lambda>t s. s), ae_during = (\<lambda>s. s),
      ae_exchange = (\<lambda>ad proxy. if ad = 3 then NoResponse ''timeout'' True
        else Streamed (demo_response 200) [(Other, None), (Completed, None)] None None)\<rparr>"

definition mixed_store :: Store where
  "mixed_store = set_account 2 ((st_heap (demo_store True) 2)\<lparr>PlanType := ''free''\<rparr>) (demo_store True)"

lemma demo_attempt_calm [simp]: "calm_env (demo_attempt i)"
  by (simp add: calm_env_def demo_attempt_def)

lemma demo_attempt_status [simp]: "ae_exchange (demo_attempt i) ad p \<noteq> BadStatus resp"
  by (simp add: demo_attempt_def)

lemma mixed_store_inv [simp]: "store_inv mixed_store"
  unfolding mixed_store_def by (rule store_inv_set_account) simp_all

lemma mixed_store_retries [simp]: "maxRetries mixed_store = 2"
  by code_simp

lemma mixed_request:
  "map_option snd (handle_request demo_attempt True ''s'' ''gpt-5.5'' False False mixed_store)
     = Some ([(3, True), (1, True)], Served 200)"
  by code_simp





theorem every_request_is_answered_witness:
  "\<exists>s' tried r. handle_request demo_attempt True ''s'' ''gpt-5.5'' False False mixed_store = Some (s', tried, r) \<and>
     r \<noteq> NoAnswer"
proof -
  obtain s' where h: "handle_request demo_attempt True ''s'' ''gpt-5.5'' False False mixed_store
      = Some (s', [(3, True), (1, True)], Served 200)"
    using mixed_request by auto
  have "Served 200 \<noteq> NoAnswer"
    by (rule every_request_is_answered [OF _ _ h]) simp_all
  with h show ?thesis by blast
qed

end
