(* ===== verification/Admission.thy ===== *)
theory Admission
  imports Prelude
begin

text \<open>
  The interface of a rate limiter: one state, one operation \<open>admit\<close> that takes the clock and says
  whether a request passes. The laws are those of an account book: the limiter holds a credit that is
  never negative, every request that passes costs at least one unit of it, it grows by at most a
  fixed rate, and never beyond a cap. The token bucket, the limiter of one level, and the limiter of one IP address provide
  it, each with a credit of its own.
\<close>

text \<open>The number of requests that pass, of those that arrive at the given times.\<close>

fun passed :: "('s \<Rightarrow> time \<Rightarrow> 's \<times> bool) \<Rightarrow> 's \<Rightarrow> time list \<Rightarrow> nat" where
  "passed admit s [] = 0"
| "passed admit s (t # ts) =
     (let (s', b) = admit s t in (if b then 1 else 0) + passed admit s' ts)"

text \<open>Requests come in the order of the clock, none before \<open>lo\<close> and none after \<open>hi\<close>.\<close>

fun arrivals :: "time \<Rightarrow> time list \<Rightarrow> time \<Rightarrow> bool" where
  "arrivals lo [] hi = (lo \<le> hi)"
| "arrivals lo (t # ts) hi = (lo \<le> t \<and> arrivals t ts hi)"

lemma arrivals_le: "arrivals lo ts hi \<Longrightarrow> lo \<le> hi"
  by (induction lo ts hi rule: arrivals.induct) auto

lemma arrivals_mono: "arrivals t ts hi \<Longrightarrow> lo \<le> t \<Longrightarrow> arrivals lo ts hi"
  by (cases ts) auto

locale admission =
  fixes admit :: "'s \<Rightarrow> time \<Rightarrow> 's \<times> bool"
    and ok :: "'s \<Rightarrow> bool"
    and credit :: "'s \<Rightarrow> rat"
    and cap :: "'s \<Rightarrow> rat"
    and pace :: "'s \<Rightarrow> rat"
    and clock :: "'s \<Rightarrow> time"
  assumes keeps: "ok s \<Longrightarrow> clock s \<le> now \<Longrightarrow> admit s now = (s', b) \<Longrightarrow> ok s'"
    and moves: "ok s \<Longrightarrow> clock s \<le> now \<Longrightarrow> admit s now = (s', b) \<Longrightarrow>
                  clock s \<le> clock s' \<and> clock s' \<le> now \<and> (b \<longrightarrow> clock s' = now) \<and>
                  pace s' = pace s \<and> cap s' = cap s"
    and solvent: "ok s \<Longrightarrow> 0 \<le> credit s \<and> credit s \<le> cap s \<and> 0 \<le> pace s"
    and pays: "ok s \<Longrightarrow> clock s \<le> now \<Longrightarrow> admit s now = (s', b) \<Longrightarrow>
                 credit s' + (if b then 1 else 0) \<le> credit s + pace s * of_int (clock s' - clock s)"
    and capped: "ok s \<Longrightarrow> clock s \<le> now \<Longrightarrow> admit s now = (s', True) \<Longrightarrow> credit s' + 1 \<le> cap s"
begin

lemma passed_bound:
  "ok s \<Longrightarrow> arrivals (clock s) ts T \<Longrightarrow>
   of_nat (passed admit s ts) \<le> credit s + pace s * of_int (T - clock s)"
proof (induction ts arbitrary: s)
  case Nil
  then show ?case using solvent [of s] by simp
next
  case (Cons t ts)
  obtain s' b where a: "admit s t = (s', b)" by (cases "admit s t")
  from Cons.prems have t: "clock s \<le> t" and ts: "arrivals t ts T" by auto
  note m = moves [OF Cons.prems(1) t a] and p = pays [OF Cons.prems(1) t a]
  have "ok s'" by (rule keeps [OF Cons.prems(1) t a])
  moreover from m ts have "arrivals (clock s') ts T" by (auto intro: arrivals_mono)
  ultimately have "of_nat (passed admit s' ts) \<le> credit s' + pace s' * of_int (T - clock s')"
    by (rule Cons.IH)
  with m p show ?case by (simp add: a algebra_simps split: if_splits)
qed

text \<open>
  From any time on, however long the limiter has been idle before, at most the full credit and what
  accrues from that time.
\<close>

lemma window_bound:
  "ok s \<Longrightarrow> clock s \<le> now \<Longrightarrow> arrivals now ts T \<Longrightarrow>
   of_nat (passed admit s ts) \<le> cap s + pace s * of_int (T - now)"
proof (induction ts arbitrary: s)
  case Nil
  then show ?case using solvent [of s] by simp
next
  case (Cons t ts)
  obtain s' b where a: "admit s t = (s', b)" by (cases "admit s t")
  from Cons.prems have t: "clock s \<le> t" and n: "now \<le> t" and ts: "arrivals t ts T" by auto
  note m = moves [OF Cons.prems(1) t a] and k = keeps [OF Cons.prems(1) t a]
  show ?case
  proof (cases b)
    case True
    with m ts have "arrivals (clock s') ts T" by simp
    from passed_bound [OF k this] m True
    have "of_nat (passed admit s' ts) \<le> credit s' + pace s * of_int (T - t)" by simp
    moreover have "credit s' + 1 \<le> cap s" using capped [OF Cons.prems(1) t] a True by simp
    moreover have "pace s * of_int (T - t) \<le> pace s * of_int (T - now)"
      using solvent [OF Cons.prems(1)] n by (intro mult_left_mono) simp_all
    ultimately have "of_nat (passed admit s' ts) + 1 \<le> cap s + pace s * of_int (T - now)" by linarith
    with True show ?thesis by (simp add: a)
  next
    case False
    show ?thesis
    proof (cases "clock s' \<le> now")
      case True
      from n ts have "arrivals now ts T" by (rule arrivals_mono [rotated])
      with Cons.IH [OF k True] m False show ?thesis by (simp add: a)
    next
      case later: False
      from m ts have "arrivals (clock s') ts T" by (auto intro: arrivals_mono)
      from passed_bound [OF k this] m False
      have "of_nat (passed admit s (t # ts)) \<le> credit s' + pace s * of_int (T - clock s')"
        by (simp add: a)
      moreover have "pace s * of_int (T - clock s') \<le> pace s * of_int (T - now)"
        using solvent [OF Cons.prems(1)] later by (intro mult_left_mono) simp_all
      ultimately show ?thesis using solvent [OF k] m by linarith
    qed
  qed
qed

end

end
