(* ===== verification/RateLimit.thy ===== *)
theory RateLimit
  imports Prelude
begin

text \<open>
  \<open>proxy/ratelimit.go\<close>: the token bucket, the escalating cooldown, the limiter of one level that
  combines them, and the three-level limiter. The state of each is a record, the clock an argument.
  The lock that \<open>AllowWithContext\<close> gives up for a moment to create a limiter is not modelled: creating
  is idempotent.
\<close>

datatype RateLimitLevel = LevelGlobal | LevelAccount | LevelModel

record LimitSnapshot =
  sp_Key :: string
  sp_Level :: string
  sp_CurrentRPM :: int
  sp_LimitRPM :: int
  sp_Blocked :: bool
  sp_BlockedAt :: time
  sp_ResetAt :: time

record LimitMetrics =
  lm_TotalRequests :: int
  lm_AllowedRequests :: int
  lm_BlockedRequests :: int
  lm_CurrentRPM :: int
  lm_LimitRPM :: int
  lm_CooldownLevel :: int
  lm_NextResetAt :: time
  lm_LastUpdatedAt :: time

definition no_metrics :: LimitMetrics where
  "no_metrics = \<lparr>lm_TotalRequests = 0, lm_AllowedRequests = 0, lm_BlockedRequests = 0, lm_CurrentRPM = 0,
     lm_LimitRPM = 0, lm_CooldownLevel = 0, lm_NextResetAt = 0, lm_LastUpdatedAt = 0\<rparr>"

section \<open>Token bucket\<close>

record tokenBucket =
  tb_tokens :: float64
  tb_maxTokens :: float64
  tb_refillRate :: float64
  tb_lastRefill :: time

definition newTokenBucket :: "int \<Rightarrow> time \<Rightarrow> tokenBucket" where
  "newTokenBucket rpm now =
     \<lparr>tb_tokens = of_int rpm, tb_maxTokens = of_int rpm, tb_refillRate = of_int rpm / 60,
      tb_lastRefill = now\<rparr>"

definition in_seconds :: "duration \<Rightarrow> float64" where
  "in_seconds d = of_int d / of_int second"

definition refill :: "tokenBucket \<Rightarrow> time \<Rightarrow> tokenBucket" where
  "refill tb now =
     (let tokens = tb_tokens tb + in_seconds (go_sub now (tb_lastRefill tb)) * tb_refillRate tb
      in tb\<lparr>tb_tokens := (if tokens > tb_maxTokens tb then tb_maxTokens tb else tokens),
            tb_lastRefill := now\<rparr>)"

definition tb_allow :: "tokenBucket \<Rightarrow> time \<Rightarrow> tokenBucket \<times> bool" where
  "tb_allow tb now =
     (let tb = refill tb now
      in if tb_tokens tb \<ge> 1 then (tb\<lparr>tb_tokens := tb_tokens tb - 1\<rparr>, True) else (tb, False))"

definition tb_allowN :: "tokenBucket \<Rightarrow> int \<Rightarrow> time \<Rightarrow> tokenBucket \<times> bool" where
  "tb_allowN tb n now =
     (if n \<le> 0 then (tb, True)
      else
        let tb = refill tb now
        in if tb_tokens tb \<ge> of_int n then (tb\<lparr>tb_tokens := tb_tokens tb - of_int n\<rparr>, True)
           else (tb, False))"

definition getRate :: "tokenBucket \<Rightarrow> float64" where
  "getRate tb = tb_refillRate tb * 60"

definition getTokens :: "tokenBucket \<Rightarrow> time \<Rightarrow> float64" where
  "getTokens tb now =
     (let tokens = tb_tokens tb + in_seconds (go_sub now (tb_lastRefill tb)) * tb_refillRate tb
      in if tokens > tb_maxTokens tb then tb_maxTokens tb else tokens)"

definition tb_updateRPM :: "tokenBucket \<Rightarrow> int \<Rightarrow> time \<Rightarrow> tokenBucket" where
  "tb_updateRPM tb rpm now =
     (let oldMaxTokens = tb_maxTokens tb;
          tokens = (if oldMaxTokens > 0 then (tb_tokens tb / oldMaxTokens) * of_int rpm else of_int rpm)
      in tb\<lparr>tb_maxTokens := of_int rpm, tb_refillRate := of_int rpm / 60,
            tb_tokens := (if tokens > of_int rpm then of_int rpm else tokens), tb_lastRefill := now\<rparr>)"

section \<open>Cooldown\<close>

record cooldownManager =
  cm_level :: int
  cm_blockedAt :: time
  cm_resetAt :: time
  cm_lastBackoff :: duration

definition cooldownDurations :: "duration list" where
  "cooldownDurations = map (\<lambda>n. n * second) [1, 2, 4, 8, 16, 32, 64, 128, 256, 512, 1024, 1800]"

definition newCooldownManager :: cooldownManager where
  "newCooldownManager = \<lparr>cm_level = - 1, cm_blockedAt = 0, cm_resetAt = 0, cm_lastBackoff = 0\<rparr>"

definition next_level :: "int \<Rightarrow> int" where
  "next_level level =
     (let newLevel = level + 1
      in if newLevel \<ge> int (length cooldownDurations) then int (length cooldownDurations) - 1 else newLevel)"

definition computeCooldown :: "cooldownManager \<Rightarrow> duration \<times> int" where
  "computeCooldown cm =
     (let newLevel = next_level (cm_level cm) in (cooldownDurations ! nat newLevel, newLevel))"

definition ComputeCooldown :: "int \<Rightarrow> duration \<times> int" where
  "ComputeCooldown prevLevel =
     (let newLevel = next_level (if prevLevel < 0 then - 1 else prevLevel)
      in (cooldownDurations ! nat newLevel, newLevel))"

definition cm_enterCooldown :: "cooldownManager \<Rightarrow> time \<Rightarrow> cooldownManager" where
  "cm_enterCooldown cm now =
     (let (duration, level) = computeCooldown cm
      in \<lparr>cm_level = level, cm_blockedAt = now, cm_resetAt = now + duration, cm_lastBackoff = duration\<rparr>)"

definition cm_reset :: "cooldownManager \<Rightarrow> cooldownManager" where
  "cm_reset cm = cm\<lparr>cm_level := - 1, cm_blockedAt := 0, cm_resetAt := 0, cm_lastBackoff := 0\<rparr>"

definition isInCooldown :: "cooldownManager \<Rightarrow> time \<Rightarrow> bool" where
  "isInCooldown cm now = (if cm_level cm < 0 then False else now < cm_resetAt cm)"

definition getRemainingCooldown :: "cooldownManager \<Rightarrow> time \<Rightarrow> duration" where
  "getRemainingCooldown cm now =
     (if cm_level cm < 0 then 0
      else let remaining = go_sub (cm_resetAt cm) now in if remaining < 0 then 0 else remaining)"

section \<open>One level\<close>

record LevelLimiter =
  ll_key :: string
  ll_level :: RateLimitLevel
  ll_bucket :: "tokenBucket option"
  ll_cooldown :: cooldownManager
  ll_metrics :: LimitMetrics
  ll_enabled :: bool
  ll_lastAccess :: int

definition newLevelLimiter :: "string \<Rightarrow> RateLimitLevel \<Rightarrow> int \<Rightarrow> time \<Rightarrow> LevelLimiter" where
  "newLevelLimiter key level rpm now =
     \<lparr>ll_key = key, ll_level = level,
      ll_bucket = (if rpm > 0 then Some (newTokenBucket rpm now) else None),
      ll_cooldown = newCooldownManager,
      ll_metrics = (if rpm > 0 then no_metrics\<lparr>lm_LimitRPM := rpm\<rparr> else no_metrics),
      ll_enabled = (rpm > 0), ll_lastAccess = unix_nano now\<rparr>"

definition ll_enterCooldown :: "LevelLimiter \<Rightarrow> time \<Rightarrow> LevelLimiter" where
  "ll_enterCooldown ll now =
     (let cm = cm_enterCooldown (ll_cooldown ll) now
      in ll\<lparr>ll_cooldown := cm,
            ll_metrics := (ll_metrics ll)\<lparr>lm_CooldownLevel := cm_level cm, lm_NextResetAt := cm_resetAt cm\<rparr>\<rparr>)"

definition resetCooldown :: "LevelLimiter \<Rightarrow> LevelLimiter" where
  "resetCooldown ll =
     ll\<lparr>ll_cooldown := cm_reset (ll_cooldown ll),
        ll_metrics := (ll_metrics ll)\<lparr>lm_CooldownLevel := - 1, lm_NextResetAt := 0\<rparr>\<rparr>"

definition count_blocked :: "int \<Rightarrow> LevelLimiter \<Rightarrow> LevelLimiter" where
  "count_blocked n ll =
     ll\<lparr>ll_metrics := (ll_metrics ll)\<lparr>lm_BlockedRequests := lm_BlockedRequests (ll_metrics ll) + n\<rparr>\<rparr>"

text \<open>The head of \<open>allow\<close> and \<open>allowN\<close>.\<close>

definition count_request :: "int \<Rightarrow> time \<Rightarrow> LevelLimiter \<Rightarrow> LevelLimiter" where
  "count_request n now ll =
     ll\<lparr>ll_lastAccess := unix_nano now,
        ll_metrics := (ll_metrics ll)\<lparr>lm_TotalRequests := lm_TotalRequests (ll_metrics ll) + n,
                                      lm_LastUpdatedAt := now\<rparr>\<rparr>"

text \<open>\<open>None\<close> is the panic of a limiter that is enabled but has no bucket.\<close>

definition ll_allow :: "LevelLimiter \<Rightarrow> time \<Rightarrow> (LevelLimiter \<times> bool) option" where
  "ll_allow ll now =
     (let ll = count_request 1 now ll
      in if \<not> ll_enabled ll then Some (ll, True)
         else if isInCooldown (ll_cooldown ll) now then Some (count_blocked 1 ll, False)
         else case ll_bucket ll of
           None \<Rightarrow> None
         | Some tb \<Rightarrow>
             let (tb, ok) = tb_allow tb now; ll = ll\<lparr>ll_bucket := Some tb\<rparr>
             in if ok
                then Some (ll\<lparr>ll_metrics := (ll_metrics ll)\<lparr>
                       lm_AllowedRequests := lm_AllowedRequests (ll_metrics ll) + 1,
                       lm_CurrentRPM := \<lfloor>getRate tb\<rfloor>\<rparr>\<rparr>, True)
                else Some (count_blocked 1 (ll_enterCooldown ll now), False))"

definition ll_allowN :: "LevelLimiter \<Rightarrow> int \<Rightarrow> time \<Rightarrow> (LevelLimiter \<times> bool) option" where
  "ll_allowN ll n now =
     (let ll = count_request n now ll
      in if \<not> ll_enabled ll then Some (ll, True)
         else if isInCooldown (ll_cooldown ll) now then Some (count_blocked n ll, False)
         else case ll_bucket ll of
           None \<Rightarrow> None
         | Some tb \<Rightarrow>
             let (tb, ok) = tb_allowN tb n now; ll = ll\<lparr>ll_bucket := Some tb\<rparr>
             in if ok
                then Some (ll\<lparr>ll_metrics := (ll_metrics ll)\<lparr>
                       lm_AllowedRequests := lm_AllowedRequests (ll_metrics ll) + n\<rparr>\<rparr>, True)
                else Some (count_blocked n (ll_enterCooldown ll now), False))"

definition ll_updateRPM :: "int \<Rightarrow> time \<Rightarrow> LevelLimiter \<Rightarrow> LevelLimiter" where
  "ll_updateRPM rpm now ll =
     (let ll = ll\<lparr>ll_enabled := (rpm > 0), ll_metrics := (ll_metrics ll)\<lparr>lm_LimitRPM := rpm\<rparr>\<rparr>
      in ll\<lparr>ll_bucket :=
              (if rpm > 0 then
                 Some (case ll_bucket ll of None \<Rightarrow> newTokenBucket rpm now
                       | Some tb \<Rightarrow> tb_updateRPM tb rpm now)
               else None)\<rparr>)"

definition getMetrics :: "LevelLimiter \<Rightarrow> LimitMetrics" where
  "getMetrics ll =
     (let m = (case ll_bucket ll of None \<Rightarrow> ll_metrics ll
               | Some tb \<Rightarrow> (ll_metrics ll)\<lparr>lm_CurrentRPM := \<lfloor>getRate tb\<rfloor>\<rparr>)
      in m\<lparr>lm_CooldownLevel := cm_level (ll_cooldown ll), lm_NextResetAt := cm_resetAt (ll_cooldown ll)\<rparr>)"

definition level_name :: "RateLimitLevel \<Rightarrow> string" where
  "level_name level =
     (case level of LevelGlobal \<Rightarrow> ''global'' | LevelAccount \<Rightarrow> ''account'' | LevelModel \<Rightarrow> ''model'')"

definition getSnapshot :: "LevelLimiter \<Rightarrow> LimitSnapshot" where
  "getSnapshot ll =
     \<lparr>sp_Key = ll_key ll, sp_Level = level_name (ll_level ll),
      sp_CurrentRPM = lm_CurrentRPM (ll_metrics ll), sp_LimitRPM = lm_LimitRPM (ll_metrics ll),
      sp_Blocked = (cm_level (ll_cooldown ll) \<ge> 0), sp_BlockedAt = cm_blockedAt (ll_cooldown ll),
      sp_ResetAt = cm_resetAt (ll_cooldown ll)\<rparr>"

section \<open>Three levels\<close>

record EnhancedRateLimiter =
  er_globalLimiter :: LevelLimiter
  er_accountLimiters :: "string \<Rightarrow> LevelLimiter option"
  er_modelLimiters :: "string \<Rightarrow> LevelLimiter option"
  er_globalRPM :: int
  er_accountRPM :: int
  er_modelRPM :: int
  er_enabled :: bool
  er_totalLimited :: int

definition NewEnhancedRateLimiter :: "int \<Rightarrow> int \<Rightarrow> int \<Rightarrow> time \<Rightarrow> EnhancedRateLimiter" where
  "NewEnhancedRateLimiter globalRPM accountRPM modelRPM now =
     \<lparr>er_globalLimiter = newLevelLimiter ''global'' LevelGlobal globalRPM now,
      er_accountLimiters = (\<lambda>_. None), er_modelLimiters = (\<lambda>_. None),
      er_globalRPM = globalRPM, er_accountRPM = accountRPM, er_modelRPM = modelRPM,
      er_enabled = (globalRPM > 0 \<or> accountRPM > 0 \<or> modelRPM > 0), er_totalLimited = 0\<rparr>"

definition Allow :: "EnhancedRateLimiter \<Rightarrow> time \<Rightarrow> (EnhancedRateLimiter \<times> bool) option" where
  "Allow erl now =
     (if \<not> er_enabled erl then Some (erl, True)
      else map_option (\<lambda>(ll, ok). (erl\<lparr>er_globalLimiter := ll\<rparr>, ok)) (ll_allow (er_globalLimiter erl) now))"

text \<open>The limiter of a key, created when the key is new, and one request to it.\<close>

definition keyed_allow ::
  "(string \<Rightarrow> LevelLimiter option) \<Rightarrow> string \<Rightarrow> RateLimitLevel \<Rightarrow> int \<Rightarrow> time
     \<Rightarrow> ((string \<Rightarrow> LevelLimiter option) \<times> bool) option" where
  "keyed_allow limiters key level rpm now =
     map_option (\<lambda>(ll, ok). (limiters(key \<mapsto> ll), ok))
       (ll_allow (case limiters key of Some ll \<Rightarrow> ll | None \<Rightarrow> newLevelLimiter key level rpm now) now)"

definition count_limited :: "EnhancedRateLimiter \<Rightarrow> EnhancedRateLimiter" where
  "count_limited erl = erl\<lparr>er_totalLimited := er_totalLimited erl + 1\<rparr>"

definition AllowWithContext ::
  "EnhancedRateLimiter \<Rightarrow> string \<Rightarrow> string \<Rightarrow> time \<Rightarrow> (EnhancedRateLimiter \<times> bool) option" where
  "AllowWithContext erl accountID model now =
     (if \<not> er_enabled erl then Some (erl, True)
      else case ll_allow (er_globalLimiter erl) now of
        None \<Rightarrow> None
      | Some (ll, ok) \<Rightarrow>
          let erl = erl\<lparr>er_globalLimiter := ll\<rparr>
          in if \<not> ok then Some (count_limited erl, False)
             else case (if er_accountRPM erl > 0 \<and> accountID \<noteq> ''''
                        then keyed_allow (er_accountLimiters erl) accountID LevelAccount (er_accountRPM erl) now
                        else Some (er_accountLimiters erl, True)) of
               None \<Rightarrow> None
             | Some (accs, ok) \<Rightarrow>
                 let erl = erl\<lparr>er_accountLimiters := accs\<rparr>
                 in if \<not> ok then Some (count_limited erl, False)
                    else case (if er_modelRPM erl > 0 \<and> model \<noteq> ''''
                               then keyed_allow (er_modelLimiters erl) model LevelModel (er_modelRPM erl) now
                               else Some (er_modelLimiters erl, True)) of
                      None \<Rightarrow> None
                    | Some (models, ok) \<Rightarrow>
                        let erl = erl\<lparr>er_modelLimiters := models\<rparr>
                        in Some (if ok then erl else count_limited erl, ok))"

definition any_rpm :: "EnhancedRateLimiter \<Rightarrow> bool" where
  "any_rpm erl \<longleftrightarrow> er_globalRPM erl > 0 \<or> er_accountRPM erl > 0 \<or> er_modelRPM erl > 0"

definition update_all :: "int \<Rightarrow> time \<Rightarrow> (string \<Rightarrow> LevelLimiter option) \<Rightarrow> string \<Rightarrow> LevelLimiter option" where
  "update_all rpm now limiters = (\<lambda>key. map_option (ll_updateRPM rpm now) (limiters key))"

definition UpdateGlobalRPM :: "EnhancedRateLimiter \<Rightarrow> int \<Rightarrow> time \<Rightarrow> EnhancedRateLimiter" where
  "UpdateGlobalRPM erl rpm now =
     (let erl = erl\<lparr>er_globalRPM := rpm, er_globalLimiter := ll_updateRPM rpm now (er_globalLimiter erl)\<rparr>
      in erl\<lparr>er_enabled := any_rpm erl\<rparr>)"

definition UpdateAccountRPM :: "EnhancedRateLimiter \<Rightarrow> int \<Rightarrow> time \<Rightarrow> EnhancedRateLimiter" where
  "UpdateAccountRPM erl rpm now =
     (let erl = erl\<lparr>er_accountRPM := rpm, er_accountLimiters := update_all rpm now (er_accountLimiters erl)\<rparr>
      in erl\<lparr>er_enabled := any_rpm erl\<rparr>)"

definition UpdateModelRPM :: "EnhancedRateLimiter \<Rightarrow> int \<Rightarrow> time \<Rightarrow> EnhancedRateLimiter" where
  "UpdateModelRPM erl rpm now =
     (let erl = erl\<lparr>er_modelRPM := rpm, er_modelLimiters := update_all rpm now (er_modelLimiters erl)\<rparr>
      in erl\<lparr>er_enabled := any_rpm erl\<rparr>)"

definition UpdateAllRPM :: "EnhancedRateLimiter \<Rightarrow> int \<Rightarrow> int \<Rightarrow> int \<Rightarrow> time \<Rightarrow> EnhancedRateLimiter" where
  "UpdateAllRPM erl globalRPM accountRPM modelRPM now =
     (let erl = erl\<lparr>er_globalRPM := globalRPM, er_accountRPM := accountRPM, er_modelRPM := modelRPM,
                    er_globalLimiter := ll_updateRPM globalRPM now (er_globalLimiter erl),
                    er_accountLimiters := update_all accountRPM now (er_accountLimiters erl),
                    er_modelLimiters := update_all modelRPM now (er_modelLimiters erl)\<rparr>
      in erl\<lparr>er_enabled := any_rpm erl\<rparr>)"

definition evict_stale :: "int \<Rightarrow> (string \<Rightarrow> LevelLimiter option) \<Rightarrow> string \<Rightarrow> LevelLimiter option" where
  "evict_stale cutoff limiters =
     (\<lambda>key. case limiters key of
        Some ll \<Rightarrow> if ll_lastAccess ll < cutoff then None else Some ll
      | None \<Rightarrow> None)"

definition evictStaleLimiters :: "EnhancedRateLimiter \<Rightarrow> duration \<Rightarrow> time \<Rightarrow> EnhancedRateLimiter" where
  "evictStaleLimiters erl ttl now =
     (let cutoff = unix_nano (now - ttl)
      in erl\<lparr>er_accountLimiters := evict_stale cutoff (er_accountLimiters erl),
             er_modelLimiters := evict_stale cutoff (er_modelLimiters erl)\<rparr>)"

definition GetAccountMetrics :: "EnhancedRateLimiter \<Rightarrow> string \<Rightarrow> LimitMetrics" where
  "GetAccountMetrics erl accountID =
     (case er_accountLimiters erl accountID of None \<Rightarrow> no_metrics | Some ll \<Rightarrow> getMetrics ll)"

definition GetModelMetrics :: "EnhancedRateLimiter \<Rightarrow> string \<Rightarrow> LimitMetrics" where
  "GetModelMetrics erl model =
     (case er_modelLimiters erl model of None \<Rightarrow> no_metrics | Some ll \<Rightarrow> getMetrics ll)"

section \<open>Middleware\<close>

text \<open>Which paths are limited, and the decision for a request.\<close>

definition limited_path :: "string \<Rightarrow> bool" where
  "limited_path path \<longleftrightarrow>
     \<not> (path = ''/health'' \<or> (length path \<ge> 4 \<and> take 4 path = ''/api'')
        \<or> (length path \<ge> 6 \<and> take 6 path = ''/admin''))"

definition Middleware :: "EnhancedRateLimiter \<Rightarrow> string \<Rightarrow> time \<Rightarrow> (EnhancedRateLimiter \<times> bool) option" where
  "Middleware erl path now = (if \<not> limited_path path then Some (erl, True) else Allow erl now)"

end
