(* ===== verification/RateLimitLaws.thy ===== *)
theory RateLimitLaws
  imports Admission RateLimit
begin

text \<open>
  What the rate limiters promise. The token bucket and the limiter of one level provide the interface
  \<open>admission\<close>; the three-level limiter never meets an enabled limiter without a bucket and holds every
  key to the rate that is configured now; a cooldown only ever escalates.
\<close>

section \<open>Token bucket\<close>

definition tb_ok :: "tokenBucket \<Rightarrow> bool" where
  "tb_ok tb \<longleftrightarrow> 0 \<le> tb_tokens tb \<and> tb_tokens tb \<le> tb_maxTokens tb \<and>
     tb_refillRate tb = tb_maxTokens tb / 60"

definition bucket_pace :: "tokenBucket \<Rightarrow> rat" where
  "bucket_pace tb = tb_refillRate tb / of_int second"

lemma elapsed_bounds:
  assumes "u \<le> t"
  shows "0 \<le> in_seconds (go_sub t u)" "in_seconds (go_sub t u) \<le> of_int (t - u) / of_int second"
proof -
  have "0 \<le> go_sub t u" "go_sub t u \<le> t - u" using assms by (auto simp: go_sub_def)
  then show "0 \<le> in_seconds (go_sub t u)" "in_seconds (go_sub t u) \<le> of_int (t - u) / of_int second"
    unfolding in_seconds_def by (simp, subst divide_right_mono) (simp_all flip: of_int_diff)
qed

lemma refill_fields [simp]:
  "tb_maxTokens (refill tb now) = tb_maxTokens tb"
  "tb_refillRate (refill tb now) = tb_refillRate tb"
  "tb_lastRefill (refill tb now) = now"
  by (simp_all add: refill_def Let_def)

lemma refill_tokens:
  assumes "tb_ok tb" "tb_lastRefill tb \<le> now"
  shows "tb_tokens tb \<le> tb_tokens (refill tb now)" "tb_tokens (refill tb now) \<le> tb_maxTokens tb"
    "tb_tokens (refill tb now) \<le> tb_tokens tb + bucket_pace tb * of_int (now - tb_lastRefill tb)"
proof -
  let ?e = "in_seconds (go_sub now (tb_lastRefill tb))"
  note e = elapsed_bounds [OF assms(2)]
  from assms(1) have r: "0 \<le> tb_refillRate tb" by (auto simp: tb_ok_def)
  have g: "0 \<le> ?e * tb_refillRate tb" using e(1) r by simp
  have h: "?e * tb_refillRate tb \<le> bucket_pace tb * of_int (now - tb_lastRefill tb)"
    using mult_right_mono [OF e(2) r] by (simp add: bucket_pace_def mult.commute)
  from assms(1) g show "tb_tokens tb \<le> tb_tokens (refill tb now)"
    "tb_tokens (refill tb now) \<le> tb_maxTokens tb"
    by (auto simp: refill_def Let_def tb_ok_def)
  show "tb_tokens (refill tb now) \<le> tb_tokens tb + bucket_pace tb * of_int (now - tb_lastRefill tb)"
    using g h by (simp add: refill_def Let_def)
qed

lemma tb_allow_fields:
  assumes "tb_allow tb now = (tb', b)"
  shows "tb_lastRefill tb' = now" "tb_maxTokens tb' = tb_maxTokens tb" "tb_refillRate tb' = tb_refillRate tb"
    "tb_tokens tb' + (if b then 1 else 0) = tb_tokens (refill tb now)" "b \<longleftrightarrow> 1 \<le> tb_tokens (refill tb now)"
  using assms by (auto simp: tb_allow_def Let_def split: if_splits)

lemma tb_allow_ok:
  assumes "tb_ok tb" "tb_lastRefill tb \<le> now" "tb_allow tb now = (tb', b)"
  shows "tb_ok tb'"
  using refill_tokens [OF assms(1,2)] tb_allow_fields [OF assms(3)] assms(1)
  by (auto simp: tb_ok_def split: if_splits)

lemma tb_allow_pays:
  assumes "tb_ok tb" "tb_lastRefill tb \<le> now" "tb_allow tb now = (tb', b)"
  shows "tb_tokens tb' + (if b then 1 else 0)
    \<le> tb_tokens tb + bucket_pace tb * of_int (tb_lastRefill tb' - tb_lastRefill tb)"
  using refill_tokens(3) [OF assms(1,2)] tb_allow_fields(1,4) [OF assms(3)] by simp

interpretation bucket: admission tb_allow tb_ok tb_tokens tb_maxTokens bucket_pace tb_lastRefill
proof
  fix s now s' b
  assume a: "tb_ok s" "tb_lastRefill s \<le> now" "tb_allow s now = (s', b)"
  show "tb_ok s'" by (rule tb_allow_ok [OF a])
  show "tb_lastRefill s \<le> tb_lastRefill s' \<and> tb_lastRefill s' \<le> now \<and>
      (b \<longrightarrow> tb_lastRefill s' = now) \<and> bucket_pace s' = bucket_pace s \<and> tb_maxTokens s' = tb_maxTokens s"
    using a(2) tb_allow_fields [OF a(3)] by (simp add: bucket_pace_def)
  show "tb_tokens s' + (if b then 1 else 0)
      \<le> tb_tokens s + bucket_pace s * of_int (tb_lastRefill s' - tb_lastRefill s)"
    by (rule tb_allow_pays [OF a])
next
  fix s now s'
  assume a: "tb_ok s" "tb_lastRefill s \<le> now" "tb_allow s now = (s', True)"
  then show "tb_tokens s' + 1 \<le> tb_maxTokens s"
    using tb_allow_fields(4) [OF a(3)] refill_tokens(2) [OF a(1,2)] by simp
next
  fix s assume "tb_ok s"
  then show "0 \<le> tb_tokens s \<and> tb_tokens s \<le> tb_maxTokens s \<and> 0 \<le> bucket_pace s" by (auto simp: tb_ok_def bucket_pace_def)
qed

lemma tb_allowN_ok:
  assumes "tb_ok tb" "tb_lastRefill tb \<le> now" "tb_allowN tb n now = (tb', b)"
  shows "tb_ok tb'" "tb_lastRefill tb' \<le> now" "tb_maxTokens tb' = tb_maxTokens tb"
proof -
  have "of_int n \<ge> (0::rat)" if "0 < n" using that by simp
  with refill_tokens [OF assms(1,2)] assms
  show "tb_ok tb'" "tb_lastRefill tb' \<le> now" "tb_maxTokens tb' = tb_maxTokens tb"
    by (auto simp: tb_allowN_def Let_def tb_ok_def split: if_splits)
qed

lemma newTokenBucket_ok: "0 < rpm \<Longrightarrow> tb_ok (newTokenBucket rpm now)"
  by (simp add: tb_ok_def newTokenBucket_def)

lemma tb_updateRPM_ok:
  assumes "tb_ok tb" "0 < rpm"
  shows "tb_ok (tb_updateRPM tb rpm now)"
proof -
  have "0 \<le> tb_tokens tb / tb_maxTokens tb * of_int rpm"
    using assms by (auto simp: tb_ok_def)
  with assms(2) show ?thesis by (auto simp: tb_ok_def tb_updateRPM_def Let_def)
qed

section \<open>One level\<close>

text \<open>
  A limiter for \<open>rpm\<close> requests a minute: it is enabled exactly when there is a limit, and then it has
  a bucket of that size.
\<close>

definition ll_ok :: "int \<Rightarrow> time \<Rightarrow> LevelLimiter \<Rightarrow> bool" where
  "ll_ok rpm now ll \<longleftrightarrow>
     ll_enabled ll = (rpm > 0) \<and> - 1 \<le> cm_level (ll_cooldown ll) \<and> cm_level (ll_cooldown ll) \<le> 11 \<and>
     (case ll_bucket ll of
        None \<Rightarrow> rpm \<le> 0
      | Some tb \<Rightarrow> rpm > 0 \<and> tb_ok tb \<and> tb_maxTokens tb = of_int rpm \<and> tb_lastRefill tb \<le> now)"

lemma ll_ok_later: "ll_ok rpm now ll \<Longrightarrow> now \<le> now' \<Longrightarrow> ll_ok rpm now' ll"
  by (auto simp: ll_ok_def split: option.splits)

lemma count_simps [simp]:
  "ll_enabled (count_request n now ll) = ll_enabled ll"
  "ll_cooldown (count_request n now ll) = ll_cooldown ll"
  "ll_bucket (count_request n now ll) = ll_bucket ll"
  "ll_enabled (count_blocked n ll) = ll_enabled ll"
  "ll_cooldown (count_blocked n ll) = ll_cooldown ll"
  "ll_bucket (count_blocked n ll) = ll_bucket ll"
  "ll_enabled (ll_enterCooldown ll now) = ll_enabled ll"
  "ll_bucket (ll_enterCooldown ll now) = ll_bucket ll"
  "ll_cooldown (ll_enterCooldown ll now) = cm_enterCooldown (ll_cooldown ll) now"
  by (simp_all add: count_request_def count_blocked_def ll_enterCooldown_def Let_def)

lemma length_cooldownDurations [simp]: "length cooldownDurations = 12"
  by (simp add: cooldownDurations_def)

lemma next_level_eq: "next_level l = min (l + 1) 11"
  by (simp add: next_level_def Let_def)

lemma cm_enterCooldown_fields [simp]:
  "cm_level (cm_enterCooldown cm now) = min (cm_level cm + 1) 11"
  "cm_resetAt (cm_enterCooldown cm now) = now + cooldownDurations ! nat (min (cm_level cm + 1) 11)"
  by (simp_all add: cm_enterCooldown_def computeCooldown_def next_level_eq Let_def split_beta)

lemma newLevelLimiter_ok: "ll_ok rpm now (newLevelLimiter key level rpm now)"
proof (cases "0 < rpm")
  case True
  then show ?thesis
    using newTokenBucket_ok [of rpm now]
    by (simp add: ll_ok_def newLevelLimiter_def newCooldownManager_def) (simp add: newTokenBucket_def)
next
  case False
  then show ?thesis by (simp add: ll_ok_def newLevelLimiter_def newCooldownManager_def)
qed

text \<open>What one request does, by the cases of the code.\<close>

lemma ll_allow_cases:
  assumes "ll_ok rpm now ll"
  obtains (off) "rpm \<le> 0" "ll_allow ll now = Some (count_request 1 now ll, True)"
  | (cooling) "0 < rpm" "isInCooldown (ll_cooldown ll) now"
      "ll_allow ll now = Some (count_blocked 1 (count_request 1 now ll), False)"
  | (bucket) tb tb' b ll' where "0 < rpm" "\<not> isInCooldown (ll_cooldown ll) now" "ll_bucket ll = Some tb"
      "tb_allow tb now = (tb', b)" "ll_allow ll now = Some (ll', b)"
      "ll_enabled ll' = ll_enabled ll" "ll_bucket ll' = Some tb'"
      "ll_cooldown ll' = (if b then ll_cooldown ll else cm_enterCooldown (ll_cooldown ll) now)"
proof (cases "0 < rpm")
  case False
  with assms that(1) show thesis by (simp add: ll_ok_def ll_allow_def Let_def)
next
  case True
  show thesis
  proof (cases "isInCooldown (ll_cooldown ll) now")
    case cool: True
    with True assms that(2) show thesis by (simp add: ll_ok_def ll_allow_def Let_def)
  next
    case False
    from True assms obtain tb where tb: "ll_bucket ll = Some tb" "ll_enabled ll"
      by (auto simp: ll_ok_def split: option.splits)
    obtain tb' b where a: "tb_allow tb now = (tb', b)" by (cases "tb_allow tb now")
    obtain ll' where "ll_allow ll now = Some (ll', b)" "ll_enabled ll' = ll_enabled ll"
      "ll_bucket ll' = Some tb'"
      "ll_cooldown ll' = (if b then ll_cooldown ll else cm_enterCooldown (ll_cooldown ll) now)"
      using False tb a by (cases b) (simp_all add: ll_allow_def Let_def)
    then show thesis by (rule that(3) [OF True False tb(1) a])
  qed
qed

lemma ll_allow_ok:
  assumes "ll_ok rpm now ll"
  shows "\<exists>ll' b. ll_allow ll now = Some (ll', b) \<and> ll_ok rpm now ll' \<and>
     cm_level (ll_cooldown ll) \<le> cm_level (ll_cooldown ll')"
  using assms
proof (cases rule: ll_allow_cases)
  case (bucket tb tb' b ll')
  with assms have "tb_ok tb" "tb_lastRefill tb \<le> now" "tb_maxTokens tb = of_int rpm"
    by (auto simp: ll_ok_def)
  with bucket assms tb_allow_ok [of tb now tb' b] tb_allow_fields [of tb now tb' b]
  show ?thesis by (auto simp: ll_ok_def)
qed (use assms in \<open>auto simp: ll_ok_def\<close>)

lemma ll_allowN_ok:
  assumes "ll_ok rpm now ll"
  shows "\<exists>ll' b. ll_allowN ll n now = Some (ll', b) \<and> ll_ok rpm now ll' \<and>
     cm_level (ll_cooldown ll) \<le> cm_level (ll_cooldown ll')"
proof (cases "ll_enabled ll \<and> \<not> isInCooldown (ll_cooldown ll) now")
  case True
  with assms obtain tb where tb: "ll_bucket ll = Some tb" "tb_ok tb" "tb_lastRefill tb \<le> now"
      "tb_maxTokens tb = of_int rpm"
    by (auto simp: ll_ok_def split: option.splits)
  obtain tb' b where a: "tb_allowN tb n now = (tb', b)" by (cases "tb_allowN tb n now")
  from True tb(1) a assms tb_allowN_ok [OF tb(2,3) a] tb(4) show ?thesis
    by (cases b) (auto simp: ll_allowN_def ll_ok_def Let_def)
qed (use assms in \<open>auto simp: ll_allowN_def ll_ok_def Let_def\<close>)

lemma ll_updateRPM_ok:
  assumes "ll_ok old now ll"
  shows "ll_ok rpm now (ll_updateRPM rpm now ll)"
    "cm_level (ll_cooldown (ll_updateRPM rpm now ll)) = cm_level (ll_cooldown ll)"
proof -
  show "cm_level (ll_cooldown (ll_updateRPM rpm now ll)) = cm_level (ll_cooldown ll)"
    by (simp add: ll_updateRPM_def Let_def)
  show "ll_ok rpm now (ll_updateRPM rpm now ll)"
  proof (cases "ll_bucket ll")
    case None
    with assms newTokenBucket_ok [of rpm now] show ?thesis
      by (simp add: ll_ok_def ll_updateRPM_def Let_def) (simp add: newTokenBucket_def)
  next
    case (Some tb)
    with assms tb_updateRPM_ok [of tb rpm now] show ?thesis
      by (simp add: ll_ok_def ll_updateRPM_def Let_def) (simp add: tb_updateRPM_def Let_def)
  qed
qed

text \<open>A limiter that is on provides the interface; its clock stands still while it cools down.\<close>

definition level_admit :: "LevelLimiter \<Rightarrow> time \<Rightarrow> LevelLimiter \<times> bool" where
  "level_admit ll now = the (ll_allow ll now)"

definition level_bucket :: "LevelLimiter \<Rightarrow> tokenBucket" where
  "level_bucket ll = the (ll_bucket ll)"

definition limits :: "LevelLimiter \<Rightarrow> bool" where
  "limits ll \<longleftrightarrow> (\<exists>rpm > 0. ll_ok rpm (tb_lastRefill (level_bucket ll)) ll)"

lemma level_admit_step:
  assumes "limits ll" "tb_lastRefill (level_bucket ll) \<le> now" "level_admit ll now = (ll', b)"
  obtains "\<not> b" "ll_bucket ll' = ll_bucket ll" "limits ll'"
  | "tb_allow (level_bucket ll) now = (level_bucket ll', b)" "limits ll'"
proof -
  from assms(1) obtain rpm where r: "0 < rpm" "ll_ok rpm (tb_lastRefill (level_bucket ll)) ll"
    by (auto simp: limits_def)
  from r(2) assms(2) have n: "ll_ok rpm now ll" by (rule ll_ok_later)
  from n assms(3) have k: "ll_ok rpm now ll'"
    using ll_allow_ok [OF n] by (auto simp: level_admit_def)
  with r(1) obtain tb' where tb': "ll_bucket ll' = Some tb'" "level_bucket ll' = tb'"
    by (auto simp: ll_ok_def level_bucket_def split: option.splits)
  with k r(1) have l: "limits ll'" by (auto simp: limits_def ll_ok_def)
  from n show thesis
  proof (cases rule: ll_allow_cases)
    case off
    with r(1) show thesis by simp
  next
    case cooling
    with assms(3) l that(1) show thesis by (auto simp: level_admit_def)
  next
    case (bucket tb tb1 b1 ll1)
    with assms(3) tb' l that(2) show thesis by (auto simp: level_admit_def level_bucket_def)
  qed
qed

lemma limits_bucket: "limits ll \<Longrightarrow> tb_ok (level_bucket ll)"
  by (auto simp: limits_def ll_ok_def level_bucket_def split: option.splits)

interpretation level: admission level_admit limits "\<lambda>ll. tb_tokens (level_bucket ll)"
  "\<lambda>ll. tb_maxTokens (level_bucket ll)" "\<lambda>ll. bucket_pace (level_bucket ll)" "\<lambda>ll. tb_lastRefill (level_bucket ll)"
proof
  fix s now s' b
  assume a: "limits s" "tb_lastRefill (level_bucket s) \<le> now" "level_admit s now = (s', b)"
  note t = limits_bucket [OF a(1)]
  from a show "limits s'" by (rule level_admit_step)
  from a show "tb_lastRefill (level_bucket s) \<le> tb_lastRefill (level_bucket s') \<and>
      tb_lastRefill (level_bucket s') \<le> now \<and> (b \<longrightarrow> tb_lastRefill (level_bucket s') = now) \<and>
      bucket_pace (level_bucket s') = bucket_pace (level_bucket s) \<and>
      tb_maxTokens (level_bucket s') = tb_maxTokens (level_bucket s)"
    by (rule level_admit_step)
      (use a(2) bucket.moves [OF t a(2)] in \<open>simp_all add: level_bucket_def\<close>)
  from a show "tb_tokens (level_bucket s') + (if b then 1 else 0) \<le> tb_tokens (level_bucket s) +
      bucket_pace (level_bucket s) * of_int (tb_lastRefill (level_bucket s') - tb_lastRefill (level_bucket s))"
    by (rule level_admit_step)
      (use bucket.pays [OF t a(2)] in \<open>simp_all add: level_bucket_def\<close>)
next
  fix s now s'
  assume a: "limits s" "tb_lastRefill (level_bucket s) \<le> now" "level_admit s now = (s', True)"
  from a show "tb_tokens (level_bucket s') + 1 \<le> tb_maxTokens (level_bucket s)"
    by (rule level_admit_step) (use bucket.capped [OF limits_bucket [OF a(1)] a(2)] in auto)
next
  fix s assume "limits s"
  then show "0 \<le> tb_tokens (level_bucket s) \<and> tb_tokens (level_bucket s) \<le> tb_maxTokens (level_bucket s) \<and> 0 \<le> bucket_pace (level_bucket s)"
    by (rule bucket.solvent [OF limits_bucket])
qed


section \<open>Three levels\<close>

text \<open>
  The states the limiter of a running process can be in, with the time of the last operation: the
  operations of the admin interface and of the proxy in any order, under a clock that does not run
  backwards.
\<close>

inductive running :: "EnhancedRateLimiter \<Rightarrow> time \<Rightarrow> bool" where
  start: "running (NewEnhancedRateLimiter g a m now) now"
| later: "running erl now \<Longrightarrow> now \<le> now' \<Longrightarrow> running erl now'"
| allow: "running erl now \<Longrightarrow> Allow erl now = Some (erl', b) \<Longrightarrow> running erl' now"
| allow_context:
    "running erl now \<Longrightarrow> AllowWithContext erl acc model now = Some (erl', b) \<Longrightarrow> running erl' now"
| update_global: "running erl now \<Longrightarrow> running (UpdateGlobalRPM erl rpm now) now"
| update_account: "running erl now \<Longrightarrow> running (UpdateAccountRPM erl rpm now) now"
| update_model: "running erl now \<Longrightarrow> running (UpdateModelRPM erl rpm now) now"
| update_all: "running erl now \<Longrightarrow> running (UpdateAllRPM erl g a m now) now"
| evict: "running erl now \<Longrightarrow> running (evictStaleLimiters erl ttl now) now"

definition all_ok :: "int \<Rightarrow> time \<Rightarrow> (string \<Rightarrow> LevelLimiter option) \<Rightarrow> bool" where
  "all_ok rpm now limiters \<longleftrightarrow> (\<forall>key ll. limiters key = Some ll \<longrightarrow> ll_ok rpm now ll)"

definition erl_ok :: "time \<Rightarrow> EnhancedRateLimiter \<Rightarrow> bool" where
  "erl_ok now erl \<longleftrightarrow>
     er_enabled erl = any_rpm erl \<and> ll_ok (er_globalRPM erl) now (er_globalLimiter erl) \<and>
     all_ok (er_accountRPM erl) now (er_accountLimiters erl) \<and>
     all_ok (er_modelRPM erl) now (er_modelLimiters erl)"

lemma all_ok_update: "all_ok old now ls \<Longrightarrow> all_ok rpm now (update_all rpm now ls)"
  by (auto simp: all_ok_def update_all_def intro: ll_updateRPM_ok)

lemma all_ok_evict: "all_ok rpm now ls \<Longrightarrow> all_ok rpm now (evict_stale cutoff ls)"
  by (auto simp: all_ok_def evict_stale_def split: option.splits if_splits)

lemma all_ok_later: "all_ok rpm now ls \<Longrightarrow> now \<le> now' \<Longrightarrow> all_ok rpm now' ls"
  by (auto simp: all_ok_def intro: ll_ok_later)

lemma keyed_allow_ok:
  assumes "all_ok rpm now ls"
  shows "\<exists>ls' b. keyed_allow ls key level rpm now = Some (ls', b) \<and> all_ok rpm now ls'"
proof -
  let ?ll = "case ls key of Some ll \<Rightarrow> ll | None \<Rightarrow> newLevelLimiter key level rpm now"
  have "ll_ok rpm now ?ll"
    using assms newLevelLimiter_ok [of rpm now key level] by (auto simp: all_ok_def split: option.splits)
  from ll_allow_ok [OF this] assms show ?thesis by (auto simp: keyed_allow_def all_ok_def)
qed

lemma optional_allow_ok:
  assumes "all_ok rpm now ls"
  obtains ls' b where "(if c then keyed_allow ls key level rpm now else Some (ls, True)) = Some (ls', b)"
    "all_ok rpm now ls'"
  using keyed_allow_ok [OF assms, of key level] assms by (cases c) auto

lemma Allow_ok:
  assumes "erl_ok now erl"
  shows "\<exists>erl' b. Allow erl now = Some (erl', b) \<and> erl_ok now erl'"
proof -
  from assms have "ll_ok (er_globalRPM erl) now (er_globalLimiter erl)" by (simp add: erl_ok_def)
  from ll_allow_ok [OF this] assms show ?thesis by (auto simp: Allow_def erl_ok_def any_rpm_def)
qed

lemma erl_ok_with [simp]:
  "erl_ok now (count_limited erl) = erl_ok now erl"
  by (simp add: erl_ok_def count_limited_def any_rpm_def)

lemma AllowWithContext_ok:
  assumes "erl_ok now erl"
  shows "\<exists>erl' b. AllowWithContext erl acc model now = Some (erl', b) \<and> erl_ok now erl'"
proof -
  let ?a = "if er_accountRPM erl > 0 \<and> acc \<noteq> ''''
    then keyed_allow (er_accountLimiters erl) acc LevelAccount (er_accountRPM erl) now
    else Some (er_accountLimiters erl, True)"
  let ?m = "if er_modelRPM erl > 0 \<and> model \<noteq> ''''
    then keyed_allow (er_modelLimiters erl) model LevelModel (er_modelRPM erl) now
    else Some (er_modelLimiters erl, True)"
  from assms obtain ll b where g: "ll_allow (er_globalLimiter erl) now = Some (ll, b)"
      "ll_ok (er_globalRPM erl) now ll"
    using ll_allow_ok [of "er_globalRPM erl" now "er_globalLimiter erl"] by (auto simp: erl_ok_def)
  from assms have oa: "all_ok (er_accountRPM erl) now (er_accountLimiters erl)"
    and om: "all_ok (er_modelRPM erl) now (er_modelLimiters erl)" by (simp_all add: erl_ok_def)
  obtain as ab where a: "?a = Some (as, ab)" "all_ok (er_accountRPM erl) now as"
    by (rule optional_allow_ok [OF oa])
  obtain ms mb where m: "?m = Some (ms, mb)" "all_ok (er_modelRPM erl) now ms"
    by (rule optional_allow_ok [OF om])
  have g': "erl_ok now (erl\<lparr>er_globalLimiter := ll\<rparr>)"
    and a': "erl_ok now (erl\<lparr>er_globalLimiter := ll, er_accountLimiters := as\<rparr>)"
    and m': "erl_ok now (erl\<lparr>er_globalLimiter := ll, er_accountLimiters := as, er_modelLimiters := ms\<rparr>)"
    using assms g a m by (simp_all add: erl_ok_def any_rpm_def)
  show ?thesis
    using g(1) a(1) m(1) g' a' m'
    by (cases "er_enabled erl"; cases b; cases ab; cases mb)
      (simp_all add: AllowWithContext_def Let_def assms ex_bool_eq del: if_split cong: if_cong)
qed

lemma running_ok: "running erl now \<Longrightarrow> erl_ok now erl"
proof (induction rule: running.induct)
  case (start g a m now)
  show ?case
    using newLevelLimiter_ok [of g now "''global''" LevelGlobal]
    by (auto simp: erl_ok_def NewEnhancedRateLimiter_def any_rpm_def all_ok_def)
next
  case (later erl now now')
  then show ?case by (auto simp: erl_ok_def intro: ll_ok_later all_ok_later)
next
  case (allow erl now erl' b)
  then show ?case using Allow_ok [of now erl] by auto
next
  case (allow_context erl now acc model erl' b)
  then show ?case using AllowWithContext_ok [of now erl acc model] by auto
next
  case (update_global erl now rpm)
  then show ?case by (auto simp: erl_ok_def UpdateGlobalRPM_def any_rpm_def Let_def intro: ll_updateRPM_ok)
next
  case (update_account erl now rpm)
  then show ?case by (auto simp: erl_ok_def UpdateAccountRPM_def any_rpm_def Let_def intro: all_ok_update)
next
  case (update_model erl now rpm)
  then show ?case by (auto simp: erl_ok_def UpdateModelRPM_def any_rpm_def Let_def intro: all_ok_update)
next
  case (update_all erl now g a m)
  then show ?case
    by (auto simp: erl_ok_def UpdateAllRPM_def any_rpm_def Let_def intro: all_ok_update ll_updateRPM_ok)
next
  case (evict erl now ttl)
  then show ?case by (auto simp: erl_ok_def evictStaleLimiters_def any_rpm_def Let_def intro: all_ok_evict)
qed


text \<open>The global limit provides the interface for the whole limiter.\<close>

definition global_admit :: "EnhancedRateLimiter \<Rightarrow> time \<Rightarrow> EnhancedRateLimiter \<times> bool" where
  "global_admit erl now = the (Allow erl now)"

definition global_bucket :: "EnhancedRateLimiter \<Rightarrow> tokenBucket" where
  "global_bucket erl = level_bucket (er_globalLimiter erl)"

lemma global_admit_level:
  assumes "er_enabled erl" "limits (er_globalLimiter erl)" "tb_lastRefill (global_bucket erl) \<le> now"
    "global_admit erl now = (erl', b)"
  shows "level_admit (er_globalLimiter erl) now = (er_globalLimiter erl', b)" "er_enabled erl'"
proof -
  from assms(2) obtain rpm where "ll_ok rpm (tb_lastRefill (global_bucket erl)) (er_globalLimiter erl)"
    by (auto simp: limits_def global_bucket_def)
  from ll_allow_ok [OF ll_ok_later [OF this assms(3)]] assms(1,4)
  show "level_admit (er_globalLimiter erl) now = (er_globalLimiter erl', b)" "er_enabled erl'"
    by (auto simp: global_admit_def level_admit_def Allow_def)
qed

interpretation global: admission global_admit "\<lambda>erl. er_enabled erl \<and> limits (er_globalLimiter erl)"
  "\<lambda>erl. tb_tokens (global_bucket erl)" "\<lambda>erl. tb_maxTokens (global_bucket erl)"
  "\<lambda>erl. bucket_pace (global_bucket erl)" "\<lambda>erl. tb_lastRefill (global_bucket erl)"
proof
  fix s s' :: EnhancedRateLimiter and now b
  assume a: "er_enabled s \<and> limits (er_globalLimiter s)" "tb_lastRefill (global_bucket s) \<le> now"
    "global_admit s now = (s', b)"
  from a(1) have e: "er_enabled s" and l: "limits (er_globalLimiter s)" by auto
  note g = global_admit_level [OF e l a(2,3)]
  note n = a(2) [unfolded global_bucket_def]
  from level.keeps [OF l n g(1)] g(2) show "er_enabled s' \<and> limits (er_globalLimiter s')" by simp
  from level.moves [OF l n g(1)]
  show "tb_lastRefill (global_bucket s) \<le> tb_lastRefill (global_bucket s') \<and>
      tb_lastRefill (global_bucket s') \<le> now \<and> (b \<longrightarrow> tb_lastRefill (global_bucket s') = now) \<and>
      bucket_pace (global_bucket s') = bucket_pace (global_bucket s) \<and>
      tb_maxTokens (global_bucket s') = tb_maxTokens (global_bucket s)"
    by (simp add: global_bucket_def)
  from level.pays [OF l n g(1)]
  show "tb_tokens (global_bucket s') + (if b then 1 else 0) \<le> tb_tokens (global_bucket s) +
      bucket_pace (global_bucket s) * of_int (tb_lastRefill (global_bucket s') - tb_lastRefill (global_bucket s))"
    by (simp add: global_bucket_def)
next
  fix s s' :: EnhancedRateLimiter and now
  assume a: "er_enabled s \<and> limits (er_globalLimiter s)" "tb_lastRefill (global_bucket s) \<le> now"
    "global_admit s now = (s', True)"
  from a(1) have e: "er_enabled s" and l: "limits (er_globalLimiter s)" by auto
  from level.capped [OF l _ global_admit_level(1) [OF e l a(2,3)]] a(2)
  show "tb_tokens (global_bucket s') + 1 \<le> tb_maxTokens (global_bucket s)" by (simp add: global_bucket_def)
next
  fix s :: EnhancedRateLimiter
  assume "er_enabled s \<and> limits (er_globalLimiter s)"
  then have "limits (er_globalLimiter s)" by simp
  from level.solvent [OF this] show "0 \<le> tb_tokens (global_bucket s) \<and>
      tb_tokens (global_bucket s) \<le> tb_maxTokens (global_bucket s) \<and> 0 \<le> bucket_pace (global_bucket s)"
    by (simp add: global_bucket_def)
qed

lemma running_global:
  assumes "running erl now" "0 < er_globalRPM erl"
  shows "er_enabled erl \<and> limits (er_globalLimiter erl)" "tb_lastRefill (global_bucket erl) \<le> now"
    "tb_maxTokens (global_bucket erl) = of_int (er_globalRPM erl)"
    "bucket_pace (global_bucket erl) = of_int (er_globalRPM erl) / of_int minute"
proof -
  from running_ok [OF assms(1)] assms(2) obtain tb where
    tb: "ll_bucket (er_globalLimiter erl) = Some tb" "tb_lastRefill tb \<le> now" "tb_ok tb"
      "tb_maxTokens tb = of_int (er_globalRPM erl)" and
    ll: "ll_ok (er_globalRPM erl) now (er_globalLimiter erl)" "er_enabled erl"
    by (auto simp: erl_ok_def ll_ok_def any_rpm_def split: option.splits)
  have "ll_ok (er_globalRPM erl) (tb_lastRefill tb) (er_globalLimiter erl)"
    using ll(1) tb by (auto simp: ll_ok_def)
  with ll(2) tb assms(2) show "er_enabled erl \<and> limits (er_globalLimiter erl)"
    "tb_lastRefill (global_bucket erl) \<le> now" "tb_maxTokens (global_bucket erl) = of_int (er_globalRPM erl)"
    by (auto simp: limits_def level_bucket_def global_bucket_def)
  from tb show "bucket_pace (global_bucket erl) = of_int (er_globalRPM erl) / of_int minute"
    by (simp add: bucket_pace_def tb_ok_def global_bucket_def level_bucket_def)
qed

section \<open>Properties\<close>

text \<open>
  C20. In any stretch of time, from whatever state the running limiter is in, the global limiter lets
  pass at most one minute's worth of requests and what the configured rate adds over the stretch; and
  none of its requests meets a limiter without a bucket.
\<close>

theorem global_limit_holds:
  assumes "running erl now" "0 < er_globalRPM erl" "arrivals now ts T"
  shows "of_nat (passed (\<lambda>erl t. the (Allow erl t)) erl ts)
    \<le> (of_int (er_globalRPM erl) :: rat) + of_int (er_globalRPM erl) * of_int (T - now) / of_int minute"
proof -
  note g = running_global [OF assms(1,2)]
  have "of_nat (passed global_admit erl ts) \<le>
      tb_maxTokens (global_bucket erl) + bucket_pace (global_bucket erl) * of_int (T - now)"
    by (rule global.window_bound [OF g(1,2) assms(3)])
  moreover have "global_admit = (\<lambda>erl t. the (Allow erl t))" by (simp add: fun_eq_iff global_admit_def)
  ultimately show ?thesis using g(3,4) by simp
qed

definition demo_limiter :: EnhancedRateLimiter where
  "demo_limiter = NewEnhancedRateLimiter 2 1 0 0"

lemma demo_running: "running demo_limiter 0"
  unfolding demo_limiter_def by (rule running.start)

lemma global_limit_holds_witness:
  "of_nat (passed (\<lambda>erl t. the (Allow erl t)) demo_limiter [0, 0, 0, 30 * second])
    \<le> (of_int 2 :: rat) + of_int 2 * of_int (30 * second - 0) / of_int minute"
  using global_limit_holds [OF demo_running, of "[0, 0, 0, 30 * second]" "30 * second"]
  by (simp add: demo_limiter_def NewEnhancedRateLimiter_def)

text \<open>
  C21. No request to a running limiter panics, whatever sequence of rate changes, requests and evictions
  came before, and every limiter it keeps, for the whole, an account or a model, is on exactly when
  that level has a limit and then has a bucket of the size configured now.
\<close>

theorem running_limiter_is_coherent:
  assumes "running erl now"
  shows "(\<exists>erl' b. Allow erl now = Some (erl', b)) \<and>
    (\<exists>erl' b. AllowWithContext erl acc model now = Some (erl', b)) \<and>
    er_enabled erl = any_rpm erl \<and> ll_ok (er_globalRPM erl) now (er_globalLimiter erl) \<and>
    (\<forall>ll \<in> ran (er_accountLimiters erl). ll_ok (er_accountRPM erl) now ll) \<and>
    (\<forall>ll \<in> ran (er_modelLimiters erl). ll_ok (er_modelRPM erl) now ll)"
proof -
  note k = running_ok [OF assms]
  from Allow_ok [OF k] AllowWithContext_ok [OF k, of acc model] k show ?thesis
    by (auto simp: erl_ok_def all_ok_def ran_def)
qed

lemma running_limiter_is_coherent_witness:
  "\<exists>erl' b. AllowWithContext demo_limiter ''7'' ''gpt-5'' 0 = Some (erl', b)"
  using running_limiter_is_coherent [OF demo_running, of "''7''" "''gpt-5''"] by blast


text \<open>What happens to a limiter between two requests that matter.\<close>

datatype ll_op = Request time | Batch int time | Reconfigure int time

fun ll_step :: "ll_op \<Rightarrow> LevelLimiter \<Rightarrow> LevelLimiter option" where
  "ll_step (Request t) ll = map_option fst (ll_allow ll t)"
| "ll_step (Batch n t) ll = map_option fst (ll_allowN ll n t)"
| "ll_step (Reconfigure rpm t) ll = Some (ll_updateRPM rpm t ll)"

fun ll_run :: "ll_op list \<Rightarrow> LevelLimiter \<Rightarrow> LevelLimiter option" where
  "ll_run [] ll = Some ll"
| "ll_run (p # ps) ll = (case ll_step p ll of None \<Rightarrow> None | Some ll' \<Rightarrow> ll_run ps ll')"

lemma ll_step_level:
  assumes "ll_step p ll = Some ll'" "cm_level (ll_cooldown ll) \<le> 11"
  shows "cm_level (ll_cooldown ll) \<le> cm_level (ll_cooldown ll')" "cm_level (ll_cooldown ll') \<le> 11"
  using assms
  by (cases p; auto simp: ll_allow_def ll_allowN_def ll_updateRPM_def Let_def split: if_splits option.splits prod.splits)+

lemma ll_run_level:
  "ll_run ps ll = Some ll' \<Longrightarrow> cm_level (ll_cooldown ll) \<le> 11 \<Longrightarrow>
   cm_level (ll_cooldown ll) \<le> cm_level (ll_cooldown ll') \<and> cm_level (ll_cooldown ll') \<le> 11"
proof (induction ps ll rule: ll_run.induct)
  case (2 p ps ll)
  from "2.prems"(1) obtain l where l: "ll_step p ll = Some l" "ll_run ps l = Some ll'"
    by (auto split: option.splits)
  note s = ll_step_level [OF l(1) "2.prems"(2)]
  from "2.IH" [OF l(1) l(2) s(2)] s(1) show ?case by simp
qed simp

lemma shortage_blocks:
  assumes "ll_allow ll now = Some (ll', False)" "\<not> isInCooldown (ll_cooldown ll) now"
    "0 \<le> cm_level (ll_cooldown ll')" "t < cm_resetAt (ll_cooldown ll')"
  shows "\<exists>ll''. ll_allow ll' t = Some (ll'', False)"
proof -
  from assms(1,2) have "ll_enabled ll'"
    by (auto simp: ll_allow_def Let_def split: if_splits option.splits prod.splits)
  moreover from assms(3,4) have "isInCooldown (ll_cooldown ll') t" by (simp add: isInCooldown_def)
  ultimately show ?thesis by (simp add: ll_allow_def Let_def)
qed

text \<open>
  The level of a cooldown never falls, neither by requests that pass nor by a new configuration nor
  with time (nothing calls \<open>resetCooldown\<close>): once a limiter has reached the last level, whatever happens
  afterwards, the next request that finds too few tokens closes it for half an hour.
\<close>

theorem cooldown_never_deescalates:
  assumes "cm_level (ll_cooldown ll) = 11" "ll_run history ll = Some ll1"
    "\<not> isInCooldown (ll_cooldown ll1) now" "ll_allow ll1 now = Some (ll2, False)"
    "now \<le> t" "t < now + 30 * minute"
  shows "\<exists>ll3. ll_allow ll2 t = Some (ll3, False)"
proof -
  from ll_run_level [OF assms(2)] assms(1) have l: "cm_level (ll_cooldown ll1) = 11" by simp
  from assms(3,4) have "ll_cooldown ll2 = cm_enterCooldown (ll_cooldown ll1) now"
    by (auto simp: ll_allow_def Let_def split: if_splits option.splits prod.splits)
  with l have c: "cm_level (ll_cooldown ll2) = 11" "cm_resetAt (ll_cooldown ll2) = now + 30 * minute"
    by (simp_all add: cooldownDurations_def)
  show ?thesis by (rule shortage_blocks [OF assms(4,3)]) (use c assms(6) in simp_all)
qed

definition worn_limiter :: LevelLimiter where
  "worn_limiter = (newLevelLimiter ''global'' LevelGlobal 1 0)
     \<lparr>ll_cooldown := \<lparr>cm_level = 11, cm_blockedAt = 0, cm_resetAt = 30 * minute, cm_lastBackoff = 30 * minute\<rparr>\<rparr>"

lemma worn_run_eval:
  "(case ll_run [Reconfigure 2 (50 * hour), Request (100 * hour), Request (100 * hour)] worn_limiter of
      None \<Rightarrow> False
    | Some ll1 \<Rightarrow> \<not> isInCooldown (ll_cooldown ll1) (100 * hour) \<and>
        (case ll_allow ll1 (100 * hour) of None \<Rightarrow> False | Some (ll2, b) \<Rightarrow> \<not> b))"
  by code_simp

lemma worn_run:
  "\<exists>ll1 ll2. ll_run [Reconfigure 2 (50 * hour), Request (100 * hour), Request (100 * hour)] worn_limiter = Some ll1 \<and>
     \<not> isInCooldown (ll_cooldown ll1) (100 * hour) \<and> ll_allow ll1 (100 * hour) = Some (ll2, False)"
  using worn_run_eval by (auto split: option.splits prod.splits)

lemma cooldown_never_deescalates_witness:
  "\<exists>ll2 ll3. ll_allow ll2 (100 * hour + 29 * minute) = Some (ll3, False)"
proof -
  obtain ll1 ll2 where
    "ll_run [Reconfigure 2 (50 * hour), Request (100 * hour), Request (100 * hour)] worn_limiter = Some ll1"
    "\<not> isInCooldown (ll_cooldown ll1) (100 * hour)" "ll_allow ll1 (100 * hour) = Some (ll2, False)"
    using worn_run by blast
  from cooldown_never_deescalates [OF _ this, of "100 * hour + 29 * minute"]
  show ?thesis by (auto simp: worn_limiter_def)
qed


end
