(* ===== verification/Security.thy ===== *)
theory Security
  imports Prelude "HOL-Library.Word"
begin

unbundle bit_operations_syntax

text \<open>
  \<open>security/middleware.go\<close> and \<open>security/validator.go\<close>: the limiter per client address, comparison of
  secrets, validation of parameters, masking and truncation of what is shown or logged. A string is its
  bytes; where the code works on runes the UTF-8 decoding of Go is written out. The regular
  expressions that look for attacks and for secrets (\<open>ContainsXSS\<close>, \<open>ContainsSQLInjection\<close>,
  \<open>MaskSensitiveData\<close>) are not modelled; the last one is an argument of \<open>SanitizeLog\<close>.
\<close>

section \<open>Runes\<close>

definition byte :: "char \<Rightarrow> nat" where
  "byte c = of_char c"

definition byte_in :: "nat \<Rightarrow> nat \<Rightarrow> char \<Rightarrow> bool" where
  "byte_in lo hi c \<longleftrightarrow> lo \<le> byte c \<and> byte c \<le> hi"

abbreviation cont_byte :: "char \<Rightarrow> bool" where
  "cont_byte \<equiv> byte_in 128 191"

text \<open>Two, three and four bytes that encode a rune: no overlong forms, no surrogates, at most U+10FFFF.\<close>

definition rune2 :: "char \<Rightarrow> char \<Rightarrow> bool" where
  "rune2 a b \<longleftrightarrow> byte_in 194 223 a \<and> cont_byte b"

definition rune3 :: "char \<Rightarrow> char \<Rightarrow> char \<Rightarrow> bool" where
  "rune3 a b c \<longleftrightarrow>
     (byte a = 224 \<and> byte_in 160 191 b \<or> byte_in 225 236 a \<and> cont_byte b \<or>
      byte a = 237 \<and> byte_in 128 159 b \<or> byte_in 238 239 a \<and> cont_byte b) \<and> cont_byte c"

definition rune4 :: "char \<Rightarrow> char \<Rightarrow> char \<Rightarrow> char \<Rightarrow> bool" where
  "rune4 a b c d \<longleftrightarrow>
     (byte a = 240 \<and> byte_in 144 191 b \<or> byte_in 241 243 a \<and> cont_byte b \<or>
      byte a = 244 \<and> byte_in 128 143 b) \<and> cont_byte c \<and> cont_byte d"

text \<open>The length of the encoding at the head of a string, 0 when it starts with an invalid byte.\<close>

definition rune_len :: "string \<Rightarrow> nat" where
  "rune_len s =
     (case s of
        [] \<Rightarrow> 0
      | a # s1 \<Rightarrow>
          if byte a < 128 then 1
          else case s1 of
            [] \<Rightarrow> 0
          | b # s2 \<Rightarrow>
              if rune2 a b then 2
              else case s2 of
                [] \<Rightarrow> 0
              | c # s3 \<Rightarrow>
                  if rune3 a b c then 3
                  else case s3 of
                    [] \<Rightarrow> 0
                  | d # _ \<Rightarrow> if rune4 a b c d then 4 else 0)"

definition rune_error :: string where
  "rune_error = [CHR 0xEF, CHR 0xBF, CHR 0xBD]"

text \<open>
  \<open>[]rune(s)\<close>: the encodings of the runes in order; an invalid byte is the replacement character.
  \<open>string(runes)\<close> is then their concatenation.
\<close>

function runes :: "string \<Rightarrow> string list" where
  "runes [] = []"
| "runes (c # s) =
     (let n = rune_len (c # s)
      in if n = 0 then rune_error # runes s else take n (c # s) # runes (drop n (c # s)))"
  by pat_completeness auto

termination runes by (relation "measure length") auto

definition rune_count :: "string \<Rightarrow> nat" where
  "rune_count s = length (runes s)"

section \<open>Requests per client address\<close>

record visitor =
  vs_tokens :: int
  vs_lastSeen :: time

record IPRateLimiter =
  ip_visitors :: "string \<Rightarrow> visitor option"
  ip_requests :: int
  ip_window :: duration

definition NewIPRateLimiter :: "int \<Rightarrow> duration \<Rightarrow> IPRateLimiter" where
  "NewIPRateLimiter requests window = \<lparr>ip_visitors = (\<lambda>_. None), ip_requests = requests, ip_window = window\<rparr>"

text \<open>A request of a known visitor.\<close>

definition visit :: "int \<Rightarrow> duration \<Rightarrow> visitor \<Rightarrow> time \<Rightarrow> visitor \<times> bool" where
  "visit requests window v now =
     (if go_sub now (vs_lastSeen v) > window
      then (v\<lparr>vs_tokens := requests - 1, vs_lastSeen := now\<rparr>, True)
      else
        let v = v\<lparr>vs_lastSeen := now\<rparr>
        in if vs_tokens v > 0 then (v\<lparr>vs_tokens := vs_tokens v - 1\<rparr>, True) else (v, False))"

definition ip_allow :: "IPRateLimiter \<Rightarrow> string \<Rightarrow> time \<Rightarrow> IPRateLimiter \<times> bool" where
  "ip_allow l ip now =
     (case ip_visitors l ip of
        None \<Rightarrow>
          (l\<lparr>ip_visitors := (ip_visitors l)(ip \<mapsto> \<lparr>vs_tokens = ip_requests l - 1, vs_lastSeen = now\<rparr>)\<rparr>, True)
      | Some v \<Rightarrow>
          let (v, ok) = visit (ip_requests l) (ip_window l) v now
          in (l\<lparr>ip_visitors := (ip_visitors l)(ip \<mapsto> v)\<rparr>, ok))"

text \<open>One tick of the clean-up goroutine.\<close>

definition ip_cleanup :: "IPRateLimiter \<Rightarrow> time \<Rightarrow> IPRateLimiter" where
  "ip_cleanup l now =
     l\<lparr>ip_visitors := (\<lambda>ip. case ip_visitors l ip of
          Some v \<Rightarrow> if go_sub now (vs_lastSeen v) > ip_window l * 2 then None else Some v
        | None \<Rightarrow> None)\<rparr>"

section \<open>Requests\<close>

datatype verdict = Pass | Refuse nat

text \<open>\<open>None\<close> is a body that cannot be read.\<close>

definition RequestSizeLimiter :: "int \<Rightarrow> string option \<Rightarrow> verdict \<times> string" where
  "RequestSizeLimiter maxSize input =
     (case input of
        None \<Rightarrow> (Refuse 400, [])
      | Some bytes \<Rightarrow>
          let body = take (nat (maxSize + 1)) bytes
          in if int (length body) > maxSize then (Refuse 413, []) else (Pass, body))"

fun any_prefix :: "string \<Rightarrow> string list \<Rightarrow> bool" where
  "any_prefix s [] = False"
| "any_prefix s (p # ps) = (has_prefix s p \<or> any_prefix s ps)"

definition ValidateContentType :: "string list \<Rightarrow> string \<Rightarrow> string \<Rightarrow> verdict" where
  "ValidateContentType allowedTypes meth contentType =
     (if meth = ''GET'' \<or> meth = ''HEAD'' \<or> meth = ''OPTIONS'' then Pass
      else if contentType = '''' then Pass
      else if any_prefix contentType allowedTypes then Pass
      else Refuse 415)"

definition IsSensitiveEndpoint :: "string \<Rightarrow> bool" where
  "IsSensitiveEndpoint path =
     any_prefix path [''/api/admin/accounts'', ''/api/admin/keys'', ''/api/admin/settings'', ''/api/admin/proxies'']"

text \<open>The loop over the bytes, with the accumulated difference.\<close>

fun compare_loop :: "8 word \<Rightarrow> string \<Rightarrow> string \<Rightarrow> 8 word" where
  "compare_loop result (x # a) (y # b) =
     compare_loop (result OR (of_char x XOR of_char y)) a b"
| "compare_loop result _ _ = result"

definition SecureCompare :: "string \<Rightarrow> string \<Rightarrow> bool" where
  "SecureCompare a b = (if length a \<noteq> length b then False else compare_loop 0 a b = 0)"

section \<open>Validation\<close>

record ValidationError =
  ve_Field :: string
  ve_Message :: string

definition invalid :: "string \<Rightarrow> string \<Rightarrow> ValidationError option" where
  "invalid field msg = Some \<lparr>ve_Field = field, ve_Message = msg\<rparr>"

definition alnum :: "char \<Rightarrow> bool" where
  "alnum c \<longleftrightarrow> byte_in 97 122 c \<or> byte_in 65 90 c \<or> byte_in 48 57 c"

text \<open>The two regular expressions accept exactly the non-empty strings over their class.\<close>

definition modelNameRegex :: "string \<Rightarrow> bool" where
  "modelNameRegex s \<longleftrightarrow> s \<noteq> [] \<and> list_all (\<lambda>c. alnum c \<or> c \<in> set ''._-'') s"

definition endpointRegex :: "string \<Rightarrow> bool" where
  "endpointRegex s \<longleftrightarrow> s \<noteq> [] \<and> list_all (\<lambda>c. alnum c \<or> c \<in> set ''/_-'') s"

definition ValidateModelName :: "string \<Rightarrow> ValidationError option" where
  "ValidateModelName model =
     (if model = '''' then None
      else if rune_count model > 100 then invalid ''model'' ''model name too long''
      else if \<not> modelNameRegex model then invalid ''model'' ''invalid model name format''
      else None)"

definition ValidateEndpoint :: "string \<Rightarrow> ValidationError option" where
  "ValidateEndpoint endpoint =
     (if endpoint = '''' then None
      else if rune_count endpoint > 200 then invalid ''endpoint'' ''endpoint too long''
      else if \<not> endpointRegex endpoint then invalid ''endpoint'' ''invalid endpoint format''
      else None)"

text \<open>\<open>strings.Split\<close> on a separator of one byte.\<close>

fun split_on :: "char \<Rightarrow> string \<Rightarrow> string list" where
  "split_on x [] = [[]]"
| "split_on x (c # s) =
     (if c = x then [] # split_on x s
      else case split_on x s of [] \<Rightarrow> [[c]] | w # ws \<Rightarrow> (c # w) # ws)"

definition ValidateEmail :: "string \<Rightarrow> ValidationError option" where
  "ValidateEmail email =
     (if email = '''' then None
      else if rune_count email > 255 then invalid ''email'' ''email too long''
      else if \<not> contains email ''@'' then invalid ''email'' ''invalid email format: missing @''
      else
        let parts = split_on CHR ''@'' email
        in if length parts \<noteq> 2 \<or> parts ! 0 = '''' \<or> parts ! 1 = ''''
           then invalid ''email'' ''invalid email format'' else None)"

definition ValidateProxyURL :: "string \<Rightarrow> ValidationError option" where
  "ValidateProxyURL url =
     (if url = '''' then None
      else if rune_count url > 500 then invalid ''proxy_url'' ''proxy URL too long''
      else None)"

definition ValidationError_Error :: "ValidationError \<Rightarrow> string" where
  "ValidationError_Error e = ve_Field e @ '': '' @ ve_Message e"

section \<open>Sanitizing and masking\<close>

text \<open>Which runes the loop of \<open>SanitizeInput\<close> keeps, given by their encoding: 128 and above has two bytes.\<close>

definition keeps_rune :: "string \<Rightarrow> bool" where
  "keeps_rune r =
     (case r of
        [c] \<Rightarrow> byte c = 10 \<or> byte c = 13 \<or> byte c = 9 \<or> (byte c \<ge> 32 \<and> byte c < 127)
      | _ \<Rightarrow> True)"

definition SanitizeInput :: "string \<Rightarrow> string" where
  "SanitizeInput input =
     (if input = '''' then input
      else
        let input = filter (\<lambda>c. byte c \<noteq> 0) input
        in concat (filter keeps_rune (runes input)))"

definition masked_tail :: string where
  "masked_tail = ''****...****''"

definition MaskAPIKey :: "string \<Rightarrow> string" where
  "MaskAPIKey key =
     (if length key \<le> 8 then ''****''
      else if length key > 64 then take 4 key @ masked_tail @ drop (length key - 4) key
      else take 4 key @ masked_tail @ drop (length key - 4) key)"

definition MaskToken :: "string \<Rightarrow> string" where
  "MaskToken token = (if token = '''' then '''' else ''[TOKEN-MASKED]'')"

text \<open>\<open>strings.Index\<close> of one byte.\<close>

fun index_of :: "char \<Rightarrow> string \<Rightarrow> nat option" where
  "index_of x [] = None"
| "index_of x (c # s) = (if c = x then Some 0 else map_option Suc (index_of x s))"

definition MaskEmail :: "string \<Rightarrow> string" where
  "MaskEmail email =
     (if email = '''' then ''''
      else case index_of CHR ''@'' email of
        None \<Rightarrow> ''****''
      | Some i \<Rightarrow> if i < 2 then ''****'' else take 2 email @ ''****@'' @ drop (i + 1) email)"

definition SafeTruncate :: "string \<Rightarrow> int \<Rightarrow> string" where
  "SafeTruncate s maxLen =
     (if maxLen \<le> 0 then ''''
      else if int (rune_count s) \<le> maxLen then s
      else
        let rs = runes s
        in if int (length rs) > maxLen then concat (take (nat maxLen) rs) else s)"

definition SanitizeLog :: "(string \<Rightarrow> string) \<Rightarrow> string \<Rightarrow> string" where
  "SanitizeLog maskSensitiveData data =
     (if data = '''' then data else SafeTruncate (maskSensitiveData data) 1000)"

end
