(* ===== verification/SecurityLaws.thy ===== *)
theory SecurityLaws
  imports Admission Security
begin

text \<open>
  What the security helpers promise: the limiter per address provides the interface \<open>admission\<close> (and
  locks a patient client out for good), the comparison of secrets is equality, truncation and
  sanitizing respect the runes.
\<close>

section \<open>Limiter per address\<close>

definition visitor_ok :: "int \<Rightarrow> visitor \<Rightarrow> bool" where
  "visitor_ok requests v \<longleftrightarrow> 0 \<le> vs_tokens v \<and> vs_tokens v \<le> requests \<and> 0 < requests"

lemma visit_cases:
  assumes "visit r w v now = (v', b)"
  obtains (fresh) "w < go_sub now (vs_lastSeen v)" "b" "vs_tokens v' = r - 1" "vs_lastSeen v' = now"
  | (spend) "go_sub now (vs_lastSeen v) \<le> w" "b" "0 < vs_tokens v" "vs_tokens v' = vs_tokens v - 1"
      "vs_lastSeen v' = now"
  | (deny) "go_sub now (vs_lastSeen v) \<le> w" "\<not> b" "vs_tokens v \<le> 0" "vs_tokens v' = vs_tokens v"
      "vs_lastSeen v' = now"
  using assms that by (auto simp: visit_def Let_def split: if_splits)

text \<open>The visitor of an address, and its part of the interface; the address is a parameter.\<close>

definition visitor_of :: "string \<Rightarrow> IPRateLimiter \<Rightarrow> visitor" where
  "visitor_of ip l = the (ip_visitors l ip)"

definition knows :: "string \<Rightarrow> IPRateLimiter \<Rightarrow> bool" where
  "knows ip l \<longleftrightarrow> ip_visitors l ip \<noteq> None \<and> visitor_ok (ip_requests l) (visitor_of ip l) \<and> 0 < ip_window l"

definition ip_admit :: "string \<Rightarrow> IPRateLimiter \<Rightarrow> time \<Rightarrow> IPRateLimiter \<times> bool" where
  "ip_admit ip l now = ip_allow l ip now"

definition ip_pace :: "IPRateLimiter \<Rightarrow> rat" where
  "ip_pace l = of_int (ip_requests l) / of_int (ip_window l)"

lemma ip_admit_visit:
  assumes "knows ip l" "ip_admit ip l now = (l', b)"
  shows "visit (ip_requests l) (ip_window l) (visitor_of ip l) now = (visitor_of ip l', b)"
    "ip_visitors l' ip \<noteq> None" "ip_requests l' = ip_requests l" "ip_window l' = ip_window l"
  using assms by (auto simp: knows_def ip_admit_def ip_allow_def visitor_of_def split: option.splits prod.splits)

lemma fresh_pays:
  fixes w r x :: int
  assumes "0 < w" "w < x" "0 < r"
  shows "(of_int r :: rat) \<le> of_int r / of_int w * of_int x"
proof -
  from assms have "(1::rat) \<le> of_int x / of_int w" by simp
  with assms(3) have "(of_int r :: rat) * 1 \<le> of_int r * (of_int x / of_int w)"
    by (intro mult_left_mono) simp_all
  then show ?thesis by simp
qed

lemma go_sub_less_diff: "u \<le> t \<Longrightarrow> w < go_sub t u \<Longrightarrow> w < t - u"
  by (auto simp: go_sub_def split: if_splits)

interpretation address: admission "ip_admit ip" "knows ip" "\<lambda>l. of_int (vs_tokens (visitor_of ip l))"
  "\<lambda>l. of_int (ip_requests l)" ip_pace "\<lambda>l. vs_lastSeen (visitor_of ip l)" for ip
proof
  fix s s' :: IPRateLimiter and now b
  assume k: "knows ip s" and n: "vs_lastSeen (visitor_of ip s) \<le> now" and a: "ip_admit ip s now = (s', b)"
  note v = ip_admit_visit [OF k a]
  from k have ok: "0 \<le> vs_tokens (visitor_of ip s)" "vs_tokens (visitor_of ip s) \<le> ip_requests s"
    "0 < ip_requests s" "0 < ip_window s" by (auto simp: knows_def visitor_ok_def)
  from v(1) show "knows ip s'"
    by (rule visit_cases) (use v ok in \<open>auto simp: knows_def visitor_ok_def\<close>)
  from v(1) show "vs_lastSeen (visitor_of ip s) \<le> vs_lastSeen (visitor_of ip s') \<and>
      vs_lastSeen (visitor_of ip s') \<le> now \<and> (b \<longrightarrow> vs_lastSeen (visitor_of ip s') = now) \<and>
      ip_pace s' = ip_pace s \<and> (of_int (ip_requests s') :: rat) = of_int (ip_requests s)"
    by (rule visit_cases) (use v n in \<open>auto simp: ip_pace_def\<close>)
  have g: "0 \<le> ip_pace s * of_int (now - vs_lastSeen (visitor_of ip s))"
    using ok n by (simp add: ip_pace_def flip: of_int_diff)
  from v(1) show "of_int (vs_tokens (visitor_of ip s')) + (if b then 1 else 0) \<le> of_int (vs_tokens (visitor_of ip s)) +
      ip_pace s * of_int (vs_lastSeen (visitor_of ip s') - vs_lastSeen (visitor_of ip s))"
  proof (rule visit_cases)
    assume c: "ip_window s < go_sub now (vs_lastSeen (visitor_of ip s))" b
      "vs_tokens (visitor_of ip s') = ip_requests s - 1" "vs_lastSeen (visitor_of ip s') = now"
    have "(of_int (ip_requests s) :: rat) \<le> ip_pace s * of_int (now - vs_lastSeen (visitor_of ip s))"
      unfolding ip_pace_def using fresh_pays [OF ok(4) go_sub_less_diff [OF n c(1)] ok(3)] .
    with c ok(1) show ?thesis by simp
  qed (use g in auto)
next
  fix s s' :: IPRateLimiter and now
  assume k: "knows ip s" and a: "ip_admit ip s now = (s', True)"
  note v = ip_admit_visit [OF k a]
  from v(1) show "of_int (vs_tokens (visitor_of ip s')) + 1 \<le> (of_int (ip_requests s) :: rat)"
    by (rule visit_cases) (use k in \<open>auto simp: knows_def visitor_ok_def\<close>)
next
  fix s :: IPRateLimiter
  assume "knows ip s"
  then show "0 \<le> (of_int (vs_tokens (visitor_of ip s)) :: rat) \<and>
      (of_int (vs_tokens (visitor_of ip s)) :: rat) \<le> of_int (ip_requests s) \<and> 0 \<le> ip_pace s"
    by (auto simp: knows_def visitor_ok_def ip_pace_def)
qed

section \<open>Runes\<close>

definition valid_rune :: "string \<Rightarrow> bool" where
  "valid_rune r \<longleftrightarrow> r \<noteq> [] \<and> rune_len r = length r"

lemma rune_len_append: "valid_rune r \<Longrightarrow> rune_len (r @ s) = length r"
  by (auto simp: valid_rune_def rune_len_def split: list.splits if_splits)

lemma rune_len_bound: "rune_len s \<le> length s"
  by (auto simp: rune_len_def split: list.splits)

lemma rune_len_take: "rune_len s \<noteq> 0 \<Longrightarrow> rune_len (take (rune_len s) s) = rune_len s"
  by (auto simp: rune_len_def split: list.splits if_splits)

lemma valid_rune_error: "valid_rune rune_error"
  by code_simp

lemma runes_valid: "r \<in> set (runes s) \<Longrightarrow> valid_rune r"
proof (induction s rule: runes.induct)
  case (2 c s)
  let ?n = "rune_len (c # s)"
  show ?case
  proof (cases "?n = 0")
    case True
    with 2 show ?thesis by (auto simp: valid_rune_error)
  next
    case False
    from False rune_len_bound [of "c # s"] have "valid_rune (take ?n (c # s))"
      by (simp add: valid_rune_def rune_len_take min_def)
    with 2 False show ?thesis by (auto simp: Let_def)
  qed
qed simp

lemma runes_step: "valid_rune r \<Longrightarrow> runes (r @ s) = r # runes s"
proof -
  assume v: "valid_rune r"
  then obtain c r' where r: "r = c # r'" by (cases r) (auto simp: valid_rune_def)
  have "rune_len (c # r' @ s) = Suc (length r')" using rune_len_append [OF v, of s] r by simp
  then show ?thesis by (simp add: r)
qed

lemma runes_concat: "(\<And>r. r \<in> set rs \<Longrightarrow> valid_rune r) \<Longrightarrow> runes (concat rs) = rs"
  by (induction rs) (simp_all add: runes_step)

text \<open>\<open>[]rune\<close> after \<open>string\<close> is the identity, and so decoding normalises once and for all.\<close>

lemma runes_of_runes: "runes (concat (runes s)) = runes s"
  by (rule runes_concat) (rule runes_valid)


section \<open>Properties\<close>

text \<open>
  The limiter of an address admits, in any stretch of time, at most its quota of requests and a
  quota for every window of the stretch, in proportion.
\<close>

theorem ip_limit_holds:
  assumes "knows ip l" "vs_lastSeen (visitor_of ip l) \<le> now" "arrivals now ts T"
  shows "of_nat (passed (\<lambda>l t. ip_allow l ip t) l ts)
    \<le> (of_int (ip_requests l) :: rat) + of_int (ip_requests l) / of_int (ip_window l) * of_int (T - now)"
proof -
  have "ip_admit ip = (\<lambda>l t. ip_allow l ip t)" by (simp add: fun_eq_iff ip_admit_def)
  with address.window_bound [OF assms] show ?thesis by (simp add: ip_pace_def)
qed

definition demo_visitors :: IPRateLimiter where
  "demo_visitors = fst (ip_allow (NewIPRateLimiter 2 minute) ''10.0.0.1'' 0)"

lemma ip_limit_holds_witness:
  "of_nat (passed (\<lambda>l t. ip_allow l ''10.0.0.1'' t) demo_visitors [0, 5, 9]) \<le> (2 :: rat) + 2 / of_int minute * 9"
  using ip_limit_holds [of "''10.0.0.1''" demo_visitors 0 "[0, 5, 9]" 9]
  by (simp add: demo_visitors_def knows_def visitor_ok_def visitor_of_def ip_allow_def NewIPRateLimiter_def)

text \<open>No pause between requests is longer than the window.\<close>

fun patient :: "duration \<Rightarrow> time \<Rightarrow> time list \<Rightarrow> bool" where
  "patient w since [] = True"
| "patient w since (t # ts) = (go_sub t since \<le> w \<and> patient w t ts)"

text \<open>
  The window of an address starts anew only after a pause longer than the window, and refused
  requests count as activity: an address that has used up its quota and keeps asking at intervals of at
  most the window is refused for ever, however long that lasts.
\<close>

theorem ip_limiter_starves:
  assumes "ip_visitors l ip = Some v" "vs_tokens v \<le> 0" "patient (ip_window l) (vs_lastSeen v) ts"
  shows "passed (\<lambda>l t. ip_allow l ip t) l ts = 0"
  using assms
proof (induction ts arbitrary: l v)
  case (Cons t ts)
  then have "visit (ip_requests l) (ip_window l) v t = (v\<lparr>vs_lastSeen := t\<rparr>, False)"
    by (simp add: visit_def Let_def)
  then have a: "ip_allow l ip t = (l\<lparr>ip_visitors := (ip_visitors l)(ip \<mapsto> v\<lparr>vs_lastSeen := t\<rparr>)\<rparr>, False)"
    using Cons.prems(1) by (simp add: ip_allow_def)
  have "passed (\<lambda>l t. ip_allow l ip t) (fst (ip_allow l ip t)) ts = 0"
    by (rule Cons.IH [of _ "v\<lparr>vs_lastSeen := t\<rparr>"]) (use a Cons.prems in auto)
  with a show ?case by simp
qed simp

text \<open>One request a minute under a limit of one a minute: only the first one ever passes.\<close>

lemma ip_limiter_starves_witness:
  "passed (\<lambda>l t. ip_allow l ''10.0.0.1'' t) (fst (ip_allow (NewIPRateLimiter 1 minute) ''10.0.0.1'' 0))
     [minute, 2 * minute, 3 * minute, 4 * minute] = 0"
  by (rule ip_limiter_starves [where v = "\<lparr>vs_tokens = 0, vs_lastSeen = 0\<rparr>"])
    (simp_all add: ip_allow_def NewIPRateLimiter_def)

lemma byte_word_inj: "(of_char x :: 8 word) = of_char y \<longleftrightarrow> x = y"
proof
  have b: "unat (of_char c :: 8 word) = of_char c" for c
  proof -
    have "(of_char c :: nat) < 2 ^ 8" by simp
    then have "unat (of_nat (of_char c) :: 8 word) = of_char c" by (simp add: unat_of_nat)
    moreover have "of_nat (of_char c) = (of_char c :: 8 word)"
      by (rule of_nat_of_char)
    ultimately show ?thesis by simp
  qed
  assume "(of_char x :: 8 word) = of_char y"
  then have "unat (of_char x :: 8 word) = unat (of_char y :: 8 word)" by (rule arg_cong)
  then have "(of_char x :: nat) = of_char y" unfolding b .
  then show "x = y" by (rule inj_of_char [THEN injD])
qed simp

lemma word_xor_zero: "(v XOR w :: 8 word) = 0 \<longleftrightarrow> v = w"
proof
  assume "v XOR w = 0"
  then have "(v XOR w) XOR w = w" by simp
  then show "v = w" by (simp add: xor.assoc)
qed simp

lemma compare_loop_zero:
  "length a = length b \<Longrightarrow> compare_loop r a b = 0 \<longleftrightarrow> r = 0 \<and> a = b"
proof (induction r a b rule: compare_loop.induct)
  case (1 r x a y b)
  have "(of_char x XOR of_char y :: 8 word) = 0 \<longleftrightarrow> x = y"
    using word_xor_zero [of "of_char x" "of_char y"] by (simp add: byte_word_inj)
  with 1 show ?case by (simp add: or_eq_0_iff)
qed simp_all

text \<open>
  The comparison that looks at every byte is equality of the strings.
\<close>

theorem secure_compare_is_equality: "SecureCompare a b \<longleftrightarrow> a = b"
  by (auto simp: SecureCompare_def compare_loop_zero)

text \<open>
  Truncation keeps exactly the first runes of the text, never half a rune, and changes nothing in a
  text that is short enough.
\<close>

theorem truncation_keeps_first_runes:
  "runes (SafeTruncate s n) = take (nat n) (runes s) \<and>
   (0 < n \<and> int (rune_count s) \<le> n \<longrightarrow> SafeTruncate s n = s)"
proof (cases "0 < n \<and> n < int (rune_count s)")
  case True
  moreover have "runes (concat (take (nat n) (runes s))) = take (nat n) (runes s)"
    by (rule runes_concat) (auto dest: in_set_takeD intro: runes_valid)
  ultimately show ?thesis by (simp add: SafeTruncate_def rune_count_def Let_def)
next
  case False
  then show ?thesis by (auto simp: SafeTruncate_def rune_count_def)
qed

lemma truncation_keeps_first_runes_witness:
  "SafeTruncate [CHR 0xE4, CHR 0xBD, CHR 0xA0, CHR ''a''] 2 = [CHR 0xE4, CHR 0xBD, CHR 0xA0, CHR ''a'']"
proof -
  have "int (rune_count [CHR 0xE4, CHR 0xBD, CHR 0xA0, CHR ''a'']) \<le> 2" by code_simp
  then show ?thesis using truncation_keeps_first_runes [of "[CHR 0xE4, CHR 0xBD, CHR 0xA0, CHR ''a'']" 2] by simp
qed


lemma valid_rune_cases:
  assumes "valid_rune r"
  obtains a where "r = [a]" | a b where "r = [a, b]" "rune2 a b"
  | a b c where "r = [a, b, c]" "rune3 a b c" | a b c d where "r = [a, b, c, d]" "rune4 a b c d"
  using assms by (auto simp: valid_rune_def rune_len_def split: list.splits if_splits)

lemma kept_rune_no_null:
  assumes "valid_rune r" "keeps_rune r" "c \<in> set r"
  shows "byte c \<noteq> 0"
  using assms(1)
proof (cases rule: valid_rune_cases)
  case (1 a)
  with assms(2,3) show ?thesis by (auto simp: keeps_rune_def)
next
  case (2 a b)
  with assms(3) show ?thesis by (auto simp: rune2_def byte_in_def)
next
  case (3 a b c)
  with assms(3) show ?thesis by (auto simp: rune3_def byte_in_def)
next
  case (4 a b c d)
  with assms(3) show ?thesis by (auto simp: rune4_def byte_in_def)
qed

lemma SanitizeInput_eq:
  "SanitizeInput s = concat (filter keeps_rune (runes (filter (\<lambda>c. byte c \<noteq> 0) s)))"
  by (simp add: SanitizeInput_def Let_def)

lemma SanitizeInput_clean:
  assumes "\<forall>r \<in> set rs. valid_rune r \<and> keeps_rune r"
  shows "SanitizeInput (concat rs) = concat rs"
proof -
  have "filter (\<lambda>c. byte c \<noteq> 0) (concat rs) = concat rs"
    by (rule filter_True) (use assms kept_rune_no_null in fastforce)
  moreover have "runes (concat rs) = rs" by (rule runes_concat) (use assms in blast)
  moreover have "filter keeps_rune rs = rs" by (rule filter_True) (use assms in blast)
  ultimately show ?thesis by (simp only: SanitizeInput_eq)
qed

text \<open>
  What \<open>SanitizeInput\<close> returns consists of whole runes, none of them a null byte or a control
  character of ASCII other than tab, line feed and carriage return, and sanitizing twice changes nothing more.
\<close>

theorem sanitized_input_is_clean:
  "(\<forall>r \<in> set (runes (SanitizeInput s)). valid_rune r \<and> keeps_rune r) \<and>
   SanitizeInput (SanitizeInput s) = SanitizeInput s"
proof -
  let ?rs = "filter keeps_rune (runes (filter (\<lambda>c. byte c \<noteq> 0) s))"
  have ok: "\<forall>r \<in> set ?rs. valid_rune r \<and> keeps_rune r" by (auto intro: runes_valid)
  have "runes (concat ?rs) = ?rs" by (rule runes_concat) (use ok in blast)
  with ok have "\<forall>r \<in> set (runes (concat ?rs)). valid_rune r \<and> keeps_rune r" by simp
  with SanitizeInput_clean [OF ok] show ?thesis by (simp only: SanitizeInput_eq [of s] simp_thms)
qed

lemma sanitized_input_is_clean_witness:
  "\<forall>r \<in> set (runes (SanitizeInput [CHR ''a'', CHR 0x00, CHR 0x07, CHR 0xE4, CHR 0xBD, CHR 0xA0])). keeps_rune r"
  using sanitized_input_is_clean by blast

lemma split_on_ne [simp]: "split_on x s \<noteq> []"
  by (cases s) (auto split: list.splits)

lemma split_on_none: "x \<notin> set s \<Longrightarrow> split_on x s = [s]"
  by (induction s) auto

lemma split_on_sep: "x \<notin> set u \<Longrightarrow> split_on x (u @ x # v) = u # split_on x v"
  by (induction u) auto

lemma split_on_two:
  "split_on x s = [u, v] \<longleftrightarrow> s = u @ x # v \<and> x \<notin> set u \<and> x \<notin> set v"
proof
  show "split_on x s = [u, v] \<Longrightarrow> s = u @ x # v \<and> x \<notin> set u \<and> x \<notin> set v"
  proof (induction s arbitrary: u)
    case (Cons c s)
    show ?case
    proof (cases "c = x")
      case True
      with Cons.prems have u: "u = []" and v: "split_on x s = [v]" by auto
      have "s = v \<and> x \<notin> set v"
        using v
      proof (induction s arbitrary: v)
        case (Cons d s)
        then show ?case by (cases "split_on x s") (auto split: if_splits)
      qed simp
      with True u show ?thesis by simp
    next
      case False
      with Cons.prems obtain u' where "split_on x s = [u', v]" "u = c # u'"
        by (cases "split_on x s") auto
      with Cons.IH [of u'] False show ?thesis by simp
    qed
  qed simp
qed (simp add: split_on_sep split_on_none)

text \<open>
  An email address is accepted exactly when it is empty, or has at most 255 runes and one \<open>@\<close> with
  something before and after it.
\<close>

theorem email_accepted_iff:
  "ValidateEmail e = None \<longleftrightarrow>
     e = [] \<or> (rune_count e \<le> 255 \<and>
       (\<exists>u v. e = u @ CHR ''@'' # v \<and> u \<noteq> [] \<and> v \<noteq> [] \<and> CHR ''@'' \<notin> set u \<and> CHR ''@'' \<notin> set v))"
proof -
  have c: "contains e ''@'' \<longleftrightarrow> CHR ''@'' \<in> set e"
    by (auto simp: contains_iff in_set_conv_decomp)
  have l: "length xs = 2 \<longleftrightarrow> (\<exists>u v. xs = [u, v])" for xs :: "string list"
    by (auto simp: numeral_2_eq_2 length_Suc_conv)
  have "(length (split_on CHR ''@'' e) = 2 \<and> split_on CHR ''@'' e ! 0 \<noteq> [] \<and> split_on CHR ''@'' e ! 1 \<noteq> []) \<longleftrightarrow>
      (\<exists>u v. split_on CHR ''@'' e = [u, v] \<and> u \<noteq> [] \<and> v \<noteq> [])"
    by (auto simp: l)
  also have "\<dots> \<longleftrightarrow> (\<exists>u v. e = u @ CHR ''@'' # v \<and> u \<noteq> [] \<and> v \<noteq> [] \<and> CHR ''@'' \<notin> set u \<and> CHR ''@'' \<notin> set v)"
    by (auto simp: split_on_two)
  finally show ?thesis
    by (auto simp: ValidateEmail_def Let_def c invalid_def)
qed


end
