(* ===== verification/GoHeap.thy ===== *)
theory GoHeap
  imports Prelude
begin

text \<open>
  The heap of Go's standard library (\<open>container/heap\<close>), over the interface it works on: a state with
  \<open>less\<close> and \<open>swap\<close> on indices. The locale \<open>heap_interface\<close> states what the interface has to satisfy:
  \<open>less\<close> compares keys of a linear order and \<open>swap\<close> exchanges them. Under it the loops keep and restore
  the heap property, also on the prefix that \<open>Pop\<close> and \<open>Remove\<close> work on.
\<close>

fun parent :: "nat \<Rightarrow> nat" where
  "parent j = (j - 1) div 2"

function heap_up :: "('s \<Rightarrow> nat \<Rightarrow> nat \<Rightarrow> bool) \<Rightarrow> (nat \<Rightarrow> nat \<Rightarrow> 's \<Rightarrow> 's) \<Rightarrow> nat \<Rightarrow> 's \<Rightarrow> 's" where
  "heap_up lt sw j s =
     (let i = parent j
      in if i = j \<or> \<not> lt s j i then s else heap_up lt sw i (sw i j s))"
  by pat_completeness auto

termination heap_up
  by (relation "measure (\<lambda>(_, _, j, _). j)") (auto simp: div_less_dividend)

definition min_child :: "('s \<Rightarrow> nat \<Rightarrow> nat \<Rightarrow> bool) \<Rightarrow> nat \<Rightarrow> nat \<Rightarrow> 's \<Rightarrow> nat" where
  "min_child lt n i s =
     (let j1 = 2 * i + 1; j2 = j1 + 1 in if j2 < n \<and> lt s j2 j1 then j2 else j1)"

text \<open>\<open>down\<close> with the index it ends at.\<close>

function heap_down ::
  "('s \<Rightarrow> nat \<Rightarrow> nat \<Rightarrow> bool) \<Rightarrow> (nat \<Rightarrow> nat \<Rightarrow> 's \<Rightarrow> 's) \<Rightarrow> nat \<Rightarrow> nat \<Rightarrow> 's \<Rightarrow> nat \<times> 's" where
  "heap_down lt sw n i s =
     (if 2 * i + 1 \<ge> n then (i, s)
      else
        let j = min_child lt n i s
        in if \<not> lt s j i then (i, s) else heap_down lt sw n j (sw i j s))"
  by pat_completeness auto

termination heap_down
  by (relation "measure (\<lambda>(_, _, n, i, _). n - i)") (auto simp: min_child_def Let_def)

declare heap_up.simps [simp del] heap_down.simps [simp del] parent.simps [simp del]

text \<open>\<open>Fix\<close>, and the part of \<open>Remove\<close> after the sw, on the first \<open>n\<close> elements.\<close>

definition heap_fix ::
  "('s \<Rightarrow> nat \<Rightarrow> nat \<Rightarrow> bool) \<Rightarrow> (nat \<Rightarrow> nat \<Rightarrow> 's \<Rightarrow> 's) \<Rightarrow> nat \<Rightarrow> nat \<Rightarrow> 's \<Rightarrow> 's" where
  "heap_fix lt sw n i s =
     (let (i', s) = heap_down lt sw n i s in if i' > i then s else heap_up lt sw i s)"

text \<open>\<open>Pop\<close> and \<open>Remove\<close> up to the call of the interface's own \<open>Pop\<close>.\<close>

definition heap_pop ::
  "('s \<Rightarrow> nat \<Rightarrow> nat \<Rightarrow> bool) \<Rightarrow> (nat \<Rightarrow> nat \<Rightarrow> 's \<Rightarrow> 's) \<Rightarrow> nat \<Rightarrow> 's \<Rightarrow> 's" where
  "heap_pop lt sw len s =
     (let n = len - 1; s = sw 0 n s; (_, s) = heap_down lt sw n 0 s in s)"

definition heap_remove ::
  "('s \<Rightarrow> nat \<Rightarrow> nat \<Rightarrow> bool) \<Rightarrow> (nat \<Rightarrow> nat \<Rightarrow> 's \<Rightarrow> 's) \<Rightarrow> nat \<Rightarrow> nat \<Rightarrow> 's \<Rightarrow> 's" where
  "heap_remove lt sw len i s =
     (let n = len - 1 in if n \<noteq> i then heap_fix lt sw n i (sw i n s) else s)"

text \<open>What every swap of indices below \<open>n\<close> preserves the loops preserve.\<close>

lemma heap_up_inv:
  assumes "\<And>i j s. i < n \<Longrightarrow> j < n \<Longrightarrow> P s \<Longrightarrow> P (sw i j s)"
  shows "j < n \<Longrightarrow> P s \<Longrightarrow> P (heap_up lt sw j s)"
proof (induction j arbitrary: s rule: less_induct)
  case (less j)
  have "parent j \<le> j" by (simp add: parent.simps)
  then have "parent j \<noteq> j \<Longrightarrow> P (heap_up lt sw (parent j) (sw (parent j) j s))"
    using less.prems by (intro less.IH assms) auto
  with less.prems show ?case by (subst heap_up.simps) (simp add: Let_def)
qed

lemma min_child_bound: "2 * i + 1 < n \<Longrightarrow> i < min_child lt n i s \<and> min_child lt n i s < n"
  by (simp add: min_child_def Let_def)

lemma parent_iff: "0 < k \<Longrightarrow> parent k = i \<longleftrightarrow> k = 2 * i + 1 \<or> k = 2 * i + 2"
  by (auto simp: parent.simps)

lemma parent_less: "0 < k \<Longrightarrow> parent k < k"
  by (auto simp: parent.simps)

lemma parent_min_child: "parent (min_child lt n i s) = i"
  by (auto simp: min_child_def Let_def parent.simps)

lemma heap_down_ge: "i \<le> fst (heap_down lt sw n i s)"
proof (induction "n - i" arbitrary: i s rule: less_induct)
  case less
  show ?case
  proof (cases "2 * i + 1 < n")
    case True
    let ?j = "min_child lt n i s"
    have b: "i < ?j" "n - ?j < n - i" using min_child_bound [OF True, of lt s] by auto
    have "?j \<le> fst (heap_down lt sw n ?j (sw i ?j s))" by (rule less.hyps [OF b(2)])
    with b(1) True show ?thesis by (simp add: heap_down.simps [of lt sw n i s] Let_def)
  qed (simp add: heap_down.simps)
qed

lemma heap_down_inv:
  assumes "\<And>i j s. i < n \<Longrightarrow> j < n \<Longrightarrow> P s \<Longrightarrow> P (sw i j s)"
  shows "i < n \<Longrightarrow> P s \<Longrightarrow> P (snd (heap_down lt sw n i s)) \<and> fst (heap_down lt sw n i s) < n"
proof (induction "n - i" arbitrary: i s rule: less_induct)
  case less
  let ?j = "min_child lt n i s"
  show ?case
  proof (cases "2 * i + 1 < n \<and> lt s ?j i")
    case True
    then have j: "?j < n" "n - ?j < n - i" using min_child_bound [of i n lt s] by auto
    have "P (sw i ?j s)" by (rule assms [OF less.prems(1) j(1) less.prems(2)])
    from less.hyps [OF j(2,1) this] True show ?thesis
      by (simp add: heap_down.simps [of lt sw n i s] Let_def)
  next
    case False
    with less.prems show ?thesis by (auto simp: heap_down.simps [of lt sw n i s] Let_def)
  qed
qed

lemma heap_fix_inv:
  assumes "\<And>i j s. i < n \<Longrightarrow> j < n \<Longrightarrow> P s \<Longrightarrow> P (sw i j s)" "i < n" "P s"
  shows "P (heap_fix lt sw n i s)"
proof (cases "heap_down lt sw n i s")
  case (Pair i' s')
  have "P s'" using heap_down_inv [of n P sw i s lt, OF assms] Pair by simp
  with heap_up_inv [of n P sw i s' lt, OF assms(1,2)] Pair show ?thesis by (simp add: heap_fix_def)
qed

locale heap_interface =
  fixes lt :: "'s \<Rightarrow> nat \<Rightarrow> nat \<Rightarrow> bool"
    and sw :: "nat \<Rightarrow> nat \<Rightarrow> 's \<Rightarrow> 's"
    and len :: "'s \<Rightarrow> nat"
    and key :: "'s \<Rightarrow> nat \<Rightarrow> 'k :: linorder"
  assumes lt_key: "i < len s \<Longrightarrow> j < len s \<Longrightarrow> lt s i j \<longleftrightarrow> key s i < key s j"
    and len_sw: "i < len s \<Longrightarrow> j < len s \<Longrightarrow> len (sw i j s) = len s"
    and key_sw: "i < len s \<Longrightarrow> j < len s \<Longrightarrow> k < len s \<Longrightarrow>
                   key (sw i j s) k = (if k = i then key s j else if k = j then key s i else key s k)"
begin

text \<open>The first \<open>n\<close> elements are a heap; the same except at \<open>i\<close> towards its parent, its children, both.\<close>

definition heap :: "nat \<Rightarrow> 's \<Rightarrow> bool" where
  "heap n s \<longleftrightarrow> (\<forall>k. 0 < k \<and> k < n \<longrightarrow> key s (parent k) \<le> key s k)"

definition hole :: "nat \<Rightarrow> nat \<Rightarrow> 's \<Rightarrow> bool" where
  "hole n i s \<longleftrightarrow> (\<forall>k. 0 < k \<and> k < n \<and> k \<noteq> i \<and> parent k \<noteq> i \<longrightarrow> key s (parent k) \<le> key s k) \<and>
     (\<forall>k. 0 < k \<and> k < n \<and> parent k = i \<and> 0 < i \<longrightarrow> key s (parent i) \<le> key s k)"

definition above :: "nat \<Rightarrow> nat \<Rightarrow> 's \<Rightarrow> bool" where
  "above n i s \<longleftrightarrow> (\<forall>k. 0 < k \<and> k < n \<and> parent k = i \<longrightarrow> key s i \<le> key s k)"

definition below :: "nat \<Rightarrow> 's \<Rightarrow> bool" where
  "below i s \<longleftrightarrow> (0 < i \<longrightarrow> key s (parent i) \<le> key s i)"

lemma heapD: "heap n s \<Longrightarrow> 0 < k \<Longrightarrow> k < n \<Longrightarrow> key s (parent k) \<le> key s k"
  by (simp add: heap_def)

lemma heap_iff:
  assumes "i < n"
  shows "heap n s \<longleftrightarrow> hole n i s \<and> above n i s \<and> below i s"
proof
  assume h: "heap n s"
  have "key s (parent i) \<le> key s k" if "0 < k" "k < n" "parent k = i" "0 < i" for k
    using heapD [OF h that(1,2)] heapD [OF h that(4) assms] that(3) by simp
  with h assms show "hole n i s \<and> above n i s \<and> below i s"
    by (auto simp: heap_def hole_def above_def below_def)
next
  assume "hole n i s \<and> above n i s \<and> below i s"
  then show "heap n s" unfolding heap_def hole_def above_def below_def by metis
qed

text \<open>\<open>up\<close> repairs an element that may be too small for its place.\<close>

lemma up_step:
  assumes "hole n j s" "above n j s" "j < n" "n \<le> len s" "0 < j" "key s j < key s (parent j)"
  shows "hole n (parent j) (sw (parent j) j s)" "above n (parent j) (sw (parent j) j s)"
proof -
  let ?i = "parent j" and ?s = "sw (parent j) j s"
  have ij: "?i < j" using assms(5) by (rule parent_less)
  have key: "key ?s k = (if k = ?i then key s j else if k = j then key s ?i else key s k)" if "k < n" for k
    using that ij assms(3,4) by (simp add: key_sw)
  have le: "key s (parent k) \<le> key s k" if "0 < k" "k < n" "k \<noteq> j" for k
    using that assms(1,2) by (cases "parent k = j") (auto simp: hole_def above_def)
  have skip: "key s ?i \<le> key s k" if "0 < k" "k < n" "parent k = j" for k
    using that assms(1,5) by (auto simp: hole_def)
  show "above n ?i ?s"
    unfolding above_def
  proof (intro allI impI; elim conjE)
    fix k assume k: "0 < k" "k < n" "parent k = ?i"
    have "?i < k" using parent_less [OF k(1)] k(3) by simp
    with le [OF k(1,2)] k ij assms(3,6) show "key ?s ?i \<le> key ?s k" by (cases "k = j") (auto simp: key)
  qed
  show "hole n ?i ?s"
    unfolding hole_def
  proof (intro conjI allI impI; elim conjE)
    fix k assume k: "0 < k" "k < n" "k \<noteq> ?i" "parent k \<noteq> ?i"
    then have "parent k < n" using parent_less [of k] by simp
    with k le [of k] skip [of k] show "key ?s (parent k) \<le> key ?s k" by (auto simp: key)
  next
    fix k assume k: "0 < k" "k < n" "parent k = ?i" "0 < ?i"
    have p: "parent ?i < ?i" using k(4) by (rule parent_less)
    have "key s (parent ?i) \<le> key s ?i" using le [of ?i] k(4) ij assms(3) by simp
    moreover have "k \<noteq> j \<Longrightarrow> key s ?i \<le> key s k" using le [OF k(1,2)] k(3) by simp
    moreover have "?i < k" using parent_less [OF k(1)] k(3) by simp
    ultimately show "key ?s (parent ?i) \<le> key ?s k" using p ij k assms(3) by (auto simp: key)
  qed
qed

lemma heap_up_heap:
  "hole n j s \<Longrightarrow> above n j s \<Longrightarrow> j < n \<Longrightarrow> n \<le> len s \<Longrightarrow> heap n (heap_up lt sw j s)"
proof (induction j arbitrary: s rule: less_induct)
  case (less j)
  show ?case
  proof (cases "0 < j \<and> key s j < key s (parent j)")
    case True
    then have p: "parent j < j" by (simp add: parent_less)
    have "heap n (heap_up lt sw (parent j) (sw (parent j) j s))"
      using less.prems True p by (intro less.IH up_step) (simp_all add: len_sw)
    moreover have "lt s j (parent j)" using True p less.prems by (simp add: lt_key)
    ultimately show ?thesis using p by (subst heap_up.simps) (simp add: Let_def)
  next
    case False
    then have "below j s" by (auto simp: below_def)
    moreover have "parent j = j \<or> \<not> lt s j (parent j)"
      using False less.prems parent_less [of j] by (cases j) (auto simp: lt_key parent.simps)
    ultimately show ?thesis using less.prems by (subst heap_up.simps) (auto simp: Let_def heap_iff)
  qed
qed

text \<open>\<open>down\<close> repairs an element that may be too large for its place.\<close>

lemma min_child_le:
  assumes "0 < k" "k < n" "parent k = i" "n \<le> len s"
  shows "key s (min_child lt n i s) \<le> key s k"
proof -
  from assms have k: "k = 2 * i + 1 \<or> k = 2 * i + 2" by (simp add: parent_iff)
  then have "2 * i + 1 < len s" "2 * i + 2 < n \<Longrightarrow> 2 * i + 2 < len s" using assms by auto
  with k assms show ?thesis by (auto simp: min_child_def Let_def lt_key)
qed

lemma down_step:
  assumes "hole n i s" "i < n" "n \<le> len s" "2 * i + 1 < n" "key s (min_child lt n i s) < key s i"
  defines "j \<equiv> min_child lt n i s"
  shows "hole n j (sw i j s)" "below j (sw i j s)"
proof -
  let ?s = "sw i j s"
  have ij: "i < j" "j < n" and pj: "parent j = i"
    using min_child_bound [OF assms(4), of lt s] parent_min_child [of lt n i s] by (auto simp: j_def)
  have key: "key ?s k = (if k = i then key s j else if k = j then key s i else key s k)" if "k < n" for k
    using that ij assms(3) by (simp add: key_sw)
  have mc: "key s j \<le> key s k" if "0 < k" "k < n" "parent k = i" for k
    unfolding j_def by (rule min_child_le [OF that assms(3)])
  show "below j ?s" using assms(5) ij pj by (simp add: below_def key flip: j_def)
  show "hole n j ?s"
    unfolding hole_def
  proof (intro conjI allI impI; elim conjE)
    fix k assume k: "0 < k" "k < n" "k \<noteq> j" "parent k \<noteq> j"
    note p = parent_less [OF k(1)]
    show "key ?s (parent k) \<le> key ?s k"
    proof (cases "parent k = i \<or> k = i")
      case True
      with k p mc [of k] assms(1) ij pj show ?thesis by (auto simp: key hole_def)
    next
      case False
      with k p assms(1) show ?thesis by (auto simp: key hole_def)
    qed
  next
    fix k assume k: "0 < k" "k < n" "parent k = j" "0 < j"
    have "j < k" using parent_less [OF k(1)] k(3) by simp
    with k ij pj assms(1) show "key ?s (parent j) \<le> key ?s k" by (auto simp: key hole_def)
  qed
qed

lemma down_stop:
  assumes "i < n" "n \<le> len s" "2 * i + 1 < n \<Longrightarrow> key s i \<le> key s (min_child lt n i s)"
  shows "above n i s"
  unfolding above_def
proof (intro allI impI; elim conjE)
  fix k assume k: "0 < k" "k < n" "parent k = i"
  then have "2 * i + 1 < n" by (auto simp: parent_iff)
  from assms(3) [OF this] min_child_le [OF k assms(2)] show "key s i \<le> key s k" by (rule order.trans)
qed

lemma heap_down_heap:
  "hole n i s \<Longrightarrow> below i s \<Longrightarrow> i < n \<Longrightarrow> n \<le> len s \<Longrightarrow> heap n (snd (heap_down lt sw n i s))"
proof (induction "n - i" arbitrary: i s rule: less_induct)
  case less
  let ?j = "min_child lt n i s"
  show ?case
  proof (cases "2 * i + 1 < n \<and> key s ?j < key s i")
    case True
    then have j: "i < ?j" "?j < n" "n - ?j < n - i" using min_child_bound [of i n lt s] by auto
    have "heap n (snd (heap_down lt sw n ?j (sw i ?j s)))"
      using less.prems True j by (intro less.hyps down_step) (simp_all add: len_sw)
    with True j less.prems show ?thesis by (simp add: heap_down.simps [of lt sw n i s] Let_def lt_key)
  next
    case False
    have "above n i s" by (rule down_stop [OF less.prems(3,4)]) (use False in auto)
    moreover have "heap_down lt sw n i s = (i, s)"
      using False less.prems min_child_bound [of i n lt s]
      by (auto simp: heap_down.simps [of lt sw n i s] Let_def lt_key)
    ultimately show ?thesis using less.prems by (simp add: heap_iff)
  qed
qed

text \<open>\<open>Fix\<close> repairs an arbitrary element.\<close>

lemma heap_fix_heap:
  assumes "hole n i s" "i < n" "n \<le> len s"
  shows "heap n (heap_fix lt sw n i s)"
proof (cases "2 * i + 1 < n \<and> key s (min_child lt n i s) < key s i")
  case True
  let ?j = "min_child lt n i s"
  from True have j: "i < ?j" "?j < n" using min_child_bound [of i n lt s] by auto
  have "heap n (snd (heap_down lt sw n ?j (sw i ?j s)))"
    using assms True j by (intro heap_down_heap down_step) (simp_all add: len_sw)
  moreover have "i < fst (heap_down lt sw n ?j (sw i ?j s))"
    using j(1) heap_down_ge [of ?j lt sw n "sw i ?j s"] by simp
  moreover have "heap_down lt sw n i s = heap_down lt sw n ?j (sw i ?j s)"
    using True j assms by (simp add: heap_down.simps [of lt sw n i s] Let_def lt_key)
  ultimately show ?thesis by (simp add: heap_fix_def split_beta)
next
  case False
  have "above n i s" by (rule down_stop [OF assms(2,3)]) (use False in auto)
  with assms have "heap n (heap_up lt sw i s)" by (intro heap_up_heap)
  moreover have "heap_down lt sw n i s = (i, s)"
    using False assms min_child_bound [of i n lt s]
    by (auto simp: heap_down.simps [of lt sw n i s] Let_def lt_key)
  ultimately show ?thesis by (simp add: heap_fix_def)
qed

text \<open>The root is minimal.\<close>

lemma heap_min: "heap n s \<Longrightarrow> k < n \<Longrightarrow> key s 0 \<le> key s k"
proof (induction k rule: less_induct)
  case (less k)
  show ?case
  proof (cases "k = 0")
    case False
    then have "parent k < k" by (simp add: parent_less)
    with less False have "key s 0 \<le> key s (parent k)" by simp
    also have "\<dots> \<le> key s k" using less False by (simp add: heap_def)
    finally show ?thesis .
  qed simp
qed

lemma hole_after_change:
  assumes "heap n s" "i < n" "\<And>k. k < n \<Longrightarrow> k \<noteq> i \<Longrightarrow> key s' k = key s k"
  shows "hole n i s'"
  unfolding hole_def
proof (intro conjI allI impI; elim conjE)
  fix k assume k: "0 < k" "k < n" "k \<noteq> i" "parent k \<noteq> i"
  with parent_less [of k] heapD [OF assms(1), of k] show "key s' (parent k) \<le> key s' k"
    by (simp add: assms(3))
next
  fix k assume k: "0 < k" "k < n" "parent k = i" "0 < i"
  have "parent i < i" "i < k" using parent_less k by auto
  moreover have "key s (parent i) \<le> key s k"
    using heapD [OF assms(1) k(1,2)] heapD [OF assms(1) k(4) assms(2)] k(3) by simp
  ultimately show "key s' (parent i) \<le> key s' k" using k assms(2) by (simp add: assms(3))
qed

lemma heap_cong:
  assumes "\<And>k. k < n \<Longrightarrow> key s' k = key s k"
  shows "heap n s' \<longleftrightarrow> heap n s"
proof -
  have "0 < k \<Longrightarrow> k < n \<Longrightarrow> parent k < n" for k using parent_less [of k] by simp
  with assms show ?thesis by (auto simp: heap_def)
qed

lemma heap_prefix: "heap n s \<Longrightarrow> m \<le> n \<Longrightarrow> heap m s"
  by (simp add: heap_def)

lemma heap_pop_heap:
  assumes "heap (len s) s" "0 < len s"
  shows "heap (len s - 1) (heap_pop lt sw (len s) s)"
proof (cases "len s = 1")
  case True
  then show ?thesis by (simp add: heap_def)
next
  case False
  let ?n = "len s - 1"
  let ?s = "sw 0 ?n s"
  from False assms(2) have n: "0 < ?n" by simp
  have "hole ?n 0 ?s"
    by (rule hole_after_change [OF heap_prefix [OF assms(1)] n]) (use n in \<open>simp_all add: key_sw\<close>)
  then have "heap ?n (snd (heap_down lt sw ?n 0 ?s))"
    using n by (intro heap_down_heap) (simp_all add: below_def len_sw)
  then show ?thesis by (simp add: heap_pop_def Let_def split_beta)
qed

lemma heap_remove_heap:
  assumes "heap (len s) s" "i < len s"
  shows "heap (len s - 1) (heap_remove lt sw (len s) i s)"
proof (cases "len s - 1 = i")
  case True
  then show ?thesis using heap_prefix [OF assms(1)] by (simp add: heap_remove_def)
next
  case False
  let ?n = "len s - 1"
  let ?s = "sw i ?n s"
  from False assms(2) have n: "i < ?n" by simp
  have "hole ?n i ?s"
    by (rule hole_after_change [OF heap_prefix [OF assms(1)] n]) (use n in \<open>simp_all add: key_sw\<close>)
  then have "heap ?n (heap_fix lt sw ?n i ?s)"
    using n by (intro heap_fix_heap) (simp_all add: len_sw)
  with False show ?thesis by (simp add: heap_remove_def Let_def)
qed

lemma heap_push_heap:
  assumes "heap (len s - 1) s" "0 < len s"
  shows "heap (len s) (heap_up lt sw (len s - 1) s)"
proof (rule heap_up_heap)
  let ?n = "len s - 1"
  have big: "k < ?n \<and> parent k < ?n" if "0 < k" "k < len s" "k \<noteq> ?n" for k
    using that parent_less [of k] by auto
  have no_child: "parent k \<noteq> ?n" if "0 < k" "k < len s" for k
    using that parent_less [of k] by auto
  show "hole (len s) ?n s"
    unfolding hole_def
  proof (intro conjI allI impI; elim conjE)
    fix k assume "0 < k" "k < len s" "k \<noteq> ?n" "parent k \<noteq> ?n"
    with big [of k] heapD [OF assms(1), of k] show "key s (parent k) \<le> key s k" by simp
  qed (use no_child in blast)
  show "above (len s) ?n s" unfolding above_def using no_child by blast
qed (use assms in auto)

end

end
