(* ===== verification/RefreshScheduler.thy ===== *)
theory RefreshScheduler
  imports GoHeap Refresh Upstream
begin

text \<open>
  \<open>auth/refresh_scheduler.go\<close>: the scheduler of token refreshes. A task is an object that the priority
  queue, the execution queue and the map of tasks share by pointer, so tasks live in a store of objects
  and the three hold references (numbers). The goroutines of the scheduler are its steps: a tick of the
  schedule loop, a tick of the retry loop, the start and the end of an execution; each step is atomic.
  What \<open>refreshAccount\<close> answers, the clock and the random numbers are arguments. \<open>Start\<close>, \<open>Stop\<close> and the
  loops around the ticks are not modelled.
\<close>

datatype RefreshState =
  RefreshStatePending | RefreshStateRunning | RefreshStateSuccess | RefreshStateFailed | RefreshStateRetrying

record RefreshTask =
  rt_Account :: int
  rt_ScheduledAt :: time
  rt_Priority :: int
  rt_Attempts :: int
  rt_State :: RefreshState
  rt_LastError :: "string option"
  rt_NextRetryAt :: time
  rt_heapIndex :: int

record RefreshMetrics =
  rm_TotalTasks :: int
  rm_PendingTasks :: int
  rm_RunningTasks :: int
  rm_SuccessCount :: int
  rm_FailedCount :: int
  rm_RetryCount :: int
  rm_AvgDurationMs :: int
  rm_LastRefreshAt :: time

record RefreshConfig =
  rc_MaxConcurrency :: int
  rc_MinInterval :: duration
  rc_PreExpireWindow :: duration
  rc_RetryBackoffBase :: duration
  rc_RetryMaxAttempts :: int
  rc_JitterPercent :: float64
  rc_EnableBatchOptimize :: bool
  rc_BatchSize :: int

definition DefaultRefreshConfig :: RefreshConfig where
  "DefaultRefreshConfig =
     \<lparr>rc_MaxConcurrency = 10, rc_MinInterval = 100 * millisecond, rc_PreExpireWindow = 5 * minute,
      rc_RetryBackoffBase = 1 * second, rc_RetryMaxAttempts = 3, rc_JitterPercent = 1 / 10,
      rc_EnableBatchOptimize = True, rc_BatchSize = 5\<rparr>"

section \<open>The priority queue\<close>

text \<open>The objects, and the slice of references to those in the queue.\<close>

record task_heap =
  th_task :: "nat \<Rightarrow> RefreshTask"
  th_pq :: "nat list"

definition set_task :: "nat \<Rightarrow> (RefreshTask \<Rightarrow> RefreshTask) \<Rightarrow> task_heap \<Rightarrow> task_heap" where
  "set_task t f h = h\<lparr>th_task := (th_task h)(t := f (th_task h t))\<rparr>"

definition set_index :: "nat \<Rightarrow> int \<Rightarrow> task_heap \<Rightarrow> task_heap" where
  "set_index t i h = set_task t (\<lambda>x. x\<lparr>rt_heapIndex := i\<rparr>) h"

definition pq_Len :: "task_heap \<Rightarrow> nat" where
  "pq_Len h = length (th_pq h)"

definition pq_Less :: "task_heap \<Rightarrow> nat \<Rightarrow> nat \<Rightarrow> bool" where
  "pq_Less h i j =
     (let a = th_task h (th_pq h ! i); b = th_task h (th_pq h ! j)
      in if rt_Priority a \<noteq> rt_Priority b then rt_Priority a > rt_Priority b
         else rt_ScheduledAt a < rt_ScheduledAt b)"

definition pq_Swap :: "nat \<Rightarrow> nat \<Rightarrow> task_heap \<Rightarrow> task_heap" where
  "pq_Swap i j h =
     (let h = h\<lparr>th_pq := (th_pq h)[i := th_pq h ! j, j := th_pq h ! i]\<rparr>;
          h = set_index (th_pq h ! i) (int i) h
      in set_index (th_pq h ! j) (int j) h)"

definition pq_Push :: "nat \<Rightarrow> task_heap \<Rightarrow> task_heap" where
  "pq_Push t h = (let h = set_index t (int (pq_Len h)) h in h\<lparr>th_pq := th_pq h @ [t]\<rparr>)"

definition pq_Pop :: "task_heap \<Rightarrow> nat \<times> task_heap" where
  "pq_Pop h = (let x = last (th_pq h); h = set_index x (- 1) h in (x, h\<lparr>th_pq := butlast (th_pq h)\<rparr>))"

definition in_queue :: "nat \<Rightarrow> task_heap \<Rightarrow> bool" where
  "in_queue t h \<longleftrightarrow> (let idx = rt_heapIndex (th_task h t) in idx \<ge> 0 \<and> idx < int (pq_Len h))"

definition pushToQueue :: "nat \<Rightarrow> task_heap \<Rightarrow> task_heap" where
  "pushToQueue t h =
     (if in_queue t h then heap_fix pq_Less pq_Swap (pq_Len h) (nat (rt_heapIndex (th_task h t))) h
      else
        let h = pq_Push t (set_index t (- 1) h)
        in heap_up pq_Less pq_Swap (pq_Len h - 1) h)"

definition removeFromQueue :: "nat \<Rightarrow> task_heap \<Rightarrow> task_heap" where
  "removeFromQueue t h =
     (if in_queue t h
      then snd (pq_Pop (heap_remove pq_Less pq_Swap (pq_Len h) (nat (rt_heapIndex (th_task h t))) h))
      else h)"

definition popFromQueue :: "task_heap \<Rightarrow> (nat \<times> task_heap) option" where
  "popFromQueue h =
     (if pq_Len h = 0 then None else Some (pq_Pop (heap_pop pq_Less pq_Swap (pq_Len h) h)))"

definition peekQueue :: "task_heap \<Rightarrow> nat option" where
  "peekQueue h = (if pq_Len h = 0 then None else Some (th_pq h ! 0))"

section \<open>The scheduler\<close>

record RefreshScheduler =
  rs_config :: RefreshConfig
  rs_heap :: task_heap
  rs_next :: nat
  rs_queue :: "nat list"
  rs_semaphore :: nat
  rs_tasks :: "int \<Rightarrow> nat option"
  rs_metrics :: RefreshMetrics
  rs_lastBatch :: time

definition no_task :: RefreshTask where
  "no_task = \<lparr>rt_Account = 0, rt_ScheduledAt = 0, rt_Priority = 0, rt_Attempts = 0,
     rt_State = RefreshStatePending, rt_LastError = None, rt_NextRetryAt = 0, rt_heapIndex = - 1\<rparr>"

definition NewRefreshScheduler :: "RefreshConfig \<Rightarrow> time \<Rightarrow> RefreshScheduler" where
  "NewRefreshScheduler config now =
     (let config = (if rc_MaxConcurrency config \<le> 0 then config\<lparr>rc_MaxConcurrency := 10\<rparr> else config);
          config = (if rc_BatchSize config \<le> 0 then config\<lparr>rc_BatchSize := 5\<rparr> else config)
      in \<lparr>rs_config = config, rs_heap = \<lparr>th_task = (\<lambda>_. no_task), th_pq = []\<rparr>, rs_next = 0, rs_queue = [],
          rs_semaphore = 0, rs_tasks = (\<lambda>_. None),
          rs_metrics = \<lparr>rm_TotalTasks = 0, rm_PendingTasks = 0, rm_RunningTasks = 0, rm_SuccessCount = 0,
             rm_FailedCount = 0, rm_RetryCount = 0, rm_AvgDurationMs = 0, rm_LastRefreshAt = 0\<rparr>,
          rs_lastBatch = now\<rparr>)"

definition queue_cap :: nat where
  "queue_cap = 1000"

definition add_total :: "int \<Rightarrow> RefreshScheduler \<Rightarrow> RefreshScheduler" where
  "add_total n s = s\<lparr>rs_metrics := (rs_metrics s)\<lparr>rm_TotalTasks := rm_TotalTasks (rs_metrics s) + n\<rparr>\<rparr>"

definition add_pending :: "int \<Rightarrow> RefreshScheduler \<Rightarrow> RefreshScheduler" where
  "add_pending n s = s\<lparr>rs_metrics := (rs_metrics s)\<lparr>rm_PendingTasks := rm_PendingTasks (rs_metrics s) + n\<rparr>\<rparr>"

definition add_running :: "int \<Rightarrow> RefreshScheduler \<Rightarrow> RefreshScheduler" where
  "add_running n s = s\<lparr>rs_metrics := (rs_metrics s)\<lparr>rm_RunningTasks := rm_RunningTasks (rs_metrics s) + n\<rparr>\<rparr>"

definition on_heap :: "(task_heap \<Rightarrow> task_heap) \<Rightarrow> RefreshScheduler \<Rightarrow> RefreshScheduler" where
  "on_heap f s = s\<lparr>rs_heap := f (rs_heap s)\<rparr>"

text \<open>\<open>&RefreshTask{...}\<close> under a fresh reference.\<close>

definition new_task :: "RefreshTask \<Rightarrow> RefreshScheduler \<Rightarrow> nat \<times> RefreshScheduler" where
  "new_task task s = (rs_next s, on_heap (set_task (rs_next s) (\<lambda>_. task)) s\<lparr>rs_next := rs_next s + 1\<rparr>)"

text \<open>\<open>rnd\<close> is the answer of \<open>rand.Float64\<close>, at least 0 and below 1.\<close>

definition randomJitter :: "RefreshConfig \<Rightarrow> float64 \<Rightarrow> duration \<Rightarrow> duration" where
  "randomJitter config rnd base =
     (if rc_JitterPercent config \<le> 0 then base
      else base + float_to_int64 (of_int base * rc_JitterPercent config * (2 * rnd - 1)))"

definition calculateOptimalTime :: "RefreshConfig \<Rightarrow> account \<Rightarrow> time \<Rightarrow> float64 \<Rightarrow> float64 \<Rightarrow> time" where
  "calculateOptimalTime config account now rnd1 rnd2 =
     (let expiresAt = ExpiresAt account;
          targetTime =
            (if is_zero expiresAt then now + 30 * second
             else if go_sub expiresAt now < rc_PreExpireWindow config
             then now + randomJitter config rnd1 (100 * millisecond)
             else expiresAt - rc_PreExpireWindow config + randomJitter config rnd1 (rc_MinInterval config))
      in if targetTime < now then now + randomJitter config rnd2 (100 * millisecond) else targetTime)"

definition calculatePriority :: "account \<Rightarrow> time \<Rightarrow> int" where
  "calculatePriority account now =
     (let expiresAt = ExpiresAt account;
          priority = (case HealthTier account of
              HealthTierHealthy \<Rightarrow> 30 | HealthTierWarm \<Rightarrow> 20 | HealthTierRisky \<Rightarrow> 10 | _ \<Rightarrow> 0)
      in if is_zero expiresAt then priority
         else
           let timeUntilExpire = go_sub expiresAt now
           in if timeUntilExpire < 30 * second then priority + 100
              else if timeUntilExpire < 2 * minute then priority + 50
              else if timeUntilExpire < 5 * minute then priority + 20
              else priority)"

definition Schedule :: "account \<Rightarrow> time \<Rightarrow> float64 \<Rightarrow> float64 \<Rightarrow> RefreshScheduler \<Rightarrow> RefreshScheduler" where
  "Schedule account now rnd1 rnd2 s =
     (let scheduledAt = calculateOptimalTime (rs_config s) account now rnd1 rnd2;
          priority = calculatePriority account now
      in case rs_tasks s (DBID account) of
           Some existing \<Rightarrow>
             if rt_State (th_task (rs_heap s) existing) \<noteq> RefreshStateRunning
             then on_heap (\<lambda>h. pushToQueue existing
                    (set_task existing (\<lambda>x. x\<lparr>rt_State := RefreshStatePending, rt_ScheduledAt := scheduledAt,
                       rt_Priority := priority, rt_Attempts := 0, rt_LastError := None\<rparr>) h)) s
             else s
         | None \<Rightarrow>
             let (task, s) = new_task (no_task\<lparr>rt_Account := DBID account, rt_ScheduledAt := scheduledAt,
                                               rt_Priority := priority\<rparr>) s;
                 s = add_pending 1 (add_total 1 (s\<lparr>rs_tasks := (rs_tasks s)(DBID account \<mapsto> task)\<rparr>))
             in on_heap (pushToQueue task) s)"

definition ScheduleImmediate :: "account \<Rightarrow> time \<Rightarrow> RefreshScheduler \<Rightarrow> RefreshScheduler" where
  "ScheduleImmediate account now s =
     (let (task, s) = new_task (no_task\<lparr>rt_Account := DBID account, rt_ScheduledAt := now,
                                        rt_Priority := 1000\<rparr>) s;
          s = (case rs_tasks s (DBID account) of
                 Some existing \<Rightarrow>
                   add_pending (- 1) (on_heap (\<lambda>h. removeFromQueue existing
                     (set_task existing (\<lambda>x. x\<lparr>rt_State := RefreshStateSuccess\<rparr>) h)) s)
               | None \<Rightarrow> add_pending 1 (add_total 1 s));
          s = s\<lparr>rs_tasks := (rs_tasks s)(DBID account \<mapsto> task)\<rparr>
      in if length (rs_queue s) < queue_cap
         then add_pending (- 1) (s\<lparr>rs_queue := rs_queue s @ [task]\<rparr>)
         else s)"

text \<open>The delays of \<open>ScheduleBatch\<close>: the accounts that are scheduled after a timer, and when.\<close>

definition batch_delays :: "RefreshConfig \<Rightarrow> account list \<Rightarrow> (account \<times> duration) list" where
  "batch_delays config accs =
     (let batchSize = (if rc_BatchSize config \<le> 0 then 5 else rc_BatchSize config)
      in map (\<lambda>(i, acc). (acc, go_div (int i) batchSize * rc_MinInterval config)) (enumerate 0 accs))"

definition shouldBatch :: "RefreshScheduler \<Rightarrow> time \<Rightarrow> bool" where
  "shouldBatch s now = (go_sub now (rs_lastBatch s) < rc_MinInterval (rs_config s))"

text \<open>Pop takes one task off, so a tick ends.\<close>

lemma set_task_pq [simp]: "th_pq (set_task t f h) = th_pq h"
  by (simp add: set_task_def)

lemma set_index_pq [simp]: "th_pq (set_index t i h) = th_pq h"
  by (simp add: set_index_def)

lemma pq_Swap_len [simp]: "pq_Len (pq_Swap i j h) = pq_Len h"
  by (simp add: pq_Swap_def pq_Len_def Let_def)

lemma heap_pop_len: "0 < pq_Len h \<Longrightarrow> pq_Len (heap_pop pq_Less pq_Swap (pq_Len h) h) = pq_Len h"
proof (cases "pq_Len h - 1 = 0")
  case True
  then show ?thesis by (simp add: heap_pop_def Let_def split_beta heap_down.simps)
next
  case False
  then show ?thesis
    using heap_down_inv [of "pq_Len h - 1" "\<lambda>x. pq_Len x = pq_Len h" pq_Swap 0 "pq_Swap 0 (pq_Len h - 1) h" pq_Less]
    by (simp add: heap_pop_def Let_def split_beta)
qed

lemma popFromQueue_len: "popFromQueue h = Some (t, h') \<Longrightarrow> pq_Len h' < pq_Len h"
  using heap_pop_len [of h]
  by (auto simp: popFromQueue_def pq_Pop_def pq_Len_def Let_def split: if_splits)

text \<open>A tick of the schedule loop.\<close>

function processScheduledTasks :: "time \<Rightarrow> RefreshScheduler \<Rightarrow> RefreshScheduler" where
  "processScheduledTasks now s =
     (case peekQueue (rs_heap s) of
        None \<Rightarrow> s
      | Some task \<Rightarrow>
          if rt_ScheduledAt (th_task (rs_heap s) task) > now then s
          else case popFromQueue (rs_heap s) of
              None \<Rightarrow> s
            | Some (task', h) \<Rightarrow>
                if rt_State (th_task (rs_heap s) task) \<noteq> RefreshStatePending
                then processScheduledTasks now (s\<lparr>rs_heap := h\<rparr>)
                else
                  let lastBatch = (if rc_EnableBatchOptimize (rs_config s) \<and> shouldBatch s now
                                   then now else rs_lastBatch s)
                  in if length (rs_queue s) < queue_cap
                     then processScheduledTasks now
                            (add_pending (- 1) (s\<lparr>rs_heap := h, rs_lastBatch := lastBatch,
                                                  rs_queue := rs_queue s @ [task']\<rparr>))
                     else s\<lparr>rs_heap := pushToQueue task' h, rs_lastBatch := lastBatch\<rparr>)"
  by pat_completeness auto

termination processScheduledTasks
  by (relation "measure (\<lambda>(_, s). pq_Len (rs_heap s))") (auto simp: add_pending_def popFromQueue_len)

declare processScheduledTasks.simps [simp del]

section \<open>Execution\<close>

text \<open>
  The execution of a task in two steps: the loop takes it off the queue when the semaphore has room,
  and the goroutine ends with what \<open>refreshAccount\<close> answered.
\<close>

definition execute_start :: "RefreshScheduler \<Rightarrow> (nat \<times> RefreshScheduler) option" where
  "execute_start s =
     (case rs_queue s of
        [] \<Rightarrow> None
      | task # queue \<Rightarrow>
          if int (rs_semaphore s) < rc_MaxConcurrency (rs_config s)
          then Some (task, add_running 1 (on_heap (set_task task (\<lambda>x. x\<lparr>rt_State := RefreshStateRunning\<rparr>))
                 (s\<lparr>rs_queue := queue, rs_semaphore := rs_semaphore s + 1\<rparr>)))
          else None)"

definition calculateRetryTime :: "RefreshConfig \<Rightarrow> int \<Rightarrow> time \<Rightarrow> float64 \<Rightarrow> time" where
  "calculateRetryTime config attempts now rnd =
     (let pow = (if attempts \<ge> 1 then 2 ^ nat (attempts - 1) else 1 / 2 ^ nat (1 - attempts));
          backoff = wrap64 (rc_RetryBackoffBase config * float_to_int64 pow);
          backoff = (if backoff > 5 * minute then 5 * minute else backoff)
      in now + (backoff + randomJitter config rnd (go_div backoff 10)))"

definition updateAvgDuration :: "duration \<Rightarrow> RefreshMetrics \<Rightarrow> RefreshMetrics" where
  "updateAvgDuration d m =
     (let current = rm_AvgDurationMs m; newMs = go_div d millisecond
      in m\<lparr>rm_AvgDurationMs := (if current = 0 then newMs else go_div (current * 9 + newMs) 10)\<rparr>)"

definition finish_task :: "RefreshConfig \<Rightarrow> string option \<Rightarrow> time \<Rightarrow> float64 \<Rightarrow> RefreshTask \<Rightarrow> RefreshTask" where
  "finish_task config err now rnd task =
     (case err of
        Some e \<Rightarrow>
          let task = task\<lparr>rt_State := RefreshStateFailed, rt_LastError := Some e, rt_Attempts := rt_Attempts task + 1\<rparr>
          in if rt_Attempts task < rc_RetryMaxAttempts config \<and> \<not> isNonRetryable e
             then task\<lparr>rt_State := RefreshStateRetrying,
                       rt_NextRetryAt := calculateRetryTime config (rt_Attempts task) now rnd\<rparr>
             else task
      | None \<Rightarrow> task\<lparr>rt_State := RefreshStateSuccess\<rparr>)"

definition execute_end ::
  "nat \<Rightarrow> string option \<Rightarrow> time \<Rightarrow> time \<Rightarrow> float64 \<Rightarrow> RefreshScheduler \<Rightarrow> RefreshScheduler" where
  "execute_end task err start now rnd s =
     (let s = add_running (- 1) (s\<lparr>rs_metrics := updateAvgDuration (go_sub now start) (rs_metrics s)\<rparr>);
          s = s\<lparr>rs_metrics := (case err of
                 Some _ \<Rightarrow> (rs_metrics s)\<lparr>rm_LastRefreshAt := now, rm_FailedCount := rm_FailedCount (rs_metrics s) + 1\<rparr>
               | None \<Rightarrow> (rs_metrics s)\<lparr>rm_LastRefreshAt := now, rm_SuccessCount := rm_SuccessCount (rs_metrics s) + 1\<rparr>)\<rparr>;
          s = on_heap (set_task task (finish_task (rs_config s) err now rnd)) s;
          x = th_task (rs_heap s) task;
          s = (if rt_State x = RefreshStateSuccess
                  \<or> (rt_State x = RefreshStateFailed \<and> rt_Attempts x \<ge> rc_RetryMaxAttempts (rs_config s))
               then s\<lparr>rs_tasks := (rs_tasks s)(rt_Account x := None)\<rparr> else s)
      in s\<lparr>rs_semaphore := rs_semaphore s - 1\<rparr>)"

text \<open>A tick of the retry loop; \<open>ids\<close> is the order in which the map of tasks is traversed.\<close>

definition retry_due :: "time \<Rightarrow> RefreshTask \<Rightarrow> bool" where
  "retry_due now task \<longleftrightarrow> rt_State task = RefreshStateRetrying \<and> rt_NextRetryAt task < now"

definition retry_one :: "time \<Rightarrow> nat \<Rightarrow> RefreshScheduler \<Rightarrow> RefreshScheduler" where
  "retry_one now task s =
     (let s = on_heap (set_task task (\<lambda>x. x\<lparr>rt_State := RefreshStatePending, rt_ScheduledAt := now\<rparr>)) s;
          s = s\<lparr>rs_metrics := (rs_metrics s)\<lparr>rm_RetryCount := rm_RetryCount (rs_metrics s) + 1\<rparr>\<rparr>
      in on_heap (pushToQueue task) (add_pending 1 s))"

definition processRetries :: "int list \<Rightarrow> time \<Rightarrow> RefreshScheduler \<Rightarrow> RefreshScheduler" where
  "processRetries ids now s =
     (let tasks = filter (\<lambda>t. retry_due now (th_task (rs_heap s) t)) (List.map_filter (rs_tasks s) ids)
      in fold (retry_one now) tasks s)"

section \<open>Control\<close>

definition CancelTask :: "int \<Rightarrow> RefreshScheduler \<Rightarrow> RefreshScheduler \<times> bool" where
  "CancelTask dbID s =
     (case rs_tasks s dbID of
        Some task \<Rightarrow>
          let state = rt_State (th_task (rs_heap s) task)
          in if state = RefreshStatePending \<or> state = RefreshStateRetrying
             then
               let s = on_heap (\<lambda>h. removeFromQueue task (set_task task (\<lambda>x. x\<lparr>rt_State := RefreshStateSuccess\<rparr>) h)) s
               in (s\<lparr>rs_tasks := (rs_tasks s)(dbID := None)\<rparr>, True)
             else (s, False)
      | None \<Rightarrow> (s, False))"

definition GetTaskStatus :: "int \<Rightarrow> RefreshScheduler \<Rightarrow> RefreshState \<times> int \<times> string option" where
  "GetTaskStatus dbID s =
     (case rs_tasks s dbID of
        None \<Rightarrow> (RefreshStateSuccess, 0, None)
      | Some task \<Rightarrow> let x = th_task (rs_heap s) task in (rt_State x, rt_Attempts x, rt_LastError x))"

text \<open>\<open>auth/refresh_scheduler_integration.go\<close>: the configuration a store enables its scheduler with.\<close>

definition effective_config :: "RefreshConfig \<Rightarrow> RefreshConfig" where
  "effective_config c =
     (let c = (if rc_MaxConcurrency c \<le> 0 then c\<lparr>rc_MaxConcurrency := rc_MaxConcurrency DefaultRefreshConfig\<rparr> else c);
          c = (if rc_MinInterval c \<le> 0 then c\<lparr>rc_MinInterval := rc_MinInterval DefaultRefreshConfig\<rparr> else c);
          c = (if rc_PreExpireWindow c \<le> 0 then c\<lparr>rc_PreExpireWindow := rc_PreExpireWindow DefaultRefreshConfig\<rparr> else c);
          c = (if rc_RetryBackoffBase c \<le> 0 then c\<lparr>rc_RetryBackoffBase := rc_RetryBackoffBase DefaultRefreshConfig\<rparr> else c);
          c = (if rc_RetryMaxAttempts c \<le> 0 then c\<lparr>rc_RetryMaxAttempts := rc_RetryMaxAttempts DefaultRefreshConfig\<rparr> else c);
          c = (if rc_BatchSize c \<le> 0 then c\<lparr>rc_BatchSize := rc_BatchSize DefaultRefreshConfig\<rparr> else c)
      in if rc_JitterPercent c < 0 then c\<lparr>rc_JitterPercent := rc_JitterPercent DefaultRefreshConfig\<rparr> else c)"

end
