(* ===== verification/RefreshQueueLaws.thy ===== *)
theory RefreshQueueLaws
  imports RefreshScheduler "HOL-Library.Multiset"
begin

text \<open>
  The priority queue of the refresh scheduler is an instance of the heap of the standard library: the
  keys of tasks form a linear order, and every operation keeps the heap, the index that each task
  carries, and everything else about the tasks.
\<close>

section \<open>The order of tasks\<close>

text \<open>Higher priority first, then the earlier time.\<close>

datatype task_key = TaskKey int time

instantiation task_key :: linorder
begin

fun less_eq_task_key :: "task_key \<Rightarrow> task_key \<Rightarrow> bool" where
  "less_eq_task_key (TaskKey p t) (TaskKey q u) \<longleftrightarrow> q < p \<or> (p = q \<and> t \<le> u)"

definition less_task_key :: "task_key \<Rightarrow> task_key \<Rightarrow> bool" where
  "less_task_key a b \<longleftrightarrow> a \<le> b \<and> \<not> b \<le> a"

instance
proof
  fix a b c :: task_key
  show "a < b \<longleftrightarrow> a \<le> b \<and> \<not> b \<le> a" by (rule less_task_key_def)
  show "a \<le> a" by (cases a) simp
  show "a \<le> b \<Longrightarrow> b \<le> c \<Longrightarrow> a \<le> c" by (cases a; cases b; cases c) auto
  show "a \<le> b \<Longrightarrow> b \<le> a \<Longrightarrow> a = b" by (cases a; cases b) auto
  show "a \<le> b \<or> b \<le> a" by (cases a; cases b) auto
qed

end

lemma less_task_key [simp]: "TaskKey p t < TaskKey q u \<longleftrightarrow> q < p \<or> (p = q \<and> t < u)"
  by (auto simp: less_task_key_def)

definition key_of :: "task_heap \<Rightarrow> nat \<Rightarrow> task_key" where
  "key_of h t = TaskKey (rt_Priority (th_task h t)) (rt_ScheduledAt (th_task h t))"

definition key_at :: "task_heap \<Rightarrow> nat \<Rightarrow> task_key" where
  "key_at h i = key_of h (th_pq h ! i)"

section \<open>Swapping\<close>

text \<open>Two states of the objects that differ at most in the indices.\<close>

definition same_tasks :: "task_heap \<Rightarrow> task_heap \<Rightarrow> bool" where
  "same_tasks h h' \<longleftrightarrow> (\<forall>t. th_task h' t = (th_task h t)\<lparr>rt_heapIndex := rt_heapIndex (th_task h' t)\<rparr>)"

lemma same_tasks_refl [simp]: "same_tasks h h"
  by (simp add: same_tasks_def)

lemma same_tasksD:
  assumes "same_tasks h h'"
  shows "rt_Account (th_task h' t) = rt_Account (th_task h t)"
    "rt_ScheduledAt (th_task h' t) = rt_ScheduledAt (th_task h t)"
    "rt_Priority (th_task h' t) = rt_Priority (th_task h t)"
    "rt_Attempts (th_task h' t) = rt_Attempts (th_task h t)"
    "rt_State (th_task h' t) = rt_State (th_task h t)"
    "rt_LastError (th_task h' t) = rt_LastError (th_task h t)"
    "rt_NextRetryAt (th_task h' t) = rt_NextRetryAt (th_task h t)"
proof -
  have "th_task h' t = (th_task h t)\<lparr>rt_heapIndex := rt_heapIndex (th_task h' t)\<rparr>"
    using assms unfolding same_tasks_def by blast
  then obtain i where "th_task h' t = (th_task h t)\<lparr>rt_heapIndex := i\<rparr>" by blast
  then show "rt_Account (th_task h' t) = rt_Account (th_task h t)"
    "rt_ScheduledAt (th_task h' t) = rt_ScheduledAt (th_task h t)"
    "rt_Priority (th_task h' t) = rt_Priority (th_task h t)"
    "rt_Attempts (th_task h' t) = rt_Attempts (th_task h t)"
    "rt_State (th_task h' t) = rt_State (th_task h t)"
    "rt_LastError (th_task h' t) = rt_LastError (th_task h t)"
    "rt_NextRetryAt (th_task h' t) = rt_NextRetryAt (th_task h t)" by simp_all
qed

lemma same_tasks_trans: "same_tasks h1 h2 \<Longrightarrow> same_tasks h2 h3 \<Longrightarrow> same_tasks h1 h3"
  unfolding same_tasks_def by (metis RefreshTask.surjective RefreshTask.update_convs(8))

lemma same_tasks_index [simp]: "same_tasks h (set_index t i h)"
  by (simp add: same_tasks_def set_index_def set_task_def)

lemma same_tasks_pq [simp]: "same_tasks h (h'\<lparr>th_pq := pq\<rparr>) = same_tasks h h'"
  "same_tasks (h\<lparr>th_pq := pq\<rparr>) h' = same_tasks h h'"
  by (simp_all add: same_tasks_def)

lemma same_tasks_key: "same_tasks h h' \<Longrightarrow> key_of h' t = key_of h t"
  by (simp add: key_of_def same_tasksD)

lemma same_tasks_swap: "same_tasks h (pq_Swap i j h)"
proof -
  let ?h = "h\<lparr>th_pq := (th_pq h)[i := th_pq h ! j, j := th_pq h ! i]\<rparr>"
  have "same_tasks h (set_index (th_pq ?h ! i) (int i) ?h)"
    using same_tasks_index [of ?h] by (simp del: same_tasks_index)
  from same_tasks_trans [OF this same_tasks_index] show ?thesis by (simp add: pq_Swap_def Let_def)
qed

lemma swap_pq: "th_pq (pq_Swap i j h) = (th_pq h)[i := th_pq h ! j, j := th_pq h ! i]"
  by (simp add: pq_Swap_def Let_def)

lemma swap_index:
  "rt_heapIndex (th_task (pq_Swap i j h) t) =
     (if t = th_pq (pq_Swap i j h) ! j then int j
      else if t = th_pq (pq_Swap i j h) ! i then int i else rt_heapIndex (th_task h t))"
  by (auto simp: pq_Swap_def Let_def set_index_def set_task_def)

interpretation pq: heap_interface pq_Less pq_Swap pq_Len key_at
proof
  fix h :: task_heap and i j k :: nat
  show "pq_Less h i j \<longleftrightarrow> key_at h i < key_at h j"
    by (auto simp: pq_Less_def key_at_def key_of_def Let_def)
  show "pq_Len (pq_Swap i j h) = pq_Len h" by simp
  assume "i < pq_Len h" "j < pq_Len h" "k < pq_Len h"
  then show "key_at (pq_Swap i j h) k = (if k = i then key_at h j else if k = j then key_at h i else key_at h k)"
    by (auto simp: key_at_def same_tasks_key [OF same_tasks_swap] swap_pq pq_Len_def nth_list_update)
qed

text \<open>Every task in the queue carries its position, every other one -1.\<close>

definition indexed :: "task_heap \<Rightarrow> bool" where
  "indexed h \<longleftrightarrow> distinct (th_pq h) \<and>
     (\<forall>i < length (th_pq h). rt_heapIndex (th_task h (th_pq h ! i)) = int i) \<and>
     (\<forall>t. t \<notin> set (th_pq h) \<longrightarrow> rt_heapIndex (th_task h t) = - 1)"

definition arranged :: "task_heap \<Rightarrow> task_heap \<Rightarrow> bool" where
  "arranged h0 h \<longleftrightarrow> same_tasks h0 h \<and> mset (th_pq h) = mset (th_pq h0) \<and> indexed h"

lemma arrangedD:
  assumes "arranged h0 h"
  shows "same_tasks h0 h" "indexed h" "set (th_pq h) = set (th_pq h0)" "pq_Len h = pq_Len h0"
  using assms mset_eq_setD [of "th_pq h" "th_pq h0"] mset_eq_length [of "th_pq h" "th_pq h0"]
  by (auto simp: arranged_def pq_Len_def)

lemma arranged_refl: "indexed h \<Longrightarrow> arranged h h"
  by (simp add: arranged_def)

lemma arranged_swap:
  assumes "arranged h0 h" "i < pq_Len h0" "j < pq_Len h0"
  shows "arranged h0 (pq_Swap i j h)"
proof -
  let ?h = "pq_Swap i j h"
  note a = arrangedD [OF assms(1)]
  from a(4) assms(2,3) have l: "i < length (th_pq h)" "j < length (th_pq h)" by (auto simp: pq_Len_def)
  have m: "mset (th_pq ?h) = mset (th_pq h)"
    unfolding swap_pq by (rule mset_swap [OF l(2,1)])
  have s: "set (th_pq ?h) = set (th_pq h)" using m by (rule mset_eq_setD)
  have d: "distinct (th_pq ?h)" using a(2) mset_eq_imp_distinct_iff [OF m] by (simp add: indexed_def)
  have "rt_heapIndex (th_task ?h (th_pq ?h ! k)) = int k" if "k < length (th_pq ?h)" for k
  proof -
    have len: "length (th_pq ?h) = length (th_pq h)" by (simp add: swap_pq)
    have inj: "th_pq ?h ! k = th_pq ?h ! j \<longleftrightarrow> k = j" "th_pq ?h ! k = th_pq ?h ! i \<longleftrightarrow> k = i"
      using that l len d by (simp_all add: nth_eq_iff_index_eq)
    have "k \<noteq> i \<Longrightarrow> k \<noteq> j \<Longrightarrow> th_pq ?h ! k = th_pq h ! k" by (simp add: swap_pq)
    with a(2) that len show ?thesis unfolding swap_index inj by (auto simp: indexed_def)
  qed
  moreover have "rt_heapIndex (th_task ?h t) = - 1" if "t \<notin> set (th_pq ?h)" for t
  proof -
    have "th_pq ?h ! i \<in> set (th_pq ?h)" "th_pq ?h ! j \<in> set (th_pq ?h)"
      using l nth_mem [of i "th_pq ?h"] nth_mem [of j "th_pq ?h"] by (simp_all add: swap_pq)
    with that s a(2) show ?thesis unfolding swap_index by (auto simp: indexed_def)
  qed
  ultimately have "indexed ?h" using d by (simp add: indexed_def)
  with same_tasks_trans [OF a(1) same_tasks_swap] m assms(1) show ?thesis by (simp add: arranged_def)
qed

section \<open>The operations of the queue\<close>

definition queue_ok :: "task_heap \<Rightarrow> bool" where
  "queue_ok h \<longleftrightarrow> indexed h \<and> pq.heap (pq_Len h) h"

lemma in_queue_iff: "indexed h \<Longrightarrow> in_queue t h \<longleftrightarrow> t \<in> set (th_pq h)"
  by (auto simp: in_queue_def indexed_def Let_def in_set_conv_nth pq_Len_def)

lemma index_of_queued:
  assumes "indexed h" "t \<in> set (th_pq h)"
  shows "nat (rt_heapIndex (th_task h t)) < pq_Len h" "th_pq h ! nat (rt_heapIndex (th_task h t)) = t"
  using assms by (auto simp: indexed_def in_set_conv_nth pq_Len_def)

lemma heap_up_arranged:
  "indexed h \<Longrightarrow> j < pq_Len h \<Longrightarrow> arranged h (heap_up pq_Less pq_Swap j h)"
  by (rule heap_up_inv [where n = "pq_Len h" and P = "arranged h"]) (auto intro: arranged_swap arranged_refl)

lemma heap_fix_arranged:
  "arranged h0 h \<Longrightarrow> n \<le> pq_Len h0 \<Longrightarrow> i < n \<Longrightarrow> arranged h0 (heap_fix pq_Less pq_Swap n i h)"
  by (rule heap_fix_inv [where n = n and P = "arranged h0"]) (auto intro: arranged_swap)

lemma heap_remove_arranged:
  "indexed h \<Longrightarrow> i < pq_Len h \<Longrightarrow> arranged h (heap_remove pq_Less pq_Swap (pq_Len h) i h)"
  by (auto simp: heap_remove_def Let_def intro!: heap_fix_arranged arranged_swap arranged_refl)

lemma heap_pop_arranged:
  assumes "indexed h" "0 < pq_Len h"
  shows "arranged h (heap_pop pq_Less pq_Swap (pq_Len h) h)"
proof -
  have s: "arranged h (pq_Swap 0 (pq_Len h - 1) h)"
    using assms by (intro arranged_swap arranged_refl) auto
  show ?thesis
  proof (cases "pq_Len h - 1 = 0")
    case True
    with s show ?thesis by (simp add: heap_pop_def Let_def split_beta heap_down.simps)
  next
    case False
    have "arranged h (snd (heap_down pq_Less pq_Swap (pq_Len h - 1) 0 (pq_Swap 0 (pq_Len h - 1) h)))"
      using heap_down_inv [of "pq_Len h - 1" "arranged h" pq_Swap 0 "pq_Swap 0 (pq_Len h - 1) h" pq_Less,
          OF arranged_swap] False s by auto
    then show ?thesis by (simp add: heap_pop_def Let_def split_beta)
  qed
qed

text \<open>What is last after the loops of \<open>Pop\<close> and \<open>Remove\<close> is the element to go.\<close>

lemma keeps_last:
  "i < n \<Longrightarrow> j < n \<Longrightarrow> n < pq_Len h \<Longrightarrow> th_pq (pq_Swap i j h) ! n = th_pq h ! n"
  by (simp add: swap_pq)

lemma heap_fix_last:
  assumes "i < n" "n < pq_Len h"
  shows "th_pq (heap_fix pq_Less pq_Swap n i h) ! n = th_pq h ! n"
proof -
  have "pq_Len (heap_fix pq_Less pq_Swap n i h) = pq_Len h \<and> th_pq (heap_fix pq_Less pq_Swap n i h) ! n = th_pq h ! n"
    by (rule heap_fix_inv [where n = n and P = "\<lambda>x. pq_Len x = pq_Len h \<and> th_pq x ! n = th_pq h ! n"])
      (use assms in \<open>auto simp: keeps_last\<close>)
  then show ?thesis ..
qed

lemma heap_remove_last:
  assumes "i < pq_Len h"
  shows "th_pq (heap_remove pq_Less pq_Swap (pq_Len h) i h) ! (pq_Len h - 1) = th_pq h ! i"
  using assms by (auto simp: heap_remove_def Let_def heap_fix_last swap_pq pq_Len_def nth_list_update)

lemma heap_pop_last:
  assumes "0 < pq_Len h"
  shows "th_pq (heap_pop pq_Less pq_Swap (pq_Len h) h) ! (pq_Len h - 1) = th_pq h ! 0"
proof (cases "pq_Len h - 1 = 0")
  case True
  with assms show ?thesis by (simp add: heap_pop_def Let_def split_beta heap_down.simps swap_pq pq_Len_def)
next
  case False
  let ?n = "pq_Len h - 1" and ?h = "pq_Swap 0 (pq_Len h - 1) h"
  have "pq_Len (snd (heap_down pq_Less pq_Swap ?n 0 ?h)) = pq_Len h \<and>
      th_pq (snd (heap_down pq_Less pq_Swap ?n 0 ?h)) ! ?n = th_pq ?h ! ?n"
    using heap_down_inv [of ?n "\<lambda>x. pq_Len x = pq_Len h \<and> th_pq x ! ?n = th_pq ?h ! ?n" pq_Swap 0 ?h pq_Less]
      False by (auto simp: keeps_last)
  with assms show ?thesis by (simp add: heap_pop_def Let_def split_beta swap_pq pq_Len_def)
qed

text \<open>Taking the last element off.\<close>

lemma key_at_prefix:
  assumes "same_tasks h h'" "\<And>k. k < n \<Longrightarrow> th_pq h' ! k = th_pq h ! k"
  shows "pq.heap n h' = pq.heap n h"
proof (rule pq.heap_cong)
  show "key_at h' k = key_at h k" if "k < n" for k
    using that by (simp add: key_at_def same_tasks_key [OF assms(1)] assms(2))
qed

lemma pq_Pop_ok:
  assumes "indexed h" "pq.heap (pq_Len h - 1) h" "0 < pq_Len h" "pq_Pop h = (t, h')"
  shows "t = th_pq h ! (pq_Len h - 1) \<and> queue_ok h' \<and> set (th_pq h') = set (th_pq h) - {t} \<and> same_tasks h h'"
proof -
  from assms(3) obtain xs x where h: "th_pq h = xs @ [x]" by (cases "th_pq h" rule: rev_cases) (auto simp: pq_Len_def)
  from assms(4) h have t: "t = x" and h': "h' = (set_index x (- 1) h)\<lparr>th_pq := xs\<rparr>"
    by (auto simp: pq_Pop_def Let_def)
  have same: "same_tasks h h'" by (simp add: h')
  have "indexed h'"
    using assms(1) h by (auto simp: indexed_def h' set_index_def set_task_def nth_append
        dest!: spec [where x = "_ :: nat"] nth_mem split: if_splits)
  moreover have "pq.heap (pq_Len h') h'"
    using key_at_prefix [OF same, of "length xs"] assms(2) h by (simp add: h' pq_Len_def nth_append)
  ultimately show ?thesis using same h t assms(1) by (auto simp: queue_ok_def h' indexed_def pq_Len_def)
qed

text \<open>The three operations, on a queue in which one task has just been changed.\<close>

lemma same_tasks_set_task: "same_tasks (set_task t f h) h' \<Longrightarrow>
   rt_State (th_task h' u) = (if u = t then rt_State (f (th_task h t)) else rt_State (th_task h u)) \<and>
   rt_Account (th_task h' u) = (if u = t then rt_Account (f (th_task h t)) else rt_Account (th_task h u))"
  by (simp add: same_tasksD set_task_def)

lemma indexed_set_task:
  assumes "indexed h" "\<And>x. rt_heapIndex (f x) = rt_heapIndex x"
  shows "indexed (set_task t f h)"
proof -
  have "rt_heapIndex (th_task (set_task t f h) u) = rt_heapIndex (th_task h u)" for u
    by (simp add: set_task_def assms(2))
  with assms(1) show ?thesis by (simp add: indexed_def)
qed

lemma pushToQueue_ok:
  assumes "queue_ok h0" "\<And>x. rt_heapIndex (f x) = rt_heapIndex x"
  shows "queue_ok (pushToQueue t (set_task t f h0)) \<and>
    set (th_pq (pushToQueue t (set_task t f h0))) = insert t (set (th_pq h0)) \<and>
    same_tasks (set_task t f h0) (pushToQueue t (set_task t f h0))"
proof -
  let ?h = "set_task t f h0"
  from assms(1) have hp: "pq.heap (pq_Len h0) h0" by (simp add: queue_ok_def)
  have x: "indexed ?h" using assms by (simp add: queue_ok_def indexed_set_task)
  have other: "key_of ?h u = key_of h0 u" if "u \<noteq> t" for u using that by (simp add: key_of_def set_task_def)
  have len: "pq_Len ?h = pq_Len h0" by (simp add: pq_Len_def)
  show ?thesis
  proof (cases "t \<in> set (th_pq h0)")
    case True
    let ?i = "nat (rt_heapIndex (th_task ?h t))"
    have i: "?i < pq_Len ?h" "th_pq ?h ! ?i = t" using index_of_queued [OF x] True by simp_all
    have "pq.hole (pq_Len ?h) ?i ?h"
    proof (rule pq.hole_after_change [OF hp [folded len] i(1)])
      fix k assume k: "k < pq_Len ?h" "k \<noteq> ?i"
      then have "th_pq ?h ! k \<noteq> t"
        using i x by (metis indexed_def nth_eq_iff_index_eq pq_Len_def)
      then show "key_at ?h k = key_at h0 k" by (simp add: key_at_def other)
    qed
    then have h: "pq.heap (pq_Len ?h) (heap_fix pq_Less pq_Swap (pq_Len ?h) ?i ?h)"
      using i(1) by (intro pq.heap_fix_heap) auto
    note a = arrangedD [OF heap_fix_arranged [OF arranged_refl [OF x] order.refl i(1)]]
    have "pushToQueue t ?h = heap_fix pq_Less pq_Swap (pq_Len ?h) ?i ?h"
      using True in_queue_iff [OF x, of t] by (simp add: pushToQueue_def)
    with a h True show ?thesis by (auto simp: queue_ok_def)
  next
    case False
    let ?p = "pq_Push t (set_index t (- 1) ?h)"
    have pq: "th_pq ?p = th_pq h0 @ [t]" by (simp add: pq_Push_def Let_def)
    have same: "same_tasks ?h ?p"
      using same_tasks_trans [OF same_tasks_index same_tasks_index] by (simp add: pq_Push_def Let_def)
    have lenp: "pq_Len ?p = Suc (pq_Len h0)" by (simp add: pq_Len_def pq)
    have "indexed ?p"
      using x False by (auto simp: indexed_def pq_Push_def set_index_def set_task_def Let_def nth_append pq_Len_def
          nth_mem split: if_splits)
    moreover have "pq_Len ?p - 1 < pq_Len ?p" by (simp add: lenp)
    ultimately have "arranged ?p (heap_up pq_Less pq_Swap (pq_Len ?p - 1) ?p)" by (rule heap_up_arranged)
    note a = arrangedD [OF this]
    have "key_at ?p k = key_at h0 k" if "k < pq_Len h0" for k
    proof -
      from that False have "th_pq h0 ! k \<noteq> t" by (metis nth_mem pq_Len_def)
      with that show ?thesis
        by (simp add: key_at_def pq nth_append same_tasks_key [OF same] other flip: pq_Len_def)
    qed
    then have "pq.heap (pq_Len ?p - 1) ?p = pq.heap (pq_Len ?p - 1) h0"
      by (intro pq.heap_cong) (simp add: lenp)
    with hp have "pq.heap (pq_Len ?p - 1) ?p" by (simp add: lenp)
    then have h: "pq.heap (pq_Len ?p) (heap_up pq_Less pq_Swap (pq_Len ?p - 1) ?p)"
      by (rule pq.heap_push_heap) (simp add: lenp)
    have eq: "pushToQueue t ?h = heap_up pq_Less pq_Swap (pq_Len ?p - 1) ?p"
      using False in_queue_iff [OF x, of t] by (simp add: pushToQueue_def Let_def)
    have "queue_ok (heap_up pq_Less pq_Swap (pq_Len ?p - 1) ?p)"
      using a(2) h unfolding queue_ok_def a(4) by blast
    moreover have "set (th_pq (heap_up pq_Less pq_Swap (pq_Len ?p - 1) ?p)) = insert t (set (th_pq h0))"
      unfolding a(3) pq by simp
    ultimately show ?thesis unfolding eq using same_tasks_trans [OF same a(1)] by blast
  qed
qed

lemma removeFromQueue_ok:
  assumes "queue_ok h0" "\<And>x. rt_heapIndex (f x) = rt_heapIndex x"
    "\<And>x. rt_Priority (f x) = rt_Priority x" "\<And>x. rt_ScheduledAt (f x) = rt_ScheduledAt x"
  shows "queue_ok (removeFromQueue t (set_task t f h0)) \<and>
    set (th_pq (removeFromQueue t (set_task t f h0))) = set (th_pq h0) - {t} \<and>
    same_tasks (set_task t f h0) (removeFromQueue t (set_task t f h0))"
proof -
  let ?h = "set_task t f h0"
  have x: "indexed ?h" using assms by (simp add: queue_ok_def indexed_set_task)
  have key: "key_at ?h = key_at h0" using assms(3,4) by (auto simp: key_at_def key_of_def set_task_def fun_eq_iff)
  have hp: "pq.heap (pq_Len ?h) ?h"
    using assms(1) by (simp add: queue_ok_def pq.heap_def key pq_Len_def)
  show ?thesis
  proof (cases "t \<in> set (th_pq h0)")
    case True
    let ?i = "nat (rt_heapIndex (th_task ?h t))"
    let ?r = "heap_remove pq_Less pq_Swap (pq_Len ?h) ?i ?h"
    have i: "?i < pq_Len ?h" "th_pq ?h ! ?i = t" using index_of_queued [OF x] True by simp_all
    note a = arrangedD [OF heap_remove_arranged [OF x i(1)]]
    have h: "pq.heap (pq_Len ?r - 1) ?r" unfolding a(4) by (rule pq.heap_remove_heap [OF hp i(1)])
    obtain u h' where p: "pq_Pop ?r = (u, h')" by (cases "pq_Pop ?r")
    have "0 < pq_Len ?r" using a(4) i(1) by simp
    note o = pq_Pop_ok [OF a(2) h this p]
    have "u = t" using o heap_remove_last [OF i(1)] i(2) a(4) by simp
    moreover have "removeFromQueue t ?h = h'"
      using True in_queue_iff [OF x, of t] p by (simp add: removeFromQueue_def)
    ultimately show ?thesis using o a(3) same_tasks_trans [OF a(1)] by auto
  next
    case False
    have "removeFromQueue t ?h = ?h" using False in_queue_iff [OF x, of t] by (simp add: removeFromQueue_def)
    with False x hp show ?thesis by (simp add: queue_ok_def)
  qed
qed

lemma popFromQueue_ok:
  assumes "queue_ok h" "popFromQueue h = Some (t, h')"
  shows "t = th_pq h ! 0 \<and> t \<in> set (th_pq h) \<and> queue_ok h' \<and> set (th_pq h') = set (th_pq h) - {t} \<and>
    same_tasks h h' \<and> (\<forall>u \<in> set (th_pq h). key_of h t \<le> key_of h u)"
proof -
  from assms(1) have x: "indexed h" and hp: "pq.heap (pq_Len h) h" by (simp_all add: queue_ok_def)
  from assms(2) have l: "0 < pq_Len h" and p: "pq_Pop (heap_pop pq_Less pq_Swap (pq_Len h) h) = (t, h')"
    by (auto simp: popFromQueue_def split: if_splits)
  let ?r = "heap_pop pq_Less pq_Swap (pq_Len h) h"
  note a = arrangedD [OF heap_pop_arranged [OF x l]]
  have "pq.heap (pq_Len ?r - 1) ?r" unfolding a(4) by (rule pq.heap_pop_heap [OF hp l])
  then have o: "t = th_pq ?r ! (pq_Len ?r - 1) \<and> queue_ok h' \<and> set (th_pq h') = set (th_pq ?r) - {t} \<and> same_tasks ?r h'"
    using l a(4) by (intro pq_Pop_ok [OF a(2) _ _ p]) simp_all
  have t: "t = th_pq h ! 0" using o heap_pop_last [OF l] a(4) by simp
  then have "t \<in> set (th_pq h)" using l by (simp add: pq_Len_def)
  moreover have "key_of h t \<le> key_of h u" if "u \<in> set (th_pq h)" for u
  proof -
    from that obtain k where "k < pq_Len h" "u = th_pq h ! k" by (auto simp: in_set_conv_nth pq_Len_def)
    with pq.heap_min [OF hp] t show ?thesis by (auto simp: key_at_def)
  qed
  ultimately show ?thesis using o t a(3) same_tasks_trans [OF a(1)] by auto
qed

lemma popFromQueue_None: "popFromQueue h = None \<longleftrightarrow> th_pq h = []"
  by (auto simp: popFromQueue_def pq_Len_def)

end
