(* ===== verification/RefreshSchedulerLaws.thy ===== *)
theory RefreshSchedulerLaws
  imports RefreshQueueLaws
begin

text \<open>
  What the refresh scheduler guarantees: in every state it can reach the queue is a heap with exact
  positions and the executions never exceed the limit; a tick hands tasks over in the order of their
  keys. And what it does not: a task that is due waits for a better one that is not, and a cancelled
  task can still run.
\<close>

section \<open>Reachable states\<close>

text \<open>
  The state and the executions that are under way (with multiplicity). Operations come in any order;
  which task ends next, with what answer, and when, is up to the environment.
\<close>

inductive scheduling :: "RefreshScheduler \<Rightarrow> nat list \<Rightarrow> bool" where
  new: "scheduling (NewRefreshScheduler config now) []"
| schedule: "scheduling s run \<Longrightarrow> scheduling (Schedule acc now r1 r2 s) run"
| immediate: "scheduling s run \<Longrightarrow> scheduling (ScheduleImmediate acc now s) run"
| tick: "scheduling s run \<Longrightarrow> scheduling (processScheduledTasks now s) run"
| retries: "scheduling s run \<Longrightarrow> scheduling (processRetries ids now s) run"
| exec_start: "scheduling s run \<Longrightarrow> execute_start s = Some (t, s') \<Longrightarrow> scheduling s' (t # run)"
| exec_end: "scheduling s run \<Longrightarrow> t \<in> set run \<Longrightarrow> scheduling (execute_end t err start now rnd s) (remove1 t run)"
| cancel: "scheduling s run \<Longrightarrow> scheduling (fst (CancelTask dbID s)) run"

definition refs :: "RefreshScheduler \<Rightarrow> nat set" where
  "refs s = set (th_pq (rs_heap s)) \<union> set (rs_queue s) \<union> ran (rs_tasks s)"

definition sched_ok :: "RefreshScheduler \<Rightarrow> nat list \<Rightarrow> bool" where
  "sched_ok s run \<longleftrightarrow>
     queue_ok (rs_heap s) \<and> refs s \<subseteq> {..<rs_next s} \<and> set run \<subseteq> {..<rs_next s} \<and>
     (\<forall>dbID t. rs_tasks s dbID = Some t \<longrightarrow> rt_Account (th_task (rs_heap s) t) = dbID) \<and>
     length (rs_queue s) \<le> queue_cap \<and>
     rs_semaphore s = length run \<and> rm_RunningTasks (rs_metrics s) = int (length run) \<and>
     int (length run) \<le> rc_MaxConcurrency (rs_config s)"

text \<open>Steps that change the objects and the queue in the ways the laws of the queue cover.\<close>

lemma sched_okI:
  assumes "sched_ok s run" "queue_ok (rs_heap s')" "refs s' \<subseteq> {..<rs_next s'}" "rs_next s \<le> rs_next s'"
    "\<And>dbID t. rs_tasks s' dbID = Some t \<Longrightarrow> rt_Account (th_task (rs_heap s') t) = dbID"
    "length (rs_queue s') \<le> queue_cap" "rs_semaphore s' = rs_semaphore s"
    "rm_RunningTasks (rs_metrics s') = rm_RunningTasks (rs_metrics s)" "rs_config s' = rs_config s"
  shows "sched_ok s' run"
  using assms by (auto simp: sched_ok_def)

lemma metric_fields [simp]:
  "rs_heap (add_total n s) = rs_heap s" "rs_heap (add_pending n s) = rs_heap s" "rs_heap (add_running n s) = rs_heap s"
  "rs_next (add_total n s) = rs_next s" "rs_next (add_pending n s) = rs_next s" "rs_next (add_running n s) = rs_next s"
  "rs_queue (add_total n s) = rs_queue s" "rs_queue (add_pending n s) = rs_queue s" "rs_queue (add_running n s) = rs_queue s"
  "rs_tasks (add_total n s) = rs_tasks s" "rs_tasks (add_pending n s) = rs_tasks s" "rs_tasks (add_running n s) = rs_tasks s"
  "rs_config (add_total n s) = rs_config s" "rs_config (add_pending n s) = rs_config s"
  "rs_config (add_running n s) = rs_config s"
  "rs_semaphore (add_total n s) = rs_semaphore s" "rs_semaphore (add_pending n s) = rs_semaphore s"
  "rs_semaphore (add_running n s) = rs_semaphore s"
  "rm_RunningTasks (rs_metrics (add_total n s)) = rm_RunningTasks (rs_metrics s)"
  "rm_RunningTasks (rs_metrics (add_pending n s)) = rm_RunningTasks (rs_metrics s)"
  "rm_RunningTasks (rs_metrics (add_running n s)) = rm_RunningTasks (rs_metrics s) + n"
  by (simp_all add: add_total_def add_pending_def add_running_def)

lemma on_heap_fields [simp]:
  "rs_heap (on_heap f s) = f (rs_heap s)" "rs_next (on_heap f s) = rs_next s" "rs_queue (on_heap f s) = rs_queue s"
  "rs_tasks (on_heap f s) = rs_tasks s" "rs_config (on_heap f s) = rs_config s"
  "rs_semaphore (on_heap f s) = rs_semaphore s" "rs_metrics (on_heap f s) = rs_metrics s"
  by (simp_all add: on_heap_def)

lemma sched_okD:
  assumes "sched_ok s run"
  shows "queue_ok (rs_heap s)" "t \<in> set (th_pq (rs_heap s)) \<Longrightarrow> t < rs_next s"
    "t \<in> set (rs_queue s) \<Longrightarrow> t < rs_next s" "rs_tasks s dbID = Some t \<Longrightarrow> t < rs_next s"
    "rs_tasks s dbID = Some t \<Longrightarrow> rt_Account (th_task (rs_heap s) t) = dbID"
    "length (rs_queue s) \<le> queue_cap" "t \<in> set run \<Longrightarrow> t < rs_next s"
  using assms by (auto simp: sched_ok_def refs_def ran_def subset_iff)

lemma refs_subset:
  assumes "\<And>t. t \<in> set (th_pq (rs_heap s)) \<Longrightarrow> t < n" "\<And>t. t \<in> set (rs_queue s) \<Longrightarrow> t < n"
    "\<And>dbID t. rs_tasks s dbID = Some t \<Longrightarrow> t < n"
  shows "refs s \<subseteq> {..<n}"
  using assms by (auto simp: refs_def ran_def)

text \<open>A fresh object.\<close>

lemma fresh_task_ok:
  assumes "sched_ok s run" "rt_heapIndex task = - 1"
  shows "queue_ok (set_task (rs_next s) (\<lambda>_. task) (rs_heap s))"
proof -
  let ?h = "rs_heap s" and ?h' = "set_task (rs_next s) (\<lambda>_. task) (rs_heap s)"
  from sched_okD(2) [OF assms(1)] have n: "rs_next s \<notin> set (th_pq ?h)" by blast
  have q: "queue_ok ?h" using assms(1) by (rule sched_okD)
  have same: "th_task ?h' u = th_task ?h u" if "u \<noteq> rs_next s" for u using that by (simp add: set_task_def)
  have new: "rt_heapIndex (th_task ?h' u) = rt_heapIndex (th_task ?h u)" for u
    using same [of u] q n assms(2) by (cases "u = rs_next s") (auto simp: set_task_def queue_ok_def indexed_def)
  have "pq.heap (pq_Len ?h) ?h' = pq.heap (pq_Len ?h) ?h"
  proof (rule pq.heap_cong)
    fix k assume "k < pq_Len ?h"
    then have "th_pq ?h ! k \<noteq> rs_next s" using n by (metis nth_mem pq_Len_def)
    then show "key_at ?h' k = key_at ?h k" by (simp add: key_at_def key_of_def same)
  qed
  with q new show ?thesis by (simp add: queue_ok_def indexed_def pq_Len_def)
qed

section \<open>The invariant\<close>

text \<open>One lemma per kind of change; each operation is a composition of these.\<close>

lemma set_task_id [simp]: "set_task t (\<lambda>x. x) h = h"
  by (simp add: set_task_def)

lemma set_task_account:
  "(\<And>x. rt_Account (f x) = rt_Account x) \<Longrightarrow> rt_Account (th_task (set_task t f h) u) = rt_Account (th_task h u)"
  by (simp add: set_task_def)

lemma sched_push:
  assumes "sched_ok s run" "t < rs_next s" "\<And>x. rt_heapIndex (f x) = rt_heapIndex x"
    "\<And>x. rt_Account (f x) = rt_Account x"
  shows "sched_ok (on_heap (\<lambda>h. pushToQueue t (set_task t f h)) s) run"
proof (rule sched_okI [OF assms(1)])
  note p = pushToQueue_ok [where t = t and f = f, OF sched_okD(1) [OF assms(1)] assms(3)]
  let ?s = "on_heap (\<lambda>h. pushToQueue t (set_task t f h)) s"
  show "queue_ok (rs_heap ?s)" using p by simp
  show "refs ?s \<subseteq> {..<rs_next ?s}"
    using p assms(2) sched_okD(2-4) [OF assms(1)] by (intro refs_subset) auto
  show "rs_tasks ?s dbID = Some u \<Longrightarrow> rt_Account (th_task (rs_heap ?s) u) = dbID" for dbID u
    using same_tasksD(1) [OF p [THEN conjunct2, THEN conjunct2], of u] sched_okD(5) [OF assms(1)]
    by (simp add: set_task_account assms(4))
qed (use sched_okD(6) [OF assms(1)] in simp_all)

lemma sched_remove:
  assumes "sched_ok s run" "\<And>x. rt_heapIndex (f x) = rt_heapIndex x" "\<And>x. rt_Priority (f x) = rt_Priority x"
    "\<And>x. rt_ScheduledAt (f x) = rt_ScheduledAt x" "\<And>x. rt_Account (f x) = rt_Account x"
  shows "sched_ok (on_heap (\<lambda>h. removeFromQueue t (set_task t f h)) s) run"
proof (rule sched_okI [OF assms(1)])
  note p = removeFromQueue_ok [where t = t and f = f, OF sched_okD(1) [OF assms(1)] assms(2-4)]
  let ?s = "on_heap (\<lambda>h. removeFromQueue t (set_task t f h)) s"
  show "queue_ok (rs_heap ?s)" using p by simp
  show "refs ?s \<subseteq> {..<rs_next ?s}"
    using p sched_okD(2-4) [OF assms(1)] by (intro refs_subset) auto
  show "rs_tasks ?s dbID = Some u \<Longrightarrow> rt_Account (th_task (rs_heap ?s) u) = dbID" for dbID u
    using same_tasksD(1) [OF p [THEN conjunct2, THEN conjunct2], of u] sched_okD(5) [OF assms(1)]
    by (simp add: set_task_account assms(5))
qed (use sched_okD(6) [OF assms(1)] in simp_all)

lemma queue_ok_set_task:
  assumes "queue_ok h" "\<And>x. rt_heapIndex (f x) = rt_heapIndex x" "\<And>x. rt_Priority (f x) = rt_Priority x"
    "\<And>x. rt_ScheduledAt (f x) = rt_ScheduledAt x"
  shows "queue_ok (set_task t f h)"
proof -
  have "pq.heap (pq_Len h) (set_task t f h) = pq.heap (pq_Len h) h"
    by (rule pq.heap_cong) (simp add: key_at_def key_of_def set_task_def assms)
  with assms show ?thesis by (simp add: queue_ok_def indexed_set_task pq_Len_def)
qed

lemma sched_set:
  assumes "sched_ok s run" "\<And>x. rt_heapIndex (f x) = rt_heapIndex x" "\<And>x. rt_Priority (f x) = rt_Priority x"
    "\<And>x. rt_ScheduledAt (f x) = rt_ScheduledAt x" "\<And>x. rt_Account (f x) = rt_Account x"
  shows "sched_ok (on_heap (set_task t f) s) run"
proof (rule sched_okI [OF assms(1)])
  show "queue_ok (rs_heap (on_heap (set_task t f) s))"
    using queue_ok_set_task [OF sched_okD(1) [OF assms(1)] assms(2-4)] by simp
qed (use sched_okD [OF assms(1)] assms(1) in \<open>auto simp: set_task_account assms(5) sched_ok_def refs_def\<close>)

lemma sched_new_task:
  assumes "sched_ok s run" "rt_heapIndex task = - 1" "new_task task s = (t, s')"
  shows "sched_ok s' run" "t < rs_next s'" "rs_tasks s' = rs_tasks s" "rs_config s' = rs_config s"
    "rt_Account (th_task (rs_heap s') t) = rt_Account task" "t \<notin> set (th_pq (rs_heap s'))"
proof -
  from assms(3) have t: "t = rs_next s" and s': "s' = (on_heap (set_task t (\<lambda>_. task)) s)\<lparr>rs_next := rs_next s + 1\<rparr>"
    by (auto simp: new_task_def)
  show "t < rs_next s'" "rs_tasks s' = rs_tasks s" "rs_config s' = rs_config s"
    "rt_Account (th_task (rs_heap s') t) = rt_Account task"
    by (simp_all add: t s' set_task_def)
  show "t \<notin> set (th_pq (rs_heap s'))" using sched_okD(2) [OF assms(1)] by (auto simp: t s')
  show "sched_ok s' run"
  proof (rule sched_okI [OF assms(1)])
    show "queue_ok (rs_heap s')" using fresh_task_ok [OF assms(1,2)] by (simp add: s' t)
    show "refs s' \<subseteq> {..<rs_next s'}"
      using sched_okD(2-4) [OF assms(1)] by (intro refs_subset) (auto simp: s' less_SucI)
    show "rs_tasks s' dbID = Some u \<Longrightarrow> rt_Account (th_task (rs_heap s') u) = dbID" for dbID u
      using sched_okD(4,5) [OF assms(1), of dbID u] by (auto simp: s' t set_task_def)
  qed (use sched_okD(6) [OF assms(1)] in \<open>simp_all add: s'\<close>)
qed

lemma sched_metrics [simp]:
  "sched_ok (add_total n s) run = sched_ok s run" "sched_ok (add_pending n s) run = sched_ok s run"
  by (simp_all add: sched_ok_def refs_def)

lemma sched_register:
  assumes "sched_ok s run" "t < rs_next s" "rt_Account (th_task (rs_heap s) t) = dbID"
  shows "sched_ok (s\<lparr>rs_tasks := (rs_tasks s)(dbID \<mapsto> t)\<rparr>) run"
  using assms by (auto simp: sched_ok_def refs_def ran_def)

lemma sched_unregister: "sched_ok s run \<Longrightarrow> sched_ok (s\<lparr>rs_tasks := (rs_tasks s)(dbID := None)\<rparr>) run"
  by (auto simp: sched_ok_def refs_def ran_def)

lemma sched_enqueue:
  assumes "sched_ok s run" "t < rs_next s" "length (rs_queue s) < queue_cap"
  shows "sched_ok (s\<lparr>rs_queue := rs_queue s @ [t]\<rparr>) run"
  using assms by (auto simp: sched_ok_def refs_def)

lemma Schedule_ok:
  assumes "sched_ok s run"
  shows "sched_ok (Schedule acc now r1 r2 s) run"
proof (cases "rs_tasks s (DBID acc)")
  case None
  let ?task = "no_task\<lparr>rt_Account := DBID acc, rt_ScheduledAt := calculateOptimalTime (rs_config s) acc now r1 r2,
      rt_Priority := calculatePriority acc now\<rparr>"
  obtain t s' where n: "new_task ?task s = (t, s')" by (cases "new_task ?task s")
  have "rt_heapIndex ?task = - 1" by (simp add: no_task_def)
  note k = sched_new_task [OF assms this n]
  have "sched_ok (add_pending 1 (add_total 1 (s'\<lparr>rs_tasks := (rs_tasks s')(DBID acc \<mapsto> t)\<rparr>))) run"
    using sched_register [OF k(1,2)] k(5) by simp
  from sched_push [OF this, of t "\<lambda>x. x"] k(2) None n show ?thesis by (simp add: Schedule_def Let_def k(3))
next
  case (Some t)
  then show ?thesis
    using assms by (auto simp: Schedule_def Let_def intro!: sched_push dest: sched_okD(4))
qed

lemma ScheduleImmediate_ok:
  assumes "sched_ok s run"
  shows "sched_ok (ScheduleImmediate acc now s) run"
proof -
  let ?task = "no_task\<lparr>rt_Account := DBID acc, rt_ScheduledAt := now, rt_Priority := 1000\<rparr>"
  obtain t s' where n: "new_task ?task s = (t, s')" by (cases "new_task ?task s")
  have "rt_heapIndex ?task = - 1" by (simp add: no_task_def)
  note k = sched_new_task [OF assms this n]
  let ?s = "case rs_tasks s' (DBID acc) of
      Some existing \<Rightarrow> add_pending (- 1) (on_heap (\<lambda>h. removeFromQueue existing
         (set_task existing (\<lambda>x. x\<lparr>rt_State := RefreshStateSuccess\<rparr>) h)) s')
    | None \<Rightarrow> add_pending 1 (add_total 1 s')"
  have m: "sched_ok ?s run" using k(1) by (auto intro!: sched_remove split: option.splits)
  have r: "rt_Account (th_task (rs_heap ?s) t) = DBID acc" "t < rs_next ?s"
  proof -
    show "t < rs_next ?s" using k(2) by (auto split: option.splits)
    have "rt_Account (th_task (removeFromQueue e (set_task e (\<lambda>x. x\<lparr>rt_State := RefreshStateSuccess\<rparr>) (rs_heap s'))) t) =
        rt_Account (th_task (rs_heap s') t)" for e
      using same_tasksD(1) [OF removeFromQueue_ok [OF sched_okD(1) [OF k(1)],
            of "\<lambda>x. x\<lparr>rt_State := RefreshStateSuccess\<rparr>" e, THEN conjunct2, THEN conjunct2], of t]
      by (simp add: set_task_account)
    then show "rt_Account (th_task (rs_heap ?s) t) = DBID acc"
      using k(5) by (simp split: option.splits)
  qed
  have "sched_ok (?s\<lparr>rs_tasks := (rs_tasks ?s)(DBID acc \<mapsto> t)\<rparr>) run" by (rule sched_register [OF m r(2,1)])
  with r(2) show ?thesis
    by (auto simp: ScheduleImmediate_def Let_def n k(3) intro: sched_enqueue [where s = "_\<lparr>rs_tasks := _\<rparr>", simplified])
qed


lemma sched_heap:
  assumes "sched_ok s run" "queue_ok h" "same_tasks (rs_heap s) h" "set (th_pq h) \<subseteq> set (th_pq (rs_heap s))"
  shows "sched_ok (s\<lparr>rs_heap := h\<rparr>) run"
  using assms same_tasksD(1) [OF assms(3)] by (auto simp: sched_ok_def refs_def)

lemma sched_lastBatch [simp]: "sched_ok (s\<lparr>rs_lastBatch := now\<rparr>) run = sched_ok s run"
  by (simp add: sched_ok_def refs_def)

text \<open>One round of the loop of a tick, by the ways it can go.\<close>

lemma tick_cases:
  assumes "queue_ok (rs_heap s)"
  obtains (none) "th_pq (rs_heap s) = []" "processScheduledTasks now s = s"
  | (early) "th_pq (rs_heap s) \<noteq> []" "now < rt_ScheduledAt (th_task (rs_heap s) (th_pq (rs_heap s) ! 0))"
      "processScheduledTasks now s = s"
  | (skip) t h where "popFromQueue (rs_heap s) = Some (t, h)" "rt_ScheduledAt (th_task (rs_heap s) t) \<le> now"
      "rt_State (th_task (rs_heap s) t) \<noteq> RefreshStatePending"
      "processScheduledTasks now s = processScheduledTasks now (s\<lparr>rs_heap := h\<rparr>)"
  | (hand_over) t h b where "popFromQueue (rs_heap s) = Some (t, h)" "rt_ScheduledAt (th_task (rs_heap s) t) \<le> now"
      "rt_State (th_task (rs_heap s) t) = RefreshStatePending" "length (rs_queue s) < queue_cap"
      "processScheduledTasks now s = processScheduledTasks now
         (add_pending (- 1) (s\<lparr>rs_heap := h, rs_lastBatch := b, rs_queue := rs_queue s @ [t]\<rparr>))"
  | (full) t h b where "popFromQueue (rs_heap s) = Some (t, h)" "rt_ScheduledAt (th_task (rs_heap s) t) \<le> now"
      "rt_State (th_task (rs_heap s) t) = RefreshStatePending" "queue_cap \<le> length (rs_queue s)"
      "processScheduledTasks now s = s\<lparr>rs_heap := pushToQueue t h, rs_lastBatch := b\<rparr>"
proof (cases "popFromQueue (rs_heap s)")
  case None
  then show thesis
    by (intro none) (auto simp: popFromQueue_None processScheduledTasks.simps peekQueue_def pq_Len_def)
next
  case (Some p)
  obtain t h where p: "p = (t, h)" by (cases p)
  note o = popFromQueue_ok [OF assms Some [unfolded p]]
  then have ne: "th_pq (rs_heap s) \<noteq> []" by auto
  then have peek: "peekQueue (rs_heap s) = Some t" using o by (simp add: peekQueue_def pq_Len_def)
  note step = processScheduledTasks.simps [of now s, unfolded peek Some p, simplified]
  consider "now < rt_ScheduledAt (th_task (rs_heap s) t)"
    | "rt_ScheduledAt (th_task (rs_heap s) t) \<le> now" "rt_State (th_task (rs_heap s) t) \<noteq> RefreshStatePending"
    | "rt_ScheduledAt (th_task (rs_heap s) t) \<le> now" "rt_State (th_task (rs_heap s) t) = RefreshStatePending"
      "length (rs_queue s) < queue_cap"
    | "rt_ScheduledAt (th_task (rs_heap s) t) \<le> now" "rt_State (th_task (rs_heap s) t) = RefreshStatePending"
      "queue_cap \<le> length (rs_queue s)" by linarith
  then show thesis
  proof cases
    case 1
    then show thesis using o by (intro early [OF ne]) (auto simp: step)
  next
    case 2
    then show thesis using Some p by (intro skip [of t h]) (auto simp: step)
  next
    case 3
    show thesis by (rule hand_over [OF Some [unfolded p] 3]) (use 3 in \<open>simp add: step Let_def\<close>)
  next
    case 4
    show thesis by (rule full [OF Some [unfolded p] 4]) (use 4 in \<open>simp add: step Let_def\<close>)
  qed
qed

lemma tick_pop_ok:
  assumes "sched_ok s run" "popFromQueue (rs_heap s) = Some (t, h)"
  shows "sched_ok (s\<lparr>rs_heap := h\<rparr>) run" "t < rs_next s" "same_tasks (rs_heap s) h"
proof -
  note o = popFromQueue_ok [OF sched_okD(1) [OF assms(1)] assms(2)]
  then show "sched_ok (s\<lparr>rs_heap := h\<rparr>) run" by (intro sched_heap [OF assms(1)]) auto
  from o show "t < rs_next s" using sched_okD(2) [OF assms(1)] by auto
  from o show "same_tasks (rs_heap s) h" by blast
qed

lemma tick_ok: "sched_ok s run \<Longrightarrow> sched_ok (processScheduledTasks now s) run"
proof (induction "pq_Len (rs_heap s)" arbitrary: s rule: less_induct)
  case less
  show ?case
    using sched_okD(1) [OF less.prems]
  proof (cases rule: tick_cases [where now = now])
    case (skip t h)
    note k = tick_pop_ok [OF less.prems skip(1)] popFromQueue_len [OF skip(1)]
    show ?thesis unfolding skip(4) by (rule less.hyps) (use k in auto)
  next
    case (hand_over t h b)
    note k = tick_pop_ok [OF less.prems hand_over(1)] popFromQueue_len [OF hand_over(1)]
    have "sched_ok ((s\<lparr>rs_heap := h\<rparr>)\<lparr>rs_lastBatch := b, rs_queue := rs_queue s @ [t]\<rparr>) run"
      using sched_enqueue [of "(s\<lparr>rs_heap := h\<rparr>)\<lparr>rs_lastBatch := b\<rparr>" run t] k hand_over(4) by simp
    then show ?thesis unfolding hand_over(5) using k by (intro less.hyps) auto
  next
    case (full t h b)
    note k = tick_pop_ok [OF less.prems full(1)]
    have "sched_ok (on_heap (\<lambda>h. pushToQueue t (set_task t (\<lambda>x. x) h)) (s\<lparr>rs_heap := h\<rparr>)) run"
      using k by (intro sched_push) simp_all
    then have "sched_ok ((on_heap (pushToQueue t) (s\<lparr>rs_heap := h\<rparr>))\<lparr>rs_lastBatch := b\<rparr>) run" by simp
    then show ?thesis unfolding full(5) by (simp add: on_heap_def)
  qed (use less.prems in simp_all)
qed

lemma retry_one_ok:
  assumes "sched_ok s run" "t < rs_next s"
  shows "sched_ok (retry_one now t s) run" "rs_next (retry_one now t s) = rs_next s"
proof -
  let ?f = "\<lambda>x. x\<lparr>rt_State := RefreshStatePending, rt_ScheduledAt := now\<rparr>"
  have "sched_ok (on_heap (\<lambda>h. pushToQueue t (set_task t ?f h)) s) run" using assms by (intro sched_push) simp_all
  then show "sched_ok (retry_one now t s) run"
    by (simp add: retry_one_def Let_def on_heap_def sched_ok_def refs_def add_pending_def)
  show "rs_next (retry_one now t s) = rs_next s" by (simp add: retry_one_def Let_def)
qed

lemma retry_fold_ok:
  "sched_ok s run \<Longrightarrow> \<forall>t \<in> set ts. t < rs_next s \<Longrightarrow> sched_ok (fold (retry_one now) ts s) run"
  by (induction ts arbitrary: s) (simp_all add: retry_one_ok)

lemma processRetries_ok:
  assumes "sched_ok s run"
  shows "sched_ok (processRetries ids now s) run"
  unfolding processRetries_def Let_def
  by (rule retry_fold_ok [OF assms]) (use sched_okD(4) [OF assms] in \<open>auto simp: List.map_filter_def\<close>)

lemma execute_start_ok:
  assumes "sched_ok s run" "execute_start s = Some (t, s')"
  shows "sched_ok s' (t # run)"
proof -
  from assms(2) obtain q where q: "rs_queue s = t # q" "int (rs_semaphore s) < rc_MaxConcurrency (rs_config s)"
      and s': "s' = add_running 1 (on_heap (set_task t (\<lambda>x. x\<lparr>rt_State := RefreshStateRunning\<rparr>))
        (s\<lparr>rs_queue := q, rs_semaphore := rs_semaphore s + 1\<rparr>))"
    by (auto simp: execute_start_def split: list.splits if_splits)
  have "sched_ok (on_heap (set_task t (\<lambda>x. x\<lparr>rt_State := RefreshStateRunning\<rparr>)) s) run"
    by (rule sched_set [OF assms(1)]) simp_all
  with q show ?thesis by (auto simp: s' sched_ok_def refs_def)
qed

lemma finish_task_fields [simp]:
  "rt_heapIndex (finish_task c e n r x) = rt_heapIndex x" "rt_Priority (finish_task c e n r x) = rt_Priority x"
  "rt_ScheduledAt (finish_task c e n r x) = rt_ScheduledAt x" "rt_Account (finish_task c e n r x) = rt_Account x"
  by (auto simp: finish_task_def Let_def split: option.splits)

lemma execute_end_fields:
  fixes t err start now rnd s
  defines "s' \<equiv> execute_end t err start now rnd s"
  shows "rs_heap s' = set_task t (finish_task (rs_config s) err now rnd) (rs_heap s)" "rs_next s' = rs_next s"
    "rs_queue s' = rs_queue s" "rs_config s' = rs_config s" "rs_semaphore s' = rs_semaphore s - 1"
    "rm_RunningTasks (rs_metrics s') = rm_RunningTasks (rs_metrics s) - 1"
    "rs_tasks s' = rs_tasks s \<or> (\<exists>a. rs_tasks s' = (rs_tasks s)(a := None))"
proof -
  show "rs_heap s' = set_task t (finish_task (rs_config s) err now rnd) (rs_heap s)" "rs_next s' = rs_next s"
    "rs_queue s' = rs_queue s" "rs_config s' = rs_config s" "rs_semaphore s' = rs_semaphore s - 1"
    by (simp_all add: s'_def execute_end_def Let_def)
  show "rm_RunningTasks (rs_metrics s') = rm_RunningTasks (rs_metrics s) - 1"
    by (cases err) (simp_all add: s'_def execute_end_def Let_def updateAvgDuration_def add_running_def on_heap_def)
  show "rs_tasks s' = rs_tasks s \<or> (\<exists>a. rs_tasks s' = (rs_tasks s)(a := None))"
    unfolding s'_def execute_end_def Let_def by (simp only: if_split_mem2 split: if_split) (simp, blast)
qed

lemma execute_end_ok:
  assumes "sched_ok s run" "t \<in> set run"
  shows "sched_ok (execute_end t err start now rnd s) (remove1 t run)"
proof -
  let ?s = "on_heap (set_task t (finish_task (rs_config s) err now rnd)) s"
  have k: "sched_ok ?s run" by (rule sched_set [OF assms(1)]) simp_all
  have l: "int (length (remove1 t run)) = int (length run) - 1" "length (remove1 t run) = length run - 1"
    using assms(2) length_pos_if_in_set [OF assms(2)] by (simp_all add: length_remove1 of_nat_diff Suc_leI)
  have r: "set (remove1 t run) \<subseteq> set run" by (rule set_remove1_subset)
  note f = execute_end_fields [of t err start now rnd s]
  have "ran (rs_tasks (execute_end t err start now rnd s)) \<subseteq> ran (rs_tasks s) \<and>
      (\<forall>a u. rs_tasks (execute_end t err start now rnd s) a = Some u \<longrightarrow> rs_tasks s a = Some u)"
    using f(7) by (auto simp: ran_def split: if_splits)
  with k l r f(1-6) show ?thesis by (auto simp: sched_ok_def refs_def)
qed

lemma CancelTask_ok: "sched_ok s run \<Longrightarrow> sched_ok (fst (CancelTask dbID s)) run"
  by (auto simp: CancelTask_def Let_def split: option.splits
      intro!: sched_unregister [where s = "on_heap _ _", simplified] sched_remove)

lemma new_scheduler_ok: "sched_ok (NewRefreshScheduler config now) []"
  by (simp add: sched_ok_def NewRefreshScheduler_def queue_ok_def indexed_def no_task_def refs_def pq.heap_def
      pq_Len_def Let_def)

lemma scheduling_ok: "scheduling s run \<Longrightarrow> sched_ok s run"
  by (induction rule: scheduling.induct)
    (simp_all add: new_scheduler_ok Schedule_ok ScheduleImmediate_ok tick_ok processRetries_ok execute_start_ok
      execute_end_ok CancelTask_ok)


section \<open>Properties\<close>

text \<open>
  C10. In every state the scheduler can reach, whatever the order of scheduling, ticks, retries, executions
  and cancellations, the priority queue is a heap, holds no task twice and every task knows its position
  in it, so that updating and removing by position hit the right task; the execution queue stays within
  its capacity, and the number of refreshes under way is what the semaphore and the metric say and at
  most the configured concurrency.
\<close>

theorem scheduler_state_ok:
  assumes "scheduling s run"
  shows "pq.heap (pq_Len (rs_heap s)) (rs_heap s) \<and> distinct (th_pq (rs_heap s)) \<and>
    (\<forall>t. in_queue t (rs_heap s) \<longleftrightarrow> t \<in> set (th_pq (rs_heap s))) \<and>
    (\<forall>t \<in> set (th_pq (rs_heap s)). th_pq (rs_heap s) ! nat (rt_heapIndex (th_task (rs_heap s) t)) = t) \<and>
    length (rs_queue s) \<le> queue_cap \<and>
    rs_semaphore s = length run \<and> rm_RunningTasks (rs_metrics s) = int (length run) \<and>
    int (length run) \<le> rc_MaxConcurrency (rs_config s)"
proof -
  from scheduling_ok [OF assms] have k: "sched_ok s run" .
  then have q: "queue_ok (rs_heap s)" by (rule sched_okD)
  then have x: "indexed (rs_heap s)" by (simp add: queue_ok_def)
  show ?thesis
    using k q x in_queue_iff [OF x] index_of_queued(2) [OF x] by (simp add: sched_ok_def queue_ok_def indexed_def)
qed

text \<open>Two accounts: one whose token lives for another hour, one without a known expiry.\<close>

definition acc_fresh :: account where
  "acc_fresh = zero_account\<lparr>DBID := 1, HealthTier := HealthTierHealthy, ExpiresAt := 1000 * hour\<rparr>"

definition acc_unset :: account where
  "acc_unset = zero_account\<lparr>DBID := 2, HealthTier := HealthTierWarm\<rparr>"

definition demo_scheduler :: RefreshScheduler where
  "demo_scheduler = Schedule acc_unset (999 * hour) 0 0 (Schedule acc_fresh (999 * hour) 0 0
     (NewRefreshScheduler DefaultRefreshConfig (999 * hour)))"

lemma demo_scheduling: "scheduling demo_scheduler []"
  unfolding demo_scheduler_def by (intro scheduling.intros)

lemma scheduler_state_ok_witness:
  "pq.heap (pq_Len (rs_heap demo_scheduler)) (rs_heap demo_scheduler) \<and> distinct (th_pq (rs_heap demo_scheduler))"
  using scheduler_state_ok [OF demo_scheduling] by blast

definition due :: "time \<Rightarrow> task_heap \<Rightarrow> nat \<Rightarrow> bool" where
  "due now h t \<longleftrightarrow> rt_ScheduledAt (th_task h t) \<le> now \<and> rt_State (th_task h t) = RefreshStatePending"

lemma same_tasks_due: "same_tasks h h' \<Longrightarrow> due now h' t = due now h t"
  by (simp add: due_def same_tasksD)

text \<open>The tasks a tick appends to the execution queue, against the state before it.\<close>

definition handed_over :: "time \<Rightarrow> RefreshScheduler \<Rightarrow> RefreshScheduler \<Rightarrow> nat list \<Rightarrow> bool" where
  "handed_over now s s' ts \<longleftrightarrow>
     rs_queue s' = rs_queue s @ ts \<and> sorted (map (key_of (rs_heap s)) ts) \<and> distinct ts \<and>
     set ts \<subseteq> set (th_pq (rs_heap s)) \<and> (\<forall>t \<in> set ts. due now (rs_heap s) t) \<and>
     set (th_pq (rs_heap s')) \<subseteq> set (th_pq (rs_heap s)) - set ts \<and>
     (\<forall>t \<in> set ts. \<forall>u \<in> set (th_pq (rs_heap s')). key_of (rs_heap s) t \<le> key_of (rs_heap s) u) \<and>
     same_tasks (rs_heap s) (rs_heap s') \<and>
     (th_pq (rs_heap s') = [] \<or> now < rt_ScheduledAt (th_task (rs_heap s') (th_pq (rs_heap s') ! 0)) \<or>
      queue_cap \<le> length (rs_queue s'))"

lemma handed_over_none:
  "th_pq (rs_heap s) = [] \<or> now < rt_ScheduledAt (th_task (rs_heap s) (th_pq (rs_heap s) ! 0)) \<Longrightarrow>
   handed_over now s s []"
  by (auto simp: handed_over_def)

lemma handed_over_later:
  assumes "queue_ok (rs_heap s)" "popFromQueue (rs_heap s) = Some (t, h)" "rs_heap s1 = h"
    "rs_queue s1 = rs_queue s @ qs" "qs = [] \<or> qs = [t] \<and> due now (rs_heap s) t" "handed_over now s1 s' ts"
  shows "handed_over now s s' (qs @ ts)"
proof -
  note o = popFromQueue_ok [OF assms(1,2)]
  from o have same: "same_tasks (rs_heap s) h" by blast
  have key: "key_of h = key_of (rs_heap s)" and d: "due now h = due now (rs_heap s)"
    by (simp_all add: fun_eq_iff same_tasks_key [OF same] same_tasks_due [OF same])
  from assms(6) have ts: "rs_queue s' = rs_queue s1 @ ts" "sorted (map (key_of (rs_heap s)) ts)" "distinct ts"
    "set ts \<subseteq> set (th_pq h)" "\<forall>t \<in> set ts. due now (rs_heap s) t"
    "set (th_pq (rs_heap s')) \<subseteq> set (th_pq h) - set ts"
    "\<forall>t \<in> set ts. \<forall>u \<in> set (th_pq (rs_heap s')). key_of (rs_heap s) t \<le> key_of (rs_heap s) u"
    "same_tasks h (rs_heap s')"
    "th_pq (rs_heap s') = [] \<or> now < rt_ScheduledAt (th_task (rs_heap s') (th_pq (rs_heap s') ! 0)) \<or>
      queue_cap \<le> length (rs_queue s')"
    unfolding handed_over_def assms(3) key d by blast+
  from o have h: "set (th_pq h) = set (th_pq (rs_heap s)) - {t}" "t \<in> set (th_pq (rs_heap s))"
    and low: "\<forall>u \<in> set (th_pq (rs_heap s)). key_of (rs_heap s) t \<le> key_of (rs_heap s) u" by blast+
  note same' = same_tasks_trans [OF same ts(8)]
  from assms(5) show ?thesis
  proof
    assume "qs = []"
    then show ?thesis
      unfolding handed_over_def using ts(1-7,9) h same' assms(4) by (intro conjI) auto
  next
    assume q: "qs = [t] \<and> due now (rs_heap s) t"
    have "sorted (map (key_of (rs_heap s)) (t # ts))" using ts(2,4) h low by auto
    moreover have "distinct (t # ts)" using ts(3,4) h by auto
    moreover have "\<forall>u \<in> set (th_pq (rs_heap s')). key_of (rs_heap s) t \<le> key_of (rs_heap s) u"
      using ts(6) h low by blast
    moreover have "set (th_pq (rs_heap s')) \<subseteq> set (th_pq (rs_heap s)) - set (t # ts)" "set (t # ts) \<subseteq> set (th_pq (rs_heap s))"
      using ts(4,6) h by auto
    ultimately show ?thesis
      unfolding handed_over_def using ts(1,5,7,9) same' assms(4) q by (intro conjI) simp_all
  qed
qed

lemma tick_hands_over:
  "queue_ok (rs_heap s) \<Longrightarrow> \<exists>ts. handed_over now s (processScheduledTasks now s) ts"
proof (induction "pq_Len (rs_heap s)" arbitrary: s rule: less_induct)
  case less
  show ?case
    using less.prems
  proof (cases rule: tick_cases [where now = now])
    case none
    with handed_over_none show ?thesis by metis
  next
    case early
    with handed_over_none show ?thesis by metis
  next
    case (skip t h)
    note o = popFromQueue_ok [OF less.prems skip(1)]
    let ?s = "s\<lparr>rs_heap := h\<rparr>"
    obtain ts where "handed_over now ?s (processScheduledTasks now ?s) ts"
      using less.hyps [of ?s] popFromQueue_len [OF skip(1)] o by auto
    from handed_over_later [OF less.prems skip(1) _ _ _ this, of "[]"] show ?thesis
      unfolding skip(4) by auto
  next
    case (hand_over t h b)
    note o = popFromQueue_ok [OF less.prems hand_over(1)]
    let ?s = "add_pending (- 1) (s\<lparr>rs_heap := h, rs_lastBatch := b, rs_queue := rs_queue s @ [t]\<rparr>)"
    obtain ts where "handed_over now ?s (processScheduledTasks now ?s) ts"
      using less.hyps [of ?s] popFromQueue_len [OF hand_over(1)] o by auto
    from handed_over_later [OF less.prems hand_over(1) _ _ _ this, of "[t]"] hand_over(2,3) show ?thesis
      unfolding hand_over(5) by (auto simp: due_def)
  next
    case (full t h b)
    note o = popFromQueue_ok [OF less.prems full(1)]
    have p: "queue_ok (pushToQueue t h) \<and> set (th_pq (pushToQueue t h)) = insert t (set (th_pq h)) \<and>
        same_tasks h (pushToQueue t h)"
      using pushToQueue_ok [of h "\<lambda>x. x" t] o by simp
    have "handed_over now s (s\<lparr>rs_heap := pushToQueue t h, rs_lastBatch := b\<rparr>) []"
      using o p full(4) same_tasks_trans [of "rs_heap s" h] by (auto simp: handed_over_def)
    then show ?thesis unfolding full(5) by blast
  qed
qed

text \<open>
  A tick of the schedule loop ends. It appends to the execution queue tasks that are due and pending,
  each once, in the order of priority and then of time, none worse than a task it leaves behind; and it stops
  only when nothing is left, when the best task is not due yet, or when the execution queue is full.
\<close>

theorem tick_dispatches_in_order:
  assumes "scheduling s run"
  shows "\<exists>ts. handed_over now s (processScheduledTasks now s) ts"
  by (rule tick_hands_over) (rule sched_okD(1) [OF scheduling_ok [OF assms]])

lemma tick_dispatches_in_order_witness:
  "\<exists>ts. handed_over (1000 * hour) demo_scheduler (processScheduledTasks (1000 * hour) demo_scheduler) ts"
  by (rule tick_dispatches_in_order [OF demo_scheduling])

text \<open>
  Only the best task is looked at. As long as it is not due, nothing is dispatched at all, however long
  other tasks have been due.
\<close>

theorem due_task_waits_behind_better:
  assumes "scheduling s run" "u \<in> set (th_pq (rs_heap s))" "now < rt_ScheduledAt (th_task (rs_heap s) u)"
    "\<forall>t \<in> set (th_pq (rs_heap s)). key_of (rs_heap s) u \<le> key_of (rs_heap s) t"
  shows "processScheduledTasks now s = s"
proof -
  have q: "queue_ok (rs_heap s)" by (rule sched_okD(1) [OF scheduling_ok [OF assms(1)]])
  from assms(2) have l: "0 < pq_Len (rs_heap s)" by (auto simp: pq_Len_def)
  then have z: "th_pq (rs_heap s) ! 0 \<in> set (th_pq (rs_heap s))" by (simp add: pq_Len_def)
  from assms(2) obtain k where "k < pq_Len (rs_heap s)" "u = th_pq (rs_heap s) ! k"
    by (auto simp: in_set_conv_nth pq_Len_def)
  with pq.heap_min [of "pq_Len (rs_heap s)" "rs_heap s" k] q
  have "key_of (rs_heap s) (th_pq (rs_heap s) ! 0) \<le> key_of (rs_heap s) u"
    by (simp add: queue_ok_def key_at_def)
  with assms(4) z have "key_of (rs_heap s) (th_pq (rs_heap s) ! 0) = key_of (rs_heap s) u" by (simp add: order.antisym)
  with assms(3) have "now < rt_ScheduledAt (th_task (rs_heap s) (th_pq (rs_heap s) ! 0))" by (simp add: key_of_def)
  with l show ?thesis by (simp add: processScheduledTasks.simps [of now s] peekQueue_def)
qed

text \<open>
  The account without expiry was due after 30 seconds. Ten minutes later it still waits behind the one whose
  token is to be refreshed in 45 minutes.
\<close>

lemma demo_waits:
  "th_pq (rs_heap demo_scheduler) = [0, 1] \<and>
   rt_ScheduledAt (th_task (rs_heap demo_scheduler) 1) \<le> 999 * hour + 10 * minute \<and>
   999 * hour + 10 * minute < rt_ScheduledAt (th_task (rs_heap demo_scheduler) 0) \<and>
   rt_Priority (th_task (rs_heap demo_scheduler) 1) < rt_Priority (th_task (rs_heap demo_scheduler) 0)"
  by code_simp

lemma due_task_waits_behind_better_witness:
  "rt_ScheduledAt (th_task (rs_heap demo_scheduler) 1) \<le> 999 * hour + 10 * minute \<and>
   processScheduledTasks (999 * hour + 10 * minute) demo_scheduler = demo_scheduler"
  using due_task_waits_behind_better [OF demo_scheduling, of 0 "999 * hour + 10 * minute"] demo_waits
  by (simp add: key_of_def)


lemma removeFromQueue_fields:
  "rs_queue (fst (CancelTask dbID s)) = rs_queue s" "rs_semaphore (fst (CancelTask dbID s)) = rs_semaphore s"
  "rs_config (fst (CancelTask dbID s)) = rs_config s"
  by (auto simp: CancelTask_def Let_def split: option.splits)

text \<open>
  Cancelling a task that already waits in the execution queue reports success and forgets the task, but
  the task stays in the execution queue and nobody looks at its state again: it is executed all the same.
\<close>

theorem cancelled_task_still_runs:
  assumes "rs_tasks s dbID = Some t" "rs_queue s = t # q" "rt_State (th_task (rs_heap s) t) = RefreshStatePending"
    "int (rs_semaphore s) < rc_MaxConcurrency (rs_config s)"
  shows "\<exists>s' s''. CancelTask dbID s = (s', True) \<and> rs_tasks s' dbID = None \<and>
    execute_start s' = Some (t, s'') \<and> rt_State (th_task (rs_heap s'') t) = RefreshStateRunning"
proof -
  let ?s = "fst (CancelTask dbID s)"
  have "CancelTask dbID s = (?s, True)" "rs_tasks ?s dbID = None"
    using assms(1,3) by (simp_all add: CancelTask_def Let_def)
  moreover have "execute_start ?s = Some (t, add_running 1 (on_heap (set_task t (\<lambda>x. x\<lparr>rt_State := RefreshStateRunning\<rparr>))
      (?s\<lparr>rs_queue := q, rs_semaphore := rs_semaphore ?s + 1\<rparr>)))"
    using assms(2,4) by (simp add: execute_start_def removeFromQueue_fields)
  ultimately show ?thesis by (auto simp: set_task_def)
qed

text \<open>The urgent refresh of an account goes straight to the execution queue.\<close>

lemma cancelled_task_still_runs_witness:
  "\<exists>s' s''. CancelTask 1 (ScheduleImmediate acc_fresh 0 (NewRefreshScheduler DefaultRefreshConfig 0)) = (s', True) \<and>
     rs_tasks s' 1 = None \<and> execute_start s' = Some (0, s'') \<and>
     rt_State (th_task (rs_heap s'') 0) = RefreshStateRunning"
  by (rule cancelled_task_still_runs [where q = "[]"]; code_simp)

lemma float_to_int64_bound:
  assumes "\<bar>x\<bar> \<le> of_int n" "n < 2 ^ 63"
  shows "\<bar>float_to_int64 x\<bar> \<le> n"
proof -
  let ?m = "if x < 0 then - \<lfloor>- x\<rfloor> else \<lfloor>x\<rfloor>"
  have "\<bar>?m\<bar> \<le> n"
  proof (cases "x < 0")
    case True
    then have "0 \<le> \<lfloor>- x\<rfloor>" "\<lfloor>- x\<rfloor> \<le> n" using assms(1) by (simp, linarith)
    with True show ?thesis by simp
  next
    case False
    then have "0 \<le> \<lfloor>x\<rfloor>" "\<lfloor>x\<rfloor> \<le> n" using assms(1) by (simp, linarith)
    with False show ?thesis by simp
  qed
  moreover from this assms(2) have "- (2 ^ 63) \<le> ?m" "?m < 2 ^ 63" by linarith+
  ultimately show ?thesis by (simp add: float_to_int64_def Let_def)
qed

lemma jitter_bounds:
  assumes "0 \<le> base" "base < 2 ^ 63" "0 \<le> rnd" "rnd < 1" "rc_JitterPercent config \<le> 1"
  shows "0 \<le> randomJitter config rnd base" "randomJitter config rnd base \<le> 2 * base"
proof -
  let ?j = "of_int base * rc_JitterPercent config * (2 * rnd - 1)"
  have "\<bar>float_to_int64 ?j\<bar> \<le> base" if "0 < rc_JitterPercent config"
  proof (rule float_to_int64_bound [OF _ assms(2)])
    have "\<bar>?j\<bar> = of_int base * (rc_JitterPercent config * \<bar>2 * rnd - 1\<bar>)"
      using assms(1) that by (simp add: abs_mult)
    also have "\<dots> \<le> of_int base * (1 * 1)"
      using assms that by (intro mult_left_mono mult_mono) auto
    finally show "\<bar>?j\<bar> \<le> of_int base" by simp
  qed
  then show "0 \<le> randomJitter config rnd base" "randomJitter config rnd base \<le> 2 * base"
    using assms(1) by (auto simp: randomJitter_def)
qed

lemma float_pow2: "n < 63 \<Longrightarrow> float_to_int64 (2 ^ n) = 2 ^ n"
proof -
  assume "n < 63"
  then have "(2 :: int) ^ n < 2 ^ 63" by (intro power_strict_increasing) simp_all
  moreover have "\<lfloor>(2 :: rat) ^ n\<rfloor> = 2 ^ n" by (metis floor_of_int of_int_numeral of_int_power)
  moreover have "- (2 ^ 63) \<le> (2 :: int) ^ n" by (rule order.trans [of _ 0]) simp_all
  moreover have "\<not> (2 :: rat) ^ n < 0" by (simp add: not_less)
  ultimately show ?thesis by (simp add: float_to_int64_def Let_def)
qed


text \<open>
  The delay before a retry. After the \<open>n\<close>-th failure the account waits for the base delay doubled
  \<open>n - 1\<close> times, at most five minutes, and for a jitter of at most a fifth of that, provided the product does not overflow.
\<close>

theorem retry_delay_bounds:
  assumes "1 \<le> attempts" "0 < rc_RetryBackoffBase config" "rc_JitterPercent config \<le> 1" "0 \<le> rnd" "rnd < 1"
    "rc_RetryBackoffBase config * 2 ^ nat (attempts - 1) < 2 ^ 63"
  defines "backoff \<equiv> min (rc_RetryBackoffBase config * 2 ^ nat (attempts - 1)) (5 * minute)"
  shows "now + backoff \<le> calculateRetryTime config attempts now rnd \<and>
    calculateRetryTime config attempts now rnd \<le> now + backoff + 2 * (backoff div 10)"
proof -
  let ?n = "nat (attempts - 1)" and ?b = "rc_RetryBackoffBase config"
  have "(2 :: int) ^ ?n \<le> ?b * 2 ^ ?n" using assms(2) by simp
  with assms(6) have "(2 :: int) ^ ?n < 2 ^ 63" by linarith
  then have "?n < 63" by (simp only: power_strict_increasing_iff)
  then have p: "float_to_int64 (2 ^ ?n) = 2 ^ ?n" by (rule float_pow2)
  have pos: "0 < ?b * 2 ^ ?n" using assms(2) by simp
  then have "wrap64 (?b * 2 ^ ?n) = ?b * 2 ^ ?n" using assms(6) by (simp add: wrap64_def)
  with p assms(1) have c: "calculateRetryTime config attempts now rnd =
      now + (backoff + randomJitter config rnd (go_div backoff 10))"
    by (auto simp: calculateRetryTime_def Let_def backoff_def min_def)
  have b: "0 < backoff" "backoff \<le> 5 * minute" using pos by (auto simp: backoff_def)
  then have g: "go_div backoff 10 = backoff div 10" by (simp add: go_div_nonneg)
  have "0 \<le> backoff div 10" using b by simp
  moreover have "backoff div 10 \<le> 5 * minute div 10" using b by (intro zdiv_mono1) simp_all
  then have "backoff div 10 < 2 ^ 63" by simp
  ultimately have "0 \<le> randomJitter config rnd (backoff div 10) \<and>
      randomJitter config rnd (backoff div 10) \<le> 2 * (backoff div 10)"
    using jitter_bounds assms(3-5) by blast
  then show ?thesis by (simp add: c g)
qed

lemma retry_delay_bounds_witness:
  "1 * second * 2 ^ nat (3 - 1) \<le> calculateRetryTime DefaultRefreshConfig 3 0 (1 / 2)"
  using retry_delay_bounds [of 3 DefaultRefreshConfig "1 / 2" 0] by (simp add: DefaultRefreshConfig_def)

text \<open>
  An urgent refresh of an account whose task is waiting takes two off the number of waiting tasks, although
  only one waited: the metric is negative after the first one.
\<close>

lemma urgent_refresh_miscounts:
  "rm_PendingTasks (rs_metrics (ScheduleImmediate acc_fresh 0
     (Schedule acc_fresh 0 0 0 (NewRefreshScheduler DefaultRefreshConfig 0)))) = - 1"
  by code_simp

text \<open>
  Scheduling an account again while its task waits in the execution queue puts the task into the priority
  queue as well: it is refreshed twice.
\<close>

lemma rescheduled_task_runs_twice:
  "rs_queue (processScheduledTasks minute (Schedule acc_unset 0 0 0
     (ScheduleImmediate acc_unset 0 (NewRefreshScheduler DefaultRefreshConfig 0)))) = [0, 0]"
  by code_simp

end
