(* ===== verification/ProxyPool.thy ===== *)
theory ProxyPool
  imports Upstream "HOL-Library.Word"
begin

text \<open>
  \<open>auth/proxy_pool.go\<close> and the parts of \<open>auth/proxy_pool_integration.go\<close> that compute: the pool of outbound
  proxies with health status, isolation and three selection strategies. The list \<open>healthy\<close> of the code
  points to entries of \<open>proxies\<close>; here it holds their URLs, which are unique. The outcome of a health
  check (\<open>checkProxy\<close> sends a request), random numbers and the clock are arguments. Callbacks only log.
\<close>

datatype ProxyHealthStatus = ProxyStatusHealthy | ProxyStatusUnhealthy | ProxyStatusIsolated

datatype ProxySelectionStrategy = StrategyRoundRobin | StrategyWeighted | StrategyLeastConnections

record ProxyEntry =
  pe_URL :: string
  pe_Healthy :: bool
  pe_LastCheck :: time
  pe_Latency :: duration
  pe_SuccessRate :: float64
  pe_Weight :: int
  pe_ActiveConns :: int
  pe_TotalRequests :: int
  pe_FailedRequests :: int
  pe_Status :: ProxyHealthStatus
  pe_IsolatedAt :: time
  pe_ConsecutiveFailures :: int

record ProxyStats =
  ps_URL :: string
  ps_Healthy :: bool
  ps_LastCheck :: time
  ps_Latency :: duration
  ps_LatencyMs :: float64
  ps_SuccessRate :: float64
  ps_Weight :: int
  ps_ActiveConns :: int
  ps_TotalRequests :: int
  ps_FailedRequests :: int
  ps_Status :: string
  ps_ConsecutiveFailures :: int

record HealthCheckResult =
  hr_URL :: string
  hr_Healthy :: bool
  hr_Latency :: duration
  hr_Timestamp :: time

record ProxyPoolConfig =
  pc_Strategy :: ProxySelectionStrategy
  pc_CheckInterval :: duration
  pc_Timeout :: duration
  pc_IsolationThreshold :: int
  pc_IsolationDuration :: duration
  pc_HealthCheckURL :: string

record ProxyPool =
  pp_proxies :: "ProxyEntry list"
  pp_stats :: "string \<Rightarrow> ProxyStats option"
  pp_healthy :: "string list"
  pp_strategy :: ProxySelectionStrategy
  pp_roundRobinIdx :: "64 word"
  pp_checkInterval :: duration
  pp_timeout :: duration
  pp_isolationThreshold :: int
  pp_isolationDuration :: duration
  pp_healthCheckURL :: string

definition DefaultProxyPoolConfig :: ProxyPoolConfig where
  "DefaultProxyPoolConfig =
     \<lparr>pc_Strategy = StrategyRoundRobin, pc_CheckInterval = 30 * second, pc_Timeout = 10 * second,
      pc_IsolationThreshold = 3, pc_IsolationDuration = 5 * minute,
      pc_HealthCheckURL = ''http://www.google.com/generate_204''\<rparr>"

definition NewProxyPool :: "ProxyPoolConfig option \<Rightarrow> ProxyPool" where
  "NewProxyPool config =
     (let c = (case config of None \<Rightarrow> DefaultProxyPoolConfig | Some c \<Rightarrow> c)
      in \<lparr>pp_proxies = [], pp_stats = (\<lambda>_. None), pp_healthy = [], pp_strategy = pc_Strategy c,
          pp_roundRobinIdx = 0, pp_checkInterval = pc_CheckInterval c, pp_timeout = pc_Timeout c,
          pp_isolationThreshold = pc_IsolationThreshold c, pp_isolationDuration = pc_IsolationDuration c,
          pp_healthCheckURL = pc_HealthCheckURL c\<rparr>)"

section \<open>Entries\<close>

definition usable :: "ProxyEntry \<Rightarrow> bool" where
  "usable e \<longleftrightarrow> pe_Healthy e \<and> pe_Status e = ProxyStatusHealthy"

definition rebuildHealthyList :: "ProxyPool \<Rightarrow> ProxyPool" where
  "rebuildHealthyList p = p\<lparr>pp_healthy := map pe_URL (filter usable (pp_proxies p))\<rparr>"

fun find_entry :: "string \<Rightarrow> ProxyEntry list \<Rightarrow> ProxyEntry option" where
  "find_entry url [] = None"
| "find_entry url (e # es) = (if pe_URL e = url then Some e else find_entry url es)"

definition findEntry :: "ProxyPool \<Rightarrow> string \<Rightarrow> ProxyEntry option" where
  "findEntry p url = find_entry url (pp_proxies p)"

text \<open>Writing through the pointer that \<open>findEntry\<close> returns.\<close>

fun update_entry :: "string \<Rightarrow> (ProxyEntry \<Rightarrow> ProxyEntry) \<Rightarrow> ProxyEntry list \<Rightarrow> ProxyEntry list" where
  "update_entry url f [] = []"
| "update_entry url f (e # es) = (if pe_URL e = url then f e # es else e # update_entry url f es)"

fun remove_entry :: "string \<Rightarrow> ProxyEntry list \<Rightarrow> ProxyEntry list" where
  "remove_entry url [] = []"
| "remove_entry url (e # es) = (if pe_URL e = url then es else e # remove_entry url es)"

definition new_entry :: "string \<Rightarrow> int \<Rightarrow> ProxyEntry" where
  "new_entry url weight =
     \<lparr>pe_URL = url, pe_Healthy = True, pe_LastCheck = 0, pe_Latency = 0, pe_SuccessRate = 1, pe_Weight = weight,
      pe_ActiveConns = 0, pe_TotalRequests = 0, pe_FailedRequests = 0, pe_Status = ProxyStatusHealthy,
      pe_IsolatedAt = 0, pe_ConsecutiveFailures = 0\<rparr>"

definition new_stats :: "string \<Rightarrow> int \<Rightarrow> ProxyStats" where
  "new_stats url weight =
     \<lparr>ps_URL = url, ps_Healthy = True, ps_LastCheck = 0, ps_Latency = 0, ps_LatencyMs = 0, ps_SuccessRate = 0,
      ps_Weight = weight, ps_ActiveConns = 0, ps_TotalRequests = 0, ps_FailedRequests = 0, ps_Status = ''healthy'',
      ps_ConsecutiveFailures = 0\<rparr>"

definition AddProxy :: "ProxyPool \<Rightarrow> string \<Rightarrow> int \<Rightarrow> ProxyPool" where
  "AddProxy p url weight =
     (if url = '''' then p
      else if findEntry p url \<noteq> None then p
      else rebuildHealthyList
        (p\<lparr>pp_proxies := pp_proxies p @ [new_entry url weight],
           pp_stats := (pp_stats p)(url \<mapsto> new_stats url weight)\<rparr>))"

definition RemoveProxy :: "ProxyPool \<Rightarrow> string \<Rightarrow> ProxyPool" where
  "RemoveProxy p url =
     (if findEntry p url = None then p
      else rebuildHealthyList
        (p\<lparr>pp_proxies := remove_entry url (pp_proxies p), pp_stats := (pp_stats p)(url := None)\<rparr>))"

definition on_stats :: "string \<Rightarrow> (ProxyStats \<Rightarrow> ProxyStats) \<Rightarrow> ProxyPool \<Rightarrow> ProxyPool" where
  "on_stats url f p = p\<lparr>pp_stats := (pp_stats p)(url := map_option f (pp_stats p url))\<rparr>"

definition UpdateProxyWeight :: "ProxyPool \<Rightarrow> string \<Rightarrow> int \<Rightarrow> ProxyPool" where
  "UpdateProxyWeight p url weight =
     (if findEntry p url = None then p
      else on_stats url (\<lambda>s. s\<lparr>ps_Weight := weight\<rparr>)
        (p\<lparr>pp_proxies := update_entry url (\<lambda>e. e\<lparr>pe_Weight := weight\<rparr>) (pp_proxies p)\<rparr>))"

fun LoadProxiesFromURLs :: "ProxyPool \<Rightarrow> string list \<Rightarrow> int \<Rightarrow> ProxyPool" where
  "LoadProxiesFromURLs p [] defaultWeight = p"
| "LoadProxiesFromURLs p (url # urls) defaultWeight =
     LoadProxiesFromURLs (if url \<noteq> '''' then AddProxy p url defaultWeight else p) urls defaultWeight"

section \<open>Selection\<close>

text \<open>The entries that the list \<open>healthy\<close> points to.\<close>

definition healthy_entries :: "ProxyPool \<Rightarrow> ProxyEntry list" where
  "healthy_entries p = List.map_filter (findEntry p) (pp_healthy p)"

definition selectRoundRobin :: "ProxyPool \<Rightarrow> ProxyPool \<times> ProxyEntry option" where
  "selectRoundRobin p =
     (let healthy = healthy_entries p
      in if healthy = [] then (p, None)
         else
           let idx = pp_roundRobinIdx p + 1
           in (p\<lparr>pp_roundRobinIdx := idx\<rparr>, Some (healthy ! (unat idx mod length healthy))))"

definition weight_of :: "ProxyEntry \<Rightarrow> int" where
  "weight_of e = (if pe_Weight e \<le> 0 then 1 else pe_Weight e)"

definition totalWeight :: "ProxyEntry list \<Rightarrow> int" where
  "totalWeight es = foldl (\<lambda>total e. wrap64 (total + weight_of e)) 0 es"

fun pick_weighted :: "int \<Rightarrow> int \<Rightarrow> ProxyEntry list \<Rightarrow> ProxyEntry option" where
  "pick_weighted r currentWeight [] = None"
| "pick_weighted r currentWeight (e # es) =
     (let currentWeight = wrap64 (currentWeight + weight_of e)
      in if r < currentWeight then Some e else pick_weighted r currentWeight es)"

text \<open>\<open>rnd total\<close> is the answer of \<open>rand.Int63n(total)\<close>.\<close>

definition selectWeighted :: "(int \<Rightarrow> int) \<Rightarrow> ProxyPool \<Rightarrow> ProxyEntry option" where
  "selectWeighted rnd p =
     (let healthy = healthy_entries p
      in if healthy = [] then None
         else
           let total = totalWeight healthy
           in if total \<le> 0 then Some (healthy ! 0)
              else case pick_weighted (rnd total) 0 healthy of
                  Some e \<Rightarrow> Some e
                | None \<Rightarrow> Some (last healthy))"

definition adjustedConns :: "ProxyEntry \<Rightarrow> int" where
  "adjustedConns e =
     (let successRate = (if pe_SuccessRate e \<le> 0 then 1 / 10 else pe_SuccessRate e)
      in float_to_int64 (of_int (pe_ActiveConns e) / successRate))"

fun least_connections :: "ProxyEntry option \<Rightarrow> int \<Rightarrow> ProxyEntry list \<Rightarrow> ProxyEntry option" where
  "least_connections best minConns [] = best"
| "least_connections best minConns (e # es) =
     (if adjustedConns e < minConns then least_connections (Some e) (adjustedConns e) es
      else least_connections best minConns es)"

definition selectLeastConnections :: "ProxyPool \<Rightarrow> ProxyEntry option" where
  "selectLeastConnections p =
     (let healthy = healthy_entries p
      in if healthy = [] then None else least_connections None (2 ^ 63 - 1) healthy)"

definition selectByStrategy ::
  "(int \<Rightarrow> int) \<Rightarrow> ProxySelectionStrategy \<Rightarrow> ProxyPool \<Rightarrow> ProxyPool \<times> ProxyEntry option" where
  "selectByStrategy rnd strategy p =
     (case strategy of
        StrategyWeighted \<Rightarrow> (p, selectWeighted rnd p)
      | StrategyLeastConnections \<Rightarrow> (p, selectLeastConnections p)
      | StrategyRoundRobin \<Rightarrow> selectRoundRobin p)"

definition SelectWithStrategy ::
  "(int \<Rightarrow> int) \<Rightarrow> ProxySelectionStrategy \<Rightarrow> ProxyPool \<Rightarrow> ProxyPool \<times> ProxyEntry option" where
  "SelectWithStrategy rnd strategy p =
     (if pp_healthy p = [] then (p, None) else selectByStrategy rnd strategy p)"

definition Select :: "(int \<Rightarrow> int) \<Rightarrow> ProxyPool \<Rightarrow> ProxyPool \<times> ProxyEntry option" where
  "Select rnd p = (if pp_healthy p = [] then (p, None) else selectByStrategy rnd (pp_strategy p) p)"

section \<open>Outcomes\<close>

definition statusString :: "ProxyHealthStatus \<Rightarrow> string" where
  "statusString status =
     (case status of ProxyStatusHealthy \<Rightarrow> ''healthy'' | ProxyStatusUnhealthy \<Rightarrow> ''unhealthy''
      | ProxyStatusIsolated \<Rightarrow> ''isolated'')"

definition succeed :: "ProxyEntry \<Rightarrow> ProxyEntry" where
  "succeed e =
     (let e = e\<lparr>pe_TotalRequests := pe_TotalRequests e + 1, pe_ConsecutiveFailures := 0\<rparr>;
          e = e\<lparr>pe_SuccessRate := (if pe_TotalRequests e = 1 then 1 else pe_SuccessRate e * (9 / 10) + 1 / 10)\<rparr>
      in if pe_Status e = ProxyStatusIsolated then e\<lparr>pe_Status := ProxyStatusHealthy, pe_IsolatedAt := 0\<rparr> else e)"

definition isolates :: "int \<Rightarrow> ProxyEntry \<Rightarrow> bool" where
  "isolates threshold e \<longleftrightarrow> pe_Status e \<noteq> ProxyStatusIsolated \<and> pe_ConsecutiveFailures e \<ge> threshold"

definition fail :: "int \<Rightarrow> time \<Rightarrow> ProxyEntry \<Rightarrow> ProxyEntry" where
  "fail threshold now e =
     (let e = e\<lparr>pe_TotalRequests := pe_TotalRequests e + 1, pe_FailedRequests := pe_FailedRequests e + 1,
                pe_ConsecutiveFailures := pe_ConsecutiveFailures e + 1\<rparr>;
          e = e\<lparr>pe_SuccessRate := (if pe_TotalRequests e = 1 then 0 else pe_SuccessRate e * (9 / 10))\<rparr>
      in if isolates threshold e
         then e\<lparr>pe_Status := ProxyStatusIsolated, pe_IsolatedAt := now, pe_Healthy := False\<rparr> else e)"

text \<open>The copy of the counters into the statistics, under the lock of the entry.\<close>

definition copy_counters :: "ProxyEntry \<Rightarrow> ProxyStats \<Rightarrow> ProxyStats" where
  "copy_counters e s =
     s\<lparr>ps_TotalRequests := pe_TotalRequests e, ps_FailedRequests := pe_FailedRequests e,
       ps_SuccessRate := pe_SuccessRate e, ps_Status := statusString (pe_Status e),
       ps_ConsecutiveFailures := pe_ConsecutiveFailures e\<rparr>"

definition mark :: "(ProxyEntry \<Rightarrow> ProxyEntry) \<Rightarrow> ProxyPool \<Rightarrow> string \<Rightarrow> ProxyPool" where
  "mark f p url =
     (case findEntry p url of
        None \<Rightarrow> p
      | Some e \<Rightarrow>
          rebuildHealthyList (on_stats url (copy_counters (f e))
            (p\<lparr>pp_proxies := update_entry url f (pp_proxies p)\<rparr>)))"

definition MarkSuccess :: "ProxyPool \<Rightarrow> string \<Rightarrow> ProxyPool" where
  "MarkSuccess p url = mark succeed p url"

definition MarkFailure :: "ProxyPool \<Rightarrow> string \<Rightarrow> time \<Rightarrow> ProxyPool" where
  "MarkFailure p url now = mark (fail (pp_isolationThreshold p) now) p url"

definition AcquireConnection :: "ProxyPool \<Rightarrow> string \<Rightarrow> ProxyPool \<times> bool" where
  "AcquireConnection p url =
     (case findEntry p url of
        None \<Rightarrow> (p, False)
      | Some e \<Rightarrow>
          if pe_Status e \<noteq> ProxyStatusHealthy then (p, False)
          else (p\<lparr>pp_proxies := update_entry url (\<lambda>e. e\<lparr>pe_ActiveConns := pe_ActiveConns e + 1\<rparr>) (pp_proxies p)\<rparr>, True))"

definition ReleaseConnection :: "ProxyPool \<Rightarrow> string \<Rightarrow> ProxyPool" where
  "ReleaseConnection p url =
     (case findEntry p url of
        None \<Rightarrow> p
      | Some e \<Rightarrow>
          if pe_ActiveConns e > 0
          then p\<lparr>pp_proxies := update_entry url (\<lambda>e. e\<lparr>pe_ActiveConns := pe_ActiveConns e - 1\<rparr>) (pp_proxies p)\<rparr>
          else p)"

section \<open>Health checks\<close>

definition checked :: "ProxyPool \<Rightarrow> HealthCheckResult \<Rightarrow> time \<Rightarrow> ProxyEntry \<Rightarrow> ProxyEntry" where
  "checked p result now e =
     (let e = e\<lparr>pe_LastCheck := hr_Timestamp result, pe_Latency := hr_Latency result\<rparr>
      in if hr_Healthy result then
           let e = e\<lparr>pe_Healthy := True, pe_ConsecutiveFailures := 0\<rparr>
           in if pe_Status e = ProxyStatusIsolated \<and> go_sub now (pe_IsolatedAt e) \<ge> pp_isolationDuration p
              then e\<lparr>pe_Status := ProxyStatusHealthy, pe_IsolatedAt := 0\<rparr> else e
         else
           let e = e\<lparr>pe_Healthy := False, pe_Status := ProxyStatusUnhealthy,
                     pe_ConsecutiveFailures := pe_ConsecutiveFailures e + 1\<rparr>
           in if isolates (pp_isolationThreshold p) e
              then e\<lparr>pe_Status := ProxyStatusIsolated, pe_IsolatedAt := now\<rparr> else e)"

definition copy_check :: "HealthCheckResult \<Rightarrow> ProxyEntry \<Rightarrow> ProxyStats \<Rightarrow> ProxyStats" where
  "copy_check result e s =
     s\<lparr>ps_LastCheck := hr_Timestamp result, ps_Latency := hr_Latency result,
       ps_LatencyMs := of_int (go_div (hr_Latency result) millisecond), ps_Healthy := hr_Healthy result,
       ps_Status := statusString (pe_Status e), ps_ConsecutiveFailures := pe_ConsecutiveFailures e\<rparr>"

definition processHealthCheckResult :: "ProxyPool \<Rightarrow> HealthCheckResult \<Rightarrow> time \<Rightarrow> ProxyPool" where
  "processHealthCheckResult p result now =
     (case findEntry p (hr_URL result) of
        None \<Rightarrow> p
      | Some e \<Rightarrow>
          rebuildHealthyList (on_stats (hr_URL result) (copy_check result (checked p result now e))
            (p\<lparr>pp_proxies := update_entry (hr_URL result) (checked p result now) (pp_proxies p)\<rparr>)))"

text \<open>Which answers of the checked URL count as healthy.\<close>

definition healthy_status :: "int \<Rightarrow> bool" where
  "healthy_status code \<longleftrightarrow> code \<ge> 200 \<and> code < 400"

text \<open>A round of checks: the results come back in some order.\<close>

definition HealthCheck :: "ProxyPool \<Rightarrow> HealthCheckResult list \<Rightarrow> time \<Rightarrow> ProxyPool" where
  "HealthCheck p results now = foldl (\<lambda>p result. processHealthCheckResult p result now) p results"

definition recover_one :: "duration \<Rightarrow> time \<Rightarrow> ProxyEntry \<Rightarrow> ProxyEntry" where
  "recover_one isolationDuration now e =
     (if pe_Status e = ProxyStatusIsolated \<and> \<not> is_zero (pe_IsolatedAt e)
         \<and> go_sub now (pe_IsolatedAt e) \<ge> isolationDuration
      then e\<lparr>pe_Status := ProxyStatusHealthy, pe_IsolatedAt := 0, pe_Healthy := True, pe_ConsecutiveFailures := 0\<rparr>
      else e)"

definition RecoverIsolatedProxies :: "ProxyPool \<Rightarrow> time \<Rightarrow> ProxyPool" where
  "RecoverIsolatedProxies p now =
     rebuildHealthyList (p\<lparr>pp_proxies := map (recover_one (pp_isolationDuration p) now) (pp_proxies p)\<rparr>)"

section \<open>Reports\<close>

definition count_status :: "ProxyHealthStatus \<Rightarrow> ProxyPool \<Rightarrow> int" where
  "count_status st p = int (length (filter (\<lambda>e. pe_Status e = st) (pp_proxies p)))"

record ProxyPoolStatus =
  st_Total :: int
  st_Healthy :: int
  st_Unhealthy :: int
  st_Isolated :: int

definition GetPoolStatus :: "ProxyPool \<Rightarrow> ProxyPoolStatus" where
  "GetPoolStatus p =
     (let total = int (length (pp_proxies p)); healthy = int (length (pp_healthy p));
          isolated = count_status ProxyStatusIsolated p
      in \<lparr>st_Total = total, st_Healthy = healthy, st_Unhealthy = total - healthy - isolated, st_Isolated = isolated\<rparr>)"

definition entry_stats :: "ProxyStats \<Rightarrow> ProxyEntry \<Rightarrow> ProxyStats" where
  "entry_stats s e =
     \<lparr>ps_URL = ps_URL s, ps_Healthy = pe_Healthy e, ps_LastCheck = pe_LastCheck e, ps_Latency = pe_Latency e,
      ps_LatencyMs = of_int (go_div (pe_Latency e) millisecond), ps_SuccessRate = pe_SuccessRate e,
      ps_Weight = pe_Weight e, ps_ActiveConns = pe_ActiveConns e, ps_TotalRequests = pe_TotalRequests e,
      ps_FailedRequests = pe_FailedRequests e, ps_Status = statusString (pe_Status e),
      ps_ConsecutiveFailures = pe_ConsecutiveFailures e\<rparr>"

definition GetStats :: "ProxyPool \<Rightarrow> string \<Rightarrow> ProxyStats option" where
  "GetStats p = (\<lambda>url. map_option (\<lambda>s. case findEntry p url of Some e \<Rightarrow> entry_stats s e | None \<Rightarrow> s) (pp_stats p url))"

definition IsHealthy :: "ProxyPool \<Rightarrow> string \<Rightarrow> bool" where
  "IsHealthy p url \<longleftrightarrow> url \<in> set (pp_healthy p)"

definition strategy_String :: "ProxySelectionStrategy \<Rightarrow> string" where
  "strategy_String s =
     (case s of StrategyRoundRobin \<Rightarrow> ''round_robin'' | StrategyWeighted \<Rightarrow> ''weighted''
      | StrategyLeastConnections \<Rightarrow> ''least_connections'')"

definition ParseStrategy :: "string \<Rightarrow> ProxySelectionStrategy" where
  "ParseStrategy s =
     (if s = ''weighted'' then StrategyWeighted
      else if s = ''least_connections'' then StrategyLeastConnections else StrategyRoundRobin)"

section \<open>Integration\<close>

text \<open>A row of the table of proxies, as far as it is used.\<close>

record proxy_row =
  px_URL :: string
  px_TestLatencyMs :: int

definition row_weight :: "proxy_row \<Rightarrow> int" where
  "row_weight r =
     (if px_TestLatencyMs r > 0
      then let weight = go_div 10000 (px_TestLatencyMs r + 1) in if weight < 1 then 1 else weight
      else 100)"

definition ReloadFromDB :: "ProxyPool \<Rightarrow> proxy_row list \<Rightarrow> ProxyPool" where
  "ReloadFromDB p rows =
     (let current = map pe_URL (pp_proxies p);
          p = foldl (\<lambda>p r. if px_URL r \<notin> set current then AddProxy p (px_URL r) (row_weight r) else p) p rows
      in foldl (\<lambda>p url. if url \<notin> px_URL ` set rows then RemoveProxy p url else p) p current)"

fun parse_int_loop :: "int \<Rightarrow> string \<Rightarrow> int" where
  "parse_int_loop result [] = result"
| "parse_int_loop result (c # s) =
     (let n = (of_char c :: int)
      in if 48 \<le> n \<and> n \<le> 57 then parse_int_loop (wrap64 (result * 10 + (n - 48))) s else result)"

definition parseInt :: "string \<Rightarrow> int \<Rightarrow> int" where
  "parseInt s defaultValue = (let result = parse_int_loop 0 s in if result = 0 then defaultValue else result)"

end
