(* ===== verification/ProxyPoolLaws.thy ===== *)
theory ProxyPoolLaws
  imports ProxyPool
begin

text \<open>
  What the pool of proxies guarantees: in every reachable state the list of healthy proxies is exactly
  that of the usable entries; each strategy provides the contract \<open>selector\<close>; round robin and the
  weighted choice are fair. And what it does not: a single failed check takes a proxy out for good.
\<close>

section \<open>Lists of entries\<close>

lemma find_entry_iff:
  "distinct (map pe_URL es) \<Longrightarrow> find_entry url es = Some e \<longleftrightarrow> e \<in> set es \<and> pe_URL e = url"
  by (induction es) (auto simp: image_iff)

lemma find_entry_None: "find_entry url es = None \<longleftrightarrow> url \<notin> pe_URL ` set es"
  by (induction es) auto

lemma find_entry_url: "find_entry url es = Some e \<Longrightarrow> pe_URL e = url \<and> e \<in> set es"
  by (induction es) (auto split: if_splits)

lemma update_entry_eq:
  "distinct (map pe_URL es) \<Longrightarrow> update_entry url f es = map (\<lambda>e. if pe_URL e = url then f e else e) es"
  by (induction es) (auto simp: image_iff intro!: map_idI [symmetric])

lemma update_entry_urls:
  "(\<And>e. pe_URL (f e) = pe_URL e) \<Longrightarrow> map pe_URL (update_entry url f es) = map pe_URL es"
  by (induction es) auto

lemma remove_entry_eq: "distinct (map pe_URL es) \<Longrightarrow> remove_entry url es = filter (\<lambda>e. pe_URL e \<noteq> url) es"
  by (induction es) (auto simp: image_iff intro!: filter_True [symmetric])

lemma map_filter_find:
  assumes "distinct (map pe_URL es)" "set xs \<subseteq> set es"
  shows "List.map_filter (\<lambda>u. find_entry u es) (map pe_URL xs) = xs"
  using assms(2)
proof (induction xs)
  case (Cons x xs)
  then have "find_entry (pe_URL x) es = Some x" by (simp add: find_entry_iff [OF assms(1)])
  with Cons show ?case by (simp add: map_filter_simps)
qed (simp add: map_filter_simps)

section \<open>Reachable pools\<close>

datatype pool_op =
  OpAdd string int | OpRemove string | OpWeight string int | OpSuccess string | OpFailure string time
| OpCheck HealthCheckResult time | OpRecover time | OpAcquire string | OpRelease string
| OpSelect "int \<Rightarrow> int" ProxySelectionStrategy | OpStrategy ProxySelectionStrategy | OpReload "proxy_row list"

fun pool_step :: "pool_op \<Rightarrow> ProxyPool \<Rightarrow> ProxyPool" where
  "pool_step (OpAdd url w) p = AddProxy p url w"
| "pool_step (OpRemove url) p = RemoveProxy p url"
| "pool_step (OpWeight url w) p = UpdateProxyWeight p url w"
| "pool_step (OpSuccess url) p = MarkSuccess p url"
| "pool_step (OpFailure url now) p = MarkFailure p url now"
| "pool_step (OpCheck result now) p = processHealthCheckResult p result now"
| "pool_step (OpRecover now) p = RecoverIsolatedProxies p now"
| "pool_step (OpAcquire url) p = fst (AcquireConnection p url)"
| "pool_step (OpRelease url) p = ReleaseConnection p url"
| "pool_step (OpSelect rnd strategy) p = fst (SelectWithStrategy rnd strategy p)"
| "pool_step (OpStrategy strategy) p = p\<lparr>pp_strategy := strategy\<rparr>"
| "pool_step (OpReload rows) p = ReloadFromDB p rows"

definition pool_run :: "pool_op list \<Rightarrow> ProxyPool \<Rightarrow> ProxyPool" where
  "pool_run ops p = foldl (\<lambda>p op. pool_step op p) p ops"

lemma pool_run_simps [simp]:
  "pool_run [] p = p" "pool_run (op # ops) p = pool_run ops (pool_step op p)"
  by (simp_all add: pool_run_def)

definition pool_ok :: "ProxyPool \<Rightarrow> bool" where
  "pool_ok p \<longleftrightarrow> distinct (map pe_URL (pp_proxies p)) \<and> [] \<notin> pe_URL ` set (pp_proxies p) \<and>
     pp_healthy p = map pe_URL (filter usable (pp_proxies p)) \<and> dom (pp_stats p) = pe_URL ` set (pp_proxies p)"

lemma rebuild_fields [simp]:
  "pp_proxies (rebuildHealthyList p) = pp_proxies p" "pp_stats (rebuildHealthyList p) = pp_stats p"
  "pp_healthy (rebuildHealthyList p) = map pe_URL (filter usable (pp_proxies p))"
  by (simp_all add: rebuildHealthyList_def)

lemma on_stats_fields [simp]:
  "pp_proxies (on_stats url f p) = pp_proxies p" "dom (pp_stats (on_stats url f p)) = dom (pp_stats p)"
  "pp_healthy (on_stats url f p) = pp_healthy p"
  by (auto simp: on_stats_def split: if_splits)

text \<open>A change of one entry that keeps its URL, with a rebuilt list or without a change of status.\<close>

lemma url_preserved [simp]:
  "pe_URL (succeed e) = pe_URL e" "pe_URL (fail th now e) = pe_URL e" "pe_URL (checked p r now e) = pe_URL e"
  "pe_URL (recover_one d now e) = pe_URL e"
  by (simp_all add: succeed_def fail_def checked_def recover_one_def Let_def)

lemma pool_ok_entry:
  assumes "pool_ok p" "\<And>e. pe_URL (f e) = pe_URL e"
  shows "pool_ok (rebuildHealthyList (on_stats url g (p\<lparr>pp_proxies := update_entry url f (pp_proxies p)\<rparr>)))"
proof -
  note u = update_entry_urls [of f, OF assms(2), of url "pp_proxies p"]
  then have "pe_URL ` set (update_entry url f (pp_proxies p)) = pe_URL ` set (pp_proxies p)"
    by (metis list.set_map)
  with u assms(1) show ?thesis by (simp add: pool_ok_def)
qed

lemma pool_ok_same_status:
  assumes "pool_ok p" "\<And>e. pe_URL (f e) = pe_URL e" "\<And>e. usable (f e) = usable e"
  shows "pool_ok (p\<lparr>pp_proxies := update_entry url f (pp_proxies p)\<rparr>)"
proof -
  have "distinct (map pe_URL (pp_proxies p))" using assms(1) by (simp add: pool_ok_def)
  then have "map pe_URL (filter usable (update_entry url f (pp_proxies p))) = map pe_URL (filter usable (pp_proxies p))"
    by (simp add: update_entry_eq filter_map o_def assms(2,3) if_distrib cong: if_cong)
  with pool_ok_entry [OF assms(1,2), of url "\<lambda>x. x"] show ?thesis
    using assms(1) by (simp add: pool_ok_def)
qed

lemma AddProxy_ok: "pool_ok p \<Longrightarrow> pool_ok (AddProxy p url w)"
  by (auto simp: AddProxy_def pool_ok_def findEntry_def find_entry_None new_entry_def)

lemma RemoveProxy_ok:
  assumes "pool_ok p"
  shows "pool_ok (RemoveProxy p url)"
proof -
  have d: "distinct (map pe_URL (pp_proxies p))" using assms by (simp add: pool_ok_def)
  then show ?thesis
    using assms by (auto simp: RemoveProxy_def pool_ok_def remove_entry_eq [OF d] distinct_map_filter)
qed

lemma mark_ok: "pool_ok p \<Longrightarrow> (\<And>e. pe_URL (f e) = pe_URL e) \<Longrightarrow> pool_ok (mark f p url)"
  by (auto simp: mark_def intro!: pool_ok_entry split: option.splits)

lemma recover_ok:
  assumes "pool_ok p"
  shows "pool_ok (RecoverIsolatedProxies p now)"
proof -
  have "map pe_URL (map (recover_one d now) es) = map pe_URL es" for d es by simp
  with assms show ?thesis by (simp add: RecoverIsolatedProxies_def pool_ok_def image_image o_def)
qed

lemma foldl_pool_ok:
  "(\<And>p x. pool_ok p \<Longrightarrow> pool_ok (f p x)) \<Longrightarrow> pool_ok p \<Longrightarrow> pool_ok (foldl f p xs)"
  by (induction xs arbitrary: p) auto

lemma pool_step_ok: "pool_ok p \<Longrightarrow> pool_ok (pool_step op p)"
proof (cases op)
  case (OpWeight url w)
  assume p: "pool_ok p"
  have "pool_ok (p\<lparr>pp_proxies := update_entry url (\<lambda>e. e\<lparr>pe_Weight := w\<rparr>) (pp_proxies p)\<rparr>)"
    by (rule pool_ok_same_status [OF p]) (simp_all add: usable_def)
  with p OpWeight show ?thesis by (simp add: UpdateProxyWeight_def pool_ok_def)
next
  case (OpAcquire url)
  assume p: "pool_ok p"
  have "pool_ok (p\<lparr>pp_proxies := update_entry url (\<lambda>e. e\<lparr>pe_ActiveConns := pe_ActiveConns e + 1\<rparr>) (pp_proxies p)\<rparr>)"
    by (rule pool_ok_same_status [OF p]) (simp_all add: usable_def)
  with p OpAcquire show ?thesis by (simp add: AcquireConnection_def split: option.splits)
next
  case (OpRelease url)
  assume p: "pool_ok p"
  have "pool_ok (p\<lparr>pp_proxies := update_entry url (\<lambda>e. e\<lparr>pe_ActiveConns := pe_ActiveConns e - 1\<rparr>) (pp_proxies p)\<rparr>)"
    by (rule pool_ok_same_status [OF p]) (simp_all add: usable_def)
  with p OpRelease show ?thesis by (simp add: ReleaseConnection_def split: option.splits)
next
  case (OpReload rows)
  assume p: "pool_ok p"
  show ?thesis unfolding OpReload pool_step.simps ReloadFromDB_def Let_def
    by (intro foldl_pool_ok p) (auto intro: AddProxy_ok RemoveProxy_ok)
next
  case (OpSelect rnd strategy)
  then show "pool_ok p \<Longrightarrow> ?thesis"
    by (auto simp: SelectWithStrategy_def selectByStrategy_def selectRoundRobin_def Let_def pool_ok_def
        split: ProxySelectionStrategy.splits)
next
  case (OpStrategy strategy)
  then show "pool_ok p \<Longrightarrow> ?thesis" by (simp add: pool_ok_def)
qed (auto simp: AddProxy_ok RemoveProxy_ok MarkSuccess_def MarkFailure_def mark_ok recover_ok
    processHealthCheckResult_def pool_ok_entry split: option.splits)

lemma pool_run_ok: "pool_ok p \<Longrightarrow> pool_ok (pool_run ops p)"
  by (induction ops arbitrary: p) (simp_all add: pool_step_ok)

lemma new_pool_ok: "pool_ok (NewProxyPool config)"
  by (simp add: pool_ok_def NewProxyPool_def Let_def)

lemma healthy_entries_eq:
  assumes "pool_ok p"
  shows "healthy_entries p = filter usable (pp_proxies p)"
  using assms map_filter_find [of "pp_proxies p" "filter usable (pp_proxies p)"]
  by (simp add: pool_ok_def healthy_entries_def findEntry_def [abs_def])

section \<open>Selection\<close>

text \<open>
  What the pool asks of a strategy: on a non-empty list of candidates it answers one of them, otherwise
  nothing.
\<close>

locale selector =
  fixes pick :: "'p \<Rightarrow> 'e option"
    and candidates :: "'p \<Rightarrow> 'e list"
    and fit :: "'p \<Rightarrow> bool"
  assumes some: "fit p \<Longrightarrow> candidates p \<noteq> [] \<Longrightarrow> \<exists>e \<in> set (candidates p). pick p = Some e"
    and none: "candidates p = [] \<Longrightarrow> pick p = None"
begin

lemma chosen: "fit p \<Longrightarrow> pick p = Some e \<Longrightarrow> e \<in> set (candidates p)"
  using some [of p] none [of p] by fastforce

lemma not_chosen: "fit p \<Longrightarrow> pick p = None \<longleftrightarrow> candidates p = []"
  using some [of p] none [of p] by fastforce

end

lemma pick_weighted_in: "pick_weighted r c es = Some e \<Longrightarrow> e \<in> set es"
  by (induction r c es rule: pick_weighted.induct) (auto simp: Let_def split: if_splits)

interpretation round_robin: selector "\<lambda>p. snd (selectRoundRobin p)" healthy_entries "\<lambda>_. True"
  by unfold_locales (auto simp: selectRoundRobin_def Let_def)

interpretation weighted: selector "selectWeighted rnd" healthy_entries "\<lambda>_. True" for rnd
proof
  fix p assume "healthy_entries p \<noteq> []"
  then show "\<exists>e \<in> set (healthy_entries p). selectWeighted rnd p = Some e"
    by (auto simp: selectWeighted_def Let_def intro: pick_weighted_in split: option.splits)
qed (simp add: selectWeighted_def)

text \<open>The least loaded proxy is found as long as some load is below the start value of the minimum.\<close>

definition loads_fit :: "ProxyPool \<Rightarrow> bool" where
  "loads_fit p \<longleftrightarrow> (\<forall>e \<in> set (healthy_entries p). adjustedConns e < 2 ^ 63 - 1)"

lemma least_connections_spec:
  "(\<forall>e \<in> set es. m \<le> adjustedConns e) \<and> least_connections best m es = best \<or>
   (\<exists>e \<in> set es. least_connections best m es = Some e \<and> adjustedConns e < m \<and>
      (\<forall>e' \<in> set es. adjustedConns e \<le> adjustedConns e'))"
proof (induction best m es rule: least_connections.induct)
  case (2 best m e es)
  show ?case
  proof (cases "adjustedConns e < m")
    case True
    from "2.IH"(1) [OF True] True show ?thesis by auto
  next
    case False
    from "2.IH"(2) [OF False] False show ?thesis by auto
  qed
qed simp

interpretation least: selector selectLeastConnections healthy_entries loads_fit
proof
  fix p assume "loads_fit p" "healthy_entries p \<noteq> []"
  with least_connections_spec [of "healthy_entries p" "2 ^ 63 - 1" None]
  show "\<exists>e \<in> set (healthy_entries p). selectLeastConnections p = Some e"
    by (fastforce simp: selectLeastConnections_def loads_fit_def Let_def neq_Nil_conv)
qed (simp add: selectLeastConnections_def)

lemma select_chosen:
  assumes "loads_fit p"
  shows "(snd (selectByStrategy rnd strategy p) = None \<longleftrightarrow> healthy_entries p = []) \<and>
    (\<forall>e. snd (selectByStrategy rnd strategy p) = Some e \<longrightarrow> e \<in> set (healthy_entries p))"
  using round_robin.chosen round_robin.not_chosen weighted.chosen weighted.not_chosen
    least.chosen [OF assms] least.not_chosen [OF assms]
  by (cases strategy) (auto simp: selectByStrategy_def)

section \<open>Properties\<close>

text \<open>
  Whatever happened to a pool, and with any strategy, the proxy it selects is an entry that is healthy
  and not isolated; it selects none only when there is no such entry.
\<close>

theorem selected_proxy_is_usable:
  assumes "loads_fit (pool_run ops (NewProxyPool config))"
  defines "p \<equiv> pool_run ops (NewProxyPool config)"
  shows "(snd (Select rnd p) = None \<longleftrightarrow> filter usable (pp_proxies p) = []) \<and>
    (\<forall>e. snd (Select rnd p) = Some e \<longrightarrow> e \<in> set (pp_proxies p) \<and> usable e)"
proof -
  have ok: "pool_ok p" unfolding p_def by (rule pool_run_ok [OF new_pool_ok])
  note h = healthy_entries_eq [OF ok]
  have "pp_healthy p = [] \<longleftrightarrow> filter usable (pp_proxies p) = []" using ok by (simp add: pool_ok_def)
  with select_chosen [OF assms(1), folded p_def, of rnd "pp_strategy p"] show ?thesis
    by (auto simp: Select_def h)
qed

definition demo_ops :: "pool_op list" where
  "demo_ops = [OpAdd ''http://a'' 3, OpAdd ''http://b'' 1, OpFailure ''http://b'' 5, OpFailure ''http://b'' 6,
     OpFailure ''http://b'' 7, OpStrategy StrategyLeastConnections]"

lemma demo_fit: "healthy_entries (pool_run demo_ops (NewProxyPool None)) = [new_entry ''http://a'' 3]"
  by code_simp

lemma selected_proxy_is_usable_witness:
  "snd (Select (\<lambda>_. 0) (pool_run demo_ops (NewProxyPool None))) \<noteq> None"
proof -
  have "loads_fit (pool_run demo_ops (NewProxyPool None))"
    unfolding loads_fit_def demo_fit by code_simp
  from selected_proxy_is_usable [OF this] show ?thesis
    using demo_fit healthy_entries_eq [OF pool_run_ok [OF new_pool_ok]] by simp
qed

text \<open>A run of selections with nothing in between.\<close>

fun turns :: "nat \<Rightarrow> ProxyPool \<Rightarrow> ProxyEntry list" where
  "turns 0 p = []"
| "turns (Suc k) p =
     (case selectRoundRobin p of (p, None) \<Rightarrow> turns k p | (p, Some e) \<Rightarrow> e # turns k p)"

lemma turns_eq:
  "healthy_entries p \<noteq> [] \<Longrightarrow> unat (pp_roundRobinIdx p) + k < 2 ^ 64 \<Longrightarrow>
   turns k p = map (\<lambda>i. healthy_entries p ! ((unat (pp_roundRobinIdx p) + 1 + i) mod length (healthy_entries p))) [0..<k]"
proof (induction k arbitrary: p)
  case (Suc k)
  let ?i = "pp_roundRobinIdx p" and ?p = "p\<lparr>pp_roundRobinIdx := pp_roundRobinIdx p + 1\<rparr>"
  have h: "healthy_entries ?p = healthy_entries p" by (simp add: healthy_entries_def findEntry_def [abs_def])
  have "unat (?i + 1) = (unat ?i + 1) mod 2 ^ 64" by (simp add: unat_word_ariths)
  also have "\<dots> = unat ?i + 1" by (rule mod_less) (use Suc.prems(2) in simp)
  finally have u: "unat (?i + 1) = unat ?i + 1" .
  have "turns k ?p = map (\<lambda>i. healthy_entries p ! ((unat ?i + 1 + Suc i) mod length (healthy_entries p))) [0..<k]"
    using Suc.IH [of ?p] Suc.prems h u by simp
  moreover have "[0..<Suc k] = 0 # map Suc [0..<k]" by (simp add: map_Suc_upt upt_conv_Cons del: upt_Suc)
  ultimately show ?case using Suc.prems(1) u by (simp add: selectRoundRobin_def Let_def o_def del: upt_Suc)
qed simp

text \<open>
  Round robin is fair: of as many selections in a row as there are healthy proxies, every healthy proxy
  gets exactly one (as long as the 64-bit counter does not wrap around in between).
\<close>

theorem round_robin_is_fair:
  assumes "pool_ok p" "pp_healthy p \<noteq> []" "unat (pp_roundRobinIdx p) + length (pp_healthy p) < 2 ^ 64"
  shows "distinct (turns (length (pp_healthy p)) p) \<and>
    set (turns (length (pp_healthy p)) p) = set (filter usable (pp_proxies p))"
proof -
  let ?h = "healthy_entries p" and ?u = "unat (pp_roundRobinIdx p) + 1"
  note h = healthy_entries_eq [OF assms(1)]
  have n: "length (pp_healthy p) = length ?h" and ne: "?h \<noteq> []" and d: "distinct ?h"
    using assms(1,2) h by (auto simp: pool_ok_def distinct_map)
  have l: "length ?h = card {..<length ?h}" by simp
  have t: "turns (length (pp_healthy p)) p = map (\<lambda>i. ?h ! ((?u + i) mod length ?h)) [0..<length ?h]"
    using turns_eq [OF ne assms(3)] n by simp
  have inj: "inj_on (\<lambda>i. (?u + i) mod length ?h) {0..<length ?h}"
    by (rule inj_onI, rule mod_add_inj [of ?u _ "length ?h"]) simp_all
  moreover have sub: "(\<lambda>i. (?u + i) mod length ?h) ` {0..<length ?h} \<subseteq> {0..<length ?h}" using ne by auto
  ultimately have onto: "(\<lambda>i. (?u + i) mod length ?h) ` {0..<length ?h} = {0..<length ?h}"
    by (intro endo_inj_surj) auto
  let ?f = "\<lambda>i. (?u + i) mod length ?h"
  have "inj_on ((!) ?h) (?f ` {0..<length ?h})" unfolding onto by (rule inj_on_nth [OF d]) simp
  then have "inj_on ((!) ?h \<circ> ?f) {0..<length ?h}" by (rule comp_inj_on [OF inj])
  then have "distinct (turns (length (pp_healthy p)) p)" by (simp add: t distinct_map o_def)
  moreover have "set (turns (length (pp_healthy p)) p) = (!) ?h ` ?f ` {0..<length ?h}"
    unfolding t by (simp only: set_map set_upt image_image)
  then have "set (turns (length (pp_healthy p)) p) = set ?h" unfolding onto by (simp add: nth_image)
  ultimately show ?thesis by (simp add: h)
qed


lemma round_robin_is_fair_witness:
  "distinct (turns 2 (pool_run (take 2 demo_ops) (NewProxyPool None)))"
proof -
  let ?p = "pool_run (take 2 demo_ops) (NewProxyPool None)"
  have l: "pp_healthy ?p = [''http://a'', ''http://b'']" by code_simp
  have u: "unat (pp_roundRobinIdx ?p) = 0" by code_simp
  have "distinct (turns (length (pp_healthy ?p)) ?p)"
    using round_robin_is_fair [OF pool_run_ok [OF new_pool_ok], of "take 2 demo_ops" None] l u
    by (simp del: turns.simps)
  moreover have "length (pp_healthy ?p) = 2" by (simp add: l)
  ultimately show ?thesis by (simp only:)
qed

text \<open>The interval of random numbers that falls to an entry.\<close>

definition share :: "int \<Rightarrow> ProxyEntry list \<Rightarrow> ProxyEntry \<Rightarrow> int set" where
  "share c es e = {r. c \<le> r \<and> r < c + (\<Sum>x\<leftarrow>es. weight_of x) \<and> pick_weighted r c es = Some e}"

lemma weight_pos: "0 < weight_of e"
  by (simp add: weight_of_def)

lemma weights_nonneg: "0 \<le> (\<Sum>x\<leftarrow>es. weight_of x)"
  by (rule sum_list_nonneg) (use weight_pos in \<open>auto intro: less_imp_le\<close>)

lemma wrap64_id: "0 \<le> n \<Longrightarrow> n < 2 ^ 63 \<Longrightarrow> wrap64 n = n"
  by (simp add: wrap64_def)

lemma share_card:
  "distinct es \<Longrightarrow> e \<in> set es \<Longrightarrow> 0 \<le> c \<Longrightarrow> c + (\<Sum>x\<leftarrow>es. weight_of x) < 2 ^ 63 \<Longrightarrow>
   card (share c es e) = nat (weight_of e)"
proof (induction es arbitrary: c)
  case (Cons x es)
  let ?w = "weight_of x"
  note w = weight_pos [of x] weights_nonneg [of es]
  have c: "wrap64 (c + ?w) = c + ?w" using Cons.prems w by (intro wrap64_id) simp_all
  show ?case
  proof (cases "e = x")
    case True
    with Cons.prems(1) have "e \<notin> set es" by simp
    then have "pick_weighted r (c + ?w) es \<noteq> Some e" for r using pick_weighted_in by fastforce
    with True c w have "share c (x # es) e = {c..<c + ?w}"
      by (auto simp: share_def Let_def split: if_splits)
    with True show ?thesis by simp
  next
    case False
    with Cons.prems(2) have e: "e \<in> set es" by simp
    have "share c (x # es) e = share (c + ?w) es e"
      using False c w by (auto simp: share_def add.assoc Let_def split: if_splits)
    with Cons.IH [of "c + ?w"] Cons.prems e w show ?thesis by (simp add: add.assoc)
  qed
qed simp

lemma totalWeight_eq:
  assumes "(\<Sum>x\<leftarrow>es. weight_of x) < 2 ^ 63"
  shows "totalWeight es = (\<Sum>x\<leftarrow>es. weight_of x)"
proof -
  have "0 \<le> c \<Longrightarrow> c + (\<Sum>x\<leftarrow>es. weight_of x) < 2 ^ 63 \<Longrightarrow>
      foldl (\<lambda>total e. wrap64 (total + weight_of e)) c es = c + (\<Sum>x\<leftarrow>es. weight_of x)" for c
  proof (induction es arbitrary: c)
    case (Cons x es)
    note w = weight_pos [of x] weights_nonneg [of es]
    then have "wrap64 (c + weight_of x) = c + weight_of x" using Cons.prems by (intro wrap64_id) simp_all
    with Cons.IH [of "c + weight_of x"] Cons.prems w show ?case by (simp add: add.assoc)
  qed simp
  from this [of 0] assms show ?thesis by (simp add: totalWeight_def)
qed

text \<open>
  The weighted choice is proportional: of the equally likely random numbers below the total weight,
  exactly as many select a proxy as its weight says (a weight below one counts as one), provided the total
  fits into 64 bits.
\<close>

theorem weighted_choice_is_proportional:
  assumes "pool_ok p" "e \<in> set (filter usable (pp_proxies p))"
    "(\<Sum>x\<leftarrow>filter usable (pp_proxies p). weight_of x) < 2 ^ 63"
  defines "W \<equiv> \<Sum>x\<leftarrow>filter usable (pp_proxies p). weight_of x"
  shows "card {r. 0 \<le> r \<and> r < W \<and> selectWeighted (\<lambda>_. r) p = Some e} = nat (weight_of e)"
proof -
  let ?es = "filter usable (pp_proxies p)"
  have d: "distinct ?es" using assms(1) by (auto simp: pool_ok_def distinct_map)
  have ne: "?es \<noteq> []" using assms(2) by fastforce
  obtain x xs where "?es = x # xs" using ne by (cases ?es) auto
  then have pos: "0 < W" using weight_pos [of x] weights_nonneg [of xs] by (simp add: W_def)
  note h = healthy_entries_eq [OF assms(1)]
  have pick: "pick_weighted r c es \<noteq> None"
    if "0 \<le> c" "r < c + (\<Sum>x\<leftarrow>es. weight_of x)" "es \<noteq> []" "c + (\<Sum>x\<leftarrow>es. weight_of x) < 2 ^ 63" for r c es
    using that
  proof (induction es arbitrary: c)
    case (Cons x es)
    note w = weight_pos [of x] weights_nonneg [of es]
    then have "wrap64 (c + weight_of x) = c + weight_of x" using Cons.prems by (intro wrap64_id) simp_all
    with Cons w show ?case by (cases "es = []") (auto simp: add.assoc Let_def)
  qed simp
  have "selectWeighted (\<lambda>_. r) p = Some e \<longleftrightarrow> pick_weighted r 0 ?es = Some e" if "0 \<le> r" "r < W" for r
    using pick [of 0 r ?es] that ne pos assms(3)
    by (auto simp: selectWeighted_def Let_def h totalWeight_eq [OF assms(3)] W_def split: option.splits)
  then have "{r. 0 \<le> r \<and> r < W \<and> selectWeighted (\<lambda>_. r) p = Some e} = share 0 ?es e"
    by (auto simp: share_def W_def)
  with share_card [OF d assms(2), of 0] assms(3) show ?thesis by simp
qed

lemma weighted_choice_is_proportional_witness:
  "card {r. 0 \<le> r \<and> r < 4 \<and> selectWeighted (\<lambda>_. r) (pool_run (take 2 demo_ops) (NewProxyPool None)) =
     Some (new_entry ''http://a'' 3)} = 3"
proof -
  let ?p = "pool_run (take 2 demo_ops) (NewProxyPool None)"
  have f: "filter usable (pp_proxies ?p) = [new_entry ''http://a'' 3, new_entry ''http://b'' 1]" by code_simp
  have w: "weight_of (new_entry ''http://a'' 3) = 3" "weight_of (new_entry ''http://b'' 1) = 1" by code_simp+
  show ?thesis
    using weighted_choice_is_proportional [OF pool_run_ok [OF new_pool_ok],
        of "new_entry ''http://a'' 3" "take 2 demo_ops" None]
    by (simp only: f w list.map sum_list.Cons sum_list.Nil) simp
qed

text \<open>Operations that do not report a failure of a proxy and do not take it out of the pool.\<close>

fun spares :: "string \<Rightarrow> pool_op \<Rightarrow> bool" where
  "spares url (OpFailure u now) = (u \<noteq> url)"
| "spares url (OpCheck result now) = (hr_Healthy result \<or> hr_URL result \<noteq> url)"
| "spares url (OpRemove u) = (u \<noteq> url)"
| "spares url (OpReload rows) = False"
| "spares url op = True"

definition benched :: "string \<Rightarrow> ProxyPool \<Rightarrow> bool" where
  "benched url p \<longleftrightarrow> (\<exists>e. findEntry p url = Some e \<and> pe_Status e = ProxyStatusUnhealthy)"

lemma find_update:
  "distinct (map pe_URL es) \<Longrightarrow> (\<And>e. pe_URL (f e) = pe_URL e) \<Longrightarrow>
   find_entry url (update_entry u f es) = (if u = url then map_option f (find_entry url es) else find_entry url es)"
  by (induction es) auto

lemma find_map:
  "(\<And>e. pe_URL (f e) = pe_URL e) \<Longrightarrow> find_entry url (map f es) = map_option f (find_entry url es)"
  by (induction es) auto

lemma find_append: "find_entry url (es @ [e]) = (case find_entry url es of None \<Rightarrow> if pe_URL e = url then Some e else None | Some x \<Rightarrow> Some x)"
  by (induction es) auto

lemma find_remove: "u \<noteq> url \<Longrightarrow> find_entry url (remove_entry u es) = find_entry url es"
  by (induction es) auto


lemma mark_find:
  assumes "pool_ok p" "\<And>e. pe_URL (f e) = pe_URL e"
  shows "findEntry (mark f p u) url = (if u = url then map_option f (findEntry p url) else findEntry p url)"
  using assms by (auto simp: mark_def findEntry_def pool_ok_def find_update split: option.splits)

lemma status_kept [simp]:
  "pe_Status e = ProxyStatusUnhealthy \<Longrightarrow> pe_Status (succeed e) = ProxyStatusUnhealthy"
  "pe_Status e = ProxyStatusUnhealthy \<Longrightarrow> pe_Status (recover_one d now e) = ProxyStatusUnhealthy"
  "pe_Status e = ProxyStatusUnhealthy \<Longrightarrow> hr_Healthy r \<Longrightarrow> pe_Status (checked p r now e) = ProxyStatusUnhealthy"
  by (simp_all add: succeed_def recover_one_def checked_def Let_def)

lemma spared_stays_benched:
  assumes "pool_ok p" "benched url p" "spares url op"
  shows "benched url (pool_step op p)"
proof -
  from assms(2) obtain e where e: "find_entry url (pp_proxies p) = Some e" "pe_Status e = ProxyStatusUnhealthy"
    by (auto simp: benched_def findEntry_def)
  from assms(1) have d: "distinct (map pe_URL (pp_proxies p))" by (simp add: pool_ok_def)
  note f = find_update [OF d]
  show ?thesis
  proof (cases op)
    case (OpAdd u w)
    with e show ?thesis by (auto simp: AddProxy_def benched_def findEntry_def find_append)
  next
    case (OpRemove u)
    with e assms(3) show ?thesis by (auto simp: RemoveProxy_def benched_def findEntry_def find_remove)
  next
    case (OpWeight u w)
    with e show ?thesis by (auto simp: UpdateProxyWeight_def benched_def findEntry_def f)
  next
    case (OpSuccess u)
    with e show ?thesis using mark_find [OF assms(1), of succeed] by (simp add: benched_def MarkSuccess_def findEntry_def)
  next
    case (OpFailure u now)
    with e assms(3) show ?thesis
      using mark_find [OF assms(1), of "fail (pp_isolationThreshold p) now"] by (simp add: benched_def MarkFailure_def findEntry_def)
  next
    case (OpCheck r now)
    with e assms(3) show ?thesis
      by (auto simp: processHealthCheckResult_def benched_def findEntry_def f split: option.splits)
  next
    case (OpRecover now)
    with e show ?thesis by (simp add: RecoverIsolatedProxies_def benched_def findEntry_def find_map)
  next
    case (OpAcquire u)
    with e show ?thesis by (auto simp: AcquireConnection_def benched_def findEntry_def f split: option.splits)
  next
    case (OpRelease u)
    with e show ?thesis by (auto simp: ReleaseConnection_def benched_def findEntry_def f split: option.splits)
  next
    case (OpSelect rnd strategy)
    with e show ?thesis
      by (auto simp: SelectWithStrategy_def selectByStrategy_def selectRoundRobin_def Let_def benched_def findEntry_def
          split: ProxySelectionStrategy.splits)
  next
    case (OpStrategy strategy)
    with e show ?thesis by (simp add: benched_def findEntry_def)
  next
    case (OpReload rows)
    with assms(3) show ?thesis by simp
  qed
qed

lemma benched_run:
  "pool_ok p \<Longrightarrow> benched url p \<Longrightarrow> list_all (spares url) ops \<Longrightarrow> benched url (pool_run ops p)"
  by (induction ops arbitrary: p) (simp_all add: spared_stays_benched pool_step_ok)

lemma benched_not_healthy:
  assumes "pool_ok p" "benched url p"
  shows "\<not> IsHealthy p url"
proof
  assume "IsHealthy p url"
  with assms(1) obtain x where "x \<in> set (pp_proxies p)" "usable x" "pe_URL x = url"
    by (auto simp: IsHealthy_def pool_ok_def)
  moreover from this assms(1) have "find_entry url (pp_proxies p) = Some x"
    by (simp add: find_entry_iff pool_ok_def)
  ultimately show False using assms(2) by (simp add: benched_def findEntry_def usable_def)
qed

text \<open>
  One failed health check takes a proxy out of rotation for good. Its status becomes unhealthy, and no
  sequence of passed checks, successful requests, recoveries of isolated proxies and changes of the rest of
  the pool makes it healthy again; only further failures, up to isolation, do.
\<close>

theorem one_failed_check_benches_proxy:
  assumes "pool_ok p" "findEntry p (hr_URL r) = Some e" "\<not> hr_Healthy r"
    "pe_ConsecutiveFailures e + 1 < pp_isolationThreshold p" "list_all (spares (hr_URL r)) ops"
  shows "\<not> IsHealthy (pool_run (OpCheck r now # ops) p) (hr_URL r)"
proof -
  let ?p = "processHealthCheckResult p r now"
  have "pe_Status (checked p r now e) = ProxyStatusUnhealthy"
    using assms(3,4) by (simp add: checked_def isolates_def Let_def)
  then have b: "benched (hr_URL r) ?p"
    using assms(1,2) by (simp add: processHealthCheckResult_def benched_def findEntry_def find_update pool_ok_def)
  have ok: "pool_ok ?p" using pool_step_ok [OF assms(1), of "OpCheck r now"] by simp
  from benched_not_healthy [OF pool_run_ok [OF ok] benched_run [OF ok b assms(5)]] show ?thesis by simp
qed

definition failed_check :: HealthCheckResult where
  "failed_check = \<lparr>hr_URL = ''http://a'', hr_Healthy = False, hr_Latency = 0, hr_Timestamp = 0\<rparr>"

definition passed_check :: HealthCheckResult where
  "passed_check = \<lparr>hr_URL = ''http://a'', hr_Healthy = True, hr_Latency = 0, hr_Timestamp = 0\<rparr>"

lemma one_failed_check_benches_proxy_witness:
  "\<not> IsHealthy (pool_run [OpCheck failed_check 0, OpCheck passed_check minute, OpSuccess ''http://a'',
     OpRecover hour, OpCheck passed_check (2 * hour)] (pool_run (take 2 demo_ops) (NewProxyPool None))) ''http://a''"
proof -
  let ?p = "pool_run (take 2 demo_ops) (NewProxyPool None)"
  have u: "hr_URL failed_check = ''http://a''" by code_simp
  have "findEntry ?p (hr_URL failed_check) = Some (new_entry ''http://a'' 3)" "\<not> hr_Healthy failed_check"
    "pe_ConsecutiveFailures (new_entry ''http://a'' 3) + 1 < pp_isolationThreshold ?p"
    "list_all (spares (hr_URL failed_check)) [OpCheck passed_check minute, OpSuccess ''http://a'',
       OpRecover hour, OpCheck passed_check (2 * hour)]" by code_simp+
  from one_failed_check_benches_proxy [OF pool_run_ok [OF new_pool_ok] this] show ?thesis unfolding u .
qed

text \<open>Parsing the name of a strategy gives it back; an unknown name means round robin.\<close>

lemma strategy_roundtrip: "ParseStrategy (strategy_String s) = s"
  by (cases s) (simp_all add: ParseStrategy_def strategy_String_def)

end
