(* ===== verification/Translation.thy ===== *)
theory Translation
  imports Dispatch
begin

text \<open>
  \<open>proxy/anthropic.go\<close> and \<open>proxy/translator.go\<close>: what the client of another API sees of an upstream
  stream. An upstream event is what the code reads of it through the JSON library \<open>gjson\<close> (third party);
  \<open>json.Unmarshal\<close> into an object and \<open>json.Marshal\<close> are arguments. An event for the client is a value
  of a datatype; its serialisation is not modelled, nor is the storing of generated images.
\<close>

section \<open>Upstream events\<close>

record codex_event =
  ce_type :: string
  ce_item_type :: string
  ce_item_id :: string
  ce_call_id :: string
  ce_name :: string
  ce_item_result :: string
  ce_delta :: string
  ce_delta_is_string :: bool
  ce_delta_item_id :: string
  ce_partial_image :: string
  ce_usage :: "(int \<times> int \<times> int \<times> int) option" \<comment> \<open>input, output, reasoning and cached tokens\<close>
  ce_status :: string
  ce_incomplete_reason :: string
  ce_error_message :: string

definition no_event :: codex_event where
  "no_event = \<lparr>ce_type = '''', ce_item_type = '''', ce_item_id = '''', ce_call_id = '''', ce_name = '''',
     ce_item_result = '''', ce_delta = '''', ce_delta_is_string = False, ce_delta_item_id = '''',
     ce_partial_image = '''', ce_usage = None, ce_status = '''', ce_incomplete_reason = '''', ce_error_message = ''''\<rparr>"

definition isFirstTokenEvent :: "string \<Rightarrow> bool" where
  "isFirstTokenEvent eventType =
     (if eventType = '''' then False
      else if eventType \<in> set [''response.created'', ''response.in_progress'', ''response.completed'', ''response.failed'']
      then False else True)"

section \<open>Names\<close>

definition fc_prefix :: string where "fc_prefix = ''fc_''"

definition toCodexCallID :: "string \<Rightarrow> string" where
  "toCodexCallID anthropicID = (if has_prefix anthropicID fc_prefix then anthropicID else fc_prefix @ anthropicID)"

definition fromCodexCallID :: "string \<Rightarrow> string" where
  "fromCodexCallID codexID =
     (if has_prefix codexID fc_prefix then
        let after = drop (length fc_prefix) codexID
        in if has_prefix after ''toolu_'' \<or> has_prefix after ''call_'' then after else codexID
      else codexID)"

text \<open>\<open>thinking\<close>: its type and its budget, if there is one.\<close>

definition resolveReasoningEffort :: "(string \<times> int) option \<Rightarrow> string" where
  "resolveReasoningEffort thinking =
     (case thinking of
        None \<Rightarrow> ''high''
      | Some (ty, budget) \<Rightarrow>
          if ty \<noteq> ''enabled'' then ''high''
          else if budget \<le> 0 then ''high''
          else if budget < 2048 then ''low''
          else if budget < 8192 then ''medium''
          else if budget < 20000 then ''high''
          else ''xhigh'')"

definition defaultAnthropicModelMap :: "(string \<times> string) list" where
  "defaultAnthropicModelMap =
     [(''claude-opus-4-6'', ''gpt-5.4''), (''claude-opus-4-6-20250610'', ''gpt-5.4''),
      (''claude-haiku-4-5-20251001'', ''gpt-5.4-mini''), (''claude-haiku-4-5'', ''gpt-5.4-mini''),
      (''claude-sonnet-4-6'', ''gpt-5.3-codex''), (''claude-sonnet-4-5-20250929'', ''gpt-5.2-codex''),
      (''claude-opus-4-5-20251101'', ''gpt-5.3-codex''), (''claude-sonnet-4-5-20250514'', ''gpt-5.4''),
      (''claude-sonnet-4-5'', ''gpt-5.4''), (''claude-sonnet-4.5'', ''gpt-5.4''),
      (''claude-sonnet-4-20250514'', ''gpt-5.4''), (''claude-sonnet-4'', ''gpt-5.4''),
      (''claude-opus-4-20250514'', ''gpt-5.4''), (''claude-opus-4'', ''gpt-5.4''),
      (''claude-3-5-sonnet-20241022'', ''gpt-5.4''), (''claude-3-5-haiku-20241022'', ''gpt-5.4-mini'')]"

text \<open>
  \<open>dynamic\<close> is the parsed mapping of the settings, \<open>None\<close> when it is empty or not an object of strings.
\<close>

definition resolveAnthropicModel :: "string list \<Rightarrow> (string \<Rightarrow> string option) option \<Rightarrow> string \<Rightarrow> string" where
  "resolveAnthropicModel SupportedModels dynamic model =
     (case (case dynamic of None \<Rightarrow> None
            | Some m \<Rightarrow> (case m model of None \<Rightarrow> None | Some mapped \<Rightarrow> if mapped \<noteq> '''' then Some mapped else None)) of
        Some mapped \<Rightarrow> mapped
      | None \<Rightarrow>
          case map_of defaultAnthropicModelMap model of
            Some mapped \<Rightarrow> mapped
          | None \<Rightarrow>
              if model \<in> set SupportedModels then model
              else
                let lower = to_lower model
                in if contains lower ''haiku'' then ''gpt-5.4-mini''
                   else if contains lower ''claude'' then ''gpt-5.4''
                   else case SupportedModels of m # _ \<Rightarrow> m | [] \<Rightarrow> ''gpt-5.4'')"

section \<open>Arguments of a tool call\<close>

text \<open>An object is the list of its fields with the bytes of their values.\<close>

type_synonym json_object = "(string \<times> string) list"

record json_codec =
  jc_unmarshal :: "string \<Rightarrow> json_object option"
  jc_marshal :: "json_object \<Rightarrow> string option"

definition empty_field :: "string \<times> string \<Rightarrow> bool" where
  "empty_field kv = (let s = trim_space (snd kv) in s = [CHR 0x22, CHR 0x22] \<or> s = ''null'')"

definition sanitizeToolInputJSON :: "json_codec \<Rightarrow> string \<Rightarrow> string" where
  "sanitizeToolInputJSON json raw =
     (let raw = trim_space raw
      in if raw = '''' then raw
         else case jc_unmarshal json raw of
           None \<Rightarrow> raw
         | Some obj \<Rightarrow>
             if \<not> list_ex empty_field obj then raw
             else case jc_marshal json (filter (\<lambda>kv. \<not> empty_field kv) obj) of
               None \<Rightarrow> raw
             | Some out \<Rightarrow> out)"

section \<open>Anthropic stream\<close>

datatype anthropic_block = TextBlock | ThinkingBlock | ToolUseBlock string string

datatype anthropic_delta = TextDelta string | ThinkingDelta string | InputJsonDelta string

record anthropic_usage =
  au_InputTokens :: int
  au_OutputTokens :: int
  au_CacheReadInputTokens :: int

datatype anthropic_event =
  MessageStart string string
| BlockStart int anthropic_block
| BlockDelta int anthropic_delta
| BlockStop int
| MessageDelta string anthropic_usage
| MessageStop

record anthropicStreamTranslator =
  at_model :: string
  at_responseID :: string
  at_messageStartSent :: bool
  at_contentBlockIndex :: int
  at_contentBlockOpen :: bool
  at_currentBlockType :: string
  at_currentToolUseID :: string
  at_currentToolUseName :: string
  at_currentToolInputBuffer :: string
  at_hasToolUse :: bool
  at_inputTokens :: int
  at_outputTokens :: int
  at_cachedTokens :: int

text \<open>\<open>uuid\<close> is the random identifier of the message.\<close>

definition newAnthropicStreamTranslator :: "string \<Rightarrow> string \<Rightarrow> anthropicStreamTranslator" where
  "newAnthropicStreamTranslator uuid model =
     \<lparr>at_model = model, at_responseID = ''msg_'' @ take 24 uuid, at_messageStartSent = False, at_contentBlockIndex = 0,
      at_contentBlockOpen = False, at_currentBlockType = '''', at_currentToolUseID = '''', at_currentToolUseName = '''',
      at_currentToolInputBuffer = '''', at_hasToolUse = False, at_inputTokens = 0, at_outputTokens = 0,
      at_cachedTokens = 0\<rparr>"

type_synonym anthropic_step = "anthropicStreamTranslator \<times> anthropic_event list"

text \<open>Run one step and then another; the events are appended.\<close>

definition andThen ::
  "anthropic_step \<Rightarrow> (anthropicStreamTranslator \<Rightarrow> anthropic_step) \<Rightarrow> anthropic_step" where
  "andThen r f = (let (t, evs) = r; (t', evs') = f t in (t', evs @ evs'))"

definition handleCreated :: "anthropicStreamTranslator \<Rightarrow> anthropic_step" where
  "handleCreated t =
     (if at_messageStartSent t then (t, [])
      else (t\<lparr>at_messageStartSent := True\<rparr>, [MessageStart (at_responseID t) (at_model t)]))"

definition closeCurrentBlock :: "json_codec \<Rightarrow> anthropicStreamTranslator \<Rightarrow> anthropic_step" where
  "closeCurrentBlock json t =
     (if \<not> at_contentBlockOpen t then (t, [])
      else
        let t = t\<lparr>at_contentBlockOpen := False\<rparr>; idx = at_contentBlockIndex t - 1
        in if at_currentBlockType t = ''tool_use'' \<and> at_currentToolInputBuffer t \<noteq> ''''
           then
             let cleaned = sanitizeToolInputJSON json (at_currentToolInputBuffer t)
             in (t\<lparr>at_currentToolInputBuffer := ''''\<rparr>,
                 (if cleaned \<noteq> '''' then [BlockDelta idx (InputJsonDelta cleaned)] else []) @ [BlockStop idx])
           else (t, [BlockStop idx]))"

text \<open>The lines that open a block: the next index, the type, the event.\<close>

definition openBlock :: "string \<Rightarrow> anthropic_block \<Rightarrow> anthropicStreamTranslator \<Rightarrow> anthropic_step" where
  "openBlock ty block t =
     (t\<lparr>at_contentBlockIndex := at_contentBlockIndex t + 1, at_contentBlockOpen := True, at_currentBlockType := ty\<rparr>,
      [BlockStart (at_contentBlockIndex t) block])"

definition handleOutputItemAdded :: "json_codec \<Rightarrow> codex_event \<Rightarrow> anthropicStreamTranslator \<Rightarrow> anthropic_step" where
  "handleOutputItemAdded json data t =
     (let r = handleCreated t
      in if ce_item_type data = ''reasoning''
         then andThen (andThen r (closeCurrentBlock json)) (openBlock ''thinking'' ThinkingBlock)
         else if ce_item_type data = ''function_call''
         then
           let callID = fromCodexCallID (ce_call_id data); name = ce_name data
           in andThen (andThen (andThen r (closeCurrentBlock json)) (openBlock ''tool_use'' (ToolUseBlock callID name)))
                (\<lambda>t. (t\<lparr>at_currentToolUseID := callID, at_currentToolUseName := name, at_hasToolUse := True\<rparr>, []))
         else r)"

text \<open>The lines that open a block of the delta's type unless it is the one that is open.\<close>

definition ensureBlock :: "json_codec \<Rightarrow> string \<Rightarrow> anthropic_block \<Rightarrow> anthropicStreamTranslator \<Rightarrow> anthropic_step" where
  "ensureBlock json ty block t =
     (if \<not> at_contentBlockOpen t \<or> at_currentBlockType t \<noteq> ty
      then andThen (closeCurrentBlock json t) (openBlock ty block)
      else (t, []))"

definition sendDelta :: "anthropic_delta \<Rightarrow> anthropicStreamTranslator \<Rightarrow> anthropic_step" where
  "sendDelta d t = (t, [BlockDelta (at_contentBlockIndex t - 1) d])"

definition handleDelta ::
  "json_codec \<Rightarrow> string \<Rightarrow> anthropic_block \<Rightarrow> (string \<Rightarrow> anthropic_delta) \<Rightarrow> codex_event
     \<Rightarrow> anthropicStreamTranslator \<Rightarrow> anthropic_step" where
  "handleDelta json ty block mk data t =
     (let delta = ce_delta data
      in if delta = '''' then (t, [])
         else andThen (andThen (handleCreated t) (ensureBlock json ty block)) (sendDelta (mk delta)))"

definition handleTextDelta :: "json_codec \<Rightarrow> codex_event \<Rightarrow> anthropicStreamTranslator \<Rightarrow> anthropic_step" where
  "handleTextDelta json = handleDelta json ''text'' TextBlock TextDelta"

definition handleThinkingDelta :: "json_codec \<Rightarrow> codex_event \<Rightarrow> anthropicStreamTranslator \<Rightarrow> anthropic_step" where
  "handleThinkingDelta json = handleDelta json ''thinking'' ThinkingBlock ThinkingDelta"

definition handleToolInputDelta :: "codex_event \<Rightarrow> anthropicStreamTranslator \<Rightarrow> anthropic_step" where
  "handleToolInputDelta data t =
     (let delta = ce_delta data
      in if delta = '''' then (t, [])
         else (t\<lparr>at_currentToolInputBuffer := at_currentToolInputBuffer t @ delta\<rparr>, []))"

definition usage_of :: "anthropicStreamTranslator \<Rightarrow> anthropic_usage" where
  "usage_of t = \<lparr>au_InputTokens = at_inputTokens t, au_OutputTokens = at_outputTokens t,
     au_CacheReadInputTokens = at_cachedTokens t\<rparr>"

definition handleCompleted :: "json_codec \<Rightarrow> codex_event \<Rightarrow> anthropicStreamTranslator \<Rightarrow> anthropic_step" where
  "handleCompleted json data t =
     andThen (andThen (handleCreated t) (closeCurrentBlock json))
       (\<lambda>t.
         let t = (case ce_usage data of
                    None \<Rightarrow> t
                  | Some (i, out, _, cached) \<Rightarrow> t\<lparr>at_inputTokens := i, at_outputTokens := out, at_cachedTokens := cached\<rparr>);
             stopReason = (if ce_status data = ''incomplete'' \<and> ce_incomplete_reason data = ''max_output_tokens''
                           then ''max_tokens'' else ''end_turn'');
             stopReason = (if at_hasToolUse t \<and> stopReason = ''end_turn'' then ''tool_use'' else stopReason)
         in (t, [MessageDelta stopReason (usage_of t), MessageStop]))"

definition no_usage :: anthropic_usage where
  "no_usage = \<lparr>au_InputTokens = 0, au_OutputTokens = 0, au_CacheReadInputTokens = 0\<rparr>"

definition handleFailed :: "json_codec \<Rightarrow> anthropicStreamTranslator \<Rightarrow> anthropic_step" where
  "handleFailed json t =
     andThen (andThen (handleCreated t) (closeCurrentBlock json))
       (\<lambda>t. (t, [MessageDelta ''end_turn'' no_usage, MessageStop]))"

definition finalize :: "json_codec \<Rightarrow> anthropicStreamTranslator \<Rightarrow> anthropic_step" where
  "finalize json t =
     andThen (andThen (handleCreated t) (closeCurrentBlock json))
       (\<lambda>t. (t, [MessageDelta ''end_turn'' (no_usage\<lparr>au_InputTokens := at_inputTokens t,
                   au_OutputTokens := at_outputTokens t\<rparr>), MessageStop]))"

definition translateEvent :: "json_codec \<Rightarrow> codex_event \<Rightarrow> anthropicStreamTranslator \<Rightarrow> anthropic_step" where
  "translateEvent json data t =
     (let ty = ce_type data
      in if ty = ''response.created'' then handleCreated t
         else if ty = ''response.output_item.added'' then handleOutputItemAdded json data t
         else if ty = ''response.output_text.delta'' then handleTextDelta json data t
         else if ty \<in> set [''response.reasoning_summary_text.delta'', ''response.reasoning_text.delta'']
         then handleThinkingDelta json data t
         else if ty = ''response.function_call_arguments.delta'' then handleToolInputDelta data t
         else if ty \<in> set [''response.output_text.done'', ''response.reasoning_summary_text.done'',
                           ''response.reasoning_text.done''] then closeCurrentBlock json t
         else if ty = ''response.output_item.done'' then closeCurrentBlock json t
         else if ty = ''response.completed'' then handleCompleted json data t
         else if ty = ''response.failed'' then handleFailed json t
         else (t, []))"

text \<open>
  \<open>proxy/handler_anthropic.go\<close>: the loop that relays a stream, as long as writing to the client works.
  The result is what the client gets, and the capacity error that makes the caller retry.
\<close>

definition terminal :: "codex_event \<Rightarrow> bool" where
  "terminal e \<longleftrightarrow> ce_type e = ''response.completed'' \<or> ce_type e = ''response.failed''"

fun anthropic_relay ::
  "json_codec \<Rightarrow> anthropicStreamTranslator \<Rightarrow> bool \<Rightarrow> codex_event list \<Rightarrow> anthropic_event list \<times> string option" where
  "anthropic_relay json t wroteAnyBody [] = (snd (finalize json t), None)"
| "anthropic_relay json t wroteAnyBody (e # es) =
     (if ce_type e = ''response.failed'' \<and> \<not> wroteAnyBody \<and> isCapacityError (ce_error_message e)
      then ([], Some (ce_error_message e))
      else
        let (t, evs) = translateEvent json e t
        in if terminal e then (evs, None)
           else let (rest, err) = anthropic_relay json t (wroteAnyBody \<or> evs \<noteq> []) es in (evs @ rest, err))"

section \<open>Anthropic response without streaming\<close>

text \<open>The output items of the completed response, as far as they are read.\<close>

datatype output_item =
  ReasoningItem "(string \<times> string) list"         \<comment> \<open>type and text of the parts of the summary\<close>
| MessageItem "(string \<times> string) list"           \<comment> \<open>type and text of the parts of the content\<close>
| FunctionCallItem string string string           \<comment> \<open>call id, name, arguments\<close>
| OtherItem string

datatype content_block = ThinkingContent string | TextContent string | ToolUseContent string string string

definition summary_text :: "(string \<times> string) list \<Rightarrow> string" where
  "summary_text parts = concat (map snd (filter (\<lambda>p. fst p = ''summary_text'') parts))"

definition text_parts :: "(string \<times> string) list \<Rightarrow> content_block list" where
  "text_parts parts = map (TextContent \<circ> snd) (filter (\<lambda>p. fst p = ''output_text'' \<and> snd p \<noteq> '''') parts)"

text \<open>The content so far, and whether the last block is a tool call.\<close>

fun add_item :: "json_codec \<Rightarrow> content_block list \<times> bool \<Rightarrow> output_item \<Rightarrow> content_block list \<times> bool" where
  "add_item json (content, lastBlockIsToolUse) (ReasoningItem parts) =
     (if summary_text parts \<noteq> '''' then (content @ [ThinkingContent (summary_text parts)], False)
      else (content, lastBlockIsToolUse))"
| "add_item json (content, lastBlockIsToolUse) (MessageItem parts) =
     (content @ text_parts parts, if text_parts parts \<noteq> [] then False else lastBlockIsToolUse)"
| "add_item json (content, lastBlockIsToolUse) (FunctionCallItem call_id name args) =
     (let cleaned = sanitizeToolInputJSON json args; args = (if cleaned \<noteq> '''' then cleaned else ''{}'')
      in (content @ [ToolUseContent (fromCodexCallID call_id) name args], True))"
| "add_item json (content, lastBlockIsToolUse) (OtherItem ty) = (content, lastBlockIsToolUse)"

definition buildAnthropicResponseFromCompleted ::
  "json_codec \<Rightarrow> output_item list option \<Rightarrow> codex_event \<Rightarrow> content_block list \<times> string \<times> anthropic_usage" where
  "buildAnthropicResponseFromCompleted json outputs data =
     (case outputs of
        None \<Rightarrow> ([], '''', no_usage)
      | Some items \<Rightarrow>
          let (content, lastBlockIsToolUse) = foldl (add_item json) ([], False) items;
              stopReason =
                (if ce_status data = ''incomplete''
                 then if ce_incomplete_reason data = ''max_output_tokens'' then ''max_tokens'' else ''end_turn''
                 else if lastBlockIsToolUse then ''tool_use'' else ''end_turn'')
          in (content, stopReason,
              case ce_usage data of
                None \<Rightarrow> no_usage
              | Some (i, out, _, cached) \<Rightarrow>
                  \<lparr>au_InputTokens = i, au_OutputTokens = out, au_CacheReadInputTokens = cached\<rparr>))"

section \<open>OpenAI stream\<close>

record UsageInfo =
  ui_InputTokens :: int
  ui_OutputTokens :: int
  ui_TotalTokens :: int
  ui_ReasoningTokens :: int
  ui_CachedTokens :: int

definition extractUsage :: "codex_event \<Rightarrow> UsageInfo option" where
  "extractUsage data =
     map_option (\<lambda>(i, out, reasoning, cached).
       \<lparr>ui_InputTokens = i, ui_OutputTokens = out, ui_TotalTokens = i + out, ui_ReasoningTokens = reasoning,
        ui_CachedTokens = cached\<rparr>) (ce_usage data)"

datatype openai_chunk =
  ContentChunk string
| ReasoningChunk string
| ToolCallAnnouncement nat string string
| ToolCallDelta nat string
| FinalChunk string "UsageInfo option"
| ErrorResponse string

record StreamTranslator =
  st_HasToolCalls :: bool
  st_toolCallMap :: "string \<Rightarrow> nat option"
  st_nextIdx :: nat

definition NewStreamTranslator :: StreamTranslator where
  "NewStreamTranslator = \<lparr>st_HasToolCalls = False, st_toolCallMap = (\<lambda>_. None), st_nextIdx = 0\<rparr>"

definition failed_message :: "codex_event \<Rightarrow> string" where
  "failed_message e = (if ce_error_message e = '''' then ''Codex upstream error'' else ce_error_message e)"

definition silent_types :: "string list" where
  "silent_types =
     [''response.content_part.done'', ''response.created'', ''response.in_progress'', ''response.content_part.added'',
      ''response.reasoning_summary_text.done'', ''response.reasoning.encrypted_content.delta'',
      ''response.reasoning.encrypted_content.done'', ''response.reasoning_summary_part.added'',
      ''response.reasoning_summary_part.done'', ''response.image_generation_call.in_progress'',
      ''response.image_generation_call.generating'', ''response.image_generation_call.completed'']"

text \<open>
  The answer is the chunk for the client, if there is one, and whether the stream is over. \<open>img\<close> stores an
  image and answers the markdown that shows it.
\<close>

definition Translate ::
  "(string \<Rightarrow> string) \<Rightarrow> StreamTranslator \<Rightarrow> codex_event \<Rightarrow> StreamTranslator \<times> openai_chunk option \<times> bool" where
  "Translate img st e =
     (let ty = ce_type e
      in if ty = ''response.output_text.delta'' then (st, Some (ContentChunk (ce_delta e)), False)
         else if ty \<in> set [''response.reasoning_summary_text.delta'', ''response.reasoning_text.delta'']
         then (st, Some (ReasoningChunk (ce_delta e)), False)
         else if ty = ''response.output_item.added'' then
           if ce_item_type e \<noteq> ''function_call'' then (st, None, False)
           else
             let tcIdx = st_nextIdx st
             in (st\<lparr>st_toolCallMap := (st_toolCallMap st)(ce_item_id e \<mapsto> tcIdx), st_nextIdx := tcIdx + 1,
                    st_HasToolCalls := True\<rparr>, Some (ToolCallAnnouncement tcIdx (ce_call_id e) (ce_name e)), False)
         else if ty = ''response.function_call_arguments.delta'' then
           case st_toolCallMap st (ce_delta_item_id e) of
             None \<Rightarrow> (st, None, False)
           | Some tcIdx \<Rightarrow> (st, Some (ToolCallDelta tcIdx (ce_delta e)), False)
         else if ty = ''response.function_call_arguments.done'' then (st, None, False)
         else if ty = ''response.output_item.done'' then
           if ce_item_type e = ''image_generation_call'' \<and> ce_item_result e \<noteq> ''''
           then (st, Some (ContentChunk (img (ce_item_result e))), False) else (st, None, False)
         else if ty = ''response.completed'' then
           (st, Some (FinalChunk (if st_HasToolCalls st then ''tool_calls'' else ''stop'') (extractUsage e)), True)
         else if ty = ''response.failed'' then (st, Some (ErrorResponse (failed_message e)), True)
         else if ty = ''response.image_generation_call.partial_image'' then
           if ce_partial_image e \<noteq> '''' then (st, Some (ContentChunk (img (ce_partial_image e))), False)
           else (st, None, False)
         else if ty \<in> set silent_types then (st, None, False)
         else if ce_delta_is_string e then (st, Some (ContentChunk (ce_delta e)), False)
         else (st, None, False))"

text \<open>The stateless variant.\<close>

definition TranslateStreamChunk :: "(string \<Rightarrow> string) \<Rightarrow> codex_event \<Rightarrow> openai_chunk option \<times> bool" where
  "TranslateStreamChunk img e =
     (let ty = ce_type e
      in if ty = ''response.output_text.delta'' then (Some (ContentChunk (ce_delta e)), False)
         else if ty \<in> set [''response.reasoning_summary_text.delta'', ''response.reasoning_text.delta'']
         then (Some (ReasoningChunk (ce_delta e)), False)
         else if ty = ''response.output_item.done'' then
           if ce_item_type e = ''image_generation_call'' \<and> ce_item_result e \<noteq> ''''
           then (Some (ContentChunk (img (ce_item_result e))), False) else (None, False)
         else if ty = ''response.completed'' then (Some (FinalChunk ''stop'' (extractUsage e)), True)
         else if ty = ''response.failed'' then (Some (ErrorResponse (failed_message e)), True)
         else if ty = ''response.image_generation_call.partial_image'' then
           if ce_partial_image e \<noteq> '''' then (Some (ContentChunk (img (ce_partial_image e))), False) else (None, False)
         else if ty = ''response.output_item.added'' \<or> ty \<in> set silent_types then (None, False)
         else if ce_delta_is_string e then (Some (ContentChunk (ce_delta e)), False)
         else (None, False))"

section \<open>OpenAI response without streaming\<close>

record ToolCallResult =
  tc_ID :: string
  tc_Name :: string
  tc_Arguments :: string

definition ExtractToolCallsFromOutput :: "output_item list option \<Rightarrow> ToolCallResult list" where
  "ExtractToolCallsFromOutput outputs =
     (case outputs of
        None \<Rightarrow> []
      | Some items \<Rightarrow> List.map_filter (\<lambda>i. case i of
            FunctionCallItem call_id name args \<Rightarrow> Some \<lparr>tc_ID = call_id, tc_Name = name, tc_Arguments = args\<rparr>
          | _ \<Rightarrow> None) items)"

text \<open>Content (\<open>None\<close> is a JSON null), tool calls and finish reason.\<close>

definition BuildCompactResponse ::
  "string \<Rightarrow> ToolCallResult list \<Rightarrow> string option \<times> ToolCallResult list \<times> string" where
  "BuildCompactResponse content toolCalls =
     (if toolCalls \<noteq> []
      then (if content = '''' then None else Some content, toolCalls, ''tool_calls'')
      else (Some content, [], ''stop''))"


end
