(* ===== verification/TranslationLaws.thy ===== *)
theory TranslationLaws
  imports Translation
begin

text \<open>
  What the clients of the translated streams may rely on: an automaton for the event protocol of the
  Anthropic API and the refinement of the translator to it, the text that reaches the client, the indices of
  tool calls in the OpenAI stream, call identifiers.
\<close>

section \<open>Call identifiers\<close>

lemma drop_fc_prefix: "has_prefix c fc_prefix \<Longrightarrow> fc_prefix @ drop (length fc_prefix) c = c"
  by (auto simp: has_prefix_iff)

lemma not_both_prefixes:
  "has_prefix a ''toolu_'' \<Longrightarrow> \<not> has_prefix a fc_prefix" "has_prefix a ''call_'' \<Longrightarrow> \<not> has_prefix a fc_prefix"
  by (auto simp: has_prefix_iff fc_prefix_def)

text \<open>
  A call id of the upstream survives the way through the client exactly if it starts with \<open>fc_\<close>.
\<close>

lemma call_id_round_trip: "toCodexCallID (fromCodexCallID c) = c \<longleftrightarrow> has_prefix c fc_prefix"
proof (cases "has_prefix c fc_prefix")
  case True
  have no: "\<not> has_prefix (drop (length fc_prefix) c) fc_prefix"
    if "has_prefix (drop (length fc_prefix) c) ''toolu_'' \<or> has_prefix (drop (length fc_prefix) c) ''call_''"
    using that not_both_prefixes by blast
  show ?thesis
    using True no drop_fc_prefix[OF True] by (auto simp: fromCodexCallID_def toCodexCallID_def Let_def)
next
  case False
  then show ?thesis by (auto simp: fromCodexCallID_def toCodexCallID_def fc_prefix_def)
qed

section \<open>Protocol of the Anthropic stream\<close>

text \<open>
  What a client of the Messages API accepts: a start, then blocks one after the other with consecutive
  indices from 0, in each only deltas of its own kind, then the message delta and the stop.
\<close>

datatype client = Waiting | Ready int | Reading int string | Ending | Ended

fun block_kind :: "anthropic_block \<Rightarrow> string" where
  "block_kind TextBlock = ''text''"
| "block_kind ThinkingBlock = ''thinking''"
| "block_kind (ToolUseBlock _ _) = ''tool_use''"

fun delta_kind :: "anthropic_delta \<Rightarrow> string" where
  "delta_kind (TextDelta _) = ''text''"
| "delta_kind (ThinkingDelta _) = ''thinking''"
| "delta_kind (InputJsonDelta _) = ''tool_use''"

inductive client_step :: "client \<Rightarrow> anthropic_event \<Rightarrow> client \<Rightarrow> bool" where
  start: "client_step Waiting (MessageStart i m) (Ready 0)"
| open_block: "client_step (Ready n) (BlockStart n b) (Reading n (block_kind b))"
| delta: "client_step (Reading n (delta_kind d)) (BlockDelta n d) (Reading n (delta_kind d))"
| close: "client_step (Reading n k) (BlockStop n) (Ready (n + 1))"
| finish: "client_step (Ready n) (MessageDelta r u) Ending"
| stop: "client_step Ending MessageStop Ended"

inductive client_run :: "client \<Rightarrow> anthropic_event list \<Rightarrow> client \<Rightarrow> bool" where
  nothing: "client_run c [] c"
| event: "client_step c e c' \<Longrightarrow> client_run c' es c'' \<Longrightarrow> client_run c (e # es) c''"

inductive_simps client_run_Nil: "client_run c [] c'"
inductive_simps client_run_Cons: "client_run c (e # es) c'"
inductive_simps client_step_start: "client_step c (MessageStart i m) c'"
inductive_simps client_step_open: "client_step c (BlockStart n b) c'"
inductive_simps client_step_delta: "client_step c (BlockDelta n d) c'"
inductive_simps client_step_close: "client_step c (BlockStop n) c'"
inductive_simps client_step_finish: "client_step c (MessageDelta r u) c'"
inductive_simps client_step_stop: "client_step c MessageStop c'"

lemmas client_simps = client_run_Nil client_run_Cons client_step_start client_step_open client_step_delta
  client_step_close client_step_finish client_step_stop

lemma client_run_append: "client_run c es c' \<Longrightarrow> client_run c' es' c'' \<Longrightarrow> client_run c (es @ es') c''"
  by (induction rule: client_run.induct) (auto intro: client_run.intros)

lemma client_step_deterministic: "client_step c e a \<Longrightarrow> client_step c e b \<Longrightarrow> a = b"
  by (auto elim!: client_step.cases)

text \<open>What the client has seen, from the translator's own state.\<close>

definition seen :: "anthropicStreamTranslator \<Rightarrow> client" where
  "seen t = (if \<not> at_messageStartSent t then Waiting
             else if at_contentBlockOpen t then Reading (at_contentBlockIndex t - 1) (at_currentBlockType t)
             else Ready (at_contentBlockIndex t))"

definition translator_ok :: "anthropicStreamTranslator \<Rightarrow> bool" where
  "translator_ok t \<longleftrightarrow> (\<not> at_messageStartSent t \<longrightarrow> \<not> at_contentBlockOpen t \<and> at_contentBlockIndex t = 0)"

text \<open>A step of the translator: the client follows the protocol to what it has seen afterwards.\<close>

definition follows :: "anthropicStreamTranslator \<Rightarrow> anthropic_step \<Rightarrow> bool" where
  "follows t r \<longleftrightarrow> translator_ok (fst r) \<and> client_run (seen t) (snd r) (seen (fst r))"

lemma follows_andThen: "follows t r \<Longrightarrow> follows (fst r) (f (fst r)) \<Longrightarrow> follows t (andThen r f)"
  by (cases r; cases "f (fst r)") (auto simp: follows_def andThen_def intro: client_run_append)

lemma follows_nothing: "translator_ok t \<Longrightarrow> follows t (t, [])"
  by (simp add: follows_def client_simps)

definition started :: "anthropicStreamTranslator \<Rightarrow> bool" where
  "started t \<longleftrightarrow> at_messageStartSent t \<and> translator_ok t"

lemma handleCreated_follows: "translator_ok t \<Longrightarrow> follows t (handleCreated t)"
  by (auto simp: follows_def handleCreated_def translator_ok_def seen_def client_simps)

lemma handleCreated_started: "at_messageStartSent (fst (handleCreated t))"
  by (simp add: handleCreated_def)

lemma closeCurrentBlock_follows: "translator_ok t \<Longrightarrow> follows t (closeCurrentBlock json t)"
  by (auto simp: follows_def closeCurrentBlock_def translator_ok_def seen_def client_simps Let_def)

lemma closeCurrentBlock_frame:
  "at_messageStartSent (fst (closeCurrentBlock json t)) = at_messageStartSent t"
  "at_contentBlockIndex (fst (closeCurrentBlock json t)) = at_contentBlockIndex t"
  "at_hasToolUse (fst (closeCurrentBlock json t)) = at_hasToolUse t"
  "\<not> at_contentBlockOpen (fst (closeCurrentBlock json t))"
  by (auto simp: closeCurrentBlock_def Let_def)

lemma openBlock_follows:
  assumes "at_messageStartSent t" "\<not> at_contentBlockOpen t" "ty = block_kind b"
  shows "follows t (openBlock ty b t)"
  using assms by (simp add: follows_def openBlock_def translator_ok_def seen_def client_simps)

lemma fst_andThen [simp]: "fst (andThen r f) = fst (f (fst r))"
  by (simp add: andThen_def split: prod.splits)

lemma snd_andThen [simp]: "snd (andThen r f) = snd r @ snd (f (fst r))"
  by (simp add: andThen_def split: prod.splits)

lemma fst_openBlock [simp]:
  "at_messageStartSent (fst (openBlock ty b t)) = at_messageStartSent t"
  "at_contentBlockOpen (fst (openBlock ty b t))"
  "at_currentBlockType (fst (openBlock ty b t)) = ty"
  by (simp_all add: openBlock_def)

lemma follows_ok: "follows t r \<Longrightarrow> translator_ok (fst r)"
  by (simp add: follows_def)

lemma close_then_open_follows:
  assumes "translator_ok t" "at_messageStartSent t" "ty = block_kind b"
  shows "follows t (andThen (closeCurrentBlock json t) (openBlock ty b))"
  using assms by (intro follows_andThen closeCurrentBlock_follows openBlock_follows)
    (simp_all add: closeCurrentBlock_frame)

lemma ensureBlock_follows:
  assumes "translator_ok t" "at_messageStartSent t" "ty = block_kind b"
  shows "follows t (ensureBlock json ty b t)"
  using assms by (auto simp: ensureBlock_def intro!: close_then_open_follows follows_nothing)

lemma ensureBlock_open:
  "at_contentBlockOpen (fst (ensureBlock json ty b t))"
  "at_currentBlockType (fst (ensureBlock json ty b t)) = ty"
  "at_messageStartSent (fst (ensureBlock json ty b t)) = at_messageStartSent t"
  by (simp_all add: ensureBlock_def closeCurrentBlock_frame)

lemma sendDelta_follows:
  assumes "translator_ok t" "at_messageStartSent t" "at_contentBlockOpen t" "at_currentBlockType t = delta_kind d"
  shows "follows t (sendDelta d t)"
  using assms by (simp add: follows_def sendDelta_def seen_def client_simps)

lemma handleDelta_follows:
  assumes "translator_ok t" "ty = block_kind b" "\<And>s. delta_kind (mk s) = ty"
  shows "follows t (handleDelta json ty b mk data t)"
proof -
  have "follows (fst (handleCreated t)) (ensureBlock json ty b (fst (handleCreated t)))"
    using assms(2) follows_ok[OF handleCreated_follows[OF assms(1)]]
    by (intro ensureBlock_follows handleCreated_started)
  then have two: "follows t (andThen (handleCreated t) (ensureBlock json ty b))"
    using assms by (intro follows_andThen handleCreated_follows)
  then have "follows t (andThen (andThen (handleCreated t) (ensureBlock json ty b)) (sendDelta (mk (ce_delta data))))"
    using follows_ok[OF two] assms(3)
    by (intro follows_andThen[OF two] sendDelta_follows) (simp_all add: ensureBlock_open handleCreated_started)
  then show ?thesis using assms(1) by (simp add: handleDelta_def follows_nothing Let_def)
qed

lemma handleOutputItemAdded_follows:
  assumes "translator_ok t" shows "follows t (handleOutputItemAdded json data t)"
proof -
  have created: "follows t (handleCreated t)" using assms by (rule handleCreated_follows)
  have closed: "follows t (andThen (handleCreated t) (closeCurrentBlock json))"
    using follows_ok[OF created] by (intro follows_andThen created closeCurrentBlock_follows)
  have opened: "follows t (andThen (andThen (handleCreated t) (closeCurrentBlock json)) (openBlock (block_kind b) b))" for b
    by (intro follows_andThen[OF closed] openBlock_follows) (simp_all add: closeCurrentBlock_frame handleCreated_started)
  have marked: "follows t (andThen (andThen (andThen (handleCreated t) (closeCurrentBlock json)) (openBlock (block_kind b) b))
      (\<lambda>t. (t\<lparr>at_currentToolUseID := i, at_currentToolUseName := n, at_hasToolUse := True\<rparr>, [])))" for b i n
    by (rule follows_andThen[OF opened])
       (use follows_ok[OF opened[of b]] in \<open>simp add: follows_def seen_def translator_ok_def client_simps\<close>)
  show ?thesis
    using created opened[of ThinkingBlock] marked[of "ToolUseBlock (fromCodexCallID (ce_call_id data)) (ce_name data)"]
    by (simp add: handleOutputItemAdded_def Let_def)
qed

lemma handleToolInputDelta_follows: "translator_ok t \<Longrightarrow> follows t (handleToolInputDelta data t)"
  by (cases "at_messageStartSent t")
     (simp_all add: handleToolInputDelta_def follows_def translator_ok_def seen_def client_simps Let_def)

lemma translateEvent_follows:
  assumes "translator_ok t" "\<not> terminal data" shows "follows t (translateEvent json data t)"
  using assms
  by (simp add: translateEvent_def terminal_def Let_def handleCreated_follows handleOutputItemAdded_follows
      handleTextDelta_def handleThinkingDelta_def handleDelta_follows handleToolInputDelta_follows
      closeCurrentBlock_follows follows_nothing)

text \<open>The three ways a stream ends.\<close>

lemma ending:
  assumes "translator_ok t"
  shows "client_run (seen t) (snd (andThen (andThen (handleCreated t) (closeCurrentBlock json))
           (\<lambda>t. (f t, [MessageDelta (r t) (u t), MessageStop])))) Ended"
proof -
  let ?r = "andThen (handleCreated t) (closeCurrentBlock json)"
  have created: "follows t (handleCreated t)" using assms by (rule handleCreated_follows)
  have closed: "follows t ?r"
    using follows_ok[OF created] by (intro follows_andThen created closeCurrentBlock_follows)
  have "seen (fst ?r) = Ready (at_contentBlockIndex (fst ?r))"
    by (simp add: seen_def closeCurrentBlock_frame handleCreated_started)
  then have "client_run (seen (fst ?r)) [MessageDelta (r (fst ?r)) (u (fst ?r)), MessageStop] Ended"
    by (simp add: client_simps)
  with closed have "client_run (seen t) (snd ?r @ [MessageDelta (r (fst ?r)) (u (fst ?r)), MessageStop]) Ended"
    unfolding follows_def by (blast intro: client_run_append)
  then show ?thesis by simp
qed

lemma handleCompleted_ends: "translator_ok t \<Longrightarrow> client_run (seen t) (snd (handleCompleted json data t)) Ended"
  unfolding handleCompleted_def Let_def by (rule ending)

lemma handleFailed_ends: "translator_ok t \<Longrightarrow> client_run (seen t) (snd (handleFailed json t)) Ended"
  unfolding handleFailed_def by (rule ending)

lemma finalize_ends: "translator_ok t \<Longrightarrow> client_run (seen t) (snd (finalize json t)) Ended"
  unfolding finalize_def by (rule ending)

lemma terminal_ends:
  "translator_ok t \<Longrightarrow> terminal e \<Longrightarrow> client_run (seen t) (snd (translateEvent json e t)) Ended"
  by (auto simp: translateEvent_def terminal_def Let_def handleCompleted_ends handleFailed_ends)

text \<open>The two ways the relay goes on.\<close>

lemma relay_terminal:
  "terminal e \<Longrightarrow> \<not> (ce_type e = ''response.failed'' \<and> \<not> w \<and> isCapacityError (ce_error_message e))
     \<Longrightarrow> anthropic_relay json t w (e # es) = (snd (translateEvent json e t), None)"
  by (simp add: split_beta)

lemma relay_step:
  "\<not> terminal e \<Longrightarrow> anthropic_relay json t w (e # es) =
     (let r = translateEvent json e t; rest = anthropic_relay json (fst r) (w \<or> snd r \<noteq> []) es
      in (snd r @ fst rest, snd rest))"
  by (auto simp: split_beta terminal_def Let_def)

lemma relay_capacity_event:
  "ce_type e = ''response.failed'' \<Longrightarrow> \<not> w \<Longrightarrow> isCapacityError (ce_error_message e)
     \<Longrightarrow> anthropic_relay json t w (e # es) = ([], Some (ce_error_message e))"
  by simp

declare anthropic_relay.simps(2) [simp del]

lemma relay_follows:
  "translator_ok t \<Longrightarrow> snd (anthropic_relay json t w es) = None
     \<Longrightarrow> client_run (seen t) (fst (anthropic_relay json t w es)) Ended"
proof (induction es arbitrary: t w)
  case Nil
  then show ?case by (simp add: finalize_ends)
next
  case (Cons e es)
  show ?case
  proof (cases "terminal e")
    case True
    with Cons.prems show ?thesis using terminal_ends relay_terminal[OF True, of w json t es] relay_capacity_event[of e w json t es]
      by (cases "ce_type e = ''response.failed'' \<and> \<not> w \<and> isCapacityError (ce_error_message e)") auto
  next
    case False
    let ?r = "translateEvent json e t"
    have f: "follows t ?r" using Cons.prems(1) False by (rule translateEvent_follows)
    with Cons.prems False have "client_run (seen (fst ?r)) (fst (anthropic_relay json (fst ?r) (w \<or> snd ?r \<noteq> []) es)) Ended"
      by (intro Cons.IH follows_ok[OF f]) (simp add: relay_step Let_def)
    with f show ?thesis unfolding relay_step[OF False] Let_def follows_def by (auto intro: client_run_append)
  qed
qed

text \<open>A capacity error is passed on only if nothing has been written.\<close>

lemma relay_capacity:
  "snd (anthropic_relay json t w es) \<noteq> None \<Longrightarrow> \<not> w \<and> fst (anthropic_relay json t w es) = []"
proof (induction es arbitrary: t w)
  case (Cons e es)
  show ?case
  proof (cases "terminal e")
    case True
    with Cons.prems show ?thesis using relay_terminal[OF True, of w json t es] relay_capacity_event[of e w json t es]
      by (cases "ce_type e = ''response.failed'' \<and> \<not> w \<and> isCapacityError (ce_error_message e)") auto
  next
    case False
    with Cons.prems show ?thesis
      using Cons.IH[of "fst (translateEvent json e t)" "w \<or> snd (translateEvent json e t) \<noteq> []"]
      by (auto simp: relay_step Let_def)
  qed
qed simp

lemma new_translator_ok: "translator_ok (newAnthropicStreamTranslator uuid model)"
  and new_translator_seen: "seen (newAnthropicStreamTranslator uuid model) = Waiting"
  by (simp_all add: newAnthropicStreamTranslator_def translator_ok_def seen_def)


section \<open>Text and reasoning\<close>

definition client_text :: "anthropic_event list \<Rightarrow> string" where
  "client_text evs = concat (map (\<lambda>e. case e of BlockDelta _ (TextDelta s) \<Rightarrow> s | _ \<Rightarrow> '''') evs)"

definition client_thinking :: "anthropic_event list \<Rightarrow> string" where
  "client_thinking evs = concat (map (\<lambda>e. case e of BlockDelta _ (ThinkingDelta s) \<Rightarrow> s | _ \<Rightarrow> '''') evs)"

definition text_of :: "codex_event \<Rightarrow> string" where
  "text_of e = (if ce_type e = ''response.output_text.delta'' then ce_delta e else '''')"

definition thinking_of :: "codex_event \<Rightarrow> string" where
  "thinking_of e = (if ce_type e \<in> set [''response.reasoning_summary_text.delta'', ''response.reasoning_text.delta'']
                    then ce_delta e else '''')"

definition until_terminal :: "codex_event list \<Rightarrow> codex_event list" where
  "until_terminal es = takeWhile (\<lambda>e. \<not> terminal e) es"

lemma client_text_simps [simp]:
  "client_text [] = ''''" "client_text (xs @ ys) = client_text xs @ client_text ys"
  "client_text (MessageStart i m # evs) = client_text evs" "client_text (BlockStart n b # evs) = client_text evs"
  "client_text (BlockDelta n (TextDelta s) # evs) = s @ client_text evs"
  "client_text (BlockDelta n (ThinkingDelta s) # evs) = client_text evs"
  "client_text (BlockDelta n (InputJsonDelta s) # evs) = client_text evs"
  "client_text (BlockStop n # evs) = client_text evs" "client_text (MessageDelta r u # evs) = client_text evs"
  "client_text (MessageStop # evs) = client_text evs"
  by (simp_all add: client_text_def)

lemma client_thinking_simps [simp]:
  "client_thinking [] = ''''" "client_thinking (xs @ ys) = client_thinking xs @ client_thinking ys"
  "client_thinking (MessageStart i m # evs) = client_thinking evs"
  "client_thinking (BlockStart n b # evs) = client_thinking evs"
  "client_thinking (BlockDelta n (TextDelta s) # evs) = client_thinking evs"
  "client_thinking (BlockDelta n (ThinkingDelta s) # evs) = s @ client_thinking evs"
  "client_thinking (BlockDelta n (InputJsonDelta s) # evs) = client_thinking evs"
  "client_thinking (BlockStop n # evs) = client_thinking evs"
  "client_thinking (MessageDelta r u # evs) = client_thinking evs"
  "client_thinking (MessageStop # evs) = client_thinking evs"
  by (simp_all add: client_thinking_def)

lemma until_terminal_simps [simp]:
  "until_terminal [] = []" "terminal e \<Longrightarrow> until_terminal (e # es) = []"
  "\<not> terminal e \<Longrightarrow> until_terminal (e # es) = e # until_terminal es"
  by (simp_all add: until_terminal_def)

lemma silent_steps:
  "client_text (snd (handleCreated t)) = ''''" "client_thinking (snd (handleCreated t)) = ''''"
  "client_text (snd (closeCurrentBlock json t)) = ''''" "client_thinking (snd (closeCurrentBlock json t)) = ''''"
  "client_text (snd (openBlock ty b t)) = ''''" "client_thinking (snd (openBlock ty b t)) = ''''"
  by (simp_all add: handleCreated_def closeCurrentBlock_def openBlock_def Let_def)

lemma silent_ensure:
  "client_text (snd (ensureBlock json ty b t)) = ''''" "client_thinking (snd (ensureBlock json ty b t)) = ''''"
  by (simp_all add: ensureBlock_def silent_steps)

lemmas step_defs = handleOutputItemAdded_def handleTextDelta_def handleThinkingDelta_def handleDelta_def
  handleToolInputDelta_def handleCompleted_def handleFailed_def finalize_def sendDelta_def

lemma translateEvent_text: "client_text (snd (translateEvent json e t)) = text_of e"
  by (simp add: translateEvent_def text_of_def step_defs Let_def silent_steps silent_ensure)

lemma translateEvent_thinking: "client_thinking (snd (translateEvent json e t)) = thinking_of e"
  by (simp add: translateEvent_def thinking_of_def step_defs Let_def silent_steps silent_ensure)

lemma terminal_silent: "terminal e \<Longrightarrow> text_of e = ''''" "terminal e \<Longrightarrow> thinking_of e = ''''"
  by (auto simp: terminal_def text_of_def thinking_of_def)

lemma relay_content:
  "snd (anthropic_relay json t w es) = None
     \<Longrightarrow> client_text (fst (anthropic_relay json t w es)) = concat (map text_of (until_terminal es)) \<and>
         client_thinking (fst (anthropic_relay json t w es)) = concat (map thinking_of (until_terminal es))"
proof (induction es arbitrary: t w)
  case Nil
  show ?case by (simp add: finalize_def silent_steps)
next
  case (Cons e es)
  show ?case
  proof (cases "terminal e")
    case True
    with Cons.prems show ?thesis
      using relay_terminal[OF True, of w json t es] relay_capacity_event[of e w json t es]
      by (cases "ce_type e = ''response.failed'' \<and> \<not> w \<and> isCapacityError (ce_error_message e)")
         (auto simp: translateEvent_text translateEvent_thinking terminal_silent)
  next
    case False
    with Cons.prems Cons.IH[of "fst (translateEvent json e t)" "w \<or> snd (translateEvent json e t) \<noteq> []"]
    show ?thesis by (simp add: relay_step Let_def translateEvent_text translateEvent_thinking)
  qed
qed

text \<open>
  C17. The text and the reasoning that the client reads are those of the upstream, in order and complete, up to the
  event that ends the stream.
\<close>

theorem anthropic_stream_keeps_text:
  "case anthropic_relay json (newAnthropicStreamTranslator uuid model) False es of
     (evs, None) \<Rightarrow> client_text evs = concat (map text_of (until_terminal es)) \<and>
                    client_thinking evs = concat (map thinking_of (until_terminal es))
   | (evs, Some capacity_error) \<Rightarrow> evs = []"
  using relay_content[of json "newAnthropicStreamTranslator uuid model" False es]
    relay_capacity[of json "newAnthropicStreamTranslator uuid model" False es]
  by (auto split: prod.splits option.splits)

section \<open>Tool calls of the Anthropic stream\<close>

fun translate_all :: "json_codec \<Rightarrow> codex_event list \<Rightarrow> anthropicStreamTranslator \<Rightarrow> anthropic_step" where
  "translate_all json [] t = (t, [])"
| "translate_all json (e # es) t = andThen (translateEvent json e t) (translate_all json es)"

lemma translate_all_append:
  "translate_all json (es @ es') t = andThen (translate_all json es t) (translate_all json es')"
  by (induction es arbitrary: t) (simp_all add: andThen_def split: prod.splits)

lemma translate_arguments:
  "\<forall>d \<in> set ds. ce_type d = ''response.function_call_arguments.delta'' \<Longrightarrow>
     translate_all json ds t =
       (t\<lparr>at_currentToolInputBuffer := at_currentToolInputBuffer t @ concat (map ce_delta ds)\<rparr>, [])"
  by (induction ds arbitrary: t)
     (simp_all add: translateEvent_def handleToolInputDelta_def andThen_def Let_def)

lemma buffer_frame:
  "at_currentToolInputBuffer (fst (handleCreated t)) = at_currentToolInputBuffer t"
  "at_contentBlockIndex (fst (handleCreated t)) = at_contentBlockIndex t"
  "at_contentBlockOpen (fst (handleCreated t)) = at_contentBlockOpen t"
  "at_currentToolInputBuffer t = '''' \<Longrightarrow> at_currentToolInputBuffer (fst (closeCurrentBlock json t)) = ''''"
  by (simp_all add: handleCreated_def closeCurrentBlock_def Let_def)

lemma sanitize_empty [simp]: "sanitizeToolInputJSON json '''' = ''''"
  by (simp add: sanitizeToolInputJSON_def trim_space_def Let_def)

text \<open>
  A tool call whose events are not mixed with those of another: the client gets its id and name, all its
  arguments, cleaned, in one piece, and the end of the block.
\<close>

theorem tool_call_is_relayed:
  assumes "at_currentToolInputBuffer t = ''''"
    and "ce_type a = ''response.output_item.added''" "ce_item_type a = ''function_call''"
    and "\<forall>d \<in> set ds. ce_type d = ''response.function_call_arguments.delta''"
    and "ce_type z = ''response.output_item.done''"
  shows "let args = sanitizeToolInputJSON json (concat (map ce_delta ds)); n = at_contentBlockIndex t;
             r = translate_all json (a # ds @ [z]) t
         in at_currentToolInputBuffer (fst r) = '''' \<and>
            snd r = snd (andThen (handleCreated t) (closeCurrentBlock json)) @
              BlockStart n (ToolUseBlock (fromCodexCallID (ce_call_id a)) (ce_name a)) #
              (if args = '''' then [] else [BlockDelta n (InputJsonDelta args)]) @ [BlockStop n]"
proof -
  let ?c = "fst (closeCurrentBlock json (fst (handleCreated t)))"
  define t1 where "t1 = fst (translateEvent json a t)"
  have a: "translateEvent json a t = handleOutputItemAdded json a t"
    using assms(2) by (simp add: translateEvent_def)
  have evs: "snd (translateEvent json a t) = snd (andThen (handleCreated t) (closeCurrentBlock json)) @
      [BlockStart (at_contentBlockIndex t) (ToolUseBlock (fromCodexCallID (ce_call_id a)) (ce_name a))]"
    using assms(3) by (simp add: a handleOutputItemAdded_def openBlock_def Let_def closeCurrentBlock_frame buffer_frame)
  have t1: "at_currentToolInputBuffer t1 = ''''" "at_contentBlockOpen t1" "at_currentBlockType t1 = ''tool_use''"
    "at_contentBlockIndex t1 = at_contentBlockIndex t + 1"
    using assms(1,3) by (simp_all add: t1_def a handleOutputItemAdded_def openBlock_def Let_def
        closeCurrentBlock_frame buffer_frame)
  have z: "translate_all json (ds @ [z]) t1 =
      closeCurrentBlock json (t1\<lparr>at_currentToolInputBuffer := concat (map ce_delta ds)\<rparr>)"
    using assms(5) t1(1) by (simp add: translate_all_append translate_arguments[OF assms(4)] andThen_def
        translateEvent_def split: prod.splits)
  show ?thesis
  proof (cases "concat (map ce_delta ds) = ''''")
    case True
    then show ?thesis unfolding Let_def append_Cons translate_all.simps snd_andThen fst_andThen evs
        t1_def[symmetric] z True by (simp add: t1 closeCurrentBlock_def Let_def)
  next
    case False
    then show ?thesis unfolding Let_def append_Cons translate_all.simps snd_andThen fst_andThen evs
        t1_def[symmetric] z by (simp add: t1 closeCurrentBlock_def Let_def del: concat_eq_Nil_conv)
  qed
qed


text \<open>A concrete codec and concrete upstream events.\<close>

definition opaque_json :: json_codec where
  "opaque_json = \<lparr>jc_unmarshal = (\<lambda>_. None), jc_marshal = (\<lambda>_. None)\<rparr>"

definition call_added :: "string \<Rightarrow> string \<Rightarrow> string \<Rightarrow> codex_event" where
  "call_added item call name = no_event\<lparr>ce_type := ''response.output_item.added'', ce_item_type := ''function_call'',
     ce_item_id := item, ce_call_id := call, ce_name := name\<rparr>"

definition call_arguments :: "string \<Rightarrow> string \<Rightarrow> codex_event" where
  "call_arguments item args = no_event\<lparr>ce_type := ''response.function_call_arguments.delta'',
     ce_delta_item_id := item, ce_delta := args, ce_delta_is_string := True\<rparr>"

definition item_done :: codex_event where
  "item_done = no_event\<lparr>ce_type := ''response.output_item.done''\<rparr>"

lemma tool_call_is_relayed_witness:
  "snd (translate_all opaque_json
     (call_added ''i'' ''fc_call_1'' ''Read'' # [call_arguments ''i'' ''{1'', call_arguments ''i'' ''}''] @ [item_done])
     (newAnthropicStreamTranslator ''u'' ''m'')) =
   [MessageStart ''msg_u'' ''m'', BlockStart 0 (ToolUseBlock ''call_1'' ''Read''),
    BlockDelta 0 (InputJsonDelta ''{1}''), BlockStop 0]"
proof -
  let ?ds = "[call_arguments ''i'' ''{1'', call_arguments ''i'' ''}'']"
  let ?t = "newAnthropicStreamTranslator ''u'' ''m''"
  have "at_currentToolInputBuffer ?t = ''''" "ce_type (call_added ''i'' ''fc_call_1'' ''Read'') = ''response.output_item.added''"
    "ce_item_type (call_added ''i'' ''fc_call_1'' ''Read'') = ''function_call''"
    "\<forall>d \<in> set ?ds. ce_type d = ''response.function_call_arguments.delta''"
    "ce_type item_done = ''response.output_item.done''"
    by (simp_all add: newAnthropicStreamTranslator_def call_added_def call_arguments_def item_done_def)
  note call = tool_call_is_relayed[OF this, of opaque_json]
  have args: "sanitizeToolInputJSON opaque_json (concat (map ce_delta ?ds)) = ''{1}''" by code_simp
  have pre: "snd (andThen (handleCreated ?t) (closeCurrentBlock opaque_json)) = [MessageStart ''msg_u'' ''m'']"
    by code_simp
  have name: "fromCodexCallID (ce_call_id (call_added ''i'' ''fc_call_1'' ''Read'')) = ''call_1''"
    "ce_name (call_added ''i'' ''fc_call_1'' ''Read'') = ''Read''" "at_contentBlockIndex ?t = 0"
    by code_simp+
  show ?thesis using call unfolding Let_def args pre name by simp
qed

text \<open>
  Two tool calls at a time: the translator keeps one buffer for all arguments. The first call reaches the
  client without arguments, the second one with those of both.
\<close>

theorem parallel_tool_arguments_are_mixed:
  assumes "x \<noteq> ''''" "y \<noteq> ''''"
  shows "let t = newAnthropicStreamTranslator uuid model; args = sanitizeToolInputJSON json (x @ y)
         in snd (translate_all json
              [call_added i1 c1 n1, call_added i2 c2 n2, call_arguments i1 x, call_arguments i2 y, item_done, item_done] t) =
            [MessageStart (at_responseID t) model,
             BlockStart 0 (ToolUseBlock (fromCodexCallID c1) n1), BlockStop 0,
             BlockStart 1 (ToolUseBlock (fromCodexCallID c2) n2)] @
            (if args = '''' then [] else [BlockDelta 1 (InputJsonDelta args)]) @ [BlockStop 1]"
  using assms
  by (simp add: translateEvent_def handleOutputItemAdded_def handleToolInputDelta_def closeCurrentBlock_def
      openBlock_def handleCreated_def newAnthropicStreamTranslator_def call_added_def call_arguments_def item_done_def
      Let_def)

lemma parallel_tool_arguments_are_mixed_witness:
  "BlockDelta 1 (InputJsonDelta ''{1}{2}'') \<in>
     set (snd (translate_all opaque_json
       [call_added ''i1'' ''c1'' ''Read'', call_added ''i2'' ''c2'' ''Bash'', call_arguments ''i1'' ''{1}'',
        call_arguments ''i2'' ''{2}'', item_done, item_done] (newAnthropicStreamTranslator ''u'' ''m'')))"
proof -
  have args: "sanitizeToolInputJSON opaque_json (''{1}'' @ ''{2}'') = ''{1}{2}''" by code_simp
  have "''{1}'' \<noteq> ''''" "''{2}'' \<noteq> ''''" by simp_all
  from parallel_tool_arguments_are_mixed[OF this, of "''u''" "''m''" opaque_json "''i1''" "''c1''" "''Read''" "''i2''"
      "''c2''" "''Bash''"]
  show ?thesis unfolding Let_def args by simp
qed

section \<open>How a stream ends\<close>

text \<open>
  Once the upstream has announced the response, a capacity error is no longer tried on another account: the
  message start counts as a part of the answer. The client gets an empty message that ends normally.
\<close>

theorem capacity_error_after_created:
  assumes "ce_type c = ''response.created''" "ce_type f = ''response.failed''" "isCapacityError (ce_error_message f)"
  shows "anthropic_relay json (newAnthropicStreamTranslator uuid model) False (c # f # es) =
           ([MessageStart (''msg_'' @ take 24 uuid) model, MessageDelta ''end_turn'' no_usage, MessageStop], None)"
  using assms
  by (simp add: anthropic_relay.simps translateEvent_def handleCreated_def handleFailed_def closeCurrentBlock_def
      newAnthropicStreamTranslator_def terminal_def andThen_def)

definition at_capacity :: codex_event where
  "at_capacity = no_event\<lparr>ce_type := ''response.failed'', ce_error_message := ''Selected model is at capacity''\<rparr>"

lemma capacity_error_after_created_witness:
  "anthropic_relay opaque_json (newAnthropicStreamTranslator ''u'' ''m'') False
     [no_event\<lparr>ce_type := ''response.created''\<rparr>, at_capacity] =
   ([MessageStart ''msg_u'' ''m'', MessageDelta ''end_turn'' no_usage, MessageStop], None) \<and>
   anthropic_relay opaque_json (newAnthropicStreamTranslator ''u'' ''m'') False [at_capacity] =
   ([], Some ''Selected model is at capacity'')"
proof
  have "ce_type (no_event\<lparr>ce_type := ''response.created''\<rparr>) = ''response.created''"
    "ce_type at_capacity = ''response.failed''" "isCapacityError (ce_error_message at_capacity)"
    by code_simp+
  from capacity_error_after_created[OF this, of opaque_json "''u''" "''m''" "[]"]
  show "anthropic_relay opaque_json (newAnthropicStreamTranslator ''u'' ''m'') False
     [no_event\<lparr>ce_type := ''response.created''\<rparr>, at_capacity] =
   ([MessageStart ''msg_u'' ''m'', MessageDelta ''end_turn'' no_usage, MessageStop], None)" by simp
  show "anthropic_relay opaque_json (newAnthropicStreamTranslator ''u'' ''m'') False [at_capacity] =
   ([], Some ''Selected model is at capacity'')" by code_simp
qed

text \<open>
  The reason to stop of one and the same response, a tool call followed by text, with and without streaming.
\<close>

theorem stop_reason_depends_on_streaming:
  assumes "s \<noteq> ''''"
  shows "fst (snd (buildAnthropicResponseFromCompleted json
           (Some [FunctionCallItem c n a, MessageItem [(''output_text'', s)]]) (no_event\<lparr>ce_type := ''response.completed''\<rparr>)))
         = ''end_turn'' \<and>
         (\<exists>pre u. fst (anthropic_relay json (newAnthropicStreamTranslator uuid model) False
           [call_added i c n, call_arguments i a, item_done,
            no_event\<lparr>ce_type := ''response.output_text.delta'', ce_delta := s\<rparr>, no_event\<lparr>ce_type := ''response.completed''\<rparr>])
         = pre @ [MessageDelta ''tool_use'' u, MessageStop])"
proof
  show "fst (snd (buildAnthropicResponseFromCompleted json
      (Some [FunctionCallItem c n a, MessageItem [(''output_text'', s)]]) (no_event\<lparr>ce_type := ''response.completed''\<rparr>)))
      = ''end_turn''"
    using assms by (simp add: buildAnthropicResponseFromCompleted_def text_parts_def no_event_def Let_def)
  let ?es = "[call_added i c n, call_arguments i a, item_done,
      no_event\<lparr>ce_type := ''response.output_text.delta'', ce_delta := s\<rparr>]"
  let ?t = "newAnthropicStreamTranslator uuid model"
  let ?z = "no_event\<lparr>ce_type := ''response.completed''\<rparr>"
  have relay: "fst (anthropic_relay json t w (es @ [?z])) = snd (translate_all json (es @ [?z]) t)"
    if "\<forall>e \<in> set es. \<not> terminal e" for es t w
    using that
  proof (induction es arbitrary: t w)
    case Nil
    have "terminal ?z" by (simp add: terminal_def)
    then show ?case using relay_terminal[of ?z w json t "[]"] by simp
  next
    case (Cons e es)
    then show ?case by (simp add: relay_step Let_def)
  qed
  have nt: "\<forall>e \<in> set ?es. \<not> terminal e"
    by (simp add: terminal_def call_added_def call_arguments_def item_done_def)
  have tool: "at_hasToolUse (fst (translate_all json ?es ?t))"
    using assms by (simp add: translateEvent_def handleOutputItemAdded_def handleToolInputDelta_def handleTextDelta_def
        handleDelta_def ensureBlock_def sendDelta_def closeCurrentBlock_def openBlock_def handleCreated_def
        call_added_def call_arguments_def item_done_def Let_def)
  have last: "\<exists>pre u. snd (translateEvent json ?z t) = pre @ [MessageDelta ''tool_use'' u, MessageStop]"
    if "at_hasToolUse t" for t
    using that by (auto simp: translateEvent_def handleCompleted_def no_event_def closeCurrentBlock_frame Let_def
        handleCreated_def)
  obtain pre u where "snd (translateEvent json ?z (fst (translate_all json ?es ?t))) =
      pre @ [MessageDelta ''tool_use'' u, MessageStop]" using last[OF tool] by blast
  then show "\<exists>pre u. fst (anthropic_relay json ?t False
      [call_added i c n, call_arguments i a, item_done,
       no_event\<lparr>ce_type := ''response.output_text.delta'', ce_delta := s\<rparr>, ?z])
      = pre @ [MessageDelta ''tool_use'' u, MessageStop]"
    using relay[OF nt, of ?t False] by (intro exI[of _ "snd (translate_all json ?es ?t) @ pre"] exI[of _ u])
      (simp add: translate_all_append del: translate_all.simps, simp)
qed


section \<open>Tool calls of the OpenAI stream\<close>

text \<open>The chunks of a whole stream, up to the event that ends it.\<close>

fun openai_run ::
  "(string \<Rightarrow> string) \<Rightarrow> codex_event list \<Rightarrow> StreamTranslator \<Rightarrow> StreamTranslator \<times> openai_chunk list" where
  "openai_run img [] st = (st, [])"
| "openai_run img (e # es) st =
     (let (st, chunk, fin) = Translate img st e; cs = (case chunk of None \<Rightarrow> [] | Some c \<Rightarrow> [c])
      in if fin then (st, cs) else (let (st, rest) = openai_run img es st in (st, cs @ rest)))"

text \<open>
  What the client may rely on: tool calls are numbered from \<open>n\<close> on in the order of their announcement,
  arguments refer to a call that was announced before, nothing follows the end.
\<close>

fun well_numbered :: "nat \<Rightarrow> openai_chunk list \<Rightarrow> bool" where
  "well_numbered n [] = True"
| "well_numbered n (ToolCallAnnouncement i c name # cs) = (i = n \<and> well_numbered (n + 1) cs)"
| "well_numbered n (ToolCallDelta i s # cs) = (i < n \<and> well_numbered n cs)"
| "well_numbered n (ContentChunk s # cs) = well_numbered n cs"
| "well_numbered n (ReasoningChunk s # cs) = well_numbered n cs"
| "well_numbered n (FinalChunk r u # cs) = (cs = [])"
| "well_numbered n (ErrorResponse m # cs) = (cs = [])"

text \<open>The item ids have different indices, below the next one.\<close>

definition stream_ok :: "StreamTranslator \<Rightarrow> bool" where
  "stream_ok st \<longleftrightarrow> (\<forall>i k. st_toolCallMap st i = Some k \<longrightarrow> k < st_nextIdx st) \<and>
     inj_on (st_toolCallMap st) (dom (st_toolCallMap st))"

lemma stream_ok_new: "stream_ok NewStreamTranslator"
  by (simp add: stream_ok_def NewStreamTranslator_def)

definition announces :: "string \<Rightarrow> codex_event \<Rightarrow> bool" where
  "announces i e \<longleftrightarrow> ce_type e = ''response.output_item.added'' \<and> ce_item_type e = ''function_call'' \<and> ce_item_id e = i"

text \<open>A step either announces a call or leaves the state alone.\<close>

lemma Translate_state:
  "fst (Translate img st e) =
     (if announces (ce_item_id e) e
      then st\<lparr>st_toolCallMap := (st_toolCallMap st)(ce_item_id e \<mapsto> st_nextIdx st), st_nextIdx := st_nextIdx st + 1,
              st_HasToolCalls := True\<rparr>
      else st)"
  by (simp add: Translate_def announces_def Let_def split: option.splits)

lemma stream_ok_step: "stream_ok st \<Longrightarrow> stream_ok (fst (Translate img st e))"
  by (fastforce simp: Translate_state stream_ok_def inj_on_def dom_def)

lemma Translate_numbered:
  assumes "stream_ok st"
  shows "case snd (Translate img st e) of
           (Some c, True) \<Rightarrow> well_numbered (st_nextIdx st) [c]
         | (Some c, False) \<Rightarrow>
             (\<forall>cs. well_numbered (st_nextIdx (fst (Translate img st e))) cs \<longrightarrow> well_numbered (st_nextIdx st) (c # cs))
         | (None, _) \<Rightarrow> st_nextIdx (fst (Translate img st e)) = st_nextIdx st"
  using assms by (auto simp: Translate_def Let_def stream_ok_def split: option.splits)

lemma openai_run_ok: "stream_ok st \<Longrightarrow> stream_ok (fst (openai_run img es st))"
proof (induction es arbitrary: st)
  case (Cons e es)
  have "stream_ok (fst (openai_run img es (fst (Translate img st e))))"
    by (rule Cons.IH) (rule stream_ok_step[OF Cons.prems])
  then show ?case using stream_ok_step[OF Cons.prems, of img e] by (simp add: split_beta Let_def)
qed simp

lemma openai_run_numbered:
  "stream_ok st \<Longrightarrow> well_numbered (st_nextIdx st) (snd (openai_run img es st))"
proof (induction es arbitrary: st)
  case (Cons e es)
  obtain st' c fin where r: "Translate img st e = (st', c, fin)" by (metis prod_cases3)
  have "well_numbered (st_nextIdx st') (snd (openai_run img es st'))"
    using Cons.IH stream_ok_step[OF Cons.prems, of img e] r by simp
  then show ?case
    using Translate_numbered[OF Cons.prems, of img e] by (cases c; cases fin) (auto simp: r split_beta Let_def)
qed simp

text \<open>
  For every stream of the upstream the tool calls of the chat completion are numbered correctly.
\<close>

theorem openai_stream_is_well_numbered:
  "well_numbered 0 (snd (openai_run img es NewStreamTranslator))"
  using openai_run_numbered[OF stream_ok_new, of img es] by (simp add: NewStreamTranslator_def)

definition arguments_for :: "nat \<Rightarrow> openai_chunk list \<Rightarrow> string" where
  "arguments_for k cs = concat (map (\<lambda>c. case c of ToolCallDelta i s \<Rightarrow> if i = k then s else '''' | _ \<Rightarrow> '''') cs)"

definition arguments_of :: "string \<Rightarrow> codex_event \<Rightarrow> string" where
  "arguments_of i e = (if ce_type e = ''response.function_call_arguments.delta'' \<and> ce_delta_item_id e = i
                       then ce_delta e else '''')"

lemma Translate_arguments:
  assumes "stream_ok st" "st_toolCallMap st i = Some k"
  shows "arguments_for k (case fst (snd (Translate img st e)) of None \<Rightarrow> [] | Some c \<Rightarrow> [c]) = arguments_of i e"
proof (cases "ce_type e = ''response.function_call_arguments.delta''")
  case True
  then show ?thesis using assms
    by (auto simp: Translate_def arguments_for_def arguments_of_def stream_ok_def inj_on_def dom_def
        split: option.splits)
next
  case False
  have "k < st_nextIdx st" using assms by (simp add: stream_ok_def)
  with False show ?thesis by (simp add: Translate_def arguments_for_def arguments_of_def Let_def)
qed

lemma Translate_terminal: "snd (snd (Translate img st e)) \<longleftrightarrow> terminal e"
  by (auto simp: Translate_def terminal_def Let_def split: option.splits)

lemma arguments_run:
  assumes "stream_ok st" "st_toolCallMap st i = Some k" "\<forall>e \<in> set es. \<not> announces i e"
  shows "arguments_for k (snd (openai_run img es st)) = concat (map (arguments_of i) (until_terminal es))"
  using assms
proof (induction es arbitrary: st)
  case Nil
  show ?case by (simp add: arguments_for_def)
next
  case (Cons e es)
  obtain st' c fin where r: "Translate img st e = (st', c, fin)" by (metis prod_cases3)
  have args: "arguments_for k (case c of None \<Rightarrow> [] | Some c \<Rightarrow> [c]) = arguments_of i e"
    using Translate_arguments[OF Cons.prems(1,2), of img e] by (simp add: r)
  have fin: "fin \<longleftrightarrow> terminal e" using Translate_terminal[of img st e] by (simp add: r)
  have split: "arguments_for k (xs @ ys) = arguments_for k xs @ arguments_for k ys" for xs ys
    by (simp add: arguments_for_def)
  have "stream_ok st'" using stream_ok_step[OF Cons.prems(1), of img e] by (simp add: r)
  moreover have "st_toolCallMap st' i = Some k"
    using Translate_state[of img st e] Cons.prems(2,3) by (auto simp: r announces_def)
  ultimately have IH: "arguments_for k (snd (openai_run img es st')) = concat (map (arguments_of i) (until_terminal es))"
    using Cons by simp
  show ?case
  proof (cases "terminal e")
    case True
    then have "arguments_of i e = ''''" by (auto simp: terminal_def arguments_of_def)
    with True args show ?thesis by (simp add: r fin)
  next
    case False
    with args IH show ?thesis by (simp add: r fin split split_beta Let_def)
  qed
qed

text \<open>
  Once a call is announced, the arguments that the chat completion sends under its index are those that the
  upstream sends for its item, also when calls are mixed.
\<close>

theorem openai_arguments_reach_their_call:
  assumes "st_toolCallMap (fst (openai_run img pre NewStreamTranslator)) i = Some k"
    and "\<forall>e \<in> set es. \<not> announces i e"
  shows "arguments_for k (snd (openai_run img es (fst (openai_run img pre NewStreamTranslator)))) =
         concat (map (arguments_of i) (until_terminal es))"
  by (rule arguments_run[OF openai_run_ok[OF stream_ok_new] assms])

lemma openai_arguments_reach_their_call_witness:
  "arguments_for 0 (snd (openai_run rev
     [call_arguments ''i1'' ''{'', call_arguments ''i2'' ''x'', call_arguments ''i1'' ''}'']
     (fst (openai_run rev [call_added ''i1'' ''c1'' ''Read'', call_added ''i2'' ''c2'' ''Bash''] NewStreamTranslator)))) =
   ''{}''"
proof -
  let ?pre = "[call_added ''i1'' ''c1'' ''Read'', call_added ''i2'' ''c2'' ''Bash'']"
  let ?es = "[call_arguments ''i1'' ''{'', call_arguments ''i2'' ''x'', call_arguments ''i1'' ''}'']"
  have "st_toolCallMap (fst (openai_run rev ?pre NewStreamTranslator)) ''i1'' = Some 0"
    "\<forall>e \<in> set ?es. \<not> announces ''i1'' e"
    by (simp_all add: Translate_def call_added_def call_arguments_def NewStreamTranslator_def announces_def)
  then have "arguments_for 0 (snd (openai_run rev ?es (fst (openai_run rev ?pre NewStreamTranslator)))) =
      concat (map (arguments_of ''i1'') (until_terminal ?es))"
    by (rule openai_arguments_reach_their_call)
  also have "\<dots> = ''{}''"
    by (simp add: until_terminal_def terminal_def arguments_of_def call_arguments_def)
  finally show ?thesis .
qed

section \<open>The stateless translation\<close>

fun stateless_run :: "(string \<Rightarrow> string) \<Rightarrow> codex_event list \<Rightarrow> openai_chunk list" where
  "stateless_run img [] = []"
| "stateless_run img (e # es) =
     (let (chunk, fin) = TranslateStreamChunk img e; cs = (case chunk of None \<Rightarrow> [] | Some c \<Rightarrow> [c])
      in if fin then cs else cs @ stateless_run img es)"

definition tool_event :: "codex_event \<Rightarrow> bool" where
  "tool_event e \<longleftrightarrow>
     ce_type e \<in> set [''response.function_call_arguments.delta'', ''response.function_call_arguments.done''] \<or>
     announces (ce_item_id e) e"

lemma stateless_step:
  "\<not> st_HasToolCalls st \<Longrightarrow> \<not> tool_event e \<Longrightarrow> Translate img st e = (st, TranslateStreamChunk img e)"
  by (simp add: Translate_def TranslateStreamChunk_def tool_event_def announces_def Let_def)

lemma stateless_run_eq:
  "\<not> st_HasToolCalls st \<Longrightarrow> \<forall>e \<in> set es. \<not> tool_event e \<Longrightarrow> snd (openai_run img es st) = stateless_run img es"
  by (induction es) (auto simp: stateless_step split_beta Let_def)

text \<open>
  Without tool calls the stateless translation of a stream and the one with state give the same chunks.
\<close>

theorem stateless_translation_agrees:
  assumes "\<forall>e \<in> set es. \<not> tool_event e"
  shows "snd (openai_run img es NewStreamTranslator) = stateless_run img es"
  by (rule stateless_run_eq[OF _ assms]) (simp add: NewStreamTranslator_def)

lemma stateless_translation_agrees_witness:
  "snd (openai_run rev [no_event\<lparr>ce_type := ''response.output_text.delta'', ce_delta := ''hi''\<rparr>,
     no_event\<lparr>ce_type := ''response.completed''\<rparr>] NewStreamTranslator) = [ContentChunk ''hi'', FinalChunk ''stop'' None]"
proof -
  let ?es = "[no_event\<lparr>ce_type := ''response.output_text.delta'', ce_delta := ''hi''\<rparr>,
     no_event\<lparr>ce_type := ''response.completed''\<rparr>]"
  have "\<forall>e \<in> set ?es. \<not> tool_event e" by (simp add: tool_event_def announces_def)
  from stateless_translation_agrees[OF this, of rev] show ?thesis
    by (simp add: TranslateStreamChunk_def extractUsage_def no_event_def)
qed

text \<open>With tool calls it does not: it shows the arguments of a call as text.\<close>

lemma stateless_shows_arguments: "stateless_run img [call_arguments i args] = [ContentChunk args]"
  by (simp add: TranslateStreamChunk_def call_arguments_def silent_types_def)


end
