(* ===== verification/JsonSchema.thy ===== *)
theory JsonSchema
  imports Prelude "HOL-Library.AList"
begin

text \<open>
  Values of \<open>encoding/json\<close> as the code handles them (\<open>any\<close>), and the cleaning of JSON schemas in
  \<open>proxy/translator.go\<close>. An object is the list of its fields, without two of the same key. The code tells values
  apart by their dynamic type; \<open>JMaps\<close> and \<open>JStrings\<close> are the slices \<open>[]map[string]string\<close> and \<open>[]string\<close> that it puts
  into a body itself and that are not a \<open>[]any\<close>.
\<close>

section \<open>Values\<close>

datatype json =
  JNull
| JBool bool
| JNum float64
| JStr string
| JArr "json list"
| JObj "(string \<times> json) list"
| JMaps "(string \<times> string) list list"
| JStrings "string list"

type_synonym fields = "(string \<times> json) list"

abbreviation field :: "fields \<Rightarrow> string \<Rightarrow> json option" where
  "field fs k \<equiv> map_of fs k"

text \<open>\<open>s, _ := v.(string)\<close> and \<open>vs, _ := v.([]any)\<close> of a field.\<close>

definition str_field :: "fields \<Rightarrow> string \<Rightarrow> string" where
  "str_field fs k = (case field fs k of Some (JStr s) \<Rightarrow> s | _ \<Rightarrow> '''')"

definition arr_field :: "fields \<Rightarrow> string \<Rightarrow> json list" where
  "arr_field fs k = (case field fs k of Some (JArr vs) \<Rightarrow> vs | _ \<Rightarrow> [])"

section \<open>Schemas\<close>

definition unsupportedSchemaKeys :: "string list" where
  "unsupportedSchemaKeys =
     [''uniqueItems'', ''minItems'', ''maxItems'', ''minimum'', ''maximum'', ''exclusiveMinimum'', ''exclusiveMaximum'',
      ''multipleOf'', ''pattern'', ''minLength'', ''maxLength'', ''format'', ''minProperties'', ''maxProperties'']"

text \<open>Where a schema holds other schemas: in an object by name, as a value, in an array.\<close>

definition by_name :: "string list" where "by_name = [''properties'', ''$defs'']"
definition by_value :: "string list" where "by_value = [''items'', ''additionalProperties'']"
definition in_array :: "string list" where "in_array = [''allOf'', ''anyOf'', ''oneOf'']"

text \<open>
  The recursion that \<open>stripUnsupportedSchemaKeys\<close> and \<open>ensureArrayItems\<close> share: which keywords stay, and which fields are
  added. It mutates the schema in place; the parts of a parsed value are disjoint. What is added holds no schema
  that would change.
\<close>

function (sequential) walk :: "(string \<Rightarrow> bool) \<Rightarrow> (fields \<Rightarrow> fields) \<Rightarrow> fields \<Rightarrow> fields"
  and walk_fields :: "(string \<Rightarrow> bool) \<Rightarrow> (fields \<Rightarrow> fields) \<Rightarrow> fields \<Rightarrow> fields"
  and walk_at :: "(string \<Rightarrow> bool) \<Rightarrow> (fields \<Rightarrow> fields) \<Rightarrow> string \<Rightarrow> json \<Rightarrow> json"
  and walk_names :: "(string \<Rightarrow> bool) \<Rightarrow> (fields \<Rightarrow> fields) \<Rightarrow> fields \<Rightarrow> fields"
  and walk_value :: "(string \<Rightarrow> bool) \<Rightarrow> (fields \<Rightarrow> fields) \<Rightarrow> json \<Rightarrow> json"
  and walk_array :: "(string \<Rightarrow> bool) \<Rightarrow> (fields \<Rightarrow> fields) \<Rightarrow> json list \<Rightarrow> json list" where
  "walk keep extra fs = walk_fields keep extra fs @ extra fs"
| "walk_fields keep extra [] = []"
| "walk_fields keep extra ((k, v) # fs) =
     (if keep k then (k, walk_at keep extra k v) # walk_fields keep extra fs else walk_fields keep extra fs)"
| "walk_at keep extra k (JObj fs) =
     JObj (if k \<in> set by_name then walk_names keep extra fs
           else if k \<in> set by_value then walk keep extra fs else fs)"
| "walk_at keep extra k (JArr vs) = JArr (if k \<in> set in_array then walk_array keep extra vs else vs)"
| "walk_at keep extra k v = v"
| "walk_names keep extra [] = []"
| "walk_names keep extra ((k, v) # fs) = (k, walk_value keep extra v) # walk_names keep extra fs"
| "walk_value keep extra (JObj fs) = JObj (walk keep extra fs)"
| "walk_value keep extra v = v"
| "walk_array keep extra [] = []"
| "walk_array keep extra (v # vs) = walk_value keep extra v # walk_array keep extra vs"
  by pat_completeness auto

text \<open>A schema counts for its size; what handles a value comes before what handles its parts.\<close>

termination walk
  by (relation "measure (\<lambda>x. case x of
        Inl (Inl (_, _, fs)) \<Rightarrow> 3 * size (JObj fs) + 1
      | Inl (Inr (Inl (_, _, fs))) \<Rightarrow> 3 * size (JObj fs)
      | Inl (Inr (Inr (_, _, _, v))) \<Rightarrow> 3 * size v + 2
      | Inr (Inl (_, _, fs)) \<Rightarrow> 3 * size (JObj fs)
      | Inr (Inr (Inl (_, _, v))) \<Rightarrow> 3 * size v + 2
      | Inr (Inr (Inr (_, _, vs))) \<Rightarrow> 3 * size (JArr vs))") auto

definition stripUnsupportedSchemaKeys :: "fields \<Rightarrow> fields" where
  "stripUnsupportedSchemaKeys = walk (\<lambda>k. k \<notin> set unsupportedSchemaKeys) (\<lambda>_. [])"

definition schemaDeclaresArray :: "fields \<Rightarrow> bool" where
  "schemaDeclaresArray schema \<longleftrightarrow>
     (case field schema ''type'' of
        Some (JStr t) \<Rightarrow> t = ''array''
      | Some (JArr ts) \<Rightarrow> JStr ''array'' \<in> set ts
      | _ \<Rightarrow> False)"

definition missing_items :: "fields \<Rightarrow> fields" where
  "missing_items schema =
     (if schemaDeclaresArray schema \<and> field schema ''items'' = None then [(''items'', JObj [])] else [])"

definition ensureArrayItems :: "fields \<Rightarrow> fields" where
  "ensureArrayItems = walk (\<lambda>_. True) missing_items"

definition sanitizeSchemaForUpstream :: "fields \<Rightarrow> fields" where
  "sanitizeSchemaForUpstream schema = ensureArrayItems (stripUnsupportedSchemaKeys schema)"

end
