(* ===== verification/JsonSchemaLaws.thy ===== *)
theory JsonSchemaLaws
  imports JsonSchema
begin

text \<open>
  What the cleaning of a schema guarantees: no schema inside it, at any depth the upstream looks at, holds a
  keyword the upstream refuses or declares an array without items; cleaning twice changes nothing more.
\<close>

section \<open>Schemas inside a schema\<close>

inductive subschema :: "fields \<Rightarrow> fields \<Rightarrow> bool" where
  here: "subschema fs fs"
| named: "(k, JObj names) \<in> set fs \<Longrightarrow> k \<in> set by_name \<Longrightarrow> (n, JObj sub) \<in> set names \<Longrightarrow> subschema sub s
     \<Longrightarrow> subschema fs s"
| valued: "(k, JObj sub) \<in> set fs \<Longrightarrow> k \<in> set by_value \<Longrightarrow> subschema sub s \<Longrightarrow> subschema fs s"
| arrayed: "(k, JArr vs) \<in> set fs \<Longrightarrow> k \<in> set in_array \<Longrightarrow> JObj sub \<in> set vs \<Longrightarrow> subschema sub s \<Longrightarrow> subschema fs s"

definition refused :: "fields \<Rightarrow> bool" where
  "refused s \<longleftrightarrow> (\<exists>k \<in> set unsupportedSchemaKeys. k \<in> fst ` set s) \<or> missing_items s \<noteq> []"

definition accepted :: "fields \<Rightarrow> bool" where
  "accepted fs \<longleftrightarrow> (\<forall>s. subschema fs s \<longrightarrow> \<not> refused s)"

section \<open>The walk\<close>

lemma walk_fields_eq:
  "walk_fields keep extra fs = map (\<lambda>(k, v). (k, walk_at keep extra k v)) (filter (\<lambda>(k, v). keep k) fs)"
  by (induction fs) auto

lemma walk_names_eq: "walk_names keep extra fs = map (\<lambda>(k, v). (k, walk_value keep extra v)) fs"
  by (induction fs) auto

lemma walk_array_eq: "walk_array keep extra vs = map (walk_value keep extra) vs"
  by (induction vs) auto

lemmas walk_eqs = walk.simps walk_fields_eq walk_names_eq walk_array_eq

lemma walk_value_ObjD: "walk_value keep extra v = JObj fs \<Longrightarrow> \<exists>gs. v = JObj gs \<and> fs = walk keep extra gs"
  by (cases v) auto

lemma walk_at_ObjD:
  "walk_at keep extra k v = JObj fs \<Longrightarrow>
     \<exists>gs. v = JObj gs \<and> fs = (if k \<in> set by_name then walk_names keep extra gs
                                 else if k \<in> set by_value then walk keep extra gs else gs)"
  by (cases v) auto

lemma walk_at_ArrD:
  "walk_at keep extra k v = JArr vs \<Longrightarrow>
     \<exists>ws. v = JArr ws \<and> vs = (if k \<in> set in_array then walk_array keep extra ws else ws)"
  by (cases v) auto

lemma map_of_walk_fields:
  "map_of (walk_fields keep extra fs) k = (if keep k then map_option (walk_at keep extra k) (map_of fs k) else None)"
  by (induction fs) auto

text \<open>A schema inside a walked one is empty or the walk of a schema inside the original.\<close>

lemma subschema_walk:
  assumes "\<And>fs k v. (k, v) \<in> set (extra fs) \<Longrightarrow> v = JObj [] \<and> k \<notin> set by_name"
  shows "subschema gs s \<Longrightarrow> gs = walk keep extra fs \<Longrightarrow> s = [] \<or> (\<exists>t. subschema fs t \<and> s = walk keep extra t)"
proof (induction arbitrary: fs rule: subschema.induct)
  case (here gs)
  then show ?case by (auto intro: subschema.here)
next
  case (named k names gs n sub s)
  then have "(k, JObj names) \<in> set (walk_fields keep extra fs)" using assms by fastforce
  then obtain v where v: "(k, v) \<in> set fs" "walk_at keep extra k v = JObj names" by (auto simp: walk_fields_eq)
  then obtain ns where ns: "v = JObj ns" "names = walk_names keep extra ns"
    using walk_at_ObjD[of keep extra k v names] named.hyps(2) by auto
  then obtain w where "(n, w) \<in> set ns" "walk_value keep extra w = JObj sub"
    using named.hyps(3) by (auto simp: walk_names_eq)
  then obtain sub0 where sub0: "(n, JObj sub0) \<in> set ns" "sub = walk keep extra sub0"
    using walk_value_ObjD by blast
  then show ?case using named.IH[OF sub0(2)] v ns named.hyps(2) by (blast intro: subschema.named)
next
  case (valued k sub gs s)
  show ?case
  proof (cases "(k, JObj sub) \<in> set (extra fs)")
    case True
    then have "sub = []" using assms by fastforce
    then show ?thesis using valued.hyps(3) by (auto elim: subschema.cases)
  next
    case False
    then have "(k, JObj sub) \<in> set (walk_fields keep extra fs)" using valued by auto
    then obtain v where v: "(k, v) \<in> set fs" "walk_at keep extra k v = JObj sub" by (auto simp: walk_fields_eq)
    moreover have "k \<notin> set by_name" using valued.hyps(2) by (auto simp: by_name_def by_value_def)
    ultimately obtain sub0 where "v = JObj sub0" "sub = walk keep extra sub0"
      using walk_at_ObjD[of keep extra k v sub] valued.hyps(2) by auto
    then show ?thesis using valued.IH v valued.hyps(2) by (blast intro: subschema.valued)
  qed
next
  case (arrayed k vs gs sub s)
  then have "(k, JArr vs) \<in> set (walk_fields keep extra fs)" using assms by fastforce
  then obtain v where v: "(k, v) \<in> set fs" "walk_at keep extra k v = JArr vs" by (auto simp: walk_fields_eq)
  then obtain ws where ws: "v = JArr ws" "vs = walk_array keep extra ws"
    using walk_at_ArrD[of keep extra k v vs] arrayed.hyps(2) by auto
  then obtain w where "w \<in> set ws" "walk_value keep extra w = JObj sub"
    using arrayed.hyps(3) by (auto simp: walk_array_eq)
  then obtain sub0 where "JObj sub0 \<in> set ws" "sub = walk keep extra sub0"
    using walk_value_ObjD by blast
  then show ?case using arrayed.IH v ws arrayed.hyps(2) by (blast intro: subschema.arrayed)
qed

text \<open>A walk changes nothing where every schema keeps all its fields and gets none.\<close>

lemma walk_unchanged:
  fixes keep :: "string \<Rightarrow> bool" and extra :: "fields \<Rightarrow> fields"
  defines "fine \<equiv> \<lambda>s. (\<forall>k \<in> fst ` set s. keep k) \<and> extra s = []"
  shows "(\<forall>s. subschema fs s \<longrightarrow> fine s) \<Longrightarrow> walk keep extra fs = fs"
proof (induction "size (JObj fs)" arbitrary: fs rule: less_induct)
  case less
  have top: "\<forall>k \<in> fst ` set fs. keep k" "extra fs = []"
    using less.prems subschema.here[of fs] by (auto simp: fine_def)
  have small: "size (JObj sub) < size (JObj fs)" if "(k, v) \<in> set fs" "size (JObj sub) \<le> size v" for k v sub
    using that by (induction fs) auto
  have sub: "walk keep extra sub = sub"
    if "(k, v) \<in> set fs" "size (JObj sub) \<le> size v" "\<And>s. subschema sub s \<Longrightarrow> subschema fs s" for k v sub
    using less.hyps[OF small[OF that(1,2)]] less.prems that(3) by blast
  have at: "walk_at keep extra k v = v" if kv: "(k, v) \<in> set fs" for k v
  proof (cases v)
    case (JObj gs)
    have "walk_names keep extra gs = gs" if k: "k \<in> set by_name"
    proof -
      have "walk_value keep extra w = w" if w: "(n, w) \<in> set gs" for n w
      proof (cases w)
        case (JObj hs)
        have "size w \<le> size (JObj gs)" using w by (induction gs) auto
        then show ?thesis using sub[OF kv, of hs] JObj \<open>v = JObj gs\<close> kv k w
          by (auto intro: subschema.named)
      qed auto
      then show ?thesis by (induction gs) (auto simp: walk_names_eq)
    qed
    moreover have "walk keep extra gs = gs" if k: "k \<in> set by_value"
      using sub[OF kv, of gs] JObj kv k by (auto intro: subschema.valued)
    ultimately show ?thesis using JObj by (auto simp del: walk.simps)
  next
    case (JArr vs)
    have "walk_array keep extra vs = vs" if k: "k \<in> set in_array"
    proof -
      have "walk_value keep extra w = w" if w: "w \<in> set vs" for w
      proof (cases w)
        case (JObj hs)
        have "size w \<le> size (JArr vs)" using w by (induction vs) auto
        then show ?thesis using sub[OF kv, of hs] JObj \<open>v = JArr vs\<close> kv k w
          by (auto intro: subschema.arrayed)
      qed auto
      then show ?thesis by (induction vs) (auto simp: walk_array_eq)
    qed
    then show ?thesis using JArr by simp
  qed auto
  have "walk_fields keep extra fs = fs"
    unfolding walk_fields_eq using top(1) at by (induction fs) (auto simp: rev_image_eqI)
  with top(2) show ?case by simp
qed

section \<open>Cleaned schemas\<close>

lemma keys_walk: "fst ` set (walk keep extra fs) = {k \<in> fst ` set fs. keep k} \<union> fst ` set (extra fs)"
proof -
  have "fst ` set (walk_fields keep extra fs) = {k \<in> fst ` set fs. keep k}"
  proof (induction fs)
    case (Cons p fs)
    then show ?case by (cases p) (simp, blast)
  qed simp
  then show ?thesis by (simp add: image_Un)
qed

lemma declares_walk:
  "\<forall>p \<in> set (extra fs). fst p \<noteq> ''type'' \<Longrightarrow> keep ''type'' \<Longrightarrow>
     schemaDeclaresArray (walk keep extra fs) = schemaDeclaresArray fs"
proof -
  assume e: "\<forall>p \<in> set (extra fs). fst p \<noteq> ''type''" "keep ''type''"
  then have "map_of (extra fs) ''type'' = None" by (auto simp: map_of_eq_None_iff)
  with e(2) have t: "field (walk keep extra fs) ''type'' = map_option (walk_at keep extra ''type'') (field fs ''type'')"
    by (simp add: map_of_walk_fields map_add_def split: option.splits)
  have "walk_at keep extra ''type'' v = v" for v
    by (cases v) (simp_all add: by_name_def by_value_def in_array_def)
  then have "walk_at keep extra ''type'' = (\<lambda>v. v)" by blast
  with t have "field (walk keep extra fs) ''type'' = field fs ''type''" by (simp only: option.map_ident)
  then show ?thesis unfolding schemaDeclaresArray_def by (rule arg_cong)
qed

lemma missing_items_walk:
  "missing_items (walk (\<lambda>_. True) missing_items fs) = []"
proof (cases "missing_items fs = []")
  case True
  have "schemaDeclaresArray (walk (\<lambda>_. True) missing_items fs) = schemaDeclaresArray fs"
    by (rule declares_walk) (auto simp: missing_items_def split: if_splits)
  then show ?thesis using True
    by (auto simp: missing_items_def map_of_walk_fields map_add_def split: if_splits option.splits)
next
  case False
  then have "missing_items fs = [(''items'', JObj [])]" by (auto simp: missing_items_def split: if_splits)
  then show ?thesis by (simp add: missing_items_def map_add_def split: option.splits)
qed

lemma not_refused_empty: "\<not> refused []"
  by (simp add: refused_def missing_items_def schemaDeclaresArray_def)

lemma sanitize_accepted: "accepted (sanitizeSchemaForUpstream fs)"
  unfolding accepted_def
proof (intro allI impI)
  fix s assume "subschema (sanitizeSchemaForUpstream fs) s"
  then have "s = [] \<or> (\<exists>t. subschema (stripUnsupportedSchemaKeys fs) t \<and> s = walk (\<lambda>_. True) missing_items t)"
    by (intro subschema_walk) (auto simp: sanitizeSchemaForUpstream_def ensureArrayItems_def missing_items_def
        by_name_def split: if_splits)
  then consider "s = []" | t where "subschema (stripUnsupportedSchemaKeys fs) t" "s = walk (\<lambda>_. True) missing_items t"
    by blast
  then show "\<not> refused s"
  proof cases
    case 1
    then show ?thesis by (simp add: not_refused_empty)
  next
    case 2
    then have "t = [] \<or> (\<exists>u. t = walk (\<lambda>k. k \<notin> set unsupportedSchemaKeys) (\<lambda>_. []) u)"
      using subschema_walk[of "\<lambda>_. []" "stripUnsupportedSchemaKeys fs" t] by (auto simp: stripUnsupportedSchemaKeys_def)
    then have "fst ` set t \<inter> set unsupportedSchemaKeys = {}" by (elim disjE exE) (auto simp: keys_walk simp del: walk.simps)
    moreover have "fst ` set (missing_items t) \<inter> set unsupportedSchemaKeys = {}"
      by (auto simp: missing_items_def unsupportedSchemaKeys_def)
    ultimately have "\<forall>k \<in> set unsupportedSchemaKeys. k \<notin> fst ` set s" using 2(2) by (auto simp: keys_walk simp del: walk.simps)
    then show ?thesis using missing_items_walk[of t] 2(2) by (simp add: refused_def)
  qed
qed

lemma accepted_unchanged: "accepted fs \<Longrightarrow> sanitizeSchemaForUpstream fs = fs"
proof -
  assume a: "accepted fs"
  then have k: "\<forall>s. subschema fs s \<longrightarrow> (\<forall>k \<in> fst ` set s. k \<notin> set unsupportedSchemaKeys)"
    and m: "\<forall>s. subschema fs s \<longrightarrow> missing_items s = []" by (auto simp: accepted_def refused_def)
  have "stripUnsupportedSchemaKeys fs = fs"
    unfolding stripUnsupportedSchemaKeys_def by (rule walk_unchanged) (use k in simp)
  moreover have "ensureArrayItems fs = fs"
    unfolding ensureArrayItems_def by (rule walk_unchanged) (use m in simp)
  ultimately show ?thesis by (simp add: sanitizeSchemaForUpstream_def)
qed

text \<open>
  A cleaned schema is one the upstream accepts, at every depth, and a schema is left alone exactly if it is
  accepted as it is; so cleaning again changes nothing.
\<close>

theorem sanitized_schema_is_accepted:
  "accepted (sanitizeSchemaForUpstream fs) \<and>
   (sanitizeSchemaForUpstream fs = fs \<longleftrightarrow> accepted fs) \<and>
   sanitizeSchemaForUpstream (sanitizeSchemaForUpstream fs) = sanitizeSchemaForUpstream fs"
  using sanitize_accepted[of fs] accepted_unchanged[of fs] accepted_unchanged[OF sanitize_accepted[of fs]] by metis

text \<open>A property that has the name of a keyword stays, and so does a schema below keywords the walk does not know.\<close>

lemma property_names_stay:
  "sanitizeSchemaForUpstream [(''properties'', JObj [(''format'', JObj [(''format'', JStr ''uri'')])])] =
     [(''properties'', JObj [(''format'', JObj [])])]"
  "sanitizeSchemaForUpstream [(''definitions'', JObj [(''u'', JObj [(''format'', JStr ''uri'')])])] =
     [(''definitions'', JObj [(''u'', JObj [(''format'', JStr ''uri'')])])]"
  by code_simp+


end
