(* ===== verification/RequestBody.thy ===== *)
theory RequestBody
  imports JsonSchema Translation
begin

text \<open>
  \<open>proxy/translator.go\<close>, \<open>proxy/anthropic.go\<close>, \<open>proxy/response_cache.go\<close> and \<open>proxy/model_overrides.go\<close>: how the body of
  a client's request becomes the body for the upstream. A request arrives as what \<open>json.Unmarshal\<close> makes of it: the
  structs of the code, where a raw message is a value of a datatype that says which of the targets the code tries it
  fits. A body that the code handles as \<open>map[string]any\<close> is a list of fields; updates follow it in place.
\<close>

abbreviation put :: "string \<Rightarrow> json \<Rightarrow> fields \<Rightarrow> fields" where
  "put \<equiv> AList.update"

abbreviation unset :: "string \<Rightarrow> fields \<Rightarrow> fields" where
  "unset \<equiv> AList.delete"

definition maxTools :: nat where "maxTools = 128"

section \<open>Small fields\<close>

definition legal_effort :: "string \<Rightarrow> bool" where
  "legal_effort effort \<longleftrightarrow> to_lower effort \<in> set [''low'', ''medium'', ''high'', ''xhigh'']"

definition normalizeReasoningEffort :: "string \<Rightarrow> string" where
  "normalizeReasoningEffort effort =
     (if effort = '''' then '''' else if legal_effort effort then effort else ''high'')"

definition isAllowedServiceTier :: "string \<Rightarrow> bool" where
  "isAllowedServiceTier tier \<longleftrightarrow> tier \<in> set [''auto'', ''default'', ''flex'', ''priority'', ''scale'', ''fast'']"

definition upstreamServiceTier :: "string \<Rightarrow> string" where
  "upstreamServiceTier tier = (if tier = ''fast'' then ''priority'' else tier)"

definition resolveServiceTier :: "string \<Rightarrow> string \<Rightarrow> string" where
  "resolveServiceTier actualTier requestedTier =
     (let requestedTier = trim_space requestedTier
      in if requestedTier = ''fast'' then requestedTier
         else let actualTier = trim_space actualTier
              in if actualTier \<noteq> '''' then actualTier else requestedTier)"

section \<open>Messages of a chat completion\<close>

record openAIContentPart =
  cp_Type :: string
  cp_Text :: string
  cp_ImageURL :: "string option"

text \<open>
  Content: absent, null, a string, an array (its bytes, and its parts if they can be decoded), anything else (its
  bytes).
\<close>

datatype raw_message =
  RawAbsent
| RawNull
| RawString string
| RawArray string "openAIContentPart list option"
| RawOther string

record openAIToolCall =
  oc_ID :: string
  oc_Name :: string
  oc_Arguments :: string

record openAIMessage =
  om_Role :: string
  om_Content :: raw_message
  om_ToolCalls :: "openAIToolCall list"
  om_ToolCallID :: string

fun rawMessageToString :: "raw_message \<Rightarrow> string" where
  "rawMessageToString RawAbsent = ''''"
| "rawMessageToString RawNull = ''''"
| "rawMessageToString (RawString s) = s"
| "rawMessageToString (RawArray raw _) = raw"
| "rawMessageToString (RawOther raw) = raw"

definition text_part :: "string \<Rightarrow> string \<Rightarrow> json" where
  "text_part ty text = JObj [(''type'', JStr ty), (''text'', JStr text)]"

definition image_part :: "string \<Rightarrow> json" where
  "image_part url = JObj [(''type'', JStr ''input_image''), (''image_url'', JStr url)]"

definition content_part :: "string \<Rightarrow> openAIContentPart \<Rightarrow> json list" where
  "content_part contentType item =
     (if cp_Type item = ''text'' then [text_part contentType (cp_Text item)]
      else if cp_Type item = ''image_url'' then
        (case cp_ImageURL item of
           Some url \<Rightarrow> if url \<noteq> '''' then [image_part url] else []
         | None \<Rightarrow> [])
      else [])"

definition buildContentPartsSlice :: "string \<Rightarrow> raw_message \<Rightarrow> json list" where
  "buildContentPartsSlice role raw =
     (let contentType = (if role = ''assistant'' then ''output_text'' else ''input_text'')
      in case raw of
           RawString s \<Rightarrow> if s = '''' then [] else [text_part contentType s]
         | RawArray _ (Some arr) \<Rightarrow> concat (map (content_part contentType) arr)
         | _ \<Rightarrow> [])"

definition message_item :: "string \<Rightarrow> json list \<Rightarrow> json" where
  "message_item role content =
     JObj [(''type'', JStr ''message''), (''role'', JStr role), (''content'', JArr content)]"

definition call_item :: "string \<Rightarrow> string \<Rightarrow> string \<Rightarrow> json" where
  "call_item call_id name arguments =
     JObj [(''type'', JStr ''function_call''), (''call_id'', JStr call_id), (''name'', JStr name),
           (''arguments'', JStr arguments)]"

definition output_of_call :: "string \<Rightarrow> string \<Rightarrow> json" where
  "output_of_call call_id output =
     JObj [(''type'', JStr ''function_call_output''), (''call_id'', JStr call_id), (''output'', JStr output)]"

definition convert_message :: "openAIMessage \<Rightarrow> json list" where
  "convert_message m =
     (if om_Role m = ''tool'' then [output_of_call (om_ToolCallID m) (rawMessageToString (om_Content m))]
      else if om_Role m = ''assistant'' then
        if om_ToolCalls m \<noteq> []
        then
          let text = rawMessageToString (om_Content m)
          in (if text \<noteq> '''' then [message_item ''assistant'' [text_part ''output_text'' text]] else []) @
             map (\<lambda>tc. call_item (oc_ID tc) (oc_Name tc) (oc_Arguments tc)) (om_ToolCalls m)
        else [message_item ''assistant'' (buildContentPartsSlice ''assistant'' (om_Content m))]
      else if om_Role m = ''system'' then [message_item ''developer'' (buildContentPartsSlice ''system'' (om_Content m))]
      else [message_item ''user'' (buildContentPartsSlice ''user'' (om_Content m))])"

definition convertMessagesToInputSlice :: "openAIMessage list \<Rightarrow> json list" where
  "convertMessagesToInputSlice messages = concat (map convert_message messages)"

section \<open>Tools of a chat completion\<close>

text \<open>Parameters: absent, null, an object, anything else.\<close>

datatype raw_parameters = NoParameters | NullParameters | SchemaParameters fields | OtherParameters

record openAIToolFunc =
  of_Name :: string
  of_Description :: string
  of_Parameters :: raw_parameters
  of_Strict :: "bool option"

text \<open>A tool: its value, and its type and function if it can be decoded.\<close>

record raw_tool =
  rt_json :: json
  rt_parsed :: "(string \<times> openAIToolFunc option) option"

definition convert_parameters :: "raw_parameters \<Rightarrow> json option" where
  "convert_parameters p =
     (case p of
        NoParameters \<Rightarrow> None
      | NullParameters \<Rightarrow> Some JNull
      | SchemaParameters schema \<Rightarrow> Some (JObj (sanitizeSchemaForUpstream schema))
      | OtherParameters \<Rightarrow> None)"

definition with_field :: "string \<Rightarrow> json option \<Rightarrow> fields \<Rightarrow> fields" where
  "with_field k v fs = (case v of None \<Rightarrow> fs | Some v \<Rightarrow> put k v fs)"

definition nonempty :: "string \<Rightarrow> json option" where
  "nonempty s = (if s = '''' then None else Some (JStr s))"

definition convert_tool :: "raw_tool \<Rightarrow> json option" where
  "convert_tool raw =
     (case rt_parsed raw of
        None \<Rightarrow> None
      | Some (ty, fn) \<Rightarrow>
          (case fn of
             Some f \<Rightarrow>
               if ty \<noteq> ''function'' then Some (rt_json raw)
               else Some (JObj (
                 with_field ''strict'' (map_option JBool (of_Strict f)) (
                 with_field ''parameters'' (convert_parameters (of_Parameters f)) (
                 with_field ''description'' (nonempty (of_Description f))
                   [(''type'', JStr ''function''), (''name'', JStr (of_Name f))]))))
           | None \<Rightarrow> Some (rt_json raw)))"

definition convertToolsToCodexFormat :: "raw_tool list \<Rightarrow> json list" where
  "convertToolsToCodexFormat rawTools = List.map_filter convert_tool (take maxTools rawTools)"

section \<open>Image options in the metadata\<close>

definition imageMetadataToolFields :: "(string \<times> string) list" where
  "imageMetadataToolFields =
     [(''image_size'', ''size''), (''image_quality'', ''quality''), (''image_background'', ''background''),
      (''image_output_format'', ''output_format''), (''image_output_compression'', ''output_compression''),
      (''image_moderation'', ''moderation''), (''image_input_fidelity'', ''input_fidelity''),
      (''image_partial_images'', ''partial_images''), (''image_model'', ''model'')]"

definition imageModelsSupportingInputFidelity :: "string list" where
  "imageModelsSupportingInputFidelity = [''gpt-image-1'', ''gpt-image-1.5'', ''gpt-image-1-mini'']"

definition sanitizeImageTool :: "fields \<Rightarrow> fields" where
  "sanitizeImageTool tool =
     (if field tool ''input_fidelity'' = None then tool
      else if str_field tool ''model'' \<notin> set imageModelsSupportingInputFidelity then unset ''input_fidelity'' tool
      else tool)"

definition image_overrides :: "fields \<Rightarrow> fields" where
  "image_overrides md =
     List.map_filter (\<lambda>(mdKey, toolKey).
       case field md mdKey of
         None \<Rightarrow> None
       | Some v \<Rightarrow> if v = JStr '''' then None else Some (toolKey, v)) imageMetadataToolFields"

definition other_metadata :: "fields \<Rightarrow> fields" where
  "other_metadata md = filter (\<lambda>(k, _). k \<notin> fst ` set imageMetadataToolFields) md"

definition put_all :: "fields \<Rightarrow> fields \<Rightarrow> fields" where
  "put_all new fs = fold (\<lambda>(k, v). put k v) new fs"

fun is_image_tool :: "json \<Rightarrow> bool" where
  "is_image_tool (JObj tm) = (field tm ''type'' = Some (JStr ''image_generation''))"
| "is_image_tool _ = False"

fun override_image_tool :: "fields \<Rightarrow> json list \<Rightarrow> json list" where
  "override_image_tool overrides [] =
     [JObj (sanitizeImageTool (put_all overrides [(''type'', JStr ''image_generation'')]))]"
| "override_image_tool overrides (t # ts) =
     (case t of
        JObj tm \<Rightarrow>
          if is_image_tool t then JObj (sanitizeImageTool (put_all overrides tm)) # ts
          else t # override_image_tool overrides ts
      | _ \<Rightarrow> t # override_image_tool overrides ts)"

definition mergeImageMetadataIntoTools :: "fields \<Rightarrow> fields" where
  "mergeImageMetadataIntoTools body =
     (case field body ''metadata'' of
        Some (JObj md) \<Rightarrow>
          if md = [] then body
          else
            let rest = other_metadata md;
                body = (if rest = [] then unset ''metadata'' body else put ''metadata'' (JObj rest) body);
                overrides = image_overrides md
            in if overrides = [] then body
               else put ''tools'' (JArr (override_image_tool overrides (arr_field body ''tools''))) body
      | _ \<Rightarrow> body)"

section \<open>Body of a chat completion\<close>

text \<open>\<open>or_ToolChoice\<close> is \<open>None\<close> when absent, null or not decodable.\<close>

record openAIRequest =
  or_Model :: string
  or_Messages :: "openAIMessage list"
  or_Tools :: "raw_tool list"
  or_ToolChoice :: "json option"
  or_ReasoningEffort :: string
  or_ServiceTier :: string
  or_ServiceTierAlt :: string
  or_Metadata :: fields

definition request_tier :: "openAIRequest \<Rightarrow> json option" where
  "request_tier req =
     (let tier = trim_space (if or_ServiceTier req = '''' then or_ServiceTierAlt req else or_ServiceTier req)
      in if isAllowedServiceTier tier then Some (JStr (upstreamServiceTier tier)) else None)"

definition request_reasoning :: "openAIRequest \<Rightarrow> json option" where
  "request_reasoning req =
     (let effort = normalizeReasoningEffort (or_ReasoningEffort req)
      in if effort \<noteq> '''' then Some (JObj [(''effort'', JStr effort)]) else None)"

definition request_tools :: "openAIRequest \<Rightarrow> json option" where
  "request_tools req =
     (let tools = convertToolsToCodexFormat (or_Tools req) in if tools \<noteq> [] then Some (JArr tools) else None)"

definition TranslateRequest :: "openAIRequest \<Rightarrow> fields" where
  "TranslateRequest req =
     (let out = [(''model'', JStr (or_Model req)), (''stream'', JBool True), (''store'', JBool False),
                 (''include'', JStrings [''reasoning.encrypted_content'']),
                 (''input'', JArr (convertMessagesToInputSlice (or_Messages req)))];
          out = with_field ''reasoning'' (request_reasoning req) out;
          out = with_field ''service_tier'' (request_tier req) out;
          out = with_field ''tools'' (request_tools req) out;
          out = with_field ''tool_choice'' (or_ToolChoice req) out
      in if or_Metadata req \<noteq> []
         then mergeImageMetadataIntoTools (put ''metadata'' (JObj (or_Metadata req)) out)
         else out)"

section \<open>Response cache\<close>

definition responseCacheTTL :: duration where "responseCacheTTL = 10 * minute"
definition responseCacheMaxItems :: nat where "responseCacheMaxItems = 2000"
definition responseCacheMaxPerItem :: nat where "responseCacheMaxPerItem = 200"

record responseCacheEntry =
  re_items :: "json list"
  re_createdAt :: time

type_synonym response_cache = "(string \<times> responseCacheEntry) list"

text \<open>The loop over the map deletes keys, in an order the language leaves open, until the count is used up.\<close>

definition evict :: "string list \<Rightarrow> response_cache \<Rightarrow> response_cache" where
  "evict order store = fold AList.delete (take (responseCacheMaxItems div 10) order) store"

definition setResponseCache ::
  "string list \<Rightarrow> string \<Rightarrow> json list \<Rightarrow> time \<Rightarrow> response_cache \<Rightarrow> response_cache" where
  "setResponseCache order responseID items now store =
     (let items = (if length items > responseCacheMaxPerItem then drop (length items - responseCacheMaxPerItem) items
                   else items);
          store = (if length store \<ge> responseCacheMaxItems then evict order store else store)
      in AList.update responseID \<lparr>re_items = items, re_createdAt = now\<rparr> store)"

definition getResponseCache :: "string \<Rightarrow> time \<Rightarrow> response_cache \<Rightarrow> response_cache \<times> json list option" where
  "getResponseCache responseID now store =
     (case map_of store responseID of
        None \<Rightarrow> (store, None)
      | Some entry \<Rightarrow>
          if go_sub now (re_createdAt entry) > responseCacheTTL then (AList.delete responseID store, None)
          else (store, Some (re_items entry)))"

definition respCacheCleanup :: "time \<Rightarrow> response_cache \<Rightarrow> response_cache" where
  "respCacheCleanup now store = filter (\<lambda>(k, v). \<not> go_sub now (re_createdAt v) > responseCacheTTL) store"

fun is_function_call :: "json \<Rightarrow> bool" where
  "is_function_call (JObj item) = (field item ''type'' = Some (JStr ''function_call''))"
| "is_function_call _ = False"

text \<open>Every item of a body can be marshalled.\<close>

fun stripResponseItemID :: "json \<Rightarrow> json" where
  "stripResponseItemID (JObj item) = JObj (unset ''id'' item)"
| "stripResponseItemID v = v"

text \<open>The expanded input is kept as text and parsed again.\<close>

fun parsed_again :: "json \<Rightarrow> json" where
  "parsed_again (JMaps ms) = JArr (map (\<lambda>m. JObj (map (\<lambda>(k, v). (k, JStr v)) m)) ms)"
| "parsed_again (JStrings ss) = JArr (map JStr ss)"
| "parsed_again v = v"

text \<open>
  \<open>respID\<close> and \<open>output\<close> are \<open>response.id\<close> and \<open>response.output\<close> of the event, the latter if it is an array.
\<close>

definition cacheCompletedResponse ::
  "string list \<Rightarrow> json option \<Rightarrow> string \<Rightarrow> json list option \<Rightarrow> time \<Rightarrow> response_cache \<Rightarrow> response_cache" where
  "cacheCompletedResponse order expandedInput respID output now store =
     (if respID = '''' then store
      else case output of
        None \<Rightarrow> store
      | Some items \<Rightarrow>
          if \<not> list_ex is_function_call items then store
          else
            let inputs = (case map_option parsed_again expandedInput of Some (JArr vs) \<Rightarrow> map stripResponseItemID vs | _ \<Rightarrow> []);
                calls = map stripResponseItemID (filter is_function_call items)
            in if inputs @ calls \<noteq> [] then setResponseCache order respID (inputs @ calls) now store else store)"

definition inputHasToolCallContext :: "json list \<Rightarrow> bool" where
  "inputHasToolCallContext input = list_ex is_function_call input"

text \<open>\<open>expandPreviousResponse\<close>, which nothing calls: the body and the id.\<close>

definition expandPreviousResponse ::
  "(json \<Rightarrow> string) \<Rightarrow> time \<Rightarrow> response_cache \<Rightarrow> fields \<Rightarrow> response_cache \<times> fields \<times> string" where
  "expandPreviousResponse text_of_value now store body =
     (let prevID = (case field body ''previous_response_id'' of
                      None \<Rightarrow> '''' | Some JNull \<Rightarrow> '''' | Some (JStr s) \<Rightarrow> s | Some v \<Rightarrow> text_of_value v)
      in if prevID = '''' then (store, body, '''')
         else if inputHasToolCallContext (arr_field body ''input'') then (store, body, prevID)
         else case getResponseCache prevID now store of
           (store, None) \<Rightarrow> (store, body, prevID)
         | (store, Some cached) \<Rightarrow> (store, put ''input'' (JArr (cached @ arr_field body ''input'')) body, prevID))"

section \<open>Body of a Responses request\<close>

definition require_fields :: "fields \<Rightarrow> fields" where
  "require_fields body =
     (let body = put ''store'' (JBool False) (put ''stream'' (JBool True) body)
      in if field body ''include'' = None then put ''include'' (JStrings [''reasoning.encrypted_content'']) body else body)"

definition wrap_input :: "fields \<Rightarrow> fields" where
  "wrap_input body =
     (case field body ''input'' of
        Some (JStr inputStr) \<Rightarrow> put ''input'' (JMaps [[(''role'', ''user''), (''content'', inputStr)]]) body
      | _ \<Rightarrow> body)"

definition move_effort :: "fields \<Rightarrow> fields" where
  "move_effort body =
     (if str_field body ''reasoning_effort'' = '''' then body
      else
        let reasoning = (case field body ''reasoning'' of Some (JObj fs) \<Rightarrow> fs | _ \<Rightarrow> [])
        in if field reasoning ''effort'' = None
           then put ''reasoning'' (JObj (put ''effort'' (JStr (str_field body ''reasoning_effort'')) reasoning)) body
           else body)"

definition clamp_effort :: "fields \<Rightarrow> fields" where
  "clamp_effort body =
     (case field body ''reasoning'' of
        Some (JObj reasoning) \<Rightarrow>
          let effort = str_field reasoning ''effort''
          in if effort \<noteq> '''' \<and> \<not> legal_effort effort
             then put ''reasoning'' (JObj (put ''effort'' (JStr ''high'') reasoning)) body
             else body
      | _ \<Rightarrow> body)"

definition clean_tier :: "fields \<Rightarrow> fields" where
  "clean_tier body =
     (let body = unset ''serviceTier'' body
      in case field body ''service_tier'' of
           Some (JStr tier) \<Rightarrow>
             let tier = trim_space tier
             in if \<not> isAllowedServiceTier tier then unset ''service_tier'' body
                else put ''service_tier'' (JStr (upstreamServiceTier tier)) body
         | _ \<Rightarrow> body)"

definition tool_search_description :: string where
  "tool_search_description = ''Search through available tools to find the most relevant one for the task.''"

fun clean_tool :: "json \<Rightarrow> json" where
  "clean_tool (JObj tm) =
     (let tm = (if str_field tm ''type'' = ''tool_search'' \<and> str_field tm ''description'' = ''''
                then put ''description'' (JStr tool_search_description) tm else tm)
      in JObj (case field tm ''parameters'' of
                 Some (JObj params) \<Rightarrow> put ''parameters'' (JObj (sanitizeSchemaForUpstream params)) tm
               | _ \<Rightarrow> tm))"
| "clean_tool t = t"

definition clean_tools :: "fields \<Rightarrow> fields" where
  "clean_tools body =
     (case field body ''tools'' of
        Some (JArr tools) \<Rightarrow> put ''tools'' (JArr (map clean_tool (take maxTools tools))) body
      | _ \<Rightarrow> body)"

text \<open>\<open>cached\<close> is the answer of the cache for an id.\<close>

definition expand_input :: "(string \<Rightarrow> json list option) \<Rightarrow> fields \<Rightarrow> fields" where
  "expand_input cached body =
     (let prevID = str_field body ''previous_response_id''
      in if prevID = '''' then body
         else case cached prevID of
           None \<Rightarrow> body
         | Some items \<Rightarrow> put ''input'' (JArr (items @ arr_field body ''input'')) body)"

definition unsupported_fields :: "string list" where
  "unsupported_fields =
     [''max_output_tokens'', ''max_tokens'', ''max_completion_tokens'', ''temperature'', ''top_p'', ''frequency_penalty'',
      ''presence_penalty'', ''logprobs'', ''top_logprobs'', ''n'', ''seed'', ''stop'', ''user'', ''logit_bias'',
      ''response_format'', ''serviceTier'', ''stream_options'', ''reasoning_effort'', ''truncation'',
      ''context_management'', ''disable_response_storage'', ''verbosity'']"

definition drop_unsupported :: "fields \<Rightarrow> fields" where
  "drop_unsupported body = fold AList.delete unsupported_fields body"

text \<open>A body that is an object: the body for the upstream and the expanded input.\<close>

definition PrepareResponsesBody :: "(string \<Rightarrow> json list option) \<Rightarrow> fields \<Rightarrow> fields \<times> json option" where
  "PrepareResponsesBody cached body =
     (let body = expand_input cached (mergeImageMetadataIntoTools (clean_tools (clean_tier (clamp_effort (move_effort
                   (wrap_input (require_fields body)))))))
      in (drop_unsupported body, field body ''input''))"

definition PrepareCompactResponsesBody :: "(string \<Rightarrow> json list option) \<Rightarrow> fields \<Rightarrow> fields \<times> json option" where
  "PrepareCompactResponsesBody cached body =
     (let (body, expanded) = PrepareResponsesBody cached body
      in (unset ''stream'' (unset ''store'' (unset ''include'' body)), expanded))"

section \<open>Cache of parsed requests\<close>

text \<open>
  The list of elements, most recent first, and the map of keys to elements. A key is the SHA-256 of a body; an
  element is found by its key.
\<close>

record requestCache =
  rc_order :: "(string \<times> openAIRequest) list"
  rc_items :: "string \<Rightarrow> bool"

definition requestCacheSize :: nat where "requestCacheSize = 256"

definition move_to_front :: "string \<Rightarrow> openAIRequest \<Rightarrow> (string \<times> openAIRequest) list \<Rightarrow> (string \<times> openAIRequest) list" where
  "move_to_front key req order = (key, req) # AList.delete key order"

definition rc_get :: "requestCache \<Rightarrow> string \<Rightarrow> requestCache \<times> openAIRequest option" where
  "rc_get c key =
     (if \<not> rc_items c key then (c, None)
      else case map_of (rc_order c) key of
        None \<Rightarrow> (c, None)
      | Some req \<Rightarrow> (c\<lparr>rc_order := move_to_front key req (rc_order c)\<rparr>, Some req))"

definition rc_put :: "requestCache \<Rightarrow> string \<Rightarrow> openAIRequest \<Rightarrow> requestCache" where
  "rc_put c key req =
     (if rc_items c key then c\<lparr>rc_order := move_to_front key req (rc_order c)\<rparr>
      else
        let c = c\<lparr>rc_order := (key, req) # rc_order c, rc_items := (rc_items c)(key := True)\<rparr>
        in if length (rc_order c) \<le> requestCacheSize then c
           else c\<lparr>rc_order := butlast (rc_order c), rc_items := (rc_items c)(fst (List.last (rc_order c)) := False)\<rparr>)"

definition no_request :: openAIRequest where
  "no_request = \<lparr>or_Model = '''', or_Messages = [], or_Tools = [], or_ToolChoice = None, or_ReasoningEffort = '''',
     or_ServiceTier = '''', or_ServiceTierAlt = '''', or_Metadata = []\<rparr>"

definition cachedOrParse ::
  "(string \<Rightarrow> string) \<Rightarrow> (string \<Rightarrow> openAIRequest) \<Rightarrow> requestCache \<Rightarrow> string \<Rightarrow> requestCache \<times> openAIRequest" where
  "cachedOrParse sha256 unmarshal c rawJSON =
     (if rawJSON = '''' then (c, no_request)
      else
        let key = sha256 rawJSON
        in case rc_get c key of
             (c, Some req) \<Rightarrow> (c, req)
           | (c, None) \<Rightarrow> (rc_put c key (unmarshal rawJSON), unmarshal rawJSON))"

section \<open>Virtual models\<close>

text \<open>What \<open>gjson\<close> says of a value.\<close>

record gjson_value =
  gv_string :: string
  gv_bool :: bool
  gv_num :: float64

definition string_or_null :: "json \<Rightarrow> string option" where
  "string_or_null v = (case v of JStr s \<Rightarrow> Some s | JNull \<Rightarrow> Some '''' | _ \<Rightarrow> None)"

definition num_or_null :: "json \<Rightarrow> float64 option" where
  "num_or_null v = (case v of JNum n \<Rightarrow> Some n | JNull \<Rightarrow> Some 0 | _ \<Rightarrow> None)"

text \<open>The attempts to decode: string, array of strings, bool, number, array of numbers.\<close>

definition matchJSONValue :: "gjson_value \<Rightarrow> json \<Rightarrow> bool" where
  "matchJSONValue val expected =
     (case expected of
        JStr s \<Rightarrow> gv_string val = s
      | JNull \<Rightarrow> gv_string val = ''''
      | JArr vs \<Rightarrow>
          (if list_all (\<lambda>v. string_or_null v \<noteq> None) vs then Some (gv_string val) \<in> set (map string_or_null vs)
           else if list_all (\<lambda>v. num_or_null v \<noteq> None) vs then Some (gv_num val) \<in> set (map num_or_null vs)
           else False)
      | JBool b \<Rightarrow> gv_bool val = b
      | JNum n \<Rightarrow> gv_num val = n
      | _ \<Rightarrow> False)"

record ModelOverride =
  mo_BaseModel :: string
  mo_Inject :: fields
  mo_ResponseAlias :: string
  mo_SkipIf :: fields

text \<open>\<open>lookup\<close> is \<open>gjson.GetBytes(rawBody, path)\<close>, if the value exists.\<close>

definition shouldSkipOverride :: "(string \<Rightarrow> gjson_value option) \<Rightarrow> fields \<Rightarrow> bool" where
  "shouldSkipOverride lookup skipIf =
     list_ex (\<lambda>(path, expected). case lookup path of None \<Rightarrow> False | Some val \<Rightarrow> matchJSONValue val expected) skipIf"

definition usable_overrides :: "(string \<times> ModelOverride) list \<Rightarrow> (string \<times> ModelOverride) list" where
  "usable_overrides m = filter (\<lambda>(name, cfg). mo_BaseModel cfg \<noteq> '''') m"

definition ApplyModelOverride ::
  "(string \<Rightarrow> gjson_value option) \<Rightarrow> fields \<Rightarrow> (string \<times> ModelOverride) list \<Rightarrow> fields \<times> ModelOverride option" where
  "ApplyModelOverride lookup body overrides =
     (case field body ''model'' of
        None \<Rightarrow> (body, None)
      | Some modelRaw \<Rightarrow>
          (case string_or_null modelRaw of
             None \<Rightarrow> (body, None)
           | Some modelName \<Rightarrow>
               (case map_of overrides modelName of
                  None \<Rightarrow> (body, None)
                | Some override \<Rightarrow>
                    if shouldSkipOverride lookup (mo_SkipIf override) then (body, None)
                    else (put_all (mo_Inject override) (put ''model'' (JStr (mo_BaseModel override)) body),
                          Some override))))"

text \<open>A list of objects (or nulls) whose \<open>type\<close> is a string, null or absent; otherwise it cannot be decoded.\<close>

fun tool_type :: "json \<Rightarrow> string option" where
  "tool_type (JObj fs) = (case field fs ''type'' of None \<Rightarrow> Some '''' | Some v \<Rightarrow> string_or_null v)"
| "tool_type JNull = Some ''''"
| "tool_type _ = None"

definition InjectsImageGeneration :: "ModelOverride \<Rightarrow> bool" where
  "InjectsImageGeneration ov \<longleftrightarrow>
     (case field (mo_Inject ov) ''tool_choice'' of None \<Rightarrow> False | Some tc \<Rightarrow> tool_type tc = Some ''image_generation'') \<or>
     (case field (mo_Inject ov) ''tools'' of
        Some (JArr ts) \<Rightarrow> list_all (\<lambda>t. tool_type t \<noteq> None) ts \<and> Some ''image_generation'' \<in> set (map tool_type ts)
      | _ \<Rightarrow> False)"

section \<open>Body of a Messages request\<close>

text \<open>
  Content: absent or null, a string, an array of blocks (its bytes and the blocks), anything else (its bytes). A
  block is a flat struct: type, text, image source (media type and data), id, name, input, tool use id, content.
\<close>

datatype raw_content =
  ContentAbsent
| ContentString string
| ContentBlocks string "anthropicContentBlock list"
| ContentOther string
and anthropicContentBlock =
  Block (bk_Type: string) (bk_Text: string) (bk_Source: "(string \<times> string) option") (bk_ID: string) (bk_Name: string)
    (bk_Input: string) (bk_ToolUseID: string) (bk_Content: raw_content)

definition text_block :: "string \<Rightarrow> anthropicContentBlock" where
  "text_block s = Block ''text'' s None '''' '''' '''' '''' ContentAbsent"

fun join :: "string \<Rightarrow> string list \<Rightarrow> string" where
  "join sep [] = ''''"
| "join sep [s] = s"
| "join sep (s # t # ts) = s @ sep @ join sep (t # ts)"

definition block_texts :: "anthropicContentBlock list \<Rightarrow> string list" where
  "block_texts blocks = map bk_Text (filter (\<lambda>b. bk_Type b = ''text'' \<and> bk_Text b \<noteq> '''') blocks)"

definition newline :: string where "newline = [CHR 0x0A]"

fun parseAnthropicSystem :: "raw_content \<Rightarrow> string" where
  "parseAnthropicSystem ContentAbsent = ''''"
| "parseAnthropicSystem (ContentString s) = s"
| "parseAnthropicSystem (ContentBlocks _ blocks) = join (newline @ newline) (block_texts blocks)"
| "parseAnthropicSystem (ContentOther _) = ''''"

fun parseAnthropicContent :: "raw_content \<Rightarrow> anthropicContentBlock list" where
  "parseAnthropicContent ContentAbsent = []"
| "parseAnthropicContent (ContentString s) = [text_block s]"
| "parseAnthropicContent (ContentBlocks _ blocks) = blocks"
| "parseAnthropicContent (ContentOther _) = []"

fun extractToolResultText :: "raw_content \<Rightarrow> string" where
  "extractToolResultText ContentAbsent = ''''"
| "extractToolResultText (ContentString s) = s"
| "extractToolResultText (ContentBlocks _ blocks) = join newline (block_texts blocks)"
| "extractToolResultText (ContentOther raw) = raw"

definition data_uri :: "string \<times> string \<Rightarrow> string" where
  "data_uri source = ''data:'' @ fst source @ '';base64,'' @ snd source"

text \<open>The loop over the blocks of a user: the input and the parts so far.\<close>

fun user_block :: "json list \<times> json list \<Rightarrow> anthropicContentBlock \<Rightarrow> json list \<times> json list" where
  "user_block (input, parts) b =
     (if bk_Type b = ''text'' then (input, parts @ [text_part ''input_text'' (bk_Text b)])
      else if bk_Type b = ''image'' then
        (case bk_Source b of
           Some source \<Rightarrow> (input, parts @ [image_part (data_uri source)])
         | None \<Rightarrow> (input, parts))
      else if bk_Type b = ''tool_result'' then
        (input @ [output_of_call (toCodexCallID (bk_ToolUseID b)) (extractToolResultText (bk_Content b))], parts)
      else (input, parts))"

definition flush :: "string \<Rightarrow> json list \<times> json list \<Rightarrow> json list" where
  "flush role ip = (if snd ip \<noteq> [] then fst ip @ [message_item role (snd ip)] else fst ip)"

definition appendUserBlocks :: "json list \<Rightarrow> anthropicContentBlock list \<Rightarrow> json list" where
  "appendUserBlocks input blocks = flush ''user'' (foldl user_block (input, []) blocks)"

fun assistant_block ::
  "json_codec \<Rightarrow> json list \<times> json list \<Rightarrow> anthropicContentBlock \<Rightarrow> json list \<times> json list" where
  "assistant_block codec (input, parts) b =
     (if bk_Type b = ''text'' then (input, parts @ [text_part ''output_text'' (bk_Text b)])
      else if bk_Type b = ''tool_use'' then
        let cleaned = (if bk_Input b = '''' then '''' else sanitizeToolInputJSON codec (bk_Input b));
            args = (if cleaned \<noteq> '''' then cleaned else ''{}'')
        in (flush ''assistant'' (input, parts) @ [call_item (toCodexCallID (bk_ID b)) (bk_Name b) args], [])
      else (input, parts))"

definition appendAssistantBlocks :: "json_codec \<Rightarrow> json list \<Rightarrow> anthropicContentBlock list \<Rightarrow> json list" where
  "appendAssistantBlocks codec input blocks = flush ''assistant'' (foldl (assistant_block codec) (input, []) blocks)"

type_synonym anthropicMessage = "string \<times> raw_content"

definition append_turn :: "json_codec \<Rightarrow> json list \<Rightarrow> anthropicMessage \<Rightarrow> json list" where
  "append_turn codec input m =
     (let blocks = parseAnthropicContent (snd m)
      in if fst m = ''user'' then appendUserBlocks input blocks
         else if fst m = ''assistant'' then appendAssistantBlocks codec input blocks
         else input)"

definition buildCodexInput :: "json_codec \<Rightarrow> raw_content \<Rightarrow> anthropicMessage list \<Rightarrow> json list" where
  "buildCodexInput codec system messages =
     (let sysText = parseAnthropicSystem system;
          input = (if sysText \<noteq> '''' then [message_item ''developer'' [text_part ''input_text'' sysText]] else [])
      in foldl (append_turn codec) input messages)"

record anthropicTool =
  an_Name :: string
  an_Description :: string
  an_InputSchema :: raw_parameters

definition convertAnthropicTools :: "anthropicTool list \<Rightarrow> json list" where
  "convertAnthropicTools tools =
     take maxTools (map (\<lambda>t. JObj (
       with_field ''parameters'' (convert_parameters (an_InputSchema t)) (
       with_field ''description'' (nonempty (an_Description t))
         [(''type'', JStr ''function''), (''name'', JStr (an_Name t))]))) tools)"

text \<open>\<open>tool_choice\<close>: type and name if it can be decoded (null and absent cannot).\<close>

definition convertAnthropicToolChoice :: "(string \<times> string) option \<Rightarrow> json option" where
  "convertAnthropicToolChoice tc =
     (case tc of
        None \<Rightarrow> None
      | Some (ty, name) \<Rightarrow>
          if ty = ''auto'' then Some (JStr ''auto'')
          else if ty = ''any'' then Some (JStr ''required'')
          else if ty = ''none'' then Some (JStr ''none'')
          else if ty = ''tool'' then
            (if name \<noteq> ''''
             then Some (JObj [(''type'', JStr ''function''), (''function'', JObj [(''name'', JStr name)])])
             else Some (JStr ''auto''))
          else None)"

record anthropicRequest =
  ar_Model :: string
  ar_System :: raw_content
  ar_Messages :: "anthropicMessage list"
  ar_Tools :: "anthropicTool list"
  ar_Thinking :: "(string \<times> int) option"
  ar_ToolChoice :: "(string \<times> string) option"

definition TranslateAnthropicToCodex ::
  "json_codec \<Rightarrow> string list \<Rightarrow> (string \<Rightarrow> string option) option \<Rightarrow> anthropicRequest \<Rightarrow> fields \<times> string" where
  "TranslateAnthropicToCodex codec SupportedModels mapping req =
     (let out = [(''model'', JStr (resolveAnthropicModel SupportedModels mapping (ar_Model req))),
                 (''stream'', JBool True), (''store'', JBool False),
                 (''include'', JStrings [''reasoning.encrypted_content'']),
                 (''input'', JArr (buildCodexInput codec (ar_System req) (ar_Messages req)))];
          effort = resolveReasoningEffort (ar_Thinking req);
          out = with_field ''reasoning''
                  (if effort \<noteq> '''' \<and> effort \<noteq> ''high'' then Some (JObj [(''effort'', JStr effort)]) else None) out;
          out = with_field ''tools''
                  (if ar_Tools req \<noteq> [] then Some (JArr (convertAnthropicTools (ar_Tools req))) else None) out;
          out = with_field ''tool_choice'' (convertAnthropicToolChoice (ar_ToolChoice req)) out
      in (out, ar_Model req))"


end
