(* ===== verification/RequestBodyLaws.thy ===== *)
theory RequestBodyLaws
  imports JsonSchemaLaws RequestBody
begin

text \<open>
  What the rewriting of request bodies guarantees: the body of a Responses request holds nothing the upstream
  refuses; tool calls and their outputs keep their ids in every format; a conversation continues from the
  response cache, which stays bounded; parsing through the request cache gives what parsing gives.
\<close>

section \<open>Fields\<close>

lemma field_put: "field (put k v fs) k' = (if k' = k then Some v else field fs k')"
  by (simp add: AList.update_conv')

lemma field_unset: "field (unset k fs) k' = (if k' = k then None else field fs k')"
  by (simp add: AList.delete_conv')

lemma field_unset_all: "field (fold AList.delete ks fs) k = (if k \<in> set ks then None else field fs k)"
  by (induction ks arbitrary: fs) (auto simp: field_unset)

lemma field_with: "field (with_field k v fs) k' = (if k' = k \<and> v \<noteq> None then v else field fs k')"
  by (auto simp: with_field_def field_put split: option.splits)

lemma str_field_put: "str_field (put k (JStr s) fs) k' = (if k' = k then s else str_field fs k')"
  by (simp add: str_field_def field_put)

lemmas field_simps' = field_put field_unset field_with

section \<open>Steps of a Responses body\<close>

text \<open>Which step may touch which field.\<close>

lemma require_other: "k \<notin> {''stream'', ''store'', ''include''} \<Longrightarrow> field (require_fields body) k = field body k"
  by (simp add: require_fields_def field_put Let_def)

lemma wrap_other: "k \<noteq> ''input'' \<Longrightarrow> field (wrap_input body) k = field body k"
  by (simp add: wrap_input_def field_put split: option.splits json.splits)

lemma move_other: "k \<noteq> ''reasoning'' \<Longrightarrow> field (move_effort body) k = field body k"
  by (simp add: move_effort_def field_put Let_def)

lemma clamp_other: "k \<noteq> ''reasoning'' \<Longrightarrow> field (clamp_effort body) k = field body k"
  by (simp add: clamp_effort_def field_put Let_def split: option.splits json.splits)

lemma tier_other: "k \<notin> {''serviceTier'', ''service_tier''} \<Longrightarrow> field (clean_tier body) k = field body k"
  by (auto simp: clean_tier_def field_put field_unset Let_def split: option.splits json.splits)

lemma tools_other: "k \<noteq> ''tools'' \<Longrightarrow> field (clean_tools body) k = field body k"
  by (simp add: clean_tools_def field_put split: option.splits json.splits)

lemma merge_other: "k \<notin> {''tools'', ''metadata''} \<Longrightarrow> field (mergeImageMetadataIntoTools body) k = field body k"
  by (auto simp: mergeImageMetadataIntoTools_def field_put field_unset Let_def split: option.splits json.splits)

lemma expand_other: "k \<noteq> ''input'' \<Longrightarrow> field (expand_input cached body) k = field body k"
  by (simp add: expand_input_def field_put Let_def split: option.splits)

lemma drop_field: "field (drop_unsupported body) k = (if k \<in> set unsupported_fields then None else field body k)"
  by (simp add: drop_unsupported_def field_unset_all)

lemmas other_fields = require_other wrap_other move_other clamp_other tier_other tools_other merge_other expand_other
  drop_field

lemma fst_prepare:
  "fst (PrepareResponsesBody cached body) = drop_unsupported (expand_input cached (mergeImageMetadataIntoTools
     (clean_tools (clean_tier (clamp_effort (move_effort (wrap_input (require_fields body))))))))"
  by (simp add: PrepareResponsesBody_def Let_def)

lemma kept_fields:
  "''stream'' \<notin> set unsupported_fields" "''store'' \<notin> set unsupported_fields" "''input'' \<notin> set unsupported_fields"
  "''tools'' \<notin> set unsupported_fields" "''reasoning'' \<notin> set unsupported_fields"
  "''service_tier'' \<notin> set unsupported_fields"
  by (simp_all add: unsupported_fields_def)

section \<open>Input and its history\<close>

lemma prepared_input:
  "field (fst (PrepareResponsesBody cached body)) ''input'' =
     (case cached (str_field body ''previous_response_id'') of
        Some items \<Rightarrow>
          if str_field body ''previous_response_id'' = '''' then field (wrap_input body) ''input''
          else Some (JArr (items @ arr_field (wrap_input body) ''input''))
      | None \<Rightarrow> field (wrap_input body) ''input'')"
proof -
  let ?b = "mergeImageMetadataIntoTools (clean_tools (clean_tier (clamp_effort (move_effort (wrap_input
    (require_fields body))))))"
  have w: "field (wrap_input (require_fields body)) ''input'' = field (wrap_input body) ''input''"
    by (simp add: wrap_input_def require_other field_put split: option.splits json.splits)
  have i: "field ?b ''input'' = field (wrap_input body) ''input''"
    by (simp add: other_fields w)
  have p: "str_field ?b ''previous_response_id'' = str_field body ''previous_response_id''"
    by (simp add: str_field_def other_fields)
  have a: "arr_field ?b ''input'' = arr_field (wrap_input body) ''input''" by (simp add: arr_field_def i)
  have "field (fst (PrepareResponsesBody cached body)) ''input'' = field (expand_input cached ?b) ''input''"
    by (simp add: fst_prepare drop_field kept_fields)
  also have "\<dots> = (case cached (str_field body ''previous_response_id'') of
        Some items \<Rightarrow>
          if str_field body ''previous_response_id'' = '''' then field (wrap_input body) ''input''
          else Some (JArr (items @ arr_field (wrap_input body) ''input''))
      | None \<Rightarrow> field (wrap_input body) ''input'')"
    unfolding expand_input_def Let_def p by (auto simp: i a field_put split: option.splits)
  finally show ?thesis .
qed

text \<open>
  A request that continues a stored conversation with a plain string: the string never reaches the upstream. It
  has been wrapped into a slice that the merge does not recognise as a list.
\<close>

theorem string_input_is_lost:
  assumes "field body ''input'' = Some (JStr s)" "str_field body ''previous_response_id'' = r" "r \<noteq> ''''"
    and "cached r = Some items"
  shows "field (fst (PrepareResponsesBody cached body)) ''input'' = Some (JArr items)"
  using assms by (simp add: prepared_input wrap_input_def arr_field_def field_put)

definition stored_call :: json where "stored_call = call_item ''call_1'' ''Read'' ''{}''"

definition follow_up :: "json \<Rightarrow> fields" where
  "follow_up input = [(''input'', input), (''previous_response_id'', JStr ''resp_1'')]"

lemma string_input_is_lost_witness:
  "field (fst (PrepareResponsesBody [''resp_1'' \<mapsto> [stored_call]] (follow_up (JStr ''go on'')))) ''input'' =
     Some (JArr [stored_call])"
  by (rule string_input_is_lost) (simp_all add: follow_up_def str_field_def)

text \<open>
  A client that sends the calls of the conversation itself gets them twice into the input. The guard against that
  is in \<open>expandPreviousResponse\<close>, which is not used.
\<close>

theorem expansion_repeats_calls:
  assumes "field body ''input'' = Some (JArr vs)" "field body ''previous_response_id'' = Some (JStr r)" "r \<noteq> ''''"
    and "getResponseCache r now store = (store, Some items)" "is_function_call c" "c \<in> set items" "c \<in> set vs"
  shows "field (fst (PrepareResponsesBody (\<lambda>q. snd (getResponseCache q now store)) body)) ''input'' =
           Some (JArr (items @ vs)) \<and>
         2 \<le> count_list (items @ vs) c \<and>
         expandPreviousResponse text now store body = (store, body, r)"
proof (intro conjI)
  show "field (fst (PrepareResponsesBody (\<lambda>q. snd (getResponseCache q now store)) body)) ''input'' =
           Some (JArr (items @ vs))"
    using assms by (simp add: prepared_input wrap_input_def str_field_def arr_field_def)
  have "1 \<le> count_list items c" "1 \<le> count_list vs c"
    using assms(6,7) count_list_0_iff[of items c] count_list_0_iff[of vs c] by (simp_all add: Suc_le_eq)
  then show "2 \<le> count_list (items @ vs) c" by simp
  have "inputHasToolCallContext vs" using assms(5,7) by (auto simp: inputHasToolCallContext_def list_ex_iff)
  then show "expandPreviousResponse text now store body = (store, body, r)"
    using assms by (simp add: expandPreviousResponse_def arr_field_def)
qed

lemma expansion_repeats_calls_witness:
  "2 \<le> count_list ([stored_call] @ [stored_call]) stored_call \<and>
   expandPreviousResponse (\<lambda>_. '''') 0 [(''resp_1'', \<lparr>re_items = [stored_call], re_createdAt = 0\<rparr>)]
     (follow_up (JArr [stored_call])) =
   ([(''resp_1'', \<lparr>re_items = [stored_call], re_createdAt = 0\<rparr>)], follow_up (JArr [stored_call]), ''resp_1'')"
  using expansion_repeats_calls[of "follow_up (JArr [stored_call])" "[stored_call]" "''resp_1''" 0
      "[(''resp_1'', \<lparr>re_items = [stored_call], re_createdAt = 0\<rparr>)]" "[stored_call]" stored_call "\<lambda>_. ''''"]
  by (simp add: follow_up_def getResponseCache_def responseCacheTTL_def stored_call_def call_item_def)

section \<open>Response cache\<close>

definition kept_items :: "json list \<Rightarrow> json list" where
  "kept_items items = drop (length items - responseCacheMaxPerItem) items"

lemma length_kept_items: "length (kept_items items) \<le> responseCacheMaxPerItem"
  by (simp add: kept_items_def)

lemma set_then_get:
  assumes "0 \<le> later - now" "later - now \<le> responseCacheTTL"
  shows "getResponseCache r later (setResponseCache order r items now store) =
           (setResponseCache order r items now store, Some (kept_items items))"
proof -
  have "go_sub later now \<le> responseCacheTTL" using assms by (simp add: go_sub_def responseCacheTTL_def)
  then show ?thesis
    by (auto simp: getResponseCache_def setResponseCache_def kept_items_def AList.update_conv' Let_def)
qed



text \<open>The cache in use: responses are stored, looked up and swept; a full map is thinned in some order of its keys.\<close>

inductive caching :: "response_cache \<Rightarrow> bool" where
  empty: "caching []"
| store: "caching s \<Longrightarrow> (length s \<ge> responseCacheMaxItems \<Longrightarrow> distinct order \<and> set order = fst ` set s)
     \<Longrightarrow> caching (cacheCompletedResponse order expanded r output now s)"
| look_up: "caching s \<Longrightarrow> caching (fst (getResponseCache r now s))"
| sweep: "caching s \<Longrightarrow> caching (respCacheCleanup now s)"

definition cache_ok :: "response_cache \<Rightarrow> bool" where
  "cache_ok s \<longleftrightarrow> distinct (map fst s) \<and> length s \<le> responseCacheMaxItems \<and>
     (\<forall>e \<in> snd ` set s. length (re_items e) \<le> responseCacheMaxPerItem)"

lemma AList_delete_filter: "AList.delete k al = filter (\<lambda>(k', _). k \<noteq> k') al"
  by (simp add: AList.delete_eq)

lemma fold_delete_filter: "fold AList.delete ks al = filter (\<lambda>(k, _). k \<notin> set ks) al"
  by (induction ks arbitrary: al) (auto simp: AList_delete_filter intro!: filter_cong)

lemma length_update: "length (AList.update k v al) \<le> Suc (length al)"
  by (induction al) auto

lemma snd_update: "e \<in> snd ` set (AList.update k v al) \<Longrightarrow> e = v \<or> e \<in> snd ` set al"
  by (induction al) (auto split: if_splits)

lemma cache_ok_filter: "cache_ok s \<Longrightarrow> cache_ok (filter P s)"
  by (auto simp: cache_ok_def distinct_map_filter intro: le_trans[OF length_filter_le])

lemma evict_length:
  assumes "distinct (map fst s)" "distinct order" "set order = fst ` set s" "length s \<ge> responseCacheMaxItems"
  shows "length (evict order s) = length s - responseCacheMaxItems div 10"
proof -
  let ?ks = "take (responseCacheMaxItems div 10) order"
  have "length order = length s"
    using assms(1-3) by (metis distinct_card length_map set_map)
  then have l: "card (set ?ks) = responseCacheMaxItems div 10"
    using assms(2,4) by (simp add: distinct_card responseCacheMaxItems_def)
  have "length (evict order s) = card (fst ` set (filter (\<lambda>(k, _). k \<notin> set ?ks) s))"
    using assms(1) distinct_card[of "map fst (filter (\<lambda>(k, _). k \<notin> set ?ks) s)"]
    by (simp add: evict_def fold_delete_filter distinct_map_filter)
  also have "fst ` set (filter (\<lambda>(k, _). k \<notin> set ?ks) s) = fst ` set s - set ?ks" by force
  also have "card \<dots> = card (fst ` set s) - card (set ?ks)"
    using assms(3) set_take_subset[of "responseCacheMaxItems div 10" order] by (intro card_Diff_subset) auto
  also have "card (fst ` set s) = length s" using assms(1) by (metis distinct_card length_map set_map)
  finally show ?thesis by (simp add: l)
qed

lemma setResponseCache_ok:
  assumes "cache_ok s" "length s \<ge> responseCacheMaxItems \<Longrightarrow> distinct order \<and> set order = fst ` set s"
  shows "cache_ok (setResponseCache order r items now s)"
proof -
  let ?s = "if length s \<ge> responseCacheMaxItems then evict order s else s"
  have ok: "cache_ok ?s" using assms(1) cache_ok_filter by (simp add: evict_def fold_delete_filter)
  have short: "length ?s < responseCacheMaxItems"
    using assms evict_length[of s order] by (auto simp: cache_ok_def responseCacheMaxItems_def)
  have "setResponseCache order r items now s = AList.update r \<lparr>re_items = kept_items items, re_createdAt = now\<rparr> ?s"
    by (simp add: setResponseCache_def kept_items_def Let_def)
  moreover have "\<forall>e \<in> snd ` set (AList.update r \<lparr>re_items = kept_items items, re_createdAt = now\<rparr> ?s).
      length (re_items e) \<le> responseCacheMaxPerItem"
    using ok length_kept_items[of items] snd_update[of _ r "\<lparr>re_items = kept_items items, re_createdAt = now\<rparr>" ?s]
    unfolding cache_ok_def by fastforce
  moreover have "distinct (map fst (AList.update r \<lparr>re_items = kept_items items, re_createdAt = now\<rparr> ?s))"
    using ok by (intro AList.distinct_update) (simp add: cache_ok_def)
  ultimately show ?thesis
    using short length_update[of r "\<lparr>re_items = kept_items items, re_createdAt = now\<rparr>" ?s] by (simp add: cache_ok_def)
qed

lemma caching_ok: "caching s \<Longrightarrow> cache_ok s"
proof (induction rule: caching.induct)
  case empty
  show ?case by (simp add: cache_ok_def)
next
  case (store s order expanded r items now)
  then show ?case by (auto simp: cacheCompletedResponse_def Let_def setResponseCache_ok split: option.splits)
next
  case (look_up s r now)
  then show ?case by (simp add: getResponseCache_def AList_delete_filter cache_ok_filter split: option.splits)
next
  case (sweep s now)
  then show ?case by (simp add: respCacheCleanup_def cache_ok_filter)
qed

text \<open>
  The cache of responses never holds more than 2000 conversations, of at most 200 items each, and none twice.
\<close>

theorem response_cache_is_bounded:
  assumes "caching s"
  shows "distinct (map fst s) \<and> length s \<le> 2000 \<and> (\<forall>e \<in> snd ` set s. length (re_items e) \<le> 200)"
  using caching_ok[OF assms] by (simp add: cache_ok_def responseCacheMaxItems_def responseCacheMaxPerItem_def)

lemma response_cache_is_bounded_witness:
  "length (cacheCompletedResponse [] (Some (JArr [])) ''resp_1'' (Some [stored_call]) 0 []) \<le> 2000"
proof -
  have "caching (cacheCompletedResponse [] (Some (JArr [])) ''resp_1'' (Some [stored_call]) 0 [])"
    by (rule caching.store[OF caching.empty]) (simp add: responseCacheMaxItems_def)
  from response_cache_is_bounded[OF this] show ?thesis by simp
qed

section \<open>What reaches the upstream\<close>

definition legal_tier :: "string \<Rightarrow> bool" where
  "legal_tier tier \<longleftrightarrow> tier \<in> set [''auto'', ''default'', ''flex'', ''priority'', ''scale'']"

lemma upstream_tier_legal: "isAllowedServiceTier tier \<Longrightarrow> legal_tier (upstreamServiceTier tier)"
  by (auto simp: isAllowedServiceTier_def legal_tier_def upstreamServiceTier_def)

lemma clean_tier_legal: "field (clean_tier body) ''service_tier'' = Some (JStr tier) \<Longrightarrow> legal_tier tier"
  by (auto simp: clean_tier_def field_put field_unset upstream_tier_legal Let_def split: option.splits json.splits if_splits)

lemma legal_high: "legal_effort ''high''" by code_simp

lemma clamp_effort_legal:
  "field (clamp_effort body) ''reasoning'' = Some (JObj r) \<Longrightarrow> str_field r ''effort'' = '''' \<or> legal_effort (str_field r ''effort'')"
  by (auto simp: clamp_effort_def field_put legal_high Let_def str_field_put split: option.splits json.splits if_splits)

text \<open>A tool whose parameters, if they are an object, are a schema the upstream accepts.\<close>

fun clean_parameters :: "json \<Rightarrow> bool" where
  "clean_parameters (JObj tm) = (\<forall>p. field tm ''parameters'' = Some (JObj p) \<longrightarrow> accepted p)"
| "clean_parameters _ = True"

lemma clean_tool_parameters: "clean_parameters (clean_tool t)"
  by (cases t) (auto simp: Let_def field_put sanitize_accepted split: option.splits json.splits)

lemma put_all_other: "k \<notin> fst ` set new \<Longrightarrow> field (put_all new fs) k = field fs k"
  by (induction new arbitrary: fs) (auto simp: put_all_def field_put)

lemma image_override_keys: "fst ` set (image_overrides md) \<subseteq> snd ` set imageMetadataToolFields"
  by (auto simp: image_overrides_def map_filter_def split: option.splits if_splits) force

lemma sanitizeImageTool_other: "k \<noteq> ''input_fidelity'' \<Longrightarrow> field (sanitizeImageTool tm) k = field tm k"
  by (simp add: sanitizeImageTool_def field_unset)

lemma override_keeps_parameters:
  assumes "''parameters'' \<notin> fst ` set overrides" "clean_parameters (JObj tm)"
  shows "clean_parameters (JObj (sanitizeImageTool (put_all overrides tm)))"
  using assms by (simp add: sanitizeImageTool_other put_all_other)

lemma override_image_tool_clean:
  assumes "''parameters'' \<notin> fst ` set overrides" "\<forall>t \<in> set ts. clean_parameters t"
  shows "\<forall>t \<in> set (override_image_tool overrides ts). clean_parameters t"
  using assms(2)
proof (induction ts)
  case Nil
  have "clean_parameters (JObj [(''type'', JStr ''image_generation'')])" by simp
  then show ?case using override_keeps_parameters[OF assms(1), of "[(''type'', JStr ''image_generation'')]"]
    by (simp del: clean_parameters.simps)
next
  case (Cons t ts)
  then show ?case
    using override_keeps_parameters[OF assms(1)]
    by (cases t) (simp_all del: clean_parameters.simps is_image_tool.simps)
qed

lemma override_image_tool_length:
  "length (override_image_tool overrides ts) = (if list_ex is_image_tool ts then length ts else length ts + 1)"
proof (induction ts)
  case (Cons t ts)
  then show ?case by (cases t) auto
qed simp

lemma merged_tools:
  "arr_field (mergeImageMetadataIntoTools body) ''tools'' = arr_field body ''tools'' \<or>
   (\<exists>md. arr_field (mergeImageMetadataIntoTools body) ''tools'' =
      override_image_tool (image_overrides md) (arr_field body ''tools''))"
proof -
  have "arr_field (put ''tools'' (JArr ts) b) ''tools'' = ts" for ts b by (simp add: arr_field_def field_put)
  moreover have "arr_field (put ''metadata'' v b) ''tools'' = arr_field b ''tools''"
    "arr_field (unset ''metadata'' b) ''tools'' = arr_field b ''tools''" for v b
    by (simp_all add: arr_field_def field_put field_unset)
  ultimately show ?thesis
    by (simp add: mergeImageMetadataIntoTools_def Let_def split: option.split json.split) metis
qed

lemma prepared_tools:
  defines "tools body \<equiv> arr_field body ''tools''"
  shows "length (tools (fst (PrepareResponsesBody cached body))) \<le> maxTools + 1"
    "\<forall>t \<in> set (tools (fst (PrepareResponsesBody cached body))). clean_parameters t"
proof -
  let ?b = "clean_tier (clamp_effort (move_effort (wrap_input (require_fields body))))"
  have p: "tools (fst (PrepareResponsesBody cached body)) = tools (mergeImageMetadataIntoTools (clean_tools ?b))"
    unfolding tools_def fst_prepare arr_field_def by (simp add: drop_field kept_fields expand_other)
  have "tools (clean_tools ?b) = map clean_tool (take maxTools (tools ?b))"
    by (auto simp: tools_def clean_tools_def arr_field_def field_put split: option.splits json.splits)
  then have c: "length (tools (clean_tools ?b)) \<le> maxTools" "\<forall>t \<in> set (tools (clean_tools ?b)). clean_parameters t"
    by (auto simp: clean_tool_parameters)
  have no: "''parameters'' \<notin> fst ` set (image_overrides md)" for md
    using image_override_keys[of md] by (auto simp: imageMetadataToolFields_def)
  from merged_tools[of "clean_tools ?b"] show "length (tools (fst (PrepareResponsesBody cached body))) \<le> maxTools + 1"
    unfolding p tools_def[symmetric] using c(1) by (elim disjE exE) (auto simp: override_image_tool_length)
  from merged_tools[of "clean_tools ?b"] show "\<forall>t \<in> set (tools (fst (PrepareResponsesBody cached body))). clean_parameters t"
    unfolding p tools_def[symmetric] using c(2) override_image_tool_clean[OF no] by (elim disjE exE) auto
qed

lemma prepared_tier:
  "field (fst (PrepareResponsesBody cached body)) ''service_tier'' = Some (JStr tier) \<Longrightarrow> legal_tier tier"
  using clean_tier_legal[of "clamp_effort (move_effort (wrap_input (require_fields body)))" tier]
  by (simp add: fst_prepare drop_field kept_fields expand_other merge_other tools_other)

lemma prepared_effort:
  "field (fst (PrepareResponsesBody cached body)) ''reasoning'' = Some (JObj r) \<Longrightarrow>
     str_field r ''effort'' = '''' \<or> legal_effort (str_field r ''effort'')"
  using clamp_effort_legal[of "move_effort (wrap_input (require_fields body))" r]
  by (simp add: fst_prepare drop_field kept_fields expand_other merge_other tools_other tier_other)

lemma prepared_flags:
  "field (fst (PrepareResponsesBody cached body)) ''stream'' = Some (JBool True)"
  "field (fst (PrepareResponsesBody cached body)) ''store'' = Some (JBool False)"
  by (simp_all add: fst_prepare drop_field kept_fields expand_other merge_other tools_other tier_other clamp_other
      move_other wrap_other) (simp_all add: require_fields_def field_put Let_def)


definition wild_body :: fields where
  "wild_body = [(''input'', JStr ''hi''), (''service_tier'', JStr '' fast ''), (''reasoning_effort'', JStr ''extreme''),
     (''n'', JNum 2), (''store'', JBool True)]"


text \<open>The limit of 128 tools is checked before the image tool is added.\<close>

lemma image_tool_exceeds_limit:
  assumes "field body ''tools'' = Some (JArr ts)" "length ts = 128" "\<not> list_ex is_image_tool ts"
    and "field body ''metadata'' = Some (JObj [(''image_size'', JStr ''1024x1024'')])"
  shows "length (arr_field (mergeImageMetadataIntoTools body) ''tools'') = 129"
  using assms
  by (simp add: mergeImageMetadataIntoTools_def other_metadata_def image_overrides_def imageMetadataToolFields_def
      map_filter_def arr_field_def field_put field_unset override_image_tool_length Let_def)

section \<open>Ids of tool calls\<close>

fun id_of :: "string \<Rightarrow> json \<Rightarrow> string list" where
  "id_of ty (JObj item) = (if field item ''type'' = Some (JStr ty) then [str_field item ''call_id''] else [])"
| "id_of ty _ = []"

definition ids :: "string \<Rightarrow> json list \<Rightarrow> string list" where
  "ids ty items = concat (map (id_of ty) items)"

lemma ids_simps [simp]: "ids ty [] = []" "ids ty (x # xs) = id_of ty x @ ids ty xs" "ids ty (xs @ ys) = ids ty xs @ ids ty ys"
  by (simp_all add: ids_def)

lemma id_of_items [simp]:
  "id_of ''function_call'' (call_item c n a) = [c]" "id_of ''function_call_output'' (call_item c n a) = []"
  "id_of ''function_call'' (output_of_call c s) = []" "id_of ''function_call_output'' (output_of_call c s) = [c]"
  "id_of ''function_call'' (message_item role content) = []"
  "id_of ''function_call_output'' (message_item role content) = []"
  by (simp_all add: call_item_def output_of_call_def message_item_def str_field_def)

lemma ids_calls:
  "ids ''function_call'' (map (\<lambda>tc. call_item (f tc) (g tc) (h tc)) tcs) = map f tcs"
  "ids ''function_call_output'' (map (\<lambda>tc. call_item (f tc) (g tc) (h tc)) tcs) = []"
  by (induction tcs) simp_all

definition message_calls :: "openAIMessage \<Rightarrow> string list" where
  "message_calls m = (if om_Role m = ''assistant'' then map oc_ID (om_ToolCalls m) else [])"

definition message_outputs :: "openAIMessage \<Rightarrow> string list" where
  "message_outputs m = (if om_Role m = ''tool'' then [om_ToolCallID m] else [])"

text \<open>The tool calls of a chat completion and their outputs keep their ids and their order.\<close>

lemma openai_ids:
  "ids ''function_call'' (convertMessagesToInputSlice ms) = concat (map message_calls ms)"
  "ids ''function_call_output'' (convertMessagesToInputSlice ms) = concat (map message_outputs ms)"
  by (induction ms)
     (simp_all add: convertMessagesToInputSlice_def convert_message_def message_calls_def message_outputs_def ids_calls Let_def)

definition block_calls :: "anthropicContentBlock list \<Rightarrow> string list" where
  "block_calls bs = map (toCodexCallID \<circ> bk_ID) (filter (\<lambda>b. bk_Type b = ''tool_use'') bs)"

definition block_outputs :: "anthropicContentBlock list \<Rightarrow> string list" where
  "block_outputs bs = map (toCodexCallID \<circ> bk_ToolUseID) (filter (\<lambda>b. bk_Type b = ''tool_result'') bs)"

lemma flush_ids:
  "ids ''function_call'' (flush role ip) = ids ''function_call'' (fst ip)"
  "ids ''function_call_output'' (flush role ip) = ids ''function_call_output'' (fst ip)"
  by (simp_all add: flush_def)

lemma user_blocks_ids:
  "ids ''function_call'' (fst (foldl user_block ip bs)) = ids ''function_call'' (fst ip)"
  "ids ''function_call_output'' (fst (foldl user_block ip bs)) = ids ''function_call_output'' (fst ip) @ block_outputs bs"
  by (induction bs arbitrary: ip rule: list.induct; case_tac ip; simp add: block_outputs_def split: option.splits)+

lemma assistant_blocks_ids:
  "ids ''function_call'' (fst (foldl (assistant_block codec) ip bs)) = ids ''function_call'' (fst ip) @ block_calls bs"
  "ids ''function_call_output'' (fst (foldl (assistant_block codec) ip bs)) = ids ''function_call_output'' (fst ip)"
  by (induction bs arbitrary: ip rule: list.induct; case_tac ip; simp add: block_calls_def flush_ids Let_def)+

definition turn_calls :: "anthropicMessage \<Rightarrow> string list" where
  "turn_calls m = (if fst m = ''assistant'' then block_calls (parseAnthropicContent (snd m)) else [])"

definition turn_outputs :: "anthropicMessage \<Rightarrow> string list" where
  "turn_outputs m = (if fst m = ''user'' then block_outputs (parseAnthropicContent (snd m)) else [])"

lemma turns_ids:
  "ids ''function_call'' (foldl (append_turn codec) input ms) = ids ''function_call'' input @ concat (map turn_calls ms)"
  "ids ''function_call_output'' (foldl (append_turn codec) input ms) =
     ids ''function_call_output'' input @ concat (map turn_outputs ms)"
  by (induction ms arbitrary: input)
     (simp_all add: append_turn_def appendUserBlocks_def appendAssistantBlocks_def flush_ids user_blocks_ids
       assistant_blocks_ids turn_calls_def turn_outputs_def Let_def)

text \<open>
  In the request of an Anthropic client every tool use becomes one call and every tool result one output, in order,
  with ids made by the same function: a result stays with its call. Nothing else becomes a call or an output.
\<close>

theorem anthropic_calls_keep_their_results:
  "ids ''function_call'' (buildCodexInput codec system ms) = concat (map turn_calls ms) \<and>
   ids ''function_call_output'' (buildCodexInput codec system ms) = concat (map turn_outputs ms)"
  by (simp add: buildCodexInput_def turns_ids Let_def)

section \<open>Cache of parsed requests\<close>

definition parsed_ok :: "(string \<Rightarrow> string) \<Rightarrow> (string \<Rightarrow> openAIRequest) \<Rightarrow> string set \<Rightarrow> requestCache \<Rightarrow> bool" where
  "parsed_ok sha256 unmarshal raws c \<longleftrightarrow>
     distinct (map fst (rc_order c)) \<and> (\<forall>k. rc_items c k \<longleftrightarrow> k \<in> fst ` set (rc_order c)) \<and>
     length (rc_order c) \<le> requestCacheSize \<and>
     (\<forall>(k, req) \<in> set (rc_order c). \<exists>raw \<in> raws. k = sha256 raw \<and> req = unmarshal raw)"

lemma move_to_front_props:
  assumes "distinct (map fst xs)" "map_of xs k = Some v"
  shows "distinct (map fst (move_to_front k v xs))" "fst ` set (move_to_front k v xs) = fst ` set xs"
    "length (move_to_front k v xs) = length xs" "set (move_to_front k v xs) \<subseteq> set xs"
proof -
  have kv: "(k, v) \<in> set xs" using assms(2) by (rule map_of_SomeD)
  have f: "AList.delete k xs = filter (\<lambda>p. fst p \<noteq> k) xs" by (auto simp: AList.delete_eq intro!: filter_cong)
  show "distinct (map fst (move_to_front k v xs))" using assms(1)
    by (auto simp: move_to_front_def f distinct_map_filter)
  show e: "fst ` set (move_to_front k v xs) = fst ` set xs" using kv by (force simp: move_to_front_def f)
  show "set (move_to_front k v xs) \<subseteq> set xs" using kv by (auto simp: move_to_front_def f)
  have "length (move_to_front k v xs) = card (fst ` set (move_to_front k v xs))"
    using \<open>distinct (map fst (move_to_front k v xs))\<close> by (metis distinct_card length_map set_map)
  also have "\<dots> = length xs" unfolding e using assms(1) by (metis distinct_card length_map set_map)
  finally show "length (move_to_front k v xs) = length xs" .
qed

lemma last_not_butlast: "distinct xs \<Longrightarrow> xs \<noteq> [] \<Longrightarrow> List.last xs \<notin> set (butlast xs)"
  by (induction xs rule: rev_induct) auto

lemma rc_put_ok:
  assumes "parsed_ok sha256 unmarshal raws c" "raw \<in> raws" "\<not> rc_items c (sha256 raw)"
  shows "parsed_ok sha256 unmarshal raws (rc_put c (sha256 raw) (unmarshal raw))"
proof -
  let ?o = "(sha256 raw, unmarshal raw) # rc_order c"
  have d: "distinct (map fst ?o)" "\<forall>(k, req) \<in> set ?o. \<exists>raw \<in> raws. k = sha256 raw \<and> req = unmarshal raw"
    using assms by (auto simp: parsed_ok_def)
  show ?thesis
  proof (cases "length ?o \<le> requestCacheSize")
    case True
    then show ?thesis using assms d by (auto simp: parsed_ok_def rc_put_def)
  next
    case False
    have split: "?o = butlast ?o @ [List.last ?o]" by (metis append_butlast_last_id list.distinct(1))
    have l: "fst (List.last ?o) \<notin> fst ` set (butlast ?o)"
      using last_not_butlast[OF d(1)] by (simp add: last_map map_butlast[symmetric] del: last.simps butlast.simps list.map)
    have s: "set ?o = insert (List.last ?o) (set (butlast ?o))"
      using arg_cong[OF split, of set] by (simp only: set_append list.set) blast
    have "distinct (map fst (butlast ?o))" using d(1) by (metis distinct_butlast map_butlast)
    moreover have "\<forall>(k, req) \<in> set (butlast ?o). \<exists>raw \<in> raws. k = sha256 raw \<and> req = unmarshal raw"
      using d(2) s by blast
    moreover have "length (butlast ?o) \<le> requestCacheSize" using assms(1) by (simp add: parsed_ok_def)
    moreover have "((rc_items c)(sha256 raw := True, fst (List.last ?o) := False)) k \<longleftrightarrow> k \<in> fst ` set (butlast ?o)" for k
    proof -
      have o: "k \<in> fst ` set ?o \<longleftrightarrow> k = sha256 raw \<or> rc_items c k" using assms(1) by (auto simp: parsed_ok_def)
      have "fst ` set ?o = insert (fst (List.last ?o)) (fst ` set (butlast ?o))" by (simp only: s image_insert)
      with l have "k \<in> fst ` set (butlast ?o) \<longleftrightarrow> k \<in> fst ` set ?o \<and> k \<noteq> fst (List.last ?o)" by blast
      then show ?thesis unfolding o fun_upd_apply by simp
    qed
    ultimately show ?thesis using assms(3) False
      by (simp add: parsed_ok_def rc_put_def Let_def del: last.simps butlast.simps)
  qed
qed

lemma cachedOrParse_ok:
  assumes "parsed_ok sha256 unmarshal raws c" "raw \<in> raws" "inj_on sha256 raws"
  shows "snd (cachedOrParse sha256 unmarshal c raw) = (if raw = '''' then no_request else unmarshal raw) \<and>
         parsed_ok sha256 unmarshal raws (fst (cachedOrParse sha256 unmarshal c raw))"
proof (cases "raw = ''''")
  case True
  then show ?thesis using assms by (simp add: cachedOrParse_def)
next
  case False
  show ?thesis
  proof (cases "rc_items c (sha256 raw)")
    case True
    then obtain req where req: "map_of (rc_order c) (sha256 raw) = Some req"
      using assms(1) by (metis parsed_ok_def map_of_eq_None_iff option.exhaust)
    then obtain raw' where "raw' \<in> raws" "sha256 raw = sha256 raw'" "req = unmarshal raw'"
      using assms(1) map_of_SomeD[OF req] by (fastforce simp: parsed_ok_def)
    then have "req = unmarshal raw" using assms(2,3) by (auto dest: inj_onD)
    moreover have "distinct (map fst (rc_order c))" using assms(1) by (simp add: parsed_ok_def)
    ultimately show ?thesis
      using assms(1) True False req move_to_front_props[OF _ req]
      by (auto simp: cachedOrParse_def rc_get_def parsed_ok_def Let_def)
  next
    case not: False
    then show ?thesis using rc_put_ok[OF assms(1,2) not] False by (simp add: cachedOrParse_def rc_get_def)
  qed
qed

fun parse_run :: "(string \<Rightarrow> string) \<Rightarrow> (string \<Rightarrow> openAIRequest) \<Rightarrow> requestCache \<Rightarrow> string list \<Rightarrow> requestCache \<times> openAIRequest list"
  where
  "parse_run sha256 unmarshal c [] = (c, [])"
| "parse_run sha256 unmarshal c (raw # raws) =
     (let (c, req) = cachedOrParse sha256 unmarshal c raw; (c, reqs) = parse_run sha256 unmarshal c raws in (c, req # reqs))"

lemma parse_run_ok:
  "parsed_ok sha256 unmarshal all c \<Longrightarrow> set raws \<subseteq> all \<Longrightarrow> inj_on sha256 all \<Longrightarrow>
     snd (parse_run sha256 unmarshal c raws) = map (\<lambda>raw. if raw = '''' then no_request else unmarshal raw) raws \<and>
     parsed_ok sha256 unmarshal all (fst (parse_run sha256 unmarshal c raws))"
proof (induction raws arbitrary: c)
  case (Cons raw raws)
  from cachedOrParse_ok[of sha256 unmarshal all c raw] Cons.prems
    Cons.IH[of "fst (cachedOrParse sha256 unmarshal c raw)"]
  show ?case by (auto simp: split_beta Let_def)
qed simp

definition new_request_cache :: requestCache where
  "new_request_cache = \<lparr>rc_order = [], rc_items = (\<lambda>_. False)\<rparr>"

text \<open>
  Whatever bodies come in whatever order, parsing through the cache answers what parsing answers, provided no two of
  them have the same hash; and the cache keeps at most 256 requests.
\<close>

theorem request_cache_is_transparent:
  assumes "inj_on sha256 (set raws)"
  shows "snd (parse_run sha256 unmarshal new_request_cache raws) =
           map (\<lambda>raw. if raw = '''' then no_request else unmarshal raw) raws \<and>
         length (rc_order (fst (parse_run sha256 unmarshal new_request_cache raws))) \<le> 256"
  using parse_run_ok[of sha256 unmarshal "set raws" new_request_cache raws] assms
  by (simp add: parsed_ok_def new_request_cache_def requestCacheSize_def)

lemma request_cache_is_transparent_witness:
  "snd (parse_run rev (\<lambda>raw. no_request\<lparr>or_Model := raw\<rparr>) new_request_cache [''a'', '''', ''a'']) =
     [no_request\<lparr>or_Model := ''a''\<rparr>, no_request, no_request\<lparr>or_Model := ''a''\<rparr>]"
proof -
  have "inj_on rev (set [''a'', '''', ''a''])" by (simp add: inj_on_def)
  from request_cache_is_transparent[OF this, of "\<lambda>raw. no_request\<lparr>or_Model := raw\<rparr>"] show ?thesis
    by (simp del: parse_run.simps)
qed

section \<open>Virtual models\<close>

lemma put_all_field: "distinct (map fst new) \<Longrightarrow> field (put_all new fs) k = (case field new k of Some v \<Rightarrow> Some v | None \<Rightarrow> field fs k)"
proof (induction new arbitrary: fs)
  case (Cons p new)
  obtain k' v where p: "p = (k', v)" by (cases p)
  have e: "put_all (p # new) fs = put_all new (put k' v fs)" by (simp add: put_all_def p)
  have "k = k' \<Longrightarrow> field new k = None" using Cons.prems p by (auto simp: map_of_eq_None_iff)
  with Cons.IH[of "put k' v fs"] Cons.prems show ?case unfolding e by (auto simp: p field_put split: option.splits)
qed (simp add: put_all_def)

text \<open>
  A request for a virtual model: the fields to inject win, also over the base model; then the base model; the rest of
  the body stays.
\<close>

theorem override_replaces_fields:
  assumes "field body ''model'' = Some (JStr name)" "map_of overrides name = Some ov"
    and "\<not> shouldSkipOverride lookup (mo_SkipIf ov)" "distinct (map fst (mo_Inject ov))"
  shows "snd (ApplyModelOverride lookup body overrides) = Some ov \<and>
    field (fst (ApplyModelOverride lookup body overrides)) k =
      (case field (mo_Inject ov) k of
         Some v \<Rightarrow> Some v
       | None \<Rightarrow> if k = ''model'' then Some (JStr (mo_BaseModel ov)) else field body k)"
  using assms by (simp add: ApplyModelOverride_def string_or_null_def put_all_field field_put split: option.splits)

definition draw_model :: ModelOverride where
  "draw_model = \<lparr>mo_BaseModel = ''gpt-5.4-mini'',
     mo_Inject = [(''tools'', JArr [JObj [(''type'', JStr ''image_generation'')]])], mo_ResponseAlias = '''', mo_SkipIf = []\<rparr>"

lemma override_replaces_fields_witness:
  "field (fst (ApplyModelOverride (\<lambda>_. None) [(''model'', JStr ''draw'')] [(''draw'', draw_model)])) ''model'' =
     Some (JStr ''gpt-5.4-mini'') \<and> InjectsImageGeneration draw_model"
  using override_replaces_fields[of "[(''model'', JStr ''draw'')]" "''draw''" "[(''draw'', draw_model)]" draw_model "\<lambda>_. None"
      "''model''"]
  by (simp add: draw_model_def shouldSkipOverride_def InjectsImageGeneration_def string_or_null_def)

text \<open>A condition \<open>0\<close> of \<open>skip_if\<close> holds of every value that is not a number, for which \<open>gjson\<close> answers 0.\<close>

lemma zero_condition_matches_text: "matchJSONValue \<lparr>gv_string = ''high'', gv_bool = False, gv_num = 0\<rparr> (JNum 0)"
  by (simp add: matchJSONValue_def)



text \<open>Nor does a list of truth values ever match, though the comment of \<open>SkipIf\<close> allows it.\<close>

lemma bool_list_never_matches: "b \<in> set bs \<Longrightarrow> \<not> matchJSONValue v (JArr (map JBool bs))"
  by (auto simp: matchJSONValue_def list_all_iff string_or_null_def num_or_null_def)

text \<open>A chat completion gives instructions with the role \<open>developer\<close>; they reach the upstream as words of the user.\<close>

lemma developer_message_becomes_user:
  "convertMessagesToInputSlice [\<lparr>om_Role = ''developer'', om_Content = RawString ''obey'', om_ToolCalls = [],
     om_ToolCallID = ''''\<rparr>] = [message_item ''user'' [text_part ''input_text'' ''obey'']]"
  by (simp add: convertMessagesToInputSlice_def convert_message_def buildContentPartsSlice_def)


end
