(* ===== verification/WsRelay.thy ===== *)
theory WsRelay
  imports RequestBody
begin

text \<open>
  \<open>proxy/wsrelay\<close>: the pool of WebSocket connections to the upstream. Sessions and connections are shared by pointer, so
  they live in heaps of addresses. A map of type \<open>sync.Map\<close> is an association list. The sockets are the environment:
  whether a probe, a dial or a write succeeds, and what is read, are arguments. The callbacks for connects and disconnects are
  set nowhere.
\<close>

section \<open>Requests that wait for an answer\<close>

definition HeartbeatPingInterval :: duration where "HeartbeatPingInterval = 30 * second"
definition IdleTimeout :: duration where "IdleTimeout = 5 * minute"
definition PendingRequestTimeout :: duration where "PendingRequestTimeout = 2 * minute"

record ws_message =
  ms_Type :: string
  ms_RequestID :: string
  ms_SessionID :: string
  ms_StatusCode :: int
  ms_Content :: string
  ms_Error :: string
  ms_Timestamp :: int

definition NewHTTPRequestMessage :: "int \<Rightarrow> string \<Rightarrow> string \<Rightarrow> string \<Rightarrow> ws_message" where
  "NewHTTPRequestMessage now requestID sessionID content =
     \<lparr>ms_Type = ''http_request'', ms_RequestID = requestID, ms_SessionID = sessionID, ms_StatusCode = 0,
      ms_Content = content, ms_Error = '''', ms_Timestamp = now\<rparr>"

definition NewErrorMessage :: "int \<Rightarrow> string \<Rightarrow> int \<Rightarrow> string \<Rightarrow> ws_message" where
  "NewErrorMessage now requestID statusCode errMsg =
     \<lparr>ms_Type = ''error'', ms_RequestID = requestID, ms_SessionID = '''', ms_StatusCode = statusCode,
      ms_Content = '''', ms_Error = errMsg, ms_Timestamp = now\<rparr>"

text \<open>The channels hold what has not been received yet.\<close>

record PendingRequest =
  pr_RequestID :: string
  pr_SessionID :: string
  pr_CreatedAt :: time
  pr_Deadline :: time
  pr_ResponseChan :: "ws_message list"
  pr_StreamChan :: "ws_message list"
  pr_closed :: bool

definition NewPendingRequest :: "string \<Rightarrow> string \<Rightarrow> time \<Rightarrow> PendingRequest" where
  "NewPendingRequest uuid sessionID now =
     \<lparr>pr_RequestID = uuid, pr_SessionID = sessionID, pr_CreatedAt = now, pr_Deadline = now + PendingRequestTimeout,
      pr_ResponseChan = [], pr_StreamChan = [], pr_closed = False\<rparr>"

definition close_request :: "PendingRequest \<Rightarrow> PendingRequest" where
  "close_request pr = pr\<lparr>pr_closed := True\<rparr>"

section \<open>Sessions\<close>

record Session =
  se_ID :: string
  se_AccountID :: int
  se_CreatedAt :: time
  se_LastActiveAt :: time
  se_Connected :: bool
  se_pending :: "(string \<times> PendingRequest) list"
  se_heartbeat :: bool

definition NewSession :: "string \<Rightarrow> int \<Rightarrow> time \<Rightarrow> Session" where
  "NewSession uuid accountID now =
     \<lparr>se_ID = uuid, se_AccountID = accountID, se_CreatedAt = now, se_LastActiveAt = now, se_Connected = False,
      se_pending = [], se_heartbeat = False\<rparr>"

definition HandlePong :: "time \<Rightarrow> Session \<Rightarrow> Session" where
  "HandlePong now s = s\<lparr>se_LastActiveAt := now\<rparr>"

definition session_IsExpired :: "time \<Rightarrow> Session \<Rightarrow> bool" where
  "session_IsExpired now s \<longleftrightarrow> go_sub now (se_LastActiveAt s) > IdleTimeout"

definition SetConnected :: "bool \<Rightarrow> time \<Rightarrow> Session \<Rightarrow> Session" where
  "SetConnected on now s =
     (let s = s\<lparr>se_Connected := on\<rparr> in if on then s\<lparr>se_LastActiveAt := now\<rparr> else s)"

definition AddPendingRequest :: "string \<Rightarrow> string \<Rightarrow> time \<Rightarrow> Session \<Rightarrow> Session" where
  "AddPendingRequest uuid sessionID now s =
     s\<lparr>se_pending := AList.update uuid (NewPendingRequest uuid sessionID now) (se_pending s)\<rparr>"

definition GetPendingRequest :: "string \<Rightarrow> Session \<Rightarrow> PendingRequest option" where
  "GetPendingRequest requestID s = map_of (se_pending s) requestID"

text \<open>The request that leaves the map is closed; nothing finds it any more.\<close>

definition RemovePendingRequest :: "string \<Rightarrow> Session \<Rightarrow> Session" where
  "RemovePendingRequest requestID s = s\<lparr>se_pending := AList.delete requestID (se_pending s)\<rparr>"

definition PendingCount :: "Session \<Rightarrow> nat" where
  "PendingCount s = length (se_pending s)"

definition DeliverResponse :: "ws_message \<Rightarrow> Session \<Rightarrow> Session \<times> bool" where
  "DeliverResponse msg s =
     (case GetPendingRequest (ms_RequestID msg) s of
        None \<Rightarrow> (s, False)
      | Some pr \<Rightarrow>
          if pr_closed pr then (s, False)
          else if length (pr_ResponseChan pr) < 1 then
            (s\<lparr>se_pending := AList.update (ms_RequestID msg)
                 (pr\<lparr>pr_ResponseChan := pr_ResponseChan pr @ [msg]\<rparr>) (se_pending s)\<rparr>, True)
          else (s, False))"

definition DeliverStreamChunk :: "ws_message \<Rightarrow> Session \<Rightarrow> Session \<times> bool" where
  "DeliverStreamChunk msg s =
     (case GetPendingRequest (ms_RequestID msg) s of
        None \<Rightarrow> (s, False)
      | Some pr \<Rightarrow>
          if pr_closed pr then (s, False)
          else if length (pr_StreamChan pr) < 64 then
            (s\<lparr>se_pending := AList.update (ms_RequestID msg)
                 (pr\<lparr>pr_StreamChan := pr_StreamChan pr @ [msg]\<rparr>) (se_pending s)\<rparr>, True)
          else (s, False))"

definition session_StartHeartbeat :: "Session \<Rightarrow> Session" where
  "session_StartHeartbeat s = (if se_heartbeat s then s else s\<lparr>se_heartbeat := True\<rparr>)"

definition StopHeartbeat :: "Session \<Rightarrow> Session" where
  "StopHeartbeat s = s\<lparr>se_heartbeat := False\<rparr>"

definition session_Close :: "time \<Rightarrow> Session \<Rightarrow> Session" where
  "session_Close now s = (SetConnected False now (StopHeartbeat s))\<lparr>se_pending := []\<rparr>"

text \<open>A send on a closed channel panics, which is \<open>None\<close>.\<close>

definition ClearPendingRequests :: "Session \<Rightarrow> Session option" where
  "ClearPendingRequests s =
     (if list_ex (\<lambda>(_, pr). pr_closed pr) (se_pending s) then None else Some (s\<lparr>se_pending := []\<rparr>))"

section \<open>Connections and the pool\<close>

datatype ConnectionState = StateDisconnected | StateConnecting | StateConnected | StateClosing

record WsConnection =
  wc_session :: "nat option"
  wc_URL :: string
  wc_PoolKey :: string
  wc_state :: ConnectionState
  wc_lastUsed :: time

record Manager =
  mg_conns :: "nat \<Rightarrow> WsConnection"
  mg_sess :: "nat \<Rightarrow> Session"
  mg_next :: nat
  connections :: "(string \<times> nat) list"
  sessions :: "(string \<times> nat) list"
  keyLocks :: "(string \<times> nat) list"

definition NewWsConnection :: "nat \<Rightarrow> string \<Rightarrow> time \<Rightarrow> WsConnection" where
  "NewWsConnection session wsURL now =
     \<lparr>wc_session = Some session, wc_URL = wsURL, wc_PoolKey = '''', wc_state = StateConnected, wc_lastUsed = now\<rparr>"

definition NewManager :: Manager where
  "NewManager = \<lparr>mg_conns = (\<lambda>_. NewWsConnection 0 '''' 0), mg_sess = (\<lambda>_. NewSession '''' 0 0), mg_next = 1,
     connections = [], sessions = [], keyLocks = []\<rparr>"

abbreviation conn :: "Manager \<Rightarrow> nat \<Rightarrow> WsConnection" where "conn m c \<equiv> mg_conns m c"
abbreviation sess :: "Manager \<Rightarrow> nat \<Rightarrow> Session" where "sess m s \<equiv> mg_sess m s"

definition on_conn :: "(WsConnection \<Rightarrow> WsConnection) \<Rightarrow> nat \<Rightarrow> Manager \<Rightarrow> Manager" where
  "on_conn f c m = m\<lparr>mg_conns := (mg_conns m)(c := f (conn m c))\<rparr>"

definition on_sess :: "(Session \<Rightarrow> Session) \<Rightarrow> nat \<Rightarrow> Manager \<Rightarrow> Manager" where
  "on_sess f s m = m\<lparr>mg_sess := (mg_sess m)(s := f (sess m s))\<rparr>"

definition on_session :: "(Session \<Rightarrow> Session) \<Rightarrow> nat \<Rightarrow> Manager \<Rightarrow> Manager" where
  "on_session f c m = (case wc_session (conn m c) of None \<Rightarrow> m | Some s \<Rightarrow> on_sess f s m)"

definition conn_Touch :: "time \<Rightarrow> WsConnection \<Rightarrow> WsConnection" where
  "conn_Touch now wc = wc\<lparr>wc_lastUsed := now\<rparr>"

definition conn_IsExpired :: "time \<Rightarrow> WsConnection \<Rightarrow> bool" where
  "conn_IsExpired now wc \<longleftrightarrow> go_sub now (wc_lastUsed wc) > IdleTimeout"

definition conn_IsConnected :: "WsConnection \<Rightarrow> bool" where
  "conn_IsConnected wc \<longleftrightarrow> wc_state wc = StateConnected"

definition conn_Close :: "WsConnection \<Rightarrow> WsConnection" where
  "conn_Close wc =
     (if wc_state wc = StateConnected \<or> wc_state wc = StateConnecting then wc\<lparr>wc_state := StateClosing\<rparr> else wc)"

definition effectiveProxyURL :: "string \<Rightarrow> string \<Rightarrow> string" where
  "effectiveProxyURL accountProxy proxyOverride =
     trim_space (if trim_space proxyOverride \<noteq> '''' then proxyOverride else accountProxy)"

fun decimal :: "nat \<Rightarrow> string" where
  "decimal n = (if n < 10 then [char_of (48 + n)] else decimal (n div 10) @ [char_of (48 + n mod 10)])"

declare decimal.simps [simp del]

definition show_int :: "int \<Rightarrow> string" where
  "show_int n = (if n < 0 then ''-'' @ decimal (nat (- n)) else decimal (nat n))"

definition poolKey :: "int \<Rightarrow> string \<Rightarrow> string \<Rightarrow> string \<Rightarrow> string" where
  "poolKey accountID wsURL sessionKey proxyURL =
     show_int accountID @ ''|'' @ wsURL @ ''|'' @ trim_space sessionKey @ ''|'' @ trim_space proxyURL"

definition canReuseConnection :: "time \<Rightarrow> Manager \<Rightarrow> nat \<Rightarrow> bool" where
  "canReuseConnection now m c \<longleftrightarrow>
     conn_IsConnected (conn m c) \<and> \<not> conn_IsExpired now (conn m c) \<and>
     (case wc_session (conn m c) of None \<Rightarrow> False | Some s \<Rightarrow> PendingCount (sess m s) = 0)"

text \<open>The lock of a key: the pointer that is stored, or a new one.\<close>

definition keyLock :: "string \<Rightarrow> Manager \<Rightarrow> Manager \<times> nat" where
  "keyLock key m =
     (case map_of (keyLocks m) key of
        Some l \<Rightarrow> (m, l)
      | None \<Rightarrow> (m\<lparr>keyLocks := AList.update key (mg_next m) (keyLocks m), mg_next := mg_next m + 1\<rparr>, mg_next m))"

section \<open>Acquiring a connection\<close>

text \<open>What the code finds under the lock: a connection to reuse, one whose probe failed, one in use, or none.\<close>

datatype pooled = Reused nat | ProbeFailed | InUse | NeedsNew

definition forget :: "string \<Rightarrow> nat \<Rightarrow> Manager \<Rightarrow> Manager" where
  "forget key c m =
     on_conn conn_Close c (m\<lparr>connections := AList.delete key (connections m), sessions := AList.delete key (sessions m)\<rparr>)"

definition take_pooled ::
  "time \<Rightarrow> bool \<Rightarrow> string \<Rightarrow> string \<Rightarrow> string \<Rightarrow> Manager \<Rightarrow> Manager \<times> pooled" where
  "take_pooled now probe key sessionKey uuid m =
     (case map_of (connections m) key of
        None \<Rightarrow> (m, NeedsNew)
      | Some c \<Rightarrow>
          if canReuseConnection now m c then
            (if probe
             then (on_conn (conn_Touch now) c (on_session (AddPendingRequest uuid sessionKey now) c m), Reused c)
             else (forget key c (m\<lparr>keyLocks := AList.delete key (keyLocks m)\<rparr>), ProbeFailed))
          else if conn_IsConnected (conn m c) \<and> \<not> conn_IsExpired now (conn m c) \<and> wc_session (conn m c) \<noteq> None
          then (m, InUse)
          else (forget key c m, NeedsNew))"

text \<open>\<open>createConnection\<close> up to the dial: the new session is known before there is a connection.\<close>

definition begin_dial :: "time \<Rightarrow> string \<Rightarrow> int \<Rightarrow> string \<Rightarrow> string \<Rightarrow> Manager \<Rightarrow> Manager \<times> nat" where
  "begin_dial now uuid accountID sessionKey key m =
     (let m = (case map_of (sessions m) key of None \<Rightarrow> m | Some old \<Rightarrow> on_sess (session_Close now) old m);
          session = NewSession uuid accountID now;
          session = (if trim_space sessionKey \<noteq> '''' then session\<lparr>se_ID := trim_space sessionKey\<rparr> else session);
          s = mg_next m
      in (m\<lparr>mg_sess := (mg_sess m)(s := session), mg_next := s + 1, sessions := AList.update key s (sessions m)\<rparr>, s))"

definition fail_dial :: "time \<Rightarrow> string \<Rightarrow> nat \<Rightarrow> Manager \<Rightarrow> Manager" where
  "fail_dial now key s m = on_sess (session_Close now) s (m\<lparr>sessions := AList.delete key (sessions m)\<rparr>)"

text \<open>
  After the dial: the connection, its session connected, stored under the key of the request with the request pending. \<open>key\<close>
  was computed by \<open>AcquireConnection\<close>, \<open>key'\<close> by \<open>createConnection\<close>.
\<close>

definition end_dial :: "time \<Rightarrow> string \<Rightarrow> string \<Rightarrow> string \<Rightarrow> string \<Rightarrow> string \<Rightarrow> nat \<Rightarrow> Manager \<Rightarrow> Manager \<times> nat" where
  "end_dial now wsURL key key' sessionKey uuid s m =
     (let c = mg_next m;
          m = m\<lparr>mg_conns := (mg_conns m)(c := (NewWsConnection s wsURL now)\<lparr>wc_PoolKey := key'\<rparr>), mg_next := c + 1\<rparr>;
          m = on_sess (SetConnected True now) s m;
          m = m\<lparr>connections := AList.update key c (connections m)\<rparr>
      in (on_sess (AddPendingRequest uuid sessionKey now) s m, c))"

datatype acquire_error = ContextDone | ProxyURLInvalid | HandshakeFailed

datatype acquired = Acquired nat string | Refused acquire_error | StillWaiting

text \<open>
  One turn of the loop: what the environment answers in it, and what other goroutines do while this one dials and
  before its next turn.
\<close>

record acquire_turn =
  at_now :: time
  at_probe :: bool
  at_cancelled :: bool
  at_accountProxy :: string
  at_proxyParses :: bool
  at_dialSucceeds :: bool
  at_sessionUUID :: string
  at_requestUUID :: string
  at_meanwhile :: "Manager \<Rightarrow> Manager"
  at_before_next :: "Manager \<Rightarrow> Manager"

fun acquire_turns ::
  "int \<Rightarrow> string \<Rightarrow> string \<Rightarrow> string \<Rightarrow> string \<Rightarrow> acquire_turn list \<Rightarrow> Manager \<Rightarrow> Manager \<times> acquired" where
  "acquire_turns accountID wsURL sessionKey proxyOverride key [] m = (m, StillWaiting)"
| "acquire_turns accountID wsURL sessionKey proxyOverride key (t # ts) m =
     (case take_pooled (at_now t) (at_probe t) key sessionKey (at_requestUUID t) m of
        (m, Reused c) \<Rightarrow> (m, Acquired c (at_requestUUID t))
      | (m, ProbeFailed) \<Rightarrow>
          acquire_turns accountID wsURL sessionKey proxyOverride key ts (at_before_next t (fst (keyLock key m)))
      | (m, InUse) \<Rightarrow>
          if at_cancelled t then (m, Refused ContextDone)
          else acquire_turns accountID wsURL sessionKey proxyOverride key ts (at_before_next t m)
      | (m, NeedsNew) \<Rightarrow>
          let proxyURL = effectiveProxyURL (at_accountProxy t) proxyOverride;
              key' = poolKey accountID wsURL sessionKey proxyURL
          in if proxyURL \<noteq> '''' \<and> \<not> at_proxyParses t then (m, Refused ProxyURLInvalid)
             else
               let (m, s) = begin_dial (at_now t) (at_sessionUUID t) accountID sessionKey key' m;
                   m = at_meanwhile t m
               in if at_dialSucceeds t
                  then let (m, c) = end_dial (at_now t) wsURL key key' sessionKey (at_requestUUID t) s m
                       in (m, Acquired c (at_requestUUID t))
                  else (fail_dial (at_now t) key' s m, Refused HandshakeFailed))"

definition AcquireConnection ::
  "int \<Rightarrow> string \<Rightarrow> string \<Rightarrow> string \<Rightarrow> string \<Rightarrow> acquire_turn list \<Rightarrow> Manager \<Rightarrow> Manager \<times> acquired" where
  "AcquireConnection accountID accountProxy wsURL sessionKey proxyOverride ts m =
     (let key = poolKey accountID wsURL sessionKey (effectiveProxyURL accountProxy proxyOverride)
      in acquire_turns accountID wsURL sessionKey proxyOverride key ts (fst (keyLock key m)))"

section \<open>Giving back and removing\<close>

definition ReleaseConnection :: "time \<Rightarrow> nat \<Rightarrow> Manager \<Rightarrow> Manager" where
  "ReleaseConnection now c m = on_conn (conn_Touch now) c m"

definition RemoveConnection :: "int \<Rightarrow> string \<Rightarrow> string \<Rightarrow> string \<Rightarrow> Manager \<Rightarrow> Manager" where
  "RemoveConnection accountID wsURL sessionKey proxyURL m =
     (let key = poolKey accountID wsURL sessionKey proxyURL;
          m = (case map_of (connections m) key of
                 None \<Rightarrow> m
               | Some c \<Rightarrow> on_conn conn_Close c (m\<lparr>connections := AList.delete key (connections m)\<rparr>))
      in m\<lparr>sessions := AList.delete key (sessions m), keyLocks := AList.delete key (keyLocks m)\<rparr>)"

definition ReplaceConnection ::
  "int \<Rightarrow> string \<Rightarrow> string \<Rightarrow> string \<Rightarrow> string \<Rightarrow> acquire_turn list \<Rightarrow> Manager \<Rightarrow> Manager \<times> acquired" where
  "ReplaceConnection accountID accountProxy wsURL sessionKey proxyOverride ts m =
     AcquireConnection accountID accountProxy wsURL sessionKey proxyOverride ts
       (RemoveConnection accountID wsURL sessionKey (effectiveProxyURL accountProxy proxyOverride) m)"

definition GetSession :: "int \<Rightarrow> string \<Rightarrow> string \<Rightarrow> string \<Rightarrow> Manager \<Rightarrow> nat option" where
  "GetSession accountID wsURL sessionKey proxyURL m = map_of (sessions m) (poolKey accountID wsURL sessionKey proxyURL)"

definition ConnectionCount :: "Manager \<Rightarrow> nat" where "ConnectionCount m = length (connections m)"
definition SessionCount :: "Manager \<Rightarrow> nat" where "SessionCount m = length (sessions m)"

text \<open>The loops over the maps with the keys that are alive.\<close>

fun evict_connections :: "time \<Rightarrow> (string \<times> nat) list \<Rightarrow> Manager \<times> string list \<Rightarrow> Manager \<times> string list" where
  "evict_connections now [] ma = ma"
| "evict_connections now ((key, c) # kcs) (m, active) =
     (if conn_IsExpired now (conn m c) \<or> \<not> conn_IsConnected (conn m c)
      then evict_connections now kcs
             (on_conn conn_Close c (m\<lparr>connections := AList.delete key (connections m)\<rparr>), active)
      else evict_connections now kcs (m, key # active))"

fun evict_sessions :: "time \<Rightarrow> (string \<times> nat) list \<Rightarrow> Manager \<times> string list \<Rightarrow> Manager \<times> string list" where
  "evict_sessions now [] ma = ma"
| "evict_sessions now ((key, s) # kss) (m, active) =
     (if session_IsExpired now (sess m s) \<or> \<not> se_Connected (sess m s)
      then evict_sessions now kss
             (on_sess (session_Close now) s (m\<lparr>sessions := AList.delete key (sessions m)\<rparr>), active)
      else evict_sessions now kss (m, key # active))"

definition evictExpired :: "time \<Rightarrow> Manager \<Rightarrow> Manager" where
  "evictExpired now m =
     (let (m, active) = evict_connections now (connections m) (m, []);
          (m, active) = evict_sessions now (sessions m) (m, active)
      in m\<lparr>keyLocks := filter (\<lambda>(key, _). key \<in> set active) (keyLocks m)\<rparr>)"

definition closeAll :: "time \<Rightarrow> Manager \<Rightarrow> Manager" where
  "closeAll now m =
     (let m = fold (\<lambda>(key, c) m. on_conn conn_Close c (m\<lparr>connections := AList.delete key (connections m)\<rparr>)) (connections m) m
      in fold (\<lambda>(key, s) m. on_sess (session_Close now) s (m\<lparr>sessions := AList.delete key (sessions m)\<rparr>)) (sessions m) m)"

text \<open>The answer is whether the ping was sent.\<close>

definition SendHeartbeat :: "bool \<Rightarrow> nat \<Rightarrow> Manager \<Rightarrow> Manager \<times> bool" where
  "SendHeartbeat ping c m =
     (if \<not> conn_IsConnected (conn m c) then (m, False)
      else if ping then (m, True)
      else
        let m = on_conn conn_Close c m; key = wc_PoolKey (conn m c)
        in (if key \<noteq> '''' then m\<lparr>connections := AList.delete key (connections m), sessions := AList.delete key (sessions m)\<rparr>
            else m, False))"

definition StartHeartbeat :: "nat \<Rightarrow> Manager \<Rightarrow> Manager" where
  "StartHeartbeat c m = on_session session_StartHeartbeat c m"

text \<open>The timer of a heartbeat fires.\<close>

definition heartbeat_fires :: "time \<Rightarrow> bool \<Rightarrow> nat \<Rightarrow> nat \<Rightarrow> Manager \<Rightarrow> Manager" where
  "heartbeat_fires now ping s c m =
     (if \<not> se_Connected (sess m s) then m
      else
        let (m, ok) = SendHeartbeat ping c m
        in if ok then m else on_sess (session_Close now) s m)"

end
