(* ===== verification/WsExecutor.thy ===== *)
theory WsExecutor
  imports WsRelay
begin

text \<open>
  \<open>proxy/wsrelay/executor.go\<close>: a request over a pooled WebSocket connection, with its two retries, and the loop that reads
  the answer. The headers of the handshake are in \<open>UpstreamClient\<close>.
\<close>

section \<open>The body\<close>

text \<open>\<open>text_of_value\<close> is \<open>String\<close> of \<open>gjson\<close>, for values that are not strings.\<close>

definition gjson_string :: "(json \<Rightarrow> string) \<Rightarrow> json option \<Rightarrow> string" where
  "gjson_string text_of_value v =
     (case v of None \<Rightarrow> '''' | Some JNull \<Rightarrow> '''' | Some (JStr s) \<Rightarrow> s | Some v \<Rightarrow> text_of_value v)"

definition prepareWebsocketBody :: "(json \<Rightarrow> string) \<Rightarrow> string \<Rightarrow> fields \<Rightarrow> fields" where
  "prepareWebsocketBody text_of_value sessionID body =
     (let body = (if field body ''instructions'' = None then put ''instructions'' (JStr '''') body else body);
          body = fold unset [''previous_response_id'', ''prompt_cache_retention'', ''safety_identifier'',
                             ''disable_response_storage''] body;
          existingCacheKey = trim_space (gjson_string text_of_value (field body ''prompt_cache_key''));
          body = (if sessionID \<noteq> '''' then put ''prompt_cache_key'' (JStr sessionID) body
                  else if existingCacheKey \<noteq> '''' then put ''prompt_cache_key'' (JStr existingCacheKey) body
                  else body)
      in put ''stream'' (JBool True) (put ''type'' (JStr ''response.create'') body))"

section \<open>Sending\<close>

text \<open>Whether the message is written: the socket's answer counts only while the connection is connected.\<close>

definition sendRequest :: "bool \<Rightarrow> nat \<Rightarrow> Manager \<Rightarrow> bool" where
  "sendRequest written c m \<longleftrightarrow> conn_IsConnected (conn m c) \<and> written"

datatype send_error = NoAccessToken | AcquireError acquire_error | BackoffCancelled | SendFailed

datatype execution = Sent nat string | Failed send_error | Hanging

text \<open>An attempt: the turns of its acquisition, the answer of the socket, and the backoff that may follow.\<close>

record ws_attempt =
  wa_turns :: "acquire_turn list"
  wa_written :: bool
  wa_cancelled :: bool
  wa_accountProxy :: string
  wa_now :: time

definition drop_request :: "nat \<Rightarrow> string \<Rightarrow> Manager \<Rightarrow> Manager" where
  "drop_request c r m = on_session (RemovePendingRequest r) c m"

fun send_attempts ::
  "int \<Rightarrow> string \<Rightarrow> string \<Rightarrow> string \<Rightarrow> nat \<Rightarrow> ws_attempt \<Rightarrow> ws_attempt list \<Rightarrow> Manager \<Rightarrow> Manager \<times> execution" where
  "send_attempts accountID wsURL sessionID proxyOverride retries a as m =
     (case AcquireConnection accountID (wa_accountProxy a) wsURL sessionID proxyOverride (wa_turns a) m of
        (m, StillWaiting) \<Rightarrow> (m, Hanging)
      | (m, Refused e) \<Rightarrow> (m, Failed (AcquireError e))
      | (m, Acquired c r) \<Rightarrow>
          if sendRequest (wa_written a) c m then (StartHeartbeat c m, Sent c r)
          else case retries of
            0 \<Rightarrow> (ReleaseConnection (wa_now a) c (drop_request c r m), Failed SendFailed)
          | Suc retries \<Rightarrow>
              let m = RemoveConnection accountID wsURL sessionID proxyOverride (drop_request c r m)
              in if wa_cancelled a then (m, Failed BackoffCancelled)
                 else case as of
                   [] \<Rightarrow> (m, Hanging)
                 | b # as \<Rightarrow> send_attempts accountID wsURL sessionID proxyOverride retries b as m)"

text \<open>\<open>as\<close> are the answers of the environment to the two retries.\<close>

definition ExecuteRequestViaWebsocket ::
  "string \<Rightarrow> int \<Rightarrow> string \<Rightarrow> string \<Rightarrow> string \<Rightarrow> ws_attempt \<Rightarrow> ws_attempt list \<Rightarrow> Manager \<Rightarrow> Manager \<times> execution" where
  "ExecuteRequestViaWebsocket accessToken accountID wsURL sessionID proxyOverride a as m =
     (if accessToken = '''' then (m, Failed NoAccessToken)
      else send_attempts accountID wsURL sessionID proxyOverride 2 a as m)"

section \<open>Reading the answer\<close>

text \<open>What \<open>gjson\<close> finds in a message, and the rest of it.\<close>

record ws_payload =
  wp_type :: string
  wp_status :: int
  wp_status_code :: int
  wp_error_message :: string
  wp_rest :: string

datatype ws_frame =
  ReadFails bool
| BinaryFrame
| OtherFrame
| TextFrame "ws_payload option"

text \<open>The status text of \<open>net/http\<close> is an argument.\<close>

definition checkError :: "(int \<Rightarrow> string) \<Rightarrow> ws_payload \<Rightarrow> (int \<times> string) option" where
  "checkError StatusText payload =
     (if wp_type payload \<noteq> ''error'' then None
      else
        let status = (if wp_status payload = 0 then wp_status_code payload else wp_status payload)
        in if status \<le> 0 then None
           else Some (status, if wp_error_message payload = '''' then StatusText status else wp_error_message payload))"

definition normalizeCompletionEvent :: "ws_payload \<Rightarrow> ws_payload" where
  "normalizeCompletionEvent payload =
     (if wp_type payload = ''response.done'' then payload\<lparr>wp_type := ''response.completed''\<rparr> else payload)"

datatype read_error = Unavailable | ReadError | UnexpectedBinary | UpstreamError int string

text \<open>What a message leads to: the loop goes on, ends well (\<open>io.EOF\<close>) or with an error; and what the callback gets.\<close>

datatype handled = GoOn | EndOfStream | BadMessage int string

definition handleMessage :: "(int \<Rightarrow> string) \<Rightarrow> bool \<Rightarrow> ws_payload \<Rightarrow> ws_payload list \<times> handled" where
  "handleMessage StatusText wanted payload =
     (case checkError StatusText payload of
        Some (status, msg) \<Rightarrow> ([], BadMessage status msg)
      | None \<Rightarrow>
          let payload = normalizeCompletionEvent payload
          in ([payload],
              if \<not> wanted then EndOfStream
              else if wp_type payload = ''response.completed'' \<or> wp_type payload = ''response.failed'' then EndOfStream
              else GoOn))"

text \<open>
  The loop over the frames that are read, each with the answer of the callback if it is called. \<open>None\<close>: it still reads.
  A message that is empty after trimming is \<open>TextFrame None\<close>.
\<close>

fun read_frames ::
  "(int \<Rightarrow> string) \<Rightarrow> (ws_frame \<times> bool) list \<Rightarrow> ws_payload list \<times> read_error option option" where
  "read_frames StatusText [] = ([], None)"
| "read_frames StatusText ((f, wanted) # fs) =
     (case f of
        ReadFails normal \<Rightarrow> ([], Some (if normal then None else Some ReadError))
      | BinaryFrame \<Rightarrow> ([], Some (Some UnexpectedBinary))
      | OtherFrame \<Rightarrow> read_frames StatusText fs
      | TextFrame None \<Rightarrow> read_frames StatusText fs
      | TextFrame (Some payload) \<Rightarrow>
          (case handleMessage StatusText wanted payload of
             (out, BadMessage status msg) \<Rightarrow> (out, Some (Some (UpstreamError status msg)))
           | (out, EndOfStream) \<Rightarrow> (out, Some None)
           | (out, GoOn) \<Rightarrow> let (rest, result) = read_frames StatusText fs in (out @ rest, result)))"

definition ReadStream ::
  "(int \<Rightarrow> string) \<Rightarrow> nat \<Rightarrow> Manager \<Rightarrow> (ws_frame \<times> bool) list \<Rightarrow> ws_payload list \<times> read_error option option" where
  "ReadStream StatusText c m fs =
     (if \<not> conn_IsConnected (conn m c) then ([], Some (Some Unavailable)) else read_frames StatusText fs)"

definition response_Close :: "time \<Rightarrow> nat \<Rightarrow> string \<Rightarrow> bool \<Rightarrow> Manager \<Rightarrow> Manager \<times> bool" where
  "response_Close now c r already m = (if already then (m, True) else (ReleaseConnection now c (drop_request c r m), True))"

end
