(* ===== verification/WsSteps.thy ===== *)
theory WsSteps
  imports WsRelayLaws
begin

text \<open>
  Requests that run at the same time on the WebSocket pool of \<open>proxy/wsrelay/manager.go\<close>, as a step relation: each
  asks for the lock of its key, looks into the pool under the lock, reuses a connection or dials, uses it and gives it back, while
  the sweep and the heartbeats run. The lock is held during the dial. What the code does under the lock without
  blocking is one step.
\<close>

section \<open>Steps\<close>

datatype ws_thread =
  Idle
| Waiting string nat
| Dialing string nat nat
| Using string nat string

record ws_world =
  w_mg :: Manager
  w_held :: "nat \<Rightarrow> bool"
  w_thr :: "nat \<Rightarrow> ws_thread"

definition set_thread :: "nat \<Rightarrow> ws_thread \<Rightarrow> Manager \<Rightarrow> ws_world \<Rightarrow> ws_world" where
  "set_thread i t m w = w\<lparr>w_mg := m, w_thr := (w_thr w)(i := t)\<rparr>"

definition set_lock :: "nat \<Rightarrow> bool \<Rightarrow> ws_world \<Rightarrow> ws_world" where
  "set_lock l b w = w\<lparr>w_held := (w_held w)(l := b)\<rparr>"

text \<open>The upstream answers pings: no session with a request under way has been silent for five minutes.\<close>

definition pings_answered :: "time \<Rightarrow> Manager \<Rightarrow> bool" where
  "pings_answered now m \<longleftrightarrow>
     (\<forall>(k, s) \<in> set (sessions m). PendingCount (sess m s) \<noteq> 0 \<longrightarrow> \<not> session_IsExpired now (sess m s))"

inductive relay_step :: "bool \<Rightarrow> ws_world \<Rightarrow> ws_world \<Rightarrow> bool" for answered :: bool where
  ask: "w_thr w i = Idle \<Longrightarrow> keyLock k (w_mg w) = (m, l) \<Longrightarrow> relay_step answered w (set_thread i (Waiting k l) m w)"
| reuse: "w_thr w i = Waiting k l \<Longrightarrow> \<not> w_held w l \<Longrightarrow> take_pooled now probe k sk r (w_mg w) = (m, Reused c) \<Longrightarrow>
    relay_step answered w (set_thread i (Using k c r) m w)"
| probe_failed: "w_thr w i = Waiting k l \<Longrightarrow> \<not> w_held w l \<Longrightarrow>
    take_pooled now probe k sk r (w_mg w) = (m, ProbeFailed) \<Longrightarrow> keyLock k m = (m', l') \<Longrightarrow>
    relay_step answered w (set_thread i (Waiting k l') m' w)"
| give_up: "w_thr w i = Waiting k l \<Longrightarrow> \<not> w_held w l \<Longrightarrow> take_pooled now probe k sk r (w_mg w) = (m, InUse) \<Longrightarrow>
    relay_step answered w (set_thread i Idle m w)"
| refuse: "w_thr w i = Waiting k l \<Longrightarrow> \<not> w_held w l \<Longrightarrow> take_pooled now probe k sk r (w_mg w) = (m, NeedsNew) \<Longrightarrow>
    relay_step answered w (set_thread i Idle m w)"
| dial: "w_thr w i = Waiting k l \<Longrightarrow> \<not> w_held w l \<Longrightarrow> take_pooled now probe k sk r (w_mg w) = (m, NeedsNew) \<Longrightarrow>
    begin_dial now u a sk k m = (m', s) \<Longrightarrow>
    relay_step answered w (set_lock l True (set_thread i (Dialing k l s) m' w))"
| dialled: "w_thr w i = Dialing k l s \<Longrightarrow> end_dial now url k k sk r s (w_mg w) = (m, c) \<Longrightarrow>
    relay_step answered w (set_lock l False (set_thread i (Using k c r) m w))"
| dial_fails: "w_thr w i = Dialing k l s \<Longrightarrow>
    relay_step answered w (set_lock l False (set_thread i Idle (fail_dial now k s (w_mg w)) w))"
| finish: "w_thr w i = Using k c r \<Longrightarrow>
    relay_step answered w (set_thread i Idle (ReleaseConnection now c (drop_request c r (w_mg w))) w)"
| broken: "w_thr w i = Using k c r \<Longrightarrow>
    relay_step answered w (set_thread i Idle (RemoveConnection a url sk p (drop_request c r (w_mg w))) w)"
| sweep: "(answered \<Longrightarrow> pings_answered now (w_mg w)) \<Longrightarrow>
    relay_step answered w (w\<lparr>w_mg := evictExpired now (w_mg w)\<rparr>)"
| beat: "wc_session (conn (w_mg w) c) = Some s \<Longrightarrow>
    relay_step answered w (w\<lparr>w_mg := heartbeat_fires now ping s c (w_mg w)\<rparr>)"
| read: "relay_step answered w (w\<lparr>w_mg := on_conn (conn_Touch now) c (w_mg w)\<rparr>)"
| pong: "relay_step answered w (w\<lparr>w_mg := on_conn (conn_Touch now) c (on_session (HandlePong now) c (w_mg w))\<rparr>)"

definition first_world :: ws_world where
  "first_world = \<lparr>w_mg = NewManager, w_held = (\<lambda>_. False), w_thr = (\<lambda>_. Idle)\<rparr>"

section \<open>Effects of the operations\<close>

abbreviation pool :: "Manager \<Rightarrow> string \<Rightarrow> nat option" where "pool m k \<equiv> map_of (connections m) k"
abbreviation known :: "Manager \<Rightarrow> string \<Rightarrow> nat option" where "known m k \<equiv> map_of (sessions m) k"

lemma keyLock_frame:
  assumes "keyLock k m = (m', l)"
  shows "mg_conns m' = mg_conns m" "mg_sess m' = mg_sess m" "connections m' = connections m" "sessions m' = sessions m"
    "mg_next m \<le> mg_next m'"
  using assms by (auto simp: keyLock_def split: option.splits)

lemma conn_Close_simps [simp]:
  "wc_session (conn_Close wc) = wc_session wc" "wc_PoolKey (conn_Close wc) = wc_PoolKey wc"
  "wc_lastUsed (conn_Close wc) = wc_lastUsed wc" "conn_Close (conn_Close wc) = conn_Close wc"
  "\<not> conn_IsConnected (conn_Close wc)"
  by (simp_all add: conn_Close_def conn_IsConnected_def)

lemma conn_Touch_simps [simp]:
  "wc_session (conn_Touch now wc) = wc_session wc" "wc_PoolKey (conn_Touch now wc) = wc_PoolKey wc"
  "conn_IsConnected (conn_Touch now wc) = conn_IsConnected wc"
  by (simp_all add: conn_Touch_def conn_IsConnected_def)

lemma session_Close_simps [simp]:
  "se_pending (session_Close now s) = []" "\<not> se_Connected (session_Close now s)"
  "session_Close now (session_Close now s) = session_Close now s"
  by (simp_all add: session_Close_def SetConnected_def StopHeartbeat_def)

lemma evict_connections_frame:
  "evict_connections now kcs (m, act) = (m', act') \<Longrightarrow>
     mg_sess m' = mg_sess m \<and> sessions m' = sessions m \<and> keyLocks m' = keyLocks m \<and> mg_next m' = mg_next m \<and>
     (\<forall>c. conn m' c = conn m c \<or> conn m' c = conn_Close (conn m c)) \<and>
     map_of (connections m') \<subseteq>\<^sub>m map_of (connections m) \<and>
     (distinct (map fst (connections m)) \<longrightarrow> distinct (map fst (connections m')))"
proof (induction kcs arbitrary: m act)
  case (Cons kc kcs)
  obtain k c where kc: "kc = (k, c)" by (cases kc)
  show ?case
  proof (cases "conn_IsExpired now (conn m c) \<or> \<not> conn_IsConnected (conn m c)")
    case True
    let ?m = "on_conn conn_Close c (m\<lparr>connections := AList.delete k (connections m)\<rparr>)"
    have "evict_connections now kcs (?m, act) = (m', act')" using Cons.prems True kc by simp
    note ih = Cons.IH[OF this]
    have le: "map_of (connections ?m) \<subseteq>\<^sub>m map_of (connections m)"
      by (simp add: on_conn_def AList.delete_conv' map_le_def)
    have f: "mg_sess ?m = mg_sess m" "sessions ?m = sessions m" "keyLocks ?m = keyLocks m" "mg_next ?m = mg_next m"
      by (simp_all add: on_conn_def)
    have c: "conn m' c' = conn m c' \<or> conn m' c' = conn_Close (conn m c')" for c'
    proof -
      have "conn ?m c' = conn m c' \<or> conn ?m c' = conn_Close (conn m c')" by (simp add: on_conn_def)
      moreover have "conn m' c' = conn ?m c' \<or> conn m' c' = conn_Close (conn ?m c')" using ih by blast
      ultimately show ?thesis by auto
    qed
    have d: "distinct (map fst (connections m)) \<Longrightarrow> distinct (map fst (connections ?m))"
      by (simp add: on_conn_def AList.distinct_delete)
    from ih f c d map_le_trans[OF _ le] show ?thesis by simp
  next
    case False
    then show ?thesis using Cons kc by simp
  qed
qed simp

lemma evict_sessions_frame:
  "evict_sessions now kss (m, act) = (m', act') \<Longrightarrow>
     mg_conns m' = mg_conns m \<and> connections m' = connections m \<and> keyLocks m' = keyLocks m \<and> mg_next m' = mg_next m \<and>
     map_of (sessions m') \<subseteq>\<^sub>m map_of (sessions m) \<and>
     (distinct (map fst (sessions m)) \<longrightarrow> distinct (map fst (sessions m'))) \<and>
     (\<forall>s. sess m' s = sess m s \<or>
        sess m' s = session_Close now (sess m s) \<and>
        (\<exists>k. (k, s) \<in> set kss \<and> (session_IsExpired now (sess m s) \<or> \<not> se_Connected (sess m s)) \<and> known m' k = None))"
proof (induction kss arbitrary: m act)
  case (Cons ks kss)
  obtain k s where ks: "ks = (k, s)" by (cases ks)
  show ?case
  proof (cases "session_IsExpired now (sess m s) \<or> \<not> se_Connected (sess m s)")
    case True
    let ?m = "on_sess (session_Close now) s (m\<lparr>sessions := AList.delete k (sessions m)\<rparr>)"
    have run: "evict_sessions now kss (?m, act) = (m', act')" using Cons.prems True ks by simp
    note ih = Cons.IH[OF run]
    have le: "map_of (sessions ?m) \<subseteq>\<^sub>m map_of (sessions m)" by (simp add: on_sess_def AList.delete_conv' map_le_def)
    have none: "known m' k = None"
    proof -
      have "known ?m k = None" by (simp add: on_sess_def AList.delete_conv')
      moreover have "map_of (sessions m') \<subseteq>\<^sub>m map_of (sessions ?m)" using ih by blast
      ultimately show ?thesis by (metis domIff map_le_def)
    qed
    have sess': "sess m' s' = sess ?m s' \<or>
        sess m' s' = session_Close now (sess ?m s') \<and>
        (\<exists>k. (k, s') \<in> set kss \<and> (session_IsExpired now (sess ?m s') \<or> \<not> se_Connected (sess ?m s')) \<and> known m' k = None)"
      for s' using ih by blast
    have "sess m' s' = sess m s' \<or>
        sess m' s' = session_Close now (sess m s') \<and>
        (\<exists>k. (k, s') \<in> set (ks # kss) \<and> (session_IsExpired now (sess m s') \<or> \<not> se_Connected (sess m s')) \<and> known m' k = None)"
      for s'
    proof (cases "s' = s")
      case True
      then have "sess ?m s' = session_Close now (sess m s')" by (simp add: on_sess_def)
      then have "sess m' s' = session_Close now (sess m s')" using sess'[of s'] by auto
      then show ?thesis using True \<open>session_IsExpired now (sess m s) \<or> \<not> se_Connected (sess m s)\<close> none ks by auto
    next
      case False
      then have "sess ?m s' = sess m s'" by (simp add: on_sess_def)
      then show ?thesis using sess'[of s'] by (simp only:) (meson list.set_intros(2))
    qed
    moreover have "distinct (map fst (sessions m)) \<Longrightarrow> distinct (map fst (sessions ?m))"
      by (simp add: on_sess_def AList.distinct_delete)
    moreover have "mg_conns ?m = mg_conns m" "connections ?m = connections m" "keyLocks ?m = keyLocks m" "mg_next ?m = mg_next m"
      by (simp_all add: on_sess_def)
    ultimately show ?thesis using ih map_le_trans[OF _ le] by simp
  next
    case False
    then have "evict_sessions now kss (m, k # act) = (m', act')" using Cons.prems ks by simp
    from Cons.IH[OF this] show ?thesis by (metis list.set_intros(2))
  qed
qed simp


section \<open>The invariant\<close>

text \<open>Of the pool alone: addresses are in use; a connection is under its own key; no two share a session; and while
  the session of a pooled, connected connection is known, it is known under the same key and connected.\<close>

definition pool_inv :: "Manager \<Rightarrow> bool" where
  "pool_inv m \<longleftrightarrow>
     1 \<le> mg_next m \<and> distinct (map fst (sessions m)) \<and>
     (\<forall>k c. pool m k = Some c \<longrightarrow> c < mg_next m \<and> wc_PoolKey (conn m c) = k \<and>
        (\<exists>s. wc_session (conn m c) = Some s \<and> s \<noteq> 0)) \<and>
     (\<forall>c c' s. wc_session (conn m c) = Some s \<longrightarrow> wc_session (conn m c') = Some s \<longrightarrow> s \<noteq> 0 \<longrightarrow> c = c') \<and>
     (\<forall>c s. wc_session (conn m c) = Some s \<longrightarrow> s < mg_next m) \<and>
     (\<forall>k c s k0. pool m k = Some c \<longrightarrow> wc_session (conn m c) = Some s \<longrightarrow> known m k0 = Some s \<longrightarrow>
        k0 = k \<and> (conn_IsConnected (conn m c) \<longrightarrow> se_Connected (sess m s))) \<and>
     (\<forall>k s. known m k = Some s \<longrightarrow> s < mg_next m)"

text \<open>
  Of the requests: one that dials has a session of its own that no connection has yet; one that uses a pooled,
  connected connection is pending in its session; no two use the same connection.
\<close>

definition pending_in :: "Manager \<Rightarrow> nat \<Rightarrow> string \<Rightarrow> bool" where
  "pending_in m s r \<longleftrightarrow> r \<in> fst ` set (se_pending (sess m s))"

definition thread_inv :: "Manager \<Rightarrow> (nat \<Rightarrow> ws_thread) \<Rightarrow> bool" where
  "thread_inv m T \<longleftrightarrow>
     (\<forall>i k c r. T i = Using k c r \<longrightarrow> c < mg_next m) \<and>
     (\<forall>i k l s. T i = Dialing k l s \<longrightarrow> s < mg_next m \<and> s \<noteq> 0 \<and> (\<forall>c. wc_session (conn m c) \<noteq> Some s) \<and>
        (\<forall>k0. known m k0 = Some s \<longrightarrow> k0 = k) \<and> (\<forall>j k' l'. T j = Dialing k' l' s \<longrightarrow> j = i)) \<and>
     (\<forall>i k c r k0 s. T i = Using k c r \<longrightarrow> pool m k0 = Some c \<longrightarrow> conn_IsConnected (conn m c) \<longrightarrow>
        wc_session (conn m c) = Some s \<longrightarrow> pending_in m s r) \<and>
     (\<forall>i j k k' c r r'. T i = Using k c r \<longrightarrow> T j = Using k' c r' \<longrightarrow> i = j)"

text \<open>
  A step that only takes away: entries of the maps, connections that are connected, threads that dial or use, and of
  the sessions nothing that a pooled and connected connection needs.
\<close>

definition shrinks :: "Manager \<Rightarrow> (nat \<Rightarrow> ws_thread) \<Rightarrow> Manager \<Rightarrow> (nat \<Rightarrow> ws_thread) \<Rightarrow> bool" where
  "shrinks m T m' T' \<longleftrightarrow>
     mg_next m \<le> mg_next m' \<and> map_of (connections m') \<subseteq>\<^sub>m map_of (connections m) \<and>
     map_of (sessions m') \<subseteq>\<^sub>m map_of (sessions m) \<and> distinct (map fst (sessions m')) \<and>
     (\<forall>c. wc_session (conn m' c) = wc_session (conn m c) \<and> wc_PoolKey (conn m' c) = wc_PoolKey (conn m c) \<and>
        (conn_IsConnected (conn m' c) \<longrightarrow> conn_IsConnected (conn m c))) \<and>
     (\<forall>k c s. pool m' k = Some c \<longrightarrow> conn_IsConnected (conn m' c) \<longrightarrow> wc_session (conn m c) = Some s \<longrightarrow>
        (known m' k = Some s \<longrightarrow> se_Connected (sess m s) \<longrightarrow> se_Connected (sess m' s)) \<and>
        (\<forall>i k0 r. T' i = Using k0 c r \<longrightarrow> pending_in m s r \<longrightarrow> pending_in m' s r)) \<and>
     (\<forall>i. (\<exists>k l. T' i = Idle \<or> T' i = Waiting k l) \<or> T' i = T i)"

lemma shrinks_threads:
  assumes "shrinks m T m' T'"
  shows "T' i = Using k c r \<Longrightarrow> T i = Using k c r" "T' i = Dialing k l s \<Longrightarrow> T i = Dialing k l s"
  using assms unfolding shrinks_def by (metis ws_thread.distinct)+

lemma map_le_Some: "f \<subseteq>\<^sub>m g \<Longrightarrow> f k = Some v \<Longrightarrow> g k = Some v"
  by (metis domI map_le_def)

lemma shrinks_maps:
  assumes "shrinks m T m' T'"
  shows "pool m' k = Some c \<Longrightarrow> pool m k = Some c" "known m' k = Some s \<Longrightarrow> known m k = Some s"
    "wc_session (conn m' c') = wc_session (conn m c')" "wc_PoolKey (conn m' c') = wc_PoolKey (conn m c')"
    "conn_IsConnected (conn m' c') \<Longrightarrow> conn_IsConnected (conn m c')" "mg_next m \<le> mg_next m'"
  using assms map_le_Some unfolding shrinks_def by metis+

lemma shrinks_pool_inv:
  assumes "shrinks m T m' T'" "pool_inv m"
  shows "pool_inv m'"
  unfolding pool_inv_def
proof (intro conjI allI impI)
  note m = shrinks_maps[OF assms(1)] and p = assms(2)[unfolded pool_inv_def]
  show "1 \<le> mg_next m'" using m(6) p by linarith
  show "distinct (map fst (sessions m'))" using assms(1) by (simp add: shrinks_def)
  show "c < mg_next m'" if "pool m' k = Some c" for k c using m(1)[OF that] m(6) p by (meson order_less_le_trans)
  show "wc_PoolKey (conn m' c) = k" if "pool m' k = Some c" for k c using m(1)[OF that] m(4) p by metis
  show "\<exists>s. wc_session (conn m' c) = Some s \<and> s \<noteq> 0" if "pool m' k = Some c" for k c using m(1)[OF that] m(3) p by metis
  show "c = c'" if "wc_session (conn m' c) = Some s" "wc_session (conn m' c') = Some s" "s \<noteq> 0" for c c' s
    using that p unfolding m(3) by blast
  show "s < mg_next m'" if "wc_session (conn m' c) = Some s" for c s
    using that m(6) p unfolding m(3) by (meson order_less_le_trans)
  show "s < mg_next m'" if "known m' k = Some s" for k s using m(2)[OF that] m(6) p by (meson order_less_le_trans)
  fix k c s k0
  assume a: "pool m' k = Some c" "wc_session (conn m' c) = Some s" "known m' k0 = Some s"
  then have e: "k0 = k" "conn_IsConnected (conn m c) \<longrightarrow> se_Connected (sess m s)"
    using m(1)[OF a(1)] m(2)[OF a(3)] p unfolding m(3) by blast+
  show "k0 = k" by (rule e)
  show "se_Connected (sess m' s)" if "conn_IsConnected (conn m' c)"
    using assms(1) a that e m(5)[OF that] unfolding shrinks_def m(3) by blast
qed

lemma shrinks_thread_inv:
  assumes "shrinks m T m' T'" "thread_inv m T"
  shows "thread_inv m' T'"
  unfolding thread_inv_def
proof (intro conjI allI impI)
  note m = shrinks_maps[OF assms(1)] and t = shrinks_threads[OF assms(1)] and p = assms(2)[unfolded thread_inv_def]
  show "c < mg_next m'" if "T' i = Using k c r" for i k c r using t(1)[OF that] m(6) p by (meson order_less_le_trans)
  show "s < mg_next m'" if "T' i = Dialing k l s" for i k l s using t(2)[OF that] m(6) p by (meson order_less_le_trans)
  show "s \<noteq> 0" if "T' i = Dialing k l s" for i k l s using t(2)[OF that] p by blast
  show "wc_session (conn m' c) \<noteq> Some s" if "T' i = Dialing k l s" for i k l s c using t(2)[OF that] p by (simp add: m(3))
  show "k0 = k" if "T' i = Dialing k l s" "known m' k0 = Some s" for i k l s k0 using t(2)[OF that(1)] m(2)[OF that(2)] p by blast
  show "j = i" if "T' i = Dialing k l s" "T' j = Dialing k' l' s" for i k l s j k' l' using t(2)[OF that(1)] t(2)[OF that(2)] p by metis
  show "i = j" if "T' i = Using k c r" "T' j = Using k' c r'" for i j k k' c r r' using t(1)[OF that(1)] t(1)[OF that(2)] p by metis
  fix i k c r k0 s
  assume a: "T' i = Using k c r" "pool m' k0 = Some c" "conn_IsConnected (conn m' c)" "wc_session (conn m' c) = Some s"
  have "pending_in m s r" using t(1)[OF a(1)] m(1)[OF a(2)] m(5)[OF a(3)] a(4) p unfolding m(3) by blast
  then show "pending_in m' s r" using assms(1) a unfolding shrinks_def m(3) by blast
qed

lemmas shrinks_keep = shrinks_pool_inv shrinks_thread_inv



section \<open>Steps that only take away\<close>

definition stops :: "(nat \<Rightarrow> ws_thread) \<Rightarrow> (nat \<Rightarrow> ws_thread) \<Rightarrow> bool" where
  "stops T T' \<longleftrightarrow> (\<forall>i. (\<exists>k l. T' i = Idle \<or> T' i = Waiting k l) \<or> T' i = T i)"

lemma stops_simps [simp]: "stops T T" "stops T (T(i := Idle))" "stops T (T(i := Waiting k l))"
  by (auto simp: stops_def)

lemma stops_using: "stops T T' \<Longrightarrow> T' i = Using k c r \<Longrightarrow> T i = Using k c r"
  unfolding stops_def by (metis ws_thread.distinct)

lemma pool_invD:
  assumes "pool_inv m"
  shows "distinct (map fst (sessions m))"
    "pool m k = Some c \<Longrightarrow> \<exists>s. wc_session (conn m c) = Some s \<and> s \<noteq> 0"
    "wc_session (conn m c) = Some s \<Longrightarrow> wc_session (conn m c') = Some s \<Longrightarrow> s \<noteq> 0 \<Longrightarrow> c = c'"
    "pool m k = Some c \<Longrightarrow> wc_session (conn m c) = Some s \<Longrightarrow> known m k0 = Some s \<Longrightarrow> k0 = k"
    "pool m k = Some c \<Longrightarrow> wc_session (conn m c) = Some s \<Longrightarrow> known m k0 = Some s \<Longrightarrow>
       conn_IsConnected (conn m c) \<Longrightarrow> se_Connected (sess m s)"
  using assms unfolding pool_inv_def by blast+

lemma shrinks_frame:
  assumes "pool_inv m" "mg_conns m' = mg_conns m" "mg_sess m' = mg_sess m" "connections m' = connections m"
    "sessions m' = sessions m" "mg_next m \<le> mg_next m'" "stops T T'"
  shows "shrinks m T m' T'"
  using assms by (simp add: shrinks_def pool_invD(1) pending_in_def stops_def)

text \<open>Entries go, a connection is closed.\<close>

lemma shrinks_close:
  assumes "pool_inv m" "map_of (connections m') \<subseteq>\<^sub>m map_of (connections m)" "map_of (sessions m') \<subseteq>\<^sub>m map_of (sessions m)"
    and "distinct (map fst (sessions m'))" "mg_sess m' = mg_sess m" "mg_next m' = mg_next m"
    and "\<And>c. conn m' c = conn m c \<or> conn m' c = conn_Close (conn m c)" "stops T T'"
  shows "shrinks m T m' T'"
proof -
  have "wc_session (conn m' c) = wc_session (conn m c) \<and> wc_PoolKey (conn m' c) = wc_PoolKey (conn m c) \<and>
        (conn_IsConnected (conn m' c) \<longrightarrow> conn_IsConnected (conn m c))" for c
    using assms(7)[of c] by auto
  then show ?thesis using assms by (simp add: shrinks_def pending_in_def stops_def)
qed

lemma delete_le: "map_of (AList.delete k al) \<subseteq>\<^sub>m map_of al"
  by (simp add: AList.delete_conv' map_le_def)

lemma forget_shrinks: "pool_inv m \<Longrightarrow> stops T T' \<Longrightarrow> shrinks m T (forget k c m) T'"
  by (rule shrinks_close) (auto simp: forget_def on_conn_def delete_le AList.distinct_delete dest: pool_invD(1))

lemma take_pooled_shrinks:
  assumes "pool_inv m" "stops T T'" "take_pooled now probe k sk r m = (m', res)" "\<forall>c. res \<noteq> Reused c"
  shows "shrinks m T m' T'"
proof -
  have f: "shrinks m T m T'" by (rule shrinks_frame) (use assms in auto)
  have g: "shrinks m T (forget k c m) T'" for c by (rule forget_shrinks) (use assms in auto)
  have h: "shrinks m T (forget k c (m\<lparr>keyLocks := ls\<rparr>)) T'" for c ls
    by (rule shrinks_close) (use assms in \<open>auto simp: forget_def on_conn_def delete_le AList.distinct_delete dest: pool_invD(1)\<close>)
  from assms(3,4) f g h show ?thesis by (auto simp: take_pooled_def split: option.splits if_splits)
qed

lemma take_pooled_none: "take_pooled now probe k sk r m = (m', NeedsNew) \<Longrightarrow> pool m' k = None"
  by (auto simp: take_pooled_def forget_def on_conn_def AList.delete_conv' split: option.splits if_splits)

lemma RemoveConnection_shrinks:
  assumes "pool_inv m"
  shows "shrinks m T (RemoveConnection a url sk p m) T"
  by (rule shrinks_close)
    (use assms in \<open>auto simp: RemoveConnection_def Let_def on_conn_def delete_le AList.distinct_delete dest: pool_invD(1)
       split: option.splits\<close>)

text \<open>A session changes that no pooled, connected connection with a user needs, or in a way that does not matter.\<close>

lemma shrinks_session:
  assumes "pool_inv m" "mg_conns m' = mg_conns m" "connections m' = connections m" "mg_next m' = mg_next m"
    and "map_of (sessions m') \<subseteq>\<^sub>m map_of (sessions m)" "distinct (map fst (sessions m'))"
    and "\<And>s'. s' \<noteq> s \<Longrightarrow> sess m' s' = sess m s'" "stops T T'"
    and "\<And>k c. pool m k = Some c \<Longrightarrow> conn_IsConnected (conn m c) \<Longrightarrow> wc_session (conn m c) = Some s \<Longrightarrow>
      (known m' k = Some s \<longrightarrow> se_Connected (sess m s) \<longrightarrow> se_Connected (sess m' s)) \<and>
      (\<forall>i k0 r. T' i = Using k0 c r \<longrightarrow> pending_in m s r \<longrightarrow> pending_in m' s r)"
  shows "shrinks m T m' T'"
proof -
  have "(known m' k = Some s' \<longrightarrow> se_Connected (sess m s') \<longrightarrow> se_Connected (sess m' s')) \<and>
      (\<forall>i k0 r. T' i = Using k0 c r \<longrightarrow> pending_in m s' r \<longrightarrow> pending_in m' s' r)"
    if "pool m k = Some c" "conn_IsConnected (conn m c)" "wc_session (conn m c) = Some s'" for k c s'
    using assms(7)[of s'] assms(9)[of k c] that by (cases "s' = s") (auto simp: pending_in_def)
  then show ?thesis using assms(2-6,8) by (simp add: shrinks_def stops_def)
qed

lemma fail_dial_shrinks:
  assumes "pool_inv m" "thread_inv m T" "T i = Dialing k l s"
  shows "shrinks m T (fail_dial now k s m) (T(i := Idle))"
proof -
  have "wc_session (conn m c) \<noteq> Some s" for c using assms(2,3) by (simp add: thread_inv_def)
  then show ?thesis
    by (intro shrinks_session[where s = s])
      (use assms in \<open>auto simp: fail_dial_def on_sess_def delete_le AList.distinct_delete dest: pool_invD(1)\<close>)
qed

lemma on_conn_touch_shrinks:
  "pool_inv m \<Longrightarrow> stops T T' \<Longrightarrow> shrinks m T (on_conn (conn_Touch now) c m) T'"
  by (auto simp: shrinks_def on_conn_def pending_in_def stops_def dest: pool_invD(1))

lemma drop_request_shrinks:
  assumes "pool_inv m" "thread_inv m T" "T i = Using k c r"
  shows "shrinks m T (drop_request c r m) (T(i := Idle))"
proof (cases "wc_session (conn m c)")
  case None
  then have "drop_request c r m = m" by (simp add: drop_request_def on_session_def)
  then show ?thesis using shrinks_frame[OF assms(1)] by simp
next
  case (Some s)
  have "\<not> (T(i := Idle)) j = Using k0 c' r'" if "pool m k' = Some c'" "wc_session (conn m c') = Some s" for j k0 c' r' k'
  proof
    assume u: "(T(i := Idle)) j = Using k0 c' r'"
    have "s \<noteq> 0" using pool_invD(2)[OF assms(1) that(1)] that(2) by auto
    then have "c' = c" using pool_invD(3)[OF assms(1) that(2) Some] by simp
    moreover have "j \<noteq> i" "T j = Using k0 c' r'" using u by (auto split: if_splits)
    ultimately show False using assms(2,3) unfolding thread_inv_def by blast
  qed
  then show ?thesis
    by (intro shrinks_session[where s = s])
      (use assms Some in \<open>auto simp: drop_request_def on_session_def on_sess_def RemovePendingRequest_def dest: pool_invD(1)\<close>)
qed



lemma evictExpired_keeps:
  assumes "pool_inv m" "thread_inv m T" "pings_answered now m"
  shows "pool_inv (evictExpired now m) \<and> thread_inv (evictExpired now m) T"
proof -
  obtain m1 act where e1: "evict_connections now (connections m) (m, []) = (m1, act)" by (metis surj_pair)
  obtain m2 act2 where e2: "evict_sessions now (sessions m1) (m1, act) = (m2, act2)" by (metis surj_pair)
  note f1 = evict_connections_frame[OF e1]
  note f2 = evict_sessions_frame[OF e2]
  have s1: "shrinks m T m1 T" by (rule shrinks_close) (use assms f1 pool_invD(1)[OF assms(1)] in auto)
  have i1: "pool_inv m1" "thread_inv m1 T" using s1 assms shrinks_keep by blast+
  have same: "sess m1 = sess m" "sessions m1 = sessions m" using f1 by auto
  have kept: "sess m2 s = sess m1 s"
    if c: "pool m1 k = Some c" "conn_IsConnected (conn m1 c)" "wc_session (conn m1 c) = Some s"
      and k: "known m2 k = Some s \<or> (\<exists>i k0 r. T i = Using k0 c r)" for k c s
  proof (rule ccontr)
    assume "sess m2 s \<noteq> sess m1 s"
    then obtain k1 where k1: "(k1, s) \<in> set (sessions m1)" "session_IsExpired now (sess m1 s) \<or> \<not> se_Connected (sess m1 s)"
      "known m2 k1 = None" using f2 by metis
    have kn: "known m1 k1 = Some s" using k1(1) pool_invD(1)[OF i1(1)] by simp
    have "k1 = k" using pool_invD(4)[OF i1(1) c(1,3) kn] .
    then have "known m2 k \<noteq> Some s" using k1(3) by simp
    with k obtain i k0 r where u: "T i = Using k0 c r" by blast
    have "pending_in m1 s r" using i1(2) u c unfolding thread_inv_def by blast
    then have "PendingCount (sess m1 s) \<noteq> 0" by (auto simp: pending_in_def PendingCount_def)
    then have "\<not> session_IsExpired now (sess m1 s)"
      using assms(3) k1(1) unfolding pings_answered_def same by auto
    with k1(2) have "\<not> se_Connected (sess m1 s)" by simp
    then show False using pool_invD(5)[OF i1(1) c(1,3) kn c(2)] by simp
  qed
  have s2: "shrinks m1 T m2 T"
    unfolding shrinks_def
  proof (intro conjI allI impI)
    show "se_Connected (sess m2 s)"
      if "pool m2 k = Some c" "conn_IsConnected (conn m2 c)" "wc_session (conn m1 c) = Some s" "known m2 k = Some s"
        "se_Connected (sess m1 s)" for k c s
      using kept[of k c s] that f2 by simp
    show "pending_in m2 s r"
      if "pool m2 k = Some c" "conn_IsConnected (conn m2 c)" "wc_session (conn m1 c) = Some s" "T i = Using k0 c r"
        "pending_in m1 s r" for k c s i k0 r
    proof -
      have "sess m2 s = sess m1 s" by (rule kept[of k c]) (use that f2 in auto)
      with that(5) show ?thesis by (simp add: pending_in_def)
    qed
  qed (use f2 pool_invD(1)[OF i1(1)] in auto)
  have "evictExpired now m = m2\<lparr>keyLocks := filter (\<lambda>(key, _). key \<in> set act2) (keyLocks m2)\<rparr>"
    by (simp add: evictExpired_def e1 e2)
  moreover have i2: "pool_inv m2" "thread_inv m2 T" using s2 i1 shrinks_keep by blast+
  ultimately have "shrinks m2 T (evictExpired now m) T" by (intro shrinks_frame) simp_all
  with i2 show ?thesis using shrinks_keep by blast
qed



lemma heartbeat_keeps:
  assumes "pool_inv m" "thread_inv m T" "wc_session (conn m c) = Some s"
  shows "pool_inv (heartbeat_fires now ping s c m) \<and> thread_inv (heartbeat_fires now ping s c m) T"
proof (cases "se_Connected (sess m s)")
  case False
  then show ?thesis using assms by (simp add: heartbeat_fires_def)
next
  case conn: True
  obtain m1 ok where sent: "SendHeartbeat ping c m = (m1, ok)" by (metis surj_pair)
  have s1: "shrinks m T m1 T"
  proof (cases "\<not> conn_IsConnected (conn m c) \<or> ping")
    case True
    then have "m1 = m" using sent by (auto simp: SendHeartbeat_def split: if_splits)
    then show ?thesis using assms shrinks_frame by simp
  next
    case False
    then show ?thesis
      using sent assms(1)
      by (intro shrinks_close)
        (auto simp: SendHeartbeat_def on_conn_def Let_def delete_le AList.distinct_delete dest: pool_invD(1) split: if_splits)
  qed
  then have i1: "pool_inv m1" "thread_inv m1 T" using assms shrinks_keep by blast+
  have down: "\<not> ok \<Longrightarrow> \<not> conn_IsConnected (conn m1 c)" "wc_session (conn m1 c) = Some s"
    using sent assms(3) by (auto simp: SendHeartbeat_def on_conn_def Let_def split: if_splits)
  show ?thesis
  proof (cases ok)
    case True
    then show ?thesis using i1 conn sent by (simp add: heartbeat_fires_def)
  next
    case False
    have "\<not> (pool m1 k = Some c' \<and> conn_IsConnected (conn m1 c') \<and> wc_session (conn m1 c') = Some s)" for k c'
      using pool_invD(2)[OF i1(1)] pool_invD(3)[OF i1(1) _ down(2)] down(1)[OF False] by (metis option.inject)
    then have "shrinks m1 T (on_sess (session_Close now) s m1) T"
      using i1(1) by (intro shrinks_session[where s = s]) (auto simp: on_sess_def dest: pool_invD(1))
    then show ?thesis using i1 conn sent False shrinks_keep by (simp add: heartbeat_fires_def)
  qed
qed

section \<open>Steps that add\<close>

lemma pool_inv_more:
  assumes "pool_inv m"
  shows "1 \<le> mg_next m" "pool m k = Some c \<Longrightarrow> c < mg_next m" "pool m k = Some c \<Longrightarrow> wc_PoolKey (conn m c) = k"
    "wc_session (conn m c) = Some s \<Longrightarrow> s < mg_next m" "known m k = Some s \<Longrightarrow> s < mg_next m"
  using assms unfolding pool_inv_def by blast+

lemma thread_invD:
  assumes "thread_inv m T"
  shows "T i = Using k c r \<Longrightarrow> c < mg_next m" "T i = Dialing k l s \<Longrightarrow> s < mg_next m" "T i = Dialing k l s \<Longrightarrow> s \<noteq> 0"
    "T i = Dialing k l s \<Longrightarrow> wc_session (conn m c) \<noteq> Some s" "T i = Dialing k l s \<Longrightarrow> known m k0 = Some s \<Longrightarrow> k0 = k"
    "T i = Dialing k l s \<Longrightarrow> T j = Dialing k' l' s \<Longrightarrow> j = i"
    "T i = Using k c r \<Longrightarrow> pool m k0 = Some c \<Longrightarrow> conn_IsConnected (conn m c) \<Longrightarrow> wc_session (conn m c) = Some s \<Longrightarrow>
       pending_in m s r"
    "T i = Using k c r \<Longrightarrow> T j = Using k' c r' \<Longrightarrow> i = j"
  using assms unfolding thread_inv_def by metis+

lemma pool_invI:
  assumes "1 \<le> mg_next m" "distinct (map fst (sessions m))"
    "\<And>k c. pool m k = Some c \<Longrightarrow> c < mg_next m" "\<And>k c. pool m k = Some c \<Longrightarrow> wc_PoolKey (conn m c) = k"
    "\<And>k c. pool m k = Some c \<Longrightarrow> \<exists>s. wc_session (conn m c) = Some s \<and> s \<noteq> 0"
    "\<And>c c' s. wc_session (conn m c) = Some s \<Longrightarrow> wc_session (conn m c') = Some s \<Longrightarrow> s \<noteq> 0 \<Longrightarrow> c = c'"
    "\<And>c s. wc_session (conn m c) = Some s \<Longrightarrow> s < mg_next m" "\<And>k s. known m k = Some s \<Longrightarrow> s < mg_next m"
    "\<And>k c s k0. pool m k = Some c \<Longrightarrow> wc_session (conn m c) = Some s \<Longrightarrow> known m k0 = Some s \<Longrightarrow>
       k0 = k \<and> (conn_IsConnected (conn m c) \<longrightarrow> se_Connected (sess m s))"
  shows "pool_inv m"
  using assms unfolding pool_inv_def by blast

lemma thread_invI:
  assumes "\<And>i k c r. T i = Using k c r \<Longrightarrow> c < mg_next m"
    "\<And>i k l s. T i = Dialing k l s \<Longrightarrow> s < mg_next m \<and> s \<noteq> 0"
    "\<And>i k l s c. T i = Dialing k l s \<Longrightarrow> wc_session (conn m c) \<noteq> Some s"
    "\<And>i k l s k0. T i = Dialing k l s \<Longrightarrow> known m k0 = Some s \<Longrightarrow> k0 = k"
    "\<And>i k l s j k' l'. T i = Dialing k l s \<Longrightarrow> T j = Dialing k' l' s \<Longrightarrow> j = i"
    "\<And>i k c r k0 s. T i = Using k c r \<Longrightarrow> pool m k0 = Some c \<Longrightarrow> conn_IsConnected (conn m c) \<Longrightarrow>
       wc_session (conn m c) = Some s \<Longrightarrow> pending_in m s r"
    "\<And>i j k k' c r r'. T i = Using k c r \<Longrightarrow> T j = Using k' c r' \<Longrightarrow> i = j"
  shows "thread_inv m T"
  unfolding thread_inv_def
  by (intro conjI allI impI)
    (rule assms(1) assms(2)[THEN conjunct1] assms(2)[THEN conjunct2] assms(3) assms(4) assms(5) assms(6) assms(7); assumption)+

lemma reuse_keeps:
  assumes "pool_inv m" "thread_inv m T" "T i = Waiting k l" "take_pooled now probe k sk r m = (m', Reused c)"
  shows "pool_inv m' \<and> thread_inv m' (T(i := Using k c r))"
proof -
  from assms(4) have c: "pool m k = Some c" "canReuseConnection now m c"
    "m' = on_conn (conn_Touch now) c (on_session (AddPendingRequest r sk now) c m)"
    by (auto simp: take_pooled_def split: option.splits if_splits)
  obtain s where s: "wc_session (conn m c) = Some s" "PendingCount (sess m s) = 0" "conn_IsConnected (conn m c)"
    using c(2) by (auto simp: canReuseConnection_def split: option.splits)
  let ?m = "on_sess (AddPendingRequest r sk now) s m"
  have m': "m' = on_conn (conn_Touch now) c ?m" using c(3) s(1) by (simp add: on_session_def)
  have "shrinks m T ?m T"
    using assms(1)
    by (intro shrinks_session[where s = s])
      (auto simp: on_sess_def AddPendingRequest_def pending_in_def dom_update AList.update_keys set_map[symmetric]
        simp del: set_map dest: pool_invD(1))
  then have i1: "pool_inv ?m" "thread_inv ?m T" using assms shrinks_keep by blast+
  have "shrinks ?m T m' T" unfolding m' by (rule on_conn_touch_shrinks[OF i1(1)]) simp
  then have i2: "pool_inv m'" "thread_inv m' T" using i1 shrinks_keep by blast+
  have free: "T j \<noteq> Using k' c r'" for j k' r'
  proof
    assume "T j = Using k' c r'"
    then have "pending_in m s r'" using assms(2) c(1) s unfolding thread_inv_def by blast
    then show False using s(2) by (auto simp: pending_in_def PendingCount_def)
  qed
  have own: "pending_in m' s r"
    by (simp add: m' on_conn_def on_sess_def AddPendingRequest_def pending_in_def) (simp add: AList.update_conv' flip: dom_map_of_conv_image_fst)
  have sc: "wc_session (conn m' c) = Some s" "c < mg_next m'"
    using s(1) c(1) assms(1) by (auto simp: m' on_conn_def on_sess_def pool_inv_def)
  show ?thesis
  proof
    show "thread_inv m' (T(i := Using k c r))"
      using i2(2) assms(3) free own sc unfolding thread_inv_def by auto
  qed (rule i2(1))
qed



lemma begin_dial_keeps:
  assumes "pool_inv m" "thread_inv m T" "T i = Waiting k l" "pool m k = None" "begin_dial now u a sk k m = (m', s)"
  shows "pool_inv m' \<and> thread_inv m' (T(i := Dialing k l s))"
proof -
  define m1 where "m1 = (case known m k of None \<Rightarrow> m | Some old \<Rightarrow> on_sess (session_Close now) old m)"
  have s1: "shrinks m T m1 T"
  proof (cases "known m k")
    case None
    then show ?thesis using shrinks_frame[OF assms(1)] by (simp add: m1_def)
  next
    case (Some old)
    have "wc_session (conn m c) \<noteq> Some old" if "pool m k' = Some c" for k' c
      using pool_invD(4)[OF assms(1) that _ Some] that assms(4) by auto
    then show ?thesis using assms(1) Some
      by (intro shrinks_session[where s = old]) (auto simp: m1_def on_sess_def dest: pool_invD(1))
  qed
  then have i1: "pool_inv m1" "thread_inv m1 T" using assms shrinks_keep by blast+
  have same: "mg_conns m1 = mg_conns m" "connections m1 = connections m" "sessions m1 = sessions m" "mg_next m1 = mg_next m"
    by (simp_all add: m1_def on_sess_def split: option.splits)
  define new where "new = (if trim_space sk \<noteq> '''' then (NewSession u a now)\<lparr>se_ID := trim_space sk\<rparr> else NewSession u a now)"
  have m': "m' = m1\<lparr>mg_sess := (mg_sess m1)(s := new), mg_next := s + 1, sessions := AList.update k s (sessions m1)\<rparr>"
    "s = mg_next m1"
    using assms(5) unfolding begin_dial_def m1_def[symmetric] Let_def new_def by auto
  have fresh: "wc_session (conn m1 c) \<noteq> Some s" "known m1 k0 \<noteq> Some s" "s \<noteq> 0" for c k0
    using pool_inv_more(4)[OF i1(1), of c s] pool_inv_more(5)[OF i1(1), of k0 s] pool_inv_more(1)[OF i1(1)] m'(2) by auto
  note pm = pool_inv_more[OF i1(1)] and pd = pool_invD[OF i1(1)] and td = thread_invD[OF i1(2)]
  have eq: "mg_conns m' = mg_conns m1" "connections m' = connections m1" "mg_next m' = mg_next m1 + 1"
    "known m' = (known m1)(k \<mapsto> s)" "sess m' s' = (if s' = s then new else sess m1 s')" for s'
    by (simp_all add: m' AList.update_conv' fun_eq_iff)
  have p: "pool_inv m'"
  proof (rule pool_invI)
    show "distinct (map fst (sessions m'))" by (simp add: m'(1) AList.distinct_update pd(1))
    show "k1 = k2 \<and> (conn_IsConnected (conn m' c) \<longrightarrow> se_Connected (sess m' s'))"
      if "pool m' k2 = Some c" "wc_session (conn m' c) = Some s'" "known m' k1 = Some s'" for k2 c s' k1
      using that fresh(1)[of c] pd(4,5) unfolding eq by (auto split: if_splits)
  qed (use pm pd(2,3) m'(2) in \<open>auto simp: eq less_SucI split: if_splits\<close>)
  have notd: "T j \<noteq> Dialing k' l' s" for j k' l' using td(2) m'(2) by blast
  have t: "thread_inv m' (T(i := Dialing k l s))"
  proof (rule thread_invI)
    show "pending_in m' s' r"
      if "(T(i := Dialing k l s)) j = Using k1 c r" "pool m' k0 = Some c" "conn_IsConnected (conn m' c)"
        "wc_session (conn m' c) = Some s'" for j k1 c r k0 s'
      using that td(7) fresh(1)[of c] unfolding eq pending_in_def by (auto split: if_splits)
    show "j = i'" if "(T(i := Dialing k l s)) i' = Dialing k1 l1 s1" "(T(i := Dialing k l s)) j = Dialing k2 l2 s1"
      for i' k1 l1 s1 j k2 l2 using that td(6) notd by (auto split: if_splits)
    show "k0 = k1" if "(T(i := Dialing k l s)) i' = Dialing k1 l1 s1" "known m' k0 = Some s1" for i' k1 l1 s1 k0
      using that td(5) notd fresh(2) unfolding eq by (auto split: if_splits)
    show "i' = j" if "(T(i := Dialing k l s)) i' = Using k1 c1 r1" "(T(i := Dialing k l s)) j = Using k2 c1 r2"
      for i' j k1 k2 c1 r1 r2 using that td(8) by (auto split: if_splits)
  qed (use td(1-4) fresh m'(2) in \<open>auto simp: eq less_SucI split: if_splits\<close>)
  from p t show ?thesis ..
qed

lemma end_dial_keeps:
  assumes "pool_inv m" "thread_inv m T" "T i = Dialing k l s" "end_dial now url k k sk r s m = (m', c)"
  shows "pool_inv m' \<and> thread_inv m' (T(i := Using k c r))"
proof -
  let ?m = "on_sess (AddPendingRequest r sk now \<circ> SetConnected True now) s m"
  have d: "s < mg_next m" "s \<noteq> 0" "\<forall>c. wc_session (conn m c) \<noteq> Some s" "\<forall>k0. known m k0 = Some s \<longrightarrow> k0 = k"
    "\<forall>j k' l'. T j = Dialing k' l' s \<longrightarrow> j = i"
    using assms(2,3) unfolding thread_inv_def by auto
  have "shrinks m T ?m (T(i := Idle))"
    using assms(1) d(3) by (intro shrinks_session[where s = s]) (auto simp: on_sess_def dest: pool_invD(1))
  then have i1: "pool_inv ?m" "thread_inv ?m (T(i := Idle))" using assms shrinks_keep by blast+
  have m': "m' = ?m\<lparr>mg_conns := (mg_conns ?m)(c := (NewWsConnection s url now)\<lparr>wc_PoolKey := k\<rparr>), mg_next := c + 1,
      connections := AList.update k c (connections ?m)\<rparr>" "c = mg_next ?m"
    using assms(4) by (auto simp: end_dial_def on_sess_def Let_def)
  have sess: "se_Connected (sess ?m s)" "pending_in ?m s r"
    by (auto simp: on_sess_def SetConnected_def AddPendingRequest_def pending_in_def AList.update_conv'
        simp flip: dom_map_of_conv_image_fst)
  have fresh: "pool ?m k0 \<noteq> Some c" "(T(i := Idle)) j \<noteq> Using k0 c r0" "wc_session (conn ?m c0) \<noteq> Some s" for k0 j r0 c0
    using pool_inv_more(2)[OF i1(1), of k0 c] thread_invD(1)[OF i1(2), of j k0 c r0] d(3) m'(2)
    by (auto simp: on_sess_def)
  have kn: "known ?m k0 = Some s \<Longrightarrow> k0 = k" "s < mg_next ?m" for k0 using d by (auto simp: on_sess_def)
  note pm = pool_inv_more[OF i1(1)] and pd = pool_invD[OF i1(1)] and td = thread_invD[OF i1(2)]
  have eq: "mg_sess m' = mg_sess ?m" "sessions m' = sessions ?m" "mg_next m' = mg_next ?m + 1"
    "pool m' = (pool ?m)(k \<mapsto> c)"
    "wc_session (conn m' c') = (if c' = c then Some s else wc_session (conn ?m c'))"
    "wc_PoolKey (conn m' c') = (if c' = c then k else wc_PoolKey (conn ?m c'))"
    "c' \<noteq> c \<Longrightarrow> conn m' c' = conn ?m c'" for c'
    by (simp_all add: m' AList.update_conv' NewWsConnection_def fun_eq_iff)
  have p: "pool_inv m'"
  proof (rule pool_invI)
    show "k1 = k2 \<and> (conn_IsConnected (conn m' c') \<longrightarrow> se_Connected (sess m' s'))"
      if "pool m' k2 = Some c'" "wc_session (conn m' c') = Some s'" "known m' k1 = Some s'" for k2 c' s' k1
    proof (cases "c' = c")
      case True
      then show ?thesis using that fresh(1)[of k2] sess(1) kn(1) unfolding eq by (auto split: if_splits)
    next
      case False
      then show ?thesis using that pd(4,5) eq(7)[OF False] unfolding eq(1,2,4,5) by (auto split: if_splits)
    qed
    show "c1 = c2" if "wc_session (conn m' c1) = Some s'" "wc_session (conn m' c2) = Some s'" "s' \<noteq> 0" for c1 c2 s'
      using that pd(3) fresh(3) unfolding eq by (auto split: if_splits)
  qed (use pm pd(1,2) m'(2) fresh(1) kn(2) d(2) in \<open>auto simp: eq less_SucI split: if_splits\<close>)
  have notd: "(T(i := Idle)) j \<noteq> Dialing k' l' s" for j k' l' using d(5) by auto
  let ?T = "(T(i := Idle))(i := Using k c r)"
  have dials: "(T(i := Idle)) x = Dialing k1 l1 s1" if "?T x = Dialing k1 l1 s1" for x k1 l1 s1
    using that by (auto split: if_splits)
  have "thread_inv m' ?T"
  proof (rule thread_invI)
    show "pending_in m' s' r'"
      if "?T j = Using k1 c' r'" "pool m' k0 = Some c'" "conn_IsConnected (conn m' c')"
        "wc_session (conn m' c') = Some s'" for j k1 c' r' k0 s'
    proof (cases "c' = c")
      case True
      with that(1) fresh(2)[of j] have "r' = r" by (auto split: if_splits)
      with True that(4) sess(2) show ?thesis by (simp add: eq(1,5) pending_in_def)
    next
      case False
      with that(1) have "(T(i := Idle)) j = Using k1 c' r'" by (auto split: if_splits)
      moreover have "pool ?m k0 = Some c'" "wc_session (conn ?m c') = Some s'" "conn_IsConnected (conn ?m c')"
        using that False by (simp_all add: eq(4,5) eq(7)[OF False] split: if_splits)
      ultimately have "pending_in ?m s' r'" using td(7) by blast
      then show ?thesis by (simp add: pending_in_def eq(1))
    qed
    show "j = i'" if "?T i' = Dialing k1 l1 s1" "?T j = Dialing k2 l2 s1" for i' k1 l1 s1 j k2 l2
      using td(6)[OF dials[OF that(1)] dials[OF that(2)]] .
    show "k0 = k1" if "?T i' = Dialing k1 l1 s1" "known m' k0 = Some s1" for i' k1 l1 s1 k0
      using td(5)[OF dials[OF that(1)]] that(2) unfolding eq by blast
    show "wc_session (conn m' c') \<noteq> Some s1" if "?T i' = Dialing k1 l1 s1" for i' k1 l1 s1 c'
      using td(4)[OF dials[OF that], of c'] notd[of i' k1 l1] dials[OF that] unfolding eq by (cases "c' = c") auto
    show "i' = j" if "?T i' = Using k1 c1 r1" "?T j = Using k2 c1 r2" for i' j k1 k2 c1 r1 r2
      using that td(8)[of i' k1 c1 r1 j k2 r2] fresh(2)[of i' k1 r1] fresh(2)[of j k2 r2] by (auto split: if_splits)
    show "s1 < mg_next m' \<and> s1 \<noteq> 0" if "?T i' = Dialing k1 l1 s1" for i' k1 l1 s1
      using td(2,3)[OF dials[OF that]] by (simp add: eq)
    show "c1 < mg_next m'" if "?T i' = Using k1 c1 r1" for i' k1 c1 r1
      using that td(1)[of i' k1 c1 r1] m'(2) by (auto simp: eq split: if_splits)
  qed
  then have t: "thread_inv m' (T(i := Using k c r))" by simp
  from p t show ?thesis ..
qed



section \<open>Every step keeps the invariant\<close>

lemma pong_keeps:
  assumes "pool_inv m" "thread_inv m T"
  shows "pool_inv (on_conn (conn_Touch now) c (on_session (HandlePong now) c m)) \<and>
         thread_inv (on_conn (conn_Touch now) c (on_session (HandlePong now) c m)) T"
proof -
  let ?m = "on_session (HandlePong now) c m"
  have "shrinks m T ?m T"
  proof (cases "wc_session (conn m c)")
    case None
    then show ?thesis using shrinks_frame[OF assms(1)] by (simp add: on_session_def)
  next
    case (Some s)
    then show ?thesis using assms(1)
      by (intro shrinks_session[where s = s])
        (auto simp: on_session_def on_sess_def HandlePong_def pending_in_def dest: pool_invD(1))
  qed
  then have i: "pool_inv ?m" "thread_inv ?m T" using assms shrinks_keep by blast+
  then show ?thesis using on_conn_touch_shrinks[OF i(1), of T T now c] shrinks_keep by simp
qed

definition world_ok :: "ws_world \<Rightarrow> bool" where
  "world_ok w \<longleftrightarrow> pool_inv (w_mg w) \<and> thread_inv (w_mg w) (w_thr w)"

lemma world_sel [simp]:
  "w_mg (set_thread i t m w) = m" "w_thr (set_thread i t m w) = (w_thr w)(i := t)"
  "w_mg (set_lock l b w) = w_mg w" "w_thr (set_lock l b w) = w_thr w"
  by (simp_all add: set_thread_def set_lock_def)

lemma world_shrinks: "shrinks (w_mg w) (w_thr w) (w_mg w') (w_thr w') \<Longrightarrow> world_ok w \<Longrightarrow> world_ok w'"
  unfolding world_ok_def using shrinks_keep by blast

lemma relay_step_keeps: "relay_step True w w' \<Longrightarrow> world_ok w \<Longrightarrow> world_ok w'"
proof (induction rule: relay_step.induct)
  case (ask w i k m l)
  then have "shrinks (w_mg w) (w_thr w) m ((w_thr w)(i := Waiting k l))"
    using keyLock_frame[OF ask(2)] by (intro shrinks_frame) (simp_all add: world_ok_def del: fun_upd_apply)
  then show ?case using ask(3) world_shrinks[where w' = "set_thread i (Waiting k l) m w"] by (simp del: fun_upd_apply)
next
  case (reuse w i k l now probe sk r m c)
  then show ?case using reuse_keeps unfolding world_ok_def world_sel by blast
next
  case (probe_failed w i k l now probe sk r m m' l')
  then have "shrinks (w_mg w) (w_thr w) m (w_thr w)"
    using take_pooled_shrinks[OF _ _ probe_failed(3)] by (simp add: world_ok_def)
  then have i: "world_ok (set_thread i (Waiting k l) m w)"
    using world_shrinks[where w' = "set_thread i (Waiting k l) m w"] probe_failed(1,5) by (simp add: fun_upd_idem)
  then have "shrinks m (w_thr w) m' ((w_thr w)(i := Waiting k l'))"
    using keyLock_frame[OF probe_failed(4)] by (intro shrinks_frame) (simp_all add: world_ok_def del: fun_upd_apply)
  then show ?case using i probe_failed(1) world_shrinks[where w = "set_thread i (Waiting k l) m w"]
    by (simp add: fun_upd_idem del: fun_upd_apply)
next
  case (give_up w i k l now probe sk r m)
  then have "shrinks (w_mg w) (w_thr w) m ((w_thr w)(i := Idle))"
    using take_pooled_shrinks[OF _ _ give_up(3)] by (simp add: world_ok_def del: fun_upd_apply)
  then show ?case using give_up(4) world_shrinks[where w' = "set_thread i Idle m w"] by (simp del: fun_upd_apply)
next
  case (refuse w i k l now probe sk r m)
  then have "shrinks (w_mg w) (w_thr w) m ((w_thr w)(i := Idle))"
    using take_pooled_shrinks[OF _ _ refuse(3)] by (simp add: world_ok_def del: fun_upd_apply)
  then show ?case using refuse(4) world_shrinks[where w' = "set_thread i Idle m w"] by (simp del: fun_upd_apply)
next
  case (dial w i k l now probe sk r m u a m' s)
  then have "shrinks (w_mg w) (w_thr w) m (w_thr w)"
    using take_pooled_shrinks[OF _ _ dial(3)] by (simp add: world_ok_def)
  then have "pool_inv m" "thread_inv m (w_thr w)" using dial(5) shrinks_keep unfolding world_ok_def by blast+
  from begin_dial_keeps[OF this dial(1) take_pooled_none[OF dial(3)] dial(4)] show ?case
    unfolding world_ok_def world_sel .
next
  case (dialled w i k l s now url sk r m c)
  then show ?case using end_dial_keeps unfolding world_ok_def world_sel by blast
next
  case (dial_fails w i k l s now)
  then have "shrinks (w_mg w) (w_thr w) (fail_dial now k s (w_mg w)) ((w_thr w)(i := Idle))"
    using fail_dial_shrinks unfolding world_ok_def by blast
  then show ?case
    using dial_fails(2) world_shrinks[where w' = "set_lock l False (set_thread i Idle (fail_dial now k s (w_mg w)) w)"]
    by (simp del: fun_upd_apply)
next
  case (finish w i k c r now)
  let ?m = "drop_request c r (w_mg w)"
  have "shrinks (w_mg w) (w_thr w) ?m ((w_thr w)(i := Idle))"
    using finish drop_request_shrinks unfolding world_ok_def by blast
  then have i: "pool_inv ?m" "thread_inv ?m ((w_thr w)(i := Idle))"
    using finish shrinks_keep unfolding world_ok_def by blast+
  show ?case using shrinks_keep[OF on_conn_touch_shrinks[OF i(1) stops_simps(1)]] i
    unfolding world_ok_def world_sel ReleaseConnection_def by blast
next
  case (broken w i k c r a url sk p)
  let ?m = "drop_request c r (w_mg w)"
  have "shrinks (w_mg w) (w_thr w) ?m ((w_thr w)(i := Idle))"
    using broken drop_request_shrinks unfolding world_ok_def by blast
  then have i: "pool_inv ?m" "thread_inv ?m ((w_thr w)(i := Idle))"
    using broken shrinks_keep unfolding world_ok_def by blast+
  show ?case using shrinks_keep[OF RemoveConnection_shrinks[OF i(1)]] i unfolding world_ok_def world_sel by blast
next
  case (sweep now w)
  then show ?case using evictExpired_keeps[of "w_mg w" "w_thr w" now] by (simp add: world_ok_def)
next
  case (beat w c s now ping)
  then show ?case using heartbeat_keeps[of "w_mg w" "w_thr w" c s now ping] by (simp add: world_ok_def)
next
  case (read w now c)
  then show ?case using shrinks_keep[OF on_conn_touch_shrinks[of "w_mg w" "w_thr w" "w_thr w" now c]]
    by (simp add: world_ok_def)
next
  case (pong w now c)
  then show ?case using pong_keeps[of "w_mg w" "w_thr w" now c] by (simp add: world_ok_def)
qed

lemma first_world_ok: "world_ok first_world"
  by (auto simp: world_ok_def first_world_def NewManager_def NewWsConnection_def pool_inv_def thread_inv_def)

lemma reachable_worlds_ok:
  "(relay_step True)\<^sup>*\<^sup>* first_world w \<Longrightarrow> world_ok w"
  by (induction rule: rtranclp_induct) (use first_world_ok relay_step_keeps in blast)+



section \<open>Exclusive use\<close>


text \<open>Steps with their results computed.\<close>

lemma ask_step:
  "w_thr w i = Idle \<Longrightarrow>
     relay_step b w (set_thread i (Waiting k (snd (keyLock k (w_mg w)))) (fst (keyLock k (w_mg w))) w)"
  by (rule relay_step.ask) simp_all

lemma dial_step:
  assumes "w_thr w i = Waiting k l" "\<not> w_held w l" "snd (take_pooled now probe k sk r (w_mg w)) = NeedsNew"
    and "begin_dial now u a sk k (fst (take_pooled now probe k sk r (w_mg w))) = (m', s)"
  shows "relay_step b w (set_lock l True (set_thread i (Dialing k l s) m' w))"
proof -
  have "take_pooled now probe k sk r (w_mg w) = (fst (take_pooled now probe k sk r (w_mg w)), NeedsNew)"
    using assms(3) by (metis prod.collapse)
  from relay_step.dial[OF assms(1,2) this assms(4)] show ?thesis .
qed

lemma reuse_step:
  assumes "w_thr w i = Waiting k l" "\<not> w_held w l" "snd (take_pooled now probe k sk r (w_mg w)) = Reused c"
  shows "relay_step b w (set_thread i (Using k c r) (fst (take_pooled now probe k sk r (w_mg w))) w)"
  by (rule relay_step.reuse[OF assms(1,2)]) (use assms(3) in \<open>simp add: prod_eq_iff\<close>)

text \<open>A first request asks for its key and begins to dial.\<close>

definition asked :: ws_world where
  "asked = set_thread 0 (Waiting ''k'' 1) (fst (keyLock ''k'' NewManager)) first_world"

definition dials :: ws_world where
  "dials = set_lock 1 True (set_thread 0 (Dialing ''k'' 1 2) (fst (begin_dial 0 ''s'' 7 ''t'' ''k'' (w_mg asked))) asked)"

definition uses :: ws_world where
  "uses = set_lock 1 False (set_thread 0 (Using ''k'' 3 ''r'') (fst (end_dial 0 ''wss'' ''k'' ''k'' ''t'' ''r'' 2 (w_mg dials))) dials)"

lemma dials_reachable: "(relay_step b)\<^sup>*\<^sup>* first_world dials"
proof -
  have "relay_step b first_world asked"
    using ask_step[of first_world 0 b "''k''"] by (simp add: first_world_def asked_def keyLock_def NewManager_def)
  moreover have "relay_step b asked dials"
    unfolding dials_def by (rule dial_step[where now = 0 and probe = True and sk = "''t''" and r = "''r''" and u = "''s''" and a = 7])
      (simp_all add: asked_def set_thread_def first_world_def keyLock_def NewManager_def take_pooled_def begin_dial_def Let_def eval_nat_numeral)
  ultimately show ?thesis by (meson rtranclp.simps)
qed

lemma uses_reachable: "(relay_step b)\<^sup>*\<^sup>* first_world uses"
proof -
  have "relay_step b dials uses"
    unfolding uses_def
    by (rule relay_step.dialled[where s = 2])
      (simp_all add: dials_def asked_def set_thread_def set_lock_def first_world_def keyLock_def NewManager_def begin_dial_def
        end_dial_def on_sess_def Let_def eval_nat_numeral)
  with dials_reachable show ?thesis by (rule rtranclp.rtrancl_into_rtrancl)
qed




text \<open>The sweep runs while the first request dials: the session and the lock of the key go.\<close>

definition swept :: ws_world where
  "swept = dials\<lparr>w_mg := evictExpired 1 (w_mg dials)\<rparr>"

definition asked_again :: ws_world where
  "asked_again = set_thread 1 (Waiting ''k'' 3) (fst (keyLock ''k'' (w_mg swept))) swept"

definition dials_again :: ws_world where
  "dials_again = set_lock 3 True (set_thread 1 (Dialing ''k'' 3 4)
     (fst (begin_dial 1 ''s2'' 7 ''t'' ''k'' (w_mg asked_again))) asked_again)"

definition first_connects :: ws_world where
  "first_connects = set_lock 1 False (set_thread 0 (Using ''k'' 5 ''r'')
     (fst (end_dial 2 ''wss'' ''k'' ''k'' ''t'' ''r'' 2 (w_mg dials_again))) dials_again)"

definition second_connects :: ws_world where
  "second_connects = set_lock 3 False (set_thread 1 (Using ''k'' 6 ''r2'')
     (fst (end_dial 3 ''wss'' ''k'' ''k'' ''t'' ''r2'' 4 (w_mg first_connects))) first_connects)"

definition first_done :: ws_world where
  "first_done = set_thread 0 Idle (ReleaseConnection 4 5 (drop_request 5 ''r'' (w_mg second_connects))) second_connects"

lemma dials_mg:
  "w_mg dials = \<lparr>mg_conns = (\<lambda>_. NewWsConnection 0 '''' 0),
     mg_sess = (\<lambda>_. NewSession '''' 0 0)(2 := (NewSession ''s'' 7 0)\<lparr>se_ID := ''t''\<rparr>), mg_next = 3, connections = [],
     sessions = [(''k'', 2)], keyLocks = [(''k'', 1)]\<rparr>"
  "w_held dials = (\<lambda>_. False)(1 := True)" "w_thr dials = (\<lambda>_. Idle)(0 := Dialing ''k'' 1 2)"
proof -
  have "trim_space ''t'' = ''t''" by code_simp
  then show "w_mg dials = \<lparr>mg_conns = (\<lambda>_. NewWsConnection 0 '''' 0),
     mg_sess = (\<lambda>_. NewSession '''' 0 0)(2 := (NewSession ''s'' 7 0)\<lparr>se_ID := ''t''\<rparr>), mg_next = 3, connections = [],
     sessions = [(''k'', 2)], keyLocks = [(''k'', 1)]\<rparr>"
    by (simp add: dials_def asked_def set_thread_def set_lock_def first_world_def keyLock_def NewManager_def begin_dial_def
        Let_def eval_nat_numeral)
qed (simp_all add: dials_def asked_def set_thread_def set_lock_def first_world_def fun_eq_iff)

lemma second_dial_reachable: "(relay_step b)\<^sup>*\<^sup>* first_world dials_again"
proof -
  have m: "w_mg swept = (w_mg dials)\<lparr>sessions := [], keyLocks := [],
      mg_sess := (mg_sess (w_mg dials))(2 := session_Close 1 (sess (w_mg dials) 2))\<rparr>"
    by (simp add: swept_def dials_mg evictExpired_def on_sess_def NewSession_def)
  have "relay_step b dials swept"
    unfolding swept_def by (rule relay_step.sweep) (simp add: dials_mg pings_answered_def PendingCount_def NewSession_def)
  moreover have "relay_step b swept asked_again"
  proof -
    have "w_thr swept 1 = Idle" by (simp add: swept_def dials_mg)
    moreover have "snd (keyLock ''k'' (w_mg swept)) = 3" by (simp add: m keyLock_def dials_mg)
    ultimately show ?thesis unfolding asked_again_def using ask_step[of swept 1 b "''k''"] by metis
  qed
  moreover have "relay_step b asked_again dials_again"
    unfolding dials_again_def
    by (rule dial_step[where now = 1 and probe = True and sk = "''t''" and r = "''r2''" and u = "''s2''" and a = 7])
      (simp_all add: asked_again_def m keyLock_def take_pooled_def begin_dial_def Let_def set_thread_def prod_eq_iff,
        simp_all add: swept_def dials_mg)
  ultimately show ?thesis using dials_reachable[of b] by (meson rtranclp.rtrancl_into_rtrancl)
qed



lemma dials_again_mg:
  "w_thr dials_again 0 = Dialing ''k'' 1 2" "w_thr dials_again 1 = Dialing ''k'' 3 4"
  "mg_next (w_mg dials_again) = 5" "connections (w_mg dials_again) = []"
proof -
  have m: "w_mg swept = (w_mg dials)\<lparr>sessions := [], keyLocks := [],
      mg_sess := (mg_sess (w_mg dials))(2 := session_Close 1 (sess (w_mg dials) 2))\<rparr>"
    by (simp add: swept_def dials_mg evictExpired_def on_sess_def NewSession_def)
  show "w_thr dials_again 0 = Dialing ''k'' 1 2" "w_thr dials_again 1 = Dialing ''k'' 3 4"
    by (simp_all add: dials_again_def asked_again_def set_thread_def set_lock_def swept_def dials_mg)
  show "mg_next (w_mg dials_again) = 5" "connections (w_mg dials_again) = []"
    by (simp_all add: dials_again_def asked_again_def m keyLock_def begin_dial_def Let_def)
      (simp_all add: dials_mg)
qed

lemma end_dial_result:
  "end_dial now url k k sk r s m = (m', c) \<Longrightarrow> c = mg_next m \<and> mg_next m' = mg_next m + 1 \<and>
     connections m' = AList.update k c (connections m) \<and>
     conn m' c = (NewWsConnection s url now)\<lparr>wc_PoolKey := k\<rparr> \<and> (\<forall>d. d \<noteq> c \<longrightarrow> conn m' d = conn m d)"
  by (auto simp: end_dial_def on_sess_def Let_def)

text \<open>
  The sweep runs every 30 seconds and a dial takes up to 30: it takes the new session for a dead one and drops it with the
  lock of the key. A second request of the same session then dials as well; the connection that is stored last stays in the
  pool, the other one is left open for good, in no map that a sweep looks at.
\<close>

theorem sweep_leaks_connection:
  "\<exists>w c. (relay_step True)\<^sup>*\<^sup>* first_world w \<and>
     conn_IsConnected (conn (w_mg w) c) \<and> wc_PoolKey (conn (w_mg w) c) = ''k'' \<and>
     c \<notin> snd ` set (connections (w_mg w)) \<and> (\<forall>i k r. w_thr w i \<noteq> Using k c r)"
proof -
  have 0: "end_dial 2 ''wss'' ''k'' ''k'' ''t'' ''r'' 2 (w_mg dials_again) = (w_mg first_connects, 5)"
    by (simp add: first_connects_def prod_eq_iff) (simp add: end_dial_def Let_def dials_again_mg)
  note r0 = end_dial_result[OF 0]
  have 1: "end_dial 3 ''wss'' ''k'' ''k'' ''t'' ''r2'' 4 (w_mg first_connects) = (w_mg second_connects, 6)"
    using r0 by (simp add: second_connects_def prod_eq_iff dials_again_mg) (simp add: end_dial_def Let_def)
  note r1 = end_dial_result[OF 1]
  have thr: "w_thr first_connects 0 = Using ''k'' 5 ''r''" "w_thr first_connects 1 = Dialing ''k'' 3 4"
    "w_thr second_connects 0 = Using ''k'' 5 ''r''" "w_thr second_connects 1 = Using ''k'' 6 ''r2''"
    by (simp_all add: first_connects_def second_connects_def dials_again_mg dials_again_mg(2)[unfolded One_nat_def])
  have "relay_step True dials_again first_connects"
    using relay_step.dialled[OF dials_again_mg(1) 0, of True] unfolding first_connects_def by (simp add: 0)
  moreover have "relay_step True first_connects second_connects"
    using relay_step.dialled[OF thr(2) 1, of True] unfolding second_connects_def by (simp add: 1)
  moreover have "relay_step True second_connects first_done"
    unfolding first_done_def by (rule relay_step.finish[OF thr(3)])
  ultimately have "(relay_step True)\<^sup>*\<^sup>* first_world first_done"
    using second_dial_reachable[of True] by (meson rtranclp.rtrancl_into_rtrancl)
  moreover have "conn_IsConnected (conn (w_mg first_done) 5)" "wc_PoolKey (conn (w_mg first_done) 5) = ''k''"
    "connections (w_mg first_done) = [(''k'', 6)]"
    using r0 r1
    by (simp_all add: first_done_def ReleaseConnection_def drop_request_def on_session_def on_sess_def on_conn_def
        dials_again_mg NewWsConnection_def conn_IsConnected_def conn_Touch_def)
  moreover have "w_thr first_done i \<noteq> Using k 5 r" for i k r
    using r0 r1 dials_again_mg thr
    by (auto simp: first_done_def second_connects_def first_connects_def dials_again_def asked_again_def swept_def dials_mg
        set_thread_def set_lock_def split: if_splits)
  ultimately show ?thesis by (intro exI[of _ first_done] exI[of _ 5]) simp
qed



text \<open>The first request reads for six minutes without a pong; then the sweep runs, and a second request asks.\<close>

definition reads_long :: ws_world where
  "reads_long = uses\<lparr>w_mg := on_conn (conn_Touch (6 * minute)) 3 (w_mg uses)\<rparr>"

definition swept_late :: ws_world where
  "swept_late = reads_long\<lparr>w_mg := evictExpired (6 * minute) (w_mg reads_long)\<rparr>"

definition asks_late :: ws_world where
  "asks_late = set_thread 1 (Waiting ''k'' 1) (fst (keyLock ''k'' (w_mg swept_late))) swept_late"

lemma uses_mg:
  "w_mg uses = \<lparr>mg_conns = (\<lambda>_. NewWsConnection 0 '''' 0)(3 := (NewWsConnection 2 ''wss'' 0)\<lparr>wc_PoolKey := ''k''\<rparr>),
     mg_sess = (\<lambda>_. NewSession '''' 0 0)(2 := AddPendingRequest ''r'' ''t'' 0 (SetConnected True 0
       ((NewSession ''s'' 7 0)\<lparr>se_ID := ''t''\<rparr>))), mg_next = 4, connections = [(''k'', 3)],
     sessions = [(''k'', 2)], keyLocks = [(''k'', 1)]\<rparr>"
  "w_held uses = (\<lambda>_. False)" "w_thr uses = (\<lambda>_. Idle)(0 := Using ''k'' 3 ''r'')"
  by (simp_all add: uses_def end_dial_def dials_mg Let_def on_sess_def)
    (simp_all add: set_thread_def set_lock_def dials_mg fun_eq_iff)

text \<open>
  A session whose pings go unanswered for five minutes is closed by the sweep even while its connection is read; its
  request is no longer pending, so the connection passes for idle and a second request gets it too.
\<close>

theorem silent_session_shares_connection:
  "\<exists>w c. (relay_step False)\<^sup>*\<^sup>* first_world w \<and>
     (\<exists>i j k r r'. i \<noteq> j \<and> w_thr w i = Using k c r \<and> w_thr w j = Using k c r')"
proof -
  have m: "w_mg swept_late = (w_mg reads_long)\<lparr>sessions := [],
      mg_sess := (mg_sess (w_mg reads_long))(2 := session_Close (6 * minute) (sess (w_mg reads_long) 2))\<rparr>"
    by (simp add: swept_late_def reads_long_def uses_mg evictExpired_def on_conn_def on_sess_def conn_IsExpired_def conn_Touch_def
        conn_IsConnected_def NewWsConnection_def session_IsExpired_def AddPendingRequest_def SetConnected_def NewSession_def
        IdleTimeout_def)
  have thr: "w_thr swept_late 0 = Using ''k'' 3 ''r''" "w_thr swept_late 1 = Idle" "w_held swept_late = (\<lambda>_. False)"
    by (simp_all add: swept_late_def reads_long_def uses_mg)
  have key: "keyLock ''k'' (w_mg swept_late) = (w_mg swept_late, 1)"
    by (simp add: m reads_long_def uses_mg on_conn_def keyLock_def)
  have "relay_step False uses reads_long" unfolding reads_long_def by (rule relay_step.read)
  moreover have "relay_step False reads_long swept_late" unfolding swept_late_def by (rule relay_step.sweep) simp
  moreover have "relay_step False swept_late asks_late"
    unfolding asks_late_def using relay_step.ask[OF thr(2) key] by (simp add: key)
  moreover have same: "w_mg asks_late = w_mg swept_late" by (simp add: asks_late_def key)
  moreover
  have taken: "take_pooled (6 * minute) True ''k'' ''t'' ''r2'' (w_mg asks_late) =
      (fst (take_pooled (6 * minute) True ''k'' ''t'' ''r2'' (w_mg asks_late)), Reused 3)"
    unfolding same by (simp add: m prod_eq_iff)
      (simp add: reads_long_def uses_mg take_pooled_def on_conn_def canReuseConnection_def conn_IsConnected_def
        conn_Touch_def NewWsConnection_def conn_IsExpired_def IdleTimeout_def PendingCount_def)
  let ?w = "set_thread 1 (Using ''k'' 3 ''r2'') (fst (take_pooled (6 * minute) True ''k'' ''t'' ''r2'' (w_mg asks_late))) asks_late"
  have "relay_step False asks_late ?w"
    by (rule relay_step.reuse[OF _ _ taken]) (simp_all add: asks_late_def set_thread_def thr)
  ultimately have "(relay_step False)\<^sup>*\<^sup>* first_world ?w"
    using uses_reachable[of False] by (meson rtranclp.rtrancl_into_rtrancl)
  moreover have "w_thr ?w 0 = Using ''k'' 3 ''r''" "w_thr ?w 1 = Using ''k'' 3 ''r2''"
    by (simp_all add: asks_late_def thr)
  ultimately show ?thesis by (metis zero_neq_one)
qed


end
