(* ===== verification/WsExecutorLaws.thy ===== *)
theory WsExecutorLaws
  imports WsSteps
begin

text \<open>
  Requests over the WebSocket pool: a request that fails leaves nothing pending and tries at most three connections; what
  the reader of an answer gets; what the sweep leaves of the pool.
\<close>

section \<open>Requests that fail\<close>

definition pendings :: "Manager \<Rightarrow> (nat \<times> string) set" where
  "pendings m = {(s, r). pending_in m s r}"

text \<open>Other goroutines may add requests of their own; here they do not, so that what is left is due to this request.\<close>

definition quiet_turn :: "acquire_turn \<Rightarrow> bool" where
  "quiet_turn t \<longleftrightarrow>
     (\<forall>m. pendings (at_meanwhile t m) \<subseteq> pendings m) \<and> (\<forall>m. pendings (at_before_next t m) \<subseteq> pendings m)"

lemma pendings_same: "mg_sess m' = mg_sess m \<Longrightarrow> pendings m' = pendings m"
  by (simp add: pendings_def pending_in_def)

lemma pendings_on_conn [simp]: "pendings (on_conn f c m) = pendings m"
  by (simp add: on_conn_def pendings_def pending_in_def)

definition asked_in :: "Session \<Rightarrow> string set" where
  "asked_in s = fst ` set (se_pending s)"

lemma asked_in_simps [simp]:
  "asked_in (session_Close now s) = {}" "asked_in (AddPendingRequest r sk now s) = insert r (asked_in s)"
  "asked_in (SetConnected b now s) = asked_in s" "asked_in (RemovePendingRequest r s) = asked_in s - {r}"
  "asked_in (NewSession u a now) = {}" "asked_in (s\<lparr>se_ID := i\<rparr>) = asked_in s"
proof -
  have "fst ` set (AList.update r v al) = insert r (fst ` set al)" for v :: PendingRequest and al
    by (simp add: AList.update_conv' flip: dom_map_of_conv_image_fst)
  then show "asked_in (AddPendingRequest r sk now s) = insert r (asked_in s)"
    by (simp add: asked_in_def AddPendingRequest_def)
  have "fst ` set (AList.delete r al) = fst ` set al - {r}" for al :: "(string \<times> PendingRequest) list"
    by (simp add: AList.delete_conv' flip: dom_map_of_conv_image_fst)
  then show "asked_in (RemovePendingRequest r s) = asked_in s - {r}"
    by (simp add: asked_in_def RemovePendingRequest_def)
qed (simp_all add: asked_in_def SetConnected_def NewSession_def Let_def)

lemma pendings_eq: "pendings m = {(s, r). r \<in> asked_in (sess m s)}"
  by (simp add: pendings_def pending_in_def asked_in_def)

lemma pendings_on_sess:
  "pendings (on_sess f s m) = {(s', r). r \<in> (if s' = s then asked_in (f (sess m s)) else asked_in (sess m s'))}"
  by (auto simp: pendings_eq on_sess_def)

lemma pendings_close: "pendings (on_sess (session_Close now) s m) = pendings m - {s} \<times> UNIV"
  unfolding pendings_on_sess unfolding pendings_eq by (auto split: if_splits)

lemma pendings_add: "pendings (on_sess (AddPendingRequest r sk now) s m) = insert (s, r) (pendings m)"
  unfolding pendings_on_sess unfolding pendings_eq by (auto split: if_splits)

lemma pendings_connected: "pendings (on_sess (SetConnected b now) s m) = pendings m"
  unfolding pendings_on_sess unfolding pendings_eq by (auto split: if_splits)

lemma pendings_remove: "pendings (on_sess (RemovePendingRequest r) s m) = pendings m - {(s, r)}"
  unfolding pendings_on_sess unfolding pendings_eq by (auto split: if_splits)

lemma pendings_keyLock [simp]: "pendings (fst (keyLock k m)) = pendings m"
  by (rule pendings_same) (simp add: keyLock_def split: option.splits)

lemma pendings_forget [simp]: "pendings (forget k c m) = pendings m"
  by (rule pendings_same) (simp add: forget_def on_conn_def)

lemma pendings_RemoveConnection [simp]: "pendings (RemoveConnection a w s p m) = pendings m"
  by (rule pendings_same) (simp add: RemoveConnection_def Let_def on_conn_def split: option.splits)

lemma pendings_take_pooled:
  "take_pooled now probe k sk r m = (m', res) \<Longrightarrow>
     (case res of
        Reused c \<Rightarrow> \<exists>s. wc_session (conn m' c) = Some s \<and> pendings m' = insert (s, r) (pendings m)
      | _ \<Rightarrow> pendings m' = pendings m)"
proof -
  assume t: "take_pooled now probe k sk r m = (m', res)"
  have f: "pendings (m\<lparr>keyLocks := ls\<rparr>) = pendings m" for ls by (rule pendings_same) simp
  show ?thesis
  proof (cases res)
    case (Reused c)
    with t have "canReuseConnection now m c" "m' = on_conn (conn_Touch now) c (on_session (AddPendingRequest r sk now) c m)"
      by (auto simp: take_pooled_def split: option.splits if_splits)
    then show ?thesis using Reused
      by (auto simp: canReuseConnection_def on_session_def pendings_add split: option.splits)
        (simp add: on_conn_def on_sess_def)
  qed (use t in \<open>auto simp: take_pooled_def f split: option.splits if_splits\<close>)
qed

lemma pendings_begin_dial: "begin_dial now u a sk k m = (m', s) \<Longrightarrow> pendings m' \<subseteq> pendings m"
proof -
  assume b: "begin_dial now u a sk k m = (m', s)"
  define m1 where "m1 = (case known m k of None \<Rightarrow> m | Some old \<Rightarrow> on_sess (session_Close now) old m)"
  have "pendings m1 \<subseteq> pendings m" by (auto simp: m1_def pendings_close split: option.splits)
  moreover have "pendings m' \<subseteq> pendings m1"
    using b unfolding begin_dial_def m1_def[symmetric] Let_def by (auto simp: pendings_eq split: if_splits)
  ultimately show ?thesis by blast
qed

lemma pendings_end_dial:
  assumes "end_dial now url k k' sk r s m = (m', c)"
  shows "wc_session (conn m' c) = Some s" "pendings m' = insert (s, r) (pendings m)"
proof -
  show "wc_session (conn m' c) = Some s" using assms by (auto simp: end_dial_def on_sess_def Let_def NewWsConnection_def)
  let ?m = "on_sess (SetConnected True now) s (m\<lparr>mg_conns := (mg_conns m)(c := (NewWsConnection s url now)\<lparr>wc_PoolKey := k'\<rparr>),
      mg_next := c + 1\<rparr>)"
  have "m' = on_sess (AddPendingRequest r sk now) s (?m\<lparr>connections := AList.update k c (connections ?m)\<rparr>)"
    using assms by (auto simp: end_dial_def Let_def)
  then have "pendings m' = insert (s, r) (pendings ?m)"
    by (simp add: pendings_add) (simp add: pendings_def pending_in_def)
  also have "pendings ?m = pendings m" unfolding pendings_connected by (simp add: pendings_def pending_in_def)
  finally show "pendings m' = insert (s, r) (pendings m)" .
qed

lemma acquire_turns_pendings:
  "acquire_turns a w sk p k ts m = (m', res) \<Longrightarrow> \<forall>t \<in> set ts. quiet_turn t \<Longrightarrow>
     (case res of
        Acquired c r \<Rightarrow> \<exists>s. wc_session (conn m' c) = Some s \<and> pendings m' \<subseteq> insert (s, r) (pendings m)
      | _ \<Rightarrow> pendings m' \<subseteq> pendings m)"
proof (induction ts arbitrary: m)
  case (Cons t ts)
  obtain m1 found where f: "take_pooled (at_now t) (at_probe t) k sk (at_requestUUID t) m = (m1, found)" by (metis surj_pair)
  note p1 = pendings_take_pooled[OF f]
  have q: "pendings (at_before_next t n) \<subseteq> pendings n" "pendings (at_meanwhile t n) \<subseteq> pendings n" for n
    using Cons.prems(2) by (simp_all add: quiet_turn_def)
  have later: ?case
    if "acquire_turns a w sk p k ts (at_before_next t n) = (m', res)" "pendings n = pendings m" for n
    using Cons.IH[OF that(1)] Cons.prems(2) q(1)[of n] that(2) by (fastforce split: acquired.splits)
  show ?case
  proof (cases found)
    case (Reused c)
    then show ?thesis using Cons.prems(1) f p1 by auto
  next
    case ProbeFailed
    then show ?thesis using Cons.prems(1) f p1 later[of "fst (keyLock k m1)"] by simp
  next
    case InUse
    then show ?thesis using Cons.prems(1) f p1 later[of m1] by (auto split: if_splits)
  next
    case NeedsNew
    let ?p = "effectiveProxyURL (at_accountProxy t) p"
    let ?k = "poolKey a w sk ?p"
    obtain m2 s where b: "begin_dial (at_now t) (at_sessionUUID t) a sk ?k m1 = (m2, s)" by (metis surj_pair)
    obtain m3 c where e: "end_dial (at_now t) w k ?k sk (at_requestUUID t) s (at_meanwhile t m2) = (m3, c)" by (metis surj_pair)
    have le: "pendings (at_meanwhile t m2) \<subseteq> pendings m"
      using q(2)[of m2] pendings_begin_dial[OF b] p1 NeedsNew by auto
    have "pendings (fail_dial (at_now t) ?k s (at_meanwhile t m2)) \<subseteq> pendings (at_meanwhile t m2)"
      by (auto simp: fail_dial_def pendings_close) (auto simp: pendings_def pending_in_def)
    with le show ?thesis using Cons.prems(1) f p1 NeedsNew b e pendings_end_dial[OF e]
      by (auto simp: Let_def split: if_splits)
  qed
qed simp


lemma drop_request_pendings:
  "wc_session (conn m c) = Some s \<Longrightarrow> pendings (drop_request c r m) = pendings m - {(s, r)}"
  by (simp add: drop_request_def on_session_def pendings_remove)

lemma AcquireConnection_pendings:
  assumes "AcquireConnection a ap w sk p ts m = (m', res)" "\<forall>t \<in> set ts. quiet_turn t"
  shows "case res of
      Acquired c r \<Rightarrow> \<exists>s. wc_session (conn m' c) = Some s \<and> pendings m' \<subseteq> insert (s, r) (pendings m)
    | _ \<Rightarrow> pendings m' \<subseteq> pendings m"
  using acquire_turns_pendings[of a w sk p _ ts "fst (keyLock _ m)"] assms
  unfolding AcquireConnection_def Let_def pendings_keyLock by blast

lemma send_attempts_pendings:
  "send_attempts a w sk p retries x xs m = (m', Failed e) \<Longrightarrow>
     \<forall>y \<in> set (x # xs). \<forall>t \<in> set (wa_turns y). quiet_turn t \<Longrightarrow> pendings m' \<subseteq> pendings m"
proof (induction retries arbitrary: x xs m)
  case 0
  obtain m1 got where g: "AcquireConnection a (wa_accountProxy x) w sk p (wa_turns x) m = (m1, got)" by (metis surj_pair)
  show ?case
  proof (cases got)
    case (Acquired c r)
    then obtain s where s: "wc_session (conn m1 c) = Some s" "pendings m1 \<subseteq> insert (s, r) (pendings m)"
      using AcquireConnection_pendings[OF g] 0(2) by auto
    then show ?thesis using 0(1) g Acquired drop_request_pendings[OF s(1), of r]
      by (auto simp: ReleaseConnection_def split: if_splits)
  qed (use 0 g AcquireConnection_pendings[OF g] in auto)
next
  case (Suc n)
  obtain m1 got where g: "AcquireConnection a (wa_accountProxy x) w sk p (wa_turns x) m = (m1, got)" by (metis surj_pair)
  show ?case
  proof (cases got)
    case (Acquired c r)
    then obtain s where s: "wc_session (conn m1 c) = Some s" "pendings m1 \<subseteq> insert (s, r) (pendings m)"
      using AcquireConnection_pendings[OF g] Suc.prems(2) by auto
    let ?m = "RemoveConnection a w sk p (drop_request c r m1)"
    have le: "pendings ?m \<subseteq> pendings m" using s drop_request_pendings[OF s(1), of r] by auto
    have run: "(if sendRequest (wa_written x) c m1 then (StartHeartbeat c m1, Sent c r)
        else if wa_cancelled x then (?m, Failed BackoffCancelled)
        else case xs of [] \<Rightarrow> (?m, Hanging) | b # as \<Rightarrow> send_attempts a w sk p n b as ?m) = (m', Failed e)"
      using Suc.prems(1) g Acquired by (simp add: Let_def cong: if_cong)
    show ?thesis
    proof (cases "sendRequest (wa_written x) c m1 \<or> wa_cancelled x \<or> xs = []")
      case True
      with run le show ?thesis by (auto split: if_splits list.splits)
    next
      case False
      then obtain b as where b: "xs = b # as" by (cases xs) auto
      with False run have "send_attempts a w sk p n b as ?m = (m', Failed e)" by simp
      from Suc.IH[OF this] Suc.prems(2) b le show ?thesis by auto
    qed
  qed (use Suc.prems g AcquireConnection_pendings[OF g] in auto)
qed

lemma send_attempts_take: "send_attempts a w sk p n x xs m = send_attempts a w sk p n x (take n xs) m"
proof (induction n arbitrary: x xs m)
  case (Suc n)
  show ?case
  proof (cases xs)
    case (Cons b as)
    show ?thesis unfolding Cons take_Suc_Cons
      by (subst (1 2) send_attempts.simps) (simp only: list.case nat.case Suc.IH[of b as])
  qed simp
qed (subst (1 2) send_attempts.simps, simp only: nat.case)

text \<open>
  C24. A request that fails, for whatever reason, has tried at most three connections and leaves no request of its own waiting
  in any session, so that it blocks no connection of the pool.
\<close>

theorem failed_request_leaves_nothing:
  assumes "ExecuteRequestViaWebsocket token a w sk p x xs m = (m', Failed e)"
    and "\<forall>y \<in> set (x # xs). \<forall>t \<in> set (wa_turns y). quiet_turn t"
  shows "ExecuteRequestViaWebsocket token a w sk p x (take 2 xs) m = (m', Failed e) \<and> pendings m' \<subseteq> pendings m"
proof (cases "token = ''''")
  case True
  then show ?thesis using assms(1) by (auto simp: ExecuteRequestViaWebsocket_def)
next
  case False
  then show ?thesis using assms send_attempts_pendings[of a w sk p 2 x xs m m' e] send_attempts_take[of a w sk p 2 x xs m]
    by (simp add: ExecuteRequestViaWebsocket_def)
qed



definition plain_turn :: "string \<Rightarrow> acquire_turn" where
  "plain_turn r = \<lparr>at_now = 0, at_probe = True, at_cancelled = False, at_accountProxy = '''', at_proxyParses = True,
     at_dialSucceeds = True, at_sessionUUID = ''s'', at_requestUUID = r, at_meanwhile = (\<lambda>m. m), at_before_next = (\<lambda>m. m)\<rparr>"

definition dead_socket :: "string \<Rightarrow> ws_attempt" where
  "dead_socket r = \<lparr>wa_turns = [plain_turn r], wa_written = False, wa_cancelled = False, wa_accountProxy = '''', wa_now = 0\<rparr>"

lemma failed_request_leaves_nothing_witness:
  "pendings (fst (ExecuteRequestViaWebsocket ''tok'' 7 ''wss'' ''t'' '''' (dead_socket ''r1'') [dead_socket ''r2'', dead_socket ''r3'']
     NewManager)) \<subseteq> pendings NewManager"
proof -
  have "snd (ExecuteRequestViaWebsocket ''tok'' 7 ''wss'' ''t'' '''' (dead_socket ''r1'') [dead_socket ''r2'', dead_socket ''r3'']
     NewManager) = Failed SendFailed" by code_simp
  then have f: "ExecuteRequestViaWebsocket ''tok'' 7 ''wss'' ''t'' '''' (dead_socket ''r1'') [dead_socket ''r2'', dead_socket ''r3'']
     NewManager = (fst (ExecuteRequestViaWebsocket ''tok'' 7 ''wss'' ''t'' '''' (dead_socket ''r1'')
       [dead_socket ''r2'', dead_socket ''r3''] NewManager), Failed SendFailed)" by (metis prod.collapse)
  have q: "\<forall>y \<in> set [dead_socket ''r1'', dead_socket ''r2'', dead_socket ''r3'']. \<forall>t \<in> set (wa_turns y). quiet_turn t"
    by (simp add: dead_socket_def plain_turn_def quiet_turn_def)
  from failed_request_leaves_nothing[OF f q] show ?thesis by blast
qed

section \<open>The retry and the proxy of the account\<close>

lemma poolKey_proxy: "poolKey a w s p = poolKey a w s p' \<longleftrightarrow> trim_space p = trim_space p'"
  by (simp add: poolKey_def)

text \<open>
  The retry removes the connection under the key of the override; where the proxy comes from the account the pool holds it
  under another key. The connection stays, and if it answers the probe the retry gets it again.
\<close>

theorem retry_reuses_connection:
  assumes "trim_space proxyOverride = ''''" "trim_space (trim_space accountProxy) \<noteq> ''''"
    and "key = poolKey a w sk (effectiveProxyURL accountProxy proxyOverride)"
    and "pool m key = Some c" "conn_IsConnected (conn m c)" "\<not> conn_IsExpired now (conn m c)"
    and "wc_session (conn m c) = Some s" "map fst (se_pending (sess m s)) = [r]"
    and "pool m (poolKey a w sk proxyOverride) \<noteq> Some c"
  shows "snd (take_pooled now True key sk r' (RemoveConnection a w sk proxyOverride (drop_request c r m))) = Reused c"
proof -
  have e: "effectiveProxyURL accountProxy proxyOverride = trim_space accountProxy"
    using assms(1) by (simp add: effectiveProxyURL_def)
  have k: "poolKey a w sk proxyOverride \<noteq> key" using assms(1,2) unfolding assms(3) e poolKey_proxy by simp
  let ?m = "drop_request c r m" and ?m' = "RemoveConnection a w sk proxyOverride (drop_request c r m)"
  have d: "connections ?m = connections m" "mg_conns ?m = mg_conns m" "sess ?m s = RemovePendingRequest r (sess m s)"
    using assms(7) by (simp_all add: drop_request_def on_session_def on_sess_def)
  obtain pr where "se_pending (sess m s) = [(r, pr)]" using assms(8) by (cases "se_pending (sess m s)") auto
  then have none: "se_pending (sess ?m s) = []" by (simp add: d(3) RemovePendingRequest_def)
  have "pool ?m' key = Some c" "conn ?m' c = conn m c" "sess ?m' s = sess ?m s"
    using assms(4,9) k d
    by (auto simp: RemoveConnection_def Let_def on_conn_def AList.delete_conv' split: option.splits)
  then show ?thesis using assms(5-7) none by (simp add: take_pooled_def canReuseConnection_def PendingCount_def)
qed

definition proxied :: Manager where
  "proxied = fst (AcquireConnection 7 ''http://p'' ''wss'' ''t'' '''' [(plain_turn ''r1'')\<lparr>at_accountProxy := ''http://p''\<rparr>] NewManager)"

lemma retry_reuses_connection_witness:
  "snd (take_pooled 0 True (poolKey 7 ''wss'' ''t'' ''http://p'') ''t'' ''r2''
     (RemoveConnection 7 ''wss'' ''t'' '''' (drop_request 3 ''r1'' proxied))) = Reused 3"
proof (rule retry_reuses_connection[where accountProxy = "''http://p''" and s = 2])
  show "trim_space '''' = ''''" "trim_space (trim_space ''http://p'') \<noteq> ''''"
    "poolKey 7 ''wss'' ''t'' ''http://p'' = poolKey 7 ''wss'' ''t'' (effectiveProxyURL ''http://p'' '''')"
    "pool proxied (poolKey 7 ''wss'' ''t'' ''http://p'') = Some 3" "conn_IsConnected (conn proxied 3)"
    "\<not> conn_IsExpired 0 (conn proxied 3)" "wc_session (conn proxied 3) = Some 2"
    "map fst (se_pending (sess proxied 2)) = [''r1'']" "pool proxied (poolKey 7 ''wss'' ''t'' '''') \<noteq> Some 3"
    by code_simp+
qed

section \<open>Reading an answer\<close>

definition messages :: "ws_frame list \<Rightarrow> ws_payload list" where
  "messages fs = List.map_filter (\<lambda>f. case f of TextFrame p \<Rightarrow> p | _ \<Rightarrow> None) fs"

definition terminal_event :: "ws_payload \<Rightarrow> bool" where
  "terminal_event p \<longleftrightarrow> wp_type p = ''response.completed'' \<or> wp_type p = ''response.failed''"

lemma messages_simps [simp]:
  "messages [] = []" "messages (ReadFails b # fs) = messages fs" "messages (BinaryFrame # fs) = messages fs"
  "messages (OtherFrame # fs) = messages fs" "messages (TextFrame None # fs) = messages fs"
  "messages (TextFrame (Some p) # fs) = p # messages fs"
  by (simp_all add: messages_def map_filter_simps)

text \<open>
  The reader hands on the messages in order, \<open>response.done\<close> under its new name, and stops after the first that ends the
  response; and if no error is reported, the socket was not closed and the client still listens, then such a message came.
\<close>

theorem answer_is_read_in_order:
  "read_frames ST fs = (out, res) \<Longrightarrow>
     (\<exists>n. out = take n (map normalizeCompletionEvent (messages (map fst fs)))) \<and>
     (\<forall>p \<in> set (butlast out). \<not> terminal_event p) \<and>
     (res = Some None \<longrightarrow> list_all snd fs \<longrightarrow> ReadFails True \<notin> fst ` set fs \<longrightarrow> out \<noteq> [] \<and> terminal_event (List.last out))"
proof (induction fs arbitrary: out res)
  case (Cons fw fs)
  obtain f wanted where fw: "fw = (f, wanted)" by (cases fw)
  have skip: ?case if "f = OtherFrame \<or> f = TextFrame None"
  proof -
    have "read_frames ST fs = (out, res)" "messages (map fst (fw # fs)) = messages (map fst fs)"
      using Cons.prems that by (auto simp: fw)
    with Cons.IH[OF this(1)] that show ?thesis by (auto simp: fw)
  qed
  have said: ?case if p: "f = TextFrame (Some p)" for p
  proof -
    obtain o1 h where h: "handleMessage ST wanted p = (o1, h)" by (metis surj_pair)
    show ?thesis
    proof (cases h)
      case GoOn
      obtain rest r where r: "read_frames ST fs = (rest, r)" by (metis surj_pair)
      note prems = Cons.prems[unfolded fw]
      have o1: "o1 = [normalizeCompletionEvent p]" "wanted" "\<not> terminal_event (normalizeCompletionEvent p)"
        using h GoOn by (auto simp: handleMessage_def Let_def terminal_event_def split: option.splits if_splits)
      have out: "out = normalizeCompletionEvent p # rest" "res = r" using prems p h GoOn r o1(1) by auto
      note ih = Cons.IH[OF r]
      then obtain n where "rest = take n (map normalizeCompletionEvent (messages (map fst fs)))" by blast
      then have "out = take (Suc n) (map normalizeCompletionEvent (messages (map fst (fw # fs))))"
        using out p fw by simp
      then have "\<exists>n. out = take n (map normalizeCompletionEvent (messages (map fst (fw # fs))))" by blast
      moreover have "\<forall>p \<in> set (butlast out). \<not> terminal_event p" using ih out o1(3) by simp
      moreover have "res = Some None \<longrightarrow> list_all snd (fw # fs) \<longrightarrow> ReadFails True \<notin> fst ` set (fw # fs) \<longrightarrow>
          out \<noteq> [] \<and> terminal_event (List.last out)"
        using ih out by (simp add: fw p)
      ultimately show ?thesis by blast
    next
      case EndOfStream
      have o1: "o1 = [normalizeCompletionEvent p]" "wanted \<Longrightarrow> terminal_event (normalizeCompletionEvent p)"
        using h EndOfStream by (auto simp: handleMessage_def Let_def terminal_event_def split: option.splits if_splits)
      have out: "out = o1" "res = Some None" using Cons.prems p h EndOfStream by (auto simp: fw)
      have "out = take 1 (map normalizeCompletionEvent (messages (map fst (fw # fs))))" using out o1 p fw by simp
      moreover have "\<forall>p \<in> set (butlast out). \<not> terminal_event p" using out o1(1) by simp
      moreover have "list_all snd (fw # fs) \<longrightarrow> out \<noteq> [] \<and> terminal_event (List.last out)" using out o1 by (simp add: fw)
      ultimately show ?thesis by blast
    next
      case (BadMessage status msg)
      have "o1 = []" using h BadMessage by (auto simp: handleMessage_def Let_def split: option.splits if_splits)
      then have "out = []" "res \<noteq> Some None" using Cons.prems p h BadMessage by (auto simp: fw)
      then show ?thesis by (auto intro: exI[of _ 0])
    qed
  qed
  show ?case
  proof (cases f)
    case (TextFrame po)
    then show ?thesis using skip said by (cases po) auto
  qed (use skip Cons.prems in \<open>auto simp: fw intro: exI[of _ 0]\<close>)
qed (auto intro: exI[of _ 0])



definition ws_event :: "string \<Rightarrow> ws_payload" where
  "ws_event ty = \<lparr>wp_type = ty, wp_status = 0, wp_status_code = 0, wp_error_message = '''', wp_rest = ''''\<rparr>"

lemma answer_is_read_in_order_witness:
  "terminal_event (List.last [ws_event ''response.created'', ws_event ''response.completed''])"
proof -
  let ?fs = "[(OtherFrame, True), (TextFrame (Some (ws_event ''response.created'')), True),
    (TextFrame (Some (ws_event ''response.done'')), True), (BinaryFrame, True)]"
  have "read_frames (\<lambda>_. '''') ?fs = ([ws_event ''response.created'', ws_event ''response.completed''], Some None)"
    by code_simp
  from answer_is_read_in_order[OF this] show ?thesis by simp
qed

text \<open>An error without a status is handed on like any event, and the reader waits for more.\<close>

lemma error_without_status_goes_on: "handleMessage ST True (ws_event ''error'') = ([ws_event ''error''], GoOn)"
  by (simp add: handleMessage_def checkError_def ws_event_def normalizeCompletionEvent_def)

section \<open>The sweep\<close>

definition dead_conn :: "time \<Rightarrow> Manager \<Rightarrow> nat \<Rightarrow> bool" where
  "dead_conn now m c \<longleftrightarrow> conn_IsExpired now (conn m c) \<or> \<not> conn_IsConnected (conn m c)"

definition dead_session :: "time \<Rightarrow> Manager \<Rightarrow> nat \<Rightarrow> bool" where
  "dead_session now m s \<longleftrightarrow> session_IsExpired now (sess m s) \<or> \<not> se_Connected (sess m s)"

definition keys_of :: "(nat \<Rightarrow> bool) \<Rightarrow> (string \<times> nat) list \<Rightarrow> string set" where
  "keys_of P kcs = fst ` {(k, c) \<in> set kcs. P c}"

lemma keys_of_simps [simp]:
  "keys_of P [] = {}" "keys_of P ((k, c) # kcs) = (if P c then insert k (keys_of P kcs) else keys_of P kcs)"
  by (auto simp: keys_of_def) force+

lemma filter_without: "filter (\<lambda>(k', _). k' \<notin> K) (AList.delete k al) = filter (\<lambda>(k', _). k' \<notin> insert k K) al"
  by (auto simp: AList.delete_eq intro!: filter_cong)

lemma evict_connections_result:
  "evict_connections now kcs (m, act) = (m', act') \<Longrightarrow>
     connections m' = filter (\<lambda>(k, _). k \<notin> keys_of (dead_conn now m) kcs) (connections m) \<and>
     set act' = set act \<union> keys_of (\<lambda>c. \<not> dead_conn now m c) kcs"
proof (induction kcs arbitrary: m act)
  case (Cons kc kcs)
  obtain k c where kc: "kc = (k, c)" by (cases kc)
  show ?case
  proof (cases "dead_conn now m c")
    case True
    let ?m = "on_conn conn_Close c (m\<lparr>connections := AList.delete k (connections m)\<rparr>)"
    have run: "evict_connections now kcs (?m, act) = (m', act')" using Cons.prems True kc by (simp add: dead_conn_def)
    have "dead_conn now ?m c' = dead_conn now m c'" for c'
      using True by (auto simp: on_conn_def dead_conn_def conn_IsExpired_def)
    then have same: "dead_conn now ?m = dead_conn now m" by blast
    have del: "connections ?m = AList.delete k (connections m)" by (simp add: on_conn_def)
    show ?thesis using Cons.IH[OF run] True unfolding same del filter_without kc by simp
  next
    case False
    then have "evict_connections now kcs (m, k # act) = (m', act')" using Cons.prems kc by (simp add: dead_conn_def)
    from Cons.IH[OF this] False show ?thesis unfolding kc by simp
  qed
qed simp

lemma evict_sessions_result:
  "evict_sessions now kss (m, act) = (m', act') \<Longrightarrow>
     sessions m' = filter (\<lambda>(k, _). k \<notin> keys_of (dead_session now m) kss) (sessions m) \<and>
     set act' = set act \<union> keys_of (\<lambda>s. \<not> dead_session now m s) kss"
proof (induction kss arbitrary: m act)
  case (Cons ks kss)
  obtain k s where ks: "ks = (k, s)" by (cases ks)
  show ?case
  proof (cases "dead_session now m s")
    case True
    let ?m = "on_sess (session_Close now) s (m\<lparr>sessions := AList.delete k (sessions m)\<rparr>)"
    have run: "evict_sessions now kss (?m, act) = (m', act')" using Cons.prems True ks by (simp add: dead_session_def)
    have "dead_session now ?m s' = dead_session now m s'" for s' using True by (auto simp: on_sess_def dead_session_def)
    then have same: "dead_session now ?m = dead_session now m" by blast
    have del: "sessions ?m = AList.delete k (sessions m)" by (simp add: on_sess_def)
    show ?thesis using Cons.IH[OF run] True unfolding same del filter_without ks by simp
  next
    case False
    then have "evict_sessions now kss (m, k # act) = (m', act')" using Cons.prems ks by (simp add: dead_session_def)
    from Cons.IH[OF this] False show ?thesis unfolding ks by simp
  qed
qed simp

lemma filter_own_keys:
  assumes "distinct (map fst xs)"
  shows "filter (\<lambda>(k, _). k \<notin> keys_of P xs) xs = filter (\<lambda>(k, c). \<not> P c) xs"
proof (rule filter_cong[OF refl])
  fix p assume p: "p \<in> set xs"
  obtain k c where kc: "p = (k, c)" by (cases p)
  have "c' = c" if "(k, c') \<in> set xs" for c' using that p assms unfolding kc by (meson eq_key_imp_eq_value)
  moreover have "k \<in> keys_of P xs \<longleftrightarrow> (\<exists>c'. (k, c') \<in> set xs \<and> P c')" by (force simp: keys_of_def)
  ultimately show "(case p of (k, _) \<Rightarrow> k \<notin> keys_of P xs) = (case p of (k, c) \<Rightarrow> \<not> P c)"
    using p unfolding kc prod.case by blast
qed

lemma keys_of_filter: "fst ` set (filter (\<lambda>(k, c). P c) xs) = keys_of P xs"
  by (auto simp: keys_of_def)

text \<open>
  The sweep keeps exactly the connections that are connected and were used in the last five minutes, exactly the sessions
  that are connected and answered in the last five minutes, and the locks of their keys only.
\<close>

theorem sweep_keeps_the_living:
  assumes "distinct (map fst (connections m))" "distinct (map fst (sessions m))"
  shows "connections (evictExpired now m) =
           filter (\<lambda>(k, c). \<not> conn_IsExpired now (conn m c) \<and> conn_IsConnected (conn m c)) (connections m) \<and>
         sessions (evictExpired now m) =
           filter (\<lambda>(k, s). \<not> session_IsExpired now (sess m s) \<and> se_Connected (sess m s)) (sessions m) \<and>
         fst ` set (keyLocks (evictExpired now m)) \<subseteq>
           fst ` set (connections (evictExpired now m)) \<union> fst ` set (sessions (evictExpired now m))"
proof -
  obtain m1 a1 where e1: "evict_connections now (connections m) (m, []) = (m1, a1)" by (metis surj_pair)
  obtain m2 a2 where e2: "evict_sessions now (sessions m1) (m1, a1) = (m2, a2)" by (metis surj_pair)
  note f1 = evict_connections_frame[OF e1] and r1 = evict_connections_result[OF e1]
  note f2 = evict_sessions_frame[OF e2] and r2 = evict_sessions_result[OF e2]
  let ?m = "evictExpired now m"
  have m: "?m = m2\<lparr>keyLocks := filter (\<lambda>(key, _). key \<in> set a2) (keyLocks m2)\<rparr>" by (simp add: evictExpired_def e1 e2)
  have same: "sess m1 = sess m" "sessions m1 = sessions m" "connections m2 = connections m1" using f1 f2 by auto
  have "dead_session now m1 = dead_session now m" by (simp add: dead_session_def same fun_eq_iff)
  with r1 r2 have r: "connections ?m = filter (\<lambda>(k, c). \<not> dead_conn now m c) (connections m)"
    "sessions ?m = filter (\<lambda>(k, s). \<not> dead_session now m s) (sessions m)"
    "set a2 = keys_of (\<lambda>c. \<not> dead_conn now m c) (connections m) \<union> keys_of (\<lambda>s. \<not> dead_session now m s) (sessions m)"
    by (simp_all add: m same filter_own_keys[OF assms(1)] filter_own_keys[OF assms(2)])
  then have "set a2 = fst ` set (connections ?m) \<union> fst ` set (sessions ?m)" by (simp only: keys_of_filter)
  moreover have "fst ` set (keyLocks ?m) \<subseteq> set a2" by (auto simp: m)
  ultimately have "fst ` set (keyLocks ?m) \<subseteq> fst ` set (connections ?m) \<union> fst ` set (sessions ?m)" by simp
  with r(1,2) show ?thesis by (simp add: dead_conn_def dead_session_def)
qed

lemma sweep_keeps_the_living_witness:
  "connections (evictExpired (6 * minute) (w_mg reads_long)) = [(''k'', 3)] \<and>
   sessions (evictExpired (6 * minute) (w_mg reads_long)) = []"
proof -
  have d: "distinct (map fst (connections (w_mg reads_long)))" "distinct (map fst (sessions (w_mg reads_long)))"
    by (simp_all add: reads_long_def uses_mg on_conn_def)
  show ?thesis using sweep_keeps_the_living[OF d, of "6 * minute"]
    by (simp add: reads_long_def uses_mg on_conn_def conn_IsExpired_def conn_Touch_def IdleTimeout_def conn_IsConnected_def
        NewWsConnection_def session_IsExpired_def AddPendingRequest_def SetConnected_def NewSession_def)
qed


end
