(* ===== verification/SseReader.thy ===== *)
theory SseReader
  imports Prelude
begin

text \<open>
  \<open>ReadSSEStream\<close> of \<open>proxy/executor.go\<close>: events out of the bytes of a response, however the network cuts them. The
  pooled buffers only save allocations. \<open>wants\<close> is the callback: whether to go on after the events that it has been given so far.
\<close>

section \<open>Lines\<close>

definition LF :: char where "LF = CHR 0x0A"
definition CR :: char where "CR = CHR 0x0D"

definition trim_cr :: "string \<Rightarrow> string" where
  "trim_cr line = rev (dropWhile (\<lambda>c. c = CR) (rev line))"

definition data_of_line :: "string \<Rightarrow> string option" where
  "data_of_line line =
     (if has_prefix line ''data:''
      then Some (let d = drop 5 line in if has_prefix d '' '' then drop 1 d else d)
      else None)"

fun join_lines :: "string list \<Rightarrow> string" where
  "join_lines [] = ''''"
| "join_lines [l] = l"
| "join_lines (l # m # ls) = l @ LF # join_lines (m # ls)"

section \<open>Events\<close>

text \<open>The lines of data of the event under way, and the events given to the callback.\<close>

record sse_state =
  sse_data :: "string list"
  sse_out :: "string list"

definition emitEvent :: "(string list \<Rightarrow> bool) \<Rightarrow> sse_state \<Rightarrow> sse_state \<times> bool" where
  "emitEvent wants st =
     (if sse_data st = [] then (st, True)
      else
        let data = join_lines (sse_data st); st = st\<lparr>sse_data := []\<rparr>
        in if data = ''[DONE]'' then (st, False)
           else let st = st\<lparr>sse_out := sse_out st @ [data]\<rparr> in (st, wants (sse_out st)))"

definition add_data :: "string \<Rightarrow> sse_state \<Rightarrow> sse_state" where
  "add_data line st = (case data_of_line line of None \<Rightarrow> st | Some d \<Rightarrow> st\<lparr>sse_data := sse_data st @ [d]\<rparr>)"

definition read_line :: "(string list \<Rightarrow> bool) \<Rightarrow> string \<Rightarrow> sse_state \<Rightarrow> sse_state \<times> bool" where
  "read_line wants line st =
     (if line = [] then emitEvent wants st
      else if has_prefix line '':'' then (st, True)
      else (add_data line st, True))"

text \<open>The loop over the complete lines of the buffer: the rest of the buffer, or the end of the function.\<close>

function read_lines :: "(string list \<Rightarrow> bool) \<Rightarrow> string \<Rightarrow> sse_state \<Rightarrow> string option \<times> sse_state" where
  "read_lines wants buf st =
     (if LF \<notin> set buf then (Some buf, st)
      else
        case read_line wants (trim_cr (takeWhile (\<lambda>c. c \<noteq> LF) buf)) st of
          (st, True) \<Rightarrow> read_lines wants (drop 1 (dropWhile (\<lambda>c. c \<noteq> LF) buf)) st
        | (st, False) \<Rightarrow> (None, st))"
  by pat_completeness auto

lemma rest_shorter: "LF \<in> set buf \<Longrightarrow> length (drop 1 (dropWhile (\<lambda>c. c \<noteq> LF) buf)) < length buf"
proof -
  assume "LF \<in> set buf"
  then have "dropWhile (\<lambda>c. c \<noteq> LF) buf \<noteq> []" by (auto simp: dropWhile_eq_Nil_conv)
  then show ?thesis using length_dropWhile_le[of "\<lambda>c. c \<noteq> LF" buf] by (cases "dropWhile (\<lambda>c. c \<noteq> LF) buf") auto
qed

termination read_lines
  by (relation "measure (\<lambda>(_, buf, _). length buf)") (use rest_shorter in auto)

declare read_lines.simps [simp del]

definition last_line :: "string \<Rightarrow> sse_state \<Rightarrow> sse_state" where
  "last_line buf st = (if buf \<noteq> [] then add_data (trim_cr buf) st else st)"

text \<open>What a read returns: bytes, and with them nothing, the end of the body or an error.\<close>

datatype body_read = Bytes string | AtEOF string | ReadErr string

datatype sse_result = Reading | Finished | BodyError

fun read_body :: "(string list \<Rightarrow> bool) \<Rightarrow> body_read list \<Rightarrow> string \<Rightarrow> sse_state \<Rightarrow> sse_state \<times> sse_result" where
  "read_body wants [] buf st = (st, Reading)"
| "read_body wants (r # rs) buf st =
     (case r of
        Bytes bs \<Rightarrow>
          (case read_lines wants (buf @ bs) st of
             (None, st) \<Rightarrow> (st, Finished)
           | (Some buf, st) \<Rightarrow> read_body wants rs buf st)
      | AtEOF bs \<Rightarrow>
          (case read_lines wants (buf @ bs) st of
             (None, st) \<Rightarrow> (st, Finished)
           | (Some buf, st) \<Rightarrow> (fst (emitEvent wants (last_line buf st)), Finished))
      | ReadErr bs \<Rightarrow>
          (case read_lines wants (buf @ bs) st of
             (None, st) \<Rightarrow> (st, Finished)
           | (Some buf, st) \<Rightarrow> (st, BodyError)))"

definition ReadSSEStream :: "(string list \<Rightarrow> bool) \<Rightarrow> body_read list \<Rightarrow> string list \<times> sse_result" where
  "ReadSSEStream wants rs =
     (let (st, result) = read_body wants rs [] \<lparr>sse_data = [], sse_out = []\<rparr> in (sse_out st, result))"

section \<open>Chunks do not matter\<close>

lemma takeWhile_append_LF: "LF \<in> set a \<Longrightarrow> takeWhile (\<lambda>c. c \<noteq> LF) (a @ b) = takeWhile (\<lambda>c. c \<noteq> LF) a"
  by (rule takeWhile_append1) auto

lemma dropWhile_append_LF:
  "LF \<in> set a \<Longrightarrow> drop 1 (dropWhile (\<lambda>c. c \<noteq> LF) (a @ b)) = drop 1 (dropWhile (\<lambda>c. c \<noteq> LF) a) @ b"
proof -
  assume a: "LF \<in> set a"
  then have "dropWhile (\<lambda>c. c \<noteq> LF) (a @ b) = dropWhile (\<lambda>c. c \<noteq> LF) a @ b" by (intro dropWhile_append1) auto
  moreover have "dropWhile (\<lambda>c. c \<noteq> LF) a \<noteq> []" using a by (auto simp: dropWhile_eq_Nil_conv)
  ultimately show ?thesis by (cases "dropWhile (\<lambda>c. c \<noteq> LF) a") auto
qed

lemma read_lines_append:
  "read_lines wants (a @ b) st =
     (case read_lines wants a st of (None, st) \<Rightarrow> (None, st) | (Some rest, st) \<Rightarrow> read_lines wants (rest @ b) st)"
proof (induction wants a st rule: read_lines.induct)
  case (1 wants a st)
  show ?case
  proof (cases "LF \<in> set a")
    case False
    then show ?thesis by (subst (2) read_lines.simps) simp
  next
    case True
    obtain st' go where l: "read_line wants (trim_cr (takeWhile (\<lambda>c. c \<noteq> LF) a)) st = (st', go)" by (metis surj_pair)
    show ?thesis
    proof (cases go)
      case g: True
      have ih: "read_lines wants (drop 1 (dropWhile (\<lambda>c. c \<noteq> LF) a) @ b) st' =
          (case read_lines wants (drop 1 (dropWhile (\<lambda>c. c \<noteq> LF) a)) st' of
             (None, st) \<Rightarrow> (None, st) | (Some rest, st) \<Rightarrow> read_lines wants (rest @ b) st)"
        using 1[OF _ l[symmetric]] True g by simp
      have "read_lines wants (a @ b) st = read_lines wants (drop 1 (dropWhile (\<lambda>c. c \<noteq> LF) a) @ b) st'"
        by (subst read_lines.simps) (simp add: True takeWhile_append_LF dropWhile_append_LF[simplified] l g del: drop_append)
      moreover have "read_lines wants a st = read_lines wants (drop 1 (dropWhile (\<lambda>c. c \<noteq> LF) a)) st'"
        by (subst read_lines.simps) (simp add: True l g)
      ultimately show ?thesis using ih by simp
    next
      case False
      then show ?thesis using True l
        by (subst (1 2) read_lines.simps) (simp add: takeWhile_append_LF)
    qed
  qed
qed

lemma read_body_bytes:
  "read_body wants (map Bytes cs @ [AtEOF z]) buf st = read_body wants [AtEOF (concat cs @ z)] buf st"
proof (induction cs arbitrary: buf st)
  case (Cons c cs)
  obtain rest st' where r: "read_lines wants (buf @ c) st = (rest, st')" by (metis surj_pair)
  have e: "read_lines wants (buf @ concat (c # cs) @ z) st =
      (case rest of None \<Rightarrow> (None, st') | Some rest \<Rightarrow> read_lines wants (rest @ concat cs @ z) st')"
    using read_lines_append[of wants "buf @ c" "concat cs @ z" st] r by (simp split: option.splits)
  show ?case
  proof (cases rest)
    case None
    then show ?thesis using r e by simp
  next
    case (Some b)
    have "read_body wants (map Bytes (c # cs) @ [AtEOF z]) buf st = read_body wants (map Bytes cs @ [AtEOF z]) b st'"
      using r Some by simp
    also have "\<dots> = read_body wants [AtEOF (concat cs @ z)] b st'" by (rule Cons.IH)
    finally show ?thesis using e Some by simp
  qed
qed simp

text \<open>
  The events do not depend on how the network cuts the body: any chunks give the events of the whole body in one piece, for
  every callback, and reading ends.
\<close>

theorem chunks_do_not_matter:
  "ReadSSEStream wants (map Bytes cs @ [AtEOF z]) = ReadSSEStream wants [AtEOF (concat cs @ z)] \<and>
   snd (ReadSSEStream wants (map Bytes cs @ [AtEOF z])) = Finished"
proof -
  have e: "ReadSSEStream wants (map Bytes cs @ [AtEOF z]) = ReadSSEStream wants [AtEOF (concat cs @ z)]"
    unfolding ReadSSEStream_def read_body_bytes ..
  have "snd (ReadSSEStream wants [AtEOF (concat cs @ z)]) = Finished"
    by (simp add: ReadSSEStream_def split: prod.splits option.splits)
  with e show ?thesis by simp
qed


section \<open>Events that are written are read\<close>

text \<open>An event with the given lines, as servers and the WebSocket relay (\<open>wsrelay/executor.go\<close>) write it.\<close>

definition data_line :: "string \<Rightarrow> string" where
  "data_line l = ''data: '' @ l @ [LF]"

definition sse_event :: "string list \<Rightarrow> string" where
  "sse_event ls = concat (map data_line ls) @ [LF]"

definition plain_line :: "string \<Rightarrow> bool" where
  "plain_line l \<longleftrightarrow> LF \<notin> set l \<and> (l = [] \<or> List.last l \<noteq> CR)"

definition plain_event :: "string list \<Rightarrow> bool" where
  "plain_event ls \<longleftrightarrow> ls \<noteq> [] \<and> list_all plain_line ls \<and> join_lines ls \<noteq> ''[DONE]''"

lemma read_lines_line:
  assumes "LF \<notin> set l"
  shows "read_lines wants (l @ LF # rest) st =
    (case read_line wants (trim_cr l) st of (st, True) \<Rightarrow> read_lines wants rest st | (st, False) \<Rightarrow> (None, st))"
proof -
  have "takeWhile (\<lambda>c. c \<noteq> LF) (l @ LF # rest) = l" "drop 1 (dropWhile (\<lambda>c. c \<noteq> LF) (l @ LF # rest)) = rest"
    using assms by (induction l) auto
  then show ?thesis by (subst read_lines.simps) simp
qed

lemma trim_cr_plain: "plain_line l \<Longrightarrow> trim_cr (''data: '' @ l) = ''data: '' @ l"
  by (cases l rule: rev_cases) (auto simp: trim_cr_def plain_line_def CR_def)

lemma read_data_line:
  assumes "plain_line l"
  shows "read_lines wants (data_line l @ rest) st = read_lines wants rest (st\<lparr>sse_data := sse_data st @ [l]\<rparr>)"
proof -
  have "LF \<notin> set (''data: '' @ l)" using assms by (simp add: plain_line_def LF_def)
  from read_lines_line[OF this, of wants rest st]
  show ?thesis
    by (simp add: data_line_def trim_cr_plain[OF assms, simplified] read_line_def add_data_def data_of_line_def)
qed

lemma read_data_lines:
  "list_all plain_line ls \<Longrightarrow>
     read_lines wants (concat (map data_line ls) @ rest) st = read_lines wants rest (st\<lparr>sse_data := sse_data st @ ls\<rparr>)"
  by (induction ls arbitrary: st) (simp_all add: read_data_line)

lemma read_event:
  assumes "plain_event ls" "sse_data st = []"
  shows "read_lines (\<lambda>_. True) (sse_event ls @ rest) st =
           read_lines (\<lambda>_. True) rest (st\<lparr>sse_out := sse_out st @ [join_lines ls]\<rparr>)"
proof -
  have "trim_cr [] = []" by (simp add: trim_cr_def)
  moreover have "st\<lparr>sse_data := []\<rparr> = st" using assms(2) by (cases st) simp
  ultimately show ?thesis
    using assms(1) read_data_lines[of ls "\<lambda>_. True" "LF # rest" st]
      read_lines_line[of "[]" "\<lambda>_. True" rest "st\<lparr>sse_data := ls\<rparr>"]
    by (cases st) (simp add: assms(2) sse_event_def plain_event_def read_line_def emitEvent_def Let_def)
qed

lemma read_events:
  "list_all plain_event lss \<Longrightarrow> sse_data st = [] \<Longrightarrow>
     read_lines (\<lambda>_. True) (concat (map sse_event lss) @ rest) st =
       read_lines (\<lambda>_. True) rest (st\<lparr>sse_out := sse_out st @ map join_lines lss\<rparr>)"
  by (induction lss arbitrary: st) (simp_all add: read_event)

lemma read_done:
  assumes "sse_data s = []"
  shows "read_lines w (sse_event [''[DONE]''] @ rest) s = (None, s)"
proof -
  have "plain_line ''[DONE]''" by (simp add: plain_line_def LF_def CR_def)
  moreover have "trim_cr [] = []" by (simp add: trim_cr_def)
  ultimately show ?thesis
    using assms read_data_line[of "''[DONE]''" w "LF # rest" s] read_lines_line[of "[]" w rest]
    by (simp add: sse_event_def read_line_def emitEvent_def Let_def)
qed

lemma read_nil: "read_lines w [] s = (Some [], s)"
  by (subst read_lines.simps) simp

text \<open>
  C25. Round trip: events that are written line by line and cut by the network in any way are read as they were written, in
  order; the final \<open>[DONE]\<close>, if there is one, ends the reading and nothing after it is read.
\<close>

theorem written_events_are_read:
  assumes "list_all plain_event lss" "concat cs @ z = concat (map sse_event lss) @ tail"
    and "tail = [] \<or> (\<exists>rest. tail = sse_event [''[DONE]''] @ rest)"
  shows "ReadSSEStream (\<lambda>_. True) (map Bytes cs @ [AtEOF z]) = (map join_lines lss, Finished)"
proof -
  have "fst (emitEvent w s) = s" if "sse_data s = []" for w s using that by (simp add: emitEvent_def)
  then show ?thesis
    using assms(3) chunks_do_not_matter[of "\<lambda>_. True" cs z] unfolding assms(2)
    by (auto simp: ReadSSEStream_def read_events[OF assms(1)] read_nil last_line_def read_done)
qed

lemma written_events_are_read_witness:
  "ReadSSEStream (\<lambda>_. True) (map Bytes [''data: {}'', [LF], LF # ''dat'', ''a: a'' @ [LF] @ ''data: b'' @ [LF, LF]] @
     [AtEOF (sse_event [''[DONE]''])]) = ([''{}'', ''a'' @ [LF] @ ''b''], Finished)"
proof -
  have p: "list_all plain_event [[''{}''], [''a'', ''b'']]"
    by (simp add: plain_event_def plain_line_def LF_def CR_def)
  have c: "concat [''data: {}'', [LF], LF # ''dat'', ''a: a'' @ [LF] @ ''data: b'' @ [LF, LF]] @ sse_event [''[DONE]''] =
      concat (map sse_event [[''{}''], [''a'', ''b'']]) @ sse_event [''[DONE]'']"
    by (simp add: sse_event_def data_line_def)
  from written_events_are_read[OF p c] show ?thesis by simp
qed


end
