(* ===== verification/DeviceProfile.thy ===== *)
theory DeviceProfile
  imports WsRelay
begin

text \<open>
  The client profile that the upstream sees: \<open>proxy/device_profile.go\<close>, the choice of headers in \<open>proxy/executor.go\<close>
  (\<open>applyCodexRequestHeaders\<close>, \<open>ResolveSessionID\<close>) and the recognition of official clients in \<open>proxy/useragent.go\<close>.
  A header is a map from its canonical name to its first value; \<open>http.Header(nil)\<close> reads like the empty map. The hash of
  the cache key is an argument (\<open>digest\<close>).
\<close>

section \<open>Headers\<close>

type_synonym http_header = "string \<rightharpoonup> string"

definition Get :: "http_header \<Rightarrow> string \<Rightarrow> string" where
  "Get h k = (case h k of None \<Rightarrow> [] | Some v \<Rightarrow> v)"

definition firstNonEmptyHeader :: "http_header \<Rightarrow> string \<Rightarrow> string \<Rightarrow> string" where
  "firstNonEmptyHeader h k fallback = (let v = trim_space (Get h k) in if v \<noteq> [] then v else fallback)"

section \<open>Versions\<close>

datatype cliVersion = CliVersion (cv_major: int) (cv_minor: int) (cv_patch: int)

definition Compare :: "cliVersion \<Rightarrow> cliVersion \<Rightarrow> int" where
  "Compare v w =
     (if cv_major v \<noteq> cv_major w then (if cv_major v > cv_major w then 1 else - 1)
      else if cv_minor v \<noteq> cv_minor w then (if cv_minor v > cv_minor w then 1 else - 1)
      else if cv_patch v \<noteq> cv_patch w then (if cv_patch v > cv_patch w then 1 else - 1)
      else 0)"

instantiation cliVersion :: linorder
begin

definition less_eq_cliVersion :: "cliVersion \<Rightarrow> cliVersion \<Rightarrow> bool" where
  "less_eq_cliVersion v w \<longleftrightarrow> Compare v w \<le> 0"

definition less_cliVersion :: "cliVersion \<Rightarrow> cliVersion \<Rightarrow> bool" where
  "less_cliVersion v w \<longleftrightarrow> Compare v w < 0"

instance
proof
  fix u v w :: cliVersion
  show "v < w \<longleftrightarrow> v \<le> w \<and> \<not> w \<le> v"
    by (auto simp: less_cliVersion_def less_eq_cliVersion_def Compare_def)
  show "v \<le> v" by (simp add: less_eq_cliVersion_def Compare_def)
  show "u \<le> v \<Longrightarrow> v \<le> w \<Longrightarrow> u \<le> w"
    by (auto simp: less_eq_cliVersion_def Compare_def split: if_splits)
  show "v \<le> w \<Longrightarrow> w \<le> v \<Longrightarrow> v = w"
    by (cases v; cases w) (auto simp: less_eq_cliVersion_def Compare_def split: if_splits)
  show "v \<le> w \<or> w \<le> v" by (auto simp: less_eq_cliVersion_def Compare_def)
qed

end

text \<open>The pattern \<open>^codex_cli_rs/(\d+)\.(\d+)\.(\d+)\<close>: a run of digits is followed by something else, so it is read whole.\<close>

definition digits_run :: "string \<Rightarrow> (string \<times> string) option" where
  "digits_run s = (if takeWhile is_digit s = [] then None else Some (takeWhile is_digit s, dropWhile is_digit s))"

definition after_dot :: "string \<Rightarrow> string option" where
  "after_dot s = (case s of c # cs \<Rightarrow> if c = CHR ''.'' then Some cs else None | [] \<Rightarrow> None)"

definition codexCLIVersionPattern :: "string \<Rightarrow> (string \<times> string \<times> string) option" where
  "codexCLIVersionPattern s =
     (if \<not> has_prefix s ''codex_cli_rs/'' then None
      else Option.bind (digits_run (drop 13 s)) (\<lambda>(a, s).
           Option.bind (after_dot s) (\<lambda>s.
           Option.bind (digits_run s) (\<lambda>(b, s).
           Option.bind (after_dot s) (\<lambda>s.
           Option.bind (digits_run s) (\<lambda>(c, s). Some (a, b, c)))))))"

text \<open>\<open>strconv.Atoi\<close> of digits.\<close>

definition Atoi :: "string \<Rightarrow> int option" where
  "Atoi ds = (let n = digits_value ds in if n < 2 ^ 63 then Some n else None)"

definition parseCodexCLIVersion :: "string \<Rightarrow> cliVersion option" where
  "parseCodexCLIVersion userAgent =
     Option.bind (codexCLIVersionPattern (trim_space userAgent)) (\<lambda>(a, b, c).
     Option.bind (Atoi a) (\<lambda>major.
     Option.bind (Atoi b) (\<lambda>minor.
     Option.bind (Atoi c) (\<lambda>patch. Some (CliVersion major minor patch)))))"

definition isCodexCodeClient :: "string \<Rightarrow> bool" where
  "isCodexCodeClient userAgent \<longleftrightarrow> codexCLIVersionPattern userAgent \<noteq> None"

definition show_version :: "cliVersion \<Rightarrow> string" where
  "show_version v = show_int (cv_major v) @ ''.'' @ show_int (cv_minor v) @ ''.'' @ show_int (cv_patch v)"

section \<open>Profiles\<close>

record DeviceProfileConfig =
  dc_UserAgent :: string
  dc_PackageVersion :: string
  dc_RuntimeVersion :: string
  dc_OS :: string
  dc_Arch :: string
  dc_StabilizeDeviceProfile :: bool
  dc_BetaFeatures :: string

record deviceProfile =
  dp_UserAgent :: string
  dp_PackageVersion :: string
  dp_RuntimeVersion :: string
  dp_OS :: string
  dp_Arch :: string
  dp_Version :: cliVersion
  dp_HasVersion :: bool

record deviceProfileCacheEntry =
  ce_profile :: deviceProfile
  ce_expire :: time

definition no_version :: cliVersion where "no_version = CliVersion 0 0 0"

definition deviceProfileTTL :: duration where "deviceProfileTTL = 7 * 24 * hour"

definition IsDeviceProfileStabilizationEnabled :: "DeviceProfileConfig option \<Rightarrow> bool" where
  "IsDeviceProfileStabilizationEnabled cfg = (case cfg of None \<Rightarrow> False | Some c \<Rightarrow> dc_StabilizeDeviceProfile c)"

definition DeviceProfileConfigFromEnv :: "(string \<Rightarrow> string) option \<Rightarrow> DeviceProfileConfig" where
  "DeviceProfileConfigFromEnv lookup =
     (let trimmed = (\<lambda>key. trim_space ((case lookup of None \<Rightarrow> (\<lambda>_. []) | Some f \<Rightarrow> f) key))
      in \<lparr>dc_UserAgent = trimmed ''CODEX_USER_AGENT'', dc_PackageVersion = trimmed ''CODEX_PACKAGE_VERSION'',
          dc_RuntimeVersion = trimmed ''CODEX_RUNTIME_VERSION'', dc_OS = trimmed ''CODEX_OS'',
          dc_Arch = trimmed ''CODEX_ARCH'',
          dc_StabilizeDeviceProfile = equal_fold (trimmed ''STABILIZE_DEVICE_PROFILE'') ''true'',
          dc_BetaFeatures = trimmed ''CODEX_BETA_FEATURES''\<rparr>)"

definition defaultDeviceProfileUserAgent :: string where
  "defaultDeviceProfileUserAgent = ''codex_cli_rs/0.124.0 (Mac OS 15.5.0; arm64) Apple_Terminal/464''"

definition empty_config :: DeviceProfileConfig where
  "empty_config = \<lparr>dc_UserAgent = [], dc_PackageVersion = [], dc_RuntimeVersion = [], dc_OS = [], dc_Arch = [],
     dc_StabilizeDeviceProfile = False, dc_BetaFeatures = []\<rparr>"

definition hdrDefault :: "string \<Rightarrow> string \<Rightarrow> string" where
  "hdrDefault cfgVal fallback = (if trim_space cfgVal \<noteq> [] then trim_space cfgVal else fallback)"

definition defaultDeviceProfile :: "DeviceProfileConfig option \<Rightarrow> deviceProfile" where
  "defaultDeviceProfile cfg =
     (let c = (case cfg of None \<Rightarrow> empty_config | Some c \<Rightarrow> c);
          userAgent = hdrDefault (dc_UserAgent c) defaultDeviceProfileUserAgent;
          version = parseCodexCLIVersion userAgent
      in \<lparr>dp_UserAgent = userAgent, dp_PackageVersion = hdrDefault (dc_PackageVersion c) ''0.124.0'',
          dp_RuntimeVersion = hdrDefault (dc_RuntimeVersion c) ''rustc/1.85.0'',
          dp_OS = hdrDefault (dc_OS c) ''MacOS'', dp_Arch = hdrDefault (dc_Arch c) ''arm64'',
          dp_Version = (case version of None \<Rightarrow> no_version | Some v \<Rightarrow> v), dp_HasVersion = (version \<noteq> None)\<rparr>)"

definition shouldUpgradeDeviceProfile :: "deviceProfile \<Rightarrow> deviceProfile \<Rightarrow> bool" where
  "shouldUpgradeDeviceProfile candidate current \<longleftrightarrow>
     (if dp_UserAgent candidate = [] \<or> \<not> dp_HasVersion candidate then False
      else if dp_UserAgent current = [] \<or> \<not> dp_HasVersion current then True
      else Compare (dp_Version candidate) (dp_Version current) > 0)"

definition pinDeviceProfilePlatform :: "deviceProfile \<Rightarrow> deviceProfile \<Rightarrow> deviceProfile" where
  "pinDeviceProfilePlatform profile baseline = profile\<lparr>dp_OS := dp_OS baseline, dp_Arch := dp_Arch baseline\<rparr>"

definition normalizeDeviceProfile :: "deviceProfile \<Rightarrow> deviceProfile \<Rightarrow> deviceProfile" where
  "normalizeDeviceProfile profile baseline =
     (let profile = pinDeviceProfilePlatform profile baseline
      in if dp_UserAgent profile = [] \<or> \<not> dp_HasVersion profile \<or> shouldUpgradeDeviceProfile baseline profile
         then profile\<lparr>dp_UserAgent := dp_UserAgent baseline, dp_PackageVersion := dp_PackageVersion baseline,
                dp_RuntimeVersion := dp_RuntimeVersion baseline, dp_Version := dp_Version baseline,
                dp_HasVersion := dp_HasVersion baseline\<rparr>
         else profile)"

definition extractDeviceProfile :: "http_header \<Rightarrow> DeviceProfileConfig option \<Rightarrow> deviceProfile option" where
  "extractDeviceProfile headers cfg =
     (let userAgent = trim_space (Get headers ''User-Agent''); baseline = defaultDeviceProfile cfg
      in case parseCodexCLIVersion userAgent of
           None \<Rightarrow> None
         | Some version \<Rightarrow>
             Some \<lparr>dp_UserAgent = userAgent,
               dp_PackageVersion = firstNonEmptyHeader headers ''X-Stainless-Package-Version'' (dp_PackageVersion baseline),
               dp_RuntimeVersion = firstNonEmptyHeader headers ''X-Stainless-Runtime-Version'' (dp_RuntimeVersion baseline),
               dp_OS = firstNonEmptyHeader headers ''X-Stainless-Os'' (dp_OS baseline),
               dp_Arch = firstNonEmptyHeader headers ''X-Stainless-Arch'' (dp_Arch baseline),
               dp_Version = version, dp_HasVersion = True\<rparr>)"

section \<open>The cache\<close>

text \<open>An account is known by its id here; nil is \<open>None\<close>.\<close>

definition deviceProfileScopeKey :: "int option \<Rightarrow> string \<Rightarrow> string" where
  "deviceProfileScopeKey account apiKey =
     (if trim_space apiKey \<noteq> [] then ''api_key:'' @ trim_space apiKey
      else case account of
             Some i \<Rightarrow> if i \<noteq> 0 then ''auth:'' @ show_int i else ''global''
           | None \<Rightarrow> ''global'')"

type_synonym profile_cache = "string \<rightharpoonup> deviceProfileCacheEntry"

definition purgeExpiredDeviceProfiles :: "time \<Rightarrow> profile_cache \<Rightarrow> profile_cache" where
  "purgeExpiredDeviceProfiles now cache =
     (\<lambda>key. case cache key of None \<Rightarrow> None | Some e \<Rightarrow> if ce_expire e > now then Some e else None)"

definition valid_profile :: "profile_cache \<Rightarrow> string \<Rightarrow> time \<Rightarrow> deviceProfile option" where
  "valid_profile cache key now =
     (case cache key of
        None \<Rightarrow> None
      | Some e \<Rightarrow> if ce_expire e > now \<and> dp_UserAgent (ce_profile e) \<noteq> [] then Some (ce_profile e) else None)"

definition cache_profile :: "string \<Rightarrow> time \<Rightarrow> deviceProfile \<Rightarrow> profile_cache \<Rightarrow> profile_cache \<times> deviceProfile" where
  "cache_profile key now p cache = (cache(key \<mapsto> \<lparr>ce_profile = p, ce_expire = now + deviceProfileTTL\<rparr>), p)"

text \<open>The candidate of a request: its own profile, on the platform of the baseline, if it is newer than that.\<close>

definition candidate_profile :: "http_header \<Rightarrow> DeviceProfileConfig option \<Rightarrow> deviceProfile option" where
  "candidate_profile headers cfg =
     (let baseline = defaultDeviceProfile cfg
      in case extractDeviceProfile headers cfg of
           None \<Rightarrow> None
         | Some p \<Rightarrow> let p = pinDeviceProfilePlatform p baseline
                   in if shouldUpgradeDeviceProfile p baseline then Some p else None)"

text \<open>
  The function looks into the cache under the read lock first (\<open>seen\<close>) and acts under the write lock, where another
  request may have changed it (\<open>cache\<close>).
\<close>

definition ResolveDeviceProfile ::
  "(string \<Rightarrow> string) \<Rightarrow> int option \<Rightarrow> string \<Rightarrow> http_header \<Rightarrow> DeviceProfileConfig option \<Rightarrow> time \<Rightarrow>
   profile_cache \<Rightarrow> profile_cache \<Rightarrow> profile_cache \<times> deviceProfile" where
  "ResolveDeviceProfile digest account apiKey headers cfg now seen cache =
     (if \<not> IsDeviceProfileStabilizationEnabled cfg then (cache, defaultDeviceProfile cfg)
      else
        let key = digest (deviceProfileScopeKey account apiKey); baseline = defaultDeviceProfile cfg
        in case candidate_profile headers cfg of
             Some candidate \<Rightarrow>
               (case valid_profile cache key now of
                  Some p \<Rightarrow>
                    let p = normalizeDeviceProfile p baseline
                    in cache_profile key now (if shouldUpgradeDeviceProfile candidate p then candidate else p) cache
                | None \<Rightarrow> cache_profile key now candidate cache)
           | None \<Rightarrow>
               if valid_profile seen key now \<noteq> None
               then (case valid_profile cache key now of
                       Some p \<Rightarrow> cache_profile key now (normalizeDeviceProfile p baseline) cache
                     | None \<Rightarrow> (cache, baseline))
               else (cache, baseline))"

section \<open>Device headers\<close>

definition put_headers :: "(string \<times> string) list \<Rightarrow> http_header \<Rightarrow> http_header" where
  "put_headers kvs h = fold (\<lambda>(k, v) h. h(k \<mapsto> v)) kvs h"

definition ApplyDeviceProfileHeaders :: "deviceProfile \<Rightarrow> http_header \<Rightarrow> http_header" where
  "ApplyDeviceProfileHeaders p h =
     put_headers [(''User-Agent'', dp_UserAgent p), (''X-Stainless-Package-Version'', dp_PackageVersion p),
       (''X-Stainless-Runtime-Version'', dp_RuntimeVersion p), (''X-Stainless-Os'', dp_OS p),
       (''X-Stainless-Arch'', dp_Arch p)]
       (fold (\<lambda>k h. h(k := None)) [''User-Agent'', ''X-Stainless-Package-Version'', ''X-Stainless-Runtime-Version'',
          ''X-Stainless-Os'', ''X-Stainless-Arch''] h)"

definition mapStainlessOS :: "string \<Rightarrow> string" where
  "mapStainlessOS GOOS =
     (if GOOS = ''darwin'' then ''MacOS'' else if GOOS = ''windows'' then ''Windows''
      else if GOOS = ''linux'' then ''Linux'' else if GOOS = ''freebsd'' then ''FreeBSD'' else ''Other::'' @ GOOS)"

definition mapStainlessArch :: "string \<Rightarrow> string" where
  "mapStainlessArch GOARCH =
     (if GOARCH = ''amd64'' then ''x64'' else if GOARCH = ''arm64'' then ''arm64''
      else if GOARCH = ''386'' then ''x86'' else ''other::'' @ GOARCH)"

definition miscEnsure :: "http_header \<Rightarrow> string \<Rightarrow> string \<Rightarrow> http_header \<Rightarrow> http_header" where
  "miscEnsure ginHeaders name fallback h =
     (if trim_space (Get h name) \<noteq> [] then h
      else if trim_space (Get ginHeaders name) \<noteq> [] then h(name \<mapsto> trim_space (Get ginHeaders name))
      else h(name \<mapsto> fallback))"

definition ApplyLegacyDeviceHeaders ::
  "string \<Rightarrow> string \<Rightarrow> http_header \<Rightarrow> DeviceProfileConfig option \<Rightarrow> http_header \<Rightarrow> http_header" where
  "ApplyLegacyDeviceHeaders GOOS GOARCH ginHeaders cfg h =
     (let profile = defaultDeviceProfile cfg;
          h = miscEnsure ginHeaders ''X-Stainless-Runtime-Version'' (dp_RuntimeVersion profile) h;
          h = miscEnsure ginHeaders ''X-Stainless-Package-Version'' (dp_PackageVersion profile) h;
          h = miscEnsure ginHeaders ''X-Stainless-Os'' (mapStainlessOS GOOS) h;
          h = miscEnsure ginHeaders ''X-Stainless-Arch'' (mapStainlessArch GOARCH) h;
          clientUA = trim_space (Get ginHeaders ''User-Agent'')
      in if trim_space (Get h ''User-Agent'') \<noteq> [] then h
         else if isCodexCodeClient clientUA then h(''User-Agent'' \<mapsto> clientUA)
         else h(''User-Agent'' \<mapsto> dp_UserAgent profile))"

section \<open>Official clients\<close>

definition codexOfficialClientUserAgentPrefixes :: "string list" where
  "codexOfficialClientUserAgentPrefixes =
     [''codex_cli_rs/'', ''codex_vscode/'', ''codex_app/'', ''codex_chatgpt_desktop/'', ''codex_atlas/'', ''codex_exec/'',
      ''codex_sdk_ts/'', ''codex '']"

definition codexOfficialClientOriginatorPrefixes :: "string list" where
  "codexOfficialClientOriginatorPrefixes = [''codex_'', ''codex '']"

definition matchCodexClientHeaderPrefixes :: "string \<Rightarrow> string list \<Rightarrow> bool" where
  "matchCodexClientHeaderPrefixes value prefixes \<longleftrightarrow>
     (let v = to_lower (trim_space value)
      in v \<noteq> [] \<and>
         list_ex (\<lambda>prefix. let p = to_lower (trim_space prefix) in p \<noteq> [] \<and> (has_prefix v p \<or> contains v p)) prefixes)"

definition IsCodexOfficialClientByHeaders :: "string \<Rightarrow> string \<Rightarrow> bool" where
  "IsCodexOfficialClientByHeaders userAgent originator \<longleftrightarrow>
     matchCodexClientHeaderPrefixes userAgent codexOfficialClientUserAgentPrefixes \<or>
     matchCodexClientHeaderPrefixes originator codexOfficialClientOriginatorPrefixes"

definition latestCodexCLIVersion :: string where "latestCodexCLIVersion = ''0.125.0''"

definition latestCodexCLIUserAgentPrefix :: string where
  "latestCodexCLIUserAgentPrefix = ''codex_cli_rs/'' @ latestCodexCLIVersion"

section \<open>Headers for the upstream\<close>

definition codexVersionFromProfile :: "deviceProfile \<Rightarrow> string \<Rightarrow> string" where
  "codexVersionFromProfile p fallback = (if dp_HasVersion p then show_version (dp_Version p) else trim_space fallback)"

definition codexVersionFromUserAgent :: "string \<Rightarrow> string \<Rightarrow> string" where
  "codexVersionFromUserAgent userAgent fallback =
     (case parseCodexCLIVersion userAgent of Some v \<Rightarrow> show_version v | None \<Rightarrow> trim_space fallback)"

definition codexAllowedForwardHeaders :: "string list" where
  "codexAllowedForwardHeaders = [''X-Codex-Turn-State'', ''X-Codex-Turn-Metadata'', ''X-Client-Request-Id'']"

definition applyCodexAllowedForwardHeaders :: "http_header \<Rightarrow> http_header \<Rightarrow> http_header" where
  "applyCodexAllowedForwardHeaders downstream h =
     fold (\<lambda>name h. let value = trim_space (Get downstream name) in if value \<noteq> [] then h(name \<mapsto> value) else h)
       codexAllowedForwardHeaders h"

text \<open>
  \<open>accountID\<close> is the id of the account at the upstream, \<open>profile\<close> what \<open>ResolveDeviceProfile\<close> answers; it is called only
  when profiles are stabilised.
\<close>

definition user_agent_and_version ::
  "deviceProfile \<Rightarrow> DeviceProfileConfig option \<Rightarrow> http_header \<Rightarrow> http_header \<Rightarrow> http_header \<times> string" where
  "user_agent_and_version profile cfg downstream h =
     (if IsDeviceProfileStabilizationEnabled cfg
      then (if trim_space (dp_UserAgent profile) \<noteq> [] then h(''User-Agent'' \<mapsto> dp_UserAgent profile) else h,
            codexVersionFromProfile profile (case cfg of Some c \<Rightarrow> trim_space (dc_PackageVersion c) | None \<Rightarrow> []))
      else
        let userAgent = trim_space (Get downstream ''User-Agent''); originator = trim_space (Get downstream ''Originator'')
        in if IsCodexOfficialClientByHeaders userAgent originator \<and> userAgent \<noteq> []
           then (h(''User-Agent'' \<mapsto> userAgent),
                 firstNonEmptyHeader downstream ''Version'' (codexVersionFromUserAgent userAgent latestCodexCLIVersion))
           else (h(''User-Agent'' \<mapsto> latestCodexCLIUserAgentPrefix), latestCodexCLIVersion))"

definition applyCodexRequestHeaders ::
  "string \<Rightarrow> string \<Rightarrow> string \<Rightarrow> deviceProfile \<Rightarrow> DeviceProfileConfig option \<Rightarrow> http_header \<Rightarrow> http_header \<Rightarrow> http_header" where
  "applyCodexRequestHeaders accountID accessToken cacheKey profile cfg downstream h =
     (let (h, version) = user_agent_and_version profile cfg downstream h;
          version = (if version = [] then latestCodexCLIVersion else version);
          h = put_headers [(''Authorization'', ''Bearer '' @ accessToken), (''Content-Type'', ''application/json''),
                (''Accept'', ''text/event-stream''), (''Connection'', ''Keep-Alive''), (''Version'', version)] h;
          originator = trim_space (Get downstream ''Originator'');
          h = h(''Originator'' \<mapsto> (if originator \<noteq> [] \<and> IsCodexOfficialClientByHeaders [] originator then originator
                                 else ''codex_cli_rs''));
          h = applyCodexAllowedForwardHeaders downstream h;
          h = (if accountID \<noteq> [] then h(''Chatgpt-Account-Id'' \<mapsto> accountID) else h)
      in if cacheKey \<noteq> [] then h(''Session_id'' \<mapsto> cacheKey, ''Conversation_id'' := None) else h)"

text \<open>
  \<open>key_uuid\<close> is the name-based UUID of a key, \<open>fresh\<close> the random one; \<open>promptCacheKey\<close> is what gjson reads from the body.
\<close>

definition trim_bearer :: "string \<Rightarrow> string" where
  "trim_bearer s = (if has_prefix s ''Bearer '' then drop 7 s else s)"

fun first_nonempty :: "string list \<Rightarrow> string option" where
  "first_nonempty [] = None"
| "first_nonempty (v # vs) = (if trim_space v \<noteq> [] then Some (trim_space v) else first_nonempty vs)"

definition ResolveSessionID :: "(string \<Rightarrow> string) \<Rightarrow> string \<Rightarrow> http_header \<Rightarrow> string \<Rightarrow> string" where
  "ResolveSessionID key_uuid fresh headers promptCacheKey =
     (case first_nonempty [Get headers ''Session_id'', Get headers ''Conversation_id'', Get headers ''Idempotency-Key'',
                           promptCacheKey] of
        Some v \<Rightarrow> v
      | None \<Rightarrow>
          let apiKey = trim_space (trim_bearer (Get headers ''Authorization''))
          in if apiKey \<noteq> [] then key_uuid (''codex2api:prompt-cache:'' @ apiKey) else fresh)"

end
