(* ===== verification/DeviceProfileLaws.thy ===== *)
theory DeviceProfileLaws
  imports DeviceProfile WsRelayLaws
begin

text \<open>
  What the upstream sees of a client: a stabilised profile stays on the platform of the configuration, is never older than
  it and never falls back while it is in use; headers of the client do not pass.
\<close>

section \<open>Versions\<close>

lemma digits_value_decimal: "digits_value (decimal n) = int n"
proof (induction n rule: decimal.induct)
  case (1 n)
  have d: "(of_char (char_of (48 + k) :: char) :: nat) = 48 + k" if "k < 10" for k :: nat
    using that by simp
  show ?case
  proof (cases "n < 10")
    case True
    with d[OF True] show ?thesis by (subst decimal.simps) (simp add: digits_value_def)
  next
    case False
    have "digits_value (decimal n) = 10 * int (n div 10) + int (n mod 10)"
      using False 1[OF False] d[of "n mod 10"] by (subst decimal.simps) (simp add: digits_value_def)
    also have "\<dots> = int (10 * (n div 10) + n mod 10)" by (simp only: of_nat_add of_nat_mult of_nat_numeral)
    finally show ?thesis by simp
  qed
qed

lemma decimal_is_digits: "list_all is_digit (decimal n)"
  unfolding list_all_iff is_digit_def using decimal_props[of n] by blast

lemma digits_run_decimal:
  assumes "case rest of [] \<Rightarrow> True | c # _ \<Rightarrow> \<not> is_digit c"
  shows "digits_run (decimal n @ rest) = Some (decimal n, rest)"
proof -
  have "takeWhile is_digit (decimal n @ rest) = decimal n" "dropWhile is_digit (decimal n @ rest) = rest"
    using assms decimal_is_digits[of n]
    by (cases rest; simp add: list_all_iff takeWhile_append2 dropWhile_append2 takeWhile_eq_all_conv dropWhile_eq_Nil_conv)+
  then show ?thesis using decimal_props[of n] by (simp add: digits_run_def)
qed

definition version_in_range :: "cliVersion \<Rightarrow> bool" where
  "version_in_range v \<longleftrightarrow> (\<forall>n \<in> {cv_major v, cv_minor v, cv_patch v}. 0 \<le> n \<and> n < 2 ^ 63)"

lemma Atoi_decimal: "0 \<le> n \<Longrightarrow> n < 2 ^ 63 \<Longrightarrow> Atoi (decimal (nat n)) = Some n"
  by (simp add: Atoi_def digits_value_decimal)

lemma pattern_reads_version:
  assumes "version_in_range v" "case rest of [] \<Rightarrow> True | c # _ \<Rightarrow> \<not> is_digit c"
  shows "codexCLIVersionPattern (''codex_cli_rs/'' @ show_version v @ rest) =
    Some (decimal (nat (cv_major v)), decimal (nat (cv_minor v)), decimal (nat (cv_patch v)))"
proof -
  have dot: "\<not> is_digit CHR ''.''" by (simp add: is_digit_def)
  show ?thesis
    using assms
    by (simp add: codexCLIVersionPattern_def show_version_def show_int_def version_in_range_def not_less
        digits_run_decimal dot after_dot_def)
qed

text \<open>
  Round trip: the version that is sent in the header \<open>Version\<close> is the one that the user agent shows, whatever follows it
  there, as long as it is in the range of an int.
\<close>

theorem version_round_trip:
  assumes "version_in_range v" "case rest of [] \<Rightarrow> True | c # _ \<Rightarrow> \<not> is_digit c"
    and "trim_space (''codex_cli_rs/'' @ show_version v @ rest) = ''codex_cli_rs/'' @ show_version v @ rest"
  shows "parseCodexCLIVersion (''codex_cli_rs/'' @ show_version v @ rest) = Some v"
  using assms pattern_reads_version[OF assms(1,2)]
  by (cases v) (simp add: parseCodexCLIVersion_def Atoi_decimal version_in_range_def)

lemma version_round_trip_witness:
  "parseCodexCLIVersion (''codex_cli_rs/'' @ show_version (CliVersion 0 125 1) @ '' (Mac OS 15.5.0; arm64)'') =
     Some (CliVersion 0 125 1)"
proof -
  have s: "show_version (CliVersion 0 125 1) = ''0.125.1''" by code_simp
  have "trim_space (''codex_cli_rs/'' @ show_version (CliVersion 0 125 1) @ '' (Mac OS 15.5.0; arm64)'') =
      ''codex_cli_rs/'' @ show_version (CliVersion 0 125 1) @ '' (Mac OS 15.5.0; arm64)''"
    unfolding s by code_simp
  with version_round_trip[of "CliVersion 0 125 1" "'' (Mac OS 15.5.0; arm64)''"] show ?thesis
    by (simp add: version_in_range_def is_digit_def)
qed

section \<open>Profiles\<close>

lemma compare_is_order: "Compare v w > 0 \<longleftrightarrow> w < v" "Compare v w \<le> 0 \<longleftrightarrow> v \<le> w"
  by (auto simp: less_cliVersion_def less_eq_cliVersion_def Compare_def)

lemma baseline_agent: "dp_UserAgent (defaultDeviceProfile cfg) \<noteq> []"
  by (simp add: defaultDeviceProfile_def hdrDefault_def defaultDeviceProfileUserAgent_def Let_def)

text \<open>What every profile of a configuration satisfies, and that its version is the one its user agent shows.\<close>

definition on_platform :: "DeviceProfileConfig option \<Rightarrow> deviceProfile \<Rightarrow> bool" where
  "on_platform cfg p \<longleftrightarrow>
     dp_UserAgent p \<noteq> [] \<and> dp_OS p = dp_OS (defaultDeviceProfile cfg) \<and> dp_Arch p = dp_Arch (defaultDeviceProfile cfg) \<and>
     (dp_HasVersion (defaultDeviceProfile cfg) \<longrightarrow>
        dp_HasVersion p \<and> dp_Version (defaultDeviceProfile cfg) \<le> dp_Version p)"

definition agent_shows_version :: "deviceProfile \<Rightarrow> bool" where
  "agent_shows_version p \<longleftrightarrow> dp_HasVersion p = (parseCodexCLIVersion (dp_UserAgent p) \<noteq> None) \<and>
     (dp_HasVersion p \<longrightarrow> parseCodexCLIVersion (dp_UserAgent p) = Some (dp_Version p))"

definition cache_shows_versions :: "profile_cache \<Rightarrow> bool" where
  "cache_shows_versions cache \<longleftrightarrow> (\<forall>key e. cache key = Some e \<longrightarrow> agent_shows_version (ce_profile e))"

lemma baseline_ok: "on_platform cfg (defaultDeviceProfile cfg)" "agent_shows_version (defaultDeviceProfile cfg)"
  by (auto simp: on_platform_def baseline_agent) (auto simp: agent_shows_version_def defaultDeviceProfile_def Let_def)

lemma normalized_on_platform: "on_platform cfg (normalizeDeviceProfile p (defaultDeviceProfile cfg))"
  using baseline_agent[of cfg]
  by (auto simp: on_platform_def normalizeDeviceProfile_def pinDeviceProfilePlatform_def shouldUpgradeDeviceProfile_def
      Let_def compare_is_order)

lemma normalized_shows: "agent_shows_version p \<Longrightarrow> agent_shows_version (normalizeDeviceProfile p (defaultDeviceProfile cfg))"
  using baseline_ok(2)[of cfg]
  by (auto simp: agent_shows_version_def normalizeDeviceProfile_def pinDeviceProfilePlatform_def Let_def)

lemma normalized_not_older:
  "dp_HasVersion p \<Longrightarrow> dp_UserAgent p \<noteq> [] \<Longrightarrow>
     dp_HasVersion (normalizeDeviceProfile p b) \<and> dp_Version p \<le> dp_Version (normalizeDeviceProfile p b)"
  by (auto simp: normalizeDeviceProfile_def pinDeviceProfilePlatform_def shouldUpgradeDeviceProfile_def Let_def
      compare_is_order)

lemma candidate_ok:
  assumes "candidate_profile headers cfg = Some p"
  shows "on_platform cfg p" "agent_shows_version p" "dp_HasVersion p"
proof -
  obtain q where q: "extractDeviceProfile headers cfg = Some q" "p = pinDeviceProfilePlatform q (defaultDeviceProfile cfg)"
      "shouldUpgradeDeviceProfile p (defaultDeviceProfile cfg)"
    using assms by (auto simp: candidate_profile_def Let_def split: option.splits if_splits)
  have v: "parseCodexCLIVersion (dp_UserAgent q) = Some (dp_Version q)" "dp_HasVersion q"
    using q(1) by (auto simp: extractDeviceProfile_def Let_def split: option.splits)
  show "on_platform cfg p"
    using q(2,3) v baseline_agent[of cfg]
    by (auto simp: on_platform_def pinDeviceProfilePlatform_def shouldUpgradeDeviceProfile_def compare_is_order
        split: if_splits)
  show "agent_shows_version p" "dp_HasVersion p"
    using v q(2) by (auto simp: agent_shows_version_def pinDeviceProfilePlatform_def)
qed

text \<open>
  A stabilised profile is on the platform of the configuration and at least as new as it, and its version is the one that
  its user agent shows, whatever other requests leave in the cache between the two looks at it.
\<close>

theorem profile_is_pinned:
  assumes "IsDeviceProfileStabilizationEnabled cfg" "cache_shows_versions cache"
    and "ResolveDeviceProfile digest account apiKey headers cfg now seen cache = (cache', p)"
  shows "on_platform cfg p \<and> agent_shows_version p \<and> cache_shows_versions cache'"
proof -
  have cached: "agent_shows_version q" if "valid_profile cache key now = Some q" for key q
    using that assms(2) by (auto simp: valid_profile_def cache_shows_versions_def split: option.splits if_splits)
  have put: "cache_shows_versions (cache(key \<mapsto> \<lparr>ce_profile = q, ce_expire = t\<rparr>))" if "agent_shows_version q" for key q t
    using that assms(2) by (simp add: cache_shows_versions_def)
  show ?thesis
    using assms(1,2,3) candidate_ok[of headers cfg] baseline_ok[of cfg]
    by (auto simp: ResolveDeviceProfile_def Let_def cache_profile_def normalized_on_platform normalized_shows cached put
        split: option.splits if_splits)
qed

definition stable_config :: DeviceProfileConfig where
  "stable_config = empty_config\<lparr>dc_StabilizeDeviceProfile := True\<rparr>"

definition agent_header :: "string \<Rightarrow> http_header" where
  "agent_header userAgent = [''User-Agent'' \<mapsto> userAgent]"

lemma profile_is_pinned_witness:
  "on_platform (Some stable_config)
     (snd (ResolveDeviceProfile (\<lambda>k. k) (Some 1) [] (agent_header ''codex_cli_rs/0.130.0 (Windows)'') (Some stable_config)
       5 Map.empty Map.empty))"
  using profile_is_pinned[of "Some stable_config" Map.empty "\<lambda>k. k" "Some 1" "[]"
      "agent_header ''codex_cli_rs/0.130.0 (Windows)''" 5 Map.empty]
  by (simp add: cache_shows_versions_def IsDeviceProfileStabilizationEnabled_def stable_config_def surj_pair prod_eq_iff)

section \<open>No way back\<close>

text \<open>Requests and sweeps of the cache, one after the other, and the profiles that the requests of one key get.\<close>

datatype profile_event = Asks "int option" string http_header time | Purges time

fun profile_step ::
  "(string \<Rightarrow> string) \<Rightarrow> DeviceProfileConfig option \<Rightarrow> profile_event \<Rightarrow> profile_cache \<Rightarrow> profile_cache" where
  "profile_step digest cfg (Asks account apiKey headers now) cache =
     fst (ResolveDeviceProfile digest account apiKey headers cfg now cache cache)"
| "profile_step digest cfg (Purges now) cache = purgeExpiredDeviceProfiles now cache"

definition asks_for :: "(string \<Rightarrow> string) \<Rightarrow> string \<Rightarrow> profile_event \<Rightarrow> bool" where
  "asks_for digest key ev =
     (case ev of Asks account apiKey _ _ \<Rightarrow> digest (deviceProfileScopeKey account apiKey) = key | Purges _ \<Rightarrow> False)"

fun profiles_of ::
  "(string \<Rightarrow> string) \<Rightarrow> DeviceProfileConfig option \<Rightarrow> string \<Rightarrow> profile_event list \<Rightarrow> profile_cache \<Rightarrow> deviceProfile list" where
  "profiles_of digest cfg key [] cache = []"
| "profiles_of digest cfg key (Asks account apiKey headers now # evs) cache =
     (let (cache', p) = ResolveDeviceProfile digest account apiKey headers cfg now cache cache
      in (if digest (deviceProfileScopeKey account apiKey) = key then [p] else []) @ profiles_of digest cfg key evs cache')"
| "profiles_of digest cfg key (Purges now # evs) cache =
     profiles_of digest cfg key evs (purgeExpiredDeviceProfiles now cache)"

text \<open>Time does not go back, and less than seven days pass between the requests of the key.\<close>

fun in_use :: "(string \<Rightarrow> string) \<Rightarrow> string \<Rightarrow> time \<Rightarrow> profile_event list \<Rightarrow> bool" where
  "in_use digest key t [] = True"
| "in_use digest key t (Asks account apiKey headers now # evs) =
     (if digest (deviceProfileScopeKey account apiKey) = key
      then now < t + deviceProfileTTL \<and> in_use digest key now evs else in_use digest key t evs)"
| "in_use digest key t (Purges now # evs) = (now < t + deviceProfileTTL \<and> in_use digest key t evs)"

text \<open>What a key is sure to get until \<open>t\<close> and seven days: a profile of at least version \<open>v\<close>.\<close>

definition holds_version :: "DeviceProfileConfig option \<Rightarrow> string \<Rightarrow> time \<Rightarrow> cliVersion \<Rightarrow> profile_cache \<Rightarrow> bool" where
  "holds_version cfg key t v cache \<longleftrightarrow> v \<le> dp_Version (defaultDeviceProfile cfg) \<or>
     (\<exists>e. cache key = Some e \<and> ce_expire e = t + deviceProfileTTL \<and> dp_UserAgent (ce_profile e) \<noteq> [] \<and>
        dp_HasVersion (ce_profile e) \<and> v \<le> dp_Version (ce_profile e))"

lemma resolve_keeps_version:
  assumes "IsDeviceProfileStabilizationEnabled cfg" "dp_HasVersion (defaultDeviceProfile cfg)"
    and "holds_version cfg key t v cache" "now < t + deviceProfileTTL"
    and "digest (deviceProfileScopeKey account apiKey) = key"
    and "ResolveDeviceProfile digest account apiKey headers cfg now cache cache = (cache', p)"
  shows "v \<le> dp_Version p \<and> holds_version cfg key now (dp_Version p) cache'"
proof -
  have b: "on_platform cfg (normalizeDeviceProfile q (defaultDeviceProfile cfg))" for q by (rule normalized_on_platform)
  have c: "on_platform cfg q" if "candidate_profile headers cfg = Some q" for q using candidate_ok that by blast
  have keep: "v \<le> dp_Version (normalizeDeviceProfile q (defaultDeviceProfile cfg))"
    if q: "valid_profile cache key now = Some q" for q
  proof (cases "v \<le> dp_Version (defaultDeviceProfile cfg)")
    case True
    then show ?thesis using b[of q] assms(2) by (auto simp: on_platform_def intro: order_trans)
  next
    case False
    then have "dp_UserAgent q \<noteq> []" "dp_HasVersion q" "v \<le> dp_Version q"
      using assms(3) q by (auto simp: valid_profile_def holds_version_def split: option.splits if_splits)
    then show ?thesis using normalized_not_older[of q "defaultDeviceProfile cfg"] by (auto intro: order_trans)
  qed
  have gone: "v \<le> dp_Version (defaultDeviceProfile cfg)" if q: "valid_profile cache key now = None"
    using that assms(3,4) by (auto simp: valid_profile_def holds_version_def)
  have put: "holds_version cfg key now (dp_Version q) (cache(key \<mapsto> \<lparr>ce_profile = q, ce_expire = now + deviceProfileTTL\<rparr>))"
    if "on_platform cfg q" for q
    using that assms(2) by (simp add: holds_version_def on_platform_def)
  have low: "holds_version cfg key now (dp_Version (defaultDeviceProfile cfg)) cache" by (simp add: holds_version_def)
  have newer: "v \<le> dp_Version q" if "v \<le> dp_Version (defaultDeviceProfile cfg)" "on_platform cfg q" for q
    using that assms(2) by (auto simp: on_platform_def intro: order_trans)
  have upgrade: "v \<le> dp_Version q" if "v \<le> dp_Version r" "shouldUpgradeDeviceProfile q r" "on_platform cfg r" for q r
    using that assms(2)
    by (auto simp: shouldUpgradeDeviceProfile_def on_platform_def compare_is_order split: if_splits intro: order_trans)
  show ?thesis
  proof (cases "candidate_profile headers cfg")
    case n: None
    show ?thesis
    proof (cases "valid_profile cache key now")
      case None
      then show ?thesis using assms(1,5,6) n gone low by (auto simp: ResolveDeviceProfile_def Let_def)
    next
      case (Some q)
      then show ?thesis using assms(1,5,6) n keep[OF Some] put[OF b[of q]]
        by (auto simp: ResolveDeviceProfile_def cache_profile_def Let_def)
    qed
  next
    case cand: (Some q)
    show ?thesis
    proof (cases "valid_profile cache key now")
      case None
      then show ?thesis using assms(1,5,6) cand newer[OF gone[OF None] c[OF cand]] put[OF c[OF cand]]
        by (auto simp: ResolveDeviceProfile_def cache_profile_def Let_def)
    next
      case (Some r)
      then show ?thesis
        using assms(1,5,6) cand keep[OF Some] put[OF b[of r]] put[OF c[OF cand]] upgrade[OF keep[OF Some] _ b[of r], of q]
        by (auto simp: ResolveDeviceProfile_def cache_profile_def Let_def split: if_splits)
    qed
  qed
qed

lemma resolve_other_key:
  assumes "digest (deviceProfileScopeKey account apiKey) \<noteq> key"
  shows "fst (ResolveDeviceProfile digest account apiKey headers cfg now seen cache) key = cache key"
  using assms by (auto simp: ResolveDeviceProfile_def cache_profile_def Let_def split: option.splits)

lemma purge_keeps_version:
  "holds_version cfg key t v cache \<Longrightarrow> now < t + deviceProfileTTL \<Longrightarrow>
     holds_version cfg key t v (purgeExpiredDeviceProfiles now cache)"
  by (auto simp: holds_version_def purgeExpiredDeviceProfiles_def)

lemma profiles_above:
  assumes "IsDeviceProfileStabilizationEnabled cfg" "dp_HasVersion (defaultDeviceProfile cfg)"
  shows "holds_version cfg key t v cache \<Longrightarrow> in_use digest key t evs \<Longrightarrow>
     sorted (map dp_Version (profiles_of digest cfg key evs cache)) \<and>
     (\<forall>p \<in> set (profiles_of digest cfg key evs cache). v \<le> dp_Version p)"
proof (induction evs arbitrary: cache t v)
  case (Cons ev evs)
  show ?case
  proof (cases ev)
    case (Asks account apiKey headers now)
    obtain cache' p where r: "ResolveDeviceProfile digest account apiKey headers cfg now cache cache = (cache', p)"
      by (metis surj_pair)
    show ?thesis
    proof (cases "digest (deviceProfileScopeKey account apiKey) = key")
      case True
      then have u: "now < t + deviceProfileTTL" "in_use digest key now evs" using Cons.prems(2) Asks by auto
      note k = resolve_keeps_version[OF assms Cons.prems(1) u(1) True r]
      with Cons.IH[of now "dp_Version p" cache'] u show ?thesis
        by (auto simp: Asks r True intro: order_trans)
    next
      case False
      have "holds_version cfg key t v cache'"
        using Cons.prems(1) resolve_other_key[where digest = digest, OF False, of headers cfg now cache cache] r
        by (simp add: holds_version_def)
      with Cons.IH[of t v cache'] Cons.prems(2) show ?thesis by (simp add: Asks r False)
    qed
  next
    case (Purges now)
    with Cons purge_keeps_version[of cfg key t v cache now] show ?thesis by auto
  qed
qed simp

text \<open>
  While a key of the cache is in use, the versions it is given never fall, whatever the clients send, other keys do and
  the sweep removes.
\<close>

theorem profile_never_downgrades:
  assumes "IsDeviceProfileStabilizationEnabled cfg" "dp_HasVersion (defaultDeviceProfile cfg)"
    and "in_use digest key t evs"
    and "cache key = None"
  shows "sorted (map dp_Version (profiles_of digest cfg key evs cache))"
proof -
  have "holds_version cfg key t (dp_Version (defaultDeviceProfile cfg)) cache" by (simp add: holds_version_def)
  with profiles_above[OF assms(1,2) _ assms(3)] show ?thesis by blast
qed

definition profile_story :: "profile_event list" where
  "profile_story =
     [Asks (Some 1) [] (agent_header ''codex_cli_rs/0.130.0'') 5, Purges 6, Asks (Some 2) [] Map.empty 7,
      Asks (Some 1) [] (agent_header ''codex_cli_rs/0.126.0'') 8, Asks (Some 1) [] (agent_header ''curl'') (9 + 24 * hour)]"

lemma profile_never_downgrades_witness:
  "sorted (map dp_Version (profiles_of (\<lambda>k. k) (Some stable_config) ''auth:1'' profile_story Map.empty)) \<and>
   map dp_Version (profiles_of (\<lambda>k. k) (Some stable_config) ''auth:1'' profile_story Map.empty) =
     [CliVersion 0 130 0, CliVersion 0 130 0, CliVersion 0 130 0]"
proof -
  have e: "IsDeviceProfileStabilizationEnabled (Some stable_config)" by code_simp
  have v: "dp_HasVersion (defaultDeviceProfile (Some stable_config))" by code_simp
  have u: "in_use (\<lambda>k. k) ''auth:1'' 0 profile_story" by code_simp
  have "map dp_Version (profiles_of (\<lambda>k. k) (Some stable_config) ''auth:1'' profile_story Map.empty) =
      [CliVersion 0 130 0, CliVersion 0 130 0, CliVersion 0 130 0]" by code_simp
  with profile_never_downgrades[OF e v u, of Map.empty] show ?thesis by simp
qed

section \<open>Headers\<close>

definition read_headers :: "string set" where
  "read_headers = {''User-Agent'', ''Originator'', ''Version'', ''X-Codex-Turn-State'', ''X-Codex-Turn-Metadata'',
     ''X-Client-Request-Id''}"

lemma forward_other:
  "name \<notin> set codexAllowedForwardHeaders \<Longrightarrow> applyCodexAllowedForwardHeaders downstream h name = h name"
  by (simp add: applyCodexAllowedForwardHeaders_def codexAllowedForwardHeaders_def Let_def)

lemma authorized:
  "applyCodexRequestHeaders accountID token cacheKey profile cfg downstream h ''Authorization'' = Some (''Bearer '' @ token)"
proof -
  have "''Authorization'' \<notin> set codexAllowedForwardHeaders" by (simp add: codexAllowedForwardHeaders_def)
  then show ?thesis
    by (cases "user_agent_and_version profile cfg downstream h")
      (simp add: applyCodexRequestHeaders_def put_headers_def Let_def forward_other)
qed

text \<open>
  A request is authorised with the token of its account, and no header of the client reaches the upstream but its user
  agent, originator and version and the three headers of the protocol.
\<close>

theorem client_headers_stay:
  assumes "\<And>name. name \<in> read_headers \<Longrightarrow> downstream name = downstream' name"
  shows "applyCodexRequestHeaders accountID token cacheKey profile cfg downstream h =
           applyCodexRequestHeaders accountID token cacheKey profile cfg downstream' h \<and>
         applyCodexRequestHeaders accountID token cacheKey profile cfg downstream h ''Authorization'' =
           Some (''Bearer '' @ token)"
proof -
  have same: "Get downstream name = Get downstream' name" if "name \<in> read_headers" for name
    using assms[OF that] by (simp add: Get_def)
  have r: "Get downstream ''User-Agent'' = Get downstream' ''User-Agent''"
      "Get downstream ''Originator'' = Get downstream' ''Originator''" "Get downstream ''Version'' = Get downstream' ''Version''"
      "Get downstream ''X-Codex-Turn-State'' = Get downstream' ''X-Codex-Turn-State''"
      "Get downstream ''X-Codex-Turn-Metadata'' = Get downstream' ''X-Codex-Turn-Metadata''"
      "Get downstream ''X-Client-Request-Id'' = Get downstream' ''X-Client-Request-Id''"
    by (rule same, simp add: read_headers_def)+
  have fw: "applyCodexAllowedForwardHeaders downstream = applyCodexAllowedForwardHeaders downstream'"
    by (simp add: fun_eq_iff applyCodexAllowedForwardHeaders_def codexAllowedForwardHeaders_def r)
  have ua: "user_agent_and_version profile cfg downstream h = user_agent_and_version profile cfg downstream' h"
    unfolding user_agent_and_version_def firstNonEmptyHeader_def r ..
  have "applyCodexRequestHeaders accountID token cacheKey profile cfg downstream h =
      applyCodexRequestHeaders accountID token cacheKey profile cfg downstream' h"
    unfolding applyCodexRequestHeaders_def fw ua r ..
  with authorized show ?thesis by blast
qed

lemma client_headers_stay_witness:
  "applyCodexRequestHeaders ''acc'' ''t'' ''s'' (defaultDeviceProfile None) None
     [''Authorization'' \<mapsto> ''Bearer client'', ''Cookie'' \<mapsto> ''c'', ''Conversation_id'' \<mapsto> ''v''] Map.empty =
   applyCodexRequestHeaders ''acc'' ''t'' ''s'' (defaultDeviceProfile None) None Map.empty Map.empty"
proof -
  have r: "name \<in> read_headers \<Longrightarrow>
      [''Authorization'' \<mapsto> ''Bearer client'', ''Cookie'' \<mapsto> ''c'', ''Conversation_id'' \<mapsto> ''v''] name = Map.empty name" for name
    by (auto simp: read_headers_def)
  show ?thesis
    using client_headers_stay[of "[''Authorization'' \<mapsto> ''Bearer client'', ''Cookie'' \<mapsto> ''c'', ''Conversation_id'' \<mapsto> ''v'']"
        Map.empty "''acc''" "''t''" "''s''" "defaultDeviceProfile None" None Map.empty, OF r] by blast
qed

text \<open>The prefix \<open>codex \<close> is trimmed before it is looked for, so any text with the word passes for an official client.\<close>

lemma any_codex_is_official:
  assumes "contains (to_lower (trim_space userAgent)) ''codex''"
  shows "IsCodexOfficialClientByHeaders userAgent originator"
proof -
  have "to_lower (trim_space ''codex '') = ''codex''" by code_simp
  moreover have "to_lower (trim_space userAgent) \<noteq> []" using assms by (cases "to_lower (trim_space userAgent)") auto
  ultimately show ?thesis using assms
    by (auto simp: IsCodexOfficialClientByHeaders_def matchCodexClientHeaderPrefixes_def Let_def
        codexOfficialClientUserAgentPrefixes_def)
qed

end
