(* ===== verification/Keepalive.thy ===== *)
theory Keepalive
  imports SseReader Upstream RequestBody WsRelay
begin

text \<open>
  Answers while the upstream is silent, \<open>proxy/keepalive.go\<close>, and the final error of a request,
  \<open>sendFinalUpstreamErrorKA\<close> of \<open>proxy/handler.go\<close>. Two goroutines write: the handler and a heartbeat. Each operation
  holds the mutex of the writer, so an interleaving is a sequence of operations. The response writer below is known by the
  calls that it gets; whether a call fails is an argument of the operation.
\<close>

section \<open>The response writer\<close>

datatype rw_call = SetHeader string string | WriteHeader int | Write string | Flush

fun bytes_of :: "rw_call list \<Rightarrow> string" where
  "bytes_of [] = []"
| "bytes_of (Write s # cs) = s @ bytes_of cs"
| "bytes_of (_ # cs) = bytes_of cs"

section \<open>Streams\<close>

record SSEWriter =
  sw_calls :: "rw_call list"
  sw_lastWrite :: time
  sw_done :: bool

definition NewSSEWriter :: "bool \<Rightarrow> time \<Rightarrow> SSEWriter option" where
  "NewSSEWriter flusher now = (if flusher then Some \<lparr>sw_calls = [], sw_lastWrite = now, sw_done = False\<rparr> else None)"

text \<open>Writing and flushing; the answer is whether there was no error.\<close>

definition sse_print :: "string \<Rightarrow> bool \<Rightarrow> time \<Rightarrow> SSEWriter \<Rightarrow> SSEWriter \<times> bool" where
  "sse_print s ok now w =
     (if ok then (w\<lparr>sw_calls := sw_calls w @ [Write s, Flush], sw_lastWrite := now\<rparr>, True) else (w, False))"

definition WriteRaw :: "string \<Rightarrow> bool \<Rightarrow> time \<Rightarrow> SSEWriter \<Rightarrow> SSEWriter \<times> bool" where
  "WriteRaw data ok now w = (if sw_done w then (w, True) else sse_print data ok now w)"

definition WriteEvent :: "string \<Rightarrow> bool \<Rightarrow> time \<Rightarrow> SSEWriter \<Rightarrow> SSEWriter \<times> bool" where
  "WriteEvent payload ok now w =
     (if sw_done w then (w, True) else sse_print (''data: '' @ payload @ [LF, LF]) ok now w)"

definition sse_SendKeepalive :: "string \<Rightarrow> duration \<Rightarrow> bool \<Rightarrow> time \<Rightarrow> SSEWriter \<Rightarrow> SSEWriter \<times> bool" where
  "sse_SendKeepalive chunkSSE idleThreshold ok now w =
     (if sw_done w \<or> go_sub now (sw_lastWrite w) < idleThreshold then (w, True) else sse_print chunkSSE ok now w)"

definition sse_Close :: "SSEWriter \<Rightarrow> SSEWriter" where
  "sse_Close w = w\<lparr>sw_done := True\<rparr>"

section \<open>JSON answers\<close>

record JSONKeepaliveWriter =
  jw_calls :: "rw_call list"
  jw_started :: bool
  jw_done :: bool
  jw_lastWrite :: time

definition NewJSONKeepaliveWriter :: "bool \<Rightarrow> JSONKeepaliveWriter option" where
  "NewJSONKeepaliveWriter flusher =
     (if flusher then Some \<lparr>jw_calls = [], jw_started = False, jw_done = False, jw_lastWrite = 0\<rparr> else None)"

definition startUnlocked :: "time \<Rightarrow> JSONKeepaliveWriter \<Rightarrow> JSONKeepaliveWriter" where
  "startUnlocked now w =
     (if jw_started w then w
      else w\<lparr>jw_calls := jw_calls w @
               [SetHeader ''Content-Type'' ''application/json'', SetHeader ''Cache-Control'' ''no-cache'',
                SetHeader ''X-Accel-Buffering'' ''no'', WriteHeader 200],
             jw_started := True, jw_lastWrite := now\<rparr>)"

definition json_SendKeepalive :: "duration \<Rightarrow> bool \<Rightarrow> time \<Rightarrow> JSONKeepaliveWriter \<Rightarrow> JSONKeepaliveWriter \<times> bool" where
  "json_SendKeepalive idleThreshold ok now w =
     (if jw_done w then (w, True)
      else if jw_started w \<and> go_sub now (jw_lastWrite w) < idleThreshold then (w, True)
      else if \<not> jw_started w then (startUnlocked now w, True)
      else if \<not> ok then (w, False)
      else (w\<lparr>jw_calls := jw_calls w @ [Write '' '', Flush], jw_lastWrite := now\<rparr>, True))"

definition Commit :: "string \<Rightarrow> bool \<Rightarrow> JSONKeepaliveWriter \<Rightarrow> JSONKeepaliveWriter \<times> bool" where
  "Commit body ok w =
     (if jw_done w then (w, True)
      else
        let w = w\<lparr>jw_done := True\<rparr>;
            w = (if \<not> jw_started w
                 then w\<lparr>jw_calls := jw_calls w @
                          [SetHeader ''Content-Type'' ''application/json'',
                           SetHeader ''Content-Length'' (show_int (int (length body))), WriteHeader 200],
                        jw_started := True\<rparr>
                 else w)
        in if \<not> ok then (w, False) else (w\<lparr>jw_calls := jw_calls w @ [Write body, Flush]\<rparr>, True))"

definition json_Close :: "JSONKeepaliveWriter \<Rightarrow> JSONKeepaliveWriter" where
  "json_Close w = w\<lparr>jw_done := True\<rparr>"

section \<open>Heartbeats\<close>

definition DefaultHeartbeatInterval :: duration where "DefaultHeartbeatInterval = 20 * second"
definition DefaultHeartbeatIdleThreshold :: duration where "DefaultHeartbeatIdleThreshold = 15 * second"
definition DefaultJSONKeepaliveGrace :: duration where "DefaultJSONKeepaliveGrace = 30 * second"

text \<open>
  The loops of the heartbeat goroutines, as the ticks that they get: a tick with what the write answers, or the
  end of the request. The rest of the handler runs between the ticks: \<open>others\<close>.
\<close>

datatype tick = Tick time bool | Cancelled

fun RunSSEHeartbeat :: "string \<Rightarrow> duration \<Rightarrow> (tick \<times> (SSEWriter \<Rightarrow> SSEWriter)) list \<Rightarrow> SSEWriter \<Rightarrow> SSEWriter" where
  "RunSSEHeartbeat chunkSSE idleThreshold [] w = w"
| "RunSSEHeartbeat chunkSSE idleThreshold ((Cancelled, others) # ts) w = others w"
| "RunSSEHeartbeat chunkSSE idleThreshold ((Tick now ok, others) # ts) w =
     (case sse_SendKeepalive chunkSSE idleThreshold ok now (others w) of
        (w, True) \<Rightarrow> RunSSEHeartbeat chunkSSE idleThreshold ts w
      | (w, False) \<Rightarrow> w)"

text \<open>The first tick is the end of the grace period.\<close>

fun RunJSONHeartbeat ::
  "duration \<Rightarrow> (tick \<times> (JSONKeepaliveWriter \<Rightarrow> JSONKeepaliveWriter)) list \<Rightarrow> JSONKeepaliveWriter \<Rightarrow> JSONKeepaliveWriter" where
  "RunJSONHeartbeat idleThreshold [] w = w"
| "RunJSONHeartbeat idleThreshold ((Cancelled, others) # ts) w = others w"
| "RunJSONHeartbeat idleThreshold ((Tick now ok, others) # ts) w =
     (case json_SendKeepalive idleThreshold ok now (others w) of
        (w, True) \<Rightarrow> RunJSONHeartbeat idleThreshold ts w
      | (w, False) \<Rightarrow> w)"

text \<open>\<open>quoted\<close> is the model's name as \<open>%q\<close> prints it.\<close>

definition BuildOpenAIHeartbeatChunk :: "string \<Rightarrow> string \<Rightarrow> int \<Rightarrow> string" where
  "BuildOpenAIHeartbeatChunk chunkID quoted created =
     ''data: {\"id\":\"'' @ chunkID @ ''\",\"object\":\"chat.completion.chunk\",\"created\":'' @ show_int created @
     '',\"model\":'' @ quoted @ '',\"choices\":[{\"index\":0,\"delta\":{},\"finish_reason\":null}]}'' @ [LF, LF]"

definition BuildCodexHeartbeatEvent :: string where
  "BuildCodexHeartbeatEvent =
     ''event: response.in_progress'' @ [LF] @ ''data: {\"type\":\"response.in_progress\"}'' @ [LF, LF]"

datatype KeepaliveMode = KeepaliveModeOpenAI | KeepaliveModeCodex

text \<open>
  What the handler gets: a writer for the stream with the chunk of its heartbeat, a writer for a JSON answer, or
  nothing after an answer 500.
\<close>

datatype keepalive = StreamKA SSEWriter string | JsonKA JSONKeepaliveWriter | Unsupported string

definition SetupKeepalive ::
  "bool \<Rightarrow> bool \<Rightarrow> KeepaliveMode \<Rightarrow> string \<Rightarrow> string \<Rightarrow> int \<Rightarrow> time \<Rightarrow> keepalive" where
  "SetupKeepalive flusher isStream mode chunkID quoted created now =
     (if isStream
      then (case NewSSEWriter flusher now of
              None \<Rightarrow> Unsupported ''streaming not supported''
            | Some w \<Rightarrow>
                StreamKA
                  (w\<lparr>sw_calls := sw_calls w @
                       [SetHeader ''Content-Type'' ''text/event-stream'', SetHeader ''Cache-Control'' ''no-cache'',
                        SetHeader ''Connection'' ''keep-alive'', SetHeader ''X-Accel-Buffering'' ''no'']\<rparr>)
                  (case mode of KeepaliveModeCodex \<Rightarrow> BuildCodexHeartbeatEvent
                              | KeepaliveModeOpenAI \<Rightarrow> BuildOpenAIHeartbeatChunk chunkID quoted created))
      else (case NewJSONKeepaliveWriter flusher of
              None \<Rightarrow> Unsupported ''response writer not flushable''
            | Some w \<Rightarrow> JsonKA w))"

section \<open>Errors\<close>

text \<open>
  An answer that gin writes in full: status, the header \<open>Retry-After\<close>, and a body that is given as JSON or as bytes.
  \<open>sse\<close> and \<open>json\<close> are the writers, \<open>None\<close> where the code has nil; the error of a write is dropped.
\<close>

datatype full_body = AsJson json | AsBytes string

record full_answer =
  fa_status :: int
  fa_retry_after :: "int option"
  fa_body :: full_body

definition error_object :: "string \<Rightarrow> string \<Rightarrow> json" where
  "error_object message errType = JObj [(''error'', JObj [(''message'', JStr message), (''type'', JStr errType)])]"

definition done_line :: string where
  "done_line = ''data: [DONE]'' @ [LF, LF]"

definition sse_error :: "string \<Rightarrow> bool \<Rightarrow> bool \<Rightarrow> time \<Rightarrow> SSEWriter \<Rightarrow> SSEWriter" where
  "sse_error body ok1 ok2 now w = fst (WriteRaw done_line ok2 now (fst (WriteEvent body ok1 now w)))"

text \<open>\<open>quote\<close> is \<open>%q\<close>.\<close>

definition WriteErrorKA ::
  "(string \<Rightarrow> string) \<Rightarrow> int \<Rightarrow> string \<Rightarrow> string \<Rightarrow> bool \<Rightarrow> bool \<Rightarrow> time \<Rightarrow>
   SSEWriter option \<Rightarrow> JSONKeepaliveWriter option \<Rightarrow>
   SSEWriter option \<times> JSONKeepaliveWriter option \<times> full_answer option" where
  "WriteErrorKA quote status message errType ok1 ok2 now sse json =
     (let errJSON = ''{\"error\":{\"message\":'' @ quote message @ '',\"type\":'' @ quote errType @ ''}}''
      in case sse of
           Some w \<Rightarrow> (Some (sse_error errJSON ok1 ok2 now w), json, None)
         | None \<Rightarrow>
             (case json of
                Some w \<Rightarrow>
                  if jw_started w then (None, Some (fst (Commit errJSON ok1 w)), None)
                  else (None, json, Some \<lparr>fa_status = status, fa_retry_after = None, fa_body = AsJson (error_object message errType)\<rparr>)
              | None \<Rightarrow>
                  (None, None, Some \<lparr>fa_status = status, fa_retry_after = None, fa_body = AsJson (error_object message errType)\<rparr>)))"

definition upstream_status_error :: "int \<Rightarrow> string" where
  "upstream_status_error status =
     ''{\"error\":{\"message\":\"upstream error status '' @ show_int status @ ''\",\"type\":\"upstream_error\"}}''"

definition WriteUpstreamErrorKA ::
  "int \<Rightarrow> string \<Rightarrow> bool \<Rightarrow> time \<Rightarrow> SSEWriter option \<Rightarrow> JSONKeepaliveWriter option \<Rightarrow>
   SSEWriter option \<times> JSONKeepaliveWriter option \<times> full_answer option" where
  "WriteUpstreamErrorKA status upstreamBody ok now sse json =
     (let full = (if upstreamBody \<noteq> []
                  then \<lparr>fa_status = status, fa_retry_after = None, fa_body = AsBytes upstreamBody\<rparr>
                  else \<lparr>fa_status = status, fa_retry_after = None,
                         fa_body = AsJson (error_object (''upstream error status '' @ show_int status) ''upstream_error'')\<rparr>)
      in case sse of
           Some w \<Rightarrow> (Some (fst (WriteRaw done_line ok now w)), json, None)
         | None \<Rightarrow>
             (case json of
                Some w \<Rightarrow>
                  if jw_started w
                  then (None, Some (fst (Commit (if upstreamBody = [] then upstream_status_error status else upstreamBody) ok w)), None)
                  else (None, json, Some full)
              | None \<Rightarrow> (None, None, Some full)))"

section \<open>The final error of a request\<close>

text \<open>The text of the code, in UTF-8: that the quota of the pool is used up, and that the upstream answered an error.\<close>

definition quota_used_up :: string where
  "quota_used_up =
     [CHR 0xE8, CHR 0xB4, CHR 0xA6, CHR 0xE5, CHR 0x8F, CHR 0xB7, CHR 0xE6, CHR 0xB1, CHR 0xA0, CHR 0xE9, CHR 0xA2,
      CHR 0x9D, CHR 0xE5, CHR 0xBA, CHR 0xA6, CHR 0xE5, CHR 0xB7, CHR 0xB2, CHR 0xE8, CHR 0x80, CHR 0x97, CHR 0xE5,
      CHR 0xB0, CHR 0xBD, CHR 0xEF, CHR 0xBC, CHR 0x8C, CHR 0xE8, CHR 0xAF, CHR 0xB7, CHR 0xE7, CHR 0xA8, CHR 0x8D,
      CHR 0xE5, CHR 0x90, CHR 0x8E, CHR 0xE9, CHR 0x87, CHR 0x8D, CHR 0xE8, CHR 0xAF, CHR 0x95]"

definition wide_colon :: string where "wide_colon = [CHR 0xEF, CHR 0xBC, CHR 0x9A]"

definition upstream_returned_error :: string where
  "upstream_returned_error =
     [CHR 0xE4, CHR 0xB8, CHR 0x8A, CHR 0xE6, CHR 0xB8, CHR 0xB8, CHR 0xE8, CHR 0xBF, CHR 0x94, CHR 0xE5, CHR 0x9B,
      CHR 0x9E, CHR 0xE9, CHR 0x94, CHR 0x99, CHR 0xE8, CHR 0xAF, CHR 0xAF]"

definition usage_limit_body :: "usageLimitDetails \<Rightarrow> json" where
  "usage_limit_body details =
     JObj [(''error'', JObj
       ([(''message'', JStr (if ul_message details \<noteq> [] then quota_used_up @ wide_colon @ ul_message details else quota_used_up)),
         (''type'', JStr ''server_error''), (''code'', JStr ''account_pool_usage_limit_reached'')] @
        (if ul_planType details \<noteq> [] then [(''plan_type'', JStr (ul_planType details))] else []) @
        (if ul_resetsAt details \<noteq> 0 then [(''resets_at'', JNum (of_int (ul_resetsAt details)))] else []) @
        (if ul_resetsInSeconds details \<noteq> 0 then [(''resets_in_seconds'', JNum (of_int (ul_resetsInSeconds details)))] else [])))]"

definition sendUpstreamError :: "int \<Rightarrow> upstream_body \<Rightarrow> full_answer" where
  "sendUpstreamError statusCode body =
     \<lparr>fa_status = statusCode, fa_retry_after = None,
      fa_body = AsJson (JObj [(''error'', JObj
        [(''message'', JStr (upstream_returned_error @ '' (status '' @ show_int statusCode @ ''): '' @ ub_raw body)),
         (''type'', JStr ''upstream_error''), (''code'', JStr (''upstream_'' @ show_int statusCode))])])\<rparr>"

definition usage_limit :: "int \<Rightarrow> upstream_body \<Rightarrow> usageLimitDetails option" where
  "usage_limit statusCode body = (if statusCode = 429 then parseUsageLimitDetails body else None)"

definition sendFinalUpstreamError :: "int \<Rightarrow> upstream_body \<Rightarrow> full_answer" where
  "sendFinalUpstreamError statusCode body =
     (case usage_limit statusCode body of
        Some details \<Rightarrow>
          \<lparr>fa_status = 503,
           fa_retry_after = (if ul_resetsInSeconds details > 0 then Some (ul_resetsInSeconds details) else None),
           fa_body = AsJson (usage_limit_body details)\<rparr>
      | None \<Rightarrow> sendUpstreamError statusCode body)"

text \<open>\<open>marshal\<close> and \<open>valid\<close> are \<open>json.Marshal\<close> and \<open>json.Valid\<close>.\<close>

definition final_body :: "(json \<Rightarrow> string) \<Rightarrow> (string \<Rightarrow> bool) \<Rightarrow> int \<Rightarrow> upstream_body \<Rightarrow> string" where
  "final_body marshal valid statusCode body =
     (case usage_limit statusCode body of
        Some details \<Rightarrow> marshal (usage_limit_body details)
      | None \<Rightarrow>
          if ub_raw body \<noteq> [] \<and> valid (ub_raw body) then ub_raw body
          else marshal (error_object (''upstream error status '' @ show_int statusCode @ '': '' @ ub_raw body) ''upstream_error''))"

definition sendFinalUpstreamErrorKA ::
  "(json \<Rightarrow> string) \<Rightarrow> (string \<Rightarrow> bool) \<Rightarrow> int \<Rightarrow> upstream_body \<Rightarrow> bool \<Rightarrow> bool \<Rightarrow> time \<Rightarrow>
   SSEWriter option \<Rightarrow> JSONKeepaliveWriter option \<Rightarrow>
   SSEWriter option \<times> JSONKeepaliveWriter option \<times> full_answer option" where
  "sendFinalUpstreamErrorKA marshal valid statusCode body ok1 ok2 now sse json =
     (case (sse, json) of
        (Some w, _) \<Rightarrow> (Some (sse_error (final_body marshal valid statusCode body) ok1 ok2 now w), json, None)
      | (None, Some w) \<Rightarrow>
          if jw_started w then (None, Some (fst (Commit (final_body marshal valid statusCode body) ok1 w)), None)
          else (None, json, Some (sendFinalUpstreamError statusCode body))
      | (None, None) \<Rightarrow> (None, None, Some (sendFinalUpstreamError statusCode body)))"

end
