(* ===== verification/KeepaliveLaws.thy ===== *)
theory KeepaliveLaws
  imports Keepalive WsRelayLaws
begin

text \<open>
  What the client gets although two goroutines write: one JSON body after blanks, events that no heartbeat splits, and
  something at least every 35 seconds.
\<close>

section \<open>JSON answers\<close>

datatype json_op = Blank duration bool time | Commits string bool | Closes

fun json_do :: "json_op \<Rightarrow> JSONKeepaliveWriter \<Rightarrow> JSONKeepaliveWriter" where
  "json_do (Blank idle ok now) w = fst (json_SendKeepalive idle ok now w)"
| "json_do (Commits body ok) w = fst (Commit body ok w)"
| "json_do Closes w = json_Close w"

abbreviation fresh_json :: JSONKeepaliveWriter where
  "fresh_json \<equiv> \<lparr>jw_calls = [], jw_started = False, jw_done = False, jw_lastWrite = 0\<rparr>"

fun is_header :: "rw_call \<Rightarrow> bool" where
  "is_header (SetHeader k v) = True"
| "is_header _ = False"

fun is_status :: "rw_call \<Rightarrow> bool" where
  "is_status (WriteHeader n) = True"
| "is_status _ = False"

fun lengths_sent :: "rw_call list \<Rightarrow> string list" where
  "lengths_sent [] = []"
| "lengths_sent (SetHeader k v # cs) = (if k = ''Content-Length'' then [v] else []) @ lengths_sent cs"
| "lengths_sent (_ # cs) = lengths_sent cs"

definition blanks :: "nat \<Rightarrow> rw_call list" where
  "blanks n = concat (replicate n [Write '' '', Flush])"

lemma blanks_Suc: "blanks (Suc n) = blanks n @ [Write '' '', Flush]"
  by (induction n) (simp_all add: blanks_def)

lemma bytes_append: "bytes_of (a @ b) = bytes_of a @ bytes_of b"
  by (induction a rule: bytes_of.induct) simp_all

lemma lengths_append: "lengths_sent (a @ b) = lengths_sent a @ lengths_sent b"
  by (induction a rule: lengths_sent.induct) simp_all

lemma blanks_simps:
  "bytes_of (blanks n) = replicate n CHR '' ''" "lengths_sent (blanks n) = []" "filter is_status (blanks n) = []"
  by (induction n) (simp_all add: blanks_def)

definition start_calls :: "rw_call list" where
  "start_calls = [SetHeader ''Content-Type'' ''application/json'', SetHeader ''Cache-Control'' ''no-cache'',
     SetHeader ''X-Accel-Buffering'' ''no'', WriteHeader 200]"

text \<open>Before the body: nothing, or the header and some blanks.\<close>

definition waiting :: "nat \<Rightarrow> JSONKeepaliveWriter \<Rightarrow> bool" where
  "waiting k w \<longleftrightarrow> \<not> jw_done w \<and>
     (if jw_started w then \<exists>n \<le> k. jw_calls w = start_calls @ blanks n else jw_calls w = [])"

lemma blank_keeps_waiting: "waiting k w \<Longrightarrow> waiting (Suc k) (fst (json_SendKeepalive idle ok now w))"
proof -
  have "blanks 0 = []" by (simp add: blanks_def)
  moreover assume "waiting k w"
  ultimately show ?thesis
    by (auto simp: waiting_def json_SendKeepalive_def startUnlocked_def start_calls_def simp flip: blanks_Suc
        intro: exI[of _ "Suc _"] split: if_splits) (use le_SucI in blast)+
qed

lemma blanks_keep_waiting:
  "waiting k w \<Longrightarrow> waiting (k + length beats) (fold (\<lambda>(idle, ok, now). json_do (Blank idle ok now)) beats w)"
proof (induction beats arbitrary: k w)
  case (Cons b beats)
  obtain idle ok now where "b = (idle, ok, now)" by (metis prod_cases3)
  with Cons.IH[of "Suc k" "json_do (Blank idle ok now) w"] blank_keeps_waiting[OF Cons.prems] show ?case by simp
qed simp

lemma done_stays: "jw_done w \<Longrightarrow> fold json_do ops w = w"
proof (induction ops)
  case (Cons op ops)
  then have "json_do op w = w" by (cases op; cases w) (simp_all add: json_SendKeepalive_def Commit_def json_Close_def)
  with Cons show ?case by simp
qed simp

text \<open>
  Whatever heartbeats come before, and whatever is tried afterwards: the client gets status 200 once, ahead of all bytes,
  then blanks, then the body once and nothing more; a length is announced only if there are no blanks, and it is right.
\<close>

theorem json_client_reads_one_body:
  "\<exists>n \<le> length beats.
     let w = fold json_do (map (\<lambda>(idle, ok, now). Blank idle ok now) beats @ Commits body True # ops) fresh_json
     in bytes_of (jw_calls w) = replicate n CHR '' '' @ body \<and>
        filter (\<lambda>c. \<not> is_header c) (jw_calls w) ! 0 = WriteHeader 200 \<and>
        filter is_status (jw_calls w) = [WriteHeader 200] \<and>
        (lengths_sent (jw_calls w) = [] \<or> lengths_sent (jw_calls w) = [show_int (int (length body))] \<and> n = 0)"
proof -
  define w1 where "w1 = fold json_do (map (\<lambda>(idle, ok, now). Blank idle ok now) beats) fresh_json"
  have "w1 = fold (\<lambda>(idle, ok, now). json_do (Blank idle ok now)) beats fresh_json"
    by (simp add: w1_def fold_map comp_def case_prod_unfold)
  then have w: "waiting (length beats) w1" using blanks_keep_waiting[of 0 fresh_json beats] by (simp add: waiting_def)
  define w2 where "w2 = json_do (Commits body True) w1"
  have "jw_done w2" by (simp add: w2_def Commit_def Let_def)
  then have e: "fold json_do (map (\<lambda>(idle, ok, now). Blank idle ok now) beats @ Commits body True # ops) fresh_json = w2"
    by (simp add: w1_def[symmetric] w2_def[symmetric] done_stays del: json_do.simps)
  show ?thesis
  proof (cases "jw_started w1")
    case True
    then obtain n where n: "n \<le> length beats" "jw_calls w1 = start_calls @ blanks n" using w by (auto simp: waiting_def)
    then have "jw_calls w2 = start_calls @ blanks n @ [Write body, Flush]"
      using w True by (simp add: w2_def Commit_def waiting_def)
    then show ?thesis
      unfolding e using n(1) by (auto simp: start_calls_def bytes_append lengths_append blanks_simps intro!: exI[of _ n])
  next
    case False
    then have "jw_calls w2 = [SetHeader ''Content-Type'' ''application/json'',
        SetHeader ''Content-Length'' (show_int (int (length body))), WriteHeader 200, Write body, Flush]"
      using w by (simp add: w2_def Commit_def waiting_def)
    then show ?thesis unfolding e by (auto intro!: exI[of _ 0])
  qed
qed

text \<open>The first heartbeat of a JSON answer sends no byte and flushes nothing; the second one does.\<close>

lemma first_beat_sends_nothing:
  "filter (\<lambda>c. \<not> is_header c) (jw_calls (json_do (Blank idle ok now) fresh_json)) = [WriteHeader 200]"
  by (simp add: json_SendKeepalive_def startUnlocked_def)

section \<open>Streams\<close>

text \<open>What is written to a stream whose writes succeed: events and heartbeats, each at its time, and the end.\<close>

datatype sse_op = Event string time | Beats time | Ends

fun sse_do :: "string \<Rightarrow> duration \<Rightarrow> sse_op \<Rightarrow> SSEWriter \<Rightarrow> SSEWriter" where
  "sse_do chunk idle (Event payload now) w = fst (WriteEvent payload True now w)"
| "sse_do chunk idle (Beats now) w = fst (sse_SendKeepalive chunk idle True now w)"
| "sse_do chunk idle Ends w = sse_Close w"

fun payloads :: "sse_op list \<Rightarrow> string list" where
  "payloads [] = []"
| "payloads (Event payload now # ops) = payload # payloads ops"
| "payloads (Beats now # ops) = payloads ops"
| "payloads (Ends # ops) = []"

definition heartbeat_payload :: "KeepaliveMode \<Rightarrow> string \<Rightarrow> string \<Rightarrow> int \<Rightarrow> string" where
  "heartbeat_payload mode chunkID quoted created =
     (case mode of
        KeepaliveModeCodex \<Rightarrow> ''{\"type\":\"response.in_progress\"}''
      | KeepaliveModeOpenAI \<Rightarrow>
          ''{\"id\":\"'' @ chunkID @ ''\",\"object\":\"chat.completion.chunk\",\"created\":'' @ show_int created @
          '',\"model\":'' @ quoted @ '',\"choices\":[{\"index\":0,\"delta\":{},\"finish_reason\":null}]}'')"

text \<open>What a chunk means to the reader of a stream, wherever it stands between two events.\<close>

definition chunk_reads_as :: "string \<Rightarrow> string \<Rightarrow> bool" where
  "chunk_reads_as chunk hb \<longleftrightarrow> (\<forall>rest st. sse_data st = [] \<longrightarrow>
     read_lines (\<lambda>_. True) (chunk @ rest) st = read_lines (\<lambda>_. True) rest (st\<lparr>sse_out := sse_out st @ [hb]\<rparr>))"

lemma event_reads_as: "plain_event [p] \<Longrightarrow> chunk_reads_as (sse_event [p]) p"
  using read_event[of "[p]"] by (simp add: chunk_reads_as_def)

lemma written_event: "''data: '' @ p @ [LF, LF] = sse_event [p]"
  by (simp add: sse_event_def data_line_def)

lemma codex_chunk_reads: "chunk_reads_as BuildCodexHeartbeatEvent ''{\"type\":\"response.in_progress\"}''"
proof -
  have p: "plain_event [''{\"type\":\"response.in_progress\"}'']"
    by (simp add: plain_event_def plain_line_def LF_def CR_def)
  have "read_lines w (''event: response.in_progress'' @ LF # rest) st = read_lines w rest st" for w rest st
    using read_lines_line[of "''event: response.in_progress''" w rest st]
    by (simp add: read_line_def add_data_def data_of_line_def trim_cr_def LF_def CR_def)
  then show ?thesis
    using event_reads_as[OF p]
    by (simp add: chunk_reads_as_def BuildCodexHeartbeatEvent_def sse_event_def data_line_def)
qed

lemma openai_chunk_reads:
  assumes "LF \<notin> set chunkID" "LF \<notin> set quoted"
  shows "chunk_reads_as (BuildOpenAIHeartbeatChunk chunkID quoted created)
           (heartbeat_payload KeepaliveModeOpenAI chunkID quoted created)"
proof -
  have "LF \<notin> set (show_int created)"
    using decimal_props[of "nat created"] decimal_props[of "nat (- created)"] by (auto simp: show_int_def LF_def)
  then have p: "plain_event [heartbeat_payload KeepaliveModeOpenAI chunkID quoted created]"
    using assms by (simp add: plain_event_def plain_line_def heartbeat_payload_def LF_def CR_def)
  have "BuildOpenAIHeartbeatChunk chunkID quoted created =
      sse_event [heartbeat_payload KeepaliveModeOpenAI chunkID quoted created]"
    by (simp add: BuildOpenAIHeartbeatChunk_def heartbeat_payload_def sse_event_def data_line_def)
  with event_reads_as[OF p] show ?thesis by simp
qed

text \<open>The bytes of a stream of events and heartbeats read as these events and some heartbeats.\<close>

lemma stream_reads:
  assumes "chunk_reads_as chunk hb" "list_all (\<lambda>p. plain_event [p] \<and> p \<noteq> hb) (payloads ops)" "\<not> sw_done w"
  shows "\<exists>evs bs. bytes_of (sw_calls (fold (sse_do chunk idle) ops w)) = bytes_of (sw_calls w) @ bs \<and>
           filter (\<lambda>e. e \<noteq> hb) evs = payloads ops \<and>
           (\<forall>rest st. sse_data st = [] \<longrightarrow>
              read_lines (\<lambda>_. True) (bs @ rest) st = read_lines (\<lambda>_. True) rest (st\<lparr>sse_out := sse_out st @ evs\<rparr>))"
  using assms(2,3)
proof (induction ops arbitrary: w)
  case Nil
  show ?case by (auto intro!: exI[of _ "[]"])
next
  case (Cons op ops)
  have closed: "fold (sse_do chunk idle) ops w = w" if "sw_done w" for w
    using that
  proof (induction ops)
    case (Cons op ops)
    then have "sse_do chunk idle op w = w"
      by (cases op; cases w) (simp_all add: WriteEvent_def sse_SendKeepalive_def sse_Close_def)
    with Cons show ?case by simp
  qed simp
  show ?case
  proof (cases op)
    case (Event p now)
    have p: "chunk_reads_as (sse_event [p]) p" using Cons.prems Event event_reads_as by simp
    define w' where "w' = sse_do chunk idle op w"
    have w': "bytes_of (sw_calls w') = bytes_of (sw_calls w) @ sse_event [p]" "\<not> sw_done w'"
      using Cons.prems(2) by (simp_all add: w'_def Event WriteEvent_def sse_print_def bytes_append written_event[simplified])
    obtain evs bs where "bytes_of (sw_calls (fold (sse_do chunk idle) ops w')) = bytes_of (sw_calls w') @ bs"
        "filter (\<lambda>e. e \<noteq> hb) evs = payloads ops"
        "\<forall>rest st. sse_data st = [] \<longrightarrow>
           read_lines (\<lambda>_. True) (bs @ rest) st = read_lines (\<lambda>_. True) rest (st\<lparr>sse_out := sse_out st @ evs\<rparr>)"
      using Cons.IH[of w'] Cons.prems(1) w'(2) Event by auto
    then show ?thesis
      using p w' Cons.prems(1)
      by (intro exI[of _ "p # evs"] exI[of _ "sse_event [p] @ bs"]) (simp add: w'_def Event chunk_reads_as_def)
  next
    case (Beats now)
    define w' where "w' = sse_do chunk idle op w"
    have open_w: "\<not> sw_done w'" using Cons.prems(2) by (simp add: w'_def Beats sse_SendKeepalive_def sse_print_def)
    obtain evs bs where e: "bytes_of (sw_calls (fold (sse_do chunk idle) ops w')) = bytes_of (sw_calls w') @ bs"
        "filter (\<lambda>e. e \<noteq> hb) evs = payloads ops"
        "\<forall>rest st. sse_data st = [] \<longrightarrow>
           read_lines (\<lambda>_. True) (bs @ rest) st = read_lines (\<lambda>_. True) rest (st\<lparr>sse_out := sse_out st @ evs\<rparr>)"
      using Cons.IH[of w'] Cons.prems(1) open_w Beats by auto
    show ?thesis
    proof (cases "sw_calls w' = sw_calls w")
      case True
      with e show ?thesis by (intro exI[of _ evs] exI[of _ bs]) (simp add: w'_def Beats)
    next
      case False
      then have "bytes_of (sw_calls w') = bytes_of (sw_calls w) @ chunk"
        using Cons.prems(2) by (auto simp: w'_def Beats sse_SendKeepalive_def sse_print_def bytes_append split: if_splits)
      with e assms(1) show ?thesis
        by (intro exI[of _ "hb # evs"] exI[of _ "chunk @ bs"]) (simp add: w'_def Beats chunk_reads_as_def)
    qed
  next
    case Ends
    then show ?thesis using closed[of "sse_Close w"] by (auto simp: sse_Close_def intro!: exI[of _ "[]"])
  qed
qed

lemma setup_chunk:
  assumes "SetupKeepalive flusher True mode chunkID quoted created now = StreamKA w chunk"
    and "LF \<notin> set chunkID" "LF \<notin> set quoted"
  shows "chunk_reads_as chunk (heartbeat_payload mode chunkID quoted created)" "\<not> sw_done w" "bytes_of (sw_calls w) = []"
    "sw_lastWrite w = now"
  using assms codex_chunk_reads openai_chunk_reads[OF assms(2,3)]
  by (auto simp: SetupKeepalive_def NewSSEWriter_def heartbeat_payload_def split: if_splits KeepaliveMode.splits)


section \<open>How long the client waits\<close>

text \<open>
  Operations in the order of time, with a heartbeat at most every \<open>DefaultHeartbeatInterval\<close>; \<open>beat\<close> is the last one.
\<close>

fun ticking :: "time \<Rightarrow> time \<Rightarrow> sse_op list \<Rightarrow> bool" where
  "ticking beat now [] = True"
| "ticking beat now (Event p t # ops) = (now \<le> t \<and> t \<le> beat + DefaultHeartbeatInterval \<and> ticking beat t ops)"
| "ticking beat now (Beats t # ops) = (now \<le> t \<and> t \<le> beat + DefaultHeartbeatInterval \<and> ticking t t ops)"
| "ticking beat now (Ends # ops) = True"

text \<open>The time since the last write, at every operation until the end.\<close>

fun waits :: "string \<Rightarrow> SSEWriter \<Rightarrow> sse_op list \<Rightarrow> duration list" where
  "waits chunk w [] = []"
| "waits chunk w (Event p t # ops) =
     (t - sw_lastWrite w) # waits chunk (sse_do chunk DefaultHeartbeatIdleThreshold (Event p t) w) ops"
| "waits chunk w (Beats t # ops) =
     (t - sw_lastWrite w) # waits chunk (sse_do chunk DefaultHeartbeatIdleThreshold (Beats t) w) ops"
| "waits chunk w (Ends # ops) = []"

lemma waits_bound:
  "ticking beat now ops \<Longrightarrow> \<not> sw_done w \<Longrightarrow> sw_lastWrite w \<le> now \<Longrightarrow> beat - DefaultHeartbeatIdleThreshold < sw_lastWrite w \<Longrightarrow>
     list_all (\<lambda>d. 0 \<le> d \<and> d < 35 * second) (waits chunk w ops)"
proof (induction beat now ops arbitrary: w rule: ticking.induct)
  case (2 beat now p t ops)
  show ?case
    using 2(1)[of "sse_do chunk DefaultHeartbeatIdleThreshold (Event p t) w"] 2(2-)
    by (simp add: WriteEvent_def sse_print_def DefaultHeartbeatInterval_def DefaultHeartbeatIdleThreshold_def)
next
  case (3 beat now t ops)
  show ?case
    using 3(1)[of "sse_do chunk DefaultHeartbeatIdleThreshold (Beats t) w"] 3(2-)
    by (auto simp: sse_SendKeepalive_def sse_print_def go_sub_less_iff DefaultHeartbeatInterval_def DefaultHeartbeatIdleThreshold_def)
qed simp_all

text \<open>
  As long as the heartbeat ticks, less than 35 seconds pass between two writes to a stream, and between the last
  write and whatever the handler does next.
\<close>

theorem client_never_waits_long:
  assumes "SetupKeepalive True True mode chunkID quoted created now = StreamKA w chunk" "ticking now now ops"
  shows "list_all (\<lambda>d. 0 \<le> d \<and> d < 35 * second) (waits chunk w ops)"
proof (rule waits_bound[OF assms(2)])
  show "\<not> sw_done w" "sw_lastWrite w \<le> now" "now - DefaultHeartbeatIdleThreshold < sw_lastWrite w"
    using assms(1) by (auto simp: SetupKeepalive_def NewSSEWriter_def DefaultHeartbeatIdleThreshold_def)
qed

abbreviation codex_stream :: SSEWriter where
  "codex_stream \<equiv> \<lparr>sw_calls =
     [SetHeader ''Content-Type'' ''text/event-stream'', SetHeader ''Cache-Control'' ''no-cache'',
      SetHeader ''Connection'' ''keep-alive'', SetHeader ''X-Accel-Buffering'' ''no''], sw_lastWrite = 0, sw_done = False\<rparr>"

lemma codex_setup: "SetupKeepalive True True KeepaliveModeCodex [] [] 0 0 = StreamKA codex_stream BuildCodexHeartbeatEvent"
  by (simp add: SetupKeepalive_def NewSSEWriter_def)

lemma client_never_waits_long_witness:
  "list_all (\<lambda>d. 0 \<le> d \<and> d < 35 * second)
     (waits BuildCodexHeartbeatEvent codex_stream [Event ''{}'' (6 * second), Beats (20 * second), Beats (40 * second)]) \<and>
   waits BuildCodexHeartbeatEvent codex_stream [Event ''{}'' (6 * second), Beats (20 * second), Beats (40 * second)] =
     [6 * second, 14 * second, 34 * second]"
  using client_never_waits_long[OF codex_setup, of "[Event ''{}'' (6 * second), Beats (20 * second), Beats (40 * second)]"]
  by (simp add: DefaultHeartbeatInterval_def WriteEvent_def sse_print_def sse_SendKeepalive_def
      DefaultHeartbeatIdleThreshold_def)


section \<open>Errors\<close>

text \<open>
  An error that ends a stream is the last event the client reads, in front of the end mark, however many events and
  heartbeats came before; nothing is left to be answered in another way.
\<close>

theorem stream_error_is_read:
  assumes "SetupKeepalive True True mode chunkID quoted created now = StreamKA w0 chunk"
    and "LF \<notin> set chunkID" "LF \<notin> set quoted"
    and "list_all (\<lambda>p. plain_event [p] \<and> p \<noteq> heartbeat_payload mode chunkID quoted created) (payloads ops)"
    and "\<not> sw_done (fold (sse_do chunk DefaultHeartbeatIdleThreshold) ops w0)"
    and "plain_event [final_body marshal valid statusCode body]"
    and "sendFinalUpstreamErrorKA marshal valid statusCode body True True t
           (Some (fold (sse_do chunk DefaultHeartbeatIdleThreshold) ops w0)) json = (Some w, json', rest)"
  shows "rest = None \<and> json' = json \<and>
    (\<exists>evs. ReadSSEStream (\<lambda>_. True) [AtEOF (bytes_of (sw_calls w))] = (evs @ [final_body marshal valid statusCode body], Finished) \<and>
       filter (\<lambda>e. e \<noteq> heartbeat_payload mode chunkID quoted created) evs = payloads ops)"
proof -
  define err where "err = final_body marshal valid statusCode body"
  note c = setup_chunk[OF assms(1-3)]
  obtain evs bs where bs: "bytes_of (sw_calls (fold (sse_do chunk DefaultHeartbeatIdleThreshold) ops w0)) = bs"
      "filter (\<lambda>e. e \<noteq> heartbeat_payload mode chunkID quoted created) evs = payloads ops"
      and r: "\<forall>rest st. sse_data st = [] \<longrightarrow>
         read_lines (\<lambda>_. True) (bs @ rest) st = read_lines (\<lambda>_. True) rest (st\<lparr>sse_out := sse_out st @ evs\<rparr>)"
    using stream_reads[OF c(1) assms(4) c(2), of DefaultHeartbeatIdleThreshold] c(3) by auto
  have e: "rest = None" "json' = json" "bytes_of (sw_calls w) = bs @ sse_event [err] @ sse_event [''[DONE]'']"
    using assms(5,7) bs(1)
    by (auto simp: sendFinalUpstreamErrorKA_def sse_error_def WriteEvent_def WriteRaw_def sse_print_def bytes_append
        err_def[symmetric] done_line_def sse_event_def data_line_def)
  have "chunk_reads_as (sse_event [err]) err" using event_reads_as assms(6) by (simp add: err_def)
  then have "read_lines (\<lambda>_. True) (bs @ sse_event [err] @ sse_event [''[DONE]'']) \<lparr>sse_data = [], sse_out = []\<rparr> =
      (None, \<lparr>sse_data = [], sse_out = evs @ [err]\<rparr>)"
    using r read_done[of "\<lparr>sse_data = [], sse_out = evs @ [err]\<rparr>" "\<lambda>_. True" "[]"] by (simp add: chunk_reads_as_def)
  with e bs(2) show ?thesis by (auto simp: ReadSSEStream_def err_def)
qed

definition plain_error_body :: upstream_body where
  "plain_error_body = \<lparr>ub_raw = ''{}'', ub_str = (\<lambda>_. []), ub_int = (\<lambda>_. 0)\<rparr>"

lemma stream_error_is_read_witness:
  "\<exists>w. sendFinalUpstreamErrorKA (\<lambda>_. []) (\<lambda>_. True) 500 plain_error_body True True 2
         (Some (fold (sse_do BuildCodexHeartbeatEvent DefaultHeartbeatIdleThreshold) [Event ''{1}'' 1] codex_stream)) None =
       (Some w, None, None) \<and>
     (\<exists>evs. ReadSSEStream (\<lambda>_. True) [AtEOF (bytes_of (sw_calls w))] = (evs @ [''{}''], Finished) \<and>
       filter (\<lambda>e. e \<noteq> heartbeat_payload KeepaliveModeCodex [] [] 0) evs = [''{1}''])"
proof -
  have p: "list_all (\<lambda>p. plain_event [p] \<and> p \<noteq> heartbeat_payload KeepaliveModeCodex [] [] 0) (payloads [Event ''{1}'' 1])"
    by (simp add: plain_event_def plain_line_def LF_def CR_def heartbeat_payload_def)
  have b: "final_body (\<lambda>_. []) (\<lambda>_. True) 500 plain_error_body = ''{}''"
    by (simp add: final_body_def usage_limit_def plain_error_body_def)
  have f: "plain_event [final_body (\<lambda>_. []) (\<lambda>_. True) 500 plain_error_body]"
    by (simp add: b plain_event_def plain_line_def LF_def CR_def)
  have n: "\<not> sw_done (fold (sse_do BuildCodexHeartbeatEvent DefaultHeartbeatIdleThreshold) [Event ''{1}'' 1] codex_stream)"
    by (simp add: WriteEvent_def sse_print_def)
  obtain w json' rest where s: "sendFinalUpstreamErrorKA (\<lambda>_. []) (\<lambda>_. True) 500 plain_error_body True True 2
         (Some (fold (sse_do BuildCodexHeartbeatEvent DefaultHeartbeatIdleThreshold) [Event ''{1}'' 1] codex_stream)) None =
       (Some w, json', rest)"
    by (simp add: sendFinalUpstreamErrorKA_def)
  from stream_error_is_read[OF codex_setup _ _ p n f s] s show ?thesis by (auto simp: b)
qed

text \<open>
  The two forms of the final error differ: an error body of the upstream that is valid JSON is passed on as it is
  in a stream, and wrapped with a code of the proxy in a plain answer.
\<close>

lemma final_bodies_differ:
  assumes "statusCode \<noteq> 429" "ub_raw body \<noteq> []" "valid (ub_raw body)"
  shows "final_body marshal valid statusCode body = ub_raw body"
    "fa_body (sendFinalUpstreamError statusCode body) =
       AsJson (JObj [(''error'', JObj
         [(''message'', JStr (upstream_returned_error @ '' (status '' @ show_int statusCode @ ''): '' @ ub_raw body)),
          (''type'', JStr ''upstream_error''), (''code'', JStr (''upstream_'' @ show_int statusCode))])])"
  using assms by (simp_all add: final_body_def sendFinalUpstreamError_def sendUpstreamError_def usage_limit_def)

end
