(* ===== verification/UpstreamClient.thy ===== *)
theory UpstreamClient
  imports DeviceProfile WsExecutor Dispatch
begin

text \<open>
  \<open>proxy/executor.go\<close>: the pool of HTTP clients, the request to the upstream and its errors (\<open>proxy/errors.go\<close>), the
  Resin gateway (\<open>proxy/resin.go\<close>), the proxy of a transport (\<open>auth/proxy_transport.go\<close>) and the header of a WebSocket
  handshake (\<open>proxy/wsrelay/executor.go\<close>). A client is a number; the exchange over it is an argument.
\<close>

section \<open>Errors\<close>

text \<open>
  The errors the code meets: its own type \<open>Error\<close>, an error that wraps another one, and others. The text of a
  wrapping error is what it prints.
\<close>

datatype go_error =
  PlainError string
| WrappedError string go_error
| APIError (err_Code: string) (err_Message: string) (err_Type: string) (err_Retryable: bool) (err_HTTPStatus: int)
    (err_Cause: "go_error option")

fun error_text :: "go_error \<Rightarrow> string" where
  "error_text (PlainError m) = m"
| "error_text (WrappedError m e) = m"
| "error_text (APIError code m ty r st None) = code @ '': '' @ m"
| "error_text (APIError code m ty r st (Some e)) = code @ '': '' @ m @ '' (caused by: '' @ error_text e @ '')''"

definition ErrMissingAPIKey :: go_error where
  "ErrMissingAPIKey = APIError ''missing_api_key'' ''Missing Authorization header'' ''authentication_error'' False 401 None"

definition ErrInvalidAPIKey :: go_error where
  "ErrInvalidAPIKey = APIError ''invalid_api_key'' ''Invalid API Key'' ''authentication_error'' False 401 None"

definition message_or :: "string \<Rightarrow> string \<Rightarrow> string" where
  "message_or message fallback = (if message = [] then fallback else message)"

definition ErrRateLimited :: "string \<Rightarrow> go_error" where
  "ErrRateLimited message =
     APIError ''rate_limited'' (message_or message ''Rate limit exceeded'') ''rate_limit_error'' True 429 None"

definition ErrAccountPoolUsageLimit :: "string \<Rightarrow> string \<Rightarrow> int \<Rightarrow> int \<Rightarrow> go_error" where
  "ErrAccountPoolUsageLimit message planType resetsAt resetsInSeconds =
     (let m = message_or message ''Account pool quota exhausted, please retry later'';
          m = (if planType \<noteq> [] then m @ '' (plan: '' @ planType @ '')'' else m);
          m = (if resetsInSeconds > 0 then m @ '', resets in '' @ show_int resetsInSeconds @ '' seconds'' else m)
      in APIError ''account_pool_usage_limit_reached'' m ''server_error'' True 503 None)"

definition ErrUpstream :: "int \<Rightarrow> string \<Rightarrow> go_error option \<Rightarrow> go_error" where
  "ErrUpstream statusCode message cause =
     APIError ''upstream_error'' (message_or message (''Upstream request failed (status '' @ show_int statusCode @ '')''))
       ''upstream_error'' (statusCode = 429 \<or> statusCode = 503 \<or> statusCode = 500) statusCode cause"

definition ErrUpstreamTimeout :: "go_error option \<Rightarrow> go_error" where
  "ErrUpstreamTimeout cause = APIError ''upstream_timeout'' ''Upstream request timeout'' ''upstream_error'' True 504 cause"

definition ErrUpstreamStreamBreak :: "string \<Rightarrow> go_error" where
  "ErrUpstreamStreamBreak message =
     APIError ''upstream_stream_break'' (message_or message ''Upstream stream ended prematurely'') ''upstream_error'' True 502 None"

definition ErrNoAvailableAccount :: go_error where
  "ErrNoAvailableAccount =
     APIError ''no_available_account'' ''No available account, please retry later'' ''server_error'' True 503 None"

definition ErrInternalError :: "string \<Rightarrow> go_error option \<Rightarrow> go_error" where
  "ErrInternalError message cause =
     APIError ''internal_error'' (message_or message ''Internal server error'') ''server_error'' False 500 cause"

definition ErrBadRequest :: "string \<Rightarrow> go_error" where
  "ErrBadRequest message = APIError ''bad_request'' (message_or message ''Invalid request'') ''invalid_request_error'' False 400 None"

definition ErrMissingModel :: go_error where
  "ErrMissingModel = APIError ''missing_model'' ''model is required'' ''invalid_request_error'' False 400 None"

text \<open>\<open>errors.As(err, &e)\<close>: the first error of type \<open>Error\<close> in the chain.\<close>

fun as_api_error :: "go_error \<Rightarrow> go_error option" where
  "as_api_error (PlainError m) = None"
| "as_api_error (WrappedError m e) = as_api_error e"
| "as_api_error (APIError code m ty r st c) = Some (APIError code m ty r st c)"

definition IsRetryableError :: "go_error option \<Rightarrow> bool" where
  "IsRetryableError err =
     (case err of None \<Rightarrow> False
      | Some e \<Rightarrow> (case as_api_error e of Some e \<Rightarrow> err_Retryable e | None \<Rightarrow> False))"

definition StatusCodeFromError :: "go_error option \<Rightarrow> int" where
  "StatusCodeFromError err =
     (case err of None \<Rightarrow> 200
      | Some e \<Rightarrow> (case as_api_error e of Some e \<Rightarrow> err_HTTPStatus e | None \<Rightarrow> 500))"

definition ToGinH :: "go_error \<Rightarrow> json" where
  "ToGinH e = JObj [(''error'', JObj
     [(''message'', JStr (err_Message e)), (''type'', JStr (err_Type e)), (''code'', JStr (err_Code e))])]"

definition ErrorToGinResponse :: "go_error option \<Rightarrow> (int \<times> json) option" where
  "ErrorToGinResponse err =
     (case err of None \<Rightarrow> None
      | Some e \<Rightarrow>
          (case as_api_error e of
             Some e \<Rightarrow> Some (err_HTTPStatus e, ToGinH e)
           | None \<Rightarrow>
               Some (500, JObj [(''error'', JObj
                 [(''message'', JStr (error_text e)), (''type'', JStr ''server_error''), (''code'', JStr ''internal_error'')])])))"

section \<open>The route of a transport\<close>

text \<open>\<open>parse\<close> is \<open>url.Parse\<close>: the scheme of the URL, or an error.\<close>

datatype route = Direct | ViaHTTP string | ViaSOCKS string

definition ConfigureTransportProxy :: "(string \<Rightarrow> string option) \<Rightarrow> string \<Rightarrow> route option" where
  "ConfigureTransportProxy parse rawProxyURL =
     (if trim_space rawProxyURL = [] then Some Direct
      else case parse rawProxyURL of
             None \<Rightarrow> None
           | Some scheme \<Rightarrow>
               let s = to_lower (trim_space scheme)
               in if s \<in> {''http'', ''https''} then Some (ViaHTTP rawProxyURL)
                  else if s \<in> {''socks5'', ''socks5h''} then Some (ViaSOCKS rawProxyURL)
                  else None)"

definition newCodexStandardTransport :: "(string \<Rightarrow> string option) \<Rightarrow> string \<Rightarrow> route" where
  "newCodexStandardTransport parse proxyURL =
     (case ConfigureTransportProxy parse proxyURL of Some r \<Rightarrow> r | None \<Rightarrow> Direct)"

section \<open>The pool of clients\<close>

record poolEntry =
  pe_client :: nat
  pe_lastUsed :: int

text \<open>Clients are numbered in the order in which they are made; \<open>cp_idled\<close> are those told to close their idle connections.\<close>

record client_pool =
  cp_entries :: "string \<rightharpoonup> poolEntry"
  cp_next :: nat
  cp_idled :: "nat list"

definition clientPoolTTL :: duration where "clientPoolTTL = 5 * minute"

definition codexTransportModeFromEnv :: "string \<Rightarrow> string" where
  "codexTransportModeFromEnv env =
     (let m = to_lower (trim_space env)
      in if m \<in> {[], ''standard'', ''go'', ''default''} then ''standard''
         else if m \<in> {''utls'', ''utls_chrome'', ''chrome''} then ''utls_chrome''
         else ''standard'')"

definition clientPoolKey :: "int \<Rightarrow> string \<Rightarrow> string \<Rightarrow> string" where
  "clientPoolKey accountID proxyURL transportMode =
     show_int accountID @ ''|'' @ trim_space proxyURL @ ''|'' @ transportMode"

definition resinPoolKey :: "int \<Rightarrow> string" where
  "resinPoolKey accountID = ''resin|'' @ show_int accountID"

text \<open>\<open>Load\<close> and, for a new client, \<open>LoadOrStore\<close> of the map; other goroutines may run in between.\<close>

definition touch :: "string \<Rightarrow> time \<Rightarrow> poolEntry \<Rightarrow> client_pool \<Rightarrow> client_pool" where
  "touch key now e p = p\<lparr>cp_entries := (cp_entries p)(key \<mapsto> e\<lparr>pe_lastUsed := unix_nano now\<rparr>)\<rparr>"

definition load_client :: "string \<Rightarrow> time \<Rightarrow> client_pool \<Rightarrow> client_pool \<times> nat option" where
  "load_client key now p =
     (case cp_entries p key of None \<Rightarrow> (p, None) | Some e \<Rightarrow> (touch key now e p, Some (pe_client e)))"

definition store_client :: "string \<Rightarrow> time \<Rightarrow> client_pool \<Rightarrow> client_pool \<times> nat" where
  "store_client key now p =
     (let c = cp_next p; p = p\<lparr>cp_next := Suc c\<rparr>
      in case cp_entries p key of
           Some e \<Rightarrow> (touch key now e p, pe_client e)
         | None \<Rightarrow> (touch key now \<lparr>pe_client = c, pe_lastUsed = 0\<rparr> p, c))"

definition pooled_client :: "string \<Rightarrow> time \<Rightarrow> (client_pool \<Rightarrow> client_pool) \<Rightarrow> client_pool \<Rightarrow> client_pool \<times> nat" where
  "pooled_client key now others p =
     (case load_client key now p of (p, Some c) \<Rightarrow> (p, c) | (p, None) \<Rightarrow> store_client key now (others p))"

definition getPooledClient ::
  "int \<Rightarrow> string \<Rightarrow> string \<Rightarrow> time \<Rightarrow> (client_pool \<Rightarrow> client_pool) \<Rightarrow> client_pool \<Rightarrow> client_pool \<times> nat" where
  "getPooledClient accountID proxyURL env now others p =
     pooled_client (clientPoolKey accountID proxyURL (codexTransportModeFromEnv env)) now others p"

definition getResinHTTPClient ::
  "int \<Rightarrow> time \<Rightarrow> (client_pool \<Rightarrow> client_pool) \<Rightarrow> client_pool \<Rightarrow> client_pool \<times> nat" where
  "getResinHTTPClient accountID now others p = pooled_client (resinPoolKey accountID) now others p"

text \<open>\<open>keys\<close> are the keys of the map in the order in which \<open>Range\<close> visits them.\<close>

definition evict_key :: "int \<Rightarrow> string \<Rightarrow> client_pool \<Rightarrow> client_pool" where
  "evict_key cutoff key p =
     (case cp_entries p key of
        None \<Rightarrow> p
      | Some e \<Rightarrow>
          if pe_lastUsed e < cutoff
          then p\<lparr>cp_entries := (cp_entries p)(key := None), cp_idled := cp_idled p @ [pe_client e]\<rparr> else p)"

definition evictExpiredClients :: "string list \<Rightarrow> time \<Rightarrow> client_pool \<Rightarrow> client_pool" where
  "evictExpiredClients keys now p = fold (evict_key (unix_nano (now - clientPoolTTL))) keys p"

definition shouldRecyclePooledClient :: "string option \<Rightarrow> bool" where
  "shouldRecyclePooledClient err =
     (case err of
        None \<Rightarrow> False
      | Some msg \<Rightarrow>
          contains (to_lower msg) ''connection is shutting down'' \<or> contains (to_lower msg) ''connection reset'' \<or>
          contains (to_lower msg) ''broken pipe'')"

definition recyclePooledClient :: "int \<Rightarrow> string \<Rightarrow> string \<Rightarrow> client_pool \<Rightarrow> client_pool" where
  "recyclePooledClient accountID proxyURL env p =
     (let key = clientPoolKey accountID proxyURL (codexTransportModeFromEnv env)
      in case cp_entries p key of
           None \<Rightarrow> p
         | Some e \<Rightarrow> p\<lparr>cp_entries := (cp_entries p)(key := None), cp_idled := cp_idled p @ [pe_client e]\<rparr>)"

section \<open>Resin\<close>

record ResinConfig =
  rc_BaseURL :: string
  rc_PlatformName :: string

definition SetResinConfig :: "ResinConfig option \<Rightarrow> ResinConfig option" where
  "SetResinConfig cfg =
     (case cfg of
        None \<Rightarrow> None
      | Some c \<Rightarrow> if trim_space (rc_BaseURL c) \<noteq> [] \<and> trim_space (rc_PlatformName c) \<noteq> [] then Some c else None)"

definition trim_slashes :: "string \<Rightarrow> string" where
  "trim_slashes s = rev (dropWhile (\<lambda>c. c = CHR ''/'') (rev s))"

text \<open>\<open>url.Parse\<close>: scheme, host, path and request URI.\<close>

record parsed_url =
  pu_Scheme :: string
  pu_Host :: string
  pu_Path :: string
  pu_RequestURI :: string

definition BuildReverseProxyURL :: "(string \<Rightarrow> parsed_url option) \<Rightarrow> ResinConfig option \<Rightarrow> string \<Rightarrow> string" where
  "BuildReverseProxyURL parse cfg targetURL =
     (case cfg of
        None \<Rightarrow> targetURL
      | Some c \<Rightarrow>
          (case parse targetURL of
             None \<Rightarrow> targetURL
           | Some u \<Rightarrow>
               trim_slashes (rc_BaseURL c) @ ''/'' @ rc_PlatformName c @ ''/'' @ pu_Scheme u @ ''/'' @ pu_Host u @ pu_RequestURI u))"

definition BuildWebSocketURL :: "(string \<Rightarrow> parsed_url option) \<Rightarrow> ResinConfig option \<Rightarrow> string \<Rightarrow> string" where
  "BuildWebSocketURL parse cfg targetURL =
     (case cfg of
        None \<Rightarrow> targetURL
      | Some c \<Rightarrow>
          (case (parse targetURL, parse (rc_BaseURL c)) of
             (Some u, Some r) \<Rightarrow>
               ''ws://'' @ pu_Host r @ pu_Path r @ ''/'' @ rc_PlatformName c @ ''/'' @
               (if pu_Scheme u = ''ws'' \<or> pu_Scheme u = ''http'' then ''http'' else ''https'') @ ''/'' @ pu_Host u @ pu_RequestURI u
           | _ \<Rightarrow> targetURL))"

section \<open>A request\<close>

definition CodexBaseURL :: string where "CodexBaseURL = ''https://chatgpt.com/backend-api/codex''"

definition prepare_body :: "fields \<Rightarrow> fields" where
  "prepare_body body =
     fold unset [''previous_response_id'', ''prompt_cache_retention'', ''safety_identifier'', ''disable_response_storage'']
       (if field body ''instructions'' = None then put ''instructions'' (JStr '''') body else body)"

definition with_cache_key :: "(json \<Rightarrow> string) \<Rightarrow> string \<Rightarrow> fields \<Rightarrow> fields \<times> string" where
  "with_cache_key text_of_value sessionID body =
     (if sessionID \<noteq> [] then (put ''prompt_cache_key'' (JStr sessionID) body, sessionID)
      else (body, trim_space (gjson_string text_of_value (field body ''prompt_cache_key''))))"

text \<open>
  The account as the request sees it, and what is sent. \<open>makes\<close> is the error of \<open>http.NewRequestWithContext\<close> at an
  endpoint, if there is one; \<open>exchange\<close> is what comes of a request, an error text or a status.
\<close>

record caller =
  ca_DBID :: int
  ca_AccountID :: string
  ca_AccessToken :: string
  ca_ProxyURL :: string

record outgoing =
  out_endpoint :: string
  out_header :: http_header
  out_body :: fields
  out_client :: nat

definition making_failed :: string where
  "making_failed = [CHR 0xE5, CHR 0x88, CHR 0x9B, CHR 0xE5, CHR 0xBB, CHR 0xBA, CHR 0xE8, CHR 0xAF, CHR 0xB7, CHR 0xE6,
     CHR 0xB1, CHR 0x82, CHR 0xE5, CHR 0xA4, CHR 0xB1, CHR 0xE8, CHR 0xB4, CHR 0xA5]"

definition request_failed :: string where
  "request_failed = [CHR 0xE8, CHR 0xAF, CHR 0xB7, CHR 0xE6, CHR 0xB1, CHR 0x82, CHR 0xE4, CHR 0xB8, CHR 0x8A, CHR 0xE6,
     CHR 0xB8, CHR 0xB8, CHR 0xE5, CHR 0xA4, CHR 0xB1, CHR 0xE8, CHR 0xB4, CHR 0xA5]"

text \<open>The endpoint, client and body of a request: the common part of \<open>ExecuteRequest\<close> and \<open>ExecuteCompactRequest\<close>.\<close>

definition outgoing_request ::
  "(json \<Rightarrow> string) \<Rightarrow> (string \<Rightarrow> parsed_url option) \<Rightarrow> ResinConfig option \<Rightarrow> string \<Rightarrow> string \<Rightarrow> caller \<Rightarrow> fields \<Rightarrow> string \<Rightarrow>
   string \<Rightarrow> deviceProfile \<Rightarrow> DeviceProfileConfig option \<Rightarrow> http_header \<Rightarrow> time \<Rightarrow> (client_pool \<Rightarrow> client_pool) \<Rightarrow>
   client_pool \<Rightarrow> client_pool \<times> outgoing" where
  "outgoing_request text_of_value parse resin env path a body sessionID proxyURL profile cfg headers now others p =
     (let (body, cacheKey) = with_cache_key text_of_value sessionID (prepare_body body);
          (p, c) = (if resin \<noteq> None then getResinHTTPClient (ca_DBID a) now others p
                    else getPooledClient (ca_DBID a) proxyURL env now others p);
          h = applyCodexRequestHeaders (ca_AccountID a) (ca_AccessToken a) cacheKey profile cfg headers Map.empty;
          h = (if resin \<noteq> None then h(''X-Resin-Account'' \<mapsto> show_int (ca_DBID a)) else h)
      in (p, \<lparr>out_endpoint = BuildReverseProxyURL parse resin (CodexBaseURL @ path), out_header = h, out_body = body,
             out_client = c\<rparr>))"

definition ExecuteRequest ::
  "(json \<Rightarrow> string) \<Rightarrow> (string \<Rightarrow> parsed_url option) \<Rightarrow> ResinConfig option \<Rightarrow> string \<Rightarrow> string \<Rightarrow> caller \<Rightarrow> fields \<Rightarrow> string \<Rightarrow>
   string \<Rightarrow> deviceProfile \<Rightarrow> DeviceProfileConfig option \<Rightarrow> http_header \<Rightarrow> time \<Rightarrow> (client_pool \<Rightarrow> client_pool) \<Rightarrow>
   (string \<Rightarrow> string option) \<Rightarrow> (outgoing \<Rightarrow> string + int) \<Rightarrow> client_pool \<Rightarrow> client_pool \<times> outgoing option \<times> (go_error + int)" where
  "ExecuteRequest text_of_value parse resin env path a body sessionID proxyOverride profile cfg headers now others makes exchange p =
     (let proxyURL = (if proxyOverride \<noteq> [] then proxyOverride else ca_ProxyURL a)
      in if ca_AccessToken a = [] then (p, None, Inl ErrNoAvailableAccount)
         else case outgoing_request text_of_value parse resin env path a body sessionID proxyURL profile cfg headers now others p of
           (p, out) \<Rightarrow>
             (case makes (out_endpoint out) of
                Some msg \<Rightarrow> (p, None, Inl (ErrInternalError making_failed (Some (PlainError msg))))
              | None \<Rightarrow>
                  (case exchange out of
                     Inr status \<Rightarrow> (p, Some out, Inr status)
                   | Inl msg \<Rightarrow>
                       (if shouldRecyclePooledClient (Some msg) then recyclePooledClient (ca_DBID a) proxyURL env p else p,
                        Some out, Inl (ErrUpstream 0 request_failed (Some (PlainError msg)))))))"

text \<open>The compact endpoint repeats the code at another path.\<close>

definition ExecuteCompactRequest ::
  "(json \<Rightarrow> string) \<Rightarrow> (string \<Rightarrow> parsed_url option) \<Rightarrow> ResinConfig option \<Rightarrow> string \<Rightarrow> caller \<Rightarrow> fields \<Rightarrow> string \<Rightarrow>
   string \<Rightarrow> deviceProfile \<Rightarrow> DeviceProfileConfig option \<Rightarrow> http_header \<Rightarrow> time \<Rightarrow> (client_pool \<Rightarrow> client_pool) \<Rightarrow>
   (string \<Rightarrow> string option) \<Rightarrow> (outgoing \<Rightarrow> string + int) \<Rightarrow> client_pool \<Rightarrow> client_pool \<times> outgoing option \<times> (go_error + int)" where
  "ExecuteCompactRequest text_of_value parse resin env =
     ExecuteRequest text_of_value parse resin env ''/responses/compact''"

section \<open>The header of a WebSocket handshake\<close>

text \<open>\<open>send_agent\<close> is \<open>shouldSendWebsocketUserAgent\<close>, which reads the environment.\<close>

definition set_nonempty :: "string \<Rightarrow> string \<Rightarrow> http_header \<Rightarrow> http_header" where
  "set_nonempty name value h = (if trim_space value \<noteq> [] then h(name \<mapsto> trim_space value) else h)"

definition websocket_agent ::
  "deviceProfile \<Rightarrow> DeviceProfileConfig option \<Rightarrow> http_header \<Rightarrow> http_header \<Rightarrow> http_header" where
  "websocket_agent profile cfg gin h =
     (let userAgent = trim_space (Get gin ''User-Agent'')
      in if IsDeviceProfileStabilizationEnabled cfg
         then set_nonempty ''Version'' (dp_PackageVersion profile) (h(''User-Agent'' \<mapsto> dp_UserAgent profile))
         else if IsCodexOfficialClientByHeaders userAgent (Get gin ''Originator'') \<and> userAgent \<noteq> []
         then set_nonempty ''Version'' (Get gin ''Version'') (h(''User-Agent'' \<mapsto> userAgent))
         else h(''User-Agent'' \<mapsto> latestCodexCLIUserAgentPrefix, ''Version'' \<mapsto> latestCodexCLIVersion))"

definition prepareWebsocketHeaders ::
  "bool \<Rightarrow> string \<Rightarrow> string \<Rightarrow> string \<Rightarrow> string \<Rightarrow> deviceProfile \<Rightarrow> DeviceProfileConfig option \<Rightarrow> http_header \<Rightarrow> http_header" where
  "prepareWebsocketHeaders send_agent betaHeader accessToken accountID sessionID profile cfg gin =
     (let h = put_headers [(''Authorization'', ''Bearer '' @ accessToken), (''OpenAI-Beta'', betaHeader)] Map.empty;
          h = (if send_agent then websocket_agent profile cfg gin h else h);
          h = (if trim_space (Get gin ''X-Codex-Beta-Features'') \<noteq> []
               then h(''X-Codex-Beta-Features'' \<mapsto> trim_space (Get gin ''X-Codex-Beta-Features''))
               else case cfg of Some c \<Rightarrow> set_nonempty ''X-Codex-Beta-Features'' (dc_BetaFeatures c) h | None \<Rightarrow> h);
          originator = trim_space (Get gin ''Originator'');
          h = h(''Originator'' \<mapsto> (if originator \<noteq> [] \<and> IsCodexOfficialClientByHeaders [] originator then originator
                                 else ''codex_cli_rs''));
          h = fold (\<lambda>name h. set_nonempty name (Get gin name) h)
                [''X-Codex-Turn-State'', ''X-Codex-Turn-Metadata'', ''X-Client-Request-Id'', ''X-Responsesapi-Include-Timing-Metrics''] h;
          h = (if accountID \<noteq> [] then h(''Chatgpt-Account-Id'' \<mapsto> accountID) else h)
      in set_nonempty ''Conversation_id'' sessionID (set_nonempty ''Session_id'' sessionID h))"

end
