(* ===== verification/UpstreamClientLaws.thy ===== *)
theory UpstreamClientLaws
  imports UpstreamClient DeviceProfileLaws RequestBodyLaws
begin

text \<open>
  No two accounts share an HTTP client; what a request sends; where the recycling of a client misses.
\<close>

section \<open>Keys\<close>

lemma pool_key_account: "clientPoolKey a p m = clientPoolKey a' p' m' \<Longrightarrow> a = a'"
  using split_first[OF show_int_no_bar show_int_no_bar, of a "trim_space p @ ''|'' @ m" a' "trim_space p' @ ''|'' @ m'"]
  by (simp add: clientPoolKey_def show_int_eq)

lemma resin_key_account: "resinPoolKey a = resinPoolKey a' \<Longrightarrow> a = a'"
  by (simp add: resinPoolKey_def show_int_eq)

lemma show_int_no_letter: "CHR ''r'' \<notin> set (show_int a)"
  using decimal_props[of "nat a"] decimal_props[of "nat (- a)"] by (auto simp: show_int_def)

lemma show_int_nonempty: "show_int a \<noteq> []"
  using decimal_props[of "nat a"] by (auto simp: show_int_def)

lemma keys_differ: "clientPoolKey a p m \<noteq> resinPoolKey a'"
proof
  assume "clientPoolKey a p m = resinPoolKey a'"
  then show False using show_int_no_letter[of a] show_int_nonempty[of a]
    by (cases "show_int a") (auto simp: clientPoolKey_def resinPoolKey_def)
qed

section \<open>One account, one client\<close>

text \<open>
  What goroutines do to the pool, one access to the map after the other: both halves of \<open>getPooledClient\<close> and of
  \<open>getResinHTTPClient\<close>, in any mode of transport, and what takes clients out. \<open>served\<close> are the clients handed out.
\<close>

datatype client_key = Pooled int string string | Resin int

fun key_text :: "client_key \<Rightarrow> string" where
  "key_text (Pooled a p m) = clientPoolKey a p m"
| "key_text (Resin a) = resinPoolKey a"

fun key_account :: "client_key \<Rightarrow> int" where
  "key_account (Pooled a p m) = a"
| "key_account (Resin a) = a"

datatype client_op =
  Loads client_key time | Stores client_key time | Evicts "string list" time | Recycles int string string

fun client_do :: "client_op \<Rightarrow> client_pool \<times> (int \<times> nat) list \<Rightarrow> client_pool \<times> (int \<times> nat) list" where
  "client_do (Loads k now) (p, served) =
     (case load_client (key_text k) now p of
        (p, Some c) \<Rightarrow> (p, served @ [(key_account k, c)])
      | (p, None) \<Rightarrow> (p, served))"
| "client_do (Stores k now) (p, served) =
     (case store_client (key_text k) now p of (p, c) \<Rightarrow> (p, served @ [(key_account k, c)]))"
| "client_do (Evicts keys now) (p, served) = (evictExpiredClients keys now p, served)"
| "client_do (Recycles a proxy env) (p, served) = (recyclePooledClient a proxy env p, served)"

abbreviation no_clients :: client_pool where
  "no_clients \<equiv> \<lparr>cp_entries = Map.empty, cp_next = 0, cp_idled = []\<rparr>"

text \<open>Who owns a client: the account of the key under which it was made.\<close>

definition owned :: "(nat \<Rightarrow> int) \<Rightarrow> client_pool \<Rightarrow> (int \<times> nat) list \<Rightarrow> bool" where
  "owned owner p served \<longleftrightarrow>
     (\<forall>key e. cp_entries p key = Some e \<longrightarrow>
        pe_client e < cp_next p \<and> (\<forall>k. key_text k = key \<longrightarrow> owner (pe_client e) = key_account k)) \<and>
     (\<forall>(a, c) \<in> set served. c < cp_next p \<and> owner c = a)"

lemma key_text_account: "key_text k = key_text k' \<Longrightarrow> key_account k = key_account k'"
  using pool_key_account resin_key_account keys_differ keys_differ[symmetric] by (cases k; cases k') auto

lemma entry_owned:
  "owned owner p served \<Longrightarrow> cp_entries p (key_text k) = Some e \<Longrightarrow>
     pe_client e < cp_next p \<and> owner (pe_client e) = key_account k"
  by (simp add: owned_def)

lemma touch_owned:
  assumes "owned owner p served" "pe_client e < cp_next p" "owner (pe_client e) = key_account k"
  shows "owned owner (touch (key_text k) now e p) (served @ [(key_account k, pe_client e)])"
proof -
  have "pe_client e' < cp_next p \<and> (\<forall>k'. key_text k' = key \<longrightarrow> owner (pe_client e') = key_account k')"
    if "cp_entries (touch (key_text k) now e p) key = Some e'" for key e'
  proof (cases "key = key_text k")
    case True
    with that have "pe_client e' = pe_client e" by (auto simp: touch_def)
    with True assms(2,3) key_text_account[of _ k] show ?thesis by metis
  next
    case False
    with that assms(1) show ?thesis by (simp add: touch_def owned_def)
  qed
  moreover have "cp_next (touch (key_text k) now e p) = cp_next p" by (simp add: touch_def)
  ultimately show ?thesis using assms by (simp add: owned_def)
qed

lemma new_client_owned:
  "owned owner p served \<Longrightarrow> owned (owner(cp_next p := a)) (p\<lparr>cp_next := Suc (cp_next p)\<rparr>) served"
  by (fastforce simp: owned_def)

lemma removing_keeps_owned:
  assumes "owned owner p served" "cp_next p' = cp_next p"
    and "\<And>key e. cp_entries p' key = Some e \<Longrightarrow> cp_entries p key = Some e"
  shows "owned owner p' served"
  using assms unfolding owned_def by fastforce

lemma evicted_entries:
  "cp_next (fold (evict_key cutoff) keys p) = cp_next p \<and>
   (\<forall>key e. cp_entries (fold (evict_key cutoff) keys p) key = Some e \<longrightarrow> cp_entries p key = Some e)"
proof (induction keys arbitrary: p)
  case (Cons k keys)
  have "cp_next (evict_key cutoff k p) = cp_next p \<and>
      (\<forall>key e. cp_entries (evict_key cutoff k p) key = Some e \<longrightarrow> cp_entries p key = Some e)"
    by (auto simp: evict_key_def split: option.splits if_splits)
  with Cons.IH[of "evict_key cutoff k p"] show ?case by auto
qed simp

lemma recycled_entries:
  "cp_next (recyclePooledClient a proxy env p) = cp_next p \<and>
   (\<forall>key e. cp_entries (recyclePooledClient a proxy env p) key = Some e \<longrightarrow> cp_entries p key = Some e)"
  unfolding recyclePooledClient_def Let_def by (simp split: option.split)

lemma client_do_owned:
  assumes "owned owner p served" "client_do op (p, served) = (p', served')"
  shows "\<exists>owner'. owned owner' p' served'"
proof (cases op)
  case (Loads k now)
  show ?thesis
  proof (cases "cp_entries p (key_text k)")
    case None
    then show ?thesis using assms by (auto simp: Loads load_client_def)
  next
    case (Some e)
    with entry_owned[OF assms(1) Some] touch_owned[OF assms(1), of e k now] assms(2) show ?thesis
      by (auto simp: Loads load_client_def)
  qed
next
  case (Stores k now)
  note n = new_client_owned[OF assms(1), of "key_account k"]
  show ?thesis
  proof (cases "cp_entries p (key_text k)")
    case None
    with touch_owned[OF n, of "\<lparr>pe_client = cp_next p, pe_lastUsed = 0\<rparr>" k now] assms(2) show ?thesis
      by (auto simp: Stores store_client_def Let_def)
  next
    case (Some e)
    with entry_owned[OF n, of k e] touch_owned[OF n, of e k now] assms(2) show ?thesis
      by (auto simp: Stores store_client_def Let_def)
  qed
next
  case (Evicts keys now)
  then show ?thesis
    using removing_keeps_owned[OF assms(1), of "evictExpiredClients keys now p"] assms(2)
      evicted_entries[of "unix_nano (now - clientPoolTTL)" keys p]
    by (auto simp: evictExpiredClients_def)
next
  case (Recycles a proxy env)
  then show ?thesis
    using removing_keeps_owned[OF assms(1), of "recyclePooledClient a proxy env p"] assms(2)
      recycled_entries[of a proxy env p] by auto
qed

text \<open>
  However requests, evictions and recyclings interleave, a client that was handed out for one account is never handed
  out for another one, so no connection carries the tokens of two accounts.
\<close>

theorem clients_are_not_shared:
  "single_valued ((set (snd (fold client_do ops (no_clients, []))))\<inverse>)"
proof -
  have step: "\<exists>owner. owned owner (fst (fold client_do ops w)) (snd (fold client_do ops w))"
    if "\<exists>owner. owned owner (fst w) (snd w)" for w
    using that
  proof (induction ops arbitrary: w)
    case (Cons op ops)
    then have "\<exists>owner. owned owner (fst (client_do op w)) (snd (client_do op w))"
      using client_do_owned[of _ "fst w" "snd w" op] by (metis prod.collapse)
    with Cons.IH show ?case by simp
  qed simp
  have "owned (\<lambda>_. 0) no_clients []" by (simp add: owned_def)
  then obtain owner where o: "owned owner (fst (fold client_do ops (no_clients, []))) (snd (fold client_do ops (no_clients, [])))"
    using step[of "(no_clients, [])"] by auto
  have "owner c = a" if "(a, c) \<in> set (snd (fold client_do ops (no_clients, [])))" for a c
    using o that unfolding owned_def by blast
  then show ?thesis by (auto simp: single_valued_def)
qed

section \<open>Recycling\<close>

text \<open>
  With Resin the clients are kept under other keys than the ones that are recycled: after a broken connection the
  next request of the account gets the same client again.
\<close>

theorem resin_client_is_not_recycled:
  assumes "ca_AccessToken a \<noteq> []" "makes (BuildReverseProxyURL parse (Some resin) (CodexBaseURL @ path)) = None"
    and "\<And>out. exchange out = Inl ''write: broken pipe''"
    and "ExecuteRequest tov parse (Some resin) env path a body sid override profile cfg headers now (\<lambda>p. p) makes exchange p =
           (p', Some out, result)"
  shows "snd (getResinHTTPClient (ca_DBID a) later (\<lambda>p. p) p') = out_client out \<and>
    result = Inl (ErrUpstream 0 request_failed (Some (PlainError ''write: broken pipe'')))"
proof -
  obtain p1 c where g: "getResinHTTPClient (ca_DBID a) now (\<lambda>p. p) p = (p1, c)" by (metis surj_pair)
  obtain e where e: "cp_entries p1 (resinPoolKey (ca_DBID a)) = Some e" "pe_client e = c"
    using g by (auto simp: getResinHTTPClient_def pooled_client_def load_client_def store_client_def touch_def Let_def
        split: option.splits prod.splits)
  have o: "out_client out = c" "p' = recyclePooledClient (ca_DBID a) (if override \<noteq> [] then override else ca_ProxyURL a) env p1"
      "result = Inl (ErrUpstream 0 request_failed (Some (PlainError ''write: broken pipe'')))"
    using assms g
    by (auto simp: ExecuteRequest_def outgoing_request_def shouldRecyclePooledClient_def to_lower_def lower_char_def Let_def
        split: prod.splits)
  have "cp_entries p' (resinPoolKey (ca_DBID a)) = Some e"
    using e(1) keys_differ[symmetric] unfolding o(2) recyclePooledClient_def Let_def by (simp split: option.split)
  then show ?thesis using e(2) o
    by (simp add: getResinHTTPClient_def pooled_client_def load_client_def split: option.splits)
qed

definition some_caller :: caller where
  "some_caller = \<lparr>ca_DBID = 7, ca_AccountID = ''acc'', ca_AccessToken = ''t'', ca_ProxyURL = []\<rparr>"

lemma resin_client_is_not_recycled_witness:
  "\<exists>p' out.
     ExecuteRequest (\<lambda>_. []) (\<lambda>_. None) (Some \<lparr>rc_BaseURL = ''r'', rc_PlatformName = ''p''\<rparr>) [] ''/responses'' some_caller [] ''s'' []
       (defaultDeviceProfile None) None Map.empty 5 (\<lambda>p. p) (\<lambda>_. None) (\<lambda>_. Inl ''write: broken pipe'') no_clients =
       (p', Some out, Inl (ErrUpstream 0 request_failed (Some (PlainError ''write: broken pipe'')))) \<and>
     snd (getResinHTTPClient 7 6 (\<lambda>p. p) p') = out_client out"
proof -
  obtain p' out result where e:
    "ExecuteRequest (\<lambda>_. []) (\<lambda>_. None) (Some \<lparr>rc_BaseURL = ''r'', rc_PlatformName = ''p''\<rparr>) [] ''/responses'' some_caller [] ''s'' []
       (defaultDeviceProfile None) None Map.empty 5 (\<lambda>p. p) (\<lambda>_. None) (\<lambda>_. Inl ''write: broken pipe'') no_clients =
       (p', Some out, result)"
    by (cases "outgoing_request (\<lambda>_. []) (\<lambda>_. None) (Some \<lparr>rc_BaseURL = ''r'', rc_PlatformName = ''p''\<rparr>) [] ''/responses'' some_caller
        [] ''s'' [] (defaultDeviceProfile None) None Map.empty 5 (\<lambda>p. p) no_clients")
      (simp add: ExecuteRequest_def some_caller_def)
  have t: "ca_AccessToken some_caller \<noteq> []" "ca_DBID some_caller = 7" by (simp_all add: some_caller_def)
  from resin_client_is_not_recycled[OF t(1) refl refl e, of 6] e show ?thesis unfolding t(2) by blast
qed

section \<open>What a request sends\<close>

lemma session_headers:
  "applyCodexRequestHeaders accountID token cacheKey profile cfg downstream Map.empty ''Session_id'' =
     (if cacheKey = [] then None else Some cacheKey) \<and>
   applyCodexRequestHeaders accountID token cacheKey profile cfg downstream Map.empty ''Conversation_id'' = None"
proof -
  have a: "''Session_id'' \<notin> set codexAllowedForwardHeaders" "''Conversation_id'' \<notin> set codexAllowedForwardHeaders"
    by (simp_all add: codexAllowedForwardHeaders_def)
  obtain h v where u: "user_agent_and_version profile cfg downstream Map.empty = (h, v)" by (metis surj_pair)
  then have "h ''Session_id'' = None" "h ''Conversation_id'' = None"
    by (auto simp: user_agent_and_version_def Let_def split: if_splits)
  then show ?thesis
    by (simp add: applyCodexRequestHeaders_def u put_headers_def Let_def forward_other[OF a(1)] forward_other[OF a(2)])
qed

lemma prepared_fields:
  "field (prepare_body body) k =
     (if k \<in> {''previous_response_id'', ''prompt_cache_retention'', ''safety_identifier'', ''disable_response_storage''} then None
      else if k = ''instructions'' \<and> field body k = None then Some (JStr '''') else field body k)"
  unfolding prepare_body_def field_unset_all list.set by (auto simp: field_put)

text \<open>
  What is sent names its session once: the header \<open>Session_id\<close> is the cache key of the body, there is no
  \<open>Conversation_id\<close>, the body has instructions and none of the fields that the upstream refuses, and it is authorised
  with the token of the account.
\<close>

theorem request_names_its_session:
  assumes "ExecuteRequest tov parse resin env path a body sessionID override profile cfg headers now others makes exchange p =
             (p', Some out, result)"
  shows "out_header out ''Session_id'' =
           (let key = (if sessionID \<noteq> [] then sessionID else trim_space (gjson_string tov (field body ''prompt_cache_key'')))
            in if key = [] then None else Some key) \<and>
         out_header out ''Conversation_id'' = None \<and>
         out_header out ''Authorization'' = Some (''Bearer '' @ ca_AccessToken a) \<and>
         field (out_body out) ''prompt_cache_key'' =
           (if sessionID \<noteq> [] then Some (JStr sessionID) else field body ''prompt_cache_key'') \<and>
         field (out_body out) ''instructions'' \<noteq> None \<and> field (out_body out) ''previous_response_id'' = None \<and>
         field (out_body out) ''prompt_cache_retention'' = None \<and> field (out_body out) ''safety_identifier'' = None \<and>
         field (out_body out) ''disable_response_storage'' = None"
proof -
  have auth: "applyCodexRequestHeaders (ca_AccountID a) (ca_AccessToken a) key profile cfg headers h ''Authorization'' =
      Some (''Bearer '' @ ca_AccessToken a)" for key h
    by (rule authorized)
  obtain b key where k: "with_cache_key tov sessionID (prepare_body body) = (b, key)" by (metis surj_pair)
  have o: "out_body out = b"
      "out_header out = (let h = applyCodexRequestHeaders (ca_AccountID a) (ca_AccessToken a) key profile cfg headers Map.empty
        in if resin \<noteq> None then h(''X-Resin-Account'' \<mapsto> show_int (ca_DBID a)) else h)"
    using assms k
    by (auto simp: ExecuteRequest_def outgoing_request_def Let_def split: if_splits prod.splits option.splits sum.splits)
  have b: "b = (if sessionID \<noteq> [] then put ''prompt_cache_key'' (JStr sessionID) (prepare_body body) else prepare_body body)"
      "key = (if sessionID \<noteq> [] then sessionID else trim_space (gjson_string tov (field body ''prompt_cache_key'')))"
    using k by (auto simp: with_cache_key_def prepared_fields split: if_splits)
  show ?thesis
    by (simp add: o(2) Let_def session_headers auth) (simp add: o(1) b field_put prepared_fields)
qed

lemma request_names_its_session_witness:
  "\<exists>p' out result.
     ExecuteRequest (\<lambda>_. []) (\<lambda>_. None) None [] ''/responses'' some_caller [(''previous_response_id'', JStr ''r'')] ''s'' []
       (defaultDeviceProfile None) None Map.empty 5 (\<lambda>p. p) (\<lambda>_. None) (\<lambda>_. Inr 200) no_clients = (p', Some out, result) \<and>
     out_header out ''Session_id'' = Some ''s'' \<and> field (out_body out) ''prompt_cache_key'' = Some (JStr ''s'')"
proof -
  obtain p' out result where e:
    "ExecuteRequest (\<lambda>_. []) (\<lambda>_. None) None [] ''/responses'' some_caller [(''previous_response_id'', JStr ''r'')] ''s'' []
       (defaultDeviceProfile None) None Map.empty 5 (\<lambda>p. p) (\<lambda>_. None) (\<lambda>_. Inr 200) no_clients = (p', Some out, result)"
    by (cases "outgoing_request (\<lambda>_. []) (\<lambda>_. None) None [] ''/responses'' some_caller [(''previous_response_id'', JStr ''r'')] ''s''
        [] (defaultDeviceProfile None) None Map.empty 5 (\<lambda>p. p) no_clients")
      (simp add: ExecuteRequest_def some_caller_def)
  from request_names_its_session[OF e] e show ?thesis by auto
qed

section \<open>Fallbacks\<close>

text \<open>A proxy that cannot be read, or has another scheme, is left out: the request goes to the upstream directly.\<close>

lemma broken_proxy_goes_direct:
  assumes "trim_space proxyURL \<noteq> []"
    and "parse proxyURL = None \<or>
      (\<exists>s. parse proxyURL = Some s \<and> to_lower (trim_space s) \<notin> {''http'', ''https'', ''socks5'', ''socks5h''})"
  shows "newCodexStandardTransport parse proxyURL = Direct"
  using assms by (auto simp: newCodexStandardTransport_def ConfigureTransportProxy_def Let_def)

text \<open>The error of a failed exchange has status 0 and does not count as retryable.\<close>

lemma failed_exchange_error:
  "IsRetryableError (Some (ErrUpstream 0 m c)) = False" "StatusCodeFromError (Some (ErrUpstream 0 m c)) = 0"
  by (simp_all add: IsRetryableError_def StatusCodeFromError_def ErrUpstream_def)

text \<open>
  A WebSocket handshake knows the account by its upstream id only, which is no number: without an API key the device
  profile is then that of all accounts.
\<close>

lemma websocket_scope_is_global: "trim_space apiKey = [] \<Longrightarrow> deviceProfileScopeKey (Some 0) apiKey = ''global''"
  by (simp add: deviceProfileScopeKey_def)

end
