(* ===== verification/UtlsTransport.thy ===== *)
theory UtlsTransport
  imports Main
begin

text \<open>
  The HTTP/2 transport of \<open>proxy/utls_transport.go\<close>: one connection per host, made by one request while the others wait on
  a condition variable. What runs under the mutex is one function; the requests, numbered, are the threads. Connections
  and condition variables are numbered in the order in which they are made. Whether a connection takes another
  request (\<open>CanTakeNewRequest\<close>) is an argument, asked anew each time; dialling and TLS are the result of \<open>createConnection\<close>.
\<close>

section \<open>State\<close>

datatype ut_thread = Arriving | Waiting nat bool | Creating nat | Using nat | Answered | Errored

record utlsRoundTripper =
  ut_connections :: "string \<rightharpoonup> nat"
  ut_pending :: "string \<rightharpoonup> nat"
  ut_closed :: "nat set"
  ut_threads :: "nat \<Rightarrow> ut_thread"
  ut_nextConn :: nat
  ut_nextCond :: nat

definition NewUTLSTransport :: utlsRoundTripper where
  "NewUTLSTransport = \<lparr>ut_connections = Map.empty, ut_pending = Map.empty, ut_closed = {}, ut_threads = (\<lambda>_. Arriving),
     ut_nextConn = 0, ut_nextCond = 0\<rparr>"

definition goes :: "nat \<Rightarrow> ut_thread \<Rightarrow> utlsRoundTripper \<Rightarrow> utlsRoundTripper" where
  "goes i t s = s\<lparr>ut_threads := (ut_threads s)(i := t)\<rparr>"

section \<open>Operations\<close>

definition cached_connection :: "(nat \<Rightarrow> bool) \<Rightarrow> string \<Rightarrow> utlsRoundTripper \<Rightarrow> nat option" where
  "cached_connection usable h s =
     (case ut_connections s h of Some c \<Rightarrow> if usable c then Some c else None | None \<Rightarrow> None)"

definition start_creating :: "nat \<Rightarrow> string \<Rightarrow> utlsRoundTripper \<Rightarrow> utlsRoundTripper" where
  "start_creating i h s =
     goes i (Creating (ut_nextCond s))
       (s\<lparr>ut_pending := (ut_pending s)(h \<mapsto> ut_nextCond s), ut_nextCond := Suc (ut_nextCond s)\<rparr>)"

text \<open>The first part of \<open>getOrCreateConnection\<close>, up to \<open>Wait\<close> or the creation.\<close>

definition enter :: "(nat \<Rightarrow> bool) \<Rightarrow> nat \<Rightarrow> string \<Rightarrow> utlsRoundTripper \<Rightarrow> utlsRoundTripper" where
  "enter usable i h s =
     (case cached_connection usable h s of
        Some c \<Rightarrow> goes i (Using c) s
      | None \<Rightarrow>
          (case ut_pending s h of
             Some k \<Rightarrow> goes i (Waiting k False) s
           | None \<Rightarrow> start_creating i h s))"

text \<open>A waiter whose condition variable was signalled: the body of the loop after \<open>Wait\<close>.\<close>

definition wake :: "(nat \<Rightarrow> bool) \<Rightarrow> nat \<Rightarrow> string \<Rightarrow> nat \<Rightarrow> utlsRoundTripper \<Rightarrow> utlsRoundTripper" where
  "wake usable i h k s =
     (case cached_connection usable h s of
        Some c \<Rightarrow> goes i (Using c) s
      | None \<Rightarrow> if ut_pending s h \<noteq> None then goes i (Waiting k False) s else start_creating i h s)"

definition Broadcast :: "nat \<Rightarrow> utlsRoundTripper \<Rightarrow> utlsRoundTripper" where
  "Broadcast k s =
     s\<lparr>ut_threads := (\<lambda>i. case ut_threads s i of Waiting k' b \<Rightarrow> Waiting k' (b \<or> k' = k) | t \<Rightarrow> t)\<rparr>"

text \<open>The last part, after \<open>createConnection\<close>.\<close>

definition created :: "bool \<Rightarrow> nat \<Rightarrow> string \<Rightarrow> nat \<Rightarrow> utlsRoundTripper \<Rightarrow> utlsRoundTripper" where
  "created ok i h k s =
     (let s = Broadcast k (s\<lparr>ut_pending := (ut_pending s)(h := None)\<rparr>)
      in if \<not> ok then goes i Errored s
         else
           let c = ut_nextConn s;
               s = (case ut_connections s h of Some old \<Rightarrow> s\<lparr>ut_closed := insert old (ut_closed s)\<rparr> | None \<Rightarrow> s)
           in goes i (Using c) (s\<lparr>ut_connections := (ut_connections s)(h \<mapsto> c), ut_nextConn := Suc c\<rparr>))"

text \<open>\<open>RoundTrip\<close> once it has its connection.\<close>

definition RoundTrip :: "bool \<Rightarrow> nat \<Rightarrow> string \<Rightarrow> nat \<Rightarrow> utlsRoundTripper \<Rightarrow> utlsRoundTripper" where
  "RoundTrip ok i h c s =
     (if ok then goes i Answered s
      else
        let s = (if ut_connections s h = Some c then s\<lparr>ut_connections := (ut_connections s)(h := None)\<rparr> else s)
        in goes i Errored (s\<lparr>ut_closed := insert c (ut_closed s)\<rparr>))"

definition CloseIdleConnections :: "(nat \<Rightarrow> bool) \<Rightarrow> utlsRoundTripper \<Rightarrow> utlsRoundTripper" where
  "CloseIdleConnections usable s =
     s\<lparr>ut_connections := (\<lambda>h. case ut_connections s h of Some c \<Rightarrow> if usable c then Some c else None | None \<Rightarrow> None),
       ut_closed := ut_closed s \<union> {c \<in> ran (ut_connections s). \<not> usable c}\<rparr>"

section \<open>Steps\<close>

text \<open>\<open>host\<close> is the host of each request.\<close>

inductive utls_step :: "(nat \<Rightarrow> string) \<Rightarrow> utlsRoundTripper \<Rightarrow> utlsRoundTripper \<Rightarrow> bool" for host where
  arrives: "ut_threads s i = Arriving \<Longrightarrow> utls_step host s (enter usable i (host i) s)"
| wakes: "ut_threads s i = Waiting k True \<Longrightarrow> utls_step host s (wake usable i (host i) k s)"
| creates: "ut_threads s i = Creating k \<Longrightarrow> utls_step host s (created ok i (host i) k s)"
| sends: "ut_threads s i = Using c \<Longrightarrow> utls_step host s (RoundTrip ok i (host i) c s)"
| idles: "utls_step host s (CloseIdleConnections usable s)"

inductive_cases utls_stepE: "utls_step host s s'"

section \<open>Invariants\<close>

text \<open>
  A host has a condition variable exactly while one request makes its connection; connections in the map are open.
\<close>

definition creators_ok :: "(nat \<Rightarrow> string) \<Rightarrow> utlsRoundTripper \<Rightarrow> bool" where
  "creators_ok host s \<longleftrightarrow>
     (\<forall>i k. ut_threads s i = Creating k \<longrightarrow> ut_pending s (host i) = Some k) \<and>
     (\<forall>i j k. ut_threads s i = Creating k \<longrightarrow> ut_threads s j = Creating k \<longrightarrow> i = j) \<and>
     (\<forall>h k. ut_pending s h = Some k \<longrightarrow> k < ut_nextCond s) \<and>
     (\<forall>h h' k. ut_pending s h = Some k \<longrightarrow> ut_pending s h' = Some k \<longrightarrow> h = h')"

definition connections_ok :: "(nat \<Rightarrow> string) \<Rightarrow> utlsRoundTripper \<Rightarrow> bool" where
  "connections_ok host s \<longleftrightarrow>
     (\<forall>h c. ut_connections s h = Some c \<longrightarrow> c < ut_nextConn s \<and> c \<notin> ut_closed s) \<and>
     (\<forall>c \<in> ut_closed s. c < ut_nextConn s) \<and>
     (\<forall>i c. ut_threads s i = Using c \<longrightarrow> c < ut_nextConn s) \<and>
     (\<forall>h h' c. ut_connections s h = Some c \<longrightarrow> ut_connections s h' = Some c \<longrightarrow> h = h') \<and>
     (\<forall>i c h. ut_threads s i = Using c \<longrightarrow> ut_connections s h = Some c \<longrightarrow> h = host i)"

lemma cached_iff: "cached_connection usable h s = Some c \<longleftrightarrow> ut_connections s h = Some c \<and> usable c"
  by (auto simp: cached_connection_def split: option.splits)

lemma goes_simps [simp]:
  "ut_connections (goes i t s) = ut_connections s" "ut_pending (goes i t s) = ut_pending s"
  "ut_closed (goes i t s) = ut_closed s" "ut_nextConn (goes i t s) = ut_nextConn s" "ut_nextCond (goes i t s) = ut_nextCond s"
  "ut_threads (goes i t s) = (ut_threads s)(i := t)"
  by (simp_all add: goes_def)

lemma start_simps [simp]:
  "ut_connections (start_creating i h s) = ut_connections s"
  "ut_pending (start_creating i h s) = (ut_pending s)(h \<mapsto> ut_nextCond s)"
  "ut_closed (start_creating i h s) = ut_closed s" "ut_nextConn (start_creating i h s) = ut_nextConn s"
  "ut_nextCond (start_creating i h s) = Suc (ut_nextCond s)"
  "ut_threads (start_creating i h s) = (ut_threads s)(i := Creating (ut_nextCond s))"
  by (simp_all add: start_creating_def)

lemma Broadcast_simps [simp]:
  "ut_connections (Broadcast k s) = ut_connections s" "ut_pending (Broadcast k s) = ut_pending s"
  "ut_closed (Broadcast k s) = ut_closed s" "ut_nextConn (Broadcast k s) = ut_nextConn s"
  "ut_nextCond (Broadcast k s) = ut_nextCond s"
  "ut_threads (Broadcast k s) i = Creating k' \<longleftrightarrow> ut_threads s i = Creating k'"
  "ut_threads (Broadcast k s) i = Using c \<longleftrightarrow> ut_threads s i = Using c"
  "ut_threads (Broadcast k s) i = Waiting k' False \<longleftrightarrow> ut_threads s i = Waiting k' False \<and> k' \<noteq> k"
  by (auto simp: Broadcast_def split: ut_thread.splits)

text \<open>Moving a thread that creates nothing to a state in which it creates nothing.\<close>

lemma goes_creators:
  assumes "creators_ok host s" "\<And>k. ut_threads s i \<noteq> Creating k" "\<And>k. t \<noteq> Creating k"
  shows "creators_ok host (goes i t s)"
  using assms unfolding creators_ok_def by (simp split: if_splits)

lemma creatorD:
  assumes "creators_ok host s" "ut_threads s i = Creating k"
  shows "ut_pending s (host i) = Some k" "k < ut_nextCond s"
  using assms unfolding creators_ok_def by blast+

lemma start_creators:
  assumes "creators_ok host s" "ut_pending s (host i) = None"
  shows "creators_ok host (start_creating i (host i) s)"
proof -
  have c: "k < ut_nextCond s" "host j \<noteq> host i" if "ut_threads s j = Creating k" for j k
    using creatorD[OF assms(1) that] assms(2) by auto
  have p: "k < ut_nextCond s" if "ut_pending s h = Some k" for h k using assms(1) that by (simp add: creators_ok_def)
  have "ut_pending s (host j) = Some k" if "ut_threads s j = Creating k" for j k using creatorD[OF assms(1) that] by simp
  moreover have "j = j'" if "ut_threads s j = Creating k" "ut_threads s j' = Creating k" for j j' k
    using assms(1) that by (simp add: creators_ok_def)
  moreover have "h = h'" if "ut_pending s h = Some k" "ut_pending s h' = Some k" for h h' k
    using assms(1) that by (auto simp: creators_ok_def)
  ultimately show ?thesis
    using c p unfolding creators_ok_def by (auto split: if_splits dest: p c less_SucI)
qed

lemma goes_connections:
  assumes "connections_ok host s" "\<And>c. t = Using c \<Longrightarrow> ut_connections s (host i) = Some c"
  shows "connections_ok host (goes i t s)"
  using assms unfolding connections_ok_def by (simp split: if_splits) metis

lemma start_connections: "connections_ok host s \<Longrightarrow> connections_ok host (start_creating i h s)"
  unfolding connections_ok_def by (simp split: if_splits)

lemma enter_ok:
  assumes "creators_ok host s" "connections_ok host s" "\<And>k. ut_threads s i \<noteq> Creating k"
  shows "creators_ok host (enter usable i (host i) s) \<and> connections_ok host (enter usable i (host i) s)"
  using assms
  by (auto simp: enter_def cached_iff split: option.splits
      intro!: goes_creators start_creators goes_connections start_connections)

lemma wake_ok:
  assumes "creators_ok host s" "connections_ok host s" "\<And>k. ut_threads s i \<noteq> Creating k"
  shows "creators_ok host (wake usable i (host i) k s) \<and> connections_ok host (wake usable i (host i) k s)"
  using assms
  by (auto simp: wake_def cached_iff split: option.splits
      intro!: goes_creators start_creators goes_connections start_connections)

lemma created_creators:
  assumes "creators_ok host s" "ut_threads s i = Creating k"
  shows "creators_ok host (created ok i (host i) k s)"
proof -
  let ?s = "created ok i (host i) k s"
  have other: "ut_threads s j = Creating k' \<Longrightarrow> j \<noteq> i \<Longrightarrow> host j \<noteq> host i" for j k'
    using assms unfolding creators_ok_def by (metis option.inject)
  have threads: "ut_threads ?s j = Creating k' \<longleftrightarrow> ut_threads s j = Creating k' \<and> j \<noteq> i" for j k'
    by (simp add: created_def Let_def split: option.split)
  have pending: "ut_pending ?s = (ut_pending s)(host i := None)" "ut_nextCond ?s = ut_nextCond s"
    by (simp_all add: created_def Let_def split: option.split)
  show ?thesis
    unfolding creators_ok_def threads pending
  proof (intro conjI allI impI)
    fix j k' assume "ut_threads s j = Creating k' \<and> j \<noteq> i"
    then show "((ut_pending s)(host i := None)) (host j) = Some k'"
      using other[of j k'] creatorD(1)[OF assms(1), of j k'] by simp
  next
    fix j j' k' assume "ut_threads s j = Creating k' \<and> j \<noteq> i" "ut_threads s j' = Creating k' \<and> j' \<noteq> i"
    then show "j = j'" using assms(1) unfolding creators_ok_def by blast
  next
    fix h k' assume "((ut_pending s)(host i := None)) h = Some k'"
    then show "k' < ut_nextCond s" using assms(1) unfolding creators_ok_def by (auto split: if_splits)
  next
    fix h h' k' assume "((ut_pending s)(host i := None)) h = Some k'" "((ut_pending s)(host i := None)) h' = Some k'"
    then show "h = h'" using assms(1) unfolding creators_ok_def by (auto split: if_splits)
  qed
qed

lemma created_connections:
  assumes "connections_ok host s"
  shows "connections_ok host (created ok i (host i) k s)"
proof -
  define s1 where "s1 = Broadcast k (s\<lparr>ut_pending := (ut_pending s)(host i := None)\<rparr>)"
  have s1: "connections_ok host s1" using assms by (simp add: connections_ok_def s1_def)
  show ?thesis
  proof (cases ok)
    case False
    then show ?thesis using goes_connections[OF s1, of Errored i] by (simp add: created_def s1_def)
  next
    case True
    have n: "ut_threads s1 j = Using c \<Longrightarrow> c < ut_nextConn s1" "ut_connections s1 h = Some c \<Longrightarrow> c < ut_nextConn s1"
        "c \<in> ut_closed s1 \<Longrightarrow> c < ut_nextConn s1" for j h c
      using s1 unfolding connections_ok_def by blast+
    have "connections_ok host (goes i (Using (ut_nextConn s1))
        (s1\<lparr>ut_closed := C, ut_connections := (ut_connections s1)(host i \<mapsto> ut_nextConn s1), ut_nextConn := Suc (ut_nextConn s1)\<rparr>))"
      if "C = ut_closed s1 \<or> (\<exists>old. ut_connections s1 (host i) = Some old \<and> C = insert old (ut_closed s1))" for C
    proof -
      have "c < ut_nextConn s1" if "c \<in> C" for c
        using that \<open>C = ut_closed s1 \<or> _\<close> n(2,3) by blast
      moreover have "c \<notin> C" if "ut_connections s1 h = Some c" "h \<noteq> host i" for c h
        using that s1 \<open>C = ut_closed s1 \<or> _\<close> unfolding connections_ok_def by blast
      ultimately show ?thesis
        using s1 n unfolding connections_ok_def by (auto dest: less_SucI n)
    qed
    from this[of "ut_closed s1"] this[of "insert _ (ut_closed s1)"] show ?thesis
      by (cases "ut_connections s1 (host i)") (auto simp: created_def s1_def[symmetric] True Let_def)
  qed
qed

definition fail_connection :: "string \<Rightarrow> nat \<Rightarrow> utlsRoundTripper \<Rightarrow> utlsRoundTripper" where
  "fail_connection h c s =
     s\<lparr>ut_connections := (if ut_connections s h = Some c then (ut_connections s)(h := None) else ut_connections s),
       ut_closed := insert c (ut_closed s)\<rparr>"

lemma RoundTrip_fails: "RoundTrip False i h c s = goes i Errored (fail_connection h c s)"
  by (cases s) (simp add: RoundTrip_def fail_connection_def Let_def)

lemma connectionsD:
  assumes "connections_ok host s"
  shows "ut_threads s i = Using c \<Longrightarrow> c < ut_nextConn s"
    and "ut_threads s i = Using c \<Longrightarrow> ut_connections s h = Some c \<Longrightarrow> h = host i"
    and "c \<in> ut_closed s \<Longrightarrow> c < ut_nextConn s"
    and "ut_connections s h = Some c \<Longrightarrow> c < ut_nextConn s \<and> c \<notin> ut_closed s"
    and "ut_connections s h = Some c \<Longrightarrow> ut_connections s h' = Some c \<Longrightarrow> h = h'"
proof -
  note k = assms[unfolded connections_ok_def]
  show "ut_threads s i = Using c \<Longrightarrow> c < ut_nextConn s" using k by blast
  show "ut_threads s i = Using c \<Longrightarrow> ut_connections s h = Some c \<Longrightarrow> h = host i" using k by blast
  show "c \<in> ut_closed s \<Longrightarrow> c < ut_nextConn s" using k by blast
  show "ut_connections s h = Some c \<Longrightarrow> c < ut_nextConn s \<and> c \<notin> ut_closed s" using k by blast
  show "ut_connections s h = Some c \<Longrightarrow> ut_connections s h' = Some c \<Longrightarrow> h = h'" using k by blast
qed

lemma fail_connection_ok:
  assumes "connections_ok host s" "ut_threads s i = Using c"
  shows "connections_ok host (fail_connection (host i) c s)"
proof -
  note d = connectionsD[OF assms(1)]
  let ?s = "fail_connection (host i) c s"
  have conns: "ut_connections ?s h = Some d \<longleftrightarrow> ut_connections s h = Some d \<and> d \<noteq> c" for h d
    by (auto simp: fail_connection_def dest: d(2)[OF assms(2)])
  have others: "ut_closed ?s = insert c (ut_closed s)" "ut_nextConn ?s = ut_nextConn s" "ut_threads ?s = ut_threads s"
    by (simp_all add: fail_connection_def)
  show ?thesis
    unfolding connections_ok_def conns others
    using d(1)[OF assms(2)] d(1,3,4) by (blast intro: d(2) d(5))
qed

lemma RoundTrip_ok:
  assumes "creators_ok host s" "connections_ok host s" "ut_threads s i = Using c"
  shows "creators_ok host (RoundTrip ok i (host i) c s) \<and> connections_ok host (RoundTrip ok i (host i) c s)"
proof (cases ok)
  case True
  then show ?thesis using assms by (auto simp: RoundTrip_def intro!: goes_creators goes_connections)
next
  case False
  have "creators_ok host (fail_connection (host i) c s)" "ut_threads (fail_connection (host i) c s) i = Using c"
    using assms by (simp_all add: creators_ok_def fail_connection_def)
  with False fail_connection_ok[OF assms(2,3)] show ?thesis
    by (auto simp: RoundTrip_fails intro!: goes_creators goes_connections)
qed

lemma CloseIdleConnections_ok:
  assumes "creators_ok host s" "connections_ok host s"
  shows "creators_ok host (CloseIdleConnections usable s) \<and> connections_ok host (CloseIdleConnections usable s)"
proof -
  have kept: "ut_connections (CloseIdleConnections usable s) h = Some c \<longleftrightarrow> ut_connections s h = Some c \<and> usable c" for h c
    by (auto simp: CloseIdleConnections_def split: option.splits)
  have "creators_ok host (CloseIdleConnections usable s)"
    using assms(1) unfolding creators_ok_def CloseIdleConnections_def by simp
  moreover have "connections_ok host (CloseIdleConnections usable s)"
    using assms(2) unfolding connections_ok_def kept
    by (auto simp: CloseIdleConnections_def ran_def)
  ultimately show ?thesis by blast
qed

lemma utls_inv:
  assumes "(utls_step host)\<^sup>*\<^sup>* NewUTLSTransport s"
  shows "creators_ok host s \<and> connections_ok host s"
  using assms
proof (induction rule: rtranclp_induct)
  case base
  show ?case by (simp add: creators_ok_def connections_ok_def NewUTLSTransport_def)
next
  case (step s s')
  from step(3) have c: "creators_ok host s" and k: "connections_ok host s" by blast+
  from step(2) show ?case
    by (cases rule: utls_step.cases)
      (use enter_ok[OF c k] wake_ok[OF c k] created_creators[OF c] created_connections[OF k] RoundTrip_ok[OF c k]
        CloseIdleConnections_ok[OF c k] in simp_all)
qed

text \<open>
  However requests interleave, at most one at a time makes a connection to a host, and no request is given a connection
  that was closed.
\<close>

theorem one_connection_per_host:
  assumes "(utls_step host)\<^sup>*\<^sup>* NewUTLSTransport s"
  shows "inj_on host {i. \<exists>k. ut_threads s i = Creating k} \<and> inj_on (ut_connections s) (dom (ut_connections s)) \<and>
    ran (ut_connections s) \<inter> ut_closed s = {}"
proof -
  note inv = utls_inv[OF assms]
  have "inj_on host {i. \<exists>k. ut_threads s i = Creating k}"
    using inv unfolding creators_ok_def inj_on_def by (auto, metis option.inject)
  moreover have "inj_on (ut_connections s) (dom (ut_connections s))"
    using inv unfolding connections_ok_def inj_on_def dom_def by (auto simp: not_None_eq)
  moreover have "ran (ut_connections s) \<inter> ut_closed s = {}"
    using inv unfolding connections_ok_def ran_def by blast
  ultimately show ?thesis by blast
qed

section \<open>A lost waiter\<close>

text \<open>Nobody will signal the condition variable of such a waiter: no request is making the connection it stands for.\<close>

definition stranded :: "nat \<Rightarrow> nat \<Rightarrow> utlsRoundTripper \<Rightarrow> bool" where
  "stranded w k s \<longleftrightarrow> ut_threads s w = Waiting k False \<and> (\<forall>i. ut_threads s i \<noteq> Creating k) \<and> k < ut_nextCond s"

lemma stranded_step:
  assumes "utls_step host s s'" "stranded w k s"
  shows "stranded w k s'"
  using assms
proof (cases rule: utls_step.cases)
  case (creates i k' ok)
  then show ?thesis using assms(2) by (auto simp: stranded_def created_def Let_def split: option.splits)
qed (auto simp: stranded_def enter_def wake_def RoundTrip_def CloseIdleConnections_def Let_def split: option.splits if_splits)

lemma stranded_stays: "(utls_step host)\<^sup>*\<^sup>* s s' \<Longrightarrow> stranded w k s \<Longrightarrow> stranded w k s'"
  by (induction rule: rtranclp_induct) (auto dest: stranded_step)

text \<open>Three requests of one host: one dials, two wait; the dial fails; one waiter dials in turn, the other one wakes after that.\<close>

definition one_host :: "nat \<Rightarrow> string" where "one_host = (\<lambda>_. ''h'')"
definition never :: "nat \<Rightarrow> bool" where "never = (\<lambda>_. False)"

definition two_wait :: utlsRoundTripper where
  "two_wait = enter never 2 ''h'' (enter never 1 ''h'' (enter never 0 ''h'' NewUTLSTransport))"

definition dial_failed :: utlsRoundTripper where
  "dial_failed = created False 0 ''h'' 0 two_wait"

definition waits_again :: utlsRoundTripper where
  "waits_again = wake never 2 ''h'' 0 (wake never 1 ''h'' 0 dial_failed)"

lemma story_threads:
  "ut_threads (enter never 0 ''h'' NewUTLSTransport) 1 = Arriving"
  "ut_threads (enter never 1 ''h'' (enter never 0 ''h'' NewUTLSTransport)) 2 = Arriving"
  "ut_threads two_wait 0 = Creating 0" "ut_threads dial_failed 1 = Waiting 0 True"
  "ut_threads (wake never 1 ''h'' 0 dial_failed) 2 = Waiting 0 True"
  by (simp_all add: two_wait_def dial_failed_def enter_def wake_def created_def cached_connection_def never_def
      start_creating_def goes_def Broadcast_def NewUTLSTransport_def Let_def)

lemma story_happens: "(utls_step one_host)\<^sup>*\<^sup>* NewUTLSTransport waits_again"
proof -
  have h: "one_host i = ''h''" for i by (simp add: one_host_def)
  have "utls_step one_host NewUTLSTransport (enter never 0 ''h'' NewUTLSTransport)"
    using utls_step.arrives[of NewUTLSTransport 0 one_host never] by (simp add: h NewUTLSTransport_def)
  moreover have "utls_step one_host (enter never 0 ''h'' NewUTLSTransport) (enter never 1 ''h'' (enter never 0 ''h'' NewUTLSTransport))"
    using utls_step.arrives[OF story_threads(1), of one_host never] by (simp add: h)
  moreover have "utls_step one_host (enter never 1 ''h'' (enter never 0 ''h'' NewUTLSTransport)) two_wait"
    using utls_step.arrives[OF story_threads(2), of one_host never] by (simp add: h two_wait_def)
  moreover have "utls_step one_host two_wait dial_failed"
    using utls_step.creates[OF story_threads(3), of one_host False] by (simp add: h dial_failed_def)
  moreover have "utls_step one_host dial_failed (wake never 1 ''h'' 0 dial_failed)"
    using utls_step.wakes[OF story_threads(4), of one_host never] by (simp add: h)
  moreover have "utls_step one_host (wake never 1 ''h'' 0 dial_failed) waits_again"
    using utls_step.wakes[OF story_threads(5), of one_host never] by (simp add: h waits_again_def)
  ultimately show ?thesis by (meson converse_rtranclp_into_rtranclp rtranclp.rtrancl_refl)
qed

lemma story_strands: "stranded 2 0 waits_again"
  by (auto simp: stranded_def waits_again_def two_wait_def dial_failed_def enter_def wake_def created_def cached_connection_def
      never_def start_creating_def goes_def Broadcast_def NewUTLSTransport_def Let_def)

text \<open>
  When a dial fails with two requests waiting, one of them dials in turn under a new condition variable; the other one, woken
  after that, waits again on the old one and is never signalled, whatever happens later.
\<close>

theorem failed_dial_strands_a_waiter:
  "\<exists>s. (utls_step one_host)\<^sup>*\<^sup>* NewUTLSTransport s \<and>
     {s'. (utls_step one_host)\<^sup>*\<^sup>* s s'} \<subseteq> {s'. ut_threads s' 2 = Waiting 0 False}"
proof (intro exI conjI)
  show "(utls_step one_host)\<^sup>*\<^sup>* NewUTLSTransport waits_again" by (rule story_happens)
  show "{s'. (utls_step one_host)\<^sup>*\<^sup>* waits_again s'} \<subseteq> {s'. ut_threads s' 2 = Waiting 0 False}"
    using stranded_stays[OF _ story_strands] by (auto simp: stranded_def)
qed

lemma one_connection_per_host_witness:
  "inj_on one_host {i. \<exists>k. ut_threads waits_again i = Creating k} \<and> ut_threads waits_again 1 = Creating 1"
proof -
  have "ut_threads waits_again 1 = Creating 1"
    by (simp add: waits_again_def two_wait_def dial_failed_def enter_def wake_def created_def cached_connection_def
        never_def start_creating_def goes_def Broadcast_def NewUTLSTransport_def Let_def)
  with one_connection_per_host[OF story_happens] show ?thesis by blast
qed

end
