(* ===== verification/ApiValidation.thy ===== *)
theory ApiValidation
  imports WsExecutor
begin

text \<open>
  \<open>api/validation.go\<close> and \<open>api/errors.go\<close>: the rules a request must satisfy before it is dispatched, and the error documents.
  A value is what gjson finds at a path, \<open>None\<close> if there is nothing; \<open>text_of\<close> is \<open>String\<close> of a value that is no
  string. Rules of a map are visited in an arbitrary order: a list.
\<close>

section \<open>Rules\<close>

record FieldError =
  fe_Field :: string
  fe_Message :: string
  fe_Code :: string

type_synonym rule = "json option \<Rightarrow> string \<Rightarrow> FieldError option"

definition quoted :: "string \<Rightarrow> string" where
  "quoted s = CHR 0x27 # s @ [CHR 0x27]"

definition field_error :: "string \<Rightarrow> string \<Rightarrow> string \<Rightarrow> FieldError option" where
  "field_error path what code = Some \<lparr>fe_Field = path, fe_Message = ''Field '' @ quoted path @ '' '' @ what, fe_Code = code\<rparr>"

definition Required :: rule where
  "Required value path =
     (case value of
        None \<Rightarrow> field_error path ''is required'' ''required''
      | Some JNull \<Rightarrow> field_error path ''cannot be null'' ''null_not_allowed''
      | Some (JStr s) \<Rightarrow> if trim_space s = [] then field_error path ''cannot be empty'' ''empty_not_allowed'' else None
      | _ \<Rightarrow> None)"

definition TypeString :: rule where
  "TypeString value path =
     (case value of None \<Rightarrow> None | Some (JStr s) \<Rightarrow> None | _ \<Rightarrow> field_error path ''must be a string'' ''type_error'')"

definition TypeNumber :: rule where
  "TypeNumber value path =
     (case value of None \<Rightarrow> None | Some (JNum x) \<Rightarrow> None | _ \<Rightarrow> field_error path ''must be a number'' ''type_error'')"

definition TypeBoolean :: rule where
  "TypeBoolean value path =
     (case value of None \<Rightarrow> None | Some (JBool b) \<Rightarrow> None | _ \<Rightarrow> field_error path ''must be a boolean'' ''type_error'')"

definition TypeArray :: rule where
  "TypeArray value path =
     (case value of None \<Rightarrow> None | Some (JArr vs) \<Rightarrow> None | _ \<Rightarrow> field_error path ''must be an array'' ''type_error'')"

definition TypeObject :: rule where
  "TypeObject value path =
     (case value of None \<Rightarrow> None | Some (JObj fs) \<Rightarrow> None | _ \<Rightarrow> field_error path ''must be an object'' ''type_error'')"

definition MinLength :: "nat \<Rightarrow> rule" where
  "MinLength n value path =
     (case value of
        Some (JStr s) \<Rightarrow>
          if length s < n then field_error path (''must be at least '' @ show_int (int n) @ '' characters'') ''min_length'' else None
      | _ \<Rightarrow> None)"

definition MaxLength :: "nat \<Rightarrow> rule" where
  "MaxLength n value path =
     (case value of
        Some (JStr s) \<Rightarrow>
          if length s > n then field_error path (''must be at most '' @ show_int (int n) @ '' characters'') ''max_length'' else None
      | _ \<Rightarrow> None)"

text \<open>The bounds in use are whole numbers.\<close>

definition MinValue :: "int \<Rightarrow> rule" where
  "MinValue lo value path =
     (case value of
        Some (JNum x) \<Rightarrow> if x < of_int lo then field_error path (''must be at least '' @ show_int lo) ''min_value'' else None
      | _ \<Rightarrow> None)"

definition MaxValue :: "int \<Rightarrow> rule" where
  "MaxValue hi value path =
     (case value of
        Some (JNum x) \<Rightarrow> if x > of_int hi then field_error path (''must be at most '' @ show_int hi) ''max_value'' else None
      | _ \<Rightarrow> None)"

definition Range :: "int \<Rightarrow> int \<Rightarrow> rule" where
  "Range lo hi value path =
     (case value of
        Some (JNum x) \<Rightarrow>
          if x < of_int lo \<or> x > of_int hi
          then field_error path (''must be between '' @ show_int lo @ '' and '' @ show_int hi) ''out_of_range'' else None
      | _ \<Rightarrow> None)"

fun comma_list :: "string list \<Rightarrow> string" where
  "comma_list [] = []"
| "comma_list [s] = s"
| "comma_list (s # t # ss) = s @ '', '' @ comma_list (t # ss)"

definition Enum :: "(json \<Rightarrow> string) \<Rightarrow> string list \<Rightarrow> rule" where
  "Enum text_of values value path =
     (if value = None then None
      else if gjson_string text_of value \<notin> set values
      then field_error path (''must be one of: '' @ comma_list values) ''invalid_enum_value'' else None)"

text \<open>\<open>matches\<close> is the compiled expression.\<close>

definition Pattern :: "(string \<Rightarrow> bool) \<Rightarrow> string \<Rightarrow> rule" where
  "Pattern matches description value path =
     (case value of
        Some (JStr s) \<Rightarrow> if \<not> matches s then field_error path description ''pattern_mismatch'' else None
      | _ \<Rightarrow> None)"

definition MinItems :: "nat \<Rightarrow> rule" where
  "MinItems n value path =
     (case value of
        Some (JArr vs) \<Rightarrow>
          if length vs < n then field_error path (''must have at least '' @ show_int (int n) @ '' items'') ''min_items'' else None
      | _ \<Rightarrow> None)"

definition MaxItems :: "nat \<Rightarrow> rule" where
  "MaxItems n value path =
     (case value of
        Some (JArr vs) \<Rightarrow>
          if length vs > n then field_error path (''must have at most '' @ show_int (int n) @ '' items'') ''max_items'' else None
      | _ \<Rightarrow> None)"

definition ModelValidator :: "string list \<Rightarrow> rule" where
  "ModelValidator supportedModels value path =
     (case value of
        Some (JStr m) \<Rightarrow>
          if m \<notin> set supportedModels
          then Some \<lparr>fe_Field = path, fe_Message = ''Model '' @ quoted m @ '' is not supported'', fe_Code = ''unsupported_model''\<rparr>
          else None
      | _ \<Rightarrow> None)"

definition ValidateModel :: "(string \<Rightarrow> json option) \<Rightarrow> string list \<Rightarrow> string \<Rightarrow> FieldError option" where
  "ValidateModel lookup supportedModels path = ModelValidator supportedModels (lookup path) path"

definition ValidateJSONField :: "(string \<Rightarrow> bool) \<Rightarrow> rule" where
  "ValidateJSONField IsValidJSON value path =
     (case value of
        Some (JStr s) \<Rightarrow> if \<not> IsValidJSON s then field_error path ''must be valid JSON'' ''invalid_json'' else None
      | _ \<Rightarrow> None)"

definition member :: "json \<Rightarrow> string \<Rightarrow> json option" where
  "member v k = (case v of JObj fs \<Rightarrow> field fs k | _ \<Rightarrow> None)"

definition validRoles :: "string list" where
  "validRoles = [''system'', ''developer'', ''user'', ''assistant'', ''tool'']"

definition validate_message :: "(json \<Rightarrow> string) \<Rightarrow> string \<Rightarrow> nat \<Rightarrow> json \<Rightarrow> FieldError option" where
  "validate_message text_of path i m =
     (let msgPath = path @ ''.'' @ show_int (int i); role = gjson_string text_of (member m ''role'')
      in if role = []
         then Some \<lparr>fe_Field = msgPath @ ''.role'',
                    fe_Message = ''Message at index '' @ show_int (int i) @ '' is missing '' @ quoted ''role'' @ '' field'',
                    fe_Code = ''missing_message_role''\<rparr>
         else if role \<notin> set validRoles
         then Some \<lparr>fe_Field = msgPath @ ''.role'',
                    fe_Message = ''Invalid role '' @ quoted role @ '' at message index '' @ show_int (int i),
                    fe_Code = ''invalid_message_role''\<rparr>
         else if member m ''content'' = None \<and> role \<noteq> ''tool'' \<and> \<not> (role = ''assistant'' \<and> member m ''tool_calls'' \<noteq> None)
         then Some \<lparr>fe_Field = msgPath @ ''.content'',
                    fe_Message = ''Message at index '' @ show_int (int i) @ '' is missing '' @ quoted ''content'' @ '' field'',
                    fe_Code = ''missing_message_content''\<rparr>
         else None)"

fun first_error :: "(nat \<Rightarrow> 'a \<Rightarrow> 'e option) \<Rightarrow> nat \<Rightarrow> 'a list \<Rightarrow> 'e option" where
  "first_error check i [] = None"
| "first_error check i (x # xs) = (case check i x of Some e \<Rightarrow> Some e | None \<Rightarrow> first_error check (Suc i) xs)"

definition ValidateMessages :: "(json \<Rightarrow> string) \<Rightarrow> rule" where
  "ValidateMessages text_of value path =
     (case value of Some (JArr ms) \<Rightarrow> first_error (validate_message text_of path) 0 ms | _ \<Rightarrow> None)"

definition validTypes :: "string list" where
  "validTypes =
     [''message'', ''function_call'', ''function_call_output'', ''input_text'', ''input_image'', ''output_text'', ''refusal'',
      ''input_file'', ''computer_screenshot'', ''summary_text'', ''file'', ''image'']"

definition ValidateInput :: "(json \<Rightarrow> string) \<Rightarrow> rule" where
  "ValidateInput text_of value path =
     (case value of
        Some (JArr []) \<Rightarrow> Some \<lparr>fe_Field = path, fe_Message = ''Input array cannot be empty'', fe_Code = ''empty_input''\<rparr>
      | Some (JArr vs) \<Rightarrow>
          first_error (\<lambda>i v.
            let t = gjson_string text_of (member v ''type'')
            in if t = [] \<or> t \<in> set validTypes then None
               else Some \<lparr>fe_Field = path @ ''.'' @ show_int (int i) @ ''.type'',
                          fe_Message = ''Invalid input type '' @ quoted t @ '' at index '' @ show_int (int i),
                          fe_Code = ''invalid_input_type''\<rparr>) 0 vs
      | _ \<Rightarrow> None)"

section \<open>Requests\<close>

definition ValidateRequest :: "(string \<Rightarrow> json option) \<Rightarrow> (string \<times> rule list) list \<Rightarrow> FieldError list" where
  "ValidateRequest lookup rules =
     concat (map (\<lambda>(path, rs). List.map_filter (\<lambda>r. r (lookup path) path) rs) rules)"

definition ChatCompletionValidationRules :: "(json \<Rightarrow> string) \<Rightarrow> (string \<times> rule list) list" where
  "ChatCompletionValidationRules text_of =
     [(''model'', [Required, TypeString, MaxLength 64]),
      (''messages'', [Required, TypeArray, MinItems 1, MaxItems 4096, ValidateMessages text_of]),
      (''max_tokens'', [TypeNumber, MinValue 1, MaxValue 65536]),
      (''temperature'', [TypeNumber, Range 0 2]),
      (''top_p'', [TypeNumber, Range 0 1]),
      (''n'', [TypeNumber, MinValue 1, MaxValue 1]),
      (''stream'', [TypeBoolean]),
      (''presence_penalty'', [TypeNumber, Range (- 2) 2]),
      (''frequency_penalty'', [TypeNumber, Range (- 2) 2]),
      (''user'', [TypeString, MaxLength 256]),
      (''reasoning_effort'', [TypeString, MaxLength 64]),
      (''service_tier'', [TypeString, MaxLength 64]),
      (''tools'', [TypeArray])]"

definition ResponsesAPIValidationRules :: "(json \<Rightarrow> string) \<Rightarrow> (string \<times> rule list) list" where
  "ResponsesAPIValidationRules text_of =
     [(''model'', [Required, TypeString, MaxLength 64]),
      (''max_output_tokens'', [TypeNumber, MinValue 1, MaxValue 65536]),
      (''temperature'', [TypeNumber, Range 0 2]),
      (''top_p'', [TypeNumber, Range 0 1]),
      (''stream'', [TypeBoolean]),
      (''stop'', [TypeString, MaxLength 256]),
      (''user'', [TypeString, MaxLength 256]),
      (''reasoning.effort'', [TypeString, MaxLength 64]),
      (''service_tier'', [TypeString, MaxLength 64]),
      (''store'', [TypeBoolean]),
      (''truncation'', [TypeString, Enum text_of [''auto'', ''disabled'']]),
      (''tools'', [TypeArray])]"

text \<open>\<open>rules["model"] = append(rules["model"], ModelValidator(supportedModels))\<close>.\<close>

definition with_models :: "string list \<Rightarrow> (string \<times> rule list) list \<Rightarrow> (string \<times> rule list) list" where
  "with_models supportedModels rules =
     map (\<lambda>(path, rs). (path, if path = ''model'' then rs @ [ModelValidator supportedModels] else rs)) rules"

definition ValidateChatCompletionsRequest ::
  "(json \<Rightarrow> string) \<Rightarrow> (string \<Rightarrow> json option) \<Rightarrow> string list \<Rightarrow> FieldError list" where
  "ValidateChatCompletionsRequest text_of lookup supportedModels =
     ValidateRequest lookup (with_models supportedModels (ChatCompletionValidationRules text_of))"

definition ValidateResponsesAPIRequest ::
  "(json \<Rightarrow> string) \<Rightarrow> (string \<Rightarrow> json option) \<Rightarrow> string list \<Rightarrow> FieldError list" where
  "ValidateResponsesAPIRequest text_of lookup supportedModels =
     ValidateRequest lookup (with_models supportedModels (ResponsesAPIValidationRules text_of))"

section \<open>Errors\<close>

text \<open>What an error document adds: nothing, one field error or several.\<close>

datatype error_details = NoDetails | OneDetail FieldError | ManyDetails "FieldError list"

record api_error =
  ae_Code :: string
  ae_Message :: string
  ae_Type :: string
  ae_Details :: error_details

definition NewAPIError :: "string \<Rightarrow> string \<Rightarrow> string \<Rightarrow> api_error" where
  "NewAPIError code message errType = \<lparr>ae_Code = code, ae_Message = message, ae_Type = errType, ae_Details = NoDetails\<rparr>"

definition NewAPIErrorWithDetails :: "string \<Rightarrow> string \<Rightarrow> string \<Rightarrow> error_details \<Rightarrow> api_error" where
  "NewAPIErrorWithDetails code message errType details =
     \<lparr>ae_Code = code, ae_Message = message, ae_Type = errType, ae_Details = details\<rparr>"

definition ToAPIError :: "FieldError list \<Rightarrow> api_error option" where
  "ToAPIError errors =
     (case errors of
        [] \<Rightarrow> None
      | [e] \<Rightarrow> Some (NewAPIErrorWithDetails ''invalid_parameter'' (fe_Message e) ''invalid_request_error'' (OneDetail e))
      | _ \<Rightarrow> Some (NewAPIErrorWithDetails ''invalid_request'' ''Multiple validation errors occurred'' ''invalid_request_error''
               (ManyDetails errors)))"

definition HTTPStatusCode :: "string \<Rightarrow> int" where
  "HTTPStatusCode code =
     (if code \<in> {''missing_api_key'', ''invalid_api_key'', ''invalid_auth'', ''insufficient_scope''} then 401
      else if code = ''rate_limit_reached'' then 429
      else if code = ''resource_not_found'' then 404
      else if code = ''resource_conflict'' then 409
      else if code \<in> {''invalid_request'', ''invalid_parameter'', ''missing_field'', ''invalid_field_type'',
                      ''invalid_field_format'', ''context_length_exceeded'', ''unsupported_model''} then 400
      else if code = ''service_unavailable'' then 503
      else 500)"

text \<open>The answer of \<open>SendError\<close>. A detail that the code gives without a code of its own has an empty one here.\<close>

definition SendError :: "api_error \<Rightarrow> int \<times> api_error" where
  "SendError e = (HTTPStatusCode (ae_Code e), e)"

definition SendValidationError :: "string \<Rightarrow> string \<Rightarrow> int \<times> api_error" where
  "SendValidationError path message =
     SendError (NewAPIErrorWithDetails ''invalid_parameter'' ''Request validation failed'' ''invalid_request_error''
       (OneDetail \<lparr>fe_Field = path, fe_Message = message, fe_Code = []\<rparr>))"

definition SendMissingFieldError :: "string \<Rightarrow> int \<times> api_error" where
  "SendMissingFieldError path =
     SendError (NewAPIErrorWithDetails ''missing_field'' ''Required field is missing'' ''invalid_request_error''
       (OneDetail \<lparr>fe_Field = path, fe_Message = ''Field '' @ quoted path @ '' is required'', fe_Code = []\<rparr>))"

definition ErrorCodeToLegacy :: "string \<Rightarrow> string" where
  "ErrorCodeToLegacy code = (if code = ''invalid_request'' then ''invalid_request_error'' else code)"

text \<open>The middleware in front of a handler: the error it sends, or \<open>None\<close> when the handler runs. \<open>body\<close> is \<open>None\<close> when reading fails.\<close>

definition ValidationMiddleware ::
  "string \<Rightarrow> (string \<Rightarrow> json option) option \<Rightarrow> (string \<times> rule list) list \<Rightarrow> (int \<times> api_error) option" where
  "ValidationMiddleware method body rules =
     (if method \<notin> {''POST'', ''PUT'', ''PATCH''} then None
      else case body of
        None \<Rightarrow> Some (SendError (NewAPIError ''invalid_request'' ''Failed to read request body'' ''invalid_request_error''))
      | Some lookup \<Rightarrow> map_option SendError (ToAPIError (ValidateRequest lookup rules)))"

end
