(* ===== verification/ApiValidationLaws.thy ===== *)
theory ApiValidationLaws
  imports ApiValidation "HOL-Library.Multiset"
begin

text \<open>
  Which requests pass the validation, that the order in which Go visits a map of rules does not matter, and what a
  rejected request is answered.
\<close>

section \<open>What is accepted\<close>

definition opt_number :: "int \<Rightarrow> int \<Rightarrow> json option \<Rightarrow> bool" where
  "opt_number lo hi v = (case v of None \<Rightarrow> True | Some (JNum x) \<Rightarrow> of_int lo \<le> x \<and> x \<le> of_int hi | _ \<Rightarrow> False)"

definition opt_text :: "nat \<Rightarrow> json option \<Rightarrow> bool" where
  "opt_text n v = (case v of None \<Rightarrow> True | Some (JStr s) \<Rightarrow> length s \<le> n | _ \<Rightarrow> False)"

definition opt_bool :: "json option \<Rightarrow> bool" where
  "opt_bool v = (case v of None \<Rightarrow> True | Some (JBool b) \<Rightarrow> True | _ \<Rightarrow> False)"

definition opt_array :: "json option \<Rightarrow> bool" where
  "opt_array v = (case v of None \<Rightarrow> True | Some (JArr vs) \<Rightarrow> True | _ \<Rightarrow> False)"

definition good_model :: "string list \<Rightarrow> json option \<Rightarrow> bool" where
  "good_model models v = (case v of Some (JStr m) \<Rightarrow> m \<in> set models \<and> trim_space m \<noteq> [] \<and> length m \<le> 64 | _ \<Rightarrow> False)"

definition good_message :: "(json \<Rightarrow> string) \<Rightarrow> json \<Rightarrow> bool" where
  "good_message text_of m \<longleftrightarrow>
     (let role = gjson_string text_of (member m ''role'')
      in role \<in> set validRoles \<and>
         (member m ''content'' \<noteq> None \<or> role = ''tool'' \<or> role = ''assistant'' \<and> member m ''tool_calls'' \<noteq> None))"

definition good_messages :: "(json \<Rightarrow> string) \<Rightarrow> json option \<Rightarrow> bool" where
  "good_messages text_of v =
     (case v of Some (JArr ms) \<Rightarrow> 1 \<le> length ms \<and> length ms \<le> 4096 \<and> list_all (good_message text_of) ms | _ \<Rightarrow> False)"

lemma first_error_None: "first_error check i xs = None \<longleftrightarrow> (\<forall>j < length xs. check (i + j) (xs ! j) = None)"
proof (induction xs arbitrary: i)
  case (Cons x xs)
  then show ?case by (auto simp: nth_Cons split: option.splits nat.splits)
qed simp

definition passes :: "rule list \<Rightarrow> json option \<Rightarrow> string \<Rightarrow> bool" where
  "passes rs v path \<longleftrightarrow> (\<forall>r \<in> set rs. r v path = None)"

lemma no_errors: "ValidateRequest lookup rules = [] \<longleftrightarrow> list_all (\<lambda>(path, rs). passes rs (lookup path) path) rules"
  by (auto simp: ValidateRequest_def List.map_filter_def filter_empty_conv passes_def list_all_iff)

lemma first_error_good:
  "first_error (validate_message text_of path) i ms = None \<longleftrightarrow> list_all (good_message text_of) ms"
proof -
  have "validate_message text_of path j m = None \<longleftrightarrow> good_message text_of m" for j m
    by (auto simp: validate_message_def good_message_def Let_def validRoles_def)
  then show ?thesis by (simp add: first_error_None list_all_length)
qed

lemma model_rules:
  "passes [Required, TypeString, MaxLength 64, ModelValidator models] v path \<longleftrightarrow> good_model models v"
  by (auto simp: passes_def Required_def TypeString_def MaxLength_def ModelValidator_def good_model_def field_error_def
      split: option.splits json.splits if_splits)

lemma messages_rules:
  "passes [Required, TypeArray, MinItems 1, MaxItems 4096, ValidateMessages text_of] v path \<longleftrightarrow>
     good_messages text_of v"
  by (auto simp: passes_def Required_def TypeArray_def MinItems_def MaxItems_def ValidateMessages_def good_messages_def field_error_def
      first_error_good Suc_le_eq split: option.splits json.splits if_splits)

lemma number_rules:
  "passes [TypeNumber, MinValue lo, MaxValue hi] v path \<longleftrightarrow> opt_number lo hi v"
  "passes [TypeNumber, Range lo hi] v path \<longleftrightarrow> opt_number lo hi v"
  by (auto simp: passes_def TypeNumber_def MinValue_def MaxValue_def Range_def opt_number_def field_error_def
      split: option.splits json.splits if_splits)

lemma text_rules:
  "passes [TypeString, MaxLength n] v path \<longleftrightarrow> opt_text n v"
  "passes [TypeBoolean] v path \<longleftrightarrow> opt_bool v"
  "passes [TypeArray] v path \<longleftrightarrow> opt_array v"
  by (auto simp: passes_def TypeString_def MaxLength_def TypeBoolean_def TypeArray_def opt_text_def opt_bool_def opt_array_def
      field_error_def split: option.splits json.splits if_splits)

lemma truncation_rules:
  "passes [TypeString, Enum text_of [''auto'', ''disabled'']] v path \<longleftrightarrow>
     v \<in> {None, Some (JStr ''auto''), Some (JStr ''disabled'')}"
  by (auto simp: passes_def TypeString_def Enum_def field_error_def gjson_string_def split: option.splits json.splits if_splits)

lemmas rule_meanings = model_rules messages_rules[unfolded One_nat_def] number_rules text_rules truncation_rules

text \<open>
  A chat request passes exactly if its model is a supported one, it has one to 4096 messages of known roles with their
  content, and every optional field is absent or has its type and range.
\<close>

theorem chat_request_accepted_iff:
  "ValidateChatCompletionsRequest text_of lookup models = [] \<longleftrightarrow>
     good_model models (lookup ''model'') \<and> good_messages text_of (lookup ''messages'') \<and>
     opt_number 1 65536 (lookup ''max_tokens'') \<and> opt_number 0 2 (lookup ''temperature'') \<and>
     opt_number 0 1 (lookup ''top_p'') \<and> opt_number 1 1 (lookup ''n'') \<and> opt_bool (lookup ''stream'') \<and>
     opt_number (- 2) 2 (lookup ''presence_penalty'') \<and> opt_number (- 2) 2 (lookup ''frequency_penalty'') \<and>
     opt_text 256 (lookup ''user'') \<and> opt_text 64 (lookup ''reasoning_effort'') \<and> opt_text 64 (lookup ''service_tier'') \<and>
     opt_array (lookup ''tools'')"
  unfolding ValidateChatCompletionsRequest_def no_errors with_models_def ChatCompletionValidationRules_def
  by (simp add: rule_meanings conj_ac)

text \<open>
  The same for the Responses endpoint; the items of its input are not looked at.
\<close>

theorem responses_request_accepted_iff:
  "ValidateResponsesAPIRequest text_of lookup models = [] \<longleftrightarrow>
     good_model models (lookup ''model'') \<and> opt_number 1 65536 (lookup ''max_output_tokens'') \<and>
     opt_number 0 2 (lookup ''temperature'') \<and> opt_number 0 1 (lookup ''top_p'') \<and> opt_bool (lookup ''stream'') \<and>
     opt_text 256 (lookup ''stop'') \<and> opt_text 256 (lookup ''user'') \<and> opt_text 64 (lookup ''reasoning.effort'') \<and>
     opt_text 64 (lookup ''service_tier'') \<and> opt_bool (lookup ''store'') \<and>
     lookup ''truncation'' \<in> {None, Some (JStr ''auto''), Some (JStr ''disabled'')} \<and> opt_array (lookup ''tools'')"
  unfolding ValidateResponsesAPIRequest_def no_errors with_models_def ResponsesAPIValidationRules_def
  by (simp add: rule_meanings conj_ac)

text \<open>
  Go visits the rules in an arbitrary order: the errors are the same ones, in another order.
\<close>

theorem order_of_rules_is_irrelevant:
  assumes "mset rules = mset rules'"
  shows "mset (ValidateRequest lookup rules) = mset (ValidateRequest lookup rules')"
proof -
  have "mset (ValidateRequest lookup rs) =
      sum_mset (image_mset (\<lambda>(path, rs). mset (List.map_filter (\<lambda>r. r (lookup path) path) rs)) (mset rs))" for rs
    by (induction rs) (auto simp: ValidateRequest_def)
  with assms show ?thesis by simp
qed

lemma order_of_rules_is_irrelevant_witness:
  "mset (ValidateRequest (\<lambda>_. None) [(''a'', [Required]), (''b'', [Required, TypeString])]) =
   mset (ValidateRequest (\<lambda>_. None) [(''b'', [Required, TypeString]), (''a'', [Required])])"
  by (rule order_of_rules_is_irrelevant) (simp add: add_mset_commute)

text \<open>
  A request that fails the rules is answered 400, with all errors if there is more than one, and does not reach its handler.
\<close>

theorem rejected_request_is_answered:
  "ValidationMiddleware method (Some lookup) rules =
     (let errors = ValidateRequest lookup rules
      in if method \<notin> {''POST'', ''PUT'', ''PATCH''} \<or> errors = [] then None
         else Some (400, \<lparr>ae_Code = (if length errors = 1 then ''invalid_parameter'' else ''invalid_request''),
                ae_Message = (if length errors = 1 then fe_Message (hd errors) else ''Multiple validation errors occurred''),
                ae_Type = ''invalid_request_error'',
                ae_Details = (if length errors = 1 then OneDetail (hd errors) else ManyDetails errors)\<rparr>))"
proof -
  have "map_option SendError (ToAPIError errors) =
      (if errors = [] then None
       else Some (400, \<lparr>ae_Code = (if length errors = 1 then ''invalid_parameter'' else ''invalid_request''),
              ae_Message = (if length errors = 1 then fe_Message (hd errors) else ''Multiple validation errors occurred''),
              ae_Type = ''invalid_request_error'',
              ae_Details = (if length errors = 1 then OneDetail (hd errors) else ManyDetails errors)\<rparr>))" for errors
    by (auto simp: ToAPIError_def SendError_def NewAPIErrorWithDetails_def HTTPStatusCode_def split: list.splits)
  then show ?thesis by (simp add: ValidationMiddleware_def Let_def)
qed

text \<open>An optional field that is null is rejected, and lengths are counted in bytes, though the message speaks of characters.\<close>

lemma null_is_rejected: "\<not> opt_number lo hi (Some JNull)" "\<not> opt_text n (Some JNull)" "\<not> opt_bool (Some JNull)"
  by (simp_all add: opt_number_def opt_text_def opt_bool_def)

lemma length_counts_bytes:
  "MaxLength 2 (Some (JStr [CHR 0xE4, CHR 0xB8, CHR 0xAD])) ''user'' =
     field_error ''user'' (''must be at most '' @ show_int 2 @ '' characters'') ''max_length''"
  by (simp add: MaxLength_def)

end
