(* ===== verification/Access.thy ===== *)
theory Access
  imports DeviceProfile ApiValidation Security
begin

text \<open>
  Who may use the API: the keys of the configuration, the cache of the keys in the database and the middleware of
  \<open>proxy/handler.go\<close>. What the database answers is an argument; every question is kept in a log, the newest first.
  The key of a request is cleaned by \<open>security.SanitizeInput\<close>.
\<close>

section \<open>Keys\<close>

record APIKeyRow =
  ak_ID :: int
  ak_Name :: string
  ak_Key :: string

record key_store =
  ks_configKeys :: "string \<Rightarrow> bool"
  ks_dbKeys :: "string \<rightharpoonup> APIKeyRow"
  ks_dbKeysUntil :: time
  ks_log :: "(time \<times> APIKeyRow list option) list"

definition new_key_store :: "(string \<Rightarrow> bool) \<Rightarrow> key_store" where
  "new_key_store configKeys = \<lparr>ks_configKeys = configKeys, ks_dbKeys = Map.empty, ks_dbKeysUntil = 0, ks_log = []\<rparr>"

text \<open>The loop over the rows: of two rows with one key the last one counts.\<close>

definition keys_of_rows :: "APIKeyRow list \<Rightarrow> string \<rightharpoonup> APIKeyRow" where
  "keys_of_rows rows = fold (\<lambda>row m. if ak_Key row = [] then m else m(ak_Key row \<mapsto> row)) rows Map.empty"

text \<open>
  \<open>refreshDBKeys\<close>: a look under the read lock, then the reload under the write lock; other requests may run in between. The
  clock is read three times; \<open>answer\<close> is what \<open>ListAPIKeys\<close> returns, \<open>None\<close> for an error.
\<close>

definition fresh_keys :: "time \<Rightarrow> key_store \<Rightarrow> (string \<rightharpoonup> APIKeyRow) option" where
  "fresh_keys now s = (if now < ks_dbKeysUntil s then Some (ks_dbKeys s) else None)"

definition reload_keys :: "time \<Rightarrow> time \<Rightarrow> APIKeyRow list option \<Rightarrow> key_store \<Rightarrow> key_store \<times> (string \<rightharpoonup> APIKeyRow)" where
  "reload_keys now after answer s =
     (if now < ks_dbKeysUntil s then (s, ks_dbKeys s)
      else
        let s = s\<lparr>ks_log := (after, answer) # ks_log s\<rparr>
        in case answer of
             None \<Rightarrow> (s, ks_dbKeys s)
           | Some rows \<Rightarrow>
               (s\<lparr>ks_dbKeys := keys_of_rows rows, ks_dbKeysUntil := after + 5 * minute\<rparr>, keys_of_rows rows))"

record db_turn =
  dt_now :: time
  dt_locked :: time
  dt_after :: time
  dt_answer :: "APIKeyRow list option"

definition refreshDBKeys :: "db_turn \<Rightarrow> (key_store \<Rightarrow> key_store) \<Rightarrow> key_store \<Rightarrow> key_store \<times> (string \<rightharpoonup> APIKeyRow)" where
  "refreshDBKeys t others s =
     (case fresh_keys (dt_now t) s of
        Some keys \<Rightarrow> (s, keys)
      | None \<Rightarrow> reload_keys (dt_locked t) (dt_after t) (dt_answer t) (others s))"

definition resolveAPIKey :: "db_turn \<Rightarrow> (key_store \<Rightarrow> key_store) \<Rightarrow> string \<Rightarrow> key_store \<Rightarrow> key_store \<times> APIKeyRow option" where
  "resolveAPIKey t others key s =
     (if ks_configKeys s key then (s, Some \<lparr>ak_ID = 0, ak_Name = ''config'', ak_Key = key\<rparr>)
      else case refreshDBKeys t others s of (s, keys) \<Rightarrow> (s, keys key))"

definition isValidKey :: "db_turn \<Rightarrow> (key_store \<Rightarrow> key_store) \<Rightarrow> string \<Rightarrow> key_store \<Rightarrow> key_store \<times> bool" where
  "isValidKey t others key s = (case resolveAPIKey t others key s of (s, row) \<Rightarrow> (s, row \<noteq> None))"

text \<open>\<open>config\<close> lists the keys of the configuration.\<close>

definition HasAnyKeys :: "db_turn \<Rightarrow> (key_store \<Rightarrow> key_store) \<Rightarrow> string list \<Rightarrow> key_store \<Rightarrow> key_store \<times> bool" where
  "HasAnyKeys t others config s =
     (if config \<noteq> [] then (s, True) else case refreshDBKeys t others s of (s, keys) \<Rightarrow> (s, keys \<noteq> Map.empty))"

definition InvalidateAPIKeyCache :: "key_store \<Rightarrow> key_store" where
  "InvalidateAPIKeyCache s = s\<lparr>ks_dbKeysUntil := 0\<rparr>"

section \<open>The middleware\<close>

text \<open>A refusal with its answer, or the key and what the context holds: id, name and masked key.\<close>

datatype access = Refused "int \<times> api_error" | Admitted string int string string

definition ErrMissingAPIKey :: api_error where
  "ErrMissingAPIKey = NewAPIError ''missing_api_key'' ''Missing Authorization header'' ''authentication_error''"

definition ErrInvalidAPIKey :: api_error where
  "ErrInvalidAPIKey = NewAPIError ''invalid_api_key'' ''Invalid API key provided'' ''authentication_error''"

definition auth_header :: "http_header \<Rightarrow> string" where
  "auth_header h =
     (if Get h ''Authorization'' \<noteq> [] then Get h ''Authorization''
      else case first_nonempty [Get h ''X-Api-Key'', Get h ''Anthropic-Auth-Token''] of
             Some v \<Rightarrow> ''Bearer '' @ v
           | None \<Rightarrow> [])"

definition presented_key :: "http_header \<Rightarrow> string" where
  "presented_key h = trim_space (trim_bearer (SanitizeInput (auth_header h)))"

definition authMiddleware :: "db_turn \<Rightarrow> (key_store \<Rightarrow> key_store) \<Rightarrow> http_header \<Rightarrow> key_store \<Rightarrow> key_store \<times> access" where
  "authMiddleware t others h s =
     (if auth_header h = [] then (s, Refused (SendError ErrMissingAPIKey))
      else let key = presented_key h
           in case resolveAPIKey t others key s of
                (s, None) \<Rightarrow> (s, Refused (SendError ErrInvalidAPIKey))
              | (s, Some row) \<Rightarrow> (s, Admitted key (ak_ID row) (trim_space (ak_Name row)) (MaskAPIKey (ak_Key row))))"

end
