(* ===== verification/AccessLaws.thy ===== *)
theory AccessLaws
  imports Access
begin

text \<open>
  A request is admitted only with a key of the configuration or of the last list that the database gave; when that list is
  older than five minutes, then because the database fails.
\<close>

section \<open>The cache and the log\<close>

text \<open>What changes the keys, under the write lock; every interleaving of requests is a sequence of these.\<close>

datatype key_op = Reloads time time "APIKeyRow list option" | Invalidates

fun key_do :: "key_op \<Rightarrow> key_store \<Rightarrow> key_store" where
  "key_do (Reloads now after answer) s = fst (reload_keys now after answer s)"
| "key_do Invalidates s = InvalidateAPIKeyCache s"

fun last_list :: "(time \<times> APIKeyRow list option) list \<Rightarrow> (time \<times> APIKeyRow list) option" where
  "last_list [] = None"
| "last_list ((t, Some rows) # qs) = Some (t, rows)"
| "last_list ((t, None) # qs) = last_list qs"

text \<open>The keys in the cache are those of the last list, and count as fresh for at most five minutes after it.\<close>

definition key_inv :: "(string \<Rightarrow> bool) \<Rightarrow> key_store \<Rightarrow> bool" where
  "key_inv configKeys s \<longleftrightarrow> ks_configKeys s = configKeys \<and>
     (case last_list (ks_log s) of
        None \<Rightarrow> ks_dbKeys s = Map.empty \<and> ks_dbKeysUntil s = 0
      | Some (t, rows) \<Rightarrow> ks_dbKeys s = keys_of_rows rows \<and> (ks_dbKeysUntil s = 0 \<or> ks_dbKeysUntil s = t + 5 * minute))"

lemma new_key_inv: "key_inv configKeys (new_key_store configKeys)"
  by (simp add: key_inv_def new_key_store_def)

lemma reload_inv: "key_inv configKeys s \<Longrightarrow> key_inv configKeys (fst (reload_keys now after answer s))"
  by (auto simp: key_inv_def reload_keys_def Let_def split: option.splits)

lemma key_do_inv: "key_inv configKeys s \<Longrightarrow> key_inv configKeys (key_do op s)"
proof (cases op)
  case Invalidates
  assume "key_inv configKeys s"
  then show ?thesis by (auto simp: Invalidates key_inv_def InvalidateAPIKeyCache_def split: option.splits)
qed (simp add: reload_inv)

lemma keys_inv: "key_inv configKeys s \<Longrightarrow> key_inv configKeys (fold key_do ops s)"
  by (induction ops arbitrary: s) (simp_all add: key_do_inv)

lemma keys_of_rows_listed:
  assumes "keys_of_rows rows key = Some row"
  shows "row \<in> set rows \<and> ak_Key row = key \<and> key \<noteq> []"
proof -
  have "\<forall>m. fold (\<lambda>row m. if ak_Key row = [] then m else m(ak_Key row \<mapsto> row)) rows m key = Some row \<longrightarrow>
      m key = Some row \<or> row \<in> set rows \<and> ak_Key row = key \<and> key \<noteq> []"
    by (induction rows) (auto split: if_splits)
  with assms show ?thesis by (fastforce simp: keys_of_rows_def)
qed

section \<open>Who is admitted\<close>

text \<open>
  C27. Whatever requests, reloads and invalidations came before and happen in between: an admitted key is one of the
  configuration or stands in the last list of the database, and this list is less than five minutes old, or it was given for
  this request, or the database has just failed to give one.
\<close>

theorem admitted_key_is_listed:
  assumes "authMiddleware t (fold key_do ops') h (fold key_do ops (new_key_store configKeys)) =
             (s', Admitted key i name masked)"
    and "0 \<le> dt_now t" "0 \<le> dt_locked t"
  shows "key = presented_key h \<and>
    (configKeys key \<or>
     (\<exists>t0 rows row. last_list (ks_log s') = Some (t0, rows) \<and> row \<in> set rows \<and> ak_Key row = key \<and> key \<noteq> [] \<and> ak_ID row = i \<and>
        (dt_now t < t0 + 5 * minute \<or> dt_locked t < t0 + 5 * minute \<or> hd (ks_log s') = (dt_after t, dt_answer t))))"
proof -
  define s where "s = fold key_do ops (new_key_store configKeys)"
  have inv: "key_inv configKeys s" "key_inv configKeys (fold key_do ops' s)"
    using new_key_inv keys_inv by (auto simp: s_def)
  have k: "key = presented_key h" "\<exists>row. resolveAPIKey t (fold key_do ops') key s = (s', Some row) \<and> ak_ID row = i"
    using assms by (auto simp: authMiddleware_def s_def[symmetric] Let_def split: if_splits prod.splits option.splits)
  then obtain row where row: "resolveAPIKey t (fold key_do ops') key s = (s', Some row)" "ak_ID row = i" by blast
  show ?thesis
  proof (cases "configKeys key")
    case False
    then have r: "refreshDBKeys t (fold key_do ops') s = (s', snd (refreshDBKeys t (fold key_do ops') s))"
        "snd (refreshDBKeys t (fold key_do ops') s) key = Some row"
      using row(1) inv(1) by (auto simp: resolveAPIKey_def key_inv_def split: prod.splits)
    have listed: ?thesis
      if "key_inv configKeys s'" "ks_dbKeys s' key = Some row"
        "dt_now t < ks_dbKeysUntil s' \<or> dt_locked t < ks_dbKeysUntil s' \<or> hd (ks_log s') = (dt_after t, dt_answer t)"
    proof -
      note inv' = that
      obtain t0 rows where l: "last_list (ks_log s') = Some (t0, rows)" "ks_dbKeys s' = keys_of_rows rows"
          "ks_dbKeysUntil s' = 0 \<or> ks_dbKeysUntil s' = t0 + 5 * minute"
        using inv'(1,2) by (auto simp: key_inv_def split: option.splits)
      with keys_of_rows_listed[of rows key row] inv'(2,3) assms(2,3) row(2) k(1) show ?thesis by auto
    qed
    show ?thesis
    proof (cases "fresh_keys (dt_now t) s")
      case (Some keys)
      then have "s' = s" "ks_dbKeys s key = Some row" "dt_now t < ks_dbKeysUntil s"
        using r by (auto simp: refreshDBKeys_def fresh_keys_def split: if_splits)
      with listed inv(1) show ?thesis by metis
    next
      case None
      then have e: "reload_keys (dt_locked t) (dt_after t) (dt_answer t) (fold key_do ops' s) =
          (s', snd (refreshDBKeys t (fold key_do ops') s))"
        using r(1) by (simp add: refreshDBKeys_def)
      have "key_inv configKeys s'" using reload_inv[OF inv(2), of "dt_locked t" "dt_after t" "dt_answer t"] e by simp
      moreover have "ks_dbKeys s' key = Some row \<and>
          (dt_locked t < ks_dbKeysUntil s' \<or> hd (ks_log s') = (dt_after t, dt_answer t))"
        using e r(2) by (auto simp: reload_keys_def Let_def split: if_splits option.splits)
      ultimately show ?thesis using listed by blast
    qed
  qed (use k in simp)
qed

definition demo_row :: APIKeyRow where
  "demo_row = \<lparr>ak_ID = 3, ak_Name = ''n'', ak_Key = ''sk-key''\<rparr>"

definition demo_turn :: db_turn where
  "demo_turn = \<lparr>dt_now = 10, dt_locked = 11, dt_after = 12, dt_answer = Some [demo_row]\<rparr>"

definition demo_header :: http_header where
  "demo_header = [''X-Api-Key'' \<mapsto> '' sk-key'']"

lemma demo_key: "presented_key demo_header = ''sk-key''" "auth_header demo_header \<noteq> []"
  unfolding presented_key_def auth_header_def demo_header_def by code_simp+

lemma demo_keys: "keys_of_rows [demo_row] = [''sk-key'' \<mapsto> demo_row]"
  by (simp add: keys_of_rows_def demo_row_def)

lemma admitted_key_is_listed_witness:
  "\<exists>s' masked. authMiddleware demo_turn (\<lambda>s. s) demo_header (new_key_store (\<lambda>_. False)) = (s', Admitted ''sk-key'' 3 ''n'' masked) \<and>
     (\<exists>t0 rows row. last_list (ks_log s') = Some (t0, rows) \<and> row \<in> set rows \<and> ak_Key row = ''sk-key'')"
proof -
  have n: "trim_space ''n'' = ''n''" by code_simp
  have a: "authMiddleware demo_turn (fold key_do []) demo_header (fold key_do [] (new_key_store (\<lambda>_. False))) =
      (\<lparr>ks_configKeys = (\<lambda>_. False), ks_dbKeys = [''sk-key'' \<mapsto> demo_row], ks_dbKeysUntil = 12 + 5 * minute,
        ks_log = [(12, Some [demo_row])]\<rparr>, Admitted ''sk-key'' 3 ''n'' (MaskAPIKey ''sk-key''))"
    by (simp add: authMiddleware_def demo_key Let_def resolveAPIKey_def refreshDBKeys_def fresh_keys_def reload_keys_def
        new_key_store_def demo_turn_def demo_keys id_def) (simp add: demo_row_def n)
  have z: "0 \<le> dt_now demo_turn" "0 \<le> dt_locked demo_turn" by (simp_all add: demo_turn_def)
  from admitted_key_is_listed[OF a z] a show ?thesis by (auto simp: id_def)
qed

text \<open>
  A key that was taken out of the database is refused by the first request after an invalidation for which the database
  answers.
\<close>

theorem revoked_key_is_refused:
  assumes "\<not> ks_configKeys s (presented_key h)" "0 \<le> dt_now t" "0 \<le> dt_locked t"
    and "dt_answer t = Some rows" "presented_key h \<notin> ak_Key ` set rows"
  shows "\<exists>s' code. authMiddleware t (\<lambda>s. s) h (InvalidateAPIKeyCache s) = (s', Refused (401, code))"
proof -
  have "keys_of_rows rows (presented_key h) = None"
    using keys_of_rows_listed[of rows "presented_key h"] assms(5) by (metis image_eqI option.exhaust)
  then show ?thesis
    using assms
    by (auto simp: authMiddleware_def Let_def resolveAPIKey_def refreshDBKeys_def fresh_keys_def reload_keys_def
        InvalidateAPIKeyCache_def SendError_def ErrInvalidAPIKey_def ErrMissingAPIKey_def NewAPIError_def HTTPStatusCode_def)
qed

lemma revoked_key_is_refused_witness:
  "\<exists>s' code. authMiddleware (demo_turn\<lparr>dt_answer := Some []\<rparr>) (\<lambda>s. s) demo_header
     (InvalidateAPIKeyCache (new_key_store (\<lambda>_. False))) = (s', Refused (401, code))"
  by (rule revoked_key_is_refused[where rows = "[]"]) (simp_all add: new_key_store_def demo_turn_def)

text \<open>
  But a database that fails keeps the keys of its last list valid, however old it is, and an invalidation does not change that.
\<close>

theorem failing_database_keeps_keys:
  assumes "ks_dbKeys s (presented_key h) = Some row" "auth_header h \<noteq> []"
    and "0 \<le> dt_now t" "0 \<le> dt_locked t" "dt_answer t = None"
  shows "\<exists>s' i name masked. authMiddleware t (\<lambda>s. s) h (InvalidateAPIKeyCache s) = (s', Admitted (presented_key h) i name masked)"
  using assms
  by (auto simp: authMiddleware_def Let_def resolveAPIKey_def refreshDBKeys_def fresh_keys_def reload_keys_def
      InvalidateAPIKeyCache_def)

lemma failing_database_keeps_keys_witness:
  "\<exists>s' i name masked. authMiddleware (demo_turn\<lparr>dt_now := 365 * 24 * hour, dt_locked := 365 * 24 * hour, dt_answer := None\<rparr>) (\<lambda>s. s)
     demo_header (InvalidateAPIKeyCache ((new_key_store (\<lambda>_. False))\<lparr>ks_dbKeys := [''sk-key'' \<mapsto> demo_row]\<rparr>)) =
     (s', Admitted ''sk-key'' i name masked)"
  using failing_database_keeps_keys[of "(new_key_store (\<lambda>_. False))\<lparr>ks_dbKeys := [''sk-key'' \<mapsto> demo_row]\<rparr>" demo_header demo_row
      "demo_turn\<lparr>dt_now := 365 * 24 * hour, dt_locked := 365 * 24 * hour, dt_answer := None\<rparr>"]
  by (simp add: demo_key)

end
