(* ===== verification/Settings.thy ===== *)
theory Settings
  imports StoreOps Refresh RateLimit UpstreamClient Access
begin

text \<open>
  The settings of the service and who may change them: start-up (\<open>main.go\<close>), \<open>GetSettings\<close>, \<open>UpdateSettings\<close> and
  the authentication of \<open>admin/handler.go\<close>. The running process holds the settings in the store, the limiter and
  the handler, the database holds one row. Whether a call to the database succeeds is an argument.
\<close>

section \<open>Settings in the database and in the process\<close>

record full_settings = SystemSettings +
  set_GlobalRPM :: int
  set_TestModel :: string
  set_TestConcurrency :: int
  set_PgMaxConns :: int
  set_RedisPoolSize :: int
  set_AdminSecret :: string
  set_FastSchedulerEnabled :: bool
  set_FastAliasEnabled :: bool
  set_AllowRemoteMigration :: bool
  set_ModelMapping :: string
  set_ModelPayloadOverrides :: string
  set_ResinURL :: string
  set_ResinPlatformName :: string
  set_RTManagerURL :: string
  set_RTManagerPassword :: string
  set_RTManagerEnabled :: bool

text \<open>The process, with the row of the database in \<open>sv_db\<close>.\<close>

record server =
  sv_store :: Store
  sv_rtManager :: RTManager
  sv_limiter :: EnhancedRateLimiter
  sv_resin :: "ResinConfig option"
  sv_testModel :: string
  sv_testConcurrency :: int
  sv_fastAliasEnabled :: bool
  sv_allowRemoteMigration :: bool
  sv_modelMapping :: string
  sv_modelPayloadOverrides :: string
  sv_pgMaxConns :: int
  sv_redisPoolSize :: int
  sv_adminSecretEnv :: string
  sv_db :: "full_settings option"

definition GetTestModel :: "server \<Rightarrow> string" where
  "GetTestModel s = (if sv_testModel s \<noteq> [] then sv_testModel s else ''gpt-5.4'')"

definition GetModelMapping :: "server \<Rightarrow> string" where
  "GetModelMapping s = (if sv_modelMapping s \<noteq> [] then sv_modelMapping s else ''{}'')"

definition GetModelPayloadOverrides :: "server \<Rightarrow> string" where
  "GetModelPayloadOverrides s = (if sv_modelPayloadOverrides s \<noteq> [] then sv_modelPayloadOverrides s else ''{}'')"

text \<open>Durations are given in minutes: division of \<open>time.Duration\<close> truncates; the values are positive.\<close>

definition GetBackgroundRefreshIntervalMinutes :: "Store \<Rightarrow> int" where
  "GetBackgroundRefreshIntervalMinutes st = GetBackgroundRefreshInterval st div minute"

definition GetUsageProbeMaxAgeMinutes :: "Store \<Rightarrow> int" where
  "GetUsageProbeMaxAgeMinutes st = GetUsageProbeMaxAge st div minute"

definition GetRecoveryProbeIntervalMinutes :: "Store \<Rightarrow> int" where
  "GetRecoveryProbeIntervalMinutes st = GetRecoveryProbeInterval st div minute"

section \<open>Start\<close>

definition first_settings :: full_settings where
  "first_settings =
     \<lparr>set_MaxConcurrency = 2, set_BackgroundRefreshIntervalMinutes = 2, set_UsageProbeMaxAgeMinutes = 10,
      set_RecoveryProbeIntervalMinutes = 30, set_ProxyURL = [], set_ProxyPoolEnabled = False, set_MaxRetries = 0,
      set_AutoCleanUnauthorized = False, set_AutoCleanRateLimited = False, set_AutoCleanFullUsage = False,
      set_AutoCleanError = False, set_AutoCleanExpired = False, set_FreeGPT55Enabled = False,
      set_PreferPaidEnabled = False, set_GlobalRPM = 0, set_TestModel = ''gpt-5.4'', set_TestConcurrency = 50,
      set_PgMaxConns = 50, set_RedisPoolSize = 30, set_AdminSecret = [], set_FastSchedulerEnabled = True,
      set_FastAliasEnabled = False, set_AllowRemoteMigration = False, set_ModelMapping = [],
      set_ModelPayloadOverrides = [], set_ResinURL = [], set_ResinPlatformName = [], set_RTManagerURL = [],
      set_RTManagerPassword = [], set_RTManagerEnabled = False\<rparr>"

text \<open>
  \<open>readable\<close> and \<open>writable\<close>: whether \<open>GetSystemSettings\<close> and \<open>UpdateSystemSettings\<close> succeed. The settings after
  a failed read are those of the first start.
\<close>

definition start_settings :: "bool \<Rightarrow> bool \<Rightarrow> full_settings option \<Rightarrow> full_settings \<times> full_settings option" where
  "start_settings readable writable db =
     (if \<not> readable then (first_settings, db)
      else case db of
             None \<Rightarrow> (first_settings, if writable then Some first_settings else None)
           | Some st \<Rightarrow> (st, db))"

definition NewRTManager :: RTManager where
  "NewRTManager =
     \<lparr>rtm_cfg = \<lparr>rtm_URL = [], rtm_Password = [], rtm_Enabled = False\<rparr>, rtm_bearerToken = [], rtm_bearerExpiresAt = 0,
      rtm_indexByEmail = None, rtm_indexFetched = 0\<rparr>"

definition start_server ::
  "(string \<Rightarrow> string) \<Rightarrow> string \<Rightarrow> string list option \<Rightarrow> MemoryTokenCache \<Rightarrow> heap \<Rightarrow> time \<Rightarrow> bool \<Rightarrow> bool \<Rightarrow> full_settings option
     \<Rightarrow> server" where
  "start_server env secretEnv proxies tc h now readable writable db =
     (case start_settings readable writable db of
        (st, db) \<Rightarrow>
          \<lparr>sv_store = NewStore env proxies True tc (Some (SystemSettings.truncate st)) h,
           sv_rtManager = SetRTManagerConfig NewRTManager
             \<lparr>rtm_URL = set_RTManagerURL st, rtm_Password = set_RTManagerPassword st, rtm_Enabled = set_RTManagerEnabled st\<rparr>,
           sv_limiter = NewEnhancedRateLimiter (set_GlobalRPM st) 0 0 now,
           sv_resin =
             (if set_ResinURL st \<noteq> [] \<and> set_ResinPlatformName st \<noteq> []
              then SetResinConfig (Some \<lparr>rc_BaseURL = set_ResinURL st, rc_PlatformName = set_ResinPlatformName st\<rparr>) else None),
           sv_testModel = set_TestModel st, sv_testConcurrency = set_TestConcurrency st,
           sv_fastAliasEnabled = set_FastAliasEnabled st, sv_allowRemoteMigration = set_AllowRemoteMigration st,
           sv_modelMapping = set_ModelMapping st, sv_modelPayloadOverrides = set_ModelPayloadOverrides st,
           sv_pgMaxConns = set_PgMaxConns st, sv_redisPoolSize = set_RedisPoolSize st,
           sv_adminSecretEnv = secretEnv, sv_db = db\<rparr>)"

section \<open>Who may use the admin API\<close>

datatype auth_source = FromEnv | FromDatabase | AuthDisabled

definition read_settings :: "bool \<Rightarrow> server \<Rightarrow> full_settings option" where
  "read_settings readable s = (if readable then sv_db s else None)"

definition resolveAdminSecret :: "bool \<Rightarrow> server \<Rightarrow> string \<times> auth_source" where
  "resolveAdminSecret readable s =
     (if sv_adminSecretEnv s \<noteq> [] then (sv_adminSecretEnv s, FromEnv)
      else case read_settings readable s of
             None \<Rightarrow> ([], AuthDisabled)
           | Some st \<Rightarrow> if set_AdminSecret st = [] then ([], AuthDisabled) else (set_AdminSecret st, FromDatabase))"

definition hasConfiguredAdminSecret :: "bool \<Rightarrow> server \<Rightarrow> bool" where
  "hasConfiguredAdminSecret readable s \<longleftrightarrow> trim_space (fst (resolveAdminSecret readable s)) \<noteq> []"

definition admin_key :: "http_header \<Rightarrow> string" where
  "admin_key h =
     (if Get h ''X-Admin-Key'' \<noteq> [] then Get h ''X-Admin-Key''
      else if has_prefix (Get h ''Authorization'') ''Bearer '' then drop 7 (Get h ''Authorization'') else [])"

text \<open>Whether the request goes on to its handler; otherwise the answer is 401.\<close>

definition adminAuthMiddleware :: "bool \<Rightarrow> http_header \<Rightarrow> server \<Rightarrow> bool" where
  "adminAuthMiddleware readable h s \<longleftrightarrow>
     (let secret = fst (resolveAdminSecret readable s)
      in secret = [] \<or> SecureCompare (SanitizeInput (admin_key h)) secret)"

section \<open>An update\<close>

text \<open>A field of the request is absent or given.\<close>

record settings_req =
  rq_MaxConcurrency :: "int option"
  rq_GlobalRPM :: "int option"
  rq_TestModel :: "string option"
  rq_TestConcurrency :: "int option"
  rq_BackgroundRefreshIntervalMinutes :: "int option"
  rq_UsageProbeMaxAgeMinutes :: "int option"
  rq_RecoveryProbeIntervalMinutes :: "int option"
  rq_ProxyURL :: "string option"
  rq_PgMaxConns :: "int option"
  rq_RedisPoolSize :: "int option"
  rq_AutoCleanUnauthorized :: "bool option"
  rq_AutoCleanRateLimited :: "bool option"
  rq_AdminSecret :: "string option"
  rq_AutoCleanFullUsage :: "bool option"
  rq_AutoCleanError :: "bool option"
  rq_AutoCleanExpired :: "bool option"
  rq_ProxyPoolEnabled :: "bool option"
  rq_FastSchedulerEnabled :: "bool option"
  rq_FastAliasEnabled :: "bool option"
  rq_MaxRetries :: "int option"
  rq_AllowRemoteMigration :: "bool option"
  rq_ModelMapping :: "string option"
  rq_ModelPayloadOverrides :: "string option"
  rq_ResinURL :: "string option"
  rq_ResinPlatformName :: "string option"
  rq_RTManagerURL :: "string option"
  rq_RTManagerPassword :: "string option"
  rq_RTManagerEnabled :: "bool option"
  rq_FreeGPT55Enabled :: "bool option"
  rq_PreferPaidEnabled :: "bool option"

text \<open>
  What the world answers during an update: the three reads of the row and its write, the list of proxies, the
  deletions of expired accounts, the read for the answer, and the clock.
\<close>

record settings_turn =
  tn_now :: time
  tn_secretRead :: bool
  tn_resinRead :: bool
  tn_rtRead :: bool
  tn_written :: bool
  tn_sourceRead :: bool
  tn_proxies :: "string list option"
  tn_batchDeleted :: bool
  tn_deleted :: "int \<Rightarrow> bool"

definition given :: "'a option \<Rightarrow> ('a \<Rightarrow> 's \<Rightarrow> 's) \<Rightarrow> 's \<Rightarrow> 's" where
  "given x f s = (case x of None \<Rightarrow> s | Some v \<Rightarrow> f v s)"

definition clamp :: "int \<Rightarrow> int \<Rightarrow> int \<Rightarrow> int" where
  "clamp lo hi v = (let v = (if v < lo then lo else v) in if v > hi then hi else v)"

definition on_store :: "(Store \<Rightarrow> Store) \<Rightarrow> server \<Rightarrow> server" where
  "on_store f s = s\<lparr>sv_store := f (sv_store s)\<rparr>"

definition ReloadProxyPool :: "string list option \<Rightarrow> Store \<Rightarrow> Store" where
  "ReloadProxyPool listed st = (case listed of None \<Rightarrow> st | Some urls \<Rightarrow> st\<lparr>proxyPool := urls\<rparr>)"

definition apply_numbers :: "settings_turn \<Rightarrow> settings_req \<Rightarrow> server \<Rightarrow> server" where
  "apply_numbers t r s =
     (let s = given (rq_MaxConcurrency r) (\<lambda>v. on_store (\<lambda>st. SetMaxConcurrency st (clamp 1 50 v) (tn_now t))) s;
          s = given (rq_GlobalRPM r)
                (\<lambda>v s. s\<lparr>sv_limiter := UpdateGlobalRPM (sv_limiter s) (if v < 0 then 0 else v) (tn_now t)\<rparr>) s;
          s = given (rq_TestModel r) (\<lambda>v s. if v \<noteq> [] then s\<lparr>sv_testModel := v\<rparr> else s) s;
          s = given (rq_TestConcurrency r) (\<lambda>v s. s\<lparr>sv_testConcurrency := clamp 1 200 v\<rparr>) s;
          s = given (rq_BackgroundRefreshIntervalMinutes r)
                (\<lambda>v. on_store (\<lambda>st. SetBackgroundRefreshInterval st (clamp 1 1440 v * minute))) s;
          s = given (rq_UsageProbeMaxAgeMinutes r)
                (\<lambda>v. on_store (\<lambda>st. SetUsageProbeMaxAge st (clamp 1 10080 v * minute))) s;
          s = given (rq_RecoveryProbeIntervalMinutes r)
                (\<lambda>v. on_store (\<lambda>st. SetRecoveryProbeInterval st (clamp 1 10080 v * minute))) s;
          s = given (rq_ProxyURL r) (\<lambda>v. on_store (\<lambda>st. st\<lparr>globalProxy := v\<rparr>)) s;
          s = given (rq_PgMaxConns r) (\<lambda>v s. s\<lparr>sv_pgMaxConns := clamp 5 500 v\<rparr>) s
      in given (rq_RedisPoolSize r) (\<lambda>v s. s\<lparr>sv_redisPoolSize := clamp 5 500 v\<rparr>) s)"

text \<open>The switches, with the number of expired accounts that turning on \<open>auto_clean_expired\<close> removes.\<close>

definition clean_flags :: "settings_req \<Rightarrow> server \<Rightarrow> server" where
  "clean_flags r s =
     (let s = given (rq_AutoCleanUnauthorized r) (\<lambda>v. on_store (\<lambda>st. st\<lparr>autoCleanUnauthorized := v\<rparr>)) s;
          s = given (rq_AutoCleanRateLimited r) (\<lambda>v. on_store (\<lambda>st. st\<lparr>autoCleanRateLimited := v\<rparr>)) s;
          s = given (rq_AutoCleanFullUsage r) (\<lambda>v. on_store (\<lambda>st. st\<lparr>autoCleanFullUsage := v\<rparr>)) s
      in given (rq_AutoCleanError r) (\<lambda>v. on_store (\<lambda>st. st\<lparr>autoCleanError := v\<rparr>)) s)"

definition clean_expired :: "settings_turn \<Rightarrow> settings_req \<Rightarrow> server \<Rightarrow> server \<times> nat" where
  "clean_expired t r s =
     (case rq_AutoCleanExpired r of
        None \<Rightarrow> (s, 0)
      | Some v \<Rightarrow>
          let st = (sv_store s)\<lparr>autoCleanExpired := v\<rparr>
          in if v
             then (case CleanExpiredAccounts (tn_batchDeleted t) (tn_deleted t) st (30 * minute) (tn_now t) of
                     (st, n) \<Rightarrow> (s\<lparr>sv_store := st\<rparr>, n))
             else (s\<lparr>sv_store := st\<rparr>, 0))"

definition set_proxy_pool :: "settings_turn \<Rightarrow> bool \<Rightarrow> Store \<Rightarrow> Store" where
  "set_proxy_pool t v st =
     (let st = st\<lparr>proxyPoolEnabled := v\<rparr> in if v then ReloadProxyPool (tn_proxies t) st else st)"

definition apply_switches :: "settings_turn \<Rightarrow> settings_req \<Rightarrow> server \<Rightarrow> server \<times> nat" where
  "apply_switches t r s =
     (case clean_expired t r (clean_flags r s) of
        (s, cleaned) \<Rightarrow>
          let s = given (rq_ProxyPoolEnabled r) (\<lambda>v. on_store (set_proxy_pool t v)) s;
              s = given (rq_FastSchedulerEnabled r) (\<lambda>v. on_store (\<lambda>st. SetFastSchedulerEnabled st v (tn_now t))) s;
              s = given (rq_FastAliasEnabled r) (\<lambda>v s. s\<lparr>sv_fastAliasEnabled := v\<rparr>) s
          in (given (rq_MaxRetries r) (\<lambda>v. on_store (\<lambda>st. SetMaxRetries st (clamp 0 10 v))) s, cleaned))"

definition apply_migration :: "bool \<Rightarrow> settings_req \<Rightarrow> server \<Rightarrow> server" where
  "apply_migration hasAdminSecret r s =
     (case rq_AllowRemoteMigration r of
        Some v \<Rightarrow> s\<lparr>sv_allowRemoteMigration := v\<rparr>
      | None \<Rightarrow> if \<not> hasAdminSecret then s\<lparr>sv_allowRemoteMigration := False\<rparr> else s)"

definition overrides_of :: "string \<Rightarrow> string" where
  "overrides_of v = (if trim_space v = [] then ''{}'' else trim_space v)"

text \<open>The parts of the row that the process does not hold: secret, Resin and rt-manager.\<close>

record kept_settings =
  kp_secret :: string
  kp_resinURL :: string
  kp_resinPlatformName :: string
  kp_rt :: RTManagerConfig

definition new_secret :: "settings_turn \<Rightarrow> settings_req \<Rightarrow> server \<Rightarrow> string" where
  "new_secret t r s =
     (let stored = (case read_settings (tn_secretRead t) s of None \<Rightarrow> [] | Some st \<Rightarrow> set_AdminSecret st)
      in case rq_AdminSecret r of
           None \<Rightarrow> stored
         | Some v \<Rightarrow> if sv_adminSecretEnv s = [] then v else stored)"

definition keep_settings :: "settings_turn \<Rightarrow> settings_req \<Rightarrow> string \<Rightarrow> server \<Rightarrow> kept_settings" where
  "keep_settings t r secret s =
     (let resin = read_settings (tn_resinRead t) s; rt = read_settings (tn_rtRead t) s
      in \<lparr>kp_secret = secret,
          kp_resinURL = given (rq_ResinURL r) (\<lambda>v _. v) (case resin of None \<Rightarrow> [] | Some st \<Rightarrow> set_ResinURL st),
          kp_resinPlatformName =
            given (rq_ResinPlatformName r) (\<lambda>v _. v) (case resin of None \<Rightarrow> [] | Some st \<Rightarrow> set_ResinPlatformName st),
          kp_rt =
            \<lparr>rtm_URL = given (rq_RTManagerURL r) (\<lambda>v _. trim_space v)
               (case rt of None \<Rightarrow> [] | Some st \<Rightarrow> set_RTManagerURL st),
             rtm_Password = given (rq_RTManagerPassword r) (\<lambda>v _. v)
               (case rt of None \<Rightarrow> [] | Some st \<Rightarrow> set_RTManagerPassword st),
             rtm_Enabled = given (rq_RTManagerEnabled r) (\<lambda>v _. v)
               (case rt of None \<Rightarrow> False | Some st \<Rightarrow> set_RTManagerEnabled st)\<rparr>\<rparr>)"

definition apply_kept :: "settings_req \<Rightarrow> kept_settings \<Rightarrow> server \<Rightarrow> server" where
  "apply_kept r k s =
     (let s = (if rq_ResinURL r \<noteq> None \<or> rq_ResinPlatformName r \<noteq> None
               then s\<lparr>sv_resin := SetResinConfig (Some \<lparr>rc_BaseURL = kp_resinURL k, rc_PlatformName = kp_resinPlatformName k\<rparr>)\<rparr>
               else s)
      in if rq_RTManagerURL r \<noteq> None \<or> rq_RTManagerPassword r \<noteq> None \<or> rq_RTManagerEnabled r \<noteq> None
         then s\<lparr>sv_rtManager := SetRTManagerConfig (sv_rtManager s) (kp_rt k)\<rparr> else s)"

text \<open>The settings as the process has them, with the parts it does not hold: what is written to the database.\<close>

definition settings_of :: "server \<Rightarrow> kept_settings \<Rightarrow> bool \<Rightarrow> full_settings" where
  "settings_of s k migration =
     (let st = sv_store s in
      \<lparr>set_MaxConcurrency = maxConcurrency st,
       set_BackgroundRefreshIntervalMinutes = GetBackgroundRefreshIntervalMinutes st,
       set_UsageProbeMaxAgeMinutes = GetUsageProbeMaxAgeMinutes st,
       set_RecoveryProbeIntervalMinutes = GetRecoveryProbeIntervalMinutes st,
       set_ProxyURL = globalProxy st, set_ProxyPoolEnabled = proxyPoolEnabled st, set_MaxRetries = maxRetries st,
       set_AutoCleanUnauthorized = autoCleanUnauthorized st, set_AutoCleanRateLimited = autoCleanRateLimited st,
       set_AutoCleanFullUsage = autoCleanFullUsage st, set_AutoCleanError = autoCleanError st,
       set_AutoCleanExpired = autoCleanExpired st, set_FreeGPT55Enabled = freeGPT55Enabled st,
       set_PreferPaidEnabled = preferPaidEnabled st,
       set_GlobalRPM = er_globalRPM (sv_limiter s), set_TestModel = GetTestModel s,
       set_TestConcurrency = sv_testConcurrency s, set_PgMaxConns = sv_pgMaxConns s,
       set_RedisPoolSize = sv_redisPoolSize s, set_AdminSecret = kp_secret k,
       set_FastSchedulerEnabled = fastSchedulerEnabled st, set_FastAliasEnabled = sv_fastAliasEnabled s,
       set_AllowRemoteMigration = (sv_allowRemoteMigration s \<and> migration),
       set_ModelMapping = GetModelMapping s, set_ModelPayloadOverrides = GetModelPayloadOverrides s,
       set_ResinURL = kp_resinURL k, set_ResinPlatformName = kp_resinPlatformName k,
       set_RTManagerURL = rtm_URL (kp_rt k), set_RTManagerPassword = rtm_Password (kp_rt k),
       set_RTManagerEnabled = rtm_Enabled (kp_rt k)\<rparr>)"

text \<open>The answer: the settings without the password, where the secret comes from, how many accounts were removed.\<close>

record settings_response =
  sr_settings :: full_settings
  sr_source :: auth_source
  sr_passwordSet :: bool
  sr_expiredCleaned :: nat

definition answer_settings :: "bool \<Rightarrow> kept_settings \<Rightarrow> nat \<Rightarrow> server \<Rightarrow> settings_response" where
  "answer_settings readable k cleaned s =
     (let source = snd (resolveAdminSecret readable s);
          shown = k\<lparr>kp_secret := (if source = FromEnv then [] else kp_secret k), kp_rt := (kp_rt k)\<lparr>rtm_Password := []\<rparr>\<rparr>
      in \<lparr>sr_settings = settings_of s shown (source \<noteq> AuthDisabled), sr_source = source,
          sr_passwordSet = (trim_space (rtm_Password (kp_rt k)) \<noteq> []), sr_expiredCleaned = cleaned\<rparr>)"

datatype settings_error = MigrationWithoutSecret | OverridesInvalid

definition update_valid :: "(string \<Rightarrow> bool) \<Rightarrow> settings_req \<Rightarrow> bool" where
  "update_valid json_valid r \<longleftrightarrow>
     (case rq_ModelPayloadOverrides r of None \<Rightarrow> True | Some v \<Rightarrow> json_valid (overrides_of v))"

definition save_settings :: "settings_turn \<Rightarrow> kept_settings \<Rightarrow> bool \<Rightarrow> server \<Rightarrow> server" where
  "save_settings t k hasAdminSecret s =
     (if tn_written t then s\<lparr>sv_db := Some (settings_of s k hasAdminSecret)\<rparr> else s)"

definition UpdateSettings ::
  "(string \<Rightarrow> bool) \<Rightarrow> settings_turn \<Rightarrow> settings_req \<Rightarrow> server \<Rightarrow> server \<times> (settings_error + settings_response)" where
  "UpdateSettings json_valid t r s =
     (let secret = new_secret t r s;
          hasAdminSecret = (trim_space secret \<noteq> [] \<or> trim_space (sv_adminSecretEnv s) \<noteq> [])
      in case apply_switches t r (apply_numbers t r s) of
           (s, cleaned) \<Rightarrow>
             if rq_AllowRemoteMigration r = Some True \<and> \<not> hasAdminSecret then (s, Inl MigrationWithoutSecret)
             else
               let s = apply_migration hasAdminSecret r s;
                   s = given (rq_ModelMapping r) (\<lambda>v s. s\<lparr>sv_modelMapping := v\<rparr>) s
               in if \<not> update_valid json_valid r then (s, Inl OverridesInvalid)
                  else
                    let s = given (rq_ModelPayloadOverrides r) (\<lambda>v s. s\<lparr>sv_modelPayloadOverrides := overrides_of v\<rparr>) s;
                        k = keep_settings t r secret s;
                        s = apply_kept r k s;
                        s = given (rq_FreeGPT55Enabled r) (\<lambda>v. on_store (\<lambda>st. st\<lparr>freeGPT55Enabled := v\<rparr>)) s;
                        s = given (rq_PreferPaidEnabled r) (\<lambda>v. on_store (\<lambda>st. st\<lparr>preferPaidEnabled := v\<rparr>)) s;
                        s = save_settings t k hasAdminSecret s
                    in (s, Inr (answer_settings (tn_sourceRead t) k cleaned s)))"

definition GetSettings :: "bool \<Rightarrow> bool \<Rightarrow> server \<Rightarrow> settings_response" where
  "GetSettings readable sourceReadable s =
     (let row = read_settings readable s
      in case row of
           None \<Rightarrow> answer_settings sourceReadable
             \<lparr>kp_secret = [], kp_resinURL = [], kp_resinPlatformName = [],
              kp_rt = \<lparr>rtm_URL = [], rtm_Password = [], rtm_Enabled = False\<rparr>\<rparr> 0 s
         | Some st \<Rightarrow> answer_settings sourceReadable
             \<lparr>kp_secret = set_AdminSecret st, kp_resinURL = set_ResinURL st,
              kp_resinPlatformName = set_ResinPlatformName st,
              kp_rt = \<lparr>rtm_URL = set_RTManagerURL st, rtm_Password = set_RTManagerPassword st,
                       rtm_Enabled = set_RTManagerEnabled st\<rparr>\<rparr> 0 s)"

end
