(* ===== verification/SettingsLaws.thy ===== *)
theory SettingsLaws
  imports Settings SecurityLaws StoreLaws
begin

text \<open>
  What an update of the settings guarantees: bounds, agreement of process and database over a restart, the secret and
  remote migration, and who is let in to the admin API.
\<close>

section \<open>The settings in the store\<close>

text \<open>The fields of the store that are settings; the operations of an update change no others of them than their own.\<close>

definition knobs :: "Store \<Rightarrow> Store" where
  "knobs st = st\<lparr>st_heap := (\<lambda>_. undefined), accounts := [], accountIndex := Map.empty, dbLog := [], proxyPool := [],
     fastScheduler := None, cancelledTasks := [], proxyRoundRobin := 0, sessionBindings := Map.empty\<rparr>"

lemma knobs_idle [simp]:
  "knobs (st\<lparr>st_heap := h\<rparr>) = knobs st" "knobs (st\<lparr>accounts := as\<rparr>) = knobs st"
  "knobs (st\<lparr>accountIndex := ix\<rparr>) = knobs st" "knobs (st\<lparr>dbLog := l\<rparr>) = knobs st"
  "knobs (st\<lparr>proxyPool := ps\<rparr>) = knobs st" "knobs (st\<lparr>fastScheduler := fs\<rparr>) = knobs st"
  "knobs (st\<lparr>cancelledTasks := ts\<rparr>) = knobs st"
  by (simp_all add: knobs_def)

lemma knobs_read:
  assumes "knobs st = knobs st'"
  shows "globalProxy st = globalProxy st'" "maxConcurrency st = maxConcurrency st'" "maxRetries st = maxRetries st'"
    "autoCleanUnauthorized st = autoCleanUnauthorized st'" "autoCleanRateLimited st = autoCleanRateLimited st'"
    "autoCleanFullUsage st = autoCleanFullUsage st'" "autoCleanError st = autoCleanError st'"
    "autoCleanExpired st = autoCleanExpired st'" "freeGPT55Enabled st = freeGPT55Enabled st'"
    "preferPaidEnabled st = preferPaidEnabled st'" "backgroundRefreshInterval st = backgroundRefreshInterval st'"
    "usageProbeMaxAge st = usageProbeMaxAge st'" "recoveryProbeInterval st = recoveryProbeInterval st'"
    "proxyPoolEnabled st = proxyPoolEnabled st'" "fastSchedulerEnabled st = fastSchedulerEnabled st'"
  using assms by (cases st; cases st'; simp add: knobs_def)+

lemma knobs_recompute [simp]: "knobs (recomputeAllAccountSchedulerState st now) = knobs st"
  by (simp add: recomputeAllAccountSchedulerState_def)

lemma knobs_rebuild [simp]: "knobs (rebuildFastScheduler st now) = knobs st"
  by (simp add: rebuildFastScheduler_def split: prod.splits)

lemma knobs_log [simp]: "knobs (log_db c st) = knobs st"
  by (simp add: log_db_def)

lemma knobs_fast_remove [simp]: "knobs (fastSchedulerRemove dbID st) = knobs st"
  by (simp add: fastSchedulerRemove_def split: option.splits)

lemma knobs_cancel [simp]: "knobs (cancel_task dbID st) = knobs st"
  by (simp add: cancel_task_def)

lemma knobs_remove [simp]: "knobs (RemoveAccount st dbID) = knobs st"
  by (simp add: RemoveAccount_def Let_def split: option.splits)

lemma knobs_remove_pass: "knobs (fst (remove_pass ids st ads)) = knobs st"
  by (induction ids st ads rule: remove_pass.induct) (auto simp: Let_def split: prod.splits)

lemma knobs_remove_all [simp]: "knobs (RemoveAccounts st ids) = knobs st"
  using knobs_remove_pass[of "set ids" st "accounts st"] by (auto simp: RemoveAccounts_def split: prod.splits)

lemma knobs_fallback: "knobs (fst (cleanExpiredFallback deleted st ids)) = knobs st"
  by (induction deleted st ids rule: cleanExpiredFallback.induct) (auto simp: Let_def split: prod.splits)

lemma knobs_clean [simp]: "knobs (fst (CleanExpiredAccounts b deleted st maxAge now)) = knobs st"
  unfolding CleanExpiredAccounts_def Let_def by (simp add: knobs_fallback)

lemma knobs_max [simp]: "knobs (SetMaxConcurrency st n now) = knobs (st\<lparr>maxConcurrency := n\<rparr>)"
  by (simp add: SetMaxConcurrency_def)

lemma knobs_fast [simp]: "knobs (SetFastSchedulerEnabled st b now) = knobs (st\<lparr>fastSchedulerEnabled := b\<rparr>)"
  by (simp add: SetFastSchedulerEnabled_def Let_def)

lemma secret_compare: "SecureCompare a b \<longleftrightarrow> a = b"
  by (auto simp: SecureCompare_def compare_loop_zero)

lemma SanitizeInput_twice: "SanitizeInput (SanitizeInput s) = SanitizeInput s"
  by (subst (2 3) SanitizeInput_eq) (rule SanitizeInput_clean, auto intro: runes_valid)

section \<open>Bounds\<close>

text \<open>The intervals of the process are whole minutes.\<close>

definition whole_minutes :: "int \<Rightarrow> duration \<Rightarrow> bool" where
  "whole_minutes hi d \<longleftrightarrow> (\<exists>n. d = n * minute \<and> 1 \<le> n \<and> n \<le> hi)"

definition store_ok :: "Store \<Rightarrow> bool" where
  "store_ok st \<longleftrightarrow>
     1 \<le> maxConcurrency st \<and> maxConcurrency st \<le> 50 \<and> 0 \<le> maxRetries st \<and> maxRetries st \<le> 10 \<and>
     whole_minutes 1440 (backgroundRefreshInterval st) \<and> whole_minutes 10080 (usageProbeMaxAge st) \<and>
     whole_minutes 10080 (recoveryProbeInterval st)"

definition process_ok :: "server \<Rightarrow> bool" where
  "process_ok s \<longleftrightarrow>
     store_ok (sv_store s) \<and> 0 \<le> er_globalRPM (sv_limiter s) \<and> 1 \<le> sv_testConcurrency s \<and> sv_testConcurrency s \<le> 200 \<and>
     5 \<le> sv_pgMaxConns s \<and> sv_pgMaxConns s \<le> 500 \<and> 5 \<le> sv_redisPoolSize s \<and> sv_redisPoolSize s \<le> 500"

lemma store_ok_knobs: "store_ok (knobs st) = store_ok st"
  by (simp add: store_ok_def knobs_def)

lemma store_ok_cong: "knobs st = knobs st' \<Longrightarrow> store_ok st = store_ok st'"
  by (metis store_ok_knobs)

lemma given_keeps: "(\<And>v s. P s \<Longrightarrow> P (f v s)) \<Longrightarrow> P s \<Longrightarrow> P (given x f s)"
  by (simp add: given_def split: option.splits)

lemma given_ok: "(\<And>v s. process_ok s \<Longrightarrow> process_ok (f v s)) \<Longrightarrow> process_ok s \<Longrightarrow> process_ok (given x f s)"
  by (rule given_keeps)

lemma clamp_bounds: "lo \<le> hi \<Longrightarrow> lo \<le> clamp lo hi v \<and> clamp lo hi v \<le> hi"
  by (simp add: clamp_def Let_def)

lemma clamp_inside: "lo \<le> v \<Longrightarrow> v \<le> hi \<Longrightarrow> clamp lo hi v = v"
  by (simp add: clamp_def)

lemma process_ok_store: "process_ok s \<Longrightarrow> (store_ok (sv_store s) \<Longrightarrow> store_ok (f (sv_store s))) \<Longrightarrow> process_ok (on_store f s)"
  by (simp add: process_ok_def on_store_def)

lemma store_ok_max: "store_ok st \<Longrightarrow> store_ok (SetMaxConcurrency st (clamp 1 50 v) now)"
  using clamp_bounds[of 1 50 v] by (simp add: store_ok_cong[OF knobs_max]) (simp add: store_ok_def)

lemma store_ok_fast: "store_ok st \<Longrightarrow> store_ok (SetFastSchedulerEnabled st b now)"
  by (simp add: store_ok_cong[OF knobs_fast]) (simp add: store_ok_def)

lemma store_ok_retries: "store_ok st \<Longrightarrow> store_ok (SetMaxRetries st (clamp 0 10 v))"
  using clamp_bounds[of 0 10 v] by (simp add: store_ok_def SetMaxRetries_def)

lemma whole_clamped: "1 \<le> hi \<Longrightarrow> whole_minutes hi (or_default (clamp 1 hi v * minute) d)"
  using clamp_bounds[of 1 hi v] by (auto simp: whole_minutes_def or_default_def)

lemma store_ok_intervals:
  assumes "store_ok st"
  shows "store_ok (SetBackgroundRefreshInterval st (clamp 1 1440 v * minute))"
    "store_ok (SetUsageProbeMaxAge st (clamp 1 10080 v * minute))"
    "store_ok (SetRecoveryProbeInterval st (clamp 1 10080 v * minute))"
  using assms whole_clamped
  by (simp_all add: store_ok_def SetBackgroundRefreshInterval_def SetUsageProbeMaxAge_def SetRecoveryProbeInterval_def)

lemma store_ok_idle [simp]:
  "store_ok (st\<lparr>globalProxy := p\<rparr>) = store_ok st" "store_ok (st\<lparr>autoCleanUnauthorized := b\<rparr>) = store_ok st"
  "store_ok (st\<lparr>autoCleanRateLimited := b\<rparr>) = store_ok st" "store_ok (st\<lparr>autoCleanFullUsage := b\<rparr>) = store_ok st"
  "store_ok (st\<lparr>autoCleanError := b\<rparr>) = store_ok st" "store_ok (st\<lparr>autoCleanExpired := b\<rparr>) = store_ok st"
  "store_ok (st\<lparr>freeGPT55Enabled := b\<rparr>) = store_ok st" "store_ok (st\<lparr>preferPaidEnabled := b\<rparr>) = store_ok st"
  "store_ok (st\<lparr>proxyPoolEnabled := b\<rparr>) = store_ok st" "store_ok (st\<lparr>proxyPool := ps\<rparr>) = store_ok st"
  by (simp_all add: store_ok_def)

lemma numbers_ok: "process_ok s \<Longrightarrow> process_ok (apply_numbers t r s)"
  unfolding apply_numbers_def Let_def
  by (intro given_ok process_ok_store store_ok_max store_ok_intervals)
     (auto simp: process_ok_def UpdateGlobalRPM_def Let_def clamp_bounds)

lemma flags_ok: "process_ok s \<Longrightarrow> process_ok (clean_flags r s)"
  unfolding clean_flags_def Let_def by (intro given_ok process_ok_store) simp_all

lemma store_ok_clean: "store_ok (fst (CleanExpiredAccounts b d st m now)) = store_ok st"
  by (rule store_ok_cong) simp

lemma expired_ok: "process_ok s \<Longrightarrow> process_ok (fst (clean_expired t r s))"
  using store_ok_clean[of "tn_batchDeleted t" "tn_deleted t" "(sv_store s)\<lparr>autoCleanExpired := True\<rparr>" "30 * minute" "tn_now t"]
  by (auto simp: clean_expired_def process_ok_def Let_def case_prod_beta split: option.splits)

lemma proxy_pool_ok: "store_ok st \<Longrightarrow> store_ok (set_proxy_pool t b st)"
  by (simp add: set_proxy_pool_def ReloadProxyPool_def Let_def split: option.splits)

lemma switches_ok: "process_ok s \<Longrightarrow> process_ok (fst (apply_switches t r s))"
  unfolding apply_switches_def Let_def
  by (simp split: prod.splits, intro allI impI given_ok process_ok_store store_ok_fast store_ok_retries proxy_pool_ok)
     (use flags_ok expired_ok[of "clean_flags r s" t r] in \<open>auto simp: process_ok_def\<close>)

lemma later_ok:
  assumes "process_ok s"
  shows "process_ok (apply_migration b r s)" "process_ok (apply_kept r k s)" "process_ok (save_settings t k b s)"
    "process_ok (s\<lparr>sv_modelMapping := v\<rparr>)" "process_ok (s\<lparr>sv_modelPayloadOverrides := v\<rparr>)"
  using assms
  by (simp_all add: process_ok_def apply_migration_def apply_kept_def save_settings_def Let_def split: option.splits)

lemma update_ok: "process_ok s \<Longrightarrow> process_ok (fst (UpdateSettings json_valid t r s))"
proof -
  assume "process_ok s"
  then have "process_ok (fst (apply_switches t r (apply_numbers t r s)))" by (intro switches_ok numbers_ok)
  then show ?thesis
    unfolding UpdateSettings_def Let_def
    by (simp split: prod.splits, intro conjI impI allI later_ok given_ok process_ok_store) (simp_all add: later_ok given_ok)
qed

text \<open>The row of the database has the same bounds.\<close>

definition row_ok :: "full_settings \<Rightarrow> bool" where
  "row_ok st \<longleftrightarrow>
     1 \<le> set_MaxConcurrency st \<and> set_MaxConcurrency st \<le> 50 \<and> 0 \<le> set_MaxRetries st \<and> set_MaxRetries st \<le> 10 \<and>
     1 \<le> set_BackgroundRefreshIntervalMinutes st \<and> set_BackgroundRefreshIntervalMinutes st \<le> 1440 \<and>
     1 \<le> set_UsageProbeMaxAgeMinutes st \<and> set_UsageProbeMaxAgeMinutes st \<le> 10080 \<and>
     1 \<le> set_RecoveryProbeIntervalMinutes st \<and> set_RecoveryProbeIntervalMinutes st \<le> 10080 \<and>
     0 \<le> set_GlobalRPM st \<and> 1 \<le> set_TestConcurrency st \<and> set_TestConcurrency st \<le> 200 \<and>
     5 \<le> set_PgMaxConns st \<and> set_PgMaxConns st \<le> 500 \<and> 5 \<le> set_RedisPoolSize st \<and> set_RedisPoolSize st \<le> 500"

lemma interval_minutes:
  assumes "store_ok st"
  shows "whole_minutes 1440 (GetBackgroundRefreshIntervalMinutes st * minute)"
    "GetBackgroundRefreshIntervalMinutes st * minute = backgroundRefreshInterval st"
    "whole_minutes 10080 (GetUsageProbeMaxAgeMinutes st * minute)"
    "GetUsageProbeMaxAgeMinutes st * minute = usageProbeMaxAge st"
    "whole_minutes 10080 (GetRecoveryProbeIntervalMinutes st * minute)"
    "GetRecoveryProbeIntervalMinutes st * minute = recoveryProbeInterval st"
  using assms
  by (auto simp: store_ok_def whole_minutes_def GetBackgroundRefreshIntervalMinutes_def GetUsageProbeMaxAgeMinutes_def
      GetRecoveryProbeIntervalMinutes_def GetBackgroundRefreshInterval_def GetUsageProbeMaxAge_def GetRecoveryProbeInterval_def)

lemma whole_minutes_iff: "whole_minutes hi (n * minute) \<longleftrightarrow> 1 \<le> n \<and> n \<le> hi"
  by (auto simp: whole_minutes_def)

lemma settings_row_ok: "process_ok s \<Longrightarrow> row_ok (settings_of s k b)"
  using interval_minutes(1,3,5)[of "sv_store s"]
  by (auto simp: process_ok_def row_ok_def settings_of_def store_ok_def whole_minutes_iff Let_def)

section \<open>An accepted update\<close>

text \<open>What the settings of store and handler leave alone.\<close>

definition beside :: "server \<Rightarrow> full_settings option \<times> string \<times> RTManager \<times> ResinConfig option" where
  "beside s = (sv_db s, sv_adminSecretEnv s, sv_rtManager s, sv_resin s)"

lemma beside_store [simp]: "beside (on_store f s) = beside s"
  by (simp add: beside_def on_store_def)

lemma beside_idle [simp]:
  "beside (s\<lparr>sv_testModel := v\<rparr>) = beside s" "beside (s\<lparr>sv_testConcurrency := n\<rparr>) = beside s"
  "beside (s\<lparr>sv_pgMaxConns := n\<rparr>) = beside s" "beside (s\<lparr>sv_redisPoolSize := n\<rparr>) = beside s"
  "beside (s\<lparr>sv_limiter := l\<rparr>) = beside s" "beside (s\<lparr>sv_fastAliasEnabled := b\<rparr>) = beside s"
  "beside (s\<lparr>sv_modelMapping := v\<rparr>) = beside s" "beside (s\<lparr>sv_modelPayloadOverrides := v\<rparr>) = beside s"
  by (simp_all add: beside_def)

lemma beside_given: "(\<And>v s. beside (f v s) = beside s) \<Longrightarrow> beside (given x f s) = beside s"
  by (simp add: given_def split: option.splits)

lemma beside_numbers [simp]: "beside (apply_numbers t r s) = beside s"
  unfolding apply_numbers_def Let_def by (simp add: beside_given)

lemma beside_flags [simp]: "beside (clean_flags r s) = beside s"
  unfolding clean_flags_def Let_def by (simp add: beside_given)

lemma beside_expired [simp]: "beside (fst (clean_expired t r s)) = beside s"
  by (simp add: clean_expired_def Let_def beside_def case_prod_beta split: option.splits)

lemma beside_switches [simp]: "beside (fst (apply_switches t r s)) = beside s"
  unfolding apply_switches_def Let_def case_prod_beta by (simp add: beside_given)

lemma beside_migration [simp]: "beside (apply_migration b r s) = beside s"
  by (simp add: apply_migration_def beside_def split: option.splits)

definition any_resin :: "settings_req \<Rightarrow> bool" where
  "any_resin r \<longleftrightarrow> rq_ResinURL r \<noteq> None \<or> rq_ResinPlatformName r \<noteq> None"

definition any_rt :: "settings_req \<Rightarrow> bool" where
  "any_rt r \<longleftrightarrow> rq_RTManagerURL r \<noteq> None \<or> rq_RTManagerPassword r \<noteq> None \<or> rq_RTManagerEnabled r \<noteq> None"

definition has_secret :: "settings_turn \<Rightarrow> settings_req \<Rightarrow> server \<Rightarrow> bool" where
  "has_secret t r s \<longleftrightarrow> trim_space (new_secret t r s) \<noteq> [] \<or> trim_space (sv_adminSecretEnv s) \<noteq> []"

lemma keep_settings_cong: "sv_db s = sv_db s' \<Longrightarrow> keep_settings t r secret s = keep_settings t r secret s'"
  by (simp add: keep_settings_def read_settings_def)

lemma rejected_update:
  "UpdateSettings json_valid t r s = (s', Inl e) \<Longrightarrow> beside s' = beside s"
  unfolding UpdateSettings_def Let_def case_prod_beta by (auto split: if_splits simp: beside_given)

text \<open>The process just before the row is written.\<close>

definition before_save :: "settings_turn \<Rightarrow> settings_req \<Rightarrow> server \<Rightarrow> server" where
  "before_save t r s =
     (let s1 = apply_migration (has_secret t r s) r (fst (apply_switches t r (apply_numbers t r s)));
          s1 = given (rq_ModelMapping r) (\<lambda>v s. s\<lparr>sv_modelMapping := v\<rparr>) s1;
          s1 = given (rq_ModelPayloadOverrides r) (\<lambda>v s. s\<lparr>sv_modelPayloadOverrides := overrides_of v\<rparr>) s1;
          s1 = apply_kept r (keep_settings t r (new_secret t r s) s) s1;
          s1 = given (rq_FreeGPT55Enabled r) (\<lambda>v. on_store (\<lambda>st. st\<lparr>freeGPT55Enabled := v\<rparr>)) s1
      in given (rq_PreferPaidEnabled r) (\<lambda>v. on_store (\<lambda>st. st\<lparr>preferPaidEnabled := v\<rparr>)) s1)"

lemma UpdateSettings_eq:
  "UpdateSettings json_valid t r s =
     (let s0 = fst (apply_switches t r (apply_numbers t r s));
          s1 = given (rq_ModelMapping r) (\<lambda>v s. s\<lparr>sv_modelMapping := v\<rparr>) (apply_migration (has_secret t r s) r s0);
          k = keep_settings t r (new_secret t r s) s;
          s2 = save_settings t k (has_secret t r s) (before_save t r s)
      in if rq_AllowRemoteMigration r = Some True \<and> \<not> has_secret t r s then (s0, Inl MigrationWithoutSecret)
         else if \<not> update_valid json_valid r then (s1, Inl OverridesInvalid)
         else (s2, Inr (answer_settings (tn_sourceRead t) k (snd (apply_switches t r (apply_numbers t r s))) s2)))"
proof -
  have k: "keep_settings t r secret s1 = keep_settings t r secret s" if "beside s1 = beside s" for secret s1
    using that by (intro keep_settings_cong) (simp add: beside_def)
  have "keep_settings t r (new_secret t r s)
      (given (rq_ModelPayloadOverrides r) (\<lambda>v s. s\<lparr>sv_modelPayloadOverrides := overrides_of v\<rparr>)
        (given (rq_ModelMapping r) (\<lambda>v s. s\<lparr>sv_modelMapping := v\<rparr>)
          (apply_migration (has_secret t r s) r (fst (apply_switches t r (apply_numbers t r s)))))) =
      keep_settings t r (new_secret t r s) s"
    by (rule k) (simp add: beside_given)
  then show ?thesis
    unfolding UpdateSettings_def before_save_def has_secret_def[symmetric] Let_def case_prod_beta by (simp only: fst_conv)
qed

lemma accepted_update:
  assumes "UpdateSettings json_valid t r s = (s', Inr resp)"
  shows "s' = save_settings t (keep_settings t r (new_secret t r s) s) (has_secret t r s) (before_save t r s)"
    "rq_AllowRemoteMigration r = Some True \<Longrightarrow> has_secret t r s"
  using assms unfolding UpdateSettings_eq Let_def by (auto split: if_splits)

lemma given_field: "(\<And>v s. g (f v s) = g s) \<Longrightarrow> g (given x f s) = g s"
  by (simp add: given_def split: option.splits)

lemma before_save_beside:
  "sv_db (before_save t r s) = sv_db s" "sv_adminSecretEnv (before_save t r s) = sv_adminSecretEnv s"
  "rtm_cfg (sv_rtManager (before_save t r s)) =
     (if any_rt r then kp_rt (keep_settings t r (new_secret t r s) s) else rtm_cfg (sv_rtManager s))"
  "sv_resin (before_save t r s) =
     (if any_resin r
      then SetResinConfig (Some \<lparr>rc_BaseURL = kp_resinURL (keep_settings t r (new_secret t r s) s),
                                 rc_PlatformName = kp_resinPlatformName (keep_settings t r (new_secret t r s) s)\<rparr>)
      else sv_resin s)"
proof -
  define s1 where "s1 = given (rq_ModelPayloadOverrides r) (\<lambda>v s. s\<lparr>sv_modelPayloadOverrides := overrides_of v\<rparr>)
    (given (rq_ModelMapping r) (\<lambda>v s. s\<lparr>sv_modelMapping := v\<rparr>)
      (apply_migration (has_secret t r s) r (fst (apply_switches t r (apply_numbers t r s)))))"
  have "beside s1 = beside s" by (simp add: s1_def beside_given)
  then have s1: "sv_db s1 = sv_db s" "sv_adminSecretEnv s1 = sv_adminSecretEnv s" "sv_rtManager s1 = sv_rtManager s"
      "sv_resin s1 = sv_resin s"
    by (simp_all add: beside_def)
  have "beside (before_save t r s) = beside (apply_kept r (keep_settings t r (new_secret t r s) s) s1)"
    by (simp add: before_save_def s1_def[symmetric] Let_def beside_given)
  with s1 show "sv_db (before_save t r s) = sv_db s" "sv_adminSecretEnv (before_save t r s) = sv_adminSecretEnv s"
    "rtm_cfg (sv_rtManager (before_save t r s)) =
       (if any_rt r then kp_rt (keep_settings t r (new_secret t r s) s) else rtm_cfg (sv_rtManager s))"
    "sv_resin (before_save t r s) =
       (if any_resin r
        then SetResinConfig (Some \<lparr>rc_BaseURL = kp_resinURL (keep_settings t r (new_secret t r s) s),
                                   rc_PlatformName = kp_resinPlatformName (keep_settings t r (new_secret t r s) s)\<rparr>)
        else sv_resin s)"
    by (auto simp: beside_def apply_kept_def any_rt_def any_resin_def SetRTManagerConfig_def Let_def)
qed

lemma apply_kept_migration: "sv_allowRemoteMigration (apply_kept r k s) = sv_allowRemoteMigration s"
  by (simp add: apply_kept_def Let_def)

lemma before_save_migration: "sv_allowRemoteMigration (before_save t r s) \<Longrightarrow> rq_AllowRemoteMigration r = Some True \<or> has_secret t r s"
  unfolding before_save_def Let_def
  by (simp add: given_field[of sv_allowRemoteMigration] on_store_def apply_kept_migration)
     (auto simp: apply_migration_def split: option.splits if_splits)

section \<open>Histories\<close>

definition run_updates :: "(string \<Rightarrow> bool) \<Rightarrow> (settings_turn \<times> settings_req) list \<Rightarrow> server \<Rightarrow> server" where
  "run_updates json_valid us s = fold (\<lambda>(t, r) s. fst (UpdateSettings json_valid t r s)) us s"

lemma process_ok_db [simp]: "process_ok (s\<lparr>sv_db := d\<rparr>) = process_ok s"
  by (simp add: process_ok_def)

lemma save_settings_db:
  "process_ok (save_settings t k b s) = process_ok s"
  "sv_db (save_settings t k b s) = (if tn_written t then Some (settings_of s k b) else sv_db s)"
  "sv_adminSecretEnv (save_settings t k b s) = sv_adminSecretEnv s"
  by (simp_all add: save_settings_def)

lemma update_row:
  obtains "sv_db (fst (UpdateSettings json_valid t r s)) = sv_db s"
  | k where "sv_db (fst (UpdateSettings json_valid t r s)) = Some (settings_of (before_save t r s) k (has_secret t r s))"
      "kp_secret k = new_secret t r s" "process_ok s \<Longrightarrow> process_ok (before_save t r s)"
proof (cases "UpdateSettings json_valid t r s")
  case (Pair s' e)
  show thesis
  proof (cases e)
    case (Inl err)
    with Pair rejected_update that(1) show thesis by (simp add: beside_def)
  next
    case (Inr resp)
    define k where "k = keep_settings t r (new_secret t r s) s"
    have s': "s' = save_settings t k (has_secret t r s) (before_save t r s)"
      using accepted_update(1) Pair Inr by (simp add: k_def)
    have "process_ok s \<Longrightarrow> process_ok (before_save t r s)"
      using update_ok[of s json_valid t r] Pair s' by (simp add: save_settings_db)
    with that Pair s' before_save_beside(1) show thesis
      by (cases "tn_written t") (auto simp: save_settings_db k_def keep_settings_def Let_def)
  qed
qed

lemma update_env: "sv_adminSecretEnv (fst (UpdateSettings json_valid t r s)) = sv_adminSecretEnv s"
proof (cases "UpdateSettings json_valid t r s")
  case (Pair s' e)
  show ?thesis
  proof (cases e)
    case (Inl err)
    with Pair rejected_update show ?thesis by (simp add: beside_def)
  next
    case (Inr resp)
    with Pair accepted_update(1)[of json_valid t r s s' resp] before_save_beside(2)[of t r s] show ?thesis
      by (simp add: save_settings_db)
  qed
qed

definition in_bounds :: "server \<Rightarrow> bool" where
  "in_bounds s \<longleftrightarrow> process_ok s \<and> (\<forall>st \<in> set_option (sv_db s). row_ok st)"

lemma update_in_bounds: "in_bounds s \<Longrightarrow> in_bounds (fst (UpdateSettings json_valid t r s))"
  by (rule update_row[of json_valid t r s]) (auto simp: in_bounds_def update_ok settings_row_ok)

lemma updates_in_bounds: "in_bounds s \<Longrightarrow> in_bounds (run_updates json_valid us s)"
  unfolding run_updates_def by (induction us arbitrary: s) (auto simp: update_in_bounds)

lemma first_row_ok: "row_ok first_settings"
  by (simp add: row_ok_def first_settings_def)

lemma started_store_ok:
  assumes "row_ok st"
  shows "store_ok (NewStore env proxies b tc (Some (SystemSettings.truncate st)) h)"
proof -
  have "whole_minutes hi (or_default (n * minute) d)" if "1 \<le> n" "n \<le> hi" for n hi d
    using that by (auto simp: whole_minutes_def or_default_def)
  then show ?thesis
    using assms by (auto simp: store_ok_def NewStore_def Let_def row_ok_def SystemSettings.truncate_def)
qed

lemma started_row_ok: "\<forall>st \<in> set_option db. row_ok st \<Longrightarrow> row_ok (fst (start_settings readable writable db))"
  by (simp add: start_settings_def first_row_ok split: option.splits)

lemma started_process:
  assumes "row_ok (fst (start_settings readable writable db))"
  shows "process_ok (start_server env secretEnv proxies tc h now readable writable db)"
  using started_store_ok[OF assms] assms
  by (simp add: start_server_def case_prod_beta process_ok_def row_ok_def NewEnhancedRateLimiter_def)

lemma started_db:
  "sv_db (start_server env secretEnv proxies tc h now readable writable db) =
     (if readable \<and> writable \<and> db = None then Some first_settings else db)"
  by (simp add: start_server_def start_settings_def split: option.splits)

lemma started_in_bounds:
  "\<forall>st \<in> set_option db. row_ok st \<Longrightarrow> in_bounds (start_server env secretEnv proxies tc h now readable writable db)"
  by (auto simp: in_bounds_def started_process started_row_ok started_db first_row_ok split: if_splits)

text \<open>
  C28. Whatever is asked of the admin API, the settings of the running process and of the database stay within their bounds,
  also if calls to the database fail in between.
\<close>

theorem settings_stay_in_bounds:
  assumes "\<forall>st \<in> set_option db. row_ok st"
  shows "in_bounds (run_updates json_valid us (start_server env secretEnv proxies tc h now readable writable db))"
  by (intro updates_in_bounds started_in_bounds assms)

text \<open>
  The row allows remote migration only with an admin secret, of the row or the environment, if it did so at the start.
\<close>

definition migration_guarded :: "string \<Rightarrow> full_settings \<Rightarrow> bool" where
  "migration_guarded secretEnv st \<longleftrightarrow>
     (set_AllowRemoteMigration st \<longrightarrow> trim_space (set_AdminSecret st) \<noteq> [] \<or> trim_space secretEnv \<noteq> [])"

lemma update_guarded:
  assumes "\<forall>st \<in> set_option (sv_db s). migration_guarded (sv_adminSecretEnv s) st"
  shows "\<forall>st \<in> set_option (sv_db (fst (UpdateSettings json_valid t r s))). migration_guarded (sv_adminSecretEnv s) st"
  by (rule update_row[of json_valid t r s])
     (use assms in \<open>auto simp: migration_guarded_def settings_of_def has_secret_def Let_def\<close>)

lemma updates_guarded:
  "\<forall>st \<in> set_option (sv_db s). migration_guarded (sv_adminSecretEnv s) st \<Longrightarrow>
     \<forall>st \<in> set_option (sv_db (run_updates json_valid us s)). migration_guarded (sv_adminSecretEnv s) st"
proof (induction us arbitrary: s)
  case (Cons u us)
  from update_guarded[OF Cons.prems] Cons.IH[of "fst (UpdateSettings json_valid (fst u) (snd u) s)"] show ?case
    by (simp add: run_updates_def case_prod_beta update_env)
qed (simp add: run_updates_def)

section \<open>Restart\<close>

text \<open>rt-manager and Resin run with what the row says.\<close>

definition rt_of :: "full_settings \<Rightarrow> RTManagerConfig" where
  "rt_of st = \<lparr>rtm_URL = set_RTManagerURL st, rtm_Password = set_RTManagerPassword st, rtm_Enabled = set_RTManagerEnabled st\<rparr>"

definition resin_of :: "full_settings \<Rightarrow> ResinConfig option" where
  "resin_of st = SetResinConfig (Some \<lparr>rc_BaseURL = set_ResinURL st, rc_PlatformName = set_ResinPlatformName st\<rparr>)"

definition in_sync :: "server \<Rightarrow> bool" where
  "in_sync s \<longleftrightarrow> (\<exists>st. sv_db s = Some st \<and> rtm_cfg (sv_rtManager s) = rt_of st \<and> sv_resin s = resin_of st)"

lemma trim_space_Nil: "trim_space [] = []"
  by code_simp

lemma started_settings:
  assumes "row_ok st"
  shows "settings_of (start_server env secretEnv proxies tc h now True w (Some st)) k b =
     st\<lparr>set_MaxRetries := (if set_MaxRetries st = 0 then 2 else set_MaxRetries st),
        set_TestModel := (if set_TestModel st = [] then ''gpt-5.4'' else set_TestModel st),
        set_ModelMapping := (if set_ModelMapping st = [] then ''{}'' else set_ModelMapping st),
        set_ModelPayloadOverrides := (if set_ModelPayloadOverrides st = [] then ''{}'' else set_ModelPayloadOverrides st),
        set_FastSchedulerEnabled := (case fastSchedulerFromEnv env of None \<Rightarrow> True | Some v \<Rightarrow> v),
        set_AllowRemoteMigration := (set_AllowRemoteMigration st \<and> b), set_AdminSecret := kp_secret k,
        set_ResinURL := kp_resinURL k, set_ResinPlatformName := kp_resinPlatformName k,
        set_RTManagerURL := rtm_URL (kp_rt k), set_RTManagerPassword := rtm_Password (kp_rt k),
        set_RTManagerEnabled := rtm_Enabled (kp_rt k)\<rparr>"
proof -
  have m: "or_default (n * minute) d = n * minute" "(if n * minute \<le> 0 then d else n * minute) div minute = n" if "1 \<le> n" for n d
    using that by (auto simp: or_default_def)
  show ?thesis
    using assms
    by (simp add: settings_of_def start_server_def start_settings_def NewStore_def Let_def row_ok_def m
        SystemSettings.truncate_def GetBackgroundRefreshIntervalMinutes_def GetUsageProbeMaxAgeMinutes_def
        GetRecoveryProbeIntervalMinutes_def GetBackgroundRefreshInterval_def GetUsageProbeMaxAge_def
        GetRecoveryProbeInterval_def NewEnhancedRateLimiter_def GetTestModel_def GetModelMapping_def
        GetModelPayloadOverrides_def)
qed

lemma started_sync: "in_sync (start_server env secretEnv proxies tc h now True w (Some st))"
  by (auto simp: in_sync_def start_server_def start_settings_def SetRTManagerConfig_def rt_of_def resin_of_def
      SetResinConfig_def trim_space_Nil Let_def)

lemma accepted_sync:
  assumes "in_sync s" "UpdateSettings json_valid t r s = (s', Inr resp)" "tn_resinRead t" "tn_rtRead t" "tn_written t"
  shows "in_sync s'"
proof -
  obtain st where st: "sv_db s = Some st" "rtm_cfg (sv_rtManager s) = rt_of st" "sv_resin s = resin_of st"
    using assms(1) by (auto simp: in_sync_def)
  define k where "k = keep_settings t r (new_secret t r s) s"
  have kept: "\<not> any_rt r \<Longrightarrow> kp_rt k = rt_of st"
    "\<not> any_resin r \<Longrightarrow> kp_resinURL k = set_ResinURL st \<and> kp_resinPlatformName k = set_ResinPlatformName st"
    using assms(3,4) st(1)
    by (auto simp: k_def keep_settings_def read_settings_def any_rt_def any_resin_def given_def rt_of_def Let_def)
  have "rt_of (settings_of s1 k b) = kp_rt k" for s1 b
    by (simp add: rt_of_def settings_of_def Let_def)
  moreover have "resin_of (settings_of s1 k b) =
      SetResinConfig (Some \<lparr>rc_BaseURL = kp_resinURL k, rc_PlatformName = kp_resinPlatformName k\<rparr>)" for s1 b
    by (simp add: resin_of_def settings_of_def Let_def)
  ultimately show ?thesis
    using assms(5) st kept before_save_beside(3,4)[of t r s] accepted_update(1)[OF assms(2)]
    by (auto simp: in_sync_def save_settings_def k_def[symmetric] resin_of_def)
qed


section \<open>The secret\<close>

text \<open>
  With a secret that the middleware knows, exactly the requests that present it get through: in one of the two headers, and
  with the bytes that \<open>SanitizeInput\<close> leaves.
\<close>

theorem admin_needs_its_secret:
  assumes "sv_adminSecretEnv s = secret \<or> sv_adminSecretEnv s = [] \<and> readable \<and> map_option set_AdminSecret (sv_db s) = Some secret"
    and "secret \<noteq> []"
  shows "adminAuthMiddleware readable h s \<longleftrightarrow> SanitizeInput (admin_key h) = secret"
  using assms
  by (auto simp: adminAuthMiddleware_def resolveAdminSecret_def read_settings_def secret_compare Let_def)

text \<open>A secret with bytes that \<open>SanitizeInput\<close> removes locks everybody out, whatever is presented.\<close>

lemma unclean_secret_locks_out:
  assumes "sv_adminSecretEnv s = secret" "SanitizeInput secret \<noteq> secret"
  shows "\<not> adminAuthMiddleware readable h s"
proof -
  have "secret \<noteq> []" using assms(2) by (auto simp: SanitizeInput_def)
  moreover have "SanitizeInput (admin_key h) \<noteq> secret"
    using assms(2) SanitizeInput_twice by metis
  ultimately show ?thesis
    using assms(1) by (simp add: adminAuthMiddleware_def resolveAdminSecret_def secret_compare Let_def)
qed

text \<open>
  But the secret of the database is only as good as its last read: while the row cannot be read, every request gets through;
  and an update of any setting whose first read fails writes the row back without its secret.
\<close>

theorem unread_secret_opens_admin:
  assumes "UpdateSettings json_valid t r s = (s', Inr resp)" "sv_adminSecretEnv s = []"
    and "\<not> tn_secretRead t" "rq_AdminSecret r = None" "tn_written t"
  shows "adminAuthMiddleware readable h s' \<and> adminAuthMiddleware False h s"
proof -
  have "new_secret t r s = []" using assms(3,4) by (simp add: new_secret_def read_settings_def)
  then have "set_AdminSecret (the (sv_db s')) = []" "sv_db s' \<noteq> None"
    using accepted_update(1)[OF assms(1)] assms(5)
    by (simp_all add: save_settings_def settings_of_def keep_settings_def Let_def)
  moreover have "sv_adminSecretEnv s' = []" using update_env[of json_valid t r s] assms(1,2) by simp
  ultimately show ?thesis
    using assms(2) by (auto simp: adminAuthMiddleware_def resolveAdminSecret_def read_settings_def split: option.splits)
qed

text \<open>
  An update that is refused has already changed the running process: what comes before the field in question is in force
  until the next restart, and the row says otherwise.
\<close>

theorem refused_update_is_half_done:
  assumes "rq_MaxRetries r = Some n" "UpdateSettings json_valid t r s = (s', Inl e)"
  shows "maxRetries (sv_store s') = clamp 0 10 n \<and> sv_db s' = sv_db s"
proof -
  have m: "maxRetries (sv_store (fst (apply_switches t r s1))) = clamp 0 10 n" for s1
    using assms(1) clamp_bounds[of 0 10 n]
    by (simp add: apply_switches_def case_prod_beta given_def[of "Some n"] on_store_def SetMaxRetries_def Let_def)
  have "maxRetries (sv_store (given (rq_ModelMapping r) (\<lambda>v s. s\<lparr>sv_modelMapping := v\<rparr>) (apply_migration b r s1))) =
      maxRetries (sv_store s1)" for b s1
    by (simp add: given_def apply_migration_def split: option.splits)
  with m have "maxRetries (sv_store s') = clamp 0 10 n"
    using assms(2) unfolding UpdateSettings_eq Let_def by (auto split: if_splits)
  moreover have "sv_db s' = sv_db s" using rejected_update[OF assms(2)] by (simp add: beside_def)
  ultimately show ?thesis by simp
qed

section \<open>An example\<close>

definition demo_settings :: full_settings where
  "demo_settings = first_settings\<lparr>set_AdminSecret := ''s3cret'', set_MaxRetries := 3\<rparr>"

definition demo_server :: server where
  "demo_server =
     start_server (\<lambda>_. []) [] None (NewMemory 30) (\<lambda>_. zero_account) 0 True True (Some demo_settings)"

definition no_change :: settings_req where
  "no_change =
     \<lparr>rq_MaxConcurrency = None, rq_GlobalRPM = None, rq_TestModel = None, rq_TestConcurrency = None,
      rq_BackgroundRefreshIntervalMinutes = None, rq_UsageProbeMaxAgeMinutes = None,
      rq_RecoveryProbeIntervalMinutes = None, rq_ProxyURL = None, rq_PgMaxConns = None, rq_RedisPoolSize = None,
      rq_AutoCleanUnauthorized = None, rq_AutoCleanRateLimited = None, rq_AdminSecret = None,
      rq_AutoCleanFullUsage = None, rq_AutoCleanError = None, rq_AutoCleanExpired = None, rq_ProxyPoolEnabled = None,
      rq_FastSchedulerEnabled = None, rq_FastAliasEnabled = None, rq_MaxRetries = None, rq_AllowRemoteMigration = None,
      rq_ModelMapping = None, rq_ModelPayloadOverrides = None, rq_ResinURL = None, rq_ResinPlatformName = None,
      rq_RTManagerURL = None, rq_RTManagerPassword = None, rq_RTManagerEnabled = None, rq_FreeGPT55Enabled = None,
      rq_PreferPaidEnabled = None\<rparr>"

definition well :: settings_turn where
  "well = \<lparr>tn_now = 1, tn_secretRead = True, tn_resinRead = True, tn_rtRead = True, tn_written = True, tn_sourceRead = True,
     tn_proxies = None, tn_batchDeleted = True, tn_deleted = (\<lambda>_. True)\<rparr>"

definition seven_retries :: settings_req where
  "seven_retries = no_change\<lparr>rq_MaxRetries := Some 7\<rparr>"

lemma demo_server_ok: "process_ok demo_server" "in_sync demo_server"
proof -
  have "row_ok demo_settings" by (simp add: row_ok_def demo_settings_def first_settings_def)
  then show "process_ok demo_server" unfolding demo_server_def by (intro started_process started_row_ok) simp
  show "in_sync demo_server" unfolding demo_server_def by (rule started_sync)
qed

lemma demo_update:
  assumes "tn_written t"
  shows "\<exists>s' resp. UpdateSettings (\<lambda>_. True) t seven_retries demo_server = (s', Inr resp) \<and>
     maxRetries (sv_store s') = 7 \<and> set_AdminSecret (the (sv_db s')) = (if tn_secretRead t then ''s3cret'' else [])"
proof -
  have "maxRetries (sv_store (fst (apply_switches t seven_retries s))) = 7" for s
    by (simp add: apply_switches_def seven_retries_def no_change_def given_def on_store_def SetMaxRetries_def clamp_def
        case_prod_beta)
  then have "maxRetries (sv_store (before_save t seven_retries demo_server)) = 7"
    by (simp add: before_save_def seven_retries_def no_change_def given_def on_store_def apply_migration_def apply_kept_def Let_def)
  then show ?thesis
    using assms
    by (simp add: UpdateSettings_eq seven_retries_def no_change_def update_valid_def save_settings_def settings_of_def
        keep_settings_def new_secret_def read_settings_def demo_server_def started_db demo_settings_def Let_def)
qed

lemma settings_stay_in_bounds_witness:
  "in_bounds (run_updates (\<lambda>_. True) [(well, seven_retries), (well\<lparr>tn_written := False\<rparr>, no_change\<lparr>rq_MaxConcurrency := Some 900\<rparr>)]
     demo_server)"
  unfolding demo_server_def
  by (rule settings_stay_in_bounds) (simp add: row_ok_def demo_settings_def first_settings_def)


lemma admin_needs_its_secret_witness:
  "adminAuthMiddleware True (Map.empty(''Authorization'' \<mapsto> ''Bearer s3cret'')) demo_server \<and>
   \<not> adminAuthMiddleware True Map.empty demo_server"
proof -
  have s: "map_option set_AdminSecret (sv_db demo_server) = Some ''s3cret''" "sv_adminSecretEnv demo_server = []"
    by (simp_all add: demo_server_def started_db demo_settings_def) (simp add: start_server_def start_settings_def)
  have c: "SanitizeInput (admin_key (Map.empty(''Authorization'' \<mapsto> ''Bearer s3cret''))) = ''s3cret''"
    "SanitizeInput (admin_key Map.empty) = []"
    by code_simp+
  from admin_needs_its_secret[of demo_server "''s3cret''" True] s c show ?thesis by simp
qed

lemma unread_secret_opens_admin_witness:
  "\<exists>s'. fst (UpdateSettings (\<lambda>_. True) (well\<lparr>tn_secretRead := False\<rparr>) seven_retries demo_server) = s' \<and>
     adminAuthMiddleware True Map.empty s'"
proof -
  obtain s' resp where u: "UpdateSettings (\<lambda>_. True) (well\<lparr>tn_secretRead := False\<rparr>) seven_retries demo_server = (s', Inr resp)"
    using demo_update[of "well\<lparr>tn_secretRead := False\<rparr>"] by (auto simp: well_def)
  have "sv_adminSecretEnv demo_server = []" by (simp add: demo_server_def start_server_def start_settings_def)
  moreover have "\<not> tn_secretRead (well\<lparr>tn_secretRead := False\<rparr>)" "rq_AdminSecret seven_retries = None"
    "tn_written (well\<lparr>tn_secretRead := False\<rparr>)"
    by (simp_all add: well_def seven_retries_def no_change_def)
  ultimately have "adminAuthMiddleware True Map.empty s'" using unread_secret_opens_admin[OF u] by blast
  with u show ?thesis by simp
qed

lemma refused_update_is_half_done_witness:
  "maxRetries (sv_store (fst (UpdateSettings (\<lambda>_. False) well
     (seven_retries\<lparr>rq_ModelPayloadOverrides := Some ''{''\<rparr>) demo_server))) = 7"
proof -
  let ?r = "seven_retries\<lparr>rq_ModelPayloadOverrides := Some ''{''\<rparr>"
  have "\<exists>s' e. UpdateSettings (\<lambda>_. False) well ?r demo_server = (s', Inl e)"
    by (simp add: UpdateSettings_eq update_valid_def seven_retries_def no_change_def Let_def)
  then obtain s' e where u: "UpdateSettings (\<lambda>_. False) well ?r demo_server = (s', Inl e)" by blast
  from refused_update_is_half_done[OF _ u, of 7] u show ?thesis by (simp add: seven_retries_def clamp_def)
qed

end
