(* ===== verification/AccountTable.thy ===== *)
theory AccountTable
  imports StoreOps Refresh
begin

text \<open>
  The table of accounts: the statements of \<open>database/postgres.go\<close> that read and change it, and the loading of the pool from
  it (\<open>Init\<close>, \<open>loadFromDB\<close> of \<open>auth/store.go\<close>). A statement that fails changes nothing; whether one fails is an argument.
  How numbers and times are written is an argument too (\<open>formats\<close>).
\<close>

section \<open>Rows\<close>

datatype credential = CStr string | CNum float64 | COther

record AccountRow =
  ar_ID :: int
  ar_Name :: string
  ar_Platform :: string
  ar_Credentials :: "string \<rightharpoonup> credential"
  ar_ProxyURL :: string
  ar_Status :: string
  ar_CooldownReason :: string
  ar_CooldownUntil :: "time option"
  ar_ErrorMessage :: string
  ar_Locked :: bool
  ar_ScoreBiasOverride :: "int option"
  ar_BaseConcurrencyOverride :: "int option"
  ar_CreatedAt :: time

record formats =
  fm_num :: "float64 \<Rightarrow> string"
  fm_time :: "time \<Rightarrow> string"
  fm_parse_num :: "string \<Rightarrow> float64 option"
  fm_parse_time :: "string \<Rightarrow> time option"

definition GetCredential :: "formats \<Rightarrow> AccountRow \<Rightarrow> string \<Rightarrow> string" where
  "GetCredential fm row key =
     (case ar_Credentials row key of Some (CStr s) \<Rightarrow> s | Some (CNum x) \<Rightarrow> fm_num fm x | _ \<Rightarrow> [])"

section \<open>Statements\<close>

text \<open>Rows in the order of their ids; the sequence gives the next id.\<close>

record account_db =
  db_rows :: "AccountRow list"
  db_nextID :: int

definition ListActive :: "account_db \<Rightarrow> AccountRow list" where
  "ListActive db = filter (\<lambda>row. ar_Status row = ''active'') (db_rows db)"

definition ListNonDeleted :: "account_db \<Rightarrow> AccountRow list" where
  "ListNonDeleted db = filter (\<lambda>row. ar_Status row \<noteq> ''deleted'') (db_rows db)"

definition update_row :: "int \<Rightarrow> (AccountRow \<Rightarrow> AccountRow) \<Rightarrow> account_db \<Rightarrow> account_db" where
  "update_row dbID f db = db\<lparr>db_rows := map (\<lambda>row. if ar_ID row = dbID then f row else row) (db_rows db)\<rparr>"

definition mark_deleted :: "AccountRow \<Rightarrow> AccountRow" where
  "mark_deleted row =
     (if ar_Status row = ''deleted'' then row
      else row\<lparr>ar_Status := ''deleted'', ar_ErrorMessage := [], ar_CooldownReason := [], ar_CooldownUntil := None\<rparr>)"

definition SoftDeleteAccount :: "int \<Rightarrow> account_db \<Rightarrow> account_db" where
  "SoftDeleteAccount dbID db = update_row dbID mark_deleted db"

definition delete_batch :: "int list \<Rightarrow> account_db \<Rightarrow> account_db" where
  "delete_batch ids db =
     db\<lparr>db_rows := map (\<lambda>row. if ar_ID row \<in> set ids then mark_deleted row else row) (db_rows db)\<rparr>"

text \<open>Batches of 500, each a statement of its own; \<open>ok i\<close> says whether the \<open>i\<close>-th one succeeds. The result tells of an error.\<close>

function delete_batches :: "(nat \<Rightarrow> bool) \<Rightarrow> nat \<Rightarrow> int list \<Rightarrow> account_db \<Rightarrow> account_db \<times> bool" where
  "delete_batches ok i ids db =
     (if ids = [] then (db, True)
      else if \<not> ok i then (db, False)
      else delete_batches ok (Suc i) (drop 500 ids) (delete_batch (take 500 ids) db))"
  by pat_completeness auto
termination
  by (relation "measure (\<lambda>(ok, i, ids, db). length ids)") (auto simp: neq_Nil_conv)

declare delete_batches.simps [simp del]

definition BatchSoftDeleteAccounts :: "(nat \<Rightarrow> bool) \<Rightarrow> int list \<Rightarrow> account_db \<Rightarrow> account_db \<times> bool" where
  "BatchSoftDeleteAccounts ok ids db = delete_batches ok 0 ids db"

definition UpdateAccountSchedulerConfig :: "int \<Rightarrow> int option \<Rightarrow> int option \<Rightarrow> account_db \<Rightarrow> account_db \<times> bool" where
  "UpdateAccountSchedulerConfig dbID scoreBias baseConcurrency db =
     (update_row dbID (\<lambda>row. row\<lparr>ar_ScoreBiasOverride := scoreBias, ar_BaseConcurrencyOverride := baseConcurrency\<rparr>) db,
      dbID \<in> ar_ID ` set (db_rows db))"

definition SetAccountLocked :: "int \<Rightarrow> bool \<Rightarrow> account_db \<Rightarrow> account_db" where
  "SetAccountLocked dbID locked db = update_row dbID (\<lambda>row. row\<lparr>ar_Locked := locked\<rparr>) db"

definition mergeCredentialMaps :: "(string \<rightharpoonup> credential) \<Rightarrow> (string \<times> credential) list \<Rightarrow> string \<rightharpoonup> credential" where
  "mergeCredentialMaps base updates = base ++ map_of (rev updates)"

definition UpdateCredentials :: "int \<Rightarrow> (string \<times> credential) list \<Rightarrow> account_db \<Rightarrow> account_db" where
  "UpdateCredentials dbID updates db =
     update_row dbID (\<lambda>row. row\<lparr>ar_Credentials := mergeCredentialMaps (ar_Credentials row) updates\<rparr>) db"

definition UpdateUsageSnapshot :: "formats \<Rightarrow> int \<Rightarrow> float64 \<Rightarrow> time \<Rightarrow> account_db \<Rightarrow> account_db" where
  "UpdateUsageSnapshot fm dbID pct7d updatedAt =
     UpdateCredentials dbID [(''codex_7d_used_percent'', CNum pct7d), (''codex_usage_updated_at'', CStr (fm_time fm updatedAt))]"

definition UpdateUsageSnapshotFull ::
  "formats \<Rightarrow> int \<Rightarrow> float64 \<Rightarrow> time \<Rightarrow> float64 \<Rightarrow> time \<Rightarrow> time \<Rightarrow> account_db \<Rightarrow> account_db" where
  "UpdateUsageSnapshotFull fm dbID pct7d reset7dAt pct5h reset5hAt updatedAt =
     UpdateCredentials dbID
       [(''codex_7d_used_percent'', CNum pct7d), (''codex_7d_reset_at'', CStr (fm_time fm reset7dAt)),
        (''codex_5h_used_percent'', CNum pct5h), (''codex_5h_reset_at'', CStr (fm_time fm reset5hAt)),
        (''codex_usage_updated_at'', CStr (fm_time fm updatedAt))]"

definition UpdateUsageSnapshot5h :: "formats \<Rightarrow> int \<Rightarrow> float64 \<Rightarrow> time \<Rightarrow> time \<Rightarrow> account_db \<Rightarrow> account_db" where
  "UpdateUsageSnapshot5h fm dbID pct5h reset5hAt updatedAt =
     UpdateCredentials dbID
       [(''codex_5h_used_percent'', CNum pct5h), (''codex_5h_reset_at'', CStr (fm_time fm reset5hAt)),
        (''codex_usage_updated_at'', CStr (fm_time fm updatedAt))]"

definition SetError :: "int \<Rightarrow> string \<Rightarrow> account_db \<Rightarrow> account_db" where
  "SetError dbID errorMsg =
     update_row dbID (\<lambda>row. row\<lparr>ar_Status := ''error'', ar_ErrorMessage := errorMsg, ar_CooldownReason := [],
                                ar_CooldownUntil := None\<rparr>)"

definition ClearError :: "int \<Rightarrow> account_db \<Rightarrow> account_db" where
  "ClearError dbID =
     update_row dbID (\<lambda>row. row\<lparr>ar_Status := ''active'', ar_ErrorMessage := [], ar_CooldownReason := [],
                                ar_CooldownUntil := None\<rparr>)"

definition SetCooldown :: "int \<Rightarrow> string \<Rightarrow> time \<Rightarrow> account_db \<Rightarrow> account_db" where
  "SetCooldown dbID reason until =
     update_row dbID (\<lambda>row. row\<lparr>ar_CooldownReason := reason, ar_CooldownUntil := Some until\<rparr>)"

definition db_ClearCooldown :: "int \<Rightarrow> account_db \<Rightarrow> account_db" where
  "db_ClearCooldown dbID = update_row dbID (\<lambda>row. row\<lparr>ar_CooldownReason := [], ar_CooldownUntil := None\<rparr>)"

text \<open>The defaults of the columns are those of the schema.\<close>

definition insert_account :: "(string \<rightharpoonup> credential) \<Rightarrow> string \<Rightarrow> string \<Rightarrow> time \<Rightarrow> account_db \<Rightarrow> account_db \<times> int" where
  "insert_account credentials name proxyURL now db =
     (let dbID = db_nextID db;
          row = \<lparr>ar_ID = dbID, ar_Name = name, ar_Platform = ''openai'', ar_Credentials = credentials,
                 ar_ProxyURL = proxyURL, ar_Status = ''active'', ar_CooldownReason = [], ar_CooldownUntil = None,
                 ar_ErrorMessage = [], ar_Locked = False, ar_ScoreBiasOverride = None,
                 ar_BaseConcurrencyOverride = None, ar_CreatedAt = now\<rparr>
      in (db\<lparr>db_rows := db_rows db @ [row], db_nextID := dbID + 1\<rparr>, dbID))"

definition InsertAccount :: "string \<Rightarrow> string \<Rightarrow> string \<Rightarrow> time \<Rightarrow> account_db \<Rightarrow> account_db \<times> int" where
  "InsertAccount name refreshToken proxyURL = insert_account [''refresh_token'' \<mapsto> CStr refreshToken] name proxyURL"

definition InsertATAccount :: "string \<Rightarrow> string \<Rightarrow> string \<Rightarrow> time \<Rightarrow> account_db \<Rightarrow> account_db \<times> int" where
  "InsertATAccount name accessToken proxyURL = insert_account [''access_token'' \<mapsto> CStr accessToken] name proxyURL"

text \<open>\<open>credentialString\<close> prints other values too; tokens are strings.\<close>

definition credentialString :: "formats \<Rightarrow> (string \<rightharpoonup> credential) \<Rightarrow> string \<Rightarrow> string" where
  "credentialString fm creds key =
     (case creds key of None \<Rightarrow> [] | Some (CStr s) \<Rightarrow> s | Some (CNum x) \<Rightarrow> fm_num fm x | Some COther \<Rightarrow> ''{}'')"

definition tokens_in :: "formats \<Rightarrow> string \<Rightarrow> account_db \<Rightarrow> string set" where
  "tokens_in fm key db =
     {t \<in> (\<lambda>row. credentialString fm (ar_Credentials row) key) `
        set (filter (\<lambda>row. ar_Status row \<noteq> ''deleted'' \<and> ar_ErrorMessage row \<noteq> ''deleted'') (db_rows db)). t \<noteq> []}"

definition GetAllRefreshTokens :: "formats \<Rightarrow> account_db \<Rightarrow> string set" where
  "GetAllRefreshTokens fm = tokens_in fm ''refresh_token''"

definition GetAllAccessTokens :: "formats \<Rightarrow> account_db \<Rightarrow> string set" where
  "GetAllAccessTokens fm = tokens_in fm ''access_token''"

text \<open>What a call that the store has logged does to the table.\<close>

fun apply_call :: "formats \<Rightarrow> db_call \<Rightarrow> account_db \<Rightarrow> account_db" where
  "apply_call fm (DbSetCooldown dbID reason until) db = SetCooldown dbID reason until db"
| "apply_call fm (DbClearCooldown dbID) db = db_ClearCooldown dbID db"
| "apply_call fm (DbSetAccountLocked dbID locked) db = SetAccountLocked dbID locked db"
| "apply_call fm (DbSoftDeleteAccount dbID) db = SoftDeleteAccount dbID db"
| "apply_call fm (DbBatchSoftDeleteAccounts ids) db = fst (BatchSoftDeleteAccounts (\<lambda>_. True) ids db)"
| "apply_call fm (DbInsertAccountEvent dbID what source) db = db"
| "apply_call fm (DbBatchInsertAccountEvents ids what source) db = db"
| "apply_call fm (DbUpdateUsageSnapshot dbID pct t) db = UpdateUsageSnapshot fm dbID pct t db"
| "apply_call fm (DbUpdateUsageSnapshotFull dbID p7 r7 p5 r5 t) db = UpdateUsageSnapshotFull fm dbID p7 r7 p5 r5 t db"
| "apply_call fm (DbUpdateUsageSnapshot5h dbID p5 r5 t) db = UpdateUsageSnapshot5h fm dbID p5 r5 t db"
| "apply_call fm (DbUpdateCredentials dbID ups) db =
     UpdateCredentials dbID (map (\<lambda>(k, v). (k, case v of CredText s \<Rightarrow> CStr s | CredTime t \<Rightarrow> CStr (fm_time fm t))) ups) db"
| "apply_call fm (DbSetError dbID msg) db = SetError dbID msg db"

section \<open>Loading the pool\<close>

definition row_tokens :: "formats \<Rightarrow> AccountRow \<Rightarrow> account \<Rightarrow> account" where
  "row_tokens fm row a =
     (let tok = GetCredential fm row ''access_token''; expiresAt = GetCredential fm row ''expires_at''
      in if tok = [] then a
         else a\<lparr>AccessToken := tok, AccountID := GetCredential fm row ''account_id'',
                Email := GetCredential fm row ''email'', PlanType := GetCredential fm row ''plan_type'',
                HealthTier := HealthTierHealthy,
                ExpiresAt := (if expiresAt = [] then ExpiresAt a
                              else case fm_parse_time fm expiresAt of None \<Rightarrow> ExpiresAt a | Some t \<Rightarrow> t)\<rparr>)"

definition row_cooldown :: "AccountRow \<Rightarrow> time \<Rightarrow> account \<Rightarrow> account \<times> db_call list" where
  "row_cooldown row now a =
     (case ar_CooldownUntil row of
        None \<Rightarrow> (a, [])
      | Some until \<Rightarrow>
          if now < until then (SetCooldownUntil a until (ar_CooldownReason row), [])
          else (a, if ar_CooldownReason row \<noteq> [] then [DbClearCooldown (ar_ID row)] else []))"

definition time_or_zero :: "formats \<Rightarrow> string \<Rightarrow> time" where
  "time_or_zero fm s = (if s = [] then 0 else case fm_parse_time fm s of None \<Rightarrow> 0 | Some t \<Rightarrow> t)"

definition row_usage7d :: "formats \<Rightarrow> AccountRow \<Rightarrow> account \<Rightarrow> account" where
  "row_usage7d fm row a =
     (let pct = GetCredential fm row ''codex_7d_used_percent''; reset = GetCredential fm row ''codex_7d_reset_at''
      in if pct = [] then a
         else case fm_parse_num fm pct of
                None \<Rightarrow> a
              | Some p \<Rightarrow>
                  let a = SetUsageSnapshot a p (time_or_zero fm (GetCredential fm row ''codex_usage_updated_at''))
                  in if reset = [] then a
                     else case fm_parse_time fm reset of None \<Rightarrow> a | Some t \<Rightarrow> a\<lparr>Reset7dAt := t\<rparr>)"

definition row_usage5h :: "formats \<Rightarrow> AccountRow \<Rightarrow> account \<Rightarrow> account \<times> bool" where
  "row_usage5h fm row a =
     (let pct = GetCredential fm row ''codex_5h_used_percent''
      in if pct = [] then (a, False)
         else case fm_parse_num fm pct of
                None \<Rightarrow> (a, False)
              | Some p \<Rightarrow> (SetUsageSnapshot5h a p (time_or_zero fm (GetCredential fm row ''codex_5h_reset_at'')), True))"

definition infer_plan :: "AccountRow \<Rightarrow> bool \<Rightarrow> account \<Rightarrow> account \<times> db_call list" where
  "infer_plan row has5h a =
     (if has5h \<and> PlanType a = []
      then (a\<lparr>PlanType := ''plus''\<rparr>, [DbUpdateCredentials (ar_ID row) [(''plan_type'', CredText ''plus'')]]) else (a, []))"

definition lift_suppressed :: "AccountRow \<Rightarrow> time \<Rightarrow> account \<Rightarrow> account \<times> db_call list" where
  "lift_suppressed row now a =
     (let a = (if premium5hCooldownSuppressedLocked a now
               then a\<lparr>Status := StatusReady, CooldownUtil := 0, CooldownReason := []\<rparr> else a)
      in (a, if ar_CooldownUntil row \<noteq> None \<and> ar_CooldownReason row = ''rate_limited'' \<and> premium5hRateLimitedLocked a now
             then [DbClearCooldown (ar_ID row)] else []))"

definition first_account :: "formats \<Rightarrow> AccountRow \<Rightarrow> account" where
  "first_account fm row =
     zero_account\<lparr>DBID := ar_ID row, RefreshToken := GetCredential fm row ''refresh_token'',
       ProxyURL := trim_space (ar_ProxyURL row), HealthTier := HealthTierWarm, AddedAt := unix_nano (ar_CreatedAt row),
       ScoreBiasOverride := ar_ScoreBiasOverride row, BaseConcurrencyOverride := ar_BaseConcurrencyOverride row,
       Locked := (if ar_Locked row then 1 else 0)\<rparr>"

text \<open>The account of a row and the calls to the database on the way; a row without tokens is skipped.\<close>

definition has_token :: "formats \<Rightarrow> AccountRow \<Rightarrow> bool" where
  "has_token fm row \<longleftrightarrow> GetCredential fm row ''refresh_token'' \<noteq> [] \<or> GetCredential fm row ''access_token'' \<noteq> []"

definition load_account :: "formats \<Rightarrow> int \<Rightarrow> time \<Rightarrow> AccountRow \<Rightarrow> account \<times> db_call list" where
  "load_account fm limit now row =
     (let (a, calls) = row_cooldown row now (row_tokens fm row (first_account fm row));
          (a, has5h) = row_usage5h fm row (row_usage7d fm row a);
          (a, calls5h) = infer_plan row has5h a;
          (a, callsLift) = lift_suppressed row now a
      in (recomputeSchedulerLocked a limit now, calls @ calls5h @ callsLift))"

text \<open>Objects are allocated one after the other from \<open>next\<close> on.\<close>

definition load_row :: "formats \<Rightarrow> time \<Rightarrow> AccountRow \<Rightarrow> Store \<times> addr \<Rightarrow> Store \<times> addr" where
  "load_row fm now row out =
     (case out of (s, next) \<Rightarrow>
        if \<not> has_token fm row then (s, next)
        else case load_account fm (maxConcurrency s) now row of
               (a, calls) \<Rightarrow>
                 (fold log_db calls (set_account next a s)
                    \<lparr>accounts := accounts s @ [next], accountIndex := (accountIndex s)(DBID a \<mapsto> next)\<rparr>, Suc next))"

definition loadFromDB :: "formats \<Rightarrow> time \<Rightarrow> AccountRow list option \<Rightarrow> Store \<times> addr \<Rightarrow> (Store \<times> addr) option" where
  "loadFromDB fm now listed out = map_option (\<lambda>rows. fold (load_row fm now) rows out) listed"

definition Init :: "formats \<Rightarrow> time \<Rightarrow> AccountRow list option \<Rightarrow> Store \<times> addr \<Rightarrow> (Store \<times> addr) option" where
  "Init fm now listed out =
     (case loadFromDB fm now listed out of
        None \<Rightarrow> None
      | Some (s, next) \<Rightarrow> Some (if accounts s = [] then s else rebuildFastScheduler s now, next))"

end
