(* ===== verification/AccountTableLaws.thy ===== *)
theory AccountTableLaws
  imports AccountTable StoreProps
begin

text \<open>
  The pool that \<open>Init\<close> loads is the table of active accounts; a cooldown that the pool has written survives a restart.
\<close>

section \<open>Objects\<close>

lemma store_inv_alloc:
  assumes inv: "store_inv s" and new: "nx \<notin> set (accounts s)"
  shows "store_inv (set_account nx a s)"
proof -
  let ?h = "(st_heap s)(nx := a)"
  have h: "DBID (?h ad) = DBID (st_heap s ad)" if "ad \<in> set (accounts s)" for ad
    using new that by auto
  have "fs_inv ?h fs" if fs: "getFastScheduler s = Some fs" for fs
  proof -
    have "e_acc e \<noteq> nx" if "e \<in> set (fs_buckets fs t)" for e t
      using store_invD(4)[OF inv fs, of "e_acc e"] new that by (auto simp: has_entry_def)
    then show ?thesis using store_invD(3)[OF inv fs] by (simp add: fs_inv_def)
  qed
  moreover have "distinct (map (\<lambda>ad. DBID (?h ad)) (accounts s))"
    using store_invD(1)[OF inv] h by (simp only: map_cong[OF refl h])
  moreover have "accountIndex s k = Some ad \<longleftrightarrow> ad \<in> set (accounts s) \<and> DBID (?h ad) = k" for k ad
    using store_invD(2)[OF inv] h by metis
  ultimately show ?thesis
    unfolding store_inv_def by (simp only: set_account_frame getFastScheduler_frame) (use store_invD(4)[OF inv] in blast)
qed

lemma log_calls [simp]:
  "accounts (fold log_db calls s) = accounts s" "accountIndex (fold log_db calls s) = accountIndex s"
  "st_heap (fold log_db calls s) = st_heap s" "getFastScheduler (fold log_db calls s) = getFastScheduler s"
  "maxConcurrency (fold log_db calls s) = maxConcurrency s" "fastScheduler (fold log_db calls s) = fastScheduler s"
  "fastSchedulerEnabled (fold log_db calls s) = fastSchedulerEnabled s"
  by (induction calls arbitrary: s) (simp_all add: log_db_def getFastScheduler_def)

section \<open>Loading\<close>

lemma row_steps_id:
  "DBID (row_tokens fm row a) = DBID a" "DBID (fst (row_cooldown row now a)) = DBID a"
  "DBID (row_usage7d fm row a) = DBID a" "DBID (fst (row_usage5h fm row a)) = DBID a"
  "DBID (fst (infer_plan row b a)) = DBID a" "DBID (fst (lift_suppressed row now a)) = DBID a"
  by (simp_all add: row_tokens_def row_cooldown_def row_usage5h_def row_usage7d_def infer_plan_def lift_suppressed_def
      SetCooldownUntil_def SetUsageSnapshot_def SetUsageSnapshot5h_def Let_def split: option.splits)

lemma load_account_id: "DBID (fst (load_account fm limit now row)) = ar_ID row"
  by (simp add: load_account_def case_prod_beta row_steps_id) (simp add: first_account_def)

text \<open>The pool is coherent and lies below the next address.\<close>

definition pool_ok :: "Store \<times> addr \<Rightarrow> bool" where
  "pool_ok out \<longleftrightarrow> store_inv (fst out) \<and> (\<forall>ad \<in> set (accounts (fst out)). ad < snd out)"

definition pool_ids :: "Store \<Rightarrow> int list" where
  "pool_ids s = map (\<lambda>ad. DBID (st_heap s ad)) (accounts s)"

lemma append_account_inv:
  assumes inv: "store_inv s" and old: "nx \<notin> set (accounts s)" and id: "DBID a \<notin> set (pool_ids s)"
  shows "store_inv (fold log_db calls (set_account nx a s)
     \<lparr>accounts := accounts s @ [nx], accountIndex := (accountIndex s)(DBID a \<mapsto> nx)\<rparr>)"
proof -
  let ?h = "(st_heap s)(nx := a)"
  let ?s = "fold log_db calls (set_account nx a s)
     \<lparr>accounts := accounts s @ [nx], accountIndex := (accountIndex s)(DBID a \<mapsto> nx)\<rparr>"
  have alloc: "store_inv (set_account nx a s)" by (rule store_inv_alloc[OF inv old])
  have h: "DBID (?h ad) = DBID (st_heap s ad)" "DBID (st_heap s ad) \<noteq> DBID a" if "ad \<in> set (accounts s)" for ad
    using old id that by (force simp: pool_ids_def)+
  have "distinct (map (\<lambda>ad. DBID (?h ad)) (accounts s @ [nx]))"
    using store_invD(1)[OF alloc] h by force
  moreover have "((accountIndex s)(DBID a \<mapsto> nx)) k = Some ad \<longleftrightarrow> ad \<in> set (accounts s @ [nx]) \<and> DBID (?h ad) = k" for k ad
    using store_invD(2)[OF inv, of k ad] h(2)[of ad] old by auto
  moreover have "getFastScheduler ?s = getFastScheduler (set_account nx a s)" by (simp add: getFastScheduler_def)
  moreover have "st_heap ?s = ?h" "accounts ?s = accounts s @ [nx]" "accountIndex ?s = (accountIndex s)(DBID a \<mapsto> nx)"
    by simp_all
  ultimately show ?thesis
    using store_invD(3,4)[OF alloc] unfolding store_inv_def by simp
qed

lemma load_row_ok:
  assumes "pool_ok out" "ar_ID row \<notin> set (pool_ids (fst out))"
  shows "pool_ok (load_row fm now row out) \<and>
    pool_ids (fst (load_row fm now row out)) = pool_ids (fst out) @ (if has_token fm row then [ar_ID row] else [])"
proof -
  obtain s nx where out: "out = (s, nx)" by (cases out)
  obtain a calls where a: "load_account fm (maxConcurrency s) now row = (a, calls)" by (cases "load_account fm (maxConcurrency s) now row")
  have id: "DBID a = ar_ID row" using load_account_id[of fm "maxConcurrency s" now row] a by simp
  have old: "nx \<notin> set (accounts s)" and inv: "store_inv s" using assms(1) out by (auto simp: pool_ok_def)
  have "map (\<lambda>ad. DBID (((st_heap s)(nx := a)) ad)) (accounts s) = pool_ids s"
    using old by (auto simp: pool_ids_def)
  then show ?thesis
    using assms out append_account_inv[OF inv old, of a calls] id
    by (auto simp: load_row_def a pool_ok_def pool_ids_def less_Suc_eq)
qed

lemma load_rows_ok:
  assumes "pool_ok out" "distinct (map ar_ID rows)" "set (map ar_ID rows) \<inter> set (pool_ids (fst out)) = {}"
  shows "pool_ok (fold (load_row fm now) rows out) \<and>
    pool_ids (fst (fold (load_row fm now) rows out)) = pool_ids (fst out) @ map ar_ID (filter (has_token fm) rows)"
  using assms
proof (induction rows arbitrary: out)
  case (Cons row rows)
  from Cons.prems load_row_ok[of out row fm now] have "pool_ok (load_row fm now row out)"
    "pool_ids (fst (load_row fm now row out)) = pool_ids (fst out) @ (if has_token fm row then [ar_ID row] else [])"
    by auto
  with Cons.IH[of "load_row fm now row out"] Cons.prems show ?case by auto
qed simp

lemma rebuild_ids: "pool_ids (rebuildFastScheduler s now) = pool_ids s"
proof (cases "fastSchedulerEnabled s")
  case True
  have "DBID (fst (BuildFastScheduler s now) x) = DBID (st_heap s x)" for x
    unfolding BuildFastScheduler_def by (simp add: touched_frame[OF Rebuild_touched])
  with True show ?thesis by (simp add: rebuildFastScheduler_def pool_ids_def case_prod_beta)
qed (simp add: rebuildFastScheduler_def)

text \<open>
  After the start the pool holds exactly the active rows of the table that have a token, in their order; list, index and
  scheduler agree.
\<close>

theorem started_pool_is_the_table:
  assumes "Init fm now (Some (ListActive db)) (NewStore env proxies b tc settings h, n) = Some (s, n')"
    and "distinct (map ar_ID (db_rows db))"
  shows "store_inv s \<and> pool_ids s = map ar_ID (filter (has_token fm) (ListActive db))"
proof -
  let ?out = "fold (load_row fm now) (ListActive db) (NewStore env proxies b tc settings h, n)"
  have "distinct (map ar_ID (ListActive db))" using assms(2) by (simp add: ListActive_def distinct_map_filter)
  moreover have "pool_ok (NewStore env proxies b tc settings h, n)" by (simp add: pool_ok_def)
  ultimately have out: "pool_ok ?out" "pool_ids (fst ?out) = map ar_ID (filter (has_token fm) (ListActive db))"
    using load_rows_ok[of "(NewStore env proxies b tc settings h, n)" "ListActive db" fm now] by (auto simp: pool_ids_def)
  from assms(1) out show ?thesis
    by (auto simp: Init_def loadFromDB_def pool_ok_def rebuild_ids split: prod.splits if_splits intro: store_inv_rebuild)
qed

text \<open>A late error report on a deleted account undoes the deletion.\<close>

lemma error_revives_deleted:
  "row \<in> set (db_rows db) \<Longrightarrow> ar_ID row = k \<Longrightarrow> \<exists>row'. row' \<in> set (ListNonDeleted (SetError k msg (SoftDeleteAccount k db))) \<and> ar_ID row' = k"
  by (force simp: ListNonDeleted_def SetError_def SoftDeleteAccount_def update_row_def mark_deleted_def)

definition one_row_db :: account_db where
  "one_row_db = fst (InsertAccount ''a'' ''r'' '''' 0 \<lparr>db_rows = [], db_nextID = 1\<rparr>)"

definition plain_formats :: formats where
  "plain_formats = \<lparr>fm_num = (\<lambda>_. ''0''), fm_time = (\<lambda>_. ''''), fm_parse_num = (\<lambda>_. None), fm_parse_time = (\<lambda>_. None)\<rparr>"

lemma started_pool_is_the_table_witness:
  "\<exists>s n. Init plain_formats 0 (Some (ListActive one_row_db)) (NewStore (\<lambda>_. '''') None True (NewMemory 1) None (\<lambda>_. zero_account), 0) = Some (s, n) \<and>
     pool_ids s = [1]"
proof -
  let ?o = "(NewStore (\<lambda>_. '''') None True (NewMemory 1) None (\<lambda>_. zero_account), 0)"
  have "Init plain_formats 0 (Some (ListActive one_row_db)) ?o \<noteq> None"
    by (simp add: Init_def loadFromDB_def case_prod_beta)
  then obtain s n where i: "Init plain_formats 0 (Some (ListActive one_row_db)) ?o = Some (s, n)" by auto
  have "map ar_ID (filter (has_token plain_formats) (ListActive one_row_db)) = [1]" "distinct (map ar_ID (db_rows one_row_db))"
    by (simp_all add: one_row_db_def InsertAccount_def insert_account_def ListActive_def has_token_def GetCredential_def Let_def)
  with started_pool_is_the_table[OF i] i show ?thesis by simp
qed

section \<open>A cooldown outlives the process\<close>

lemma log_update [simp]: "dbLog (fastSchedulerUpdate ad now s) = dbLog s" "dbLog (set_account ad a s) = dbLog s"
  by (simp_all add: fastSchedulerUpdate_def set_account_def split: option.split prod.split)

lemma update_cooldown [simp]:
  "CooldownUtil (st_heap (fastSchedulerUpdate ad now s) x) = CooldownUtil (st_heap s x)"
  by (auto simp: fastSchedulerUpdate_heap snapped_eq split: option.split)

text \<open>What a call to \<open>MarkCooldown\<close> writes.\<close>

lemma cooldown_calls:
  assumes "dbPresent s"
  obtains b where
    "dbLog (MarkCooldown s ad d reason now) = dbLog s @
       DbSetCooldown (DBID (st_heap s ad)) reason (CooldownUtil (st_heap (MarkCooldown s ad d reason now) ad)) #
       (if b then [DbSetAccountLocked (DBID (st_heap s ad)) False] else [])"
proof -
  define a where "a = fst (mark_cooldown_locked (st_heap s ad) (maxConcurrency s) now d reason)"
  define u where "u = now + snd (mark_cooldown_locked (st_heap s ad) (maxConcurrency s) now d reason)"
  define s1 where "s1 = fastSchedulerUpdate ad now (set_account ad (SetCooldownUntil a u reason) s)"
  define b where "b \<longleftrightarrow> reason \<in> set [''unauthorized'', ''deactivated_workspace''] \<and> Locked (st_heap s1 ad) = 1"
  define s2 where "s2 = (if b then set_account ad ((st_heap s1 ad)\<lparr>Locked := 0\<rparr>) s1 else s1)"
  have "DBID a = DBID (st_heap s ad)"
    by (auto simp: a_def mark_cooldown_locked_def Let_def split: if_splits)
  moreover have "CooldownUtil (SetCooldownUntil a u reason) = u" "DBID (SetCooldownUntil a u reason) = DBID a"
    by (simp_all add: SetCooldownUntil_def Let_def)
  ultimately have s2: "CooldownUtil (st_heap s2 ad) = u" "DBID (st_heap s2 ad) = DBID (st_heap s ad)" "dbLog s2 = dbLog s"
      "dbPresent s2"
    using assms by (simp_all add: s2_def s1_def)
  have m: "MarkCooldown s ad d reason now =
      (let s3 = log_db (DbSetCooldown (DBID (st_heap s2 ad)) reason u) s2
       in if b then log_db (DbSetAccountLocked (DBID (st_heap s2 ad)) False) s3 else s3)"
    unfolding MarkCooldown_def case_prod_beta Let_def a_def[symmetric] u_def[symmetric] s1_def[symmetric]
      b_def[symmetric] s2_def[symmetric] by (simp add: log_db_def)
  show thesis
    by (rule that[of b]) (simp add: m s2 log_db_def)
qed

lemma row_after_cooldown:
  assumes "row \<in> set (db_rows (fold (apply_call fm)
      (DbSetCooldown k reason until # (if b then [DbSetAccountLocked k False] else [])) db))" "ar_ID row = k"
  shows "ar_CooldownUntil row = Some until" "ar_CooldownReason row = reason"
proof -
  let ?db = "SetCooldown k reason until db"
  have 1: "ar_CooldownUntil r = Some until \<and> ar_CooldownReason r = reason" if "r \<in> set (db_rows ?db)" "ar_ID r = k" for r
  proof -
    note h = that
    have "r \<in> (\<lambda>q. if ar_ID q = k then q\<lparr>ar_CooldownReason := reason, ar_CooldownUntil := Some until\<rparr> else q) ` set (db_rows db)"
      using h(1) by (simp add: SetCooldown_def update_row_def)
    then obtain q where "r = (if ar_ID q = k then q\<lparr>ar_CooldownReason := reason, ar_CooldownUntil := Some until\<rparr> else q)"
      by blast
    with h(2) show ?thesis by (simp split: if_splits)
  qed
  have "\<exists>r \<in> set (db_rows ?db). ar_ID r = k \<and> ar_CooldownUntil row = ar_CooldownUntil r \<and> ar_CooldownReason row = ar_CooldownReason r"
  proof (cases b)
    case True
    then have "fold (apply_call fm) (DbSetCooldown k reason until # (if b then [DbSetAccountLocked k False] else [])) db =
        SetAccountLocked k False ?db" by simp
    then have "row \<in> (\<lambda>r. if ar_ID r = k then r\<lparr>ar_Locked := False\<rparr> else r) ` set (db_rows ?db)"
      using assms(1) by (simp add: SetAccountLocked_def update_row_def[of k _ ?db])
    then obtain r where "r \<in> set (db_rows ?db)" "row = (if ar_ID r = k then r\<lparr>ar_Locked := False\<rparr> else r)"
      by blast
    with assms(2) show ?thesis by (intro bexI[of _ r]) (simp_all split: if_splits)
  qed (use assms in auto)
  with 1 show "ar_CooldownUntil row = Some until" "ar_CooldownReason row = reason" by auto
qed

lemma load_cooldown:
  assumes "ar_CooldownUntil row = Some until" "now < until"
  shows "\<not> IsAvailable (fst (load_account fm limit now row)) now"
proof -
  define a where "a = fst (row_cooldown row now (row_tokens fm row (first_account fm row)))"
  define a2 where "a2 = fst (infer_plan row (snd (row_usage5h fm row (row_usage7d fm row a))) (fst (row_usage5h fm row (row_usage7d fm row a))))"
  define a3 where "a3 = fst (lift_suppressed row now a2)"
  have "Status a = StatusCooldown" "CooldownUtil a = until"
    using assms by (simp_all add: a_def row_cooldown_def SetCooldownUntil_def Let_def)
  then have a2: "Status a2 = StatusCooldown" "CooldownUtil a2 = until"
    by (simp_all add: a2_def infer_plan_def row_usage5h_def row_usage7d_def SetUsageSnapshot_def SetUsageSnapshot5h_def
        Let_def split: option.splits)
  have a3: "load_account fm limit now row = (recomputeSchedulerLocked a3 limit now, snd (load_account fm limit now row))"
    by (simp add: load_account_def a_def a2_def a3_def case_prod_beta)
  show ?thesis
  proof (cases "premium5hCooldownSuppressedLocked a2 now")
    case True
    then have "premium5hRateLimitedLocked a2 now"
      by (auto simp: premium5hCooldownSuppressedLocked_def premium5hRateLimitWindowLocked_def split: if_splits)
    then have "premium5hRateLimitedLocked a3 now"
      by (auto simp: a3_def lift_suppressed_def premium5hRateLimitedLocked_def Let_def split: if_splits)
    then show ?thesis by (subst a3) (auto simp: IsAvailable_def premium5hRateLimitedLocked_def split: if_splits)
  next
    case False
    then have "Status a3 = StatusCooldown" "CooldownUtil a3 = until"
      using a2 by (simp_all add: a3_def lift_suppressed_def Let_def)
    then show ?thesis using assms(2) by (subst a3) (simp add: IsAvailable_def)
  qed
qed

text \<open>
  C32. A cooldown or ban outlives the process: once what \<open>MarkCooldown\<close> has written is in the table, an account loaded from it
  before the end of the cooldown is not available.
\<close>

theorem cooldown_survives_restart:
  assumes "dbPresent s" "s' = MarkCooldown s ad d reason now"
    and "row \<in> set (db_rows (fold (apply_call fm) (drop (length (dbLog s)) (dbLog s')) db))"
    and "ar_ID row = DBID (st_heap s ad)" "now' < CooldownUtil (st_heap s' ad)"
  shows "\<not> IsAvailable (fst (load_account fm limit now' row)) now'"
proof -
  obtain b where b: "dbLog s' = dbLog s @
       DbSetCooldown (DBID (st_heap s ad)) reason (CooldownUtil (st_heap s' ad)) #
       (if b then [DbSetAccountLocked (DBID (st_heap s ad)) False] else [])"
    using cooldown_calls[OF assms(1), of ad d reason now] unfolding assms(2) by blast
  have "ar_CooldownUntil row = Some (CooldownUtil (st_heap s' ad))"
    by (rule row_after_cooldown(1)[where b = b and fm = fm and db = db and reason = reason])
       (use assms(3,4) b in simp_all)
  then show ?thesis using assms(5) by (rule load_cooldown)
qed

lemma cooldown_survives_restart_witness:
  "\<exists>row. row \<in> set (db_rows (fold (apply_call plain_formats)
        (dbLog (MarkCooldown (demo_store True) 1 hour ''rate_limited'' 5)) one_row_db)) \<and>
     \<not> IsAvailable (fst (load_account plain_formats 2 10 row)) 10"
proof -
  let ?s = "demo_store True"
  let ?s' = "MarkCooldown ?s 1 hour ''rate_limited'' 5"
  let ?db = "fold (apply_call plain_formats) (drop (length (dbLog ?s)) (dbLog ?s')) one_row_db"
  have l: "dbLog ?s = []" by code_simp
  have "1 \<in> ar_ID ` set (db_rows ?db)" by code_simp
  then obtain row where row: "1 = ar_ID row" "row \<in> set (db_rows ?db)" by (rule imageE)
  have p: "dbPresent ?s" "DBID (st_heap ?s 1) = 1" "10 < CooldownUtil (st_heap ?s' 1)" by code_simp+
  have "\<not> IsAvailable (fst (load_account plain_formats 2 10 row)) 10"
    by (rule cooldown_survives_restart[OF p(1) refl row(2) row(1)[symmetric, folded p(2)] p(3)])
  with row(2)[unfolded l list.size(3) drop_0] show ?thesis by blast
qed

end
