(* ===== verification/Dedupe.thy ===== *)
theory Dedupe
  imports AccountTable "HOL-Library.List_Lexorder" "HOL-Library.Char_ord"
begin

text \<open>
  Duplicate accounts, \<open>admin/dedupe.go\<close>: the groups of accounts that share e-mail and platform, with the account that is to
  stay. Strings are compared by bytes. The buckets of a map are visited in an arbitrary order; the sort at the end makes it one.
\<close>

section \<open>Scores and groups\<close>

definition scoreAccount :: "formats \<Rightarrow> time \<Rightarrow> AccountRow \<Rightarrow> time \<Rightarrow> int" where
  "scoreAccount fm now row lastUsedAt =
     (let plan = to_lower (trim_space (GetCredential fm row ''plan_type''))
      in (if GetCredential fm row ''refresh_token'' \<noteq> [] then 100 else 0) +
         (if plan \<noteq> [] \<and> plan \<noteq> ''free'' then 50 else 0) +
         (if ar_Locked row then 30 else 0) +
         (if ar_Status row = ''active'' then 10 else 0) +
         (if lastUsedAt \<noteq> 0 \<and> go_sub now lastUsedAt < 7 * 24 * hour then 5 else 0))"

definition normalizeEmail :: "string \<Rightarrow> string" where
  "normalizeEmail raw = to_lower (trim_space raw)"

definition groupKey :: "formats \<Rightarrow> AccountRow \<Rightarrow> string \<times> string" where
  "groupKey fm row =
     (normalizeEmail (GetCredential fm row ''email''),
      let platform = to_lower (trim_space (ar_Platform row)) in if platform = [] then ''openai'' else platform)"

text \<open>What the front end is shown of an account: the row and its score.\<close>

record duplicateGroup =
  dg_Email :: string
  dg_Platform :: string
  dg_Winner :: "AccountRow \<times> int"
  dg_Losers :: "(AccountRow \<times> int) list"

definition dedupe_rank :: "formats \<Rightarrow> time \<Rightarrow> (int \<Rightarrow> time) \<Rightarrow> AccountRow \<Rightarrow> int \<times> int" where
  "dedupe_rank fm now used row = (- scoreAccount fm now row (used (ar_ID row)), ar_ID row)"

definition sorted_bucket :: "formats \<Rightarrow> time \<Rightarrow> (int \<Rightarrow> time) \<Rightarrow> AccountRow list \<Rightarrow> AccountRow list" where
  "sorted_bucket fm now used bucket = sort_key (dedupe_rank fm now used) bucket"

definition toInfo :: "formats \<Rightarrow> time \<Rightarrow> (int \<Rightarrow> time) \<Rightarrow> AccountRow \<Rightarrow> AccountRow \<times> int" where
  "toInfo fm now used row = (row, scoreAccount fm now row (used (ar_ID row)))"

definition groupable :: "formats \<Rightarrow> AccountRow list \<Rightarrow> AccountRow list" where
  "groupable fm rows = filter (\<lambda>row. normalizeEmail (GetCredential fm row ''email'') \<noteq> []) rows"

definition bucket_of :: "formats \<Rightarrow> AccountRow list \<Rightarrow> string \<times> string \<Rightarrow> AccountRow list" where
  "bucket_of fm rows key = filter (\<lambda>row. groupKey fm row = key) (groupable fm rows)"

definition duplicate_group :: "formats \<Rightarrow> time \<Rightarrow> (int \<Rightarrow> time) \<Rightarrow> AccountRow list \<Rightarrow> string \<times> string \<Rightarrow> duplicateGroup" where
  "duplicate_group fm now used rows key =
     (let bucket = map (toInfo fm now used) (sorted_bucket fm now used (bucket_of fm rows key))
      in \<lparr>dg_Email = fst key, dg_Platform = snd key, dg_Winner = hd bucket, dg_Losers = tl bucket\<rparr>)"

definition computeDuplicateGroups :: "formats \<Rightarrow> time \<Rightarrow> (int \<Rightarrow> time) \<Rightarrow> AccountRow list \<Rightarrow> duplicateGroup list" where
  "computeDuplicateGroups fm now used rows =
     map (duplicate_group fm now used rows)
       (sort (filter (\<lambda>key. length (bucket_of fm rows key) \<ge> 2) (remdups (map (groupKey fm) (groupable fm rows)))))"

text \<open>When an account was last used is known to the pool only: the first account in the list with the id.\<close>

definition GetLastUsedAt :: "account \<Rightarrow> time" where
  "GetLastUsedAt a = (if LastUsedAt a = 0 then 0 else LastUsedAt a + 62135596800 * second)"

definition last_used :: "Store \<Rightarrow> int \<Rightarrow> time" where
  "last_used s dbID =
     (case find (\<lambda>ad. DBID (st_heap s ad) = dbID) (accounts s) of
        None \<Rightarrow> 0 | Some ad \<Rightarrow> GetLastUsedAt (st_heap s ad))"

definition ListDuplicateAccounts :: "formats \<Rightarrow> time \<Rightarrow> Store \<Rightarrow> account_db \<Rightarrow> duplicateGroup list" where
  "ListDuplicateAccounts fm now s db = computeDuplicateGroups fm now (last_used s) (ListNonDeleted db)"

section \<open>Removing the losers\<close>

text \<open>
  Ids that are not positive and repeated ids are dropped. The accounts leave the table first, then the pool; what the table
  counts as changed is not looked at.
\<close>

fun clean_ids :: "int set \<Rightarrow> int list \<Rightarrow> int list" where
  "clean_ids seen [] = []"
| "clean_ids seen (k # ks) =
     (if k \<le> 0 \<or> k \<in> seen then clean_ids seen ks else k # clean_ids (insert k seen) ks)"

datatype dedupe_answer = Refused400 | Failed500 | Deleted nat

definition DedupeAccounts :: "(nat \<Rightarrow> bool) \<Rightarrow> int list \<Rightarrow> account_db \<times> Store \<Rightarrow> (account_db \<times> Store) \<times> dedupe_answer" where
  "DedupeAccounts ok loserIDs w =
     (let ids = clean_ids {} loserIDs
      in if loserIDs = [] \<or> length loserIDs > 10000 \<or> ids = [] then (w, Refused400)
         else case BatchSoftDeleteAccounts ok ids (fst w) of
                (db, False) \<Rightarrow> ((db, snd w), Failed500)
              | (db, True) \<Rightarrow>
                  ((db, log_db (DbBatchInsertAccountEvents ids ''deleted'' ''dedupe'') (fold (\<lambda>k s. RemoveAccount s k) ids (snd w))),
                   Deleted (length ids)))"

end
