(* ===== verification/DedupeLaws.thy ===== *)
theory DedupeLaws
  imports Dedupe AccountTableLaws "HOL-Library.Multiset"
begin

text \<open>
  The winner of a group is its best account, removing the losers leaves one account of each group, and what happens when
  the table takes only a part of the removals.
\<close>

section \<open>Groups\<close>

lemma sorted_bucket_mset: "mset (sorted_bucket fm now used rows) = mset rows"
  by (simp add: sorted_bucket_def)

lemma sorted_bucket_set [simp]: "set (sorted_bucket fm now used rows) = set rows"
  by (simp add: sorted_bucket_def)

lemma sorted_bucket_length [simp]: "length (sorted_bucket fm now used rows) = length rows"
  by (simp add: sorted_bucket_def)

definition group_keys :: "formats \<Rightarrow> AccountRow list \<Rightarrow> (string \<times> string) list" where
  "group_keys fm rows = filter (\<lambda>key. length (bucket_of fm rows key) \<ge> 2) (remdups (map (groupKey fm) (groupable fm rows)))"

lemma bucket_key: "row \<in> set (bucket_of fm rows key) \<Longrightarrow> groupKey fm row = key \<and> row \<in> set (groupable fm rows)"
  by (simp add: bucket_of_def)

lemma group_keys_iff: "key \<in> set (group_keys fm rows) \<longleftrightarrow> length (bucket_of fm rows key) \<ge> 2"
proof -
  have "key \<in> groupKey fm ` set (groupable fm rows)" if "length (bucket_of fm rows key) \<ge> 2"
  proof -
    from that obtain row where "row \<in> set (bucket_of fm rows key)" by (cases "bucket_of fm rows key") auto
    then show ?thesis by (auto dest!: bucket_key)
  qed
  then show ?thesis by (auto simp: group_keys_def)
qed

lemma groups_eq: "computeDuplicateGroups fm now used rows = map (duplicate_group fm now used rows) (sort (group_keys fm rows))"
  by (simp add: computeDuplicateGroups_def group_keys_def)

lemma group_cases:
  assumes "g \<in> set (computeDuplicateGroups fm now used rows)"
  obtains key w ls where "length (bucket_of fm rows key) \<ge> 2" "sorted_bucket fm now used (bucket_of fm rows key) = w # ls"
    "g = \<lparr>dg_Email = fst key, dg_Platform = snd key, dg_Winner = toInfo fm now used w, dg_Losers = map (toInfo fm now used) ls\<rparr>"
proof -
  obtain key where key: "key \<in> set (group_keys fm rows)" "g = duplicate_group fm now used rows key"
    using assms by (auto simp: groups_eq)
  then have two: "length (bucket_of fm rows key) \<ge> 2" by (simp add: group_keys_iff)
  obtain w ls where "sorted_bucket fm now used (bucket_of fm rows key) = w # ls"
    using two sorted_bucket_length[of fm now used "bucket_of fm rows key"]
    by (cases "sorted_bucket fm now used (bucket_of fm rows key)") auto
  with that[of key w ls] two key(2) show thesis by (simp add: duplicate_group_def)
qed

text \<open>
  The account that stays has the highest score among the accounts with its e-mail and platform, and of those with
  this score the smallest id; the rest of them are its losers.
\<close>

theorem winner_is_best:
  assumes "g \<in> set (computeDuplicateGroups fm now used rows)"
  shows "let w = fst (dg_Winner g); members = filter (\<lambda>row. groupKey fm row = groupKey fm w) (groupable fm rows)
    in mset (w # map fst (dg_Losers g)) = mset members \<and> dg_Losers g \<noteq> [] \<and>
       (\<forall>row \<in> set members. scoreAccount fm now row (used (ar_ID row)) < scoreAccount fm now w (used (ar_ID w)) \<or>
          scoreAccount fm now row (used (ar_ID row)) = scoreAccount fm now w (used (ar_ID w)) \<and> ar_ID w \<le> ar_ID row)"
proof -
  obtain key w ls where g: "length (bucket_of fm rows key) \<ge> 2" "sorted_bucket fm now used (bucket_of fm rows key) = w # ls"
    "g = \<lparr>dg_Email = fst key, dg_Platform = snd key, dg_Winner = toInfo fm now used w, dg_Losers = map (toInfo fm now used) ls\<rparr>"
    using group_cases[OF assms] .
  have "w \<in> set (bucket_of fm rows key)" using g(2) by (metis list.set_intros(1) sorted_bucket_set)
  then have key: "key = groupKey fm w" by (simp add: bucket_key)
  have "sorted (map (dedupe_rank fm now used) (w # ls))" using g(2) by (metis sorted_bucket_def sorted_sort_key)
  then have best: "dedupe_rank fm now used w \<le> dedupe_rank fm now used row" if "row \<in> set (bucket_of fm rows key)" for row
    using that g(2) by (metis (no_types, lifting) list.simps(9) order_refl set_ConsD sorted_bucket_set sorted_simps(2) image_eqI list.set_map)
  have "ls \<noteq> []" using g(1,2) sorted_bucket_length[of fm now used "bucket_of fm rows key"] by auto
  moreover have "mset (w # ls) = mset (bucket_of fm rows key)" using g(2) by (metis sorted_bucket_mset)
  moreover have "map (fst \<circ> toInfo fm now used) ls = ls" by (simp add: toInfo_def comp_def)
  ultimately show ?thesis
    using best by (fastforce simp: g(3) Let_def toInfo_def key[symmetric] bucket_of_def dedupe_rank_def less_eq_prod_def)
qed

section \<open>Removing the losers\<close>

definition loser_ids :: "duplicateGroup list \<Rightarrow> int list" where
  "loser_ids gs = concat (map (\<lambda>g. map (\<lambda>(row, score). ar_ID row) (dg_Losers g)) gs)"

lemma bucket_filter: "bucket_of fm (filter P rows) key = filter P (bucket_of fm rows key)"
  by (simp add: bucket_of_def groupable_def filter_filter conj_commute conj_left_commute)

lemma ids_inj: "distinct (map ar_ID rows) \<Longrightarrow> row \<in> set rows \<Longrightarrow> row' \<in> set rows \<Longrightarrow> ar_ID row = ar_ID row' \<Longrightarrow> row = row'"
  by (metis distinct_map inj_onD)

lemma bucket_rows: "set (bucket_of fm rows key) \<subseteq> set rows"
  by (auto simp: bucket_of_def groupable_def)

lemma loser_group:
  assumes "k \<in> set (loser_ids gs)"
  obtains g row where "g \<in> set gs" "row \<in> fst ` set (dg_Losers g)" "ar_ID row = k"
proof -
  from assms obtain g p where g: "g \<in> set gs" "p \<in> set (dg_Losers g)" "k = (case p of (row, score) \<Rightarrow> ar_ID row)"
    by (auto simp: loser_ids_def)
  then have "fst p \<in> fst ` set (dg_Losers g)" "ar_ID (fst p) = k" by (simp_all add: case_prod_beta)
  with that[of g "fst p"] g(1) show thesis by blast
qed

lemma once_in_distinct: "distinct xs \<Longrightarrow> x \<in> set xs \<Longrightarrow> filter (\<lambda>y. y = x) xs = [x]"
  by (induction xs) (auto simp: filter_empty_conv)

lemma loser_iff:
  assumes "distinct (map ar_ID rows)" "row \<in> set (bucket_of fm rows key)"
  shows "ar_ID row \<in> set (loser_ids (computeDuplicateGroups fm now used rows)) \<longleftrightarrow>
    length (bucket_of fm rows key) \<ge> 2 \<and> row \<in> set (tl (sorted_bucket fm now used (bucket_of fm rows key)))"
    (is "?l \<longleftrightarrow> ?r")
proof
  assume ?l
  then obtain g row' where g: "g \<in> set (computeDuplicateGroups fm now used rows)" "row' \<in> fst ` set (dg_Losers g)"
    "ar_ID row' = ar_ID row"
    by (rule loser_group)
  obtain key' w ls where k: "length (bucket_of fm rows key') \<ge> 2" "sorted_bucket fm now used (bucket_of fm rows key') = w # ls"
    "g = \<lparr>dg_Email = fst key', dg_Platform = snd key', dg_Winner = toInfo fm now used w, dg_Losers = map (toInfo fm now used) ls\<rparr>"
    using group_cases[OF g(1)] .
  have l: "row' \<in> set ls" using g(2) k(3) by (auto simp: toInfo_def)
  then have "row' \<in> set (bucket_of fm rows key')" using k(2) by (metis list.set_intros(2) sorted_bucket_set)
  moreover from this have "row' = row" using ids_inj[OF assms(1)] g(3) assms(2) bucket_rows by blast
  ultimately have "key' = key" using assms(2) by (metis bucket_key)
  with k l \<open>row' = row\<close> show ?r by simp
next
  assume r: ?r
  then have "duplicate_group fm now used rows key \<in> set (computeDuplicateGroups fm now used rows)"
    by (simp add: groups_eq group_keys_iff)
  moreover have "ar_ID row \<in> set (map (\<lambda>(row, score). ar_ID row) (dg_Losers (duplicate_group fm now used rows key)))"
    using r by (force simp: duplicate_group_def Let_def toInfo_def simp flip: map_tl)
  ultimately show ?l unfolding loser_ids_def by force
qed

lemma one_is_left:
  assumes "distinct (map ar_ID rows)" "bucket_of fm rows key \<noteq> []"
  shows "length (bucket_of fm (filter (\<lambda>row. ar_ID row \<notin> set (loser_ids (computeDuplicateGroups fm now used rows))) rows) key) = 1"
proof -
  let ?b = "bucket_of fm rows key"
  let ?s = "sorted_bucket fm now used ?b"
  have d: "distinct ?b" using assms(1) by (simp add: bucket_of_def groupable_def distinct_map)
  then have ds: "distinct ?s" by (metis mset_eq_imp_distinct_iff sorted_bucket_mset)
  obtain w ls where s: "?s = w # ls" using assms(2) sorted_bucket_length[of fm now used ?b] by (cases ?s) auto
  let ?keep = "\<lambda>row. ar_ID row \<notin> set (loser_ids (computeDuplicateGroups fm now used rows))"
  have keep: "?keep row \<longleftrightarrow> row = w" if "row \<in> set ?b" for row
  proof -
    have "row \<in> set (w # ls)" using that s sorted_bucket_set by metis
    moreover have "length ?b < 2 \<Longrightarrow> ls = []" using s sorted_bucket_length[of fm now used ?b] by (cases ls) auto
    moreover have "w \<notin> set ls" using ds s by simp
    ultimately show ?thesis using loser_iff[OF assms(1) that, of now used] s by auto
  qed
  have "w \<in> set ?b" using s by (metis list.set_intros(1) sorted_bucket_set)
  have "filter ?keep ?b = filter (\<lambda>row. row = w) ?b" by (rule filter_cong) (use keep in auto)
  also have "\<dots> = [w]" by (rule once_in_distinct) fact+
  finally show ?thesis by (simp add: bucket_filter)
qed

lemma no_groups_iff: "computeDuplicateGroups fm now used rows = [] \<longleftrightarrow> (\<forall>key. length (bucket_of fm rows key) \<le> 1)"
proof -
  have "computeDuplicateGroups fm now used rows = [] \<longleftrightarrow> set (group_keys fm rows) = {}"
    by (metis groups_eq map_is_Nil_conv set_empty set_sort)
  also have "\<dots> \<longleftrightarrow> (\<forall>key. length (bucket_of fm rows key) \<le> 1)"
    by (auto simp: set_eq_iff group_keys_iff not_le less_Suc_eq_le numeral_2_eq_2)
  finally show ?thesis .
qed

section \<open>The whole exchange\<close>

lemma clean_ids_set: "set (clean_ids seen ids) = {k \<in> set ids. 0 < k \<and> k \<notin> seen}"
proof (induction ids arbitrary: seen)
  case (Cons k ks)
  have "k \<le> 0 \<or> k \<in> seen \<Longrightarrow> ?case" using Cons.IH[of seen] by simp force
  moreover have "\<not> (k \<le> 0 \<or> k \<in> seen) \<Longrightarrow> ?case" using Cons.IH[of "insert k seen"] by simp force
  ultimately show ?case by argo
qed simp

lemma clean_ids_distinct: "distinct (clean_ids seen ids)"
  by (induction seen ids rule: clean_ids.induct) (simp_all add: clean_ids_set)

lemma mark_deleted_id [simp]: "ar_ID (mark_deleted row) = ar_ID row" "ar_Status (mark_deleted row) = ''deleted''"
  "mark_deleted (mark_deleted row) = mark_deleted row"
  by (simp_all add: mark_deleted_def)

lemma delete_batch_twice: "delete_batch js (delete_batch ids db) = delete_batch (ids @ js) db"
  by (simp add: delete_batch_def)

lemma delete_batches_all: "delete_batches (\<lambda>_. True) i ids db = (delete_batch ids db, True)"
proof (induction "length ids" arbitrary: i ids db rule: less_induct)
  case less
  show ?case
  proof (cases "ids = []")
    case True
    then show ?thesis by (simp add: delete_batches.simps delete_batch_def)
  next
    case False
    then have "delete_batches (\<lambda>_. True) (Suc i) (drop 500 ids) (delete_batch (take 500 ids) db) =
        (delete_batch (drop 500 ids) (delete_batch (take 500 ids) db), True)"
      by (intro less) simp
    with False show ?thesis by (subst delete_batches.simps) (simp add: delete_batch_twice)
  qed
qed

lemma left_after_delete:
  "ListNonDeleted (delete_batch ids db) = filter (\<lambda>row. ar_ID row \<notin> set ids) (ListNonDeleted db)"
proof -
  have "filter (\<lambda>row. ar_Status row \<noteq> ''deleted'') (map (\<lambda>row. if ar_ID row \<in> set ids then mark_deleted row else row) rows) =
      filter (\<lambda>row. ar_ID row \<notin> set ids) (filter (\<lambda>row. ar_Status row \<noteq> ''deleted'') rows)" for rows
    by (induction rows) auto
  then show ?thesis by (simp add: ListNonDeleted_def delete_batch_def)
qed

lemma removed_pool:
  "store_inv s \<Longrightarrow> store_inv (fold (\<lambda>k s. RemoveAccount s k) ids s) \<and>
     set (pool_ids (fold (\<lambda>k s. RemoveAccount s k) ids s)) = set (pool_ids s) - set ids"
proof (induction ids arbitrary: s)
  case (Cons k ids)
  have "set (pool_ids (RemoveAccount s k)) = set (pool_ids s) - {k}"
    using RemoveAccount_accounts(1,3)[OF Cons.prems, of k] by (auto simp: pool_ids_def)
  with Cons.IH[of "RemoveAccount s k"] store_inv_RemoveAccount[OF Cons.prems] show ?case by auto
qed simp

text \<open>
  C33. When the losers of the listed groups are sent back and the database answers, no duplicates are left; of every e-mail and
  platform exactly one account stays, and the pool keeps exactly the accounts that were not removed.
\<close>

theorem dedupe_leaves_no_duplicates:
  assumes "distinct (map ar_ID (db_rows db))" "\<forall>row \<in> set (db_rows db). 0 < ar_ID row" "store_inv s"
    and "ids = loser_ids (ListDuplicateAccounts fm now s db)" "ids \<noteq> []" "length ids \<le> 10000"
    and "DedupeAccounts (\<lambda>_. True) ids (db, s) = ((db', s'), a)"
  shows "a = Deleted (card (set ids)) \<and> ListDuplicateAccounts fm now' s'' db' = [] \<and>
    (\<forall>key. bucket_of fm (ListNonDeleted db) key \<noteq> [] \<longrightarrow> length (bucket_of fm (ListNonDeleted db') key) = 1) \<and>
    set (pool_ids s') = set (pool_ids s) - set ids"
proof -
  have d: "distinct (map ar_ID (ListNonDeleted db))" using assms(1) by (simp add: ListNonDeleted_def distinct_map_filter)
  have pos: "0 < k" if "k \<in> set ids" for k
  proof -
    note h = that
    obtain g row where g: "g \<in> set (computeDuplicateGroups fm now (last_used s) (ListNonDeleted db))"
        "row \<in> fst ` set (dg_Losers g)" "ar_ID row = k"
      using h unfolding assms(4) ListDuplicateAccounts_def by (rule loser_group)
    from group_cases[OF g(1)] obtain key w ls where
      k: "sorted_bucket fm now (last_used s) (bucket_of fm (ListNonDeleted db) key) = w # ls"
        "g = \<lparr>dg_Email = fst key, dg_Platform = snd key, dg_Winner = toInfo fm now (last_used s) w,
           dg_Losers = map (toInfo fm now (last_used s)) ls\<rparr>" .
    have "row \<in> set ls" using g(2) k(2) by (auto simp: toInfo_def)
    then have "row \<in> set (bucket_of fm (ListNonDeleted db) key)" using k(1) by (metis list.set_intros(2) sorted_bucket_set)
    then have "row \<in> set (ListNonDeleted db)" using bucket_rows by blast
    then have "row \<in> set (db_rows db)" by (simp add: ListNonDeleted_def)
    with assms(2) g(3) show ?thesis by blast
  qed
  let ?c = "clean_ids {} ids"
  have c: "set ?c = set ids" using pos by (auto simp: clean_ids_set)
  then have "?c \<noteq> []" using assms(5) by (metis list.set(1) set_empty)
  then have r: "db' = delete_batch ?c db" "s' = log_db (DbBatchInsertAccountEvents ?c ''deleted'' ''dedupe'') (fold (\<lambda>k s. RemoveAccount s k) ?c s)" "a = Deleted (length ?c)"
    using assms(5-7) by (auto simp: DedupeAccounts_def BatchSoftDeleteAccounts_def delete_batches_all Let_def)
  have len: "length ?c = card (set ids)" using c clean_ids_distinct[of "{}" ids] by (metis distinct_card)
  have rows: "ListNonDeleted db' = filter (\<lambda>row. ar_ID row \<notin> set ids) (ListNonDeleted db)"
    by (simp add: r(1) left_after_delete c)
  have one: "length (bucket_of fm (ListNonDeleted db') key) = 1" if "bucket_of fm (ListNonDeleted db) key \<noteq> []" for key
    using one_is_left[OF d that, of now "last_used s"] unfolding rows assms(4) ListDuplicateAccounts_def .
  have "length (bucket_of fm (ListNonDeleted db') key) \<le> 1" for key
    using one[of key] by (cases "bucket_of fm (ListNonDeleted db) key = []") (simp_all add: rows bucket_filter)
  then have "ListDuplicateAccounts fm now' s'' db' = []" by (simp add: ListDuplicateAccounts_def no_groups_iff)
  moreover have "set (pool_ids s') = set (pool_ids s) - set ids" using removed_pool[OF assms(3), of ?c] by (simp add: r(2) c pool_ids_def)
  ultimately show ?thesis using one r(3) len by simp
qed

definition twin_db :: account_db where
  "twin_db =
     fst (InsertAccount ''b'' ''r2'' '''' 0
       (fst (insert_account [''email'' \<mapsto> CStr ''A'', ''refresh_token'' \<mapsto> CStr ''r''] ''a'' '''' 0
         (fst (insert_account [''email'' \<mapsto> CStr '' a''] ''c'' '''' 0 \<lparr>db_rows = [], db_nextID = 1\<rparr>)))))"

lemma twin_losers: "loser_ids (ListDuplicateAccounts plain_formats 0 (demo_store True) twin_db) = [1]"
  by code_simp

lemma dedupe_leaves_no_duplicates_witness:
  "\<exists>db' s'. DedupeAccounts (\<lambda>_. True) [1] (twin_db, demo_store True) = ((db', s'), Deleted 1) \<and>
    ListDuplicateAccounts plain_formats 5 (demo_store True) db' = []"
proof -
  obtain db' s' a where d: "DedupeAccounts (\<lambda>_. True) [1] (twin_db, demo_store True) = ((db', s'), a)"
    by (metis prod.exhaust)
  have "distinct (map ar_ID (db_rows twin_db))" "\<forall>row \<in> set (db_rows twin_db). 0 < ar_ID row"
    by (simp_all add: twin_db_def InsertAccount_def insert_account_def Let_def)
  from dedupe_leaves_no_duplicates[OF this demo_store_inv twin_losers[symmetric] _ _ d, of 5 "demo_store True"] d
  show ?thesis by simp
qed

text \<open>
  But a failure after the first batch of 500 is answered as a failure of the whole: the accounts of that batch are gone from the
  table, and go on serving requests from the pool.
\<close>

theorem failed_dedupe_is_half_done:
  assumes "ok 0" "\<not> ok 1" "500 < length (clean_ids {} ids)" "length ids \<le> 10000"
  shows "\<exists>db'. DedupeAccounts ok ids (db, s) = ((db', s), Failed500) \<and>
    (\<forall>row \<in> set (db_rows db'). ar_ID row \<in> set (take 500 (clean_ids {} ids)) \<longrightarrow> ar_Status row = ''deleted'')"
proof -
  let ?c = "clean_ids {} ids"
  have "?c \<noteq> []" "drop 500 ?c \<noteq> []" "ids \<noteq> []" using assms(3) by auto
  moreover from this have "delete_batches ok 0 ?c db = (delete_batch (take 500 ?c) db, False)"
    using assms(1,2) by (subst delete_batches.simps) (simp add: delete_batches.simps[of ok "Suc 0"])
  ultimately show ?thesis
    using assms(4) by (auto simp: DedupeAccounts_def BatchSoftDeleteAccounts_def delete_batch_def Let_def)
qed

text \<open>The answer counts the ids that were sent, whatever the table holds.\<close>

lemma dedupe_counts_ids: "snd (DedupeAccounts (\<lambda>_. True) [77] (\<lparr>db_rows = [], db_nextID = 1\<rparr>, s)) = Deleted 1"
  by (simp add: DedupeAccounts_def BatchSoftDeleteAccounts_def delete_batches_all Let_def)

end
