(* ===== verification/AccountAdmin.thy ===== *)
theory AccountAdmin
  imports Dedupe Security
begin

text \<open>
  The handlers of \<open>admin/handler.go\<close> that change accounts: adding and importing, deleting, locking, resetting, scheduling. Their
  state is the table, the pool and the next free address. The inserts of a batch run in parallel; the order in which they come
  to the table is an argument, and the insert of a row and its joining the pool are one step. Which statements fail is an
  argument, as are the regular expressions that look for attacks, the base64 decoders and the parsed JSON.
\<close>

record account_admin =
  aa_db :: account_db
  aa_pool :: Store
  aa_next :: addr

datatype admin_answer =
  Bad400
| NotFound404
| Broken500
| Done200
| Counted nat nat              \<comment> \<open>succeeded, failed\<close>
| ImportCounted nat nat nat nat \<comment> \<open>succeeded, duplicate, failed, total\<close>

section \<open>Access tokens\<close>

record AccessTokenInfo =
  ati_Email :: string
  ati_ChatGPTAccountID :: string
  ati_PlanType :: string
  ati_ExpiresAt :: time

text \<open>The claims that are read: expiry in seconds, account id and plan, e-mail.\<close>

record at_claims =
  cl_Exp :: int
  cl_OpenAIAuth :: "(string \<times> string) option"
  cl_OpenAIProfile :: "string option"

record at_decoders =
  ad_url :: "string \<Rightarrow> string option"
  ad_std :: "string \<Rightarrow> string option"
  ad_claims :: "string \<Rightarrow> at_claims option"

definition ParseAccessToken :: "at_decoders \<Rightarrow> string \<Rightarrow> AccessTokenInfo option" where
  "ParseAccessToken dec accessToken =
     (let parts = split_on CHR ''.'' accessToken
      in if accessToken = [] then None
         else if length parts \<noteq> 3 then None
         else
           let payload = parts ! 1;
               payload = payload @ (if length payload mod 4 = 2 then ''=='' else if length payload mod 4 = 3 then ''='' else [])
           in case (case ad_url dec payload of Some d \<Rightarrow> Some d | None \<Rightarrow> ad_std dec payload) of
                None \<Rightarrow> None
              | Some decoded \<Rightarrow>
                  case ad_claims dec decoded of
                    None \<Rightarrow> None
                  | Some c \<Rightarrow>
                      Some \<lparr>ati_Email = (case cl_OpenAIProfile c of None \<Rightarrow> [] | Some e \<Rightarrow> e),
                            ati_ChatGPTAccountID = (case cl_OpenAIAuth c of None \<Rightarrow> [] | Some (acc, plan) \<Rightarrow> acc),
                            ati_PlanType = (case cl_OpenAIAuth c of None \<Rightarrow> [] | Some (acc, plan) \<Rightarrow> plan),
                            ati_ExpiresAt = (if cl_Exp c > 0 then cl_Exp c * second + 62135596800 * second else 0)\<rparr>)"

section \<open>One account\<close>

text \<open>A refresh token: the row, the event, the account in the pool. Its first refresh runs on its own (\<open>Refresh\<close>).\<close>

definition add_rt ::
  "string \<Rightarrow> string \<Rightarrow> string \<Rightarrow> string \<Rightarrow> bool \<Rightarrow> time \<Rightarrow> account_admin \<Rightarrow> account_admin \<times> bool" where
  "add_rt source name rt proxyURL inserted now w =
     (if \<not> inserted then (w, False)
      else
        let (db, dbID) = InsertAccount name rt proxyURL now (aa_db w);
            s = log_db (DbInsertAccountEvent dbID ''added'' source) (aa_pool w);
            s = set_account (aa_next w) (zero_account\<lparr>DBID := dbID, RefreshToken := rt, ProxyURL := proxyURL\<rparr>) s
        in (w\<lparr>aa_db := db, aa_pool := AddAccount s (aa_next w) now, aa_next := Suc (aa_next w)\<rparr>, True))"

definition at_credentials :: "formats \<Rightarrow> AccessTokenInfo \<Rightarrow> time \<Rightarrow> (string \<times> credential) list" where
  "at_credentials fm info expiresAt =
     [(''email'', CStr (ati_Email info)), (''account_id'', CStr (ati_ChatGPTAccountID info)),
      (''plan_type'', CStr (ati_PlanType info)), (''expires_at'', CStr (fm_time fm expiresAt))]"

definition at_account :: "int \<Rightarrow> string \<Rightarrow> string \<Rightarrow> AccessTokenInfo option \<Rightarrow> time \<Rightarrow> account" where
  "at_account dbID atok proxyURL info now =
     (let a = zero_account\<lparr>DBID := dbID, AccessToken := atok, ExpiresAt := now + hour, ProxyURL := proxyURL\<rparr>
      in case info of
           None \<Rightarrow> a
         | Some i \<Rightarrow>
             let a = a\<lparr>Email := ati_Email i, AccountID := ati_ChatGPTAccountID i, PlanType := ati_PlanType i\<rparr>
             in if ati_ExpiresAt i \<noteq> 0 then a\<lparr>ExpiresAt := ati_ExpiresAt i\<rparr> else a)"

text \<open>An access token; \<open>updated\<close> says whether the credentials read from it reach the table.\<close>

definition add_at ::
  "formats \<Rightarrow> at_decoders \<Rightarrow> string \<Rightarrow> string \<Rightarrow> string \<Rightarrow> string \<Rightarrow> bool \<Rightarrow> bool \<Rightarrow> time \<Rightarrow> account_admin
     \<Rightarrow> account_admin \<times> bool" where
  "add_at fm dec source name atok proxyURL inserted updated now w =
     (if \<not> inserted then (w, False)
      else
        let (db, dbID) = InsertATAccount name atok proxyURL now (aa_db w);
            s = log_db (DbInsertAccountEvent dbID ''added'' source) (aa_pool w);
            info = ParseAccessToken dec atok;
            a = at_account dbID atok proxyURL info now;
            db = (case info of
                    None \<Rightarrow> db
                  | Some i \<Rightarrow> if updated then UpdateCredentials dbID (at_credentials fm i (ExpiresAt a)) db else db);
            s = set_account (aa_next w) a s
        in (w\<lparr>aa_db := db, aa_pool := AddAccount s (aa_next w) now, aa_next := Suc (aa_next w)\<rparr>, True))"

text \<open>A batch: \<open>order\<close> are the indices of the tokens in the order of their inserts.\<close>

definition run_batch ::
  "(nat \<Rightarrow> 'a \<Rightarrow> account_admin \<Rightarrow> account_admin \<times> bool) \<Rightarrow> 'a list \<Rightarrow> nat list \<Rightarrow> account_admin
     \<Rightarrow> account_admin \<times> nat \<times> nat" where
  "run_batch add tokens order w =
     fold (\<lambda>i (w, good, bad). case add i (tokens ! i) w of (w, True) \<Rightarrow> (w, Suc good, bad) | (w, False) \<Rightarrow> (w, good, Suc bad))
       order (w, 0, 0)"

section \<open>Adding by hand\<close>

fun itoa :: "nat \<Rightarrow> string" where
  "itoa n = (if n < 10 then [char_of (48 + n)] else itoa (n div 10) @ [char_of (48 + n mod 10)])"

declare itoa.simps [simp del]

definition batch_name :: "string \<Rightarrow> string \<Rightarrow> nat \<Rightarrow> nat \<Rightarrow> string" where
  "batch_name standard name n idx =
     (if name = [] then standard @ ''-'' @ itoa (idx + 1)
      else if n > 1 then name @ ''-'' @ itoa (idx + 1) else name)"

definition line_break :: char where "line_break = CHR 0x0A"

definition nonempty_lines :: "string list \<Rightarrow> string list" where
  "nonempty_lines ts = filter (\<lambda>t. t \<noteq> []) ts"

definition add_refused :: "(string \<Rightarrow> bool) \<Rightarrow> string \<Rightarrow> string \<Rightarrow> string \<Rightarrow> string list \<Rightarrow> bool" where
  "add_refused suspicious name field proxyURL tokens \<longleftrightarrow>
     field = [] \<or> suspicious name \<or> rune_count name > 100 \<or> ValidateProxyURL proxyURL \<noteq> None \<or>
     tokens = [] \<or> length tokens > 3000"

text \<open>
  The request is \<open>None\<close> if it is not JSON of the right form: name, token field and proxy. \<open>order n\<close> is the order of the inserts
  of a batch of \<open>n\<close>.
\<close>

definition admin_AddAccount ::
  "(string \<Rightarrow> bool) \<Rightarrow> (string \<times> string \<times> string) option \<Rightarrow> (nat \<Rightarrow> nat list) \<Rightarrow> (nat \<Rightarrow> bool) \<Rightarrow> time \<Rightarrow> account_admin
     \<Rightarrow> account_admin \<times> admin_answer" where
  "admin_AddAccount suspicious req order ok now w =
     (case req of
        None \<Rightarrow> (w, Bad400)
      | Some (name, field, proxyURL) \<Rightarrow>
          let name = SanitizeInput name;
              proxyURL = SanitizeInput proxyURL;
              tokens = nonempty_lines (map (\<lambda>line. trim_space (SanitizeInput line)) (split_on line_break field))
          in if add_refused suspicious name field proxyURL tokens then (w, Bad400)
             else case run_batch (\<lambda>i rt. add_rt ''manual'' (batch_name ''account'' name (length tokens) i) rt proxyURL (ok i) now)
                         tokens (order (length tokens)) w of
                    (w, good, bad) \<Rightarrow> (w, Counted good bad))"

definition admin_AddATAccount ::
  "formats \<Rightarrow> at_decoders \<Rightarrow> (string \<Rightarrow> bool) \<Rightarrow> (string \<times> string \<times> string) option \<Rightarrow> (nat \<Rightarrow> nat list) \<Rightarrow> (nat \<Rightarrow> bool)
     \<Rightarrow> (nat \<Rightarrow> bool) \<Rightarrow> time \<Rightarrow> account_admin \<Rightarrow> account_admin \<times> admin_answer" where
  "admin_AddATAccount fm dec suspicious req order ok updated now w =
     (case req of
        None \<Rightarrow> (w, Bad400)
      | Some (name, field, proxyURL) \<Rightarrow>
          let name = SanitizeInput name;
              proxyURL = SanitizeInput proxyURL;
              tokens = nonempty_lines (map trim_space (split_on line_break field))
          in if add_refused suspicious name field proxyURL tokens then (w, Bad400)
             else case run_batch (\<lambda>i atok. add_at fm dec ''manual_at'' (batch_name ''at-account'' name (length tokens) i) atok
                                              proxyURL (ok i) (updated i) now) tokens (order (length tokens)) w of
                    (w, good, bad) \<Rightarrow> (w, Counted good bad))"

section \<open>Single accounts\<close>

text \<open>An id of the path is \<open>None\<close> if it is not a number; \<open>ok\<close> says whether the statement on the table succeeds.\<close>

definition DeleteAccount :: "int option \<Rightarrow> bool \<Rightarrow> account_admin \<Rightarrow> account_admin \<times> admin_answer" where
  "DeleteAccount dbID ok w =
     (case dbID of
        None \<Rightarrow> (w, Bad400)
      | Some k \<Rightarrow>
          if \<not> ok then (w, Broken500)
          else (w\<lparr>aa_db := SoftDeleteAccount k (aa_db w),
                  aa_pool := log_db (DbInsertAccountEvent k ''deleted'' ''manual'') (RemoveAccount (aa_pool w) k)\<rparr>, Done200))"

definition ToggleAccountLock :: "int option \<Rightarrow> bool option \<Rightarrow> bool \<Rightarrow> account_admin \<Rightarrow> account_admin \<times> admin_answer" where
  "ToggleAccountLock dbID locked ok w =
     (case (dbID, locked) of
        (Some k, Some l) \<Rightarrow>
          if \<not> ok then (w, Broken500)
          else
            let s = aa_pool w;
                s = (case FindByID s k of
                       None \<Rightarrow> s
                     | Some ad \<Rightarrow> set_account ad ((st_heap s ad)\<lparr>Locked := (if l then 1 else 0)\<rparr>) s)
            in (w\<lparr>aa_db := SetAccountLocked k l (aa_db w), aa_pool := s\<rparr>, Done200)
      | _ \<Rightarrow> (w, Bad400))"

text \<open>The pool clears the cooldown of the row itself; the call is in its log and reaches the table if \<open>ok\<close>.\<close>

definition reset_account :: "bool \<Rightarrow> time \<Rightarrow> int \<Rightarrow> account_admin \<Rightarrow> account_admin \<times> bool" where
  "reset_account ok now k w =
     (case FindByID (aa_pool w) k of
        None \<Rightarrow> (w, False)
      | Some ad \<Rightarrow>
          let s = ClearCooldown (aa_pool w) ad now;
              s = set_account ad (ClearUsageCache (st_heap s ad)) s
          in (w\<lparr>aa_db := (if ok then db_ClearCooldown (DBID (st_heap s ad)) (aa_db w) else aa_db w), aa_pool := s\<rparr>, True))"

definition ResetAccountStatus :: "int option \<Rightarrow> bool \<Rightarrow> time \<Rightarrow> account_admin \<Rightarrow> account_admin \<times> admin_answer" where
  "ResetAccountStatus dbID ok now w =
     (case dbID of
        None \<Rightarrow> (w, Bad400)
      | Some k \<Rightarrow> (case reset_account ok now k w of (w, True) \<Rightarrow> (w, Done200) | (w, False) \<Rightarrow> (w, NotFound404)))"

definition BatchResetStatus :: "int list option \<Rightarrow> (int \<Rightarrow> bool) \<Rightarrow> time \<Rightarrow> account_admin \<Rightarrow> account_admin \<times> admin_answer" where
  "BatchResetStatus ids ok now w =
     (case ids of
        None \<Rightarrow> (w, Bad400)
      | Some ks \<Rightarrow>
          if ks = [] then (w, Bad400)
          else case fold (\<lambda>k (w, good, bad). case reset_account (ok k) now k w of
                                               (w, True) \<Rightarrow> (w, Suc good, bad) | (w, False) \<Rightarrow> (w, good, Suc bad))
                      ks (w, 0, 0) of
                 (w, good, bad) \<Rightarrow> (w, Counted good bad))"

section \<open>Scheduling\<close>

text \<open>A field of the request: absent or null, no integer, or an integer of 64 bits.\<close>

datatype raw_field = Null | NoInteger | Integer int

definition parseOptionalIntegerField :: "raw_field \<Rightarrow> int \<Rightarrow> int \<Rightarrow> int option option" where
  "parseOptionalIntegerField raw minValue maxValue =
     (case raw of
        Null \<Rightarrow> Some None
      | NoInteger \<Rightarrow> None
      | Integer v \<Rightarrow> if v < minValue \<or> v > maxValue then None else Some (Some v))"

definition UpdateAccountScheduler ::
  "int option \<Rightarrow> (raw_field \<times> raw_field) option \<Rightarrow> bool \<Rightarrow> time \<Rightarrow> account_admin \<Rightarrow> account_admin \<times> admin_answer" where
  "UpdateAccountScheduler dbID req ok now w =
     (case (dbID, req) of
        (Some k, Some (bias, base)) \<Rightarrow>
          (case (parseOptionalIntegerField bias (- 200) 200, parseOptionalIntegerField base 1 50) of
             (Some scoreBias, Some baseConcurrency) \<Rightarrow>
               if \<not> ok then (w, Broken500)
               else (case UpdateAccountSchedulerConfig k scoreBias baseConcurrency (aa_db w) of
                       (db, False) \<Rightarrow> (w\<lparr>aa_db := db\<rparr>, NotFound404)
                     | (db, True) \<Rightarrow>
                         (w\<lparr>aa_db := db,
                            aa_pool := fst (ApplyAccountSchedulerOverrides (aa_pool w) k scoreBias baseConcurrency now)\<rparr>, Done200))
           | _ \<Rightarrow> (w, Bad400))
      | _ \<Rightarrow> (w, Bad400))"

end
