(* ===== verification/OAuth.thy ===== *)
theory OAuth
  imports AccountAdmin Refresh UpstreamClient
begin

text \<open>
  Adding an account by signing in, \<open>admin/oauth.go\<close>. A session is an object that the store of sessions points to; a handler
  keeps the pointer while it waits for the token endpoint, so a handler is two steps, the request that is sent and what is
  done with the answer. Random bytes, the digest, the JSON library and the order in which a map is visited are arguments.
\<close>

section \<open>Sessions\<close>

record oauthExchangeResult =
  xr_Success :: bool
  xr_ID :: int
  xr_Name :: string
  xr_Email :: string
  xr_PlanType :: string
  xr_Error :: string

record oauthSession =
  os_State :: string
  os_CodeVerifier :: string
  os_RedirectURI :: string
  os_ProxyURL :: string
  os_CreatedAt :: time
  os_CallbackCode :: string
  os_CallbackState :: string
  os_CallbackAt :: time
  os_ExchangeResult :: "oauthExchangeResult option"

record oauthSessionStore =
  ss_sessions :: "string \<rightharpoonup> addr"
  ss_heap :: "addr \<Rightarrow> oauthSession"
  ss_next :: addr


abbreviation oauthSessionTTL :: duration where "oauthSessionTTL \<equiv> 30 * minute"

definition oauth_fresh :: "time \<Rightarrow> oauthSession \<Rightarrow> bool" where
  "oauth_fresh now ses \<longleftrightarrow> \<not> go_sub now (os_CreatedAt ses) > oauthSessionTTL"

definition oauth_set :: "string \<Rightarrow> oauthSession \<Rightarrow> oauthSessionStore \<Rightarrow> oauthSessionStore" where
  "oauth_set key ses st =
     st\<lparr>ss_sessions := (ss_sessions st)(key \<mapsto> ss_next st), ss_heap := (ss_heap st)(ss_next st := ses), ss_next := Suc (ss_next st)\<rparr>"

definition oauth_get :: "time \<Rightarrow> string \<Rightarrow> oauthSessionStore \<Rightarrow> addr option" where
  "oauth_get now key st =
     (case ss_sessions st key of
        None \<Rightarrow> None
      | Some ad \<Rightarrow> if \<not> oauth_fresh now (ss_heap st ad) then None else Some ad)"

definition oauth_delete :: "string \<Rightarrow> oauthSessionStore \<Rightarrow> oauthSessionStore" where
  "oauth_delete key st = st\<lparr>ss_sessions := (ss_sessions st)(key := None)\<rparr>"

text \<open>\<open>visits\<close> is the order in which the keys of the map are visited.\<close>

definition findByState :: "time \<Rightarrow> string list \<Rightarrow> string \<Rightarrow> oauthSessionStore \<Rightarrow> (string \<times> addr) option" where
  "findByState now visits state st =
     (case find (\<lambda>key. case ss_sessions st key of
                         None \<Rightarrow> False
                       | Some ad \<Rightarrow> os_State (ss_heap st ad) = state \<and> oauth_fresh now (ss_heap st ad)) visits of
        None \<Rightarrow> None
      | Some key \<Rightarrow> map_option (\<lambda>ad. (key, ad)) (ss_sessions st key))"

text \<open>One round of \<open>cleanupLoop\<close>.\<close>

definition oauth_cleanup :: "time \<Rightarrow> oauthSessionStore \<Rightarrow> oauthSessionStore" where
  "oauth_cleanup now st =
     st\<lparr>ss_sessions := (\<lambda>key. case ss_sessions st key of
                                None \<Rightarrow> None
                              | Some ad \<Rightarrow> if \<not> oauth_fresh now (ss_heap st ad) then None else Some ad)\<rparr>"

section \<open>PKCE\<close>

definition hex_digit :: "nat \<Rightarrow> char" where
  "hex_digit n = (if n < 10 then char_of (48 + n) else char_of (87 + n))"

definition hex_encode :: "8 word list \<Rightarrow> string" where
  "hex_encode bs = concat (map (\<lambda>b. [hex_digit (unat b div 16), hex_digit (unat b mod 16)]) bs)"

definition oauthRandomHex :: "(nat \<Rightarrow> 8 word list option) \<Rightarrow> nat \<Rightarrow> string option" where
  "oauthRandomHex rand n = map_option hex_encode (rand n)"

text \<open>\<open>digest\<close> is the URL encoding in base 64 of the SHA-256 of a string.\<close>

definition oauthCodeChallenge :: "(string \<Rightarrow> string) \<Rightarrow> string \<Rightarrow> string" where
  "oauthCodeChallenge digest verifier = rev (dropWhile (\<lambda>c. c = CHR ''='') (rev (digest verifier)))"

definition oauthClientID :: string where "oauthClientID = ''app_EMoamEEZ73f0CkXaXp7hrann''"
definition oauthDefaultRedirectURI :: string where "oauthDefaultRedirectURI = ''http://localhost:1455/auth/callback''"
definition oauthDefaultScopes :: string where "oauthDefaultScopes = ''openid profile email offline_access''"
definition oauthTokenURL :: string where "oauthTokenURL = ''https://auth.openai.com/oauth/token''"

datatype oauth_answer =
  OAuthRefused nat                             \<comment> \<open>status\<close>
| OAuthURL "(string \<times> string) list" string    \<comment> \<open>query of the authorization URL, session id\<close>
| OAuthAdded int string string string          \<comment> \<open>id, name, e-mail, plan\<close>
| OAuthCompleted oauthExchangeResult
| OAuthProcessing
| OAuthWaiting
| OAuthPage bool                               \<comment> \<open>the page of the callback\<close>

definition oauth_params :: "(string \<Rightarrow> string) \<Rightarrow> oauthSession \<Rightarrow> (string \<times> string) list" where
  "oauth_params digest ses =
     [(''response_type'', ''code''), (''client_id'', oauthClientID), (''redirect_uri'', os_RedirectURI ses),
      (''scope'', oauthDefaultScopes), (''state'', os_State ses),
      (''code_challenge'', oauthCodeChallenge digest (os_CodeVerifier ses)), (''code_challenge_method'', ''S256''),
      (''id_token_add_organizations'', ''true''), (''codex_cli_simplified_flow'', ''true'')]"

text \<open>The request, proxy and redirect URI, is whatever was read of it; \<open>rand i n\<close> are the bytes of the \<open>i\<close>-th read.\<close>

definition GenerateOAuthURL ::
  "(string \<Rightarrow> string) \<Rightarrow> (nat \<Rightarrow> nat \<Rightarrow> 8 word list option) \<Rightarrow> string \<times> string \<Rightarrow> time \<Rightarrow> oauthSessionStore
     \<Rightarrow> oauthSessionStore \<times> oauth_answer" where
  "GenerateOAuthURL digest rand req now st =
     (let redirectURI = trim_space (snd req);
          redirectURI = (if redirectURI = [] then oauthDefaultRedirectURI else redirectURI)
      in case oauthRandomHex (rand 0) 32 of
           None \<Rightarrow> (st, OAuthRefused 500)
         | Some state \<Rightarrow>
             (case oauthRandomHex (rand 1) 64 of
                None \<Rightarrow> (st, OAuthRefused 500)
              | Some codeVerifier \<Rightarrow>
                  (case oauthRandomHex (rand 2) 16 of
                     None \<Rightarrow> (st, OAuthRefused 500)
                   | Some sessionID \<Rightarrow>
                       let ses = \<lparr>os_State = state, os_CodeVerifier = codeVerifier, os_RedirectURI = redirectURI,
                                   os_ProxyURL = trim_space (fst req), os_CreatedAt = now, os_CallbackCode = [],
                                   os_CallbackState = [], os_CallbackAt = 0, os_ExchangeResult = None\<rparr>
                       in (oauth_set sessionID ses st, OAuthURL (oauth_params digest ses) sessionID))))"

section \<open>The token endpoint\<close>

record rawOAuthTokenResp =
  ro_AccessToken :: string
  ro_RefreshToken :: string
  ro_IDToken :: string
  ro_ExpiresIn :: int

text \<open>The request to the token endpoint; without a Resin gateway it goes through the proxy.\<close>

record oauth_request =
  or_url :: string
  or_form :: "(string \<times> string) list"
  or_resinAccount :: "string option"
  or_proxy :: string

definition oauth_code_request ::
  "(string \<Rightarrow> parsed_url option) \<Rightarrow> ResinConfig option \<Rightarrow> string \<Rightarrow> string \<Rightarrow> string \<Rightarrow> string \<Rightarrow> string \<Rightarrow> oauth_request" where
  "oauth_code_request parse resin code codeVerifier redirectURI proxyURL tempID =
     (let gateway = resin \<noteq> None \<and> tempID \<noteq> []
      in \<lparr>or_url = (if gateway then BuildReverseProxyURL parse resin oauthTokenURL else oauthTokenURL),
          or_form = [(''grant_type'', ''authorization_code''), (''client_id'', oauthClientID), (''code'', code),
                     (''redirect_uri'', redirectURI), (''code_verifier'', codeVerifier)],
          or_resinAccount = (if gateway then Some tempID else None),
          or_proxy = (if gateway then [] else proxyURL)\<rparr>)"

text \<open>The claims of an ID token: e-mail, and account id with plan.\<close>

record id_decoders =
  id_url :: "string \<Rightarrow> string option"
  id_std :: "string \<Rightarrow> string option"
  id_claims :: "string \<Rightarrow> (string \<times> (string \<times> string) option) option"

definition parseIDToken :: "id_decoders \<Rightarrow> string \<Rightarrow> AccountInfo" where
  "parseIDToken dec idToken =
     (let parts = split_on CHR ''.'' idToken;
          nobody = \<lparr>info_Email = [], info_ChatGPTAccountID = [], info_PlanType = []\<rparr>
      in if idToken = [] then nobody
         else if length parts \<noteq> 3 then nobody
         else
           let payload = parts ! 1;
               payload = payload @ (if length payload mod 4 = 2 then ''=='' else if length payload mod 4 = 3 then ''='' else [])
           in case (case id_url dec payload of Some d \<Rightarrow> Some d | None \<Rightarrow> id_std dec payload) of
                None \<Rightarrow> nobody
              | Some decoded \<Rightarrow>
                  case id_claims dec decoded of
                    None \<Rightarrow> nobody
                  | Some (email, None) \<Rightarrow> nobody\<lparr>info_Email := email\<rparr>
                  | Some (email, Some (acc, plan)) \<Rightarrow> \<lparr>info_Email = email, info_ChatGPTAccountID = acc, info_PlanType = plan\<rparr>)"

datatype oauth_reply = NoReply string | Reply int string   \<comment> \<open>status and body\<close>

definition oauth_tokens ::
  "id_decoders \<Rightarrow> (string \<Rightarrow> rawOAuthTokenResp option) \<Rightarrow> oauth_reply \<Rightarrow> string + rawOAuthTokenResp \<times> AccountInfo" where
  "oauth_tokens dec parse_tokens reply =
     (case reply of
        NoReply err \<Rightarrow> Inl err
      | Reply status body \<Rightarrow>
          let body = (if int (length body) > 2 ^ 20 then take (2 ^ 20) body else body)
          in if status \<noteq> 200 then Inl (trim_space body)
             else case parse_tokens body of
                    None \<Rightarrow> Inl ''unreadable''
                  | Some t \<Rightarrow> Inr (t, parseIDToken dec (ro_IDToken t)))"

section \<open>Exchanging a code\<close>

record exchange_req =
  eq_SessionID :: string
  eq_Code :: string
  eq_State :: string
  eq_Name :: string
  eq_ProxyURL :: string

record oauth_world =
  ow_sessions :: oauthSessionStore
  ow_admin :: account_admin

text \<open>What a handler keeps while it waits: the session's id and object, the request and the proxy of the new account.\<close>

record oauth_wait =
  wt_key :: string
  wt_sess :: addr
  wt_request :: oauth_request
  wt_name :: string
  wt_proxy :: string

definition oauth_wait_for ::
  "(string \<Rightarrow> parsed_url option) \<Rightarrow> ResinConfig option \<Rightarrow> string \<Rightarrow> string \<Rightarrow> addr \<Rightarrow> oauthSession \<Rightarrow> string \<Rightarrow> string \<Rightarrow> oauth_wait" where
  "oauth_wait_for parse resin code key ad ses name proxyURL =
     \<lparr>wt_key = key, wt_sess = ad,
      wt_request = oauth_code_request parse resin code (os_CodeVerifier ses) (os_RedirectURI ses) proxyURL (''oauth-'' @ key),
      wt_name = name, wt_proxy = proxyURL\<rparr>"

definition exchange_begin ::
  "(string \<Rightarrow> parsed_url option) \<Rightarrow> ResinConfig option \<Rightarrow> exchange_req option \<Rightarrow> time \<Rightarrow> oauthSessionStore \<Rightarrow> oauth_answer + oauth_wait" where
  "exchange_begin parse resin req now st =
     (case req of
        None \<Rightarrow> Inl (OAuthRefused 400)
      | Some r \<Rightarrow>
          if eq_SessionID r = [] \<or> eq_Code r = [] \<or> eq_State r = [] then Inl (OAuthRefused 400)
          else case oauth_get now (eq_SessionID r) st of
                 None \<Rightarrow> Inl (OAuthRefused 400)
               | Some ad \<Rightarrow>
                   let ses = ss_heap st ad;
                       proxyURL = (if trim_space (eq_ProxyURL r) \<noteq> [] then trim_space (eq_ProxyURL r) else os_ProxyURL ses)
                   in if eq_State r \<noteq> os_State ses then Inl (OAuthRefused 400)
                      else Inr (oauth_wait_for parse resin (eq_Code r) (eq_SessionID r) ad ses (eq_Name r) proxyURL))"

definition oauth_name :: "string \<Rightarrow> AccountInfo \<Rightarrow> string" where
  "oauth_name name info =
     (let name = trim_space name;
          name = (if name = [] \<and> info_Email info \<noteq> [] then info_Email info else name)
      in if name = [] then ''oauth-account'' else name)"

text \<open>\<open>inserted\<close> says whether the row of the new account reaches the table.\<close>

definition exchange_end ::
  "id_decoders \<Rightarrow> (string \<Rightarrow> rawOAuthTokenResp option) \<Rightarrow> oauth_wait \<Rightarrow> oauth_reply \<Rightarrow> bool \<Rightarrow> time \<Rightarrow> oauth_world
     \<Rightarrow> oauth_world \<times> oauth_answer" where
  "exchange_end dec parse_tokens wt reply inserted now w =
     (case oauth_tokens dec parse_tokens reply of
        Inl err \<Rightarrow> (w, OAuthRefused 502)
      | Inr (t, info) \<Rightarrow>
          let w = w\<lparr>ow_sessions := oauth_delete (wt_key wt) (ow_sessions w)\<rparr>;
              name = oauth_name (wt_name wt) info
          in if ro_RefreshToken t = [] then (w, OAuthRefused 502)
             else case add_rt ''oauth'' name (ro_RefreshToken t) (wt_proxy wt) inserted now (ow_admin w) of
                    (adm, False) \<Rightarrow> (w, OAuthRefused 500)
                  | (adm, True) \<Rightarrow>
                      (w\<lparr>ow_admin := adm\<rparr>,
                       OAuthAdded (db_nextID (aa_db (ow_admin w))) name (info_Email info) (info_PlanType info)))"

definition ExchangeOAuthCode ::
  "(string \<Rightarrow> parsed_url option) \<Rightarrow> ResinConfig option \<Rightarrow> id_decoders \<Rightarrow> (string \<Rightarrow> rawOAuthTokenResp option)
     \<Rightarrow> (oauth_request \<Rightarrow> oauth_reply) \<Rightarrow> exchange_req option \<Rightarrow> bool \<Rightarrow> time \<Rightarrow> time \<Rightarrow> oauth_world \<Rightarrow> oauth_world \<times> oauth_answer" where
  "ExchangeOAuthCode parse resin dec parse_tokens net req inserted now later w =
     (case exchange_begin parse resin req now (ow_sessions w) of
        Inl a \<Rightarrow> (w, a)
      | Inr wt \<Rightarrow> exchange_end dec parse_tokens wt (net (wt_request wt)) inserted later w)"

section \<open>The callback\<close>

definition on_oauth_session :: "addr \<Rightarrow> (oauthSession \<Rightarrow> oauthSession) \<Rightarrow> oauthSessionStore \<Rightarrow> oauthSessionStore" where
  "on_oauth_session ad f st = st\<lparr>ss_heap := (ss_heap st)(ad := f (ss_heap st ad))\<rparr>"

text \<open>A callback without code or state is to be answered by a template, but none is loaded: the handler panics.\<close>

definition callback_begin ::
  "(string \<Rightarrow> parsed_url option) \<Rightarrow> ResinConfig option \<Rightarrow> string list \<Rightarrow> string \<Rightarrow> string \<Rightarrow> time \<Rightarrow> oauthSessionStore
     \<Rightarrow> oauthSessionStore \<times> (oauth_answer + oauth_wait)" where
  "callback_begin parse resin visits code state now st =
     (if code = [] \<or> state = [] then (st, Inl (OAuthRefused 500))
      else case findByState now visits state st of
             None \<Rightarrow> (st, Inl (OAuthRefused 400))
           | Some (key, ad) \<Rightarrow>
               let ses = ss_heap st ad
               in (on_oauth_session ad (\<lambda>x. x\<lparr>os_CallbackCode := code, os_CallbackState := state, os_CallbackAt := now\<rparr>) st,
                   Inr (oauth_wait_for parse resin code key ad ses [] (os_ProxyURL ses))))"

definition xr_failed :: "string \<Rightarrow> oauthExchangeResult" where
  "xr_failed err = \<lparr>xr_Success = False, xr_ID = 0, xr_Name = [], xr_Email = [], xr_PlanType = [], xr_Error = err\<rparr>"

definition callback_end ::
  "id_decoders \<Rightarrow> (string \<Rightarrow> rawOAuthTokenResp option) \<Rightarrow> oauth_wait \<Rightarrow> oauth_reply \<Rightarrow> bool \<Rightarrow> time \<Rightarrow> oauth_world
     \<Rightarrow> oauth_world \<times> oauth_answer" where
  "callback_end dec parse_tokens wt reply inserted now w =
     (let result = (\<lambda>r w. w\<lparr>ow_sessions := on_oauth_session (wt_sess wt) (\<lambda>x. x\<lparr>os_ExchangeResult := Some r\<rparr>) (ow_sessions w)\<rparr>)
      in case oauth_tokens dec parse_tokens reply of
           Inl err \<Rightarrow> (result (xr_failed err) w, OAuthPage False)
         | Inr (t, info) \<Rightarrow>
             if ro_RefreshToken t = [] then (result (xr_failed ''no refresh_token'') w, OAuthPage False)
             else
               let name = oauth_name [] info
               in case add_rt ''oauth_callback'' name (ro_RefreshToken t) (wt_proxy wt) inserted now (ow_admin w) of
                    (adm, False) \<Rightarrow> (result (xr_failed ''not stored'') w, OAuthPage False)
                  | (adm, True) \<Rightarrow>
                      (result \<lparr>xr_Success = True, xr_ID = db_nextID (aa_db (ow_admin w)), xr_Name = name,
                               xr_Email = info_Email info, xr_PlanType = info_PlanType info, xr_Error = []\<rparr> (w\<lparr>ow_admin := adm\<rparr>),
                       OAuthPage True))"

definition OAuthCallback ::
  "(string \<Rightarrow> parsed_url option) \<Rightarrow> ResinConfig option \<Rightarrow> id_decoders \<Rightarrow> (string \<Rightarrow> rawOAuthTokenResp option)
     \<Rightarrow> (oauth_request \<Rightarrow> oauth_reply) \<Rightarrow> string list \<Rightarrow> string \<Rightarrow> string \<Rightarrow> bool \<Rightarrow> time \<Rightarrow> time \<Rightarrow> oauth_world
     \<Rightarrow> oauth_world \<times> oauth_answer" where
  "OAuthCallback parse resin dec parse_tokens net visits code state inserted now later w =
     (case callback_begin parse resin visits code state now (ow_sessions w) of
        (st, Inl a) \<Rightarrow> (w\<lparr>ow_sessions := st\<rparr>, a)
      | (st, Inr wt) \<Rightarrow> callback_end dec parse_tokens wt (net (wt_request wt)) inserted later (w\<lparr>ow_sessions := st\<rparr>))"

definition PollOAuthCallback :: "string \<Rightarrow> time \<Rightarrow> oauthSessionStore \<Rightarrow> oauthSessionStore \<times> oauth_answer" where
  "PollOAuthCallback sessionID now st =
     (if sessionID = [] then (st, OAuthRefused 400)
      else case oauth_get now sessionID st of
             None \<Rightarrow> (st, OAuthRefused 404)
           | Some ad \<Rightarrow>
               (case os_ExchangeResult (ss_heap st ad) of
                  Some r \<Rightarrow> (oauth_delete sessionID st, OAuthCompleted r)
                | None \<Rightarrow>
                    if os_CallbackCode (ss_heap st ad) \<noteq> [] then (st, OAuthProcessing) else (st, OAuthWaiting)))"

end
