(* ===== verification/AccountImport.thy ===== *)
theory AccountImport
  imports AccountAdmin
begin

text \<open>
  Importing accounts from files, \<open>ImportAccounts\<close> of \<open>admin/handler.go\<close>: lines of refresh tokens, lines of access tokens, or
  JSON in two forms. The events that report the progress are left out; the last one is the answer.
\<close>

section \<open>Tokens of a file\<close>

record importToken =
  it_refreshToken :: string
  it_accessToken :: string
  it_name :: string

record jsonAccountEntry =
  je_RefreshToken :: string
  je_AccessToken :: string
  je_Email :: string

record sub2apiAccountEntry =
  sb_Name :: string
  sb_RefreshToken :: string
  sb_AccessToken :: string
  sb_Email :: string

definition entry_token :: "string \<Rightarrow> string \<Rightarrow> string \<Rightarrow> importToken option" where
  "entry_token rt atok name =
     (if rt \<noteq> [] then Some \<lparr>it_refreshToken = rt, it_accessToken = [], it_name = name\<rparr>
      else if atok \<noteq> [] then Some \<lparr>it_refreshToken = [], it_accessToken = atok, it_name = name\<rparr>
      else None)"

definition jsonAccountEntriesToTokens :: "jsonAccountEntry list \<Rightarrow> importToken list" where
  "jsonAccountEntriesToTokens entries =
     List.map_filter (\<lambda>e. entry_token (trim_space (je_RefreshToken e)) (trim_space (je_AccessToken e)) (trim_space (je_Email e))) entries"

definition sub2api_name :: "sub2apiAccountEntry \<Rightarrow> string" where
  "sub2api_name a = (let name = trim_space (sb_Name a) in if name = [] then trim_space (sb_Email a) else name)"

definition parseSub2APIJSONImportTokens :: "sub2apiAccountEntry list option \<Rightarrow> importToken list" where
  "parseSub2APIJSONImportTokens payload =
     (case payload of
        None \<Rightarrow> []
      | Some accs \<Rightarrow>
          List.map_filter (\<lambda>a. entry_token (trim_space (sb_RefreshToken a)) (trim_space (sb_AccessToken a)) (sub2api_name a)) accs)"

text \<open>What the JSON library makes of a file, read as a list of entries, as one entry, and as an object with accounts.\<close>

record import_json =
  ij_valid :: bool
  ij_entries :: "jsonAccountEntry list option"
  ij_single :: "jsonAccountEntry option"
  ij_payload :: "sub2apiAccountEntry list option"

definition parseFlatJSONImportTokens :: "import_json \<Rightarrow> importToken list" where
  "parseFlatJSONImportTokens f =
     (case ij_entries f of
        Some entries \<Rightarrow> jsonAccountEntriesToTokens entries
      | None \<Rightarrow> (case ij_single f of Some e \<Rightarrow> jsonAccountEntriesToTokens [e] | None \<Rightarrow> []))"

definition parseImportJSONTokens :: "import_json \<Rightarrow> importToken list option" where
  "parseImportJSONTokens f =
     (if \<not> ij_valid f then None
      else if parseFlatJSONImportTokens f \<noteq> [] then Some (parseFlatJSONImportTokens f)
      else Some (parseSub2APIJSONImportTokens (ij_payload f)))"

definition utf8BOM :: string where
  "utf8BOM = [CHR 0xEF, CHR 0xBB, CHR 0xBF]"

definition line_token :: "string \<Rightarrow> string" where
  "line_token line =
     (let t = trim_space line in if has_prefix t utf8BOM then drop (length utf8BOM) t else t)"

definition line_tokens :: "string \<Rightarrow> string list" where
  "line_tokens data = rev (remdups (rev (nonempty_lines (map line_token (split_on line_break data)))))"

section \<open>Inserting\<close>

fun file_unique :: "string set \<Rightarrow> string set \<Rightarrow> importToken list \<Rightarrow> importToken list" where
  "file_unique seenRT seenAT [] = []"
| "file_unique seenRT seenAT (t # ts) =
     (if it_accessToken t \<noteq> [] then
        if it_accessToken t \<in> seenAT then file_unique seenRT seenAT ts
        else t # file_unique seenRT (insert (it_accessToken t) seenAT) ts
      else if it_refreshToken t \<in> seenRT then file_unique seenRT seenAT ts
      else t # file_unique (insert (it_refreshToken t) seenRT) seenAT ts)"

text \<open>A list of tokens that cannot be read counts as empty.\<close>

definition known_tokens :: "formats \<Rightarrow> bool \<Rightarrow> bool \<Rightarrow> account_db \<Rightarrow> importToken \<Rightarrow> bool" where
  "known_tokens fm readRT readAT db t \<longleftrightarrow>
     (if it_accessToken t \<noteq> [] then readAT \<and> it_accessToken t \<in> GetAllAccessTokens fm db
      else readRT \<and> it_refreshToken t \<in> GetAllRefreshTokens fm db)"

definition import_one ::
  "formats \<Rightarrow> at_decoders \<Rightarrow> string \<Rightarrow> (nat \<Rightarrow> bool) \<Rightarrow> (nat \<Rightarrow> bool) \<Rightarrow> time \<Rightarrow> nat \<Rightarrow> importToken \<Rightarrow> account_admin
     \<Rightarrow> account_admin \<times> bool" where
  "import_one fm dec proxyURL ok updated now i t w =
     (if it_accessToken t \<noteq> []
      then add_at fm dec ''import_at'' (if it_name t = [] then ''at-import-'' @ itoa (i + 1) else it_name t)
             (it_accessToken t) proxyURL (ok i) (updated i) now w
      else add_rt ''import'' (if it_name t = [] then ''import-'' @ itoa (i + 1) else it_name t)
             (it_refreshToken t) proxyURL (ok i) now w)"

record import_env =
  ie_readRT :: bool
  ie_readAT :: bool
  ie_ok :: "nat \<Rightarrow> bool"
  ie_updated :: "nat \<Rightarrow> bool"
  ie_order :: "nat \<Rightarrow> nat list"   \<comment> \<open>of a batch of the given size\<close>
  ie_now :: time

definition importAccountsCommon ::
  "formats \<Rightarrow> at_decoders \<Rightarrow> import_env \<Rightarrow> string \<Rightarrow> importToken list \<Rightarrow> account_admin \<Rightarrow> account_admin \<times> admin_answer" where
  "importAccountsCommon fm dec e proxyURL tokens w =
     (let unique = file_unique {} {} tokens;
          known = known_tokens fm (ie_readRT e) (ie_readAT e) (aa_db w);
          fresh = filter (\<lambda>t. \<not> known t) unique;
          dups = length (filter known unique)
      in if fresh = [] then (w, ImportCounted 0 dups 0 (length unique))
         else case run_batch (import_one fm dec proxyURL (ie_ok e) (ie_updated e) (ie_now e)) fresh (ie_order e (length fresh)) w of
                (w, good, bad) \<Rightarrow> (w, ImportCounted good dups bad (length unique)))"

text \<open>A file of the form: \<open>None\<close> if it is missing, too large or cannot be read.\<close>

definition importAccountsTXT ::
  "formats \<Rightarrow> at_decoders \<Rightarrow> import_env \<Rightarrow> string \<Rightarrow> string option \<Rightarrow> account_admin \<Rightarrow> account_admin \<times> admin_answer" where
  "importAccountsTXT fm dec e proxyURL data w =
     (case data of
        None \<Rightarrow> (w, Bad400)
      | Some d \<Rightarrow>
          let tokens = map (\<lambda>t. \<lparr>it_refreshToken = t, it_accessToken = [], it_name = []\<rparr>) (line_tokens d)
          in if tokens = [] then (w, Bad400) else importAccountsCommon fm dec e proxyURL tokens w)"

definition importAccountsJSON ::
  "formats \<Rightarrow> at_decoders \<Rightarrow> import_env \<Rightarrow> string \<Rightarrow> import_json option list \<Rightarrow> account_admin \<Rightarrow> account_admin \<times> admin_answer" where
  "importAccountsJSON fm dec e proxyURL files w =
     (let parsed = map (\<lambda>f. case f of None \<Rightarrow> None | Some j \<Rightarrow> parseImportJSONTokens j) files;
          tokens = concat (map (\<lambda>p. case p of None \<Rightarrow> [] | Some ts \<Rightarrow> ts) parsed)
      in if files = [] \<or> None \<in> set parsed \<or> tokens = [] then (w, Bad400)
         else importAccountsCommon fm dec e proxyURL tokens w)"

definition importAccountsATTXT ::
  "formats \<Rightarrow> at_decoders \<Rightarrow> import_env \<Rightarrow> string \<Rightarrow> string option \<Rightarrow> account_admin \<Rightarrow> account_admin \<times> admin_answer" where
  "importAccountsATTXT fm dec e proxyURL data w =
     (case data of
        None \<Rightarrow> (w, Bad400)
      | Some d \<Rightarrow>
          let atTokens = line_tokens d;
              known = (\<lambda>t. ie_readAT e \<and> t \<in> GetAllAccessTokens fm (aa_db w));
              fresh = filter (\<lambda>t. \<not> known t) atTokens;
              dups = length (filter known atTokens)
          in if atTokens = [] then (w, Bad400)
             else if fresh = [] then (w, ImportCounted 0 dups 0 (length atTokens))
             else case run_batch (\<lambda>i t. add_at fm dec ''import_at'' (''at-import-'' @ itoa (i + 1)) t proxyURL
                                          (ie_ok e i) (ie_updated e i) (ie_now e)) fresh (ie_order e (length fresh)) w of
                    (w, good, bad) \<Rightarrow> (w, ImportCounted good dups bad (length atTokens)))"

definition ImportAccounts ::
  "formats \<Rightarrow> at_decoders \<Rightarrow> import_env \<Rightarrow> string \<Rightarrow> string \<Rightarrow> string option \<Rightarrow> import_json option list \<Rightarrow> account_admin
     \<Rightarrow> account_admin \<times> admin_answer" where
  "ImportAccounts fm dec e form proxyURL data files w =
     (if form = ''json'' then importAccountsJSON fm dec e proxyURL files w
      else if form = ''at_txt'' then importAccountsATTXT fm dec e proxyURL data w
      else importAccountsTXT fm dec e proxyURL data w)"

end
