(* ===== verification/AccountAdminLaws.thy ===== *)
theory AccountAdminLaws
  imports AccountImport DedupeLaws DispatchLaws
begin

text \<open>
  Table and pool agree: after any sequence of changes by the admin API the pool lists exactly the active accounts of the table
  that have a token. Importing a file twice adds nothing the second time.
\<close>

section \<open>Agreement\<close>

definition live_ids :: "formats \<Rightarrow> account_db \<Rightarrow> int set" where
  "live_ids fm db = ar_ID ` {row \<in> set (db_rows db). ar_Status row = ''active'' \<and> has_token fm row}"

text \<open>Ids of the table are distinct and below the next one.\<close>

definition table_ok :: "account_db \<Rightarrow> bool" where
  "table_ok db \<longleftrightarrow>
     (let ids = map ar_ID (db_rows db) in distinct ids \<and> list_all (\<lambda>k. 0 < k \<and> k < db_nextID db) ids) \<and> 0 < db_nextID db"

definition agreed :: "formats \<Rightarrow> account_admin \<Rightarrow> bool" where
  "agreed fm w \<longleftrightarrow> table_ok (aa_db w) \<and> pool_ok (aa_pool w, aa_next w) \<and> set (pool_ids (aa_pool w)) = live_ids fm (aa_db w)"

lemma update_row_ids:
  "(\<And>row. ar_ID (f row) = ar_ID row) \<Longrightarrow> map ar_ID (db_rows (update_row k f db)) = map ar_ID (db_rows db)"
  "db_nextID (update_row k f db) = db_nextID db"
  by (simp_all add: update_row_def)

lemma table_ok_update_row:
  "(\<And>row. ar_ID (f row) = ar_ID row) \<Longrightarrow> table_ok (update_row k f db) = table_ok db"
  by (simp add: table_ok_def update_row_ids)

lemma live_ids_update_row:
  assumes "\<And>row. ar_ID (f row) = ar_ID row" "\<And>row. ar_Status (f row) = ar_Status row"
    "\<And>row. has_token fm row \<Longrightarrow> has_token fm (f row)" "\<And>row. has_token fm (f row) \<Longrightarrow> has_token fm row"
  shows "live_ids fm (update_row k f db) = live_ids fm db"
proof -
  define g where "g row = (if ar_ID row = k then f row else row)" for row
  have t: "has_token fm (f row) = has_token fm row" for row using assms(3,4) by blast
  have g: "ar_ID (g row) = ar_ID row" "ar_Status (g row) = ar_Status row" "has_token fm (g row) = has_token fm row" for row
    by (simp_all add: g_def assms(1,2) t)
  have "db_rows (update_row k f db) = map g (db_rows db)" by (simp add: update_row_def g_def)
  then have "live_ids fm (update_row k f db) = ar_ID ` {row \<in> g ` set (db_rows db). ar_Status row = ''active'' \<and> has_token fm row}"
    by (simp add: live_ids_def)
  also have "\<dots> = ar_ID ` g ` {row \<in> set (db_rows db). ar_Status row = ''active'' \<and> has_token fm row}"
    using g(2,3) by (intro arg_cong[where f = "(`) ar_ID"]) auto
  also have "\<dots> = live_ids fm db" using g(1) by (simp add: image_image live_ids_def)
  finally show ?thesis .
qed

text \<open>What an update of the table keeps if it changes neither id nor status nor credentials.\<close>

lemma has_token_credentials: "ar_Credentials row = ar_Credentials row' \<Longrightarrow> has_token fm row = has_token fm row'"
  by (simp add: has_token_def GetCredential_def)

lemma live_ids_same_credentials:
  assumes "\<And>row. ar_ID (f row) = ar_ID row" "\<And>row. ar_Status (f row) = ar_Status row"
    "\<And>row. ar_Credentials (f row) = ar_Credentials row"
  shows "live_ids fm (update_row k f db) = live_ids fm db" "table_ok (update_row k f db) = table_ok db"
proof -
  have t: "has_token fm (f row) = has_token fm row" for row by (rule has_token_credentials) (rule assms(3))
  show "live_ids fm (update_row k f db) = live_ids fm db"
    by (rule live_ids_update_row) (use assms(1,2) t in simp_all)
  show "table_ok (update_row k f db) = table_ok db" by (rule table_ok_update_row) (rule assms(1))
qed

section \<open>Adding\<close>

lemma insert_account_table:
  assumes "table_ok db" "insert_account creds name proxy now db = (db', k)"
    and "\<exists>t. t \<noteq> [] \<and> (creds ''refresh_token'' = Some (CStr t) \<or> creds ''access_token'' = Some (CStr t))"
  shows "k = db_nextID db" "table_ok db'" "live_ids fm db' = insert k (live_ids fm db)" "k \<notin> live_ids fm db"
proof -
  let ?row = "\<lparr>ar_ID = db_nextID db, ar_Name = name, ar_Platform = ''openai'', ar_Credentials = creds,
     ar_ProxyURL = proxy, ar_Status = ''active'', ar_CooldownReason = [], ar_CooldownUntil = None,
     ar_ErrorMessage = [], ar_Locked = False, ar_ScoreBiasOverride = None, ar_BaseConcurrencyOverride = None, ar_CreatedAt = now\<rparr>"
  have d: "k = db_nextID db" "db' = db\<lparr>db_rows := db_rows db @ [?row], db_nextID := db_nextID db + 1\<rparr>"
    using assms(2) by (auto simp: insert_account_def Let_def)
  then show "k = db_nextID db" by simp
  show "table_ok db'" unfolding d(2) using assms(1) by (auto simp: table_ok_def Let_def list_all_iff)
  have "has_token fm ?row" using assms(3) by (auto simp: has_token_def GetCredential_def)
  moreover have "{row \<in> insert ?row A. P row} = insert ?row {row \<in> A. P row}" if "P ?row" for A P using that by auto
  ultimately show "live_ids fm db' = insert k (live_ids fm db)" unfolding live_ids_def d by simp
  show "k \<notin> live_ids fm db" using assms(1) d(1) by (auto simp: live_ids_def table_ok_def Let_def list_all_iff)
qed

text \<open>A new object joins the pool.\<close>

lemma join_pool:
  assumes "pool_ok (s, nx)" "DBID a \<notin> set (pool_ids s)"
  shows "pool_ok (AddAccount (set_account nx a (log_db c s)) nx now, Suc nx)"
    "set (pool_ids (AddAccount (set_account nx a (log_db c s)) nx now)) = insert (DBID a) (set (pool_ids s))"
proof -
  let ?s = "set_account nx a (log_db c s)"
  have old: "nx \<notin> set (accounts s)" and inv: "store_inv s" using assms(1) by (auto simp: pool_ok_def)
  have i: "store_inv ?s" by (rule store_inv_alloc) (use inv old in simp_all)
  have id: "DBID (st_heap ?s ad) \<noteq> DBID a" if "ad \<in> set (accounts s)" for ad
  proof -
    have "DBID (st_heap s ad) \<noteq> DBID a" using that assms(2) unfolding pool_ids_def set_map by (metis image_eqI)
    with that old show ?thesis by auto
  qed
  have ids: "DBID (st_heap ?s ad) = DBID (st_heap s ad)" if "ad \<in> set (accounts s)" for ad
    using that old by auto
  have "store_inv (AddAccount ?s nx now)"
    by (rule store_inv_AddAccount) (use i old id in auto)
  then show "pool_ok (AddAccount ?s nx now, Suc nx)" using assms(1) by (auto simp: pool_ok_def)
  show "set (pool_ids (AddAccount ?s nx now)) = insert (DBID a) (set (pool_ids s))"
    using ids by (auto simp: pool_ids_def)
qed

lemma add_rt_agreed:
  assumes "agreed fm w" "rt \<noteq> []"
  shows "agreed fm (fst (add_rt source name rt proxyURL ok now w))"
proof (cases ok)
  case True
  obtain db k where i: "InsertAccount name rt proxyURL now (aa_db w) = (db, k)" by force
  have t: "k = db_nextID (aa_db w)" "table_ok db" "live_ids fm db = insert k (live_ids fm (aa_db w))" "k \<notin> live_ids fm (aa_db w)"
    by (rule insert_account_table[OF _ i[unfolded InsertAccount_def]]; use assms in \<open>simp add: agreed_def\<close>)+
  have p: "pool_ok (aa_pool w, aa_next w)" "DBID (zero_account\<lparr>DBID := k, RefreshToken := rt, ProxyURL := proxyURL\<rparr>) \<notin> set (pool_ids (aa_pool w))"
    using assms(1) t(4) by (simp_all add: agreed_def)
  have "set (pool_ids (aa_pool w)) = live_ids fm (aa_db w)" using assms(1) by (simp add: agreed_def)
  with True t(2,3) join_pool[OF p] show ?thesis
    by (simp add: add_rt_def i agreed_def Let_def)
qed (use assms in \<open>simp add: add_rt_def\<close>)

lemma at_account_id [simp]: "DBID (at_account k atok proxyURL info now) = k"
  by (simp add: at_account_def Let_def split: option.split)

lemma at_credentials_keep:
  fixes db fm
  assumes "table_ok db"
  shows "table_ok (UpdateCredentials k (at_credentials fm i t) db)"
    "live_ids fm (UpdateCredentials k (at_credentials fm i t) db) = live_ids fm db"
proof -
  let ?f = "\<lambda>row. row\<lparr>ar_Credentials := mergeCredentialMaps (ar_Credentials row) (at_credentials fm i t)\<rparr>"
  have m: "mergeCredentialMaps c (at_credentials fm i t) key = c key" if "key \<in> {''refresh_token'', ''access_token''}" for c key
    using that by (auto simp: mergeCredentialMaps_def at_credentials_def map_add_def)
  have "has_token fm (?f row) = has_token fm row" for row by (simp add: has_token_def GetCredential_def m)
  then show "live_ids fm (UpdateCredentials k (at_credentials fm i t) db) = live_ids fm db"
    unfolding UpdateCredentials_def by (intro live_ids_update_row) simp_all
  show "table_ok (UpdateCredentials k (at_credentials fm i t) db)"
    unfolding UpdateCredentials_def using assms by (subst table_ok_update_row) simp_all
qed

lemma add_at_agreed:
  assumes "agreed fm w" "atok \<noteq> []"
  shows "agreed fm (fst (add_at fm dec source name atok proxyURL ok updated now w))"
proof (cases ok)
  case True
  obtain db k where i: "InsertATAccount name atok proxyURL now (aa_db w) = (db, k)" by force
  have t: "k = db_nextID (aa_db w)" "table_ok db" "live_ids fm db = insert k (live_ids fm (aa_db w))" "k \<notin> live_ids fm (aa_db w)"
    by (rule insert_account_table[OF _ i[unfolded InsertATAccount_def]]; use assms in \<open>simp add: agreed_def\<close>)+
  let ?info = "ParseAccessToken dec atok"
  let ?a = "at_account k atok proxyURL ?info now"
  have p: "pool_ok (aa_pool w, aa_next w)" "DBID ?a \<notin> set (pool_ids (aa_pool w))"
    using assms(1) t(4) by (simp_all add: agreed_def)
  have "set (pool_ids (aa_pool w)) = live_ids fm (aa_db w)" using assms(1) by (simp add: agreed_def)
  with True t(2,3) join_pool[OF p] at_credentials_keep[OF t(2)] show ?thesis
    by (cases ?info) (simp_all add: add_at_def i agreed_def Let_def)
qed (use assms in \<open>simp add: add_at_def\<close>)

text \<open>A batch keeps what every step keeps.\<close>

lemma run_batch_induct:
  assumes "P w" "\<And>i w. i \<in> set order \<Longrightarrow> P w \<Longrightarrow> P (fst (add i (tokens ! i) w))"
  shows "P (fst (run_batch add tokens order w))"
proof -
  let ?step = "\<lambda>i (w, good, bad). case add i (tokens ! i) w of (w, True) \<Rightarrow> (w, Suc good, bad) | (w, False) \<Rightarrow> (w, good, Suc bad)"
  have "P (fst (fold ?step is r))" if "P (fst r)" "set is \<subseteq> set order" for "is" and r :: "account_admin \<times> nat \<times> nat"
    using that
  proof (induction "is" arbitrary: r)
    case (Cons i "is")
    obtain w' g b where r: "r = (w', g, b)" by (metis prod_cases3)
    have "P (fst (?step i r))"
      using assms(2)[of i w'] Cons.prems r by (auto split: prod.split bool.split)
    with Cons.IH[of "?step i r"] Cons.prems(2) show ?case by simp
  qed simp
  from this[of "(w, 0, 0)" order] assms(1) show ?thesis by (simp add: run_batch_def)
qed

section \<open>Changing accounts\<close>

text \<open>A pool with the same accounts.\<close>

definition same_pool :: "Store \<Rightarrow> Store \<Rightarrow> bool" where
  "same_pool s s' \<longleftrightarrow> accounts s' = accounts s \<and> (\<forall>x. DBID (st_heap s' x) = DBID (st_heap s x)) \<and> (store_inv s \<longrightarrow> store_inv s')"

lemma same_pool_refl [simp]: "same_pool s s"
  by (simp add: same_pool_def)

lemma same_pool_trans: "same_pool s s' \<Longrightarrow> same_pool s' s'' \<Longrightarrow> same_pool s s''"
  by (simp add: same_pool_def)

lemma agreed_same:
  assumes "agreed fm w" "same_pool (aa_pool w) s" "table_ok db = table_ok (aa_db w)" "live_ids fm db = live_ids fm (aa_db w)"
  shows "agreed fm (w\<lparr>aa_db := db, aa_pool := s\<rparr>)"
  using assms by (simp add: agreed_def same_pool_def pool_ok_def pool_ids_def)

lemma agreed_same_pool: "agreed fm w \<Longrightarrow> same_pool (aa_pool w) s \<Longrightarrow> agreed fm (w\<lparr>aa_pool := s\<rparr>)"
  using agreed_same[of fm w s "aa_db w"] by simp

lemma agreed_same_db:
  "agreed fm w \<Longrightarrow> table_ok db = table_ok (aa_db w) \<Longrightarrow> live_ids fm db = live_ids fm (aa_db w) \<Longrightarrow> agreed fm (w\<lparr>aa_db := db\<rparr>)"
  using agreed_same[of fm w "aa_pool w" db] by simp

lemma same_pool_set_account: "DBID a = DBID (st_heap s ad) \<Longrightarrow> same_pool s (set_account ad a s)"
  by (simp add: same_pool_def store_inv_set_account)

lemma found_in_pool: "store_inv s \<Longrightarrow> FindByID s k = Some ad \<Longrightarrow> ad \<in> set (accounts s)"
  using store_invD(2) by (simp add: FindByID_def)

lemma same_pool_ClearCooldown: "ad \<in> set (accounts s) \<Longrightarrow> same_pool s (ClearCooldown s ad now)"
  by (auto simp: same_pool_def store_inv_reports(3)) (simp_all add: ClearCooldown_def Let_def)

lemma same_pool_overrides:
  "store_inv s \<Longrightarrow> same_pool s (fst (ApplyAccountSchedulerOverrides s k bias base now))"
  by (auto simp: same_pool_def ApplyAccountSchedulerOverrides_def Let_def found_in_pool split: option.split
      intro!: store_inv_publish)

lemma SetAccountLocked_keeps:
  "live_ids fm (SetAccountLocked k l db) = live_ids fm db" "table_ok (SetAccountLocked k l db) = table_ok db"
  unfolding SetAccountLocked_def by (simp_all add: live_ids_same_credentials)

lemma ClearCooldown_keeps:
  "live_ids fm (db_ClearCooldown k db) = live_ids fm db" "table_ok (db_ClearCooldown k db) = table_ok db"
  unfolding db_ClearCooldown_def by (simp_all add: live_ids_same_credentials)

lemma SchedulerConfig_keeps:
  "live_ids fm (fst (UpdateAccountSchedulerConfig k bias base db)) = live_ids fm db"
  "table_ok (fst (UpdateAccountSchedulerConfig k bias base db)) = table_ok db"
  unfolding UpdateAccountSchedulerConfig_def by (simp_all add: live_ids_same_credentials)

lemma toggle_agreed: "agreed fm w \<Longrightarrow> agreed fm (fst (ToggleAccountLock k l ok w))"
  by (auto simp: ToggleAccountLock_def SetAccountLocked_keeps Let_def split: option.split
      intro!: agreed_same agreed_same_db same_pool_set_account)

lemma reset_account_agreed:
  assumes "agreed fm w"
  shows "agreed fm (fst (reset_account ok now k w))"
proof (cases "FindByID (aa_pool w) k")
  case (Some ad)
  then have "ad \<in> set (accounts (aa_pool w))" using assms found_in_pool by (auto simp: agreed_def pool_ok_def)
  then have "same_pool (aa_pool w) (ClearCooldown (aa_pool w) ad now)" by (rule same_pool_ClearCooldown)
  then have "same_pool (aa_pool w)
      (set_account ad (ClearUsageCache (st_heap (ClearCooldown (aa_pool w) ad now) ad)) (ClearCooldown (aa_pool w) ad now))"
    by (rule same_pool_trans[OF _ same_pool_set_account]) (simp add: ClearUsageCache_def)
  then have "agreed fm (w\<lparr>aa_db := (if ok then db_ClearCooldown (DBID (st_heap (aa_pool w) ad)) (aa_db w) else aa_db w),
      aa_pool := set_account ad (ClearUsageCache (st_heap (ClearCooldown (aa_pool w) ad now) ad)) (ClearCooldown (aa_pool w) ad now)\<rparr>)"
    by (rule agreed_same[OF assms]) (simp_all add: ClearCooldown_keeps)
  moreover have "DBID (st_heap (ClearCooldown (aa_pool w) ad now) ad) = DBID (st_heap (aa_pool w) ad)"
    by (simp add: ClearCooldown_def Let_def)
  ultimately show ?thesis using Some by (auto simp: reset_account_def Let_def ClearUsageCache_def)
qed (use assms in \<open>simp add: reset_account_def\<close>)

lemma reset_agreed:
  assumes "agreed fm w"
  shows "agreed fm (fst (ResetAccountStatus k ok now w))"
proof (cases k)
  case (Some i)
  have "fst (ResetAccountStatus k ok now w) = fst (reset_account ok now i w)"
    by (simp add: Some ResetAccountStatus_def split: prod.split bool.split)
  with reset_account_agreed[OF assms] show ?thesis by simp
qed (use assms in \<open>simp add: ResetAccountStatus_def\<close>)

lemma resets_agreed:
  assumes "agreed fm w"
  shows "agreed fm (fst (BatchResetStatus ks ok now w))"
proof (cases "ks = None \<or> ks = Some []")
  case False
  then obtain ids where ids: "ks = Some ids" "ids \<noteq> []" by auto
  have "fst (BatchResetStatus ks ok now w) = fst (run_batch (\<lambda>i k. reset_account (ok k) now k) ids [0..<length ids] w)"
  proof -
    have "fold (\<lambda>k (w, good, bad). case reset_account (ok k) now k w of (w, True) \<Rightarrow> (w, Suc good, bad) | (w, False) \<Rightarrow> (w, good, Suc bad)) ids r =
      fold (\<lambda>i (w, good, bad). case reset_account (ok (ids ! i)) now (ids ! i) w of (w, True) \<Rightarrow> (w, Suc good, bad) | (w, False) \<Rightarrow> (w, good, Suc bad))
        [0..<length ids] r" for r
      by (subst map_nth[symmetric, of ids]) (simp only: fold_map comp_def)
    then show ?thesis using ids by (simp add: BatchResetStatus_def run_batch_def case_prod_beta)
  qed
  then show ?thesis
    using run_batch_induct[of "agreed fm" w "[0..<length ids]" "\<lambda>i k. reset_account (ok k) now k" ids] assms reset_account_agreed
    by simp
qed (use assms in \<open>auto simp: BatchResetStatus_def\<close>)

lemma scheduler_agreed:
  assumes "agreed fm w"
  shows "agreed fm (fst (UpdateAccountScheduler k req ok now w))"
proof -
  have inv: "store_inv (aa_pool w)" using assms by (simp add: agreed_def pool_ok_def)
  have same: "agreed fm (w\<lparr>aa_db := fst (UpdateAccountSchedulerConfig k bias base (aa_db w))\<rparr>)" for k bias base
    by (rule agreed_same_db[OF assms SchedulerConfig_keeps(2,1)])
  have both: "agreed fm (w\<lparr>aa_db := fst (UpdateAccountSchedulerConfig k bias base (aa_db w)),
      aa_pool := fst (ApplyAccountSchedulerOverrides (aa_pool w) k bias base now)\<rparr>)" for k bias base
    by (rule agreed_same[OF assms same_pool_overrides[OF inv] SchedulerConfig_keeps(2,1)])
  have stored: "agreed fm (fst (case UpdateAccountSchedulerConfig k bias base (aa_db w) of
      (db, False) \<Rightarrow> (w\<lparr>aa_db := db\<rparr>, NotFound404)
    | (db, True) \<Rightarrow> (w\<lparr>aa_db := db, aa_pool := fst (ApplyAccountSchedulerOverrides (aa_pool w) k bias base now)\<rparr>, Done200)))"
    for k bias base
    using same[of k bias base] both[of k bias base]
    by (cases "UpdateAccountSchedulerConfig k bias base (aa_db w)") (simp split: bool.split)
  show ?thesis
    unfolding UpdateAccountScheduler_def using assms stored by (simp split: option.split prod.split)
qed

lemma delete_batch_keeps:
  "table_ok (delete_batch ids db) = table_ok db" "live_ids fm (delete_batch ids db) = live_ids fm db - set ids"
proof -
  have ids: "map ar_ID (db_rows (delete_batch ids db)) = map ar_ID (db_rows db)" by (simp add: delete_batch_def)
  have nx: "db_nextID (delete_batch ids db) = db_nextID db" by (simp add: delete_batch_def)
  show "table_ok (delete_batch ids db) = table_ok db" by (simp only: table_ok_def ids nx)
  show "live_ids fm (delete_batch ids db) = live_ids fm db - set ids"
  proof -
    let ?g = "\<lambda>row. if ar_ID row \<in> set ids then mark_deleted row else row"
    have t: "has_token fm (?g row) = has_token fm row" for row by (simp add: mark_deleted_def has_token_def GetCredential_def)
    have "live_ids fm (delete_batch ids db) = ar_ID ` {row \<in> ?g ` set (db_rows db). ar_Status row = ''active'' \<and> has_token fm row}"
      by (simp add: live_ids_def delete_batch_def)
    also have "{row \<in> ?g ` A. ar_Status row = ''active'' \<and> has_token fm row} =
        {row \<in> A. (ar_Status row = ''active'' \<and> has_token fm row) \<and> ar_ID row \<notin> set ids}" for A
      by (auto simp: image_iff t)
    finally show ?thesis by (auto simp: live_ids_def)
  qed
qed

lemma delete_agreed:
  assumes "agreed fm w"
  shows "agreed fm (fst (DeleteAccount k ok w))"
proof (cases "k = None \<or> \<not> ok")
  case False
  then obtain i where k: "k = Some i" and ok by auto
  have inv: "store_inv (aa_pool w)" using assms by (simp add: agreed_def pool_ok_def)
  note acc = RemoveAccount_accounts(1,3)[OF inv, of i]
  have "set (pool_ids (RemoveAccount (aa_pool w) i)) = set (pool_ids (aa_pool w)) - {i}"
    using acc by (auto simp: pool_ids_def)
  moreover have "SoftDeleteAccount i (aa_db w) = delete_batch [i] (aa_db w)"
    by (simp add: SoftDeleteAccount_def update_row_def delete_batch_def)
  moreover have "pool_ok (RemoveAccount (aa_pool w) i, aa_next w)"
    using assms acc(1) store_inv_RemoveAccount[OF inv] by (auto simp: agreed_def pool_ok_def)
  ultimately show ?thesis
    using assms k \<open>ok\<close> by (simp add: DeleteAccount_def agreed_def delete_batch_keeps pool_ok_def pool_ids_def)
qed (use assms in \<open>auto simp: DeleteAccount_def split: option.split\<close>)

text \<open>The removal of duplicates, if its statements succeed.\<close>

definition dedupe_done :: "int list \<Rightarrow> account_admin \<Rightarrow> account_admin" where
  "dedupe_done ids w =
     (case fst (DedupeAccounts (\<lambda>_. True) ids (aa_db w, aa_pool w)) of (db, s) \<Rightarrow> w\<lparr>aa_db := db, aa_pool := s\<rparr>)"

lemma dedupe_agreed:
  assumes "agreed fm w"
  shows "agreed fm (dedupe_done ids w)"
proof (cases "ids = [] \<or> length ids > 10000 \<or> clean_ids {} ids = []")
  case True
  then show ?thesis using assms by (auto simp: dedupe_done_def DedupeAccounts_def Let_def)
next
  case False
  have inv: "store_inv (aa_pool w)" using assms by (simp add: agreed_def pool_ok_def)
  let ?c = "clean_ids {} ids"
  let ?s = "fold (\<lambda>k s. RemoveAccount s k) ?c (aa_pool w)"
  have below: "set (accounts (fold (\<lambda>k s. RemoveAccount s k) ks s)) \<subseteq> set (accounts s)" for ks s
    by (induction ks arbitrary: s) (auto dest: calm_RemoveAccount[THEN movesD(1), THEN subsetD])
  have "dedupe_done ids w = w\<lparr>aa_db := delete_batch ?c (aa_db w),
      aa_pool := log_db (DbBatchInsertAccountEvents ?c ''deleted'' ''dedupe'') ?s\<rparr>"
    using False by (auto simp: dedupe_done_def DedupeAccounts_def BatchSoftDeleteAccounts_def delete_batches_all Let_def)
  with assms removed_pool[OF inv, of ?c] below[of ?c "aa_pool w"] show ?thesis
    by (auto simp: agreed_def pool_ok_def delete_batch_keeps pool_ids_def)
qed

section \<open>Batches of tokens\<close>

text \<open>Every token of a batch is inserted once, in some order.\<close>

definition each_once :: "(nat \<Rightarrow> nat list) \<Rightarrow> bool" where
  "each_once order \<longleftrightarrow> (\<forall>n. mset (order n) = mset [0..<n])"

lemma each_once_below: "each_once order \<Longrightarrow> i \<in> set (order n) \<Longrightarrow> i < n"
  using mset_eq_setD[of "order n" "[0..<n]"] by (auto simp: each_once_def)

lemma run_batch_agreed:
  assumes "agreed fm w" "each_once order" "\<And>i w. i < length tokens \<Longrightarrow> agreed fm w \<Longrightarrow> agreed fm (fst (add i (tokens ! i) w))"
  shows "agreed fm (fst (case run_batch add tokens (order (length tokens)) w of (w, good, bad) \<Rightarrow> (w, answer good bad)))"
proof -
  have "agreed fm (fst (run_batch add tokens (order (length tokens)) w))"
    by (rule run_batch_induct) (use assms each_once_below in blast)+
  then show ?thesis by (simp add: case_prod_beta)
qed

lemma nonempty_nth: "i < length (nonempty_lines ts) \<Longrightarrow> nonempty_lines ts ! i \<noteq> []"
  using nth_mem[of i "nonempty_lines ts"] by (simp add: nonempty_lines_def)

lemma AddAccount_agreed:
  assumes "agreed fm w" "each_once order"
  shows "agreed fm (fst (admin_AddAccount suspicious req order ok now w))"
proof (cases req)
  case (Some r)
  obtain name field proxyURL where r: "r = (name, field, proxyURL)" by (rule prod_cases3)
  show ?thesis
    unfolding admin_AddAccount_def Some r option.case prod.case Let_def
    by (simp only: if_distrib[of fst] fst_conv)
      (use assms in \<open>auto intro!: run_batch_agreed add_rt_agreed nonempty_nth\<close>)
qed (use assms in \<open>simp add: admin_AddAccount_def\<close>)

lemma AddATAccount_agreed:
  assumes "agreed fm w" "each_once order"
  shows "agreed fm (fst (admin_AddATAccount fm dec suspicious req order ok updated now w))"
proof (cases req)
  case (Some r)
  obtain name field proxyURL where r: "r = (name, field, proxyURL)" by (rule prod_cases3)
  show ?thesis
    unfolding admin_AddATAccount_def Some r option.case prod.case Let_def
    by (simp only: if_distrib[of fst] fst_conv)
      (use assms in \<open>auto intro!: run_batch_agreed add_at_agreed nonempty_nth\<close>)
qed (use assms in \<open>simp add: admin_AddATAccount_def\<close>)

section \<open>Importing\<close>

definition real_token :: "importToken \<Rightarrow> bool" where
  "real_token t \<longleftrightarrow> it_refreshToken t \<noteq> [] \<or> it_accessToken t \<noteq> []"

lemma entry_token_real: "entry_token rt atok name = Some t \<Longrightarrow> real_token t"
  by (auto simp: entry_token_def real_token_def split: if_splits)

lemma map_filter_set: "y \<in> set (List.map_filter f xs) \<Longrightarrow> \<exists>x. f x = Some y"
  by (auto simp: List.map_filter_def)

lemma parsed_real: "parseImportJSONTokens f = Some ts \<Longrightarrow> t \<in> set ts \<Longrightarrow> real_token t"
  by (auto simp: parseImportJSONTokens_def parseFlatJSONImportTokens_def parseSub2APIJSONImportTokens_def
      jsonAccountEntriesToTokens_def split: if_splits option.splits dest!: map_filter_set intro: entry_token_real)

lemma file_unique_set: "set (file_unique seenRT seenAT ts) \<subseteq> set ts"
  by (induction seenRT seenAT ts rule: file_unique.induct) auto

lemma import_one_agreed:
  "agreed fm w \<Longrightarrow> real_token t \<Longrightarrow> agreed fm (fst (import_one fm dec proxyURL ok updated now i t w))"
  by (auto simp: import_one_def real_token_def intro: add_rt_agreed add_at_agreed)

lemma importCommon_agreed:
  assumes "agreed fm w" "each_once (ie_order e)" "\<And>t. t \<in> set tokens \<Longrightarrow> real_token t"
  shows "agreed fm (fst (importAccountsCommon fm dec e proxyURL tokens w))"
proof -
  let ?fresh = "filter (\<lambda>t. \<not> known_tokens fm (ie_readRT e) (ie_readAT e) (aa_db w) t) (file_unique {} {} tokens)"
  have "real_token (?fresh ! i)" if "i < length ?fresh" for i
    using nth_mem[OF that] file_unique_set assms(3) by (meson filter_is_subset subsetD)
  then show ?thesis
    unfolding importAccountsCommon_def Let_def
    by (simp only: if_distrib[of fst] fst_conv) (use assms in \<open>auto intro!: run_batch_agreed import_one_agreed\<close>)
qed

lemma files_real:
  assumes "t \<in> set (concat (map (\<lambda>p. case p of None \<Rightarrow> [] | Some ts \<Rightarrow> ts)
      (map (\<lambda>f. case f of None \<Rightarrow> None | Some j \<Rightarrow> parseImportJSONTokens j) files)))"
  shows "real_token t"
proof -
  from assms obtain j ts where "parseImportJSONTokens j = Some ts" "t \<in> set ts"
    by (auto split: option.splits) metis
  then show ?thesis by (rule parsed_real)
qed

lemma import_agreed:
  assumes "agreed fm w" "each_once (ie_order e)"
  shows "agreed fm (fst (ImportAccounts fm dec e form proxyURL data files w))"
proof -
  have plain: "agreed fm (fst (importAccountsTXT fm dec e proxyURL data w))"
    using assms unfolding importAccountsTXT_def Let_def
    by (auto split: option.split simp: real_token_def line_tokens_def nonempty_lines_def intro!: importCommon_agreed)
  have json: "agreed fm (fst (importAccountsJSON fm dec e proxyURL files w))"
    using assms unfolding importAccountsJSON_def Let_def
    by (simp only: if_distrib[of fst] fst_conv) (auto intro!: importCommon_agreed files_real)
  have ne: "t \<noteq> []" if "t \<in> set (line_tokens d)" for t d using that by (simp add: line_tokens_def nonempty_lines_def)
  have "agreed fm (fst (importAccountsATTXT fm dec e proxyURL data w))"
  proof (cases data)
    case (Some d)
    let ?fresh = "filter (\<lambda>t. \<not> (ie_readAT e \<and> t \<in> GetAllAccessTokens fm (aa_db w))) (line_tokens d)"
    have "?fresh ! i \<noteq> []" if "i < length ?fresh" for i using nth_mem[OF that] ne by auto
    then show ?thesis
      unfolding importAccountsATTXT_def Some option.case Let_def
      by (simp only: if_distrib[of fst] fst_conv) (use assms in \<open>auto intro!: run_batch_agreed add_at_agreed\<close>)
  qed (use assms in \<open>simp add: importAccountsATTXT_def\<close>)
  with plain json show ?thesis by (simp add: ImportAccounts_def)
qed

section \<open>Importing twice\<close>

lemma tokens_in_insert:
  assumes "insert_account creds name proxy now db = (db', k)"
  shows "tokens_in fm key db' = tokens_in fm key db \<union> {t. t = credentialString fm creds key \<and> t \<noteq> []}"
  using assms unfolding tokens_in_def insert_account_def Let_def by (auto simp del: set_filter)

lemma tokens_in_credentials:
  assumes "key \<in> {''refresh_token'', ''access_token''}"
  shows "tokens_in fm key (UpdateCredentials k (at_credentials fm i t) db) = tokens_in fm key db"
proof -
  define g where "g row = (if ar_ID row = k then row\<lparr>ar_Credentials := mergeCredentialMaps (ar_Credentials row) (at_credentials fm i t)\<rparr> else row)" for row :: AccountRow
  have m: "mergeCredentialMaps c (at_credentials fm i t) key = c key" for c
    using assms by (auto simp: mergeCredentialMaps_def at_credentials_def map_add_def)
  have g: "credentialString fm (ar_Credentials (g row)) key = credentialString fm (ar_Credentials row) key"
    "ar_Status (g row) = ar_Status row" "ar_ErrorMessage (g row) = ar_ErrorMessage row" for row
    by (simp_all add: credentialString_def m g_def)
  have rows: "db_rows (UpdateCredentials k (at_credentials fm i t) db) = map g (db_rows db)"
    by (simp add: UpdateCredentials_def update_row_def g_def)
  show ?thesis unfolding tokens_in_def rows filter_map comp_def set_map image_image g ..
qed

text \<open>What the table table_knows of tokens: it forgets none, and learns what is added.\<close>

definition table_knows :: "formats \<Rightarrow> account_admin \<Rightarrow> bool \<Rightarrow> string \<Rightarrow> bool" where
  "table_knows fm w isAT t \<longleftrightarrow> t \<in> tokens_in fm (if isAT then ''access_token'' else ''refresh_token'') (aa_db w)"

lemma table_knows_insert:
  assumes "insert_account creds name proxy now (aa_db w) = (aa_db w', k)"
  shows "table_knows fm w isAT t \<Longrightarrow> table_knows fm w' isAT t"
    "t \<noteq> [] \<Longrightarrow> creds (if isAT then ''access_token'' else ''refresh_token'') = Some (CStr t) \<Longrightarrow> table_knows fm w' isAT t"
  by (simp_all add: table_knows_def tokens_in_insert[OF assms] credentialString_def)

lemma table_knows_db: "tokens_in fm ''access_token'' (aa_db w) = tokens_in fm ''access_token'' (aa_db w') \<Longrightarrow>
    tokens_in fm ''refresh_token'' (aa_db w) = tokens_in fm ''refresh_token'' (aa_db w') \<Longrightarrow> table_knows fm w = table_knows fm w'"
  by (intro ext) (simp add: table_knows_def)

lemma add_rt_knows:
  assumes "add_rt source name rt proxyURL ok now w = (w', b)"
  shows "table_knows fm w isAT t \<Longrightarrow> table_knows fm w' isAT t" "b \<Longrightarrow> rt \<noteq> [] \<Longrightarrow> table_knows fm w' False rt"
proof -
  have no: "w' = w \<and> \<not> b" if "\<not> ok" using assms that by (simp add: add_rt_def)
  have "\<exists>k. insert_account [''refresh_token'' \<mapsto> CStr rt] name proxyURL now (aa_db w) = (aa_db w', k)" if ok
    using assms that by (auto simp: add_rt_def InsertAccount_def Let_def split: prod.splits)
  then obtain k where k: "ok \<Longrightarrow> insert_account [''refresh_token'' \<mapsto> CStr rt] name proxyURL now (aa_db w) = (aa_db w', k)" by blast
  show "table_knows fm w isAT t \<Longrightarrow> table_knows fm w' isAT t"
    using no table_knows_insert(1)[OF k, where fm = fm and isAT = isAT and t = t] by (cases ok) simp_all
  show "b \<Longrightarrow> rt \<noteq> [] \<Longrightarrow> table_knows fm w' False rt"
    using no table_knows_insert(2)[OF k, where fm = fm and isAT = False and t = rt] by (cases ok) simp_all
qed

lemma add_at_knows:
  assumes "add_at fm dec source name atok proxyURL ok updated now w = (w', b)"
  shows "table_knows fm w isAT t \<Longrightarrow> table_knows fm w' isAT t" "b \<Longrightarrow> atok \<noteq> [] \<Longrightarrow> table_knows fm w' True atok"
proof -
  have no: "w' = w \<and> \<not> b" if "\<not> ok" using assms that by (simp add: add_at_def)
  obtain db k where i: "insert_account [''access_token'' \<mapsto> CStr atok] name proxyURL now (aa_db w) = (db, k)" by force
  have db: "tokens_in fm key (aa_db w') = tokens_in fm key db" if ok "key \<in> {''refresh_token'', ''access_token''}" for key
    using assms that(1) tokens_in_credentials[OF that(2)]
    by (auto simp: add_at_def InsertATAccount_def i Let_def split: option.splits if_splits)
  have eq: "table_knows fm w' = table_knows fm (w\<lparr>aa_db := db\<rparr>)" if ok by (rule table_knows_db) (simp_all add: db that)
  have "insert_account [''access_token'' \<mapsto> CStr atok] name proxyURL now (aa_db w) = (aa_db (w\<lparr>aa_db := db\<rparr>), k)" by (simp add: i)
  note k = table_knows_insert[OF this, where fm = fm]
  show "table_knows fm w isAT t \<Longrightarrow> table_knows fm w' isAT t"
    using no eq k(1)[where isAT = isAT and t = t] by (cases ok) simp_all
  show "b \<Longrightarrow> atok \<noteq> [] \<Longrightarrow> table_knows fm w' True atok"
    using no eq k(2)[where isAT = True and t = atok] by (cases ok) simp_all
qed

lemma run_batch_learns:
  assumes "run_batch add tokens order w = (w', good, 0)"
    and keep: "\<And>i t w w' b isAT s. add i t w = (w', b) \<Longrightarrow> table_knows fm w isAT s \<Longrightarrow> table_knows fm w' isAT s"
    and learn: "\<And>i w w'. i \<in> set order \<Longrightarrow> add i (tokens ! i) w = (w', True) \<Longrightarrow> table_knows fm w' (kind (tokens ! i)) (val (tokens ! i))"
  shows "\<forall>i \<in> set order. table_knows fm w' (kind (tokens ! i)) (val (tokens ! i))"
    "table_knows fm w isAT s \<Longrightarrow> table_knows fm w' isAT s"
proof -
  let ?step = "\<lambda>i (w, good, bad). case add i (tokens ! i) w of (w, True) \<Rightarrow> (w, Suc good, bad) | (w, False) \<Rightarrow> (w, good, Suc bad)"
  have "(\<forall>i \<in> set is. table_knows fm w' (kind (tokens ! i)) (val (tokens ! i))) \<and>
      (\<forall>isAT s. table_knows fm w isAT s \<longrightarrow> table_knows fm w' isAT s) \<and> c = 0"
    if "fold ?step is (w, g, c) = (w', good, 0)" "set is \<subseteq> set order" for "is" w g c
    using that
  proof (induction "is" arbitrary: w g c)
    case (Cons i "is")
    obtain v b where a: "add i (tokens ! i) w = (v, b)" by force
    have rest: "fold ?step is (v, if b then Suc g else g, if b then c else Suc c) = (w', good, 0)"
      using Cons.prems(1) a by (cases b) simp_all
    have ih: "(\<forall>i \<in> set is. table_knows fm w' (kind (tokens ! i)) (val (tokens ! i))) \<and>
        (\<forall>isAT s. table_knows fm v isAT s \<longrightarrow> table_knows fm w' isAT s) \<and> (if b then c else Suc c) = 0"
      by (rule Cons.IH[OF rest]) (use Cons.prems(2) in simp)
    then have b: "b" "c = 0" by (auto split: if_splits)
    have "table_knows fm v (kind (tokens ! i)) (val (tokens ! i))" using learn[of i w v] a b Cons.prems(2) by simp
    with ih keep[OF a] b show ?case by auto
  qed simp
  from this[of order w 0 0] assms(1) show
    "\<forall>i \<in> set order. table_knows fm w' (kind (tokens ! i)) (val (tokens ! i))" "table_knows fm w isAT s \<Longrightarrow> table_knows fm w' isAT s"
    by (simp_all add: run_batch_def)
qed

definition is_known :: "formats \<Rightarrow> account_admin \<Rightarrow> importToken \<Rightarrow> bool" where
  "is_known fm w t \<longleftrightarrow> (if it_accessToken t \<noteq> [] then table_knows fm w True (it_accessToken t) else table_knows fm w False (it_refreshToken t))"

lemma is_known_eq:
  "is_known fm w t = table_knows fm w (it_accessToken t \<noteq> []) (if it_accessToken t \<noteq> [] then it_accessToken t else it_refreshToken t)"
  by (simp add: is_known_def)

lemma known_tokens_iff: "known_tokens fm True True (aa_db w) t = is_known fm w t"
  by (simp add: known_tokens_def is_known_def table_knows_def GetAllAccessTokens_def GetAllRefreshTokens_def)

lemma known_if_read: "known_tokens fm readRT readAT (aa_db w) t \<Longrightarrow> is_known fm w t"
  by (auto simp: known_tokens_def is_known_def table_knows_def GetAllAccessTokens_def GetAllRefreshTokens_def split: if_splits)

text \<open>A batch of the tokens that are not known yet, none of which fails, leaves all of them known.\<close>

lemma each_once_set: "each_once order \<Longrightarrow> set (order n) = {..<n}"
  using mset_eq_setD[of "order n" "[0..<n]"] by (simp add: each_once_def lessThan_atLeast0)

lemma learns_all:
  fixes known :: "'a \<Rightarrow> bool" and all :: "'a list"
  defines "unseen \<equiv> filter (\<lambda>t. \<not> known t) all"
  assumes r: "run_batch add unseen (order (length unseen)) w = (w', good, 0)" and "each_once order"
    and keep: "\<And>i t w w' b isAT s. add i t w = (w', b) \<Longrightarrow> table_knows fm w isAT s \<Longrightarrow> table_knows fm w' isAT s"
    and learn: "\<And>i t w w'. t \<in> set all \<Longrightarrow> add i t w = (w', True) \<Longrightarrow> table_knows fm w' (kind t) (val t)"
    and known: "\<And>t. known t \<Longrightarrow> table_knows fm w (kind t) (val t)"
    and t: "t \<in> set all"
  shows "table_knows fm w' (kind t) (val t)"
proof -
  have below: "unseen ! i \<in> set all" if "i \<in> set (order (length unseen))" for i
  proof -
    have "unseen ! i \<in> set unseen" using that each_once_set[OF assms(3)] by simp
    then show ?thesis by (simp add: unseen_def)
  qed
  have l: "\<forall>i \<in> set (order (length unseen)). table_knows fm w' (kind (unseen ! i)) (val (unseen ! i))"
    by (rule run_batch_learns(1)[OF r]) (use keep learn below in blast)+
  have l2: "table_knows fm w isAT s \<Longrightarrow> table_knows fm w' isAT s" for isAT s
    by (rule run_batch_learns(2)[where kind = kind and val = val, OF r]) (use keep learn below in blast)+
  show ?thesis
  proof (cases "known t")
    case False
    then have "t \<in> set unseen" using t by (simp add: unseen_def)
    then obtain i where i: "i < length unseen" "unseen ! i = t" by (metis in_set_conv_nth)
    then have "i \<in> set (order (length unseen))" by (simp add: each_once_set[OF assms(3)])
    with l have "table_knows fm w' (kind (unseen ! i)) (val (unseen ! i))" by (rule bspec)
    then show ?thesis unfolding i(2) .
  qed (use known l2 in blast)
qed

lemma empty_batch: "each_once order \<Longrightarrow> run_batch add tokens (order 0) w = (w, 0, 0)"
  using each_once_set[of order 0] by (simp add: run_batch_def)

lemma common_learns:
  assumes "importAccountsCommon fm dec e proxyURL tokens w = (w', ImportCounted good dups 0 n)" "each_once (ie_order e)"
    and "\<And>t. t \<in> set tokens \<Longrightarrow> real_token t" and "ie_readRT e'" "ie_readAT e'"
  shows "importAccountsCommon fm dec e' proxyURL' tokens w' = (w', ImportCounted 0 n 0 n)"
proof -
  let ?unique = "file_unique {} {} tokens"
  let ?known = "known_tokens fm (ie_readRT e) (ie_readAT e) (aa_db w)"
  let ?fresh = "filter (\<lambda>t. \<not> ?known t) ?unique"
  let ?add = "import_one fm dec proxyURL (ie_ok e) (ie_updated e) (ie_now e)"
  have real: "real_token t" if "t \<in> set ?unique" for t using that assms(3) file_unique_set by blast
  have n: "n = length ?unique" using assms(1) by (auto simp: importAccountsCommon_def Let_def split: if_splits prod.splits)
  have r: "run_batch ?add ?fresh (ie_order e (length ?fresh)) w = (w', good, 0)"
  proof (cases "?fresh = []")
    case True
    with assms(1) have "w' = w" "good = 0" by (simp_all add: importAccountsCommon_def Let_def)
    with True show ?thesis by (simp add: empty_batch[OF assms(2)])
  qed (use assms(1) in \<open>auto simp: importAccountsCommon_def Let_def split: prod.splits\<close>)
  have "is_known fm w' t" if t: "t \<in> set ?unique" for t
    unfolding is_known_eq
  proof (rule learns_all[OF r assms(2) _ _ _ t])
    show "table_knows fm v' isAT s" if "?add i t v = (v', b)" "table_knows fm v isAT s" for i t v v' b isAT s
      using that by (auto simp: import_one_def dest: add_rt_knows(1) add_at_knows(1) split: if_splits)
    show "table_knows fm v' (it_accessToken t \<noteq> []) (if it_accessToken t \<noteq> [] then it_accessToken t else it_refreshToken t)"
      if "t \<in> set ?unique" "?add i t v = (v', True)" for i t v v'
      using that(2) real[OF that(1)] by (auto simp: import_one_def real_token_def dest: add_rt_knows(2) add_at_knows(2) split: if_splits)
  qed (simp only: known_if_read is_known_eq[symmetric])
  then have f: "filter (\<lambda>t. \<not> is_known fm w' t) ?unique = []" "filter (\<lambda>t. is_known fm w' t) ?unique = ?unique"
    by (simp_all only: filter_empty_conv filter_id_conv not_not) blast+
  have r: "ie_readRT e' = True" "ie_readAT e' = True" using assms(4,5) by simp_all
  show ?thesis unfolding importAccountsCommon_def Let_def r known_tokens_iff f n by simp
qed

lemma attxt_learns:
  assumes "importAccountsATTXT fm dec e proxyURL data w = (w', ImportCounted good dups 0 n)" "each_once (ie_order e)" "ie_readAT e'"
  shows "importAccountsATTXT fm dec e' proxyURL' data w' = (w', ImportCounted 0 n 0 n)"
proof (cases data)
  case (Some d)
  let ?all = "line_tokens d"
  let ?known = "\<lambda>t. ie_readAT e \<and> t \<in> GetAllAccessTokens fm (aa_db w)"
  let ?fresh = "filter (\<lambda>t. \<not> ?known t) ?all"
  let ?add = "\<lambda>i t. add_at fm dec ''import_at'' (''at-import-'' @ itoa (i + 1)) t proxyURL (ie_ok e i) (ie_updated e i) (ie_now e)"
  have n: "n = length ?all" "?all \<noteq> []"
    using assms(1) by (auto simp: importAccountsATTXT_def Some Let_def split: if_splits prod.splits)
  have r: "run_batch ?add ?fresh (ie_order e (length ?fresh)) w = (w', good, 0)"
  proof (cases "?fresh = []")
    case True
    with assms(1) n(2) have "w' = w" "good = 0" by (simp_all add: importAccountsATTXT_def Some Let_def)
    with True show ?thesis by (simp add: empty_batch[OF assms(2)])
  qed (use assms(1) n(2) in \<open>auto simp: importAccountsATTXT_def Some Let_def split: prod.splits\<close>)
  have "table_knows fm w' True t" if t: "t \<in> set ?all" for t
  proof (rule learns_all[where kind = "\<lambda>_. True" and val = "\<lambda>t. t", OF r assms(2) _ _ _ t])
    show "table_knows fm v' True t" if "t \<in> set ?all" "?add i t v = (v', True)" for i t v v'
      by (rule add_at_knows(2)[OF that(2)]) (use that(1) in \<open>simp_all add: line_tokens_def nonempty_lines_def\<close>)
  qed (erule (1) add_at_knows(1), simp add: table_knows_def GetAllAccessTokens_def)
  then have f: "filter (\<lambda>t. \<not> t \<in> GetAllAccessTokens fm (aa_db w')) ?all = []" "filter (\<lambda>t. t \<in> GetAllAccessTokens fm (aa_db w')) ?all = ?all"
    unfolding filter_empty_conv filter_id_conv by (simp_all add: table_knows_def GetAllAccessTokens_def)
  have r: "ie_readAT e' = True" using assms(3) by simp
  show ?thesis using n(2) unfolding importAccountsATTXT_def Some option.case Let_def r f n(1) by (simp add: f)
qed (use assms in \<open>simp add: importAccountsATTXT_def\<close>)


definition demo_import :: import_env where
  "demo_import = \<lparr>ie_readRT = True, ie_readAT = True, ie_ok = (\<lambda>_. True), ie_updated = (\<lambda>_. True),
     ie_order = (\<lambda>n. [0..<n]), ie_now = 0\<rparr>"

definition demo_decoders :: at_decoders where
  "demo_decoders = \<lparr>ad_url = (\<lambda>_. None), ad_std = (\<lambda>_. None), ad_claims = (\<lambda>_. None)\<rparr>"

definition demo_admin :: account_admin where
  "demo_admin = \<lparr>aa_db = one_row_db, aa_pool = demo_store True, aa_next = 7\<rparr>"

lemma demo_file: "line_tokens ''r'' = [''r'']"
  by code_simp


section \<open>Any sequence of changes\<close>

inductive admin_step :: "formats \<Rightarrow> at_decoders \<Rightarrow> account_admin \<Rightarrow> account_admin \<Rightarrow> bool" for fm dec where
  step_add: "each_once order \<Longrightarrow> admin_step fm dec w (fst (admin_AddAccount suspicious req order ok now w))"
| step_add_at: "each_once order \<Longrightarrow> admin_step fm dec w (fst (admin_AddATAccount fm dec suspicious req order ok updated now w))"
| step_import: "each_once (ie_order e) \<Longrightarrow> admin_step fm dec w (fst (ImportAccounts fm dec e form proxyURL data files w))"
| step_delete: "admin_step fm dec w (fst (DeleteAccount k ok w))"
| step_lock: "admin_step fm dec w (fst (ToggleAccountLock k l ok w))"
| step_reset: "admin_step fm dec w (fst (ResetAccountStatus k ok now w))"
| step_resets: "admin_step fm dec w (fst (BatchResetStatus ks oks now w))"
| step_schedule: "admin_step fm dec w (fst (UpdateAccountScheduler k sreq ok now w))"
| step_dedupe: "admin_step fm dec w (dedupe_done ids w)"

lemma admin_step_agreed: "admin_step fm dec w w' \<Longrightarrow> agreed fm w \<Longrightarrow> agreed fm w'"
  by (induction rule: admin_step.induct)
    (simp_all add: AddAccount_agreed AddATAccount_agreed import_agreed delete_agreed toggle_agreed reset_agreed resets_agreed
      scheduler_agreed dedupe_agreed)

lemma admin_steps_agreed: "(admin_step fm dec)\<^sup>*\<^sup>* w w' \<Longrightarrow> agreed fm w \<Longrightarrow> agreed fm w'"
  by (induction rule: rtranclp_induct) (auto intro: admin_step_agreed)

lemma start_agreed:
  assumes "Init fm now (Some (ListActive db)) (NewStore env proxies b tc settings h, n) = Some (s, n')" "table_ok db"
  shows "agreed fm \<lparr>aa_db = db, aa_pool = s, aa_next = n'\<rparr>"
proof -
  let ?out = "fold (load_row fm now) (ListActive db) (NewStore env proxies b tc settings h, n)"
  have "distinct (map ar_ID (ListActive db))" using assms(2) by (simp add: table_ok_def ListActive_def distinct_map_filter Let_def)
  moreover have "pool_ok (NewStore env proxies b tc settings h, n)" by (simp add: pool_ok_def)
  ultimately have out: "pool_ok ?out" "pool_ids (fst ?out) = map ar_ID (filter (has_token fm) (ListActive db))"
    using load_rows_ok[of "(NewStore env proxies b tc settings h, n)" "ListActive db" fm now] by (auto simp: pool_ids_def)
  have acc: "accounts (rebuildFastScheduler s now) = accounts s" for s
    by (simp add: rebuildFastScheduler_def BuildFastScheduler_def case_prod_beta)
  from assms(1) out have "pool_ok (s, n')" "pool_ids s = map ar_ID (filter (has_token fm) (ListActive db))"
    by (auto simp: Init_def loadFromDB_def pool_ok_def rebuild_ids acc split: prod.splits if_splits intro: store_inv_rebuild)
  then show ?thesis using assms(2) by (auto simp: agreed_def live_ids_def ListActive_def)
qed



text \<open>
  Resetting a free account that has used up its quota makes it available, but it is put back into the fast scheduler before its
  usage is forgotten, so the scheduler leaves it out.
\<close>

definition used_up_store :: Store where
  "used_up_store =
     AddAccount (NewStore (demo_env True) None True (NewMemory 1) None
       (demo_heap(2 := (demo_heap 2)\<lparr>PlanType := ''free'', UsagePercent7d := 110, UsagePercent7dValid := True\<rparr>))) 2 100"

lemma reset_account_is_left_out:
  "let s = aa_pool (fst (ResetAccountStatus (Some 2) True 200 \<lparr>aa_db = one_row_db, aa_pool = used_up_store, aa_next = 7\<rparr>))
   in IsAvailable (st_heap s 2) 200 \<and> map_option (\<lambda>fs. map (\<lambda>t. fs_buckets fs t) [HealthTierHealthy, HealthTierWarm, HealthTierRisky]) (getFastScheduler s) = Some [[], [], []]"
  by code_simp

end
