(* ===== verification/OAuthLaws.thy ===== *)
theory OAuthLaws
  imports OAuth AccountAdminLaws
begin

text \<open>
  An account signs in only through a session that its state names and that is not older than half an hour, with the verifier of that
  session, however requests, callbacks and cleanups interleave. Cleaning up is invisible. A callback can be repeated.
\<close>

section \<open>Time\<close>

lemma go_sub_mono: "t \<le> t' \<Longrightarrow> go_sub t u \<le> go_sub t' u"
  by (simp add: go_sub_def)

lemma fresh_mono: "oauth_fresh later ses \<Longrightarrow> now \<le> later \<Longrightarrow> oauth_fresh now ses"
  using go_sub_mono[of now later "os_CreatedAt ses"] by (simp add: oauth_fresh_def)

text \<open>
  Whether expired sessions have been cleaned up makes no difference to any later lookup.
\<close>

theorem cleanup_is_invisible:
  assumes "now \<le> later"
  shows "oauth_get later key (oauth_cleanup now st) = oauth_get later key st \<and>
    findByState later visits state (oauth_cleanup now st) = findByState later visits state st"
proof -
  let ?st = "oauth_cleanup now st"
  have heap: "ss_heap ?st = ss_heap st" by (simp add: oauth_cleanup_def)
  define hit where "hit f = (\<lambda>(st :: oauthSessionStore) key. case ss_sessions st key of None \<Rightarrow> False | Some ad \<Rightarrow> f (ss_heap st ad) \<and> oauth_fresh later (ss_heap st ad))"
    for f :: "oauthSession \<Rightarrow> bool"
  have same: "ss_sessions ?st key = ss_sessions st key" if "hit f st key" for f key
    using that fresh_mono[OF _ assms] by (auto simp: hit_def oauth_cleanup_def split: option.splits)
  have hit: "hit f ?st key = hit f st key" for f key
  proof (cases "ss_sessions st key")
    case (Some ad)
    then show ?thesis using same[of f key] by (cases "hit f st key") (auto simp: hit_def heap oauth_cleanup_def)
  qed (simp add: hit_def oauth_cleanup_def)
  have get: "oauth_get later key st = (if hit (\<lambda>_. True) st key then ss_sessions st key else None)" for st
    by (simp add: oauth_get_def hit_def split: option.split)
  have find: "findByState later visits state st =
      (case find (hit (\<lambda>x. os_State x = state) st) visits of None \<Rightarrow> None | Some key \<Rightarrow> map_option (\<lambda>ad. (key, ad)) (ss_sessions st key))" for st
    by (simp add: findByState_def hit_def)
  have "hit (\<lambda>x. os_State x = state) ?st = hit (\<lambda>x. os_State x = state) st" by (rule ext) (rule hit)
  moreover have "ss_sessions ?st key = ss_sessions st key" if "find (hit f st) visits = Some key" for f key
    by (rule same[of f]) (use that in \<open>auto simp: find_Some_iff\<close>)
  ultimately have "findByState later visits state ?st = findByState later visits state st"
    unfolding find by (auto split: option.split)
  moreover have "oauth_get later key ?st = oauth_get later key st" unfolding get hit by (simp add: same)
  ultimately show ?thesis by blast
qed

section \<open>Sessions keep what they were made with\<close>

definition oauth_core :: "oauthSession \<Rightarrow> string \<times> string \<times> string \<times> string \<times> time" where
  "oauth_core x = (os_State x, os_CodeVerifier x, os_RedirectURI x, os_ProxyURL x, os_CreatedAt x)"

text \<open>The store has grown: objects that were there are there and as they were made.\<close>

definition store_grows :: "oauthSessionStore \<Rightarrow> oauthSessionStore \<Rightarrow> bool" where
  "store_grows st st' \<longleftrightarrow> ss_next st \<le> ss_next st' \<and> (\<forall>ad < ss_next st. oauth_core (ss_heap st' ad) = oauth_core (ss_heap st ad))"

lemma store_grows_refl [simp]: "store_grows st st"
  by (simp add: store_grows_def)

lemma grows_set [simp]: "store_grows st (oauth_set key ses st)"
  by (simp add: store_grows_def oauth_set_def)

lemma grows_delete [simp]: "store_grows st (oauth_delete key st)"
  by (simp add: store_grows_def oauth_delete_def)

lemma grows_cleanup [simp]: "store_grows st (oauth_cleanup now st)"
  by (simp add: store_grows_def oauth_cleanup_def)

lemma grows_on_session [simp]:
  "store_grows st (on_oauth_session ad (\<lambda>x. x\<lparr>os_ExchangeResult := r\<rparr>) st)"
  "store_grows st (on_oauth_session ad (\<lambda>x. x\<lparr>os_CallbackCode := c, os_CallbackState := s, os_CallbackAt := t\<rparr>) st)"
  by (simp_all add: store_grows_def on_oauth_session_def oauth_core_def)

lemma grows_trans: "store_grows st st' \<Longrightarrow> store_grows st' st'' \<Longrightarrow> store_grows st st''"
  by (simp add: store_grows_def)

lemma grows_generate: "store_grows st (fst (GenerateOAuthURL digest rand req now st))"
  by (auto simp: GenerateOAuthURL_def Let_def split: option.split)

lemma grows_poll: "store_grows st (fst (PollOAuthCallback key now st))"
  by (auto simp: PollOAuthCallback_def split: option.split)

lemma grows_callback_begin: "store_grows st (fst (callback_begin parse resin visits code state now st))"
  by (auto simp: callback_begin_def Let_def split: option.split)

lemma grows_exchange_end:
  "store_grows (ow_sessions w) (ow_sessions (fst (exchange_end dec parse_tokens wt reply ok now w)))"
  by (auto simp: exchange_end_def Let_def split: sum.split prod.split bool.split)

lemma grows_callback_end:
  "store_grows (ow_sessions w) (ow_sessions (fst (callback_end dec parse_tokens wt reply ok now w)))"
  by (auto simp: callback_end_def Let_def split: sum.split prod.split bool.split)

section \<open>Requests in flight\<close>

text \<open>A request in flight: the code and state it was given, when, and what its handler keeps.\<close>

record oauth_flight =
  fl_callback :: bool
  fl_code :: string
  fl_state :: string
  fl_at :: time
  fl_wait :: oauth_wait

inductive oauth_step ::
  "(string \<Rightarrow> string) \<Rightarrow> (string \<Rightarrow> parsed_url option) \<Rightarrow> ResinConfig option \<Rightarrow> id_decoders \<Rightarrow> (string \<Rightarrow> rawOAuthTokenResp option)
     \<Rightarrow> oauth_world \<times> oauth_flight list \<Rightarrow> oauth_world \<times> oauth_flight list \<Rightarrow> bool"
  for digest parse resin dec parse_tokens where
  makes: "oauth_step digest parse resin dec parse_tokens (w, fs)
     (w\<lparr>ow_sessions := fst (GenerateOAuthURL digest rand req now (ow_sessions w))\<rparr>, fs)"
| exchange_starts: "exchange_begin parse resin (Some r) now (ow_sessions w) = Inr wt \<Longrightarrow>
     oauth_step digest parse resin dec parse_tokens (w, fs)
       (w, \<lparr>fl_callback = False, fl_code = eq_Code r, fl_state = eq_State r, fl_at = now, fl_wait = wt\<rparr> # fs)"
| exchange_stops: "f \<in> set fs \<Longrightarrow> \<not> fl_callback f \<Longrightarrow>
     oauth_step digest parse resin dec parse_tokens (w, fs) (fst (exchange_end dec parse_tokens (fl_wait f) reply ok now w), remove1 f fs)"
| callback_starts: "callback_begin parse resin visits code state now (ow_sessions w) = (st, Inr wt) \<Longrightarrow>
     oauth_step digest parse resin dec parse_tokens (w, fs)
       (w\<lparr>ow_sessions := st\<rparr>, \<lparr>fl_callback = True, fl_code = code, fl_state = state, fl_at = now, fl_wait = wt\<rparr> # fs)"
| callback_stops: "f \<in> set fs \<Longrightarrow> fl_callback f \<Longrightarrow>
     oauth_step digest parse resin dec parse_tokens (w, fs) (fst (callback_end dec parse_tokens (fl_wait f) reply ok now w), remove1 f fs)"
| polled: "oauth_step digest parse resin dec parse_tokens (w, fs) (w\<lparr>ow_sessions := fst (PollOAuthCallback key now (ow_sessions w))\<rparr>, fs)"
| cleaned: "oauth_step digest parse resin dec parse_tokens (w, fs) (w\<lparr>ow_sessions := oauth_cleanup now (ow_sessions w)\<rparr>, fs)"

text \<open>The session that a request in flight belongs to.\<close>

definition flight_ok ::
  "(string \<Rightarrow> parsed_url option) \<Rightarrow> ResinConfig option \<Rightarrow> oauthSessionStore \<Rightarrow> oauth_flight \<Rightarrow> bool" where
  "flight_ok parse resin st f \<longleftrightarrow>
     (let ses = ss_heap st (wt_sess (fl_wait f))
      in wt_sess (fl_wait f) < ss_next st \<and> os_State ses = fl_state f \<and> go_sub (fl_at f) (os_CreatedAt ses) \<le> oauthSessionTTL \<and>
         (''code'', fl_code f) \<in> set (or_form (wt_request (fl_wait f))) \<and>
         (''code_verifier'', os_CodeVerifier ses) \<in> set (or_form (wt_request (fl_wait f))) \<and>
         (''redirect_uri'', os_RedirectURI ses) \<in> set (or_form (wt_request (fl_wait f))))"

lemma flight_ok_grows: "store_grows st st' \<Longrightarrow> flight_ok parse resin st f \<Longrightarrow> flight_ok parse resin st' f"
  by (auto simp: flight_ok_def store_grows_def oauth_core_def Let_def)

definition pointers_ok :: "oauthSessionStore \<Rightarrow> bool" where
  "pointers_ok st \<longleftrightarrow> (\<forall>key ad. ss_sessions st key = Some ad \<longrightarrow> ad < ss_next st)"

lemma pointers_steps:
  assumes "pointers_ok st"
  shows "pointers_ok (oauth_set key ses st)" "pointers_ok (oauth_delete key st)" "pointers_ok (oauth_cleanup now st)"
    "pointers_ok (on_oauth_session ad g st)"
  using assms by (force simp: pointers_ok_def oauth_set_def oauth_delete_def oauth_cleanup_def on_oauth_session_def
      split: option.splits if_splits)+

lemma pointers_handlers:
  assumes "pointers_ok (ow_sessions w)"
  shows "pointers_ok (fst (GenerateOAuthURL digest rand req now (ow_sessions w)))"
    "pointers_ok (fst (PollOAuthCallback key now (ow_sessions w)))"
    "pointers_ok (fst (callback_begin parse resin visits code state now (ow_sessions w)))"
    "pointers_ok (ow_sessions (fst (exchange_end dec parse_tokens wt reply ok now w)))"
    "pointers_ok (ow_sessions (fst (callback_end dec parse_tokens wt reply ok now w)))"
  using assms
  by (auto simp: GenerateOAuthURL_def PollOAuthCallback_def callback_begin_def exchange_end_def callback_end_def Let_def pointers_steps
      split: option.split sum.split prod.split bool.split)

lemma exchange_begin_ok:
  assumes "exchange_begin parse resin (Some r) now st = Inr wt" "pointers_ok st"
  shows "flight_ok parse resin st \<lparr>fl_callback = b, fl_code = eq_Code r, fl_state = eq_State r, fl_at = now, fl_wait = wt\<rparr>"
  using assms
  by (auto simp: exchange_begin_def oauth_get_def oauth_fresh_def oauth_wait_for_def oauth_code_request_def flight_ok_def pointers_ok_def
      Let_def split: option.splits if_splits)

lemma callback_begin_ok:
  assumes "callback_begin parse resin visits code state now st = (st', Inr wt)" "pointers_ok st"
  shows "flight_ok parse resin st' \<lparr>fl_callback = b, fl_code = code, fl_state = state, fl_at = now, fl_wait = wt\<rparr>"
proof -
  obtain key ad where f: "findByState now visits state st = Some (key, ad)"
    and wt: "wt = oauth_wait_for parse resin code key ad (ss_heap st ad) [] (os_ProxyURL (ss_heap st ad))"
    and st': "st' = on_oauth_session ad (\<lambda>x. x\<lparr>os_CallbackCode := code, os_CallbackState := state, os_CallbackAt := now\<rparr>) st"
    using assms(1) by (auto simp: callback_begin_def Let_def split: if_splits option.splits)
  have "ss_sessions st key = Some ad" "os_State (ss_heap st ad) = state" "oauth_fresh now (ss_heap st ad)"
    using f by (auto simp: findByState_def find_Some_iff split: option.splits)
  then show ?thesis
    using assms(2) by (simp add: wt st' flight_ok_def oauth_wait_for_def oauth_code_request_def oauth_fresh_def pointers_ok_def
        on_oauth_session_def Let_def)
qed

definition oauth_ok ::
  "(string \<Rightarrow> parsed_url option) \<Rightarrow> ResinConfig option \<Rightarrow> oauth_world \<times> oauth_flight list \<Rightarrow> bool" where
  "oauth_ok parse resin c \<longleftrightarrow>
     pointers_ok (ow_sessions (fst c)) \<and> (\<forall>f \<in> set (snd c). flight_ok parse resin (ow_sessions (fst c)) f)"

lemma oauth_ok_frame:
  assumes "oauth_ok parse resin (w, fs)" "store_grows (ow_sessions w) (ow_sessions w')" "pointers_ok (ow_sessions w')" "set fs' \<subseteq> set fs"
  shows "oauth_ok parse resin (w', fs')"
  using assms flight_ok_grows by (fastforce simp: oauth_ok_def)

lemma oauth_ok_step:
  assumes "oauth_step digest parse resin dec parse_tokens c c'" "oauth_ok parse resin c"
  shows "oauth_ok parse resin c'"
  using assms
proof (induction rule: oauth_step.induct)
  case (makes w fs rand req now)
  then show ?case by (intro oauth_ok_frame[OF makes]) (simp_all add: grows_generate pointers_handlers oauth_ok_def)
next
  case (exchange_starts r now w wt fs)
  then show ?case using exchange_begin_ok[OF exchange_starts(1)] by (auto simp: oauth_ok_def)
next
  case (exchange_stops f fs w reply ok now)
  then show ?case
    by (intro oauth_ok_frame[OF exchange_stops(3)]) (simp_all add: grows_exchange_end pointers_handlers oauth_ok_def set_remove1_subset)
next
  case (callback_starts visits code state now w st wt fs)
  have "store_grows (ow_sessions w) st" "pointers_ok st"
    using grows_callback_begin[of "ow_sessions w" parse resin visits code state now] callback_starts
      pointers_handlers(3)[of w parse resin visits code state now] by (simp_all add: oauth_ok_def)
  then show ?case
    using callback_begin_ok[OF callback_starts(1)] callback_starts(2) flight_ok_grows by (auto simp: oauth_ok_def)
next
  case (callback_stops f fs w reply ok now)
  then show ?case
    by (intro oauth_ok_frame[OF callback_stops(3)]) (simp_all add: grows_callback_end pointers_handlers oauth_ok_def set_remove1_subset)
next
  case (polled w fs key now)
  then show ?case by (intro oauth_ok_frame[OF polled]) (simp_all add: grows_poll pointers_handlers oauth_ok_def)
next
  case (cleaned w fs now)
  then show ?case by (intro oauth_ok_frame[OF cleaned]) (simp_all add: pointers_steps oauth_ok_def)
qed

lemma oauth_ok_steps:
  "(oauth_step digest parse resin dec parse_tokens)\<^sup>*\<^sup>* c c' \<Longrightarrow> oauth_ok parse resin c \<Longrightarrow> oauth_ok parse resin c'"
  by (induction rule: rtranclp_induct) (auto intro: oauth_ok_step)

definition no_sessions :: oauthSessionStore where
  "no_sessions = \<lparr>ss_sessions = Map.empty, ss_heap = (\<lambda>_. \<lparr>os_State = [], os_CodeVerifier = [], os_RedirectURI = [], os_ProxyURL = [],
     os_CreatedAt = 0, os_CallbackCode = [], os_CallbackState = [], os_CallbackAt = 0, os_ExchangeResult = None\<rparr>), ss_next = 0\<rparr>"

lemma start_ok: "oauth_ok parse resin (\<lparr>ow_sessions = no_sessions, ow_admin = adm\<rparr>, [])"
  by (simp add: oauth_ok_def pointers_ok_def no_sessions_def)

lemma step_adds:
  assumes "oauth_step digest parse resin dec parse_tokens (w, fs) (w', fs')" "ow_admin w' \<noteq> ow_admin w"
  shows "\<exists>f \<in> set fs. fs' = remove1 f fs"
  using assms by (cases rule: oauth_step.cases) auto

text \<open>
  C36. An account is added by signing in only at the end of a request to the token endpoint whose state was that of a session not more than
  half an hour old, and which carried the code it was given with the verifier and the redirect URI of that same session;
  however requests, callbacks, polls and cleanups interleave.
\<close>

theorem sign_in_needs_its_session:
  assumes "(oauth_step digest parse resin dec parse_tokens)\<^sup>*\<^sup>* (\<lparr>ow_sessions = no_sessions, ow_admin = adm\<rparr>, []) (w, fs)"
    and "oauth_step digest parse resin dec parse_tokens (w, fs) (w', fs')" "ow_admin w' \<noteq> ow_admin w"
  shows "\<exists>f \<in> set fs. fs' = remove1 f fs \<and> (let ses = ss_heap (ow_sessions w) (wt_sess (fl_wait f)); form = or_form (wt_request (fl_wait f))
    in os_State ses = fl_state f \<and> go_sub (fl_at f) (os_CreatedAt ses) \<le> oauthSessionTTL \<and> (''code'', fl_code f) \<in> set form \<and>
       (''code_verifier'', os_CodeVerifier ses) \<in> set form \<and> (''redirect_uri'', os_RedirectURI ses) \<in> set form)"
proof -
  have "oauth_ok parse resin (w, fs)" by (rule oauth_ok_steps[OF assms(1) start_ok])
  moreover obtain f where "f \<in> set fs" "fs' = remove1 f fs" using step_adds[OF assms(2,3)] by blast
  ultimately show ?thesis by (auto simp: oauth_ok_def flight_ok_def Let_def)
qed

text \<open>A session that has been exchanged is gone.\<close>

lemma exchange_is_once:
  assumes "ExchangeOAuthCode parse resin dec parse_tokens net (Some r) ok now later w = (w', OAuthAdded i name email plan)"
  shows "exchange_begin parse resin (Some (r\<lparr>eq_Code := code\<rparr>)) now' (ow_sessions w') = Inl (OAuthRefused 400)"
proof -
  have "ss_sessions (ow_sessions w') (eq_SessionID r) = None"
    using assms by (auto simp: ExchangeOAuthCode_def exchange_begin_def exchange_end_def oauth_wait_for_def oauth_delete_def Let_def
        split: sum.splits if_splits option.splits prod.splits bool.splits)
  then show ?thesis by (simp add: exchange_begin_def oauth_get_def)
qed

lemma poll_is_once:
  "PollOAuthCallback key now st = (st', OAuthCompleted r) \<Longrightarrow> snd (PollOAuthCallback key now' st') = OAuthRefused 404"
  by (auto simp: PollOAuthCallback_def oauth_get_def oauth_delete_def split: if_splits option.splits)

definition demo_rand :: "nat \<Rightarrow> nat \<Rightarrow> 8 word list option" where
  "demo_rand i n = Some (replicate n (of_nat i))"

definition signing_world :: oauth_world where
  "signing_world = \<lparr>ow_sessions = fst (GenerateOAuthURL (\<lambda>s. s) demo_rand ([], []) 0 no_sessions), ow_admin = demo_admin\<rparr>"

definition demo_state :: string where "demo_state = concat (replicate 32 ''00'')"

definition demo_exchange :: exchange_req where
  "demo_exchange = \<lparr>eq_SessionID = concat (replicate 16 ''02''), eq_Code = ''c'', eq_State = demo_state, eq_Name = [], eq_ProxyURL = []\<rparr>"

definition demo_id :: id_decoders where
  "demo_id = \<lparr>id_url = (\<lambda>_. None), id_std = (\<lambda>_. None), id_claims = (\<lambda>_. None)\<rparr>"

definition demo_tokens :: "string \<Rightarrow> rawOAuthTokenResp option" where
  "demo_tokens body = Some \<lparr>ro_AccessToken = [], ro_RefreshToken = ''r2'', ro_IDToken = [], ro_ExpiresIn = 0\<rparr>"

lemma demo_begins: "\<not> isl (exchange_begin (\<lambda>_. None) None (Some demo_exchange) 5 (ow_sessions signing_world))"
  by code_simp

lemma demo_ends:
  "length (db_rows (aa_db (ow_admin (fst (exchange_end demo_id demo_tokens
     (projr (exchange_begin (\<lambda>_. None) None (Some demo_exchange) 5 (ow_sessions signing_world))) (Reply 200 []) True 6 signing_world))))) = 2 \<and>
   length (db_rows (aa_db (ow_admin signing_world))) = 1"
  by code_simp

text \<open>
  The callback leaves its session as it is: the same address opened again, with another code, adds another account.
\<close>

lemma callback_repeats:
  "let call = (\<lambda>code w. fst (OAuthCallback (\<lambda>_. None) None demo_id demo_tokens (\<lambda>_. Reply 200 []) [concat (replicate 16 ''02'')] code demo_state True 5 6 w))
   in length (db_rows (aa_db (ow_admin (call ''c2'' (call ''c1'' signing_world))))) = 3"
  by code_simp

lemma sign_in_needs_its_session_witness:
  "\<exists>w (w' :: oauth_world) f. (oauth_step (\<lambda>s. s) (\<lambda>_. None) None demo_id demo_tokens)\<^sup>*\<^sup>* (\<lparr>ow_sessions = no_sessions, ow_admin = demo_admin\<rparr>, []) (w, [f]) \<and>
     length (db_rows (aa_db (ow_admin w'))) = 2 \<and> os_State (ss_heap (ow_sessions w) (wt_sess (fl_wait f))) = fl_state f"
proof -
  let ?step = "oauth_step (\<lambda>s. s) (\<lambda>_. None) None demo_id demo_tokens"
  let ?w0 = "\<lparr>ow_sessions = no_sessions, ow_admin = demo_admin\<rparr>"
  define wt where "wt = projr (exchange_begin (\<lambda>_. None) None (Some demo_exchange) 5 (ow_sessions signing_world))"
  have begins: "exchange_begin (\<lambda>_. None) None (Some demo_exchange) 5 (ow_sessions signing_world) = Inr wt"
    using demo_begins by (cases "exchange_begin (\<lambda>_. None) None (Some demo_exchange) 5 (ow_sessions signing_world)") (simp_all add: wt_def)
  let ?f = "\<lparr>fl_callback = False, fl_code = eq_Code demo_exchange, fl_state = eq_State demo_exchange, fl_at = 5, fl_wait = wt\<rparr>"
  let ?w' = "fst (exchange_end demo_id demo_tokens (fl_wait ?f) (Reply 200 []) True 6 signing_world)"
  have "?step (?w0, []) (signing_world, [])"
    using makes[of "\<lambda>s. s" "\<lambda>_. None" None demo_id demo_tokens ?w0 "[]" demo_rand "([], [])" 0] by (simp add: signing_world_def)
  moreover have "?step (signing_world, []) (signing_world, [?f])" by (rule exchange_starts) (rule begins)
  ultimately have run: "?step\<^sup>*\<^sup>* (?w0, []) (signing_world, [?f])" by (meson converse_rtranclp_into_rtranclp rtranclp.rtrancl_refl)
  have stop: "?step (signing_world, [?f]) (?w', remove1 ?f [?f])" by (rule exchange_stops) simp_all
  have ends: "length (db_rows (aa_db (ow_admin ?w'))) = 2" "length (db_rows (aa_db (ow_admin signing_world))) = 1"
    using demo_ends by (simp_all add: wt_def)
  then have "ow_admin ?w' \<noteq> ow_admin signing_world" by auto
  from sign_in_needs_its_session[OF run stop this] have state: "os_State (ss_heap (ow_sessions signing_world) (wt_sess (fl_wait ?f))) = fl_state ?f"
    by (auto simp: Let_def)
  show ?thesis
    by (rule exI[of _ signing_world], rule exI[of _ ?w'], rule exI[of _ ?f]) (intro conjI run ends(1) state)
qed

lemma cleanup_is_invisible_witness: "oauth_get 9 ''k'' (oauth_cleanup 5 no_sessions) = oauth_get 9 ''k'' no_sessions"
  using cleanup_is_invisible[of 5 9] by simp

end
