(* ===== verification/UsageLog.thy ===== *)
theory UsageLog
  imports Prelude "HOL-Library.List_Lexorder" "HOL-Library.Char_ord"
begin

text \<open>
  The log of requests: the buffer and the statements of \<open>database/postgres.go\<close> and \<open>database/sqlite.go\<close> on it. A flush takes
  the buffer in one step and stores it in another one. Which statements fail, the start of the day, the e-mail of an account and the
  order that the database gives to rows it may order at will are arguments. A column of a row that was stored is never null. A bucket
  of a chart is its start.
\<close>

section \<open>Entries\<close>

record usageLogEntry =
  ue_AccountID :: int
  ue_Endpoint :: string
  ue_Model :: string
  ue_PromptTokens :: int
  ue_CompletionTokens :: int
  ue_TotalTokens :: int
  ue_StatusCode :: int
  ue_DurationMs :: int
  ue_InputTokens :: int
  ue_OutputTokens :: int
  ue_ReasoningTokens :: int
  ue_FirstTokenMs :: int
  ue_ReasoningEffort :: string
  ue_InboundEndpoint :: string
  ue_UpstreamEndpoint :: string
  ue_Stream :: bool
  ue_CachedTokens :: int
  ue_ServiceTier :: string
  ue_APIKeyID :: int
  ue_APIKeyName :: string
  ue_APIKeyMasked :: string

record usage_row =
  ul_ID :: int
  ul_Entry :: usageLogEntry
  ul_CreatedAt :: time

text \<open>The totals of the rows that were cleared.\<close>

record usage_totals =
  ut_Requests :: int
  ut_Tokens :: int
  ut_Prompt :: int
  ut_Completion :: int
  ut_Cached :: int

record usage_db =
  ud_buf :: "usageLogEntry list"
  ud_rows :: "usage_row list"
  ud_base :: usage_totals
  ud_nextID :: int

section \<open>Writing\<close>

text \<open>The result tells whether a flush is started.\<close>

definition InsertUsageLog :: "usageLogEntry \<Rightarrow> usage_db \<Rightarrow> usage_db \<times> bool" where
  "InsertUsageLog e db = (let buf = ud_buf db @ [e] in (db\<lparr>ud_buf := buf\<rparr>, length buf \<ge> 200))"

text \<open>The first half of \<open>flushLogs\<close>: the batch, if there is one.\<close>

definition flush_take :: "usage_db \<Rightarrow> usage_db \<times> usageLogEntry list" where
  "flush_take db = (db\<lparr>ud_buf := []\<rparr>, ud_buf db)"

definition store_rows :: "time \<Rightarrow> usageLogEntry list \<Rightarrow> usage_db \<Rightarrow> usage_db" where
  "store_rows now es db =
     db\<lparr>ud_rows := ud_rows db @ map (\<lambda>(i, e). \<lparr>ul_ID = ud_nextID db + int i, ul_Entry = e, ul_CreatedAt = now\<rparr>) (enumerate 0 es),
        ud_nextID := ud_nextID db + int (length es)\<rparr>"

text \<open>PostgreSQL: statements of at most 3000 rows, up to the first one that fails.\<close>

function batchInsertLogs :: "(nat \<Rightarrow> bool) \<Rightarrow> nat \<Rightarrow> time \<Rightarrow> usageLogEntry list \<Rightarrow> usage_db \<Rightarrow> usage_db" where
  "batchInsertLogs ok i now batch db =
     (if batch = [] then db
      else if \<not> ok i then db
      else batchInsertLogs ok (Suc i) now (drop 3000 batch) (store_rows now (take 3000 batch) db))"
  by pat_completeness auto
termination
  by (relation "measure (\<lambda>(ok, i, now, batch, db). length batch)") (auto simp: neq_Nil_conv)

declare batchInsertLogs.simps [simp del]

text \<open>SQLite: one transaction.\<close>

datatype sql_driver = Postgres | SQLite

definition flush_store :: "sql_driver \<Rightarrow> (nat \<Rightarrow> bool) \<Rightarrow> time \<Rightarrow> usageLogEntry list \<Rightarrow> usage_db \<Rightarrow> usage_db" where
  "flush_store driver ok now batch db =
     (case driver of
        Postgres \<Rightarrow> batchInsertLogs ok 0 now batch db
      | SQLite \<Rightarrow> if batch \<noteq> [] \<and> ok 0 then store_rows now batch db else db)"

definition flushLogs :: "sql_driver \<Rightarrow> (nat \<Rightarrow> bool) \<Rightarrow> time \<Rightarrow> usage_db \<Rightarrow> usage_db" where
  "flushLogs driver ok now db = (case flush_take db of (db, batch) \<Rightarrow> flush_store driver ok now batch db)"

section \<open>Totals\<close>

definition countable :: "usageLogEntry \<Rightarrow> bool" where
  "countable e \<longleftrightarrow> ue_StatusCode e \<noteq> 499"

definition totals_of :: "usageLogEntry list \<Rightarrow> usage_totals" where
  "totals_of es =
     (let es = filter countable es
      in \<lparr>ut_Requests = int (length es), ut_Tokens = sum_list (map ue_TotalTokens es), ut_Prompt = sum_list (map ue_PromptTokens es),
          ut_Completion = sum_list (map ue_CompletionTokens es), ut_Cached = sum_list (map ue_CachedTokens es)\<rparr>)"

definition add_totals :: "usage_totals \<Rightarrow> usage_totals \<Rightarrow> usage_totals" where
  "add_totals a b =
     \<lparr>ut_Requests = ut_Requests a + ut_Requests b, ut_Tokens = ut_Tokens a + ut_Tokens b, ut_Prompt = ut_Prompt a + ut_Prompt b,
      ut_Completion = ut_Completion a + ut_Completion b, ut_Cached = ut_Cached a + ut_Cached b\<rparr>"

definition usage_entries :: "usage_db \<Rightarrow> usageLogEntry list" where
  "usage_entries db = map ul_Entry (ud_rows db)"

text \<open>Clearing: the totals are saved by one statement, the rows deleted by another. In SQLite a third one restarts the ids.\<close>

definition clear_save :: "usage_db \<Rightarrow> usage_db" where
  "clear_save db = db\<lparr>ud_base := add_totals (ud_base db) (totals_of (usage_entries db))\<rparr>"

definition clear_delete :: "usage_db \<Rightarrow> usage_db" where
  "clear_delete db = db\<lparr>ud_rows := []\<rparr>"

definition clear_ids :: "usage_db \<Rightarrow> usage_db" where
  "clear_ids db = db\<lparr>ud_nextID := 1\<rparr>"

definition ClearUsageLogs :: "sql_driver \<Rightarrow> bool \<Rightarrow> bool \<Rightarrow> bool \<Rightarrow> usage_db \<Rightarrow> usage_db \<times> bool" where
  "ClearUsageLogs driver saved deleted restarted db =
     (if \<not> saved then (db, False)
      else if \<not> deleted then (clear_save db, False)
      else if driver = SQLite \<and> \<not> restarted then (clear_delete (clear_save db), False)
      else (clear_ids (clear_delete (clear_save db)), True))"

record UsageStats =
  us_totals :: usage_totals
  us_TodayRequests :: int
  us_TodayTokens :: int
  us_RPM :: int
  us_TPM :: int
  us_AvgDurationMs :: float64
  us_ErrorRate :: float64

definition mean :: "int list \<Rightarrow> float64" where
  "mean xs = (if xs = [] then 0 else of_int (sum_list xs) / of_nat (length xs))"

definition error_rate :: "usageLogEntry list \<Rightarrow> float64" where
  "error_rate es =
     (if es = [] then 0 else of_nat (length (filter (\<lambda>e. ue_StatusCode e \<ge> 400) es)) / of_nat (length es) * 100)"

definition no_totals :: usage_totals where
  "no_totals = \<lparr>ut_Requests = 0, ut_Tokens = 0, ut_Prompt = 0, ut_Completion = 0, ut_Cached = 0\<rparr>"

text \<open>The visible rows since a time.\<close>

definition rows_since :: "time \<Rightarrow> usage_db \<Rightarrow> usage_row list" where
  "rows_since t db = filter (\<lambda>r. ul_CreatedAt r \<ge> t \<and> countable (ul_Entry r)) (ud_rows db)"

text \<open>The second and the third query may fail without notice.\<close>

definition GetUsageStats :: "bool \<Rightarrow> bool \<Rightarrow> time \<Rightarrow> time \<Rightarrow> usage_db \<Rightarrow> UsageStats" where
  "GetUsageStats visible base todayStart now db =
     (let today = map ul_Entry (rows_since todayStart db);
          recent = map ul_Entry (filter (\<lambda>r. ul_CreatedAt r \<ge> now - 60 * second) (rows_since todayStart db))
      in \<lparr>us_totals = add_totals (if visible then totals_of (usage_entries db) else no_totals) (if base then ud_base db else no_totals),
          us_TodayRequests = int (length today), us_TodayTokens = sum_list (map ue_TotalTokens today),
          us_RPM = int (length recent), us_TPM = sum_list (map ue_TotalTokens recent),
          us_AvgDurationMs = mean (map ue_DurationMs today), us_ErrorRate = error_rate today\<rparr>)"

definition getUsageStatsSQLite :: "bool \<Rightarrow> bool \<Rightarrow> time \<Rightarrow> time \<Rightarrow> usage_db \<Rightarrow> UsageStats" where
  "getUsageStatsSQLite visible base todayStart now db =
     (let rows = filter (\<lambda>r. ul_CreatedAt r \<noteq> 0) (rows_since todayStart db);
          today = map ul_Entry rows;
          recent = map ul_Entry (filter (\<lambda>r. \<not> ul_CreatedAt r < now - 60 * second) rows);
          b = (if base then ud_base db else no_totals)
      in \<lparr>us_totals = \<lparr>ut_Requests = (if visible then ut_Requests (totals_of (usage_entries db)) else 0) + ut_Requests b,
                       ut_Tokens = sum_list (map ue_TotalTokens today) + ut_Tokens b,
                       ut_Prompt = sum_list (map ue_PromptTokens today) + ut_Prompt b,
                       ut_Completion = sum_list (map ue_CompletionTokens today) + ut_Completion b,
                       ut_Cached = sum_list (map ue_CachedTokens today) + ut_Cached b\<rparr>,
          us_TodayRequests = int (length today), us_TodayTokens = sum_list (map ue_TotalTokens today),
          us_RPM = int (length recent), us_TPM = sum_list (map ue_TotalTokens recent),
          us_AvgDurationMs = mean (map ue_DurationMs today), us_ErrorRate = error_rate today\<rparr>)"

section \<open>Lists\<close>

text \<open>\<open>ties\<close> orders the rows that have the same time; \<open>email_like\<close> compares the credentials of an account with a pattern.\<close>

record UsageLogFilter =
  uf_Start :: time
  uf_End :: time
  uf_Page :: int
  uf_PageSize :: int
  uf_Email :: string
  uf_Model :: string
  uf_Endpoint :: string
  uf_APIKeyID :: "int option"
  uf_FastOnly :: "bool option"
  uf_StreamOnly :: "bool option"

definition usage_matches :: "(int \<Rightarrow> string \<Rightarrow> bool) \<Rightarrow> UsageLogFilter \<Rightarrow> usage_row \<Rightarrow> bool" where
  "usage_matches email_like f r \<longleftrightarrow>
     (let e = ul_Entry r
      in ul_CreatedAt r \<ge> uf_Start f \<and> ul_CreatedAt r \<le> uf_End f \<and> countable e \<and>
         (uf_Email f = [] \<or> email_like (ue_AccountID e) (uf_Email f)) \<and>
         (uf_Model f = [] \<or> ue_Model e = uf_Model f) \<and>
         (uf_Endpoint f = [] \<or> ue_InboundEndpoint e = uf_Endpoint f) \<and>
         (case uf_APIKeyID f of None \<Rightarrow> True | Some k \<Rightarrow> ue_APIKeyID e = k) \<and>
         (case uf_FastOnly f of None \<Rightarrow> True | Some b \<Rightarrow> (ue_ServiceTier e = ''fast'') = b) \<and>
         (case uf_StreamOnly f of None \<Rightarrow> True | Some b \<Rightarrow> ue_Stream e = b))"

text \<open>The total is a column of the rows that are found: with no row it stays zero.\<close>

record UsageLogPage =
  up_Logs :: "usage_row list"
  up_Total :: int

definition usage_order :: "(int \<Rightarrow> int) \<Rightarrow> usage_row \<Rightarrow> int \<times> int" where
  "usage_order ties r = (- ul_CreatedAt r, ties (ul_ID r))"

definition page_of :: "int \<Rightarrow> int" where "page_of p = (if p < 1 then 1 else p)"

definition page_size_of :: "int \<Rightarrow> int" where "page_size_of n = (if n < 1 \<or> n > 200 then 20 else n)"

definition ListUsageLogsByTimeRangePaged ::
  "(int \<Rightarrow> string \<Rightarrow> bool) \<Rightarrow> (int \<Rightarrow> int) \<Rightarrow> UsageLogFilter \<Rightarrow> usage_db \<Rightarrow> UsageLogPage" where
  "ListUsageLogsByTimeRangePaged email_like ties f db =
     (let found = sort_key (usage_order ties) (filter (usage_matches email_like f) (ud_rows db));
          size = page_size_of (uf_PageSize f);
          shown = take (nat size) (drop (nat ((page_of (uf_Page f) - 1) * size)) found)
      in \<lparr>up_Logs = shown, up_Total = (if shown = [] then 0 else int (length found))\<rparr>)"

definition ListRecentUsageLogs :: "int \<Rightarrow> usage_db \<Rightarrow> usage_row list" where
  "ListRecentUsageLogs limit db =
     (let limit = (if limit \<le> 0 \<or> limit > 5000 then 50 else limit)
      in take (nat limit) (sort_key (\<lambda>r. - ul_ID r) (filter (\<lambda>r. countable (ul_Entry r)) (ud_rows db))))"

definition ListUsageLogsByTimeRange :: "(int \<Rightarrow> int) \<Rightarrow> time \<Rightarrow> time \<Rightarrow> usage_db \<Rightarrow> usage_row list" where
  "ListUsageLogsByTimeRange ties start stop db =
     sort_key (\<lambda>r. (ul_CreatedAt r, ties (ul_ID r)))
       (filter (\<lambda>r. ul_CreatedAt r \<ge> start \<and> ul_CreatedAt r \<le> stop \<and> countable (ul_Entry r)) (ud_rows db))"

section \<open>One account\<close>

record AccountRequestCount =
  rc_SuccessCount :: int
  rc_ErrorCount :: int
  rc_InputTokens :: int
  rc_OutputTokens :: int
  rc_CachedTokens :: int

text \<open>Requests that the client broke off, status 499, count as errors here. \<open>since\<close> is a week ago.\<close>

definition GetAccountRequestCounts :: "time \<Rightarrow> usage_db \<Rightarrow> int \<rightharpoonup> AccountRequestCount" where
  "GetAccountRequestCounts since db acc =
     (let es = filter (\<lambda>e. ue_AccountID e = acc) (map ul_Entry (filter (\<lambda>r. ul_CreatedAt r \<ge> since) (ud_rows db)));
          good = filter (\<lambda>e. ue_StatusCode e < 400) es
      in if es = [] then None
         else Some \<lparr>rc_SuccessCount = int (length good), rc_ErrorCount = int (length (filter (\<lambda>e. ue_StatusCode e \<ge> 400) es)),
                    rc_InputTokens = sum_list (map ue_InputTokens good), rc_OutputTokens = sum_list (map ue_OutputTokens good),
                    rc_CachedTokens = sum_list (map ue_CachedTokens good)\<rparr>)"

record AccountModelStat =
  am_Model :: string
  am_Requests :: int
  am_Tokens :: int

record AccountUsageDetail =
  ad_TotalRequests :: int
  ad_TotalTokens :: int
  ad_InputTokens :: int
  ad_OutputTokens :: int
  ad_ReasoningTokens :: int
  ad_CachedTokens :: int
  ad_Models :: "AccountModelStat list"

definition model_stat :: "usageLogEntry list \<Rightarrow> string \<Rightarrow> AccountModelStat" where
  "model_stat es m =
     (let es = filter (\<lambda>e. ue_Model e = m) es
      in \<lparr>am_Model = m, am_Requests = int (length es), am_Tokens = sum_list (map ue_TotalTokens es)\<rparr>)"

definition GetAccountUsageStats :: "(string \<Rightarrow> int) \<Rightarrow> int \<Rightarrow> usage_db \<Rightarrow> AccountUsageDetail" where
  "GetAccountUsageStats model_ties acc db =
     (let es = filter (\<lambda>e. ue_AccountID e = acc \<and> countable e) (usage_entries db)
      in \<lparr>ad_TotalRequests = int (length es), ad_TotalTokens = sum_list (map ue_TotalTokens es),
          ad_InputTokens = sum_list (map ue_InputTokens es), ad_OutputTokens = sum_list (map ue_OutputTokens es),
          ad_ReasoningTokens = sum_list (map ue_ReasoningTokens es), ad_CachedTokens = sum_list (map ue_CachedTokens es),
          ad_Models = sort_key (\<lambda>m. (- am_Requests m, model_ties (am_Model m)))
                        (map (model_stat es) (remdups (map ue_Model es)))\<rparr>)"

section \<open>Charts\<close>

record ChartTimelinePoint =
  cp_Bucket :: time
  cp_Requests :: int
  cp_AvgLatency :: float64
  cp_InputTokens :: int
  cp_OutputTokens :: int
  cp_ReasoningTokens :: int
  cp_CachedTokens :: int
  cp_Errors401 :: int

record ChartAggregation =
  ca_Timeline :: "ChartTimelinePoint list"
  ca_Models :: "(string \<times> int) list"

definition chart_point :: "(time \<Rightarrow> time) \<Rightarrow> usage_row list \<Rightarrow> time \<Rightarrow> ChartTimelinePoint" where
  "chart_point bucket rows b =
     (let es = map ul_Entry (filter (\<lambda>r. bucket (ul_CreatedAt r) = b) rows)
      in \<lparr>cp_Bucket = b, cp_Requests = int (length es), cp_AvgLatency = mean (map ue_DurationMs es),
          cp_InputTokens = sum_list (map ue_InputTokens es), cp_OutputTokens = sum_list (map ue_OutputTokens es),
          cp_ReasoningTokens = sum_list (map ue_ReasoningTokens es), cp_CachedTokens = sum_list (map ue_CachedTokens es),
          cp_Errors401 = int (length (filter (\<lambda>e. ue_StatusCode e = 401) es))\<rparr>)"

definition timeline :: "(time \<Rightarrow> time) \<Rightarrow> usage_row list \<Rightarrow> ChartTimelinePoint list" where
  "timeline bucket rows = map (chart_point bucket rows) (sort (remdups (map (\<lambda>r. bucket (ul_CreatedAt r)) rows)))"

definition model_counts :: "string list \<Rightarrow> (string \<times> int) list" where
  "model_counts ms = map (\<lambda>m. (m, int (length (filter (\<lambda>x. x = m) ms)))) (remdups ms)"

definition chart_rows :: "time \<Rightarrow> time \<Rightarrow> usage_db \<Rightarrow> usage_row list" where
  "chart_rows start stop db =
     filter (\<lambda>r. ul_CreatedAt r \<ge> start \<and> ul_CreatedAt r \<le> stop \<and> countable (ul_Entry r)) (ud_rows db)"

abbreviation minute_ns :: time where "minute_ns \<equiv> 60 * second"

text \<open>PostgreSQL subtracts from the minute its remainder; SQLite rounds down the time since the year one.\<close>

definition bucket_pg :: "int \<Rightarrow> time \<Rightarrow> time" where
  "bucket_pg minutes t =
     (let m = t div minute_ns * minute_ns in m - (m div minute_ns mod 60) mod minutes * minute_ns)"

definition bucket_sqlite :: "int \<Rightarrow> time \<Rightarrow> time" where
  "bucket_sqlite minutes t = (if minutes * minute_ns \<le> 0 then t else t - t mod (minutes * minute_ns))"

definition GetChartAggregation :: "(string \<Rightarrow> int) \<Rightarrow> time \<Rightarrow> time \<Rightarrow> int \<Rightarrow> usage_db \<Rightarrow> ChartAggregation" where
  "GetChartAggregation model_ties start stop minutes db =
     (let minutes = (if minutes < 1 then 5 else minutes);
          rows = chart_rows start stop db
      in \<lparr>ca_Timeline = timeline (bucket_pg minutes) rows,
          ca_Models = take 10 (sort_key (\<lambda>(m, n). (- n, model_ties m)) (model_counts (map (\<lambda>r. ue_Model (ul_Entry r)) rows)))\<rparr>)"

definition getChartAggregationSQLite :: "time \<Rightarrow> time \<Rightarrow> int \<Rightarrow> usage_db \<Rightarrow> ChartAggregation" where
  "getChartAggregationSQLite start stop minutes db =
     (let rows = filter (\<lambda>r. ul_CreatedAt r \<noteq> 0) (chart_rows start stop db);
          name = (\<lambda>r. if ue_Model (ul_Entry r) \<noteq> [] then ue_Model (ul_Entry r) else ''unknown'')
      in \<lparr>ca_Timeline = timeline (bucket_sqlite minutes) rows,
          ca_Models = take 10 (sort_key (\<lambda>(m, n). (- n, m)) (model_counts (map name rows)))\<rparr>)"

end
