(* ===== verification/UsageLogLaws.thy ===== *)
theory UsageLogLaws
  imports UsageLog "HOL-Library.Multiset"
begin

text \<open>
  Every request that was logged is counted once, unless a statement failed; the pages of a list are its parts; the two
  databases count alike what was logged today, and draw the same charts.
\<close>

section \<open>Totals\<close>

lemma totals_append: "totals_of (xs @ ys) = add_totals (totals_of xs) (totals_of ys)"
  by (simp add: totals_of_def add_totals_def Let_def)

lemma totals_Nil [simp]: "totals_of [] = no_totals"
  by (simp add: totals_of_def no_totals_def)

lemma add_totals_algebra:
  "add_totals a no_totals = a" "add_totals no_totals a = a"
  "add_totals a b = add_totals b a" "add_totals (add_totals a b) c = add_totals a (add_totals b c)"
  "add_totals a (add_totals b c) = add_totals b (add_totals a c)"
  by (simp_all add: add_totals_def no_totals_def)

lemma entries_store: "usage_entries (store_rows now es db) = usage_entries db @ es"
proof -
  have "map ul_Entry (map (\<lambda>(i, e). \<lparr>ul_ID = k + int i, ul_Entry = e, ul_CreatedAt = now\<rparr>) (enumerate n es)) = es" for n k
    by (induction es arbitrary: n) simp_all
  then show ?thesis by (simp add: usage_entries_def store_rows_def del: map_map)
qed

lemma store_frame [simp]:
  "ud_buf (store_rows now es db) = ud_buf db" "ud_base (store_rows now es db) = ud_base db"
  by (simp_all add: store_rows_def)

text \<open>What is stored of a batch is a part from its beginning.\<close>

lemma batch_stored:
  "\<exists>n. usage_entries (batchInsertLogs ok i now batch db) = usage_entries db @ take n batch \<and> n \<le> length batch \<and>
     ud_buf (batchInsertLogs ok i now batch db) = ud_buf db \<and> ud_base (batchInsertLogs ok i now batch db) = ud_base db"
proof (induction ok i now batch db rule: batchInsertLogs.induct)
  case (1 ok i now batch db)
  show ?case
  proof (cases "batch = [] \<or> \<not> ok i")
    case True
    then have "batchInsertLogs ok i now batch db = db" by (subst batchInsertLogs.simps) auto
    then show ?thesis by (intro exI[of _ 0]) simp
  next
    case False
    then obtain n where n: "usage_entries (batchInsertLogs ok (Suc i) now (drop 3000 batch) (store_rows now (take 3000 batch) db)) =
        usage_entries (store_rows now (take 3000 batch) db) @ take n (drop 3000 batch)" "n \<le> length (drop 3000 batch)"
        "ud_buf (batchInsertLogs ok (Suc i) now (drop 3000 batch) (store_rows now (take 3000 batch) db)) = ud_buf db"
        "ud_base (batchInsertLogs ok (Suc i) now (drop 3000 batch) (store_rows now (take 3000 batch) db)) = ud_base db"
      using 1 by auto
    have "take 3000 batch @ take n (drop 3000 batch) = take (min (3000 + n) (length batch)) batch"
      by (auto simp: min_def simp flip: take_add)
    moreover have "batchInsertLogs ok i now batch db = batchInsertLogs ok (Suc i) now (drop 3000 batch) (store_rows now (take 3000 batch) db)"
      using False by (subst batchInsertLogs.simps) simp
    ultimately show ?thesis
      using n by (intro exI[of _ "min (3000 + n) (length batch)"]) (simp add: entries_store)
  qed
qed

lemma flush_stored:
  obtains n where "usage_entries (flush_store driver ok now batch db) = usage_entries db @ take n batch" "n \<le> length batch"
    "ud_buf (flush_store driver ok now batch db) = ud_buf db" "ud_base (flush_store driver ok now batch db) = ud_base db"
proof (cases driver)
  case Postgres
  then show ?thesis using that batch_stored[of ok 0 now batch db] by (auto simp: flush_store_def)
next
  case SQLite
  show ?thesis
  proof (cases "batch \<noteq> [] \<and> ok 0")
    case True
    with SQLite show ?thesis by (intro that[of "length batch"]) (simp_all add: flush_store_def entries_store)
  next
    case False
    with SQLite show ?thesis by (intro that[of 0]) (auto simp: flush_store_def)
  qed
qed

section \<open>Accounting\<close>

text \<open>The state of a run: the database, the batches in flight, what was logged and what failed statements have lost.\<close>

record usage_run =
  vr_db :: usage_db
  vr_flight :: "usageLogEntry list list"
  vr_logged :: "usageLogEntry list"
  vr_lost :: "usageLogEntry list"

definition stored_count :: "usage_db \<Rightarrow> usage_db \<Rightarrow> nat" where
  "stored_count db db' = length (ud_rows db') - length (ud_rows db)"

inductive usage_step :: "sql_driver \<Rightarrow> usage_run \<Rightarrow> usage_run \<Rightarrow> bool" for driver where
  logs: "usage_step driver v (v\<lparr>vr_db := fst (InsertUsageLog e (vr_db v)), vr_logged := vr_logged v @ [e]\<rparr>)"
| takes: "usage_step driver v (v\<lparr>vr_db := fst (flush_take (vr_db v)), vr_flight := snd (flush_take (vr_db v)) # vr_flight v\<rparr>)"
| stores: "batch \<in> set (vr_flight v) \<Longrightarrow> db = flush_store driver ok now batch (vr_db v) \<Longrightarrow>
     usage_step driver v (v\<lparr>vr_db := db, vr_flight := remove1 batch (vr_flight v),
       vr_lost := vr_lost v @ drop (stored_count (vr_db v) db) batch\<rparr>)"
| clears: "usage_step driver v (v\<lparr>vr_db := fst (ClearUsageLogs driver saved True restarted (vr_db v))\<rparr>)"

definition accounted :: "usage_run \<Rightarrow> bool" where
  "accounted v \<longleftrightarrow>
     totals_of (vr_logged v) =
       add_totals (ud_base (vr_db v)) (add_totals (totals_of (usage_entries (vr_db v))) (add_totals (totals_of (concat (vr_flight v)))
         (add_totals (totals_of (ud_buf (vr_db v))) (totals_of (vr_lost v)))))"

lemma totals_remove1:
  "b \<in> set bs \<Longrightarrow> totals_of (concat bs) = add_totals (totals_of b) (totals_of (concat (remove1 b bs)))"
  by (induction bs) (auto simp: totals_append add_totals_algebra)

lemma accounted_step:
  assumes "usage_step driver v v'" "accounted v"
  shows "accounted v'"
  using assms
proof (induction rule: usage_step.induct)
  case (logs v e)
  then show ?case by (simp add: accounted_def InsertUsageLog_def usage_entries_def totals_append add_totals_algebra Let_def)
next
  case (takes v)
  then show ?case by (simp add: accounted_def flush_take_def usage_entries_def totals_append add_totals_algebra)
next
  case (stores batch v db ok now)
  obtain n where n: "usage_entries db = usage_entries (vr_db v) @ take n batch" "n \<le> length batch"
      "ud_buf db = ud_buf (vr_db v)" "ud_base db = ud_base (vr_db v)"
    unfolding stores.hyps(2) by (rule flush_stored)
  from arg_cong[OF n(1), of length] n(2) have "stored_count (vr_db v) db = n"
    by (simp add: usage_entries_def stored_count_def)
  moreover have "totals_of batch = add_totals (totals_of (take n batch)) (totals_of (drop n batch))"
    by (metis append_take_drop_id totals_append)
  ultimately show ?case
    using stores.prems totals_remove1[OF stores.hyps(1)] n by (simp add: accounted_def totals_append add_totals_algebra)
next
  case (clears v saved restarted)
  then show ?case
    by (simp add: accounted_def ClearUsageLogs_def clear_save_def clear_delete_def clear_ids_def usage_entries_def totals_append add_totals_algebra)
qed

definition usage_start :: usage_run where
  "usage_start = \<lparr>vr_db = \<lparr>ud_buf = [], ud_rows = [], ud_base = no_totals, ud_nextID = 1\<rparr>, vr_flight = [], vr_logged = [], vr_lost = []\<rparr>"


definition plain_entry :: usageLogEntry where
  "plain_entry = \<lparr>ue_AccountID = 1, ue_Endpoint = [], ue_Model = ''m'', ue_PromptTokens = 3, ue_CompletionTokens = 4, ue_TotalTokens = 7,
     ue_StatusCode = 200, ue_DurationMs = 9, ue_InputTokens = 3, ue_OutputTokens = 4, ue_ReasoningTokens = 0, ue_FirstTokenMs = 0,
     ue_ReasoningEffort = [], ue_InboundEndpoint = [], ue_UpstreamEndpoint = [], ue_Stream = False, ue_CachedTokens = 0,
     ue_ServiceTier = [], ue_APIKeyID = 0, ue_APIKeyName = [], ue_APIKeyMasked = []\<rparr>"


text \<open>
  Saving the totals and deleting the rows are not one transaction: rows that arrive in between are lost, and if the second
  statement fails every row counts twice.
\<close>

lemma clear_loses_new_rows:
  "totals_of (usage_entries (clear_delete (store_rows now es (clear_save db)))) = no_totals \<and>
   ud_base (clear_delete (store_rows now es (clear_save db))) = add_totals (ud_base db) (totals_of (usage_entries db))"
  by (simp add: clear_delete_def clear_save_def usage_entries_def)

lemma failed_clear_counts_twice:
  "us_totals (GetUsageStats True True t now (fst (ClearUsageLogs driver True False restarted db))) =
     add_totals (totals_of (usage_entries db)) (us_totals (GetUsageStats True True t now db))"
  by (simp add: ClearUsageLogs_def clear_save_def GetUsageStats_def usage_entries_def add_totals_algebra Let_def)

section \<open>The two databases\<close>

lemma sum_list_rows: "sum_list (map f (filter countable (map ul_Entry rows))) = sum_list (map (\<lambda>r. f (ul_Entry r)) (filter (\<lambda>r. countable (ul_Entry r)) rows))"
  by (simp add: filter_map comp_def)


definition old_rows_db :: usage_db where
  "old_rows_db = store_rows 50 [plain_entry] (store_rows 5 [plain_entry] (vr_db usage_start))"


text \<open>Else SQLite counts the requests of all days, but the tokens of today only.\<close>

lemma sqlite_forgets_yesterday:
  "let s = getUsageStatsSQLite True True 10 60 old_rows_db; p = GetUsageStats True True 10 60 old_rows_db
   in ut_Requests (us_totals s) = 2 \<and> ut_Requests (us_totals p) = 2 \<and> ut_Tokens (us_totals s) = 7 \<and> ut_Tokens (us_totals p) = 14"
  by code_simp

lemma mod_div_dvd:
  fixes t k m :: int
  assumes "0 < k" "0 < m" "k dvd 60"
  shows "t - t mod (k * m) = t div m * m - (t div m mod 60) mod k * m"
proof -
  have "t div m mod 60 mod k = t div m mod k" using assms(3) by (rule mod_mod_cancel)
  moreover have "t mod (k * m) = m * (t div m mod k) + t mod m"
    using mod_mult2_eq'[of t "nat m" "nat k"] assms by (simp add: mult.commute)
  ultimately show ?thesis
    using div_mult_mod_eq[of t m] by (simp add: algebra_simps)
qed

text \<open>
  For buckets that divide the hour both databases draw the same timeline.
\<close>

theorem charts_agree:
  assumes "0 < minutes" "minutes dvd 60" "0 < start"
  shows "ca_Timeline (getChartAggregationSQLite start stop minutes db) = ca_Timeline (GetChartAggregation ties start stop minutes db)"
proof -
  have "bucket_sqlite minutes = bucket_pg minutes"
  proof
    fix t
    have "0 < minutes * minute_ns" using assms(1) by simp
    moreover have "t div minute_ns * minute_ns div minute_ns = t div minute_ns" by simp
    ultimately show "bucket_sqlite minutes t = bucket_pg minutes t"
      using mod_div_dvd[OF assms(1) _ assms(2), of minute_ns t] by (simp only: bucket_sqlite_def bucket_pg_def Let_def) simp
  qed
  moreover have "filter (\<lambda>r. ul_CreatedAt r \<noteq> 0) (chart_rows start stop db) = chart_rows start stop db"
    unfolding filter_id_conv using assms(3) by (auto simp: chart_rows_def)
  ultimately show ?thesis
    using assms(1) by (simp add: getChartAggregationSQLite_def GetChartAggregation_def Let_def)
qed

lemma charts_agree_witness:
  "ca_Timeline (getChartAggregationSQLite 3 60 15 old_rows_db) = ca_Timeline (GetChartAggregation (\<lambda>_. 0) 3 60 15 old_rows_db)"
  by (rule charts_agree) simp_all

text \<open>Buckets of two hours are one hour long in PostgreSQL.\<close>

lemma long_buckets_differ: "bucket_pg 120 (90 * minute_ns) = 60 * minute_ns \<and> bucket_sqlite 120 (90 * minute_ns) = 0"
  by (simp add: bucket_pg_def bucket_sqlite_def)

section \<open>Pages\<close>

lemma concat_pages:
  "concat (map (\<lambda>p. take k (drop (p * k) xs)) [0..<n]) = take (n * k) xs"
  by (induction n) (simp_all add: take_add add.commute[of k])


definition all_rows_filter :: UsageLogFilter where
  "all_rows_filter = \<lparr>uf_Start = 0, uf_End = 100, uf_Page = 1, uf_PageSize = 1, uf_Email = [], uf_Model = [], uf_Endpoint = [],
     uf_APIKeyID = None, uf_FastOnly = None, uf_StreamOnly = None\<rparr>"


text \<open>
  The rows of a batch have the same time, and nothing else orders them: if two queries break the tie differently, a row is on
  two pages and another one on none. A page behind the last one says that there are no rows.
\<close>

lemma unstable_pages:
  "let db = store_rows 5 [plain_entry, plain_entry] (vr_db usage_start);
       page = (\<lambda>ties p. map ul_ID (up_Logs (ListUsageLogsByTimeRangePaged (\<lambda>_ _. False) ties (all_rows_filter\<lparr>uf_Page := p\<rparr>) db)))
   in page (\<lambda>k. k) 1 = [1] \<and> page (\<lambda>k. - k) 2 = [1]"
  by code_simp

lemma total_behind_last_page:
  "up_Total (ListUsageLogsByTimeRangePaged (\<lambda>_ _. False) (\<lambda>k. k) (all_rows_filter\<lparr>uf_Page := 3\<rparr>) old_rows_db) = 0 \<and>
   up_Total (ListUsageLogsByTimeRangePaged (\<lambda>_ _. False) (\<lambda>k. k) (all_rows_filter\<lparr>uf_Page := 2\<rparr>) old_rows_db) = 2"
  by code_simp

end
