(* ===== verification/Dialog.thy ===== *)
theory Dialog
  imports Prelude
begin

text \<open>
  The collection of dialogs: the queue of \<open>proxy/dialog_collector.go\<close> that never blocks, its flusher, and the table of
  \<open>database/dialog_logs.go\<close>, divided by months. The calendar is \<open>civil\<close>, the date in UTC of a time; that JSON is valid, how the
  database writes it, and which statements fail are arguments.
  The database is PostgreSQL: with another one each of its operations here does nothing.
\<close>

section \<open>Records\<close>

record DialogLogInput =
  di_Timestamp :: time
  di_Endpoint :: string
  di_Model :: string
  di_BaseModel :: string
  di_AccountID :: int
  di_APIKeyHash :: string
  di_IsStream :: bool
  di_RequestBody :: string
  di_ResponseBody :: string
  di_ReasoningContent :: string
  di_ToolCalls :: string
  di_PromptTokens :: int
  di_CompletionTokens :: int
  di_ReasoningTokens :: int
  di_CachedTokens :: int
  di_DurationMs :: int
  di_StatusCode :: int
  di_ServiceTier :: string
  di_ReasoningEffort :: string

text \<open>A row; a null is \<open>None\<close>.\<close>

record dialog_row =
  dr_ID :: int
  dr_ts :: time
  dr_endpoint :: string
  dr_model :: "string option"
  dr_base_model :: "string option"
  dr_account_id :: "int option"
  dr_api_key_hash :: "string option"
  dr_is_stream :: bool
  dr_request_body :: "string option"
  dr_response_body :: "string option"
  dr_reasoning_content :: "string option"
  dr_tool_calls :: "string option"
  dr_prompt_tokens :: int
  dr_completion_tokens :: int
  dr_reasoning_tokens :: int
  dr_cached_tokens :: int
  dr_duration_ms :: int
  dr_status_code :: int
  dr_service_tier :: "string option"
  dr_reasoning_effort :: "string option"

type_synonym month = "int \<times> int"
type_synonym date = "int \<times> int \<times> int"

record dialog_db =
  dd_partitions :: "month list"
  dd_rows :: "dialog_row list"
  dd_nextID :: int

section \<open>Months\<close>

definition leap_year :: "int \<Rightarrow> bool" where
  "leap_year y \<longleftrightarrow> y mod 4 = 0 \<and> (y mod 100 \<noteq> 0 \<or> y mod 400 = 0)"

definition days_in_month :: "month \<Rightarrow> int" where
  "days_in_month ym =
     (case ym of (y, m) \<Rightarrow> if m = 2 then (if leap_year y then 29 else 28) else if m \<in> {4, 6, 9, 11} then 30 else 31)"

definition add_months :: "month \<Rightarrow> int \<Rightarrow> month" where
  "add_months ym n = (case ym of (y, m) \<Rightarrow> let k = y * 12 + (m - 1) + n in (k div 12, k mod 12 + 1))"

text \<open>\<open>AddDate\<close> of months: a day the month does not have runs over into the next one.\<close>

definition add_date_months :: "date \<Rightarrow> int \<Rightarrow> date" where
  "add_date_months dt n =
     (case dt of (y, m, d) \<Rightarrow>
        let ym = add_months (y, m) n
        in if d > days_in_month ym
           then (let next_ym = add_months ym 1 in (fst next_ym, snd next_ym, d - days_in_month ym))
           else (fst ym, snd ym, d))"

definition month_of :: "date \<Rightarrow> month" where
  "month_of dt = (fst dt, fst (snd dt))"

definition EnsureDialogPartition :: "date \<Rightarrow> bool \<Rightarrow> dialog_db \<Rightarrow> dialog_db \<times> bool" where
  "EnsureDialogPartition dt ok db =
     (if \<not> ok then (db, False)
      else if month_of dt \<in> set (dd_partitions db) then (db, True)
      else (db\<lparr>dd_partitions := dd_partitions db @ [month_of dt]\<rparr>, True))"

fun ensure_partitions :: "date \<Rightarrow> int list \<Rightarrow> (int \<Rightarrow> bool) \<Rightarrow> dialog_db \<Rightarrow> dialog_db \<times> bool" where
  "ensure_partitions dt [] ok db = (db, True)"
| "ensure_partitions dt (k # ks) ok db =
     (case EnsureDialogPartition (add_date_months dt k) (ok k) db of
        (db, True) \<Rightarrow> ensure_partitions dt ks ok db
      | (db, False) \<Rightarrow> (db, False))"

definition EnsureDialogPartitionsAround :: "date \<Rightarrow> (int \<Rightarrow> bool) \<Rightarrow> dialog_db \<Rightarrow> dialog_db \<times> bool" where
  "EnsureDialogPartitionsAround dt ok db = ensure_partitions dt [-1, 0, 1, 2] ok db"

section \<open>Inserting\<close>

definition nullableString :: "string \<Rightarrow> string option" where
  "nullableString s = (if s = [] then None else Some s)"

record dialog_env =
  de_civil :: "time \<Rightarrow> date"
  de_valid :: "string \<Rightarrow> bool"
  de_jsonb :: "string \<Rightarrow> string option"   \<comment> \<open>what the database makes of valid JSON, if it takes it\<close>

definition json_column :: "dialog_env \<Rightarrow> string \<Rightarrow> string option" where
  "json_column env raw = (if raw \<noteq> [] \<and> de_valid env raw then Some raw else None)"

definition dialog_row_of :: "dialog_env \<Rightarrow> time \<Rightarrow> int \<Rightarrow> DialogLogInput \<Rightarrow> dialog_row" where
  "dialog_row_of env now k r =
     (let stored = (\<lambda>c. case c of None \<Rightarrow> None | Some raw \<Rightarrow> de_jsonb env raw)
      in \<lparr>dr_ID = k, dr_ts = (if di_Timestamp r = 0 then now else di_Timestamp r), dr_endpoint = di_Endpoint r,
          dr_model = nullableString (di_Model r), dr_base_model = nullableString (di_BaseModel r),
          dr_account_id = (if di_AccountID r > 0 then Some (di_AccountID r) else None),
          dr_api_key_hash = nullableString (di_APIKeyHash r), dr_is_stream = di_IsStream r,
          dr_request_body = stored (json_column env (di_RequestBody r)),
          dr_response_body = stored (json_column env (di_ResponseBody r)),
          dr_reasoning_content = nullableString (di_ReasoningContent r),
          dr_tool_calls = stored (json_column env (di_ToolCalls r)),
          dr_prompt_tokens = di_PromptTokens r, dr_completion_tokens = di_CompletionTokens r,
          dr_reasoning_tokens = di_ReasoningTokens r, dr_cached_tokens = di_CachedTokens r,
          dr_duration_ms = di_DurationMs r, dr_status_code = di_StatusCode r,
          dr_service_tier = nullableString (di_ServiceTier r), dr_reasoning_effort = nullableString (di_ReasoningEffort r)\<rparr>)"

text \<open>A statement fails as a whole if a row has no partition or a value the database does not take.\<close>

definition row_taken :: "dialog_env \<Rightarrow> time \<Rightarrow> dialog_db \<Rightarrow> DialogLogInput \<Rightarrow> bool" where
  "row_taken env now db r \<longleftrightarrow>
     month_of (de_civil env (if di_Timestamp r = 0 then now else di_Timestamp r)) \<in> set (dd_partitions db) \<and>
     (\<forall>raw \<in> set [di_RequestBody r, di_ResponseBody r, di_ToolCalls r]. json_column env raw = None \<or> de_jsonb env raw \<noteq> None)"

definition insert_chunk :: "dialog_env \<Rightarrow> time \<Rightarrow> DialogLogInput list \<Rightarrow> dialog_db \<Rightarrow> dialog_db" where
  "insert_chunk env now rs db =
     db\<lparr>dd_rows := dd_rows db @ map (\<lambda>(i, r). dialog_row_of env now (dd_nextID db + int i) r) (enumerate 0 rs),
        dd_nextID := dd_nextID db + int (length rs)\<rparr>"

function InsertDialogLogs :: "dialog_env \<Rightarrow> (nat \<Rightarrow> bool) \<Rightarrow> nat \<Rightarrow> time \<Rightarrow> DialogLogInput list \<Rightarrow> dialog_db \<Rightarrow> dialog_db \<times> bool" where
  "InsertDialogLogs env ok i now batch db =
     (if batch = [] then (db, True)
      else if \<not> ok i \<or> \<not> list_all (row_taken env now db) (take 100 batch) then (db, False)
      else InsertDialogLogs env ok (Suc i) now (drop 100 batch) (insert_chunk env now (take 100 batch) db))"
  by pat_completeness auto
termination
  by (relation "measure (\<lambda>(env, ok, i, now, batch, db). length batch)") (auto simp: neq_Nil_conv)

declare InsertDialogLogs.simps [simp del]

section \<open>Reading\<close>

record DialogLogListParams =
  dp_Endpoint :: string
  dp_Model :: string
  dp_Limit :: int
  dp_Offset :: int

definition dialog_matches :: "DialogLogListParams \<Rightarrow> dialog_row \<Rightarrow> bool" where
  "dialog_matches p r \<longleftrightarrow> (dp_Endpoint p = [] \<or> dr_endpoint r = dp_Endpoint p) \<and> (dp_Model p = [] \<or> dr_model r = Some (dp_Model p))"

text \<open>Without a filter the total is an estimate of the database.\<close>

definition db_ListDialogLogs ::
  "int \<Rightarrow> (int \<Rightarrow> int) \<Rightarrow> DialogLogListParams \<Rightarrow> dialog_db \<Rightarrow> dialog_row list \<times> int" where
  "db_ListDialogLogs estimate ties p db =
     (let limit = (if dp_Limit p \<le> 0 \<or> dp_Limit p > 200 then 50 else dp_Limit p);
          offset = (if dp_Offset p < 0 then 0 else dp_Offset p);
          found = filter (dialog_matches p) (dd_rows db)
      in (take (nat limit) (drop (nat offset) (sort_key (\<lambda>r. (- dr_ts r, ties (dr_ID r))) found)),
          if dp_Endpoint p = [] \<and> dp_Model p = [] then estimate else int (length found)))"

definition GetDialogLogByID :: "int \<Rightarrow> dialog_db \<Rightarrow> dialog_row option" where
  "GetDialogLogByID k db = find (\<lambda>r. dr_ID r = k) (dd_rows db)"

record DialogStats =
  dst_TotalRows :: int
  dst_Today :: int
  dst_Yesterday :: int
  dst_Last7Days :: int
  dst_Oldest :: "time option"
  dst_Newest :: "time option"
  dst_Partitions :: "month list"
  dst_TableSize :: string

abbreviation day_ns :: time where "day_ns \<equiv> 24 * hour"

definition count_rows :: "(time \<Rightarrow> bool) \<Rightarrow> dialog_db \<Rightarrow> int" where
  "count_rows P db = int (length (filter (\<lambda>r. P (dr_ts r)) (dd_rows db)))"

text \<open>\<open>ok i\<close> is whether the statement number \<open>i\<close> succeeds; only the first one ends the function. \<open>pretty\<close> is the size of the table.\<close>

definition db_GetDialogStats :: "(nat \<Rightarrow> bool) \<Rightarrow> string \<Rightarrow> time \<Rightarrow> dialog_db \<Rightarrow> DialogStats option" where
  "db_GetDialogStats ok pretty now db =
     (let today = now - now mod day_ns; ts = map dr_ts (dd_rows db)
      in if \<not> ok 0 then None
         else Some \<lparr>dst_TotalRows = int (length (dd_rows db)), dst_Today = (if ok 1 then count_rows (\<lambda>t. t \<ge> today) db else 0),
          dst_Yesterday = (if ok 2 then count_rows (\<lambda>t. t \<ge> today - day_ns \<and> t < today) db else 0),
          dst_Last7Days = (if ok 3 then count_rows (\<lambda>t. t \<ge> today - 7 * day_ns) db else 0),
          dst_Oldest = (if ts = [] then None else Some (Min (set ts))), dst_Newest = (if ts = [] then None else Some (Max (set ts))),
          dst_Partitions = (if ok 5 then sort (dd_partitions db) else []), dst_TableSize = (if ok 4 then pretty else [])\<rparr>)"

section \<open>The collector\<close>

datatype flusher = Collecting | Draining | Ended

record DialogCollector =
  dc_ch :: "DialogLogInput list"
  dc_enabled :: bool
  dc_submitted :: int
  dc_dropped :: int
  dc_written :: int
  dc_failed :: int
  dc_batch :: "DialogLogInput list"
  dc_flusher :: flusher
  dc_stop :: bool

abbreviation dialog_cap :: nat where "dialog_cap \<equiv> 10000"
abbreviation dialog_batch :: nat where "dialog_batch \<equiv> 200"

definition NewDialogCollector :: DialogCollector where
  "NewDialogCollector = \<lparr>dc_ch = [], dc_enabled = True, dc_submitted = 0, dc_dropped = 0, dc_written = 0, dc_failed = 0,
     dc_batch = [], dc_flusher = Collecting, dc_stop = False\<rparr>"

definition dc_SetEnabled :: "bool \<Rightarrow> DialogCollector \<Rightarrow> DialogCollector" where
  "dc_SetEnabled v c = c\<lparr>dc_enabled := v\<rparr>"

text \<open>The two steps of \<open>Submit\<close>: it looks at the switch, and sends if there is room. A send and its counter are one step.\<close>

definition submit_allowed :: "DialogCollector \<Rightarrow> bool" where
  "submit_allowed c \<longleftrightarrow> dc_enabled c"

definition submit_send :: "DialogLogInput \<Rightarrow> DialogCollector \<Rightarrow> DialogCollector" where
  "submit_send r c =
     (if length (dc_ch c) < dialog_cap then c\<lparr>dc_ch := dc_ch c @ [r], dc_submitted := dc_submitted c + 1\<rparr>
      else c\<lparr>dc_dropped := dc_dropped c + 1\<rparr>)"

definition dc_Submit :: "DialogLogInput option \<Rightarrow> DialogCollector \<Rightarrow> DialogCollector" where
  "dc_Submit rec c = (case rec of None \<Rightarrow> c | Some r \<Rightarrow> if submit_allowed c then submit_send r c else c)"

text \<open>A flush: the rows are stored, or not, or the insert panics and the batch is kept.\<close>

datatype flush_result = Stored | Refused | Panicked

definition dialog_flush :: "flush_result \<Rightarrow> DialogCollector \<Rightarrow> DialogCollector" where
  "dialog_flush res c =
     (if dc_batch c = [] then c
      else case res of
             Stored \<Rightarrow> c\<lparr>dc_written := dc_written c + int (length (dc_batch c)), dc_batch := []\<rparr>
           | Refused \<Rightarrow> c\<lparr>dc_failed := dc_failed c + int (length (dc_batch c)), dc_batch := []\<rparr>
           | Panicked \<Rightarrow> c)"

definition dialog_receive :: "flush_result \<Rightarrow> DialogCollector \<Rightarrow> DialogCollector" where
  "dialog_receive res c =
     (case dc_ch c of
        [] \<Rightarrow> c
      | r # rs \<Rightarrow>
          let c = c\<lparr>dc_ch := rs, dc_batch := dc_batch c @ [r]\<rparr>
          in if length (dc_batch c) \<ge> dialog_batch then dialog_flush res c else c)"

text \<open>Stopping closes a channel: a second time panics, and so does not happen here.\<close>

definition dc_Stop :: "DialogCollector \<Rightarrow> DialogCollector" where
  "dc_Stop c = c\<lparr>dc_enabled := False, dc_stop := True\<rparr>"

record DialogCollectorStats =
  ds_Enabled :: bool
  ds_Submitted :: int
  ds_Dropped :: int
  ds_Written :: int
  ds_Failed :: int
  ds_QueueLen :: int
  ds_QueueCap :: int

definition dc_Stats :: "DialogCollector \<Rightarrow> DialogCollectorStats" where
  "dc_Stats c = \<lparr>ds_Enabled = dc_enabled c, ds_Submitted = dc_submitted c, ds_Dropped = dc_dropped c, ds_Written = dc_written c,
     ds_Failed = dc_failed c, ds_QueueLen = int (length (dc_ch c)), ds_QueueCap = int dialog_cap\<rparr>"

text \<open>\<open>digest\<close> is the SHA-256 of a string, in hexadecimal digits.\<close>

definition HashAPIKey :: "(string \<Rightarrow> string) \<Rightarrow> string \<Rightarrow> string" where
  "HashAPIKey digest apiKey = (let k = trim_space apiKey in if k = [] then [] else take 32 (digest k))"

section \<open>The admin handlers\<close>

datatype dialog_answer =
  DialogRefused nat
| DialogListed "dialog_row list" int int int   \<comment> \<open>items, total, limit, offset\<close>
| DialogFound dialog_row
| DialogToggled bool DialogCollectorStats

text \<open>\<open>strconv.Atoi\<close> of a parameter, zero if it is no number.\<close>

definition ListDialogLogs ::
  "int \<Rightarrow> (int \<Rightarrow> int) \<Rightarrow> string \<Rightarrow> string \<Rightarrow> int \<Rightarrow> int \<Rightarrow> bool \<Rightarrow> dialog_db option \<Rightarrow> dialog_answer" where
  "ListDialogLogs estimate ties endpoint model limit offset ok db =
     (case db of
        None \<Rightarrow> DialogRefused 503
      | Some db \<Rightarrow>
          let limit = (if limit \<le> 0 then 50 else limit);
              offset = (if offset < 0 then 0 else offset);
              p = \<lparr>dp_Endpoint = trim_space endpoint, dp_Model = trim_space model, dp_Limit = limit, dp_Offset = offset\<rparr>
          in if \<not> ok then DialogRefused 500
             else case db_ListDialogLogs estimate ties p db of (rows, found) \<Rightarrow> DialogListed rows found limit offset)"

definition GetDialogLogDetail :: "int option \<Rightarrow> bool \<Rightarrow> dialog_db option \<Rightarrow> dialog_answer" where
  "GetDialogLogDetail k ok db =
     (case db of
        None \<Rightarrow> DialogRefused 503
      | Some db \<Rightarrow>
          (case k of
             None \<Rightarrow> DialogRefused 400
           | Some k \<Rightarrow>
               if k \<le> 0 then DialogRefused 400
               else if \<not> ok then DialogRefused 500
               else case GetDialogLogByID k db of None \<Rightarrow> DialogRefused 404 | Some r \<Rightarrow> DialogFound r))"

text \<open>Whether there is a collector, its counters, and what the database answers, if there is one.\<close>

definition GetDialogStats ::
  "(nat \<Rightarrow> bool) \<Rightarrow> string \<Rightarrow> time \<Rightarrow> DialogCollector option \<Rightarrow> dialog_db option \<Rightarrow>
     bool \<times> DialogCollectorStats option \<times> DialogStats option option" where
  "GetDialogStats ok pretty now collector db =
     (collector \<noteq> None, map_option dc_Stats collector, map_option (db_GetDialogStats ok pretty now) db)"

definition ToggleDialogCollection :: "bool option \<Rightarrow> DialogCollector option \<Rightarrow> DialogCollector option \<times> dialog_answer" where
  "ToggleDialogCollection req collector =
     (case collector of
        None \<Rightarrow> (None, DialogRefused 503)
      | Some c \<Rightarrow>
          (case req of
             None \<Rightarrow> (Some c, DialogRefused 400)
           | Some v \<Rightarrow> let c = dc_SetEnabled v c in (Some c, DialogToggled v (dc_Stats c))))"

end
