(* ===== verification/DialogLaws.thy ===== *)
theory DialogLaws
  imports Dialog "HOL-Library.Multiset"
begin

text \<open>
  Every dialog that was submitted is queued, waiting in the batch, written or failed; which months have a partition; a batch is stored
  from its beginning, and a record that was stored is read back.
\<close>

section \<open>The collector\<close>

text \<open>The collector, the submits that have passed the switch, and how many have been tried to send.\<close>

record dialog_run =
  dn_collector :: DialogCollector
  dn_sending :: "DialogLogInput list"
  dn_sent :: nat

inductive dialog_step :: "dialog_run \<Rightarrow> dialog_run \<Rightarrow> bool" where
  asks: "submit_allowed (dn_collector s) \<Longrightarrow> dialog_step s (s\<lparr>dn_sending := r # dn_sending s\<rparr>)"
| sends: "r \<in> set (dn_sending s) \<Longrightarrow>
     dialog_step s (s\<lparr>dn_collector := submit_send r (dn_collector s), dn_sending := remove1 r (dn_sending s), dn_sent := dn_sent s + 1\<rparr>)"
| receives: "dc_flusher (dn_collector s) \<noteq> Ended \<Longrightarrow> dc_ch (dn_collector s) \<noteq> [] \<Longrightarrow>
     dialog_step s (s\<lparr>dn_collector := dialog_receive res (dn_collector s)\<rparr>)"
| ticks: "dc_flusher (dn_collector s) = Collecting \<Longrightarrow> dialog_step s (s\<lparr>dn_collector := dialog_flush res (dn_collector s)\<rparr>)"
| toggles: "dialog_step s (s\<lparr>dn_collector := dc_SetEnabled v (dn_collector s)\<rparr>)"
| stops: "\<not> dc_stop (dn_collector s) \<Longrightarrow> dialog_step s (s\<lparr>dn_collector := dc_Stop (dn_collector s)\<rparr>)"
| drains: "dc_flusher (dn_collector s) = Collecting \<Longrightarrow> dc_stop (dn_collector s) \<Longrightarrow>
     dialog_step s (s\<lparr>dn_collector := (dn_collector s)\<lparr>dc_flusher := Draining\<rparr>\<rparr>)"
| ends: "dc_flusher (dn_collector s) = Draining \<Longrightarrow> dc_ch (dn_collector s) = [] \<Longrightarrow>
     dialog_step s (s\<lparr>dn_collector := (dialog_flush res (dn_collector s))\<lparr>dc_flusher := Ended\<rparr>\<rparr>)"

definition dialog_ok :: "dialog_run \<Rightarrow> bool" where
  "dialog_ok s \<longleftrightarrow>
     (let c = dn_collector s
      in dc_submitted c = dc_written c + dc_failed c + int (length (dc_batch c)) + int (length (dc_ch c)) \<and>
         dc_submitted c + dc_dropped c = int (dn_sent s) \<and> length (dc_ch c) \<le> dialog_cap \<and>
         0 \<le> dc_written c \<and> 0 \<le> dc_failed c \<and> 0 \<le> dc_dropped c)"

lemma flush_counts:
  "dc_written (dialog_flush res c) + dc_failed (dialog_flush res c) + int (length (dc_batch (dialog_flush res c))) =
     dc_written c + dc_failed c + int (length (dc_batch c))"
  "dc_submitted (dialog_flush res c) = dc_submitted c" "dc_dropped (dialog_flush res c) = dc_dropped c"
  "dc_ch (dialog_flush res c) = dc_ch c"
  "0 \<le> dc_written c \<Longrightarrow> 0 \<le> dc_written (dialog_flush res c)" "0 \<le> dc_failed c \<Longrightarrow> 0 \<le> dc_failed (dialog_flush res c)"
  by (simp_all add: dialog_flush_def split: flush_result.split)

lemma receive_counts:
  assumes "dc_ch c \<noteq> []"
  shows "dc_written (dialog_receive res c) + dc_failed (dialog_receive res c) + int (length (dc_batch (dialog_receive res c))) =
     dc_written c + dc_failed c + int (length (dc_batch c)) + 1"
  "dc_submitted (dialog_receive res c) = dc_submitted c" "dc_dropped (dialog_receive res c) = dc_dropped c"
  "length (dc_ch (dialog_receive res c)) = length (dc_ch c) - 1"
  "0 \<le> dc_written c \<Longrightarrow> 0 \<le> dc_written (dialog_receive res c)" "0 \<le> dc_failed c \<Longrightarrow> 0 \<le> dc_failed (dialog_receive res c)"
  using assms by (auto simp: dialog_receive_def Let_def neq_Nil_conv flush_counts)

lemma dialog_ok_step: "dialog_step s s' \<Longrightarrow> dialog_ok s \<Longrightarrow> dialog_ok s'"
proof (induction rule: dialog_step.induct)
  case (sends r s)
  then show ?case by (auto simp: dialog_ok_def Let_def submit_send_def)
next
  case (receives s)
  then have "length (dc_ch (dn_collector s)) \<ge> 1" by (cases "dc_ch (dn_collector s)") simp_all
  with receives receive_counts[OF receives(2)] show ?case by (auto simp: dialog_ok_def Let_def of_nat_diff)
next
  case (ticks s)
  then show ?case by (simp add: dialog_ok_def Let_def flush_counts)
next
  case (ends s)
  then show ?case by (simp add: dialog_ok_def Let_def flush_counts)
qed (simp_all add: dialog_ok_def dc_SetEnabled_def dc_Stop_def Let_def)

definition dialog_start :: dialog_run where
  "dialog_start = \<lparr>dn_collector = NewDialogCollector, dn_sending = [], dn_sent = 0\<rparr>"

text \<open>
  C40. However submits, the flusher, the switch and the shutdown interleave, and whatever happens to the statements: a
  dialog that was sent was dropped or submitted; those submitted are written, failed, in the batch or in the queue; and
  the queue holds at most 10000.
\<close>

theorem dialogs_are_accounted_for:
  assumes "dialog_step\<^sup>*\<^sup>* dialog_start s"
  shows "let st = dc_Stats (dn_collector s)
    in ds_Submitted st + ds_Dropped st = int (dn_sent s) \<and>
       ds_Submitted st = ds_Written st + ds_Failed st + int (length (dc_batch (dn_collector s))) + ds_QueueLen st \<and>
       ds_QueueLen st \<le> ds_QueueCap st"
proof -
  have "dialog_ok s"
    using assms
  proof (induction rule: rtranclp_induct)
    case base
    show ?case by (simp add: dialog_ok_def dialog_start_def NewDialogCollector_def)
  qed (blast intro: dialog_ok_step)
  then show ?thesis by (auto simp: dialog_ok_def dc_Stats_def Let_def)
qed

definition plain_dialog :: DialogLogInput where
  "plain_dialog = \<lparr>di_Timestamp = 5, di_Endpoint = ''/v1/responses'', di_Model = ''m'', di_BaseModel = [], di_AccountID = 1, di_APIKeyHash = [],
     di_IsStream = False, di_RequestBody = ''{}'', di_ResponseBody = [], di_ReasoningContent = [], di_ToolCalls = [], di_PromptTokens = 1,
     di_CompletionTokens = 1, di_ReasoningTokens = 0, di_CachedTokens = 0, di_DurationMs = 1, di_StatusCode = 200, di_ServiceTier = [],
     di_ReasoningEffort = []\<rparr>"

lemma dialogs_are_accounted_for_witness:
  "\<exists>s. dialog_step\<^sup>*\<^sup>* dialog_start s \<and> dn_sent s = 1 \<and> ds_Submitted (dc_Stats (dn_collector s)) + ds_Dropped (dc_Stats (dn_collector s)) = 1"
proof -
  let ?a = "dialog_start\<lparr>dn_sending := plain_dialog # dn_sending dialog_start\<rparr>"
  let ?b = "?a\<lparr>dn_collector := submit_send plain_dialog (dn_collector ?a), dn_sending := remove1 plain_dialog (dn_sending ?a), dn_sent := dn_sent ?a + 1\<rparr>"
  have "dialog_step dialog_start ?a" by (rule asks) (simp add: dialog_start_def NewDialogCollector_def submit_allowed_def)
  moreover have "dialog_step ?a ?b" by (rule sends) simp
  ultimately have run: "dialog_step\<^sup>*\<^sup>* dialog_start ?b" by (meson converse_rtranclp_into_rtranclp rtranclp.rtrancl_refl)
  have "dn_sent ?b = 1" by (simp add: dialog_start_def)
  with run dialogs_are_accounted_for[OF run] show ?thesis by (intro exI[of _ ?b]) (simp add: Let_def)
qed

text \<open>A dialog that passes the switch before the shutdown and is sent after the flusher has ended stays in the queue for good.\<close>

lemma late_submit_is_lost:
  assumes "dialog_step s s'" "dc_flusher (dn_collector s) = Ended"
  shows "dc_flusher (dn_collector s') = Ended \<and> dc_written (dn_collector s') = dc_written (dn_collector s) \<and>
    (\<exists>rs. dc_ch (dn_collector s') = dc_ch (dn_collector s) @ rs)"
  using assms by (cases rule: dialog_step.cases) (auto simp: submit_send_def dc_SetEnabled_def dc_Stop_def)

text \<open>A limit of more than 200 is answered as asked for, but at most 50 rows are listed.\<close>

lemma listed_limit_is_not_the_page:
  assumes "limit > 200" "ListDialogLogs estimate ties endpoint model limit offset True (Some db) = DialogListed rows found shown beg"
  shows "shown = limit \<and> length rows \<le> 50"
  using assms by (auto simp: ListDialogLogs_def db_ListDialogLogs_def Let_def)

section \<open>Partitions\<close>

lemma ensure_one:
  "fst (EnsureDialogPartition dt True db) = db\<lparr>dd_partitions := dd_partitions (fst (EnsureDialogPartition dt True db))\<rparr>"
  "set (dd_partitions (fst (EnsureDialogPartition dt True db))) = insert (month_of dt) (set (dd_partitions db))"
  "snd (EnsureDialogPartition dt True db)"
  by (auto simp: EnsureDialogPartition_def)

lemma ensure_all:
  "set (dd_partitions (fst (ensure_partitions dt ks (\<lambda>_. True) db))) =
     set (dd_partitions db) \<union> (\<lambda>k. month_of (add_date_months dt k)) ` set ks"
proof (induction ks arbitrary: db)
  case (Cons k ks)
  obtain db' b where e: "EnsureDialogPartition (add_date_months dt k) True db = (db', b)" by force
  with ensure_one(2,3)[of "add_date_months dt k" db] have "b" "set (dd_partitions db') = insert (month_of (add_date_months dt k)) (set (dd_partitions db))"
    by simp_all
  with Cons.IH[of db'] e show ?case by simp
qed simp

lemma days_at_least: "28 \<le> days_in_month ym"
  by (simp add: days_in_month_def split: prod.split)

text \<open>
  Up to the 28th of a month, the partitions of the month before, the month itself and the two after it exist once the statements
  have succeeded.
\<close>

theorem partitions_cover_the_months:
  assumes "d \<le> 28" "k \<in> {-1, 0, 1, 2}"
  shows "add_months (y, m) k \<in> set (dd_partitions (fst (EnsureDialogPartitionsAround (y, m, d) (\<lambda>_. True) db)))"
proof -
  have "d \<le> days_in_month (add_months (y, m) k)" using assms(1) days_at_least[of "add_months (y, m) k"] by linarith
  then have "month_of (add_date_months (y, m, d) k) = add_months (y, m) k"
    by (simp add: add_date_months_def month_of_def Let_def)
  then show ?thesis unfolding EnsureDialogPartitionsAround_def ensure_all using assms(2) by force
qed

lemma partitions_cover_the_months_witness:
  "(2026, 1) \<in> set (dd_partitions (fst (EnsureDialogPartitionsAround (2025, 12, 28) (\<lambda>_. True) \<lparr>dd_partitions = [], dd_rows = [], dd_nextID = 1\<rparr>)))"
  using partitions_cover_the_months[of 28 1 2025 12] by (simp add: add_months_def)

text \<open>On the last days of January the next month has none: a server started then cannot store the dialogs of February.\<close>

lemma no_february:
  "dd_partitions (fst (EnsureDialogPartitionsAround (2026, 1, 31) (\<lambda>_. True) \<lparr>dd_partitions = [], dd_rows = [], dd_nextID = 1\<rparr>)) =
     [(2025, 12), (2026, 1), (2026, 3)]"
  by code_simp

section \<open>Inserting\<close>

lemma insert_dialogs_failed:
  assumes "ok 0" "\<not> ok 1" "100 < length batch" "list_all (row_taken env now db) (take 100 batch)"
  shows "\<exists>db'. InsertDialogLogs env ok 0 now batch db = (db', False) \<and> length (dd_rows db') = length (dd_rows db) + 100"
proof -
  have "batch \<noteq> []" "drop 100 batch \<noteq> []" using assms(3) by auto
  then have "InsertDialogLogs env ok 0 now batch db = (insert_chunk env now (take 100 batch) db, False)"
    using assms by (simp add: InsertDialogLogs.simps[of env ok 0] InsertDialogLogs.simps[of env ok "Suc 0"])
  then show ?thesis using assms(3) by (simp add: insert_chunk_def)
qed

text \<open>A month without partition fails the batch.\<close>

lemma no_partition_no_row:
  assumes "r \<in> set (take 100 batch)" "di_Timestamp r \<noteq> 0" "month_of (de_civil env (di_Timestamp r)) \<notin> set (dd_partitions db)"
  shows "InsertDialogLogs env ok i now batch db = (db, False)"
proof -
  have "\<not> list_all (row_taken env now db) (take 100 batch)" using assms by (auto simp: list_all_iff row_taken_def)
  moreover have "batch \<noteq> []" using assms(1) by auto
  ultimately show ?thesis by (subst InsertDialogLogs.simps) simp
qed

lemma find_after: "\<forall>x \<in> set xs. \<not> P x \<Longrightarrow> find P (xs @ ys) = find P ys"
  by (induction xs) simp_all

definition row_ids_ok :: "dialog_db \<Rightarrow> bool" where
  "row_ids_ok db \<longleftrightarrow> list_all (\<lambda>r. 0 < dr_ID r \<and> dr_ID r < dd_nextID db) (dd_rows db) \<and> 0 < dd_nextID db"

text \<open>
  A dialog that was stored is read back as it was submitted, but that empty texts, bodies that are no JSON, and ids that are
  not positive are null.
\<close>

theorem stored_dialog_is_read_back:
  assumes "row_ids_ok db" "row_taken env now db r" "ok 0" "di_Timestamp r \<noteq> 0"
  shows "\<exists>db' row. InsertDialogLogs env ok 0 now [r] db = (db', True) \<and> GetDialogLogDetail (Some (dd_nextID db)) True (Some db') = DialogFound row \<and>
    dr_ts row = di_Timestamp r \<and> dr_endpoint row = di_Endpoint r \<and> dr_model row = nullableString (di_Model r) \<and>
    (di_RequestBody r \<noteq> [] \<and> de_valid env (di_RequestBody r) \<longrightarrow> dr_request_body row = de_jsonb env (di_RequestBody r)) \<and>
    (di_ResponseBody r \<noteq> [] \<and> de_valid env (di_ResponseBody r) \<longrightarrow> dr_response_body row = de_jsonb env (di_ResponseBody r)) \<and>
    dr_prompt_tokens row = di_PromptTokens r \<and> dr_completion_tokens row = di_CompletionTokens r"
proof -
  let ?db = "insert_chunk env now [r] db"
  have "InsertDialogLogs env ok 0 now [r] db = (?db, True)"
    using assms(2,3) by (simp add: InsertDialogLogs.simps[of env ok 0] InsertDialogLogs.simps[of env ok "Suc 0"])
  moreover have rows: "dd_rows ?db = dd_rows db @ [dialog_row_of env now (dd_nextID db) r]" by (simp add: insert_chunk_def)
  have "\<forall>r \<in> set (dd_rows db). dr_ID r \<noteq> dd_nextID db" using assms(1) by (auto simp: row_ids_ok_def list_all_iff)
  then have "GetDialogLogByID (dd_nextID db) ?db = Some (dialog_row_of env now (dd_nextID db) r)"
    unfolding GetDialogLogByID_def rows by (subst find_after) (simp_all add: dialog_row_of_def Let_def)
  moreover have "0 < dd_nextID db" using assms(1) by (simp add: row_ids_ok_def)
  ultimately show ?thesis
    using assms(4) by (auto simp: GetDialogLogDetail_def dialog_row_of_def json_column_def Let_def)
qed

end
