(* ===== verification/Endpoints.thy ===== *)
theory Endpoints
  imports RequestBody
begin

text \<open>
  The other endpoints: \<open>Messages\<close> of \<open>proxy/handler_anthropic.go\<close>, \<open>ChatCompletions\<close> and \<open>ResponsesCompact\<close> of
  \<open>proxy/handler.go\<close>. Their retry loops differ in what an attempt does with the answer of the upstream and in what they
  write; the loop itself is one function here. The result of a request is the pool, the accounts it tried, and what was
  written to the client, attempt after attempt. The texts of errors, the log and the dialog collector are left out.
\<close>

section \<open>The loop\<close>

type_synonym 'o attempt_end = "attempt_env \<Rightarrow> Store \<Rightarrow> addr \<Rightarrow> string \<Rightarrow> int \<Rightarrow> failures \<Rightarrow> Store \<times> verdict \<times> 'o list"

definition no_failures :: failures where
  "no_failures = \<lparr>fl_lastErr = False, fl_lastStatusCode = 0, fl_lastBody = []\<rparr>"

fun endpoint_loop ::
  "(int \<Rightarrow> attempt_env) \<Rightarrow> 'o attempt_end \<Rightarrow> (reply \<Rightarrow> 'o list) \<Rightarrow> string \<Rightarrow> string \<Rightarrow> int list \<Rightarrow> failures \<Rightarrow> int set
     \<Rightarrow> Store \<Rightarrow> (Store \<times> (addr \<times> bool) list \<times> 'o list) option" where
  "endpoint_loop env finish answer sessionID preferPlan [] fl exclude s = Some (s, [], answer (gave_up_reply fl))"
| "endpoint_loop env finish answer sessionID preferPlan (attempt # attempts) fl exclude s =
     (case pick_account (env attempt) s sessionID exclude preferPlan of
        None \<Rightarrow> None
      | Some (s, None, _) \<Rightarrow> Some (s, [], answer (no_account_reply fl))
      | Some (s, Some ad, sticky) \<Rightarrow>
          let (s, proxyURL) = (if sticky = [] then NextProxy s else (s, sticky));
              (s, v, out) = finish (env attempt) (ae_during (env attempt) s) ad proxyURL attempt fl
          in case v of
               Finish _ \<Rightarrow> Some (s, [(ad, True)], out)
             | TryAgain excluded fl \<Rightarrow>
                 map_option (\<lambda>(s, tried, rest). (s, (ad, excluded) # tried, out @ rest))
                   (endpoint_loop env finish answer sessionID preferPlan attempts fl
                     (if excluded then insert (DBID (st_heap s ad)) exclude else exclude) s))"

text \<open>
  What the upstream answers: nothing, a status other than 200, or a stream. Of a stream the endpoints see the events, the
  output array of the completed event, the arguments of finished calls, the error of reading and of the client's context
  at the end, and the error of the n-th write to the client.
\<close>

record upstream_stream =
  us_response :: response
  us_events :: "codex_event list"
  us_outputs :: "output_item list option"
  us_itemArguments :: "codex_event \<Rightarrow> string"
  us_readErr :: "string option"
  us_ctxErr :: "string option"
  us_writeErr :: "nat \<Rightarrow> string option"
  us_uuid :: string

datatype upstream_answer =
  Unreached string bool
| Refused response
| Answered upstream_stream

definition final_reply :: "(reply \<Rightarrow> 'o list) \<Rightarrow> Store \<times> verdict \<Rightarrow> Store \<times> verdict \<times> 'o list" where
  "final_reply answer r = (case r of (s, v) \<Rightarrow> (s, v, case v of Finish rep \<Rightarrow> answer rep | TryAgain _ _ \<Rightarrow> []))"

section \<open>Messages\<close>

subsection \<open>Errors and checks\<close>

definition mapHTTPStatusToAnthropicError :: "int \<Rightarrow> string" where
  "mapHTTPStatusToAnthropicError statusCode =
     (if statusCode = 400 then ''invalid_request_error''
      else if statusCode = 401 then ''authentication_error''
      else if statusCode = 403 then ''permission_error''
      else if statusCode = 404 then ''not_found_error''
      else if statusCode = 429 then ''rate_limit_error''
      else if statusCode = 529 then ''overloaded_error''
      else ''api_error'')"

datatype anthropic_write =
  AWError int string                 \<comment> \<open>status and type\<close>
| AWMessage "content_block list \<times> string \<times> anthropic_usage"
| AWEvent anthropic_event

fun messages_answer :: "reply \<Rightarrow> anthropic_write list" where
  "messages_answer (UpstreamError code) = [AWError code (mapHTTPStatusToAnthropicError code)]"
| "messages_answer Unavailable = [AWError 503 ''overloaded_error'']"
| "messages_answer StructuredError = [AWError 502 ''api_error'']"
| "messages_answer BadGateway = [AWError 502 ''api_error'']"
| "messages_answer (Served _) = []"
| "messages_answer NoAnswer = []"

text \<open>\<open>mq_body\<close> is \<open>None\<close> if it cannot be read; \<open>mq_parsed\<close> is what \<open>json.Unmarshal\<close> makes of it.\<close>

record messages_request =
  mq_body :: "string option"
  mq_valid :: bool
  mq_model :: string
  mq_hasMessages :: bool
  mq_isStream :: bool
  mq_parsed :: "anthropicRequest option"

definition MaxRequestBodySize :: int where
  "MaxRequestBodySize = 32 * 1024 * 1024"

definition messages_refusal :: "messages_request \<Rightarrow> anthropic_write option" where
  "messages_refusal q =
     (let bad = Some (AWError 400 ''invalid_request_error'')
      in case mq_body q of
           None \<Rightarrow> bad
         | Some body \<Rightarrow>
             if body = [] then bad
             else if \<not> mq_valid q then bad
             else if int (length body) > MaxRequestBodySize then Some (AWError 413 ''invalid_request_error'')
             else if mq_model q = [] then bad
             else if \<not> mq_hasMessages q then bad
             else None)"

subsection \<open>The stream\<close>

record messages_stream =
  ms_state :: stream_state
  ms_translator :: anthropicStreamTranslator
  ms_out :: "anthropic_event list"
  ms_writes :: nat

fun write_events :: "(nat \<Rightarrow> string option) \<Rightarrow> anthropic_event list \<Rightarrow> messages_stream \<Rightarrow> messages_stream" where
  "write_events writeErr [] st = st"
| "write_events writeErr (e # es) st =
     (case writeErr (ms_writes st) of
        Some err \<Rightarrow> st\<lparr>ms_state := (ms_state st)\<lparr>ss_writeErr := Some err\<rparr>\<rparr>
      | None \<Rightarrow>
          write_events writeErr es
            (st\<lparr>ms_state := (ms_state st)\<lparr>ss_wroteAnyBody := True\<rparr>, ms_out := ms_out st @ [e], ms_writes := ms_writes st + 1\<rparr>))"

definition messages_event ::
  "json_codec \<Rightarrow> (nat \<Rightarrow> string option) \<Rightarrow> messages_stream \<Rightarrow> codex_event \<Rightarrow> messages_stream \<times> bool" where
  "messages_event json writeErr st e =
     (let ss = ms_state st
      in if ce_type e = ''response.failed'' \<and> \<not> ss_wroteAnyBody ss \<and> isCapacityError (ce_error_message e)
         then (st\<lparr>ms_state := ss\<lparr>ss_capacityErrMsg := ce_error_message e, ss_gotTerminal := True\<rparr>\<rparr>, False)
         else
           let ss = (if terminal e then ss\<lparr>ss_gotTerminal := True\<rparr> else ss);
               (t, evs) = translateEvent json e (ms_translator st);
               st = write_events writeErr evs (st\<lparr>ms_state := ss, ms_translator := t\<rparr>)
           in (st, ss_writeErr (ms_state st) = None \<and> \<not> terminal e))"

fun read_messages :: "json_codec \<Rightarrow> (nat \<Rightarrow> string option) \<Rightarrow> messages_stream \<Rightarrow> codex_event list \<Rightarrow> messages_stream" where
  "read_messages json writeErr st [] = st"
| "read_messages json writeErr st (e # es) =
     (case messages_event json writeErr st e of (st, goes_on) \<Rightarrow> if goes_on then read_messages json writeErr st es else st)"

text \<open>A stream without a terminal event is closed for the client; the errors of these writes are ignored.\<close>

definition close_messages :: "json_codec \<Rightarrow> (nat \<Rightarrow> string option) \<Rightarrow> messages_stream \<Rightarrow> messages_stream" where
  "close_messages json writeErr st =
     (if ss_writeErr (ms_state st) = None \<and> \<not> ss_gotTerminal (ms_state st)
      then st\<lparr>ms_out := ms_out st @
             map snd (filter (\<lambda>(i, _). writeErr i = None) (enumerate (ms_writes st) (snd (finalize json (ms_translator st)))))\<rparr>
      else st)"

definition fresh_messages :: "string \<Rightarrow> string \<Rightarrow> messages_stream" where
  "fresh_messages uuid model =
     \<lparr>ms_state = fresh_stream, ms_translator = newAnthropicStreamTranslator uuid model, ms_out = [], ms_writes = 0\<rparr>"

text \<open>Without streaming the completed event is kept, and answered at once.\<close>

fun collect_messages :: "codex_event list \<Rightarrow> stream_state \<times> codex_event option" where
  "collect_messages [] = (fresh_stream, None)"
| "collect_messages (e # es) =
     (if ce_type e = ''response.completed'' then (fresh_stream\<lparr>ss_gotTerminal := True\<rparr>, Some e)
      else if ce_type e = ''response.failed'' then
        (fresh_stream\<lparr>ss_gotTerminal := True,
           ss_capacityErrMsg := (if isCapacityError (ce_error_message e) then ce_error_message e else [])\<rparr>, None)
      else collect_messages es)"

definition collected_answer ::
  "json_codec \<Rightarrow> output_item list option \<Rightarrow> stream_state \<times> codex_event option \<Rightarrow> anthropic_write list" where
  "collected_answer json outputs r =
     (case r of (ss, completed) \<Rightarrow>
        if ss_capacityErrMsg ss \<noteq> [] then []
        else case completed of
               Some data \<Rightarrow> [AWMessage (buildAnthropicResponseFromCompleted json outputs data)]
             | None \<Rightarrow> [AWError 502 ''api_error''])"

definition run_messages :: "json_codec \<Rightarrow> bool \<Rightarrow> string \<Rightarrow> upstream_stream \<Rightarrow> stream_state \<times> anthropic_write list" where
  "run_messages json isStream model u =
     (if isStream
      then let st = close_messages json (us_writeErr u)
                      (read_messages json (us_writeErr u) (fresh_messages (us_uuid u) model) (us_events u))
           in (ms_state st, map AWEvent (ms_out st))
      else let r = collect_messages (us_events u) in (fst r, collected_answer json (us_outputs u) r))"

subsection \<open>An attempt\<close>

definition persist_usage :: "Store \<Rightarrow> addr \<Rightarrow> response \<Rightarrow> time \<Rightarrow> Store" where
  "persist_usage s ad resp now =
     (case parseCodexUsageHeaders resp (st_heap s ad) now of (a, pct, ok) \<Rightarrow>
        if ok then PersistUsageSnapshot (set_account ad a s) ad pct now else set_account ad a s)"

definition messages_bad_status ::
  "Store \<Rightarrow> addr \<Rightarrow> string \<Rightarrow> response \<Rightarrow> int \<Rightarrow> int \<Rightarrow> failures \<Rightarrow> time \<Rightarrow> time \<Rightarrow> Store \<times> verdict" where
  "messages_bad_status s ad sessionID resp attempt max_retries fl start now =
     (let code = rs_StatusCode resp;
          body = rs_body resp;
          kind = classifyHTTPFailure code;
          s = (if kind \<noteq> [] then ReportRequestFailure s ad kind (latency_of start now) now else s);
          s = persist_usage s ad resp now;
          s = ReleaseAccount s ad;
          s = UnbindSessionAffinity s sessionID (DBID (st_heap s ad));
          s = applyCooldown s ad code body (Some resp) now
      in (s, if (isRetryableStatus code \<or> isDeactivatedWorkspace body) \<and> attempt < max_retries
             then TryAgain True (fl\<lparr>fl_lastStatusCode := code, fl_lastBody := ub_raw body\<rparr>)
             else Finish (UpstreamError code)))"

definition messages_stream_end ::
  "Store \<Rightarrow> addr \<Rightarrow> string \<Rightarrow> string \<Rightarrow> response \<Rightarrow> stream_state \<Rightarrow> string option \<Rightarrow> string option
     \<Rightarrow> int \<Rightarrow> int \<Rightarrow> failures \<Rightarrow> time \<Rightarrow> time \<Rightarrow> Store \<times> verdict" where
  "messages_stream_end s ad sessionID proxyURL resp st readErr ctxErr attempt max_retries fl start now =
     (if ss_capacityErrMsg st \<noteq> [] \<and> \<not> ss_wroteAnyBody st
      then (ReleaseAccount s ad, TryAgain True (fl\<lparr>fl_lastErr := True\<rparr>))
      else
        let outcome = classifyStreamOutcome ctxErr readErr (ss_writeErr st) (ss_gotTerminal st)
        in if shouldTransparentRetryStream outcome attempt max_retries (ss_wroteAnyBody st) ctxErr (ss_writeErr st)
           then
             let s = persist_usage s ad resp now;
                 s = ReportRequestFailure s ad (so_failureKind outcome) (latency_of start now) now
             in (ReleaseAccount s ad, TryAgain False (fl\<lparr>fl_lastErr := True\<rparr>))
           else
             let s = bindSessionAffinity s sessionID ad proxyURL now;
                 s = persist_usage s ad resp now;
                 s = (if so_penalize outcome
                      then ReportRequestFailure s ad (so_failureKind outcome) (latency_of start now) now
                      else if so_logStatusCode outcome = 200
                      then ReportRequestSuccess s ad (latency_of start now) now
                      else s)
             in (ReleaseAccount s ad, Finish (Served (so_logStatusCode outcome))))"

text \<open>\<open>canFlush\<close>: the writer of the client supports streaming.\<close>

definition messages_attempt ::
  "json_codec \<Rightarrow> bool \<Rightarrow> bool \<Rightarrow> string \<Rightarrow> string \<Rightarrow> int \<Rightarrow> (int \<Rightarrow> addr \<Rightarrow> string \<Rightarrow> upstream_answer)
     \<Rightarrow> anthropic_write attempt_end" where
  "messages_attempt json isStream canFlush sessionID model max_retries answers e s ad proxyURL attempt fl =
     (case answers attempt ad proxyURL of
        Unreached msg retryable \<Rightarrow>
          final_reply messages_answer (after_no_response s ad sessionID msg retryable fl (ae_start e) (ae_end e))
      | Refused resp \<Rightarrow>
          final_reply messages_answer
            (messages_bad_status s ad sessionID resp attempt max_retries fl (ae_start e) (ae_end e))
      | Answered u \<Rightarrow>
          if isStream \<and> \<not> canFlush then (ReleaseAccount s ad, Finish StructuredError, [AWError 500 ''api_error''])
          else
            let (st, out) = run_messages json isStream model u;
                (s, v) = messages_stream_end s ad sessionID proxyURL (us_response u) st (us_readErr u) (us_ctxErr u)
                           attempt max_retries fl (ae_start e) (ae_end e)
            in (s, v, out))"

text \<open>
  \<open>answers\<close> depends on the body that is sent, and \<open>session\<close> reads the session from the headers and the body. No plan is
  preferred and none is excluded.
\<close>

definition nextAccountForSession ::
  "(nat \<Rightarrow> bool) \<Rightarrow> Store \<Rightarrow> string \<Rightarrow> int set \<Rightarrow> time \<Rightarrow> (Store \<times> addr option \<times> string) option" where
  "nextAccountForSession coin s sessionID exclude now = NextForSession coin s sessionID exclude now"

definition Messages ::
  "json_codec \<Rightarrow> string list \<Rightarrow> (string \<Rightarrow> string option) option \<Rightarrow> bool \<Rightarrow> (fields \<Rightarrow> string) \<Rightarrow> (int \<Rightarrow> attempt_env)
     \<Rightarrow> (fields \<Rightarrow> int \<Rightarrow> addr \<Rightarrow> string \<Rightarrow> upstream_answer) \<Rightarrow> messages_request \<Rightarrow> Store
     \<Rightarrow> (Store \<times> (addr \<times> bool) list \<times> anthropic_write list) option" where
  "Messages json SupportedModels mapping canFlush session env answers q s =
     (case messages_refusal q of
        Some w \<Rightarrow> Some (s, [], [w])
      | None \<Rightarrow>
          case mq_parsed q of
            None \<Rightarrow> Some (s, [], [AWError 400 ''invalid_request_error''])
          | Some req \<Rightarrow>
              let (codexBody, originalModel) = TranslateAnthropicToCodex json SupportedModels mapping req;
                  sessionID = session codexBody
              in endpoint_loop env
                   (messages_attempt json (mq_isStream q) canFlush sessionID originalModel (maxRetries s) (answers codexBody))
                   messages_answer sessionID [] [0..maxRetries s] no_failures {} s)"

end
