(* ===== verification/Completions.thy ===== *)
theory Completions
  imports Endpoints
begin

text \<open>
  \<open>ChatCompletions\<close> and \<open>ResponsesCompact\<close> of \<open>proxy/handler.go\<close>, from the choice of accounts on: their requests pass the
  checks of \<open>ApiValidation\<close> and are translated in \<open>RequestBody\<close>. The beats that keep the connection alive are in \<open>Keepalive\<close>.
\<close>

section \<open>Chat completions\<close>

datatype chat_write =
  CWChunk openai_chunk
| CWDone
| CWDocument "string option \<times> ToolCallResult list \<times> string"
| CWError reply

record chat_stream =
  ch_state :: stream_state
  ch_translator :: StreamTranslator
  ch_out :: "chat_write list"
  ch_writes :: nat

text \<open>One write to the client, unless a write before has failed.\<close>

definition write_chat :: "(nat \<Rightarrow> string option) \<Rightarrow> chat_write \<Rightarrow> chat_stream \<Rightarrow> chat_stream" where
  "write_chat writeErr w st =
     (if ss_writeErr (ch_state st) \<noteq> None then st
      else case writeErr (ch_writes st) of
             Some err \<Rightarrow> st\<lparr>ch_state := (ch_state st)\<lparr>ss_writeErr := Some err\<rparr>\<rparr>
           | None \<Rightarrow> st\<lparr>ch_state := (ch_state st)\<lparr>ss_wroteAnyBody := True\<rparr>, ch_out := ch_out st @ [w],
                       ch_writes := ch_writes st + 1\<rparr>)"

text \<open>A client that is gone is not written to any more; the upstream is read to its end for the usage.\<close>

definition chat_event ::
  "(string \<Rightarrow> string) \<Rightarrow> (nat \<Rightarrow> string option) \<Rightarrow> chat_stream \<Rightarrow> codex_event \<Rightarrow> chat_stream \<times> bool" where
  "chat_event img writeErr st e =
     (let ss = ch_state st
      in if ce_type e = ''response.failed'' \<and> \<not> ss_wroteAnyBody ss \<and> isCapacityError (ce_error_message e)
         then (st\<lparr>ch_state := ss\<lparr>ss_capacityErrMsg := ce_error_message e, ss_gotTerminal := True\<rparr>\<rparr>, False)
         else
           let (t, chunk, over) = Translate img (ch_translator st) e;
               ss = (if terminal e then ss\<lparr>ss_gotTerminal := True\<rparr> else ss);
               st = st\<lparr>ch_state := ss, ch_translator := t\<rparr>;
               st = (case chunk of None \<Rightarrow> st | Some c \<Rightarrow> write_chat writeErr (CWChunk c) st);
               st = (if over then write_chat writeErr CWDone st else st)
           in (st, \<not> (over \<and> ss_writeErr (ch_state st) = None) \<and> \<not> ss_gotTerminal (ch_state st)))"

fun read_chat :: "(string \<Rightarrow> string) \<Rightarrow> (nat \<Rightarrow> string option) \<Rightarrow> chat_stream \<Rightarrow> codex_event list \<Rightarrow> chat_stream" where
  "read_chat img writeErr st [] = st"
| "read_chat img writeErr st (e # es) =
     (case chat_event img writeErr st e of (st, goes_on) \<Rightarrow> if goes_on then read_chat img writeErr st es else st)"

definition fresh_chat :: chat_stream where
  "fresh_chat = \<lparr>ch_state = fresh_stream, ch_translator = NewStreamTranslator, ch_out = [], ch_writes = 0\<rparr>"

definition ExtractToolCallFromDoneEvent :: "(codex_event \<Rightarrow> string) \<Rightarrow> codex_event \<Rightarrow> ToolCallResult option" where
  "ExtractToolCallFromDoneEvent arguments e =
     (if ce_item_type e \<noteq> ''function_call'' then None
      else Some \<lparr>tc_ID = ce_call_id e, tc_Name = ce_name e, tc_Arguments = arguments e\<rparr>)"

text \<open>Without streaming, text and tool calls are collected.\<close>

record collected =
  co_content :: string
  co_toolCalls :: "ToolCallResult list"
  co_state :: stream_state

fun collect_chat ::
  "(string \<Rightarrow> string) \<Rightarrow> (codex_event \<Rightarrow> string) \<Rightarrow> output_item list option \<Rightarrow> collected \<Rightarrow> codex_event list \<Rightarrow> collected" where
  "collect_chat img arguments outputs co [] = co"
| "collect_chat img arguments outputs co (e # es) =
     (let ty = ce_type e
      in if ty = ''response.output_text.delta''
         then collect_chat img arguments outputs (co\<lparr>co_content := co_content co @ ce_delta e\<rparr>) es
         else if ty = ''response.output_item.done'' then
           collect_chat img arguments outputs
             (if ce_item_type e = ''image_generation_call''
              then if ce_item_result e \<noteq> [] then co\<lparr>co_content := co_content co @ img (ce_item_result e)\<rparr> else co
              else case ExtractToolCallFromDoneEvent arguments e of
                     None \<Rightarrow> co | Some tc \<Rightarrow> co\<lparr>co_toolCalls := co_toolCalls co @ [tc]\<rparr>) es
         else if ty = ''response.completed'' then
           co\<lparr>co_toolCalls := (if co_toolCalls co = [] then ExtractToolCallsFromOutput outputs else co_toolCalls co),
              co_state := (co_state co)\<lparr>ss_gotTerminal := True\<rparr>\<rparr>
         else if ty = ''response.failed'' then
           co\<lparr>co_state := (co_state co)\<lparr>ss_gotTerminal := True,
                ss_capacityErrMsg := (if isCapacityError (ce_error_message e) then ce_error_message e else [])\<rparr>\<rparr>
         else collect_chat img arguments outputs co es)"

definition fresh_collected :: collected where
  "fresh_collected = \<lparr>co_content = [], co_toolCalls = [], co_state = fresh_stream\<rparr>"

text \<open>
  The state of the stream, what was written of it, and the document that a client without streaming gets if the attempt is
  the last.
\<close>

definition run_chat :: "(string \<Rightarrow> string) \<Rightarrow> bool \<Rightarrow> upstream_stream \<Rightarrow> stream_state \<times> chat_write list \<times> chat_write list" where
  "run_chat img isStream u =
     (if isStream
      then let st = read_chat img (us_writeErr u) fresh_chat (us_events u) in (ch_state st, ch_out st, [])
      else let co = collect_chat img (us_itemArguments u) (us_outputs u) fresh_collected (us_events u)
           in (co_state co, [], [CWDocument (BuildCompactResponse (co_content co) (co_toolCalls co))]))"

fun chat_answer :: "reply \<Rightarrow> chat_write list" where
  "chat_answer NoAnswer = []"
| "chat_answer (Served _) = []"
| "chat_answer r = [CWError r]"

definition chat_attempt ::
  "(string \<Rightarrow> string) \<Rightarrow> bool \<Rightarrow> string \<Rightarrow> int \<Rightarrow> (int \<Rightarrow> addr \<Rightarrow> string \<Rightarrow> upstream_answer) \<Rightarrow> chat_write attempt_end" where
  "chat_attempt img isStream sessionID max_retries answers e s ad proxyURL attempt fl =
     (case answers attempt ad proxyURL of
        Unreached msg retryable \<Rightarrow>
          final_reply chat_answer (after_no_response s ad sessionID msg retryable fl (ae_start e) (ae_end e))
      | Refused resp \<Rightarrow>
          final_reply chat_answer (after_bad_status s ad sessionID resp attempt max_retries fl (ae_start e) (ae_end e))
      | Answered u \<Rightarrow>
          let (st, out, document) = run_chat img isStream u;
              (s, v) = after_stream isStream s ad sessionID proxyURL (us_response u) st (us_readErr u) (us_ctxErr u)
                         attempt max_retries fl (ae_start e) (ae_end e)
          in (s, v, out @ (case v of Finish _ \<Rightarrow> document | TryAgain _ _ \<Rightarrow> [])))"

definition ChatCompletions ::
  "(string \<Rightarrow> string) \<Rightarrow> bool \<Rightarrow> string \<Rightarrow> string \<Rightarrow> bool \<Rightarrow> bool \<Rightarrow> (int \<Rightarrow> attempt_env)
     \<Rightarrow> (int \<Rightarrow> addr \<Rightarrow> string \<Rightarrow> upstream_answer) \<Rightarrow> Store \<Rightarrow> (Store \<times> (addr \<times> bool) list \<times> chat_write list) option" where
  "ChatCompletions img isStream sessionID model bodyPaid virtualInjects env answers s =
     (let (exclude, preferPlan) = planDispatch s model bodyPaid virtualInjects {}
      in endpoint_loop env (chat_attempt img isStream sessionID (maxRetries s) answers) chat_answer sessionID preferPlan
           [0..maxRetries s] no_failures exclude s)"

section \<open>Compaction\<close>

text \<open>The body is passed on as far as it could be read. An answered attempt is neither reported nor bound to its session.\<close>

datatype compact_write = KWBody string | KWError reply

fun compact_answer :: "reply \<Rightarrow> compact_write list" where
  "compact_answer NoAnswer = []"
| "compact_answer (Served _) = []"
| "compact_answer r = [KWError r]"

datatype compact_exchange =
  CompactUnreached string bool
| CompactRefused response
| CompactAnswered response

definition compact_attempt ::
  "(string \<Rightarrow> string) \<Rightarrow> string \<Rightarrow> int \<Rightarrow> (int \<Rightarrow> addr \<Rightarrow> string \<Rightarrow> compact_exchange) \<Rightarrow> compact_write attempt_end" where
  "compact_attempt rewrite sessionID max_retries answers e s ad proxyURL attempt fl =
     (case answers attempt ad proxyURL of
        CompactUnreached msg retryable \<Rightarrow>
          final_reply compact_answer (after_no_response s ad sessionID msg retryable fl (ae_start e) (ae_end e))
      | CompactRefused resp \<Rightarrow>
          final_reply compact_answer (after_bad_status s ad sessionID resp attempt max_retries fl (ae_start e) (ae_end e))
      | CompactAnswered resp \<Rightarrow>
          (ReleaseAccount (fst (SyncCodexUsageState s ad (Some resp) (ae_end e))) ad, Finish (Served 200),
           [KWBody (rewrite (ub_raw (rs_body resp)))]))"

definition ResponsesCompact ::
  "(string \<Rightarrow> string) \<Rightarrow> string \<Rightarrow> string \<Rightarrow> bool \<Rightarrow> bool \<Rightarrow> (int \<Rightarrow> attempt_env)
     \<Rightarrow> (int \<Rightarrow> addr \<Rightarrow> string \<Rightarrow> compact_exchange) \<Rightarrow> Store \<Rightarrow> (Store \<times> (addr \<times> bool) list \<times> compact_write list) option" where
  "ResponsesCompact rewrite sessionID model bodyPaid virtualInjects env answers s =
     (let (exclude, preferPlan) = planDispatch s model bodyPaid virtualInjects {}
      in endpoint_loop env (compact_attempt rewrite sessionID (maxRetries s) answers) compact_answer sessionID preferPlan
           [0..maxRetries s] no_failures exclude s)"

end
