(* ===== verification/EndpointsLaws.thy ===== *)
theory EndpointsLaws
  imports Completions DispatchLaws TranslationLaws
begin

text \<open>
  What all endpoints have in common, as locales on the end of an attempt: \<open>endpoint\<close> (it gives its slot back) and
  \<open>quiet_endpoint\<close> (it writes nothing if another attempt follows). Chat completions and compaction are quiet; \<open>Messages\<close>
  is so only while no stream of the upstream breaks off.
\<close>

section \<open>Endpoints\<close>

locale endpoint =
  fixes finish :: "'o attempt_end"
  assumes gives_back: "ad \<in> set (accounts s) \<Longrightarrow> finish e s ad p i fl = (s', v, out) \<Longrightarrow> moves ad (- 1) s s'"
begin

lemma attempt_moves:
  assumes env: "calm_env e" and inv: "store_inv s" and p: "picks ex s s1 (Some ad)"
    and f: "finish e (loop_store e s1 sticky) ad proxy i fl = (s', v, out)"
  shows "calm s s'" "DBID (st_heap s ad) \<notin> ex" "ad \<in> set (accounts s)"
proof -
  let ?s2 = "if sticky = [] then fst (NextProxy s1) else s1"
  have m: "moves ad 1 s s1" "DBID (st_heap s ad) \<notin> ex" "ad \<in> set (accounts s1)"
    using p by (auto simp: picks_def)
  have 2: "calm s1 ?s2" "accounts ?s2 = accounts s1"
    using calm_NextProxy by auto (auto simp: NextProxy_def Let_def)
  have d: "calm ?s2 (ae_during e ?s2)" "accounts (ae_during e ?s2) = accounts ?s2"
    using env by (auto simp: calm_env_def)
  have "moves ad (- 1) (ae_during e ?s2) s'"
    by (rule gives_back [OF _ f [unfolded loop_store_def]]) (use m 2 d in auto)
  then have "moves ad (1 + - 1) s s'"
    using moves_trans then_calm [OF then_calm [OF m(1) 2(1)] d(1)] by blast
  then show "calm s s'" using calm_moves [of s s' ad] by simp
  show "DBID (st_heap s ad) \<notin> ex" "ad \<in> set (accounts s)"
    using m movesD(1) [OF m(1)] by auto
qed

lemma step:
  assumes "pick_account (env i) s key ex plan = Some (s1, Some ad, sticky)"
    and "finish (env i) (loop_store (env i) s1 sticky) ad (loop_proxy s1 sticky) i fl = (s3, v, out)"
  shows "endpoint_loop env finish answer key plan (i # attempts) fl ex s =
    (case v of Finish _ \<Rightarrow> Some (s3, [(ad, True)], out)
     | TryAgain excluded fl \<Rightarrow> map_option (\<lambda>(s, tried, rest). (s, (ad, excluded) # tried, out @ rest))
         (endpoint_loop env finish answer key plan attempts fl
           (if excluded then insert (DBID (st_heap s3 ad)) ex else ex) s3))"
  using assms by (simp add: Let_def loop_store_def loop_proxy_def split: prod.split) auto

lemma loop_spec:
  assumes "\<And>i. calm_env (env i)"
  shows "store_inv s \<Longrightarrow>
    \<exists>s' tried out. endpoint_loop env finish answer key plan attempts fl ex s = Some (s', tried, out) \<and>
      calm s s' \<and> store_inv s' \<and> length tried \<le> length attempts \<and> no_reuse (st_heap s) tried \<and>
      (\<forall>(ad, _) \<in> set tried. DBID (st_heap s ad) \<notin> ex \<and> ad \<in> set (accounts s))"
proof (induction attempts arbitrary: s fl ex)
  case Nil
  then show ?case by (simp add: no_reuse_def)
next
  case (Cons i attempts)
  obtain s1 r1 sticky where pk: "pick_account (env i) s key ex plan = Some (s1, r1, sticky)"
    and p: "picks ex s s1 r1" by (rule pick_account_picks [OF assms Cons.prems])
  show ?case
  proof (cases r1)
    case None
    with p have "calm s s1" "store_inv s1" by (auto simp: picks_def)
    with pk None show ?thesis by (simp add: no_reuse_def)
  next
    case (Some ad)
    obtain s3 v out where f: "finish (env i) (loop_store (env i) s1 sticky) ad (loop_proxy s1 sticky) i fl = (s3, v, out)"
      by (metis prod_cases3)
    note st = step [where env = env and i = i, OF pk [unfolded Some] f]
    note sp = attempt_moves [OF assms Cons.prems p [unfolded Some] f]
    have ids: "DBID (st_heap s3 x) = DBID (st_heap s x)" for x using movesD(2) [OF sp(1)] .
    have i3: "store_inv s3" using movesD(4) [OF sp(1) Cons.prems] .
    show ?thesis
    proof (cases v)
      case (Finish r)
      with st sp i3 show ?thesis by (simp add: no_reuse_def)
    next
      case (TryAgain excluded fl')
      let ?ex = "if excluded then insert (DBID (st_heap s3 ad)) ex else ex"
      from Cons.IH [OF i3, of fl' ?ex] obtain s' tried rest where
        l: "endpoint_loop env finish answer key plan attempts fl' ?ex s3 = Some (s', tried, rest)"
        and c: "calm s3 s'" "store_inv s'" "length tried \<le> length attempts" "no_reuse (st_heap s3) tried"
        and t: "\<forall>(x, _) \<in> set tried. DBID (st_heap s3 x) \<notin> ?ex \<and> x \<in> set (accounts s3)" by blast
      have "no_reuse (st_heap s) ((ad, excluded) # tried)"
        using c(4) t unfolding no_reuse_def ids by (auto split: if_splits)
      moreover have "\<forall>(x, _) \<in> set ((ad, excluded) # tried). DBID (st_heap s x) \<notin> ex \<and> x \<in> set (accounts s)"
        using t sp(2,3) movesD(1) [OF sp(1)] unfolding ids by (auto split: if_splits)
      moreover have "calm s s'" using calm_trans [OF sp(1) c(1)] .
      ultimately show ?thesis using st TryAgain l c(2,3) by simp
    qed
  qed
qed

lemma slots:
  assumes "store_inv s" "\<And>i. calm_env (env i)" "0 \<le> m"
    and "endpoint_loop env finish answer key plan [0..m] fl ex s = r"
  shows "\<exists>s' tried out. r = Some (s', tried, out) \<and> (\<forall>ad. ActiveRequests (st_heap s' ad) = ActiveRequests (st_heap s ad)) \<and>
    store_inv s' \<and> int (length tried) \<le> m + 1 \<and> (\<forall>ad \<in> set (map fst tried). DBID (st_heap s ad) \<notin> ex)"
  using loop_spec [where env = env, OF assms(2,1), where key = key and plan = plan and attempts = "[0..m]" and ex = ex
      and fl = fl and answer = answer] assms(3,4) movesD(3)
  by fastforce

end

locale quiet_endpoint = endpoint +
  assumes quiet: "finish e s ad p i fl = (s', TryAgain x fl', out) \<Longrightarrow> out = []"
begin

text \<open>The client gets what one attempt wrote, or the answer of the loop, which is one if every attempt before blames somebody.\<close>

lemma answered:
  assumes blames: "\<And>e s ad p i fl s' x fl' out. finish e s ad p i fl = (s', TryAgain x fl', out) \<Longrightarrow> B \<Longrightarrow> failed_before fl'"
  shows "endpoint_loop env finish answer key plan attempts fl ex s = Some (s', tried, out) \<Longrightarrow>
    attempts \<noteq> [] \<or> failed_before fl \<Longrightarrow>
   (\<exists>rep. out = answer rep \<and> (B \<longrightarrow> rep \<noteq> NoAnswer \<and> (\<forall>c. rep \<noteq> Served c))) \<or>
   (\<exists>i s ad p fl s' rep. i \<in> set attempts \<and> finish (env i) s ad p i fl = (s', Finish rep, out))"
proof (induction attempts arbitrary: s fl ex tried)
  case Nil
  then have "out = answer (gave_up_reply fl)" "failed_before fl" by simp_all
  moreover have "gave_up_reply fl \<noteq> NoAnswer \<and> (\<forall>c. gave_up_reply fl \<noteq> Served c)"
    using Nil(2) by (auto simp: gave_up_reply_def failed_before_def)
  ultimately show ?case by blast
next
  case (Cons i attempts)
  obtain s1 r1 sticky where pk: "pick_account (env i) s key ex plan = Some (s1, r1, sticky)"
    using Cons.prems by (cases "pick_account (env i) s key ex plan") (simp_all, metis prod_cases3)
  show ?case
  proof (cases r1)
    case None
    with pk Cons.prems have "out = answer (no_account_reply fl)" by simp
    moreover have "no_account_reply fl \<noteq> NoAnswer \<and> (\<forall>c. no_account_reply fl \<noteq> Served c)" by (simp add: no_account_reply_def)
    ultimately show ?thesis by blast
  next
    case (Some ad)
    obtain s3 v o1 where f: "finish (env i) (loop_store (env i) s1 sticky) ad (loop_proxy s1 sticky) i fl = (s3, v, o1)"
      by (metis prod_cases3)
    note st = step [where env = env and i = i, OF pk [unfolded Some] f]
    show ?thesis
    proof (cases v)
      case (Finish r)
      with st [of answer attempts] Cons.prems have "out = o1" by (simp del: endpoint_loop.simps)
      with f Finish show ?thesis by (meson list.set_intros(1))
    next
      case (TryAgain excluded fl')
      with f have o: "o1 = []" and b: "B \<Longrightarrow> failed_before fl'" by (simp_all add: quiet) (blast intro: blames)
      from o st TryAgain Cons.prems obtain ex' tried' where
        l: "endpoint_loop env finish answer key plan attempts fl' ex' s3 = Some (s', tried', out)" by auto
      show ?thesis
      proof (cases "attempts \<noteq> [] \<or> failed_before fl'")
        case True
        from Cons.IH [OF l this] show ?thesis by (meson list.set_intros(2))
      next
        case False
        with b have "\<not> B" by blast
        moreover from False l have "out = answer (gave_up_reply fl')" by simp
        ultimately show ?thesis by blast
      qed
    qed
  qed
qed

lemma one_voice:
  "endpoint_loop env finish answer key plan attempts fl ex s = Some (s', tried, out) \<Longrightarrow> attempts \<noteq> [] \<Longrightarrow>
   (\<exists>rep. out = answer rep) \<or>
   (\<exists>i s ad p fl s' rep. i \<in> set attempts \<and> finish (env i) s ad p i fl = (s', Finish rep, out))"
  using answered [where B = False, of env answer key plan attempts fl ex s s' tried out] by simp

end

section \<open>The endpoints of the code\<close>

lemma final_reply_moves:
  assumes "final_reply answer r = (s', v, out)" "\<And>s' v. r = (s', v) \<Longrightarrow> moves ad d s s'"
  shows "moves ad d s s'"
  using assms by (cases r) (simp add: final_reply_def)

lemma final_reply_quiet: "final_reply answer r = (s', TryAgain x fl', out) \<Longrightarrow> out = []"
  by (auto simp: final_reply_def split: prod.splits)

lemma calm_persist [intro]: "ad \<in> set (accounts s) \<Longrightarrow> calm s (persist_usage s ad resp n)"
proof -
  assume "ad \<in> set (accounts s)"
  define a where "a = fst (parseCodexUsageHeaders resp (st_heap s ad) n)"
  have 1: "calm s (set_account ad a s)" unfolding a_def by (rule calm_set_account) simp_all
  have "persist_usage s ad resp n = set_account ad a s \<or> (\<exists>pct. persist_usage s ad resp n = PersistUsageSnapshot (set_account ad a s) ad pct n)"
    by (auto simp: persist_usage_def a_def split: prod.splits)
  moreover have "calm (set_account ad a s) (PersistUsageSnapshot (set_account ad a s) ad pct n)" for pct
    using \<open>ad \<in> set (accounts s)\<close> by (intro calm_reports) simp
  ultimately show ?thesis using 1 calm_trans by metis
qed

lemma persist_accounts [simp]: "accounts (persist_usage s ad resp n) = accounts s"
  by (simp add: persist_usage_def split: prod.split)

lemma messages_bad_status_spec:
  assumes "ad \<in> set (accounts s)" "messages_bad_status s ad key resp i m fl t n = (s', v)"
  shows "moves ad (- 1) s s'"
proof -
  define s1 where "s1 = (if classifyHTTPFailure (rs_StatusCode resp) \<noteq> []
    then ReportRequestFailure s ad (classifyHTTPFailure (rs_StatusCode resp)) (latency_of t n) n else s)"
  define s2 where "s2 = persist_usage s1 ad resp n"
  define s3 where "s3 = UnbindSessionAffinity (ReleaseAccount s2 ad) key (DBID (st_heap (ReleaseAccount s2 ad) ad))"
  have acc: "accounts s1 = accounts s" "accounts s2 = accounts s" "accounts s3 = accounts s"
    by (simp_all add: s1_def s2_def s3_def)
  have "s' = applyCooldown s3 ad (rs_StatusCode resp) (rs_body resp) (Some resp) n"
    using assms(2) unfolding messages_bad_status_def Let_def s1_def [symmetric] s2_def [symmetric] s3_def by simp
  then have "calm s3 s'" using assms(1) acc by auto
  moreover have "calm s s1" using assms(1) by (auto simp: s1_def)
  moreover have "calm s1 s2" using assms(1) acc by (auto simp: s2_def)
  moreover have "moves ad (- 1) s2 s3" unfolding s3_def by (rule then_calm [OF moves_Release]) blast
  ultimately show ?thesis using calm_then then_calm by metis
qed

lemma messages_stream_end_spec:
  assumes "ad \<in> set (accounts s)" "messages_stream_end s ad key p resp st rerr cerr i m fl t n = (s', v)"
  shows "moves ad (- 1) s s'"
proof -
  let ?o = "classifyStreamOutcome cerr rerr (ss_writeErr st) (ss_gotTerminal st)"
  let ?fail = "\<lambda>s. ReportRequestFailure s ad (so_failureKind ?o) (latency_of t n) n"
  let ?use = "\<lambda>s. persist_usage s ad resp n"
  let ?bound = "?use (bindSessionAffinity s key ad p n)"
  have mem: "ad \<in> set (accounts (?use s))" "ad \<in> set (accounts ?bound)"
    "ad \<in> set (accounts (bindSessionAffinity s key ad p n))" using assms(1) by simp_all
  have c: "calm s (?fail (?use s))" "calm s ?bound"
    using calm_trans [OF calm_persist calm_reports(2)] calm_trans [OF calm_bindings(2) calm_persist] assms(1) mem
    by blast+
  then have "calm s (?fail ?bound)" "calm s (ReportRequestSuccess ?bound ad (latency_of t n) n)"
    using calm_reports(1,2) [OF mem(2)] calm_trans by blast+
  moreover have "s' \<in> (\<lambda>s. ReleaseAccount s ad) ` {s, ?fail (?use s), ?bound, ?fail ?bound,
      ReportRequestSuccess ?bound ad (latency_of t n) n}"
    using assms(2) by (auto simp: messages_stream_end_def Let_def split: if_splits)
  ultimately show ?thesis using c calm_then moves_Release calm_refl by blast
qed

interpretation messages: endpoint "messages_attempt json isStream canFlush key model m answers"
  for json isStream canFlush key model m answers
proof
  fix ad s e p i fl s' v out
  assume a: "ad \<in> set (accounts s)"
    and f: "messages_attempt json isStream canFlush key model m answers e s ad p i fl = (s', v, out)"
  show "moves ad (- 1) s s'"
  proof (cases "answers i ad p")
    case (Unreached msg r)
    with f show ?thesis
      by (auto simp: messages_attempt_def intro: final_reply_moves after_no_response_spec [OF a])
  next
    case (Refused resp)
    with f show ?thesis
      by (auto simp: messages_attempt_def intro: final_reply_moves messages_bad_status_spec [OF a])
  next
    case (Answered u)
    with f show ?thesis
      by (auto simp: messages_attempt_def moves_Release split: if_splits prod.splits
          intro: messages_stream_end_spec [OF a])
  qed
qed

text \<open>What is written of a stream is recorded as such.\<close>

lemma write_chat_silent:
  "(\<not> ss_wroteAnyBody (ch_state st) \<longrightarrow> ch_out st = []) \<Longrightarrow>
   \<not> ss_wroteAnyBody (ch_state (write_chat we w st)) \<longrightarrow> ch_out (write_chat we w st) = []"
  by (simp add: write_chat_def split: option.split)

lemma chat_event_silent:
  assumes "\<not> ss_wroteAnyBody (ch_state st) \<longrightarrow> ch_out st = []"
  shows "\<not> ss_wroteAnyBody (ch_state (fst (chat_event img we st e))) \<longrightarrow> ch_out (fst (chat_event img we st e)) = []"
  using assms
  by (simp add: chat_event_def write_chat_silent Let_def case_prod_beta split: option.split)

lemma read_chat_silent_from:
  "\<not> ss_wroteAnyBody (ch_state st) \<longrightarrow> ch_out st = [] \<Longrightarrow>
   \<not> ss_wroteAnyBody (ch_state (read_chat img we st es)) \<longrightarrow> ch_out (read_chat img we st es) = []"
proof (induction es arbitrary: st)
  case (Cons e es)
  note ev = chat_event_silent [OF Cons.prems, of img we e]
  from ev Cons.IH [OF ev] show ?case by (simp add: case_prod_beta)
qed simp

lemma read_chat_silent: "\<not> ss_wroteAnyBody (ch_state (read_chat img we fresh_chat es)) \<Longrightarrow> ch_out (read_chat img we fresh_chat es) = []"
  using read_chat_silent_from [of fresh_chat img we es] by (simp add: fresh_chat_def)

interpretation chat: quiet_endpoint "chat_attempt img isStream key m answers" for img isStream key m answers
proof
  fix ad s e p i fl s' v out
  assume a: "ad \<in> set (accounts s)" and f: "chat_attempt img isStream key m answers e s ad p i fl = (s', v, out)"
  show "moves ad (- 1) s s'"
  proof (cases "answers i ad p")
    case (Unreached msg r)
    with f show ?thesis by (auto simp: chat_attempt_def intro: final_reply_moves after_no_response_spec [OF a])
  next
    case (Refused resp)
    with f show ?thesis by (auto simp: chat_attempt_def intro: final_reply_moves after_bad_status_spec [OF a])
  next
    case (Answered u)
    with f show ?thesis
      by (auto simp: chat_attempt_def split: prod.splits intro: after_stream_spec [OF a])
  qed
next
  fix e s ad p i fl s' x fl' out
  assume f: "chat_attempt img isStream key m answers e s ad p i fl = (s', TryAgain x fl', out)"
  show "out = []"
  proof (cases "answers i ad p")
    case (Answered u)
    with f show ?thesis
      by (auto simp: chat_attempt_def run_chat_def after_stream_def shouldTransparentRetryStream_def read_chat_silent
          Let_def split: prod.splits if_splits)
  qed (use f in \<open>auto simp: chat_attempt_def dest: final_reply_quiet\<close>)
qed

interpretation compact: quiet_endpoint "compact_attempt rewrite key m answers" for rewrite key m answers
proof
  fix ad s e p i fl s' v out
  assume a: "ad \<in> set (accounts s)" and f: "compact_attempt rewrite key m answers e s ad p i fl = (s', v, out)"
  show "moves ad (- 1) s s'"
  proof (cases "answers i ad p")
    case (CompactUnreached msg r)
    with f show ?thesis by (auto simp: compact_attempt_def intro: final_reply_moves after_no_response_spec [OF a])
  next
    case (CompactRefused resp)
    with f show ?thesis by (auto simp: compact_attempt_def intro: final_reply_moves after_bad_status_spec [OF a])
  next
    case (CompactAnswered resp)
    with f show ?thesis by (auto simp: compact_attempt_def intro: calm_then [OF calm_Sync moves_Release] a)
  qed
next
  fix e s ad p i fl s' x fl' out
  assume "compact_attempt rewrite key m answers e s ad p i fl = (s', TryAgain x fl', out)"
  then show "out = []"
    by (cases "answers i ad p") (auto simp: compact_attempt_def dest: final_reply_quiet)
qed

end
