(* ===== verification/MessagesLaws.thy ===== *)
theory MessagesLaws
  imports EndpointsLaws
begin

text \<open>
  What the client of \<open>Messages\<close> gets: the stream of an attempt is that of \<open>anthropic_relay\<close>; with an upstream that ends its
  streams one answer, and otherwise sometimes two.
\<close>

section \<open>The stream of an attempt\<close>

text \<open>A client that takes every write.\<close>

definition patient :: "(nat \<Rightarrow> string option) \<Rightarrow> bool" where
  "patient writeErr \<longleftrightarrow> (\<forall>n. writeErr n = None)"

lemma write_events_patient:
  assumes "patient we"
  shows "write_events we evs st =
    st\<lparr>ms_state := (ms_state st)\<lparr>ss_wroteAnyBody := ss_wroteAnyBody (ms_state st) \<or> evs \<noteq> []\<rparr>,
       ms_out := ms_out st @ evs, ms_writes := ms_writes st + length evs\<rparr>"
  using assms by (induction evs arbitrary: st) (simp_all add: patient_def)

lemma enumerate_all: "(\<And>i. P i) \<Longrightarrow> map snd (filter (\<lambda>(i, _). P i) (enumerate n xs)) = xs"
  by (simp add: case_prod_beta)

lemma close_messages_patient:
  assumes "patient we"
  shows "ms_out (close_messages json we st) =
    ms_out st @ (if ss_writeErr (ms_state st) = None \<and> \<not> ss_gotTerminal (ms_state st) then snd (finalize json (ms_translator st)) else [])"
  using assms by (simp add: close_messages_def patient_def enumerate_all)

lemma close_messages_state [simp]: "ms_state (close_messages json we st) = ms_state st"
  by (simp add: close_messages_def)

text \<open>What an event that is not swallowed does for such a client.\<close>

lemma messages_event_patient:
  assumes "patient we" "\<not> (ce_type e = ''response.failed'' \<and> \<not> ss_wroteAnyBody (ms_state st) \<and> isCapacityError (ce_error_message e))"
    and "ss_writeErr (ms_state st) = None"
  shows "messages_event json we st e =
    (let r = translateEvent json e (ms_translator st)
     in (st\<lparr>ms_state := (ms_state st)\<lparr>ss_gotTerminal := ss_gotTerminal (ms_state st) \<or> terminal e,
              ss_wroteAnyBody := ss_wroteAnyBody (ms_state st) \<or> snd r \<noteq> []\<rparr>,
            ms_translator := fst r, ms_out := ms_out st @ snd r, ms_writes := ms_writes st + length (snd r)\<rparr>, \<not> terminal e))"
  unfolding messages_event_def Let_def if_not_P [OF assms(2)] case_prod_beta write_events_patient [OF assms(1)]
  using assms(3) by (cases "terminal e"; cases "ms_state st") simp_all

text \<open>The loop of the handler and the relay agree.\<close>

lemma read_messages_relay:
  assumes "patient we"
  shows "ss_writeErr (ms_state st) = None \<Longrightarrow> \<not> ss_gotTerminal (ms_state st) \<Longrightarrow> ss_capacityErrMsg (ms_state st) = [] \<Longrightarrow>
    (let r = read_messages json we st es; rel = anthropic_relay json (ms_translator st) (ss_wroteAnyBody (ms_state st)) es
     in ms_out (close_messages json we r) = ms_out st @ fst rel \<and>
        ss_capacityErrMsg (ms_state r) = (case snd rel of None \<Rightarrow> [] | Some m \<Rightarrow> m) \<and>
        ss_gotTerminal (ms_state r) = list_ex terminal es \<and> ss_writeErr (ms_state r) = None \<and>
        (ss_capacityErrMsg (ms_state r) \<noteq> [] \<longrightarrow> \<not> ss_wroteAnyBody (ms_state r)))"
proof (induction es arbitrary: st)
  case Nil
  then show ?case by (simp add: close_messages_patient [OF assms])
next
  case (Cons e es)
  let ?r = "translateEvent json e (ms_translator st)"
  show ?case
  proof (cases "ce_type e = ''response.failed'' \<and> \<not> ss_wroteAnyBody (ms_state st) \<and> isCapacityError (ce_error_message e)")
    case True
    then have "terminal e" by (simp add: terminal_def)
    with True Cons.prems show ?thesis
      by (simp add: messages_event_def relay_capacity_event close_messages_patient [OF assms])
  next
    case False
    note ev = messages_event_patient [OF assms False Cons.prems(1), of json]
    show ?thesis
    proof (cases "terminal e")
      case True
      have "anthropic_relay json (ms_translator st) (ss_wroteAnyBody (ms_state st)) (e # es) = (snd ?r, None)"
        by (rule relay_terminal [OF True False])
      with ev True Cons.prems show ?thesis by (simp add: Let_def close_messages_patient [OF assms])
    next
      case nt: False
      show ?thesis using Cons.IH [of "fst (messages_event json we st e)"] Cons.prems ev nt relay_step [OF nt]
        by (simp add: Let_def)
    qed
  qed
qed

lemma run_messages_stream:
  assumes "patient (us_writeErr u)"
  shows "let rel = anthropic_relay json (newAnthropicStreamTranslator (us_uuid u) model) False (us_events u);
      r = run_messages json True model u
    in snd r = map AWEvent (fst rel) \<and> ss_capacityErrMsg (fst r) = (case snd rel of None \<Rightarrow> [] | Some m \<Rightarrow> m) \<and>
       ss_gotTerminal (fst r) = list_ex terminal (us_events u) \<and> ss_writeErr (fst r) = None \<and>
       (ss_capacityErrMsg (fst r) \<noteq> [] \<longrightarrow> \<not> ss_wroteAnyBody (fst r))"
  using read_messages_relay [OF assms, of "fresh_messages (us_uuid u) model" json "us_events u"]
  by (simp add: run_messages_def fresh_messages_def fresh_stream_def Let_def)

lemma relay_capacity_text: "snd (anthropic_relay json t w es) = Some c \<Longrightarrow> c \<noteq> []"
proof (induction es arbitrary: t w)
  case (Cons e es)
  show ?case
  proof (cases "ce_type e = ''response.failed'' \<and> \<not> w \<and> isCapacityError (ce_error_message e)")
    case True
    with Cons.prems show ?thesis by (simp add: relay_capacity_event isCapacityError_def)
  next
    case False
    note off = False
    show ?thesis
    proof (cases "terminal e")
      case True
      with Cons.prems relay_terminal [OF True off] show ?thesis by simp
    next
      case nt: False
      from Cons.IH Cons.prems show ?thesis unfolding relay_step [OF nt] Let_def snd_conv by blast
    qed
  qed
qed simp

section \<open>One answer\<close>

definition one_answer :: "anthropic_write list \<Rightarrow> bool" where
  "one_answer out \<longleftrightarrow>
     (\<exists>code ty. out = [AWError code ty]) \<or> (\<exists>m. out = [AWMessage m]) \<or>
     (\<exists>evs. out = map AWEvent evs \<and> client_run Waiting evs Ended)"

lemma one_answer_intros [intro]: "one_answer [AWError code ty]" "one_answer [AWMessage m]"
  by (simp_all add: one_answer_def) (metis prod_cases3)

lemma messages_answer_one: "rep \<noteq> NoAnswer \<Longrightarrow> \<forall>c. rep \<noteq> Served c \<Longrightarrow> one_answer (messages_answer rep)"
  by (cases rep) auto

lemma collect_terminal:
  "list_ex terminal es \<Longrightarrow> ss_gotTerminal (fst (collect_messages es))"
  by (induction es) (auto simp: terminal_def)

lemma collect_capacity: "\<not> ss_wroteAnyBody (fst (collect_messages es))" "ss_writeErr (fst (collect_messages es)) = None"
  by (induction es) (simp_all add: fresh_stream_def)

text \<open>An attempt whose stream is complete: a retry has written nothing, the end has answered.\<close>

lemma complete_attempt:
  assumes "list_ex terminal (us_events u)" "patient (us_writeErr u)" "run_messages json isStream model u = (ss, out)"
    and "messages_stream_end s ad key p resp ss rerr cerr i m fl t n = (s', v)"
  shows "case v of TryAgain _ fl' \<Rightarrow> out = [] \<and> failed_before fl' | Finish _ \<Rightarrow> one_answer out"
proof -
  have g: "ss_gotTerminal ss \<and> (ss_capacityErrMsg ss \<noteq> [] \<longrightarrow> \<not> ss_wroteAnyBody ss \<and> out = []) \<and>
      (ss_capacityErrMsg ss = [] \<longrightarrow> one_answer out)"
  proof (cases isStream)
    case True
    let ?rel = "anthropic_relay json (newAnthropicStreamTranslator (us_uuid u) model) False (us_events u)"
    have r: "out = map AWEvent (fst ?rel)" "ss_capacityErrMsg ss = (case snd ?rel of None \<Rightarrow> [] | Some m \<Rightarrow> m)"
        "ss_gotTerminal ss" "ss_capacityErrMsg ss \<noteq> [] \<longrightarrow> \<not> ss_wroteAnyBody ss"
      using run_messages_stream [OF assms(2), of json model] assms(1,3) True by (simp_all add: Let_def)
    show ?thesis
    proof (cases "snd ?rel")
      case None
      then have "client_run Waiting (fst ?rel) Ended"
        using relay_follows [OF new_translator_ok, of json "us_uuid u" model False "us_events u"] by (simp add: new_translator_seen)
      with None r show ?thesis by (auto simp: one_answer_def)
    next
      case (Some c)
      then have "fst ?rel = []" using relay_capacity [of json _ False "us_events u"] by blast
      moreover have "c \<noteq> []" using Some relay_capacity_text [of json _ False "us_events u"] by blast
      ultimately show ?thesis using Some r by simp
    qed
  next
    case False
    with assms(3) have "ss = fst (collect_messages (us_events u))" "out = collected_answer json (us_outputs u) (collect_messages (us_events u))"
      by (simp_all add: run_messages_def Let_def)
    with collect_terminal [OF assms(1)] collect_capacity show ?thesis
      by (auto simp: collected_answer_def case_prod_beta split: option.split)
  qed
  with assms(4) show ?thesis
    by (auto simp: messages_stream_end_def shouldTransparentRetryStream_def classifyStreamOutcome_def failed_before_def Let_def
        split: if_splits)
qed

lemma final_reply_blames:
  assumes "final_reply messages_answer r = (s', v, out)" "\<And>x fl'. snd r = TryAgain x fl' \<Longrightarrow> failed_before fl'"
    and "\<And>rep. snd r = Finish rep \<Longrightarrow> rep \<noteq> NoAnswer \<and> (\<forall>c. rep \<noteq> Served c)"
  shows "case v of TryAgain _ fl' \<Rightarrow> out = [] \<and> failed_before fl' | Finish _ \<Rightarrow> one_answer out"
  using assms messages_answer_one by (cases r; cases v) (auto simp: final_reply_def)

lemma complete_messages_attempt:
  assumes "\<And>u. answers i ad p = Answered u \<Longrightarrow> list_ex terminal (us_events u) \<and> patient (us_writeErr u)"
    and "\<And>resp. answers i ad p = Refused resp \<Longrightarrow> rs_StatusCode resp \<noteq> 0"
    and "messages_attempt json isStream canFlush key model m answers e s ad p i fl = (s', v, out)"
  shows "case v of TryAgain _ fl' \<Rightarrow> out = [] \<and> failed_before fl' | Finish _ \<Rightarrow> one_answer out"
proof (cases "answers i ad p")
  case (Unreached msg rt)
  with assms(3) show ?thesis
    by (intro final_reply_blames [of "after_no_response s ad key msg rt fl (ae_start e) (ae_end e)"])
       (auto simp: messages_attempt_def after_no_response_def failed_before_def Let_def split: if_splits)
next
  case (Refused resp)
  with assms(2,3) show ?thesis
    by (intro final_reply_blames [of "messages_bad_status s ad key resp i m fl (ae_start e) (ae_end e)"])
       (auto simp: messages_attempt_def messages_bad_status_def failed_before_def Let_def split: if_splits)
next
  case (Answered u)
  show ?thesis
  proof (cases "isStream \<and> \<not> canFlush")
    case True
    with Answered assms(3) show ?thesis by (auto simp: messages_attempt_def)
  next
    case False
    obtain ss o1 s1 v1 where r: "run_messages json isStream model u = (ss, o1)"
      "messages_stream_end s ad key p (us_response u) ss (us_readErr u) (us_ctxErr u) i m fl (ae_start e) (ae_end e) = (s1, v1)"
      by (metis prod.exhaust)
    with Answered False assms(3) have "v = v1" "out = o1" by (auto simp: messages_attempt_def)
    with complete_attempt [OF _ _ r] assms(1) [OF Answered] show ?thesis by blast
  qed
qed

text \<open>
  C34. As long as the upstream ends the streams it begins and the client takes what is written, a request to \<open>Messages\<close> is answered
  exactly once, however often it is tried: by one error, one message, or one complete stream of the Messages API.
\<close>

theorem messages_answered_once:
  assumes "Messages json supported mapping canFlush session env answers q s = Some (s', tried, out)" "0 \<le> maxRetries s"
    and "\<And>body i ad p u. answers body i ad p = Answered u \<Longrightarrow> list_ex terminal (us_events u) \<and> patient (us_writeErr u)"
    and "\<And>body i ad p resp. answers body i ad p = Refused resp \<Longrightarrow> rs_StatusCode resp \<noteq> 0"
  shows "one_answer out"
proof (cases "messages_refusal q = None \<and> mq_parsed q \<noteq> None")
  case True
  then obtain req where q: "messages_refusal q = None" "mq_parsed q = Some req" by auto
  obtain body orig where t: "TranslateAnthropicToCodex json supported mapping req = (body, orig)" by force
  let ?att = "messages_attempt json (mq_isStream q) canFlush (session body) orig (maxRetries s) (answers body)"
  have l: "endpoint_loop env ?att messages_answer (session body) [] [0..maxRetries s] no_failures {} s = Some (s', tried, out)"
    using assms(1) by (simp add: Messages_def q t Let_def)
  have each: "case v of TryAgain _ fl' \<Rightarrow> out' = [] \<and> failed_before fl' | Finish _ \<Rightarrow> one_answer out'"
    if "?att e s1 ad p i fl = (s2, v, out')" for e s1 ad p i fl s2 v out'
    by (rule complete_messages_attempt [OF _ _ that]) (use assms(3,4) in auto)
  have quiet: "quiet_endpoint ?att"
    by unfold_locales (use each in fastforce)
  have "[0..maxRetries s] \<noteq> []" using assms(2) by simp
  then consider (answer) rep where "out = messages_answer rep" "rep \<noteq> NoAnswer" "\<forall>c. rep \<noteq> Served c" |
    (attempt) i s1 ad p fl s2 rep where "?att (env i) s1 ad p i fl = (s2, Finish rep, out)"
    using quiet_endpoint.answered [OF quiet, where B = True, OF _ l] each by fastforce
  then show ?thesis
  proof cases
    case answer
    then show ?thesis by (simp add: messages_answer_one)
  next
    case attempt
    from each [OF attempt] show ?thesis by simp
  qed
next
  case False
  with assms(1) have "\<exists>code ty. out = [AWError code ty]"
    by (auto simp: Messages_def messages_refusal_def Let_def split: option.splits if_splits)
  then show ?thesis by blast
qed

section \<open>Two answers\<close>

definition demo_messages :: "bool \<Rightarrow> messages_request" where
  "demo_messages isStream =
     \<lparr>mq_body = Some ''x'', mq_valid = True, mq_model = ''gpt-5.5'', mq_hasMessages = True, mq_isStream = isStream,
      mq_parsed = Some \<lparr>ar_Model = ''gpt-5.5'', ar_System = ContentAbsent, ar_Messages = [], ar_Tools = [],
        ar_Thinking = None, ar_ToolChoice = None\<rparr>\<rparr>"

definition demo_upstream :: "codex_event list \<Rightarrow> string option \<Rightarrow> upstream_stream" where
  "demo_upstream es readErr =
     \<lparr>us_response = demo_response 200, us_events = es, us_outputs = Some [], us_itemArguments = (\<lambda>_. []),
      us_readErr = readErr, us_ctxErr = None, us_writeErr = (\<lambda>_. None), us_uuid = ''u''\<rparr>"

definition completed_event :: codex_event where
  "completed_event = no_event\<lparr>ce_type := ''response.completed''\<rparr>"

text \<open>Accounts 3 and 1 do not answer or break off, account 2 answers.\<close>

definition demo_answers :: "upstream_answer \<Rightarrow> fields \<Rightarrow> int \<Rightarrow> addr \<Rightarrow> string \<Rightarrow> upstream_answer" where
  "demo_answers first body i ad p = (if i = 0 then first else Answered (demo_upstream [completed_event] None))"

definition demo_run :: "upstream_answer \<Rightarrow> bool \<Rightarrow> (Store \<times> (addr \<times> bool) list \<times> anthropic_write list) option" where
  "demo_run first isStream =
     Messages opaque_json [''gpt-5.5''] None True (\<lambda>_. ''s'') demo_attempt (demo_answers first) (demo_messages isStream) mixed_store"

text \<open>
  A stream that breaks off before its first event is tried again, but the handler has by then closed it for the client, or
  answered an error: a complete empty message and then the message of the next attempt, or two documents in one body.
\<close>

lemma broken_stream_answers_twice:
  "map_option (\<lambda>(s, tried, out). (map snd tried, out)) (demo_run (Answered (demo_upstream [] (Some ''eof''))) False) =
     Some ([False, True], [AWError 502 ''api_error'', AWMessage ([], ''end_turn'', no_usage)])"
  "map_option (\<lambda>(s, tried, out). length (filter (\<lambda>w. w = AWEvent MessageStop) out))
     (demo_run (Answered (demo_upstream [] (Some ''eof''))) True) = Some 2"
  by code_simp+

lemma messages_answered_once_witness:
  "\<exists>s' tried out. demo_run (Unreached ''timeout'' True) True = Some (s', tried, out) \<and> length tried = 2 \<and> one_answer out"
proof -
  have "map_option (\<lambda>(s, tried, out). length tried) (demo_run (Unreached ''timeout'' True) True) = Some 2" by code_simp
  then obtain s' tried out where r: "demo_run (Unreached ''timeout'' True) True = Some (s', tried, out)" "length tried = 2"
    by auto
  have "list_ex terminal (us_events u) \<and> patient (us_writeErr u)" if "demo_answers (Unreached ''timeout'' True) body i ad p = Answered u"
    for body i ad p u
    using that by (auto simp: demo_answers_def demo_upstream_def completed_event_def terminal_def patient_def split: if_splits)
  moreover have "rs_StatusCode resp \<noteq> 0" if "demo_answers (Unreached ''timeout'' True) body i ad p = Refused resp" for body i ad p resp
    using that by (auto simp: demo_answers_def split: if_splits)
  ultimately have "one_answer out"
    using messages_answered_once [OF r(1) [unfolded demo_run_def]] by simp
  with r show ?thesis by blast
qed

text \<open>
  \<open>Messages\<close> never looks at the plans: a request for a premium model ends up at a free account when the others fail, or at once
  when it is the only one.
\<close>

lemma messages_ignore_plans:
  "IsEffectivePremiumOnly (Some (freeGPT55Enabled mixed_store)) ''gpt-5.5''"
  "map_option (\<lambda>(s, tried, out). map (\<lambda>(ad, _). PlanType (st_heap s ad)) tried)
     (Messages opaque_json [''gpt-5.5''] None True (\<lambda>_. ''s'') demo_attempt
        (\<lambda>body i ad p. if ad \<noteq> 2 then Unreached ''timeout'' True else Answered (demo_upstream [completed_event] None))
        (demo_messages True) mixed_store) = Some [[], [], ''free'']"
  by code_simp+

end
