(* ===== verification/EndpointProps.thy ===== *)
theory EndpointProps
  imports MessagesLaws "HOL-Library.Sublist"
begin

text \<open>The properties of the endpoints: slots, plans, and how many answers a client gets.\<close>

section \<open>Slots and plans\<close>

definition returns_slots :: "Store \<Rightarrow> (Store \<times> (addr \<times> bool) list \<times> 'o list) option \<Rightarrow> bool" where
  "returns_slots s r \<longleftrightarrow>
     (\<exists>s' tried out. r = Some (s', tried, out) \<and> store_inv s' \<and> int (length tried) \<le> maxRetries s + 1 \<and>
        (\<forall>ad. ActiveRequests (st_heap s' ad) = ActiveRequests (st_heap s ad)))"

lemma returns_slotsI:
  assumes "\<exists>s' tried out. r = Some (s', tried, out) \<and> (\<forall>ad. ActiveRequests (st_heap s' ad) = ActiveRequests (st_heap s ad)) \<and>
    store_inv s' \<and> int (length tried) \<le> maxRetries s + 1 \<and> P tried"
  shows "returns_slots s r"
  using assms unfolding returns_slots_def by blast

text \<open>
  Requests to the other endpoints return as well, after a bounded number of attempts, and give back every slot they took.
\<close>

theorem endpoints_return_their_slots:
  assumes "store_inv s" "\<And>i. calm_env (env i)" "0 \<le> maxRetries s"
  shows "returns_slots s (Messages json supported mapping canFlush session env answers q s) \<and>
    returns_slots s (ChatCompletions img isStream key model bodyPaid virtualInjects env answers' s) \<and>
    returns_slots s (ResponsesCompact rewrite key model bodyPaid virtualInjects env answers'' s)"
proof -
  have "returns_slots s (Messages json supported mapping canFlush session env answers q s)"
  proof (cases "messages_refusal q = None \<and> mq_parsed q \<noteq> None")
    case True
    then obtain req where q: "messages_refusal q = None" "mq_parsed q = Some req" by auto
    obtain body orig where t: "TranslateAnthropicToCodex json supported mapping req = (body, orig)" by force
    show ?thesis
      unfolding Messages_def q t option.case prod.case Let_def by (rule returns_slotsI [OF messages.slots [OF assms refl]])
  qed (use assms in \<open>auto simp: returns_slots_def Messages_def split: option.split\<close>)
  moreover have "returns_slots s (ChatCompletions img isStream key model bodyPaid virtualInjects env answers' s)"
    unfolding ChatCompletions_def case_prod_beta Let_def by (rule returns_slotsI [OF chat.slots [OF assms refl]])
  moreover have "returns_slots s (ResponsesCompact rewrite key model bodyPaid virtualInjects env answers'' s)"
    unfolding ResponsesCompact_def case_prod_beta Let_def by (rule returns_slotsI [OF compact.slots [OF assms refl]])
  ultimately show ?thesis by blast
qed

text \<open>A premium request to these two endpoints spares the free accounts.\<close>

theorem endpoints_spare_free_accounts:
  assumes "store_inv s" "\<And>i. calm_env (env i)"
    and "IsEffectivePremiumOnly (Some (freeGPT55Enabled s)) model \<or> bodyPaid \<or> virtualInjects"
    and "map_option (\<lambda>(s, tried, out). tried) (ChatCompletions img isStream key model bodyPaid virtualInjects env answers s) = Some tried \<or>
      map_option (\<lambda>(s, tried, out). tried) (ResponsesCompact rewrite key model bodyPaid virtualInjects env answers' s) = Some tried"
    and "(ad, excluded) \<in> set tried"
  shows "normalizePlanType (PlanType (st_heap s ad)) \<noteq> ''free''"
proof -
  have p: "planDispatch s model bodyPaid virtualInjects {} = (AccountIDsByPlan s [''free''], [])"
    using assms(3) by (auto simp: planDispatch_def Let_def)
  let ?ex = "AccountIDsByPlan s [''free'']"
  have "DBID (st_heap s ad) \<notin> ?ex \<and> ad \<in> set (accounts s)"
    using assms(4,5)
      chat.loop_spec [where env = env, OF assms(2,1), where img = img and isStream = isStream and key = key
        and m = "maxRetries s" and answers = answers and answer = chat_answer and ex = ?ex
        and keya = key and plan = "[]" and attempts = "[0..maxRetries s]" and fl = no_failures]
      compact.loop_spec [where env = env, OF assms(2,1), where rewrite = rewrite and key = key
        and m = "maxRetries s" and answers = answers' and answer = compact_answer and ex = ?ex
        and keya = key and plan = "[]" and attempts = "[0..maxRetries s]" and fl = no_failures]
    by (fastforce simp: ChatCompletions_def ResponsesCompact_def p)
  moreover have "normalizePlanType ''free'' = ''free''" by code_simp
  ultimately show ?thesis by (auto simp: AccountIDsByPlan_def plan_set_def)
qed

section \<open>What a chat client gets\<close>

definition chat_stream_of :: "(string \<Rightarrow> string) \<Rightarrow> StreamTranslator \<Rightarrow> codex_event list \<Rightarrow> chat_write list" where
  "chat_stream_of img t es = map CWChunk (snd (openai_run img es t)) @ (if list_ex terminal es then [CWDone] else [])"

lemma chat_stream_of_Cons:
  "chat_stream_of img t (e # es) =
     (case Translate img t e of (t', chunk, over) \<Rightarrow>
        map CWChunk (case chunk of None \<Rightarrow> [] | Some c \<Rightarrow> [c]) @ (if over then [CWDone] else chat_stream_of img t' es))"
  using Translate_terminal [of img t e]
  by (auto simp: chat_stream_of_def Let_def case_prod_beta)

lemma write_chat_gone: "ss_writeErr (ch_state st) \<noteq> None \<Longrightarrow> write_chat we w st = st"
  by (simp add: write_chat_def)

lemma read_chat_gone:
  "ss_writeErr (ch_state st) \<noteq> None \<Longrightarrow> ch_out (read_chat img we st es) = ch_out st"
proof (induction es arbitrary: st)
  case (Cons e es)
  have "ss_writeErr (ch_state (fst (chat_event img we st e))) \<noteq> None \<and> ch_out (fst (chat_event img we st e)) = ch_out st"
    using Cons.prems
    by (simp add: chat_event_def write_chat_gone Let_def case_prod_beta split: option.split)
  with Cons.IH show ?case by (simp add: case_prod_beta)
qed simp

lemma write_chat_frame [simp]:
  "ss_gotTerminal (ch_state (write_chat we w st)) = ss_gotTerminal (ch_state st)"
  "ss_capacityErrMsg (ch_state (write_chat we w st)) = ss_capacityErrMsg (ch_state st)"
  "ch_translator (write_chat we w st) = ch_translator st"
  by (simp_all add: write_chat_def split: option.split)

lemma write_chat_cases:
  assumes "ss_writeErr (ch_state st) = None"
  obtains (failed) "ss_writeErr (ch_state (write_chat we w st)) \<noteq> None" "ch_out (write_chat we w st) = ch_out st"
      "\<not> (\<forall>n. we n = None)"
  | (written) "ss_writeErr (ch_state (write_chat we w st)) = None" "ch_out (write_chat we w st) = ch_out st @ [w]"
  using assms by (cases "we (ch_writes st)") (auto simp: write_chat_def)

text \<open>The state after an event that is not swallowed.\<close>

definition chat_chunk :: "(nat \<Rightarrow> string option) \<Rightarrow> openai_chunk option \<Rightarrow> chat_stream \<Rightarrow> chat_stream" where
  "chat_chunk we chunk st = (case chunk of None \<Rightarrow> st | Some c \<Rightarrow> write_chat we (CWChunk c) st)"

lemma chat_chunk_frame [simp]:
  "ss_gotTerminal (ch_state (chat_chunk we w st)) = ss_gotTerminal (ch_state st)"
  "ss_capacityErrMsg (ch_state (chat_chunk we w st)) = ss_capacityErrMsg (ch_state st)"
  "ch_translator (chat_chunk we w st) = ch_translator st"
  by (simp_all add: chat_chunk_def split: option.split)

lemma chat_chunk_cases:
  assumes "ss_writeErr (ch_state st) = None"
  obtains (failed) "ss_writeErr (ch_state (chat_chunk we chunk st)) \<noteq> None" "ch_out (chat_chunk we chunk st) = ch_out st"
      "\<not> (\<forall>n. we n = None)"
  | (written) "ss_writeErr (ch_state (chat_chunk we chunk st)) = None"
      "ch_out (chat_chunk we chunk st) = ch_out st @ map CWChunk (case chunk of None \<Rightarrow> [] | Some c \<Rightarrow> [c])"
proof (cases chunk)
  case None
  with assms show thesis by (intro written) (simp_all add: chat_chunk_def)
next
  case (Some c)
  then have e: "chat_chunk we chunk st = write_chat we (CWChunk c) st" by (simp add: chat_chunk_def)
  from assms show thesis
    by (cases rule: write_chat_cases [where we = we and w = "CWChunk c"]) (use failed written e Some in simp_all)
qed

lemma chat_event_eq:
  assumes "\<not> (ce_type e = ''response.failed'' \<and> \<not> ss_wroteAnyBody (ch_state st) \<and> isCapacityError (ce_error_message e))"
    and "Translate img (ch_translator st) e = (t, chunk, over)" "\<not> ss_gotTerminal (ch_state st)"
  shows "chat_event img we st e =
    (let st1 = chat_chunk we chunk (st\<lparr>ch_state := (ch_state st)\<lparr>ss_gotTerminal := over\<rparr>, ch_translator := t\<rparr>)
     in (if over then write_chat we CWDone st1 else st1, \<not> over))"
proof -
  have o: "over \<longleftrightarrow> terminal e" using Translate_terminal [of img "ch_translator st" e] assms(2) by simp
  have s: "(if over then (ch_state st)\<lparr>ss_gotTerminal := True\<rparr> else ch_state st) = (ch_state st)\<lparr>ss_gotTerminal := over\<rparr>"
    using assms(3) by simp
  let ?st1 = "chat_chunk we chunk (st\<lparr>ch_state := (ch_state st)\<lparr>ss_gotTerminal := over\<rparr>, ch_translator := t\<rparr>)"
  have "chat_event img we st e =
      (let st1 = ?st1; st2 = (if over then write_chat we CWDone st1 else st1)
       in (st2, \<not> (over \<and> ss_writeErr (ch_state st2) = None) \<and> \<not> ss_gotTerminal (ch_state st2)))"
    unfolding chat_event_def Let_def if_not_P [OF assms(1)] assms(2) prod.case o [symmetric] s chat_chunk_def [symmetric] ..
  moreover have "ss_gotTerminal (ch_state ?st1) = over" by simp
  ultimately show ?thesis by (cases over) (simp_all add: Let_def)
qed

lemma read_chat_prefix:
  assumes "ss_writeErr (ch_state st) = None" "\<not> ss_gotTerminal (ch_state st)" "ss_capacityErrMsg (ch_state st) = []"
  shows "prefix (ch_out (read_chat img we st es)) (ch_out st @ chat_stream_of img (ch_translator st) es) \<and>
    ((\<forall>n. we n = None) \<longrightarrow> ss_capacityErrMsg (ch_state (read_chat img we st es)) = [] \<longrightarrow>
       ch_out (read_chat img we st es) = ch_out st @ chat_stream_of img (ch_translator st) es)"
  using assms
proof (induction es arbitrary: st)
  case Nil
  then show ?case by (simp add: chat_stream_of_def)
next
  case (Cons e es)
  show ?case
  proof (cases "ce_type e = ''response.failed'' \<and> \<not> ss_wroteAnyBody (ch_state st) \<and> isCapacityError (ce_error_message e)")
    case True
    then have "ce_error_message e \<noteq> []" by (simp add: isCapacityError_def)
    with True show ?thesis by (simp add: chat_event_def)
  next
    case False
    obtain t chunk over where tr: "Translate img (ch_translator st) e = (t, chunk, over)" by (metis prod_cases3)
    let ?st = "st\<lparr>ch_state := (ch_state st)\<lparr>ss_gotTerminal := over\<rparr>, ch_translator := t\<rparr>"
    let ?st1 = "chat_chunk we chunk ?st"
    note ev = chat_event_eq [OF False tr Cons.prems(2), of we]
    have w: "ss_writeErr (ch_state ?st) = None" using Cons.prems(1) by simp
    have full: "chat_stream_of img (ch_translator st) (e # es) =
        map CWChunk (case chunk of None \<Rightarrow> [] | Some c \<Rightarrow> [c]) @ (if over then [CWDone] else chat_stream_of img t es)"
      by (simp add: chat_stream_of_Cons tr)
    show ?thesis
    proof (cases over)
      case True
      have r: "read_chat img we st (e # es) = write_chat we CWDone ?st1" using ev True by (simp add: Let_def)
      from w show ?thesis
      proof (cases rule: chat_chunk_cases [where we = we and chunk = chunk])
        case failed
        then have "write_chat we CWDone ?st1 = ?st1" by (simp add: write_chat_gone)
        with failed show ?thesis unfolding r by auto
      next
        case written
        from written(1) show ?thesis
        proof (cases rule: write_chat_cases [where we = we and w = CWDone])
          case failed
          then show ?thesis unfolding r full using written(2) by auto
        next
          case w2: written
          have "ch_out (read_chat img we st (e # es)) = ch_out st @ chat_stream_of img (ch_translator st) (e # es)"
            unfolding r full w2(2) written(2) using True by simp
          then show ?thesis by (metis prefix_order.refl)
        qed
      qed
    next
      case False
      have r: "read_chat img we st (e # es) = read_chat img we ?st1 es" using ev False by (simp add: Let_def)
      from w show ?thesis
      proof (cases rule: chat_chunk_cases [where we = we and chunk = chunk])
        case failed
        then show ?thesis using read_chat_gone [of ?st1] unfolding r by auto
      next
        case written
        then have eq: "ch_out st @ chat_stream_of img (ch_translator st) (e # es) = ch_out ?st1 @ chat_stream_of img (ch_translator ?st1) es"
          using full False by simp
        show ?thesis unfolding r eq by (rule Cons.IH) (use written Cons.prems False in simp_all)
      qed
    qed
  qed
qed

lemma chat_event_capacity:
  assumes "ss_capacityErrMsg (ch_state st) = []"
  shows "ss_capacityErrMsg (ch_state (fst (chat_event img we st e))) = [] \<or>
    \<not> ss_wroteAnyBody (ch_state (fst (chat_event img we st e))) \<and> \<not> snd (chat_event img we st e)"
  using assms by (simp add: chat_event_def Let_def case_prod_beta split: option.split)

lemma read_chat_capacity:
  "ss_capacityErrMsg (ch_state st) = [] \<Longrightarrow> ss_capacityErrMsg (ch_state (read_chat img we st es)) \<noteq> [] \<Longrightarrow>
   \<not> ss_wroteAnyBody (ch_state (read_chat img we st es))"
proof (induction es arbitrary: st)
  case (Cons e es)
  show ?case
  proof (cases "snd (chat_event img we st e)")
    case True
    with chat_event_capacity [OF Cons.prems(1), of img we e] Cons.IH Cons.prems(2) show ?thesis by (auto simp: case_prod_beta)
  next
    case False
    with chat_event_capacity [OF Cons.prems(1), of img we e] Cons.prems(2) show ?thesis by (auto simp: case_prod_beta)
  qed
qed simp


section \<open>Witnesses, and what a broken stream looks like\<close>

definition demo_chat :: "bool \<Rightarrow> upstream_answer \<Rightarrow> (Store \<times> (addr \<times> bool) list \<times> chat_write list) option" where
  "demo_chat isStream later =
     ChatCompletions id isStream ''s'' ''gpt-5.5'' False False demo_attempt
       (\<lambda>i ad p. if i = 0 then Unreached ''timeout'' True else later) mixed_store"

definition text_event :: codex_event where
  "text_event = no_event\<lparr>ce_type := ''response.output_text.delta'', ce_delta := ''hi''\<rparr>"

lemma demo_chat_out:
  "map_option (\<lambda>(s, tried, out). (map fst tried, out)) (demo_chat True (Answered (demo_upstream [text_event, completed_event] None))) =
     Some ([3, 1], [CWChunk (ContentChunk ''hi''), CWChunk (FinalChunk ''stop'' None), CWDone])"
  by code_simp


lemma endpoints_return_their_slots_witness:
  "returns_slots mixed_store (demo_chat True (Answered (demo_upstream [text_event, completed_event] None)))"
  using endpoints_return_their_slots [of mixed_store demo_attempt] by (simp add: demo_chat_def)

lemma endpoints_spare_free_accounts_witness:
  "\<exists>tried. map_option (\<lambda>(s, tried, out). tried) (demo_chat True (Answered (demo_upstream [text_event, completed_event] None))) = Some tried \<and>
     fst (hd tried) = 3 \<and> normalizePlanType (PlanType (st_heap mixed_store 3)) \<noteq> ''free''"
proof -
  obtain s' tried out where r: "demo_chat True (Answered (demo_upstream [text_event, completed_event] None)) = Some (s', tried, out)"
    and t: "map fst tried = [3, 1]" using demo_chat_out by auto
  then obtain x rest where "tried = (3, x) # rest" by (cases tried) auto
  moreover have "IsEffectivePremiumOnly (Some (freeGPT55Enabled mixed_store)) ''gpt-5.5''" by code_simp
  ultimately have "normalizePlanType (PlanType (st_heap mixed_store 3)) \<noteq> ''free''"
    using endpoints_spare_free_accounts [where ad = 3 and excluded = x, of mixed_store demo_attempt "''gpt-5.5''" False False id True "''s''"
        "\<lambda>i ad p. if i = 0 then Unreached ''timeout'' True else Answered (demo_upstream [text_event, completed_event] None)" tried]
      r by (simp add: demo_chat_def)
  with r t show ?thesis by (cases tried) auto
qed

text \<open>
  A stream that breaks off at the last attempt: the client without streaming gets the beginning as a finished document, the
  client of a stream nothing at all, and no error in either case.
\<close>

lemma broken_stream_looks_finished:
  "map_option (\<lambda>(s, tried, out). out) (demo_chat False (Answered (demo_upstream [text_event] (Some ''eof'')))) =
     Some [CWDocument (Some ''hi'', [], ''stop'')]"
  "map_option (\<lambda>(s, tried, out). out) (demo_chat True (Answered (demo_upstream [] (Some ''eof'')))) = Some []"
  by code_simp+

end
