(* ===== verification/Spec2Isabelle.thy ===== *)
theory Spec2Isabelle
  imports AccountLaws AcquireLaws SchedulerSteps MemoryCache StoreProps RefreshLaws UpstreamLaws DispatchLaws
    RateLimitLaws SecurityLaws RefreshSchedulerLaws ProxyPoolLaws TranslationLaws RequestBodyLaws
    WsRelayLaws WsSteps WsExecutorLaws SseReader DeviceProfileLaws KeepaliveLaws UpstreamClientLaws UtlsTransport
    ApiValidationLaws AccessLaws SettingsLaws AccountTableLaws DedupeLaws OAuthLaws UsageLogLaws DialogLaws EndpointProps
begin

text \<open>
  A verification development for codex2api, the Go proxy that serves an OpenAI-compatible and an
  Anthropic-compatible API from a pool of upstream accounts. File names below are relative to the directory
  \<open>src\<close> of the repository.

  The program. A request passes the limiters (\<open>proxy/ratelimit.go\<close>, \<open>security/middleware.go\<close>), the check of its
  API key (\<open>proxy/handler.go\<close>) and the rules for its body (\<open>api/validation.go\<close>), and reaches a handler (\<open>proxy/handler.go\<close>, \<open>proxy/handler_anthropic.go\<close>). The handler decides which accounts the model and
  the tools of the request allow, and takes an account out of the pool (\<open>auth/store.go\<close>), which
  keeps a sorted in-memory scheduler (\<open>auth/fast_scheduler.go\<close>) beside its list and binds sessions to accounts. It
  sends the request upstream through one of the outbound proxies (\<open>auth/proxy_pool.go\<close>), over HTTP
  (\<open>proxy/executor.go\<close>) or a WebSocket (\<open>proxy/wsrelay\<close>), with the headers of the official client
  (\<open>proxy/device_profile.go\<close>), translates the stream
  of events for the client (\<open>proxy/anthropic.go\<close>, \<open>proxy/translator.go\<close>), reads usage and errors from the response
  and reports the outcome to the pool, which recomputes score, tier and concurrency limit of the account; on a
  failure it tries the next account. In the background access tokens are refreshed (\<open>auth/token.go\<close>,
  \<open>auth/rt_manager.go\<close>, \<open>auth/refresh_scheduler.go\<close>) under the locks of the token cache (\<open>cache/memory.go\<close>), and
  sweeps and probes bring accounts in and out of rotation. Accounts and settings live in a database
  (\<open>database/postgres.go\<close>), from which the pool is filled at the start (\<open>main.go\<close>); the admin API (\<open>admin/handler.go\<close>,
  \<open>admin/dedupe.go\<close>) changes both.

  Theories and code.
  \<^item> \<open>Prelude\<close>: Go's clock (nanoseconds since year 1, the zero time is 0), saturating and truncating arithmetic,
    string functions, lemmas on lists and sorting; the collections of hints.
  \<^item> \<open>Account\<close>: type \<open>Account\<close> of \<open>auth/store.go\<close> and the predicates of \<open>auth/premium_rate_limit.go\<close>; the part of
    every report that runs under the lock of the account is one function on the record. \<open>AccountLaws\<close>: bounds of
    the score and of the dynamic limit, the ring of results as a sliding window, availability, what reports do to
    a ban.
  \<^item> \<open>FastScheduler\<close>: \<open>auth/fast_scheduler.go\<close>, every operation. \<open>FastSchedulerLaws\<close>: its invariant (sorted buckets,
    exact positions, exact bound of the proven accounts), kept by every operation. \<open>AcquireLaws\<close>: termination of
    \<open>AcquireExcluding\<close> (each rescan repairs one stale entry), what an acquired account and the answer nil mean.
    \<open>SchedulerSteps\<close>: the scheduler as a step relation, and the race of requests on one counter, with
    and without compare-and-swap.
  \<^item> \<open>MemoryCache\<close>: \<open>cache/memory.go\<close>, with the interface \<open>cache.TokenCache\<close> as the locale \<open>token_cache\<close>.
  \<^item> \<open>Store\<close>, \<open>StoreOps\<close>: the pool of \<open>auth/store.go\<close>: construction, settings, proxies, choice of an account on
    the fast and the slow path, sessions, waiting, adding and removing, reports, sweeps. \<open>StoreLaws\<close>: list, index and
    scheduler agree; taking an account as the locale \<open>acquirer\<close>. \<open>StoreProps\<close>: the properties of the pool.
  \<^item> \<open>Refresh\<close>, \<open>RefreshLaws\<close>: the refresh of a token with its retries, lock and cache, \<open>auth/token.go\<close> and
    \<open>auth/rt_manager.go\<close>; probes.
  \<^item> \<open>GoHeap\<close>: \<open>container/heap\<close> of Go's library over the locale \<open>heap_interface\<close>. \<open>RefreshScheduler\<close>:
    \<open>auth/refresh_scheduler.go\<close>; \<open>RefreshQueueLaws\<close> interprets the heap on its queue; \<open>RefreshSchedulerLaws\<close>: the
    scheduler as a step relation, its invariant, the order of dispatch.
  \<^item> \<open>Upstream\<close>, \<open>UpstreamLaws\<close>: usage headers, error bodies and cooldowns of \<open>proxy/handler.go\<close>.
  \<^item> \<open>Dispatch\<close>, \<open>DispatchLaws\<close>: plan gating, account preference and the retry loop of \<open>Responses\<close>
    in \<open>proxy/handler.go\<close> and \<open>proxy/capacity_retry.go\<close>; what a whole request does to the slots of the pool.
  \<^item> \<open>Endpoints\<close>: the retry loop of the other endpoints as one function of what an attempt does and writes, and \<open>Messages\<close> of
    \<open>proxy/handler_anthropic.go\<close>. \<open>Completions\<close>: \<open>ChatCompletions\<close> and \<open>ResponsesCompact\<close> of \<open>proxy/handler.go\<close>.
    \<open>EndpointsLaws\<close>: the locales \<open>endpoint\<close> (an attempt gives back its slot) and \<open>quiet_endpoint\<close> (a retried attempt has
    written nothing), interpreted on the three. \<open>MessagesLaws\<close>, \<open>EndpointProps\<close>: slots, plans, and how many answers a client gets.
  \<^item> \<open>Admission\<close>: the locale \<open>admission\<close>, the contract of a rate limiter (a credit that pays for every request).
    \<open>RateLimit\<close>, \<open>RateLimitLaws\<close>: \<open>proxy/ratelimit.go\<close>. \<open>Security\<close>, \<open>SecurityLaws\<close>: \<open>security/middleware.go\<close> and
    \<open>security/validator.go\<close>. Token bucket, level, global limiter and limiter per address interpret \<open>admission\<close>.
  \<^item> \<open>ProxyPool\<close>, \<open>ProxyPoolLaws\<close>: \<open>auth/proxy_pool.go\<close>; the three strategies interpret the locale \<open>selector\<close>.
  \<^item> \<open>Translation\<close>, \<open>TranslationLaws\<close>: the streams of \<open>proxy/anthropic.go\<close>, \<open>proxy/translator.go\<close> and the relay of
    \<open>proxy/handler_anthropic.go\<close>; the protocol of the Messages API as an automaton that the translator refines.
  \<^item> \<open>JsonSchema\<close>, \<open>JsonSchemaLaws\<close>: JSON values and the cleaning of tool schemas (\<open>proxy/translator.go\<close>).
    \<open>RequestBody\<close>, \<open>RequestBodyLaws\<close>: the bodies of all three APIs on their way to the upstream
    (\<open>proxy/translator.go\<close>, \<open>proxy/anthropic.go\<close>), virtual models (\<open>proxy/model_overrides.go\<close>), the cache of parsed
    requests and the cache of responses (\<open>proxy/response_cache.go\<close>).
  \<^item> \<open>WsRelay\<close>: the manager of WebSocket connections with its sessions and pending requests
    (\<open>proxy/wsrelay/manager.go\<close>, \<open>proxy/wsrelay/session.go\<close>). \<open>WsRelayLaws\<close>: keys of the pool, lemmas on its operations.
    \<open>WsSteps\<close>: requests, dials, sweeps and heartbeats as a step relation, and when a connection is used by one request at a time.
    \<open>WsExecutor\<close>, \<open>WsExecutorLaws\<close>: one request over such a connection (\<open>proxy/wsrelay/executor.go\<close>,
    \<open>proxy/wsrelay/message.go\<close>): sending, the retry, reading the frames of the answer.
  \<^item> \<open>SseReader\<close>: the reader of event streams, \<open>ReadSSEStream\<close> of \<open>proxy/executor.go\<close>.
  \<^item> \<open>DeviceProfile\<close>: the device profile of a client, its version and its cache (\<open>proxy/device_profile.go\<close>,
    \<open>proxy/useragent.go\<close>). \<open>DeviceProfileLaws\<close>: version round trip, the profile as an invariant of the cache, what becomes of the client's headers.
  \<^item> \<open>UpstreamClient\<close>: the HTTP clients of accounts, the request with its headers and session, the headers of the WebSocket
    handshake and the errors (\<open>proxy/executor.go\<close>, \<open>proxy/errors.go\<close>, \<open>proxy/resin.go\<close>, \<open>auth/proxy_transport.go\<close>,
    \<open>proxy/wsrelay/executor.go\<close>). \<open>UpstreamClientLaws\<close>: no two accounts share a client; what a request names.
  \<^item> \<open>UtlsTransport\<close>: the connections per host of \<open>proxy/utls_transport.go\<close> as a step relation on goroutines that wait on
    a condition variable; its invariant.
  \<^item> \<open>Keepalive\<close>, \<open>KeepaliveLaws\<close>: the writers of \<open>proxy/keepalive.go\<close> that keep a slow answer alive: what the client reads
    under every interleaving of beats and writes.
  \<^item> \<open>ApiValidation\<close>, \<open>ApiValidationLaws\<close>: the rules of \<open>api/validation.go\<close> and the documents of \<open>api/errors.go\<close>.
  \<^item> \<open>Access\<close>, \<open>AccessLaws\<close>: the API keys and their cache, the middleware of \<open>proxy/handler.go\<close>.
  \<^item> \<open>Settings\<close>: the settings of the system from their row in the database to the running server (\<open>main.go\<close>), the admin
    secret and its middleware, \<open>GetSettings\<close> and \<open>UpdateSettings\<close> of \<open>admin/handler.go\<close>. \<open>SettingsLaws\<close>: bounds, restart, who
    may change what, what a refused or failed request leaves behind.
  \<^item> \<open>AccountTable\<close>: the table of accounts, the statements of \<open>database/postgres.go\<close> on it, and \<open>Init\<close> and \<open>loadFromDB\<close> of
    \<open>auth/store.go\<close>. \<open>AccountTableLaws\<close>: the pool of a started server, cooldowns across a restart.
  \<^item> \<open>Dedupe\<close>, \<open>DedupeLaws\<close>: \<open>admin/dedupe.go\<close>, duplicate accounts and their removal from table and pool.
  \<^item> \<open>AccountAdmin\<close>, \<open>AccountImport\<close>: the handlers of \<open>admin/handler.go\<close> that add, import, delete, lock, reset and schedule
    accounts. \<open>AccountAdminLaws\<close>: table and pool agree after any sequence of them; an import repeated adds nothing.
  \<^item> \<open>OAuth\<close>, \<open>OAuthLaws\<close>: signing in, \<open>admin/oauth.go\<close>: sessions, the request to the token endpoint, the callback. An
    account is added only for the session whose state came back.
  \<^item> \<open>UsageLog\<close>: the log of requests in \<open>database/postgres.go\<close> and \<open>database/sqlite.go\<close>, its buffer, flushes, totals, lists
    and charts. \<open>UsageLogLaws\<close>: what is counted, pages, where the two databases agree.
  \<^item> \<open>Dialog\<close>: the collector of dialogs in \<open>proxy/dialog_collector.go\<close>, its table in \<open>database/dialog_logs.go\<close> and the handlers of
    \<open>admin/handler.go\<close>. \<open>DialogLaws\<close>: what is counted, the partitions by month, what is read back.

  Conventions. State is passed explicitly; an operation that runs under a mutex is one function. Accounts are
  shared by pointer between the pool and the scheduler, so they live in a heap of addresses (\<open>st_heap\<close>). The clock,
  random numbers, answers of the network and of the database, and what other goroutines do while an operation
  is blocked are arguments. Calls to the database are recorded in a log. JSON is known through the functions of
  the library that the code calls, or is a value of type \<open>json\<close> where the code handles it as such. A float64 is a rational number; integers are unbounded where they count
  something in memory and wrap where the code computes with numbers from outside (\<open>wrap64\<close> in \<open>Upstream\<close>, weights in
  \<open>ProxyPool\<close>).

  Loops and fuel. Loops of the code are structural recursion on the list they consume, or \<open>function\<close> with a measure
  (\<open>heap_up\<close>, \<open>heap_down\<close>, \<open>processScheduledTasks\<close>, \<open>runes\<close>). \<open>AcquireExcluding\<close> restarts its scan after a stale entry
  and is a partial function; \<open>acquire_terminates\<close> shows that it returns from every state that satisfies
  the invariant. The retry loops run on the number of attempts that the code itself bounds.

  Not modelled: sockets, TLS and HTTP, the parsing and serialising of JSON, the SQL of API keys and proxies,
  Redis, the handshake and frames of WebSockets, images, what is collected of a stream for the dialogs, the admin handlers that only read or
  only pass on to the database, the environment variables, the tickers that
  start the periodic operations, and regular expressions. What of these the modelled code relies on is an
  argument of the definitions that use it.
\<close>

end
